(* ===== verification/Kcc_Prelude.thy ===== *)
theory Kcc_Prelude
  imports Main "HOL-Library.Word" "HOL-Library.Sublist"
begin

text \<open>
  The prelude of the kcc development: the result type of every fallible operation, its
  sequencing operator with the rules that let the simplifier and the function package see
  through it, and the generic facts on lists, alignment and machine integers that the
  component theories share.

  An operation of the compiler ends in one of these ways:
  \<^item> it returns (\<open>Inr\<close>);
  \<^item> it calls one of the \<open>Error\<close> overloads of \<open>src/error.h\<close>, which print the diagnostic and
    leave the process (\<open>Inl (Diag m)\<close>, \<open>m\<close> the format string of the call);
  \<^item> a C++ \<open>assert\<close> fails (\<open>Inl Assert_Fail\<close>): the model is of the build with assertions;
  \<^item> it reads a string or a vector past its end (\<open>Inl Out_Of_Range\<close>) or follows a null
    pointer (\<open>Inl Null_Deref\<close>), which is undefined behaviour in the source;
  \<^item> signed arithmetic leaves the 32 bits of its type (\<open>Inl Int_Overflow\<close>), undefined
    behaviour as well;
  \<^item> an exception of the standard library leaves \<open>main\<close> (\<open>Inl (Uncaught m)\<close>);
  \<^item> the bound on the recursion depth of the parser's model is too small for the input
    (\<open>Inl Out_Of_Fuel\<close>): no result of the program, but of the model.
\<close>

datatype kcc_error =
    Diag string
  | Assert_Fail
  | Out_Of_Range
  | Null_Deref
  | Int_Overflow
  | Uncaught string
  | Out_Of_Fuel

type_synonym 'a result = "kcc_error + 'a"

named_theorems result_simps \<open>equations that take sequenced operations apart\<close>

definition bindE :: "'a result \<Rightarrow> ('a \<Rightarrow> 'b result) \<Rightarrow> 'b result" where
  "bindE m f = (case m of Inl e \<Rightarrow> Inl e | Inr x \<Rightarrow> f x)"

definition assertE :: "bool \<Rightarrow> 'a result \<Rightarrow> 'a result" where
  "assertE c k = (if c then k else Inl Assert_Fail)"

lemma bindE_Inl [simp]: "bindE (Inl e) f = Inl e"
  by (simp add: bindE_def)

lemma bindE_Inr [simp]: "bindE (Inr x) f = f x"
  by (simp add: bindE_def)

lemma bindE_eq_Inr [result_simps]:
  "(bindE m f = Inr y) \<longleftrightarrow> (\<exists>x. m = Inr x \<and> f x = Inr y)"
  by (cases m) auto

lemma bindE_eq_Inl [result_simps]:
  "(bindE m f = Inl e) \<longleftrightarrow> (m = Inl e \<or> (\<exists>x. m = Inr x \<and> f x = Inl e))"
  by (cases m) auto

lemma bindE_assoc: "bindE (bindE m f) g = bindE m (\<lambda>x. bindE (f x) g)"
  by (cases m) auto

lemma bindE_right_unit [simp]: "bindE m Inr = m"
  by (cases m) auto

lemma bindE_cong [fundef_cong]:
  assumes "m = m'" and "\<And>x. m' = Inr x \<Longrightarrow> f x = f' x"
  shows "bindE m f = bindE m' f'"
  using assms by (cases m') auto

lemma assertE_True [simp]: "assertE True k = k"
  by (simp add: assertE_def)

lemma assertE_False [simp]: "assertE False k = Inl Assert_Fail"
  by (simp add: assertE_def)

text \<open>Every result of a computation that does not fail satisfies \<open>P\<close>; introduced along the computation.\<close>

definition yields :: "('a \<Rightarrow> bool) \<Rightarrow> 'a result \<Rightarrow> bool" where
  "yields P m = (\<forall>x. m = Inr x \<longrightarrow> P x)"

lemma yields_simps [simp]:
  "yields P (Inr x) = P x" "yields P (Inl err) = True"
  by (simp_all add: yields_def)

lemma yields_if: "(b \<Longrightarrow> yields P x) \<Longrightarrow> (\<not> b \<Longrightarrow> yields P y) \<Longrightarrow> yields P (if b then x else y)"
  by simp

lemma yields_bind: "(\<And>x. m = Inr x \<Longrightarrow> yields P (f x)) \<Longrightarrow> yields P (bindE m f)"
  by (cases m) auto

lemma assertE_eq_Inr [result_simps]: "(assertE c k = Inr y) \<longleftrightarrow> (c \<and> k = Inr y)"
  by (simp add: assertE_def)

lemma assertE_eq_Inl [result_simps]:
  "(assertE c k = Inl e) \<longleftrightarrow> ((\<not> c \<and> e = Assert_Fail) \<or> (c \<and> k = Inl e))"
  by (auto simp: assertE_def)

lemma assertE_cong [fundef_cong]:
  assumes "c = c'" and "c' \<Longrightarrow> k = k'"
  shows "assertE c k = assertE c' k'"
  using assms by (simp add: assertE_def)

subsection \<open>Slices\<close>

text \<open>The bytes of \<open>xs\<close> from position \<open>a\<close> up to, and without, position \<open>b\<close>.\<close>

definition segment :: "nat \<Rightarrow> nat \<Rightarrow> 'a list \<Rightarrow> 'a list" where
  "segment a b xs = take (b - a) (drop a xs)"

lemma segment_empty [simp]: "segment a a xs = []"
  by (simp add: segment_def)

lemma length_segment [simp]: "b \<le> length xs \<Longrightarrow> length (segment a b xs) = b - a"
  by (simp add: segment_def)

lemma segment_snoc: "a \<le> b \<Longrightarrow> b < length xs \<Longrightarrow> segment a (Suc b) xs = segment a b xs @ [xs ! b]"
  by (simp add: segment_def Suc_diff_le take_Suc_conv_app_nth)

lemma butlast_segment: "a < b \<Longrightarrow> b \<le> length xs \<Longrightarrow> butlast (segment a b xs) = segment a (b - 1) xs"
  by (simp add: segment_def butlast_take)

lemma segment_append:
  "a \<le> b \<Longrightarrow> b \<le> c \<Longrightarrow> segment a b xs @ segment b c xs = segment a c xs"
  using take_add [of "b - a" "c - b" "drop a xs"] by (simp add: segment_def)

lemma nth_segment: "a + i < b \<Longrightarrow> b \<le> length xs \<Longrightarrow> segment a b xs ! i = xs ! (a + i)"
  by (simp add: segment_def)

lemma set_segment:
  assumes "b \<le> length xs" and "x \<in> set (segment a b xs)"
  shows "\<exists>i. a \<le> i \<and> i < b \<and> x = xs ! i"
proof -
  from assms obtain i where i: "i < b - a" "x = segment a b xs ! i"
    by (auto simp: in_set_conv_nth)
  with assms(1) have "x = xs ! (a + i)" by (simp add: nth_segment)
  with i(1) show ?thesis by (intro exI [of _ "a + i"]) simp
qed

subsection \<open>Weakest preconditions\<close>

text \<open>
  \<open>wpE A Q m\<close>: the operation \<open>m\<close> returns a value that satisfies \<open>Q\<close>, or ends in an error
  that \<open>A\<close> allows. The equations push \<open>wpE\<close> through sequencing, so that a specification of a
  composed operation is a chain of the specifications of its steps.
\<close>

definition wpE :: "(kcc_error \<Rightarrow> bool) \<Rightarrow> ('a \<Rightarrow> bool) \<Rightarrow> 'a result \<Rightarrow> bool" where
  "wpE A Q m = (case m of Inl e \<Rightarrow> A e | Inr x \<Rightarrow> Q x)"

lemma wpE_simps [simp]:
  "wpE A Q (Inr x) = Q x"
  "wpE A Q (Inl e) = A e"
  "wpE A Q (bindE m f) = wpE A (\<lambda>x. wpE A Q (f x)) m"
  "wpE A Q (assertE c k) = (if c then wpE A Q k else A Assert_Fail)"
  by (auto simp: wpE_def bindE_def split: sum.split)

lemma wpE_if: "wpE A Q (if c then a else b) = (if c then wpE A Q a else wpE A Q b)"
  by simp

lemma wpE_mono: "wpE A Q m \<Longrightarrow> (\<And>x. m = Inr x \<Longrightarrow> Q x \<Longrightarrow> Q' x) \<Longrightarrow> wpE A Q' m"
  by (auto simp: wpE_def split: sum.splits)

lemma wpE_conj: "wpE A Q m \<Longrightarrow> wpE A Q' m \<Longrightarrow> wpE A (\<lambda>x. Q x \<and> Q' x) m"
  by (auto simp: wpE_def split: sum.splits)

lemma wpE_Inr: "wpE A Q m \<Longrightarrow> m = Inr x \<Longrightarrow> Q x"
  by (simp add: wpE_def)

lemma wpE_Inl: "wpE A Q m \<Longrightarrow> m = Inl e \<Longrightarrow> A e"
  by (simp add: wpE_def)

lemma wpE_I: "(\<And>e. m = Inl e \<Longrightarrow> A e) \<Longrightarrow> (\<And>x. m = Inr x \<Longrightarrow> Q x) \<Longrightarrow> wpE A Q m"
  by (simp add: wpE_def split: sum.splits)

end
