(* ===== verification/Kcc_Location.thy ===== *)
theory Kcc_Location
  imports Kcc_Prelude
begin

text \<open>
  Source positions: the class \<open>Location\<close> of \<open>src/location.h\<close> and \<open>src/location.cpp\<close>.
  The fields keep the source's names (without the trailing underscore). \<open>content\<close> is the \<open>const char*\<close> of the whole source
  text (\<open>None\<close> where the pointer has not been set), read up to its first null byte. The
  \<open>std::int32_t\<close> row and column are \<open>int\<close>.
\<close>

record location =
  file_name :: string
  content :: "string option"
  line_begin :: nat
  row :: int
  column :: int
  line_begin_backup :: nat
  column_backup :: int

definition Location_init :: location where
  "Location_init = \<lparr>file_name = [], content = None, line_begin = 0, row = 1, column = 1,
     line_begin_backup = 0, column_backup = 0\<rparr>"

definition SetFileName :: "string \<Rightarrow> location \<Rightarrow> location result" where
  "SetFileName name l = assertE (name \<noteq> []) (Inr (l\<lparr>file_name := name\<rparr>))"

definition SetContent :: "string \<Rightarrow> location \<Rightarrow> location" where
  "SetContent str l = l\<lparr>content := Some str\<rparr>"

definition NextColumn :: "location \<Rightarrow> location" where
  "NextColumn l = l\<lparr>column := column l + 1\<rparr>"

definition NextRow :: "nat \<Rightarrow> location \<Rightarrow> location" where
  "NextRow start l =
     l\<lparr>line_begin_backup := start, column_backup := column l,
       line_begin := start, row := row l + 1, column := 1\<rparr>"

definition PrevRow :: "location \<Rightarrow> location result" where
  "PrevRow l = assertE (row l > 1)
     (Inr (l\<lparr>line_begin := line_begin_backup l, column := column_backup l,
             row := row l - 1\<rparr>))"

definition PrevColumn :: "location \<Rightarrow> location result" where
  "PrevColumn l = assertE (column l > 1) (Inr (l\<lparr>column := column l - 1\<rparr>))"

definition SetRow :: "int \<Rightarrow> location \<Rightarrow> location result" where
  "SetRow n l = assertE (n \<ge> 0) (Inr (l\<lparr>row := n\<rparr>))"

text \<open>The text a C string pointer denotes: everything before the first null byte.\<close>

definition c_str :: "string \<Rightarrow> string" where
  "c_str s = takeWhile (\<lambda>c. c \<noteq> CHR 0x00) s"

definition GetLineContent :: "location \<Rightarrow> string result" where
  "GetLineContent l = (case content l of
       None \<Rightarrow> Inl Assert_Fail
     | Some str \<Rightarrow>
         Inr (takeWhile (\<lambda>c. c \<noteq> CHR 0x0A) (drop (line_begin l) (c_str str))
              @ [CHR 0x0A]))"

definition GetPositionArrow :: "location \<Rightarrow> string" where
  "GetPositionArrow l = replicate (nat (column l - 1)) (CHR '' '') @ ''^'' @ [CHR 0x0A]"

subsection \<open>Moving over a character and back\<close>

text \<open>
  \<open>Scanner::Next\<close> calls \<open>NextRow\<close> or \<open>NextColumn\<close> for the byte it consumes, and
  \<open>Scanner::PutBack\<close> calls the opposite one. The invariant of a position: rows and columns
  count from 1.
\<close>

definition wf_location :: "location \<Rightarrow> bool" where
  "wf_location l \<longleftrightarrow> row l \<ge> 0 \<and> column l \<ge> 1 \<and> column_backup l \<ge> 0"

lemma wf_Location_init: "wf_location Location_init"
  by (simp add: wf_location_def Location_init_def)

lemma wf_NextColumn: "wf_location l \<Longrightarrow> wf_location (NextColumn l)"
  by (simp add: wf_location_def NextColumn_def)

lemma wf_NextRow: "wf_location l \<Longrightarrow> wf_location (NextRow b l)"
  by (simp add: wf_location_def NextRow_def)

lemma NextColumn_PrevColumn: "wf_location l \<Longrightarrow> PrevColumn (NextColumn l) = Inr l"
  by (simp add: PrevColumn_def NextColumn_def wf_location_def)

text \<open>Row and column come back; the start of the line does not.\<close>

lemma NextRow_PrevRow:
  assumes "row l \<ge> 1"
  shows "PrevRow (NextRow b l) =
    Inr (l\<lparr>line_begin := b, line_begin_backup := b, column_backup := column l\<rparr>)"
  using assms by (simp add: PrevRow_def NextRow_def)

end
