(* ===== verification/Kcc_Token.thy ===== *)
theory Kcc_Token
  imports Kcc_Location
begin

text \<open>
  Tokens: the enumeration \<open>TokenTag::Values\<close> and the class \<open>Token\<close> of \<open>src/token.h\<close> and
  \<open>src/token.cpp\<close>, and the keyword table of \<open>src/dict.cpp\<close>.

  \<open>TokenTag::Values\<close> is an unscoped C++ enumeration: its enumerators are the integers from 0
  in order of declaration and convert to \<open>int\<close> without a cast (\<open>src/lex.cpp\<close> passes one where
  a character is expected). A tag is therefore an integer under a constructor, and every
  enumerator is an abbreviation for its number.
\<close>

datatype tag = Tag (tag_value: int)

abbreviation Tag_kAuto :: tag where "Tag_kAuto \<equiv> Tag 0"
abbreviation Tag_kBreak :: tag where "Tag_kBreak \<equiv> Tag 1"
abbreviation Tag_kCase :: tag where "Tag_kCase \<equiv> Tag 2"
abbreviation Tag_kChar :: tag where "Tag_kChar \<equiv> Tag 3"
abbreviation Tag_kConst :: tag where "Tag_kConst \<equiv> Tag 4"
abbreviation Tag_kContinue :: tag where "Tag_kContinue \<equiv> Tag 5"
abbreviation Tag_kDefault :: tag where "Tag_kDefault \<equiv> Tag 6"
abbreviation Tag_kDo :: tag where "Tag_kDo \<equiv> Tag 7"
abbreviation Tag_kDouble :: tag where "Tag_kDouble \<equiv> Tag 8"
abbreviation Tag_kElse :: tag where "Tag_kElse \<equiv> Tag 9"
abbreviation Tag_kEnum :: tag where "Tag_kEnum \<equiv> Tag 10"
abbreviation Tag_kExtern :: tag where "Tag_kExtern \<equiv> Tag 11"
abbreviation Tag_kFloat :: tag where "Tag_kFloat \<equiv> Tag 12"
abbreviation Tag_kFor :: tag where "Tag_kFor \<equiv> Tag 13"
abbreviation Tag_kGoto :: tag where "Tag_kGoto \<equiv> Tag 14"
abbreviation Tag_kIf :: tag where "Tag_kIf \<equiv> Tag 15"
abbreviation Tag_kInline :: tag where "Tag_kInline \<equiv> Tag 16"
abbreviation Tag_kInt :: tag where "Tag_kInt \<equiv> Tag 17"
abbreviation Tag_kLong :: tag where "Tag_kLong \<equiv> Tag 18"
abbreviation Tag_kRegister :: tag where "Tag_kRegister \<equiv> Tag 19"
abbreviation Tag_kRestrict :: tag where "Tag_kRestrict \<equiv> Tag 20"
abbreviation Tag_kReturn :: tag where "Tag_kReturn \<equiv> Tag 21"
abbreviation Tag_kShort :: tag where "Tag_kShort \<equiv> Tag 22"
abbreviation Tag_kSigned :: tag where "Tag_kSigned \<equiv> Tag 23"
abbreviation Tag_kSizeof :: tag where "Tag_kSizeof \<equiv> Tag 24"
abbreviation Tag_kStatic :: tag where "Tag_kStatic \<equiv> Tag 25"
abbreviation Tag_kStruct :: tag where "Tag_kStruct \<equiv> Tag 26"
abbreviation Tag_kSwitch :: tag where "Tag_kSwitch \<equiv> Tag 27"
abbreviation Tag_kTypedef :: tag where "Tag_kTypedef \<equiv> Tag 28"
abbreviation Tag_kUnion :: tag where "Tag_kUnion \<equiv> Tag 29"
abbreviation Tag_kUnsigned :: tag where "Tag_kUnsigned \<equiv> Tag 30"
abbreviation Tag_kVoid :: tag where "Tag_kVoid \<equiv> Tag 31"
abbreviation Tag_kVolatile :: tag where "Tag_kVolatile \<equiv> Tag 32"
abbreviation Tag_kWhile :: tag where "Tag_kWhile \<equiv> Tag 33"
abbreviation Tag_kAlignas :: tag where "Tag_kAlignas \<equiv> Tag 34"
abbreviation Tag_kAlignof :: tag where "Tag_kAlignof \<equiv> Tag 35"
abbreviation Tag_kAtomic :: tag where "Tag_kAtomic \<equiv> Tag 36"
abbreviation Tag_kBool :: tag where "Tag_kBool \<equiv> Tag 37"
abbreviation Tag_kComplex :: tag where "Tag_kComplex \<equiv> Tag 38"
abbreviation Tag_kGeneric :: tag where "Tag_kGeneric \<equiv> Tag 39"
abbreviation Tag_kImaginary :: tag where "Tag_kImaginary \<equiv> Tag 40"
abbreviation Tag_kNoreturn :: tag where "Tag_kNoreturn \<equiv> Tag 41"
abbreviation Tag_kStaticAssert :: tag where "Tag_kStaticAssert \<equiv> Tag 42"
abbreviation Tag_kThreadLocal :: tag where "Tag_kThreadLocal \<equiv> Tag 43"
abbreviation Tag_kLeftSquare :: tag where "Tag_kLeftSquare \<equiv> Tag 44"
abbreviation Tag_kRightSquare :: tag where "Tag_kRightSquare \<equiv> Tag 45"
abbreviation Tag_kLeftParen :: tag where "Tag_kLeftParen \<equiv> Tag 46"
abbreviation Tag_kRightParen :: tag where "Tag_kRightParen \<equiv> Tag 47"
abbreviation Tag_kLeftBrace :: tag where "Tag_kLeftBrace \<equiv> Tag 48"
abbreviation Tag_kRightBrace :: tag where "Tag_kRightBrace \<equiv> Tag 49"
abbreviation Tag_kPeriod :: tag where "Tag_kPeriod \<equiv> Tag 50"
abbreviation Tag_kArrow :: tag where "Tag_kArrow \<equiv> Tag 51"
abbreviation Tag_kPlusPlus :: tag where "Tag_kPlusPlus \<equiv> Tag 52"
abbreviation Tag_kMinusMinus :: tag where "Tag_kMinusMinus \<equiv> Tag 53"
abbreviation Tag_kPostfixPlusPlus :: tag where "Tag_kPostfixPlusPlus \<equiv> Tag 54"
abbreviation Tag_kPostfixMinusMinus :: tag where "Tag_kPostfixMinusMinus \<equiv> Tag 55"
abbreviation Tag_kAmp :: tag where "Tag_kAmp \<equiv> Tag 56"
abbreviation Tag_kStar :: tag where "Tag_kStar \<equiv> Tag 57"
abbreviation Tag_kPlus :: tag where "Tag_kPlus \<equiv> Tag 58"
abbreviation Tag_kMinus :: tag where "Tag_kMinus \<equiv> Tag 59"
abbreviation Tag_kTilde :: tag where "Tag_kTilde \<equiv> Tag 60"
abbreviation Tag_kExclaim :: tag where "Tag_kExclaim \<equiv> Tag 61"
abbreviation Tag_kSlash :: tag where "Tag_kSlash \<equiv> Tag 62"
abbreviation Tag_kPercent :: tag where "Tag_kPercent \<equiv> Tag 63"
abbreviation Tag_kLessLess :: tag where "Tag_kLessLess \<equiv> Tag 64"
abbreviation Tag_kGreaterGreater :: tag where "Tag_kGreaterGreater \<equiv> Tag 65"
abbreviation Tag_kLess :: tag where "Tag_kLess \<equiv> Tag 66"
abbreviation Tag_kGreater :: tag where "Tag_kGreater \<equiv> Tag 67"
abbreviation Tag_kLessEqual :: tag where "Tag_kLessEqual \<equiv> Tag 68"
abbreviation Tag_kGreaterEqual :: tag where "Tag_kGreaterEqual \<equiv> Tag 69"
abbreviation Tag_kEqualEqual :: tag where "Tag_kEqualEqual \<equiv> Tag 70"
abbreviation Tag_kExclaimEqual :: tag where "Tag_kExclaimEqual \<equiv> Tag 71"
abbreviation Tag_kCaret :: tag where "Tag_kCaret \<equiv> Tag 72"
abbreviation Tag_kPipe :: tag where "Tag_kPipe \<equiv> Tag 73"
abbreviation Tag_kAmpAmp :: tag where "Tag_kAmpAmp \<equiv> Tag 74"
abbreviation Tag_kPipePipe :: tag where "Tag_kPipePipe \<equiv> Tag 75"
abbreviation Tag_kQuestion :: tag where "Tag_kQuestion \<equiv> Tag 76"
abbreviation Tag_kColon :: tag where "Tag_kColon \<equiv> Tag 77"
abbreviation Tag_kSemicolon :: tag where "Tag_kSemicolon \<equiv> Tag 78"
abbreviation Tag_kEllipsis :: tag where "Tag_kEllipsis \<equiv> Tag 79"
abbreviation Tag_kEqual :: tag where "Tag_kEqual \<equiv> Tag 80"
abbreviation Tag_kStarEqual :: tag where "Tag_kStarEqual \<equiv> Tag 81"
abbreviation Tag_kSlashEqual :: tag where "Tag_kSlashEqual \<equiv> Tag 82"
abbreviation Tag_kPercentEqual :: tag where "Tag_kPercentEqual \<equiv> Tag 83"
abbreviation Tag_kPlusEqual :: tag where "Tag_kPlusEqual \<equiv> Tag 84"
abbreviation Tag_kMinusEqual :: tag where "Tag_kMinusEqual \<equiv> Tag 85"
abbreviation Tag_kLessLessEqual :: tag where "Tag_kLessLessEqual \<equiv> Tag 86"
abbreviation Tag_kGreaterGreaterEqual :: tag where "Tag_kGreaterGreaterEqual \<equiv> Tag 87"
abbreviation Tag_kAmpEqual :: tag where "Tag_kAmpEqual \<equiv> Tag 88"
abbreviation Tag_kCaretEqual :: tag where "Tag_kCaretEqual \<equiv> Tag 89"
abbreviation Tag_kPipeEqual :: tag where "Tag_kPipeEqual \<equiv> Tag 90"
abbreviation Tag_kComma :: tag where "Tag_kComma \<equiv> Tag 91"
abbreviation Tag_kSharp :: tag where "Tag_kSharp \<equiv> Tag 92"
abbreviation Tag_kSharpSharp :: tag where "Tag_kSharpSharp \<equiv> Tag 93"
abbreviation Tag_kIdentifier :: tag where "Tag_kIdentifier \<equiv> Tag 94"
abbreviation Tag_kInteger :: tag where "Tag_kInteger \<equiv> Tag 95"
abbreviation Tag_kFloatingPoint :: tag where "Tag_kFloatingPoint \<equiv> Tag 96"
abbreviation Tag_kCharacter :: tag where "Tag_kCharacter \<equiv> Tag 97"
abbreviation Tag_kStringLiteral :: tag where "Tag_kStringLiteral \<equiv> Tag 98"
abbreviation Tag_kOffsetof :: tag where "Tag_kOffsetof \<equiv> Tag 99"
abbreviation Tag_kHugeVal :: tag where "Tag_kHugeVal \<equiv> Tag 100"
abbreviation Tag_kInff :: tag where "Tag_kInff \<equiv> Tag 101"
abbreviation Tag_kFuncName :: tag where "Tag_kFuncName \<equiv> Tag 102"
abbreviation Tag_kAsm :: tag where "Tag_kAsm \<equiv> Tag 103"
abbreviation Tag_kAttribute :: tag where "Tag_kAttribute \<equiv> Tag 104"
abbreviation Tag_kFuncSignature :: tag where "Tag_kFuncSignature \<equiv> Tag 105"
abbreviation Tag_kExtension :: tag where "Tag_kExtension \<equiv> Tag 106"
abbreviation Tag_kTypeof :: tag where "Tag_kTypeof \<equiv> Tag 107"
abbreviation Tag_kTypeid :: tag where "Tag_kTypeid \<equiv> Tag 108"
abbreviation Tag_kNone :: tag where "Tag_kNone \<equiv> Tag 109"
abbreviation Tag_kEof :: tag where "Tag_kEof \<equiv> Tag 110"

text \<open>The enumerators' names in order of declaration, which Qt's meta-object keeps.\<close>

definition tag_names :: "string list" where
  "tag_names =
    [''kAuto'', ''kBreak'', ''kCase'', ''kChar'', ''kConst'',
     ''kContinue'', ''kDefault'', ''kDo'', ''kDouble'', ''kElse'',
     ''kEnum'', ''kExtern'', ''kFloat'', ''kFor'', ''kGoto'',
     ''kIf'', ''kInline'', ''kInt'', ''kLong'', ''kRegister'',
     ''kRestrict'', ''kReturn'', ''kShort'', ''kSigned'', ''kSizeof'',
     ''kStatic'', ''kStruct'', ''kSwitch'', ''kTypedef'', ''kUnion'',
     ''kUnsigned'', ''kVoid'', ''kVolatile'', ''kWhile'', ''kAlignas'',
     ''kAlignof'', ''kAtomic'', ''kBool'', ''kComplex'', ''kGeneric'',
     ''kImaginary'', ''kNoreturn'', ''kStaticAssert'', ''kThreadLocal'', ''kLeftSquare'',
     ''kRightSquare'', ''kLeftParen'', ''kRightParen'', ''kLeftBrace'', ''kRightBrace'',
     ''kPeriod'', ''kArrow'', ''kPlusPlus'', ''kMinusMinus'', ''kPostfixPlusPlus'',
     ''kPostfixMinusMinus'', ''kAmp'', ''kStar'', ''kPlus'', ''kMinus'',
     ''kTilde'', ''kExclaim'', ''kSlash'', ''kPercent'', ''kLessLess'',
     ''kGreaterGreater'', ''kLess'', ''kGreater'', ''kLessEqual'', ''kGreaterEqual'',
     ''kEqualEqual'', ''kExclaimEqual'', ''kCaret'', ''kPipe'', ''kAmpAmp'',
     ''kPipePipe'', ''kQuestion'', ''kColon'', ''kSemicolon'', ''kEllipsis'',
     ''kEqual'', ''kStarEqual'', ''kSlashEqual'', ''kPercentEqual'', ''kPlusEqual'',
     ''kMinusEqual'', ''kLessLessEqual'', ''kGreaterGreaterEqual'', ''kAmpEqual'', ''kCaretEqual'',
     ''kPipeEqual'', ''kComma'', ''kSharp'', ''kSharpSharp'', ''kIdentifier'',
     ''kInteger'', ''kFloatingPoint'', ''kCharacter'', ''kStringLiteral'', ''kOffsetof'',
     ''kHugeVal'', ''kInff'', ''kFuncName'', ''kAsm'', ''kAttribute'',
     ''kFuncSignature'', ''kExtension'', ''kTypeof'', ''kTypeid'', ''kNone'',
     ''kEof'']"

text \<open>\<open>valueToKey (value) + 1\<close>: the name without its leading \<open>k\<close>.\<close>

definition TokenTag_ToString :: "tag \<Rightarrow> string result" where
  "TokenTag_ToString t =
     (if 0 \<le> tag_value t \<and> tag_value t < int (length tag_names)
      then Inr (tl (tag_names ! nat (tag_value t))) else Inl Null_Deref)"

subsection \<open>The keyword table\<close>

definition keywords_table :: "(string \<times> tag) list" where
  "keywords_table =
    [(''auto'', Tag_kAuto), (''break'', Tag_kBreak), (''case'', Tag_kCase),
     (''char'', Tag_kChar), (''const'', Tag_kConst), (''continue'', Tag_kContinue),
     (''default'', Tag_kDefault), (''do'', Tag_kDo), (''double'', Tag_kDouble),
     (''else'', Tag_kElse), (''enum'', Tag_kEnum), (''extern'', Tag_kExtern),
     (''float'', Tag_kFloat), (''for'', Tag_kFor), (''goto'', Tag_kGoto),
     (''if'', Tag_kIf), (''inline'', Tag_kInline), (''int'', Tag_kInt),
     (''long'', Tag_kLong), (''register'', Tag_kRegister), (''restrict'', Tag_kRestrict),
     (''return'', Tag_kReturn), (''short'', Tag_kShort), (''signed'', Tag_kSigned),
     (''sizeof'', Tag_kSizeof), (''static'', Tag_kStatic), (''struct'', Tag_kStruct),
     (''switch'', Tag_kSwitch), (''typedef'', Tag_kTypedef), (''union'', Tag_kUnion),
     (''unsigned'', Tag_kUnsigned), (''void'', Tag_kVoid), (''volatile'', Tag_kVolatile),
     (''while'', Tag_kWhile), (''_Alignas'', Tag_kAlignas), (''_Alignof'', Tag_kAlignof),
     (''_Atomic'', Tag_kAtomic), (''_Bool'', Tag_kBool), (''_Complex'', Tag_kComplex),
     (''_Generic'', Tag_kGeneric), (''_Imaginary'', Tag_kImaginary), (''_Noreturn'', Tag_kNoreturn),
     (''_Static_assert'', Tag_kStaticAssert), (''_Thread_local'', Tag_kThreadLocal), (''__func__'', Tag_kFuncName),
     (''__builtin_offsetof'', Tag_kOffsetof), (''__builtin_huge_val'', Tag_kHugeVal), (''__builtin_inff'', Tag_kInff),
     (''typeof'', Tag_kTypeof), (''__typeof__'', Tag_kTypeof), (''__attribute__'', Tag_kAttribute),
     (''__extension__'', Tag_kExtension), (''__FUNCTION__'', Tag_kFuncName), (''__PRETTY_FUNCTION__'', Tag_kFuncSignature),
     (''__inline'', Tag_kInline), (''__alignof__'', Tag_kAlignof), (''__inline__'', Tag_kInline),
     (''__restrict'', Tag_kRestrict), (''__restrict__'', Tag_kRestrict), (''__signed__'', Tag_kSigned),
     (''__volatile__'', Tag_kVolatile), (''asm'', Tag_kAsm), (''__asm__'', Tag_kAsm),
     (''__asm'', Tag_kAsm), (''typeid'', Tag_kTypeid)]"

text \<open>\<open>std::unordered_map::insert\<close> keeps the first entry of a key, as \<open>map_of\<close> does.\<close>

definition KeywordsDictionary_Find :: "string \<Rightarrow> tag" where
  "KeywordsDictionary_Find name = (case map_of keywords_table name of
       Some t \<Rightarrow> t
     | None \<Rightarrow> Tag_kIdentifier)"

subsection \<open>Tokens\<close>

record token =
  tok_tag :: tag
  tok_str :: string
  tok_loc :: location

definition Token_init :: token where
  "Token_init = \<lparr>tok_tag = Tag_kNone, tok_str = [], tok_loc = Location_init\<rparr>"

definition TagIs :: "token \<Rightarrow> tag \<Rightarrow> bool" where
  "TagIs tok t \<longleftrightarrow> tok_tag tok = t"

definition IsEof :: "token \<Rightarrow> bool" where
  "IsEof tok \<longleftrightarrow> tok_tag tok = Tag_kEof"

definition IsIdentifier :: "token \<Rightarrow> bool" where
  "IsIdentifier tok \<longleftrightarrow> tok_tag tok = Tag_kIdentifier"

definition IsStringLiteral :: "token \<Rightarrow> bool" where
  "IsStringLiteral tok \<longleftrightarrow> tok_tag tok = Tag_kStringLiteral"

definition IsInteger :: "token \<Rightarrow> bool" where
  "IsInteger tok \<longleftrightarrow> tok_tag tok = Tag_kInteger"

definition IsFloatPoint :: "token \<Rightarrow> bool" where
  "IsFloatPoint tok \<longleftrightarrow> tok_tag tok = Tag_kFloatingPoint"

definition IsCharacter :: "token \<Rightarrow> bool" where
  "IsCharacter tok \<longleftrightarrow> tok_tag tok = Tag_kCharacter"

definition IsConstant :: "token \<Rightarrow> bool" where
  "IsConstant tok \<longleftrightarrow> IsInteger tok \<or> IsFloatPoint tok \<or> IsCharacter tok"

definition IsTypeSpecQual :: "token \<Rightarrow> bool" where
  "IsTypeSpecQual tok \<longleftrightarrow> tok_tag tok \<in> set
     [Tag_kVoid, Tag_kChar, Tag_kShort, Tag_kInt, Tag_kLong, Tag_kFloat, Tag_kDouble,
      Tag_kSigned, Tag_kUnsigned, Tag_kBool, Tag_kComplex, Tag_kAtomic, Tag_kStruct,
      Tag_kUnion, Tag_kEnum, Tag_kConst, Tag_kRestrict, Tag_kVolatile, Tag_kAtomic,
      Tag_kTypeof]"

definition IsDeclSpec :: "token \<Rightarrow> bool" where
  "IsDeclSpec tok \<longleftrightarrow> IsTypeSpecQual tok \<or> tok_tag tok \<in> set
     [Tag_kAttribute, Tag_kInline, Tag_kNoreturn, Tag_kAlignas, Tag_kStaticAssert,
      Tag_kTypedef, Tag_kExtern, Tag_kStatic, Tag_kThreadLocal, Tag_kAuto, Tag_kRegister]"

subsection \<open>Facts\<close>

lemma distinct_keywords: "distinct (map fst keywords_table)"
  by (simp add: keywords_table_def)

lemma length_tag_names: "length tag_names = 111"
  by (simp add: tag_names_def)

lemma distinct_tag_names: "distinct tag_names"
  by (simp add: tag_names_def)

lemma keyword_tag_bound:
  "(name, t) \<in> set keywords_table \<Longrightarrow> 0 \<le> tag_value t \<and> tag_value t < 109"
  by (simp add: keywords_table_def) (elim disjE; simp)

lemma Find_keyword: "(name, t) \<in> set keywords_table \<Longrightarrow> KeywordsDictionary_Find name = t"
  by (simp add: KeywordsDictionary_Find_def map_of_is_SomeI [OF distinct_keywords])

lemma Find_other: "name \<notin> fst ` set keywords_table \<Longrightarrow> KeywordsDictionary_Find name = Tag_kIdentifier"
  by (simp add: KeywordsDictionary_Find_def map_of_eq_None_iff [THEN iffD2])

lemma Find_not_Eof: "KeywordsDictionary_Find name \<noteq> Tag_kEof"
  by (auto simp: KeywordsDictionary_Find_def split: option.splits
      dest!: map_of_SomeD keyword_tag_bound)

lemma Find_not_None: "KeywordsDictionary_Find name \<noteq> Tag_kNone"
  by (auto simp: KeywordsDictionary_Find_def split: option.splits
      dest!: map_of_SomeD keyword_tag_bound)

end
