(* ===== verification/Kcc_Lexer.thy ===== *)
theory Kcc_Lexer
  imports Kcc_Token
begin

text \<open>
  The scanner: the class \<open>Scanner\<close> of \<open>src/lex.h\<close> and \<open>src/lex.cpp\<close>.

  The state is the record \<open>scanner\<close> (the source text, the index of the next byte, the
  current position, the token under construction and the buffer of its bytes); every member
  function takes the state and returns a value with the new state, or an error. A byte is read
  as the \<open>std::int32_t\<close> the source uses, from 0 to 255. \<open>std::string::operator[]\<close> gives a
  null character at index \<open>size ()\<close> and is undefined beyond it: \<open>Out_Of_Range\<close>.

  The loops are recursive functions with a termination proof each: every turn consumes a byte,
  and reading past the terminating null character is an error, so what shrinks is the number
  of bytes left (\<open>room\<close>).
\<close>

record scanner =
  sc_source :: string
  sc_index :: nat
  sc_loc :: location
  sc_token :: token
  sc_buffer :: string

abbreviation (input) ord :: "char \<Rightarrow> int" where "ord c \<equiv> of_char c"

definition Scanner_init :: "string \<Rightarrow> scanner" where
  "Scanner_init preprocessed_code =
     \<lparr>sc_source = preprocessed_code, sc_index = 0,
      sc_loc = SetContent preprocessed_code Location_init,
      sc_token = Token_init, sc_buffer = []\<rparr>"

definition Scanner_at :: "string \<Rightarrow> location \<Rightarrow> scanner" where
  "Scanner_at code l =
     \<lparr>sc_source = code, sc_index = 0, sc_loc = l, sc_token = Token_init, sc_buffer = []\<rparr>"

subsection \<open>Character classes of the C library, in the C locale\<close>

definition isdigit :: "int \<Rightarrow> bool" where
  "isdigit c \<longleftrightarrow> ord CHR ''0'' \<le> c \<and> c \<le> ord CHR ''9''"

definition isalpha :: "int \<Rightarrow> bool" where
  "isalpha c \<longleftrightarrow> (ord CHR ''a'' \<le> c \<and> c \<le> ord CHR ''z'') \<or> (ord CHR ''A'' \<le> c \<and> c \<le> ord CHR ''Z'')"

definition isalnum :: "int \<Rightarrow> bool" where
  "isalnum c \<longleftrightarrow> isalpha c \<or> isdigit c"

definition isxdigit :: "int \<Rightarrow> bool" where
  "isxdigit c \<longleftrightarrow> isdigit c \<or> (ord CHR ''a'' \<le> c \<and> c \<le> ord CHR ''f'')
     \<or> (ord CHR ''A'' \<le> c \<and> c \<le> ord CHR ''F'')"

definition isspace :: "int \<Rightarrow> bool" where
  "isspace c \<longleftrightarrow> c = 32 \<or> (9 \<le> c \<and> c \<le> 13)"

definition IsOctDigit :: "int \<Rightarrow> bool" where
  "IsOctDigit ch \<longleftrightarrow> ch \<ge> ord CHR ''0'' \<and> ch \<le> ord CHR ''7''"

definition CharToDigit :: "int \<Rightarrow> int result" where
  "CharToDigit ch =
     (if ch \<ge> ord CHR ''0'' \<and> ch \<le> ord CHR ''9'' then Inr (ch - ord CHR ''0'')
      else if ch \<ge> ord CHR ''a'' \<and> ch \<le> ord CHR ''f'' then Inr (ch - ord CHR ''a'' + 10)
      else if ch \<ge> ord CHR ''A'' \<and> ch \<le> ord CHR ''F'' then Inr (ch - ord CHR ''A'' + 10)
      else Inl Assert_Fail)"

subsection \<open>Reading the source\<close>

definition HasNext :: "scanner \<Rightarrow> bool" where
  "HasNext s \<longleftrightarrow> sc_index s < length (sc_source s)"

definition Peek :: "scanner \<Rightarrow> int result" where
  "Peek s = (if sc_index s < length (sc_source s) then Inr (ord (sc_source s ! sc_index s))
     else if sc_index s = length (sc_source s) then Inr 0
     else Inl Out_Of_Range)"

definition Next :: "bool \<Rightarrow> scanner \<Rightarrow> (int \<times> scanner) result" where
  "Next push s = bindE (Peek s) (\<lambda>ch.
     let s1 = s\<lparr>sc_index := sc_index s + 1\<rparr>;
         s2 = (if push then s1\<lparr>sc_buffer := sc_buffer s1 @ [char_of ch]\<rparr> else s1)
     in Inr (ch, s2\<lparr>sc_loc := (if ch = 10 then NextRow (sc_index s2) (sc_loc s2)
                               else NextColumn (sc_loc s2))\<rparr>))"

definition PutBack :: "scanner \<Rightarrow> scanner result" where
  "PutBack s = assertE (sc_index s > 0) (
     let s1 = s\<lparr>sc_index := sc_index s - 1\<rparr>
     in bindE (Peek s1) (\<lambda>ch.
        assertE (sc_buffer s1 \<noteq> []) (
          let s2 = s1\<lparr>sc_buffer := butlast (sc_buffer s1)\<rparr>
          in bindE (if ch = 10 then PrevRow (sc_loc s2) else PrevColumn (sc_loc s2)) (\<lambda>l.
             Inr (s2\<lparr>sc_loc := l\<rparr>)))))"

definition Test :: "int \<Rightarrow> scanner \<Rightarrow> bool result" where
  "Test c s = bindE (Peek s) (\<lambda>p. Inr (p = c))"

definition Try :: "int \<Rightarrow> scanner \<Rightarrow> (bool \<times> scanner) result" where
  "Try c s = bindE (Peek s) (\<lambda>p.
     if p = c then bindE (Next True s) (\<lambda>(_, s1). Inr (True, s1)) else Inr (False, s))"

definition IsUCN :: "int \<Rightarrow> scanner \<Rightarrow> bool result" where
  "IsUCN ch s = (if ch = ord CHR 0x5C then
       bindE (Test (ord CHR ''u'') s) (\<lambda>b. if b then Inr True else Test (ord CHR ''U'') s)
     else Inr False)"

definition MakeToken :: "tag \<Rightarrow> scanner \<Rightarrow> token \<times> scanner" where
  "MakeToken tg s =
     (let t = (sc_token s)\<lparr>tok_tag := tg, tok_str := sc_buffer s\<rparr>
      in (t, s\<lparr>sc_token := t, sc_buffer := []\<rparr>))"

definition MarkLocation :: "scanner \<Rightarrow> scanner" where
  "MarkLocation s = s\<lparr>sc_token := (sc_token s)\<lparr>tok_loc := sc_loc s\<rparr>\<rparr>"

definition room :: "scanner \<Rightarrow> nat" where
  "room s = length (sc_source s) + 1 - sc_index s"

text \<open>The source with the null character \<open>std::string\<close> keeps behind it.\<close>

definition zsource :: "scanner \<Rightarrow> string" where
  "zsource s = sc_source s @ [CHR 0x00]"

lemma length_zsource [simp]: "length (zsource s) = Suc (length (sc_source s))"
  by (simp add: zsource_def)

lemma Peek_zsource: "Peek s = (if sc_index s < length (zsource s) then Inr (ord (zsource s ! sc_index s))
    else Inl Out_Of_Range)"
  by (auto simp: Peek_def zsource_def nth_append)

lemma Next_Inr:
  "(Next push s = Inr (ch, s')) \<longleftrightarrow>
     sc_index s < length (zsource s) \<and> ch = ord (zsource s ! sc_index s) \<and>
     s' = s\<lparr>sc_index := Suc (sc_index s),
            sc_buffer := sc_buffer s @ (if push then [zsource s ! sc_index s] else []),
            sc_loc := (if ch = 10 then NextRow (Suc (sc_index s)) (sc_loc s)
                       else NextColumn (sc_loc s))\<rparr>"
  by (cases s) (auto simp: Next_def Peek_zsource Let_def)

lemma Next_room: "Next push s = Inr (ch, s') \<Longrightarrow> room s' < room s"
  by (auto simp: Next_Inr room_def)

lemma Next_zsource: "Next push s = Inr (ch, s') \<Longrightarrow> zsource s' = zsource s"
  by (auto simp: Next_Inr zsource_def)

subsection \<open>Escape sequences\<close>

text \<open>
  The value under construction is a \<open>std::int32_t\<close> that is shifted as a \<open>std::uint32_t\<close>:
  a 32-bit word, read as a signed number when it is returned. (\<open>HandleUCN\<close> shifts the signed
  value itself; the word gives the two's complement wrap-around of the compilers in use.)
  A diagnostic is named by the text of its format string, without quotes and placeholders.
\<close>

function HandleHexEscape_loop :: "32 word \<Rightarrow> int \<Rightarrow> scanner \<Rightarrow> (32 word \<times> scanner) result" where
  "HandleHexEscape_loop value ch s = (if isxdigit ch then
       bindE (CharToDigit ch) (\<lambda>d.
       bindE (Next True s) (\<lambda>(ch', s').
         HandleHexEscape_loop (push_bit 4 value + of_int d) ch' s'))
     else bindE (PutBack s) (\<lambda>s'. Inr (value, s')))"
  by pat_completeness auto
termination
  by (relation "measure (\<lambda>(v, c, s). room s)") (auto simp: Next_room)

declare HandleHexEscape_loop.simps [simp del]

definition HandleHexEscape :: "scanner \<Rightarrow> (int \<times> scanner) result" where
  "HandleHexEscape s = bindE (Next True s) (\<lambda>(ch, s1).
     if \<not> isxdigit ch then Inl (Diag ''x used with no following hex digits'')
     else bindE (HandleHexEscape_loop 0 ch s1) (\<lambda>(v, s2). Inr (sint v, s2)))"

fun HandleOctEscape_loop :: "nat \<Rightarrow> 32 word \<Rightarrow> scanner \<Rightarrow> (32 word \<times> scanner) result" where
  "HandleOctEscape_loop 0 value s = Inr (value, s)"
| "HandleOctEscape_loop (Suc n) value s = bindE (Next True s) (\<lambda>(ch, s1).
     if IsOctDigit ch then
       bindE (CharToDigit ch) (\<lambda>d. HandleOctEscape_loop n (push_bit 3 value + of_int d) s1)
     else bindE (PutBack s1) (\<lambda>s2. Inr (value, s2)))"

definition HandleOctEscape :: "int \<Rightarrow> scanner \<Rightarrow> (int \<times> scanner) result" where
  "HandleOctEscape ch s = bindE (CharToDigit ch) (\<lambda>d.
     if \<not> IsOctDigit ch then Inl (Diag ''nnn used with no following oct digits'')
     else bindE (HandleOctEscape_loop 3 (of_int d) s) (\<lambda>(v, s2). Inr (sint v, s2)))"

fun HandleUCN_loop :: "nat \<Rightarrow> 32 word \<Rightarrow> scanner \<Rightarrow> (32 word \<times> scanner) result" where
  "HandleUCN_loop 0 val s = Inr (val, s)"
| "HandleUCN_loop (Suc n) val s = bindE (Next True s) (\<lambda>(ch, s1).
     if \<not> isxdigit ch then Inl (Diag ''u / U used with no following hex digits'')
     else bindE (CharToDigit ch) (\<lambda>d. HandleUCN_loop n (push_bit 4 val + of_int d) s1))"

definition HandleUCN :: "nat \<Rightarrow> scanner \<Rightarrow> (int \<times> scanner) result" where
  "HandleUCN len s = assertE (len = 4 \<or> len = 8)
     (bindE (HandleUCN_loop len 0 s) (\<lambda>(v, s1). Inr (sint v, s1)))"

definition HandleEscape :: "scanner \<Rightarrow> (int \<times> scanner) result" where
  "HandleEscape s = bindE (Next True s) (\<lambda>(ch, s1).
     if ch \<in> {ord CHR 0x27, ord CHR 0x22, ord CHR ''?'', ord CHR 0x5C} then Inr (ch, s1)
     else if ch = ord CHR ''a'' then Inr (7, s1)
     else if ch = ord CHR ''b'' then Inr (8, s1)
     else if ch = ord CHR ''f'' then Inr (12, s1)
     else if ch = ord CHR ''n'' then Inr (10, s1)
     else if ch = ord CHR ''r'' then Inr (13, s1)
     else if ch = ord CHR ''t'' then Inr (9, s1)
     else if ch = ord CHR ''v'' then Inr (11, s1)
     else if ch = ord CHR ''e'' then Inr (27, s1)
     else if ch = ord CHR ''X'' \<or> ch = ord CHR ''x'' then HandleHexEscape s1
     else if ord CHR ''0'' \<le> ch \<and> ch \<le> ord CHR ''7'' then HandleOctEscape ch s1
     else if ch = ord CHR ''u'' then HandleUCN 4 s1
     else if ch = ord CHR ''U'' then HandleUCN 8 s1
     else Inl (Diag ''unknown escape sequence''))"

datatype encoding = Enc_kNone | Enc_kUtf8 | Enc_kChar16 | Enc_kChar32 | Enc_kWchar

definition HandleEncoding :: "scanner \<Rightarrow> (encoding \<times> scanner) result" where
  "HandleEncoding s = bindE (Try (ord CHR ''u'') s) (\<lambda>(b, s1).
     if b then bindE (Try (ord CHR ''8'') s1) (\<lambda>(b8, s2).
       if b8 then Inr (Enc_kUtf8, s2) else Inr (Enc_kChar16, s2))
     else bindE (Try (ord CHR ''U'') s1) (\<lambda>(bU, s2).
       if bU then Inr (Enc_kChar32, s2)
       else bindE (Try (ord CHR ''L'') s2) (\<lambda>(bL, s3).
         if bL then Inr (Enc_kWchar, s3) else Inr (Enc_kNone, s3))))"

subsection \<open>What reading keeps\<close>

text \<open>
  \<open>reads s s'\<close>: between \<open>s\<close> and \<open>s'\<close> the scanner has moved forward over the source, and the
  buffer has grown by exactly the bytes it moved over.
\<close>

definition reads :: "scanner \<Rightarrow> scanner \<Rightarrow> bool" where
  "reads s s' \<longleftrightarrow> sc_source s' = sc_source s \<and> sc_index s \<le> sc_index s' \<and>
     sc_index s' \<le> length (zsource s) \<and> sc_token s' = sc_token s \<and>
     sc_buffer s' = sc_buffer s @ segment (sc_index s) (sc_index s') (zsource s)"

definition wf_index :: "scanner \<Rightarrow> bool" where
  "wf_index s \<longleftrightarrow> sc_index s \<le> length (zsource s)"

lemma reads_zsource: "reads s s' \<Longrightarrow> zsource s' = zsource s"
  by (simp add: reads_def zsource_def)

lemma reads_refl: "wf_index s \<Longrightarrow> reads s s"
  by (simp add: reads_def wf_index_def)

lemma reads_trans: "reads s s' \<Longrightarrow> reads s' s'' \<Longrightarrow> reads s s''"
  by (auto simp: reads_def zsource_def segment_append)

lemma reads_wf: "reads s s' \<Longrightarrow> wf_index s'"
  by (simp add: reads_def wf_index_def zsource_def)

lemma reads_room: "reads s s' \<Longrightarrow> room s' \<le> room s"
  by (auto simp: reads_def room_def)

lemma reads_index: "reads s s' \<Longrightarrow> sc_index s \<le> sc_index s'"
  by (simp add: reads_def)

lemma reads_room_less: "reads s s' \<Longrightarrow> sc_index s < sc_index s' \<Longrightarrow> room s' < room s"
  by (auto simp: reads_def room_def)

lemma Next_reads:
  "Next True s = Inr (ch, s') \<Longrightarrow> reads s s' \<and> sc_index s' = Suc (sc_index s)"
  using segment_snoc [of "sc_index s" "sc_index s" "zsource s"]
  by (auto simp: Next_Inr reads_def zsource_def)

lemma PutBack_reads:
  assumes "reads s s1" and "sc_index s < sc_index s1" and "PutBack s1 = Inr s2"
  shows "reads s s2 \<and> sc_index s2 = sc_index s1 - 1"
proof -
  have "\<exists>l. s2 = s1\<lparr>sc_index := sc_index s1 - 1, sc_buffer := butlast (sc_buffer s1), sc_loc := l\<rparr>"
    using assms(3) by (auto simp: PutBack_def Let_def result_simps)
  moreover have "segment (sc_index s) (sc_index s1) (zsource s) \<noteq> []"
    using assms(1,2) by (auto simp: reads_def segment_def)
  ultimately show ?thesis
    using assms(1,2)
    by (auto simp: reads_def butlast_append butlast_segment zsource_def)
qed

lemma Try_reads: "Try c s = Inr (b, s') \<Longrightarrow> reads s s' \<and> sc_index s' = (if b then Suc (sc_index s) else sc_index s)"
  by (auto simp: Try_def result_simps Peek_zsource wf_index_def split: if_splits
      dest: Next_reads intro!: reads_refl)

lemma CharToDigit_xdigit: "isxdigit ch \<Longrightarrow> \<exists>d. CharToDigit ch = Inr d \<and> 0 \<le> d \<and> d < 16"
  by (auto simp: isxdigit_def isdigit_def CharToDigit_def)

lemma HandleHexEscape_loop_reads:
  "HandleHexEscape_loop v ch s = Inr (v', s') \<Longrightarrow> reads s0 s \<Longrightarrow> sc_index s0 < sc_index s
    \<Longrightarrow> reads s0 s' \<and> sc_index s \<le> Suc (sc_index s')"
proof (induction v ch s rule: HandleHexEscape_loop.induct)
  case (1 v ch s)
  show ?case
  proof (cases "isxdigit ch")
    case True
    with "1.prems"(1) obtain d ch1 s1 where d: "CharToDigit ch = Inr d"
      and n: "Next True s = Inr (ch1, s1)"
      and r: "HandleHexEscape_loop (push_bit 4 v + of_int d) ch1 s1 = Inr (v', s')"
      by (subst (asm) HandleHexEscape_loop.simps) (auto simp: result_simps)
    note n' = Next_reads [OF n]
    from "1.IH" [OF True d n refl r] n' "1.prems"(2,3)
    have "reads s0 s' \<and> sc_index s1 \<le> Suc (sc_index s')"
      by (auto intro: reads_trans)
    with n' show ?thesis by simp
  next
    case False
    with "1.prems"(1) have "PutBack s = Inr s'"
      by (subst (asm) HandleHexEscape_loop.simps) (auto simp: result_simps)
    from PutBack_reads [OF "1.prems"(2,3) this] "1.prems"(3) show ?thesis by auto
  qed
qed

lemma HandleHexEscape_reads:
  "HandleHexEscape s = Inr (v, s') \<Longrightarrow> reads s s'"
  by (auto simp: HandleHexEscape_def result_simps split: if_splits
      dest!: Next_reads HandleHexEscape_loop_reads)

lemma HandleOctEscape_loop_reads:
  "HandleOctEscape_loop n v s = Inr (v', s') \<Longrightarrow> wf_index s \<Longrightarrow> reads s s'"
proof (induction n v s rule: HandleOctEscape_loop.induct)
  case (2 n v s)
  then obtain ch s1 where n: "Next True s = Inr (ch, s1)"
    by (auto simp: result_simps)
  note n' = Next_reads [OF n]
  show ?case
  proof (cases "IsOctDigit ch")
    case True
    with "2.prems"(1) n obtain d where d: "CharToDigit ch = Inr d"
      and r: "HandleOctEscape_loop n (push_bit 3 v + of_int d) s1 = Inr (v', s')"
      by (auto simp: result_simps)
    from "2.IH" [OF n refl True d r] n' show ?thesis by (auto intro: reads_trans reads_wf)
  next
    case False
    with "2.prems"(1) n have "PutBack s1 = Inr s'" by (auto simp: result_simps)
    with n' show ?thesis by (auto dest: PutBack_reads)
  qed
qed (simp add: reads_refl)

lemma HandleOctEscape_reads:
  "HandleOctEscape ch s = Inr (v, s') \<Longrightarrow> wf_index s \<Longrightarrow> reads s s'"
  by (auto simp: HandleOctEscape_def result_simps split: if_splits
      dest: HandleOctEscape_loop_reads)

lemma HandleUCN_loop_reads:
  "HandleUCN_loop n v s = Inr (v', s') \<Longrightarrow> wf_index s \<Longrightarrow> reads s s'"
proof (induction n v s rule: HandleUCN_loop.induct)
  case (2 n v s)
  then obtain ch s1 d where n: "Next True s = Inr (ch, s1)" and x: "isxdigit ch"
    and d: "CharToDigit ch = Inr d"
    and r: "HandleUCN_loop n (push_bit 4 v + of_int d) s1 = Inr (v', s')"
    by (auto simp: result_simps split: if_splits)
  note n' = Next_reads [OF n]
  from "2.IH" [OF n refl _ d r] x n' show ?case by (auto intro: reads_trans reads_wf)
qed (simp add: reads_refl)

lemma HandleUCN_reads: "HandleUCN n s = Inr (v, s') \<Longrightarrow> wf_index s \<Longrightarrow> reads s s'"
  by (auto simp: HandleUCN_def result_simps dest: HandleUCN_loop_reads)

lemma HandleEscape_reads:
  assumes "HandleEscape s = Inr (v, s')"
  shows "reads s s' \<and> sc_index s < sc_index s'"
proof -
  from assms obtain ch s1 where n: "Next True s = Inr (ch, s1)"
    by (auto simp: HandleEscape_def result_simps)
  note n' = Next_reads [OF n]
  then have wf: "wf_index s1" by (blast intro: reads_wf)
  from assms n wf reads_refl [OF wf] have "reads s1 s'"
    by (auto simp: HandleEscape_def result_simps split: if_splits
        intro: HandleHexEscape_reads HandleOctEscape_reads HandleUCN_reads)
  with n' show ?thesis by (auto intro: reads_trans dest: reads_index)
qed

lemma HandleEncoding_reads: "HandleEncoding s = Inr (e, s') \<Longrightarrow> reads s s'"
  by (auto simp: HandleEncoding_def result_simps split: if_splits
      dest!: Try_reads intro: reads_trans)

end
