(* ===== verification/Kcc_Scan.thy ===== *)
theory Kcc_Scan
  imports Kcc_Lexer
begin

text \<open>
  The tokenizer of \<open>src/lex.cpp\<close>: the functions that skip blanks, line markers, numbers,
  identifiers and literals, \<open>Scan\<close>, which reads one token, and \<open>Tokenize\<close>, which reads them
  all. Each is the source's function with its loops as recursive functions; the theory then
  shows that a token's text is exactly the part of the source the scanner moved over.
\<close>

subsection \<open>Blanks\<close>

function SkipSpace :: "scanner \<Rightarrow> scanner result" where
  "SkipSpace s = bindE (Peek s) (\<lambda>ch. if isspace ch
     then bindE (Next False s) (\<lambda>(_, s1). SkipSpace s1) else Inr s)"
  by pat_completeness auto
termination
  by (relation "measure room") (auto simp: Next_room)

declare SkipSpace.simps [simp del]

subsection \<open>Numbers\<close>

text \<open>One turn of the loop of \<open>SkipNumber\<close>, before the next byte is read.\<close>

definition SkipNumber_step ::
    "bool \<Rightarrow> tag \<Rightarrow> int \<Rightarrow> bool \<Rightarrow> scanner \<Rightarrow> (bool \<times> tag \<times> scanner) result" where
  "SkipNumber_step saw_hex_prefix tg ch ucn s =
     (if ch \<in> {ord CHR ''e'', ord CHR ''E'', ord CHR ''p'', ord CHR ''P''} then
        bindE (Try (ord CHR ''-'') s) (\<lambda>(b, s1).
        bindE (if b then Inr (True, s1) else Try (ord CHR ''+'') s1) (\<lambda>(_, s2).
          let tg1 = (if ch \<in> {ord CHR ''p'', ord CHR ''P''} \<and> saw_hex_prefix
                     then Tag_kFloatingPoint else tg);
              tg2 = (if ch \<in> {ord CHR ''e'', ord CHR ''E''} \<and> \<not> saw_hex_prefix
                     then Tag_kFloatingPoint else tg1)
          in Inr (saw_hex_prefix, tg2, s2)))
      else if ucn then bindE (HandleEscape s) (\<lambda>(_, s1). Inr (saw_hex_prefix, tg, s1))
      else if ch = ord CHR ''.'' then Inr (saw_hex_prefix, Tag_kFloatingPoint, s)
      else if ch = ord CHR ''x'' \<or> ch = ord CHR ''X'' then Inr (True, tg, s)
      else Inr (saw_hex_prefix, tg, s))"

lemma SkipNumber_step_reads:
  "SkipNumber_step saw tg ch ucn s = Inr (saw', tg', s') \<Longrightarrow> reads s s' \<or> s' = s"
  by (auto simp: SkipNumber_step_def result_simps Let_def split: if_splits
      dest!: Try_reads HandleEscape_reads intro: reads_trans)

lemma SkipNumber_step_room:
  "SkipNumber_step saw tg ch ucn s = Inr (saw', tg', s') \<Longrightarrow> room s' \<le> room s"
  by (auto dest!: SkipNumber_step_reads reads_room)

function SkipNumber_loop :: "bool \<Rightarrow> tag \<Rightarrow> int \<Rightarrow> scanner \<Rightarrow> (tag \<times> scanner) result" where
  "SkipNumber_loop saw_hex_prefix tg ch s = bindE (IsUCN ch s) (\<lambda>ucn.
     if ch = ord CHR ''.'' \<or> isalnum ch \<or> ch = ord CHR ''_'' \<or> ucn
        \<or> (ch \<ge> 128 \<and> ch \<le> 253) then
       bindE (SkipNumber_step saw_hex_prefix tg ch ucn s) (\<lambda>(saw', tg', s1).
       bindE (Next True s1) (\<lambda>(ch', s2). SkipNumber_loop saw' tg' ch' s2))
     else Inr (tg, s))"
  by pat_completeness auto
termination
  by (relation "measure (\<lambda>(a, b, c, s). room s)")
     (auto dest!: SkipNumber_step_room Next_room)

declare SkipNumber_loop.simps [simp del]

text \<open>\<open>buffer_.front ()\<close> is a signed \<open>char\<close>.\<close>

definition schar :: "char \<Rightarrow> int" where
  "schar c = (if ord c < 128 then ord c else ord c - 256)"

definition SkipNumber :: "scanner \<Rightarrow> (token \<times> scanner) result" where
  "SkipNumber s = (case sc_buffer s of
       [] \<Rightarrow> Inl Out_Of_Range
     | c # _ \<Rightarrow> bindE (SkipNumber_loop False Tag_kInteger (schar c) s) (\<lambda>(tg, s1).
                bindE (PutBack s1) (\<lambda>s2. Inr (MakeToken tg s2))))"

subsection \<open>Identifiers\<close>

function SkipIdentifier_loop :: "int \<Rightarrow> scanner \<Rightarrow> scanner result" where
  "SkipIdentifier_loop ch s = bindE (IsUCN ch s) (\<lambda>ucn.
     if isalnum ch \<or> ch = ord CHR ''_'' \<or> ucn \<or> (128 \<le> ch \<and> ch \<le> 253)
        \<or> ch = ord CHR ''$'' then
       bindE (if ucn then bindE (HandleEscape s) (\<lambda>(_, s1). Inr s1) else Inr s) (\<lambda>s1.
       bindE (Next True s1) (\<lambda>(ch', s2). SkipIdentifier_loop ch' s2))
     else Inr s)"
  by pat_completeness auto
termination
  by (relation "measure (\<lambda>(c, s). room s)")
     (auto simp: result_simps split: if_splits
      dest!: HandleEscape_reads Next_room reads_room)

declare SkipIdentifier_loop.simps [simp del]

definition SkipIdentifier :: "scanner \<Rightarrow> (token \<times> scanner) result" where
  "SkipIdentifier s = bindE (PutBack s) (\<lambda>s1.
     bindE (Next True s1) (\<lambda>(ch, s2).
     bindE (SkipIdentifier_loop ch s2) (\<lambda>s3.
     bindE (PutBack s3) (\<lambda>s4.
       Inr (MakeToken (KeywordsDictionary_Find (sc_buffer s4)) s4)))))"

subsection \<open>Character constants and string literals\<close>

text \<open>The loop of \<open>SkipCharacter\<close> and \<open>SkipStringLiteral\<close>, for the closing quote \<open>q\<close>.\<close>

function SkipQuoted_loop :: "int \<Rightarrow> int \<Rightarrow> scanner \<Rightarrow> (int \<times> scanner) result" where
  "SkipQuoted_loop q ch s = (if ch \<noteq> q \<and> ch \<noteq> 10 \<and> ch \<noteq> 0 then
       bindE (if ch = ord CHR 0x5C then bindE (Next True s) (\<lambda>(_, s1). Inr s1) else Inr s) (\<lambda>s1.
       bindE (Next True s1) (\<lambda>(ch', s2). SkipQuoted_loop q ch' s2))
     else Inr (ch, s))"
  by pat_completeness auto
termination
  by (relation "measure (\<lambda>(q, c, s). room s)")
     (auto simp: result_simps split: if_splits dest!: Next_room)

declare SkipQuoted_loop.simps [simp del]

definition SkipCharacter :: "scanner \<Rightarrow> (token \<times> scanner) result" where
  "SkipCharacter s = bindE (Next True s) (\<lambda>(ch, s1).
     bindE (SkipQuoted_loop (ord CHR 0x27) ch s1) (\<lambda>(ch', s2).
       if ch' \<noteq> ord CHR 0x27 then Inl (Diag ''missing terminating single quote character'')
       else Inr (MakeToken Tag_kCharacter s2)))"

definition SkipStringLiteral :: "scanner \<Rightarrow> (token \<times> scanner) result" where
  "SkipStringLiteral s = bindE (Next True s) (\<lambda>(ch, s1).
     bindE (SkipQuoted_loop (ord CHR 0x22) ch s1) (\<lambda>(ch', s2).
       if ch' \<noteq> ord CHR 0x22 then Inl (Diag ''missing terminating double quote character'')
       else Inr (MakeToken Tag_kStringLiteral s2)))"

subsection \<open>Line markers\<close>

text \<open>\<open>std::stoi\<close>: blanks, an optional sign, then the longest run of decimal digits.\<close>

definition digits_value :: "int \<Rightarrow> int list \<Rightarrow> int" where
  "digits_value b ds = fold (\<lambda>d v. v * b + d) ds 0"

definition stoi :: "string \<Rightarrow> int result" where
  "stoi str =
     (let s1 = dropWhile (\<lambda>c. isspace (ord c)) str;
          neg = (s1 \<noteq> [] \<and> hd s1 = CHR ''-'');
          s2 = (if s1 \<noteq> [] \<and> (hd s1 = CHR ''-'' \<or> hd s1 = CHR ''+'') then tl s1 else s1);
          ds = takeWhile (\<lambda>c. isdigit (ord c)) s2;
          v = digits_value 10 (map (\<lambda>c. ord c - ord CHR ''0'') ds);
          w = (if neg then - v else v)
      in if ds = [] then Inl (Uncaught ''invalid_argument'')
         else if w < - (2 ^ 31) \<or> w > 2 ^ 31 - 1 then Inl (Uncaught ''out_of_range'')
         else Inr w)"

function SkipLine_loop :: "scanner \<Rightarrow> scanner result" where
  "SkipLine_loop s = (if HasNext s then bindE (Next False s) (\<lambda>(ch, s1).
     if ch \<noteq> 10 then SkipLine_loop s1 else Inr s1) else Inr s)"
  by pat_completeness auto
termination
  by (relation "measure room") (auto simp: Next_room)

declare SkipLine_loop.simps [simp del]

definition SkipLineDirectives :: "scanner \<Rightarrow> scanner result" where
  "SkipLineDirectives s =
     bindE (Next False (s\<lparr>sc_buffer := []\<rparr>)) (\<lambda>(_, s1).
     bindE (Next True s1) (\<lambda>(_, s2).
     bindE (SkipNumber s2) (\<lambda>(num, s3).
     bindE (stoi (tok_str num)) (\<lambda>row1.
     bindE (SetRow (row1 - 1) (sc_loc s3)) (\<lambda>l.
     bindE (Next False (s3\<lparr>sc_loc := l\<rparr>)) (\<lambda>(_, s4).
     bindE (Next True s4) (\<lambda>(_, s5).
     bindE (SkipStringLiteral s5) (\<lambda>(name, s6).
     bindE (SetFileName (take (length (tok_str name) - 2) (drop 1 (tok_str name))) (sc_loc s6)) (\<lambda>l.
     bindE (SkipLine_loop (s6\<lparr>sc_loc := l\<rparr>)) (\<lambda>s7.
       Inr (s7\<lparr>sc_buffer := []\<rparr>)))))))))))"
subsection \<open>What a token function returns\<close>

text \<open>
  \<open>token_of s t s'\<close>: from \<open>s\<close>, whose buffer is empty, the scanner has moved to \<open>s'\<close> and has
  made the token \<open>t\<close>, whose text is the part of the source it moved over and whose position is
  the one marked in \<open>s\<close>.
\<close>

definition token_of :: "scanner \<Rightarrow> token \<Rightarrow> scanner \<Rightarrow> bool" where
  "token_of s t s' \<longleftrightarrow> sc_source s' = sc_source s \<and> sc_index s \<le> sc_index s' \<and>
     sc_index s' \<le> length (zsource s) \<and> sc_buffer s' = [] \<and> sc_token s' = t \<and>
     tok_str t = segment (sc_index s) (sc_index s') (zsource s) \<and>
     tok_loc t = tok_loc (sc_token s)"

lemma MakeToken_token_of:
  "reads s0 s \<Longrightarrow> sc_buffer s0 = [] \<Longrightarrow> MakeToken tg s = (t, s') \<Longrightarrow>
    token_of s0 t s' \<and> tok_tag t = tg \<and> sc_index s' = sc_index s"
  by (auto simp: MakeToken_def token_of_def reads_def Let_def)

lemma SkipNumber_loop_reads:
  "SkipNumber_loop saw tg ch s = Inr (tg', s') \<Longrightarrow> wf_index s \<Longrightarrow> reads s s'"
proof (induction saw tg ch s arbitrary: rule: SkipNumber_loop.induct)
  case (1 saw tg ch s)
  obtain ucn where u: "IsUCN ch s = Inr ucn"
    using "1.prems"(1) by (subst (asm) SkipNumber_loop.simps) (auto simp: result_simps)
  let ?c = "ch = ord CHR ''.'' \<or> isalnum ch \<or> ch = ord CHR ''_'' \<or> ucn \<or> (ch \<ge> 128 \<and> ch \<le> 253)"
  show ?case
  proof (cases ?c)
    case True
    with "1.prems"(1) u obtain saw1 tg1 s1 ch2 s2
      where st: "SkipNumber_step saw tg ch ucn s = Inr (saw1, tg1, s1)"
        and n: "Next True s1 = Inr (ch2, s2)"
        and r: "SkipNumber_loop saw1 tg1 ch2 s2 = Inr (tg', s')"
      by (subst (asm) SkipNumber_loop.simps) (auto simp: result_simps)
    from SkipNumber_step_reads [OF st] "1.prems"(2) have "reads s s1" by (auto intro: reads_refl)
    with Next_reads [OF n] have s2: "reads s s2" by (blast intro: reads_trans)
    from "1.IH" [OF u True st refl refl n refl r] reads_wf [OF s2] s2
    show ?thesis by (blast intro: reads_trans)
  next
    case False
    with "1.prems" u show ?thesis
      by (subst (asm) SkipNumber_loop.simps) (auto simp: reads_refl)
  qed
qed

lemma SkipIdentifier_loop_reads:
  "SkipIdentifier_loop ch s = Inr s' \<Longrightarrow> wf_index s \<Longrightarrow> reads s s'"
proof (induction ch s arbitrary: rule: SkipIdentifier_loop.induct)
  case (1 ch s)
  obtain ucn where u: "IsUCN ch s = Inr ucn"
    using "1.prems"(1) by (subst (asm) SkipIdentifier_loop.simps) (auto simp: result_simps)
  let ?c = "isalnum ch \<or> ch = ord CHR ''_'' \<or> ucn \<or> (128 \<le> ch \<and> ch \<le> 253) \<or> ch = ord CHR ''$''"
  let ?e = "if ucn then bindE (HandleEscape s) (\<lambda>(_, s1). Inr s1) else Inr s"
  show ?case
  proof (cases ?c)
    case True
    with "1.prems"(1) u obtain s1 ch2 s2
      where st: "?e = Inr s1"
        and n: "Next True s1 = Inr (ch2, s2)"
        and r: "SkipIdentifier_loop ch2 s2 = Inr s'"
      by (subst (asm) SkipIdentifier_loop.simps) (auto simp: result_simps)
    from st "1.prems"(2) have "reads s s1"
      by (auto simp: result_simps split: if_splits dest: HandleEscape_reads intro: reads_refl)
    with Next_reads [OF n] have s2: "reads s s2" by (blast intro: reads_trans)
    from "1.IH" [OF u True st n refl r] reads_wf [OF s2] s2
    show ?thesis by (blast intro: reads_trans)
  next
    case False
    with "1.prems" u show ?thesis
      by (subst (asm) SkipIdentifier_loop.simps) (auto simp: reads_refl)
  qed
qed

lemma SkipQuoted_loop_reads:
  "SkipQuoted_loop q ch s = Inr (ch', s') \<Longrightarrow> wf_index s \<Longrightarrow> reads s s'"
proof (induction q ch s arbitrary: rule: SkipQuoted_loop.induct)
  case (1 q ch s)
  let ?e = "if ch = ord CHR 0x5C then bindE (Next True s) (\<lambda>(_, s1). Inr s1) else Inr s"
  show ?case
  proof (cases "ch \<noteq> q \<and> ch \<noteq> 10 \<and> ch \<noteq> 0")
    case True
    with "1.prems"(1) obtain s1 ch2 s2
      where st: "?e = Inr s1"
        and n: "Next True s1 = Inr (ch2, s2)"
        and r: "SkipQuoted_loop q ch2 s2 = Inr (ch', s')"
      by (subst (asm) SkipQuoted_loop.simps) (auto simp: result_simps)
    from st "1.prems"(2) have "reads s s1"
      by (auto simp: result_simps split: if_splits dest: Next_reads intro: reads_refl)
    with Next_reads [OF n] have s2: "reads s s2" by (blast intro: reads_trans)
    from "1.IH" [OF True st n refl r] reads_wf [OF s2] s2
    show ?thesis by (blast intro: reads_trans)
  next
    case False
    with "1.prems" show ?thesis
      by (subst (asm) SkipQuoted_loop.simps) (auto simp: reads_refl)
  qed
qed

text \<open>
  The four functions that end in \<open>MakeToken\<close>, from a state where at least one byte of the token
  has been read.
\<close>

lemma SkipNumber_token_of:
  assumes "reads s0 s" and "sc_index s0 < sc_index s" and "sc_buffer s0 = []"
    and "SkipNumber s = Inr (t, s')"
  shows "token_of s0 t s' \<and> sc_index s \<le> Suc (sc_index s')"
proof -
  from assms(4) obtain c tg s1 s2 where l: "SkipNumber_loop False Tag_kInteger (schar c) s = Inr (tg, s1)"
    and p: "PutBack s1 = Inr s2" and m: "MakeToken tg s2 = (t, s')"
    by (auto simp: SkipNumber_def result_simps split: list.splits)
  have r: "reads s s1" using SkipNumber_loop_reads [OF l reads_wf [OF assms(1)]] .
  have "reads s0 s2 \<and> sc_index s2 = sc_index s1 - 1"
    by (rule PutBack_reads [OF reads_trans [OF assms(1) r] _ p]) (use r assms(2) in \<open>auto dest: reads_index\<close>)
  with MakeToken_token_of [OF _ assms(3) m] reads_index [OF r] show ?thesis by auto
qed

lemma SkipIdentifier_token_of:
  assumes "reads s0 s" and "sc_index s0 < sc_index s" and "sc_buffer s0 = []"
    and "SkipIdentifier s = Inr (t, s')"
  shows "token_of s0 t s' \<and> sc_index s \<le> Suc (sc_index s') \<and>
    tok_tag t = KeywordsDictionary_Find (tok_str t)"
proof -
  from assms(4) obtain s1 ch s2 s3 s4 where p: "PutBack s = Inr s1" and n: "Next True s1 = Inr (ch, s2)"
    and l: "SkipIdentifier_loop ch s2 = Inr s3" and p4: "PutBack s3 = Inr s4"
    and m: "MakeToken (KeywordsDictionary_Find (sc_buffer s4)) s4 = (t, s')"
    by (auto simp: SkipIdentifier_def result_simps)
  have s1: "reads s0 s1" "sc_index s1 = sc_index s - 1"
    using PutBack_reads [OF assms(1,2) p] by auto
  have s2: "reads s0 s2" "sc_index s2 = sc_index s"
    using Next_reads [OF n] s1 assms(2) by (auto intro: reads_trans)
  have r: "reads s2 s3" using SkipIdentifier_loop_reads [OF l reads_wf [OF s2(1)]] .
  have s4: "reads s0 s4 \<and> sc_index s4 = sc_index s3 - 1"
    by (rule PutBack_reads [OF reads_trans [OF s2(1) r] _ p4])
       (use r s2 assms(2) in \<open>auto dest: reads_index\<close>)
  with MakeToken_token_of [OF _ assms(3) m] reads_index [OF r] s2 m show ?thesis
    by (auto simp: MakeToken_def Let_def)
qed

lemma SkipCharacter_token_of:
  assumes "reads s0 s" and "sc_index s0 < sc_index s" and "sc_buffer s0 = []"
    and "SkipCharacter s = Inr (t, s')"
  shows "token_of s0 t s' \<and> sc_index s \<le> sc_index s' \<and> tok_tag t = Tag_kCharacter"
proof -
  from assms(4) obtain ch s1 ch2 s2 where n: "Next True s = Inr (ch, s1)"
    and l: "SkipQuoted_loop (ord CHR 0x27) ch s1 = Inr (ch2, s2)" and m: "MakeToken Tag_kCharacter s2 = (t, s')"
    by (auto simp: SkipCharacter_def result_simps split: if_splits)
  have r: "reads s s1" using Next_reads [OF n] by simp
  have r2: "reads s s2" using r SkipQuoted_loop_reads [OF l reads_wf [OF r]] by (rule reads_trans)
  with MakeToken_token_of [OF reads_trans [OF assms(1) r2] assms(3) m] show ?thesis
    by (auto dest: reads_index)
qed

lemma SkipStringLiteral_token_of:
  assumes "reads s0 s" and "sc_index s0 < sc_index s" and "sc_buffer s0 = []"
    and "SkipStringLiteral s = Inr (t, s')"
  shows "token_of s0 t s' \<and> sc_index s < sc_index s' \<and> tok_tag t = Tag_kStringLiteral"
proof -
  from assms(4) obtain ch s1 ch2 s2 where n: "Next True s = Inr (ch, s1)"
    and l: "SkipQuoted_loop (ord CHR 0x22) ch s1 = Inr (ch2, s2)" and m: "MakeToken Tag_kStringLiteral s2 = (t, s')"
    by (auto simp: SkipStringLiteral_def result_simps split: if_splits)
  have r: "reads s s1" "sc_index s1 = Suc (sc_index s)" using Next_reads [OF n] by simp_all
  have r2: "reads s1 s2" using SkipQuoted_loop_reads [OF l reads_wf [OF r(1)]] .
  with r MakeToken_token_of [OF reads_trans [OF assms(1) reads_trans [OF r(1) r2]] assms(3) m]
  show ?thesis by (auto dest: reads_index)
qed

subsection \<open>Line markers move forward\<close>

definition moves :: "scanner \<Rightarrow> scanner \<Rightarrow> bool" where
  "moves s s' \<longleftrightarrow> sc_source s' = sc_source s \<and> sc_index s \<le> sc_index s' \<and>
     sc_index s' \<le> length (zsource s)"

lemma moves_trans: "moves s s' \<Longrightarrow> moves s' s'' \<Longrightarrow> moves s s''"
  by (auto simp: moves_def zsource_def)

lemma moves_room: "moves s s' \<Longrightarrow> sc_index s < sc_index s' \<Longrightarrow> room s' < room s"
  by (auto simp: moves_def room_def)

lemma token_of_moves: "token_of s t s' \<Longrightarrow> moves s s'"
  by (simp add: token_of_def moves_def)

lemma moves_update_loc [simp]: "moves s (s'\<lparr>sc_loc := l\<rparr>) = moves s s'"
  "moves (s\<lparr>sc_loc := l\<rparr>) s' = moves s s'"
  by (simp_all add: moves_def zsource_def)

lemma Next_moves:
  "Next b s = Inr (ch, s') \<Longrightarrow> moves s s' \<and> sc_index s' = Suc (sc_index s) \<and>
     (\<not> b \<longrightarrow> sc_buffer s' = sc_buffer s)"
  by (auto simp: Next_Inr moves_def zsource_def)

definition blanks :: "string \<Rightarrow> bool" where
  "blanks str \<longleftrightarrow> (\<forall>c \<in> set str. isspace (ord c))"

lemma SkipSpace_moves:
  "SkipSpace s = Inr s' \<Longrightarrow> moves s s' \<and> sc_buffer s' = sc_buffer s \<and>
     (\<exists>ch. Peek s' = Inr ch \<and> \<not> isspace ch)"
proof (induction s rule: SkipSpace.induct)
  case (1 s)
  obtain ch where p: "Peek s = Inr ch"
    using "1.prems" by (subst (asm) SkipSpace.simps) (auto simp: result_simps)
  show ?case
  proof (cases "isspace ch")
    case True
    with "1.prems" p obtain c s1 where n: "Next False s = Inr (c, s1)" and r: "SkipSpace s1 = Inr s'"
      by (subst (asm) SkipSpace.simps) (auto simp: result_simps)
    from "1.IH" [OF p True n refl r] Next_moves [OF n] show ?thesis
      by (auto intro: moves_trans)
  next
    case False
    with "1.prems" p have "s' = s" by (subst (asm) SkipSpace.simps) auto
    with p False show ?thesis by (auto simp: moves_def Peek_zsource split: if_splits)
  qed
qed

lemma SkipSpace_blanks:
  "SkipSpace s = Inr s' \<Longrightarrow> blanks (segment (sc_index s) (sc_index s') (zsource s))"
proof (induction s rule: SkipSpace.induct)
  case (1 s)
  obtain ch where p: "Peek s = Inr ch"
    using "1.prems" by (subst (asm) SkipSpace.simps) (auto simp: result_simps)
  show ?case
  proof (cases "isspace ch")
    case True
    with "1.prems" p obtain c s1 where n: "Next False s = Inr (c, s1)" and r: "SkipSpace s1 = Inr s'"
      by (subst (asm) SkipSpace.simps) (auto simp: result_simps)
    note m = Next_moves [OF n] and m' = SkipSpace_moves [OF r]
    have "blanks (segment (sc_index s) (sc_index s1) (zsource s))"
      using n p True m by (auto simp: blanks_def Next_Inr Peek_zsource segment_snoc split: if_splits)
    moreover have "blanks (segment (sc_index s1) (sc_index s') (zsource s))"
      using "1.IH" [OF p True n refl r] Next_zsource [OF n] by simp
    moreover have "segment (sc_index s) (sc_index s') (zsource s) =
        segment (sc_index s) (sc_index s1) (zsource s) @ segment (sc_index s1) (sc_index s') (zsource s)"
      using m m' by (simp add: moves_def segment_append)
    ultimately show ?thesis by (auto simp: blanks_def)
  next
    case False
    with "1.prems" p have "s' = s" by (subst (asm) SkipSpace.simps) auto
    then show ?thesis by (simp add: blanks_def)
  qed
qed

lemma SkipLine_loop_moves: "SkipLine_loop s = Inr s' \<Longrightarrow> wf_index s \<Longrightarrow> moves s s'"
proof (induction s rule: SkipLine_loop.induct)
  case (1 s)
  show ?case
  proof (cases "HasNext s")
    case True
    with "1.prems"(1) obtain ch s1 where n: "Next False s = Inr (ch, s1)"
      and r: "(if ch \<noteq> 10 then SkipLine_loop s1 else Inr s1) = Inr s'"
      by (subst (asm) SkipLine_loop.simps) (auto simp: result_simps)
    note m = Next_moves [OF n]
    then have "wf_index s1" by (simp add: moves_def wf_index_def zsource_def)
    with "1.IH" [OF True n refl] r m show ?thesis
      by (auto split: if_splits intro: moves_trans)
  next
    case False
    with "1.prems" show ?thesis
      by (subst (asm) SkipLine_loop.simps) (auto simp: moves_def wf_index_def)
  qed
qed

lemma SkipLineDirectives_moves:
  assumes "SkipLineDirectives s = Inr s'"
  shows "moves s s' \<and> sc_index s < sc_index s' \<and> sc_buffer s' = []"
proof -
  from assms obtain c1 s1 c2 s2 num s3 row1 l4 c4 s4 c5 s5 name s6 l6 s7
    where n1: "Next False (s\<lparr>sc_buffer := []\<rparr>) = Inr (c1, s1)"
      and n2: "Next True s1 = Inr (c2, s2)" and num: "SkipNumber s2 = Inr (num, s3)"
      and n4: "Next False (s3\<lparr>sc_loc := l4\<rparr>) = Inr (c4, s4)"
      and n5: "Next True s4 = Inr (c5, s5)" and str: "SkipStringLiteral s5 = Inr (name, s6)"
      and l: "SkipLine_loop (s6\<lparr>sc_loc := l6\<rparr>) = Inr s7" and s': "s' = s7\<lparr>sc_buffer := []\<rparr>"
    by (auto simp: SkipLineDirectives_def result_simps)
  have 1: "moves s s1" "sc_index s1 = Suc (sc_index s)" "sc_buffer s1 = []"
    using Next_moves [OF n1] by (simp_all add: moves_def zsource_def)
  have 2: "reads s1 s2" "sc_index s1 < sc_index s2" using Next_reads [OF n2] by simp_all
  have 3: "token_of s1 num s3" using SkipNumber_token_of [OF 2 1(3) num] by simp
  have 4: "moves s3 s4" "sc_buffer s4 = []"
    using Next_moves [OF n4] 3 by (simp_all add: token_of_def)
  have 5: "reads s4 s5" "sc_index s4 < sc_index s5" using Next_reads [OF n5] by simp_all
  have 6: "token_of s4 name s6" using SkipStringLiteral_token_of [OF 5 4(2) str] by simp
  then have "wf_index (s6\<lparr>sc_loc := l6\<rparr>)"
    by (simp add: token_of_def wf_index_def zsource_def)
  from SkipLine_loop_moves [OF l this] have 7: "moves s6 s7" by simp
  have m: "moves s1 s7"
    by (rule moves_trans [OF token_of_moves [OF 3] moves_trans [OF 4(1)
          moves_trans [OF token_of_moves [OF 6] 7]]])
  then have "moves s s7" using 1(1) by (blast intro: moves_trans)
  with m 1(2) s' show ?thesis by (auto simp: moves_def zsource_def)
qed

subsection \<open>Reading one token\<close>

definition tok :: "tag \<Rightarrow> scanner \<Rightarrow> (token \<times> scanner) result" where
  "tok tg s = Inr (MakeToken tg s)"

definition tok_if :: "char \<Rightarrow> tag \<Rightarrow> tag \<Rightarrow> scanner \<Rightarrow> (token \<times> scanner) result" where
  "tok_if c t1 t2 s = bindE (Try (ord c) s) (\<lambda>(b, s1). tok (if b then t1 else t2) s1)"

text \<open>
  \<open>if (Try (c)) return t;\<close> and otherwise go on: the shape of most cases of the switch in \<open>Scan\<close>.
\<close>

definition tok_try :: "char \<Rightarrow> tag \<Rightarrow> (scanner \<Rightarrow> (token \<times> scanner) result) \<Rightarrow> scanner
    \<Rightarrow> (token \<times> scanner) result" where
  "tok_try c t k s = bindE (Try (ord c) s) (\<lambda>(b, s1). if b then tok t s1 else k s1)"

definition Scan_period :: "scanner \<Rightarrow> (token \<times> scanner) result" where
  "Scan_period s = bindE (Peek s) (\<lambda>p. if isdigit p then SkipNumber s
     else bindE (Try (ord CHR ''.'') s) (\<lambda>(b, s1).
       if b then bindE (Try (ord CHR ''.'') s1) (\<lambda>(b2, s2).
         if b2 then tok Tag_kEllipsis s2
         else bindE (PutBack s2) (\<lambda>s3. tok Tag_kPeriod s3))
       else tok Tag_kPeriod s1))"

definition Scan_percent :: "scanner \<Rightarrow> (token \<times> scanner) result" where
  "Scan_percent = tok_try CHR ''='' Tag_kPercentEqual (tok_try CHR ''>'' Tag_kRightBrace (\<lambda>s.
     bindE (Try (ord CHR '':'') s) (\<lambda>(b, s1).
       if b then bindE (Try (ord CHR ''%'') s1) (\<lambda>(b2, s2).
         if b2 then bindE (Try (ord CHR '':'') s2) (\<lambda>(b3, s3).
           if b3 then tok Tag_kSharpSharp s3
           else bindE (PutBack s3) (\<lambda>s4. tok Tag_kSharp s4))
         else tok Tag_kSharp s2)
       else tok Tag_kPercent s1)))"

definition Scan_less :: "scanner \<Rightarrow> (token \<times> scanner) result" where
  "Scan_less s = bindE (Try (ord CHR ''<'') s) (\<lambda>(b, s1).
     if b then tok_if CHR ''='' Tag_kLessLessEqual Tag_kLessLess s1
     else tok_try CHR ''='' Tag_kLessEqual (tok_try CHR '':'' Tag_kLeftSquare
            (tok_if CHR ''%'' Tag_kLeftBrace Tag_kLess)) s1)"

definition Scan_greater :: "scanner \<Rightarrow> (token \<times> scanner) result" where
  "Scan_greater s = bindE (Try (ord CHR ''>'') s) (\<lambda>(b, s1).
     if b then tok_if CHR ''='' Tag_kGreaterGreaterEqual Tag_kGreaterGreater s1
     else tok_if CHR ''='' Tag_kGreaterEqual Tag_kGreater s1)"

text \<open>\<open>Try (Tag::kGreater)\<close>: the tag is passed as the character, as the source has it.\<close>

definition Scan_colon :: "scanner \<Rightarrow> (token \<times> scanner) result" where
  "Scan_colon s = bindE (Try (tag_value Tag_kGreater) s) (\<lambda>(b, s1).
     tok (if b then Tag_kRightSquare else Tag_kColon) s1)"

definition Scan_prefix :: "scanner \<Rightarrow> (token \<times> scanner) result" where
  "Scan_prefix s = bindE (PutBack s) (\<lambda>s1.
     bindE (HandleEncoding s1) (\<lambda>(_, s2).
     bindE (Try (ord CHR 0x27) s2) (\<lambda>(b, s3).
       if b then SkipCharacter s3
       else bindE (Try (ord CHR 0x22) s3) (\<lambda>(b2, s4).
         if b2 then SkipStringLiteral s4
         else bindE (Next True s4) (\<lambda>(_, s5). SkipIdentifier s5)))))"

definition Scan_switch :: "int \<Rightarrow> scanner \<Rightarrow> (token \<times> scanner) result" where
  "Scan_switch ch s =
     (if ch = ord CHR ''['' then tok Tag_kLeftSquare s
      else if ch = ord CHR '']'' then tok Tag_kRightSquare s
      else if ch = ord CHR ''('' then tok Tag_kLeftParen s
      else if ch = ord CHR '')'' then tok Tag_kRightParen s
      else if ch = ord CHR ''{'' then tok Tag_kLeftBrace s
      else if ch = ord CHR ''}'' then tok Tag_kRightBrace s
      else if ch = ord CHR ''.'' then Scan_period s
      else if ch = ord CHR ''+'' then
        tok_try CHR ''+'' Tag_kPlusPlus (tok_if CHR ''='' Tag_kPlusEqual Tag_kPlus) s
      else if ch = ord CHR ''-'' then
        tok_try CHR ''>'' Tag_kArrow (tok_try CHR ''-'' Tag_kMinusMinus
          (tok_if CHR ''='' Tag_kMinusEqual Tag_kMinus)) s
      else if ch = ord CHR ''&'' then
        tok_try CHR ''&'' Tag_kAmpAmp (tok_if CHR ''='' Tag_kAmpEqual Tag_kAmp) s
      else if ch = ord CHR ''*'' then tok_if CHR ''='' Tag_kStarEqual Tag_kStar s
      else if ch = ord CHR ''~'' then tok Tag_kTilde s
      else if ch = ord CHR ''!'' then tok_if CHR ''='' Tag_kExclaimEqual Tag_kExclaim s
      else if ch = ord CHR ''/'' then tok_if CHR ''='' Tag_kSlashEqual Tag_kSlash s
      else if ch = ord CHR ''%'' then Scan_percent s
      else if ch = ord CHR ''<'' then Scan_less s
      else if ch = ord CHR ''>'' then Scan_greater s
      else if ch = ord CHR ''='' then tok_if CHR ''='' Tag_kEqualEqual Tag_kEqual s
      else if ch = ord CHR ''^'' then tok_if CHR ''='' Tag_kCaretEqual Tag_kCaret s
      else if ch = ord CHR ''|'' then
        tok_try CHR ''|'' Tag_kPipePipe (tok_if CHR ''='' Tag_kPipeEqual Tag_kPipe) s
      else if ch = ord CHR ''?'' then tok Tag_kQuestion s
      else if ch = ord CHR '':'' then Scan_colon s
      else if ch = ord CHR '';'' then tok Tag_kSemicolon s
      else if ch = ord CHR '','' then tok Tag_kComma s
      else if isdigit ch then SkipNumber s
      else if ch = ord CHR 0x27 then SkipCharacter s
      else if ch = ord CHR 0x22 then SkipStringLiteral s
      else if ch \<in> {ord CHR ''u'', ord CHR ''U'', ord CHR ''L''} then Scan_prefix s
      else if ch = ord CHR 0x5C then
        bindE (IsUCN ch s) (\<lambda>b. if b then SkipIdentifier s else Inl (Diag ''Invalid input''))
      else if ch = ord CHR ''_'' \<or> ch = ord CHR ''$'' then SkipIdentifier s
      else if ch = 0 then Inr (MakeToken Tag_kEof (s\<lparr>sc_buffer := []\<rparr>))
      else if isalpha ch \<or> (ch \<ge> 128 \<and> ch \<le> 253) then SkipIdentifier s
      else Inl (Diag ''Invalid input''))"

lemma SkipSpace_room: "SkipSpace s = Inr s' \<Longrightarrow> room s' \<le> room s"
  by (auto dest!: SkipSpace_moves simp: moves_def room_def)

lemma SkipLineDirectives_room: "SkipLineDirectives s = Inr s' \<Longrightarrow> room s' < room s"
  by (auto dest!: SkipLineDirectives_moves intro: moves_room)

function Scan :: "scanner \<Rightarrow> (token \<times> scanner) result" where
  "Scan s = bindE (SkipSpace s) (\<lambda>s1.
     bindE (Next True (MarkLocation s1)) (\<lambda>(ch, s2).
       if ch = ord CHR ''#'' then bindE (SkipLineDirectives s2) (\<lambda>s3. Scan s3)
       else Scan_switch ch s2))"
  by pat_completeness auto
termination
proof (relation "measure room", simp, goal_cases)
  case (1 s s1 x ch s2 s3)
  have "room (MarkLocation s1) = room s1" by (simp add: MarkLocation_def room_def)
  with SkipSpace_room [OF 1(1)] Next_room [of True "MarkLocation s1" ch s2]
    SkipLineDirectives_room [OF 1(5)] 1(2,3) show ?case by simp
qed

declare Scan.simps [simp del]

subsection \<open>The text of a token\<close>

text \<open>
  \<open>good s0 s r\<close>: from \<open>s\<close>, reached from \<open>s0\<close> by reading at least one byte, the operation with
  result \<open>r\<close> either fails or makes a token of everything since \<open>s0\<close>, and does not go back
  behind \<open>s\<close>.
\<close>

definition good :: "scanner \<Rightarrow> scanner \<Rightarrow> (token \<times> scanner) result \<Rightarrow> bool" where
  "good s0 s r \<longleftrightarrow> (\<forall>t s'. r = Inr (t, s') \<longrightarrow>
     token_of s0 t s' \<and> sc_index s \<le> sc_index s' \<and> tok_tag t \<noteq> Tag_kEof \<and> tok_tag t \<noteq> Tag_kNone)"

lemma good_mono: "good s0 s1 r \<Longrightarrow> sc_index s \<le> sc_index s1 \<Longrightarrow> good s0 s r"
  by (fastforce simp: good_def)

lemma good_Inl [simp]: "good s0 s (Inl e)"
  by (simp add: good_def)

lemma good_bindE:
  "(\<And>x. m = Inr x \<Longrightarrow> good s0 s (k x)) \<Longrightarrow> good s0 s (bindE m k)"
  by (cases m) (auto simp: good_def)

lemma good_tok:
  "reads s0 s \<Longrightarrow> sc_buffer s0 = [] \<Longrightarrow> tg \<noteq> Tag_kEof \<Longrightarrow> tg \<noteq> Tag_kNone \<Longrightarrow> good s0 s (tok tg s)"
  by (auto simp: good_def tok_def dest: MakeToken_token_of)

lemma good_Try:
  assumes "reads s0 s" and "\<And>b s1. reads s0 s1 \<Longrightarrow> sc_index s \<le> sc_index s1 \<Longrightarrow>
    (b \<longrightarrow> sc_index s < sc_index s1) \<Longrightarrow> good s0 s1 (k (b, s1))"
  shows "good s0 s (bindE (Try c s) k)"
proof (rule good_bindE, clarify)
  fix b s1 assume "Try c s = Inr (b, s1)"
  note t = Try_reads [OF this]
  with assms(1) have "reads s0 s1" by (blast intro: reads_trans)
  with t assms(2) have "good s0 s1 (k (b, s1))" by (auto split: if_splits)
  with t show "good s0 s (k (b, s1))" by (auto intro: good_mono dest: reads_index)
qed

lemma good_tok_if:
  "reads s0 s \<Longrightarrow> sc_buffer s0 = [] \<Longrightarrow> t1 \<noteq> Tag_kEof \<Longrightarrow> t1 \<noteq> Tag_kNone \<Longrightarrow> t2 \<noteq> Tag_kEof \<Longrightarrow>
    t2 \<noteq> Tag_kNone \<Longrightarrow> good s0 s (tok_if c t1 t2 s)"
  unfolding tok_if_def by (rule good_Try) (auto intro!: good_tok split: if_splits)

lemma good_tok_try:
  assumes "reads s0 s" and "sc_buffer s0 = []" and "t \<noteq> Tag_kEof" and "t \<noteq> Tag_kNone"
    and "\<And>s1. reads s0 s1 \<Longrightarrow> good s0 s1 (k s1)"
  shows "good s0 s (tok_try c t k s)"
  unfolding tok_try_def using assms by (intro good_Try) (auto intro!: good_tok)

lemma good_PutBack:
  assumes "reads s0 s1" and "sc_index s < sc_index s1" and "sc_index s0 \<le> sc_index s"
    and "\<And>s2. reads s0 s2 \<Longrightarrow> sc_index s \<le> sc_index s2 \<Longrightarrow> good s0 s2 (k s2)"
  shows "good s0 s (bindE (PutBack s1) k)"
proof (rule good_bindE)
  fix s2 assume p: "PutBack s1 = Inr s2"
  from PutBack_reads [OF assms(1) _ p] assms(2,3)
  have "reads s0 s2" "sc_index s \<le> sc_index s2" by auto
  with assms(4) show "good s0 s (k s2)" by (blast intro: good_mono)
qed

text \<open>A number whose first byte is a digit or a dot keeps that byte.\<close>

lemma SkipNumber_tag:
  "SkipNumber_loop saw tg ch s = Inr (tg', s') \<Longrightarrow> tg \<in> {Tag_kInteger, Tag_kFloatingPoint} \<Longrightarrow>
    tg' \<in> {Tag_kInteger, Tag_kFloatingPoint}"
proof (induction saw tg ch s rule: SkipNumber_loop.induct)
  case (1 saw tg ch s)
  obtain ucn where u: "IsUCN ch s = Inr ucn"
    using "1.prems"(1) by (subst (asm) SkipNumber_loop.simps) (auto simp: result_simps)
  let ?c = "ch = ord CHR ''.'' \<or> isalnum ch \<or> ch = ord CHR ''_'' \<or> ucn \<or> (ch \<ge> 128 \<and> ch \<le> 253)"
  show ?case
  proof (cases ?c)
    case True
    with "1.prems"(1) u obtain saw1 tg1 s1 ch2 s2
      where st: "SkipNumber_step saw tg ch ucn s = Inr (saw1, tg1, s1)"
        and n: "Next True s1 = Inr (ch2, s2)"
        and r: "SkipNumber_loop saw1 tg1 ch2 s2 = Inr (tg', s')"
      by (subst (asm) SkipNumber_loop.simps) (auto simp: result_simps)
    from st "1.prems"(2) have "tg1 \<in> {Tag_kInteger, Tag_kFloatingPoint}"
      by (auto simp: SkipNumber_step_def result_simps Let_def split: if_splits)
    with "1.IH" [OF u True st refl refl n refl r] show ?thesis .
  next
    case False
    with "1.prems" u show ?thesis by (subst (asm) SkipNumber_loop.simps) auto
  qed
qed

lemma good_SkipNumber:
  assumes "reads s0 s" and "sc_index s0 < sc_index s" and "sc_buffer s0 = []"
    and buf: "sc_buffer s = c # cs" and c: "isdigit (schar c) \<or> c = CHR ''.''"
  shows "good s0 s (SkipNumber s)"
proof -
  have "sc_index s \<le> sc_index s' \<and> tok_tag t \<in> {Tag_kInteger, Tag_kFloatingPoint}"
    if sn: "SkipNumber s = Inr (t, s')" for t s'
  proof -
    from sn buf obtain tg s1 s2 where l: "SkipNumber_loop False Tag_kInteger (schar c) s = Inr (tg, s1)"
      and p: "PutBack s1 = Inr s2" and m: "MakeToken tg s2 = (t, s')"
      by (auto simp: SkipNumber_def result_simps)
    from l c obtain ucn saw1 tg1 sa ch2 sb
      where st: "SkipNumber_step False Tag_kInteger (schar c) ucn s = Inr (saw1, tg1, sa)"
        and n: "Next True sa = Inr (ch2, sb)"
        and r: "SkipNumber_loop saw1 tg1 ch2 sb = Inr (tg, s1)"
      by (subst (asm) SkipNumber_loop.simps)
         (auto simp: result_simps isalnum_def schar_def split: if_splits)
    have "reads s sa" using SkipNumber_step_reads [OF st] reads_wf [OF assms(1)]
      by (auto intro: reads_refl)
    with Next_reads [OF n] have sb: "reads s sb" "sc_index s < sc_index sb"
      by (auto intro: reads_trans dest: reads_index)
    with SkipNumber_loop_reads [OF r reads_wf [OF sb(1)]]
    have "reads s s1" "sc_index s < sc_index s1" by (auto intro: reads_trans dest: reads_index)
    from PutBack_reads [OF this p] have "reads s s2" by simp
    then have "sc_index s \<le> sc_index s2" by (rule reads_index)
    with m SkipNumber_tag [OF l] show ?thesis by (auto simp: MakeToken_def Let_def)
  qed
  with SkipNumber_token_of [OF assms(1-3)] show ?thesis by (fastforce simp: good_def)
qed

definition id_char :: "int \<Rightarrow> bool" where
  "id_char ch \<longleftrightarrow> isalnum ch \<or> ch = ord CHR ''_'' \<or> (128 \<le> ch \<and> ch \<le> 253) \<or> ch = ord CHR ''$''"

lemma IsUCN_cong: "sc_source s1 = sc_source s \<Longrightarrow> sc_index s1 = sc_index s \<Longrightarrow> IsUCN ch s1 = IsUCN ch s"
  by (simp add: IsUCN_def Test_def Peek_def)

text \<open>The same for an identifier; \<open>b\<close> allows its first byte not to belong to it.\<close>

lemma good_SkipIdentifier:
  assumes r0: "reads s0 s" and "sc_index s0 < sc_index s" and "sc_buffer s0 = []"
    and b: "\<not> b \<Longrightarrow> id_char (ord (zsource s ! (sc_index s - 1)))
      \<or> IsUCN (ord (zsource s ! (sc_index s - 1))) s = Inr True"
  shows "good s0 (if b then s\<lparr>sc_index := sc_index s - 1\<rparr> else s) (SkipIdentifier s)"
proof -
  have "sc_index s \<le> sc_index s'" if si: "SkipIdentifier s = Inr (t, s')" and nb: "\<not> b" for t s'
  proof -
    from si obtain s1 ch s2 s3 s4 where p: "PutBack s = Inr s1" and n: "Next True s1 = Inr (ch, s2)"
      and l: "SkipIdentifier_loop ch s2 = Inr s3" and p4: "PutBack s3 = Inr s4"
      and m: "MakeToken (KeywordsDictionary_Find (sc_buffer s4)) s4 = (t, s')"
      by (auto simp: SkipIdentifier_def result_simps)
    have s1: "reads s0 s1" "sc_index s1 = sc_index s - 1" using PutBack_reads [OF r0 assms(2) p] by auto
    have z: "zsource s1 = zsource s" "sc_source s1 = sc_source s"
      using s1(1) r0 by (simp_all add: reads_def zsource_def)
    have s2: "reads s0 s2" using Next_reads [OF n] s1(1) by (blast intro: reads_trans)
    have i2: "sc_index s2 = sc_index s" using Next_reads [OF n] s1(2) assms(2) by simp
    have ch: "ch = ord (zsource s ! (sc_index s - 1))" and z2: "sc_source s2 = sc_source s"
      using n s1(2) z by (auto simp: Next_Inr)
    have "id_char ch \<or> IsUCN ch s2 = Inr True"
      using b [OF nb] ch IsUCN_cong [OF z2 i2] by simp
    with l obtain sa ch2 sb where st: "sa = s2 \<or> (\<exists>v. HandleEscape s2 = Inr (v, sa))"
      and n2: "Next True sa = Inr (ch2, sb)" and r: "SkipIdentifier_loop ch2 sb = Inr s3"
      by (subst (asm) SkipIdentifier_loop.simps)
         (auto simp: result_simps id_char_def split: if_splits)
    have "reads s2 sa" using st reads_wf [OF s2] by (auto intro: reads_refl dest: HandleEscape_reads)
    with Next_reads [OF n2] have sb: "reads s2 sb" "sc_index s2 < sc_index sb"
      by (auto intro: reads_trans dest: reads_index)
    with SkipIdentifier_loop_reads [OF r reads_wf [OF sb(1)]]
    have "reads s2 s3" "sc_index s2 < sc_index s3" by (auto intro: reads_trans dest: reads_index)
    from PutBack_reads [OF this p4] have "reads s2 s4" by simp
    then have "sc_index s2 \<le> sc_index s4" by (rule reads_index)
    with m i2 show ?thesis by (auto simp: MakeToken_def Let_def)
  qed
  with SkipIdentifier_token_of [OF assms(1-3)] Find_not_Eof Find_not_None show ?thesis
    by (fastforce simp: good_def)
qed

lemma good_SkipCharacter:
  "reads s0 s \<Longrightarrow> sc_index s0 < sc_index s \<Longrightarrow> sc_buffer s0 = [] \<Longrightarrow> good s0 s (SkipCharacter s)"
  by (auto simp: good_def dest: SkipCharacter_token_of)

lemma good_SkipStringLiteral:
  "reads s0 s \<Longrightarrow> sc_index s0 < sc_index s \<Longrightarrow> sc_buffer s0 = [] \<Longrightarrow> good s0 s (SkipStringLiteral s)"
  by (fastforce simp: good_def dest: SkipStringLiteral_token_of)

lemma good_Scan_prefix:
  assumes "reads s0 s" and "sc_index s = Suc (sc_index s0)" and "sc_buffer s0 = []"
    and ch: "ord (zsource s0 ! sc_index s0) \<in> {ord CHR ''u'', ord CHR ''U'', ord CHR ''L''}"
  shows "good s0 s (Scan_prefix s)"
  unfolding Scan_prefix_def
proof (rule good_bindE)
  fix s1 assume p: "PutBack s = Inr s1"
  have s1: "reads s0 s1" "sc_index s1 = sc_index s0" using PutBack_reads [OF assms(1) _ p] assms(2) by auto
  show "good s0 s (bindE (HandleEncoding s1) (\<lambda>(_, s2).
     bindE (Try (ord CHR 0x27) s2) (\<lambda>(b, s3).
       if b then SkipCharacter s3
       else bindE (Try (ord CHR 0x22) s3) (\<lambda>(b2, s4).
         if b2 then SkipStringLiteral s4
         else bindE (Next True s4) (\<lambda>(_, s5). SkipIdentifier s5)))))"
  proof (rule good_bindE, clarify)
    fix e s2 assume h: "HandleEncoding s1 = Inr (e, s2)"
    have s2: "reads s0 s2" using HandleEncoding_reads [OF h] s1(1) by (blast intro: reads_trans)
    have "Peek s1 = Inr (ord (zsource s0 ! sc_index s0))"
      using s1 assms(1,2) by (simp add: Peek_zsource reads_zsource [OF s1(1)] reads_def)
    with h ch have i2: "sc_index s \<le> sc_index s2"
      by (auto simp: HandleEncoding_def Try_def result_simps s1(2) assms(2)
          split: if_splits dest!: Next_reads reads_index)
    show "good s0 s (bindE (Try (ord CHR 0x27) s2) (\<lambda>(b, s3).
       if b then SkipCharacter s3
       else bindE (Try (ord CHR 0x22) s3) (\<lambda>(b2, s4).
         if b2 then SkipStringLiteral s4
         else bindE (Next True s4) (\<lambda>(_, s5). SkipIdentifier s5))))"
    proof (rule good_mono [OF good_Try [OF s2] i2], clarify, goal_cases)
      case (1 b s3)
      show ?case
      proof (cases b)
        case True
        with 1 i2 assms(2,3) show ?thesis by (simp add: good_SkipCharacter)
      next
        case False
        have "good s0 s3 (bindE (Try (ord CHR 0x22) s3) (\<lambda>(b2, s4).
           if b2 then SkipStringLiteral s4
           else bindE (Next True s4) (\<lambda>(_, s5). SkipIdentifier s5)))"
        proof (rule good_Try [OF 1(1)], clarify, goal_cases)
          case (1 b2 s4)
          show ?case
          proof (cases b2)
            case True
            with 1 \<open>sc_index s2 \<le> sc_index s3\<close> i2 assms(2,3) show ?thesis
              by (simp add: good_SkipStringLiteral)
          next
            case nb: False
            have "good s0 s4 (bindE (Next True s4) (\<lambda>(_, s5). SkipIdentifier s5))"
            proof (rule good_bindE, clarify)
              fix c s5 assume n: "Next True s4 = Inr (c, s5)"
              note n' = Next_reads [OF n]
              have "reads s0 s5" using n' 1(1) by (blast intro: reads_trans)
              from good_SkipIdentifier [OF this _ assms(3), of True] n' 1(1)
              have "good s0 (s5\<lparr>sc_index := sc_index s5 - 1\<rparr>) (SkipIdentifier s5)"
                by (auto dest: reads_index)
              then show "good s0 s4 (SkipIdentifier s5)"
                by (rule good_mono) (simp add: n')
            qed
            with nb show ?thesis by simp
          qed
        qed
        with False show ?thesis by simp
      qed
    qed
  qed
qed

lemma good_if: "(c \<Longrightarrow> good s0 s a) \<Longrightarrow> (\<not> c \<Longrightarrow> good s0 s b) \<Longrightarrow> good s0 s (if c then a else b)"
  by simp

text \<open>
  A second character is tried after a first one: the token it completes, or the token without
  both after the first one has been put back.
\<close>

lemma good_Try_PutBack:
  assumes "reads s0 s1" and "sc_index s < sc_index s1" and "sc_index s0 \<le> sc_index s"
    and "sc_buffer s0 = []" and "t1 \<noteq> Tag_kEof" "t1 \<noteq> Tag_kNone" "t2 \<noteq> Tag_kEof" "t2 \<noteq> Tag_kNone"
  shows "good s0 s (bindE (Try c s1) (\<lambda>(b, s2).
     if b then tok t1 s2 else bindE (PutBack s2) (\<lambda>s3. tok t2 s3)))"
proof (rule good_bindE, clarify, rule good_if)
  fix b s2 assume t: "Try c s1 = Inr (b, s2)"
  have r2: "reads s0 s2" "sc_index s1 \<le> sc_index s2"
    using Try_reads [OF t] assms(1) by (auto intro: reads_trans dest: reads_index)
  show "good s0 s (tok t1 s2)"
    by (rule good_mono [OF good_tok]) (use r2 assms in auto)
  show "good s0 s (bindE (PutBack s2) (\<lambda>s3. tok t2 s3))"
    by (rule good_PutBack [OF r2(1)]) (use r2 assms in \<open>auto intro!: good_tok\<close>)
qed

lemma good_Scan_period:
  assumes "reads s0 s" and "sc_index s0 < sc_index s" and "sc_buffer s0 = []"
    and "sc_buffer s = CHR ''.'' # cs"
  shows "good s0 s (Scan_period s)"
  unfolding Scan_period_def
proof (rule good_bindE, rule good_if)
  show "good s0 s (SkipNumber s)" using assms by (intro good_SkipNumber) auto
next
  show "good s0 s (bindE (Try (ord CHR ''.'') s) (\<lambda>(b, s1).
       if b then bindE (Try (ord CHR ''.'') s1) (\<lambda>(b2, s2).
         if b2 then tok Tag_kEllipsis s2
         else bindE (PutBack s2) (\<lambda>s3. tok Tag_kPeriod s3))
       else tok Tag_kPeriod s1))"
  proof (rule good_bindE, clarify, rule good_if)
    fix b s1 assume t: "Try (ord CHR ''.'') s = Inr (b, s1)"
    note t' = Try_reads [OF t]
    with assms(1) have s1: "reads s0 s1" by (blast intro: reads_trans)
    show "good s0 s (tok Tag_kPeriod s1)"
      by (rule good_mono [OF good_tok]) (use s1 t' assms(3) in \<open>auto split: if_splits\<close>)
    assume b
    with t' s1 assms(2,3) show "good s0 s (bindE (Try (ord CHR ''.'') s1) (\<lambda>(b2, s2).
         if b2 then tok Tag_kEllipsis s2 else bindE (PutBack s2) (\<lambda>s3. tok Tag_kPeriod s3)))"
      by (intro good_Try_PutBack) auto
  qed
qed

lemma good_Scan_percent:
  assumes "reads s0 s" and "sc_buffer s0 = []"
  shows "good s0 s (Scan_percent s)"
  unfolding Scan_percent_def
proof (intro good_tok_try assms; (simp; fail)?)
  fix s assume r: "reads s0 s"
  show "good s0 s (bindE (Try (ord CHR '':'') s) (\<lambda>(b, s1).
       if b then bindE (Try (ord CHR ''%'') s1) (\<lambda>(b2, s2).
         if b2 then bindE (Try (ord CHR '':'') s2) (\<lambda>(b3, s3).
           if b3 then tok Tag_kSharpSharp s3
           else bindE (PutBack s3) (\<lambda>s4. tok Tag_kSharp s4))
         else tok Tag_kSharp s2)
       else tok Tag_kPercent s1))"
  proof (rule good_Try [OF r], clarify, rule good_if)
    fix b s1 assume s1: "reads s0 s1" "sc_index s \<le> sc_index s1"
    show "good s0 s1 (tok Tag_kPercent s1)" using s1 assms(2) by (simp add: good_tok)
    show "good s0 s1 (bindE (Try (ord CHR ''%'') s1) (\<lambda>(b2, s2).
         if b2 then bindE (Try (ord CHR '':'') s2) (\<lambda>(b3, s3).
           if b3 then tok Tag_kSharpSharp s3
           else bindE (PutBack s3) (\<lambda>s4. tok Tag_kSharp s4))
         else tok Tag_kSharp s2))"
    proof (rule good_bindE, clarify, rule good_if)
      fix b2 s2 assume t: "Try (ord CHR ''%'') s1 = Inr (b2, s2)"
      note t' = Try_reads [OF t]
      with s1(1) have s2: "reads s0 s2" by (blast intro: reads_trans)
      show "good s0 s1 (tok Tag_kSharp s2)"
        by (rule good_mono [OF good_tok]) (use s2 t' assms(2) in \<open>auto split: if_splits\<close>)
      assume b2
      with t' s2 s1 assms(2) show "good s0 s1 (bindE (Try (ord CHR '':'') s2) (\<lambda>(b3, s3).
           if b3 then tok Tag_kSharpSharp s3 else bindE (PutBack s3) (\<lambda>s4. tok Tag_kSharp s4)))"
        by (intro good_Try_PutBack) (auto dest: reads_index)
    qed
  qed
qed

lemma good_Scan_less:
  assumes "reads s0 s" and "sc_buffer s0 = []"
  shows "good s0 s (Scan_less s)"
  unfolding Scan_less_def
  by (rule good_Try [OF assms(1)])
     (use assms(2) in \<open>auto intro!: good_tok_if good_tok_try\<close>)

lemma good_Scan_greater:
  assumes "reads s0 s" and "sc_buffer s0 = []"
  shows "good s0 s (Scan_greater s)"
  unfolding Scan_greater_def
  by (rule good_Try [OF assms(1)]) (use assms(2) in \<open>auto intro!: good_tok_if\<close>)

lemma good_Scan_colon:
  assumes "reads s0 s" and "sc_buffer s0 = []"
  shows "good s0 s (Scan_colon s)"
  unfolding Scan_colon_def
  by (rule good_Try [OF assms(1)]) (use assms(2) in \<open>auto intro!: good_tok\<close>)

lemma good_Scan_switch:
  assumes n: "Next True s0 = Inr (ch, s)" and buf: "sc_buffer s0 = []" and ch: "ch \<noteq> 0"
  shows "good s0 s (Scan_switch ch s)"
proof -
  have r: "reads s0 s" and i: "sc_index s = Suc (sc_index s0)" and lt: "sc_index s0 < sc_index s"
    using Next_reads [OF n] by simp_all
  have c: "ch = ord (zsource s0 ! sc_index s0)" and z: "zsource s = zsource s0"
    and b: "sc_buffer s = [zsource s0 ! sc_index s0]"
    using n buf by (simp_all add: Next_Inr zsource_def)
  have num: "isdigit ch \<Longrightarrow> good s0 s (SkipNumber s)"
    by (rule good_SkipNumber [OF r lt buf b]) (simp add: c schar_def isdigit_def)
  have dot: "ch = ord CHR ''.'' \<Longrightarrow> good s0 s (Scan_period s)"
    using good_Scan_period [OF r lt buf, of "[]"] by (simp only: b c of_char_eq_iff)
  have ident: "id_char ch \<or> IsUCN ch s = Inr True \<Longrightarrow> good s0 s (SkipIdentifier s)"
    using good_SkipIdentifier [OF r lt buf, of False] by (simp add: i z c)
  have prefix: "ch \<in> {ord CHR ''u'', ord CHR ''U'', ord CHR ''L''} \<Longrightarrow> good s0 s (Scan_prefix s)"
    by (rule good_Scan_prefix [OF r i buf]) (simp add: c)
  have ucn: "good s0 s (bindE (IsUCN ch s) (\<lambda>b. if b then SkipIdentifier s else Inl (Diag d)))" for d
    by (rule good_bindE) (use ident in auto)
  show ?thesis
    unfolding Scan_switch_def
    by (intro good_if good_tok good_tok_if good_tok_try good_Scan_percent good_Scan_less
        good_Scan_greater good_Scan_colon good_SkipCharacter good_SkipStringLiteral
        r lt buf num dot prefix ucn ident)
       (use ch in \<open>auto simp: id_char_def isalnum_def\<close>)
qed

text \<open>
  What \<open>Scan\<close> returns: blanks and line markers are moved over, then either one token is made of
  at least one byte, or a null byte is found and the token is \<open>kEof\<close>.
\<close>

lemma Scan_result:
  "Scan s = Inr (t, s') \<Longrightarrow> sc_buffer s = [] \<Longrightarrow>
    \<exists>s0. moves s s0 \<and> sc_index s0 < sc_index s' \<and> sc_source s' = sc_source s \<and> sc_buffer s' = [] \<and>
      sc_index s' \<le> length (zsource s) \<and>
      (if tok_tag t = Tag_kEof
       then tok_str t = [] \<and> zsource s ! sc_index s0 = CHR 0x00 \<and> sc_index s' = Suc (sc_index s0)
       else tok_tag t \<noteq> Tag_kNone \<and> tok_str t = segment (sc_index s0) (sc_index s') (zsource s)) \<and>
      (CHR ''#'' \<notin> set (sc_source s) \<longrightarrow> blanks (segment (sc_index s) (sc_index s0) (zsource s)))"
proof (induction s rule: Scan.induct)
  case (1 s)
  obtain s1 ch s2 where sp: "SkipSpace s = Inr s1"
    and n: "Next True (MarkLocation s1) = Inr (ch, s2)"
    using "1.prems"(1) by (subst (asm) Scan.simps) (auto simp: result_simps)
  let ?s0 = "MarkLocation s1"
  have s0: "moves s ?s0" "sc_buffer ?s0 = []"
    using SkipSpace_moves [OF sp] "1.prems"(2) by (auto simp: MarkLocation_def moves_def)
  have s2: "reads ?s0 s2" "sc_index s2 = Suc (sc_index ?s0)" using Next_reads [OF n] by simp_all
  have z: "zsource ?s0 = zsource s" "sc_source ?s0 = sc_source s"
    using s0(1) by (simp_all add: moves_def zsource_def)
  have c: "ch = ord (zsource s ! sc_index ?s0)" using n z by (simp add: Next_Inr)
  have bl: "blanks (segment (sc_index s) (sc_index ?s0) (zsource s))"
    using SkipSpace_blanks [OF sp] by (simp add: MarkLocation_def)
  show ?case
  proof (cases "ch = ord CHR ''#''")
    case True
    with "1.prems"(1) sp n obtain s3 where l: "SkipLineDirectives s2 = Inr s3" and r: "Scan s3 = Inr (t, s')"
      by (subst (asm) Scan.simps) (auto simp: result_simps)
    note l' = SkipLineDirectives_moves [OF l]
    have m: "moves s s3"
      using s0(1) s2 l' by (auto simp: moves_def reads_def zsource_def)
    from "1.IH" [OF sp n refl True l r] l' obtain s0' where "moves s3 s0'" "sc_index s0' < sc_index s'"
      "sc_source s' = sc_source s3" "sc_buffer s' = []" "sc_index s' \<le> length (zsource s3)"
      "if tok_tag t = Tag_kEof
       then tok_str t = [] \<and> zsource s3 ! sc_index s0' = CHR 0x00 \<and> sc_index s' = Suc (sc_index s0')
       else tok_tag t \<noteq> Tag_kNone \<and> tok_str t = segment (sc_index s0') (sc_index s') (zsource s3)"
      by auto
    moreover have "CHR ''#'' \<in> set (sc_source s)"
    proof -
      have "zsource s ! sc_index ?s0 = CHR ''#''" using c True by (simp only: of_char_eq_iff)
      with n z show ?thesis by (auto simp: Next_Inr zsource_def nth_append in_set_conv_nth split: if_splits)
    qed
    ultimately show ?thesis using m
      by (intro exI [of _ s0']) (auto intro: moves_trans simp: moves_def zsource_def)
  next
    case False
    with "1.prems"(1) sp n have sw: "Scan_switch ch s2 = Inr (t, s')"
      by (subst (asm) Scan.simps) auto
    show ?thesis
    proof (cases "ch = 0")
      case True
      with sw have "MakeToken Tag_kEof (s2\<lparr>sc_buffer := []\<rparr>) = (t, s')"
        by (simp add: Scan_switch_def isdigit_def)
      moreover have "ord (zsource s ! sc_index ?s0) = ord CHR 0x00" using c True by simp
      then have "zsource s ! sc_index ?s0 = CHR 0x00" by (simp only: of_char_eq_iff)
      ultimately show ?thesis
        using s0 s2 z bl by (intro exI [of _ ?s0]) (auto simp: MakeToken_def Let_def reads_def)
    next
      case ch0: False
      from good_Scan_switch [OF n s0(2) ch0] sw s2(2) s0 z bl show ?thesis
        by (intro exI [of _ ?s0]) (auto simp: good_def token_of_def)
    qed
  qed
qed

subsection \<open>Reading all tokens\<close>

definition clears :: "(token \<times> scanner) result \<Rightarrow> bool" where
  "clears r \<longleftrightarrow> (\<forall>t s'. r = Inr (t, s') \<longrightarrow> sc_buffer s' = [])"

lemma clears_Inl [simp]: "clears (Inl e)"
  by (simp add: clears_def)

lemma clears_tok [simp]: "clears (Inr (MakeToken tg s))" "clears (tok tg s)"
  by (simp_all add: clears_def tok_def MakeToken_def Let_def)

lemma clears_bindE: "(\<And>x. m = Inr x \<Longrightarrow> clears (k x)) \<Longrightarrow> clears (bindE m k)"
  by (cases m) (auto simp: clears_def)

lemma clears_if: "clears a \<Longrightarrow> clears b \<Longrightarrow> clears (if c then a else b)"
  by simp

lemma clears_tok_if [simp]: "clears (tok_if c t1 t2 s)"
  unfolding tok_if_def by (rule clears_bindE) auto

lemma clears_tok_try: "(\<And>s. clears (k s)) \<Longrightarrow> clears (tok_try c t k s)"
  unfolding tok_try_def by (rule clears_bindE) auto

lemma clears_Skip [simp]:
  "clears (SkipNumber s)" "clears (SkipIdentifier s)" "clears (SkipCharacter s)"
  "clears (SkipStringLiteral s)"
  by (auto simp: SkipNumber_def SkipIdentifier_def SkipCharacter_def SkipStringLiteral_def
      split: list.split intro!: clears_bindE)

lemma clears_Scan_switch: "clears (Scan_switch ch s)"
  unfolding Scan_switch_def Scan_period_def Scan_percent_def Scan_less_def Scan_greater_def
    Scan_colon_def Scan_prefix_def
  by (intro clears_if clears_tok_try clears_tok clears_tok_if clears_Skip)
     (auto intro!: clears_bindE clears_tok_try)

lemma Scan_buffer: "Scan s = Inr (t, s') \<Longrightarrow> sc_buffer s' = []"
proof (induction s rule: Scan.induct)
  case (1 s)
  then show ?case
    using clears_Scan_switch
    by (subst (asm) (2) Scan.simps)
       (fastforce simp: result_simps clears_def split: if_splits)
qed

function Tokenize_loop :: "scanner \<Rightarrow> token list result" where
  "Tokenize_loop s = bindE (Scan s) (\<lambda>(token, s1).
     assertE (tok_tag token \<noteq> Tag_kNone)
       (if IsEof token then Inr [token]
        else bindE (Tokenize_loop s1) (\<lambda>token_sequence. Inr (token # token_sequence))))"
  by pat_completeness auto
termination
proof (relation "measures [\<lambda>s. if sc_buffer s = [] then 0 else 1, room]", simp, goal_cases)
  case (1 s x t s1)
  then have sc: "Scan s = Inr (t, s1)" by simp
  with Scan_buffer [OF sc] show ?case
    by (cases "sc_buffer s = []") (auto dest!: Scan_result simp: room_def moves_def)
qed

declare Tokenize_loop.simps [simp del]

definition Tokenize :: "string \<Rightarrow> token list result" where
  "Tokenize preprocessed_code = Tokenize_loop (Scanner_init preprocessed_code)"

end
