(* ===== verification/Kcc_LexSafe.thy ===== *)
theory Kcc_LexSafe
  imports Kcc_Scan
begin

text \<open>
  Which errors the scanner can end in: on a source without line markers every assertion of the
  scanner and of the positions it moves holds, no exception is thrown, and the source is read
  past its terminating null character only inside a literal whose text ends in a backslash.
\<close>

subsection \<open>States between and after bytes\<close>

text \<open>
  \<open>at_byte src s\<close>: the next byte can be read. \<open>after_byte src ch s\<close>: the byte \<open>ch\<close> has just been
  read into the buffer and can be put back.
\<close>

definition at_byte :: "string \<Rightarrow> scanner \<Rightarrow> bool" where
  "at_byte src s \<longleftrightarrow> sc_source s = src \<and> sc_index s \<le> length src \<and>
     row (sc_loc s) \<ge> 1 \<and> column (sc_loc s) \<ge> 1"

definition after_byte :: "string \<Rightarrow> int \<Rightarrow> scanner \<Rightarrow> bool" where
  "after_byte src ch s \<longleftrightarrow> sc_source s = src \<and> 0 < sc_index s \<and> sc_index s \<le> Suc (length src) \<and>
     ch = ord (zsource s ! (sc_index s - 1)) \<and> sc_buffer s \<noteq> [] \<and>
     row (sc_loc s) \<ge> 1 \<and> column (sc_loc s) \<ge> 1 \<and>
     (if ch = 10 then row (sc_loc s) \<ge> 2 \<and> column_backup (sc_loc s) \<ge> 1
      else column (sc_loc s) \<ge> 2)"

text \<open>The errors allowed on the source \<open>src\<close>.\<close>

definition lex_errors :: "string \<Rightarrow> kcc_error \<Rightarrow> bool" where
  "lex_errors src e \<longleftrightarrow> (\<exists>m. e = Diag m) \<or> (e = Out_Of_Range \<and> CHR 0x5C \<in> set src)"

lemma lex_errors_Diag [simp]: "lex_errors src (Diag m)"
  by (simp add: lex_errors_def)

lemma after_byte_nonzero: "after_byte src ch s \<Longrightarrow> ch \<noteq> 0 \<Longrightarrow> at_byte src s"
  by (auto simp: after_byte_def at_byte_def zsource_def nth_append split: if_splits)

lemma after_byte_mem: "after_byte src ch s \<Longrightarrow> ch \<noteq> 0 \<Longrightarrow> \<exists>c \<in> set src. ch = ord c"
  by (auto simp: after_byte_def zsource_def nth_append split: if_splits)

lemma wp_Peek: "at_byte src s \<Longrightarrow> (\<And>ch. Peek s = Inr ch \<Longrightarrow> Q ch) \<Longrightarrow> wpE A Q (Peek s)"
  by (auto simp: at_byte_def Peek_def)

lemma wp_Next:
  assumes "at_byte src s" and "\<And>ch s'. after_byte src ch s' \<Longrightarrow> Next True s = Inr (ch, s') \<Longrightarrow> Q (ch, s')"
  shows "wpE A Q (Next True s)"
proof (rule wpE_I)
  fix e assume "Next True s = Inl e"
  with assms(1) show "A e" by (auto simp: Next_def at_byte_def Peek_def result_simps Let_def split: if_splits)
next
  fix x assume n: "Next True s = Inr x"
  obtain ch s' where x: "x = (ch, s')" by (cases x)
  with assms(1) n have "after_byte src ch s'"
    by (auto simp: Next_Inr at_byte_def after_byte_def zsource_def NextRow_def NextColumn_def)
  with assms(2) n x show "Q x" by simp
qed

lemma wp_PutBack:
  assumes "after_byte src ch s" and "\<And>s'. at_byte src s' \<Longrightarrow> sc_index s' = sc_index s - 1 \<Longrightarrow> Q s'"
  shows "wpE A Q (PutBack s)"
proof -
  have p: "Peek (s\<lparr>sc_index := sc_index s - 1\<rparr>) = Inr ch"
    using assms(1) by (auto simp: after_byte_def Peek_zsource zsource_def)
  obtain l where l: "(if ch = 10 then PrevRow (sc_loc s) else PrevColumn (sc_loc s)) = Inr l"
    and lr: "row l \<ge> 1" "column l \<ge> 1"
    using assms(1) by (auto simp: after_byte_def PrevRow_def PrevColumn_def assertE_def split: if_splits)
  let ?s' = "s\<lparr>sc_index := sc_index s - 1, sc_buffer := butlast (sc_buffer s), sc_loc := l\<rparr>"
  have "PutBack s = Inr ?s'"
    using assms(1) p l by (auto simp: PutBack_def Let_def after_byte_def)
  moreover have "at_byte src ?s'" using assms(1) lr by (auto simp: after_byte_def at_byte_def)
  ultimately show ?thesis using assms(2) by simp
qed

lemma wp_Try:
  assumes "at_byte src s" and "c \<noteq> 0"
    and "\<And>s'. at_byte src s' \<Longrightarrow> after_byte src c s' \<Longrightarrow> Q (True, s')" and "Q (False, s)"
  shows "wpE A Q (Try c s)"
  unfolding Try_def wpE_simps
proof (rule wp_Peek [OF assms(1)])
  fix p assume p: "Peek s = Inr p"
  show "wpE A Q (if p = c then bindE (Next True s) (\<lambda>(_, s1). Inr (True, s1)) else Inr (False, s))"
  proof (cases "p = c")
    case True
    have "wpE A (\<lambda>x. wpE A Q (case x of (_, s1) \<Rightarrow> Inr (True, s1))) (Next True s)"
    proof (rule wp_Next [OF assms(1)])
      fix ch s' assume a: "after_byte src ch s'" and n: "Next True s = Inr (ch, s')"
      from n p True have "ch = c" by (simp add: Next_Inr Peek_zsource split: if_splits)
      with a assms(2,3) show "wpE A Q (case (ch, s') of (_, s1) \<Rightarrow> Inr (True, s1))"
        by (simp add: after_byte_nonzero)
    qed
    with True show ?thesis by simp
  qed (simp add: assms(4))
qed

lemma wp_IsUCN: "(ch \<noteq> 0 \<Longrightarrow> at_byte src s) \<Longrightarrow> (\<And>b. IsUCN ch s = Inr b \<Longrightarrow> Q b) \<Longrightarrow> wpE A Q (IsUCN ch s)"
  by (rule wpE_I) (auto simp: IsUCN_def Test_def at_byte_def Peek_def result_simps split: if_splits)

lemma IsUCN_nonzero: "IsUCN ch s = Inr True \<Longrightarrow> ch \<noteq> 0"
  by (auto simp: IsUCN_def split: if_splits)

lemma isxdigit_nonzero: "isxdigit ch \<Longrightarrow> ch \<noteq> 0"
  by (auto simp: isxdigit_def isdigit_def)

lemma wp_CharToDigit: "isxdigit ch \<Longrightarrow> (\<And>d. Q d) \<Longrightarrow> wpE A Q (CharToDigit ch)"
  using CharToDigit_xdigit [of ch] by auto
subsection \<open>Escape sequences\<close>

abbreviation (input) safe_at :: "string \<Rightarrow> ('a \<times> scanner) result \<Rightarrow> bool" where
  "safe_at src r \<equiv> wpE (lex_errors src) (\<lambda>(_, s'). at_byte src s') r"

lemma safe_HandleHexEscape_loop: "after_byte src ch s \<Longrightarrow> safe_at src (HandleHexEscape_loop v ch s)"
proof (induction v ch s rule: HandleHexEscape_loop.induct)
  case (1 v ch s)
  show ?case
  proof (cases "isxdigit ch")
    case True
    have "wpE (lex_errors src) (\<lambda>(_, s'). at_byte src s')
      (bindE (Next True s) (\<lambda>(ch', s'). HandleHexEscape_loop (push_bit 4 v + of_int d) ch' s'))"
      if d: "CharToDigit ch = Inr d" for d
      unfolding wpE_simps
      by (rule wp_Next [OF after_byte_nonzero [OF "1.prems" isxdigit_nonzero [OF True]]])
         (use "1.IH" [OF True d] in auto)
    with True show ?thesis
      using CharToDigit_xdigit [OF True] by (subst HandleHexEscape_loop.simps) auto
  next
    case False
    then show ?thesis
      by (subst HandleHexEscape_loop.simps) (auto intro!: wp_PutBack [OF "1.prems"])
  qed
qed

lemma safe_HandleHexEscape: "at_byte src s \<Longrightarrow> safe_at src (HandleHexEscape s)"
  unfolding HandleHexEscape_def wpE_simps
  by (rule wp_Next) (auto intro: wpE_mono [OF safe_HandleHexEscape_loop])

lemma IsOctDigit_CharToDigit: "IsOctDigit ch \<Longrightarrow> CharToDigit ch = Inr (ch - 48)"
  by (simp add: IsOctDigit_def CharToDigit_def)

lemma IsOctDigit_nonzero: "IsOctDigit ch \<Longrightarrow> ch \<noteq> 0"
  by (auto simp: IsOctDigit_def)

lemma safe_HandleOctEscape_loop: "at_byte src s \<Longrightarrow> safe_at src (HandleOctEscape_loop n v s)"
proof (induction n arbitrary: v s)
  case (Suc n)
  show ?case
    unfolding HandleOctEscape_loop.simps wpE_simps
  proof (rule wp_Next [OF Suc.prems], clarsimp, intro conjI impI)
    fix ch s' assume a: "after_byte src ch s'"
    assume o: "IsOctDigit ch"
    then show "wpE (lex_errors src) (\<lambda>x. safe_at src (HandleOctEscape_loop n (push_bit 3 v + of_int x) s')) (CharToDigit ch)"
      using Suc.IH [OF after_byte_nonzero [OF a IsOctDigit_nonzero [OF o]]] IsOctDigit_CharToDigit [OF o]
      by simp
  next
    fix ch s' assume a: "after_byte src ch s'"
    show "wpE (lex_errors src) (at_byte src) (PutBack s')" by (rule wp_PutBack [OF a])
  qed
qed simp

lemma safe_HandleOctEscape: "at_byte src s \<Longrightarrow> IsOctDigit ch \<Longrightarrow> safe_at src (HandleOctEscape ch s)"
  by (auto simp: HandleOctEscape_def IsOctDigit_CharToDigit
      intro: wpE_mono [OF safe_HandleOctEscape_loop])

lemma safe_HandleUCN_loop: "at_byte src s \<Longrightarrow> safe_at src (HandleUCN_loop n v s)"
proof (induction n arbitrary: v s)
  case (Suc n)
  show ?case
    unfolding HandleUCN_loop.simps wpE_simps
    by (rule wp_Next [OF Suc.prems])
       (auto intro!: wp_CharToDigit Suc.IH after_byte_nonzero isxdigit_nonzero)
qed simp

lemma safe_HandleUCN: "at_byte src s \<Longrightarrow> n = 4 \<or> n = 8 \<Longrightarrow> safe_at src (HandleUCN n s)"
  by (auto simp: HandleUCN_def intro: wpE_mono [OF safe_HandleUCN_loop])

lemma safe_HandleEscape:
  assumes "at_byte src s"
  shows "safe_at src (HandleEscape s)"
  unfolding HandleEscape_def wpE_simps
proof (rule wp_Next [OF assms], goal_cases)
  case (1 ch s')
  note a = after_byte_nonzero [OF 1(1)]
  show ?case
    using a
    by (auto simp: IsOctDigit_def intro!: safe_HandleHexEscape safe_HandleOctEscape safe_HandleUCN)
qed

lemma safe_HandleEncoding: "at_byte src s \<Longrightarrow> safe_at src (HandleEncoding s)"
  unfolding HandleEncoding_def wpE_simps
  by (rule wp_Try; simp; (rule wp_Try; simp; (rule wp_Try; simp)?)?)

subsection \<open>Numbers, identifiers and literals\<close>

lemma safe_SkipNumber_step:
  "at_byte src s \<Longrightarrow>
    wpE (lex_errors src) (\<lambda>(_, _, s'). at_byte src s') (SkipNumber_step saw tg ch ucn s)"
  unfolding SkipNumber_step_def wpE_if wpE_simps
  by (auto simp: Let_def intro!: wp_Try wpE_mono [OF safe_HandleEscape])

lemma safe_SkipNumber_loop:
  "after_byte src ch s \<Longrightarrow>
    wpE (lex_errors src) (\<lambda>(_, s'). \<exists>ch'. after_byte src ch' s') (SkipNumber_loop saw tg ch s)"
proof (induction saw tg ch s rule: SkipNumber_loop.induct)
  case (1 saw tg ch s)
  show ?case
  proof (subst SkipNumber_loop.simps, unfold wpE_simps, rule wp_IsUCN)
    assume "ch \<noteq> 0" with "1.prems" show "at_byte src s" by (rule after_byte_nonzero)
  next
    fix ucn assume u: "IsUCN ch s = Inr ucn"
    let ?c = "ch = ord CHR ''.'' \<or> isalnum ch \<or> ch = ord CHR ''_'' \<or> ucn \<or> (ch \<ge> 128 \<and> ch \<le> 253)"
    have "wpE (lex_errors src) (\<lambda>(_, s'). \<exists>ch'. after_byte src ch' s')
      (bindE (SkipNumber_step saw tg ch ucn s) (\<lambda>(saw', tg', s1).
       bindE (Next True s1) (\<lambda>(ch', s2). SkipNumber_loop saw' tg' ch' s2)))" if c: ?c
    proof -
      have "ch \<noteq> 0" using c IsUCN_nonzero [of ch s] u by (auto simp: isalnum_def isalpha_def isdigit_def)
      note at = after_byte_nonzero [OF "1.prems" this]
      show ?thesis
        unfolding wpE_simps
      proof (rule wpE_mono [OF safe_SkipNumber_step [OF at]], clarify, unfold wpE_simps)
        fix saw1 tg1 s1 assume st: "SkipNumber_step saw tg ch ucn s = Inr (saw1, tg1, s1)" and s1: "at_byte src s1"
        show "wpE (lex_errors src)
          (\<lambda>x. wpE (lex_errors src) (\<lambda>(_, s'). \<exists>ch'. after_byte src ch' s')
              (case x of (ch', s2) \<Rightarrow> SkipNumber_loop saw1 tg1 ch' s2)) (Next True s1)"
          by (rule wp_Next [OF s1]) (use "1.IH" [OF u c st] in auto)
      qed
    qed
    with "1.prems" show "wpE (lex_errors src) (\<lambda>(_, s'). \<exists>ch'. after_byte src ch' s')
      (if ?c then bindE (SkipNumber_step saw tg ch ucn s) (\<lambda>(saw', tg', s1).
       bindE (Next True s1) (\<lambda>(ch', s2). SkipNumber_loop saw' tg' ch' s2)) else Inr (tg, s))"
      by (auto simp del: wpE_simps(3))
  qed
qed

lemma at_byte_MakeToken: "at_byte src s \<Longrightarrow> at_byte src (snd (MakeToken tg s))"
  by (simp add: at_byte_def MakeToken_def Let_def)

lemma wp_MakeToken: "at_byte src s \<Longrightarrow> safe_at src (Inr (MakeToken tg s))"
  using at_byte_MakeToken [of src s tg] by (simp add: case_prod_beta)

lemma safe_SkipNumber:
  assumes "after_byte src ch s" and "sc_buffer s = c # cs" and "schar c = ch"
  shows "safe_at src (SkipNumber s)"
proof -
  have "safe_at src (bindE (SkipNumber_loop False Tag_kInteger (schar c) s) (\<lambda>(tg, s1).
                bindE (PutBack s1) (\<lambda>s2. Inr (MakeToken tg s2))))"
    unfolding wpE_simps
  proof (rule wpE_mono [OF safe_SkipNumber_loop [OF assms(1) [folded assms(3)]]], clarify, unfold wpE_simps)
    fix tg s1 ch' assume "after_byte src ch' s1"
    then show "wpE (lex_errors src) (\<lambda>x. case MakeToken tg x of (_, s') \<Rightarrow> at_byte src s') (PutBack s1)"
      by (rule wp_PutBack) (use at_byte_MakeToken in \<open>auto simp: case_prod_beta\<close>)
  qed
  with assms(2) show ?thesis by (simp add: SkipNumber_def)
qed

lemma safe_SkipIdentifier_loop:
  "after_byte src ch s \<Longrightarrow>
    wpE (lex_errors src) (\<lambda>s'. \<exists>ch'. after_byte src ch' s') (SkipIdentifier_loop ch s)"
proof (induction ch s rule: SkipIdentifier_loop.induct)
  case (1 ch s)
  show ?case
  proof (subst SkipIdentifier_loop.simps, unfold wpE_simps, rule wp_IsUCN)
    assume "ch \<noteq> 0" with "1.prems" show "at_byte src s" by (rule after_byte_nonzero)
  next
    fix ucn assume u: "IsUCN ch s = Inr ucn"
    let ?c = "isalnum ch \<or> ch = ord CHR ''_'' \<or> ucn \<or> (128 \<le> ch \<and> ch \<le> 253) \<or> ch = ord CHR ''$''"
    let ?e = "if ucn then bindE (HandleEscape s) (\<lambda>(_, s1). Inr s1) else Inr s"
    have "wpE (lex_errors src) (\<lambda>s'. \<exists>ch'. after_byte src ch' s')
      (bindE ?e (\<lambda>s1. bindE (Next True s1) (\<lambda>(ch', s2). SkipIdentifier_loop ch' s2)))" if c: ?c
    proof -
      have "ch \<noteq> 0" using c IsUCN_nonzero [of ch s] u by (auto simp: isalnum_def isalpha_def isdigit_def)
      note at = after_byte_nonzero [OF "1.prems" this]
      have e: "wpE (lex_errors src) (at_byte src) ?e"
        using at safe_HandleEscape [OF at] by (auto intro: wpE_mono)
      show ?thesis
        unfolding wpE_simps(3)
      proof (rule wpE_mono [OF e])
        fix s1 assume st: "?e = Inr s1" and s1: "at_byte src s1"
        show "wpE (lex_errors src) (\<lambda>x. wpE (lex_errors src) (\<lambda>s'. \<exists>ch'. after_byte src ch' s')
          (case x of (ch', s2) \<Rightarrow> SkipIdentifier_loop ch' s2)) (Next True s1)"
          by (rule wp_Next [OF s1]) (use "1.IH" [OF u c st] in auto)
      qed
    qed
    with "1.prems" show "wpE (lex_errors src) (\<lambda>s'. \<exists>ch'. after_byte src ch' s')
      (if ?c then bindE ?e (\<lambda>s1. bindE (Next True s1) (\<lambda>(ch', s2). SkipIdentifier_loop ch' s2)) else Inr s)"
      by (auto simp del: wpE_simps(3))
  qed
qed

lemma safe_SkipIdentifier:
  assumes "after_byte src ch s"
  shows "safe_at src (SkipIdentifier s)"
  unfolding SkipIdentifier_def wpE_simps
proof (rule wp_PutBack [OF assms], rule wp_Next, assumption, clarify, unfold wpE_simps)
  fix s1 ch' s2 assume a: "after_byte src ch' s2"
  show "wpE (lex_errors src)
     (\<lambda>x. wpE (lex_errors src) (\<lambda>x. case MakeToken (KeywordsDictionary_Find (sc_buffer x)) x of
               (_, s') \<Rightarrow> at_byte src s') (PutBack x)) (SkipIdentifier_loop ch' s2)"
    by (rule wpE_mono [OF safe_SkipIdentifier_loop [OF a]])
       (auto intro!: wp_PutBack simp: case_prod_beta at_byte_MakeToken)
qed

text \<open>Behind a backslash the terminating null character may be consumed; the next read fails.\<close>

lemma wp_Next_escape:
  assumes "after_byte src c s" and "CHR 0x5C \<in> set src"
    and "\<And>ch s'. after_byte src ch s' \<Longrightarrow> Next True s = Inr (ch, s') \<Longrightarrow> Q (ch, s')"
  shows "wpE (lex_errors src) Q (Next True s)"
proof (cases "at_byte src s")
  case True
  then show ?thesis using assms(3) by (rule wp_Next)
next
  case False
  with assms(1) have "sc_index s = Suc (length (sc_source s))" by (auto simp: after_byte_def at_byte_def)
  with assms(2) show ?thesis by (simp add: Next_def Peek_def lex_errors_def)
qed

lemma safe_SkipQuoted_loop:
  "after_byte src ch s \<Longrightarrow>
    wpE (lex_errors src) (\<lambda>(ch', s'). after_byte src ch' s') (SkipQuoted_loop q ch s)"
proof (induction q ch s rule: SkipQuoted_loop.induct)
  case (1 q ch s)
  let ?e = "if ch = ord CHR 0x5C then bindE (Next True s) (\<lambda>(_, s1). Inr s1) else Inr s"
  show ?case
  proof (cases "ch \<noteq> q \<and> ch \<noteq> 10 \<and> ch \<noteq> 0")
    case True
    then have at: "at_byte src s" using after_byte_nonzero [OF "1.prems"] by simp
    have rest: "wpE (lex_errors src) (\<lambda>(ch', s'). after_byte src ch' s')
        (bindE (Next True s1) (\<lambda>(ch', s2). SkipQuoted_loop q ch' s2))"
      if e: "?e = Inr s1" and s1: "at_byte src s1 \<or> (\<exists>c. after_byte src c s1 \<and> CHR 0x5C \<in> set src)" for s1
    proof -
      note ih = "1.IH" [OF True e]
      from s1 show ?thesis
        unfolding wpE_simps
        by (elim disjE exE conjE) (rule wp_Next, assumption, use ih in auto,
            rule wp_Next_escape, assumption+, use ih in auto)
    qed
    have "wpE (lex_errors src) (\<lambda>s1. at_byte src s1 \<or> (\<exists>c. after_byte src c s1 \<and> CHR 0x5C \<in> set src)) ?e"
    proof (cases "ch = ord CHR 0x5C")
      case b: True
      from after_byte_mem [OF "1.prems"] True obtain c where "c \<in> set src" "ord c = ord CHR 0x5C"
        using b by auto
      then have m: "CHR 0x5C \<in> set src" by (simp only: of_char_eq_iff)
      show ?thesis using b m by (auto intro!: wp_Next [OF at])
    qed (use at in simp)
    then have "wpE (lex_errors src) (\<lambda>(ch', s'). after_byte src ch' s')
      (bindE ?e (\<lambda>s1. bindE (Next True s1) (\<lambda>(ch', s2). SkipQuoted_loop q ch' s2)))"
      unfolding wpE_simps(3) [of _ _ ?e] by (rule wpE_mono) (rule rest)
    with True show ?thesis by (subst SkipQuoted_loop.simps) simp
  next
    case False
    then show ?thesis using "1.prems" by (subst SkipQuoted_loop.simps) auto
  qed
qed

lemma safe_SkipCharacter: "at_byte src s \<Longrightarrow> safe_at src (SkipCharacter s)"
  unfolding SkipCharacter_def wpE_simps
  by (rule wp_Next, assumption, clarify, unfold wpE_simps, rule wpE_mono [OF safe_SkipQuoted_loop], assumption)
     (auto simp: case_prod_beta intro!: at_byte_MakeToken dest!: after_byte_nonzero)

lemma safe_SkipStringLiteral: "at_byte src s \<Longrightarrow> safe_at src (SkipStringLiteral s)"
  unfolding SkipStringLiteral_def wpE_simps
  by (rule wp_Next, assumption, clarify, unfold wpE_simps, rule wpE_mono [OF safe_SkipQuoted_loop], assumption)
     (auto simp: case_prod_beta intro!: at_byte_MakeToken dest!: after_byte_nonzero)

subsection \<open>Tokens\<close>

lemma safe_tok: "at_byte src s \<Longrightarrow> safe_at src (tok tg s)"
  unfolding tok_def by (rule wp_MakeToken)

lemma safe_tok_if: "at_byte src s \<Longrightarrow> ord c \<noteq> 0 \<Longrightarrow> safe_at src (tok_if c t1 t2 s)"
  unfolding tok_if_def wpE_simps by (rule wp_Try) (auto intro: safe_tok)

lemma safe_tok_try:
  "at_byte src s \<Longrightarrow> ord c \<noteq> 0 \<Longrightarrow> (\<And>s. at_byte src s \<Longrightarrow> safe_at src (k s)) \<Longrightarrow>
    safe_at src (tok_try c t k s)"
  unfolding tok_try_def wpE_simps by (rule wp_Try) (auto intro: safe_tok)

lemma safe_PutBack_tok: "after_byte src ch s \<Longrightarrow> wpE (lex_errors src) (\<lambda>x. safe_at src (tok tg x)) (PutBack s)"
  by (rule wp_PutBack) (auto intro: safe_tok)

lemma wpE_ifI: "(c \<Longrightarrow> wpE A Q a) \<Longrightarrow> (\<not> c \<Longrightarrow> wpE A Q b) \<Longrightarrow> wpE A Q (if c then a else b)"
  by simp

lemma safe_Scan_period:
  assumes "after_byte src ch s" and "at_byte src s" and "sc_buffer s = [CHR ''.'']" and "ch = 46"
  shows "safe_at src (Scan_period s)"
  unfolding Scan_period_def wpE_simps
proof (rule wp_Peek [OF assms(2)], rule wpE_ifI)
  show "safe_at src (SkipNumber s)"
    by (rule safe_SkipNumber [OF assms(1,3)]) (simp add: schar_def assms(4))
  show "safe_at src (bindE (Try (ord CHR ''.'') s) (\<lambda>(b, s1).
       if b then bindE (Try (ord CHR ''.'') s1) (\<lambda>(b2, s2).
         if b2 then tok Tag_kEllipsis s2 else bindE (PutBack s2) (\<lambda>s3. tok Tag_kPeriod s3))
       else tok Tag_kPeriod s1))"
    unfolding wpE_simps
    by (rule wp_Try [OF assms(2)])
       (auto intro!: safe_tok wp_Try [where Q = "\<lambda>x. wpE _ _ (case x of (a, b) \<Rightarrow> _ a b)"]
          safe_PutBack_tok assms(2))
qed

lemma safe_Scan_percent: "at_byte src s \<Longrightarrow> safe_at src (Scan_percent s)"
  unfolding Scan_percent_def
proof (rule safe_tok_try, assumption, simp, rule safe_tok_try, assumption, simp)
  fix s assume a: "at_byte src s"
  show "safe_at src (bindE (Try (ord CHR '':'') s) (\<lambda>(b, s1).
       if b then bindE (Try (ord CHR ''%'') s1) (\<lambda>(b2, s2).
         if b2 then bindE (Try (ord CHR '':'') s2) (\<lambda>(b3, s3).
           if b3 then tok Tag_kSharpSharp s3 else bindE (PutBack s3) (\<lambda>s4. tok Tag_kSharp s4))
         else tok Tag_kSharp s2)
       else tok Tag_kPercent s1))"
    unfolding wpE_simps
    by (rule wp_Try [OF a])
       (auto intro!: safe_tok a wp_Try [where Q = "\<lambda>x. wpE _ _ (case x of (a, b) \<Rightarrow> _ a b)"]
          safe_PutBack_tok)
qed

lemma safe_Scan_less: "at_byte src s \<Longrightarrow> safe_at src (Scan_less s)"
  unfolding Scan_less_def wpE_simps
  by (rule wp_Try) (auto intro!: safe_tok_if safe_tok_try)

lemma safe_Scan_greater: "at_byte src s \<Longrightarrow> safe_at src (Scan_greater s)"
  unfolding Scan_greater_def wpE_simps
  by (rule wp_Try) (auto intro!: safe_tok_if)

lemma safe_Scan_colon: "at_byte src s \<Longrightarrow> safe_at src (Scan_colon s)"
  unfolding Scan_colon_def wpE_simps by (rule wp_Try) (auto intro!: safe_tok)

lemma safe_Scan_prefix:
  assumes "after_byte src ch s" shows "safe_at src (Scan_prefix s)"
  unfolding Scan_prefix_def wpE_simps
proof (rule wp_PutBack [OF assms], rule wpE_mono [OF safe_HandleEncoding], assumption, clarify,
    unfold wpE_simps)
  fix s2 assume a: "at_byte src s2"
  show "wpE (lex_errors src)
     (\<lambda>x. safe_at src (case x of (b, s3) \<Rightarrow> if b then SkipCharacter s3
       else bindE (Try (ord CHR 0x22) s3) (\<lambda>(b2, s4). if b2 then SkipStringLiteral s4
         else bindE (Next True s4) (\<lambda>(_, s5). SkipIdentifier s5)))) (Try (ord CHR 0x27) s2)"
    by (rule wp_Try [OF a])
       (auto intro!: safe_SkipCharacter a safe_SkipStringLiteral safe_SkipIdentifier wp_Next [OF a]
          wp_Try [where Q = "\<lambda>x. wpE _ _ (case x of (a, b) \<Rightarrow> _ a b)"])
qed

lemma safe_Scan_switch:
  assumes a: "after_byte src ch s" and buf: "sc_buffer s = [c]" and c: "ch = ord c" and nz: "ch \<noteq> 0"
  shows "safe_at src (Scan_switch ch s)"
proof -
  note at = after_byte_nonzero [OF a nz]
  have num: "isdigit ch \<Longrightarrow> safe_at src (SkipNumber s)"
    by (rule safe_SkipNumber [OF a buf]) (simp add: c schar_def isdigit_def)
  have dot: "ch = ord CHR ''.'' \<Longrightarrow> safe_at src (Scan_period s)"
    using safe_Scan_period [OF a at] buf by (simp only: c of_char_eq_iff) simp
  have ucn: "safe_at src (bindE (IsUCN ch s) (\<lambda>b. if b then SkipIdentifier s else Inl (Diag d)))" for d
    unfolding wpE_simps by (rule wp_IsUCN [OF at]) (auto intro: safe_SkipIdentifier [OF a])
  show ?thesis
    unfolding Scan_switch_def
    by (intro wpE_ifI safe_tok safe_tok_if safe_tok_try safe_Scan_percent safe_Scan_less
        safe_Scan_greater safe_Scan_colon safe_SkipCharacter safe_SkipStringLiteral
        safe_Scan_prefix [OF a] safe_SkipIdentifier [OF a] num dot ucn at)
       (use nz in auto)
qed

lemma safe_SkipSpace: "at_byte src s \<Longrightarrow> sc_buffer s = [] \<Longrightarrow>
    wpE A (\<lambda>s'. at_byte src s' \<and> sc_buffer s' = []) (SkipSpace s)"
proof (induction s rule: SkipSpace.induct)
  case (1 s)
  show ?case
  proof (subst SkipSpace.simps, unfold wpE_simps, rule wp_Peek [OF "1.prems"(1)])
    fix ch assume p: "Peek s = Inr ch"
    show "wpE A (\<lambda>s'. at_byte src s' \<and> sc_buffer s' = []) (if isspace ch
     then bindE (Next False s) (\<lambda>(_, s1). SkipSpace s1) else Inr s)"
    proof (cases "isspace ch")
      case True
      then have nz: "ch \<noteq> 0" by (auto simp: isspace_def)
      obtain s1 where n: "Next False s = Inr (ch, s1)" and s1: "at_byte src s1" "sc_buffer s1 = []"
      proof -
        have "sc_index s < length src" using p nz "1.prems"(1)
          by (auto simp: Peek_def at_byte_def split: if_splits)
        with p "1.prems" show thesis
          by (intro that [of "s\<lparr>sc_index := Suc (sc_index s),
              sc_loc := (if ch = 10 then NextRow (Suc (sc_index s)) (sc_loc s)
                       else NextColumn (sc_loc s))\<rparr>"])
             (auto simp: Next_def at_byte_def NextRow_def NextColumn_def Let_def)
      qed
      from "1.IH" [OF p True n refl s1] n True show ?thesis by simp
    qed (use "1.prems" in simp)
  qed
qed

lemma safe_Scan:
  assumes "at_byte src s" and "sc_buffer s = []" and "CHR ''#'' \<notin> set src"
  shows "wpE (lex_errors src) (\<lambda>(t, s'). IsEof t \<or> (at_byte src s' \<and> sc_buffer s' = [])) (Scan s)"
proof (subst Scan.simps, unfold wpE_simps, rule wpE_mono [OF safe_SkipSpace [OF assms(1,2)]],
    elim conjE, rule wp_Next)
  fix s1 assume "at_byte src s1"
  then show "at_byte src (MarkLocation s1)" by (simp add: at_byte_def MarkLocation_def)
next
  fix s1 ch s2 assume s1: "at_byte src s1" "sc_buffer s1 = []" and a: "after_byte src ch s2"
    and n: "Next True (MarkLocation s1) = Inr (ch, s2)"
  from n s1 have buf: "sc_buffer s2 = [zsource s1 ! sc_index s1]" and c: "ch = ord (zsource s1 ! sc_index s1)"
    by (auto simp: Next_Inr MarkLocation_def zsource_def)
  have nh: "ch \<noteq> ord CHR ''#''"
  proof
    assume h: "ch = ord CHR ''#''"
    with after_byte_mem [OF a] obtain d where d: "d \<in> set src" "ord CHR ''#'' = ord d" by auto
    then have "d = CHR ''#''" by (simp only: of_char_eq_iff)
    with d(1) assms(3) show False by simp
  qed
  have "wpE (lex_errors src) (\<lambda>(t, s'). IsEof t \<or> (at_byte src s' \<and> sc_buffer s' = [])) (Scan_switch ch s2)"
  proof (cases "ch = 0")
    case True
    then show ?thesis by (simp add: Scan_switch_def isdigit_def MakeToken_def Let_def IsEof_def)
  next
    case False
    from safe_Scan_switch [OF a buf c False] show ?thesis
      by (rule wpE_mono) (use clears_Scan_switch [of ch s2] in \<open>auto simp: clears_def\<close>)
  qed
  with nh show "wpE (lex_errors src) (\<lambda>(t, s'). IsEof t \<or> (at_byte src s' \<and> sc_buffer s' = []))
     (case (ch, s2) of (ch, s2) \<Rightarrow> if ch = ord CHR ''#'' then bindE (SkipLineDirectives s2) Scan
       else Scan_switch ch s2)"
    by simp
qed

lemma safe_Tokenize_loop:
  "at_byte src s \<Longrightarrow> sc_buffer s = [] \<Longrightarrow> CHR ''#'' \<notin> set src \<Longrightarrow>
    wpE (lex_errors src) (\<lambda>ts. True) (Tokenize_loop s)"
proof (induction s rule: Tokenize_loop.induct)
  case (1 s)
  show ?case
  proof (subst Tokenize_loop.simps, unfold wpE_simps, rule wpE_mono [OF safe_Scan [OF "1.prems"]], clarify)
    fix t s1 assume sc: "Scan s = Inr (t, s1)" and d: "IsEof t \<or> at_byte src s1 \<and> sc_buffer s1 = []"
    from Scan_result [OF sc "1.prems"(2)] have nn: "tok_tag t \<noteq> Tag_kNone" by (auto split: if_splits)
    with d "1.IH" [OF sc refl nn] "1.prems"(3)
    show "wpE (lex_errors src) (\<lambda>ts. True) (assertE (tok_tag t \<noteq> Tag_kNone)
       (if IsEof t then Inr [t]
        else bindE (Tokenize_loop s1) (\<lambda>token_sequence. Inr (t # token_sequence))))"
      by auto
  qed
qed

lemma at_byte_init: "at_byte src (Scanner_init src)" "sc_buffer (Scanner_init src) = []"
  by (simp_all add: at_byte_def Scanner_init_def Location_init_def SetContent_def)

end
