(* ===== verification/Kcc_LexProps.thy ===== *)
theory Kcc_LexProps
  imports Kcc_LexSafe
begin

text \<open>
  What the token sequence says about the source: it is the source, cut into the texts of the
  tokens and the blanks between them; identifiers are as long as they can be.
\<close>

subsection \<open>The source is the tokens and what stands between them\<close>

definition interleave :: "string list \<Rightarrow> token list \<Rightarrow> string" where
  "interleave gaps ts = concat (map2 (\<lambda>g t. g @ tok_str t) gaps ts)"

text \<open>A sequence of tokens as \<open>Tokenize\<close> makes it: one \<open>kEof\<close>, at its end, and no empty token.\<close>

fun token_sequence :: "token list \<Rightarrow> bool" where
  "token_sequence [] = False"
| "token_sequence [t] = (tok_tag t = Tag_kEof \<and> tok_str t = [])"
| "token_sequence (t # ts) = (tok_tag t \<noteq> Tag_kEof \<and> tok_tag t \<noteq> Tag_kNone \<and> tok_str t \<noteq> [] \<and>
     token_sequence ts)"

lemma token_sequence_Cons: "ts \<noteq> [] \<Longrightarrow> token_sequence (t # ts) =
    (tok_tag t \<noteq> Tag_kEof \<and> tok_tag t \<noteq> Tag_kNone \<and> tok_str t \<noteq> [] \<and> token_sequence ts)"
  by (cases ts) simp_all

lemma token_sequence_not_Nil: "token_sequence ts \<Longrightarrow> ts \<noteq> []"
  by (cases ts) simp_all

lemma Tokenize_loop_shape:
  "Tokenize_loop s = Inr ts \<Longrightarrow> sc_buffer s = [] \<Longrightarrow>
    token_sequence ts \<and>
    (\<exists>gaps e. length gaps = length ts \<and> sc_index s \<le> e \<and> e < length (zsource s) \<and>
       zsource s ! e = CHR 0x00 \<and> segment (sc_index s) e (zsource s) = interleave gaps ts \<and>
       (CHR ''#'' \<notin> set (sc_source s) \<longrightarrow> list_all blanks gaps))"
proof (induction s arbitrary: ts rule: Tokenize_loop.induct)
  case (1 s)
  from "1.prems"(1) obtain t s1 where sc: "Scan s = Inr (t, s1)" and nn: "tok_tag t \<noteq> Tag_kNone"
    and r: "(if IsEof t then Inr [t]
             else bindE (Tokenize_loop s1) (\<lambda>token_sequence. Inr (t # token_sequence))) = Inr ts"
    by (subst (asm) Tokenize_loop.simps) (auto simp: result_simps)
  from Scan_result [OF sc "1.prems"(2)] obtain s0 where s0: "moves s s0" "sc_index s0 < sc_index s1"
    "sc_source s1 = sc_source s" "sc_buffer s1 = []" "sc_index s1 \<le> length (zsource s)"
    and t: "if tok_tag t = Tag_kEof
       then tok_str t = [] \<and> zsource s ! sc_index s0 = CHR 0x00 \<and> sc_index s1 = Suc (sc_index s0)
       else tok_tag t \<noteq> Tag_kNone \<and> tok_str t = segment (sc_index s0) (sc_index s1) (zsource s)"
    and bl: "CHR ''#'' \<notin> set (sc_source s) \<longrightarrow> blanks (segment (sc_index s) (sc_index s0) (zsource s))"
    by blast
  have z: "zsource s1 = zsource s" using s0(3) by (simp add: zsource_def)
  let ?g = "segment (sc_index s) (sc_index s0) (zsource s)"
  show ?case
  proof (cases "tok_tag t = Tag_kEof")
    case True
    with r have ts: "ts = [t]" by (simp add: IsEof_def)
    show ?thesis
      using True t ts s0 bl
      by (auto intro!: exI [of _ "[?g]"] exI [of _ "sc_index s0"] simp: interleave_def moves_def)
  next
    case False
    with r obtain ts' where r': "Tokenize_loop s1 = Inr ts'" and ts: "ts = t # ts'"
      by (auto simp: IsEof_def result_simps)
    have ne: "\<not> IsEof t" using False by (simp add: IsEof_def)
    from "1.IH" [OF sc refl nn ne r' s0(4)] obtain gaps e where sq: "token_sequence ts'"
      and g: "length gaps = length ts'" "sc_index s1 \<le> e" "e < length (zsource s)"
        "zsource s ! e = CHR 0x00" "segment (sc_index s1) e (zsource s) = interleave gaps ts'"
        "CHR ''#'' \<notin> set (sc_source s) \<longrightarrow> list_all blanks gaps"
      unfolding z s0(3) by blast
    have str: "tok_str t = segment (sc_index s0) (sc_index s1) (zsource s)" using t False by simp
    then have "length (tok_str t) = sc_index s1 - sc_index s0" using s0(5) by simp
    with s0(2) have "tok_str t \<noteq> []" by auto
    then have "token_sequence ts"
      using sq nn False by (simp add: ts token_sequence_Cons [OF token_sequence_not_Nil [OF sq]])
    moreover have "segment (sc_index s) e (zsource s) = interleave (?g # gaps) ts"
    proof -
      have "segment (sc_index s) e (zsource s) = ?g @ segment (sc_index s0) e (zsource s)"
        using s0(1,2) g(2) by (simp add: moves_def segment_append)
      also have "segment (sc_index s0) e (zsource s) = tok_str t @ segment (sc_index s1) e (zsource s)"
        using s0(2) g(2) by (simp add: str segment_append)
      finally show ?thesis using g(5) by (simp add: interleave_def ts)
    qed
    moreover have "sc_index s \<le> e" using s0(1,2) g(2) by (simp add: moves_def)
    ultimately show ?thesis
      using g bl by (intro conjI exI [of _ "?g # gaps"] exI [of _ e]) (auto simp: ts)
  qed
qed

subsection \<open>Properties of the tokenizer\<close>

text \<open>Tags and texts of a token sequence, for evaluation on concrete sources.\<close>

definition token_texts :: "token list result \<Rightarrow> (tag \<times> string) list option" where
  "token_texts r = (case r of Inr ts \<Rightarrow> Some (map (\<lambda>t. (tok_tag t, tok_str t)) ts) | Inl _ \<Rightarrow> None)"

lemma token_texts_Some: "token_texts r = Some xs \<Longrightarrow> \<exists>ts. r = Inr ts \<and> map (\<lambda>t. (tok_tag t, tok_str t)) ts = xs"
  by (auto simp: token_texts_def split: sum.splits)

text \<open>
  C2. \<open>Scanner::Tokenize\<close> loses nothing: when it returns, there are gaps, one before every token,
  such that the source up to its first unconsumed null byte is the gaps and the token texts in
  alternation; no token but the last is \<open>kEof\<close>, none is \<open>kNone\<close>, and only \<open>kEof\<close> has no text.
  On a source without line markers every gap consists of blanks, so that no byte of the program
  is skipped.
\<close>

theorem Tokenize_lossless:
  assumes "Tokenize src = Inr ts"
  shows "token_sequence ts \<and>
    (\<exists>gaps e. length gaps = length ts \<and> e \<le> length src \<and> take e src = interleave gaps ts \<and>
       (e < length src \<longrightarrow> src ! e = CHR 0x00) \<and>
       (CHR ''#'' \<notin> set src \<longrightarrow> list_all blanks gaps))"
proof -
  from Tokenize_loop_shape [OF assms [unfolded Tokenize_def]] obtain gaps e
    where ts: "token_sequence ts" and g: "length gaps = length ts" "e \<le> length src"
      "(src @ [CHR 0x00]) ! e = CHR 0x00" "segment 0 e (src @ [CHR 0x00]) = interleave gaps ts"
      "CHR ''#'' \<notin> set src \<longrightarrow> list_all blanks gaps"
    unfolding Scanner_init_def zsource_def by (fastforce simp: less_Suc_eq_le)
  then show ?thesis
    by (intro conjI exI [of _ gaps] exI [of _ e]) (auto simp: segment_def nth_append)
qed

theorem Tokenize_lossless_witness:
  "\<exists>ts gaps e. Tokenize ''int a=1;'' = Inr ts \<and> length ts = 6 \<and> length gaps = 6 \<and>
     take e ''int a=1;'' = interleave gaps ts \<and> list_all blanks gaps"
proof -
  have "token_texts (Tokenize ''int a=1;'') = Some [(Tag_kInt, ''int''), (Tag_kIdentifier, ''a''),
      (Tag_kEqual, ''=''), (Tag_kInteger, ''1''), (Tag_kSemicolon, '';''), (Tag_kEof, '''')]"
    by code_simp
  from token_texts_Some [OF this] obtain ts where ts: "Tokenize ''int a=1;'' = Inr ts" "length ts = 6"
    by (auto dest!: arg_cong [where f = length])
  with Tokenize_lossless [OF ts(1)] show ?thesis by auto
qed

text \<open>
  C3. On a source without line markers \<open>Tokenize\<close> returns or reports a diagnostic: no assertion of
  the scanner or of the positions fails, \<open>PutBack\<close> never has an empty buffer, no exception is
  thrown, and the source is read beyond its terminating null byte at most when it has a backslash.
\<close>

theorem Tokenize_safe:
  assumes "CHR ''#'' \<notin> set src"
  shows "case Tokenize src of Inr ts \<Rightarrow> True
    | Inl e \<Rightarrow> (\<exists>m. e = Diag m) \<or> (e = Out_Of_Range \<and> CHR 0x5C \<in> set src)"
  using safe_Tokenize_loop [OF at_byte_init assms]
  by (simp add: Tokenize_def wpE_def lex_errors_def split: sum.splits)

theorem Tokenize_safe_witness:
  "case Tokenize ''a = 'b;'' of Inr ts \<Rightarrow> True | Inl e \<Rightarrow> \<exists>m. e = Diag m"
  using Tokenize_safe [of "''a = 'b;''"] by (simp split: sum.splits)

lemma Next_nth: "sc_index s \<le> length (sc_source s) \<Longrightarrow> \<exists>l b. Next push s =
    Inr (ord (zsource s ! sc_index s), s\<lparr>sc_index := Suc (sc_index s), sc_buffer := b, sc_loc := l\<rparr>)"
  by (cases s) (auto simp: Next_def Peek_zsource Let_def)

lemma SkipQuoted_loop_backslash_end:
  "sc_source s = src @ [CHR 0x5C] \<Longrightarrow> 0 < sc_index s \<Longrightarrow> sc_index s \<le> Suc (length src) \<Longrightarrow>
    ch = ord ((src @ [CHR 0x5C]) ! (sc_index s - 1)) \<Longrightarrow> q \<noteq> ord CHR 0x5C \<Longrightarrow>
    \<forall>i < length src. sc_index s - 1 \<le> i \<longrightarrow> ord (src ! i) \<notin> {q, 10, 0, ord CHR 0x5C} \<Longrightarrow>
    SkipQuoted_loop q ch s = Inl Out_Of_Range"
proof (induction q ch s rule: SkipQuoted_loop.induct)
  case (1 q ch s)
  show ?case
  proof (cases "sc_index s = Suc (length src)")
    case True
    then have ch: "ch = ord CHR 0x5C" using "1.prems"(4) by simp
    obtain l b where n: "Next True s =
        Inr (ord (zsource s ! sc_index s), s\<lparr>sc_index := Suc (sc_index s), sc_buffer := b, sc_loc := l\<rparr>)"
      using Next_nth [of s True] True "1.prems"(1) by auto
    have "Next True (s\<lparr>sc_index := Suc (sc_index s), sc_buffer := b, sc_loc := l\<rparr>) = Inl Out_Of_Range"
      using True "1.prems"(1) by (simp add: Next_def Peek_def)
    with n show ?thesis using ch "1.prems"(5) by (subst SkipQuoted_loop.simps) auto
  next
    case False
    then have lt: "sc_index s - 1 < length src" "sc_index s \<le> length src" using "1.prems"(2,3) by auto
    then have c: "ch = ord (src ! (sc_index s - 1))" using "1.prems"(4) by (simp add: nth_append)
    with "1.prems"(6) lt have nc: "ch \<noteq> q \<and> ch \<noteq> 10 \<and> ch \<noteq> 0" "ch \<noteq> ord CHR 0x5C" by auto
    obtain l b where n: "Next True s =
        Inr (ord (zsource s ! sc_index s), s\<lparr>sc_index := Suc (sc_index s), sc_buffer := b, sc_loc := l\<rparr>)"
      using Next_nth [of s True] lt "1.prems"(1) by auto
    have z: "zsource s ! sc_index s = (src @ [CHR 0x5C]) ! sc_index s"
      using lt "1.prems"(1) by (simp add: zsource_def nth_append)
    have "SkipQuoted_loop q (ord (zsource s ! sc_index s))
        (s\<lparr>sc_index := Suc (sc_index s), sc_buffer := b, sc_loc := l\<rparr>) = Inl Out_Of_Range"
      by (rule "1.IH" [OF nc(1) _ n refl]) (use nc(2) lt "1.prems" z in auto)
    with n nc show ?thesis by (subst SkipQuoted_loop.simps) auto
  qed
qed

text \<open>
  C25. The read beyond the end does happen: a string literal cut off behind a backslash at the end of
  the source makes \<open>SkipStringLiteral\<close> step over the terminating null byte and read on, for
  every source text before it that has no quote, backslash, line end or null byte.
\<close>

theorem Tokenize_reads_past_end:
  assumes "\<forall>c \<in> set body. ord c \<notin> {ord CHR 0x22, 10, 0, ord CHR 0x5C}"
  shows "Tokenize (CHR 0x22 # body @ [CHR 0x5C]) = Inl Out_Of_Range"
proof -
  let ?src = "CHR 0x22 # body"
  let ?s0 = "Scanner_init (?src @ [CHR 0x5C])"
  have sp: "SkipSpace ?s0 = Inr ?s0"
    by (subst SkipSpace.simps) (simp add: Peek_def Scanner_init_def isspace_def)
  obtain l b where n: "Next True (MarkLocation ?s0) =
      Inr (ord CHR 0x22, (MarkLocation ?s0)\<lparr>sc_index := 1, sc_buffer := b, sc_loc := l\<rparr>)"
    using Next_nth [of "MarkLocation ?s0" True] by (auto simp: MarkLocation_def Scanner_init_def zsource_def)
  let ?s1 = "(MarkLocation ?s0)\<lparr>sc_index := 1, sc_buffer := b, sc_loc := l\<rparr>"
  have src: "sc_source ?s1 = ?src @ [CHR 0x5C]" by (simp add: MarkLocation_def Scanner_init_def)
  obtain l2 b2 where n2: "Next True ?s1 =
      Inr (ord ((?src @ [CHR 0x5C]) ! 1), ?s1\<lparr>sc_index := 2, sc_buffer := b2, sc_loc := l2\<rparr>)"
    using Next_nth [of ?s1 True] src by (auto simp: zsource_def nth_append numeral_2_eq_2)
  have "SkipQuoted_loop (ord CHR 0x22) (ord ((?src @ [CHR 0x5C]) ! 1))
      (?s1\<lparr>sc_index := 2, sc_buffer := b2, sc_loc := l2\<rparr>) = Inl Out_Of_Range"
  proof (rule SkipQuoted_loop_backslash_end)
    show "\<forall>i < length ?src. sc_index (?s1\<lparr>sc_index := 2, sc_buffer := b2, sc_loc := l2\<rparr>) - 1 \<le> i \<longrightarrow>
        ord (?src ! i) \<notin> {ord CHR 0x22, 10, 0, ord CHR 0x5C}"
      using assms by (auto simp: nth_Cons')
  qed (use src in auto)
  with n2 have "SkipStringLiteral ?s1 = Inl Out_Of_Range" by (simp add: SkipStringLiteral_def)
  then have "Scan_switch (ord CHR 0x22) ?s1 = Inl Out_Of_Range" by (simp add: Scan_switch_def isdigit_def)
  with sp n have "Scan ?s0 = Inl Out_Of_Range" by (subst Scan.simps) simp
  then show ?thesis unfolding Tokenize_def by (subst Tokenize_loop.simps) simp
qed

theorem Tokenize_reads_past_end_witness: "Tokenize [CHR 0x22, CHR ''a'', CHR 0x5C] = Inl Out_Of_Range"
  using Tokenize_reads_past_end [of "''a''"] by simp

text \<open>
  C26. The digraph of the right bracket: \<open>Scan\<close> compares the byte behind a colon with the number of
  the token tag \<open>kGreater\<close>, which is 67, the letter C, and not with the greater sign. A colon
  before a C is therefore read with it as one \<open>kRightSquare\<close>, and a colon before a greater
  sign is a \<open>kColon\<close>.
\<close>

theorem Scan_colon_digraph:
  assumes "at_byte src s" and "sc_index s < length src" and "ord (src ! sc_index s) = c"
  shows "\<exists>t s'. Scan_colon s = Inr (t, s') \<and>
    (if c = ord CHR ''C'' then tok_tag t = Tag_kRightSquare \<and> sc_index s' = Suc (sc_index s)
     else tok_tag t = Tag_kColon \<and> sc_index s' = sc_index s)"
  using assms
  by (auto simp: Scan_colon_def Try_def Peek_def at_byte_def tok_def MakeToken_def Next_Inr Let_def
      Next_def)

theorem Scan_colon_digraph_witness:
  "\<exists>t s'. Scan_colon (Scanner_init ''>'') = Inr (t, s') \<and> tok_tag t = Tag_kColon \<and> sc_index s' = 0"
  using Scan_colon_digraph [OF at_byte_init(1), of "''>''" 62] by (simp add: Scanner_init_def)

subsection \<open>Identifiers\<close>

lemma id_char_nonzero: "id_char ch \<Longrightarrow> ch \<noteq> 0"
  by (auto simp: id_char_def isalnum_def isalpha_def isdigit_def)

lemma id_char_not_backslash: "id_char ch \<Longrightarrow> IsUCN ch s = Inr False"
  by (auto simp: id_char_def isalnum_def isalpha_def isdigit_def IsUCN_def)

text \<open>
  The loop of \<open>SkipIdentifier\<close> started behind a byte of an identifier stops behind the first
  byte that does not belong to it.
\<close>

lemma SkipIdentifier_loop_run:
  "after_byte src ch s \<Longrightarrow> sc_index s \<le> Suc e \<Longrightarrow> e \<le> length src \<Longrightarrow>
    (\<And>i. sc_index s - 1 \<le> i \<Longrightarrow> i < e \<Longrightarrow> id_char (ord ((src @ [CHR 0x00]) ! i))) \<Longrightarrow>
    stop = ord ((src @ [CHR 0x00]) ! e) \<Longrightarrow> \<not> id_char stop \<Longrightarrow> stop \<noteq> ord CHR 0x5C \<Longrightarrow>
    \<exists>s'. SkipIdentifier_loop ch s = Inr s' \<and> sc_index s' = Suc e \<and> after_byte src stop s'"
proof (induction ch s rule: SkipIdentifier_loop.induct)
  case (1 ch s)
  have ch: "ch = ord ((src @ [CHR 0x00]) ! (sc_index s - 1))" and i0: "0 < sc_index s"
    using "1.prems"(1) by (auto simp: after_byte_def zsource_def)
  show ?case
  proof (cases "sc_index s = Suc e")
    case True
    with ch "1.prems"(5) have "ch = stop" by simp
    moreover from this "1.prems"(7) have "IsUCN ch s = Inr False" by (simp add: IsUCN_def)
    ultimately show ?thesis
      using "1.prems" True by (subst SkipIdentifier_loop.simps) (auto simp: id_char_def)
  next
    case False
    with "1.prems"(2) have le: "sc_index s \<le> e" by simp
    have "id_char ch" unfolding ch by (rule "1.prems"(4)) (use i0 le in auto)
    then have c: "isalnum ch \<or> ch = ord CHR ''_'' \<or> False \<or> (128 \<le> ch \<and> ch \<le> 253) \<or> ch = ord CHR ''$''"
      by (auto simp: id_char_def)
    have u: "IsUCN ch s = Inr False" using \<open>id_char ch\<close> by (rule id_char_not_backslash)
    have "wpE (\<lambda>_. False) (\<lambda>(ch', s'). after_byte src ch' s' \<and> Next True s = Inr (ch', s')) (Next True s)"
      by (rule wp_Next [OF after_byte_nonzero [OF "1.prems"(1) id_char_nonzero [OF \<open>id_char ch\<close>]]]) simp
    then obtain ch' s' where n: "Next True s = Inr (ch', s')" and a: "after_byte src ch' s'"
      by (auto simp: wpE_def split: sum.splits)
    have i': "sc_index s' = Suc (sc_index s)" using n by (simp add: Next_Inr)
    have "\<exists>s''. SkipIdentifier_loop ch' s' = Inr s'' \<and> sc_index s'' = Suc e \<and> after_byte src stop s''"
    proof (rule "1.IH" [OF u c _ n refl a])
      show "id_char (ord ((src @ [CHR 0x00]) ! i))" if "sc_index s' - 1 \<le> i" "i < e" for i
        by (rule "1.prems"(4)) (use that i' in auto)
    qed (use le i' "1.prems" in auto)
    with u c n show ?thesis by (subst SkipIdentifier_loop.simps) auto
  qed
qed

text \<open>The first byte of an identifier that is not the prefix of a literal.\<close>

definition id_start :: "int \<Rightarrow> bool" where
  "id_start ch \<longleftrightarrow> id_char ch \<and> \<not> isdigit ch \<and> ch \<notin> {ord CHR ''u'', ord CHR ''U'', ord CHR ''L''}"

lemma Scan_switch_id_start: "id_start ch \<Longrightarrow> Scan_switch ch s = SkipIdentifier s"
  by (simp add: Scan_switch_def id_start_def id_char_def isalnum_def isalpha_def) linarith

lemma SkipIdentifier_run:
  assumes "after_byte src ch s" and "sc_index s \<le> Suc e" and "e \<le> length src"
    and "\<And>i. sc_index s - 1 \<le> i \<Longrightarrow> i < e \<Longrightarrow> id_char (ord ((src @ [CHR 0x00]) ! i))"
    and "\<not> id_char (ord ((src @ [CHR 0x00]) ! e))" and "(src @ [CHR 0x00]) ! e \<noteq> CHR 0x5C"
  shows "\<exists>t s'. SkipIdentifier s = Inr (t, s') \<and> sc_index s' = e"
proof -
  have "wpE (\<lambda>_. False) (\<lambda>s1. at_byte src s1 \<and> sc_index s1 = sc_index s - 1) (PutBack s)"
    by (rule wp_PutBack [OF assms(1)]) simp
  then obtain s1 where p: "PutBack s = Inr s1" and s1: "at_byte src s1" "sc_index s1 = sc_index s - 1"
    by (auto simp: wpE_def split: sum.splits)
  have "wpE (\<lambda>_. False) (\<lambda>(ch', s'). after_byte src ch' s' \<and> Next True s1 = Inr (ch', s')) (Next True s1)"
    by (rule wp_Next [OF s1(1)]) simp
  then obtain ch2 s2 where n: "Next True s1 = Inr (ch2, s2)" and a: "after_byte src ch2 s2"
    by (auto simp: wpE_def split: sum.splits)
  have i2: "sc_index s2 = sc_index s" using n s1(2) assms(1) by (auto simp: Next_Inr after_byte_def)
  have ne: "ord ((src @ [CHR 0x00]) ! e) \<noteq> ord CHR 0x5C"
    using assms(6) by (simp only: of_char_eq_iff) simp
  from SkipIdentifier_loop_run [OF a _ assms(3) _ refl assms(5) ne] assms(2,4) i2
  obtain s3 where l: "SkipIdentifier_loop ch2 s2 = Inr s3" and i3: "sc_index s3 = Suc e"
    and a3: "after_byte src (ord ((src @ [CHR 0x00]) ! e)) s3" by auto
  have "wpE (\<lambda>_. False) (\<lambda>s4. at_byte src s4 \<and> sc_index s4 = sc_index s3 - 1) (PutBack s3)"
    by (rule wp_PutBack [OF a3]) simp
  then obtain s4 where "PutBack s3 = Inr s4" "sc_index s4 = e"
    by (auto simp: wpE_def i3 split: sum.splits)
  with p n l show ?thesis by (auto simp: SkipIdentifier_def MakeToken_def Let_def)
qed

text \<open>A first byte \<open>u\<close>, \<open>U\<close> or \<open>L\<close> may begin the prefix of a literal: what \<open>HandleEncoding\<close> reads of it.\<close>

definition prefix_start :: "char \<Rightarrow> bool" where
  "prefix_start c \<longleftrightarrow> c \<in> {CHR ''u'', CHR ''U'', CHR ''L''}"

definition literal_prefixes :: "string set" where
  "literal_prefixes = {''u'', ''u8'', ''U'', ''L''}"

lemma Try_at:
  assumes "at_byte src s" and "c \<noteq> CHR 0x00"
  shows "if (src @ [CHR 0x00]) ! sc_index s = c
    then \<exists>s'. Try (ord c) s = Inr (True, s') \<and> at_byte src s' \<and> reads s s' \<and> sc_index s' = Suc (sc_index s)
    else Try (ord c) s = Inr (False, s)"
proof -
  have z: "Peek s = Inr (ord ((src @ [CHR 0x00]) ! sc_index s))"
    using assms(1) by (simp add: Peek_zsource at_byte_def zsource_def)
  have "ord c \<noteq> ord CHR 0x00" using assms(2) by (simp only: of_char_eq_iff) simp
  then have c: "ord c \<noteq> 0" by simp
  have "wpE (\<lambda>_. False) (\<lambda>(b, s'). at_byte src s') (Try (ord c) s)"
    by (rule wp_Try [OF assms(1) c]) (use assms(1) in simp_all)
  then obtain b s' where t: "Try (ord c) s = Inr (b, s')" "at_byte src s'" by (auto simp: wpE_def split: sum.splits)
  from t(1) z have "b = ((src @ [CHR 0x00]) ! sc_index s = c) \<and> (\<not> b \<longrightarrow> s' = s)"
    by (auto simp: Try_def result_simps split: if_splits)
  with t Try_reads [OF t(1)] show ?thesis by auto
qed

lemma HandleEncoding_at:
  assumes "at_byte src s" and "prefix_start ((src @ [CHR 0x00]) ! sc_index s)"
  obtains e s' j where "HandleEncoding s = Inr (e, s')" and "at_byte src s'" and "reads s s'"
    and "sc_index s' = sc_index s + length j" and "j \<in> literal_prefixes"
    and "j = map (\<lambda>i. (src @ [CHR 0x00]) ! (sc_index s + i)) [0..<length j]"
    and "j = ''u'' \<Longrightarrow> (src @ [CHR 0x00]) ! Suc (sc_index s) \<noteq> CHR ''8''"
proof -
  let ?z = "src @ [CHR 0x00]"
  note T = Try_at [OF assms(1)]
  consider "?z ! sc_index s = CHR ''u''" | "?z ! sc_index s = CHR ''U''" | "?z ! sc_index s = CHR ''L''"
    using assms(2) by (auto simp: prefix_start_def)
  then show thesis
  proof cases
    case 1
    with T [of "CHR ''u''"] obtain s1 where s1: "Try (ord CHR ''u'') s = Inr (True, s1)" "at_byte src s1" "reads s s1"
      "sc_index s1 = Suc (sc_index s)" by auto
    show thesis
    proof (cases "?z ! Suc (sc_index s) = CHR ''8''")
      case True
      with Try_at [OF s1(2), of "CHR ''8''"] s1(4) obtain s2 where s2: "Try (ord CHR ''8'') s1 = Inr (True, s2)"
        "at_byte src s2" "reads s1 s2" "sc_index s2 = Suc (Suc (sc_index s))" by auto
      show thesis
        by (rule that [of Enc_kUtf8 s2 "''u8''"])
           (use s1 s2 1 True reads_trans [OF s1(3) s2(3)] in \<open>simp_all add: HandleEncoding_def literal_prefixes_def\<close>)
    next
      case False
      with Try_at [OF s1(2), of "CHR ''8''"] s1(4) have "Try (ord CHR ''8'') s1 = Inr (False, s1)" by simp
      then show thesis
        by (intro that [of Enc_kChar16 s1 "''u''"])
           (use s1 1 False in \<open>simp_all add: HandleEncoding_def literal_prefixes_def\<close>)
    qed
  next
    case 2
    with T [of "CHR ''U''"] T [of "CHR ''u''"] obtain s1 where s1: "Try (ord CHR ''U'') s = Inr (True, s1)" "at_byte src s1"
      "reads s s1" "sc_index s1 = Suc (sc_index s)" "Try (ord CHR ''u'') s = Inr (False, s)" by auto
    show thesis
      by (rule that [of Enc_kChar32 s1 "''U''"]) (use s1 2 in \<open>simp_all add: HandleEncoding_def literal_prefixes_def\<close>)
  next
    case 3
    with T [of "CHR ''L''"] T [of "CHR ''U''"] T [of "CHR ''u''"]
    obtain s1 where s1: "Try (ord CHR ''L'') s = Inr (True, s1)" "at_byte src s1"
      "reads s s1" "sc_index s1 = Suc (sc_index s)" "Try (ord CHR ''u'') s = Inr (False, s)" "Try (ord CHR ''U'') s = Inr (False, s)"
      by auto
    show thesis
      by (rule that [of Enc_kWchar s1 "''L''"]) (use s1 3 in \<open>simp_all add: HandleEncoding_def literal_prefixes_def\<close>)
  qed
qed

lemma Scan_switch_prefix: "prefix_start c \<Longrightarrow> Scan_switch (ord c) s = Scan_prefix s"
proof -
  assume "prefix_start c"
  then consider "ord c = 117" | "ord c = 85" | "ord c = 76" by (auto simp: prefix_start_def)
  then show ?thesis by cases (simp_all add: Scan_switch_def isdigit_def)
qed

definition word_ends :: "string \<Rightarrow> string \<Rightarrow> bool" where
  "word_ends w rest \<longleftrightarrow> rest = [] \<or> (\<not> id_char (ord (hd rest)) \<and> hd rest \<noteq> CHR 0x5C \<and>
     (w \<in> literal_prefixes \<longrightarrow> hd rest \<notin> {CHR 0x27, CHR 0x22}))"

text \<open>
  Behind the prefix of a word that is no literal, \<open>Scan_prefix\<close> goes on as for any identifier.
\<close>

lemma Scan_prefix_word:
  assumes s: "after_byte src ch s" "reads s0 s" "sc_index s = Suc (sc_index s0)"
    and src: "\<And>i. (src @ [CHR 0x00]) ! (sc_index s0 + i) = (w @ rest @ [CHR 0x00]) ! i"
    and w: "w \<noteq> []" "\<forall>c \<in> set w. id_char (ord c)" "prefix_start (hd w)" and rest: "word_ends w rest"
  obtains ch' s' where "Scan_prefix s = SkipIdentifier s'" and "after_byte src ch' s'" and "reads s0 s'"
    and "sc_index s0 < sc_index s'" and "sc_index s' \<le> Suc (sc_index s0 + length w)"
proof -
  let ?z = "src @ [CHR 0x00]" and ?k = "sc_index s0"
  have "wpE (\<lambda>_. False) (\<lambda>s1. at_byte src s1 \<and> sc_index s1 = sc_index s - 1) (PutBack s)"
    by (rule wp_PutBack [OF s(1)]) simp
  then obtain s1 where p: "PutBack s = Inr s1" and s1: "at_byte src s1" "sc_index s1 = ?k"
    by (auto simp: wpE_def s(3) split: sum.splits)
  have r1: "reads s0 s1" using PutBack_reads [OF s(2) _ p] s(3) by simp
  have h: "?z ! ?k = hd w" using src [of 0] w(1) by (simp add: nth_append hd_conv_nth)
  from w(3) have "prefix_start (?z ! sc_index s1)" by (simp add: s1(2) h)
  from HandleEncoding_at [OF s1(1) this] obtain e s2 j where
    2: "HandleEncoding s1 = Inr (e, s2)" "at_byte src s2" "reads s1 s2" "sc_index s2 = ?k + length j" "j \<in> literal_prefixes"
      "j = map (\<lambda>i. ?z ! (?k + i)) [0..<length j]" by (metis s1(2))
  have jn: "j ! i = (w @ rest @ [CHR 0x00]) ! i" if "i < length j" for i
    using arg_cong [OF 2(6), of "\<lambda>xs. xs ! i"] that src [of i] by simp
  have idj: "id_char (ord (j ! i))" if "i < length j" for i
    using 2(5) that by (auto simp: literal_prefixes_def id_char_def isalnum_def isalpha_def isdigit_def less_Suc_eq)
  have jw: "length j \<le> length w"
  proof (rule ccontr)
    assume "\<not> length j \<le> length w"
    then have l: "length w < length j" by simp
    from idj [OF l] jn [OF l] rest show False
      by (cases rest) (auto simp: nth_append word_ends_def dest: id_char_nonzero)
  qed
  have quote: "?z ! sc_index s2 \<notin> {CHR 0x27, CHR 0x22}"
  proof (cases "length j = length w")
    case True
    then have "j = w" using jn by (intro nth_equalityI) (simp_all add: nth_append)
    with rest 2(5) src [of "length j"] True 2(4) show ?thesis
      by (cases rest) (auto simp: word_ends_def nth_append)
  next
    case False
    with jw have l: "length j < length w" by simp
    with src [of "length j"] 2(4) have "?z ! sc_index s2 = w ! length j" by (simp add: nth_append)
    with w(2) l have "id_char (ord (?z ! sc_index s2))" by simp
    then show ?thesis by (auto simp: id_char_def isalnum_def isalpha_def isdigit_def)
  qed
  have t: "Try (ord CHR 0x27) s2 = Inr (False, s2)" "Try (ord CHR 0x22) s2 = Inr (False, s2)"
    using Try_at [OF 2(2), of "CHR 0x27"] Try_at [OF 2(2), of "CHR 0x22"] quote by auto
  have "wpE (\<lambda>_. False) (\<lambda>(ch', s'). after_byte src ch' s' \<and> Next True s2 = Inr (ch', s')) (Next True s2)"
    by (rule wp_Next [OF 2(2)]) simp
  then obtain ch' s3 where n: "Next True s2 = Inr (ch', s3)" and a: "after_byte src ch' s3"
    by (auto simp: wpE_def split: sum.splits)
  show thesis
  proof (rule that [OF _ a])
    show "Scan_prefix s = SkipIdentifier s3" using p 2(1) t n by (simp add: Scan_prefix_def)
    show "reads s0 s3" using Next_reads [OF n] reads_trans [OF reads_trans [OF r1 2(3)]] by blast
    show "?k < sc_index s3" "sc_index s3 \<le> Suc (?k + length w)"
      using Next_reads [OF n] 2(4) jw by auto
  qed
qed

text \<open>
  C9. Identifiers are read whole: where the rest of the source begins with a word of identifier
  bytes whose first is no digit, and the word is not followed by another such byte nor by a
  backslash (nor by a quote, when the word is the prefix \<open>u\<close>, \<open>u8\<close>, \<open>U\<close> or \<open>L\<close> of a literal), \<open>Scan\<close>
  returns exactly that word, tagged as the keyword it spells or else as an identifier, and stops
  behind it.
\<close>

theorem Scan_identifier:
  assumes s: "at_byte src s" "sc_buffer s = []" and src: "drop (sc_index s) src = w @ rest"
    and w: "w \<noteq> []" "\<forall>c \<in> set w. id_char (ord c)" "\<not> isdigit (ord (hd w))"
    and rest: "word_ends w rest"
  shows "\<exists>t s'. Scan s = Inr (t, s') \<and> tok_str t = w \<and> tok_tag t = KeywordsDictionary_Find w \<and>
    sc_index s' = sc_index s + length w"
proof -
  let ?z = "src @ [CHR 0x00]" and ?e = "sc_index s + length w"
  have z: "drop (sc_index s) ?z = w @ rest @ [CHR 0x00]" using src s(1) by (simp add: at_byte_def)
  have len: "length src = sc_index s + length w + length rest"
    using arg_cong [OF src, of length] s(1) by (auto simp: at_byte_def)
  have nth: "?z ! (sc_index s + i) = (w @ rest @ [CHR 0x00]) ! i" for i
    using nth_drop [of "sc_index s" ?z i] z len by simp
  have hd: "?z ! sc_index s = hd w" using nth [of 0] w(1) by (simp add: nth_append hd_conv_nth)
  have stop: "\<not> id_char (ord (?z ! ?e))" "?z ! ?e \<noteq> CHR 0x5C"
    using nth [of "length w"] rest
    by (auto simp: word_ends_def nth_append hd_conv_nth dest: id_char_nonzero)
  have sp: "SkipSpace s = Inr s"
  proof -
    have "Peek s = Inr (ord (hd w))" using s(1) hd len by (auto simp: Peek_zsource at_byte_def zsource_def)
    moreover have "\<not> isspace (ord (hd w))"
      using w(1,2) by (cases w) (auto simp: id_char_def isalnum_def isalpha_def isdigit_def isspace_def)
    ultimately show ?thesis by (subst SkipSpace.simps) simp
  qed
  have a0: "at_byte src (MarkLocation s)" using s(1) by (simp add: at_byte_def MarkLocation_def)
  have "wpE (\<lambda>_. False) (\<lambda>(ch', s'). after_byte src ch' s' \<and> Next True (MarkLocation s) = Inr (ch', s'))
      (Next True (MarkLocation s))"
    by (rule wp_Next [OF a0]) simp
  then obtain ch s1 where n: "Next True (MarkLocation s) = Inr (ch, s1)" and a: "after_byte src ch s1"
    by (auto simp: wpE_def split: sum.splits)
  have i1: "sc_index s1 = Suc (sc_index s)" and ch: "ch = ord (hd w)"
    using n hd s(1) by (auto simp: Next_Inr MarkLocation_def zsource_def at_byte_def)
  have idc: "id_char (ord (?z ! i))" if "sc_index s1 - 1 \<le> i" "i < ?e" for i
    using nth [of "i - sc_index s"] that i1 w(2) by (auto simp: nth_append)
  have ic: "id_char ch" using w ch by simp
  have b: "sc_index s1 \<le> ?e" "?e \<le> length src" using i1 w(1) len by (auto simp: Suc_le_eq)
  have hash: "ch \<noteq> ord CHR ''#''" using ic by (auto simp: id_char_def isalnum_def isalpha_def isdigit_def)
  have r: "reads (MarkLocation s) s1" and i0: "sc_index (MarkLocation s) = sc_index s" and b0: "sc_buffer (MarkLocation s) = []"
    using Next_reads [OF n] s(2) by (auto simp: MarkLocation_def)
  obtain ch2 s2 where sw: "Scan_switch ch s1 = SkipIdentifier s2" and a2: "after_byte src ch2 s2"
    and r2: "reads (MarkLocation s) s2" "sc_index s < sc_index s2" "sc_index s2 \<le> Suc ?e"
  proof (cases "prefix_start (hd w)")
    case True
    then have "Scan_switch ch s1 = Scan_prefix s1" unfolding ch by (rule Scan_switch_prefix)
    moreover have "sc_index s1 = Suc (sc_index (MarkLocation s))" using i0 i1 by simp
    moreover have "?z ! (sc_index (MarkLocation s) + i) = (w @ rest @ [CHR 0x00]) ! i" for i
      unfolding i0 by (rule nth)
    ultimately show thesis
      using that by (elim Scan_prefix_word [OF a r _ _ w(1,2) True rest]) (simp_all only: i0)
  next
    case False
    then have "ch \<noteq> ord CHR ''u''" "ch \<noteq> ord CHR ''U''" "ch \<noteq> ord CHR ''L''"
      unfolding ch by (simp_all only: of_char_eq_iff prefix_start_def) auto
    with w(3) ic ch have "id_start ch" by (simp add: id_start_def)
    with that [OF Scan_switch_id_start a r] i1 b show thesis by simp
  qed
  have idc2: "id_char (ord (?z ! i))" if "sc_index s2 - 1 \<le> i" "i < ?e" for i
    using idc [of i] that r2(2) i1 by simp
  from SkipIdentifier_run [OF a2 r2(3) b(2) idc2 stop] obtain t s'
    where si: "SkipIdentifier s2 = Inr (t, s')" and i': "sc_index s' = ?e" by blast
  have sc: "Scan s = Inr (t, s')"
    using sp n si sw hash by (subst Scan.simps) simp
  have "token_of (MarkLocation s) t s' \<and> tok_tag t = KeywordsDictionary_Find (tok_str t)"
    using SkipIdentifier_token_of [OF r2(1) _ b0 si] r2(2) i0 by simp
  moreover have "segment (sc_index s) ?e ?z = w"
    using z by (simp add: segment_def)
  ultimately show ?thesis
    using sc i' s(1) by (auto simp: token_of_def MarkLocation_def zsource_def at_byte_def)
qed

theorem Scan_identifier_witness:
  "\<exists>t s'. Scan (Scanner_init ''unsigned(x)'') = Inr (t, s') \<and> tok_str t = ''unsigned'' \<and>
     tok_tag t = KeywordsDictionary_Find ''unsigned'' \<and> sc_index s' = 8"
  using Scan_identifier [OF at_byte_init, of "''unsigned(x)''" "''unsigned''" "''(x)''"]
  by (simp add: Scanner_init_def id_char_def isalnum_def isalpha_def isdigit_def word_ends_def literal_prefixes_def eval_nat_numeral)

end
