(* ===== verification/Kcc_Types.thy ===== *)
theory Kcc_Types
  imports Kcc_Prelude
begin

unbundle bit_operations_syntax

text \<open>
  The types of the compiler: the enumerations of \<open>src/type.h\<close> as 32-bit masks, the class \<open>Type\<close>
  and its subclasses of \<open>src/type.cpp\<close>.

  A \<open>Type*\<close> is a value of the datatype \<open>ctype\<close>, with one constructor per subclass. What a type
  object changes after its construction is kept outside, in the record \<open>types\<close>, under the
  number of the array, structure or function object: the element count of an array, the
  completeness of arrays, structures and functions, name and members of a structure, specifier
  and name of a function. The parameters of a function are its \<open>ObjectExpr\<close> objects, here their
  number and their type. A \<open>QualType\<close> is a type with a mask of qualifiers.

  The LLVM type that a type object carries is computed (\<open>GetLLVMType\<close>) as a value of \<open>ltype\<close>.
  LLVM's identified structure types are their number.
\<close>

subsection \<open>Masks\<close>

type_synonym mask = "32 word"

abbreviation kSigned :: mask where "kSigned \<equiv> 0x1"
abbreviation kUnsigned :: mask where "kUnsigned \<equiv> 0x2"
abbreviation kVoid :: mask where "kVoid \<equiv> 0x4"
abbreviation kChar :: mask where "kChar \<equiv> 0x8"
abbreviation kShort :: mask where "kShort \<equiv> 0x10"
abbreviation kInt :: mask where "kInt \<equiv> 0x20"
abbreviation kLong :: mask where "kLong \<equiv> 0x40"
abbreviation kFloat :: mask where "kFloat \<equiv> 0x80"
abbreviation kDouble :: mask where "kDouble \<equiv> 0x100"
abbreviation kBool :: mask where "kBool \<equiv> 0x200"
abbreviation kComplex :: mask where "kComplex \<equiv> 0x400"
abbreviation kAtomicTypeSpec :: mask where "kAtomicTypeSpec \<equiv> 0x800"
abbreviation kStructUnionSpec :: mask where "kStructUnionSpec \<equiv> 0x1000"
abbreviation kEnumSpec :: mask where "kEnumSpec \<equiv> 0x2000"
abbreviation kTypedefName :: mask where "kTypedefName \<equiv> 0x4000"
abbreviation kLongLong :: mask where "kLongLong \<equiv> 0x8000"

abbreviation kConst :: mask where "kConst \<equiv> 0x1"
abbreviation kRestrict :: mask where "kRestrict \<equiv> 0x2"
abbreviation kVolatile :: mask where "kVolatile \<equiv> 0x4"
abbreviation kAtomic :: mask where "kAtomic \<equiv> 0x8"

abbreviation kTypedef :: mask where "kTypedef \<equiv> 0x1"
abbreviation kExtern :: mask where "kExtern \<equiv> 0x2"
abbreviation kStatic :: mask where "kStatic \<equiv> 0x4"
abbreviation kThreadLocal :: mask where "kThreadLocal \<equiv> 0x8"
abbreviation kAuto :: mask where "kAuto \<equiv> 0x10"
abbreviation kRegister :: mask where "kRegister \<equiv> 0x20"

abbreviation kInline :: mask where "kInline \<equiv> 0x1"
abbreviation kNoreturn :: mask where "kNoreturn \<equiv> 0x2"

definition kCompSigned :: mask where "kCompSigned = kShort OR kInt OR kLong OR kLongLong"
definition kCompUnsigned :: mask where "kCompUnsigned = kShort OR kInt OR kLong OR kLongLong"
definition kCompChar :: mask where "kCompChar = kSigned OR kUnsigned"
definition kCompShort :: mask where "kCompShort = kSigned OR kUnsigned OR kInt"
definition kCompInt :: mask where "kCompInt = kSigned OR kUnsigned OR kShort OR kLong OR kLongLong"
definition kCompLong :: mask where "kCompLong = kSigned OR kUnsigned OR kInt OR kLong"
definition kCompDouble :: mask where "kCompDouble = kLong"

text \<open>A mask used as a condition.\<close>

definition has :: "mask \<Rightarrow> mask \<Rightarrow> bool" where
  "has m b \<longleftrightarrow> m AND b \<noteq> 0"

subsection \<open>Types and the state of type objects\<close>

datatype ctype =
    VoidT
  | ArithT mask
  | PointerT ctype mask
  | ArrayT nat ctype mask
  | StructT bool nat
  | FuncT nat ctype mask "(nat \<times> ctype) list" bool

type_synonym qtype = "ctype \<times> mask"

datatype ltype =
    LVoid
  | LInt nat
  | LFloat
  | LDouble
  | LX86_FP80
  | LPtr ltype
  | LArr nat ltype
  | LStruct nat
  | LFunc ltype "ltype list" bool

record arr_cell =
  num_elements :: "int option"
  arr_complete :: bool

record func_cell =
  func_spec :: mask
  func_name :: string
  func_complete :: bool

record struct_cell =
  st_is_struct :: bool
  st_name :: string
  st_members :: "nat list"
  st_scope :: nat
  st_offset :: int
  st_width :: int
  st_align :: int
  bit_field_used_width :: int
  bit_field_base_type_width :: int
  st_index :: int
  bit_field_space_count :: int
  llvm_types :: "ltype list"
  llvm_body :: "ltype list"
  struct_complete :: bool

record types =
  arrays :: "nat \<Rightarrow> arr_cell"
  structs :: "nat \<Rightarrow> struct_cell"
  funcs :: "nat \<Rightarrow> func_cell"
  next_id :: nat

subsection \<open>Predicates on types\<close>

definition QualType_IsConst :: "qtype \<Rightarrow> bool" where
  "QualType_IsConst q \<longleftrightarrow> has (snd q) kConst"

definition QualType_IsVolatile :: "qtype \<Rightarrow> bool" where
  "QualType_IsVolatile q \<longleftrightarrow> has (snd q) kVolatile"

definition IsVoidTy :: "ctype \<Rightarrow> bool" where
  "IsVoidTy t \<longleftrightarrow> t = VoidT"

fun arith_in :: "mask set \<Rightarrow> ctype \<Rightarrow> bool" where
  "arith_in ms (ArithT s) = (s \<in> ms)"
| "arith_in ms _ = False"

definition IsBoolTy :: "ctype \<Rightarrow> bool" where
  "IsBoolTy = arith_in {kBool}"

definition IsShortTy :: "ctype \<Rightarrow> bool" where
  "IsShortTy = arith_in {kShort, kShort OR kUnsigned}"

definition IsIntTy :: "ctype \<Rightarrow> bool" where
  "IsIntTy = arith_in {kInt, kInt OR kUnsigned}"

definition IsLongTy :: "ctype \<Rightarrow> bool" where
  "IsLongTy = arith_in {kLong, kLong OR kUnsigned}"

definition IsLongLongTy :: "ctype \<Rightarrow> bool" where
  "IsLongLongTy = arith_in {kLongLong, kLongLong OR kUnsigned}"

definition IsFloatTy :: "ctype \<Rightarrow> bool" where
  "IsFloatTy = arith_in {kFloat}"

definition IsDoubleTy :: "ctype \<Rightarrow> bool" where
  "IsDoubleTy = arith_in {kDouble}"

definition IsLongDoubleTy :: "ctype \<Rightarrow> bool" where
  "IsLongDoubleTy = arith_in {kLong OR kDouble}"

fun IsPointerTy :: "ctype \<Rightarrow> bool" where
  "IsPointerTy (PointerT _ _) = True"
| "IsPointerTy _ = False"

fun IsArrayTy :: "ctype \<Rightarrow> bool" where
  "IsArrayTy (ArrayT _ _ _) = True"
| "IsArrayTy _ = False"

fun IsStructTy :: "ctype \<Rightarrow> bool" where
  "IsStructTy (StructT b _) = b"
| "IsStructTy _ = False"

fun IsUnionTy :: "ctype \<Rightarrow> bool" where
  "IsUnionTy (StructT b _) = (\<not> b)"
| "IsUnionTy _ = False"

definition IsStructOrUnionTy :: "ctype \<Rightarrow> bool" where
  "IsStructOrUnionTy t \<longleftrightarrow> IsStructTy t \<or> IsUnionTy t"

fun IsFunctionTy :: "ctype \<Rightarrow> bool" where
  "IsFunctionTy (FuncT _ _ _ _ _) = True"
| "IsFunctionTy _ = False"

fun IsCharacterTy :: "ctype \<Rightarrow> bool" where
  "IsCharacterTy (ArithT s) = has s kChar"
| "IsCharacterTy _ = False"

definition IsRealFloatPointTy :: "ctype \<Rightarrow> bool" where
  "IsRealFloatPointTy t \<longleftrightarrow> IsFloatTy t \<or> IsDoubleTy t \<or> IsLongDoubleTy t"

definition IsFloatPointTy :: "ctype \<Rightarrow> bool" where
  "IsFloatPointTy t \<longleftrightarrow> IsRealFloatPointTy t"

fun IsArithT :: "ctype \<Rightarrow> bool" where
  "IsArithT (ArithT _) = True"
| "IsArithT _ = False"

definition IsIntegerTy :: "ctype \<Rightarrow> bool" where
  "IsIntegerTy t \<longleftrightarrow> IsArithT t \<and> \<not> IsFloatPointTy t \<and> \<not> IsBoolTy t"

definition IsRealTy :: "ctype \<Rightarrow> bool" where
  "IsRealTy t \<longleftrightarrow> IsIntegerTy t \<or> IsRealFloatPointTy t"

definition IsArithmeticTy :: "ctype \<Rightarrow> bool" where
  "IsArithmeticTy t \<longleftrightarrow> IsBoolTy t \<or> IsIntegerTy t \<or> IsFloatPointTy t"

definition IsScalarTy :: "ctype \<Rightarrow> bool" where
  "IsScalarTy t \<longleftrightarrow> IsArithmeticTy t \<or> IsPointerTy t"

definition IsAggregateTy :: "ctype \<Rightarrow> bool" where
  "IsAggregateTy t \<longleftrightarrow> IsArrayTy t \<or> IsStructOrUnionTy t"

definition IsIntegerOrBoolTy :: "ctype \<Rightarrow> bool" where
  "IsIntegerOrBoolTy t \<longleftrightarrow> IsIntegerTy t \<or> IsBoolTy t"

fun arith_spec :: "ctype \<Rightarrow> mask" where
  "arith_spec (ArithT s) = s"
| "arith_spec _ = 0"

definition IsUnsigned :: "ctype \<Rightarrow> bool" where
  "IsUnsigned t = (if IsBoolTy t then True else if \<not> IsIntegerTy t then False
     else has (arith_spec t) kUnsigned)"

lemmas type_preds = IsVoidTy_def IsBoolTy_def IsShortTy_def IsIntTy_def IsLongTy_def
  IsLongLongTy_def IsFloatTy_def IsDoubleTy_def IsLongDoubleTy_def IsStructOrUnionTy_def
  IsRealFloatPointTy_def IsFloatPointTy_def IsIntegerTy_def IsRealTy_def IsArithmeticTy_def
  IsScalarTy_def IsAggregateTy_def IsIntegerOrBoolTy_def IsUnsigned_def

text \<open>\<open>complete_\<close>: false for void, true for arithmetic types and pointers, else a flag.\<close>

fun IsComplete :: "types \<Rightarrow> ctype \<Rightarrow> bool" where
  "IsComplete ts VoidT = False"
| "IsComplete ts (ArithT _) = True"
| "IsComplete ts (PointerT _ _) = True"
| "IsComplete ts (ArrayT a _ _) = arr_complete (arrays ts a)"
| "IsComplete ts (StructT _ s) = struct_complete (structs ts s)"
| "IsComplete ts (FuncT f _ _ _ _) = func_complete (funcs ts f)"

subsection \<open>Pointers, arrays and functions\<close>

definition PointerType_Get :: "qtype \<Rightarrow> ctype" where
  "PointerType_Get q = PointerT (fst q) (snd q)"

definition GetPointerTo :: "ctype \<Rightarrow> ctype" where
  "GetPointerTo t = PointerType_Get (t, 0)"

fun PointerGetElementType :: "ctype \<Rightarrow> qtype result" where
  "PointerGetElementType (PointerT t q) = Inr (t, q)"
| "PointerGetElementType _ = Inl Assert_Fail"

fun ArrayGetElementType :: "ctype \<Rightarrow> qtype result" where
  "ArrayGetElementType (ArrayT _ t q) = Inr (t, q)"
| "ArrayGetElementType _ = Inl Assert_Fail"

definition ArrayType_Get :: "qtype \<Rightarrow> int option \<Rightarrow> types \<Rightarrow> ctype \<times> types" where
  "ArrayType_Get contained_type n ts =
     (let a = next_id ts
      in (ArrayT a (fst contained_type) (snd contained_type),
          ts\<lparr>arrays := (arrays ts)(a := \<lparr>num_elements = n, arr_complete = (n \<noteq> None)\<rparr>),
             next_id := a + 1\<rparr>))"

definition ArrayType_GetNumElements :: "types \<Rightarrow> nat \<Rightarrow> int" where
  "ArrayType_GetNumElements ts a = (case num_elements (arrays ts a) of Some n \<Rightarrow> n | None \<Rightarrow> 0)"

fun ArrayGetNumElements :: "types \<Rightarrow> ctype \<Rightarrow> int result" where
  "ArrayGetNumElements ts (ArrayT a _ _) = Inr (ArrayType_GetNumElements ts a)"
| "ArrayGetNumElements ts _ = Inl Assert_Fail"

fun ArraySetNumElements :: "int \<Rightarrow> ctype \<Rightarrow> types \<Rightarrow> types result" where
  "ArraySetNumElements n (ArrayT a _ _) ts = assertE (n > 0)
     (Inr (ts\<lparr>arrays := (arrays ts)(a := (arrays ts a)\<lparr>num_elements := Some n\<rparr>)\<rparr>))"
| "ArraySetNumElements n _ ts = Inl Assert_Fail"

definition FunctionType_Get :: "qtype \<Rightarrow> (nat \<times> ctype) list \<Rightarrow> bool \<Rightarrow> types \<Rightarrow> ctype \<times> types" where
  "FunctionType_Get return_type params is_var_args ts =
     (let f = next_id ts
      in (FuncT f (fst return_type) (snd return_type) params is_var_args,
          ts\<lparr>funcs := (funcs ts)(f := \<lparr>func_spec = 0, func_name = [], func_complete = False\<rparr>),
             next_id := f + 1\<rparr>))"

fun FuncIsVarArgs :: "ctype \<Rightarrow> bool result" where
  "FuncIsVarArgs (FuncT _ _ _ _ v) = Inr v"
| "FuncIsVarArgs _ = Inl Assert_Fail"

fun FuncGetReturnType :: "ctype \<Rightarrow> qtype result" where
  "FuncGetReturnType (FuncT _ t q _ _) = Inr (t, q)"
| "FuncGetReturnType _ = Inl Assert_Fail"

fun FuncGetParams :: "ctype \<Rightarrow> (nat \<times> ctype) list result" where
  "FuncGetParams (FuncT _ _ _ ps _) = Inr ps"
| "FuncGetParams _ = Inl Assert_Fail"

fun FuncSetFuncSpec :: "mask \<Rightarrow> ctype \<Rightarrow> types \<Rightarrow> types result" where
  "FuncSetFuncSpec m (FuncT f _ _ _ _) ts =
     Inr (ts\<lparr>funcs := (funcs ts)(f := (funcs ts f)\<lparr>func_spec := m\<rparr>)\<rparr>)"
| "FuncSetFuncSpec m _ ts = Inl Assert_Fail"

fun FuncIsInline :: "types \<Rightarrow> ctype \<Rightarrow> bool result" where
  "FuncIsInline ts (FuncT f _ _ _ _) = Inr (has (func_spec (funcs ts f)) kInline)"
| "FuncIsInline ts _ = Inl Assert_Fail"

fun FuncSetName :: "string \<Rightarrow> ctype \<Rightarrow> types \<Rightarrow> types result" where
  "FuncSetName n (FuncT f _ _ _ _) ts =
     Inr (ts\<lparr>funcs := (funcs ts)(f := (funcs ts f)\<lparr>func_name := n\<rparr>)\<rparr>)"
| "FuncSetName n _ ts = Inl Assert_Fail"

fun FuncGetName :: "types \<Rightarrow> ctype \<Rightarrow> string result" where
  "FuncGetName ts (FuncT f _ _ _ _) = Inr (func_name (funcs ts f))"
| "FuncGetName ts _ = Inl Assert_Fail"

text \<open>Arrays and functions turn into pointers.\<close>

fun Type_MayCast :: "qtype \<Rightarrow> qtype" where
  "Type_MayCast (FuncT f t q ps v, m) = (GetPointerTo (FuncT f t q ps v), 0)"
| "Type_MayCast (ArrayT a t q, m) = (GetPointerTo t, 0)"
| "Type_MayCast (t, m) = (t, m)"

end
