(* ===== verification/Kcc_Arith.thy ===== *)
theory Kcc_Arith
  imports Kcc_Types
begin

text \<open>
  The operations of \<open>src/type.cpp\<close> on arithmetic types (which specifiers name which type, rank,
  width, largest value, promotion, usual arithmetic conversion) and the width, alignment,
  compatibility and equality of all types.

  Layout of LLVM structures is the business of LLVM: the record \<open>data_layout\<close> is a parameter
  that gives the allocation size of an LLVM type, and the size and alignment of a structure
  with given elements.
\<close>

record data_layout =
  alloc_size :: "(nat \<Rightarrow> ltype list) \<Rightarrow> ltype \<Rightarrow> int"
  layout_size :: "(nat \<Rightarrow> ltype list) \<Rightarrow> ltype list \<Rightarrow> int"
  layout_align :: "(nat \<Rightarrow> ltype list) \<Rightarrow> ltype list \<Rightarrow> int"

subsection \<open>Arithmetic types\<close>

definition DealWithTypeSpec :: "mask \<Rightarrow> mask" where
  "DealWithTypeSpec type_spec =
     (let s1 = (if type_spec = kSigned then kInt
                else if type_spec = kUnsigned then type_spec OR kInt else type_spec);
          s2 = s1 AND NOT kSigned
      in if has s2 kShort \<or> has s2 kLong \<or> has s2 kLongLong then s2 AND NOT kInt else s2)"

text \<open>The labels of the switches over \<open>type_spec_\<close>.\<close>

definition arith_specs :: "mask list" where
  "arith_specs = [kBool, kChar, kChar OR kUnsigned, kShort, kShort OR kUnsigned, kInt,
     kInt OR kUnsigned, kLong, kLong OR kUnsigned, kLongLong, kLongLong OR kUnsigned,
     kFloat, kDouble, kDouble OR kLong]"

definition ArithmeticType_Get :: "mask \<Rightarrow> ctype result" where
  "ArithmeticType_Get type_spec =
     (let s = DealWithTypeSpec type_spec
      in if s \<in> set arith_specs then Inr (ArithT s) else Inl Assert_Fail)"

definition Rank :: "mask \<Rightarrow> int result" where
  "Rank s =
     (if s = kBool then Inr 0
      else if s \<in> {kChar, kChar OR kUnsigned} then Inr 1
      else if s \<in> {kShort, kShort OR kUnsigned} then Inr 2
      else if s \<in> {kInt, kInt OR kUnsigned} then Inr 3
      else if s \<in> {kLong, kLong OR kUnsigned} then Inr 4
      else if s \<in> {kLongLong, kLongLong OR kUnsigned} then Inr 5
      else if s = kFloat then Inr 6
      else if s = kDouble then Inr 7
      else if s = (kDouble OR kLong) then Inr 8
      else Inl Assert_Fail)"

definition Arithmetic_GetWidth :: "mask \<Rightarrow> int result" where
  "Arithmetic_GetWidth s =
     (if s = kBool then Inr 1
      else if s \<in> {kChar, kChar OR kUnsigned} then Inr 1
      else if s \<in> {kShort, kShort OR kUnsigned} then Inr 2
      else if s \<in> {kInt, kInt OR kUnsigned} then Inr 4
      else if s \<in> {kLong, kLong OR kUnsigned, kLongLong, kLongLong OR kUnsigned} then Inr 8
      else if s = kFloat then Inr 4
      else if s = kDouble then Inr 8
      else if s = (kDouble OR kLong) then Inr 16
      else Inl Assert_Fail)"

definition MaxIntegerValue :: "mask \<Rightarrow> int result" where
  "MaxIntegerValue s =
     (if s = kChar then Inr (2 ^ 7 - 1)
      else if s = (kChar OR kUnsigned) then Inr (2 ^ 8 - 1)
      else if s = kShort then Inr (2 ^ 15 - 1)
      else if s = (kShort OR kUnsigned) then Inr (2 ^ 16 - 1)
      else if s = kInt then Inr (2 ^ 31 - 1)
      else if s = (kInt OR kUnsigned) then Inr (2 ^ 32 - 1)
      else if s \<in> {kLong, kLongLong} then Inr (2 ^ 63 - 1)
      else if s \<in> {kLong OR kUnsigned, kLongLong OR kUnsigned} then Inr (2 ^ 64 - 1)
      else Inl Assert_Fail)"

definition ArithmeticRank :: "ctype \<Rightarrow> int result" where
  "ArithmeticRank t = assertE (IsArithmeticTy t) (Rank (arith_spec t))"

definition ArithmeticMaxIntegerValue :: "ctype \<Rightarrow> int result" where
  "ArithmeticMaxIntegerValue t = assertE (IsArithmeticTy t) (MaxIntegerValue (arith_spec t))"

definition IntegerPromote :: "ctype \<Rightarrow> ctype result" where
  "IntegerPromote t = assertE (IsIntegerTy t \<or> IsBoolTy t)
     (bindE (ArithmeticType_Get kInt) (\<lambda>int_type.
      bindE (ArithmeticRank t) (\<lambda>r.
      bindE (Rank (arith_spec int_type)) (\<lambda>ri.
        Inr (if r < ri then int_type else t)))))"

text \<open>\<open>Equal\<close> on two arithmetic types.\<close>

definition Arithmetic_Equal :: "ctype \<Rightarrow> ctype \<Rightarrow> bool" where
  "Arithmetic_Equal t other \<longleftrightarrow> (if IsArithmeticTy other then arith_spec t = arith_spec other else False)"

definition MaxType :: "ctype \<Rightarrow> ctype \<Rightarrow> ctype result" where
  "MaxType lhs0 rhs0 = assertE (IsArithmeticTy lhs0 \<and> IsArithmeticTy rhs0)
     (if (\<not> IsIntegerTy lhs0 \<or> \<not> IsIntegerTy rhs0) \<and> (\<not> IsBoolTy lhs0 \<and> \<not> IsBoolTy rhs0)
      then bindE (ArithmeticRank lhs0) (\<lambda>l. bindE (ArithmeticRank rhs0) (\<lambda>r.
             Inr (if l \<ge> r then lhs0 else rhs0)))
      else bindE (IntegerPromote lhs0) (\<lambda>lhs. bindE (IntegerPromote rhs0) (\<lambda>rhs.
        if Arithmetic_Equal lhs rhs then Inr lhs
        else if IsUnsigned lhs = IsUnsigned rhs
        then bindE (ArithmeticRank lhs) (\<lambda>l. bindE (ArithmeticRank rhs) (\<lambda>r.
               Inr (if l \<ge> r then lhs else rhs)))
        else let unsigned_type = (if IsUnsigned lhs then lhs else rhs);
                 signed_type = (if IsUnsigned lhs then rhs else lhs)
             in bindE (ArithmeticRank unsigned_type) (\<lambda>u. bindE (ArithmeticRank signed_type) (\<lambda>s.
                if u \<ge> s then Inr unsigned_type
                else bindE (ArithmeticMaxIntegerValue signed_type) (\<lambda>ms.
                     bindE (ArithmeticMaxIntegerValue unsigned_type) (\<lambda>mu.
                     if ms \<ge> mu then Inr signed_type
                     else ArithmeticType_Get (arith_spec signed_type OR kUnsigned))))))))"

text \<open>The LLVM type of a type object.\<close>

definition Arithmetic_LLVMType :: "mask \<Rightarrow> ltype result" where
  "Arithmetic_LLVMType s =
     (let t = ArithT s in
      if IsBoolTy t then Inr (LInt 1)
      else if IsCharacterTy t then Inr (LInt 8)
      else if IsShortTy t then Inr (LInt 16)
      else if IsIntTy t then Inr (LInt 32)
      else if IsLongTy t \<or> IsLongLongTy t then Inr (LInt 64)
      else if IsFloatTy t then Inr LFloat
      else if IsDoubleTy t then Inr LDouble
      else if IsLongDoubleTy t then Inr LX86_FP80
      else Inl Assert_Fail)"

fun GetLLVMType :: "types \<Rightarrow> ctype \<Rightarrow> ltype result"
and GetLLVMType_params :: "types \<Rightarrow> (nat \<times> ctype) list \<Rightarrow> ltype list result" where
  "GetLLVMType ts VoidT = Inr LVoid"
| "GetLLVMType ts (ArithT s) = Arithmetic_LLVMType s"
| "GetLLVMType ts (PointerT t _) = (if IsVoidTy t then Inr (LPtr (LInt 8))
     else bindE (GetLLVMType ts t) (\<lambda>l. Inr (LPtr l)))"
| "GetLLVMType ts (ArrayT a t _) = bindE (GetLLVMType ts t) (\<lambda>l.
     Inr (LArr (nat (ArrayType_GetNumElements ts a)) l))"
| "GetLLVMType ts (StructT _ s) = Inr (LStruct s)"
| "GetLLVMType ts (FuncT _ r _ ps va) = bindE (GetLLVMType_params ts ps) (\<lambda>ls.
     bindE (GetLLVMType ts r) (\<lambda>l. Inr (LFunc l ls va)))"
| "GetLLVMType_params ts [] = Inr []"
| "GetLLVMType_params ts (p # ps) = bindE (GetLLVMType ts (snd p)) (\<lambda>l.
     bindE (GetLLVMType_params ts ps) (\<lambda>ls. Inr (l # ls)))"

subsection \<open>Width and alignment\<close>

definition bodies :: "types \<Rightarrow> nat \<Rightarrow> ltype list" where
  "bodies ts s = llvm_body (structs ts s)"

text \<open>
  The product of the width of the elements and their number is a 64-bit number, returned as a
  32-bit one.
\<close>

definition int32 :: "int \<Rightarrow> int" where
  "int32 x = signed_take_bit 31 x"

text \<open>The result of signed 32-bit arithmetic, where it has one.\<close>

definition in32 :: "int \<Rightarrow> int result" where
  "in32 x = (if - (2 ^ 31) \<le> x \<and> x < 2 ^ 31 then Inr x else Inl Int_Overflow)"

fun GetWidth :: "data_layout \<Rightarrow> types \<Rightarrow> ctype \<Rightarrow> int result" where
  "GetWidth dl ts VoidT = Inr 1"
| "GetWidth dl ts (ArithT s) = Arithmetic_GetWidth s"
| "GetWidth dl ts (PointerT _ _) = Inr 8"
| "GetWidth dl ts (ArrayT a t _) = (case num_elements (arrays ts a) of
       None \<Rightarrow> Inl Assert_Fail
     | Some n \<Rightarrow> bindE (GetWidth dl ts t) (\<lambda>w. Inr (int32 (w * n))))"
| "GetWidth dl ts (StructT b s) = assertE (IsComplete ts (StructT b s))
     (Inr (int32 (layout_size dl (bodies ts) (bodies ts s))))"
| "GetWidth dl ts (FuncT _ _ _ _ _) = Inr 1"

fun GetAlign :: "data_layout \<Rightarrow> types \<Rightarrow> ctype \<Rightarrow> int result" where
  "GetAlign dl ts VoidT = GetWidth dl ts VoidT"
| "GetAlign dl ts (ArithT s) = GetWidth dl ts (ArithT s)"
| "GetAlign dl ts (PointerT t q) = GetWidth dl ts (PointerT t q)"
| "GetAlign dl ts (ArrayT _ t _) = GetAlign dl ts t"
| "GetAlign dl ts (StructT b s) = (if \<not> IsComplete ts (StructT b s) then Inr 1
     else Inr (int32 (layout_align dl (bodies ts) (bodies ts s))))"
| "GetAlign dl ts (FuncT _ _ _ _ _) = Inl Assert_Fail"

subsection \<open>Equality and compatibility\<close>

text \<open>
  LLVM makes a new identified structure type for every call of \<open>llvm::StructType::create\<close>, so the
  LLVM types of two structures are the same object exactly when the structures are.
\<close>

definition Struct_Equal :: "types \<Rightarrow> bool \<Rightarrow> nat \<Rightarrow> ctype \<Rightarrow> bool" where
  "Struct_Equal ts b s other = (case other of
       StructT b' s' \<Rightarrow>
         if b = b' then
           let c = structs ts s; c' = structs ts s'
           in if st_name c \<noteq> [] \<and> st_name c' \<noteq> [] \<and> st_name c \<noteq> st_name c' then False
              else if struct_complete c \<and> struct_complete c' then
                (if length (st_members c) \<noteq> length (st_members c') then False else s = s')
              else True
         else False
     | _ \<Rightarrow> False)"

definition Array_NumEqual :: "types \<Rightarrow> nat \<Rightarrow> nat \<Rightarrow> bool" where
  "Array_NumEqual ts a a' \<longleftrightarrow> (if arr_complete (arrays ts a) \<and> arr_complete (arrays ts a')
     then ArrayType_GetNumElements ts a = ArrayType_GetNumElements ts a' else True)"

fun Equal :: "types \<Rightarrow> ctype \<Rightarrow> ctype \<Rightarrow> bool"
and Equal_params :: "types \<Rightarrow> (nat \<times> ctype) list \<Rightarrow> (nat \<times> ctype) list \<Rightarrow> bool" where
  "Equal ts VoidT other = IsVoidTy other"
| "Equal ts (ArithT s) other = Arithmetic_Equal (ArithT s) other"
| "Equal ts (PointerT t _) other = (case other of PointerT t' _ \<Rightarrow> Equal ts t t' | _ \<Rightarrow> False)"
| "Equal ts (ArrayT a t _) other = (case other of
       ArrayT a' t' _ \<Rightarrow> if \<not> Equal ts t t' then False else Array_NumEqual ts a a'
     | _ \<Rightarrow> False)"
| "Equal ts (StructT b s) other = Struct_Equal ts b s other"
| "Equal ts (FuncT _ r _ ps _) other = (case other of
       FuncT _ r' _ ps' _ \<Rightarrow> if \<not> Equal ts r r' then False
         else if length ps \<noteq> length ps' then False else Equal_params ts ps ps'
     | _ \<Rightarrow> False)"
| "Equal_params ts (p # ps) (p' # ps') =
     (if \<not> Equal ts (snd p) (snd p') then False else Equal_params ts ps ps')"
| "Equal_params ts _ _ = True"

text \<open>\<open>FunctionType::Compatible\<close> compares the parameters with \<open>Equal\<close>.\<close>

fun Compatible :: "types \<Rightarrow> ctype \<Rightarrow> ctype \<Rightarrow> bool" where
  "Compatible ts VoidT other = Equal ts VoidT other"
| "Compatible ts (ArithT s) other = Equal ts (ArithT s) other"
| "Compatible ts (PointerT t _) other = (case other of PointerT t' _ \<Rightarrow> Compatible ts t t' | _ \<Rightarrow> False)"
| "Compatible ts (ArrayT a t _) other = (case other of
       ArrayT a' t' _ \<Rightarrow> if \<not> Compatible ts t t' then False else Array_NumEqual ts a a'
     | _ \<Rightarrow> False)"
| "Compatible ts (StructT b s) other = Struct_Equal ts b s other"
| "Compatible ts (FuncT _ r _ ps _) other = (case other of
       FuncT _ r' _ ps' _ \<Rightarrow> if \<not> Compatible ts r r' then False
         else if length ps \<noteq> length ps' then False else Equal_params ts ps ps'
     | _ \<Rightarrow> False)"

end
