(* ===== verification/Kcc_TypeProps.thy ===== *)
theory Kcc_TypeProps
  imports Kcc_Arith
begin

text \<open>
  Properties of types: the usual arithmetic conversions against the rules of the C standard,
  which are stated on ranges of values, and the laws of equality and compatibility.
\<close>

subsection \<open>The conversions of the C standard\<close>

text \<open>
  C11 6.3.1.1 and 6.3.1.8 on the specifiers of the target: \<open>c_rank\<close> is the conversion rank of an
  integer type, \<open>c_range\<close> the least and the largest value of an integer type.
\<close>

definition c_unsigned :: "mask \<Rightarrow> bool" where
  "c_unsigned s \<longleftrightarrow> s = kBool \<or> has s kUnsigned"

definition c_bits :: "mask \<Rightarrow> nat" where
  "c_bits s = (if s = kBool then 1 else if has s kChar then 8 else if has s kShort then 16
     else if has s kInt then 32 else 64)"

definition c_range :: "mask \<Rightarrow> int \<times> int" where
  "c_range s = (if c_unsigned s then (0, 2 ^ c_bits s - 1)
     else (- (2 ^ (c_bits s - 1)), 2 ^ (c_bits s - 1) - 1))"

definition c_rank :: "mask \<Rightarrow> nat" where
  "c_rank s = (if s = kBool then 0 else if has s kChar then 1 else if has s kShort then 2
     else if has s kInt then 3 else if has s kLong then 4 else 5)"

definition c_floating :: "mask \<Rightarrow> bool" where
  "c_floating s \<longleftrightarrow> s = kFloat \<or> has s kDouble"

definition c_represents :: "mask \<Rightarrow> mask \<Rightarrow> bool" where
  "c_represents s t \<longleftrightarrow> fst (c_range s) \<le> fst (c_range t) \<and> snd (c_range t) \<le> snd (c_range s)"

definition c_promote :: "mask \<Rightarrow> mask" where
  "c_promote s = (if c_rank s \<le> c_rank kInt
     then if c_represents kInt s then kInt else kInt OR kUnsigned else s)"

definition c_conversion :: "mask \<Rightarrow> mask \<Rightarrow> mask" where
  "c_conversion s t =
     (if s = kDouble OR kLong \<or> t = kDouble OR kLong then kDouble OR kLong
      else if s = kDouble \<or> t = kDouble then kDouble
      else if s = kFloat \<or> t = kFloat then kFloat
      else let p = c_promote s; q = c_promote t
      in if p = q then p
      else if c_unsigned p = c_unsigned q then if c_rank p < c_rank q then q else p
      else let u = (if c_unsigned p then p else q); i = (if c_unsigned p then q else p)
      in if c_rank i \<le> c_rank u then u
      else if c_represents i u then i
      else i OR kUnsigned)"

lemmas conv_defs = has_def c_unsigned_def c_bits_def c_range_def c_rank_def c_floating_def
  c_represents_def c_promote_def c_conversion_def

lemmas arith_defs = has_def type_preds DealWithTypeSpec_def arith_specs_def ArithmeticType_Get_def
  Rank_def MaxIntegerValue_def ArithmeticRank_def ArithmeticMaxIntegerValue_def
  IntegerPromote_def Arithmetic_Equal_def MaxType_def

text \<open>What the functions say about the fourteen specifiers.\<close>

lemma arith_table:
  "IsBoolTy (ArithT 512)"
  "\<not> IsBoolTy (ArithT 8)"
  "\<not> IsBoolTy (ArithT 10)"
  "\<not> IsBoolTy (ArithT 16)"
  "\<not> IsBoolTy (ArithT 18)"
  "\<not> IsBoolTy (ArithT 32)"
  "\<not> IsBoolTy (ArithT 34)"
  "\<not> IsBoolTy (ArithT 64)"
  "\<not> IsBoolTy (ArithT 66)"
  "\<not> IsBoolTy (ArithT 32768)"
  "\<not> IsBoolTy (ArithT 32770)"
  "\<not> IsBoolTy (ArithT 128)"
  "\<not> IsBoolTy (ArithT 256)"
  "\<not> IsBoolTy (ArithT 320)"
  "\<not> IsIntegerTy (ArithT 512)"
  "IsIntegerTy (ArithT 8)"
  "IsIntegerTy (ArithT 10)"
  "IsIntegerTy (ArithT 16)"
  "IsIntegerTy (ArithT 18)"
  "IsIntegerTy (ArithT 32)"
  "IsIntegerTy (ArithT 34)"
  "IsIntegerTy (ArithT 64)"
  "IsIntegerTy (ArithT 66)"
  "IsIntegerTy (ArithT 32768)"
  "IsIntegerTy (ArithT 32770)"
  "\<not> IsIntegerTy (ArithT 128)"
  "\<not> IsIntegerTy (ArithT 256)"
  "\<not> IsIntegerTy (ArithT 320)"
  "\<not> IsFloatPointTy (ArithT 512)"
  "\<not> IsFloatPointTy (ArithT 8)"
  "\<not> IsFloatPointTy (ArithT 10)"
  "\<not> IsFloatPointTy (ArithT 16)"
  "\<not> IsFloatPointTy (ArithT 18)"
  "\<not> IsFloatPointTy (ArithT 32)"
  "\<not> IsFloatPointTy (ArithT 34)"
  "\<not> IsFloatPointTy (ArithT 64)"
  "\<not> IsFloatPointTy (ArithT 66)"
  "\<not> IsFloatPointTy (ArithT 32768)"
  "\<not> IsFloatPointTy (ArithT 32770)"
  "IsFloatPointTy (ArithT 128)"
  "IsFloatPointTy (ArithT 256)"
  "IsFloatPointTy (ArithT 320)"
  "IsUnsigned (ArithT 512)"
  "\<not> IsUnsigned (ArithT 8)"
  "IsUnsigned (ArithT 10)"
  "\<not> IsUnsigned (ArithT 16)"
  "IsUnsigned (ArithT 18)"
  "\<not> IsUnsigned (ArithT 32)"
  "IsUnsigned (ArithT 34)"
  "\<not> IsUnsigned (ArithT 64)"
  "IsUnsigned (ArithT 66)"
  "\<not> IsUnsigned (ArithT 32768)"
  "IsUnsigned (ArithT 32770)"
  "\<not> IsUnsigned (ArithT 128)"
  "\<not> IsUnsigned (ArithT 256)"
  "\<not> IsUnsigned (ArithT 320)"
  by (simp_all add: type_preds has_def)

lemma rank_table:
  "Rank 512 = Inr 0"
  "Rank 8 = Inr 1"
  "Rank 10 = Inr 1"
  "Rank 16 = Inr 2"
  "Rank 18 = Inr 2"
  "Rank 32 = Inr 3"
  "Rank 34 = Inr 3"
  "Rank 64 = Inr 4"
  "Rank 66 = Inr 4"
  "Rank 32768 = Inr 5"
  "Rank 32770 = Inr 5"
  "Rank 128 = Inr 6"
  "Rank 256 = Inr 7"
  "Rank 320 = Inr 8"
  by (simp_all add: Rank_def)

lemma max_table:
  "MaxIntegerValue 8 = Inr 127"
  "MaxIntegerValue 10 = Inr 255"
  "MaxIntegerValue 16 = Inr 32767"
  "MaxIntegerValue 18 = Inr 65535"
  "MaxIntegerValue 32 = Inr 2147483647"
  "MaxIntegerValue 34 = Inr 4294967295"
  "MaxIntegerValue 64 = Inr 9223372036854775807"
  "MaxIntegerValue 66 = Inr 18446744073709551615"
  "MaxIntegerValue 32768 = Inr 9223372036854775807"
  "MaxIntegerValue 32770 = Inr 18446744073709551615"
  by (simp_all add: MaxIntegerValue_def)

lemma c_unsigned_table:
  "c_unsigned 512"
  "\<not> c_unsigned 8"
  "c_unsigned 10"
  "\<not> c_unsigned 16"
  "c_unsigned 18"
  "\<not> c_unsigned 32"
  "c_unsigned 34"
  "\<not> c_unsigned 64"
  "c_unsigned 66"
  "\<not> c_unsigned 32768"
  "c_unsigned 32770"
  "\<not> c_unsigned 128"
  "\<not> c_unsigned 256"
  "\<not> c_unsigned 320"
  by (simp_all add: c_unsigned_def has_def)

lemma c_rank_table:
  "c_rank 512 = 0"
  "c_rank 8 = 1"
  "c_rank 10 = 1"
  "c_rank 16 = 2"
  "c_rank 18 = 2"
  "c_rank 32 = 3"
  "c_rank 34 = 3"
  "c_rank 64 = 4"
  "c_rank 66 = 4"
  "c_rank 32768 = 5"
  "c_rank 32770 = 5"
  by (simp_all add: c_rank_def has_def)

lemma c_range_table:
  "c_range 512 = (0, 1)"
  "c_range 8 = (- 128, 127)"
  "c_range 10 = (0, 255)"
  "c_range 16 = (- 32768, 32767)"
  "c_range 18 = (0, 65535)"
  "c_range 32 = (- 2147483648, 2147483647)"
  "c_range 34 = (0, 4294967295)"
  "c_range 64 = (- 9223372036854775808, 9223372036854775807)"
  "c_range 66 = (0, 18446744073709551615)"
  "c_range 32768 = (- 9223372036854775808, 9223372036854775807)"
  "c_range 32770 = (0, 18446744073709551615)"
  by (simp_all add: c_range_def c_bits_def c_unsigned_def has_def)

lemma IsArithmeticTy_ArithT [simp]: "IsArithmeticTy (ArithT s)"
  by (auto simp: IsArithmeticTy_def IsIntegerTy_def)

lemmas spec_tables = arith_table rank_table max_table c_unsigned_table c_rank_table c_range_table

lemma Get_kInt: "ArithmeticType_Get kInt = Inr (ArithT kInt)"
  by (simp add: ArithmeticType_Get_def DealWithTypeSpec_def has_def arith_specs_def)

lemma promote_table:
  "IntegerPromote (ArithT 512) = Inr (ArithT 32)"
  "IntegerPromote (ArithT 8) = Inr (ArithT 32)"
  "IntegerPromote (ArithT 10) = Inr (ArithT 32)"
  "IntegerPromote (ArithT 16) = Inr (ArithT 32)"
  "IntegerPromote (ArithT 18) = Inr (ArithT 32)"
  "IntegerPromote (ArithT 32) = Inr (ArithT 32)"
  "IntegerPromote (ArithT 34) = Inr (ArithT 34)"
  "IntegerPromote (ArithT 64) = Inr (ArithT 64)"
  "IntegerPromote (ArithT 66) = Inr (ArithT 66)"
  "IntegerPromote (ArithT 32768) = Inr (ArithT 32768)"
  "IntegerPromote (ArithT 32770) = Inr (ArithT 32770)"
  by (simp_all add: IntegerPromote_def ArithmeticRank_def spec_tables Get_kInt)

lemma c_promote_table:
  "c_promote 512 = 32"
  "c_promote 8 = 32"
  "c_promote 10 = 32"
  "c_promote 16 = 32"
  "c_promote 18 = 32"
  "c_promote 32 = 32"
  "c_promote 34 = 34"
  "c_promote 64 = 64"
  "c_promote 66 = 66"
  "c_promote 32768 = 32768"
  "c_promote 32770 = 32770"
  by (simp_all add: c_promote_def c_represents_def spec_tables)

lemma Get_table: "ArithmeticType_Get 0x8002 = Inr (ArithT 0x8002)"
  by (simp add: ArithmeticType_Get_def DealWithTypeSpec_def has_def arith_specs_def)

lemmas conv_eval = MaxType_def c_conversion_def c_floating_def c_represents_def spec_tables
  promote_table c_promote_table Get_table Arithmetic_Equal_def ArithmeticRank_def
  ArithmeticMaxIntegerValue_def has_def

lemma MaxType_conv: "list_all (\<lambda>s. list_all (\<lambda>t.
    (s = kBool \<longrightarrow> \<not> c_floating t) \<longrightarrow> (t = kBool \<longrightarrow> \<not> c_floating s) \<longrightarrow>
      MaxType (ArithT s) (ArithT t) = Inr (ArithT (c_conversion s t))) arith_specs) arith_specs"
  unfolding arith_specs_def list.pred_inject by (intro conjI TrueI; simp add: conv_eval)

text \<open>
  C12. \<open>ArithmeticType::MaxType\<close> computes the usual arithmetic conversions of the C standard: for
  any two of the fourteen arithmetic types, unless one is \<open>_Bool\<close> and the other a floating type,
  it returns the type that the rules of the standard, stated on ranges of values, give.
\<close>

theorem MaxType_usual_conversions:
  assumes "s \<in> set arith_specs" and "t \<in> set arith_specs"
    and "s = kBool \<longrightarrow> \<not> c_floating t" and "t = kBool \<longrightarrow> \<not> c_floating s"
  shows "MaxType (ArithT s) (ArithT t) = Inr (ArithT (c_conversion s t))"
  using MaxType_conv assms by (simp add: list_all_iff)

theorem MaxType_usual_conversions_witness:
  "MaxType (ArithT kLongLong) (ArithT (kLong OR kUnsigned)) = Inr (ArithT (kLongLong OR kUnsigned))"
  using MaxType_usual_conversions [of kLongLong "kLong OR kUnsigned"]
  by (simp add: arith_specs_def c_conversion_def c_promote_table c_unsigned_table c_rank_table
      c_represents_def c_range_table)

lemma promote_floating:
  "t \<in> {kFloat, kDouble, kDouble OR kLong} \<Longrightarrow> IntegerPromote (ArithT t) = Inl Assert_Fail"
  by (auto simp: IntegerPromote_def spec_tables)

text \<open>
  C27. A \<open>_Bool\<close> and a floating operand: \<open>MaxType\<close> sends both to \<open>IntegerPromote\<close>, whose assertion
  the floating type fails, although the standard converts the \<open>_Bool\<close>.
\<close>

theorem MaxType_bool_floating:
  assumes "t \<in> {kFloat, kDouble, kDouble OR kLong}"
  shows "MaxType (ArithT kBool) (ArithT t) = Inl Assert_Fail \<and>
    MaxType (ArithT t) (ArithT kBool) = Inl Assert_Fail"
  using assms promote_floating [OF assms] by (auto simp: MaxType_def spec_tables promote_table)

theorem MaxType_bool_floating_witness:
  "MaxType (ArithT kBool) (ArithT kDouble) = Inl Assert_Fail"
  using MaxType_bool_floating [of kDouble] by simp

subsection \<open>The types operators compute in\<close>

text \<open>
  The arithmetic types that are left by the integer promotions: no operator of the language computes
  in \<open>_Bool\<close>, \<open>char\<close> or \<open>short\<close>.
\<close>

definition promoted_specs :: "mask list" where
  "promoted_specs = [kInt, kInt OR kUnsigned, kLong, kLong OR kUnsigned, kLongLong, kLongLong OR kUnsigned,
     kFloat, kDouble, kDouble OR kLong]"

definition promoted :: "ctype \<Rightarrow> bool" where
  "promoted t \<longleftrightarrow> (\<exists>s \<in> set promoted_specs. t = ArithT s)"

lemma promoted_ArithT [simp]: "promoted (ArithT s) = (s \<in> set promoted_specs)"
  by (auto simp: promoted_def)

lemma promoted_arith: "promoted t \<Longrightarrow> IsArithmeticTy t"
  by (auto simp: promoted_def)

lemma Rank_specs: "Rank s = Inr r \<Longrightarrow> s \<in> set arith_specs"
  by (auto simp: Rank_def arith_specs_def split: if_splits)

lemma Rank_floating: "Rank s = Inr r \<Longrightarrow> (6 \<le> r \<longleftrightarrow> IsFloatPointTy (ArithT s)) \<and>
    (IsFloatPointTy (ArithT s) \<longleftrightarrow> s \<noteq> kBool \<and> \<not> IsIntegerTy (ArithT s))"
  using Rank_specs [of s r] unfolding arith_specs_def by (auto simp: spec_tables)

lemma floating_promoted: "IsFloatPointTy t \<Longrightarrow> promoted t"
  by (cases t) (auto simp: type_preds promoted_specs_def)

lemma IntegerPromote_promoted: "IntegerPromote t = Inr t' \<Longrightarrow> promoted t' \<and> IsIntegerTy t'"
proof (cases t)
  case (ArithT s)
  assume p: "IntegerPromote t = Inr t'"
  then have "s \<in> set arith_specs"
    by (auto simp: ArithT IntegerPromote_def ArithmeticRank_def result_simps dest: Rank_specs)
  with p show ?thesis unfolding ArithT arith_specs_def
    by (auto simp: promote_table promote_floating promoted_specs_def arith_table)
qed (auto simp: IntegerPromote_def type_preds assertE_def)

lemma Get_unsigned: "s \<in> set promoted_specs \<Longrightarrow> IsIntegerTy (ArithT s) \<Longrightarrow>
    ArithmeticType_Get (s OR kUnsigned) = Inr t \<Longrightarrow> promoted t \<and> IsIntegerTy t"
  unfolding promoted_specs_def
  by (auto simp: ArithmeticType_Get_def DealWithTypeSpec_def has_def arith_specs_def arith_table promoted_specs_def)

lemma MaxType_promoted:
  assumes "MaxType t u = Inr v"
  shows "promoted v \<and> (IsIntegerOrBoolTy t \<and> IsIntegerOrBoolTy u \<longrightarrow> IsIntegerTy v)"
proof (cases "(\<not> IsIntegerTy t \<or> \<not> IsIntegerTy u) \<and> \<not> IsBoolTy t \<and> \<not> IsBoolTy u")
  case True
  with assms obtain l r where lr: "ArithmeticRank t = Inr l" "ArithmeticRank u = Inr r"
      "v = (if l \<ge> r then t else u)"
    by (auto simp: MaxType_def result_simps)
  then obtain s s' where s: "t = ArithT s" "u = ArithT s'" "Rank s = Inr l" "Rank s' = Inr r"
    by (cases t; cases u) (auto simp: ArithmeticRank_def result_simps type_preds)
  with True have "IsFloatPointTy v"
    using Rank_floating [OF s(3)] Rank_floating [OF s(4)] lr(3) by (auto simp: type_preds)
  moreover have "\<not> (IsIntegerOrBoolTy t \<and> IsIntegerOrBoolTy u)" using True by (auto simp: type_preds)
  ultimately show ?thesis using floating_promoted by blast
next
  case False
  with assms obtain l r where p: "IntegerPromote t = Inr l" "IntegerPromote u = Inr r"
    by (auto simp: MaxType_def result_simps)
  note lr = IntegerPromote_promoted [OF p(1)] IntegerPromote_promoted [OF p(2)]
  from assms False p have "v = l \<or> v = r \<or> (\<exists>w. (w = l \<or> w = r) \<and> ArithmeticType_Get (arith_spec w OR kUnsigned) = Inr v)"
    unfolding MaxType_def Let_def by (auto simp: result_simps split: if_splits)
  with lr show ?thesis by (auto simp: promoted_def dest: Get_unsigned)
qed

subsection \<open>Compatibility and equality\<close>

lemma Compatible_Equal: "Compatible ts t other = Equal ts t other"
  by (induction ts t other rule: Compatible.induct) (auto split: ctype.splits)

lemma Equal_params_refl: "(\<And>p. p \<in> set ps \<Longrightarrow> Equal ts (snd p) (snd p)) \<Longrightarrow> Equal_params ts ps ps"
  by (induction ps) auto

lemma Equal_refl: "Equal ts t t"
proof (induction t)
  case (FuncT f r q ps v)
  then show ?case by (auto intro!: Equal_params_refl simp: snds.simps)
qed (auto simp: IsVoidTy_def Arithmetic_Equal_def Array_NumEqual_def Struct_Equal_def Let_def)

lemma IsArithmeticTy_iff: "IsArithmeticTy t \<longleftrightarrow> (\<exists>s. t = ArithT s)"
  by (cases t) (auto simp: type_preds)

lemma Equal_VoidT: "Equal ts t VoidT \<longleftrightarrow> t = VoidT"
  by (cases t) (auto simp: IsVoidTy_def Arithmetic_Equal_def IsArithmeticTy_iff Struct_Equal_def)

lemma Equal_ArithT: "Equal ts t (ArithT s) \<longleftrightarrow> t = ArithT s"
  by (cases t) (auto simp: IsVoidTy_def Arithmetic_Equal_def Struct_Equal_def)

lemma Equal_sym: "Equal ts t u = Equal ts u t"
 and Equal_params_sym: "length ps = length qs \<Longrightarrow> Equal_params ts ps qs = Equal_params ts qs ps"
  by (induction ts t u and ts ps qs rule: Equal_Equal_params.induct)
     (auto simp: Equal_VoidT Equal_ArithT IsVoidTy_def Arithmetic_Equal_def IsArithmeticTy_iff
        Array_NumEqual_def Struct_Equal_def Let_def split: ctype.splits)

text \<open>It is not transitive: an array of unknown size equals an array of every size.\<close>

lemma Equal_unknown_size: "\<not> arr_complete (arrays ts c) \<Longrightarrow>
    Equal ts (ArrayT a t q) (ArrayT c t q) \<and> Equal ts (ArrayT c t q) (ArrayT b t q)"
  by (simp add: Equal_refl Array_NumEqual_def)

text \<open>
  Equality of types, as the six virtual functions compute it, is reflexive and symmetric on
  all types and in every state of the type objects.
\<close>

theorem Equal_refl_sym: "Equal ts t t \<and> Equal ts t u = Equal ts u t"
  by (simp add: Equal_refl Equal_sym [of ts t u])

text \<open>
  Function types: a type with an ellipsis is compatible with the one without, and the
  qualifiers of the return type do not matter, although the comment above
  \<open>FunctionType::Compatible\<close> asks for the same use of the ellipsis.
\<close>

theorem Compatible_ignores_ellipsis: "Compatible ts (FuncT f r q ps v) (FuncT g r q' ps v')"
  by (auto simp: Compatible_Equal Equal_refl intro: Equal_params_refl)

end
