(* ===== verification/Kcc_Scope.thy ===== *)
theory Kcc_Scope
  imports Kcc_Types "HOL-Library.AList"
begin

text \<open>
  Identifiers and scopes: the class \<open>Scope\<close> of \<open>src/scope.h\<close> and \<open>src/scope.cpp\<close>, and the
  subclasses of \<open>IdentifierExpr\<close> that scopes hold.

  Scopes live in a store, from their number to a cell with the parent, the kind and the two hash
  tables as association lists. A parent is made before its children, so its number is smaller
  (\<open>wf_scopes\<close>); the lookups that walk up the parents stop at a parent that is not, so that
  they are total on every store.

  The theory also states what a symbol table promises, as a locale, and shows that the table of
  ordinary identifiers and the table of tags both are one.
\<close>

datatype linkage = Linkage_kNone | Linkage_kInternal | Linkage_kExternal

datatype ident =
    Ident string qtype linkage bool
  | Enumerator string int
  | Object string nat

fun ident_name :: "ident \<Rightarrow> string" where
  "ident_name (Ident n _ _ _) = n"
| "ident_name (Enumerator n _) = n"
| "ident_name (Object n _) = n"

fun ident_IsTypeName :: "ident \<Rightarrow> bool" where
  "ident_IsTypeName (Ident _ _ _ b) = b"
| "ident_IsTypeName _ = False"

fun ident_IsObject :: "ident \<Rightarrow> bool" where
  "ident_IsObject (Object _ _) = True"
| "ident_IsObject _ = False"

datatype scope_type = kBlock | kFile | kFunc | kFuncProto

record scope_cell =
  parent :: "nat option"
  scope_kind :: scope_type
  tags :: "(string \<times> ident) list"
  usual :: "(string \<times> ident) list"

record scopes =
  scope_at :: "nat \<Rightarrow> scope_cell"
  next_scope :: nat

subsection \<open>Operations\<close>

definition Scope_Get :: "nat option \<Rightarrow> scope_type \<Rightarrow> scopes \<Rightarrow> nat \<times> scopes" where
  "Scope_Get p k ss =
     (let s = next_scope ss
      in (s, ss\<lparr>scope_at := (scope_at ss)(s := \<lparr>parent = p, scope_kind = k, tags = [], usual = []\<rparr>),
                next_scope := s + 1\<rparr>))"

definition InsertTag_name :: "nat \<Rightarrow> string \<Rightarrow> ident \<Rightarrow> scopes \<Rightarrow> scopes" where
  "InsertTag_name s name i ss = ss\<lparr>scope_at := (scope_at ss)(s :=
     (scope_at ss s)\<lparr>tags := AList.update name i (tags (scope_at ss s))\<rparr>)\<rparr>"

definition InsertUsual_name :: "nat \<Rightarrow> string \<Rightarrow> ident \<Rightarrow> scopes \<Rightarrow> scopes" where
  "InsertUsual_name s name i ss = ss\<lparr>scope_at := (scope_at ss)(s :=
     (scope_at ss s)\<lparr>usual := AList.update name i (usual (scope_at ss s))\<rparr>)\<rparr>"

definition InsertTag :: "nat \<Rightarrow> ident \<Rightarrow> scopes \<Rightarrow> scopes" where
  "InsertTag s i = InsertTag_name s (ident_name i) i"

definition InsertUsual :: "nat \<Rightarrow> ident \<Rightarrow> scopes \<Rightarrow> scopes" where
  "InsertUsual s i = InsertUsual_name s (ident_name i) i"

definition FindTagInCurrScope :: "scopes \<Rightarrow> nat \<Rightarrow> string \<Rightarrow> ident option" where
  "FindTagInCurrScope ss s name = map_of (tags (scope_at ss s)) name"

definition FindUsualInCurrScope :: "scopes \<Rightarrow> nat \<Rightarrow> string \<Rightarrow> ident option" where
  "FindUsualInCurrScope ss s name = map_of (usual (scope_at ss s)) name"

function FindTag :: "scopes \<Rightarrow> nat \<Rightarrow> string \<Rightarrow> ident option" where
  "FindTag ss s name = (case map_of (tags (scope_at ss s)) name of
       Some i \<Rightarrow> Some i
     | None \<Rightarrow> (case parent (scope_at ss s) of
           None \<Rightarrow> None
         | Some p \<Rightarrow> if scope_kind (scope_at ss s) = kFile \<or> \<not> p < s then None
                    else FindTag ss p name))"
  by pat_completeness auto
termination by (relation "measure (\<lambda>(ss, s, n). s)") auto

function FindUsual :: "scopes \<Rightarrow> nat \<Rightarrow> string \<Rightarrow> ident option" where
  "FindUsual ss s name = (case map_of (usual (scope_at ss s)) name of
       Some i \<Rightarrow> Some i
     | None \<Rightarrow> (case parent (scope_at ss s) of
           None \<Rightarrow> None
         | Some p \<Rightarrow> if scope_kind (scope_at ss s) = kFile \<or> \<not> p < s then None
                    else FindUsual ss p name))"
  by pat_completeness auto
termination by (relation "measure (\<lambda>(ss, s, n). s)") auto

declare FindTag.simps [simp del] FindUsual.simps [simp del]

definition AllTagInCurrScope :: "scopes \<Rightarrow> nat \<Rightarrow> (string \<times> ident) list" where
  "AllTagInCurrScope ss s = tags (scope_at ss s)"

definition GetParent :: "scopes \<Rightarrow> nat \<Rightarrow> nat option" where
  "GetParent ss s = parent (scope_at ss s)"

definition IsFileScope :: "scopes \<Rightarrow> nat \<Rightarrow> bool" where
  "IsFileScope ss s \<longleftrightarrow> scope_kind (scope_at ss s) = kFile"

definition IsBlockScope :: "scopes \<Rightarrow> nat \<Rightarrow> bool" where
  "IsBlockScope ss s \<longleftrightarrow> scope_kind (scope_at ss s) = kBlock"

subsection \<open>The interface of a symbol table\<close>

text \<open>
  The scopes that exist are the numbers below \<open>next_scope\<close>; every parent is an older scope.
\<close>

definition wf_scopes :: "scopes \<Rightarrow> bool" where
  "wf_scopes ss \<longleftrightarrow> (\<forall>s < next_scope ss. \<forall>p. parent (scope_at ss s) = Some p \<longrightarrow> p < s)"

definition outer_scope :: "scopes \<Rightarrow> nat \<Rightarrow> nat option" where
  "outer_scope ss s = (if scope_kind (scope_at ss s) = kFile then None else parent (scope_at ss s))"

text \<open>
  \<open>wf\<close> is the invariant and \<open>live\<close> the scopes that exist; \<open>outer\<close> is where a lookup goes on.
\<close>

locale symbol_table =
  fixes wf :: "'s \<Rightarrow> bool"
    and live :: "'s \<Rightarrow> nat \<Rightarrow> bool"
    and outer :: "'s \<Rightarrow> nat \<Rightarrow> nat option"
    and enter :: "nat option \<Rightarrow> scope_type \<Rightarrow> 's \<Rightarrow> nat \<times> 's"
    and insert :: "nat \<Rightarrow> string \<Rightarrow> 'i \<Rightarrow> 's \<Rightarrow> 's"
    and local :: "'s \<Rightarrow> nat \<Rightarrow> string \<Rightarrow> 'i option"
    and find :: "'s \<Rightarrow> nat \<Rightarrow> string \<Rightarrow> 'i option"
  assumes outer_live: "wf s \<Longrightarrow> live s k \<Longrightarrow> outer s k = Some p \<Longrightarrow> live s p \<and> p < k"
    and find_rec: "wf s \<Longrightarrow> live s k \<Longrightarrow> find s k n =
      (case local s k n of Some i \<Rightarrow> Some i
       | None \<Rightarrow> (case outer s k of None \<Rightarrow> None | Some p \<Rightarrow> find s p n))"
    and local_insert: "local (insert k n i s) k' n' = (if k = k' \<and> n = n' then Some i else local s k' n')"
    and outer_insert: "outer (insert k n i s) = outer s"
    and wf_insert: "wf s \<Longrightarrow> wf (insert k n i s)"
    and live_insert: "live (insert k n i s) = live s"
    and wf_enter: "wf s \<Longrightarrow> (\<And>p. po = Some p \<Longrightarrow> live s p) \<Longrightarrow> enter po t s = (k, s') \<Longrightarrow> wf s'"
    and live_enter: "enter po t s = (k, s') \<Longrightarrow> live s' j = (live s j \<or> j = k)"
    and fresh_enter: "enter po t s = (k, s') \<Longrightarrow> \<not> live s k"
    and outer_enter: "enter po t s = (k, s') \<Longrightarrow> outer s' j =
      (if j = k then if t = kFile then None else po else outer s j)"
    and local_enter: "enter po t s = (k, s') \<Longrightarrow> local s' j n = (if j = k then None else local s j n)"
begin

text \<open>A declaration is seen in its own scope at once, whatever the outer scopes declare.\<close>

lemma find_insert_same: "wf s \<Longrightarrow> live s k \<Longrightarrow> find (insert k n i s) k n = Some i"
  by (subst find_rec) (simp_all add: wf_insert live_insert local_insert)

text \<open>It does not touch any other name.\<close>

lemma find_insert_other_name: "wf s \<Longrightarrow> live s k' \<Longrightarrow> n \<noteq> n' \<Longrightarrow> find (insert k n i s) k' n' = find s k' n'"
proof (induction k' rule: less_induct)
  case (less k')
  show ?case
    using less.prems outer_live [OF less.prems(1,2)] less.IH
    by (subst (1 2) find_rec)
       (auto simp: wf_insert live_insert local_insert outer_insert split: option.splits)
qed

text \<open>Nor any scope outside: a lookup from an older scope is as before.\<close>

lemma find_insert_older: "wf s \<Longrightarrow> live s k' \<Longrightarrow> k' < k \<Longrightarrow> find (insert k n i s) k' n' = find s k' n'"
proof (induction k' rule: less_induct)
  case (less k')
  show ?case
    using less.prems outer_live [OF less.prems(1,2)] less.IH
    by (subst (1 2) find_rec)
       (force simp: wf_insert live_insert local_insert outer_insert split: option.splits)+
qed

text \<open>A new scope sees what its parent sees, and old scopes see what they saw.\<close>

lemma find_enter_old:
  assumes "wf s" and "\<And>p. po = Some p \<Longrightarrow> live s p" and e: "enter po t s = (k, s')" and "live s j"
  shows "find s' j n = find s j n"
  using assms(4)
proof (induction j rule: less_induct)
  case (less j)
  have ne: "j \<noteq> k" using fresh_enter [OF e] less.prems by auto
  have wf': "wf s'" by (rule wf_enter [OF assms(1,2) e])
  have l': "live s' j" using live_enter [OF e] less.prems by simp
  show ?case
    using less.prems outer_live [OF assms(1) less.prems] less.IH ne
    by (subst find_rec [OF wf' l'], subst find_rec [OF assms(1) less.prems])
       (auto simp: local_enter [OF e] outer_enter [OF e] split: option.splits)
qed

lemma find_enter_new:
  assumes "wf s" and "live s p" and e: "enter (Some p) t s = (k, s')" and "t \<noteq> kFile"
  shows "find s' k n = find s p n"
proof -
  have wf': "wf s'" by (rule wf_enter [OF assms(1) _ e]) (use assms(2) in auto)
  have l': "live s' k" using live_enter [OF e] by simp
  show ?thesis
    using find_enter_old [OF assms(1) _ e assms(2)] assms(2,4)
    by (subst find_rec [OF wf' l']) (simp add: local_enter [OF e] outer_enter [OF e])
qed

text \<open>
  Shadowing, as a whole: a block is entered and declares a name. Inside, the name is the new
  declaration and every other name is as outside; outside, nothing has changed.
\<close>

lemma block_shadowing:
  assumes "wf s" and "live s p" and e: "enter (Some p) t s = (k, s')" and "t \<noteq> kFile"
  shows "find (insert k n i s') k n' = (if n = n' then Some i else find s p n')"
    and "live s j \<Longrightarrow> find (insert k n i s') j n' = find s j n'"
proof -
  have wf': "wf s'" by (rule wf_enter [OF assms(1) _ e]) (use assms(2) in auto)
  have l': "live s' k" using live_enter [OF e] by simp
  show "find (insert k n i s') k n' = (if n = n' then Some i else find s p n')"
    using find_insert_same [OF wf' l'] find_insert_other_name [OF wf' l']
      find_enter_new [OF assms] by simp
  assume j: "live s j"
  have "find (insert k n i s') j n' = find s' j n'"
    using j
  proof (induction j rule: less_induct)
    case (less j)
    have lj: "live s' j" using less.prems live_enter [OF e] by simp
    have ne: "j \<noteq> k" using fresh_enter [OF e] less.prems by auto
    show ?case
      using less ne outer_live [OF assms(1) less.prems]
      by (subst (1 2) find_rec)
         (auto simp: wf_insert wf' live_insert lj local_insert outer_insert outer_enter [OF e] split: option.splits)
  qed
  also have "\<dots> = find s j n'"
    by (rule find_enter_old [OF assms(1) _ e j]) (use assms(2) in auto)
  finally show "find (insert k n i s') j n' = find s j n'" .
qed

end

subsection \<open>Both tables are symbol tables\<close>

definition live_scope :: "scopes \<Rightarrow> nat \<Rightarrow> bool" where
  "live_scope ss s \<longleftrightarrow> s < next_scope ss"

interpretation usual_table: symbol_table wf_scopes live_scope outer_scope Scope_Get
  InsertUsual_name FindUsualInCurrScope FindUsual
proof unfold_locales
  fix ss k p assume "wf_scopes ss" "live_scope ss k" "outer_scope ss k = Some p"
  then show "live_scope ss p \<and> p < k"
    by (auto simp: wf_scopes_def live_scope_def outer_scope_def split: if_splits)
next
  fix ss k n assume "wf_scopes ss" "live_scope ss k"
  then show "FindUsual ss k n = (case FindUsualInCurrScope ss k n of Some i \<Rightarrow> Some i
      | None \<Rightarrow> (case outer_scope ss k of None \<Rightarrow> None | Some p \<Rightarrow> FindUsual ss p n))"
    by (subst FindUsual.simps)
       (auto simp: wf_scopes_def live_scope_def outer_scope_def FindUsualInCurrScope_def split: option.splits)
qed (auto simp: FindUsualInCurrScope_def InsertUsual_name_def outer_scope_def live_scope_def Scope_Get_def
       wf_scopes_def update_conv' Let_def fun_eq_iff less_Suc_eq)

interpretation tag_table: symbol_table wf_scopes live_scope outer_scope Scope_Get
  InsertTag_name FindTagInCurrScope FindTag
proof unfold_locales
  fix ss k p assume "wf_scopes ss" "live_scope ss k" "outer_scope ss k = Some p"
  then show "live_scope ss p \<and> p < k"
    by (auto simp: wf_scopes_def live_scope_def outer_scope_def split: if_splits)
next
  fix ss k n assume "wf_scopes ss" "live_scope ss k"
  then show "FindTag ss k n = (case FindTagInCurrScope ss k n of Some i \<Rightarrow> Some i
      | None \<Rightarrow> (case outer_scope ss k of None \<Rightarrow> None | Some p \<Rightarrow> FindTag ss p n))"
    by (subst FindTag.simps)
       (auto simp: wf_scopes_def live_scope_def outer_scope_def FindTagInCurrScope_def split: option.splits)
qed (auto simp: FindTagInCurrScope_def InsertTag_name_def outer_scope_def live_scope_def Scope_Get_def
       wf_scopes_def update_conv' Let_def fun_eq_iff less_Suc_eq)

lemma FindUsual_InsertTag: "FindUsual (InsertTag_name s n i ss) k n' = FindUsual ss k n'"
proof (induction k rule: less_induct)
  case (less k)
  show ?case
    using less by (subst (1 2) FindUsual.simps) (auto simp: InsertTag_name_def split: option.splits)
qed

lemma FindTag_InsertUsual: "FindTag (InsertUsual_name s n i ss) k n' = FindTag ss k n'"
proof (induction k rule: less_induct)
  case (less k)
  show ?case
    using less by (subst (1 2) FindTag.simps) (auto simp: InsertUsual_name_def split: option.splits)
qed

text \<open>
  C22. Scopes nest: when a block or prototype scope is entered under an existing scope and declares
  an identifier there, a lookup inside finds that declaration, every other name is found as in
  the enclosing scope, and every lookup from the scopes that existed before is unchanged; the
  same holds for tags.
\<close>

theorem scope_shadowing:
  assumes "wf_scopes ss" and "p < next_scope ss" and "Scope_Get (Some p) t ss = (k, ss')" and "t \<noteq> kFile"
  shows "FindUsual (InsertUsual k i ss') k n = (if n = ident_name i then Some i else FindUsual ss p n) \<and>
    FindTag (InsertTag k i ss') k n = (if n = ident_name i then Some i else FindTag ss p n) \<and>
    (\<forall>j < next_scope ss. FindUsual (InsertUsual k i ss') j n = FindUsual ss j n \<and>
      FindTag (InsertTag k i ss') j n = FindTag ss j n)"
  using assms usual_table.block_shadowing [of ss p t k ss'] tag_table.block_shadowing [of ss p t k ss']
  by (simp add: InsertUsual_def InsertTag_def live_scope_def)

text \<open>A store with one file scope.\<close>

definition file_scopes :: scopes where
  "file_scopes = snd (Scope_Get None kFile \<lparr>scope_at = (\<lambda>_. \<lparr>parent = None, scope_kind = kFile,
     tags = [], usual = []\<rparr>), next_scope = 0\<rparr>)"

theorem scope_shadowing_witness:
  "let ss = InsertUsual 0 (Enumerator ''x'' 1) file_scopes; (k, ss') = Scope_Get (Some 0) kBlock ss;
       s2 = InsertUsual k (Enumerator ''x'' 2) ss'
   in FindUsual s2 k ''x'' = Some (Enumerator ''x'' 2) \<and> FindUsual s2 0 ''x'' = FindUsual ss 0 ''x''"
proof -
  let ?ss = "InsertUsual 0 (Enumerator ''x'' 1) file_scopes"
  have "wf_scopes ?ss" "0 < next_scope ?ss"
    by (simp_all add: wf_scopes_def file_scopes_def Scope_Get_def InsertUsual_def InsertUsual_name_def Let_def)
  from scope_shadowing [OF this, of kBlock _ _ "Enumerator ''x'' 2" "''x''"] this(2)
  show ?thesis by (auto simp: Let_def split: prod.splits)
qed

text \<open>
  Tags and ordinary identifiers are separate name spaces: declaring in one changes no lookup in
  the other, from any scope.
\<close>

theorem name_spaces_independent:
  "FindUsual (InsertTag s i ss) k n = FindUsual ss k n \<and> FindTag (InsertUsual s i ss) k n = FindTag ss k n"
  by (simp add: InsertTag_def InsertUsual_def FindUsual_InsertTag FindTag_InsertUsual)

end
