(* ===== verification/Kcc_Layout.thy ===== *)
theory Kcc_Layout
  imports Kcc_Arith Kcc_Scope
begin

text \<open>
  Structures, unions and their members: the class \<open>StructType\<close> of \<open>src/type.cpp\<close>, with the objects
  of the class \<open>ObjectExpr\<close> (\<open>src/ast.h\<close>, \<open>src/ast.cpp\<close>) that are its members.

  The steps that only concern the structure itself are functions on its \<open>struct_cell\<close>; the steps
  that place a member change the \<open>heap\<close>: the type objects, the objects and the scopes. Sizes of
  LLVM types come from the parameter \<open>sz\<close> (\<open>GetLLVMTypeSize\<close> of \<open>src/llvm_common.cpp\<close>, the
  allocation size in the data layout, returned as a 32-bit number). The two counters of bits are
  \<open>std::int8_t\<close>. Offsets, widths and the alignment are \<open>std::int32_t\<close>: every sum, difference and
  product of them goes through \<open>in32\<close>, which fails with \<open>Int_Overflow\<close> where the result leaves the
  32 bits (undefined behaviour of the source).
\<close>

subsection \<open>Objects\<close>

record object =
  obj_name :: string
  obj_type :: qtype
  storage_class_spec :: mask
  obj_linkage :: linkage
  anonymous :: bool
  obj_align :: int
  obj_offset :: int
  bit_field_width :: int
  bit_field_begin :: int
  indexs :: "(ctype \<times> int) list"
  obj_func_name :: string

record heap =
  h_types :: types
  h_objs :: "nat \<Rightarrow> object"
  h_next_obj :: nat
  h_scopes :: scopes

definition ObjectExpr_Get :: "data_layout \<Rightarrow> string \<Rightarrow> qtype \<Rightarrow> mask \<Rightarrow> linkage \<Rightarrow> bool \<Rightarrow> int \<Rightarrow>
    heap \<Rightarrow> (nat \<times> heap) result" where
  "ObjectExpr_Get dl name type storage linkage anon bf h =
     bindE (GetAlign dl (h_types h) (fst type)) (\<lambda>a.
       let n = h_next_obj h
       in Inr (n, h\<lparr>h_objs := (h_objs h)(n := \<lparr>obj_name = name, obj_type = type,
            storage_class_spec = storage, obj_linkage = linkage, anonymous = anon, obj_align = a,
            obj_offset = 0, bit_field_width = bf, bit_field_begin = 0, indexs = [],
            obj_func_name = []\<rparr>), h_next_obj := n + 1\<rparr>))"

definition obj_IsStatic :: "object \<Rightarrow> bool" where
  "obj_IsStatic ob \<longleftrightarrow> has (storage_class_spec ob) kStatic"

definition obj_IsExtern :: "object \<Rightarrow> bool" where
  "obj_IsExtern ob \<longleftrightarrow> has (storage_class_spec ob) kExtern"

definition IsGlobalVar :: "object \<Rightarrow> bool" where
  "IsGlobalVar ob \<longleftrightarrow> obj_linkage ob \<noteq> Linkage_kNone"

definition IsLocalStaticVar :: "object \<Rightarrow> bool" where
  "IsLocalStaticVar ob \<longleftrightarrow> obj_linkage ob = Linkage_kNone \<and> obj_IsStatic ob"

definition upd_obj :: "nat \<Rightarrow> (object \<Rightarrow> object) \<Rightarrow> heap \<Rightarrow> heap" where
  "upd_obj n f h = h\<lparr>h_objs := (h_objs h)(n := f (h_objs h n))\<rparr>"

definition upd_struct :: "nat \<Rightarrow> (struct_cell \<Rightarrow> struct_cell) \<Rightarrow> heap \<Rightarrow> heap" where
  "upd_struct s f h = h\<lparr>h_types := (h_types h)\<lparr>structs := (structs (h_types h))(s := f (structs (h_types h) s))\<rparr>\<rparr>"

abbreviation cell :: "heap \<Rightarrow> nat \<Rightarrow> struct_cell" where
  "cell h s \<equiv> structs (h_types h) s"

definition set_cell :: "nat \<Rightarrow> struct_cell \<Rightarrow> heap \<Rightarrow> heap" where
  "set_cell s c = upd_struct s (\<lambda>_. c)"

subsection \<open>Alignment and padding\<close>

text \<open>The remainder of C++ on numbers that the two assertions make non-negative.\<close>

definition MakeAlign :: "int \<Rightarrow> int \<Rightarrow> int result" where
  "MakeAlign off al = assertE (off \<ge> 0) (assertE (al > 0)
     (if off mod al = 0 then Inr off
      else bindE (in32 (off + al)) (\<lambda>x. in32 (x - off mod al))))"

definition int8 :: "int \<Rightarrow> int" where
  "int8 x = signed_take_bit 7 x"

text \<open>The width arrives as a \<open>std::int8_t\<close>; division by 8 truncates towards zero.\<close>

definition GetBitFieldSpace :: "int \<Rightarrow> ltype" where
  "GetBitFieldSpace width0 = (let w = int8 width0 in
     if w \<le> 8 then LInt 8 else LArr (nat ((w + 7) div 8)) (LInt 8))"

subsection \<open>Steps on the structure alone\<close>

definition StructType_init :: "bool \<Rightarrow> string \<Rightarrow> nat \<Rightarrow> struct_cell" where
  "StructType_init b name sc =
     \<lparr>st_is_struct = b, st_name = name, st_members = [], st_scope = sc, st_offset = 0,
      st_width = 0, st_align = 1, bit_field_used_width = 0, bit_field_base_type_width = 0,
      st_index = 0, bit_field_space_count = 0, llvm_types = [], llvm_body = [],
      struct_complete = False\<rparr>"

definition is_lstruct :: "ltype \<Rightarrow> bool" where
  "is_lstruct l = (case l of LStruct _ \<Rightarrow> True | _ \<Rightarrow> False)"

definition AddLLVMType :: "(ltype \<Rightarrow> int) \<Rightarrow> ltype \<Rightarrow> struct_cell \<Rightarrow> struct_cell result" where
  "AddLLVMType sz l c = (if st_is_struct c then Inr (c\<lparr>llvm_types := llvm_types c @ [l]\<rparr>)
     else assertE (length (llvm_types c) = 0 \<or> length (llvm_types c) = 1)
       (if llvm_types c = [] then Inr (c\<lparr>llvm_types := llvm_types c @ [l]\<rparr>)
        else let back = last (llvm_types c); set_back = c\<lparr>llvm_types := butlast (llvm_types c) @ [l]\<rparr>
             in if sz back < sz l then Inr set_back
                else if sz back = sz l then
                  (if is_lstruct back \<and> \<not> is_lstruct l then Inr set_back else Inr c)
                else Inr c))"

definition AddBitFieldBeforeMember :: "(ltype \<Rightarrow> int) \<Rightarrow> struct_cell \<Rightarrow> struct_cell result" where
  "AddBitFieldBeforeMember sz c0 =
     (if bit_field_used_width c0 = 0 then Inr (c0\<lparr>bit_field_base_type_width := 0\<rparr>)
      else assertE (bit_field_base_type_width c0 \<noteq> 0)
       (bindE (MakeAlign (bit_field_used_width c0) 8) (\<lambda>used.
        bindE
        (if st_is_struct c0 then
           let c1 = c0\<lparr>llvm_types := llvm_types c0 @ [GetBitFieldSpace (bit_field_used_width c0)],
                       st_index := st_index c0 + 1\<rparr>
           in bindE (in32 (st_offset c1 + used div 8)) (\<lambda>o1.
              bindE (MakeAlign o1 (st_align c1)) (\<lambda>w1.
              bindE (in32 (w1 - o1)) (\<lambda>pad.
              bindE (in32 (pad * 8)) (\<lambda>space_width.
              let c2 = c1\<lparr>st_offset := o1, st_width := w1\<rparr>
              in if space_width \<noteq> 0 then
                   let space = GetBitFieldSpace space_width;
                       c3 = c2\<lparr>llvm_types := llvm_types c2 @ [space], st_index := st_index c2 + 1\<rparr>
                   in bindE (in32 (bit_field_space_count c3 + pad)) (\<lambda>cnt.
                      bindE (in32 (st_offset c3 + sz space)) (\<lambda>o3.
                      bindE (MakeAlign o3 (st_align c3)) (\<lambda>w3.
                        Inr (c3\<lparr>bit_field_space_count := cnt, st_offset := o3, st_width := w3\<rparr>))))
                 else Inr c2))))
         else
           let type = GetBitFieldSpace (bit_field_used_width c0);
               c1 = (if llvm_types c0 = [] then c0\<lparr>llvm_types := llvm_types c0 @ [type]\<rparr>
                     else if sz (last (llvm_types c0)) < sz type
                     then c0\<lparr>llvm_types := butlast (llvm_types c0) @ [type]\<rparr> else c0);
               c2 = c1\<lparr>st_index := st_index c1 + 1\<rparr>
           in bindE (MakeAlign (max (st_width c2) (used div 8)) (st_align c2)) (\<lambda>w.
              Inr (c2\<lparr>st_width := w\<rparr>)))
        (\<lambda>c. Inr (c\<lparr>bit_field_used_width := 0, bit_field_base_type_width := 0\<rparr>)))))"

definition AddSpace :: "(ltype \<Rightarrow> int) \<Rightarrow> int \<Rightarrow> struct_cell \<Rightarrow> struct_cell result" where
  "AddSpace sz width0 c = bindE (in32 (width0 * 8)) (\<lambda>space_width.
     if space_width \<noteq> 0 then
       let space = GetBitFieldSpace space_width;
           c1 = c\<lparr>llvm_types := llvm_types c @ [space], st_index := st_index c + 1\<rparr>
       in bindE (in32 (st_offset c1 + sz space)) (\<lambda>o1.
          bindE (MakeAlign o1 (st_align c1)) (\<lambda>w. Inr (c1\<lparr>st_offset := o1, st_width := w\<rparr>)))
     else Inr c)"

definition UnionAddBitField :: "(ltype \<Rightarrow> int) \<Rightarrow> ltype \<Rightarrow> struct_cell \<Rightarrow> struct_cell result" where
  "UnionAddBitField sz l c =
     (let c1 = (if llvm_types c = [] then c\<lparr>llvm_types := llvm_types c @ [l]\<rparr>
                else if sz l > sz (last (llvm_types c))
                then c\<lparr>llvm_types := butlast (llvm_types c) @ [l]\<rparr> else c)
      in assertE (st_offset c1 = 0)
        (bindE (MakeAlign (max (st_width c1) (bit_field_base_type_width c1 div 8)) (st_align c1)) (\<lambda>w.
           Inr (c1\<lparr>st_width := w\<rparr>))))"

definition BitFieldPacked :: "struct_cell \<Rightarrow> struct_cell result" where
  "BitFieldPacked c =
     bindE (if st_is_struct c then
         let c1 = c\<lparr>llvm_types := llvm_types c @ [GetBitFieldSpace (bit_field_base_type_width c)]\<rparr>
         in bindE (in32 (st_offset c1 + bit_field_base_type_width c1 div 8)) (\<lambda>o1.
            bindE (MakeAlign o1 (st_align c1)) (\<lambda>w.
              Inr (c1\<lparr>st_offset := o1, st_width := w, st_index := st_index c1 + 1\<rparr>)))
       else Inr c)
     (\<lambda>c. Inr (c\<lparr>bit_field_used_width := 0, bit_field_base_type_width := 0\<rparr>))"

definition AddSpaceBetweenBitField :: "(ltype \<Rightarrow> int) \<Rightarrow> struct_cell \<Rightarrow> struct_cell result" where
  "AddSpaceBetweenBitField sz c = assertE (bit_field_base_type_width c \<noteq> 0)
     (bindE (MakeAlign (bit_field_used_width c) 8) (\<lambda>used.
      let c1 = c\<lparr>llvm_types := llvm_types c @ [GetBitFieldSpace (bit_field_used_width c)],
                 st_index := st_index c + 1\<rparr>
      in bindE (in32 (st_offset c1 + used div 8)) (\<lambda>o1.
         bindE (MakeAlign o1 (st_align c1)) (\<lambda>w1.
         let c2 = c1\<lparr>st_offset := o1, st_width := w1\<rparr>;
             space = GetBitFieldSpace (bit_field_base_type_width c2 - used);
             c3 = c2\<lparr>bit_field_used_width := 0, bit_field_base_type_width := 0,
                     llvm_types := llvm_types c2 @ [space], st_index := st_index c2 + 1\<rparr>
         in bindE (in32 (st_offset c3 + sz space)) (\<lambda>o3.
            bindE (MakeAlign o3 (st_align c3)) (\<lambda>w3.
              Inr (c3\<lparr>st_offset := o3, st_width := w3\<rparr>)))))))"

subsection \<open>Structures on the heap\<close>

definition StructType_Get :: "bool \<Rightarrow> string \<Rightarrow> nat option \<Rightarrow> heap \<Rightarrow> ctype \<times> heap" where
  "StructType_Get b name p h =
     (let (sc, ss) = Scope_Get p kBlock (h_scopes h);
          ts = h_types h;
          n = next_id ts
      in (StructT b n, h\<lparr>h_scopes := ss,
            h_types := ts\<lparr>structs := (structs ts)(n := StructType_init b name sc), next_id := n + 1\<rparr>\<rparr>))"

definition StructHasName :: "heap \<Rightarrow> nat \<Rightarrow> bool" where
  "StructHasName h s \<longleftrightarrow> st_name (cell h s) \<noteq> []"

definition StructSetName :: "string \<Rightarrow> nat \<Rightarrow> heap \<Rightarrow> heap" where
  "StructSetName n s = upd_struct s (\<lambda>c. c\<lparr>st_name := n\<rparr>)"

definition StructSetMembers :: "nat list \<Rightarrow> nat \<Rightarrow> heap \<Rightarrow> heap" where
  "StructSetMembers ms s = upd_struct s (\<lambda>c. c\<lparr>st_members := ms\<rparr>)"

definition StructGetMember :: "heap \<Rightarrow> nat \<Rightarrow> string \<Rightarrow> nat option result" where
  "StructGetMember h s name = (case FindUsualInCurrScope (h_scopes h) (st_scope (cell h s)) name of
       None \<Rightarrow> Inr None
     | Some (Object _ n) \<Rightarrow> Inr (Some n)
     | Some _ \<Rightarrow> Inl Assert_Fail)"

definition StructGetMemberType :: "heap \<Rightarrow> nat \<Rightarrow> nat \<Rightarrow> qtype result" where
  "StructGetMemberType h s i = (if i < length (st_members (cell h s))
     then Inr (obj_type (h_objs h (st_members (cell h s) ! i))) else Inl Out_Of_Range)"

definition type_size :: "data_layout \<Rightarrow> types \<Rightarrow> ltype \<Rightarrow> int" where
  "type_size dl ts l = int32 (alloc_size dl (bodies ts) l)"

text \<open>The member's LLVM type is added, then the structure grows by its width.\<close>

definition grow :: "data_layout \<Rightarrow> types \<Rightarrow> int \<Rightarrow> ctype \<Rightarrow> struct_cell \<Rightarrow> struct_cell result" where
  "grow dl ts off t c0 =
     bindE (GetLLVMType ts t) (\<lambda>l.
     bindE (AddLLVMType (type_size dl ts) l c0) (\<lambda>c.
     bindE (GetWidth dl ts t) (\<lambda>w.
       if st_is_struct c then
         bindE (in32 (off + w)) (\<lambda>o1.
         bindE (MakeAlign o1 (st_align c)) (\<lambda>w1.
           Inr (c\<lparr>st_offset := o1, st_width := w1\<rparr>)))
       else assertE (st_offset c = 0)
         (bindE (MakeAlign (max (st_width c) w) (st_align c)) (\<lambda>w1.
           Inr (c\<lparr>st_width := w1\<rparr>))))))"

definition sizes :: "data_layout \<Rightarrow> heap \<Rightarrow> ltype \<Rightarrow> int" where
  "sizes dl h = type_size dl (h_types h)"

text \<open>A flexible array becomes an array of no elements.\<close>

definition fix_flexible :: "nat \<Rightarrow> heap \<Rightarrow> ctype \<times> heap" where
  "fix_flexible m h = (let t = fst (obj_type (h_objs h m)) in
     case t of
       ArrayT a e q \<Rightarrow> (if \<not> IsComplete (h_types h) t
         then let (t', ts) = ArrayType_Get (e, q) (Some 0) (h_types h)
              in (t', upd_obj m (\<lambda>ob. ob\<lparr>obj_type := (t', 0)\<rparr>) (h\<lparr>h_types := ts\<rparr>))
         else (t, h))
     | _ \<Rightarrow> (t, h))"

definition AddMember :: "data_layout \<Rightarrow> nat \<Rightarrow> bool \<Rightarrow> nat \<Rightarrow> heap \<Rightarrow> heap result" where
  "AddMember dl s b m h0 =
     (let ma = obj_align (h_objs h0 m);
          c0 = (cell h0 s)\<lparr>st_align := max (st_align (cell h0 s)) ma\<rparr>
      in bindE (AddBitFieldBeforeMember (sizes dl h0) c0) (\<lambda>c1.
         let (t, h1) = fix_flexible m (set_cell s c1 h0)
         in bindE (MakeAlign (st_offset c1) ma) (\<lambda>off.
            bindE (in32 (off - bit_field_space_count c1)) (\<lambda>obj_off.
            let h2 = upd_obj m (\<lambda>ob. ob\<lparr>obj_offset := obj_off,
                       indexs := (StructT b s, st_index c1) # indexs ob\<rparr>) h1;
                c2 = c1\<lparr>st_index := st_index c1 + 1, st_members := st_members c1 @ [m]\<rparr>;
                h3 = h2\<lparr>h_scopes := InsertUsual (st_scope c1) (Object (obj_name (h_objs h2 m)) m) (h_scopes h2)\<rparr>
            in bindE (grow dl (h_types h3) off t c2) (\<lambda>c3. Inr (set_cell s c3 h3))))))"

text \<open>The loop over the scope of the anonymous member: each of its objects becomes a member's member.\<close>

fun MergeAnonymous_loop :: "nat \<Rightarrow> bool \<Rightarrow> int \<Rightarrow> (string \<times> ident) list \<Rightarrow> heap \<Rightarrow> heap result" where
  "MergeAnonymous_loop s b off [] h = Inr h"
| "MergeAnonymous_loop s b off ((name, i) # rest) h = (case i of
       Object n m \<Rightarrow> bindE (StructGetMember h s name) (\<lambda>dup. case dup of
           Some _ \<Rightarrow> Inl (Diag ''duplicated member'')
         | None \<Rightarrow> bindE (in32 (off + obj_offset (h_objs h m))) (\<lambda>obj_off.
             let h1 = upd_obj m (\<lambda>ob. ob\<lparr>obj_offset := obj_off,
                        indexs := (StructT b s, st_index (cell h s)) # indexs ob\<rparr>) h;
                 h2 = h1\<lparr>h_scopes := InsertUsual (st_scope (cell h s)) i (h_scopes h1)\<rparr>
             in MergeAnonymous_loop s b off rest h2))
     | _ \<Rightarrow> MergeAnonymous_loop s b off rest h)"

definition MergeAnonymous :: "data_layout \<Rightarrow> nat \<Rightarrow> bool \<Rightarrow> nat \<Rightarrow> heap \<Rightarrow> heap result" where
  "MergeAnonymous dl s b m h0 =
     (let ma = obj_align (h_objs h0 m);
          t = fst (obj_type (h_objs h0 m));
          c0 = (cell h0 s)\<lparr>st_align := max (st_align (cell h0 s)) ma\<rparr>
      in bindE (AddBitFieldBeforeMember (sizes dl h0) c0) (\<lambda>c1. case t of
           StructT _ a \<Rightarrow>
             bindE (MakeAlign (st_offset c1) ma) (\<lambda>off.
               let h1 = set_cell s (c1\<lparr>st_members := st_members c1 @ [m]\<rparr>) h0;
                   h2 = upd_obj m (\<lambda>ob. ob\<lparr>obj_offset := off,
                          indexs := (StructT b s, st_index c1) # indexs ob\<rparr>) h1
               in bindE (MergeAnonymous_loop s b off (usual (scope_at (h_scopes h2) (st_scope (cell h2 a)))) h2) (\<lambda>h3.
                  let c3 = (cell h3 s)\<lparr>st_index := st_index (cell h3 s) + 1\<rparr>
                  in bindE (grow dl (h_types h3) off t c3) (\<lambda>c4. Inr (set_cell s c4 h3))))
         | _ \<Rightarrow> Inl Assert_Fail))"

text \<open>
  \<open>AddBitField\<close>. The member is entered at the bit \<open>bit_begin\<close> of the storage unit in progress.
\<close>

definition enter_bit_field :: "data_layout \<Rightarrow> nat \<Rightarrow> bool \<Rightarrow> nat \<Rightarrow> int \<Rightarrow> heap \<Rightarrow> heap result" where
  "enter_bit_field dl s b m bit_begin h =
     (let c = cell h s;
          h1 = upd_obj m (\<lambda>ob. ob\<lparr>obj_offset := st_offset c, bit_field_begin := bit_begin,
                 indexs := (StructT b s, st_index c) # indexs ob\<rparr>) h;
          c1 = c\<lparr>st_members := st_members c @ [m]\<rparr>;
          h2 = (set_cell s c1 h1)\<lparr>h_scopes := InsertUsual (st_scope c) (Object (obj_name (h_objs h m)) m) (h_scopes h1)\<rparr>
      in if \<not> st_is_struct c1 then
           bindE (GetLLVMType (h_types h2) (fst (obj_type (h_objs h2 m)))) (\<lambda>l.
           bindE (UnionAddBitField (sizes dl h2) l c1) (\<lambda>c2. Inr (set_cell s c2 h2)))
         else Inr h2)"

text \<open>The bits are counted, and a full storage unit is closed.\<close>

definition count_bits :: "nat \<Rightarrow> int \<Rightarrow> heap \<Rightarrow> heap result" where
  "count_bits s bit_width h =
     (let c = cell h s in bindE (in32 (bit_field_used_width c + bit_width)) (\<lambda>bits.
      let c1 = c\<lparr>bit_field_used_width := int8 bits\<rparr>
      in assertE (bit_field_used_width c1 \<le> bit_field_base_type_width c1)
        (if bit_field_used_width c1 = bit_field_base_type_width c1
         then bindE (BitFieldPacked c1) (\<lambda>c2. Inr (set_cell s c2 h))
         else Inr (set_cell s c1 h))))"

definition AddBitField :: "data_layout \<Rightarrow> nat \<Rightarrow> bool \<Rightarrow> nat \<Rightarrow> heap \<Rightarrow> heap result" where
  "AddBitField dl s b m h0 =
     (let ob = h_objs h0 m;
          bit_width = bit_field_width ob;
          t = fst (obj_type ob);
          c0 = (if bit_width = 0 \<or> bit_width > 8
                then (cell h0 s)\<lparr>st_align := max (obj_align ob) (st_align (cell h0 s))\<rparr> else cell h0 s)
      in if bit_field_used_width c0 = 0 then
           bindE (if st_is_struct c0 \<and> st_members c0 \<noteq> [] \<and>
                     bit_field_width (h_objs h0 (last (st_members c0))) = 0
                  then bindE (MakeAlign (st_offset c0) (st_align c0)) (\<lambda>w.
                       bindE (in32 (w - st_offset c0)) (\<lambda>pad.
                         AddSpace (sizes dl h0) pad (c0\<lparr>st_width := w\<rparr>)))
                  else Inr c0) (\<lambda>c1.
           assertE (bit_field_base_type_width c1 = 0)
            (bindE (GetWidth dl (h_types h0) t) (\<lambda>tw. bindE (in32 (tw * 8)) (\<lambda>new_base.
             let c2 = c1\<lparr>bit_field_base_type_width := int8 new_base\<rparr>; h1 = set_cell s c2 h0
             in if bit_width = 0 then Inr h1
                else bindE (enter_bit_field dl s b m 0 h1) (count_bits s bit_width)))))
         else if bit_width = 0 then
           (if \<not> st_is_struct c0 \<or> IsCharacterTy t then Inr (set_cell s c0 h0)
            else bindE (AddSpaceBetweenBitField (sizes dl h0) c0) (\<lambda>c1. Inr (set_cell s c1 h0)))
         else
           bindE (GetWidth dl (h_types h0) t) (\<lambda>tw. bindE (in32 (tw * 8)) (\<lambda>new_base.
           let c1 = (if new_base > bit_field_base_type_width c0
                     then c0\<lparr>bit_field_base_type_width := int8 new_base\<rparr> else c0)
           in bindE (in32 (bit_field_used_width c1 + bit_width)) (\<lambda>bits.
              bindE (if bits > bit_field_base_type_width c1 \<and> st_is_struct c1
                     then bindE (AddSpaceBetweenBitField (sizes dl h0) c1) (\<lambda>c2.
                            Inr (c2\<lparr>bit_field_base_type_width := int8 new_base\<rparr>))
                     else Inr c1) (\<lambda>c3.
              bindE (enter_bit_field dl s b m
                       (if bit_field_used_width c3 = 0 then 0
                        else if st_is_struct c3 then bit_field_used_width c3 else 0) (set_cell s c3 h0))
                    (count_bits s bit_width))))))"

definition Finish :: "data_layout \<Rightarrow> nat \<Rightarrow> heap \<Rightarrow> heap result" where
  "Finish dl s h =
     bindE (if bit_field_used_width (cell h s) \<noteq> 0
            then if st_members (cell h s) = [] then Inl Out_Of_Range
                 else bindE (GetAlign dl (h_types h) (fst (obj_type (h_objs h (last (st_members (cell h s))))))) (\<lambda>a.
                      AddBitFieldBeforeMember (sizes dl h) ((cell h s)\<lparr>st_align := max (st_align (cell h s)) a\<rparr>))
            else Inr (cell h s)) (\<lambda>c.
     assertE (st_is_struct c \<or> length (llvm_types c) = 0 \<or> length (llvm_types c) = 1)
       (assertE (llvm_body c = [])
         (Inr (set_cell s (c\<lparr>llvm_body := llvm_types c,
            st_members := filter (\<lambda>m. \<not> (anonymous (h_objs h m) \<and> bit_field_width (h_objs h m) \<noteq> 0)) (st_members c)\<rparr>) h))))"

text \<open>The source sets the flag of arrays, functions and structures only; no other type keeps one here.\<close>

fun SetComplete :: "data_layout \<Rightarrow> bool \<Rightarrow> ctype \<Rightarrow> heap \<Rightarrow> heap result" where
  "SetComplete dl v (ArrayT a t q) h = Inr (h\<lparr>h_types := (h_types h)\<lparr>arrays :=
     (arrays (h_types h))(a := (arrays (h_types h) a)\<lparr>arr_complete := v\<rparr>)\<rparr>\<rparr>)"
| "SetComplete dl v (FuncT f t q ps va) h = Inr (h\<lparr>h_types := (h_types h)\<lparr>funcs :=
     (funcs (h_types h))(f := (funcs (h_types h) f)\<lparr>func_complete := v\<rparr>)\<rparr>\<rparr>)"
| "SetComplete dl v (StructT b s) h = Finish dl s (upd_struct s (\<lambda>c. c\<lparr>struct_complete := v\<rparr>) h)"
| "SetComplete dl v t h = Inl Assert_Fail"

end
