(* ===== verification/Kcc_LayoutProps.thy ===== *)
theory Kcc_LayoutProps
  imports Kcc_Layout
begin

text \<open>
  Where the members of a structure go: the offsets \<open>StructType::AddMember\<close> assigns are those of
  the usual layout of C, stated as a function on widths and alignments; a bit-field before a
  member breaks this.
\<close>

subsection \<open>Rounding up\<close>

definition round_up :: "int \<Rightarrow> int \<Rightarrow> int" where
  "round_up off al = (if off mod al = 0 then off else off + al - off mod al)"

lemma in32_Inr: "- (2 ^ 31) \<le> x \<Longrightarrow> x < 2 ^ 31 \<Longrightarrow> in32 x = Inr x"
  by (simp add: in32_def)

text \<open>The sum of offset and alignment is formed first, so this sum is what must not overflow.\<close>

lemma MakeAlign_round_up:
  assumes "off \<ge> 0" and "al > 0" and "off + al < 2 ^ 31"
  shows "MakeAlign off al = Inr (round_up off al)"
proof -
  obtain r where r: "off mod al = r" "0 \<le> r" "r < al" using assms(2) by simp
  then have "in32 (off + al) = Inr (off + al)" "in32 (off + al - off mod al) = Inr (off + al - off mod al)"
    using assms unfolding r(1) by (auto simp: in32_def)
  then show ?thesis using assms by (simp add: MakeAlign_def round_up_def)
qed

lemma MakeAlign_overflow:
  "off \<ge> 0 \<Longrightarrow> al > 0 \<Longrightarrow> off mod al \<noteq> 0 \<Longrightarrow> off + al \<ge> 2 ^ 31 \<Longrightarrow> MakeAlign off al = Inl Int_Overflow"
  by (simp add: MakeAlign_def in32_def)

lemma round_up_mod: "al > 0 \<Longrightarrow> round_up off al mod al = 0"
  by (auto simp: round_up_def mod_diff_left_eq [symmetric] mod_add_left_eq [symmetric])

lemma round_up_bounds:
  assumes "al > 0" shows "off \<le> round_up off al" and "round_up off al < off + al"
proof -
  obtain r where r: "off mod al = r" "0 \<le> r" "r < al" using assms by simp
  then show "off \<le> round_up off al" "round_up off al < off + al"
    using assms unfolding round_up_def r(1) by auto
qed

lemmas round_up_ge = round_up_bounds(1) and round_up_less = round_up_bounds(2)

lemma round_up_least:
  assumes "al > 0" and "off \<le> n" and "n mod al = 0"
  shows "round_up off al \<le> n"
proof (rule ccontr)
  assume "\<not> round_up off al \<le> n"
  then have lt: "n < round_up off al" by simp
  have "al dvd round_up off al - n"
    using assms(3) round_up_mod [OF assms(1), of off] by (simp add: dvd_eq_mod_eq_0 [symmetric])
  then have "al \<le> round_up off al - n" using lt by (simp add: zdvd_imp_le)
  with round_up_less [OF assms(1), of off] assms(2) show False by simp
qed

text \<open>
  C24. \<open>StructType::MakeAlign\<close> returns the least multiple of the alignment that is not below the
  offset; it fails its assertions exactly on a negative offset or a non-positive alignment, and its
  32-bit sum overflows exactly when the offset is no multiple and offset and alignment together
  reach 2^31.
\<close>

theorem MakeAlign_least_multiple:
  "case MakeAlign off al of
     Inr r \<Rightarrow> off \<ge> 0 \<and> al > 0 \<and> (al dvd off \<or> off + al < 2 ^ 31) \<and>
       is_arg_min id (\<lambda>n. off \<le> n \<and> al dvd n) r
   | Inl e \<Rightarrow> if off < 0 \<or> al \<le> 0 then e = Assert_Fail
       else e = Int_Overflow \<and> \<not> al dvd off \<and> off + al \<ge> 2 ^ 31"
proof (cases "off \<ge> 0 \<and> al > 0")
  case True
  then have m: "is_arg_min id (\<lambda>n. off \<le> n \<and> al dvd n) (round_up off al)"
    using round_up_ge [of al off] round_up_mod [of al off] round_up_least [of al off]
    unfolding is_arg_min_def dvd_eq_mod_eq_0 id_def by (auto simp: not_less)
  consider "al dvd off" | "\<not> al dvd off" "off + al < 2 ^ 31" | "\<not> al dvd off" "off + al \<ge> 2 ^ 31"
    by linarith
  then show ?thesis
  proof cases
    case 1
    with True have "MakeAlign off al = Inr (round_up off al)"
      by (simp add: MakeAlign_def round_up_def)
    with 1 True m show ?thesis by simp
  next
    case 2
    with True m show ?thesis by (simp add: MakeAlign_round_up)
  next
    case 3
    with True show ?thesis by (simp add: MakeAlign_overflow dvd_eq_mod_eq_0)
  qed
qed (auto simp: MakeAlign_def assertE_def)

subsection \<open>Members without bit-fields\<close>

text \<open>The layout of C for members of given widths and alignments, from an offset on.\<close>

fun c_layout :: "int \<Rightarrow> (int \<times> int) list \<Rightarrow> int list" where
  "c_layout off [] = []"
| "c_layout off ((w, a) # ms) = (let p = round_up off a in p # c_layout (p + w) ms)"

fun c_end :: "int \<Rightarrow> (int \<times> int) list \<Rightarrow> int" where
  "c_end off [] = off"
| "c_end off ((w, a) # ms) = c_end (round_up off a + w) ms"

lemma c_end_ge: "(\<And>w a. (w, a) \<in> set ms \<Longrightarrow> w \<ge> 0 \<and> a > 0) \<Longrightarrow> off \<le> c_end off ms"
proof (induction off ms rule: c_end.induct)
  case (2 off w a ms)
  have "a > 0 \<and> w \<ge> 0" using "2.prems" [of w a] by auto
  then have "off \<le> round_up off a + w" using round_up_ge [of a off] by simp
  also have "\<dots> \<le> c_end (round_up off a + w) ms" using "2.IH" "2.prems" by auto
  finally show ?case by simp
qed simp

lemma fold_max_ge: "(x :: int) \<le> fold (\<lambda>(w, a). max a) ms x"
proof (induction ms arbitrary: x)
  case (Cons m ms)
  have "x \<le> max (snd m) x" by simp
  also have "\<dots> \<le> fold (\<lambda>(w, a). max a) ms (max (snd m) x)" by (rule Cons.IH)
  finally show ?case by (simp add: case_prod_unfold)
qed simp

text \<open>Members are added one after the other, as the parser does it.\<close>

fun AddMembers :: "data_layout \<Rightarrow> nat \<Rightarrow> bool \<Rightarrow> nat list \<Rightarrow> heap \<Rightarrow> heap result" where
  "AddMembers dl s b [] h = Inr h"
| "AddMembers dl s b (m # ms) h = bindE (AddMember dl s b m h) (AddMembers dl s b ms)"

definition plain_member :: "data_layout \<Rightarrow> types \<Rightarrow> object \<Rightarrow> bool" where
  "plain_member dl ts ob \<longleftrightarrow> (\<exists>l w. GetLLVMType ts (fst (obj_type ob)) = Inr l \<and>
     GetWidth dl ts (fst (obj_type ob)) = Inr w \<and> w \<ge> 0) \<and> obj_align ob > 0 \<and>
     \<not> (IsArrayTy (fst (obj_type ob)) \<and> \<not> IsComplete ts (fst (obj_type ob)))"

definition width_of :: "data_layout \<Rightarrow> types \<Rightarrow> object \<Rightarrow> int" where
  "width_of dl ts ob = (case GetWidth dl ts (fst (obj_type ob)) of Inr w \<Rightarrow> w | Inl _ \<Rightarrow> 0)"

definition member_sizes :: "data_layout \<Rightarrow> heap \<Rightarrow> nat list \<Rightarrow> (int \<times> int) list" where
  "member_sizes dl h ms = map (\<lambda>m. (width_of dl (h_types h) (h_objs h m), obj_align (h_objs h m))) ms"

text \<open>Type states that give every type the same width, alignment and LLVM type.\<close>

definition same_layout :: "types \<Rightarrow> types \<Rightarrow> bool" where
  "same_layout ts ts' \<longleftrightarrow> arrays ts = arrays ts' \<and>
     (\<forall>s. llvm_body (structs ts s) = llvm_body (structs ts' s) \<and>
          struct_complete (structs ts s) = struct_complete (structs ts' s))"

lemma same_layout_bodies: "same_layout ts ts' \<Longrightarrow> bodies ts = bodies ts'"
  by (auto simp: same_layout_def bodies_def)

lemma same_layout_LLVMType: "same_layout ts ts' \<Longrightarrow> GetLLVMType ts t = GetLLVMType ts' t"
  and same_layout_LLVMType_params: "same_layout ts ts' \<Longrightarrow> GetLLVMType_params ts ps = GetLLVMType_params ts' ps"
  by (induction ts t and ts ps rule: GetLLVMType_GetLLVMType_params.induct)
     (auto simp: same_layout_def ArrayType_GetNumElements_def intro: bindE_cong)

lemma same_layout_IsComplete: "same_layout ts ts' \<Longrightarrow> \<not> IsFunctionTy t \<Longrightarrow> IsComplete ts t = IsComplete ts' t"
  by (cases t) (auto simp: same_layout_def)

lemma same_layout_GetWidth: assumes "same_layout ts ts'" shows "GetWidth dl ts t = GetWidth dl ts' t"
proof -
  note b [simp] = same_layout_bodies [OF assms]
  show ?thesis
    using assms by (induction t) (auto simp: same_layout_def split: option.splits)
qed

lemma same_layout_plain: assumes "same_layout ts ts'" shows "plain_member dl ts ob = plain_member dl ts' ob"
proof -
  have "(IsArrayTy t \<and> \<not> IsComplete ts t) = (IsArrayTy t \<and> \<not> IsComplete ts' t)" for t
    using assms by (cases t) (auto simp: same_layout_def)
  then show ?thesis
    by (simp add: plain_member_def same_layout_GetWidth [OF assms] same_layout_LLVMType [OF assms])
qed

text \<open>The state of a structure in which no bit-field is in progress.\<close>

definition between_fields :: "struct_cell \<Rightarrow> bool" where
  "between_fields c \<longleftrightarrow> st_is_struct c \<and> bit_field_used_width c = 0 \<and> bit_field_space_count c = 0 \<and>
     st_offset c \<ge> 0 \<and> st_align c > 0"

lemma AddMember_plain:
  assumes c: "between_fields (cell h s)" and m: "plain_member dl (h_types h) (h_objs h m)"
    and fits: "round_up (st_offset (cell h s)) (obj_align (h_objs h m)) + width_of dl (h_types h) (h_objs h m) +
      max (st_align (cell h s)) (obj_align (h_objs h m)) < 2 ^ 31"
  shows "\<exists>h'. AddMember dl s b m h = Inr h' \<and> same_layout (h_types h') (h_types h) \<and>
    between_fields (cell h' s) \<and>
    obj_offset (h_objs h' m) = round_up (st_offset (cell h s)) (obj_align (h_objs h m)) \<and>
    st_offset (cell h' s) = obj_offset (h_objs h' m) + width_of dl (h_types h) (h_objs h m) \<and>
    st_align (cell h' s) = max (st_align (cell h s)) (obj_align (h_objs h m)) \<and>
    st_width (cell h' s) = round_up (st_offset (cell h' s)) (st_align (cell h' s)) \<and>
    st_members (cell h' s) = st_members (cell h s) @ [m] \<and>
    (\<forall>m'. obj_type (h_objs h' m') = obj_type (h_objs h m') \<and> obj_align (h_objs h' m') = obj_align (h_objs h m') \<and>
       (m' \<noteq> m \<longrightarrow> obj_offset (h_objs h' m') = obj_offset (h_objs h m')))"
proof -
  let ?t = "fst (obj_type (h_objs h m))" and ?a = "obj_align (h_objs h m)"
  from m obtain l w where lw: "GetLLVMType (h_types h) ?t = Inr l" "GetWidth dl (h_types h) ?t = Inr w" "w \<ge> 0"
    and a: "?a > 0" and fl: "\<not> (IsArrayTy ?t \<and> \<not> IsComplete (h_types h) ?t)"
    by (auto simp: plain_member_def)
  let ?c1 = "(cell h s)\<lparr>st_align := max (st_align (cell h s)) ?a, bit_field_base_type_width := 0\<rparr>"
  have bf: "AddBitFieldBeforeMember (sizes dl h) ((cell h s)\<lparr>st_align := max (st_align (cell h s)) ?a\<rparr>) = Inr ?c1"
    using c by (simp add: AddBitFieldBeforeMember_def between_fields_def)
  have fx: "fix_flexible m (set_cell s ?c1 h) = (?t, set_cell s ?c1 h)"
    using fl by (auto simp: fix_flexible_def set_cell_def upd_struct_def Let_def split: ctype.splits)
  have off: "MakeAlign (st_offset ?c1) ?a = Inr (round_up (st_offset (cell h s)) ?a)"
    using c a fits lw round_up_ge [OF a, of "st_offset (cell h s)"]
      MakeAlign_round_up [of "st_offset (cell h s)" ?a]
    by (simp add: between_fields_def width_of_def)
  let ?o = "round_up (st_offset (cell h s)) ?a"
  have o0: "?o \<ge> 0" using round_up_ge [OF a, of "st_offset (cell h s)"] c by (simp add: between_fields_def)
  have ends: "?o + w + max (st_align (cell h s)) ?a < 2 ^ 31" "?o + w < 2 ^ 31" "?o < 2 ^ 31"
    using fits lw a by (auto simp: width_of_def)
  have ofs: "in32 (?o - bit_field_space_count ?c1) = Inr ?o"
    using c o0 ends by (simp add: between_fields_def in32_Inr)

  have gr: "grow dl ts ?o ?t c2 = Inr (c2\<lparr>llvm_types := llvm_types c2 @ [l], st_offset := ?o + w,
      st_width := round_up (?o + w) (st_align c2)\<rparr>)"
    if "same_layout ts (h_types h)" "st_is_struct c2" "st_align c2 > 0" "?o + w + st_align c2 < 2 ^ 31" for ts c2
    using that lw o0 ends
    by (simp add: grow_def same_layout_LLVMType [OF that(1)] same_layout_GetWidth [OF that(1)] AddLLVMType_def
        MakeAlign_round_up in32_Inr)
  let ?h2 = "upd_obj m (\<lambda>ob. ob\<lparr>obj_offset := ?o,
               indexs := (StructT b s, st_index ?c1) # indexs ob\<rparr>) (set_cell s ?c1 h)"
  let ?c2 = "?c1\<lparr>st_index := st_index ?c1 + 1, st_members := st_members ?c1 @ [m]\<rparr>"
  let ?h3 = "?h2\<lparr>h_scopes := InsertUsual (st_scope ?c1) (Object (obj_name (h_objs ?h2 m)) m) (h_scopes ?h2)\<rparr>"
  let ?c3 = "?c2\<lparr>llvm_types := llvm_types ?c2 @ [l], st_offset := ?o + w,
      st_width := round_up (?o + w) (st_align ?c2)\<rparr>"
  have "same_layout (h_types ?h3) (h_types h)"
    by (auto simp: same_layout_def set_cell_def upd_struct_def upd_obj_def)
  then have g: "grow dl (h_types ?h3) ?o ?t ?c2 = Inr ?c3"
    using c ends by (intro gr) (auto simp: between_fields_def)
  have am: "AddMember dl s b m h = Inr (set_cell s ?c3 ?h3)"
    unfolding AddMember_def Let_def bf bindE_Inr fx prod.case off ofs g ..
  obtain H where H: "H = set_cell s ?c3 ?h3" by simp
  have cell: "cell H s = ?c3" by (simp add: H set_cell_def upd_struct_def)
  have sl: "same_layout (h_types H) (h_types h)"
    by (auto simp: H same_layout_def set_cell_def upd_struct_def upd_obj_def)
  have objs: "h_objs H = (h_objs h)(m := (h_objs h m)\<lparr>obj_offset := ?o,
               indexs := (StructT b s, st_index ?c1) # indexs (h_objs h m)\<rparr>)"
    by (simp add: H upd_obj_def set_cell_def upd_struct_def)
  show ?thesis
    using am [folded H] sl c lw o0
    by (intro exI [of _ H] conjI) (auto simp: between_fields_def width_of_def cell objs)
qed

lemma AddMembers_plain:
  "between_fields (cell h s) \<Longrightarrow> distinct ms \<Longrightarrow>
   (\<And>m. m \<in> set ms \<Longrightarrow> plain_member dl (h_types h) (h_objs h m)) \<Longrightarrow>
   c_end (st_offset (cell h s)) (member_sizes dl h ms) +
     fold (\<lambda>(w, a). max a) (member_sizes dl h ms) (st_align (cell h s)) < 2 ^ 31 \<Longrightarrow>
   \<exists>h'. AddMembers dl s b ms h = Inr h' \<and> between_fields (cell h' s) \<and>
     map (\<lambda>m. obj_offset (h_objs h' m)) ms = c_layout (st_offset (cell h s)) (member_sizes dl h ms) \<and>
     st_offset (cell h' s) = c_end (st_offset (cell h s)) (member_sizes dl h ms) \<and>
     st_align (cell h' s) = fold (\<lambda>(w, a). max a) (member_sizes dl h ms) (st_align (cell h s)) \<and>
     (ms \<noteq> [] \<longrightarrow> st_width (cell h' s) = round_up (st_offset (cell h' s)) (st_align (cell h' s))) \<and>
     st_members (cell h' s) = st_members (cell h s) @ ms \<and>
     (\<forall>m'. m' \<notin> set ms \<longrightarrow> obj_offset (h_objs h' m') = obj_offset (h_objs h m'))"
proof (induction ms arbitrary: h)
  case Nil
  then show ?case by (simp add: member_sizes_def)
next
  case (Cons m ms)
  let ?p = "round_up (st_offset (cell h s)) (obj_align (h_objs h m)) + width_of dl (h_types h) (h_objs h m)"
  let ?al = "max (st_align (cell h s)) (obj_align (h_objs h m))"
  have pos: "w \<ge> 0 \<and> a > 0" if "(w, a) \<in> set (member_sizes dl h ms)" for w a
    using that Cons.prems(3) by (fastforce simp: member_sizes_def plain_member_def width_of_def)
  have bound: "c_end ?p (member_sizes dl h ms) + fold (\<lambda>(w, a). max a) (member_sizes dl h ms) ?al < 2 ^ 31"
    using Cons.prems(4) by (simp add: member_sizes_def max.commute)
  then have "?p + ?al < 2 ^ 31"
    using c_end_ge [of "member_sizes dl h ms" ?p, OF pos] fold_max_ge [of ?al "member_sizes dl h ms"] by linarith
  from AddMember_plain [OF Cons.prems(1), of dl m b] Cons.prems(3) this
  obtain h1 where a: "AddMember dl s b m h = Inr h1" and sl: "same_layout (h_types h1) (h_types h)"
    and bf: "between_fields (cell h1 s)"
    and o1: "obj_offset (h_objs h1 m) = round_up (st_offset (cell h s)) (obj_align (h_objs h m))"
    and o2: "st_offset (cell h1 s) = obj_offset (h_objs h1 m) + width_of dl (h_types h) (h_objs h m)"
    and al: "st_align (cell h1 s) = max (st_align (cell h s)) (obj_align (h_objs h m))"
    and w: "st_width (cell h1 s) = round_up (st_offset (cell h1 s)) (st_align (cell h1 s))"
    and mem: "st_members (cell h1 s) = st_members (cell h s) @ [m]"
    and ot: "\<And>m'. obj_type (h_objs h1 m') = obj_type (h_objs h m') \<and>
      obj_align (h_objs h1 m') = obj_align (h_objs h m') \<and>
      (m' \<noteq> m \<longrightarrow> obj_offset (h_objs h1 m') = obj_offset (h_objs h m'))"
    by auto
  have pl: "plain_member dl (h_types h1) (h_objs h1 m')" if "m' \<in> set ms" for m'
    unfolding same_layout_plain [OF sl]
    using Cons.prems(3) [of m'] that ot [of m'] by (simp add: plain_member_def)
  have ms: "member_sizes dl h1 xs = member_sizes dl h xs" for xs
    using ot by (simp add: member_sizes_def width_of_def same_layout_GetWidth [OF sl])
  from Cons.IH [OF bf _ pl] Cons.prems(2) bound o1 o2 al obtain h' where
    r: "AddMembers dl s b ms h1 = Inr h'" "between_fields (cell h' s)"
    and off: "map (\<lambda>m. obj_offset (h_objs h' m)) ms = c_layout (st_offset (cell h1 s)) (member_sizes dl h ms)"
    and en: "st_offset (cell h' s) = c_end (st_offset (cell h1 s)) (member_sizes dl h ms)"
    and al': "st_align (cell h' s) = fold (\<lambda>(w, a). max a) (member_sizes dl h ms) (st_align (cell h1 s))"
    and w': "ms \<noteq> [] \<longrightarrow> st_width (cell h' s) = round_up (st_offset (cell h' s)) (st_align (cell h' s))"
    and mem': "st_members (cell h' s) = st_members (cell h1 s) @ ms"
    and rest: "\<And>m'. m' \<notin> set ms \<Longrightarrow> obj_offset (h_objs h' m') = obj_offset (h_objs h1 m')"
    unfolding ms by auto
  have "st_width (cell h' s) = round_up (st_offset (cell h' s)) (st_align (cell h' s))"
    using w w' r(1) by (cases ms) auto
  moreover have sz: "member_sizes dl h (m # ms) =
      (width_of dl (h_types h) (h_objs h m), obj_align (h_objs h m)) # member_sizes dl h ms"
    by (simp add: member_sizes_def)
  moreover have "\<forall>m'. m' \<notin> set (m # ms) \<longrightarrow> obj_offset (h_objs h' m') = obj_offset (h_objs h m')"
    using rest ot by auto
  ultimately show ?case
    using a r off en al' mem mem' rest [of m] Cons.prems(2) o1 o2 al
    by (auto simp: Let_def max.commute)
qed

text \<open>What \<open>c_layout\<close> promises: aligned members in order, with less padding than an alignment.\<close>

lemma c_layout_props:
  "(\<And>w a. (w, a) \<in> set ms \<Longrightarrow> w \<ge> 0 \<and> a > 0) \<Longrightarrow> i < length ms \<Longrightarrow>
    c_layout off ms ! i mod snd (ms ! i) = 0 \<and> length (c_layout off ms) = length ms \<and>
    (let start = (if i = 0 then off else c_layout off ms ! (i - 1) + fst (ms ! (i - 1)))
     in start \<le> c_layout off ms ! i \<and> c_layout off ms ! i < start + snd (ms ! i)) \<and>
    c_layout off ms ! i + fst (ms ! i) \<le> c_end off ms"
proof (induction off ms arbitrary: i rule: c_layout.induct)
  case (2 off w a ms)
  have a: "a > 0" "w \<ge> 0" using "2.prems"(1) [of w a] by auto
  have len: "length (c_layout o' ms) = length ms" for o' by (induction o' ms rule: c_layout.induct) (auto simp: Let_def)
  have ge: "o' \<le> c_end o' ms" for o'
    using "2.prems"(1) by (intro c_end_ge) auto
  show ?case
  proof (cases i)
    case 0
    then show ?thesis using a ge round_up_mod [OF a(1)] round_up_ge [OF a(1)] round_up_less [OF a(1)] len
      by (simp add: Let_def)
  next
    case (Suc j)
    with "2.IH" [OF refl, of j] "2.prems" len show ?thesis
      by (cases j) (auto simp: Let_def)
  qed
qed simp

text \<open>
  C13. The layout of a structure: when members that are not bit-fields are added to a structure that
  has just been made, and the end of the layout with one more alignment stays below 2^31 (so that no
  32-bit offset or width overflows), \<open>AddMember\<close> gives them the offsets of the C layout (each one at the first
  multiple of its alignment behind the one before), keeps them in order, and leaves the
  structure with the largest alignment and a width rounded up to it.
\<close>

theorem struct_layout:
  assumes "StructType_Get True name p h0 = (StructT True s, h)" and "ms \<noteq> []" and "distinct ms"
    and "\<forall>m \<in> set ms. plain_member dl (h_types h) (h_objs h m)"
    and "c_end 0 (member_sizes dl h ms) + fold (\<lambda>(w, a). max a) (member_sizes dl h ms) 1 < 2 ^ 31"
  shows "\<exists>h'. AddMembers dl s True ms h = Inr h' \<and> st_members (cell h' s) = ms \<and>
    map (\<lambda>m. obj_offset (h_objs h' m)) ms = c_layout 0 (member_sizes dl h ms) \<and>
    st_align (cell h' s) = fold (\<lambda>(w, a). max a) (member_sizes dl h ms) 1 \<and>
    st_width (cell h' s) = round_up (c_end 0 (member_sizes dl h ms)) (st_align (cell h' s))"
proof -
  obtain sc where c: "cell h s = StructType_init True name sc"
    using assms(1) by (auto simp: StructType_Get_def Let_def split: prod.splits)
  have b: "between_fields (cell h s)" "st_offset (cell h s) = 0" "st_align (cell h s) = 1"
      "st_members (cell h s) = []"
    by (simp_all add: c between_fields_def StructType_init_def)
  from AddMembers_plain [OF b(1) assms(3), of dl True] assms(4,5) [folded b(2,3)] obtain h' where
    "AddMembers dl s True ms h = Inr h'"
    "map (\<lambda>m. obj_offset (h_objs h' m)) ms = c_layout (st_offset (cell h s)) (member_sizes dl h ms)"
    "st_offset (cell h' s) = c_end (st_offset (cell h s)) (member_sizes dl h ms)"
    "st_align (cell h' s) = fold (\<lambda>(w, a). max a) (member_sizes dl h ms) (st_align (cell h s))"
    "ms \<noteq> [] \<longrightarrow> st_width (cell h' s) = round_up (st_offset (cell h' s)) (st_align (cell h' s))"
    "st_members (cell h' s) = st_members (cell h s) @ ms" by blast
  then show ?thesis using assms(2) unfolding b by (intro exI [of _ h']) simp
qed

text \<open>A heap with nothing on it, and one with a \<open>char\<close> and an \<open>int\<close> object.\<close>

definition empty_heap :: heap where
  "empty_heap = \<lparr>h_types = \<lparr>arrays = (\<lambda>_. \<lparr>num_elements = None, arr_complete = False\<rparr>),
       structs = (\<lambda>_. StructType_init True [] 0),
       funcs = (\<lambda>_. \<lparr>func_spec = 0, func_name = [], func_complete = False\<rparr>), next_id = 0\<rparr>,
     h_objs = (\<lambda>_. \<lparr>obj_name = [], obj_type = (VoidT, 0), storage_class_spec = 0,
       obj_linkage = Linkage_kNone, anonymous = False, obj_align = 0, obj_offset = 0,
       bit_field_width = 0, bit_field_begin = 0, indexs = [], obj_func_name = []\<rparr>),
     h_next_obj = 0, h_scopes = file_scopes\<rparr>"

definition two_objects :: heap where
  "two_objects = empty_heap\<lparr>h_objs := (h_objs empty_heap)
     (0 := (h_objs empty_heap 0)\<lparr>obj_name := ''c'', obj_type := (ArithT kChar, 0), obj_align := 1\<rparr>,
      1 := (h_objs empty_heap 1)\<lparr>obj_name := ''i'', obj_type := (ArithT kInt, 0), obj_align := 4\<rparr>)\<rparr>"

theorem struct_layout_witness:
  "\<forall>dl. \<exists>h'. AddMembers dl 0 True [0, 1] (snd (StructType_Get True ''S'' (Some 0) two_objects)) = Inr h' \<and>
     map (\<lambda>m. obj_offset (h_objs h' m)) [0, 1] = [0, 4] \<and> st_width (cell h' 0) = 8"
proof
  fix dl
  obtain h where h: "StructType_Get True ''S'' (Some 0) two_objects = (StructT True 0, h)"
    by (simp add: StructType_Get_def two_objects_def empty_heap_def file_scopes_def Scope_Get_def Let_def)
  then have objs: "h_objs h = h_objs two_objects"
    by (auto simp: StructType_Get_def Let_def split: prod.splits)
  have o01: "obj_type (h_objs h 0) = (ArithT kChar, 0)" "obj_align (h_objs h 0) = 1"
    "obj_type (h_objs h 1) = (ArithT kInt, 0)" "obj_align (h_objs h 1) = 4"
    by (simp_all add: objs two_objects_def empty_heap_def)
  have "\<forall>m \<in> set [0, 1]. plain_member dl (h_types h) (h_objs h m)"
    by (simp add: plain_member_def o01 [simplified] Arithmetic_LLVMType_def Arithmetic_GetWidth_def type_preds has_def)
  moreover have "c_end 0 (member_sizes dl h [0, 1]) + fold (\<lambda>(w, a). max a) (member_sizes dl h [0, 1]) 1 < 2 ^ 31"
    by (simp add: member_sizes_def width_of_def o01 [simplified] Arithmetic_GetWidth_def round_up_def)
  ultimately obtain h' where "AddMembers dl 0 True [0, 1] h = Inr h'"
    "map (\<lambda>m. obj_offset (h_objs h' m)) [0, 1] = c_layout 0 (member_sizes dl h [0, 1])"
    "st_align (cell h' 0) = fold (\<lambda>(w, a). max a) (member_sizes dl h [0, 1]) 1"
    "st_width (cell h' 0) = round_up (c_end 0 (member_sizes dl h [0, 1])) (st_align (cell h' 0))"
    using struct_layout [OF h, of "[0, 1]" dl] by auto
  then show "\<exists>h'. AddMembers dl 0 True [0, 1] (snd (StructType_Get True ''S'' (Some 0) two_objects)) = Inr h' \<and>
     map (\<lambda>m. obj_offset (h_objs h' m)) [0, 1] = [0, 4] \<and> st_width (cell h' 0) = 8"
    by (intro exI [of _ h'])
       (simp add: h member_sizes_def width_of_def o01 [simplified] Arithmetic_GetWidth_def round_up_def)
qed

end
