(* ===== verification/Kcc_BitField.thy ===== *)
theory Kcc_BitField
  imports Kcc_Prelude
begin

unbundle bit_operations_syntax

text \<open>
  How a bit-field is read and written: \<open>GetBitField\<close> and \<open>GetBitFieldValue\<close> of
  \<open>src/llvm_common.cpp\<close> and the sequence \<open>CodeGen::Assign\<close> of \<open>src/code_gen_expr.cpp\<close> emits
  around them. The storage is always accessed as an \<open>i32\<close>, so the values are 32-bit words and
  LLVM's \<open>and\<close>, \<open>or\<close>, \<open>shl\<close>, \<open>lshr\<close> and \<open>ashr\<close> are the word operations. \<open>size\<close> is 8 for a
  bit-field of character type and 32 otherwise; \<open>begin\<close> is the first bit of the field.
\<close>

text \<open>
  The mask of the bits outside the field. For size 8 the source complements a \<open>std::uint8_t\<close>, which
  promotes to \<open>int\<close>: the shift to the right is of the number -1.
\<close>

definition low_one8 :: "nat \<Rightarrow> 8 word" where
  "low_one8 bgn = (if bgn \<noteq> 0 then ucast (signed_drop_bit (8 - bgn) (- 1 :: 32 word)) else 0)"

definition high_one8 :: "nat \<Rightarrow> nat \<Rightarrow> 8 word" where
  "high_one8 wd bgn = (if bgn + wd = 8 then 0 else ucast (push_bit (bgn + wd) (- 1 :: 32 word)))"

definition low_one32 :: "nat \<Rightarrow> 32 word" where
  "low_one32 bgn = (if bgn \<noteq> 0 then drop_bit (32 - bgn) (- 1) else 0)"

definition high_one32 :: "nat \<Rightarrow> nat \<Rightarrow> 32 word" where
  "high_one32 wd bgn = (if bgn + wd = 32 then 0 else push_bit (bgn + wd) (- 1))"

definition GetBitField :: "32 word \<Rightarrow> nat \<Rightarrow> nat \<Rightarrow> nat \<Rightarrow> 32 word result" where
  "GetBitField val sz wd bgn =
     (if sz = 8 then Inr (val AND ucast (low_one8 bgn OR high_one8 wd bgn))
      else if sz = 32 then Inr (val AND (low_one32 bgn OR high_one32 wd bgn))
      else Inl Assert_Fail)"

definition GetBitFieldValue :: "32 word \<Rightarrow> nat \<Rightarrow> nat \<Rightarrow> nat \<Rightarrow> bool \<Rightarrow> 32 word" where
  "GetBitFieldValue val sz wd bgn is_unsigned =
     (let v = push_bit (sz - (bgn + wd)) val
      in if is_unsigned then drop_bit (sz - wd) v else signed_drop_bit (sz - wd) v)"

text \<open>
  The value arrives in the type of the field, an \<open>i8\<close> for size 8, is shifted there and cast to
  \<open>i32\<close>; \<open>uns\<close> is the argument \<open>is_unsigned\<close>.
\<close>

definition shifted_value :: "nat \<Rightarrow> nat \<Rightarrow> bool \<Rightarrow> 32 word \<Rightarrow> 32 word" where
  "shifted_value sz bgn uns rhs =
     (if sz = 8 then let v = push_bit bgn (ucast rhs :: 8 word) in if uns then ucast v else scast v
      else push_bit bgn rhs)"

definition Assign_bit_field :: "32 word \<Rightarrow> nat \<Rightarrow> nat \<Rightarrow> nat \<Rightarrow> bool \<Rightarrow> 32 word \<Rightarrow> 32 word result" where
  "Assign_bit_field old sz wd bgn uns rhs =
     bindE (GetBitField old sz wd bgn) (\<lambda>r. Inr (r OR shifted_value sz bgn uns rhs))"

subsection \<open>Fields of 32-bit storage\<close>

lemma bit_low_one32: "bit (low_one32 b) n \<longleftrightarrow> n < b \<and> n < 32" if "b \<le> 32"
  using that by (auto simp: low_one32_def bit_simps)

lemma bit_high_one32: "bit (high_one32 w b) n \<longleftrightarrow> b + w \<le> n \<and> n < 32" if "b + w \<le> 32"
  using that by (auto simp: high_one32_def bit_simps)

lemma read_unsigned: "w > 0 \<Longrightarrow> b + w \<le> 32 \<Longrightarrow> GetBitFieldValue v 32 w b True = take_bit w (drop_bit b v)"
  by (rule bit_word_eqI) (auto simp: GetBitFieldValue_def Let_def bit_simps ac_simps)

lemma read_signed: "w > 0 \<Longrightarrow> b + w \<le> 32 \<Longrightarrow>
    GetBitFieldValue v 32 w b False = signed_take_bit (w - 1) (drop_bit b v)"
  by (cases w; rule bit_word_eqI)
     (auto simp: GetBitFieldValue_def Let_def bit_simps min_def ac_simps not_le less_Suc_eq_le
        dest: le_antisym)

lemma assign32: "b + w \<le> 32 \<Longrightarrow> Assign_bit_field old 32 w b uns rhs =
    Inr (old AND (low_one32 b OR high_one32 w b) OR push_bit b rhs)"
  by (simp add: Assign_bit_field_def GetBitField_def shifted_value_def)

lemma read_after_assign: "w > 0 \<Longrightarrow> b + w \<le> 32 \<Longrightarrow>
    take_bit w (drop_bit b (old AND (low_one32 b OR high_one32 w b) OR push_bit b rhs)) = take_bit w rhs"
  by (rule bit_word_eqI) (auto simp: bit_simps bit_low_one32 bit_high_one32)

lemma other_after_assign:
  assumes "b + w \<le> 32" and "b' + w' \<le> 32" and "b' + w' \<le> b \<or> b + w \<le> b'" and "take_bit w rhs = rhs"
  shows "take_bit w' (drop_bit b' (old AND (low_one32 b OR high_one32 w b) OR push_bit b rhs)) =
    take_bit w' (drop_bit b' old)"
proof -
  have "bit rhs n \<Longrightarrow> n < w" for n
    using arg_cong [OF assms(4), of "\<lambda>x. bit x n"] by (simp add: bit_simps)
  then show ?thesis
    using assms(1-3)
    by (intro bit_word_eqI) (fastforce simp: bit_simps bit_low_one32 bit_high_one32)
qed

text \<open>
  C14. Bit-fields of \<open>int\<close> and \<open>unsigned\<close> type: after a non-negative value in the range of the field (below
  two to the power of the width when the field is unsigned, of the width less one when it is signed)
  has been assigned to the field at bits \<open>b\<close> to \<open>b + w - 1\<close>, reading the field gives the value back,
  and reading any field that does not overlap gives what it gave before.
\<close>

theorem bit_field_assign_read:
  assumes "0 < w" and "b + w \<le> 32" and "0 < w'" and "b' + w' \<le> 32" and "b' + w' \<le> b \<or> b + w \<le> b'"
    and "uint rhs < 2 ^ (if is_unsigned then w else w - 1)"
  shows "\<exists>r. Assign_bit_field old 32 w b uns rhs = Inr r \<and> GetBitFieldValue r 32 w b is_unsigned = rhs \<and>
    GetBitFieldValue r 32 w' b' u = GetBitFieldValue old 32 w' b' u"
proof -
  let ?r = "old AND (low_one32 b OR high_one32 w b) OR push_bit b rhs"
  define k where "k = (if is_unsigned then w else w - 1)"
  have "uint (take_bit k rhs) = uint rhs"
    using assms(6) by (simp add: k_def [symmetric] unsigned_take_bit_eq take_bit_int_eq_self)
  then have k: "take_bit k rhs = rhs" by (simp only: word_uint_eq_iff)
  have bits: "bit rhs n \<Longrightarrow> n < (if is_unsigned then w else w - 1)" for n
    using arg_cong [OF k, of "\<lambda>x. bit x n"] by (simp add: bit_simps k_def)
  have "bit rhs n \<Longrightarrow> n < w" for n using bits [of n] by (auto split: if_splits)
  then have fit: "take_bit w rhs = rhs" by (intro bit_word_eqI) (auto simp: bit_simps)
  have own: "take_bit w (drop_bit b ?r) = rhs"
    using read_after_assign [OF assms(1,2)] fit by simp
  have sgn: "signed_take_bit (n - 1) x = signed_take_bit (n - 1) (take_bit n x)" if "0 < n" for n and x :: "32 word"
    using that by (cases n) (simp_all add: signed_take_bit_take_bit)
  have pos: "signed_take_bit (w - 1) rhs = rhs" if "\<not> is_unsigned"
  proof -
    have low: "bit rhs n \<Longrightarrow> n < w - 1" for n using bits [of n] that by simp
    then have "\<not> bit rhs (w - 1)" by blast
    then show ?thesis by (intro bit_word_eqI) (auto simp: bit_simps min_def dest: low)
  qed
  have oth: "take_bit w' (drop_bit b' ?r) = take_bit w' (drop_bit b' old)"
    by (rule other_after_assign [OF assms(2,4,5) fit])
  have "GetBitFieldValue ?r 32 w b is_unsigned = rhs"
    using assms(1,2) own pos sgn [OF assms(1), of "drop_bit b ?r"]
    by (cases is_unsigned) (simp_all add: read_unsigned read_signed)
  moreover have "GetBitFieldValue ?r 32 w' b' u = GetBitFieldValue old 32 w' b' u"
    using assms(3,4) oth sgn [OF assms(3), of "drop_bit b' ?r"] sgn [OF assms(3), of "drop_bit b' old"]
    by (cases u) (simp_all add: read_unsigned read_signed)
  ultimately show ?thesis by (simp add: assign32 [OF assms(2)])
qed

theorem bit_field_assign_read_witness:
  "\<exists>r. Assign_bit_field 0xFF 32 4 2 False 5 = Inr r \<and> GetBitFieldValue r 32 4 2 False = 5 \<and>
     GetBitFieldValue r 32 2 0 True = GetBitFieldValue 0xFF 32 2 0 True"
  using bit_field_assign_read [of 4 2 2 0 5 False "0xFF" False True] by simp

text \<open>
  C28. A value that does not fit is not cut to the width of the field: its higher bits end up in the
  bit-field next to it, for every field and every neighbour.
\<close>

theorem bit_field_assign_spills:
  assumes "0 < w" and "0 < w'" and "b + w + w' \<le> 32"
  shows "\<exists>r. Assign_bit_field 0 32 w b uns rhs = Inr r \<and>
    GetBitFieldValue r 32 w' (b + w) True = take_bit w' (drop_bit w rhs)"
proof -
  have "take_bit w' (drop_bit (b + w) (push_bit b rhs)) = take_bit w' (drop_bit w rhs)"
    using assms by (intro bit_word_eqI) (auto simp: bit_simps ac_simps)
  then show ?thesis using assms by (simp add: assign32 read_unsigned)
qed

theorem bit_field_assign_spills_witness:
  "\<exists>r. Assign_bit_field 0 32 3 0 True 9 = Inr r \<and> GetBitFieldValue r 32 4 3 True = 1"
  using bit_field_assign_spills [of 3 4 0 True 9] by (simp add: take_bit_eq_mod drop_bit_eq_div)

lemma low_one8_all: "0 < b \<Longrightarrow> low_one8 b = - 1"
  by (rule bit_word_eqI) (auto simp: low_one8_def bit_simps)

text \<open>
  C29. Bit-fields of character type: the complement of the 8-bit zero is the \<open>int\<close> -1, so the mask
  has all low bits set as soon as the field does not begin at bit 0. The old bits of the field
  stay, and an assignment only adds bits to them.
\<close>

theorem char_bit_field_not_cleared:
  assumes "0 < b"
  shows "Assign_bit_field old 8 w b uns rhs = Inr (take_bit 8 old OR shifted_value 8 b uns rhs)"
proof -
  have "old AND ucast (low_one8 b OR high_one8 w b) = take_bit 8 old"
    by (rule bit_word_eqI) (auto simp: low_one8_all [OF assms] bit_simps)
  then show ?thesis by (simp add: Assign_bit_field_def GetBitField_def)
qed

theorem char_bit_field_not_cleared_witness:
  "Assign_bit_field 0x1C 8 3 2 True 0 = Inr 0x1C"
  using char_bit_field_not_cleared [of 2 "0x1C" 3 True 0] by (simp add: take_bit_eq_mod shifted_value_def)

end
