(* ===== verification/Kcc_Ast.thy ===== *)
theory Kcc_Ast
  imports Kcc_TypeProps Kcc_Layout Kcc_Token
begin

text \<open>
  The syntax tree: the expression and statement classes of \<open>src/ast.h\<close> and \<open>src/ast.cpp\<close> with the
  semantic checks their \<open>Check\<close> functions perform.

  A node is a value of \<open>expr\<close> or \<open>stmt\<close>; \<open>MakeAstNode\<close>, which constructs a node and checks it, is
  one function \<open>mk_...\<close> per class that returns the checked node or the error. Identifiers,
  enumerators and objects are the values of \<open>ident\<close> (\<open>Kcc_Scope\<close>); an object's type is that of
  its record on the heap. The value of an integer constant is kept as the bits of its
  \<open>llvm::APInt\<close>, a number below two to the power of its width; a floating constant is its
  spelling. Locations serve diagnostics only and are not part of a node.
\<close>

datatype expr =
    EUnary tag expr qtype
  | ECast expr qtype
  | EBinary tag expr expr qtype
  | ECond expr expr expr qtype
  | ECall expr "expr list" "ctype option" qtype
  | EInt qtype int
  | EFloat qtype string
  | EString qtype string
  | EIdent ident
  | EStmt "stmt list" qtype
and stmt =
    SLabel string stmt
  | SCase int "int option" stmt
  | SDefault stmt
  | SCompound "stmt list"
  | SExpr "expr option"
  | SIf expr stmt "stmt option"
  | SSwitch expr stmt
  | SWhile expr stmt
  | SDoWhile expr stmt
  | SFor "expr option" "expr option" "expr option" stmt "stmt option"
  | SGoto string
  | SContinue
  | SBreak
  | SReturn "expr option"
  | SDecl nat

subsection \<open>Expressions\<close>

fun ident_type :: "heap \<Rightarrow> ident \<Rightarrow> qtype" where
  "ident_type h (Ident _ q _ _) = q"
| "ident_type h (Enumerator _ _) = (ArithT kInt, 0)"
| "ident_type h (Object _ n) = obj_type (h_objs h n)"

fun GetQualType :: "heap \<Rightarrow> expr \<Rightarrow> qtype" where
  "GetQualType h (EUnary _ _ q) = q"
| "GetQualType h (ECast _ q) = q"
| "GetQualType h (EBinary _ _ _ q) = q"
| "GetQualType h (ECond _ _ _ q) = q"
| "GetQualType h (ECall _ _ _ q) = q"
| "GetQualType h (EInt q _) = q"
| "GetQualType h (EFloat q _) = q"
| "GetQualType h (EString q _) = q"
| "GetQualType h (EIdent i) = ident_type h i"
| "GetQualType h (EStmt _ q) = q"

abbreviation GetType :: "heap \<Rightarrow> expr \<Rightarrow> ctype" where
  "GetType h e \<equiv> fst (GetQualType h e)"

definition Expr_IsConst :: "heap \<Rightarrow> expr \<Rightarrow> bool" where
  "Expr_IsConst h e = QualType_IsConst (GetQualType h e)"

fun IsLValue :: "expr \<Rightarrow> bool" where
  "IsLValue (EUnary op _ _) = (op = Tag_kStar)"
| "IsLValue (EBinary op l _ _) = (if op = Tag_kPeriod then IsLValue l else False)"
| "IsLValue (EIdent i) = ident_IsObject i"
| "IsLValue _ = False"

definition EnsureCompatible :: "heap \<Rightarrow> ctype \<Rightarrow> ctype \<Rightarrow> unit result" where
  "EnsureCompatible h l r = (if \<not> Compatible (h_types h) l r then Inl (Diag ''incompatible types'') else Inr ())"

text \<open>\<open>TypeCastExpr\<close>: made and checked.\<close>

definition mk_cast :: "heap \<Rightarrow> expr \<Rightarrow> qtype \<Rightarrow> expr result" where
  "mk_cast h e to =
     (if IsFloatPointTy (fst to) \<and> IsPointerTy (GetType h e)
      then Inl (Diag ''cannot cast a pointer to float point'')
      else if IsPointerTy (fst to) \<and> IsFloatPointTy (GetType h e)
      then Inl (Diag ''cannot cast a float point to pointer'')
      else Inr (ECast e to))"

text \<open>
  \<open>Type::MayCast\<close> returns the same type object unless the type is a function or an array, and a
  new pointer type then, so that the comparison of the two type objects asks just that.
\<close>

definition Expr_MayCast :: "heap \<Rightarrow> expr \<Rightarrow> expr result" where
  "Expr_MayCast h e = (if IsFunctionTy (GetType h e) \<or> IsArrayTy (GetType h e)
     then mk_cast h e (Type_MayCast (GetQualType h e)) else Inr e)"

definition Expr_MayCastTo :: "heap \<Rightarrow> expr \<Rightarrow> qtype \<Rightarrow> expr result" where
  "Expr_MayCastTo h e0 to = bindE (Expr_MayCast h e0) (\<lambda>e.
     if \<not> Equal (h_types h) (GetType h e) (fst to) then mk_cast h e to else Inr e)"

definition EnsureCompatibleConvertVoidPtr :: "heap \<Rightarrow> expr \<Rightarrow> expr \<Rightarrow> (expr \<times> expr) result" where
  "EnsureCompatibleConvertVoidPtr h l r =
     bindE (PointerGetElementType (GetType h l)) (\<lambda>le.
     bindE (if IsVoidTy (fst le)
            then bindE (Expr_MayCastTo h l (GetQualType h r)) (\<lambda>l'. Inr (l', r))
            else bindE (PointerGetElementType (GetType h r)) (\<lambda>re.
              if IsVoidTy (fst re)
              then bindE (Expr_MayCastTo h r (GetQualType h l)) (\<lambda>r'. Inr (l, r'))
              else Inr (l, r))) (\<lambda>(l', r').
     bindE (EnsureCompatible h (GetType h l') (GetType h r')) (\<lambda>_. Inr (l', r'))))"

definition Expr_Convert :: "heap \<Rightarrow> expr \<Rightarrow> expr \<Rightarrow> (ctype \<times> expr \<times> expr) result" where
  "Expr_Convert h l r = bindE (MaxType (GetType h l) (GetType h r)) (\<lambda>t.
     bindE (Expr_MayCastTo h l (t, 0)) (\<lambda>l'.
     bindE (Expr_MayCastTo h r (t, 0)) (\<lambda>r'. Inr (t, l', r'))))"

fun IsZero :: "expr \<Rightarrow> bool" where
  "IsZero (EInt q v) = (IsIntegerTy (fst q) \<and> v = 0)"
| "IsZero _ = False"

subsection \<open>Unary operators\<close>

definition IncDecOpCheck :: "heap \<Rightarrow> tag \<Rightarrow> expr \<Rightarrow> expr result" where
  "IncDecOpCheck h op e =
     (if Expr_IsConst h e then Inl (Diag ''cannot assign to something with const-qualified type'')
      else if \<not> IsLValue e then Inl (Diag ''lvalue expression expected'')
      else if IsRealTy (GetType h e) \<or> IsPointerTy (GetType h e) then Inr (EUnary op e (GetQualType h e))
      else Inl (Diag ''expect operand of real or pointer type''))"

definition UnaryAddSubOpCheck :: "heap \<Rightarrow> tag \<Rightarrow> expr \<Rightarrow> expr result" where
  "UnaryAddSubOpCheck h op e =
     (if \<not> IsArithmeticTy (GetType h e) then Inl (Diag ''expect operand of arithmetic type'')
      else bindE (if IsIntegerOrBoolTy (GetType h e)
                  then bindE (IntegerPromote (GetType h e)) (\<lambda>t. Expr_MayCastTo h e (t, 0))
                  else Inr e) (\<lambda>e'. Inr (EUnary op e' (GetQualType h e'))))"

definition NotOpCheck :: "heap \<Rightarrow> tag \<Rightarrow> expr \<Rightarrow> expr result" where
  "NotOpCheck h op e =
     (if \<not> IsIntegerTy (GetType h e) then Inl (Diag ''expect operand of arithmetic type'')
      else bindE (IntegerPromote (GetType h e)) (\<lambda>t.
           bindE (Expr_MayCastTo h e (t, 0)) (\<lambda>e'. Inr (EUnary op e' (GetQualType h e')))))"

definition LogicNotOpCheck :: "heap \<Rightarrow> tag \<Rightarrow> expr \<Rightarrow> expr result" where
  "LogicNotOpCheck h op e =
     (if \<not> IsScalarTy (GetType h e) then Inl (Diag ''expect operand of scalar type'')
      else bindE (ArithmeticType_Get kInt) (\<lambda>t. Inr (EUnary op e (t, 0))))"

definition DerefOpCheck :: "heap \<Rightarrow> tag \<Rightarrow> expr \<Rightarrow> expr result" where
  "DerefOpCheck h op e =
     (if \<not> IsPointerTy (GetType h e) then Inl (Diag ''expect operand of pointer type'')
      else bindE (PointerGetElementType (GetType h e)) (\<lambda>q. Inr (EUnary op e q)))"

definition AddrOpCheck :: "heap \<Rightarrow> tag \<Rightarrow> expr \<Rightarrow> expr result" where
  "AddrOpCheck h op e =
     (if \<not> IsFunctionTy (GetType h e) \<and> \<not> IsLValue e
      then Inl (Diag ''expression must be an lvalue or function'')
      else Inr (EUnary op e (PointerType_Get (GetQualType h e), 0)))"

definition UnaryOp_Check :: "heap \<Rightarrow> tag \<Rightarrow> expr \<Rightarrow> expr result" where
  "UnaryOp_Check h op e =
     (if op \<in> {Tag_kPlusPlus, Tag_kMinusMinus, Tag_kPostfixPlusPlus, Tag_kPostfixMinusMinus}
      then IncDecOpCheck h op e
      else if op \<in> {Tag_kPlus, Tag_kMinus} then UnaryAddSubOpCheck h op e
      else if op = Tag_kTilde then NotOpCheck h op e
      else if op = Tag_kExclaim then LogicNotOpCheck h op e
      else if op = Tag_kStar then DerefOpCheck h op e
      else if op = Tag_kAmp then AddrOpCheck h op e
      else Inl Assert_Fail)"

definition mk_unary :: "heap \<Rightarrow> tag \<Rightarrow> expr \<Rightarrow> expr result" where
  "mk_unary h op e = bindE (if op = Tag_kAmp then Inr e else Expr_MayCast h e) (UnaryOp_Check h op)"

subsection \<open>Binary operators\<close>

definition AssignOpCheck :: "heap \<Rightarrow> tag \<Rightarrow> expr \<Rightarrow> expr \<Rightarrow> expr result" where
  "AssignOpCheck h op l r =
     (let lt = GetQualType h l; rt = GetQualType h r in
      if Expr_IsConst h l then Inl (Diag ''cannot assign to something with const-qualified type'')
      else if \<not> IsLValue l then Inl (Diag ''lvalue expression expected'')
      else if IsPointerTy (fst lt) \<and> IsIntegerTy (fst rt) \<and> \<not> IsZero r
      then Inl (Diag ''must be pointer and zero'')
      else bindE (Expr_MayCastTo h r lt) (\<lambda>r'. Inr (EBinary op l r' lt)))"

definition to_ulong :: "heap \<Rightarrow> expr \<Rightarrow> expr result" where
  "to_ulong h e = bindE (ArithmeticType_Get (kLong OR kUnsigned)) (\<lambda>t. Expr_MayCastTo h e (t, 0))"

definition AddOpCheck :: "heap \<Rightarrow> tag \<Rightarrow> expr \<Rightarrow> expr \<Rightarrow> expr result" where
  "AddOpCheck h op l r =
     (let lt = GetQualType h l; rt = GetQualType h r in
      if IsArithmeticTy (fst lt) \<and> IsArithmeticTy (fst rt)
      then bindE (Expr_Convert h l r) (\<lambda>(t, l', r'). Inr (EBinary op l' r' (t, 0)))
      else if IsIntegerTy (fst lt) \<and> IsPointerTy (fst rt)
      then bindE (to_ulong h l) (\<lambda>l'. Inr (EBinary op r l' rt))
      else if IsPointerTy (fst lt) \<and> IsIntegerTy (fst rt)
      then bindE (to_ulong h r) (\<lambda>r'. Inr (EBinary op l r' lt))
      else Inl (Diag ''the operand should be integer or pointer type''))"

definition SubOpCheck :: "heap \<Rightarrow> tag \<Rightarrow> expr \<Rightarrow> expr \<Rightarrow> expr result" where
  "SubOpCheck h op l r =
     (let lt = GetQualType h l; rt = GetQualType h r in
      if IsArithmeticTy (fst lt) \<and> IsArithmeticTy (fst rt)
      then bindE (Expr_Convert h l r) (\<lambda>(t, l', r'). Inr (EBinary op l' r' (t, 0)))
      else if IsPointerTy (fst lt) \<and> IsIntegerTy (fst rt)
      then bindE (to_ulong h r) (\<lambda>r'. Inr (EBinary op l r' lt))
      else if IsPointerTy (fst lt) \<and> IsPointerTy (fst rt)
      then bindE (EnsureCompatible h (fst lt) (fst rt)) (\<lambda>_.
           bindE (ArithmeticType_Get kLong) (\<lambda>t. Inr (EBinary op l r (t, 0))))
      else Inl (Diag ''the operand should be integer or pointer type''))"

definition MultiOpCheck :: "heap \<Rightarrow> tag \<Rightarrow> expr \<Rightarrow> expr \<Rightarrow> expr result" where
  "MultiOpCheck h op l r =
     (let lt = GetType h l; rt = GetType h r in
      if op = Tag_kPercent \<and> (\<not> IsIntegerTy lt \<or> \<not> IsIntegerTy rt)
      then Inl (Diag ''the operand should be integer type'')
      else if op \<noteq> Tag_kPercent \<and> (\<not> IsArithmeticTy lt \<or> \<not> IsArithmeticTy rt)
      then Inl (Diag ''the operand should be arithmetic type'')
      else bindE (Expr_Convert h l r) (\<lambda>(t, l', r'). Inr (EBinary op l' r' (t, 0))))"

definition BitwiseOpCheck :: "heap \<Rightarrow> tag \<Rightarrow> expr \<Rightarrow> expr \<Rightarrow> expr result" where
  "BitwiseOpCheck h op l r =
     (if \<not> IsIntegerOrBoolTy (GetType h l) \<or> \<not> IsIntegerOrBoolTy (GetType h r)
      then Inl (Diag ''the operand should be Integer or bool type'')
      else bindE (Expr_Convert h l r) (\<lambda>(t, l', r'). Inr (EBinary op l' r' (t, 0))))"

definition ShiftOpCheck :: "heap \<Rightarrow> tag \<Rightarrow> expr \<Rightarrow> expr \<Rightarrow> expr result" where
  "ShiftOpCheck h op l r =
     (if \<not> IsIntegerOrBoolTy (GetType h l) \<or> \<not> IsIntegerOrBoolTy (GetType h r)
      then Inl (Diag ''the operand should be Integer or bool type'')
      else bindE (IntegerPromote (GetType h l)) (\<lambda>t.
           bindE (Expr_MayCastTo h l (t, 0)) (\<lambda>l'.
           bindE (Expr_MayCastTo h r (GetType h l', 0)) (\<lambda>r'.
             Inr (EBinary op l' r' (GetQualType h l'))))))"

definition LogicalOpCheck :: "heap \<Rightarrow> tag \<Rightarrow> expr \<Rightarrow> expr \<Rightarrow> expr result" where
  "LogicalOpCheck h op l r =
     (if \<not> IsScalarTy (GetType h l) \<or> \<not> IsScalarTy (GetType h r)
      then Inl (Diag ''the operand should be scalar type'')
      else bindE (ArithmeticType_Get kInt) (\<lambda>t. Inr (EBinary op l r (t, 0))))"

definition EqualityOpCheck :: "heap \<Rightarrow> tag \<Rightarrow> expr \<Rightarrow> expr \<Rightarrow> expr result" where
  "EqualityOpCheck h op l r =
     (let lt = GetType h l; rt = GetType h r in
      bindE
      (if IsPointerTy lt \<and> IsPointerTy rt then EnsureCompatibleConvertVoidPtr h l r
       else if IsArithmeticTy lt \<and> IsArithmeticTy rt
       then bindE (Expr_Convert h l r) (\<lambda>(_, l', r'). Inr (l', r'))
       else if IsPointerTy lt \<and> IsIntegerTy rt then
         (if \<not> IsZero r then Inl (Diag ''must be pointer and zero'')
          else bindE (Expr_MayCastTo h r (lt, 0)) (\<lambda>r'. Inr (l, r')))
       else if IsIntegerTy lt \<and> IsPointerTy rt then
         (if \<not> IsZero l then Inl (Diag ''must be pointer and zero'')
          else bindE (Expr_MayCastTo h l (rt, 0)) (\<lambda>l'. Inr (r, l')))
       else Inl (Diag ''the operand should be pointer or arithmetic type''))
      (\<lambda>(l', r'). bindE (ArithmeticType_Get kInt) (\<lambda>t. Inr (EBinary op l' r' (t, 0)))))"

definition RelationalOpCheck :: "heap \<Rightarrow> tag \<Rightarrow> expr \<Rightarrow> expr \<Rightarrow> expr result" where
  "RelationalOpCheck h op l r =
     (let lt = GetType h l; rt = GetType h r in
      bindE
      (if IsPointerTy lt \<and> IsPointerTy rt then EnsureCompatibleConvertVoidPtr h l r
       else if IsRealTy lt \<and> IsRealTy rt
       then bindE (Expr_Convert h l r) (\<lambda>(_, l', r'). Inr (l', r'))
       else Inl (Diag ''the operand should be pointer or real type''))
      (\<lambda>(l', r'). bindE (ArithmeticType_Get kInt) (\<lambda>t. Inr (EBinary op l' r' (t, 0)))))"

definition MemberRefOpCheck :: "heap \<Rightarrow> tag \<Rightarrow> expr \<Rightarrow> expr \<Rightarrow> expr result" where
  "MemberRefOpCheck h op l r = Inr (EBinary op l r (GetQualType h r))"

definition CommaOpCheck :: "heap \<Rightarrow> tag \<Rightarrow> expr \<Rightarrow> expr \<Rightarrow> expr result" where
  "CommaOpCheck h op l r = Inr (EBinary op l r (GetQualType h r))"

definition BinaryOp_Check :: "heap \<Rightarrow> tag \<Rightarrow> expr \<Rightarrow> expr \<Rightarrow> expr result" where
  "BinaryOp_Check h op l r =
     (if op = Tag_kEqual then AssignOpCheck h op l r
      else if op = Tag_kPlus then AddOpCheck h op l r
      else if op = Tag_kMinus then SubOpCheck h op l r
      else if op \<in> {Tag_kStar, Tag_kPercent, Tag_kSlash} then MultiOpCheck h op l r
      else if op \<in> {Tag_kAmp, Tag_kPipe, Tag_kCaret} then BitwiseOpCheck h op l r
      else if op \<in> {Tag_kLessLess, Tag_kGreaterGreater} then ShiftOpCheck h op l r
      else if op \<in> {Tag_kAmpAmp, Tag_kPipePipe} then LogicalOpCheck h op l r
      else if op \<in> {Tag_kExclaimEqual, Tag_kEqualEqual} then EqualityOpCheck h op l r
      else if op \<in> {Tag_kLess, Tag_kLessEqual, Tag_kGreater, Tag_kGreaterEqual} then RelationalOpCheck h op l r
      else if op = Tag_kPeriod then MemberRefOpCheck h op l r
      else if op = Tag_kComma then CommaOpCheck h op l r
      else Inl Assert_Fail)"

definition mk_binary :: "heap \<Rightarrow> tag \<Rightarrow> expr \<Rightarrow> expr \<Rightarrow> expr result" where
  "mk_binary h op l0 r0 =
     bindE (if op \<noteq> Tag_kPeriod then bindE (Expr_MayCast h l0) (\<lambda>l. bindE (Expr_MayCast h r0) (\<lambda>r. Inr (l, r)))
            else Inr (l0, r0)) (\<lambda>(l, r). BinaryOp_Check h op l r)"

subsection \<open>The conditional operator and calls\<close>

definition ConditionOp_Check :: "heap \<Rightarrow> expr \<Rightarrow> expr \<Rightarrow> expr \<Rightarrow> expr result" where
  "ConditionOp_Check h c l r =
     (let lt = GetQualType h l; rt = GetQualType h r in
      if \<not> IsScalarTy (GetType h c) then Inl (Diag ''value is not contextually convertible to bool'')
      else if IsArithmeticTy (fst lt) \<and> IsArithmeticTy (fst rt)
      then bindE (Expr_Convert h l r) (\<lambda>(t, l', r'). Inr (ECond c l' r' (t, 0)))
      else if IsStructOrUnionTy (fst lt) \<and> IsStructOrUnionTy (fst rt)
      then if \<not> Equal (h_types h) (fst lt) (fst rt) then Inl (Diag ''Must have the same struct or union type'')
           else Inr (ECond c l r lt)
      else if IsPointerTy (fst lt) \<and> IsPointerTy (fst rt)
      then bindE (PointerGetElementType (fst lt)) (\<lambda>le.
           if IsVoidTy (fst le)
           then bindE (Expr_MayCastTo h l rt) (\<lambda>l'. Inr (ECond c l' r (GetType h l', 0)))
           else bindE (PointerGetElementType (fst rt)) (\<lambda>re.
             if IsVoidTy (fst re)
             then bindE (Expr_MayCastTo h r lt) (\<lambda>r'. Inr (ECond c l r' (GetType h l, 0)))
             else Inr (ECond c l r (GetType h l, 0))))
      else if IsVoidTy (fst lt) \<and> IsVoidTy (fst rt) then Inr (ECond c l r (VoidT, 0))
      else if IsPointerTy (fst lt) \<and> IsIntegerTy (fst rt)
      then if \<not> IsZero r then Inl (Diag ''must be pointer and zero'')
           else bindE (Expr_MayCastTo h r lt) (\<lambda>r'. Inr (ECond c l r' lt))
      else if IsIntegerTy (fst lt) \<and> IsPointerTy (fst rt)
      then if \<not> IsZero l then Inl (Diag ''must be pointer and zero'')
           else bindE (Expr_MayCastTo h l rt) (\<lambda>l'. Inr (ECond c l' r rt))
      else Inl (Diag ''Type not allowed''))"

definition mk_cond :: "heap \<Rightarrow> expr \<Rightarrow> expr \<Rightarrow> expr \<Rightarrow> expr result" where
  "mk_cond h c0 l0 r0 = bindE (Expr_MayCast h c0) (\<lambda>c. bindE (Expr_MayCast h l0) (\<lambda>l.
     bindE (Expr_MayCast h r0) (\<lambda>r. ConditionOp_Check h c l r)))"

text \<open>The arguments that have a parameter; the rest is returned as it is.\<close>

fun call_params :: "heap \<Rightarrow> (nat \<times> ctype) list \<Rightarrow> expr list \<Rightarrow> (expr list \<times> expr list) result" where
  "call_params h [] args = Inr ([], args)"
| "call_params h (p # ps) [] = Inl (Diag ''too few arguments for function call'')"
| "call_params h (p # ps) (a # args) = bindE (Expr_MayCastTo h a (snd p, 0)) (\<lambda>a'.
     bindE (call_params h ps args) (\<lambda>(as, rest). Inr (a' # as, rest)))"

text \<open>The default argument promotions.\<close>

definition promote_arg :: "heap \<Rightarrow> expr \<Rightarrow> expr result" where
  "promote_arg h a =
     (if IsFloatTy (GetType h a)
      then bindE (ArithmeticType_Get kDouble) (\<lambda>t. Expr_MayCastTo h a (t, snd (GetQualType h a)))
      else if IsIntegerTy (GetType h a)
      then bindE (IntegerPromote (GetType h a)) (\<lambda>t. Expr_MayCastTo h a (t, snd (GetQualType h a)))
      else Inr a)"

fun promote_args :: "heap \<Rightarrow> expr list \<Rightarrow> expr list result" where
  "promote_args h [] = Inr []"
| "promote_args h (a # args) = bindE (promote_arg h a) (\<lambda>a'. bindE (promote_args h args) (\<lambda>as. Inr (a' # as)))"

definition mk_call :: "heap \<Rightarrow> expr \<Rightarrow> expr list \<Rightarrow> expr result" where
  "mk_call h callee0 args =
     bindE (if IsPointerTy (GetType h callee0) then mk_unary h Tag_kStar callee0 else Inr callee0) (\<lambda>callee.
     if \<not> IsFunctionTy (GetType h callee)
     then Inl (Diag ''called object is not a function or function pointer'')
     else bindE (FuncGetParams (GetType h callee)) (\<lambda>params.
          bindE (call_params h params args) (\<lambda>(as, rest).
          bindE (FuncIsVarArgs (GetType h callee)) (\<lambda>va.
          if rest \<noteq> [] \<and> \<not> va then Inl (Diag ''too many arguments for function call'')
          else bindE (promote_args h rest) (\<lambda>rest'.
               bindE (FuncGetReturnType (GetType h callee)) (\<lambda>q.
                 Inr (ECall callee (as @ rest') None q)))))))"

subsection \<open>Constants and statement expressions\<close>

text \<open>The bit width of an integer type in LLVM; other types fail LLVM's own assertion.\<close>

definition integer_bits :: "heap \<Rightarrow> ctype \<Rightarrow> nat result" where
  "integer_bits h t = bindE (GetLLVMType (h_types h) t) (\<lambda>l. case l of LInt n \<Rightarrow> Inr n | _ \<Rightarrow> Inl Assert_Fail)"

definition mk_int :: "heap \<Rightarrow> ctype \<Rightarrow> 64 word \<Rightarrow> expr result" where
  "mk_int h t v = bindE (integer_bits h t) (\<lambda>n. Inr (EInt (t, 0) (take_bit n (uint v))))"

definition mk_int32 :: "int \<Rightarrow> expr" where
  "mk_int32 v = EInt (ArithT kInt, 0) (take_bit 32 v)"

definition mk_string :: "data_layout \<Rightarrow> ctype \<Rightarrow> string \<Rightarrow> heap \<Rightarrow> (expr \<times> heap) result" where
  "mk_string dl t str h = bindE (GetWidth dl (h_types h) t) (\<lambda>w.
     if w = 0 then Inl (Uncaught ''division by zero'')
     else let (a, ts) = ArrayType_Get (t, 0) (Some (int (length str) div w + 1)) (h_types h)
          in Inr (EString (a, 0) str, h\<lparr>h_types := ts\<rparr>))"

definition mk_stmt_expr :: "heap \<Rightarrow> stmt list \<Rightarrow> expr" where
  "mk_stmt_expr h stmts =
     (if stmts \<noteq> [] then (case last stmts of
          SExpr (Some e) \<Rightarrow> EStmt stmts (GetQualType h e)
        | _ \<Rightarrow> EStmt stmts (VoidT, 0))
      else EStmt stmts (VoidT, 0))"

subsection \<open>Statements\<close>

definition check_scalar :: "heap \<Rightarrow> expr \<Rightarrow> unit result" where
  "check_scalar h c = (if \<not> IsScalarTy (GetType h c) then Inl (Diag ''expect scalar type'') else Inr ())"

definition mk_if :: "heap \<Rightarrow> expr \<Rightarrow> stmt \<Rightarrow> stmt option \<Rightarrow> stmt result" where
  "mk_if h c0 t e = bindE (Expr_MayCast h c0) (\<lambda>c. bindE (check_scalar h c) (\<lambda>_. Inr (SIf c t e)))"

definition mk_switch :: "heap \<Rightarrow> expr \<Rightarrow> stmt \<Rightarrow> stmt result" where
  "mk_switch h c s =
     (if \<not> IsIntegerTy (GetType h c) then Inl (Diag ''switch quantity not an integer'')
      else bindE (ArithmeticType_Get kLong) (\<lambda>t. bindE (Expr_MayCastTo h c (t, 0)) (\<lambda>c'. Inr (SSwitch c' s))))"

definition mk_while :: "heap \<Rightarrow> expr \<Rightarrow> stmt \<Rightarrow> stmt result" where
  "mk_while h c0 s = bindE (Expr_MayCast h c0) (\<lambda>c. bindE (check_scalar h c) (\<lambda>_. Inr (SWhile c s)))"

definition mk_do_while :: "heap \<Rightarrow> expr \<Rightarrow> stmt \<Rightarrow> stmt result" where
  "mk_do_while h c0 s = bindE (Expr_MayCast h c0) (\<lambda>c. bindE (check_scalar h c) (\<lambda>_. Inr (SDoWhile c s)))"

definition mk_for :: "heap \<Rightarrow> expr option \<Rightarrow> expr option \<Rightarrow> expr option \<Rightarrow> stmt \<Rightarrow> stmt option \<Rightarrow> stmt result" where
  "mk_for h i c inc s d =
     bindE (case c of None \<Rightarrow> Inr () | Some e \<Rightarrow> check_scalar h e) (\<lambda>_. Inr (SFor i c inc s d))"

fun Children :: "stmt \<Rightarrow> stmt option list" where
  "Children (SLabel _ s) = [Some s]"
| "Children (SCase _ _ s) = [Some s]"
| "Children (SDefault s) = [Some s]"
| "Children (SCompound ss) = map Some ss"
| "Children (SIf _ t e) = [Some t, e]"
| "Children (SSwitch _ s) = [Some s]"
| "Children (SWhile _ s) = [Some s]"
| "Children (SDoWhile _ s) = [Some s]"
| "Children (SFor _ _ _ s _) = [Some s]"
| "Children _ = []"

definition AddStmt :: "stmt option \<Rightarrow> stmt list \<Rightarrow> stmt list" where
  "AddStmt s ss = (case s of None \<Rightarrow> ss | Some s \<Rightarrow> ss @ [s])"

end
