(* ===== verification/Kcc_AstProps.thy ===== *)
theory Kcc_AstProps
  imports Kcc_Ast
begin

text \<open>
  What the checks of the syntax tree establish: every tree that is built with them is well typed,
  in the sense the code generator relies on.
\<close>

subsection \<open>Conversions\<close>

text \<open>No conversion leads from a pointer to a floating type or back.\<close>

definition cast_typed :: "heap \<Rightarrow> expr \<Rightarrow> qtype \<Rightarrow> bool" where
  "cast_typed h e q \<longleftrightarrow> \<not> (IsFloatPointTy (fst q) \<and> IsPointerTy (GetType h e)) \<and>
     \<not> (IsPointerTy (fst q) \<and> IsFloatPointTy (GetType h e))"

lemma mk_cast_typed: "mk_cast h e to = Inr e' \<Longrightarrow> e' = ECast e to \<and> cast_typed h e to"
  by (auto simp: mk_cast_def cast_typed_def split: if_splits)

lemma mk_cast_type: "mk_cast h e to = Inr e' \<Longrightarrow> e' = ECast e to"
  by (simp add: mk_cast_typed)

lemma Expr_MayCast_cases: "Expr_MayCast h e = Inr e' \<Longrightarrow>
    (e' = e \<and> \<not> IsFunctionTy (GetType h e) \<and> \<not> IsArrayTy (GetType h e)) \<or>
    (e' = ECast e (Type_MayCast (GetQualType h e)) \<and> cast_typed h e (Type_MayCast (GetQualType h e)) \<and>
      (IsFunctionTy (GetType h e) \<or> IsArrayTy (GetType h e)))"
  by (auto simp: Expr_MayCast_def dest!: mk_cast_typed split: if_splits)

lemma Expr_MayCastTo_Equal:
  "Expr_MayCastTo h e to = Inr e' \<Longrightarrow> Equal (h_types h) (GetType h e') (fst to)"
  by (auto simp: Expr_MayCastTo_def result_simps Equal_refl dest!: mk_cast_type split: if_splits)

text \<open>Equality with an arithmetic type is equality.\<close>

lemma Expr_MayCastTo_arith: "Expr_MayCastTo h e (ArithT s, q) = Inr e' \<Longrightarrow> GetType h e' = ArithT s"
  using Expr_MayCastTo_Equal [of h e "(ArithT s, q)" e'] by (simp add: Equal_ArithT)

lemma Equal_pointer: "Equal ts t u \<Longrightarrow> IsPointerTy t = IsPointerTy u"
  by (cases t; cases u) (auto simp: IsVoidTy_def Arithmetic_Equal_def Struct_Equal_def IsArithmeticTy_iff)

lemma IsIntegerTy_ArithT: "IsIntegerTy t \<Longrightarrow> \<exists>s. t = ArithT s"
  by (cases t) (auto simp: type_preds)

lemma IsIntegerOrBoolTy_ArithT: "IsIntegerOrBoolTy t \<Longrightarrow> \<exists>s. t = ArithT s"
  by (cases t) (auto simp: type_preds)

lemma ArithmeticType_Get_ArithT: "ArithmeticType_Get m = Inr t \<Longrightarrow> t = ArithT (DealWithTypeSpec m)"
  by (auto simp: ArithmeticType_Get_def Let_def split: if_splits)

lemma IntegerPromote_ArithT: "IntegerPromote t = Inr t' \<Longrightarrow> \<exists>s. t' = ArithT s"
  by (drule IntegerPromote_promoted) (auto simp: promoted_def)

lemma MaxType_ArithT: "MaxType t u = Inr v \<Longrightarrow> \<exists>s. v = ArithT s"
  by (drule MaxType_promoted) (auto simp: promoted_def)

lemma Expr_Convert_arith:
  assumes "Expr_Convert h l r = Inr (t, l', r')"
  shows "promoted t \<and> GetType h l' = t \<and> GetType h r' = t \<and>
    (IsIntegerOrBoolTy (GetType h l) \<and> IsIntegerOrBoolTy (GetType h r) \<longrightarrow> IsIntegerTy t)"
proof -
  from assms have m: "MaxType (GetType h l) (GetType h r) = Inr t"
    and c: "Expr_MayCastTo h l (t, 0) = Inr l'" "Expr_MayCastTo h r (t, 0) = Inr r'"
    by (auto simp: Expr_Convert_def result_simps)
  from MaxType_ArithT [OF m] obtain s where "t = ArithT s" by blast
  with c MaxType_promoted [OF m] show ?thesis by (auto dest: Expr_MayCastTo_arith)
qed

lemma Get_kLong: "ArithmeticType_Get kLong = Inr (ArithT kLong)"
  and Get_kULong: "ArithmeticType_Get (kLong OR kUnsigned) = Inr (ArithT (kLong OR kUnsigned))"
  and Get_kDouble: "ArithmeticType_Get kDouble = Inr (ArithT kDouble)"
  by (simp_all add: ArithmeticType_Get_def DealWithTypeSpec_def has_def arith_specs_def)

lemma to_ulong_type: "to_ulong h e = Inr e' \<Longrightarrow> GetType h e' = ArithT (kLong OR kUnsigned)"
  unfolding to_ulong_def Get_kULong bindE_Inr by (rule Expr_MayCastTo_arith)

subsection \<open>Well-typed nodes\<close>

definition same_arith :: "heap \<Rightarrow> expr \<Rightarrow> expr \<Rightarrow> ctype \<Rightarrow> bool" where
  "same_arith h l r t \<longleftrightarrow> promoted t \<and> GetType h l = t \<and> GetType h r = t"

text \<open>The operators that want integers: both operands and the result in one promoted integer type.\<close>

definition same_int :: "heap \<Rightarrow> expr \<Rightarrow> expr \<Rightarrow> ctype \<Rightarrow> bool" where
  "same_int h l r t \<longleftrightarrow> same_arith h l r t \<and> IsIntegerTy t"

definition compatible_pointers :: "heap \<Rightarrow> expr \<Rightarrow> expr \<Rightarrow> bool" where
  "compatible_pointers h l r \<longleftrightarrow> IsPointerTy (GetType h l) \<and> IsPointerTy (GetType h r) \<and>
     Compatible (h_types h) (GetType h l) (GetType h r)"

definition binary_typed :: "heap \<Rightarrow> tag \<Rightarrow> expr \<Rightarrow> expr \<Rightarrow> qtype \<Rightarrow> bool" where
  "binary_typed h op l r q \<longleftrightarrow>
     (if op \<in> {Tag_kStar, Tag_kSlash} then same_arith h l r (fst q)
      else if op \<in> {Tag_kPercent, Tag_kAmp, Tag_kPipe, Tag_kCaret, Tag_kLessLess, Tag_kGreaterGreater}
      then same_int h l r (fst q)
      else if op \<in> {Tag_kPlus, Tag_kMinus}
      then same_arith h l r (fst q) \<or>
        (IsPointerTy (GetType h l) \<and> GetType h r = ArithT (kLong OR kUnsigned) \<and> q = GetQualType h l) \<or>
        (op = Tag_kMinus \<and> compatible_pointers h l r \<and> fst q = ArithT kLong)
      else if op \<in> {Tag_kExclaimEqual, Tag_kEqualEqual, Tag_kLess, Tag_kLessEqual, Tag_kGreater, Tag_kGreaterEqual}
      then fst q = ArithT kInt \<and> (same_arith h l r (GetType h l) \<or> compatible_pointers h l r)
      else if op \<in> {Tag_kAmpAmp, Tag_kPipePipe}
      then fst q = ArithT kInt \<and> IsScalarTy (GetType h l) \<and> IsScalarTy (GetType h r)
      else if op = Tag_kEqual
      then IsLValue l \<and> \<not> Expr_IsConst h l \<and> q = GetQualType h l \<and> Equal (h_types h) (GetType h r) (GetType h l)
      else op \<in> {Tag_kPeriod, Tag_kComma} \<and> q = GetQualType h r)"

lemma EnsureCompatibleConvertVoidPtr_typed:
  assumes "EnsureCompatibleConvertVoidPtr h l r = Inr (l', r')" and "IsPointerTy (GetType h l)" and "IsPointerTy (GetType h r)"
  shows "compatible_pointers h l' r'"
proof -
  from assms(1) have c: "Compatible (h_types h) (GetType h l') (GetType h r')"
    by (auto simp: EnsureCompatibleConvertVoidPtr_def EnsureCompatible_def result_simps split: if_splits)
  have "(l' = l \<or> Expr_MayCastTo h l (GetQualType h r) = Inr l') \<and> (r' = r \<or> Expr_MayCastTo h r (GetQualType h l) = Inr r')"
    using assms(1) by (auto simp: EnsureCompatibleConvertVoidPtr_def result_simps split: if_splits)
  then have "IsPointerTy (GetType h l') \<and> IsPointerTy (GetType h r')"
    using assms(2,3) by (auto dest!: Expr_MayCastTo_Equal Equal_pointer)
  with c show ?thesis by (simp add: compatible_pointers_def)
qed

lemma cast_zero_pointer:
  "Expr_MayCastTo h r (GetType h l, q) = Inr r' \<Longrightarrow> IsPointerTy (GetType h l) \<Longrightarrow> compatible_pointers h l r'"
  using Expr_MayCastTo_Equal [of h r "(GetType h l, q)" r'] Equal_sym [of "h_types h" "GetType h l" "GetType h r'"]
  by (auto simp: compatible_pointers_def Compatible_Equal dest: Equal_pointer)

lemmas check_defs = AssignOpCheck_def AddOpCheck_def SubOpCheck_def MultiOpCheck_def BitwiseOpCheck_def
  ShiftOpCheck_def LogicalOpCheck_def EqualityOpCheck_def RelationalOpCheck_def MemberRefOpCheck_def
  CommaOpCheck_def

lemma same_arith_Convert: "Expr_Convert h l r = Inr (t, l', r') \<Longrightarrow> same_arith h l' r' t"
  by (auto simp: same_arith_def dest: Expr_Convert_arith)

lemma int_or_bool: "IsIntegerTy t \<Longrightarrow> IsIntegerOrBoolTy t"
  by (simp add: IsIntegerOrBoolTy_def)

lemma same_int_Convert:
  "Expr_Convert h l r = Inr (t, l', r') \<Longrightarrow> IsIntegerOrBoolTy (GetType h l) \<Longrightarrow> IsIntegerOrBoolTy (GetType h r) \<Longrightarrow>
    same_int h l' r' t"
  by (auto simp: same_int_def same_arith_def dest: Expr_Convert_arith)

text \<open>A checked node keeps its operator, and its operands and type satisfy \<open>P\<close>.\<close>

definition bin_node :: "tag \<Rightarrow> (expr \<Rightarrow> expr \<Rightarrow> qtype \<Rightarrow> bool) \<Rightarrow> expr \<Rightarrow> bool" where
  "bin_node op P e = (case e of EBinary op' l r q \<Rightarrow> op' = op \<and> P l r q | _ \<Rightarrow> False)"

lemma bin_node_simp [simp]: "bin_node op P (EBinary op' l r q) = (op' = op \<and> P l r q)"
  by (simp add: bin_node_def)

lemma Shift_typed:
  assumes "ShiftOpCheck h op l r = Inr e"
  shows "bin_node op (\<lambda>l r q. same_int h l r (fst q)) e"
proof -
  from assms obtain t l' r' where t: "IntegerPromote (GetType h l) = Inr t"
    and l: "Expr_MayCastTo h l (t, 0) = Inr l'" and r: "Expr_MayCastTo h r (GetType h l', 0) = Inr r'"
    and e: "e = EBinary op l' r' (GetQualType h l')"
    by (auto simp: ShiftOpCheck_def result_simps split: if_splits)
  from IntegerPromote_ArithT [OF t] l obtain s where s: "GetType h l' = ArithT s"
    by (auto dest: Expr_MayCastTo_arith)
  with r have "GetType h r' = ArithT s" by (auto dest: Expr_MayCastTo_arith)
  moreover from l IntegerPromote_promoted [OF t] have "promoted (GetType h l') \<and> IsIntegerTy (GetType h l')"
    using Expr_MayCastTo_arith IntegerPromote_ArithT [OF t] by fastforce
  ultimately show ?thesis using s e by (simp add: same_int_def same_arith_def)
qed

lemma Add_typed: "AddOpCheck h Tag_kPlus l r = Inr e \<Longrightarrow> bin_node Tag_kPlus (binary_typed h Tag_kPlus) e"
  unfolding AddOpCheck_def Let_def binary_typed_def
  by (auto simp: result_simps split: if_splits dest!: same_arith_Convert to_ulong_type)

lemma Sub_typed: "SubOpCheck h Tag_kMinus l r = Inr e \<Longrightarrow> bin_node Tag_kMinus (binary_typed h Tag_kMinus) e"
  unfolding SubOpCheck_def Let_def binary_typed_def
  by (auto simp: result_simps EnsureCompatible_def compatible_pointers_def Get_kLong
      split: if_splits dest!: same_arith_Convert to_ulong_type)

lemma Multi_typed: "MultiOpCheck h op l r = Inr e \<Longrightarrow>
    bin_node op (\<lambda>l r q. if op = Tag_kPercent then same_int h l r (fst q) else same_arith h l r (fst q)) e"
proof -
  assume m: "MultiOpCheck h op l r = Inr e"
  then obtain t l' r' where c: "Expr_Convert h l r = Inr (t, l', r')" and e: "e = EBinary op l' r' (t, 0)"
    and i: "op = Tag_kPercent \<Longrightarrow> IsIntegerTy (GetType h l) \<and> IsIntegerTy (GetType h r)"
    by (auto simp: MultiOpCheck_def result_simps Let_def split: if_splits)
  from i same_int_Convert [OF c] same_arith_Convert [OF c] e show ?thesis by (simp add: int_or_bool)
qed

lemma Bitwise_typed: "BitwiseOpCheck h op l r = Inr e \<Longrightarrow> bin_node op (\<lambda>l r q. same_int h l r (fst q)) e"
  unfolding BitwiseOpCheck_def by (auto simp: result_simps split: if_splits dest: same_int_Convert)

definition comparable :: "heap \<Rightarrow> expr \<Rightarrow> expr \<Rightarrow> bool" where
  "comparable h l r \<longleftrightarrow> same_arith h l r (GetType h l) \<or> compatible_pointers h l r"

lemma comparable_Convert: "Expr_Convert h l r = Inr (t, l', r') \<Longrightarrow> comparable h l' r'"
  by (auto simp: comparable_def same_arith_def dest!: Expr_Convert_arith)

lemma comparable_pointers:
  "EnsureCompatibleConvertVoidPtr h l r = Inr (l', r') \<Longrightarrow> IsPointerTy (GetType h l) \<Longrightarrow>
    IsPointerTy (GetType h r) \<Longrightarrow> comparable h l' r'"
  by (simp add: comparable_def EnsureCompatibleConvertVoidPtr_typed)

lemma comparable_zero:
  "Expr_MayCastTo h r (GetType h l, q) = Inr r' \<Longrightarrow> IsPointerTy (GetType h l) \<Longrightarrow> comparable h l r'"
  by (simp add: comparable_def cast_zero_pointer)

lemma Equality_typed:
  assumes "EqualityOpCheck h op l r = Inr e"
  shows "bin_node op (\<lambda>l r q. fst q = ArithT kInt \<and> comparable h l r) e"
proof -
  from assms obtain l' r' where e: "e = EBinary op l' r' (ArithT kInt, 0)"
    and d: "(IsPointerTy (GetType h l) \<and> IsPointerTy (GetType h r) \<and> EnsureCompatibleConvertVoidPtr h l r = Inr (l', r')) \<or>
      (\<exists>t. Expr_Convert h l r = Inr (t, l', r')) \<or>
      (IsPointerTy (GetType h l) \<and> Expr_MayCastTo h r (GetType h l, 0) = Inr r' \<and> l' = l) \<or>
      (IsPointerTy (GetType h r) \<and> Expr_MayCastTo h l (GetType h r, 0) = Inr r' \<and> l' = r)"
    unfolding EqualityOpCheck_def Let_def Get_kInt bindE_Inr
    by (cases "IsPointerTy (GetType h l)"; cases "IsPointerTy (GetType h r)")
       (auto simp: result_simps split: if_splits)
  from d have "comparable h l' r'"
    by (elim disjE conjE exE) (auto dest: comparable_Convert comparable_pointers comparable_zero)
  with e show ?thesis by simp
qed

lemma Relational_typed:
  assumes "RelationalOpCheck h op l r = Inr e"
  shows "bin_node op (\<lambda>l r q. fst q = ArithT kInt \<and> comparable h l r) e"
proof -
  from assms obtain l' r' where e: "e = EBinary op l' r' (ArithT kInt, 0)"
    and d: "(IsPointerTy (GetType h l) \<and> IsPointerTy (GetType h r) \<and> EnsureCompatibleConvertVoidPtr h l r = Inr (l', r')) \<or>
      (\<exists>t. Expr_Convert h l r = Inr (t, l', r'))"
    unfolding RelationalOpCheck_def Let_def Get_kInt bindE_Inr
    by (cases "IsPointerTy (GetType h l)"; cases "IsPointerTy (GetType h r)")
       (auto simp: result_simps split: if_splits)
  from d have "comparable h l' r'" by (auto dest: comparable_Convert comparable_pointers)
  with e show ?thesis by simp
qed

lemma Assign_typed: "AssignOpCheck h op l r = Inr e \<Longrightarrow> bin_node op (\<lambda>l r q. IsLValue l \<and> \<not> Expr_IsConst h l \<and>
    q = GetQualType h l \<and> Equal (h_types h) (GetType h r) (GetType h l)) e"
  unfolding AssignOpCheck_def Let_def
  by (auto simp: result_simps split: if_splits dest!: Expr_MayCastTo_Equal)

lemma Logical_typed: "LogicalOpCheck h op l r = Inr e \<Longrightarrow> bin_node op (\<lambda>l r q. fst q = ArithT kInt \<and>
    IsScalarTy (GetType h l) \<and> IsScalarTy (GetType h r)) e"
  unfolding LogicalOpCheck_def Get_kInt by (auto split: if_splits)

lemma bin_node_mono: "bin_node op P e \<Longrightarrow> (\<And>l r q. P l r q \<Longrightarrow> Q l r q) \<Longrightarrow> bin_node op Q e"
  by (cases e) (auto simp: bin_node_def)

lemma BinaryOp_Check_typed:
  assumes "BinaryOp_Check h op l r = Inr e"
  shows "bin_node op (binary_typed h op) e"
proof -
  consider "op = Tag_kEqual" "AssignOpCheck h op l r = Inr e" | "op = Tag_kPlus" "AddOpCheck h op l r = Inr e"
    | "op = Tag_kMinus" "SubOpCheck h op l r = Inr e"
    | "op \<in> {Tag_kStar, Tag_kPercent, Tag_kSlash}" "MultiOpCheck h op l r = Inr e"
    | "op \<in> {Tag_kAmp, Tag_kPipe, Tag_kCaret}" "BitwiseOpCheck h op l r = Inr e"
    | "op \<in> {Tag_kLessLess, Tag_kGreaterGreater}" "ShiftOpCheck h op l r = Inr e"
    | "op \<in> {Tag_kAmpAmp, Tag_kPipePipe}" "LogicalOpCheck h op l r = Inr e"
    | "op \<in> {Tag_kExclaimEqual, Tag_kEqualEqual}" "EqualityOpCheck h op l r = Inr e"
    | "op \<in> {Tag_kLess, Tag_kLessEqual, Tag_kGreater, Tag_kGreaterEqual}" "RelationalOpCheck h op l r = Inr e"
    | "op \<in> {Tag_kPeriod, Tag_kComma}" "e = EBinary op l r (GetQualType h r)"
    using assms unfolding BinaryOp_Check_def MemberRefOpCheck_def CommaOpCheck_def
    by (auto split: if_splits)
  then show ?thesis
  proof cases
    case 1 then show ?thesis by (auto simp: binary_typed_def intro: bin_node_mono [OF Assign_typed])
  next
    case 2 then show ?thesis by (simp add: Add_typed)
  next
    case 3 then show ?thesis by (simp add: Sub_typed)
  next
    case 4 then show ?thesis by (auto simp: binary_typed_def intro: bin_node_mono [OF Multi_typed])
  next
    case 5 then show ?thesis by (auto simp: binary_typed_def intro: bin_node_mono [OF Bitwise_typed])
  next
    case 6 then show ?thesis by (auto simp: binary_typed_def intro: bin_node_mono [OF Shift_typed])
  next
    case 7 then show ?thesis by (auto simp: binary_typed_def intro: bin_node_mono [OF Logical_typed])
  next
    case 8 then show ?thesis
      by (auto simp: binary_typed_def comparable_def intro: bin_node_mono [OF Equality_typed])
  next
    case 9 then show ?thesis
      by (auto simp: binary_typed_def comparable_def intro: bin_node_mono [OF Relational_typed])
  next
    case 10 then show ?thesis by (auto simp: binary_typed_def)
  qed
qed

subsection \<open>Unary, conditional and call nodes\<close>

definition unary_typed :: "heap \<Rightarrow> tag \<Rightarrow> expr \<Rightarrow> qtype \<Rightarrow> bool" where
  "unary_typed h op e q \<longleftrightarrow>
     (if op \<in> {Tag_kPlusPlus, Tag_kMinusMinus, Tag_kPostfixPlusPlus, Tag_kPostfixMinusMinus}
      then \<not> Expr_IsConst h e \<and> IsLValue e \<and> q = GetQualType h e \<and> (IsRealTy (fst q) \<or> IsPointerTy (fst q))
      else if op \<in> {Tag_kPlus, Tag_kMinus} then promoted (fst q) \<and> q = GetQualType h e
      else if op = Tag_kTilde then promoted (fst q) \<and> IsIntegerTy (fst q) \<and> q = GetQualType h e
      else if op = Tag_kExclaim then IsScalarTy (GetType h e) \<and> fst q = ArithT kInt
      else if op = Tag_kStar then GetType h e = PointerT (fst q) (snd q)
      else op = Tag_kAmp \<and> (IsFunctionTy (GetType h e) \<or> IsLValue e) \<and>
        fst q = PointerT (GetType h e) (snd (GetQualType h e)))"

definition un_node :: "tag \<Rightarrow> (expr \<Rightarrow> qtype \<Rightarrow> bool) \<Rightarrow> expr \<Rightarrow> bool" where
  "un_node op P e = (case e of EUnary op' x q \<Rightarrow> op' = op \<and> P x q | _ \<Rightarrow> False)"

lemma un_node_simp [simp]: "un_node op P (EUnary op' x q) = (op' = op \<and> P x q)"
  by (simp add: un_node_def)

lemma UnaryAddSub_typed:
  assumes "UnaryAddSubOpCheck h op x = Inr e"
  shows "un_node op (\<lambda>x q. promoted (fst q) \<and> q = GetQualType h x) e"
proof (cases "IsIntegerOrBoolTy (GetType h x)")
  case True
  with assms obtain t x' where t: "IntegerPromote (GetType h x) = Inr t"
    and x': "Expr_MayCastTo h x (t, 0) = Inr x'" and e: "e = EUnary op x' (GetQualType h x')"
    by (auto simp: UnaryAddSubOpCheck_def result_simps split: if_splits)
  from IntegerPromote_ArithT [OF t] IntegerPromote_promoted [OF t] x' have "promoted (GetType h x')"
    by (auto dest: Expr_MayCastTo_arith)
  with e show ?thesis by simp
next
  case False
  with assms have "IsFloatPointTy (GetType h x)" and "e = EUnary op x (GetQualType h x)"
    by (auto simp: UnaryAddSubOpCheck_def IsArithmeticTy_def IsIntegerOrBoolTy_def split: if_splits)
  then show ?thesis by (simp add: floating_promoted)
qed

lemma Not_typed:
  assumes "NotOpCheck h op x = Inr e"
  shows "un_node op (\<lambda>x q. promoted (fst q) \<and> IsIntegerTy (fst q) \<and> q = GetQualType h x) e"
proof -
  from assms obtain t x' where t: "IntegerPromote (GetType h x) = Inr t"
    and x': "Expr_MayCastTo h x (t, 0) = Inr x'" and e: "e = EUnary op x' (GetQualType h x')"
    by (auto simp: NotOpCheck_def result_simps split: if_splits)
  from IntegerPromote_ArithT [OF t] IntegerPromote_promoted [OF t] x'
  have "promoted (GetType h x') \<and> IsIntegerTy (GetType h x')"
    by (auto dest: Expr_MayCastTo_arith)
  with e show ?thesis by simp
qed

lemma PointerGetElementType_Inr: "PointerGetElementType t = Inr q \<Longrightarrow> t = PointerT (fst q) (snd q)"
  by (cases t) auto

lemma UnaryOp_Check_typed:
  assumes "UnaryOp_Check h op x = Inr e"
  shows "un_node op (unary_typed h op) e"
proof -
  consider "op \<in> {Tag_kPlusPlus, Tag_kMinusMinus, Tag_kPostfixPlusPlus, Tag_kPostfixMinusMinus}" "IncDecOpCheck h op x = Inr e"
    | "op \<in> {Tag_kPlus, Tag_kMinus}" "UnaryAddSubOpCheck h op x = Inr e"
    | "op = Tag_kTilde" "NotOpCheck h op x = Inr e" | "op = Tag_kExclaim" "LogicNotOpCheck h op x = Inr e"
    | "op = Tag_kStar" "DerefOpCheck h op x = Inr e" | "op = Tag_kAmp" "AddrOpCheck h op x = Inr e"
    using assms unfolding UnaryOp_Check_def by (auto split: if_splits)
  then show ?thesis
  proof cases
    case 1 then show ?thesis by (auto simp: IncDecOpCheck_def unary_typed_def split: if_splits)
  next
    case 2 then show ?thesis using UnaryAddSub_typed [of h op x e]
      by (cases e) (auto simp: un_node_def unary_typed_def)
  next
    case 3 then show ?thesis using Not_typed [of h op x e]
      by (cases e) (auto simp: un_node_def unary_typed_def)
  next
    case 4 then show ?thesis by (auto simp: LogicNotOpCheck_def Get_kInt unary_typed_def split: if_splits)
  next
    case 5 then show ?thesis
      by (auto simp: DerefOpCheck_def result_simps unary_typed_def split: if_splits dest: PointerGetElementType_Inr)
  next
    case 6 then show ?thesis by (auto simp: AddrOpCheck_def unary_typed_def PointerType_Get_def split: if_splits)
  qed
qed

definition cond_typed :: "heap \<Rightarrow> expr \<Rightarrow> expr \<Rightarrow> expr \<Rightarrow> qtype \<Rightarrow> bool" where
  "cond_typed h c l r q \<longleftrightarrow> IsScalarTy (GetType h c) \<and>
     (same_arith h l r (fst q) \<or>
      (IsStructOrUnionTy (fst q) \<and> q = GetQualType h l \<and> Equal (h_types h) (GetType h l) (GetType h r)) \<or>
      (IsPointerTy (GetType h l) \<and> IsPointerTy (GetType h r) \<and> fst q \<in> {GetType h l, GetType h r}) \<or>
      (IsVoidTy (GetType h l) \<and> IsVoidTy (GetType h r) \<and> fst q = VoidT))"

definition cond_node :: "(expr \<Rightarrow> expr \<Rightarrow> expr \<Rightarrow> qtype \<Rightarrow> bool) \<Rightarrow> expr \<Rightarrow> bool" where
  "cond_node P e = (case e of ECond c l r q \<Rightarrow> P c l r q | _ \<Rightarrow> False)"

lemma cond_node_simp [simp]: "cond_node P (ECond c l r q) = P c l r q"
  by (simp add: cond_node_def)

lemma MayCastTo_pointer: "Expr_MayCastTo h e q = Inr e' \<Longrightarrow> IsPointerTy (fst q) \<Longrightarrow> IsPointerTy (GetType h e')"
  by (auto dest!: Expr_MayCastTo_Equal Equal_pointer)

lemma ConditionOp_Check_typed:
  assumes "ConditionOp_Check h c l r = Inr e"
  shows "cond_node (cond_typed h) e"
proof (cases "IsArithmeticTy (GetType h l) \<and> IsArithmeticTy (GetType h r)")
  case True
  with assms show ?thesis
    by (auto simp: ConditionOp_Check_def Let_def cond_typed_def result_simps split: if_splits dest!: same_arith_Convert)
next
  case na: False
  show ?thesis
  proof (cases "IsPointerTy (GetType h l) \<and> IsPointerTy (GetType h r)")
    case True
    then have "\<not> IsStructOrUnionTy (GetType h l)" by (cases "GetType h l") (auto simp: IsStructOrUnionTy_def)
    with assms na True show ?thesis
      by (auto simp: ConditionOp_Check_def Let_def cond_typed_def result_simps split: if_splits dest: MayCastTo_pointer)
  next
    case False
    with assms na show ?thesis
      by (auto simp: ConditionOp_Check_def Let_def cond_typed_def result_simps split: if_splits
          dest: MayCastTo_pointer dest!: cast_zero_pointer)
  qed
qed

text \<open>The arguments of a call: as many as there are parameters, with the types of the parameters.\<close>

fun args_typed :: "heap \<Rightarrow> (nat \<times> ctype) list \<Rightarrow> expr list \<Rightarrow> bool" where
  "args_typed h [] as = True"
| "args_typed h (p # ps) [] = False"
| "args_typed h (p # ps) (a # as) = (Equal (h_types h) (GetType h a) (snd p) \<and> args_typed h ps as)"

fun call_typed :: "heap \<Rightarrow> expr \<Rightarrow> expr list \<Rightarrow> qtype \<Rightarrow> bool" where
  "call_typed h f as q = (case GetType h f of
     FuncT _ t m ps va \<Rightarrow> q = (t, m) \<and> args_typed h ps as \<and> (va \<or> length as = length ps)
   | _ \<Rightarrow> False)"

declare call_typed.simps [simp del]

lemma call_params_typed: "call_params h ps args = Inr (as, rest) \<Longrightarrow>
    length as = length ps \<and> args_typed h ps (as @ rest')"
proof (induction ps arbitrary: args as)
  case Nil then show ?case by simp
next
  case (Cons p ps)
  then obtain a args' where a: "args = a # args'" by (cases args) auto
  with Cons.prems obtain a' as' where "Expr_MayCastTo h a (snd p, 0) = Inr a'"
    and "call_params h ps args' = Inr (as', rest)" and "as = a' # as'"
    by (auto simp: result_simps)
  with Cons.IH show ?case by (auto dest: Expr_MayCastTo_Equal)
qed

lemma promote_args_length: "promote_args h args = Inr as \<Longrightarrow> length as = length args"
  by (induction args arbitrary: as) (auto simp: result_simps)

definition call_node :: "(expr \<Rightarrow> expr list \<Rightarrow> qtype \<Rightarrow> bool) \<Rightarrow> expr \<Rightarrow> bool" where
  "call_node P e = (case e of ECall f as _ q \<Rightarrow> P f as q | _ \<Rightarrow> False)"

lemma mk_call_typed:
  assumes "mk_call h f0 args = Inr e"
  shows "call_node (call_typed h) e"
proof -
  from assms obtain f ps as rest va rest' q where
    ps: "FuncGetParams (GetType h f) = Inr ps" and c: "call_params h ps args = Inr (as, rest)"
    and va: "FuncIsVarArgs (GetType h f) = Inr va" "rest = [] \<or> va"
    and r: "promote_args h rest = Inr rest'" and q: "FuncGetReturnType (GetType h f) = Inr q"
    and e: "e = ECall f (as @ rest') None q"
    by (auto simp: mk_call_def result_simps split: if_splits)
  obtain n t m vb where "GetType h f = FuncT n t m ps vb" using ps by (cases "GetType h f") auto
  with va q call_params_typed [OF c, of rest'] promote_args_length [OF r] e show ?thesis
    by (auto simp: call_node_def call_typed.simps)
qed

subsection \<open>Whole trees\<close>

text \<open>A tree in which every node is typed; statement expressions are not looked into.\<close>

fun wt :: "heap \<Rightarrow> expr \<Rightarrow> bool" where
  "wt h (EUnary op e q) = (wt h e \<and> unary_typed h op e q)"
| "wt h (ECast e q) = (wt h e \<and> cast_typed h e q)"
| "wt h (EBinary op l r q) = (wt h l \<and> wt h r \<and> binary_typed h op l r q)"
| "wt h (ECond c l r q) = (wt h c \<and> wt h l \<and> wt h r \<and> cond_typed h c l r q)"
| "wt h (ECall f as _ q) = (wt h f \<and> (\<forall>a \<in> set as. wt h a) \<and> call_typed h f as q)"
| "wt h _ = True"

text \<open>The trees the parser can build: leaves, and nodes made from trees already built.\<close>

inductive built :: "heap \<Rightarrow> expr \<Rightarrow> bool" for h where
  built_int: "built h (EInt q v)"
| built_float: "built h (EFloat q s)"
| built_string: "built h (EString q s)"
| built_ident: "built h (EIdent i)"
| built_cast: "built h e \<Longrightarrow> mk_cast h e q = Inr e' \<Longrightarrow> built h e'"
| built_unary: "built h e \<Longrightarrow> mk_unary h op e = Inr e' \<Longrightarrow> built h e'"
| built_binary: "built h l \<Longrightarrow> built h r \<Longrightarrow> mk_binary h op l r = Inr e' \<Longrightarrow> built h e'"
| built_cond: "built h c \<Longrightarrow> built h l \<Longrightarrow> built h r \<Longrightarrow> mk_cond h c l r = Inr e' \<Longrightarrow> built h e'"
| built_call: "built h f \<Longrightarrow> (\<And>a. a \<in> set args \<Longrightarrow> built h a) \<Longrightarrow> mk_call h f args = Inr e' \<Longrightarrow> built h e'"

lemma wt_cast: "mk_cast h e q = Inr e' \<Longrightarrow> wt h e' = wt h e"
  by (auto dest: mk_cast_typed)

lemma wt_MayCast: "Expr_MayCast h e = Inr e' \<Longrightarrow> wt h e' = wt h e"
  by (auto dest!: Expr_MayCast_cases)

lemma wt_MayCastTo: "Expr_MayCastTo h e q = Inr e' \<Longrightarrow> wt h e' = wt h e"
  by (auto simp: Expr_MayCastTo_def result_simps wt_MayCast dest!: wt_cast split: if_splits)

lemma wt_Convert: "Expr_Convert h l r = Inr (t, l', r') \<Longrightarrow> wt h l' = wt h l \<and> wt h r' = wt h r"
  by (auto simp: Expr_Convert_def result_simps dest: wt_MayCastTo)

lemma wt_VoidPtr: "EnsureCompatibleConvertVoidPtr h l r = Inr (l', r') \<Longrightarrow> wt h l' = wt h l \<and> wt h r' = wt h r"
  by (auto simp: EnsureCompatibleConvertVoidPtr_def result_simps dest: wt_MayCastTo split: if_splits)

lemma wt_to_ulong: "to_ulong h e = Inr e' \<Longrightarrow> wt h e' = wt h e"
  by (auto simp: to_ulong_def result_simps dest: wt_MayCastTo)

lemmas wt_steps = wt_cast wt_MayCast wt_MayCastTo wt_Convert wt_VoidPtr wt_to_ulong

text \<open>The operands of a checked node are the given ones, converted.\<close>

lemma UnaryOp_operand: "UnaryOp_Check h op x = Inr e \<Longrightarrow> un_node op (\<lambda>x' q. wt h x' = wt h x) e"
  unfolding UnaryOp_Check_def IncDecOpCheck_def UnaryAddSubOpCheck_def NotOpCheck_def LogicNotOpCheck_def
    DerefOpCheck_def AddrOpCheck_def
  by (auto simp: result_simps wt_steps split: if_splits)

lemma un_node_wt: "un_node op (unary_typed h op) e \<Longrightarrow> un_node op (\<lambda>x q. wt h x = b) e \<Longrightarrow> b \<Longrightarrow> wt h e"
  by (cases e) (auto simp: un_node_def)

lemma wt_unary:
  assumes "mk_unary h op x = Inr e" and "wt h x"
  shows "wt h e"
proof -
  from assms obtain x' where c: "UnaryOp_Check h op x' = Inr e" and x': "wt h x'"
    by (auto simp: mk_unary_def result_simps wt_MayCast split: if_splits)
  show ?thesis by (rule un_node_wt [OF UnaryOp_Check_typed [OF c] UnaryOp_operand [OF c] x'])
qed

definition wt_operands :: "heap \<Rightarrow> tag \<Rightarrow> expr \<Rightarrow> bool" where
  "wt_operands h op = bin_node op (\<lambda>l r q. wt h l \<and> wt h r)"

lemma Assign_operands: "AssignOpCheck h op l r = Inr e \<Longrightarrow> wt h l \<Longrightarrow> wt h r \<Longrightarrow> wt_operands h op e"
  by (auto simp: AssignOpCheck_def Let_def wt_operands_def result_simps wt_MayCastTo split: if_splits)

lemma Add_operands: "AddOpCheck h op l r = Inr e \<Longrightarrow> wt h l \<Longrightarrow> wt h r \<Longrightarrow> wt_operands h op e"
  by (auto simp: AddOpCheck_def Let_def wt_operands_def result_simps wt_to_ulong dest: wt_Convert split: if_splits)

lemma Sub_operands: "SubOpCheck h op l r = Inr e \<Longrightarrow> wt h l \<Longrightarrow> wt h r \<Longrightarrow> wt_operands h op e"
  by (auto simp: SubOpCheck_def Let_def wt_operands_def result_simps wt_to_ulong dest: wt_Convert split: if_splits)

lemma Multi_operands: "MultiOpCheck h op l r = Inr e \<Longrightarrow> wt h l \<Longrightarrow> wt h r \<Longrightarrow> wt_operands h op e"
  by (auto simp: MultiOpCheck_def Let_def wt_operands_def result_simps dest: wt_Convert split: if_splits)

lemma Bitwise_operands: "BitwiseOpCheck h op l r = Inr e \<Longrightarrow> wt h l \<Longrightarrow> wt h r \<Longrightarrow> wt_operands h op e"
  by (auto simp: BitwiseOpCheck_def wt_operands_def result_simps dest: wt_Convert split: if_splits)

lemma Shift_operands: "ShiftOpCheck h op l r = Inr e \<Longrightarrow> wt h l \<Longrightarrow> wt h r \<Longrightarrow> wt_operands h op e"
  by (auto simp: ShiftOpCheck_def wt_operands_def result_simps wt_MayCastTo split: if_splits)

lemma Logical_operands: "LogicalOpCheck h op l r = Inr e \<Longrightarrow> wt h l \<Longrightarrow> wt h r \<Longrightarrow> wt_operands h op e"
  by (auto simp: LogicalOpCheck_def wt_operands_def result_simps split: if_splits)

lemma Equality_operands:
  assumes "EqualityOpCheck h op l r = Inr e" and "wt h l" and "wt h r"
  shows "wt_operands h op e"
proof -
  from assms obtain l' r' where e: "e = EBinary op l' r' (ArithT kInt, 0)" and "wt h l'" "wt h r'"
    unfolding EqualityOpCheck_def Let_def Get_kInt bindE_Inr
    by (cases "IsPointerTy (GetType h l)"; cases "IsPointerTy (GetType h r)")
       (auto simp: result_simps wt_MayCastTo dest: wt_Convert wt_VoidPtr split: if_splits)
  then show ?thesis by (simp add: wt_operands_def)
qed

lemma Relational_operands:
  assumes "RelationalOpCheck h op l r = Inr e" and "wt h l" and "wt h r"
  shows "wt_operands h op e"
proof -
  from assms obtain l' r' where e: "e = EBinary op l' r' (ArithT kInt, 0)" and "wt h l'" "wt h r'"
    unfolding RelationalOpCheck_def Let_def Get_kInt bindE_Inr
    by (cases "IsPointerTy (GetType h l)"; cases "IsPointerTy (GetType h r)")
       (auto simp: result_simps dest: wt_Convert wt_VoidPtr split: if_splits)
  then show ?thesis by (simp add: wt_operands_def)
qed

lemma Member_operands: "MemberRefOpCheck h op l r = Inr e \<Longrightarrow> wt h l \<Longrightarrow> wt h r \<Longrightarrow> wt_operands h op e"
  and Comma_operands: "CommaOpCheck h op l r = Inr e \<Longrightarrow> wt h l \<Longrightarrow> wt h r \<Longrightarrow> wt_operands h op e"
  by (auto simp: MemberRefOpCheck_def CommaOpCheck_def wt_operands_def)

lemmas operands = Assign_operands Add_operands Sub_operands Multi_operands Bitwise_operands Shift_operands
  Logical_operands Equality_operands Relational_operands Member_operands Comma_operands

lemma BinaryOp_operands:
  "BinaryOp_Check h op l r = Inr e \<Longrightarrow> wt h l \<Longrightarrow> wt h r \<Longrightarrow> wt_operands h op e"
  unfolding BinaryOp_Check_def
  by (auto intro: operands split: if_splits)

lemma bin_node_wt: "bin_node op (binary_typed h op) e \<Longrightarrow> wt_operands h op e \<Longrightarrow> wt h e"
  by (cases e) (auto simp: bin_node_def wt_operands_def)

lemma wt_binary:
  assumes "mk_binary h op l r = Inr e" and "wt h l" and "wt h r"
  shows "wt h e"
proof -
  from assms obtain l' r' where c: "BinaryOp_Check h op l' r' = Inr e" and lr: "wt h l'" "wt h r'"
    by (auto simp: mk_binary_def result_simps wt_MayCast split: if_splits)
  show ?thesis by (rule bin_node_wt [OF BinaryOp_Check_typed [OF c] BinaryOp_operands [OF c lr]])
qed

lemma MayCastTo_wt: "Expr_MayCastTo h e q = Inr e' \<Longrightarrow> wt h e \<Longrightarrow> wt h e'"
  by (simp add: wt_MayCastTo)

lemma ConditionOp_operands:
  assumes k: "ConditionOp_Check h c l r = Inr e" and w: "wt h c" "wt h l" "wt h r"
  shows "cond_node (\<lambda>c' l' r' q. wt h c' \<and> wt h l' \<and> wt h r') e"
proof -
  have "yields (cond_node (\<lambda>c' l' r' q. wt h c' \<and> wt h l' \<and> wt h r')) (ConditionOp_Check h c l r)"
    unfolding ConditionOp_Check_def Let_def
    by (intro yields_if yields_bind; clarsimp simp: w MayCastTo_wt wt_Convert)
  with k show ?thesis by simp
qed

lemma wt_cond:
  assumes "mk_cond h c l r = Inr e" and "wt h c" and "wt h l" and "wt h r"
  shows "wt h e"
proof -
  from assms obtain c' l' r' where k: "ConditionOp_Check h c' l' r' = Inr e" and w: "wt h c'" "wt h l'" "wt h r'"
    by (auto simp: mk_cond_def result_simps wt_MayCast)
  show ?thesis using ConditionOp_Check_typed [OF k] ConditionOp_operands [OF k w]
    by (cases e) (auto simp: cond_node_def)
qed

lemma call_params_wt:
  "call_params h ps args = Inr (as, rest) \<Longrightarrow> \<forall>a \<in> set args. wt h a \<Longrightarrow> \<forall>a \<in> set (as @ rest). wt h a"
proof (induction ps arbitrary: args as)
  case Nil then show ?case by simp
next
  case (Cons p ps)
  then obtain a args' where a: "args = a # args'" by (cases args) auto
  with Cons.prems(1) obtain a' as' where "Expr_MayCastTo h a (snd p, 0) = Inr a'"
    and "call_params h ps args' = Inr (as', rest)" and "as = a' # as'"
    by (auto simp: result_simps)
  with Cons.IH [of args' as'] Cons.prems(2) a show ?case by (auto dest: wt_MayCastTo)
qed

lemma promote_args_wt: "promote_args h args = Inr as \<Longrightarrow> \<forall>a \<in> set args. wt h a \<Longrightarrow> \<forall>a \<in> set as. wt h a"
proof (induction args arbitrary: as)
  case Nil then show ?case by simp
next
  case (Cons a args)
  then obtain a' as' where "promote_arg h a = Inr a'" and "promote_args h args = Inr as'" and "as = a' # as'"
    by (auto simp: result_simps)
  with Cons show ?case by (auto simp: promote_arg_def result_simps wt_MayCastTo split: if_splits)
qed

lemma wt_call:
  assumes "mk_call h f0 args = Inr e" and "wt h f0" and "\<forall>a \<in> set args. wt h a"
  shows "wt h e"
proof -
  from assms(1,2) obtain f ps as rest rest' q where f: "wt h f" and c: "call_params h ps args = Inr (as, rest)"
    and r: "promote_args h rest = Inr rest'" and e: "e = ECall f (as @ rest') None q"
    by (auto simp: mk_call_def result_simps dest: wt_unary split: if_splits)
  from call_params_wt [OF c assms(3)] promote_args_wt [OF r]
  have "\<forall>a \<in> set (as @ rest'). wt h a" by auto
  with f e mk_call_typed [OF assms(1)] show ?thesis by (simp add: call_node_def)
qed

lemma built_wt_ind: "built h e \<Longrightarrow> wt h e"
proof (induction rule: built.induct)
  case (built_cast e q e')
  then show ?case by (simp add: wt_cast)
next
  case (built_unary e op e')
  then show ?case using wt_unary by metis
next
  case (built_binary l r op e')
  then show ?case using wt_binary by metis
next
  case (built_cond c l r e')
  then show ?case using wt_cond by metis
next
  case (built_call f args e')
  then show ?case using wt_call [of h f args e'] by simp
qed simp_all

text \<open>
  C10. Trees are well typed: in every tree that \<open>MakeAstNode\<close> builds from leaves by casts, unary,
  binary and conditional operators and calls, every node satisfies the constraints of its operator.
  Arithmetic operators have both operands in the type of the result, which is no \<open>_Bool\<close>, \<open>char\<close> or
  \<open>short\<close>, and an integer type for the remainder, the bitwise operators, the shifts and the
  complement; a sum with a pointer has the pointer on the left and an \<open>unsigned long\<close> on the right,
  comparisons have equal promoted types or compatible pointers, an assignment has a modifiable lvalue
  and a value of an equal type, a call has an argument of the parameter's type for every parameter,
  and no cast leads from a pointer to a floating type or back.
\<close>

theorem built_trees_well_typed: "built h e \<Longrightarrow> wt h e"
  by (rule built_wt_ind)

text \<open>\<open>1 + 2.5\<close> in any state.\<close>

lemma Equal_int_double: "Equal ts (ArithT kInt) (ArithT kDouble) = False" "Equal ts (ArithT kDouble) (ArithT kDouble) = True"
  by (simp_all add: Equal_ArithT)

lemma MaxType_int_double: "MaxType (ArithT kInt) (ArithT kDouble) = Inr (ArithT kDouble)"
  by (simp add: conv_eval)

lemma scalar_leaf: "Expr_MayCast h (EInt (ArithT s, m) k) = Inr (EInt (ArithT s, m) k)"
   "Expr_MayCast h (EFloat (ArithT s, m) f) = Inr (EFloat (ArithT s, m) f)"
  by (simp_all add: Expr_MayCast_def type_preds)

theorem built_trees_well_typed_witness:
  "\<forall>h. wt h (EBinary Tag_kPlus (ECast (EInt (ArithT kInt, 0) 1) (ArithT kDouble, 0))
       (EFloat (ArithT kDouble, 0) ''2.5'') (ArithT kDouble, 0))"
proof
  fix h
  have "mk_binary h Tag_kPlus (EInt (ArithT kInt, 0) 1) (EFloat (ArithT kDouble, 0) ''2.5'') =
      Inr (EBinary Tag_kPlus (ECast (EInt (ArithT kInt, 0) 1) (ArithT kDouble, 0))
        (EFloat (ArithT kDouble, 0) ''2.5'') (ArithT kDouble, 0))"
    by (simp add: mk_binary_def scalar_leaf BinaryOp_Check_def AddOpCheck_def Expr_Convert_def
        Expr_MayCastTo_def mk_cast_def MaxType_int_double Equal_int_double spec_tables Let_def Arithmetic_Equal_def)
  then show "wt h (EBinary Tag_kPlus (ECast (EInt (ArithT kInt, 0) 1) (ArithT kDouble, 0))
       (EFloat (ArithT kDouble, 0) ''2.5'') (ArithT kDouble, 0))"
    by (blast intro: built_trees_well_typed built_binary built_int built_float)
qed

subsection \<open>Where the checks differ from the standard\<close>

definition is_diag :: "'a result \<Rightarrow> bool" where
  "is_diag m \<longleftrightarrow> (\<exists>s. m = Inl (Diag s))"

lemma bool_no_int: "\<not> IsIntegerTy (ArithT kBool)" "\<not> IsRealTy (ArithT kBool)" "\<not> IsPointerTy (ArithT kBool)"
  by (simp_all add: type_preds has_def)

text \<open>
  A \<open>_Bool\<close> is not an operand of \<open>~\<close>, of \<open>++\<close> and its kin, of a relational operator or of
  \<open>switch\<close>: \<open>IsIntegerTy\<close> and \<open>IsRealTy\<close> leave it out, and each of the checks ends in a diagnostic,
  although the standard counts \<open>_Bool\<close> among the integer types.
\<close>

theorem bool_operand_rejected:
  assumes "GetType h e = ArithT kBool"
  shows "NotOpCheck h Tag_kTilde e = Inl (Diag ''expect operand of arithmetic type'') \<and>
    is_diag (IncDecOpCheck h op e) \<and> is_diag (RelationalOpCheck h op e r) \<and> is_diag (RelationalOpCheck h op r e) \<and>
    mk_switch h e body = Inl (Diag ''switch quantity not an integer'')"
  using assms by (simp add: NotOpCheck_def IncDecOpCheck_def RelationalOpCheck_def mk_switch_def bool_no_int is_diag_def)

theorem bool_operand_rejected_witness:
  "\<forall>h. is_diag (RelationalOpCheck h Tag_kLess (ECast (EInt (ArithT kInt, 0) 1) (ArithT kBool, 0)) (EInt (ArithT kInt, 0) 2))"
  using bool_operand_rejected [where e = "ECast (EInt (ArithT kInt, 0) 1) (ArithT kBool, 0)"] by simp

lemma to_ulong_leaf: "to_ulong h (EInt (ArithT kInt, m) k) = Inr (ECast (EInt (ArithT kInt, m) k) (ArithT (kLong OR kUnsigned), 0))"
  unfolding to_ulong_def Get_kULong bindE_Inr
  by (simp add: Expr_MayCastTo_def scalar_leaf mk_cast_def Arithmetic_Equal_def spec_tables type_preds)

lemma type_kinds: "\<not> IsPointerTy (ArithT s)" "\<not> IsFunctionTy (ArithT s)" "\<not> IsArrayTy (ArithT s)"
   "\<not> IsFunctionTy (PointerT u m)" "\<not> IsArrayTy (PointerT u m)" "\<not> IsIntegerTy (PointerT u m)"
   "\<not> IsArithmeticTy (PointerT u m)" "IsIntegerTy (ArithT kInt)" "\<not> IsStructOrUnionTy (PointerT u m)"
  by (simp_all add: type_preds has_def)

lemma decayed_subscript:
  assumes "obj_type (h_objs h n) = (ArrayT a (ArithT kInt) m, q)"
  shows "mk_binary h Tag_kPlus (EIdent (Object s n)) (EInt (ArithT kInt, 0) k) = Inr (EBinary Tag_kPlus
      (ECast (EIdent (Object s n)) (PointerT (ArithT kInt) 0, 0))
      (ECast (EInt (ArithT kInt, 0) k) (ArithT (kLong OR kUnsigned), 0)) (PointerT (ArithT kInt) 0, 0))"
proof -
  have "Expr_MayCast h (EIdent (Object s n)) = Inr (ECast (EIdent (Object s n)) (PointerT (ArithT kInt) 0, 0))"
    using assms by (simp add: Expr_MayCast_def mk_cast_def GetPointerTo_def PointerType_Get_def type_preds has_def)
  then show ?thesis
    by (simp only: mk_binary_def bindE_Inr scalar_leaf if_True prod.case BinaryOp_Check_def)
       (simp add: AddOpCheck_def to_ulong_leaf type_kinds Let_def)
qed

lemma deref_pointer: "mk_unary h Tag_kStar (EBinary op l r (PointerT t m, q)) =
    Inr (EUnary Tag_kStar (EBinary op l r (PointerT t m, q)) (t, m))"
  by (simp add: mk_unary_def Expr_MayCast_def UnaryOp_Check_def DerefOpCheck_def type_kinds)

lemma assign_int: "mk_binary h Tag_kEqual (EUnary Tag_kStar p (ArithT kInt, 0)) (EInt (ArithT kInt, m) v) =
    Inr (EBinary Tag_kEqual (EUnary Tag_kStar p (ArithT kInt, 0)) (EInt (ArithT kInt, m) v) (ArithT kInt, 0))"
  by (simp add: mk_binary_def Expr_MayCast_def BinaryOp_Check_def AssignOpCheck_def type_kinds Expr_IsConst_def
      QualType_IsConst_def has_def Expr_MayCastTo_def Arithmetic_Equal_def Let_def)

lemma struct_kinds: "\<not> IsPointerTy (StructT b n)" "\<not> IsFunctionTy (StructT b n)" "\<not> IsArrayTy (StructT b n)"
   "\<not> IsIntegerTy (StructT b n)" "\<not> IsFloatPointTy (StructT b n)" "\<not> IsFloatPointTy (PointerT u m)"
  by (simp_all add: type_preds has_def)

text \<open>
  C30. The elements of an array of constants can be assigned: \<open>Type::MayCast\<close> turns the array into
  a pointer to the unqualified element type, so that \<open>a[k] = v\<close>, which the parser builds from \<open>+\<close>,
  \<open>*\<close> and \<open>=\<close>, passes the checks whatever the qualifiers \<open>m\<close> of the elements are.
\<close>

theorem const_element_assignable:
  assumes "obj_type (h_objs h n) = (ArrayT a (ArithT kInt) m, q)"
  shows "(bindE (mk_binary h Tag_kPlus (EIdent (Object s n)) (EInt (ArithT kInt, 0) k)) (\<lambda>p.
      bindE (mk_unary h Tag_kStar p) (\<lambda>x. mk_binary h Tag_kEqual x (EInt (ArithT kInt, 0) v)))) =
    Inr (let p = EBinary Tag_kPlus (ECast (EIdent (Object s n)) (PointerT (ArithT kInt) 0, 0))
           (ECast (EInt (ArithT kInt, 0) k) (ArithT (kLong OR kUnsigned), 0)) (PointerT (ArithT kInt) 0, 0)
      in EBinary Tag_kEqual (EUnary Tag_kStar p (ArithT kInt, 0)) (EInt (ArithT kInt, 0) v) (ArithT kInt, 0))"
  using assms by (simp only: decayed_subscript bindE_Inr deref_pointer assign_int Let_def)

theorem const_element_assignable_witness:
  "\<exists>h. obj_type (h_objs h 0) = (ArrayT 0 (ArithT kInt) kConst, 0) \<and>
    (\<exists>e. bindE (mk_binary h Tag_kPlus (EIdent (Object ''a'' 0)) (EInt (ArithT kInt, 0) 1)) (\<lambda>p.
      bindE (mk_unary h Tag_kStar p) (\<lambda>x. mk_binary h Tag_kEqual x (EInt (ArithT kInt, 0) 5))) = Inr e)"
proof -
  obtain h :: heap where h: "obj_type (h_objs h 0) = (ArrayT 0 (ArithT kInt) kConst, 0)"
  proof
    show "obj_type (h_objs (h\<lparr>h_objs := \<lambda>_. (h_objs h 0)\<lparr>obj_type := (ArrayT 0 (ArithT kInt) kConst, 0)\<rparr>\<rparr>) 0) =
        (ArrayT 0 (ArithT kInt) kConst, 0)" for h :: heap by simp
  qed
  with const_element_assignable [OF h, of "''a''" 1 5] show ?thesis by blast
qed

text \<open>
  C31. Assignment does not ask for compatible types: a structure is accepted for an \<open>int\<close>, and a
  pointer for a pointer to any other type; a conversion is put in front of the value instead.
\<close>

theorem assignment_converts_anything:
  assumes "GetQualType h l = (t, q)" and "IsLValue l" and "\<not> Expr_IsConst h l"
    and "(t = ArithT kInt \<and> GetType h r = StructT b n) \<or>
      (t = PointerT u m \<and> GetType h r = PointerT u' m' \<and> \<not> Compatible (h_types h) u u')"
  shows "AssignOpCheck h Tag_kEqual l r = Inr (EBinary Tag_kEqual l (ECast r (t, q)) (t, q))"
  using assms(4)
proof
  assume t: "t = ArithT kInt \<and> GetType h r = StructT b n"
  then have "Expr_MayCastTo h r (t, q) = Inr (ECast r (t, q))"
    by (simp add: Expr_MayCastTo_def Expr_MayCast_def mk_cast_def Equal_ArithT type_kinds struct_kinds)
  with assms(1-3) t show ?thesis by (simp add: AssignOpCheck_def Let_def type_kinds)
next
  assume t: "t = PointerT u m \<and> GetType h r = PointerT u' m' \<and> \<not> Compatible (h_types h) u u'"
  then have "Expr_MayCastTo h r (t, q) = Inr (ECast r (t, q))"
    by (simp add: Expr_MayCastTo_def Expr_MayCast_def mk_cast_def type_kinds struct_kinds Compatible_Equal
        Equal_sym [of _ u' u])
  with assms(1-3) t show ?thesis by (simp add: AssignOpCheck_def Let_def type_kinds)
qed

theorem assignment_converts_anything_witness:
  "\<forall>h. AssignOpCheck h Tag_kEqual (EUnary Tag_kStar (EIdent (Ident ''p'' (PointerT (ArithT kInt) 0, 0) Linkage_kNone False))
       (ArithT kInt, 0)) (EIdent (Ident ''s'' (StructT True 0, 0) Linkage_kNone False)) =
     Inr (EBinary Tag_kEqual (EUnary Tag_kStar (EIdent (Ident ''p'' (PointerT (ArithT kInt) 0, 0) Linkage_kNone False))
       (ArithT kInt, 0)) (ECast (EIdent (Ident ''s'' (StructT True 0, 0) Linkage_kNone False)) (ArithT kInt, 0)) (ArithT kInt, 0))"
  by (intro allI assignment_converts_anything) (simp_all add: Expr_IsConst_def QualType_IsConst_def has_def)

end
