(* ===== verification/Kcc_Constant.thy ===== *)
theory Kcc_Constant
  imports Kcc_Arith
begin

text \<open>
  Constants of LLVM and the conversions of constants in \<open>src/llvm_common.cpp\<close>.

  LLVM is not part of the repository: the record \<open>llvm\<close> is a parameter with one field for every
  function of LLVM that the evaluator of constant expressions calls, over an unknown type of
  constants. What is documented of these functions for integer constants is stated in
  \<open>Kcc_CalcProps\<close>, as the hypothesis of the theorems that need it.
\<close>

datatype binop =
    O_Add | O_NSWAdd | O_FAdd | O_Sub | O_NSWSub | O_FSub | O_Mul | O_NSWMul | O_FMul
  | O_UDiv | O_SDiv | O_FDiv | O_URem | O_SRem | O_And | O_Or | O_Xor | O_Shl | O_LShr | O_AShr

datatype cmp_pred =
    ICMP_EQ | ICMP_NE | ICMP_ULT | ICMP_ULE | ICMP_UGT | ICMP_UGE
  | ICMP_SLT | ICMP_SLE | ICMP_SGT | ICMP_SGE
  | FCMP_OEQ | FCMP_ONE | FCMP_OLT | FCMP_OLE | FCMP_OGT | FCMP_OGE

datatype castop =
    C_Trunc | C_ZExt | C_SExt | C_UIToFP | C_SIToFP | C_FPToUI | C_FPToSI | C_FPTrunc
  | C_FPExtend | C_PtrToInt | C_IntToPtr | C_PointerCast

record 'c llvm =
  getType :: "'c \<Rightarrow> ltype"
  isZeroValue :: "'c \<Rightarrow> bool"
  getSExtValue :: "'c \<Rightarrow> int option"
  get_int :: "ltype \<Rightarrow> int \<Rightarrow> 'c"
  get_fp :: "ltype \<Rightarrow> string \<Rightarrow> 'c"
  fp_zero :: "ltype \<Rightarrow> 'c"
  null_pointer :: "ltype \<Rightarrow> 'c"
  aggregate_zero :: "ltype \<Rightarrow> 'c"
  getNeg :: "'c \<Rightarrow> 'c"
  getNSWNeg :: "'c \<Rightarrow> 'c"
  getFNeg :: "'c \<Rightarrow> 'c"
  getNot :: "'c \<Rightarrow> 'c"
  getBin :: "binop \<Rightarrow> 'c \<Rightarrow> 'c \<Rightarrow> 'c"
  getCmp :: "cmp_pred \<Rightarrow> 'c \<Rightarrow> 'c \<Rightarrow> 'c"
  getCast :: "castop \<Rightarrow> 'c \<Rightarrow> ltype \<Rightarrow> 'c"
  getGEP :: "'c \<Rightarrow> 'c list \<Rightarrow> 'c"
  string_ptr :: "ctype \<Rightarrow> string \<Rightarrow> 'c"
  function_ptr :: "string \<Rightarrow> ltype \<Rightarrow> bool \<Rightarrow> 'c"
  global_ptr :: "nat \<Rightarrow> 'c"
  string_arr :: "ctype \<Rightarrow> string \<Rightarrow> 'c"
  constant_array :: "ltype \<Rightarrow> 'c list \<Rightarrow> 'c"
  constant_struct :: "ltype \<Rightarrow> 'c list \<Rightarrow> 'c"
  aggregate_element :: "'c \<Rightarrow> nat \<Rightarrow> 'c"

subsection \<open>Predicates on LLVM types\<close>

fun lt_isIntegerTy :: "ltype \<Rightarrow> bool" where
  "lt_isIntegerTy (LInt _) = True"
| "lt_isIntegerTy _ = False"

definition lt_isFloatingPointTy :: "ltype \<Rightarrow> bool" where
  "lt_isFloatingPointTy t \<longleftrightarrow> t \<in> {LFloat, LDouble, LX86_FP80}"

fun lt_isPointerTy :: "ltype \<Rightarrow> bool" where
  "lt_isPointerTy (LPtr _) = True"
| "lt_isPointerTy _ = False"

fun lt_isAggregateType :: "ltype \<Rightarrow> bool" where
  "lt_isAggregateType (LArr _ _) = True"
| "lt_isAggregateType (LStruct _) = True"
| "lt_isAggregateType _ = False"

fun IsFuncPointer :: "ltype \<Rightarrow> bool" where
  "IsFuncPointer (LPtr (LFunc _ _ _)) = True"
| "IsFuncPointer _ = False"

fun IsArrayPointer :: "ltype \<Rightarrow> bool" where
  "IsArrayPointer (LPtr (LArr _ _)) = True"
| "IsArrayPointer _ = False"

definition V_IsIntegerTy :: "'c llvm \<Rightarrow> 'c \<Rightarrow> bool" where
  "V_IsIntegerTy L v = lt_isIntegerTy (getType L v)"

definition V_IsFloatingPointTy :: "'c llvm \<Rightarrow> 'c \<Rightarrow> bool" where
  "V_IsFloatingPointTy L v = lt_isFloatingPointTy (getType L v)"

definition V_IsPointerTy :: "'c llvm \<Rightarrow> 'c \<Rightarrow> bool" where
  "V_IsPointerTy L v = lt_isPointerTy (getType L v)"

text \<open>A pointer to an array, and the pointer to its first element as the target.\<close>

fun IsArrCastToPtr :: "ltype \<Rightarrow> ltype \<Rightarrow> bool" where
  "IsArrCastToPtr (LPtr (LArr _ e)) to = (to = LPtr e)"
| "IsArrCastToPtr _ _ = False"

definition FloatPointRank :: "ltype \<Rightarrow> int result" where
  "FloatPointRank t = (if t = LFloat then Inr 0 else if t = LDouble then Inr 1
     else if t = LX86_FP80 then Inr 2 else Inl Assert_Fail)"

fun lt_bits :: "ltype \<Rightarrow> nat" where
  "lt_bits (LInt n) = n"
| "lt_bits _ = 0"

subsection \<open>Conversions\<close>

definition GetConstantZero :: "'c llvm \<Rightarrow> ltype \<Rightarrow> 'c result" where
  "GetConstantZero L t =
     (if lt_isIntegerTy t then Inr (get_int L t 0)
      else if lt_isFloatingPointTy t then Inr (fp_zero L t)
      else if lt_isPointerTy t then Inr (null_pointer L t)
      else if lt_isAggregateType t then Inr (aggregate_zero L t)
      else Inl Assert_Fail)"

definition ConstantCastToBool :: "'c llvm \<Rightarrow> 'c \<Rightarrow> 'c result" where
  "ConstantCastToBool L v =
     (if getType L v = LInt 1 then Inr v
      else if V_IsIntegerTy L v \<or> V_IsPointerTy L v
      then bindE (GetConstantZero L (getType L v)) (\<lambda>z. Inr (getCmp L ICMP_NE v z))
      else if V_IsFloatingPointTy L v
      then bindE (GetConstantZero L (getType L v)) (\<lambda>z. Inr (getCmp L FCMP_ONE v z))
      else Inl (Diag ''this constant expression can not cast to bool''))"

definition ConstantCastTo :: "'c llvm \<Rightarrow> 'c \<Rightarrow> ltype \<Rightarrow> bool \<Rightarrow> 'c result" where
  "ConstantCastTo L v to is_unsigned =
     (if to = LInt 1 then ConstantCastToBool L v
      else if V_IsIntegerTy L v \<and> lt_isIntegerTy to
      then if lt_bits (getType L v) > lt_bits to then Inr (getCast L C_Trunc v to)
           else Inr (getCast L (if is_unsigned then C_ZExt else C_SExt) v to)
      else if V_IsIntegerTy L v \<and> lt_isFloatingPointTy to
      then Inr (getCast L (if is_unsigned then C_UIToFP else C_SIToFP) v to)
      else if V_IsFloatingPointTy L v \<and> lt_isIntegerTy to
      then Inr (getCast L (if is_unsigned then C_FPToUI else C_FPToSI) v to)
      else if V_IsFloatingPointTy L v \<and> lt_isFloatingPointTy to
      then bindE (FloatPointRank (getType L v)) (\<lambda>r. bindE (FloatPointRank to) (\<lambda>r'.
             Inr (getCast L (if r > r' then C_FPTrunc else C_FPExtend) v to)))
      else if V_IsPointerTy L v \<and> lt_isIntegerTy to then Inr (getCast L C_PtrToInt v to)
      else if V_IsIntegerTy L v \<and> lt_isPointerTy to then Inr (getCast L C_IntToPtr v to)
      else if to = LVoid \<or> getType L v = to then Inr v
      else if IsArrCastToPtr (getType L v) to
      then let zero = get_int L (LInt 64) 0 in Inr (getGEP L v [zero, zero])
      else if V_IsPointerTy L v \<and> lt_isPointerTy to then Inr (getCast L C_PointerCast v to)
      else Inl (Diag ''can not cast this expression with type''))"

end
