(* ===== verification/Kcc_Calc.thy ===== *)
theory Kcc_Calc
  imports Kcc_Ast Kcc_Constant
begin

text \<open>
  The evaluator of constant expressions, the class \<open>CalcConstantExpr\<close> of \<open>src/calc.cpp\<close>.

  \<open>Calc\<close> catches the \<open>std::runtime_error\<close> that \<open>Throw\<close> raises and returns a null pointer, and the
  caller passes the null pointer to \<open>Throw\<close> again: a result \<open>Inr None\<close> is this null pointer, and
  \<open>bindT\<close> hands it on. \<open>Inl\<close> are the errors that end the process. The visitor that computes a
  node is the branch of \<open>Calc\<close> for its class. The source evaluates the operands of a binary
  operator once to see whether they are constants and again to use them; the model names the
  value once.
\<close>

definition bindT :: "'a option result \<Rightarrow> ('a \<Rightarrow> 'b option result) \<Rightarrow> 'b option result" where
  "bindT m f = bindE m (\<lambda>v. case v of None \<Rightarrow> Inr None | Some x \<Rightarrow> f x)"

lemma bindT_cong [fundef_cong]:
  assumes "m = m'" and "\<And>x. m' = Inr (Some x) \<Longrightarrow> f x = f' x"
  shows "bindT m f = bindT m' f'"
  using assms by (auto simp: bindT_def intro!: bindE_cong split: option.splits)

lemma bindT_simps [simp]:
  "bindT (Inl e) f = Inl e" "bindT (Inr None) f = Inr None" "bindT (Inr (Some x)) f = f x"
  by (simp_all add: bindT_def)

lemma bindT_eq_Some: "(bindT m f = Inr (Some y)) \<longleftrightarrow> (\<exists>x. m = Inr (Some x) \<and> f x = Inr (Some y))"
  by (auto simp: bindT_def bindE_eq_Inr split: option.splits)

definition ok :: "'a result \<Rightarrow> 'a option result" where
  "ok m = bindE m (\<lambda>x. Inr (Some x))"

lemma ok_simps [simp]: "ok (Inr x) = Inr (Some x)" "ok (Inl e) = Inl e"
  by (simp_all add: ok_def)

subsection \<open>Operators\<close>

definition NegOp :: "'c llvm \<Rightarrow> 'c \<Rightarrow> bool \<Rightarrow> 'c result" where
  "NegOp L v is_unsigned =
     (if V_IsIntegerTy L v then Inr (if is_unsigned then getNeg L v else getNSWNeg L v)
      else if V_IsFloatingPointTy L v then Inr (getFNeg L v)
      else Inl Assert_Fail)"

definition LogicNotOp :: "'c llvm \<Rightarrow> 'c \<Rightarrow> 'c result" where
  "LogicNotOp L v = bindE (ConstantCastToBool L v) (\<lambda>b.
     Inr (getCast L C_ZExt (getBin L O_Xor b (get_int L (LInt 1) 1)) (LInt 32)))"

definition AddOp :: "'c llvm \<Rightarrow> 'c \<Rightarrow> 'c \<Rightarrow> bool \<Rightarrow> 'c result" where
  "AddOp L lhs rhs is_unsigned =
     (if V_IsIntegerTy L lhs then Inr (getBin L (if is_unsigned then O_Add else O_NSWAdd) lhs rhs)
      else if V_IsFloatingPointTy L lhs then Inr (getBin L O_FAdd lhs rhs)
      else if V_IsPointerTy L lhs then Inr (getGEP L lhs [rhs])
      else Inl Assert_Fail)"

definition DivOp :: "'c llvm \<Rightarrow> 'c \<Rightarrow> 'c \<Rightarrow> bool \<Rightarrow> 'c result" where
  "DivOp L lhs rhs is_unsigned =
     (if V_IsIntegerTy L lhs then Inr (getBin L (if is_unsigned then O_UDiv else O_SDiv) lhs rhs)
      else if V_IsFloatingPointTy L lhs then Inr (getBin L O_FDiv lhs rhs)
      else Inl Assert_Fail)"

text \<open>The difference of two pointers converts both to \<open>i64\<close> and calls itself on the integers.\<close>

definition SubOp_int :: "'c llvm \<Rightarrow> 'c \<Rightarrow> 'c \<Rightarrow> bool \<Rightarrow> 'c" where
  "SubOp_int L lhs rhs is_unsigned = getBin L (if is_unsigned then O_Sub else O_NSWSub) lhs rhs"

fun pointee :: "ltype \<Rightarrow> ltype result" where
  "pointee (LPtr t) = Inr t"
| "pointee _ = Inl Assert_Fail"

definition SubOp :: "'c llvm \<Rightarrow> data_layout \<Rightarrow> types \<Rightarrow> 'c \<Rightarrow> 'c \<Rightarrow> bool \<Rightarrow> 'c result" where
  "SubOp L dl ts lhs rhs is_unsigned =
     (if V_IsIntegerTy L lhs then Inr (SubOp_int L lhs rhs is_unsigned)
      else if V_IsFloatingPointTy L lhs then Inr (getBin L O_FSub lhs rhs)
      else if V_IsPointerTy L lhs \<and> V_IsIntegerTy L rhs
      then bindE (NegOp L rhs is_unsigned) (\<lambda>n. Inr (getGEP L lhs [n]))
      else if V_IsPointerTy L lhs \<and> V_IsPointerTy L rhs
      then bindE (pointee (getType L lhs)) (\<lambda>t.
           bindE (ConstantCastTo L lhs (LInt 64) True) (\<lambda>l.
           bindE (ConstantCastTo L rhs (LInt 64) True) (\<lambda>r.
             DivOp L (SubOp_int L l r True) (get_int L (LInt 64) (alloc_size dl (bodies ts) t)) True)))
      else Inl Assert_Fail)"

definition MulOp :: "'c llvm \<Rightarrow> 'c \<Rightarrow> 'c \<Rightarrow> bool \<Rightarrow> 'c result" where
  "MulOp L lhs rhs is_unsigned =
     (if V_IsIntegerTy L lhs then Inr (getBin L (if is_unsigned then O_Mul else O_NSWMul) lhs rhs)
      else if V_IsFloatingPointTy L lhs then Inr (getBin L O_FMul lhs rhs)
      else Inl Assert_Fail)"

definition ModOp :: "'c llvm \<Rightarrow> 'c \<Rightarrow> 'c \<Rightarrow> bool \<Rightarrow> 'c" where
  "ModOp L lhs rhs is_unsigned = getBin L (if is_unsigned then O_URem else O_SRem) lhs rhs"

definition OrOp :: "'c llvm \<Rightarrow> 'c \<Rightarrow> 'c \<Rightarrow> 'c" where "OrOp L lhs rhs = getBin L O_Or lhs rhs"

definition AndOp :: "'c llvm \<Rightarrow> 'c \<Rightarrow> 'c \<Rightarrow> 'c" where "AndOp L lhs rhs = getBin L O_And lhs rhs"

definition XorOp :: "'c llvm \<Rightarrow> 'c \<Rightarrow> 'c \<Rightarrow> 'c" where "XorOp L lhs rhs = getBin L O_Xor lhs rhs"

definition ShlOp :: "'c llvm \<Rightarrow> 'c \<Rightarrow> 'c \<Rightarrow> 'c" where "ShlOp L lhs rhs = getBin L O_Shl lhs rhs"

definition ShrOp :: "'c llvm \<Rightarrow> 'c \<Rightarrow> 'c \<Rightarrow> bool \<Rightarrow> 'c" where
  "ShrOp L lhs rhs is_unsigned = getBin L (if is_unsigned then O_LShr else O_AShr) lhs rhs"

text \<open>
  The four ordering operators differ in the predicates for unsigned and signed integers and for
  floating numbers; pointers are compared with the unsigned one.
\<close>

definition order_op :: "'c llvm \<Rightarrow> cmp_pred \<Rightarrow> cmp_pred \<Rightarrow> cmp_pred \<Rightarrow> 'c \<Rightarrow> 'c \<Rightarrow> bool \<Rightarrow> 'c result" where
  "order_op L up sp fp lhs rhs is_unsigned =
     (if V_IsIntegerTy L lhs
      then Inr (getCast L C_ZExt (getCmp L (if is_unsigned then up else sp) lhs rhs) (LInt 32))
      else if V_IsFloatingPointTy L lhs then Inr (getCast L C_ZExt (getCmp L fp lhs rhs) (LInt 32))
      else if V_IsPointerTy L lhs then Inr (getCast L C_ZExt (getCmp L up lhs rhs) (LInt 32))
      else Inl Assert_Fail)"

definition LessEqualOp :: "'c llvm \<Rightarrow> 'c \<Rightarrow> 'c \<Rightarrow> bool \<Rightarrow> 'c result" where
  "LessEqualOp L = order_op L ICMP_ULE ICMP_SLE FCMP_OLE"

definition LessOp :: "'c llvm \<Rightarrow> 'c \<Rightarrow> 'c \<Rightarrow> bool \<Rightarrow> 'c result" where
  "LessOp L = order_op L ICMP_ULT ICMP_SLT FCMP_OLT"

definition GreaterEqualOp :: "'c llvm \<Rightarrow> 'c \<Rightarrow> 'c \<Rightarrow> bool \<Rightarrow> 'c result" where
  "GreaterEqualOp L = order_op L ICMP_UGE ICMP_SGE FCMP_OGE"

definition GreaterOp :: "'c llvm \<Rightarrow> 'c \<Rightarrow> 'c \<Rightarrow> bool \<Rightarrow> 'c result" where
  "GreaterOp L = order_op L ICMP_UGT ICMP_SGT FCMP_OGT"

definition equality_op :: "'c llvm \<Rightarrow> cmp_pred \<Rightarrow> cmp_pred \<Rightarrow> 'c \<Rightarrow> 'c \<Rightarrow> 'c result" where
  "equality_op L ip fp lhs rhs =
     (if V_IsIntegerTy L lhs \<or> V_IsPointerTy L lhs
      then Inr (getCast L C_ZExt (getCmp L ip lhs rhs) (LInt 32))
      else if V_IsFloatingPointTy L lhs then Inr (getCast L C_ZExt (getCmp L fp lhs rhs) (LInt 32))
      else Inl Assert_Fail)"

definition EqualOp :: "'c llvm \<Rightarrow> 'c \<Rightarrow> 'c \<Rightarrow> 'c result" where
  "EqualOp L = equality_op L ICMP_EQ FCMP_OEQ"

definition NotEqualOp :: "'c llvm \<Rightarrow> 'c \<Rightarrow> 'c \<Rightarrow> 'c result" where
  "NotEqualOp L = equality_op L ICMP_NE FCMP_ONE"

definition LogicOrOp :: "'c llvm \<Rightarrow> 'c \<Rightarrow> 'c \<Rightarrow> 'c" where
  "LogicOrOp L lhs rhs = (if isZeroValue L lhs then get_int L (LInt 32) (of_bool (\<not> isZeroValue L rhs))
     else get_int L (LInt 32) 1)"

definition LogicAndOp :: "'c llvm \<Rightarrow> 'c \<Rightarrow> 'c \<Rightarrow> 'c" where
  "LogicAndOp L lhs rhs = (if isZeroValue L lhs then get_int L (LInt 32) 0
     else get_int L (LInt 32) (of_bool (\<not> isZeroValue L rhs)))"

subsection \<open>Visitors\<close>

text \<open>\<open>Visit(const BinaryOpExpr*)\<close> behind the evaluation of the two operands.\<close>

definition visit_binary :: "'c llvm \<Rightarrow> data_layout \<Rightarrow> types \<Rightarrow> tag \<Rightarrow> bool \<Rightarrow> 'c \<Rightarrow> 'c \<Rightarrow> 'c option result" where
  "visit_binary L dl ts op is_unsigned l r =
     (if op = Tag_kPlus then ok (AddOp L l r is_unsigned)
      else if op = Tag_kMinus then ok (SubOp L dl ts l r is_unsigned)
      else if op = Tag_kStar then ok (MulOp L l r is_unsigned)
      else if op = Tag_kSlash then
        (if isZeroValue L r then Inl (Diag ''division by zero'') else ok (DivOp L l r is_unsigned))
      else if op = Tag_kPercent then
        (if isZeroValue L r then Inl (Diag ''division by zero'') else Inr (Some (ModOp L l r is_unsigned)))
      else if op = Tag_kAmp then Inr (Some (AndOp L l r))
      else if op = Tag_kPipe then Inr (Some (OrOp L l r))
      else if op = Tag_kCaret then Inr (Some (XorOp L l r))
      else if op = Tag_kLessLess then Inr (Some (ShlOp L l r))
      else if op = Tag_kGreaterGreater then Inr (Some (ShrOp L l r is_unsigned))
      else if op = Tag_kAmpAmp then Inr (Some (LogicAndOp L l r))
      else if op = Tag_kPipePipe then Inr (Some (LogicOrOp L l r))
      else if op = Tag_kEqualEqual then ok (EqualOp L l r)
      else if op = Tag_kExclaimEqual then ok (NotEqualOp L l r)
      else if op = Tag_kLess then ok (LessOp L l r is_unsigned)
      else if op = Tag_kGreater then ok (GreaterOp L l r is_unsigned)
      else if op = Tag_kLessEqual then ok (LessEqualOp L l r is_unsigned)
      else if op = Tag_kGreaterEqual then ok (GreaterEqualOp L l r is_unsigned)
      else Inr None)"

definition visit_constant :: "'c llvm \<Rightarrow> types \<Rightarrow> ctype \<Rightarrow> (ltype \<Rightarrow> 'c) \<Rightarrow> (ltype \<Rightarrow> 'c) \<Rightarrow> 'c option result" where
  "visit_constant L ts t as_int as_float =
     (if IsIntegerTy t then bindE (GetLLVMType ts t) (\<lambda>l. Inr (Some (as_int l)))
      else if IsFloatPointTy t then bindE (GetLLVMType ts t) (\<lambda>l. Inr (Some (as_float l)))
      else Inl Assert_Fail)"

text \<open>An enumerator is an \<open>int\<close>; a plain identifier is a function; of the objects, arrays and structures
  with static storage have an address that stands for them.\<close>

fun visit_ident :: "'c llvm \<Rightarrow> heap \<Rightarrow> ident \<Rightarrow> 'c option result" where
  "visit_ident L h (Enumerator _ v) =
     bindE (GetLLVMType (h_types h) (ArithT kInt)) (\<lambda>l. Inr (Some (get_int L l v)))"
| "visit_ident L h (Ident name q lk _) = assertE (IsFunctionTy (fst q))
     (bindE (GetLLVMType (h_types h) (fst q)) (\<lambda>l. Inr (Some (function_ptr L name l (lk = Linkage_kInternal)))))"
| "visit_ident L h (Object _ n) =
     (let ob = h_objs h n; t = fst (obj_type ob) in
      if (IsGlobalVar ob \<or> IsLocalStaticVar ob) \<and> (IsArrayTy t \<or> IsStructOrUnionTy t)
      then Inr (Some (global_ptr L n)) else Inr None)"

text \<open>The index of the member in the structure, \<open>GetIndexs().back().second\<close>.\<close>

fun member_index :: "heap \<Rightarrow> expr \<Rightarrow> int result" where
  "member_index h (EIdent (Object _ m)) = (if indexs (h_objs h m) = [] then Inl Out_Of_Range
     else Inr (snd (last (indexs (h_objs h m)))))"
| "member_index h _ = Inl Assert_Fail"

lemma size_last_stmt: "ss \<noteq> [] \<Longrightarrow> last ss = SExpr (Some e) \<Longrightarrow> size e < size_list size ss"
  using size_list_estimation [of "SExpr (Some e)" ss "size e" size] last_in_set [of ss] by simp

function Calc :: "'c llvm \<Rightarrow> data_layout \<Rightarrow> heap \<Rightarrow> expr \<Rightarrow> 'c option result" where
  "Calc L dl h (EUnary op e q) =
     (if op = Tag_kPlus then Calc L dl h e
      else if op = Tag_kMinus then bindT (Calc L dl h e) (\<lambda>v. ok (NegOp L v (IsUnsigned (GetType h e))))
      else if op = Tag_kTilde then bindT (Calc L dl h e) (\<lambda>v. Inr (Some (getNot L v)))
      else if op = Tag_kExclaim then bindT (Calc L dl h e) (\<lambda>v. ok (LogicNotOp L v))
      else if op = Tag_kAmp then
        (case e of
           EIdent (Object _ n) \<Rightarrow> assertE (IsGlobalVar (h_objs h n) \<or> IsLocalStaticVar (h_objs h n))
             (Inr (Some (global_ptr L n)))
         | EIdent (Ident n q lk tn) \<Rightarrow> visit_ident L h (Ident n q lk tn)
         | EUnary op' e' _ \<Rightarrow> (if op' \<noteq> Tag_kStar then Inr None else
             (case e' of EBinary op'' l r _ \<Rightarrow> if op'' \<noteq> Tag_kPlus then Inr None
                else bindT (Calc L dl h l) (\<lambda>vl. bindT (Calc L dl h r) (\<lambda>vr. Inr (Some (getGEP L vl [vr]))))
              | _ \<Rightarrow> Inr None))
         | EBinary _ l r _ \<Rightarrow> bindT (Calc L dl h l) (\<lambda>vl. bindE (member_index h r) (\<lambda>i.
             Inr (Some (getGEP L vl [get_int L (LInt 64) i]))))
         | _ \<Rightarrow> Inr None)
      else Inr None)"
| "Calc L dl h (ECast e q) = bindT (Calc L dl h e) (\<lambda>v.
     bindE (GetLLVMType (h_types h) (fst q)) (\<lambda>l. ok (ConstantCastTo L v l (IsUnsigned (GetType h e)))))"
| "Calc L dl h (EBinary op l r q) = bindT (Calc L dl h l) (\<lambda>vl. bindT (Calc L dl h r) (\<lambda>vr.
     visit_binary L dl (h_types h) op (IsUnsigned (GetType h l)) vl vr))"
| "Calc L dl h (ECond c l r q) = bindT (Calc L dl h c) (\<lambda>v.
     if isZeroValue L v then Calc L dl h r else Calc L dl h l)"
| "Calc L dl h (EInt q v) = visit_constant L (h_types h) (fst q) (\<lambda>l. get_int L l v) (\<lambda>l. fp_zero L l)"
| "Calc L dl h (EFloat q s) = visit_constant L (h_types h) (fst q) (\<lambda>l. get_int L l 0) (\<lambda>l. get_fp L l s)"
| "Calc L dl h (EString q s) = Inr (Some (string_ptr L (fst q) s))"
| "Calc L dl h (EIdent i) = visit_ident L h i"
| "Calc L dl h (ECall f as vt q) = Inr None"
| "Calc L dl h (EStmt ss q) =
     (if IsVoidTy (fst q) then Inr None
      else if ss = [] then Inl Out_Of_Range
      else case last ss of SExpr (Some e) \<Rightarrow> Calc L dl h e | _ \<Rightarrow> Inl Assert_Fail)"
  by pat_completeness auto
termination
  by (relation "measure (\<lambda>(L, dl, h, e). size e)") (auto dest: size_last_stmt)

definition CalcInteger :: "'c llvm \<Rightarrow> data_layout \<Rightarrow> heap \<Rightarrow> expr \<Rightarrow> bool \<Rightarrow> int option result" where
  "CalcInteger L dl h e as_error = bindE (Calc L dl h e) (\<lambda>v. case v of
       None \<Rightarrow> (if as_error then Inl (Diag ''expect constant expression'') else Inr None)
     | Some c \<Rightarrow> (case getSExtValue L c of
           Some i \<Rightarrow> Inr (Some i)
         | None \<Rightarrow> Inl (Diag ''expect integer constant expression'')))"

end
