(* ===== verification/Kcc_CalcProps.thy ===== *)
theory Kcc_CalcProps
  imports Kcc_Calc Kcc_AstProps "HOL-Library.Signed_Division"
begin

text \<open>
  The evaluator of constant expressions against a reference evaluator that follows the C standard
  on mathematical integers.
\<close>

subsection \<open>What LLVM documents of integer constants\<close>

abbreviation iconst :: "'c llvm \<Rightarrow> nat \<Rightarrow> int \<Rightarrow> 'c" where
  "iconst L w v \<equiv> get_int L (LInt w) v"

definition sgn_of :: "nat \<Rightarrow> int \<Rightarrow> int" where
  "sgn_of w v = signed_take_bit (w - 1) v"

text \<open>
  The constant of width \<open>w\<close> for a number is the constant for its low \<open>w\<close> bits. The operations are
  those of the LLVM language reference, without the cases it calls poison or undefined behaviour:
  divisors that are zero, the least number divided by minus one, shifts by the width or more.
  The flag \<open>nsw\<close> makes the instruction poison on overflow; the constant folder computes the
  wrapped result, and the laws ask for it only where no overflow happens.
\<close>

definition laws_base :: "'c llvm \<Rightarrow> bool" where
  "laws_base L \<longleftrightarrow> (\<forall>w v. 0 < w \<longrightarrow> getType L (iconst L w v) = LInt w \<and>
     iconst L w (take_bit w v) = iconst L w v \<and>
     (isZeroValue L (iconst L w v) \<longleftrightarrow> take_bit w v = 0) \<and>
     (w \<le> 64 \<longrightarrow> getSExtValue L (iconst L w v) = Some (sgn_of w v)))"

definition no_overflow :: "nat \<Rightarrow> int \<Rightarrow> bool" where
  "no_overflow w v \<longleftrightarrow> - (2 ^ (w - 1)) \<le> v \<and> v < 2 ^ (w - 1)"

definition laws_arith :: "'c llvm \<Rightarrow> bool" where
  "laws_arith L \<longleftrightarrow> (\<forall>w a b. 0 < w \<longrightarrow>
     getNeg L (iconst L w a) = iconst L w (- a) \<and>
     (no_overflow w (- sgn_of w a) \<longrightarrow> getNSWNeg L (iconst L w a) = iconst L w (- a)) \<and>
     getNot L (iconst L w a) = iconst L w (NOT a) \<and>
     getBin L O_Add (iconst L w a) (iconst L w b) = iconst L w (a + b) \<and>
     (no_overflow w (sgn_of w a + sgn_of w b) \<longrightarrow>
        getBin L O_NSWAdd (iconst L w a) (iconst L w b) = iconst L w (a + b)) \<and>
     getBin L O_Sub (iconst L w a) (iconst L w b) = iconst L w (a - b) \<and>
     (no_overflow w (sgn_of w a - sgn_of w b) \<longrightarrow>
        getBin L O_NSWSub (iconst L w a) (iconst L w b) = iconst L w (a - b)) \<and>
     getBin L O_Mul (iconst L w a) (iconst L w b) = iconst L w (a * b) \<and>
     (no_overflow w (sgn_of w a * sgn_of w b) \<longrightarrow>
        getBin L O_NSWMul (iconst L w a) (iconst L w b) = iconst L w (a * b)))"

definition laws_div :: "'c llvm \<Rightarrow> bool" where
  "laws_div L \<longleftrightarrow> (\<forall>w a b. 0 < w \<longrightarrow> take_bit w b \<noteq> 0 \<longrightarrow>
     getBin L O_UDiv (iconst L w a) (iconst L w b) = iconst L w (take_bit w a div take_bit w b) \<and>
     getBin L O_URem (iconst L w a) (iconst L w b) = iconst L w (take_bit w a mod take_bit w b) \<and>
     (no_overflow w (sgn_of w a sdiv sgn_of w b) \<longrightarrow>
        getBin L O_SDiv (iconst L w a) (iconst L w b) = iconst L w (sgn_of w a sdiv sgn_of w b) \<and>
        getBin L O_SRem (iconst L w a) (iconst L w b) = iconst L w (sgn_of w a smod sgn_of w b)))"

definition laws_bits :: "'c llvm \<Rightarrow> bool" where
  "laws_bits L \<longleftrightarrow> (\<forall>w a b. 0 < w \<longrightarrow>
     getBin L O_And (iconst L w a) (iconst L w b) = iconst L w (a AND b) \<and>
     getBin L O_Or (iconst L w a) (iconst L w b) = iconst L w (a OR b) \<and>
     getBin L O_Xor (iconst L w a) (iconst L w b) = iconst L w (a XOR b) \<and>
     (take_bit w b < int w \<longrightarrow>
        getBin L O_Shl (iconst L w a) (iconst L w b) = iconst L w (push_bit (nat (take_bit w b)) a) \<and>
        getBin L O_LShr (iconst L w a) (iconst L w b) = iconst L w (drop_bit (nat (take_bit w b)) (take_bit w a)) \<and>
        getBin L O_AShr (iconst L w a) (iconst L w b) = iconst L w (drop_bit (nat (take_bit w b)) (sgn_of w a))))"

fun icmp :: "cmp_pred \<Rightarrow> nat \<Rightarrow> int \<Rightarrow> int \<Rightarrow> bool" where
  "icmp ICMP_EQ w a b = (take_bit w a = take_bit w b)"
| "icmp ICMP_NE w a b = (take_bit w a \<noteq> take_bit w b)"
| "icmp ICMP_ULT w a b = (take_bit w a < take_bit w b)"
| "icmp ICMP_ULE w a b = (take_bit w a \<le> take_bit w b)"
| "icmp ICMP_UGT w a b = (take_bit w a > take_bit w b)"
| "icmp ICMP_UGE w a b = (take_bit w a \<ge> take_bit w b)"
| "icmp ICMP_SLT w a b = (sgn_of w a < sgn_of w b)"
| "icmp ICMP_SLE w a b = (sgn_of w a \<le> sgn_of w b)"
| "icmp ICMP_SGT w a b = (sgn_of w a > sgn_of w b)"
| "icmp ICMP_SGE w a b = (sgn_of w a \<ge> sgn_of w b)"
| "icmp _ w a b = False"

definition icmp_preds :: "cmp_pred set" where
  "icmp_preds = {ICMP_EQ, ICMP_NE, ICMP_ULT, ICMP_ULE, ICMP_UGT, ICMP_UGE, ICMP_SLT, ICMP_SLE, ICMP_SGT, ICMP_SGE}"

definition laws_cmp :: "'c llvm \<Rightarrow> bool" where
  "laws_cmp L \<longleftrightarrow> (\<forall>p \<in> icmp_preds. \<forall>w a b. 0 < w \<longrightarrow>
     getCmp L p (iconst L w a) (iconst L w b) = iconst L 1 (of_bool (icmp p w a b)))"

text \<open>
  Truncation is to a smaller and extension to a larger width, as the language reference asks for;
  nothing is assumed of an extension to the constant's own width.
\<close>

definition laws_cast :: "'c llvm \<Rightarrow> bool" where
  "laws_cast L \<longleftrightarrow> (\<forall>w w' v. 0 < w \<longrightarrow> 0 < w' \<longrightarrow>
     (w' < w \<longrightarrow> getCast L C_Trunc (iconst L w v) (LInt w') = iconst L w' v) \<and>
     (w < w' \<longrightarrow> getCast L C_ZExt (iconst L w v) (LInt w') = iconst L w' (take_bit w v) \<and>
        getCast L C_SExt (iconst L w v) (LInt w') = iconst L w' (sgn_of w v)))"

definition llvm_int_laws :: "'c llvm \<Rightarrow> bool" where
  "llvm_int_laws L \<longleftrightarrow> laws_base L \<and> laws_arith L \<and> laws_div L \<and> laws_bits L \<and> laws_cmp L \<and> laws_cast L"

subsection \<open>The reference evaluator\<close>

definition int_specs :: "mask list" where
  "int_specs = [kBool, kChar, kChar OR kUnsigned, kShort, kShort OR kUnsigned, kInt,
     kInt OR kUnsigned, kLong, kLong OR kUnsigned, kLongLong, kLongLong OR kUnsigned]"

definition in_range :: "mask \<Rightarrow> int \<Rightarrow> bool" where
  "in_range s v \<longleftrightarrow> fst (c_range s) \<le> v \<and> v \<le> snd (c_range s)"

text \<open>Conversion to an integer type, and a result that wraps in an unsigned type and must fit in a signed one.\<close>

definition c_wrap :: "mask \<Rightarrow> int \<Rightarrow> int" where
  "c_wrap s v = (if c_unsigned s then take_bit (c_bits s) v else sgn_of (c_bits s) v)"

definition c_convert :: "mask \<Rightarrow> int \<Rightarrow> int" where
  "c_convert s v = (if s = kBool then of_bool (v \<noteq> 0) else c_wrap s v)"

definition c_arith :: "mask \<Rightarrow> int \<Rightarrow> int option" where
  "c_arith s v = (if c_unsigned s then Some (take_bit (c_bits s) v) else if in_range s v then Some v else None)"

definition c_unary :: "tag \<Rightarrow> mask \<Rightarrow> int \<Rightarrow> int option" where
  "c_unary op s v = (if op = Tag_kPlus then Some v else if op = Tag_kMinus then c_arith s (- v)
     else if op = Tag_kTilde then c_arith s (NOT v) else None)"

definition c_shift_ok :: "mask \<Rightarrow> int \<Rightarrow> bool" where
  "c_shift_ok s b \<longleftrightarrow> 0 \<le> b \<and> b < int (c_bits s)"

definition c_binary :: "tag \<Rightarrow> mask \<Rightarrow> int \<Rightarrow> int \<Rightarrow> int option" where
  "c_binary op s a b =
     (if op = Tag_kPlus then c_arith s (a + b)
      else if op = Tag_kMinus then c_arith s (a - b)
      else if op = Tag_kStar then c_arith s (a * b)
      else if op = Tag_kSlash then if b = 0 then None else c_arith s (a sdiv b)
      else if op = Tag_kPercent then
        if b = 0 \<or> c_arith s (a sdiv b) = None then None else Some (a smod b)
      else if op = Tag_kAmp then Some (a AND b)
      else if op = Tag_kPipe then Some (a OR b)
      else if op = Tag_kCaret then Some (a XOR b)
      else if op = Tag_kLessLess then
        if c_shift_ok s b \<and> (c_unsigned s \<or> 0 \<le> a) then c_arith s (a * 2 ^ nat b) else None
      else if op = Tag_kGreaterGreater then if c_shift_ok s b then Some (a div 2 ^ nat b) else None
      else if op = Tag_kEqualEqual then Some (of_bool (a = b))
      else if op = Tag_kExclaimEqual then Some (of_bool (a \<noteq> b))
      else if op = Tag_kLess then Some (of_bool (a < b))
      else if op = Tag_kGreater then Some (of_bool (a > b))
      else if op = Tag_kLessEqual then Some (of_bool (a \<le> b))
      else if op = Tag_kGreaterEqual then Some (of_bool (a \<ge> b))
      else None)"

text \<open>
  The value of an integer constant expression; \<open>None\<close> where the standard defines none, or the
  expression is not one. The right operand of \<open>&&\<close> and \<open>||\<close> is not evaluated where the left one
  decides.
\<close>

fun ceval :: "heap \<Rightarrow> expr \<Rightarrow> int option" where
  "ceval h (EInt q v) = (if fst q \<in> ArithT ` set int_specs \<and> IsIntegerTy (fst q)
     then Some (c_wrap (arith_spec (fst q)) v) else None)"
| "ceval h (EIdent i) = (case i of Enumerator _ v \<Rightarrow> if in_range kInt v then Some v else None | _ \<Rightarrow> None)"
| "ceval h (ECast e q) = (if fst q \<in> ArithT ` set int_specs
     then map_option (c_convert (arith_spec (fst q))) (ceval h e) else None)"
| "ceval h (EUnary op e q) = Option.bind (ceval h e) (\<lambda>v.
     if op = Tag_kExclaim then Some (of_bool (v = 0)) else c_unary op (arith_spec (GetType h e)) v)"
| "ceval h (EBinary op l r q) = Option.bind (ceval h l) (\<lambda>a.
     if op = Tag_kAmpAmp \<and> a = 0 then Some 0
     else if op = Tag_kPipePipe \<and> a \<noteq> 0 then Some 1
     else Option.bind (ceval h r) (\<lambda>b.
       if op \<in> {Tag_kAmpAmp, Tag_kPipePipe} then Some (of_bool (b \<noteq> 0))
       else c_binary op (arith_spec (GetType h l)) a b))"
| "ceval h (ECond c l r q) = Option.bind (ceval h c) (\<lambda>v. if v \<noteq> 0 then ceval h l else ceval h r)"
| "ceval h _ = None"

text \<open>
  Where \<open>Calc\<close> computes this value: both operands of \<open>&&\<close> and \<open>||\<close> have a value (\<open>Calc\<close> does not stop
  at the left one), and no cast keeps the width of its operand, unless it is one to \<open>_Bool\<close>
  (\<open>ConstantCastTo\<close> asks LLVM for an extension to the same width then). Of a conditional
  expression only the branch that is taken counts.
\<close>

fun calculable :: "heap \<Rightarrow> expr \<Rightarrow> bool" where
  "calculable h (ECast e q) = (calculable h e \<and>
     (fst q = ArithT kBool \<or> c_bits (arith_spec (GetType h e)) \<noteq> c_bits (arith_spec (fst q))))"
| "calculable h (EUnary op e q) = calculable h e"
| "calculable h (EBinary op l r q) = (calculable h l \<and> calculable h r \<and>
     (op \<in> {Tag_kAmpAmp, Tag_kPipePipe} \<longrightarrow> ceval h r \<noteq> None))"
| "calculable h (ECond c l r q) = (calculable h c \<and> (case ceval h c of None \<Rightarrow> True
     | Some v \<Rightarrow> calculable h (if v \<noteq> 0 then l else r)))"
| "calculable h _ = True"

subsection \<open>The integer types\<close>

lemma int_spec_facts:
  "s \<in> set int_specs \<Longrightarrow> 0 < c_bits s \<and> c_bits s \<le> 64 \<and> IsUnsigned (ArithT s) = c_unsigned s \<and>
     GetLLVMType ts (ArithT s) = Inr (LInt (c_bits s)) \<and> (c_bits s = 1 \<longleftrightarrow> s = kBool)"
  unfolding int_specs_def
  by (auto simp: c_bits_def spec_tables has_def Arithmetic_LLVMType_def type_preds Let_def)

lemma c_bits_pos [simp]: "s \<in> set int_specs \<Longrightarrow> 0 < c_bits s"
  using int_spec_facts by blast

lemma kInt_spec [simp]: "kInt \<in> set int_specs" "c_bits kInt = 32" "\<not> c_unsigned kInt"
  by (simp_all add: int_specs_def c_bits_def spec_tables has_def)

lemma in_range_unsigned: "c_unsigned s \<Longrightarrow> in_range s v \<longleftrightarrow> 0 \<le> v \<and> v < 2 ^ c_bits s"
  by (auto simp: in_range_def c_range_def)

lemma in_range_signed: "\<not> c_unsigned s \<Longrightarrow> in_range s v \<longleftrightarrow> no_overflow (c_bits s) v"
  by (auto simp: in_range_def c_range_def no_overflow_def)

lemma take_bit_in_range: "c_unsigned s \<Longrightarrow> in_range s v \<Longrightarrow> take_bit (c_bits s) v = v"
  by (simp add: in_range_unsigned take_bit_int_eq_self)

lemma sgn_in_range: "\<not> c_unsigned s \<Longrightarrow> 0 < c_bits s \<Longrightarrow> in_range s v \<Longrightarrow> sgn_of (c_bits s) v = v"
  by (simp add: in_range_signed no_overflow_def signed_take_bit_int_eq_self sgn_of_def)

lemma c_wrap_in_range: "0 < c_bits s \<Longrightarrow> in_range s (c_wrap s v)"
  by (cases "c_unsigned s")
     (simp_all add: in_range_unsigned in_range_signed c_wrap_def no_overflow_def sgn_of_def
       signed_take_bit_int_greater_eq_minus_exp signed_take_bit_int_less_exp)

lemma c_wrap_id: "0 < c_bits s \<Longrightarrow> in_range s v \<Longrightarrow> c_wrap s v = v"
  by (simp add: c_wrap_def take_bit_in_range sgn_in_range)

lemma take_bit_eq_in_range:
  assumes "0 < c_bits s" "in_range s a" "in_range s b"
  shows "take_bit (c_bits s) a = take_bit (c_bits s) b \<longleftrightarrow> a = b"
proof
  assume "take_bit (c_bits s) a = take_bit (c_bits s) b"
  then have "c_wrap s a = c_wrap s b"
    using assms(1) signed_take_bit_take_bit [of "c_bits s - 1" "c_bits s"]
    by (cases "c_bits s") (auto simp: c_wrap_def sgn_of_def signed_take_bit_eq_iff_take_bit_eq)
  then show "a = b" using assms by (simp add: c_wrap_id)
qed simp

lemma zero_in_range: "0 < c_bits s \<Longrightarrow> in_range s 0"
  by (cases "c_unsigned s") (simp_all add: in_range_unsigned in_range_signed no_overflow_def)

lemma take_bit_zero_in_range: "0 < c_bits s \<Longrightarrow> in_range s v \<Longrightarrow> take_bit (c_bits s) v = 0 \<longleftrightarrow> v = 0"
  using take_bit_eq_in_range [of s v 0] by (simp add: zero_in_range)

lemma of_bool_in_range [simp]: "in_range kInt (of_bool b)"
  by (simp add: in_range_signed no_overflow_def)

lemma c_arith_range: "c_arith s v = Some x \<Longrightarrow> 0 < c_bits s \<Longrightarrow> in_range s x"
  by (auto simp: c_arith_def in_range_unsigned split: if_splits)

lemma c_arith_signed: "c_arith s v = Some x \<Longrightarrow> \<not> c_unsigned s \<Longrightarrow> x = v \<and> no_overflow (c_bits s) v"
  by (auto simp: c_arith_def in_range_signed split: if_splits)

subsection \<open>Operators on constants\<close>

lemma base_laws:
  assumes "llvm_int_laws L" and "0 < w"
  shows "getType L (iconst L w v) = LInt w" "iconst L w (take_bit w v) = iconst L w v"
    "isZeroValue L (iconst L w v) \<longleftrightarrow> take_bit w v = 0"
    "w \<le> 64 \<Longrightarrow> getSExtValue L (iconst L w v) = Some (sgn_of w v)"
  using assms by (simp_all add: llvm_int_laws_def laws_base_def)

lemma iconst_eqI: "llvm_int_laws L \<Longrightarrow> 0 < w \<Longrightarrow> take_bit w a = take_bit w b \<Longrightarrow> iconst L w a = iconst L w b"
  by (metis base_laws(2))

lemma iconst_sgn: "llvm_int_laws L \<Longrightarrow> 0 < w \<Longrightarrow> iconst L w (sgn_of w v) = iconst L w v"
  by (rule iconst_eqI) (simp_all add: take_bit_signed_take_bit sgn_of_def)

lemma iconst_c_wrap: "llvm_int_laws L \<Longrightarrow> 0 < c_bits s \<Longrightarrow> iconst L (c_bits s) (c_wrap s v) = iconst L (c_bits s) v"
  by (simp add: c_wrap_def base_laws iconst_sgn)

lemma iconst_c_arith: "llvm_int_laws L \<Longrightarrow> 0 < c_bits s \<Longrightarrow> c_arith s v = Some x \<Longrightarrow>
    iconst L (c_bits s) v = iconst L (c_bits s) x"
  by (auto simp: c_arith_def base_laws split: if_splits)

lemma V_Integer [simp]: "llvm_int_laws L \<Longrightarrow> 0 < w \<Longrightarrow> V_IsIntegerTy L (iconst L w v)"
  by (simp add: V_IsIntegerTy_def base_laws)

lemma arith_laws:
  assumes "llvm_int_laws L" and "0 < w"
  shows "getNeg L (iconst L w a) = iconst L w (- a)"
    "no_overflow w (- sgn_of w a) \<Longrightarrow> getNSWNeg L (iconst L w a) = iconst L w (- a)"
    "getNot L (iconst L w a) = iconst L w (NOT a)"
    "getBin L O_Add (iconst L w a) (iconst L w b) = iconst L w (a + b)"
    "no_overflow w (sgn_of w a + sgn_of w b) \<Longrightarrow> getBin L O_NSWAdd (iconst L w a) (iconst L w b) = iconst L w (a + b)"
    "getBin L O_Sub (iconst L w a) (iconst L w b) = iconst L w (a - b)"
    "no_overflow w (sgn_of w a - sgn_of w b) \<Longrightarrow> getBin L O_NSWSub (iconst L w a) (iconst L w b) = iconst L w (a - b)"
    "getBin L O_Mul (iconst L w a) (iconst L w b) = iconst L w (a * b)"
    "no_overflow w (sgn_of w a * sgn_of w b) \<Longrightarrow> getBin L O_NSWMul (iconst L w a) (iconst L w b) = iconst L w (a * b)"
  using assms by (simp_all add: llvm_int_laws_def laws_arith_def)

lemma div_laws:
  assumes "llvm_int_laws L" and "0 < w" and "take_bit w b \<noteq> 0"
  shows "getBin L O_UDiv (iconst L w a) (iconst L w b) = iconst L w (take_bit w a div take_bit w b)"
    "getBin L O_URem (iconst L w a) (iconst L w b) = iconst L w (take_bit w a mod take_bit w b)"
    "no_overflow w (sgn_of w a sdiv sgn_of w b) \<Longrightarrow>
       getBin L O_SDiv (iconst L w a) (iconst L w b) = iconst L w (sgn_of w a sdiv sgn_of w b)"
    "no_overflow w (sgn_of w a sdiv sgn_of w b) \<Longrightarrow>
       getBin L O_SRem (iconst L w a) (iconst L w b) = iconst L w (sgn_of w a smod sgn_of w b)"
  using assms by (simp_all add: llvm_int_laws_def laws_div_def)

lemma bits_laws:
  assumes "llvm_int_laws L" and "0 < w"
  shows "getBin L O_And (iconst L w a) (iconst L w b) = iconst L w (a AND b)"
    "getBin L O_Or (iconst L w a) (iconst L w b) = iconst L w (a OR b)"
    "getBin L O_Xor (iconst L w a) (iconst L w b) = iconst L w (a XOR b)"
    "take_bit w b < int w \<Longrightarrow> getBin L O_Shl (iconst L w a) (iconst L w b) = iconst L w (push_bit (nat (take_bit w b)) a)"
    "take_bit w b < int w \<Longrightarrow>
       getBin L O_LShr (iconst L w a) (iconst L w b) = iconst L w (drop_bit (nat (take_bit w b)) (take_bit w a))"
    "take_bit w b < int w \<Longrightarrow>
       getBin L O_AShr (iconst L w a) (iconst L w b) = iconst L w (drop_bit (nat (take_bit w b)) (sgn_of w a))"
  using assms by (simp_all add: llvm_int_laws_def laws_bits_def)

lemma cmp_laws: "llvm_int_laws L \<Longrightarrow> 0 < w \<Longrightarrow> p \<in> icmp_preds \<Longrightarrow>
    getCmp L p (iconst L w a) (iconst L w b) = iconst L 1 (of_bool (icmp p w a b))"
  by (simp add: llvm_int_laws_def laws_cmp_def)

lemma cast_laws:
  assumes "llvm_int_laws L" and "0 < w" and "0 < w'"
  shows "w' < w \<Longrightarrow> getCast L C_Trunc (iconst L w v) (LInt w') = iconst L w' v"
    "w < w' \<Longrightarrow> getCast L C_ZExt (iconst L w v) (LInt w') = iconst L w' (take_bit w v)"
    "w < w' \<Longrightarrow> getCast L C_SExt (iconst L w v) (LInt w') = iconst L w' (sgn_of w v)"
  using assms by (simp_all add: llvm_int_laws_def laws_cast_def)

lemma in_range_iff: "0 < c_bits s \<Longrightarrow> in_range s v \<longleftrightarrow> c_wrap s v = v"
  using c_wrap_in_range [of s v] c_wrap_id [of s v] by auto

lemma signed_take_bit_ops:
  "signed_take_bit n (a AND b) = signed_take_bit n a AND signed_take_bit n (b :: int)"
  "signed_take_bit n (a OR b) = signed_take_bit n a OR signed_take_bit n (b :: int)"
  "signed_take_bit n (a XOR b) = signed_take_bit n a XOR signed_take_bit n (b :: int)"
  by (rule bit_eqI; simp add: bit_simps)+

lemma bit_ops_in_range:
  assumes "0 < c_bits s" and "in_range s a" and "in_range s b"
  shows "in_range s (a AND b)" "in_range s (a OR b)" "in_range s (a XOR b)"
  using assms by (auto simp: in_range_iff c_wrap_def sgn_of_def signed_take_bit_ops split: if_splits)

lemma int_spec_D:
  assumes "s \<in> set int_specs"
  shows "0 < c_bits s" "c_bits s \<le> 64" "IsUnsigned (ArithT s) = c_unsigned s"
    "GetLLVMType ts (ArithT s) = Inr (LInt (c_bits s))"
  using int_spec_facts [OF assms] by auto

lemmas range_simps = take_bit_in_range sgn_in_range

lemma AddOp_correct:
  assumes "llvm_int_laws L" and "0 < c_bits s" and "in_range s a" and "in_range s b" and "c_arith s (a + b) = Some x"
  shows "AddOp L (iconst L (c_bits s) a) (iconst L (c_bits s) b) (c_unsigned s) = Inr (iconst L (c_bits s) x)"
proof (cases "c_unsigned s")
  case True
  with assms(1,2) iconst_c_arith [OF assms(1,2,5)] show ?thesis by (simp add: AddOp_def arith_laws)
next
  case False
  with assms c_arith_signed [OF assms(5)] show ?thesis by (simp add: AddOp_def arith_laws range_simps)
qed

lemma SubOp_correct:
  assumes "llvm_int_laws L" and "0 < c_bits s" and "in_range s a" and "in_range s b" and "c_arith s (a - b) = Some x"
  shows "SubOp L dl ts (iconst L (c_bits s) a) (iconst L (c_bits s) b) (c_unsigned s) = Inr (iconst L (c_bits s) x)"
proof (cases "c_unsigned s")
  case True
  with assms(1,2) iconst_c_arith [OF assms(1,2,5)] show ?thesis by (simp add: SubOp_def SubOp_int_def arith_laws)
next
  case False
  with assms c_arith_signed [OF assms(5)] show ?thesis by (simp add: SubOp_def SubOp_int_def arith_laws range_simps)
qed

lemma MulOp_correct:
  assumes "llvm_int_laws L" and "0 < c_bits s" and "in_range s a" and "in_range s b" and "c_arith s (a * b) = Some x"
  shows "MulOp L (iconst L (c_bits s) a) (iconst L (c_bits s) b) (c_unsigned s) = Inr (iconst L (c_bits s) x)"
proof (cases "c_unsigned s")
  case True
  with assms(1,2) iconst_c_arith [OF assms(1,2,5)] show ?thesis by (simp add: MulOp_def arith_laws)
next
  case False
  with assms c_arith_signed [OF assms(5)] show ?thesis by (simp add: MulOp_def arith_laws range_simps)
qed

lemma NegOp_correct:
  assumes "llvm_int_laws L" and "0 < c_bits s" and "in_range s a" and "c_arith s (- a) = Some x"
  shows "NegOp L (iconst L (c_bits s) a) (c_unsigned s) = Inr (iconst L (c_bits s) x)"
proof (cases "c_unsigned s")
  case True
  with assms(1,2) iconst_c_arith [OF assms(1,2,4)] show ?thesis by (simp add: NegOp_def arith_laws)
next
  case False
  with assms c_arith_signed [OF assms(4)] show ?thesis by (simp add: NegOp_def arith_laws range_simps)
qed

lemma nonneg_sdiv: "0 \<le> a \<Longrightarrow> 0 \<le> b \<Longrightarrow> a sdiv b = a div (b::int)" "0 \<le> a \<Longrightarrow> 0 \<le> b \<Longrightarrow> a smod b = a mod (b::int)"
  by (auto simp: signed_divide_int_def signed_modulo_int_def sgn_if modulo_int_def)

lemma DivOp_correct:
  assumes "llvm_int_laws L" and "0 < c_bits s" and "in_range s a" and "in_range s b" and "b \<noteq> 0"
    and "c_arith s (a sdiv b) = Some x"
  shows "DivOp L (iconst L (c_bits s) a) (iconst L (c_bits s) b) (c_unsigned s) = Inr (iconst L (c_bits s) x)"
proof (cases "c_unsigned s")
  case True
  then have "a sdiv b = a div b" using assms(3,4) by (simp add: in_range_unsigned nonneg_sdiv)
  with True assms(1-5) iconst_c_arith [OF assms(1,2,6)] show ?thesis
    by (simp add: DivOp_def div_laws take_bit_in_range)
next
  case False
  with assms c_arith_signed [OF assms(6)] show ?thesis
    by (simp add: DivOp_def div_laws sgn_in_range take_bit_zero_in_range)
qed

lemma ModOp_correct:
  assumes "llvm_int_laws L" and "0 < c_bits s" and "in_range s a" and "in_range s b" and "b \<noteq> 0"
    and "c_arith s (a sdiv b) = Some x"
  shows "ModOp L (iconst L (c_bits s) a) (iconst L (c_bits s) b) (c_unsigned s) = iconst L (c_bits s) (a smod b)"
proof (cases "c_unsigned s")
  case True
  then have "a smod b = a mod b" using assms(3,4) by (simp add: in_range_unsigned nonneg_sdiv)
  with True assms(1-5) show ?thesis by (simp add: ModOp_def div_laws take_bit_in_range)
next
  case False
  with assms c_arith_signed [OF assms(6)] show ?thesis
    by (simp add: ModOp_def div_laws sgn_in_range take_bit_zero_in_range)
qed

lemma shift_amount: "c_shift_ok s b \<Longrightarrow> take_bit (c_bits s) b = b"
proof -
  assume "c_shift_ok s b"
  moreover have "int (c_bits s) < 2 ^ c_bits s" using less_exp [of "c_bits s"] by (metis of_nat_less_iff of_nat_power of_nat_numeral)
  ultimately show ?thesis by (intro take_bit_int_eq_self) (auto simp: c_shift_ok_def intro: less_trans)
qed

lemma ShlOp_correct:
  assumes "llvm_int_laws L" and "0 < c_bits s" and "c_shift_ok s b" and "c_arith s (a * 2 ^ nat b) = Some x"
  shows "ShlOp L (iconst L (c_bits s) a) (iconst L (c_bits s) b) = iconst L (c_bits s) x"
  using assms iconst_c_arith [OF assms(1,2,4)] shift_amount [OF assms(3)]
  by (simp add: ShlOp_def bits_laws c_shift_ok_def push_bit_eq_mult)

lemma ShrOp_correct:
  assumes "llvm_int_laws L" and "0 < c_bits s" and "in_range s a" and "c_shift_ok s b"
  shows "ShrOp L (iconst L (c_bits s) a) (iconst L (c_bits s) b) (c_unsigned s) = iconst L (c_bits s) (a div 2 ^ nat b)"
  using assms shift_amount [OF assms(4)]
  by (simp add: ShrOp_def bits_laws c_shift_ok_def range_simps drop_bit_eq_div)

lemma order_op_correct:
  assumes "llvm_int_laws L" and "0 < w" and "up \<in> icmp_preds" and "sp \<in> icmp_preds"
  shows "order_op L up sp fp (iconst L w a) (iconst L w b) uns =
    Inr (iconst L 32 (of_bool (icmp (if uns then up else sp) w a b)))"
  using assms by (simp add: order_op_def cmp_laws cast_laws)

lemma equality_op_correct:
  assumes "llvm_int_laws L" and "0 < w" and "ip \<in> icmp_preds"
  shows "equality_op L ip fp (iconst L w a) (iconst L w b) = Inr (iconst L 32 (of_bool (icmp ip w a b)))"
  using assms by (simp add: equality_op_def cmp_laws cast_laws)


subsection \<open>The visitors\<close>

definition result_spec :: "tag \<Rightarrow> mask \<Rightarrow> mask" where
  "result_spec op s = (if op \<in> {Tag_kEqualEqual, Tag_kExclaimEqual, Tag_kLess, Tag_kGreater, Tag_kLessEqual,
     Tag_kGreaterEqual, Tag_kAmpAmp, Tag_kPipePipe} then kInt else s)"

lemma ordered_in_range:
  assumes "0 < c_bits s" and "in_range s a" and "in_range s b"
  shows "icmp (if c_unsigned s then ICMP_ULT else ICMP_SLT) (c_bits s) a b = (a < b)"
    "icmp (if c_unsigned s then ICMP_ULE else ICMP_SLE) (c_bits s) a b = (a \<le> b)"
    "icmp (if c_unsigned s then ICMP_UGT else ICMP_SGT) (c_bits s) a b = (a > b)"
    "icmp (if c_unsigned s then ICMP_UGE else ICMP_SGE) (c_bits s) a b = (a \<ge> b)"
    "icmp ICMP_EQ (c_bits s) a b = (a = b)" "icmp ICMP_NE (c_bits s) a b = (a \<noteq> b)"
  using assms by (simp_all add: range_simps take_bit_eq_in_range)

lemma icmp_preds [simp]: "ICMP_EQ \<in> icmp_preds" "ICMP_NE \<in> icmp_preds" "ICMP_ULT \<in> icmp_preds" "ICMP_ULE \<in> icmp_preds"
  "ICMP_UGT \<in> icmp_preds" "ICMP_UGE \<in> icmp_preds" "ICMP_SLT \<in> icmp_preds" "ICMP_SLE \<in> icmp_preds"
  "ICMP_SGT \<in> icmp_preds" "ICMP_SGE \<in> icmp_preds"
  by (simp_all add: icmp_preds_def)

lemma comparison_correct:
  assumes "llvm_int_laws L" and "0 < c_bits s" and "in_range s a" and "in_range s b"
  defines "A \<equiv> iconst L (c_bits s) a" and "B \<equiv> iconst L (c_bits s) b"
  shows "LessOp L A B (c_unsigned s) = Inr (iconst L 32 (of_bool (a < b)))"
    "LessEqualOp L A B (c_unsigned s) = Inr (iconst L 32 (of_bool (a \<le> b)))"
    "GreaterOp L A B (c_unsigned s) = Inr (iconst L 32 (of_bool (a > b)))"
    "GreaterEqualOp L A B (c_unsigned s) = Inr (iconst L 32 (of_bool (a \<ge> b)))"
    "EqualOp L A B = Inr (iconst L 32 (of_bool (a = b)))"
    "NotEqualOp L A B = Inr (iconst L 32 (of_bool (a \<noteq> b)))"
  unfolding A_def B_def LessOp_def LessEqualOp_def GreaterOp_def GreaterEqualOp_def EqualOp_def NotEqualOp_def
  by (simp_all only: order_op_correct [OF assms(1,2)] equality_op_correct [OF assms(1,2)] icmp_preds
      ordered_in_range [OF assms(2-4)])

text \<open>The operators that the checks give arithmetic operands.\<close>

lemma c_binary_cases [consumes 1]:
  assumes "c_binary op s a b = Some x"
  obtains "op = Tag_kPlus" "c_arith s (a + b) = Some x" | "op = Tag_kMinus" "c_arith s (a - b) = Some x"
    | "op = Tag_kStar" "c_arith s (a * b) = Some x" | "op = Tag_kSlash" "b \<noteq> 0" "c_arith s (a sdiv b) = Some x"
    | y where "op = Tag_kPercent" "b \<noteq> 0" "c_arith s (a sdiv b) = Some y" "x = a smod b"
    | "op = Tag_kAmp" "x = a AND b" | "op = Tag_kPipe" "x = a OR b" | "op = Tag_kCaret" "x = a XOR b"
    | "op = Tag_kLessLess" "c_shift_ok s b" "c_arith s (a * 2 ^ nat b) = Some x"
    | "op = Tag_kGreaterGreater" "c_shift_ok s b" "x = a div 2 ^ nat b"
    | "op = Tag_kEqualEqual" "x = of_bool (a = b)" | "op = Tag_kExclaimEqual" "x = of_bool (a \<noteq> b)"
    | "op = Tag_kLess" "x = of_bool (a < b)" | "op = Tag_kGreater" "x = of_bool (a > b)"
    | "op = Tag_kLessEqual" "x = of_bool (a \<le> b)" | "op = Tag_kGreaterEqual" "x = of_bool (a \<ge> b)"
  using assms unfolding c_binary_def by (simp split: if_split_asm) (metis option.exhaust_sel)+

lemma visit_binary_correct:
  assumes L: "llvm_int_laws L" and w: "0 < c_bits s" and a: "in_range s a" and b: "in_range s b"
    and x: "c_binary op s a b = Some x"
  shows "visit_binary L dl ts op (c_unsigned s) (iconst L (c_bits s) a) (iconst L (c_bits s) b) =
      Inr (Some (iconst L (c_bits (result_spec op s)) x))"
  using x
  by (cases rule: c_binary_cases)
     (simp_all add: visit_binary_def result_spec_def AddOp_correct [OF L w a b] SubOp_correct [OF L w a b]
      MulOp_correct [OF L w a b] DivOp_correct [OF L w a b] ModOp_correct [OF L w a b]
      comparison_correct [OF L w a b] ShlOp_correct [OF L w] ShrOp_correct [OF L w a] AndOp_def OrOp_def
      XorOp_def bits_laws [OF L w] base_laws [OF L w] take_bit_zero_in_range [OF w b])

lemma smod_in_range:
  assumes "0 < c_bits s" and "in_range s a" and "in_range s b" and "b \<noteq> 0"
  shows "in_range s (a smod b)"
proof (cases "c_unsigned s")
  case True
  with assms have "0 < b" by (auto simp: in_range_unsigned)
  with True assms show ?thesis
    by (auto simp: in_range_unsigned nonneg_sdiv intro: less_trans [OF pos_mod_bound])
next
  case False
  with assms smod_int_range [of b a] show ?thesis
    by (auto simp: in_range_signed no_overflow_def abs_if split: if_splits)
qed

lemma shift_right_in_range:
  assumes "in_range s a"
  shows "in_range s (a div 2 ^ n)"
proof -
  have d: "0 \<le> a \<Longrightarrow> 0 \<le> a div 2 ^ n \<and> a div 2 ^ n \<le> a" "a < 0 \<Longrightarrow> a \<le> a div 2 ^ n \<and> a div 2 ^ n < 0"
    using zdiv_mono2 [of a 1 "2 ^ n"] zdiv_mono2_neg [of a 1 "2 ^ n"]
    by (auto simp: pos_imp_zdiv_nonneg_iff div_neg_pos_less0)
  then show ?thesis
    using assms by (cases "c_unsigned s"; cases "0 \<le> a") (auto simp: in_range_unsigned in_range_signed no_overflow_def)
qed

lemma c_binary_range:
  assumes "0 < c_bits s" and "in_range s a" and "in_range s b" and "c_binary op s a b = Some x"
  shows "in_range (result_spec op s) x"
  using assms(4)
  by (cases rule: c_binary_cases)
     (auto simp: result_spec_def bit_ops_in_range [OF assms(1-3)] smod_in_range [OF assms(1-3)]
       shift_right_in_range [OF assms(2)] dest: c_arith_range [OF _ assms(1)])

lemma unary_correct:
  assumes L: "llvm_int_laws L" and w: "0 < c_bits s" and a: "in_range s a" and x: "c_unary op s a = Some x"
  shows "in_range s x \<and> (op = Tag_kPlus \<longrightarrow> x = a) \<and>
    (op = Tag_kMinus \<longrightarrow> NegOp L (iconst L (c_bits s) a) (c_unsigned s) = Inr (iconst L (c_bits s) x)) \<and>
    (op = Tag_kTilde \<longrightarrow> getNot L (iconst L (c_bits s) a) = iconst L (c_bits s) x)"
  using x a c_arith_range [OF _ w] iconst_c_arith [OF L w, of "NOT a" x] NegOp_correct [OF L w a, of x]
  by (auto simp: c_unary_def arith_laws [OF L w] split: if_splits)

text \<open>Conversions between integer types.\<close>

lemma ConstantCastToBool_correct:
  assumes "llvm_int_laws L" and "s \<in> set int_specs" and "in_range s v"
  shows "ConstantCastToBool L (iconst L (c_bits s) v) = Inr (iconst L 1 (of_bool (v \<noteq> 0)))"
proof -
  note w = int_spec_D(1) [OF assms(2)]
  show ?thesis
  proof (cases "c_bits s = 1")
    case True
    then have "c_unsigned s" using int_spec_facts [OF assms(2)] by (auto simp: c_unsigned_def)
    with True assms(3) have "v = 0 \<or> v = 1" by (auto simp: in_range_unsigned)
    with True assms(1) show ?thesis by (auto simp: ConstantCastToBool_def base_laws)
  next
    case False
    with assms w show ?thesis
      by (auto simp: ConstantCastToBool_def GetConstantZero_def base_laws cmp_laws take_bit_zero_in_range)
  qed
qed

lemma ConstantCastTo_correct:
  assumes L: "llvm_int_laws L" and s: "s \<in> set int_specs" and s': "s' \<in> set int_specs" and v: "in_range s v"
    and width: "s' = kBool \<or> c_bits s \<noteq> c_bits s'"
  shows "ConstantCastTo L (iconst L (c_bits s) v) (LInt (c_bits s')) (c_unsigned s) =
      Inr (iconst L (c_bits s') (c_convert s' v))"
proof (cases "c_bits s' = 1")
  case True
  then have "s' = kBool" using int_spec_facts [OF s'] by auto
  with True show ?thesis by (simp add: ConstantCastTo_def ConstantCastToBool_correct [OF L s v] c_convert_def)
next
  case False
  note w = int_spec_D(1) [OF s] and w' = int_spec_D(1) [OF s']
  from False have nb: "s' \<noteq> kBool" using int_spec_facts [OF s'] by auto
  have "ConstantCastTo L (iconst L (c_bits s) v) (LInt (c_bits s')) (c_unsigned s) = Inr (iconst L (c_bits s') v)"
    using False v w w' L width nb
    by (auto simp: ConstantCastTo_def base_laws cast_laws range_simps)
  then show ?thesis using nb by (simp add: c_convert_def iconst_c_wrap [OF L w'])
qed

subsection \<open>Expressions\<close>

lemma spec_LLVMType: "s \<in> set int_specs \<Longrightarrow> Arithmetic_LLVMType s = Inr (LInt (c_bits s))"
  using int_spec_D(4) [of s undefined] by simp

lemma bool_bits: "c_bits kBool = 1"
  by (simp add: c_bits_def)

lemma LogicNotOp_correct:
  assumes L: "llvm_int_laws L" and s: "s \<in> set int_specs" and v: "in_range s v"
  shows "LogicNotOp L (iconst L (c_bits s) v) = Inr (iconst L 32 (of_bool (v = 0)))"
  using L by (simp add: LogicNotOp_def ConstantCastToBool_correct [OF assms] bits_laws cast_laws)

definition const_of :: "'c llvm \<Rightarrow> data_layout \<Rightarrow> heap \<Rightarrow> expr \<Rightarrow> int \<Rightarrow> bool" where
  "const_of L dl h e v \<longleftrightarrow> (\<exists>s \<in> set int_specs. GetType h e = ArithT s \<and> in_range s v \<and>
     Calc L dl h e = Inr (Some (iconst L (c_bits s) v)))"

lemma const_ofI: "s \<in> set int_specs \<Longrightarrow> GetType h e = ArithT s \<Longrightarrow> in_range s v \<Longrightarrow>
    Calc L dl h e = Inr (Some (iconst L (c_bits s) v)) \<Longrightarrow> const_of L dl h e v"
  by (auto simp: const_of_def)

lemma const_ofE:
  assumes "const_of L dl h e v"
  obtains s where "s \<in> set int_specs" "GetType h e = ArithT s" "in_range s v"
    "Calc L dl h e = Inr (Some (iconst L (c_bits s) v))"
  using assms by (auto simp: const_of_def)

lemma const_of_int:
  assumes L: "llvm_int_laws L" and "ceval h (EInt q k) = Some v"
  shows "const_of L dl h (EInt q k) v"
proof -
  from assms obtain s where s: "s \<in> set int_specs" "fst q = ArithT s" "IsIntegerTy (ArithT s)" "v = c_wrap s k"
    by (auto split: if_splits)
  with L show ?thesis
    by (intro const_ofI [of s]) (simp_all add: visit_constant_def int_spec_D spec_LLVMType c_wrap_in_range iconst_c_wrap)
qed

lemma const_of_ident:
  assumes "ceval h (EIdent i) = Some v"
  shows "const_of L dl h (EIdent i) v"
  using assms int_spec_D(4) [OF kInt_spec(1)]
  by (cases i) (auto intro!: const_ofI [of kInt] split: if_splits)

lemma const_of_cast:
  assumes L: "llvm_int_laws L" and "const_of L dl h e v" and s': "s' \<in> set int_specs" and q: "fst q = ArithT s'"
    and width: "s' = kBool \<or> c_bits (arith_spec (GetType h e)) \<noteq> c_bits s'"
  shows "const_of L dl h (ECast e q) (c_convert s' v)"
proof -
  from assms(2) obtain s where s: "s \<in> set int_specs" "GetType h e = ArithT s" "in_range s v"
    "Calc L dl h e = Inr (Some (iconst L (c_bits s) v))" by (rule const_ofE)
  have "in_range s' (c_convert s' v)"
    using c_wrap_in_range [OF int_spec_D(1) [OF s']]
    by (auto simp: c_convert_def in_range_unsigned bool_bits c_unsigned_def)
  moreover have "s' = kBool \<or> c_bits s \<noteq> c_bits s'" using width s(2) by simp
  ultimately show ?thesis using s s' q
    by (intro const_ofI [of s']) (simp_all add: int_spec_D spec_LLVMType ConstantCastTo_correct [OF L])
qed

lemma const_of_unary:
  assumes L: "llvm_int_laws L" and "const_of L dl h e v" and t: "unary_typed h op e q"
    and x: "(if op = Tag_kExclaim then Some (of_bool (v = 0)) else c_unary op (arith_spec (GetType h e)) v) = Some x"
  shows "const_of L dl h (EUnary op e q) x"
proof -
  from assms(2) obtain s where s: "s \<in> set int_specs" "GetType h e = ArithT s" "in_range s v"
    "Calc L dl h e = Inr (Some (iconst L (c_bits s) v))" by (rule const_ofE)
  show ?thesis
  proof (cases "op = Tag_kExclaim")
    case True
    with x t s L show ?thesis
      by (intro const_ofI [of kInt]) (auto simp: unary_typed_def LogicNotOp_correct)
  next
    case False
    with x s have u: "c_unary op s v = Some x" by simp
    then have op: "op \<in> {Tag_kPlus, Tag_kMinus, Tag_kTilde}" by (auto simp: c_unary_def split: if_splits)
    with t have q: "fst q = ArithT s" using s(2) by (auto simp: unary_typed_def)
    show ?thesis
      using op q s int_spec_D(3) [OF s(1)] unary_correct [OF L int_spec_D(1) [OF s(1)] s(3) u]
      by (intro const_ofI [of s]) auto
  qed
qed

lemma visit_logical:
  assumes "llvm_int_laws L" and "0 < w" and "0 < w'" and "op \<in> {Tag_kAmpAmp, Tag_kPipePipe}"
  shows "visit_binary L dl ts op u (iconst L w a) (iconst L w' b) = Inr (Some (iconst L 32 (of_bool
    (if op = Tag_kAmpAmp then take_bit w a \<noteq> 0 \<and> take_bit w' b \<noteq> 0 else take_bit w a \<noteq> 0 \<or> take_bit w' b \<noteq> 0))))"
  using assms by (auto simp: visit_binary_def LogicAndOp_def LogicOrOp_def base_laws)

lemma const_of_binary:
  assumes L: "llvm_int_laws L" and "const_of L dl h l a" and "const_of L dl h r b" and t: "binary_typed h op l r q"
    and x: "ceval h l = Some a" "ceval h r = Some b" "ceval h (EBinary op l r q) = Some x"
  shows "const_of L dl h (EBinary op l r q) x"
proof -
  from assms(2) obtain s where s: "s \<in> set int_specs" "GetType h l = ArithT s" "in_range s a"
    "Calc L dl h l = Inr (Some (iconst L (c_bits s) a))" by (rule const_ofE)
  from assms(3) obtain s' where s': "s' \<in> set int_specs" "GetType h r = ArithT s'" "in_range s' b"
    "Calc L dl h r = Inr (Some (iconst L (c_bits s') b))" by (rule const_ofE)
  note w = int_spec_D(1) [OF s(1)] int_spec_D(1) [OF s'(1)]
  show ?thesis
  proof (cases "op \<in> {Tag_kAmpAmp, Tag_kPipePipe}")
    case True
    with x have x': "x = of_bool (if op = Tag_kAmpAmp then a \<noteq> 0 \<and> b \<noteq> 0 else a \<noteq> 0 \<or> b \<noteq> 0)"
      by (auto split: if_splits)
    from True t s s' w show ?thesis unfolding x'
      by (intro const_ofI [of kInt])
         (auto simp: binary_typed_def visit_logical [OF L] take_bit_zero_in_range)
  next
    case False
    with x s(2) have c: "c_binary op s a b = Some x" by auto
    then have op: "op \<notin> {Tag_kEqual, Tag_kPeriod, Tag_kComma}" by (auto simp: c_binary_def)
    have eq: "s' = s \<and> fst q = ArithT (result_spec op s)"
      using t s(2) s'(2) op False
      by (auto simp: binary_typed_def result_spec_def same_int_def same_arith_def compatible_pointers_def split: if_splits;
          metis ctype.inject(1))
    have "in_range (result_spec op s) x" using c s s' eq w by (intro c_binary_range [of s a b]) auto
    moreover have "result_spec op s \<in> set int_specs" using s(1) by (simp add: result_spec_def)
    ultimately show ?thesis
      using s s' eq c int_spec_D(3) [OF s(1)] visit_binary_correct [OF L w(1) s(3), of b op x]
      by (intro const_ofI [of "result_spec op s"]) auto
  qed
qed

lemma cond_branch_type:
  assumes "cond_typed h c l r q" and "x = l \<or> x = r" and "GetType h x = ArithT s"
  shows "fst q = ArithT s"
proof -
  have n: "\<not> IsPointerTy (ArithT s)" "\<not> IsStructOrUnionTy (ArithT s)" "\<not> IsVoidTy (ArithT s)" for s
    by (simp_all add: type_preds)
  show ?thesis
    using assms n by (auto simp: cond_typed_def same_arith_def Equal_ArithT)
qed

lemma const_of_cond:
  assumes L: "llvm_int_laws L" and c: "const_of L dl h c v" and b: "const_of L dl h (if v \<noteq> 0 then l else r) x"
    and t: "cond_typed h c l r q"
  shows "const_of L dl h (ECond c l r q) x"
proof -
  from c obtain s where s: "s \<in> set int_specs" "in_range s v" "Calc L dl h c = Inr (Some (iconst L (c_bits s) v))"
    by (rule const_ofE)
  from b obtain s' where s': "s' \<in> set int_specs" "GetType h (if v \<noteq> 0 then l else r) = ArithT s'" "in_range s' x"
    "Calc L dl h (if v \<noteq> 0 then l else r) = Inr (Some (iconst L (c_bits s') x))" by (rule const_ofE)
  have q: "fst q = ArithT s'" using cond_branch_type [OF t _ s'(2)] by auto
  have z: "isZeroValue L (iconst L (c_bits s) v) \<longleftrightarrow> v = 0"
    using s by (simp add: base_laws [OF L] take_bit_zero_in_range)
  show ?thesis
    by (rule const_ofI [OF s'(1) _ s'(3)]) (use q z s(3) s'(4) in auto)
qed

lemma ceval_const_of:
  "llvm_int_laws L \<Longrightarrow> wt h e \<Longrightarrow> calculable h e \<Longrightarrow> ceval h e = Some v \<Longrightarrow> const_of L dl h e v"
proof (induction h e arbitrary: v rule: wt.induct)
  case (1 h op e q)
  then obtain u where u: "ceval h e = Some u"
    "(if op = Tag_kExclaim then Some (of_bool (u = 0)) else c_unary op (arith_spec (GetType h e)) u) = Some v"
    by (auto simp: bind_eq_Some_conv)
  with 1 have "const_of L dl h e u" by auto
  with "1.prems"(1,2) u(2) show ?case by (intro const_of_unary) auto
next
  case (2 h e q)
  then obtain s u where s: "s \<in> set int_specs" "fst q = ArithT s" and u: "ceval h e = Some u" "v = c_convert s u"
    by (auto split: if_splits)
  with 2 have "const_of L dl h e u" by auto
  moreover have "s = kBool \<or> c_bits (arith_spec (GetType h e)) \<noteq> c_bits s" using "2.prems"(3) s(2) by simp
  ultimately show ?case using "2.prems"(1) s u by (simp add: const_of_cast)
next
  case (3 h op l r q)
  then obtain a b where ab: "ceval h l = Some a" "ceval h r = Some b"
    by (auto simp: bind_eq_Some_conv split: if_splits)
  with 3 have "const_of L dl h l a" "const_of L dl h r b" by auto
  with 3 ab show ?case by (intro const_of_binary [of L dl h l a r b]) auto
next
  case (4 h c l r q)
  then obtain u where u: "ceval h c = Some u" "ceval h (if u \<noteq> 0 then l else r) = Some v"
    by (auto simp: bind_eq_Some_conv split: if_splits)
  with 4 have "const_of L dl h c u" "const_of L dl h (if u \<noteq> 0 then l else r) v"
    by (auto split: if_splits)
  with 4 show ?case by (intro const_of_cond [of L dl h c u]) auto
next
  case "6_1"
  then show ?case by (blast intro: const_of_int)
next
  case "6_4"
  then show ?case by (blast intro: const_of_ident)
qed simp_all

text \<open>
  C11. Constant expressions: for every checked tree with a value by the C standard in which both
  operands of every \<open>&&\<close> and \<open>||\<close> have a value and every cast changes the width or goes to \<open>_Bool\<close>
  (in the parts that are evaluated), \<open>Calc\<close> returns the LLVM constant of the expression's type for
  that value, whatever LLVM's integer constants are, as long as they follow the language reference.
\<close>

theorem Calc_computes_value:
  assumes "llvm_int_laws L" and "built h e" and "calculable h e" and "ceval h e = Some v"
  shows "\<exists>s \<in> set int_specs. GetType h e = ArithT s \<and> in_range s v \<and>
     Calc L dl h e = Inr (Some (get_int L (LInt (c_bits s)) v))"
  using ceval_const_of [OF assms(1) built_wt_ind [OF assms(2)] assms(3,4), of dl] by (simp add: const_of_def)

subsection \<open>An instance of the laws\<close>

datatype int_const = IC nat int | Other ltype

fun int_getType :: "int_const \<Rightarrow> ltype" where
  "int_getType (IC w _) = LInt w"
| "int_getType (Other t) = t"

fun int_get :: "ltype \<Rightarrow> int \<Rightarrow> int_const" where
  "int_get (LInt w) v = IC w (take_bit w v)"
| "int_get t v = Other t"

fun int_bin :: "binop \<Rightarrow> nat \<Rightarrow> int \<Rightarrow> int \<Rightarrow> int" where
  "int_bin O_Add w a b = a + b" | "int_bin O_NSWAdd w a b = a + b"
| "int_bin O_Sub w a b = a - b" | "int_bin O_NSWSub w a b = a - b"
| "int_bin O_Mul w a b = a * b" | "int_bin O_NSWMul w a b = a * b"
| "int_bin O_UDiv w a b = a div b" | "int_bin O_URem w a b = a mod b"
| "int_bin O_SDiv w a b = sgn_of w a sdiv sgn_of w b" | "int_bin O_SRem w a b = sgn_of w a smod sgn_of w b"
| "int_bin O_And w a b = a AND b" | "int_bin O_Or w a b = a OR b" | "int_bin O_Xor w a b = a XOR b"
| "int_bin O_Shl w a b = push_bit (nat b) a" | "int_bin O_LShr w a b = drop_bit (nat b) a"
| "int_bin O_AShr w a b = drop_bit (nat b) (sgn_of w a)"
| "int_bin _ w a b = 0"

fun int_cast :: "castop \<Rightarrow> nat \<Rightarrow> int \<Rightarrow> int" where
  "int_cast C_SExt w v = sgn_of w v"
| "int_cast _ w v = v"

fun on_int :: "(nat \<Rightarrow> int \<Rightarrow> int_const) \<Rightarrow> int_const \<Rightarrow> int_const" where
  "on_int f (IC w v) = f w v"
| "on_int f c = c"

definition int_llvm :: "int_const llvm" where
  "int_llvm = \<lparr>getType = int_getType,
     isZeroValue = (\<lambda>c. case c of IC w v \<Rightarrow> v = 0 | _ \<Rightarrow> False),
     getSExtValue = (\<lambda>c. case c of IC w v \<Rightarrow> Some (sgn_of w v) | _ \<Rightarrow> None),
     get_int = int_get, get_fp = (\<lambda>t s. Other t), fp_zero = Other, null_pointer = Other, aggregate_zero = Other,
     getNeg = on_int (\<lambda>w v. int_get (LInt w) (- v)), getNSWNeg = on_int (\<lambda>w v. int_get (LInt w) (- v)),
     getFNeg = id, getNot = on_int (\<lambda>w v. int_get (LInt w) (NOT v)),
     getBin = (\<lambda>op a b. on_int (\<lambda>w v. on_int (\<lambda>_ u. int_get (LInt w) (int_bin op w v u)) b) a),
     getCmp = (\<lambda>p a b. on_int (\<lambda>w v. on_int (\<lambda>_ u. IC 1 (of_bool (icmp p w v u))) b) a),
     getCast = (\<lambda>op c t. on_int (\<lambda>w v. int_get t (int_cast op w v)) c),
     getGEP = (\<lambda>p i. p), string_ptr = (\<lambda>t s. Other (LPtr (LInt 8))), function_ptr = (\<lambda>n t b. Other (LPtr t)),
     global_ptr = (\<lambda>n. Other (LPtr LVoid)), string_arr = (\<lambda>t s. Other (LArr 0 (LInt 8))),
     constant_array = (\<lambda>t cs. Other t), constant_struct = (\<lambda>t cs. Other t),
     aggregate_element = (\<lambda>c n. Other (LInt 8))\<rparr>"

lemma sgn_take_bit: "0 < w \<Longrightarrow> sgn_of w (take_bit w v) = sgn_of w v"
  by (cases w) (simp_all add: sgn_of_def signed_take_bit_take_bit)

lemma icmp_take_bit: "0 < w \<Longrightarrow> icmp p w (take_bit w a) (take_bit w b) = icmp p w a b"
  by (cases p) (simp_all add: sgn_take_bit)

lemma take_bit_ops:
  "take_bit w (- take_bit w a) = take_bit w (- a :: int)" "take_bit w (NOT (take_bit w a)) = take_bit w (NOT (a :: int))"
  "take_bit w (take_bit w a + take_bit w b) = take_bit w (a + b :: int)"
  "take_bit w (take_bit w a - take_bit w b) = take_bit w (a - b :: int)"
  "take_bit w (take_bit w a * take_bit w b) = take_bit w (a * b :: int)"
  "take_bit w (push_bit n (take_bit w a)) = take_bit w (push_bit n (a :: int))"
  by (simp_all add: take_bit_minus take_bit_not_take_bit take_bit_add take_bit_diff take_bit_mult)
     (rule bit_eqI; auto simp: bit_simps)

lemma int_llvm_laws: "llvm_int_laws int_llvm"
  unfolding llvm_int_laws_def
proof (intro conjI)
  show "laws_base int_llvm" by (simp add: laws_base_def int_llvm_def sgn_take_bit)
  show "laws_arith int_llvm" by (simp add: laws_arith_def int_llvm_def take_bit_ops)
  show "laws_div int_llvm" by (simp add: laws_div_def int_llvm_def sgn_take_bit)
  show "laws_bits int_llvm" by (simp add: laws_bits_def int_llvm_def take_bit_ops sgn_take_bit)
  show "laws_cmp int_llvm" by (simp add: laws_cmp_def int_llvm_def icmp_take_bit)
  show "laws_cast int_llvm"
    by (auto simp: laws_cast_def int_llvm_def sgn_take_bit intro!: arg_cong [where f = "IC _"])
qed

text \<open>\<open>(2 + 3) * 4\<close> with the operands it is built from.\<close>

definition int_leaf :: "int \<Rightarrow> expr" where
  "int_leaf v = EInt (ArithT kInt, 0) v"

definition int_node :: "tag \<Rightarrow> expr \<Rightarrow> expr \<Rightarrow> expr" where
  "int_node op l r = EBinary op l r (ArithT kInt, 0)"

lemma int_type: "GetQualType h (int_leaf v) = (ArithT kInt, 0)" "GetQualType h (int_node op l r) = (ArithT kInt, 0)"
  by (simp_all add: int_leaf_def int_node_def)

lemma MayCast_int: "GetQualType h e = (ArithT kInt, 0) \<Longrightarrow> Expr_MayCast h e = Inr e"
  by (simp add: Expr_MayCast_def type_kinds)

lemma Convert_int: "GetQualType h l = (ArithT kInt, 0) \<Longrightarrow> GetQualType h r = (ArithT kInt, 0) \<Longrightarrow>
    Expr_Convert h l r = Inr (ArithT kInt, l, r)"
  by (simp add: Expr_Convert_def Expr_MayCastTo_def MayCast_int conv_eval)

lemma built_int_node:
  assumes "built h l" and "built h r" and "op \<in> {Tag_kPlus, Tag_kStar, Tag_kSlash}"
    and "GetQualType h l = (ArithT kInt, 0)" and "GetQualType h r = (ArithT kInt, 0)"
  shows "built h (int_node op l r)"
proof -
  have "mk_binary h op l r = Inr (int_node op l r)"
    using assms(3-5) by (auto simp: mk_binary_def MayCast_int BinaryOp_Check_def AddOpCheck_def MultiOpCheck_def
        Convert_int Let_def int_node_def)
  with assms(1,2) show ?thesis by (rule built_binary)
qed

lemma built_int_leaf: "built h (int_leaf v)"
  by (simp add: int_leaf_def built_int)

theorem Calc_computes_value_witness:
  "\<forall>h dl. Calc int_llvm dl h (int_node Tag_kStar (int_node Tag_kPlus (int_leaf 2) (int_leaf 3)) (int_leaf 4)) =
     Inr (Some (IC 32 20))"
proof (intro allI)
  fix h :: heap and dl :: data_layout
  let ?e = "int_node Tag_kStar (int_node Tag_kPlus (int_leaf 2) (int_leaf 3)) (int_leaf 4)"
  have b: "built h ?e" by (intro built_int_node built_int_leaf) (simp_all add: int_type)
  have k: "ArithT kInt \<in> ArithT ` set int_specs" "IsIntegerTy (ArithT kInt)"
    by (simp_all add: int_specs_def spec_tables)
  have v: "ceval h ?e = Some 20"
    using k by (simp add: int_node_def int_leaf_def c_binary_def c_arith_def c_wrap_def sgn_of_def in_range_signed
        no_overflow_def)
  have c: "calculable h ?e" by (simp add: int_node_def int_leaf_def)
  show "Calc int_llvm dl h ?e = Inr (Some (IC 32 20))"
    using Calc_computes_value [OF int_llvm_laws b c v, of dl] by (auto simp: int_type int_llvm_def)
qed

lemma sgn_of_unsigned:
  assumes "0 < w" and "0 \<le> v" and "v < 2 ^ w"
  shows "sgn_of w v = (if v < 2 ^ (w - 1) then v else v - 2 ^ w)"
proof (cases w)
  case (Suc n)
  show ?thesis
  proof (cases "v < 2 ^ n")
    case True
    with assms Suc show ?thesis by (simp add: sgn_of_def signed_take_bit_int_eq_self)
  next
    case False
    with assms Suc have "v div 2 ^ n = 1" by (intro int_div_pos_eq [of _ _ _ "v - 2 ^ n"]) auto
    with assms Suc False show ?thesis
      by (simp add: sgn_of_def signed_take_bit_eq_take_bit_minus take_bit_int_eq_self bit_iff_odd)
  qed
qed (use assms in simp)

lemma CalcInteger_const: "const_of L dl h e v \<Longrightarrow> llvm_int_laws L \<Longrightarrow>
    \<exists>s \<in> set int_specs. GetType h e = ArithT s \<and> in_range s v \<and>
      CalcInteger L dl h e b = Inr (Some (sgn_of (c_bits s) v))"
  by (auto elim!: const_ofE simp: CalcInteger_def base_laws int_spec_D)

text \<open>
  C32. \<open>CalcInteger\<close> reads the constant as a signed number: for an expression as above of a signed
  type it returns its value, for one of an unsigned type (or \<open>_Bool\<close>) whose highest bit is set the
  value less two to the power of the width.
\<close>

theorem CalcInteger_value:
  assumes "llvm_int_laws L" and "built h e" and "calculable h e" and "ceval h e = Some v"
  shows "\<exists>s. GetType h e = ArithT s \<and> CalcInteger L dl h e as_error =
    Inr (Some (if c_unsigned s \<and> 2 ^ (c_bits s - 1) \<le> v then v - 2 ^ c_bits s else v))"
proof -
  from CalcInteger_const [OF ceval_const_of [OF assms(1) built_wt_ind [OF assms(2)] assms(3,4), of dl] assms(1)]
  obtain s where s: "s \<in> set int_specs" "GetType h e = ArithT s" "in_range s v"
    "CalcInteger L dl h e as_error = Inr (Some (sgn_of (c_bits s) v))" by blast
  note w = int_spec_D(1) [OF s(1)]
  have "sgn_of (c_bits s) v = (if c_unsigned s \<and> 2 ^ (c_bits s - 1) \<le> v then v - 2 ^ c_bits s else v)"
    using s(3) w by (cases "c_unsigned s") (simp_all add: in_range_unsigned sgn_of_unsigned sgn_in_range)
  with s show ?thesis by auto
qed

theorem CalcInteger_value_witness:
  "\<forall>h dl. CalcInteger int_llvm dl h (EInt (ArithT (kInt OR kUnsigned), 0) 0xFFFFFFFF) True = Inr (Some (- 1))"
proof (intro allI)
  fix h :: heap and dl :: data_layout
  let ?e = "EInt (ArithT (kInt OR kUnsigned), 0) 0xFFFFFFFF"
  have b: "built h ?e" by (rule built_int)
  have v: "ceval h ?e = Some 0xFFFFFFFF"
    by (simp add: int_specs_def spec_tables c_wrap_def c_bits_def has_def take_bit_int_eq_self)
  show "CalcInteger int_llvm dl h ?e True = Inr (Some (- 1))"
    using CalcInteger_value [OF int_llvm_laws b _ v, of dl True] by (auto simp: spec_tables c_bits_def has_def)
qed

subsection \<open>Where the evaluator differs from the standard\<close>

text \<open>
  A cast that keeps the width, as the one of an \<open>int\<close> to \<open>unsigned\<close>, asks LLVM for an extension of
  the constant to its own type, although the language reference wants the target to be wider.
\<close>

lemma same_width_cast_extends:
  assumes "Calc L dl h e = Inr (Some c)" and "getType L c = LInt w" and "w \<noteq> 1"
    and "GetLLVMType (h_types h) (fst q) = Inr (LInt w)"
  shows "Calc L dl h (ECast e q) =
    Inr (Some (getCast L (if IsUnsigned (GetType h e) then C_ZExt else C_SExt) c (getType L c)))"
  using assms by (simp add: ConstantCastTo_def V_IsIntegerTy_def)

text \<open>
  \<open>&&\<close> and \<open>||\<close> do not stop at the left operand: whatever its value, a right operand that is
  not constant makes the expression not constant, and one that ends in an error ends in it.
\<close>

theorem logical_operands_both_evaluated:
  assumes "op \<in> {Tag_kAmpAmp, Tag_kPipePipe}" and "Calc L dl h l = Inr (Some c)"
    and "Calc L dl h r = Inr None \<or> Calc L dl h r = Inl err"
  shows "Calc L dl h (EBinary op l r q) = Calc L dl h r"
  using assms by auto

theorem logical_operands_both_evaluated_witness:
  "\<forall>h dl. Calc int_llvm dl h (EBinary Tag_kPipePipe (int_leaf 1) (int_node Tag_kSlash (int_leaf 1) (int_leaf 0))
      (ArithT kInt, 0)) = Inl (Diag ''division by zero'')"
proof (intro allI)
  fix h :: heap and dl :: data_layout
  have l: "Calc int_llvm dl h (int_leaf k) = Inr (Some (IC 32 (take_bit 32 k)))" for k
    by (simp add: int_leaf_def visit_constant_def spec_tables int_spec_D(4) [OF kInt_spec(1), simplified] int_llvm_def)
  have r: "Calc int_llvm dl h (int_node Tag_kSlash (int_leaf 1) (int_leaf 0)) = Inl (Diag ''division by zero'')"
    by (simp add: int_node_def l visit_binary_def) (simp add: int_llvm_def)
  show "Calc int_llvm dl h (EBinary Tag_kPipePipe (int_leaf 1) (int_node Tag_kSlash (int_leaf 1) (int_leaf 0))
      (ArithT kInt, 0)) = Inl (Diag ''division by zero'')"
    using logical_operands_both_evaluated [of Tag_kPipePipe int_llvm dl h "int_leaf 1" "IC 32 (take_bit 32 1)"
        "int_node Tag_kSlash (int_leaf 1) (int_leaf 0)" "Diag ''division by zero''"] l r by simp
qed

text \<open>
  C33. The constant address of a member, \<open>&s.m\<close>, is formed with one index, the number \<open>i\<close> of the
  member. It is the constant for \<open>&s[i]\<close>, the address \<open>i\<close> whole structures behind \<open>s\<close>.
\<close>

theorem member_address_is_element_address:
  assumes "indexs (h_objs h n) \<noteq> []" and "snd (last (indexs (h_objs h n))) = i"
  shows "Calc L dl h (EUnary Tag_kAmp (EBinary Tag_kPeriod s (EIdent (Object m n)) q) p) =
    Calc L dl h (EUnary Tag_kAmp (EUnary Tag_kStar (EBinary Tag_kPlus s (EInt (ArithT kLong, 0) i) q') q'') p)"
  using assms by (simp add: visit_constant_def spec_tables Arithmetic_LLVMType_def type_preds Let_def has_def)

theorem member_address_is_element_address_witness:
  "\<forall>dl. \<exists>h. Calc int_llvm dl h (EUnary Tag_kAmp (EBinary Tag_kPeriod (int_leaf 0) (EIdent (Object ''b'' 0)) (VoidT, 0)) (VoidT, 0)) =
    Calc int_llvm dl h (EUnary Tag_kAmp (EUnary Tag_kStar (EBinary Tag_kPlus (int_leaf 0) (EInt (ArithT kLong, 0) 1) (VoidT, 0))
      (VoidT, 0)) (VoidT, 0))"
proof -
  obtain h :: heap where h: "indexs (h_objs h 0) = [(StructT True 0, 1)]"
  proof
    show "indexs (h_objs (h\<lparr>h_objs := \<lambda>_. (h_objs h 0)\<lparr>indexs := [(StructT True 0, 1)]\<rparr>\<rparr>) 0) = [(StructT True 0, 1)]"
      for h :: heap by simp
  qed
  show ?thesis by (rule allI, rule exI [of _ h], rule member_address_is_element_address) (simp_all add: h)
qed

end
