(* ===== verification/Kcc_Pool.thy ===== *)
theory Kcc_Pool
  imports Kcc_Prelude
begin

text \<open>
  The memory pool of \<open>src/memory_pool.h\<close>, the template that every node, type and scope is allocated
  from.

  Addresses are natural numbers, 0 the null pointer. \<open>memory\<close> is the pointer stored at an
  address: the link at the head of a block and the link in a free slot. The size and alignment of
  a slot and the size of a block are the record \<open>geometry\<close>. \<open>operator new\<close> belongs to the runtime:
  it takes the next address of a list of addresses, and raises \<open>std::bad_alloc\<close> when the list is
  empty. The pool never gives a slot back, so \<open>free_slots\<close> stays null; the branch that takes from
  it is modelled as it is written.
\<close>

record geometry =
  slot_size :: nat
  slot_align :: nat
  block_size :: nat

record pool =
  current_block :: nat
  current_slot :: nat
  last_slot :: nat
  free_slots :: nat
  memory :: "nat \<Rightarrow> nat"

definition MemoryPool :: "pool" where
  "MemoryPool = \<lparr>current_block = 0, current_slot = 0, last_slot = 0, free_slots = 0, memory = (\<lambda>_. 0)\<rparr>"

text \<open>A difference of two \<open>std::size_t\<close>, which wraps around.\<close>

definition PadPointer :: "nat \<Rightarrow> nat \<Rightarrow> nat" where
  "PadPointer p align = ((2 ^ 64 + align - p mod 2 ^ 64) mod 2 ^ 64) mod align"

fun operator_new :: "nat list \<Rightarrow> (nat \<times> nat list) result" where
  "operator_new [] = Inl (Uncaught ''std::bad_alloc'')"
| "operator_new (a # as) = Inr (a, as)"

definition AllocateBlock :: "geometry \<Rightarrow> pool \<Rightarrow> nat list \<Rightarrow> (pool \<times> nat list) result" where
  "AllocateBlock g p news = bindE (operator_new news) (\<lambda>(new_block, news').
     let body = new_block + 8
     in Inr (p\<lparr>memory := (memory p)(new_block := current_block p), current_block := new_block,
               current_slot := body + PadPointer body (slot_align g),
               last_slot := new_block + block_size g - slot_size g + 1\<rparr>, news'))"

definition Allocate :: "geometry \<Rightarrow> pool \<Rightarrow> nat list \<Rightarrow> (nat \<times> pool \<times> nat list) result" where
  "Allocate g p news =
     (if free_slots p \<noteq> 0
      then Inr (free_slots p, p\<lparr>free_slots := memory p (free_slots p)\<rparr>, news)
      else bindE (if current_slot p \<ge> last_slot p then AllocateBlock g p news else Inr (p, news)) (\<lambda>(p, news).
           Inr (current_slot p, p\<lparr>current_slot := current_slot p + slot_size g\<rparr>, news)))"

text \<open>The destructor; the result lists the blocks in the order they are deleted.\<close>

partial_function (option) MemoryPool_destroy_loop :: "(nat \<Rightarrow> nat) \<Rightarrow> nat \<Rightarrow> nat list option" where
  "MemoryPool_destroy_loop mem blk = (if blk \<noteq> 0
     then Option.bind (MemoryPool_destroy_loop mem (mem blk)) (\<lambda>bs. Some (blk # bs))
     else Some [])"

definition MemoryPool_destroy :: "pool \<Rightarrow> nat list option" where
  "MemoryPool_destroy p = MemoryPool_destroy_loop (memory p) (current_block p)"

text \<open>A sequence of \<open>n\<close> allocations, with the addresses in order.\<close>

fun alloc_seq :: "('s \<Rightarrow> (nat \<times> 's) result) \<Rightarrow> nat \<Rightarrow> 's \<Rightarrow> (nat list \<times> 's) result" where
  "alloc_seq alloc 0 s = Inr ([], s)"
| "alloc_seq alloc (Suc n) s = bindE (alloc_seq alloc n s) (\<lambda>(as, s).
     bindE (alloc s) (\<lambda>(a, s). Inr (as @ [a], s)))"

definition pool_alloc :: "geometry \<Rightarrow> pool \<times> nat list \<Rightarrow> (nat \<times> pool \<times> nat list) result" where
  "pool_alloc g s = Allocate g (fst s) (snd s)"

subsection \<open>The interface of an allocator\<close>

text \<open>
  An allocator gives out regions of a fixed size: \<open>given s rs\<close> says that the regions given out so
  far are those at the addresses \<open>rs\<close>. A new region overlaps none of them.
\<close>

definition disjoint_regions :: "nat \<Rightarrow> nat \<Rightarrow> nat \<Rightarrow> bool" where
  "disjoint_regions sz a b \<longleftrightarrow> a + sz \<le> b \<or> b + sz \<le> a"

locale allocator =
  fixes size :: nat
    and alloc :: "'s \<Rightarrow> (nat \<times> 's) result"
    and given :: "'s \<Rightarrow> nat list \<Rightarrow> bool"
  assumes alloc_fresh: "given s rs \<Longrightarrow> alloc s = Inr (a, s') \<Longrightarrow> b \<in> set rs \<Longrightarrow> disjoint_regions size a b"
    and alloc_given: "given s rs \<Longrightarrow> alloc s = Inr (a, s') \<Longrightarrow> given s' (rs @ [a])"
begin

lemma allocs_given: "given s [] \<Longrightarrow> alloc_seq alloc n s = Inr (as, s') \<Longrightarrow> given s' as"
proof (induction n arbitrary: as s')
  case (Suc n)
  then obtain bs s1 a where "alloc_seq alloc n s = Inr (bs, s1)" "alloc s1 = Inr (a, s')" "as = bs @ [a]"
    by (auto simp: result_simps)
  with Suc show ?case by (auto intro: alloc_given)
qed simp

lemma allocs_disjoint: "given s [] \<Longrightarrow> alloc_seq alloc n s = Inr (as, s') \<Longrightarrow>
    i < j \<Longrightarrow> j < length as \<Longrightarrow> disjoint_regions size (as ! i) (as ! j)"
proof (induction n arbitrary: as s')
  case (Suc n)
  then obtain bs s1 a where b: "alloc_seq alloc n s = Inr (bs, s1)" and a: "alloc s1 = Inr (a, s')" and as: "as = bs @ [a]"
    by (auto simp: result_simps)
  show ?case
  proof (cases "j = length bs")
    case True
    with Suc.prems as have "bs ! i \<in> set bs" by simp
    with alloc_fresh [OF allocs_given [OF Suc.prems(1) b] a] have "disjoint_regions size a (bs ! i)" .
    with True Suc.prems as show ?thesis by (auto simp: nth_append disjoint_regions_def)
  next
    case False
    with Suc.prems as Suc.IH [OF Suc.prems(1) b] show ?thesis by (auto simp: nth_append)
  qed
qed simp

end

subsection \<open>The pool is an allocator\<close>

definition good_geometry :: "geometry \<Rightarrow> bool" where
  "good_geometry g \<longleftrightarrow> slot_align g dvd 2 ^ 64 \<and> slot_align g dvd slot_size g \<and> 8 \<le> slot_size g \<and>
     2 * slot_size g \<le> block_size g"

text \<open>What \<open>operator new\<close> promises: aligned blocks that do not overlap.\<close>

definition good_blocks :: "geometry \<Rightarrow> nat list \<Rightarrow> bool" where
  "good_blocks g bs \<longleftrightarrow> (\<forall>b \<in> set bs. b \<noteq> 0 \<and> slot_align g dvd b) \<and>
     sorted_wrt (disjoint_regions (block_size g)) bs"

fun chain :: "(nat \<Rightarrow> nat) \<Rightarrow> nat \<Rightarrow> nat list \<Rightarrow> bool" where
  "chain mem b [] = (b = 0)"
| "chain mem b (c # cs) = (b = c \<and> b \<noteq> 0 \<and> chain mem (mem b) cs)"

definition slot_in :: "geometry \<Rightarrow> nat \<Rightarrow> nat \<Rightarrow> bool" where
  "slot_in g b r \<longleftrightarrow> b + 8 \<le> r \<and> r + slot_size g \<le> b + block_size g"

text \<open>
  \<open>bs\<close> are the blocks in use, the current one first, \<open>rs\<close> the slots given out; the slots in the
  current block lie below the current slot.
\<close>

definition cursor_ok :: "geometry \<Rightarrow> pool \<Rightarrow> nat list \<Rightarrow> bool" where
  "cursor_ok g p bs \<longleftrightarrow> (if bs = [] then current_slot p = 0 \<and> last_slot p = 0
     else hd bs + 8 \<le> current_slot p \<and> slot_align g dvd current_slot p \<and>
       last_slot p = hd bs + block_size g - slot_size g + 1)"

definition slots_ok :: "geometry \<Rightarrow> pool \<Rightarrow> nat list \<Rightarrow> nat list \<Rightarrow> bool" where
  "slots_ok g p bs rs \<longleftrightarrow> (\<forall>r \<in> set rs. slot_align g dvd r \<and>
     (\<exists>b \<in> set bs. slot_in g b r \<and> (b = hd bs \<longrightarrow> r + slot_size g \<le> current_slot p)))"

definition pool_inv :: "geometry \<Rightarrow> pool \<Rightarrow> nat list \<Rightarrow> nat list \<Rightarrow> nat list \<Rightarrow> bool" where
  "pool_inv g p news bs rs \<longleftrightarrow> free_slots p = 0 \<and> chain (memory p) (current_block p) bs \<and>
     good_blocks g (rev bs @ news) \<and> cursor_ok g p bs \<and> slots_ok g p bs rs"

lemma pad_aligns:
  assumes "al dvd (m::nat)" and "0 < m" and "0 < al"
  shows "al dvd p + (m + al - p mod m) mod m mod al"
proof -
  have "p mod m \<le> m + al" using assms(2) by (simp add: order.trans [OF less_imp_le [OF mod_less_divisor]])
  then have "p + (m + al - p mod m) = m * (p div m) + (m + al)"
    using mult_div_mod_eq [of m p] by linarith
  then have "al dvd p + (m + al - p mod m)" using assms(1) by (simp add: dvd_add dvd_mult2)
  then show ?thesis
    unfolding mod_mod_cancel [OF assms(1)] dvd_eq_mod_eq_0 mod_add_right_eq .
qed

lemma PadPointer_aligns: "al dvd 2 ^ 64 \<Longrightarrow> 0 < al \<Longrightarrow> al dvd p + PadPointer p al"
  unfolding PadPointer_def by (rule pad_aligns) simp_all

lemma PadPointer_less: "0 < al \<Longrightarrow> PadPointer p al < al"
  by (simp add: PadPointer_def)

lemma first_slot_fits:
  assumes g: "good_geometry g" and b: "slot_align g dvd b"
  defines "s \<equiv> b + 8 + PadPointer (b + 8) (slot_align g)"
  shows "slot_align g dvd s" "b + 8 \<le> s" "s + slot_size g \<le> b + block_size g"
proof -
  let ?al = "slot_align g"
  have al: "?al dvd 2 ^ 64" "0 < ?al" "?al dvd slot_size g" "8 \<le> slot_size g" "2 * slot_size g \<le> block_size g"
    using g dvd_pos_nat [of "2 ^ 64" "slot_align g"] by (auto simp: good_geometry_def)
  show d: "?al dvd s" unfolding s_def by (rule PadPointer_aligns [OF al(1,2)])
  show "b + 8 \<le> s" by (simp add: s_def)
  have "s < b + slot_size g + ?al" using PadPointer_less [OF al(2), of "b + 8"] al(4) by (simp add: s_def)
  moreover have "?al dvd b + slot_size g" using b al(3) by simp
  ultimately have "s \<le> b + slot_size g"
    using dvd_imp_le [OF dvd_diff_nat [OF d, of "b + slot_size g"]] by linarith
  with al(5) show "s + slot_size g \<le> b + block_size g" by linarith
qed

lemma good_blocks_apart:
  assumes "good_blocks g (rev bs @ news)" and "b \<in> set bs" and "b' \<in> set bs" and "b \<noteq> b'"
  shows "disjoint_regions (block_size g) b b'"
proof -
  have s: "sorted_wrt (disjoint_regions (block_size g)) (rev bs)"
    using assms(1) by (simp add: good_blocks_def sorted_wrt_append)
  from assms(2,3) obtain i j where ij: "i < length (rev bs)" "j < length (rev bs)" "rev bs ! i = b" "rev bs ! j = b'"
    by (metis in_set_conv_nth set_rev)
  with assms(4) have "i < j \<or> j < i" by (metis linorder_neqE_nat)
  with s ij show ?thesis by (auto simp: sorted_wrt_iff_nth_less disjoint_regions_def)
qed

lemma slots_apart:
  assumes i: "pool_inv g p news bs rs" and r: "r \<in> set rs" and c: "current_slot p < last_slot p"
  shows "disjoint_regions (slot_size g) (current_slot p) r"
proof -
  from c i have ne: "bs \<noteq> []" by (auto simp: pool_inv_def cursor_ok_def)
  from i r obtain b where b: "b \<in> set bs" "slot_in g b r" "b = hd bs \<Longrightarrow> r + slot_size g \<le> current_slot p"
    by (auto simp: pool_inv_def slots_ok_def)
  show ?thesis
  proof (cases "b = hd bs")
    case True
    with b(3) show ?thesis by (simp add: disjoint_regions_def)
  next
    case False
    with good_blocks_apart [of g bs news b "hd bs"] b(1) ne i
    have "disjoint_regions (block_size g) b (hd bs)" by (simp add: pool_inv_def)
    with b(2) c i ne show ?thesis
      by (auto simp: pool_inv_def cursor_ok_def slot_in_def disjoint_regions_def)
  qed
qed

lemma pool_inv_init: "good_blocks g news \<Longrightarrow> pool_inv g MemoryPool news [] []"
  by (simp add: pool_inv_def MemoryPool_def cursor_ok_def slots_ok_def)

lemma chain_update: "chain mem b bs \<Longrightarrow> a \<notin> set bs \<Longrightarrow> chain (mem(a := v)) b bs"
  by (induction bs arbitrary: b) auto

lemma AllocateBlock_inv:
  assumes g: "good_geometry g" and i: "pool_inv g p news bs rs" and a: "AllocateBlock g p news = Inr (p', news')"
  shows "\<exists>b. news = b # news' \<and> pool_inv g p' news' (b # bs) rs \<and> current_slot p' < last_slot p'"
proof -
  from a obtain b where s: "news = b # news'"
    and p': "p' = p\<lparr>memory := (memory p)(b := current_block p), current_block := b,
      current_slot := b + 8 + PadPointer (b + 8) (slot_align g), last_slot := b + block_size g - slot_size g + 1\<rparr>"
    by (cases news) (auto simp: AllocateBlock_def Let_def)
  from i s have gb: "good_blocks g (rev (b # bs) @ news')" by (simp add: pool_inv_def)
  then have b: "b \<noteq> 0" "slot_align g dvd b" by (auto simp: good_blocks_def)
  note f = first_slot_fits [OF g b(2)]
  have sz: "0 < slot_size g" "slot_size g \<le> block_size g" using g by (auto simp: good_geometry_def)
  have "b \<notin> set bs"
  proof
    assume "b \<in> set bs"
    with gb have "disjoint_regions (block_size g) b b" by (auto simp: good_blocks_def sorted_wrt_append)
    with sz show False by (simp add: disjoint_regions_def)
  qed
  then have "chain (memory p') (current_block p') (b # bs)"
    using i b(1) chain_update [of "memory p" "current_block p" bs b] by (simp add: p' pool_inv_def)
  moreover have "slots_ok g p' (b # bs) rs"
    using i \<open>b \<notin> set bs\<close> unfolding slots_ok_def pool_inv_def by (auto simp: p')
  ultimately have "pool_inv g p' news' (b # bs) rs"
    using i gb f by (simp add: pool_inv_def cursor_ok_def p')
  moreover have "current_slot p' < last_slot p'" using f(3) sz by (simp add: p')
  ultimately show ?thesis using s by blast
qed

lemma take_slot_inv:
  assumes g: "good_geometry g" and i: "pool_inv g p news bs rs" and c: "current_slot p < last_slot p"
  shows "pool_inv g (p\<lparr>current_slot := current_slot p + slot_size g\<rparr>) news bs (rs @ [current_slot p])"
proof -
  from c i have ne: "bs \<noteq> []" by (auto simp: pool_inv_def cursor_ok_def)
  have sz: "slot_size g \<le> block_size g" "slot_align g dvd slot_size g" using g by (auto simp: good_geometry_def)
  let ?p = "p\<lparr>current_slot := current_slot p + slot_size g\<rparr>"
  have cur: "hd bs + 8 \<le> current_slot p" "slot_align g dvd current_slot p"
    "last_slot p = hd bs + block_size g - slot_size g + 1"
    using i ne by (auto simp: pool_inv_def cursor_ok_def)
  have "slot_in g (hd bs) (current_slot p)" using cur c sz by (simp add: slot_in_def)
  moreover have "slots_ok g ?p bs rs" using i by (fastforce simp: pool_inv_def slots_ok_def)
  ultimately have "slots_ok g ?p bs (rs @ [current_slot p])"
    using ne cur by (auto simp: slots_ok_def intro!: bexI [of _ "hd bs"])
  with i ne cur sz show ?thesis by (auto simp: pool_inv_def cursor_ok_def intro: dvd_add)
qed

lemma pool_alloc_step:
  assumes g: "good_geometry g" and i: "pool_inv g (fst s) (snd s) bs rs" and a: "pool_alloc g s = Inr (a, s')"
  shows "\<exists>bs' used. snd s = used @ snd s' \<and> bs' = rev used @ bs \<and> pool_inv g (fst s') (snd s') bs' (rs @ [a]) \<and>
    (\<forall>r \<in> set rs. disjoint_regions (slot_size g) a r)"
proof -
  obtain p news where s: "s = (p, news)" by (cases s)
  have free: "free_slots p = 0" using i s by (simp add: pool_inv_def)
  show ?thesis
  proof (cases "current_slot p \<ge> last_slot p")
    case True
    with a s free obtain p' news' where b: "AllocateBlock g p news = Inr (p', news')"
      and r: "a = current_slot p'" "s' = (p'\<lparr>current_slot := current_slot p' + slot_size g\<rparr>, news')"
      by (auto simp: pool_alloc_def Allocate_def result_simps)
    from i s have "pool_inv g p news bs rs" by simp
    from AllocateBlock_inv [OF g this b] obtain blk where k: "news = blk # news'"
      "pool_inv g p' news' (blk # bs) rs" "current_slot p' < last_slot p'" by blast
    show ?thesis
      using take_slot_inv [OF g k(2,3)] slots_apart [OF k(2) _ k(3)] r k(1) s
      by (intro exI [of _ "blk # bs"] exI [of _ "[blk]"]) auto
  next
    case False
    with a s free have r: "a = current_slot p" "s' = (p\<lparr>current_slot := current_slot p + slot_size g\<rparr>, news)"
      by (auto simp: pool_alloc_def Allocate_def)
    from False i s have c: "current_slot p < last_slot p" "pool_inv g p news bs rs" by auto
    show ?thesis
      using take_slot_inv [OF g c(2,1)] slots_apart [OF c(2) _ c(1)] r s
      by (intro exI [of _ bs] exI [of _ "[]"]) auto
  qed
qed

definition pool_given :: "geometry \<Rightarrow> pool \<times> nat list \<Rightarrow> nat list \<Rightarrow> bool" where
  "pool_given g s rs \<longleftrightarrow> good_geometry g \<and> (\<exists>bs. pool_inv g (fst s) (snd s) bs rs)"

interpretation pool: allocator "slot_size g" "pool_alloc g" "pool_given g" for g
  by unfold_locales (auto simp: pool_given_def dest!: pool_alloc_step)

text \<open>The blocks in use after a sequence are those taken from the runtime, in order.\<close>

lemma alloc_seq_inv:
  assumes g: "good_geometry g" and b: "good_blocks g news"
  shows "alloc_seq (pool_alloc g) n (MemoryPool, news) = Inr (as, s) \<Longrightarrow>
    \<exists>used. news = used @ snd s \<and> pool_inv g (fst s) (snd s) (rev used) as"
proof (induction n arbitrary: as s)
  case 0
  then have "as = []" and "s = (MemoryPool, news)" by simp_all
  then show ?case using pool_inv_init [OF b] by simp
next
  case (Suc n)
  then obtain bs s1 a where 1: "alloc_seq (pool_alloc g) n (MemoryPool, news) = Inr (bs, s1)"
    and 2: "pool_alloc g s1 = Inr (a, s)" and as: "as = bs @ [a]" by (auto simp: result_simps)
  from Suc.IH [OF 1] obtain used where u: "news = used @ snd s1" "pool_inv g (fst s1) (snd s1) (rev used) bs" by blast
  from pool_alloc_step [OF g u(2) 2] u(1) as show ?case by auto
qed

text \<open>As many blocks as slots are always enough.\<close>

lemma pool_alloc_returns:
  "free_slots p = 0 \<Longrightarrow> \<exists>x s. pool_alloc g (p, b # news) = Inr (x, s) \<and> length news \<le> length (snd s)"
  by (simp add: pool_alloc_def Allocate_def AllocateBlock_def Let_def)

lemma alloc_seq_returns:
  assumes g: "good_geometry g" and b: "good_blocks g news"
  shows "n \<le> length news \<Longrightarrow> \<exists>as s. alloc_seq (pool_alloc g) n (MemoryPool, news) = Inr (as, s) \<and>
    length news \<le> length (snd s) + n"
proof (induction n)
  case (Suc n)
  then obtain as p rest where 1: "alloc_seq (pool_alloc g) n (MemoryPool, news) = Inr (as, p, rest)"
    and l: "length news \<le> length rest + n" by fastforce
  from alloc_seq_inv [OF g b 1] have free: "free_slots p = 0" by (auto simp: pool_inv_def)
  from l Suc.prems obtain a rest' where r: "rest = a # rest'" by (cases rest) auto
  from pool_alloc_returns [OF free, of g a rest'] obtain x s
    where "pool_alloc g (p, rest) = Inr (x, s)" "length rest' \<le> length (snd s)" using r by blast
  with 1 l r show ?case by auto
qed simp

lemma alloc_seq_length: "alloc_seq alloc n s = Inr (as, s') \<Longrightarrow> length as = n"
  by (induction n arbitrary: as s') (auto simp: result_simps)

lemma destroy_chain: "chain mem b bs \<Longrightarrow> MemoryPool_destroy_loop mem b = Some bs"
  by (induction bs arbitrary: b) (auto simp: MemoryPool_destroy_loop.simps)

text \<open>
  C15. Allocation: from a runtime that supplies at least \<open>n\<close> aligned, disjoint blocks, \<open>n\<close>
  allocations from a fresh pool succeed. The slots are aligned, no two overlap, and each lies
  inside one of the blocks, behind the block's link.
\<close>

theorem pool_slots_disjoint:
  assumes "good_geometry g" and "good_blocks g news" and "n \<le> length news"
  shows "\<exists>as p rest. alloc_seq (pool_alloc g) n (MemoryPool, news) = Inr (as, p, rest) \<and>
    (\<forall>j < length as. \<forall>i < j. disjoint_regions (slot_size g) (as ! i) (as ! j)) \<and>
    (\<forall>a \<in> set as. slot_align g dvd a \<and> (\<exists>b \<in> set news. slot_in g b a))"
proof -
  from alloc_seq_returns [OF assms] obtain as p rest where
    r: "alloc_seq (pool_alloc g) n (MemoryPool, news) = Inr (as, p, rest)" by force
  have "pool_given g (MemoryPool, news) []"
    using assms pool_inv_init by (auto simp: pool_given_def)
  then have d: "\<forall>j < length as. \<forall>i < j. disjoint_regions (slot_size g) (as ! i) (as ! j)"
    using pool.allocs_disjoint r by blast
  from alloc_seq_inv [OF assms(1,2) r] have "\<forall>a \<in> set as. slot_align g dvd a \<and> (\<exists>b \<in> set news. slot_in g b a)"
    by (fastforce simp: pool_inv_def slots_ok_def)
  with r d show ?thesis by blast
qed

definition plain_geometry :: geometry where
  "plain_geometry = \<lparr>slot_size = 24, slot_align = 8, block_size = 64\<rparr>"

lemma plain_geometry_good: "good_geometry plain_geometry"
  by (simp add: good_geometry_def plain_geometry_def)

lemma plain_blocks_good: "good_blocks plain_geometry [4096, 8192]"
  by (simp add: good_blocks_def plain_geometry_def disjoint_regions_def)

theorem pool_slots_disjoint_witness:
  "\<exists>a b p rest. alloc_seq (pool_alloc plain_geometry) 2 (MemoryPool, [4096, 8192]) = Inr ([a, b], p, rest) \<and>
    disjoint_regions 24 a b \<and> 8 dvd a"
proof -
  have "(2 :: nat) \<le> length [4096, 8192 :: nat]" by simp
  from pool_slots_disjoint [OF plain_geometry_good plain_blocks_good this] obtain as p rest where
    r: "alloc_seq (pool_alloc plain_geometry) 2 (MemoryPool, [4096, 8192]) = Inr (as, p, rest)"
    and d: "\<forall>j < length as. \<forall>i < j. disjoint_regions (slot_size plain_geometry) (as ! i) (as ! j)"
    and l: "\<forall>a \<in> set as. slot_align plain_geometry dvd a" by blast
  from alloc_seq_length [OF r] obtain a b where as: "as = [a, b]"
    by (cases as; cases "tl as") auto
  have "disjoint_regions 24 a b" "8 dvd a" using d [rule_format, of 1 0] l as by (simp_all add: plain_geometry_def)
  with r as show ?thesis by blast
qed

text \<open>
  C16. The destructor: after any sequence of allocations the walk over the links from the current
  block ends, and deletes exactly the blocks that were taken from the runtime, each once, the
  last one first.
\<close>

theorem pool_destroy_frees_all:
  assumes "good_geometry g" and "good_blocks g news"
    and "alloc_seq (pool_alloc g) n (MemoryPool, news) = Inr (as, p, rest)"
  shows "\<exists>used. news = used @ rest \<and> MemoryPool_destroy p = Some (rev used)"
  using alloc_seq_inv [OF assms] by (auto simp: pool_inv_def MemoryPool_destroy_def destroy_chain)

theorem pool_destroy_frees_all_witness:
  "\<exists>as p. alloc_seq (pool_alloc plain_geometry) 3 (MemoryPool, [4096, 8192]) = Inr (as, p, []) \<and>
    MemoryPool_destroy p = Some [8192, 4096]"
proof -
  let ?p1 = "MemoryPool\<lparr>memory := (memory MemoryPool)(4096 := 0), current_block := 4096, current_slot := 4128,
      last_slot := 4137\<rparr>"
  let ?p2 = "?p1\<lparr>current_slot := 4152\<rparr>"
  have 1: "pool_alloc plain_geometry (MemoryPool, [4096, 8192]) = Inr (4104, ?p1, [8192])"
    and 2: "pool_alloc plain_geometry (?p1, [8192]) = Inr (4128, ?p2, [8192])"
    and 3: "\<exists>p. pool_alloc plain_geometry (?p2, [8192]) = Inr (8200, p, [])"
    by (simp_all add: pool_alloc_def Allocate_def AllocateBlock_def Let_def MemoryPool_def plain_geometry_def
        PadPointer_def)
  from 3 obtain p where "pool_alloc plain_geometry (?p2, [8192]) = Inr (8200, p, [])" by blast
  with 1 2 have a: "alloc_seq (pool_alloc plain_geometry) 3 (MemoryPool, [4096, 8192]) =
      Inr ([4104, 4128, 8200], p, [])"
    unfolding numeral_3_eq_3 by simp
  from pool_destroy_frees_all [OF plain_geometry_good plain_blocks_good a] a show ?thesis by auto
qed

end
