(* ===== verification/Kcc_Monad.thy ===== *)
theory Kcc_Monad
  imports Kcc_Prelude
begin

text \<open>
  Operations on a state that may fail: the member functions of the classes \<open>Parser\<close> and \<open>CodeGen\<close>
  are functions from the members of the object, a record, to an error or a value with the new
  members. \<open>bnd\<close> runs one after the other; \<open>run\<close> holds the equation of each combinator on a state.
\<close>

type_synonym ('s, 'a) action = "'s \<Rightarrow> ('a \<times> 's) result"

named_theorems run \<open>what an operation does in a state\<close>

definition ret :: "'a \<Rightarrow> ('s, 'a) action" where
  "ret x = (\<lambda>s. Inr (x, s))"

definition bnd :: "('s, 'a) action \<Rightarrow> ('a \<Rightarrow> ('s, 'b) action) \<Rightarrow> ('s, 'b) action" where
  "bnd m f = (\<lambda>s. bindE (m s) (\<lambda>(x, s'). f x s'))"

definition failP :: "kcc_error \<Rightarrow> ('s, 'a) action" where
  "failP e = (\<lambda>s. Inl e)"

definition Error :: "string \<Rightarrow> ('s, 'a) action" where
  "Error m = failP (Diag m)"

definition assertP :: "bool \<Rightarrow> ('s, unit) action" where
  "assertP c = (if c then ret () else failP Assert_Fail)"

definition gets :: "('s \<Rightarrow> 'a) \<Rightarrow> ('s, 'a) action" where
  "gets f = (\<lambda>s. Inr (f s, s))"

definition getsE :: "('s \<Rightarrow> 'a result) \<Rightarrow> ('s, 'a) action" where
  "getsE f = (\<lambda>s. bindE (f s) (\<lambda>x. Inr (x, s)))"

definition modify :: "('s \<Rightarrow> 's) \<Rightarrow> ('s, unit) action" where
  "modify f = (\<lambda>s. Inr ((), f s))"

definition liftR :: "'a result \<Rightarrow> ('s, 'a) action" where
  "liftR m = (\<lambda>s. bindE m (\<lambda>x. Inr (x, s)))"

definition thn :: "('s, 'a) action \<Rightarrow> ('s, 'b) action \<Rightarrow> ('s, 'b) action" where
  "thn m k = bnd m (\<lambda>_. k)"

text \<open>A loop: the body is run until it returns \<open>Inr\<close>, for at most the given number of turns.\<close>

primrec repeatP :: "nat \<Rightarrow> ('a \<Rightarrow> ('s, 'a + 'b) action) \<Rightarrow> 'a \<Rightarrow> ('s, 'b) action" where
  "repeatP 0 body a = failP Out_Of_Fuel"
| "repeatP (Suc n) body a = bnd (body a) (\<lambda>r. case r of Inl a' \<Rightarrow> repeatP n body a' | Inr b \<Rightarrow> ret b)"

definition again :: "'a \<Rightarrow> ('s, 'a + 'b) action" where
  "again a = ret (Inl a)"

definition finish :: "'b \<Rightarrow> ('s, 'a + 'b) action" where
  "finish b = ret (Inr b)"

text \<open>A range-based for loop, and one that collects the values of its turns.\<close>

primrec for_each :: "('a \<Rightarrow> ('s, unit) action) \<Rightarrow> 'a list \<Rightarrow> ('s, unit) action" where
  "for_each f [] = ret ()"
| "for_each f (x # xs) = thn (f x) (for_each f xs)"

primrec mapP :: "('a \<Rightarrow> ('s, 'b) action) \<Rightarrow> 'a list \<Rightarrow> ('s, 'b list) action" where
  "mapP f [] = ret []"
| "mapP f (x # xs) = bnd (f x) (\<lambda>y. bnd (mapP f xs) (\<lambda>ys. ret (y # ys)))"

primrec foldP :: "('a \<Rightarrow> 'b \<Rightarrow> ('s, 'b) action) \<Rightarrow> 'a list \<Rightarrow> 'b \<Rightarrow> ('s, 'b) action" where
  "foldP f [] y = ret y"
| "foldP f (x # xs) y = bnd (f x y) (foldP f xs)"

lemma bnd_run [run]: "bnd m f s = bindE (m s) (\<lambda>(x, s'). f x s')"
  by (simp add: bnd_def)

lemma thn_run [run]: "thn m k s = bindE (m s) (\<lambda>(x, s'). k s')"
  by (simp add: thn_def bnd_def)

lemmas step_run [run] = ret_def failP_def Error_def gets_def getsE_def modify_def again_def finish_def

lemma liftR_run [run]: "liftR m s = bindE m (\<lambda>x. Inr (x, s))"
  by (simp add: liftR_def)

lemma assertP_run [run]: "assertP c s = (if c then Inr ((), s) else Inl Assert_Fail)"
  by (simp add: assertP_def run)

end
