(* ===== verification/Kcc_Parser.thy ===== *)
theory Kcc_Parser
  imports Kcc_Calc Kcc_Lexer Kcc_Monad
begin

text \<open>
  The state of the class \<open>Parser\<close> (\<open>src/parse.h\<close>) and the operations that do not parse: the
  cursor over the tokens, entering and leaving scopes, the tests for declarations, labels.

  A member function of the parser is a function from the state to an error or a value with the
  new state, composed by \<open>bnd\<close> (\<open>Kcc_Monad\<close>). The state is the record \<open>pstate\<close>: the tokens and the index of
  the next one, the heap with types, objects and scopes, the number of the current scope, the
  function under definition, the declarations with their initialisers, the declaration of each
  object, labels and gotos of the function, the compound statements that are open (the last
  one is \<open>compound_stmt_.top ()\<close>, each with the statements added so far), and the indices of the
  element being initialised.

  What the parser takes from outside the repository is the record \<open>env\<close>: the constants of LLVM,
  the data layout, conversions between encodings (Boost), the printed form of an LLVM type, the
  decimal form of the address of a scope, and the range of the floating numbers of the machine.

  The functions call each other recursively. A function that lies on a cycle of calls is reached
  through the record \<open>procs\<close>; \<open>Kcc_ParseStmt\<close> fills the record, with a bound on the depth of the
  recursion. Loops are bounded by the number of tokens that are left, which each turn makes
  smaller.
\<close>

subsection \<open>State\<close>

record initializer =
  in_type :: ctype
  in_expr :: expr
  in_indexs :: "(ctype \<times> int \<times> int \<times> int) list"

record 'c decl_cell =
  d_ident :: ident
  d_inits :: "initializer list"
  d_constant :: "'c option"
  d_value_init :: bool

record 'c pstate =
  p_tokens :: "token list"
  p_index :: nat
  p_heap :: heap
  p_scope :: nat
  p_func :: "ident option"
  p_decls :: "nat \<Rightarrow> 'c decl_cell"
  p_next_decl :: nat
  p_obj_decl :: "nat \<Rightarrow> nat option"
  p_labels :: "(string \<times> stmt) list"
  p_gotos :: "string list"
  p_blocks :: "stmt list list"
  p_indexs :: "(ctype \<times> int \<times> int \<times> int) list"

record 'c env =
  e_llvm :: "'c llvm"
  e_dl :: data_layout
  e_utf16 :: "string \<Rightarrow> string"
  e_utf32 :: "string \<Rightarrow> string"
  e_ucn :: "int \<Rightarrow> string"
  e_type_str :: "ltype \<Rightarrow> string"
  e_scope_str :: "nat \<Rightarrow> string"
  e_float_range :: "string \<Rightarrow> int"
  e_stream_end :: "string \<Rightarrow> nat"

type_synonym ('c, 'a) parser = "('c pstate, 'a) action"

subsection \<open>The heap and the loops\<close>

text \<open>An operation on the heap, with a value or without.\<close>

definition on_heap :: "(heap \<Rightarrow> ('a \<times> heap) result) \<Rightarrow> ('c, 'a) parser" where
  "on_heap f = (\<lambda>s. bindE (f (p_heap s)) (\<lambda>(x, h). Inr (x, s\<lparr>p_heap := h\<rparr>)))"

definition upd_heap :: "(heap \<Rightarrow> heap result) \<Rightarrow> ('c, unit) parser" where
  "upd_heap f = (\<lambda>s. bindE (f (p_heap s)) (\<lambda>h. Inr ((), s\<lparr>p_heap := h\<rparr>)))"

definition on_types :: "(types \<Rightarrow> 'a \<times> types) \<Rightarrow> ('c, 'a) parser" where
  "on_types f = on_heap (\<lambda>h. case f (h_types h) of (x, ts) \<Rightarrow> Inr (x, h\<lparr>h_types := ts\<rparr>))"

definition upd_scopes :: "(scopes \<Rightarrow> scopes) \<Rightarrow> ('c, unit) parser" where
  "upd_scopes f = upd_heap (\<lambda>h. Inr (h\<lparr>h_scopes := f (h_scopes h)\<rparr>))"

text \<open>Every turn of the loops bounded by \<open>looped\<close> consumes a token.\<close>

definition tokens_left :: "'c pstate \<Rightarrow> nat" where
  "tokens_left s = length (p_tokens s) - p_index s"

definition looped :: "('a \<Rightarrow> ('c, 'a + 'b) parser) \<Rightarrow> 'a \<Rightarrow> ('c, 'b) parser" where
  "looped body a = (\<lambda>s. repeatP (Suc (tokens_left s)) body a s)"

subsection \<open>The cursor\<close>

definition PeekTok :: "('c, token) parser" where
  "PeekTok = getsE (\<lambda>s. if p_index s < length (p_tokens s) then Inr (p_tokens s ! p_index s) else Inl Out_Of_Range)"

definition HasNextTok :: "('c, bool) parser" where
  "HasNextTok = bnd PeekTok (\<lambda>t. ret (\<not> TagIs t Tag_kEof))"

definition NextTok :: "('c, token) parser" where
  "NextTok = bnd PeekTok (\<lambda>t. thn (modify (\<lambda>s. s\<lparr>p_index := Suc (p_index s)\<rparr>)) (ret t))"

definition PutBackTok :: "('c, unit) parser" where
  "PutBackTok = bnd (gets p_index) (\<lambda>i. thn (assertP (0 < i)) (modify (\<lambda>s. s\<lparr>p_index := p_index s - 1\<rparr>)))"

definition TestTok :: "tag \<Rightarrow> ('c, bool) parser" where
  "TestTok t = bnd PeekTok (\<lambda>x. ret (TagIs x t))"

definition TryTok :: "tag \<Rightarrow> ('c, bool) parser" where
  "TryTok t = bnd (TestTok t) (\<lambda>b. if b then thn NextTok (ret True) else ret False)"

definition Expect :: "tag \<Rightarrow> ('c, token) parser" where
  "Expect t = bnd (TestTok t) (\<lambda>b. if \<not> b then Error ''expected, but got'' else NextTok)"

text \<open>Reset of the index to one taken before.\<close>

definition set_index :: "nat \<Rightarrow> ('c, unit) parser" where
  "set_index i = modify (\<lambda>s. s\<lparr>p_index := i\<rparr>)"

subsection \<open>Names\<close>

text \<open>\<open>HandleIdentifier\<close> reads the text of a token to its end.\<close>

lemma HandleEscape_room: "HandleEscape s1 = Inr (v, s2) \<Longrightarrow> Next b s = Inr (c, s1) \<Longrightarrow> room s2 < room s"
  by (drule HandleEscape_reads, drule Next_room) (auto dest: reads_room)

function HandleIdentifier_loop :: "'c env \<Rightarrow> string \<Rightarrow> scanner \<Rightarrow> string result" where
  "HandleIdentifier_loop E ident s = (if HasNext s then
       bindE (Next False s) (\<lambda>(ch, s1).
       bindE (IsUCN ch s1) (\<lambda>u.
         if u then bindE (HandleEscape s1) (\<lambda>(v, s2). HandleIdentifier_loop E (ident @ e_ucn E v) s2)
         else HandleIdentifier_loop E (ident @ [char_of ch]) s1))
     else Inr ident)"
  by pat_completeness auto
termination
  by (relation "measure (\<lambda>(E, i, s). room s)")
     (auto simp: Next_room dest: HandleEscape_room)

declare HandleIdentifier_loop.simps [simp del]

definition HandleIdentifier :: "'c env \<Rightarrow> scanner \<Rightarrow> string result" where
  "HandleIdentifier E s = HandleIdentifier_loop E [] s"

definition GetIdentifier :: "'c env \<Rightarrow> token \<Rightarrow> string result" where
  "GetIdentifier E t = assertE (IsIdentifier t) (HandleIdentifier E (Scanner_init (tok_str t)))"

definition ident_of :: "'c env \<Rightarrow> token \<Rightarrow> ('c, string) parser" where
  "ident_of E t = liftR (GetIdentifier E t)"

subsection \<open>Blocks, functions and prototypes\<close>

definition EnterScope :: "scope_type \<Rightarrow> ('c, unit) parser" where
  "EnterScope k = bnd (gets p_scope) (\<lambda>sc.
     bnd (on_heap (\<lambda>h. case Scope_Get (Some sc) k (h_scopes h) of (n, ss) \<Rightarrow> Inr (n, h\<lparr>h_scopes := ss\<rparr>))) (\<lambda>n.
       modify (\<lambda>s. s\<lparr>p_scope := n\<rparr>)))"

definition LeaveScope :: "('c, unit) parser" where
  "LeaveScope = bnd (getsE (\<lambda>s. case GetParent (h_scopes (p_heap s)) (p_scope s) of
       Some p \<Rightarrow> Inr p | None \<Rightarrow> Inl Null_Deref)) (\<lambda>p. modify (\<lambda>s. s\<lparr>p_scope := p\<rparr>))"

definition insert_params :: "(nat \<times> ctype) list \<Rightarrow> ('c, unit) parser" where
  "insert_params ps = bnd (gets p_scope) (\<lambda>sc. upd_heap (\<lambda>h. Inr (h\<lparr>h_scopes :=
     fold (\<lambda>p. InsertUsual sc (Object (obj_name (h_objs h (fst p))) (fst p))) ps (h_scopes h)\<rparr>)))"

definition EnterBlock :: "ctype option \<Rightarrow> ('c, unit) parser" where
  "EnterBlock func_type = thn (EnterScope kBlock) (case func_type of
       None \<Rightarrow> ret ()
     | Some t \<Rightarrow> bnd (liftR (FuncGetParams t)) insert_params)"

definition ExitBlock :: "('c, unit) parser" where
  "ExitBlock = LeaveScope"

definition EnterProto :: "('c, unit) parser" where
  "EnterProto = EnterScope kFuncProto"

definition ExitProto :: "('c, unit) parser" where
  "ExitProto = LeaveScope"

text \<open>\<open>FuncDef::Check\<close> asks for the names of the parameters.\<close>

definition EnterFunc :: "ident \<Rightarrow> ('c, unit) parser" where
  "EnterFunc i = bnd (gets p_heap) (\<lambda>h. bnd (liftR (FuncGetParams (fst (ident_type h i)))) (\<lambda>ps.
     if \<exists>p \<in> set ps. anonymous (h_objs h (fst p)) then Error ''param name omitted''
     else modify (\<lambda>s. s\<lparr>p_func := Some i\<rparr>)))"

definition ExitFunc :: "('c, unit) parser" where
  "ExitFunc = modify (\<lambda>s. s\<lparr>p_func := None\<rparr>)"

subsection \<open>Lookups\<close>

definition find_usual :: "string \<Rightarrow> ('c, ident option) parser" where
  "find_usual name = gets (\<lambda>s. FindUsual (h_scopes (p_heap s)) (p_scope s) name)"

definition find_usual_here :: "string \<Rightarrow> ('c, ident option) parser" where
  "find_usual_here name = gets (\<lambda>s. FindUsualInCurrScope (h_scopes (p_heap s)) (p_scope s) name)"

definition insert_usual :: "string \<Rightarrow> ident \<Rightarrow> ('c, unit) parser" where
  "insert_usual name i = bnd (gets p_scope) (\<lambda>sc. upd_scopes (InsertUsual_name sc name i))"

definition insert_tag :: "string \<Rightarrow> ident \<Rightarrow> ('c, unit) parser" where
  "insert_tag name i = bnd (gets p_scope) (\<lambda>sc. upd_scopes (InsertTag_name sc name i))"

text \<open>A name that the current scope knows as a type.\<close>

definition names_type :: "'c env \<Rightarrow> token \<Rightarrow> ('c, bool) parser" where
  "names_type E t = (if IsIdentifier t then bnd (ident_of E t) (\<lambda>n. bnd (find_usual n) (\<lambda>i.
     ret (case i of Some i \<Rightarrow> ident_IsTypeName i | None \<Rightarrow> False))) else ret False)"

definition IsTypeName :: "'c env \<Rightarrow> token \<Rightarrow> ('c, bool) parser" where
  "IsTypeName E t = (if IsTypeSpecQual t then ret True else names_type E t)"

definition IsDecl :: "'c env \<Rightarrow> token \<Rightarrow> ('c, bool) parser" where
  "IsDecl E t = (if IsDeclSpec t then ret True else names_type E t)"

definition FindLabel :: "string \<Rightarrow> ('c, stmt option) parser" where
  "FindLabel name = gets (\<lambda>s. map_of (p_labels s) name)"

subsection \<open>Trees\<close>

text \<open>A checked node is made on the heap of the moment.\<close>

definition mk :: "(heap \<Rightarrow> 'a result) \<Rightarrow> ('c, 'a) parser" where
  "mk f = getsE (\<lambda>s. f (p_heap s))"

definition binary :: "tag \<Rightarrow> expr \<Rightarrow> expr \<Rightarrow> ('c, expr) parser" where
  "binary op l r = mk (\<lambda>h. mk_binary h op l r)"

definition unary :: "tag \<Rightarrow> expr \<Rightarrow> ('c, expr) parser" where
  "unary op e = mk (\<lambda>h. mk_unary h op e)"

definition type_of :: "expr \<Rightarrow> ('c, qtype) parser" where
  "type_of e = gets (\<lambda>s. GetQualType (p_heap s) e)"

definition arith_type :: "mask \<Rightarrow> ('c, ctype) parser" where
  "arith_type m = liftR (ArithmeticType_Get m)"

definition complete :: "ctype \<Rightarrow> ('c, bool) parser" where
  "complete t = gets (\<lambda>s. IsComplete (h_types (p_heap s)) t)"

definition width_of :: "'c env \<Rightarrow> ctype \<Rightarrow> ('c, int) parser" where
  "width_of E t = getsE (\<lambda>s. GetWidth (e_dl E) (h_types (p_heap s)) t)"

definition align_of :: "'c env \<Rightarrow> ctype \<Rightarrow> ('c, int) parser" where
  "align_of E t = getsE (\<lambda>s. GetAlign (e_dl E) (h_types (p_heap s)) t)"

text \<open>A constant of an integer type, from a 64-bit number; one of type \<open>unsigned long\<close>.\<close>

definition int_constant :: "ctype \<Rightarrow> int \<Rightarrow> ('c, expr) parser" where
  "int_constant t v = mk (\<lambda>h. mk_int h t (word_of_int v))"

definition ulong_constant :: "int \<Rightarrow> ('c, expr) parser" where
  "ulong_constant v = bnd (arith_type (kLong OR kUnsigned)) (\<lambda>t. int_constant t v)"

text \<open>\<open>*CalcConstantExpr{}.CalcInteger (expr)\<close>, which reports an error where there is no constant.\<close>

definition calc_integer :: "'c env \<Rightarrow> expr \<Rightarrow> ('c, int) parser" where
  "calc_integer E e = bnd (mk (\<lambda>h. CalcInteger (e_llvm E) (e_dl E) h e True)) (\<lambda>v.
     case v of Some i \<Rightarrow> ret i | None \<Rightarrow> failP Null_Deref)"

text \<open>A new object and a new declaration.\<close>

definition new_object :: "'c env \<Rightarrow> string \<Rightarrow> qtype \<Rightarrow> mask \<Rightarrow> linkage \<Rightarrow> bool \<Rightarrow> int \<Rightarrow> ('c, nat) parser" where
  "new_object E name q storage lk anon bf = on_heap (ObjectExpr_Get (e_dl E) name q storage lk anon bf)"

definition new_decl :: "ident \<Rightarrow> ('c, nat) parser" where
  "new_decl i = bnd (gets p_next_decl) (\<lambda>n. thn (modify (\<lambda>s. s\<lparr>p_decls := (p_decls s)(n :=
     \<lparr>d_ident = i, d_inits = [], d_constant = None, d_value_init = False\<rparr>), p_next_decl := n + 1\<rparr>)) (ret n))"

definition set_decl :: "nat \<Rightarrow> nat \<Rightarrow> ('c, unit) parser" where
  "set_decl ob d = modify (\<lambda>s. s\<lparr>p_obj_decl := (p_obj_decl s)(ob := Some d)\<rparr>)"

definition upd_decl :: "nat \<Rightarrow> ('c decl_cell \<Rightarrow> 'c decl_cell) \<Rightarrow> ('c, unit) parser" where
  "upd_decl d f = modify (\<lambda>s. s\<lparr>p_decls := (p_decls s)(d := f (p_decls s d))\<rparr>)"

text \<open>\<open>compound_stmt_\<close>: a new block, a statement for the innermost one, the end of a block.\<close>

definition push_block :: "('c, unit) parser" where
  "push_block = modify (\<lambda>s. s\<lparr>p_blocks := [] # p_blocks s\<rparr>)"

definition add_stmt :: "stmt option \<Rightarrow> ('c, unit) parser" where
  "add_stmt st = (\<lambda>s. case p_blocks s of
       [] \<Rightarrow> Inl Out_Of_Range
     | b # bs \<Rightarrow> Inr ((), s\<lparr>p_blocks := AddStmt st b # bs\<rparr>))"

definition pop_block :: "('c, stmt list) parser" where
  "pop_block = (\<lambda>s. case p_blocks s of
       [] \<Rightarrow> Inl Out_Of_Range
     | b # bs \<Rightarrow> Inr (b, s\<lparr>p_blocks := bs\<rparr>))"

subsection \<open>The recursive calls\<close>

record 'c procs =
  r_Expr :: "('c, expr) parser"
  r_AssignExpr :: "('c, expr) parser"
  r_ConditionExpr :: "('c, expr) parser"
  r_CastExpr :: "('c, expr) parser"
  r_UnaryExpr :: "('c, expr) parser"
  r_TypeName :: "('c, qtype) parser"
  r_CompoundStmt :: "ctype option \<Rightarrow> ('c, stmt list) parser"
  r_Stmt :: "('c, stmt) parser"
  r_Decl :: "('c, stmt option) parser"
  r_DeclSpec :: "mask option \<Rightarrow> mask option \<Rightarrow> int option \<Rightarrow>
    ('c, qtype \<times> mask option \<times> mask option \<times> int option) parser"
  r_Declarator :: "qtype \<Rightarrow> ('c, token \<times> qtype) parser"
  r_DeclaratorTail :: "qtype \<Rightarrow> ('c, qtype) parser"
  r_Initializer :: "initializer list \<Rightarrow> qtype \<Rightarrow> bool \<Rightarrow> bool \<Rightarrow> ('c, 'c option \<times> initializer list) parser"
  r_ConstantInitializer :: "qtype \<Rightarrow> bool \<Rightarrow> bool \<Rightarrow> ('c, 'c) parser"

end
