(* ===== verification/Kcc_Literal.thy ===== *)
theory Kcc_Literal
  imports Kcc_Parser
begin

text \<open>
  Literals: what the parser does with the text of a token that is a constant or a string
  literal (\<open>HandleCharacter\<close>, \<open>HandleStringLiteral\<close> of \<open>src/lex.cpp\<close>; \<open>ParseCharacter\<close>,
  \<open>ParseInteger\<close>, \<open>ParseFloat\<close>, \<open>ParseStringLiteral\<close> of \<open>src/parse_expr.cpp\<close>;
  \<open>ConvertString\<close> of \<open>src/encoding.cpp\<close>).

  \<open>std::stoull\<close> and \<open>std::stold\<close> are modelled for a text that begins with neither white space
  nor a sign, as the text of a number token does.
\<close>

subsection \<open>Characters and strings\<close>

text \<open>The value of several characters shifts as a \<open>std::int32_t\<close>.\<close>

function HandleCharacter_loop :: "encoding \<Rightarrow> int \<Rightarrow> scanner \<Rightarrow> (int \<times> scanner) result" where
  "HandleCharacter_loop enc val s = bindE (Test (ord CHR 0x27) s) (\<lambda>b.
     if b then Inr (val, s)
     else bindE (Next False s) (\<lambda>(ch, s1).
       if ch = ord CHR 0x5C
       then bindE (HandleEscape s1) (\<lambda>(ch', s2). HandleCharacter_loop enc
              (if enc = Enc_kNone then sint (push_bit 8 (of_int val) + of_int ch' :: 32 word) else ch') s2)
       else HandleCharacter_loop enc
              (if enc = Enc_kNone then sint (push_bit 8 (of_int val) + of_int ch :: 32 word) else ch) s1))"
  by pat_completeness auto
termination
  by (relation "measure (\<lambda>(e, v, s). room s)") (auto simp: Next_room dest: HandleEscape_room)

definition HandleCharacter :: "scanner \<Rightarrow> (int \<times> encoding) result" where
  "HandleCharacter s = bindE (HandleEncoding s) (\<lambda>(enc, s1). bindE (Next False s1) (\<lambda>(_, s2).
     bindE (HandleCharacter_loop enc 0 s2) (\<lambda>(val, _). Inr (val, enc))))"

function HandleStringLiteral_loop :: "'c env \<Rightarrow> bool \<Rightarrow> string \<Rightarrow> scanner \<Rightarrow> (string \<times> scanner) result" where
  "HandleStringLiteral_loop E handle_escape str s = bindE (Test (ord CHR 0x22) s) (\<lambda>b.
     if b then Inr (str, s)
     else bindE (Next False s) (\<lambda>(ch, s1). bindE (IsUCN ch s1) (\<lambda>is_ucn.
       if handle_escape \<and> ch = ord CHR 0x5C
       then bindE (HandleEscape s1) (\<lambda>(ch', s2). HandleStringLiteral_loop E handle_escape
              (str @ (if is_ucn then e_ucn E ch' else [char_of ch'])) s2)
       else HandleStringLiteral_loop E handle_escape
              (str @ (if handle_escape \<and> is_ucn then e_ucn E ch else [char_of ch])) s1)))"
  by pat_completeness auto
termination
  by (relation "measure (\<lambda>(E, h, v, s). room s)") (auto simp: Next_room dest: HandleEscape_room)

definition HandleStringLiteral :: "'c env \<Rightarrow> bool \<Rightarrow> scanner \<Rightarrow> (string \<times> encoding) result" where
  "HandleStringLiteral E handle_escape s = bindE (HandleEncoding s) (\<lambda>(enc, s1). bindE (Next False s1) (\<lambda>(_, s2).
     bindE (HandleStringLiteral_loop E handle_escape [] s2) (\<lambda>(str, _). Inr (str, enc))))"

declare HandleCharacter_loop.simps [simp del] HandleStringLiteral_loop.simps [simp del]

fun ConvertString :: "'c env \<Rightarrow> encoding \<Rightarrow> string \<Rightarrow> string" where
  "ConvertString E Enc_kNone s = s"
| "ConvertString E Enc_kUtf8 s = s"
| "ConvertString E Enc_kChar16 s = e_utf16 E s"
| "ConvertString E Enc_kChar32 s = e_utf32 E s"
| "ConvertString E Enc_kWchar s = e_utf32 E s"

subsection \<open>Character constants\<close>

definition character_constant :: "encoding \<Rightarrow> int \<Rightarrow> (mask \<times> int) result" where
  "character_constant enc val = (case enc of
       Enc_kNone \<Rightarrow> Inr (kInt, signed_take_bit 7 val)
     | Enc_kChar16 \<Rightarrow> Inr (kShort OR kUnsigned, take_bit 16 val)
     | Enc_kChar32 \<Rightarrow> Inr (kInt OR kUnsigned, int32 (take_bit 32 val))
     | Enc_kWchar \<Rightarrow> Inr (kInt OR kUnsigned, int32 val)
     | Enc_kUtf8 \<Rightarrow> Inl (Diag ''Can't use u8 here''))"

definition ParseCharacter :: "('c, expr) parser" where
  "ParseCharacter = bnd NextTok (\<lambda>t.
     bnd (liftR (HandleCharacter (Scanner_at (tok_str t) (tok_loc t)))) (\<lambda>(val, enc).
     bnd (liftR (character_constant enc val)) (\<lambda>(type_spec, v).
     bnd (arith_type type_spec) (\<lambda>ty. int_constant ty v))))"

subsection \<open>Integer constants\<close>

definition digit_of :: "char \<Rightarrow> nat" where
  "digit_of c = (let n = of_char c :: nat in
     if 48 \<le> n \<and> n \<le> 57 then n - 48 else if 97 \<le> n \<and> n \<le> 122 then n - 87
     else if 65 \<le> n \<and> n \<le> 90 then n - 55 else 36)"

definition digits_of :: "nat \<Rightarrow> string \<Rightarrow> string" where
  "digits_of base s = takeWhile (\<lambda>c. digit_of c < base) s"

definition number_of :: "nat \<Rightarrow> string \<Rightarrow> int" where
  "number_of base ds = foldl (\<lambda>v c. v * int base + int (digit_of c)) 0 ds"

definition has_prefix :: "char \<Rightarrow> char \<Rightarrow> string \<Rightarrow> bool" where
  "has_prefix a b s \<longleftrightarrow> take 2 s = [CHR ''0'', a] \<or> take 2 s = [CHR ''0'', b]"

text \<open>\<open>std::stoull\<close>: the value and the number of characters read; base 0 looks at the prefix.\<close>

definition stoull :: "string \<Rightarrow> nat \<Rightarrow> (int \<times> nat) result" where
  "stoull s base =
     (let hex = base = 0 \<and> has_prefix CHR ''x'' CHR ''X'' s \<and> digits_of 16 (drop 2 s) \<noteq> [];
          b = (if base \<noteq> 0 then base else if hex then 16 else if take 1 s = ''0'' then 8 else 10);
          start = (if hex then 2 else 0);
          ds = digits_of b (drop start s)
      in if ds = [] then Inl (Uncaught ''invalid_argument'')
         else if number_of b ds \<ge> 2 ^ 64 then Inl (Uncaught ''out_of_range'')
         else Inr (number_of b ds, start + length ds))"

definition integer_value :: "string \<Rightarrow> (int \<times> nat) result" where
  "integer_value str =
     (let r = (if length str \<ge> 3 \<and> has_prefix CHR ''b'' CHR ''B'' str
               then bindE (stoull (drop 2 str) 2) (\<lambda>(v, e). Inr (v, e + 2)) else stoull str 0)
      in if r = Inl (Uncaught ''out_of_range'') then Inl (Diag ''integer out of range'') else r)"

fun integer_suffix :: "mask \<Rightarrow> string \<Rightarrow> mask result" where
  "integer_suffix type_spec [] = Inr type_spec"
| "integer_suffix type_spec (ch # rest) =
     (if ch = CHR 0x00 then Inr type_spec
      else if ch = CHR ''u'' \<or> ch = CHR ''U'' then
        (if has type_spec kUnsigned then Inl (Diag ''invalid suffix'')
         else integer_suffix (type_spec OR kUnsigned) rest)
      else if ch = CHR ''l'' \<or> ch = CHR ''L'' then
        (if has type_spec kLong \<or> has type_spec kLongLong then Inl (Diag ''invalid suffix'')
         else case rest of
             c2 # rest' \<Rightarrow> (if c2 = CHR ''l'' \<or> c2 = CHR ''L'' then integer_suffix (type_spec OR kLongLong) rest'
                else integer_suffix (type_spec OR kLong) rest)
           | [] \<Rightarrow> integer_suffix (type_spec OR kLong) rest)
      else Inl (Diag ''invalid suffix''))"

definition int32_max :: int where "int32_max = 2 ^ 31 - 1"
definition uint32_max :: int where "uint32_max = 2 ^ 32 - 1"
definition int64_max :: int where "int64_max = 2 ^ 63 - 1"

definition decimal_spec :: "mask \<Rightarrow> int \<Rightarrow> mask" where
  "decimal_spec type_spec val =
     (if type_spec = 0 then (if val > int32_max then type_spec OR kLong else type_spec OR kInt)
      else if type_spec = kUnsigned
      then (if val > uint32_max then type_spec OR (kLong OR kUnsigned) else type_spec OR (kInt OR kUnsigned))
      else type_spec)"

definition other_spec :: "mask \<Rightarrow> int \<Rightarrow> mask" where
  "other_spec type_spec val =
     (if type_spec = 0 then
        (if val > int64_max then type_spec OR (kLong OR kUnsigned)
         else if val > uint32_max then type_spec OR kLong
         else if val > int32_max then type_spec OR (kInt OR kUnsigned)
         else type_spec OR kInt)
      else if type_spec = kUnsigned
      then (if val > uint32_max then type_spec OR (kLong OR kUnsigned) else type_spec OR (kInt OR kUnsigned))
      else if type_spec = kLong
      then (if val > int64_max then type_spec OR (kLong OR kUnsigned) else type_spec OR kLong)
      else if type_spec = kLongLong
      then (if val > int64_max then type_spec OR (kLongLong OR kUnsigned) else type_spec OR kLongLong)
      else type_spec)"

definition integer_literal :: "string \<Rightarrow> (ctype \<times> int) result" where
  "integer_literal str = bindE (integer_value str) (\<lambda>(val, e).
     bindE (integer_suffix 0 (drop e str)) (\<lambda>suffix.
     let decimal = (case str of c # _ \<Rightarrow> 1 \<le> digit_of c \<and> digit_of c \<le> 9 | [] \<Rightarrow> False);
         type_spec = (if decimal then decimal_spec suffix val else other_spec suffix val)
     in bindE (ArithmeticType_Get type_spec) (\<lambda>t. Inr (t, val))))"

definition ParseInteger :: "('c, expr) parser" where
  "ParseInteger = bnd NextTok (\<lambda>t. bnd (liftR (integer_literal (tok_str t))) (\<lambda>(ty, v). int_constant ty v))"

subsection \<open>Floating constants\<close>

text \<open>
  How much of the text \<open>std::stold\<close> reads: digits with at most one period between or beside
  them and an exponent, decimal or, behind \<open>0x\<close>, hexadecimal; 0 where there is no digit. An
  exponent needs a digit.
\<close>

definition exponent_end :: "char \<Rightarrow> char \<Rightarrow> string \<Rightarrow> nat" where
  "exponent_end a b s = (case s of
       c # rest \<Rightarrow> if c = a \<or> c = b then
           (let sg = (if take 1 rest = ''+'' \<or> take 1 rest = ''-'' then 1 else 0);
                ds = digits_of 10 (drop sg rest)
            in if ds = [] then 0 else 1 + sg + length ds)
         else 0
     | [] \<Rightarrow> 0)"

definition mantissa_end :: "nat \<Rightarrow> string \<Rightarrow> nat" where
  "mantissa_end base s =
     (let n = length (digits_of base s)
      in if take 1 (drop n s) = ''.''
         then (let m = length (digits_of base (drop (n + 1) s)) in if n + m = 0 then 0 else n + 1 + m)
         else n)"

definition stold_end :: "string \<Rightarrow> nat" where
  "stold_end s =
     (if has_prefix CHR ''x'' CHR ''X'' s \<and> mantissa_end 16 (drop 2 s) > 0
      then (let m = 2 + mantissa_end 16 (drop 2 s) in m + exponent_end CHR ''p'' CHR ''P'' (drop m s))
      else (let m = mantissa_end 10 s
            in if m = 0 then 0 else m + exponent_end CHR ''e'' CHR ''E'' (drop m s)))"

text \<open>
  \<open>e_float_range\<close>: 1 for a number too large for \<open>long double\<close>, -1 for one too small, else 0.
  Too small a number is read again from a stream, and \<open>e_stream_end\<close> is where the stream stands
  then.
\<close>

definition float_end :: "'c env \<Rightarrow> string \<Rightarrow> nat result" where
  "float_end E str =
     (if stold_end str = 0 then Inl (Uncaught ''invalid_argument'')
      else if e_float_range E (take (stold_end str) str) = 0 then Inr (stold_end str)
      else if e_float_range E (take (stold_end str) str) > 0 then Inl (Diag ''float point out of range'')
      else Inr (e_stream_end E str))"

definition float_literal :: "'c env \<Rightarrow> string \<Rightarrow> (mask \<times> string) result" where
  "float_literal E str = bindE (float_end E str) (\<lambda>backup.
     if backup > length str then Inl Out_Of_Range
     else let rest = drop backup str;
              (type_spec, rest') = (case rest of
                  c # cs \<Rightarrow> if c = CHR ''f'' \<or> c = CHR ''F'' then (kFloat, cs)
                            else if c = CHR ''l'' \<or> c = CHR ''L'' then (kLong OR kDouble, cs)
                            else (kDouble, rest)
                | [] \<Rightarrow> (kDouble, rest))
          in if rest' \<noteq> [] \<and> hd rest' \<noteq> CHR 0x00 then Inl (Diag ''invalid suffix'')
             else Inr (type_spec, take backup str))"

definition ParseFloat :: "'c env \<Rightarrow> ('c, expr) parser" where
  "ParseFloat E = bnd NextTok (\<lambda>t. bnd (liftR (float_literal E (tok_str t))) (\<lambda>(type_spec, digits).
     bnd (arith_type type_spec) (\<lambda>ty. ret (EFloat (ty, 0) digits))))"

subsection \<open>String literals\<close>

definition literal_of :: "'c env \<Rightarrow> bool \<Rightarrow> scanner \<Rightarrow> (string \<times> encoding) result" where
  "literal_of E handle_escape sc = bindE (HandleStringLiteral E handle_escape sc) (\<lambda>(str, enc).
     Inr (ConvertString E enc str, enc))"

text \<open>One more literal: a literal without an encoding takes that of the other.\<close>

definition concat_literals :: "'c env \<Rightarrow> string \<times> encoding \<Rightarrow> string \<times> encoding \<Rightarrow> (string \<times> encoding) result" where
  "concat_literals E = (\<lambda>(str, enc) (next_str, next_enc).
     let (str1, enc1) = (if enc = Enc_kNone \<and> next_enc \<noteq> Enc_kNone
                         then (ConvertString E next_enc str, next_enc) else (str, enc));
         (next1, next_enc1) = (if enc \<noteq> Enc_kNone \<and> next_enc = Enc_kNone
                         then (ConvertString E enc next_str, enc) else (next_str, next_enc))
     in if enc1 \<noteq> next_enc1 then Inl (Diag ''cannot concat literal with different encodings'')
        else Inr (str1 @ next1, enc1))"

definition string_elem :: "encoding \<Rightarrow> mask" where
  "string_elem enc = (case enc of Enc_kUtf8 \<Rightarrow> kChar | Enc_kNone \<Rightarrow> kChar
     | Enc_kChar16 \<Rightarrow> kShort OR kUnsigned | Enc_kChar32 \<Rightarrow> kInt OR kUnsigned | Enc_kWchar \<Rightarrow> kInt OR kUnsigned)"

definition string_literals :: "'c env \<Rightarrow> bool \<Rightarrow> ('c, string \<times> encoding) parser" where
  "string_literals E handle_escape = bnd (Expect Tag_kStringLiteral) (\<lambda>t.
     bnd (liftR (literal_of E handle_escape (Scanner_at (tok_str t) (tok_loc t)))) (looped (\<lambda>acc.
       bnd (TestTok Tag_kStringLiteral) (\<lambda>b. if \<not> b then finish acc
         else bnd NextTok (\<lambda>t. bnd (liftR (literal_of E handle_escape (Scanner_init (tok_str t)))) (\<lambda>n.
              bnd (liftR (concat_literals E acc n)) again))))))"

definition ParseStringLiteral :: "'c env \<Rightarrow> bool \<Rightarrow> ('c, expr) parser" where
  "ParseStringLiteral E handle_escape = bnd (string_literals E handle_escape) (\<lambda>(str, enc).
     bnd (arith_type (string_elem enc)) (\<lambda>ty. on_heap (mk_string (e_dl E) ty str)))"

definition ParseConstant :: "'c env \<Rightarrow> ('c, expr) parser" where
  "ParseConstant E = bnd PeekTok (\<lambda>t.
     if IsCharacter t then ParseCharacter else if IsInteger t then ParseInteger
     else if IsFloatPoint t then ParseFloat E else failP Assert_Fail)"

end
