(* ===== verification/Kcc_LiteralProps.thy ===== *)
theory Kcc_LiteralProps
  imports Kcc_Literal
begin

text \<open>
  Properties of literals: integer constants get the type of section 6.4.4.1 of the C standard, and a
  string literal is read back as the string it was written from.
\<close>

subsection \<open>Numbers in their bases\<close>

definition digit_char :: "nat \<Rightarrow> char" where
  "digit_char n = ''0123456789abcdef'' ! n"

fun digits_text :: "nat \<Rightarrow> nat \<Rightarrow> string" where
  "digits_text b n = (if n < b \<or> b < 2 then [digit_char n] else digits_text b (n div b) @ [digit_char (n mod b)])"

declare digits_text.simps [simp del]

lemma digit_of_char: "n < 16 \<Longrightarrow> digit_of (digit_char n) = n"
proof -
  have "\<forall>n \<in> set [0..<16]. digit_of (digit_char n) = n" by code_simp
  then show "n < 16 \<Longrightarrow> digit_of (digit_char n) = n" by simp
qed

lemma number_of_snoc: "number_of b (ds @ [c]) = number_of b ds * int b + int (digit_of c)"
  by (simp add: number_of_def)

lemma digits_text_props:
  assumes "2 \<le> b" "b \<le> 16"
  shows "number_of b (digits_text b n) = int n \<and> digits_text b n \<noteq> [] \<and> (\<forall>c \<in> set (digits_text b n). digit_of c < b)"
proof (induction n rule: less_induct)
  case (less n)
  show ?case
  proof (cases "n < b")
    case True
    then show ?thesis using assms
      by (subst (1 2 3) digits_text.simps) (simp add: number_of_def digit_of_char)
  next
    case False
    with assms have l: "n div b < n" by (intro div_less_dividend) auto
    have m: "n mod b < b" using assms by simp
    then have d: "digit_of (digit_char (n mod b)) = n mod b" using assms(2) by (intro digit_of_char) simp
    from False assms have eq: "digits_text b n = digits_text b (n div b) @ [digit_char (n mod b)]"
      by (subst digits_text.simps) simp
    show ?thesis
      using less [OF l] m assms by (auto simp: eq number_of_snoc d simp flip: of_nat_mult of_nat_add)
  qed
qed

lemma digits_of_text:
  assumes "2 \<le> b" "b \<le> 16" "rest = [] \<or> b \<le> digit_of (hd rest)"
  shows "digits_of b (digits_text b n @ rest) = digits_text b n"
  using digits_text_props [OF assms(1,2), of n] assms(3)
  by (cases rest) (auto simp: digits_of_def takeWhile_append2)

text \<open>A constant of the C grammar: the prefix of the base, the digits, and a suffix.\<close>

definition base_prefix :: "nat \<Rightarrow> string" where
  "base_prefix b = (if b = 16 then ''0x'' else if b = 8 then ''0'' else if b = 2 then ''0b'' else [])"

definition c_suffixes :: "(string \<times> mask) list" where
  "c_suffixes = [([], 0), (''u'', kUnsigned), (''U'', kUnsigned), (''l'', kLong), (''L'', kLong), (''ll'', kLongLong),
     (''LL'', kLongLong), (''ul'', kUnsigned OR kLong), (''uL'', kUnsigned OR kLong), (''Ul'', kUnsigned OR kLong),
     (''UL'', kUnsigned OR kLong), (''lu'', kUnsigned OR kLong), (''lU'', kUnsigned OR kLong),
     (''Lu'', kUnsigned OR kLong), (''LU'', kUnsigned OR kLong), (''ull'', kUnsigned OR kLongLong),
     (''uLL'', kUnsigned OR kLongLong), (''Ull'', kUnsigned OR kLongLong), (''ULL'', kUnsigned OR kLongLong),
     (''llu'', kUnsigned OR kLongLong), (''llU'', kUnsigned OR kLongLong), (''LLu'', kUnsigned OR kLongLong),
     (''LLU'', kUnsigned OR kLongLong)]"

text \<open>The list of types of the C standard for a suffix, in which the first that holds the value is the type.\<close>

definition c_literal_types :: "bool \<Rightarrow> mask \<Rightarrow> mask list" where
  "c_literal_types decimal m =
     filter (\<lambda>t. (has m kUnsigned \<longrightarrow> has t kUnsigned) \<and> (decimal \<and> \<not> has m kUnsigned \<longrightarrow> \<not> has t kUnsigned) \<and>
         (has m kLong \<longrightarrow> \<not> has t kInt) \<and> (has m kLongLong \<longrightarrow> has t kLongLong))
       [kInt, kInt OR kUnsigned, kLong, kLong OR kUnsigned, kLongLong, kLongLong OR kUnsigned]"

definition c_max :: "mask \<Rightarrow> int" where
  "c_max t = 2 ^ ((if has t kInt then 32 else 64) - (if has t kUnsigned then 0 else 1)) - 1"

definition c_literal_type :: "bool \<Rightarrow> mask \<Rightarrow> int \<Rightarrow> mask option" where
  "c_literal_type decimal m v = find (\<lambda>t. v \<le> c_max t) (c_literal_types decimal m)"

lemma integer_suffix_table: "(s, m) \<in> set c_suffixes \<Longrightarrow> integer_suffix 0 s = Inr m"
  by (simp only: c_suffixes_def list.set insert_iff empty_iff prod.inject) (elim disjE conjE; simp add: has_def)

lemma suffix_head: "(s, m) \<in> set c_suffixes \<Longrightarrow> s = [] \<or> 16 \<le> digit_of (hd s)"
  by (simp only: c_suffixes_def list.set insert_iff empty_iff prod.inject) (elim disjE conjE; simp add: digit_of_def)

text \<open>The table agrees with the two switches of the source.\<close>

lemma literal_specs:
  assumes "(s, m) \<in> set c_suffixes" and "0 \<le> v" and "c_literal_type decimal m v = Some t"
  shows "ArithmeticType_Get (if decimal then decimal_spec m v else other_spec m v) = Inr (ArithT t)"
proof -
  have m: "m \<in> {0, kUnsigned, kLong, kLongLong, kUnsigned OR kLong, kUnsigned OR kLongLong}"
    using assms(1) by (auto simp: c_suffixes_def)
  show ?thesis
    using m assms(2,3)
    by (cases decimal; elim insertE emptyE)
       (simp_all add: c_literal_type_def c_literal_types_def c_max_def has_def decimal_spec_def other_spec_def
          int32_max_def uint32_max_def int64_max_def ArithmeticType_Get_def DealWithTypeSpec_def arith_specs_def split: if_splits)
qed

lemma digits_text_head:
  assumes "2 \<le> b" "b \<le> 16"
  shows "\<exists>c cs. digits_text b n = c # cs \<and> digit_of c < b \<and> (0 < n \<longrightarrow> 0 < digit_of c)"
proof (induction n rule: less_induct)
  case (less n)
  show ?case
  proof (cases "n < b")
    case True
    then show ?thesis using assms by (subst digits_text.simps) (simp add: digit_of_char)
  next
    case False
    with assms have l: "n div b < n" and "0 < n div b" by (auto intro: div_less_dividend simp: div_greater_zero_iff)
    with False assms less [OF l] show ?thesis by (subst digits_text.simps) auto
  qed
qed

lemma digit_of_b: "digit_of CHR ''b'' = 11" "digit_of CHR ''B'' = 11" "digit_of CHR ''x'' = 33" "digit_of CHR ''X'' = 33"
  "digit_of CHR ''0'' = 0"
  by (simp_all add: digit_of_def)

lemma integer_value_text:
  assumes b: "b \<in> {2, 8, 10, 16}" and z: "b = 10 \<longrightarrow> 0 < n" and n: "n < 2 ^ 64" and s: "(s, m) \<in> set c_suffixes"
  shows "integer_value (base_prefix b @ digits_text b n @ s) = Inr (int n, length (base_prefix b @ digits_text b n))"
proof -
  from b have b': "2 \<le> b" "b \<le> 16" by auto
  obtain c cs where d: "digits_text b n = c # cs" "digit_of c < b" "0 < n \<longrightarrow> 0 < digit_of c"
    using digits_text_head [OF b'] by blast
  from suffix_head [OF s] b have "s = [] \<or> b \<le> digit_of (hd s)" by auto
  note ds = digits_of_text [OF b' this, of n]
  note num = digits_text_props [OF b', of n]
  have n': "int n < 18446744073709551616" using n by simp
  consider "b = 2" | "b = 8" | "b = 10" "0 < digit_of c" | "b = 16" using b z d(3) by auto
  then show ?thesis
  proof cases
    case 1
    with ds num n' d show ?thesis
      by (simp add: integer_value_def base_prefix_def has_prefix_def stoull_def Let_def)
  next
    case 2
    then have pre: "digits_of 8 (CHR ''0'' # digits_text b n @ s) = CHR ''0'' # digits_text b n"
      using ds by (simp add: digits_of_def digit_of_b)
    have "number_of 8 (CHR ''0'' # digits_text b n) = int n"
      using num 2 by (simp add: number_of_def digit_of_b)
    moreover have "c \<noteq> CHR ''b''" "c \<noteq> CHR ''B''" "c \<noteq> CHR ''x''" "c \<noteq> CHR ''X''"
      using 2 d(2) digit_of_b by auto
    ultimately show ?thesis
      using n' pre unfolding 2
      by (simp add: integer_value_def base_prefix_def has_prefix_def stoull_def Let_def d(1) [unfolded 2])
  next
    case 3
    then have "c \<noteq> CHR ''0''" using digit_of_b(5) by auto
    moreover have "digits_of 10 (c # cs @ s) = c # cs" "number_of 10 (c # cs) = int n"
      using 3 ds num d(1) by simp_all
    ultimately show ?thesis
      using n' unfolding 3(1)
      by (simp add: integer_value_def base_prefix_def has_prefix_def stoull_def Let_def d(1) [unfolded 3(1)])
  next
    case 4
    with ds num n' d show ?thesis
      by (auto simp: integer_value_def base_prefix_def has_prefix_def stoull_def Let_def)
  qed
qed

text \<open>
  C34. An integer constant has its value and the type of the C standard: for a number written in base
  2, 8, 10 or 16 with its prefix and with any of the suffixes, the literal is read as that number,
  of the first type in the standard's list for the base and the suffix that can hold it.
\<close>

theorem integer_literal_type:
  assumes "b \<in> {2, 8, 10, 16}" and "b = 10 \<longrightarrow> 0 < n" and "n < 2 ^ 64" and s: "(s, m) \<in> set c_suffixes"
    and t: "c_literal_type (b = 10) m (int n) = Some t"
  shows "integer_literal (base_prefix b @ digits_text b n @ s) = Inr (ArithT t, int n)"
proof -
  from assms(1) have b': "2 \<le> b" "b \<le> 16" by auto
  obtain c cs where d: "digits_text b n = c # cs" "digit_of c < b" "0 < n \<longrightarrow> 0 < digit_of c"
    using digits_text_head [OF b'] by blast
  have "(case base_prefix b @ digits_text b n @ s of c # _ \<Rightarrow> 1 \<le> digit_of c \<and> digit_of c \<le> 9 | [] \<Rightarrow> False) = (b = 10)"
    using assms(1,2) d by (auto simp: base_prefix_def digit_of_b)
  then show ?thesis
    using integer_value_text [OF assms(1-4)] integer_suffix_table [OF s] literal_specs [OF s _ t]
    by (simp add: integer_literal_def Let_def)
qed

theorem integer_literal_type_witness:
  "integer_literal ''0xffffffffu'' = Inr (ArithT (kInt OR kUnsigned), 0xFFFFFFFF)"
proof -
  have "digits_text 16 0xFFFFFFFF = ''ffffffff''"
    by (simp add: digits_text.simps digit_char_def)
  then show ?thesis
    using integer_literal_type [where b = 16 and n = "0xFFFFFFFF" and m = kUnsigned and s = "''u''"]
    by (simp add: base_prefix_def c_suffixes_def c_literal_type_def c_literal_types_def c_max_def has_def)
qed

subsection \<open>Reading back a string literal\<close>

definition escaped :: "char \<Rightarrow> string" where
  "escaped c = (if c = CHR 0x22 \<or> c = CHR 0x5C then [CHR 0x5C, c] else if c = CHR 0x0A then [CHR 0x5C, CHR ''n''] else [c])"

definition enc_prefix :: "encoding \<Rightarrow> string" where
  "enc_prefix enc = (case enc of Enc_kNone \<Rightarrow> [] | Enc_kUtf8 \<Rightarrow> ''u8'' | Enc_kChar16 \<Rightarrow> ''u'' | Enc_kChar32 \<Rightarrow> ''U''
     | Enc_kWchar \<Rightarrow> ''L'')"

definition quoted :: "encoding \<Rightarrow> string \<Rightarrow> string" where
  "quoted enc str = enc_prefix enc @ CHR 0x22 # concat (map escaped str) @ [CHR 0x22]"

text \<open>What the scanner has still to read, the null character behind the source included.\<close>

definition ahead :: "string \<Rightarrow> scanner \<Rightarrow> bool" where
  "ahead rest s \<longleftrightarrow> drop (sc_index s) (zsource s) = rest"

lemma ahead_nth: "ahead (c # r) s \<Longrightarrow> sc_index s < length (zsource s) \<and> zsource s ! sc_index s = c"
  unfolding ahead_def by (metis drop_eq_Nil2 linorder_not_le list.distinct(1) hd_drop_conv_nth list.sel(1))

lemma Peek_ahead: "ahead (c # r) s \<Longrightarrow> Peek s = Inr (ord c)"
  by (auto simp: Peek_zsource dest: ahead_nth)

lemma Next_ahead:
  assumes "ahead (c # r) s"
  obtains s' where "Next b s = Inr (ord c, s')" "ahead r s'"
proof -
  let ?s = "s\<lparr>sc_index := Suc (sc_index s), sc_buffer := sc_buffer s @ (if b then [zsource s ! sc_index s] else []),
      sc_loc := (if ord c = 10 then NextRow (Suc (sc_index s)) (sc_loc s) else NextColumn (sc_loc s))\<rparr>"
  have "Next b s = Inr (ord c, ?s)" using ahead_nth [OF assms] by (simp add: Next_Inr)
  moreover have "ahead r ?s"
  proof -
    have "zsource ?s = zsource s" by (simp add: zsource_def)
    moreover have "drop (Suc (sc_index s)) (zsource s) = tl (drop (sc_index s) (zsource s))" by (simp add: drop_Suc tl_drop)
    ultimately show ?thesis using assms by (simp add: ahead_def)
  qed
  ultimately show thesis by (rule that)
qed

lemma Test_ahead: "ahead (c # r) s \<Longrightarrow> Test k s = Inr (ord c = k)"
  by (simp add: Test_def Peek_ahead)

lemma char_of_10: "char_of (10 :: int) = CHR 0x0A"
  by code_simp

lemma HandleEscape_ahead:
  assumes "ahead (y # r) s" and "y \<in> {CHR 0x22, CHR 0x5C, CHR ''n''}"
  obtains s' where "HandleEscape s = Inr (if y = CHR ''n'' then 10 else ord y, s')" "ahead r s'"
proof -
  obtain s' where "Next True s = Inr (ord y, s')" "ahead r s'" using Next_ahead [OF assms(1)] .
  with assms(2) that show thesis by (auto simp: HandleEscape_def)
qed

lemma IsUCN_ahead:
  assumes "ahead (y # r) s" and "y \<noteq> CHR ''u''" and "y \<noteq> CHR ''U''"
  shows "IsUCN k s = Inr False"
proof -
  have "ord y \<noteq> ord CHR ''u''" "ord y \<noteq> ord CHR ''U''" using assms(2,3) by (simp_all only: of_char_eq_iff not_False_eq_True)
  then show ?thesis by (simp add: IsUCN_def Test_ahead [OF assms(1)])
qed

lemma string_loop_step:
  assumes a: "ahead (escaped x @ rest) s"
  obtains s' where "ahead rest s'"
    "HandleStringLiteral_loop E True str s = HandleStringLiteral_loop E True (str @ [x]) s'"
proof (cases "x \<in> {CHR 0x22, CHR 0x5C, CHR 0x0A}")
  case True
  obtain y where y: "escaped x = [CHR 0x5C, y]" "y \<in> {CHR 0x22, CHR 0x5C, CHR ''n''}" "char_of (if y = CHR ''n'' then 10 else ord y) = x"
  proof (cases "x = CHR 0x0A")
    case True
    then show thesis by (intro that [of "CHR ''n''"]) (simp_all add: escaped_def char_of_10)
  next
    case False
    with \<open>x \<in> _\<close> show thesis by (intro that [of x]) (auto simp: escaped_def)
  qed
  obtain s1 where s1: "Next False s = Inr (ord CHR 0x5C, s1)" "ahead (y # rest) s1"
    using a y(1) Next_ahead [of "CHR 0x5C" "y # rest" s False] by auto
  obtain s2 where s2: "HandleEscape s1 = Inr (if y = CHR ''n'' then 10 else ord y, s2)" "ahead rest s2"
    using HandleEscape_ahead [OF s1(2) y(2)] .
  have "IsUCN (ord CHR 0x5C) s1 = Inr False" using y(2) by (intro IsUCN_ahead [OF s1(2)]) auto
  moreover have "Test (ord CHR 0x22) s = Inr False" using a y(1) by (simp add: Test_ahead)
  ultimately have "HandleStringLiteral_loop E True str s = HandleStringLiteral_loop E True (str @ [x]) s2"
    using s1 s2 y(3) by (subst HandleStringLiteral_loop.simps [of E True str s]) simp
  with s2(2) show thesis by (rule that)
next
  case False
  then have e: "escaped x = [x]" by (simp add: escaped_def)
  obtain s1 where s1: "Next False s = Inr (ord x, s1)" "ahead rest s1"
    using a e Next_ahead [of x rest s False] by auto
  have n: "ord x \<noteq> ord CHR 0x5C" "ord x \<noteq> ord CHR 0x22"
    using False by (auto simp only: of_char_eq_iff insert_iff)
  then have "IsUCN (ord x) s1 = Inr False" by (simp add: IsUCN_def)
  moreover have "Test (ord CHR 0x22) s = Inr False" using a e n by (simp add: Test_ahead)
  ultimately have "HandleStringLiteral_loop E True str s = HandleStringLiteral_loop E True (str @ [x]) s1"
    using s1 n by (subst HandleStringLiteral_loop.simps [of E True str s]) simp
  with s1(2) show thesis by (rule that)
qed

lemma string_loop_reads:
  "ahead (concat (map escaped xs) @ CHR 0x22 # r) s \<Longrightarrow>
     \<exists>s'. HandleStringLiteral_loop E True str s = Inr (str @ xs, s')"
proof (induction xs arbitrary: str s)
  case Nil
  then show ?case by (subst HandleStringLiteral_loop.simps) (simp add: Test_ahead)
next
  case (Cons x xs)
  from Cons.prems have "ahead (escaped x @ concat (map escaped xs) @ CHR 0x22 # r) s" by simp
  then obtain s' where s': "ahead (concat (map escaped xs) @ CHR 0x22 # r) s'"
    "HandleStringLiteral_loop E True str s = HandleStringLiteral_loop E True (str @ [x]) s'"
    by (rule string_loop_step)
  from Cons.IH [OF s'(1), of "str @ [x]"] s'(2) show ?case by simp
qed

text \<open>A byte that is not the one asked for stays; one that is is read.\<close>

lemma Try_ahead_no:
  assumes "ahead (c # r) s" and "ord c \<noteq> k"
  shows "Try k s = Inr (False, s)"
  using assms by (simp add: Try_def Peek_ahead [OF assms(1)])

lemma Try_ahead_yes:
  assumes "ahead (c # r) s" and "ord c = k"
  obtains s' where "Try k s = Inr (True, s')" "ahead r s'"
proof -
  obtain s' where "Next True s = Inr (ord c, s')" "ahead r s'" using Next_ahead [OF assms(1)] .
  with assms(2) that show thesis by (simp add: Try_def Peek_ahead [OF assms(1)])
qed

lemma HandleEncoding_ahead:
  assumes a: "ahead (enc_prefix enc @ CHR 0x22 # r) s"
  obtains s' where "HandleEncoding s = Inr (enc, s')" "ahead (CHR 0x22 # r) s'"
proof (cases enc)
  case Enc_kNone
  then have "ahead (CHR 0x22 # r) s" using a by (simp add: enc_prefix_def)
  with Enc_kNone that [of s] show thesis by (simp add: HandleEncoding_def Try_ahead_no)
next
  case Enc_kUtf8
  then have "ahead (CHR ''u'' # CHR ''8'' # CHR 0x22 # r) s" using a by (simp add: enc_prefix_def)
  then obtain s1 where s1: "Try (ord CHR ''u'') s = Inr (True, s1)" "ahead (CHR ''8'' # CHR 0x22 # r) s1"
    by (rule Try_ahead_yes) (rule refl)
  obtain s2 where "Try (ord CHR ''8'') s1 = Inr (True, s2)" "ahead (CHR 0x22 # r) s2"
    using Try_ahead_yes [OF s1(2) refl] .
  with s1 Enc_kUtf8 that show thesis by (simp add: HandleEncoding_def)
next
  case Enc_kChar16
  then have "ahead (CHR ''u'' # CHR 0x22 # r) s" using a by (simp add: enc_prefix_def)
  then obtain s1 where s1: "Try (ord CHR ''u'') s = Inr (True, s1)" "ahead (CHR 0x22 # r) s1"
    by (rule Try_ahead_yes) (rule refl)
  with Enc_kChar16 that show thesis by (simp add: HandleEncoding_def Try_ahead_no)
next
  case Enc_kChar32
  then have s: "ahead (CHR ''U'' # CHR 0x22 # r) s" using a by (simp add: enc_prefix_def)
  obtain s1 where s1: "Try (ord CHR ''U'') s = Inr (True, s1)" "ahead (CHR 0x22 # r) s1"
    using Try_ahead_yes [OF s refl] .
  with Enc_kChar32 that s show thesis by (simp add: HandleEncoding_def Try_ahead_no)
next
  case Enc_kWchar
  then have s: "ahead (CHR ''L'' # CHR 0x22 # r) s" using a by (simp add: enc_prefix_def)
  obtain s1 where s1: "Try (ord CHR ''L'') s = Inr (True, s1)" "ahead (CHR 0x22 # r) s1"
    using Try_ahead_yes [OF s refl] .
  with Enc_kWchar that s show thesis by (simp add: HandleEncoding_def Try_ahead_no)
qed

text \<open>
  C35. A string literal is read back: the text made of an encoding prefix and a quoted string, with
  quotes, backslashes and newlines escaped, is read as that encoding and that string.
\<close>

theorem string_literal_roundtrip:
  "HandleStringLiteral E True (Scanner_init (quoted enc str)) = Inr (str, enc)"
proof -
  have "ahead (enc_prefix enc @ CHR 0x22 # concat (map escaped str) @ [CHR 0x22, CHR 0x00]) (Scanner_init (quoted enc str))"
    by (simp add: ahead_def zsource_def Scanner_init_def quoted_def)
  then obtain s1 where s1: "HandleEncoding (Scanner_init (quoted enc str)) = Inr (enc, s1)"
    "ahead (CHR 0x22 # concat (map escaped str) @ [CHR 0x22, CHR 0x00]) s1"
    by (rule HandleEncoding_ahead)
  obtain s2 where s2: "Next False s1 = Inr (ord CHR 0x22, s2)" "ahead (concat (map escaped str) @ [CHR 0x22, CHR 0x00]) s2"
    using Next_ahead [OF s1(2)] .
  obtain s3 where "HandleStringLiteral_loop E True [] s2 = Inr (str, s3)"
    using string_loop_reads [OF s2(2), of E "[]"] by auto
  with s1 s2 show ?thesis by (simp add: HandleStringLiteral_def)
qed

end
