(* ===== verification/Kcc_MakeDecl.thy ===== *)
theory Kcc_MakeDecl
  imports Kcc_Parser
begin

text \<open>
  Declarations: the class \<open>Declaration\<close> of \<open>src/ast.cpp\<close>, \<open>Parser::MakeDeclaration\<close>, the built-in
  declarations and the state in which the parser starts (\<open>src/parse.cpp\<close>).
\<close>

subsection \<open>Initialisers of a declaration\<close>

definition decl_type :: "nat \<Rightarrow> ('c, qtype) parser" where
  "decl_type d = gets (\<lambda>s. ident_type (p_heap s) (d_ident (p_decls s d)))"

fun cast_inits :: "heap \<Rightarrow> initializer list \<Rightarrow> initializer list result" where
  "cast_inits h [] = Inr []"
| "cast_inits h (i # is) =
     bindE (if \<not> Equal (h_types h) (in_type i) (GetType h (in_expr i))
            then bindE (Expr_MayCastTo h (in_expr i) (in_type i, 0)) (\<lambda>e. Inr (i\<lparr>in_expr := e\<rparr>))
            else Inr i) (\<lambda>i'.
     bindE (cast_inits h is) (\<lambda>is'. Inr (i' # is')))"

definition AddInits :: "nat \<Rightarrow> initializer list \<Rightarrow> ('c, unit) parser" where
  "AddInits d inits =
     (if inits = [] then upd_decl d (\<lambda>c. c\<lparr>d_value_init := True\<rparr>)
      else bnd (decl_type d) (\<lambda>q.
        if IsScalarTy (fst q)
        then thn (assertP (length inits = 1))
             (bnd (mk (\<lambda>h. cast_inits h inits)) (\<lambda>is. upd_decl d (\<lambda>c. c\<lparr>d_inits := is\<rparr>)))
        else if IsAggregateTy (fst q)
        then bnd (mk (\<lambda>h. cast_inits h inits)) (\<lambda>is. upd_decl d (\<lambda>c. c\<lparr>d_inits := is\<rparr>))
        else upd_decl d (\<lambda>c. c\<lparr>d_inits := inits\<rparr>)))"

definition SetConstant :: "nat \<Rightarrow> 'c \<Rightarrow> ('c, unit) parser" where
  "SetConstant d c = upd_decl d (\<lambda>x. x\<lparr>d_constant := Some c\<rparr>)"

subsection \<open>MakeDeclaration\<close>

text \<open>A typedef enters a name for a type, and names a structure that has none.\<close>

definition declare_typedef :: "string \<Rightarrow> qtype \<Rightarrow> int \<Rightarrow> ('c, nat option) parser" where
  "declare_typedef name q align =
     (if align > 0 then Error ''_Alignas attribute applies to typedef''
      else bnd (find_usual_here name) (\<lambda>i. bnd (gets p_heap) (\<lambda>h. case i of
          Some i \<Rightarrow> (if \<not> Compatible (h_types h) (fst q) (fst (ident_type h i))
                     then Error ''typedef redefinition with different types'' else ret None)
        | None \<Rightarrow> thn (insert_usual name (Ident name q Linkage_kNone True))
            (case fst q of
               StructT _ s \<Rightarrow> (if \<not> StructHasName h s
                 then thn (upd_heap (\<lambda>h. Inr (StructSetName name s h))) (ret None) else ret None)
             | _ \<Rightarrow> ret None))))"

fun GetLinkage :: "heap \<Rightarrow> ident \<Rightarrow> linkage" where
  "GetLinkage h (Ident _ _ lk _) = lk"
| "GetLinkage h (Enumerator _ _) = Linkage_kNone"
| "GetLinkage h (Object _ n) = obj_linkage (h_objs h n)"

definition linkage_here :: "mask \<Rightarrow> ('c, linkage) parser" where
  "linkage_here storage = gets (\<lambda>s. if IsFileScope (h_scopes (p_heap s)) (p_scope s)
     then (if has storage kStatic then Linkage_kInternal else Linkage_kExternal) else Linkage_kNone)"

definition conflicting :: "linkage \<Rightarrow> linkage \<Rightarrow> ('c, unit) parser" where
  "conflicting new old =
     (if new = Linkage_kNone then Error ''redefinition of''
      else if new = Linkage_kExternal
      then if old = Linkage_kNone then Error ''conflicting linkage'' else ret ()
      else if old \<noteq> Linkage_kInternal then Error ''conflicting linkage'' else ret ())"

text \<open>An object declared before as incomplete takes the complete type; its declaration is the result.\<close>

definition known_object :: "nat \<Rightarrow> qtype \<Rightarrow> ('c, nat option) parser" where
  "known_object n q = bnd (gets p_heap) (\<lambda>h.
     thn (if \<not> IsComplete (h_types h) (fst (obj_type (h_objs h n))) \<and> IsComplete (h_types h) (fst q)
          then upd_heap (\<lambda>h. Inr (upd_obj n (\<lambda>ob. ob\<lparr>obj_type := (fst q, 0)\<rparr>) h)) else ret ())
     (bnd (gets (\<lambda>s. p_obj_decl s n)) (\<lambda>d. thn (assertP (d \<noteq> None)) (ret d))))"

text \<open>The identifier found in the current scope. \<open>None\<close>: the declaration goes on.\<close>

definition redeclare :: "ident \<Rightarrow> qtype \<Rightarrow> mask \<Rightarrow> linkage \<Rightarrow> ('c, nat option) parser" where
  "redeclare i q storage lk = bnd (gets p_heap) (\<lambda>h.
     if \<not> Compatible (h_types h) (fst q) (fst (ident_type h i)) then Error ''conflicting types''
     else thn (conflicting lk (GetLinkage h i))
       (case i of
          Object _ n \<Rightarrow> thn (if \<not> has storage kExtern then upd_heap (\<lambda>h. Inr (upd_obj n (\<lambda>ob.
               ob\<lparr>storage_class_spec := storage_class_spec ob AND NOT kExtern\<rparr>) h)) else ret ())
             (known_object n q)
        | _ \<Rightarrow> ret None))"

text \<open>An \<open>extern\<close> declaration names the object that is visible, in whatever scope it is.\<close>

definition declare_extern :: "string \<Rightarrow> qtype \<Rightarrow> ('c, nat option) parser" where
  "declare_extern name q = bnd (find_usual name) (\<lambda>i. case i of
       None \<Rightarrow> ret None
     | Some i \<Rightarrow> bnd (gets p_heap) (\<lambda>h.
         if \<not> Compatible (h_types h) (fst q) (fst (ident_type h i)) then Error ''conflicting types''
         else case i of Object _ n \<Rightarrow> known_object n q | _ \<Rightarrow> ret None))"

definition declare_function :: "string \<Rightarrow> qtype \<Rightarrow> mask \<Rightarrow> int \<Rightarrow> linkage \<Rightarrow> ('c, nat option) parser" where
  "declare_function name q fspec align lk =
     (if align > 0 then Error ''_Alignas attribute applies to func''
      else thn (upd_heap (\<lambda>h. bindE (FuncSetFuncSpec fspec (fst q) (h_types h)) (\<lambda>ts.
             bindE (FuncSetName name (fst q) ts) (\<lambda>ts'. Inr (h\<lparr>h_types := ts'\<rparr>)))))
        (thn (insert_usual name (Ident name q lk False))
        (bnd (new_decl (Ident name q lk False)) (\<lambda>d. ret (Some d)))))"

definition static_name :: "'c env \<Rightarrow> ('c, string) parser" where
  "static_name E = getsE (\<lambda>s. case p_func s of
       None \<Rightarrow> Inl Null_Deref
     | Some f \<Rightarrow> bindE (FuncGetName (h_types (p_heap s)) (fst (ident_type (p_heap s) f))) (\<lambda>n.
         Inr (n @ e_scope_str E (p_scope s))))"

definition declare_object :: "'c env \<Rightarrow> string \<Rightarrow> qtype \<Rightarrow> mask \<Rightarrow> int \<Rightarrow> linkage \<Rightarrow> ('c, nat option) parser" where
  "declare_object E name q storage align lk = bnd (new_object E name q storage lk False 0) (\<lambda>n.
     bnd (gets (\<lambda>s. IsBlockScope (h_scopes (p_heap s)) (p_scope s))) (\<lambda>block.
     thn (if block \<and> has storage kStatic
          then bnd (static_name E) (\<lambda>f. upd_heap (\<lambda>h. Inr (upd_obj n (\<lambda>ob. ob\<lparr>obj_func_name := f\<rparr>) h)))
          else ret ())
     (thn (if align > 0
           then bnd (width_of E (fst q)) (\<lambda>w. if align < w
             then Error ''requested alignment is less than minimum alignment of for type''
             else upd_heap (\<lambda>h. Inr (upd_obj n (\<lambda>ob. ob\<lparr>obj_align := align\<rparr>) h)))
           else ret ())
     (thn (insert_usual name (Object name n))
     (bnd (new_decl (Object name n)) (\<lambda>d. thn (set_decl n d) (ret (Some d))))))))"

definition MakeDeclaration :: "'c env \<Rightarrow> token \<Rightarrow> qtype \<Rightarrow> mask \<Rightarrow> mask \<Rightarrow> int \<Rightarrow> ('c, nat option) parser" where
  "MakeDeclaration E t q storage fspec align = bnd (ident_of E t) (\<lambda>name.
     if has storage kTypedef then declare_typedef name q align
     else if has storage kRegister \<and> align > 0 then Error ''_Alignas attribute applies to register''
     else bnd (gets (\<lambda>s. IsFileScope (h_scopes (p_heap s)) (p_scope s))) (\<lambda>file.
     if IsVoidTy (fst q) then Error ''variable or field declared void''
     else if IsFunctionTy (fst q) \<and> \<not> file then Error ''function declaration is not allowed here''
     else bnd (linkage_here storage) (\<lambda>lk.
     bnd (find_usual_here name) (\<lambda>i.
     bnd (case i of None \<Rightarrow> ret None | Some i \<Rightarrow> redeclare i q storage lk) (\<lambda>r. case r of
       Some d \<Rightarrow> ret (Some d)
     | None \<Rightarrow> bnd (if has storage kExtern then declare_extern name q else ret None) (\<lambda>r. case r of
         Some d \<Rightarrow> ret (Some d)
       | None \<Rightarrow> if IsFunctionTy (fst q) then declare_function name q fspec align lk
                 else declare_object E name q storage align lk))))))"

subsection \<open>Built-in declarations\<close>

definition empty_types :: types where
  "empty_types = \<lparr>arrays = (\<lambda>_. \<lparr>num_elements = None, arr_complete = False\<rparr>),
     structs = (\<lambda>_. StructType_init True [] 0),
     funcs = (\<lambda>_. \<lparr>func_spec = 0, func_name = [], func_complete = False\<rparr>), next_id = 0\<rparr>"

definition empty_object :: object where
  "empty_object = \<lparr>obj_name = [], obj_type = (VoidT, 0), storage_class_spec = 0, obj_linkage = Linkage_kNone,
     anonymous = False, obj_align = 0, obj_offset = 0, bit_field_width = 0, bit_field_begin = 0, indexs = [],
     obj_func_name = []\<rparr>"

definition empty_heap :: heap where
  "empty_heap = \<lparr>h_types = empty_types, h_objs = (\<lambda>_. empty_object), h_next_obj = 0, h_scopes = file_scopes\<rparr>"

definition Parser_init :: "token list \<Rightarrow> 'c pstate" where
  "Parser_init tokens = \<lparr>p_tokens = tokens, p_index = 0, p_heap = empty_heap, p_scope = 0, p_func = None,
     p_decls = (\<lambda>_. \<lparr>d_ident = Enumerator [] 0, d_inits = [], d_constant = None, d_value_init = False\<rparr>),
     p_next_decl = 0, p_obj_decl = (\<lambda>_. None), p_labels = [], p_gotos = [], p_blocks = [], p_indexs = []\<rparr>"

definition builtin_object :: "'c env \<Rightarrow> string \<Rightarrow> ctype \<Rightarrow> ('c, nat \<times> ctype) parser" where
  "builtin_object E name t = bnd (new_object E name (t, 0) 0 Linkage_kNone False 0) (\<lambda>n. ret (n, t))"

definition builtin_member :: "'c env \<Rightarrow> nat \<Rightarrow> string \<Rightarrow> ctype \<Rightarrow> ('c, unit) parser" where
  "builtin_member E s name t = bnd (builtin_object E name t) (\<lambda>(n, _). upd_heap (AddMember (e_dl E) s True n))"

definition builtin_func :: "string \<Rightarrow> ctype \<Rightarrow> (nat \<times> ctype) list \<Rightarrow> ('c, unit) parser" where
  "builtin_func name t params = bnd (on_types (FunctionType_Get (t, 0) params False)) (\<lambda>f.
     thn (upd_heap (\<lambda>h. bindE (FuncSetName name f (h_types h)) (\<lambda>ts. Inr (h\<lparr>h_types := ts\<rparr>))))
     (insert_usual name (Ident name (f, 0) Linkage_kExternal False)))"

definition va_list_tag :: "'c env \<Rightarrow> ('c, ctype) parser" where
  "va_list_tag E = bnd (gets p_scope) (\<lambda>sc.
     bnd (on_heap (\<lambda>h. Inr (StructType_Get True ''__va_list_tag'' (Some sc) h))) (\<lambda>t. case t of
       StructT b s \<Rightarrow>
         thn (builtin_member E s ''gp_offset'' (ArithT kInt))
         (thn (builtin_member E s ''fp_offset'' (ArithT kInt))
         (thn (builtin_member E s ''overflow_arg_area'' (PointerType_Get (VoidT, 0)))
         (thn (builtin_member E s ''reg_save_area'' (PointerType_Get (VoidT, 0)))
         (thn (upd_heap (SetComplete (e_dl E) True t)) (ret t)))))
     | _ \<Rightarrow> failP Assert_Fail))"

definition AddBuiltin :: "'c env \<Rightarrow> ('c, unit) parser" where
  "AddBuiltin E = bnd (va_list_tag E) (\<lambda>va_list.
     bnd (on_types (ArrayType_Get (va_list, 0) (Some 1))) (\<lambda>a.
     thn (insert_usual ''__builtin_va_list'' (Ident ''__builtin_va_list'' (a, 0) Linkage_kNone True))
     (bnd (builtin_object E [] (GetPointerTo va_list)) (\<lambda>va_list_ptr.
     bnd (builtin_object E [] (ArithT kInt)) (\<lambda>integer.
     thn (builtin_func ''__builtin_va_start'' VoidT [va_list_ptr, integer])
     (thn (builtin_func ''__builtin_va_end'' VoidT [va_list_ptr])
     (thn (builtin_func ''__builtin_va_arg_sub'' VoidT [va_list_ptr])
     (thn (builtin_func ''__builtin_va_copy'' VoidT [va_list_ptr, va_list_ptr])
     (thn (builtin_func ''__sync_synchronize'' VoidT [])
     (bnd (builtin_object E [] (ArithT (kLong OR kUnsigned))) (\<lambda>ulong.
     thn (builtin_func ''__builtin_alloca'' (GetPointerTo (ArithT kChar)) [ulong])
     (thn (builtin_func ''__builtin_popcount'' (ArithT kInt) [integer])
     (thn (builtin_func ''__builtin_clz'' (ArithT kInt) [integer])
     (thn (builtin_func ''__builtin_ctz'' (ArithT kInt) [integer])
     (bnd (builtin_object E [] (ArithT kLong)) (\<lambda>long_integer.
     thn (builtin_func ''__builtin_expect'' (ArithT kLong) [long_integer, long_integer])
     (bnd (builtin_object E [] (ArithT kFloat)) (\<lambda>float_param.
     thn (builtin_func ''__builtin_isinf_sign'' (ArithT kInt) [float_param])
     (builtin_func ''__builtin_isfinite'' (ArithT kInt) [float_param])))))))))))))))))))"

end
