(* ===== verification/Kcc_ParseExpr.thy ===== *)
theory Kcc_ParseExpr
  imports Kcc_Literal Kcc_MakeDecl
begin

text \<open>
  Expressions: \<open>src/parse_expr.cpp\<close>, and the extensions and built-in operators of
  \<open>src/parse.cpp\<close> that are expressions. One definition per member function, over the record of
  recursive calls \<open>P\<close>.
\<close>

subsection \<open>Names, strings and built-in operators\<close>

definition string_literal :: "'c env \<Rightarrow> string \<Rightarrow> ('c, expr) parser" where
  "string_literal E str = bnd (arith_type kChar) (\<lambda>t. on_heap (mk_string (e_dl E) t str))"

definition Type_ToString :: "'c env \<Rightarrow> types \<Rightarrow> ctype \<Rightarrow> string result" where
  "Type_ToString E ts t = bindE (GetLLVMType ts t) (\<lambda>l.
     Inr ((if IsIntegerTy t then (if IsUnsigned t then ''u'' else [])
           else (case t of PointerT e _ \<Rightarrow> if IsUnsigned e then ''u'' else [] | _ \<Rightarrow> [])) @ e_type_str E l))"

definition type_string :: "'c env \<Rightarrow> ctype \<Rightarrow> ('c, string) parser" where
  "type_string E t = getsE (\<lambda>s. Type_ToString E (h_types (p_heap s)) t)"

definition struct_member :: "ctype \<Rightarrow> string \<Rightarrow> ('c, nat option) parser" where
  "struct_member t name = (case t of
       StructT b s \<Rightarrow> mk (\<lambda>h. StructGetMember h s name)
     | _ \<Rightarrow> failP Assert_Fail)"

definition ParseTypeid :: "'c env \<Rightarrow> 'c procs \<Rightarrow> ('c, expr) parser" where
  "ParseTypeid E P = thn (Expect Tag_kLeftParen) (bnd (r_Expr P) (\<lambda>e. thn (Expect Tag_kRightParen)
     (bnd (type_of e) (\<lambda>q. bnd (type_string E (fst q)) (string_literal E)))))"

definition ParseOffsetof :: "'c env \<Rightarrow> 'c procs \<Rightarrow> ('c, expr) parser" where
  "ParseOffsetof E P = thn (Expect Tag_kLeftParen) (bnd PeekTok (\<lambda>t. bnd (IsTypeName E t) (\<lambda>b.
     if \<not> b then Error ''expect type name''
     else bnd (r_TypeName P) (\<lambda>q.
       if \<not> IsStructOrUnionTy (fst q) then Error ''expect struct or union type''
       else thn (Expect Tag_kComma) (bnd (looped (\<lambda>(offset, ty).
         bnd (Expect Tag_kIdentifier) (\<lambda>t. bnd (ident_of E t) (\<lambda>name. bnd (struct_member ty name) (\<lambda>m. case m of
           None \<Rightarrow> failP Null_Deref
         | Some m \<Rightarrow> bnd (gets (\<lambda>s. h_objs (p_heap s) m)) (\<lambda>ob.
             if bit_field_width ob \<noteq> 0 then Error ''cannot compute offset of bit-field''
             else bnd (TryTok Tag_kPeriod) (\<lambda>b.
               if \<not> b then thn (Expect Tag_kRightParen) (finish (offset + obj_offset ob))
               else again (offset + obj_offset ob, fst (obj_type ob)))))))) (0, fst q)) ulong_constant)))))"

definition ParseHugeVal :: "('c, expr) parser" where
  "ParseHugeVal = thn (Expect Tag_kLeftParen) (thn (Expect Tag_kRightParen)
     (bnd (arith_type kDouble) (\<lambda>t. ret (EFloat (t, 0) ''inf''))))"

definition ParseInff :: "('c, expr) parser" where
  "ParseInff = thn (Expect Tag_kLeftParen) (thn (Expect Tag_kRightParen)
     (bnd (arith_type kFloat) (\<lambda>t. ret (EFloat (t, 0) ''inf''))))"

definition ParseStmtExpr :: "'c procs \<Rightarrow> ('c, expr) parser" where
  "ParseStmtExpr P = bnd (r_CompoundStmt P None) (\<lambda>block. thn (Expect Tag_kRightParen)
     (mk (\<lambda>h. Inr (mk_stmt_expr h block))))"

definition TryParseStmtExpr :: "'c procs \<Rightarrow> ('c, expr option) parser" where
  "TryParseStmtExpr P = thn (TryTok Tag_kExtension) (bnd (TryTok Tag_kLeftParen) (\<lambda>b.
     if b then bnd (TestTok Tag_kLeftBrace) (\<lambda>b.
       if b then bnd (ParseStmtExpr P) (\<lambda>e. ret (Some e)) else thn PutBackTok (ret None))
     else ret None))"

subsection \<open>Generic selection\<close>

definition ParseGenericSelection :: "'c env \<Rightarrow> 'c procs \<Rightarrow> ('c, expr) parser" where
  "ParseGenericSelection E P = thn (Expect Tag_kLeftParen) (bnd (r_AssignExpr P) (\<lambda>c0.
     bnd (mk (\<lambda>h. Expr_MayCast h c0)) (\<lambda>control_expr. thn (Expect Tag_kComma)
     (bnd (looped (\<lambda>(found, default_expr).
        bnd (bnd (TryTok Tag_kDefault) (\<lambda>b.
          if b then
            (if default_expr \<noteq> None then Error ''duplicate default generic association''
             else thn (Expect Tag_kColon) (bnd (r_AssignExpr P) (\<lambda>e. ret (found, Some e))))
          else bnd (r_TypeName P) (\<lambda>q. bnd (gets p_heap) (\<lambda>h.
            if Compatible (h_types h) (fst q) (GetType h control_expr) then
              (if found \<noteq> None
               then Error ''more than one generic association are compatible with control expression''
               else thn (Expect Tag_kColon) (bnd (r_AssignExpr P) (\<lambda>e. ret (Some e, default_expr))))
            else thn (Expect Tag_kColon) (thn (r_AssignExpr P) (ret (found, default_expr))))))) (\<lambda>acc.
        bnd (TryTok Tag_kComma) (\<lambda>b.
          if \<not> b then thn (Expect Tag_kRightParen) (finish acc) else again acc))) (None, None))
     (\<lambda>(found, default_expr). case found of
          Some e \<Rightarrow> ret e
        | None \<Rightarrow> (case default_expr of
            Some e \<Rightarrow> ret e
          | None \<Rightarrow> Error ''no compatible generic association''))))))"

subsection \<open>Primary expressions\<close>

definition ParsePrimaryExpr :: "'c env \<Rightarrow> 'c procs \<Rightarrow> ('c, expr) parser" where
  "ParsePrimaryExpr E P = bnd (TryParseStmtExpr P) (\<lambda>se. case se of
       Some e \<Rightarrow> ret e
     | None \<Rightarrow> bnd PeekTok (\<lambda>t.
         if IsIdentifier t then thn NextTok (bnd (ident_of E t) (\<lambda>name. bnd (find_usual name) (\<lambda>i. case i of
             Some i \<Rightarrow> ret (EIdent i)
           | None \<Rightarrow> Error ''undefined symbol'')))
         else if IsConstant t then ParseConstant E
         else if IsStringLiteral t then ParseStringLiteral E True
         else bnd (TryTok Tag_kLeftParen) (\<lambda>b.
           if b then bnd (r_Expr P) (\<lambda>e. thn (Expect Tag_kRightParen) (ret e))
           else bnd (TryTok Tag_kGeneric) (\<lambda>b.
           if b then ParseGenericSelection E P
           else bnd (TryTok Tag_kFuncName) (\<lambda>b.
           if b then bnd (gets p_func) (\<lambda>f. case f of
                None \<Rightarrow> Error ''Not allowed to use __func__ or __FUNCTION__ here''
              | Some i \<Rightarrow> string_literal E (ident_name i))
           else bnd (TryTok Tag_kFuncSignature) (\<lambda>b.
           if b then bnd (gets p_func) (\<lambda>f. case f of
                None \<Rightarrow> Error ''Not allowed to use __PRETTY_FUNCTION__ here''
              | Some i \<Rightarrow> bnd (gets (\<lambda>s. fst (ident_type (p_heap s) i))) (\<lambda>ty. bnd (type_string E ty) (\<lambda>str.
                  bnd (getsE (\<lambda>s. FuncGetName (h_types (p_heap s)) ty)) (\<lambda>n. string_literal E (str @ '': '' @ n)))))
           else bnd (TryTok Tag_kHugeVal) (\<lambda>b.
           if b then ParseHugeVal
           else bnd (TryTok Tag_kInff) (\<lambda>b.
           if b then ParseInff
           else Error ''unexpected'')))))))) "

subsection \<open>Compound literals\<close>

definition ParseInitDeclaratorSub :: "'c procs \<Rightarrow> nat \<Rightarrow> ('c, unit) parser" where
  "ParseInitDeclaratorSub P d = bnd (gets (\<lambda>s. d_ident (p_decls s d))) (\<lambda>i. bnd (gets p_heap) (\<lambda>h.
     bnd (gets p_scope) (\<lambda>sc.
     let t = fst (ident_type h i) in
     if \<not> IsFileScope (h_scopes h) sc \<and> GetLinkage h i = Linkage_kExternal
     then Error ''has both extern and initializer''
     else if \<not> IsComplete (h_types h) t \<and> \<not> IsArrayTy t
     then Error ''variable has initializer but incomplete type''
     else bnd (r_Initializer P [] (t, 0) False True) (\<lambda>(constant, inits). case constant of
         Some c \<Rightarrow> SetConstant d c
       | None \<Rightarrow> AddInits d inits))))"

definition ParseCompoundLiteral :: "'c env \<Rightarrow> 'c procs \<Rightarrow> qtype \<Rightarrow> ('c, expr) parser" where
  "ParseCompoundLiteral E P q = thn PeekTok (bnd (gets (\<lambda>s. IsFileScope (h_scopes (p_heap s)) (p_scope s))) (\<lambda>file.
     if file then
       bnd (new_object E [] q 0 Linkage_kInternal True 0) (\<lambda>n. bnd (new_decl (Object [] n)) (\<lambda>d.
       bnd (r_ConstantInitializer P (fst q, 0) False True) (\<lambda>c. thn (SetConstant d c)
       (thn (set_decl n d) (ret (EIdent (Object [] n)))))))
     else
       bnd (new_object E ''.compoundliteral'' q 0 Linkage_kNone True 0) (\<lambda>n.
       bnd (new_decl (Object ''.compoundliteral'' n)) (\<lambda>d.
       thn (ParseInitDeclaratorSub P d) (thn (add_stmt (Some (SDecl d)))
       (ret (EIdent (Object ''.compoundliteral'' n))))))))"

definition TryParseCompoundLiteral :: "'c env \<Rightarrow> 'c procs \<Rightarrow> ('c, expr option) parser" where
  "TryParseCompoundLiteral E P = bnd (gets p_index) (\<lambda>start.
     bnd (bnd (TryTok Tag_kLeftParen) (\<lambda>b. if \<not> b then ret False else bnd PeekTok (IsTypeName E))) (\<lambda>b.
     if b then bnd (r_TypeName P) (\<lambda>q.
       bnd (bnd (TryTok Tag_kRightParen) (\<lambda>b. if \<not> b then ret False else TestTok Tag_kLeftBrace)) (\<lambda>b.
         if b then bnd (ParseCompoundLiteral E P q) (\<lambda>e. ret (Some e)) else thn (set_index start) (ret None)))
     else thn (set_index start) (ret None)))"

subsection \<open>Postfix expressions\<close>

definition ParseIndexExpr :: "'c procs \<Rightarrow> expr \<Rightarrow> ('c, expr) parser" where
  "ParseIndexExpr P e = bnd (r_Expr P) (\<lambda>rhs. thn (Expect Tag_kRightSquare)
     (bnd (binary Tag_kPlus e rhs) (unary Tag_kStar)))"

fun SetVaArgType :: "ctype \<Rightarrow> expr \<Rightarrow> expr" where
  "SetVaArgType t (ECall f args _ q) = ECall f args (Some t) q"
| "SetVaArgType t e = e"

definition is_va_arg :: "expr \<Rightarrow> ('c, bool) parser" where
  "is_va_arg e = getsE (\<lambda>s. let t = GetType (p_heap s) e in
     if IsFunctionTy t then bindE (FuncGetName (h_types (p_heap s)) t) (\<lambda>n. Inr (n = ''__builtin_va_arg_sub''))
     else Inr False)"

definition call_args :: "'c procs \<Rightarrow> ('c, expr list) parser" where
  "call_args P = looped (\<lambda>args. bnd (TryTok Tag_kRightParen) (\<lambda>b. if b then finish args
     else bnd (r_AssignExpr P) (\<lambda>a. bnd (TestTok Tag_kRightParen) (\<lambda>b.
       if \<not> b then thn (Expect Tag_kComma) (again (args @ [a])) else again (args @ [a]))))) []"

definition ParseFuncCallExpr :: "'c procs \<Rightarrow> expr \<Rightarrow> ('c, expr) parser" where
  "ParseFuncCallExpr P e = thn PeekTok (bnd (is_va_arg e) (\<lambda>va.
     if va then bnd (r_AssignExpr P) (\<lambda>a. thn (Expect Tag_kComma) (bnd (r_TypeName P) (\<lambda>q.
       thn (Expect Tag_kRightParen) (bnd (mk (\<lambda>h. mk_call h e [a])) (\<lambda>c. ret (SetVaArgType (fst q) c))))))
     else bnd (call_args P) (\<lambda>args. mk (\<lambda>h. mk_call h e args))))"

fun is_call :: "expr \<Rightarrow> bool" where
  "is_call (ECall _ _ _ _) = True"
| "is_call _ = False"

text \<open>The structure that a call returns is kept in an object of the block, so that it has a member.\<close>

definition call_result :: "'c env \<Rightarrow> expr \<Rightarrow> qtype \<Rightarrow> ('c, expr) parser" where
  "call_result E e q = thn PeekTok (bnd (new_object E [] q 0 Linkage_kNone True 0) (\<lambda>n.
     bnd (new_decl (Object [] n)) (\<lambda>d.
     thn (AddInits d [\<lparr>in_type = fst q, in_expr = e, in_indexs = []\<rparr>])
     (thn (add_stmt (Some (SDecl d))) (ret (EIdent (Object [] n)))))))"

definition ParseMemberRefExpr :: "'c env \<Rightarrow> expr \<Rightarrow> ('c, expr) parser" where
  "ParseMemberRefExpr E e = bnd (Expect Tag_kIdentifier) (\<lambda>t. bnd (ident_of E t) (\<lambda>name.
     bnd (type_of e) (\<lambda>q.
     if \<not> IsStructOrUnionTy (fst q) then Error ''an struct/union expected''
     else bnd (struct_member (fst q) name) (\<lambda>m. case m of
         None \<Rightarrow> Error ''is not a member of''
       | Some m \<Rightarrow> bnd (if is_call e then call_result E e q else ret e) (\<lambda>e'.
           bnd (gets (\<lambda>s. obj_name (h_objs (p_heap s) m))) (\<lambda>n.
             binary Tag_kPeriod e' (EIdent (Object n m))))))))"

definition ParsePostfixExprTail :: "'c env \<Rightarrow> 'c procs \<Rightarrow> expr \<Rightarrow> ('c, expr) parser" where
  "ParsePostfixExprTail E P = looped (\<lambda>e. bnd NextTok (\<lambda>t.
     if TagIs t Tag_kLeftSquare then bnd (ParseIndexExpr P e) again
     else if TagIs t Tag_kLeftParen then bnd (ParseFuncCallExpr P e) again
     else if TagIs t Tag_kArrow then bnd (unary Tag_kStar e) (\<lambda>e'. bnd (ParseMemberRefExpr E e') again)
     else if TagIs t Tag_kPeriod then bnd (ParseMemberRefExpr E e) again
     else if TagIs t Tag_kPlusPlus then bnd (unary Tag_kPostfixPlusPlus e) again
     else if TagIs t Tag_kMinusMinus then bnd (unary Tag_kPostfixMinusMinus e) again
     else thn PutBackTok (finish e)))"

definition ParsePostfixExpr :: "'c env \<Rightarrow> 'c procs \<Rightarrow> ('c, expr) parser" where
  "ParsePostfixExpr E P = bnd (TryParseCompoundLiteral E P) (\<lambda>e. case e of
       Some e \<Rightarrow> ParsePostfixExprTail E P e
     | None \<Rightarrow> bnd (ParsePrimaryExpr E P) (ParsePostfixExprTail E P))"

subsection \<open>Unary and cast expressions\<close>

definition ParseSizeof :: "'c env \<Rightarrow> 'c procs \<Rightarrow> ('c, expr) parser" where
  "ParseSizeof E P = bnd (bnd (TryTok Tag_kLeftParen) (\<lambda>b.
       if b then bnd PeekTok (\<lambda>t. bnd (IsTypeName E t) (\<lambda>b.
         bnd (if \<not> b then bnd (r_Expr P) type_of else r_TypeName P) (\<lambda>q.
           thn (Expect Tag_kRightParen) (ret q))))
       else bnd (r_UnaryExpr P) type_of)) (\<lambda>q. bnd (complete (fst q)) (\<lambda>c.
     if \<not> c \<and> \<not> IsVoidTy (fst q) \<and> \<not> IsFunctionTy (fst q) then Error ''sizeof(incomplete type)''
     else bnd (width_of E (fst q)) ulong_constant))"

definition ParseAlignof :: "'c env \<Rightarrow> 'c procs \<Rightarrow> ('c, expr) parser" where
  "ParseAlignof E P = thn (Expect Tag_kLeftParen) (bnd PeekTok (\<lambda>t. bnd (IsTypeName E t) (\<lambda>b.
     if \<not> b then Error ''expect type name''
     else bnd (r_TypeName P) (\<lambda>q. thn (Expect Tag_kRightParen)
       (bnd (align_of E (fst q)) ulong_constant)))))"

definition ParseUnaryExpr :: "'c env \<Rightarrow> 'c procs \<Rightarrow> ('c, expr) parser" where
  "ParseUnaryExpr E P = bnd NextTok (\<lambda>t.
     if tok_tag t \<in> {Tag_kPlusPlus, Tag_kMinusMinus} then bnd (r_UnaryExpr P) (unary (tok_tag t))
     else if tok_tag t \<in> {Tag_kAmp, Tag_kStar, Tag_kPlus, Tag_kMinus, Tag_kTilde, Tag_kExclaim}
     then bnd (r_CastExpr P) (unary (tok_tag t))
     else if TagIs t Tag_kSizeof then ParseSizeof E P
     else if TagIs t Tag_kAlignof then ParseAlignof E P
     else if TagIs t Tag_kOffsetof then ParseOffsetof E P
     else if TagIs t Tag_kTypeid then ParseTypeid E P
     else thn PutBackTok (ParsePostfixExpr E P))"

definition ParseCastExpr :: "'c env \<Rightarrow> 'c procs \<Rightarrow> ('c, expr) parser" where
  "ParseCastExpr E P = bnd (TryTok Tag_kLeftParen) (\<lambda>b.
     if b then bnd PeekTok (\<lambda>t. bnd (IsTypeName E t) (\<lambda>b.
       if b then bnd (r_TypeName P) (\<lambda>q. thn (Expect Tag_kRightParen) (bnd (TestTok Tag_kLeftBrace) (\<lambda>b.
         if b then bnd (ParseCompoundLiteral E P q) (ParsePostfixExprTail E P)
         else bnd (r_CastExpr P) (\<lambda>e. mk (\<lambda>h. mk_cast h e q)))))
       else thn PutBackTok (ParseUnaryExpr E P)))
     else ParseUnaryExpr E P)"

subsection \<open>Binary operators\<close>

text \<open>
  The ten functions from \<open>ParseMultiplicativeExpr\<close> to \<open>ParseLogicalOrExpr\<close> differ in the operators and
  in the function for the operands.
\<close>

definition left_assoc :: "tag set \<Rightarrow> ('c, expr) parser \<Rightarrow> ('c, expr) parser" where
  "left_assoc ops operand = bnd operand (looped (\<lambda>lhs. bnd PeekTok (\<lambda>t.
     if tok_tag t \<in> ops
     then thn NextTok (bnd operand (\<lambda>rhs. bnd (binary (tok_tag t) lhs rhs) again))
     else finish lhs)))"

definition ParseMultiplicativeExpr :: "'c env \<Rightarrow> 'c procs \<Rightarrow> ('c, expr) parser" where
  "ParseMultiplicativeExpr E P = left_assoc {Tag_kStar, Tag_kSlash, Tag_kPercent} (ParseCastExpr E P)"

definition ParseAdditiveExpr :: "'c env \<Rightarrow> 'c procs \<Rightarrow> ('c, expr) parser" where
  "ParseAdditiveExpr E P = left_assoc {Tag_kPlus, Tag_kMinus} (ParseMultiplicativeExpr E P)"

definition ParseShiftExpr :: "'c env \<Rightarrow> 'c procs \<Rightarrow> ('c, expr) parser" where
  "ParseShiftExpr E P = left_assoc {Tag_kLessLess, Tag_kGreaterGreater} (ParseAdditiveExpr E P)"

definition ParseRelationExpr :: "'c env \<Rightarrow> 'c procs \<Rightarrow> ('c, expr) parser" where
  "ParseRelationExpr E P =
     left_assoc {Tag_kLess, Tag_kGreater, Tag_kLessEqual, Tag_kGreaterEqual} (ParseShiftExpr E P)"

definition ParseEqualityExpr :: "'c env \<Rightarrow> 'c procs \<Rightarrow> ('c, expr) parser" where
  "ParseEqualityExpr E P = left_assoc {Tag_kEqualEqual, Tag_kExclaimEqual} (ParseRelationExpr E P)"

definition ParseAndExpr :: "'c env \<Rightarrow> 'c procs \<Rightarrow> ('c, expr) parser" where
  "ParseAndExpr E P = left_assoc {Tag_kAmp} (ParseEqualityExpr E P)"

definition ParseExclusiveOrExpr :: "'c env \<Rightarrow> 'c procs \<Rightarrow> ('c, expr) parser" where
  "ParseExclusiveOrExpr E P = left_assoc {Tag_kCaret} (ParseAndExpr E P)"

definition ParseInclusiveOrExpr :: "'c env \<Rightarrow> 'c procs \<Rightarrow> ('c, expr) parser" where
  "ParseInclusiveOrExpr E P = left_assoc {Tag_kPipe} (ParseExclusiveOrExpr E P)"

definition ParseLogicalAndExpr :: "'c env \<Rightarrow> 'c procs \<Rightarrow> ('c, expr) parser" where
  "ParseLogicalAndExpr E P = left_assoc {Tag_kAmpAmp} (ParseInclusiveOrExpr E P)"

definition ParseLogicalOrExpr :: "'c env \<Rightarrow> 'c procs \<Rightarrow> ('c, expr) parser" where
  "ParseLogicalOrExpr E P = left_assoc {Tag_kPipePipe} (ParseLogicalAndExpr E P)"

subsection \<open>Conditional, assignment and comma\<close>

definition ParseConditionExpr :: "'c env \<Rightarrow> 'c procs \<Rightarrow> ('c, expr) parser" where
  "ParseConditionExpr E P = bnd (ParseLogicalOrExpr E P) (\<lambda>cond. bnd (TryTok Tag_kQuestion) (\<lambda>b.
     if b then bnd (TestTok Tag_kColon) (\<lambda>b. bnd (if b then ret cond else r_Expr P) (\<lambda>lhs.
       thn (Expect Tag_kColon) (bnd (r_ConditionExpr P) (\<lambda>rhs. mk (\<lambda>h. mk_cond h cond lhs rhs)))))
     else ret cond))"

definition ParseConstantExpr :: "'c env \<Rightarrow> 'c procs \<Rightarrow> ('c, expr) parser" where
  "ParseConstantExpr E P = ParseConditionExpr E P"

definition compound_ops :: "(tag \<times> tag) list" where
  "compound_ops = [(Tag_kStarEqual, Tag_kStar), (Tag_kSlashEqual, Tag_kSlash), (Tag_kPercentEqual, Tag_kPercent),
     (Tag_kPlusEqual, Tag_kPlus), (Tag_kMinusEqual, Tag_kMinus), (Tag_kLessLessEqual, Tag_kLessLess),
     (Tag_kGreaterGreaterEqual, Tag_kGreaterGreater), (Tag_kAmpEqual, Tag_kAmp), (Tag_kCaretEqual, Tag_kCaret),
     (Tag_kPipeEqual, Tag_kPipe)]"

definition ParseAssignExpr :: "'c env \<Rightarrow> 'c procs \<Rightarrow> ('c, expr) parser" where
  "ParseAssignExpr E P = thn (TryTok Tag_kExtension) (bnd (ParseConditionExpr E P) (\<lambda>lhs. bnd NextTok (\<lambda>t.
     if TagIs t Tag_kEqual then bnd (r_AssignExpr P) (binary Tag_kEqual lhs)
     else case map_of compound_ops (tok_tag t) of
         Some op \<Rightarrow> bnd (r_AssignExpr P) (\<lambda>rhs. bnd (binary op lhs rhs) (binary Tag_kEqual lhs))
       | None \<Rightarrow> thn PutBackTok (ret lhs))))"

definition ParseExpr :: "'c env \<Rightarrow> 'c procs \<Rightarrow> ('c, expr) parser" where
  "ParseExpr E P = thn (TryTok Tag_kExtension) (left_assoc {Tag_kComma} (ParseAssignExpr E P))"

end
