(* ===== verification/Kcc_ParseDecl.thy ===== *)
theory Kcc_ParseDecl
  imports Kcc_ParseExpr
begin

text \<open>
  Declarations: \<open>src/parse_decl.cpp\<close> and the attributes of \<open>src/parse.cpp\<close>. One definition per
  member function, over the record of recursive calls \<open>P\<close>; the long switch of \<open>ParseDeclSpec\<close> is
  split by the kind of the specifier.
\<close>

subsection \<open>Attributes\<close>

text \<open>A loop that runs until a right parenthesis, with commas between the turns.\<close>

definition comma_separated :: "('c, unit) parser \<Rightarrow> ('c, unit) parser" where
  "comma_separated item = looped (\<lambda>_. bnd (TestTok Tag_kRightParen) (\<lambda>b. if b then finish ()
     else thn item (bnd (TestTok Tag_kRightParen) (\<lambda>b.
       if \<not> b then thn (Expect Tag_kComma) (again ()) else again ())))) ()"

definition ParseAttributeExprList :: "'c procs \<Rightarrow> ('c, unit) parser" where
  "ParseAttributeExprList P = comma_separated (thn (r_Expr P) (ret ()))"

definition ParseAttributeParamList :: "'c procs \<Rightarrow> ('c, unit) parser" where
  "ParseAttributeParamList P = bnd (TryTok Tag_kIdentifier) (\<lambda>b.
     if b then bnd (TryTok Tag_kComma) (\<lambda>b. if b then ParseAttributeExprList P else ret ())
     else ParseAttributeExprList P)"

definition ParseAttribute :: "'c procs \<Rightarrow> ('c, unit) parser" where
  "ParseAttribute P = thn (Expect Tag_kIdentifier) (bnd (TryTok Tag_kLeftParen) (\<lambda>b.
     if b then thn (ParseAttributeParamList P) (thn (Expect Tag_kRightParen) (ret ())) else ret ()))"

definition ParseAttributeList :: "'c procs \<Rightarrow> ('c, unit) parser" where
  "ParseAttributeList P = comma_separated (ParseAttribute P)"

definition TryParseAttributeSpec :: "'c procs \<Rightarrow> ('c, unit) parser" where
  "TryParseAttributeSpec P = looped (\<lambda>_. bnd (TryTok Tag_kAttribute) (\<lambda>b. if \<not> b then finish ()
     else thn (Expect Tag_kLeftParen) (thn (Expect Tag_kLeftParen) (thn (ParseAttributeList P)
       (thn (Expect Tag_kRightParen) (thn (Expect Tag_kRightParen) (again ()))))))) ()"

definition TryParseAsm :: "'c env \<Rightarrow> ('c, unit) parser" where
  "TryParseAsm E = bnd (TryTok Tag_kAsm) (\<lambda>b. if b then thn (Expect Tag_kLeftParen)
     (thn (ParseStringLiteral E True) (thn (Expect Tag_kRightParen) (ret ()))) else ret ())"

definition ParseTypeof :: "'c env \<Rightarrow> 'c procs \<Rightarrow> ('c, qtype) parser" where
  "ParseTypeof E P = thn (Expect Tag_kLeftParen) (bnd PeekTok (\<lambda>t. bnd (IsTypeName E t) (\<lambda>b.
     bnd (if \<not> b then bnd (r_Expr P) type_of else r_TypeName P) (\<lambda>q.
       thn (Expect Tag_kRightParen) (ret q)))))"

definition ParseStaticAssertDecl :: "'c env \<Rightarrow> 'c procs \<Rightarrow> ('c, unit) parser" where
  "ParseStaticAssertDecl E P = thn (Expect Tag_kLeftParen) (bnd (ParseConstantExpr E P) (\<lambda>e.
     thn (Expect Tag_kComma) (thn (ParseStringLiteral E False) (thn (Expect Tag_kRightParen)
     (thn (Expect Tag_kSemicolon) (bnd (calc_integer E e) (\<lambda>v.
       if v = 0 then Error ''static_assert failed'' else ret ())))))))"

subsection \<open>Structures and unions\<close>

definition ParseBitField :: "'c env \<Rightarrow> 'c procs \<Rightarrow> bool \<Rightarrow> nat \<Rightarrow> token \<Rightarrow> qtype \<Rightarrow> ('c, unit) parser" where
  "ParseBitField E P b s t q =
     (if \<not> IsIntTy (fst q) \<and> \<not> IsCharacterTy (fst q)
      then Error ''expect int or bool type for bitfield but got''
      else bnd (ParseConstantExpr E P) (\<lambda>e. bnd (calc_integer E e) (\<lambda>width.
        bnd (width_of E (fst q)) (\<lambda>w.
        if width < 0 then Error ''expect non negative value''
        else if width = 0 \<and> tok_str t \<noteq> [] then Error ''no declarator expected for a bitfield with width 0''
        else if width > w * 8 \<or> (IsBoolTy (fst q) \<and> width > 1) then Error ''width exceeds its type''
        else bnd (if tok_str t = [] then new_object E [] q 0 Linkage_kNone True width
                  else bnd (ident_of E t) (\<lambda>name. bnd (mk (\<lambda>h. StructGetMember h s name)) (\<lambda>m.
                    if m \<noteq> None then Error ''duplicate member''
                    else new_object E name q 0 Linkage_kNone False width))) (\<lambda>n.
             upd_heap (AddBitField (e_dl E) s b n))))))"

text \<open>One member; \<open>True\<close> after a flexible array, which ends the list.\<close>

definition struct_declarator :: "'c env \<Rightarrow> bool \<Rightarrow> nat \<Rightarrow> token \<Rightarrow> qtype \<Rightarrow> ('c, bool) parser" where
  "struct_declarator E b s t q = bnd (gets p_heap) (\<lambda>h.
     if tok_str t = [] then
       (case fst q of
          StructT _ a \<Rightarrow> (if \<not> StructHasName h a
            then bnd (new_object E [] q 0 Linkage_kNone True 0) (\<lambda>n.
                 thn (upd_heap (MergeAnonymous (e_dl E) s b n)) (ret False))
            else Error ''declaration does not declare anything'')
        | _ \<Rightarrow> Error ''declaration does not declare anything'')
     else bnd (ident_of E t) (\<lambda>name. bnd (mk (\<lambda>h. StructGetMember h s name)) (\<lambda>m.
       if m \<noteq> None then Error ''duplicate member''
       else if IsArrayTy (fst q) \<and> \<not> IsComplete (h_types h) (fst q) then
         (if st_is_struct (cell h s) \<and> st_members (cell h s) \<noteq> []
          then bnd (new_object E name q 0 Linkage_kNone False 0) (\<lambda>n.
               thn (upd_heap (AddMember (e_dl E) s b n)) (thn (Expect Tag_kSemicolon) (ret True)))
          else Error ''field has incomplete type'')
       else if IsFunctionTy (fst q) then Error ''field declared as a function''
       else bnd (new_object E name q 0 Linkage_kNone False 0) (\<lambda>n.
            thn (upd_heap (AddMember (e_dl E) s b n)) (ret False)))))"

text \<open>A \<open>_Bool\<close> member is an \<open>unsigned char\<close>.\<close>

definition member_type :: "qtype \<Rightarrow> qtype result" where
  "member_type q = (if IsBoolTy (fst q)
     then bindE (ArithmeticType_Get (kChar OR kUnsigned)) (\<lambda>t. Inr (t, snd q)) else Inr q)"

definition struct_declarators :: "'c env \<Rightarrow> 'c procs \<Rightarrow> bool \<Rightarrow> nat \<Rightarrow> qtype \<Rightarrow> ('c, bool) parser" where
  "struct_declarators E P b s base_type = looped (\<lambda>_. bnd (liftR (member_type base_type)) (\<lambda>copy.
     bnd (r_Declarator P copy) (\<lambda>(t, q). thn (TryParseAttributeSpec P)
     (bnd (bnd (TryTok Tag_kColon) (\<lambda>c.
        if c then thn (ParseBitField E P b s t q) (ret False) else struct_declarator E b s t q)) (\<lambda>flexible.
      if flexible then finish True
      else bnd (TryTok Tag_kComma) (\<lambda>c. if c then again () else thn (Expect Tag_kSemicolon) (finish False))))))) ()"

text \<open>The tags that the list has declared go to the scope of the structure.\<close>

fun move_tags :: "nat \<Rightarrow> (string \<times> ident) list \<Rightarrow> ('c, unit) parser" where
  "move_tags sc [] = ret ()"
| "move_tags sc ((name, i) # rest) = bnd (gets (\<lambda>s. FindTagInCurrScope (h_scopes (p_heap s)) sc name)) (\<lambda>f.
     if f \<noteq> None then Error ''redefinition of tag''
     else thn (upd_scopes (InsertTag_name sc name i)) (move_tags sc rest))"

definition set_scope :: "nat \<Rightarrow> ('c, unit) parser" where
  "set_scope n = modify (\<lambda>s. s\<lparr>p_scope := n\<rparr>)"

definition ParseStructDeclList :: "'c env \<Rightarrow> 'c procs \<Rightarrow> bool \<Rightarrow> nat \<Rightarrow> ('c, unit) parser" where
  "ParseStructDeclList E P b s = bnd (complete (StructT b s)) (\<lambda>c. thn (assertP (\<not> c))
     (bnd (gets p_scope) (\<lambda>backup. bnd (gets (\<lambda>st. st_scope (cell (p_heap st) s))) (\<lambda>inner. thn (set_scope inner)
     (thn (looped (\<lambda>_. bnd (TestTok Tag_kRightBrace) (\<lambda>e. if e then finish ()
        else bnd (TryTok Tag_kStaticAssert) (\<lambda>a.
          if a then thn (ParseStaticAssertDecl E P) (again ())
          else bnd (r_DeclSpec P None None (Some 0)) (\<lambda>(base_type, _). bnd (struct_declarators E P b s base_type) (\<lambda>flexible.
            if flexible then finish () else again ()))))) ())
     (thn (TryParseAttributeSpec P)
     (thn (upd_heap (SetComplete (e_dl E) True (StructT b s)))
     (bnd (gets (\<lambda>st. AllTagInCurrScope (h_scopes (p_heap st)) (p_scope st))) (\<lambda>ts. thn (move_tags backup ts)
     (set_scope backup))))))))))"

definition new_struct :: "bool \<Rightarrow> string \<Rightarrow> ('c, ctype) parser" where
  "new_struct b name = bnd (gets p_scope) (\<lambda>sc. on_heap (\<lambda>h. Inr (StructType_Get b name (Some sc) h)))"

text \<open>The cast of the type to a structure gives a null pointer for another type.\<close>

definition struct_body :: "'c env \<Rightarrow> 'c procs \<Rightarrow> ctype \<Rightarrow> ('c, ctype) parser" where
  "struct_body E P t = (case t of
       StructT b s \<Rightarrow> thn (ParseStructDeclList E P b s) (thn (Expect Tag_kRightBrace) (ret t))
     | _ \<Rightarrow> failP Null_Deref)"

definition ParseStructUnionSpec :: "'c env \<Rightarrow> 'c procs \<Rightarrow> bool \<Rightarrow> ('c, ctype) parser" where
  "ParseStructUnionSpec E P is_struct = thn (TryParseAttributeSpec P) (bnd PeekTok (\<lambda>t.
     bnd (TryTok Tag_kIdentifier) (\<lambda>b.
     if b then bnd (ident_of E t) (\<lambda>tag_name. bnd (TryTok Tag_kLeftBrace) (\<lambda>def.
       if def then
         bnd (gets (\<lambda>s. FindTagInCurrScope (h_scopes (p_heap s)) (p_scope s) tag_name)) (\<lambda>tag. case tag of
           None \<Rightarrow> bnd (new_struct is_struct tag_name) (\<lambda>ty.
             thn (insert_tag tag_name (Ident tag_name (ty, 0) Linkage_kNone False)) (struct_body E P ty))
         | Some i \<Rightarrow> bnd (gets (\<lambda>s. fst (ident_type (p_heap s) i))) (\<lambda>ty. bnd (complete ty) (\<lambda>c.
             if c then Error ''redefinition struct or union'' else struct_body E P ty)))
       else
         bnd (gets (\<lambda>s. FindTag (h_scopes (p_heap s)) (p_scope s) tag_name)) (\<lambda>tag. case tag of
           Some i \<Rightarrow> gets (\<lambda>s. fst (ident_type (p_heap s) i))
         | None \<Rightarrow> bnd (new_struct is_struct tag_name) (\<lambda>ty.
             thn (insert_tag tag_name (Ident tag_name (ty, 0) Linkage_kNone False)) (ret ty)))))
     else thn (Expect Tag_kLeftBrace) (bnd (new_struct is_struct []) (struct_body E P)))))"

subsection \<open>Enumerations and alignment\<close>

text \<open>The value of the next enumerator is a \<open>std::int32_t\<close>.\<close>

definition ParseEnumerator :: "'c env \<Rightarrow> 'c procs \<Rightarrow> ('c, unit) parser" where
  "ParseEnumerator E P = looped (\<lambda>val. bnd (Expect Tag_kIdentifier) (\<lambda>t. thn (TryParseAttributeSpec P)
     (bnd (ident_of E t) (\<lambda>name. bnd (find_usual_here name) (\<lambda>i.
     if i \<noteq> None then Error ''redefinition of enumerator''
     else bnd (TryTok Tag_kEqual) (\<lambda>b.
       bnd (if b then bnd (ParseConstantExpr E P) (\<lambda>e. bnd (calc_integer E e) (\<lambda>v. ret (int32 v))) else ret val) (\<lambda>v.
       thn (insert_usual name (Enumerator name v)) (thn (TryTok Tag_kComma)
       (bnd (TestTok Tag_kRightBrace) (\<lambda>e. if e then finish () else again (int32 (v + 1)))))))))))) 0"

definition ParseEnumSpec :: "'c env \<Rightarrow> 'c procs \<Rightarrow> ('c, ctype) parser" where
  "ParseEnumSpec E P = thn (TryParseAttributeSpec P) (bnd PeekTok (\<lambda>t. bnd (TryTok Tag_kIdentifier) (\<lambda>b.
     if b then bnd (ident_of E t) (\<lambda>tag_name. bnd (TryTok Tag_kLeftBrace) (\<lambda>def.
       if def then
         bnd (gets (\<lambda>s. FindTagInCurrScope (h_scopes (p_heap s)) (p_scope s) tag_name)) (\<lambda>tag.
           if tag \<noteq> None then Error ''redefinition of enumeration tag''
           else bnd (arith_type 32) (\<lambda>ty. thn (insert_tag tag_name (Ident tag_name (ty, 0) Linkage_kNone False))
             (thn (ParseEnumerator E P) (thn (Expect Tag_kRightBrace) (ret ty)))))
       else
         bnd (gets (\<lambda>s. FindTag (h_scopes (p_heap s)) (p_scope s) tag_name)) (\<lambda>tag. case tag of
           Some i \<Rightarrow> gets (\<lambda>s. fst (ident_type (p_heap s) i))
         | None \<Rightarrow> Error ''unknown enumeration'')))
     else thn (Expect Tag_kLeftBrace) (thn (ParseEnumerator E P) (thn (Expect Tag_kRightBrace) (arith_type 32))))))"

definition power_of_two_or_zero :: "int \<Rightarrow> bool" where
  "power_of_two_or_zero a \<longleftrightarrow> a \<ge> 0 \<and> (a - 1) AND a = 0"

definition ParseAlignas :: "'c env \<Rightarrow> 'c procs \<Rightarrow> ('c, int) parser" where
  "ParseAlignas E P = thn (Expect Tag_kLeftParen) (bnd PeekTok (\<lambda>t. bnd (IsTypeName E t) (\<lambda>b.
     bnd (if b then bnd (r_TypeName P) (\<lambda>q. align_of E (fst q))
          else bnd (ParseConstantExpr E P) (\<lambda>e. bnd (calc_integer E e) (\<lambda>v. ret (int32 v)))) (\<lambda>a.
     thn (Expect Tag_kRightParen)
       (if \<not> power_of_two_or_zero a then Error ''requested alignment is not a power of 2'' else ret a)))))"

subsection \<open>Declaration specifiers\<close>

text \<open>
  The variables of \<open>ParseDeclSpec\<close>; \<open>None\<close> in \<open>ds_type\<close> is a \<open>QualType\<close> without a type, and in the
  last three a null pointer.
\<close>

record spec_state =
  ds_type_spec :: mask
  ds_type_qual :: mask
  ds_typeof :: bool
  ds_type :: "qtype option"
  ds_storage :: "mask option"
  ds_func :: "mask option"
  ds_align :: "int option"

definition storage_specs :: "(tag \<times> mask) list" where
  "storage_specs = [(Tag_kTypedef, kTypedef), (Tag_kExtern, kExtern), (Tag_kStatic, kStatic), (Tag_kAuto, kAuto),
     (Tag_kRegister, kRegister)]"

text \<open>The arithmetic specifiers and \<open>void\<close>, each with the specifiers that may stand before it.\<close>

definition basic_specs :: "(tag \<times> mask \<times> mask) list" where
  "basic_specs = [(Tag_kVoid, 0, kVoid), (Tag_kChar, kCompChar, kChar), (Tag_kShort, kCompShort, kShort),
     (Tag_kInt, kCompInt, kInt), (Tag_kLong, kCompLong, kLong), (Tag_kFloat, 0, kFloat),
     (Tag_kDouble, kCompDouble, kDouble), (Tag_kSigned, kCompSigned, kSigned),
     (Tag_kUnsigned, kCompUnsigned, kUnsigned), (Tag_kBool, 0, kBool)]"

definition qual_specs :: "(tag \<times> mask) list" where
  "qual_specs = [(Tag_kConst, kConst), (Tag_kRestrict, kRestrict), (Tag_kVolatile, kVolatile)]"

definition func_specs :: "(tag \<times> mask) list" where
  "func_specs = [(Tag_kInline, kInline), (Tag_kNoreturn, kNoreturn)]"

text \<open>\<open>CHECK_AND_SET_STORAGE_CLASS_SPEC\<close> and \<open>CHECK_AND_SET_FUNC_SPEC\<close> follow the pointer before they test it.\<close>

definition set_storage :: "mask \<Rightarrow> spec_state \<Rightarrow> spec_state result" where
  "set_storage spec d = (case ds_storage d of
       None \<Rightarrow> Inl Null_Deref
     | Some m \<Rightarrow> if m \<noteq> 0 then Inl (Diag ''duplicated storage class specifier'')
                 else Inr (d\<lparr>ds_storage := Some (m OR spec)\<rparr>))"

definition set_func :: "mask \<Rightarrow> spec_state \<Rightarrow> spec_state result" where
  "set_func spec d = (case ds_func d of
       None \<Rightarrow> Inl Null_Deref
     | Some m \<Rightarrow> Inr (d\<lparr>ds_func := Some (m OR spec)\<rparr>))"

text \<open>\<open>ERROR\<close> and \<open>TYPEOF_CHECK\<close>.\<close>

definition check_spec :: "mask \<Rightarrow> spec_state \<Rightarrow> unit result" where
  "check_spec allowed d =
     (if ds_type_spec d AND NOT allowed \<noteq> 0 then Inl (Diag ''two or more data types in declaration specifiers'')
      else if ds_typeof d then Inl (Diag ''It is not allowed to use type specifiers here.'') else Inr ())"

definition set_basic :: "tag \<Rightarrow> mask \<Rightarrow> mask \<Rightarrow> spec_state \<Rightarrow> spec_state result" where
  "set_basic t allowed spec d = bindE (check_spec allowed d) (\<lambda>_.
     if t = Tag_kLong \<and> has (ds_type_spec d) kLong
     then Inr (d\<lparr>ds_type_spec := (ds_type_spec d AND NOT kLong) OR kLongLong\<rparr>)
     else Inr (d\<lparr>ds_type_spec := ds_type_spec d OR spec\<rparr>))"

definition add_type :: "ctype \<Rightarrow> mask \<Rightarrow> spec_state \<Rightarrow> spec_state" where
  "add_type t spec d = d\<lparr>ds_type := Some (t, 0), ds_type_spec := ds_type_spec d OR spec\<rparr>"

text \<open>An incomplete array type is copied, so that an initialiser does not complete the typedef.\<close>

definition typedef_type :: "ident \<Rightarrow> ('c, qtype) parser" where
  "typedef_type i = bnd (gets p_heap) (\<lambda>h. let q = ident_type h i in case fst q of
       ArrayT a t m \<Rightarrow> (if \<not> IsComplete (h_types h) (fst q)
         then bnd (on_types (ArrayType_Get (t, m) None)) (\<lambda>ty. ret (ty, 0)) else ret q)
     | _ \<Rightarrow> ret q)"

definition typedef_spec :: "'c env \<Rightarrow> token \<Rightarrow> spec_state \<Rightarrow> ('c, spec_state + spec_state) parser" where
  "typedef_spec E t d = bnd (if ds_type_spec d = 0 then IsTypeName E t else ret False) (\<lambda>b.
     if b then bnd (ident_of E t) (\<lambda>n. bnd (find_usual n) (\<lambda>i. case i of
         None \<Rightarrow> failP Null_Deref
       | Some i \<Rightarrow> bnd (typedef_type i) (\<lambda>q.
           again (d\<lparr>ds_type := Some q, ds_type_spec := ds_type_spec d OR kTypedefName\<rparr>))))
     else finish d)"

definition decl_spec_step :: "'c env \<Rightarrow> 'c procs \<Rightarrow> token \<Rightarrow> spec_state \<Rightarrow> ('c, spec_state + spec_state) parser" where
  "decl_spec_step E P t d =
     (if TagIs t Tag_kExtension then again d
      else if TagIs t Tag_kTypeof then
        (if ds_type_spec d \<noteq> 0 then Error ''It is not allowed to use typeof here.''
         else bnd (ParseTypeof E P) (\<lambda>q. again (d\<lparr>ds_type := Some q, ds_typeof := True\<rparr>)))
      else if TagIs t Tag_kThreadLocal then Error ''Does not support _Thread_local''
      else if TagIs t Tag_kStruct \<or> TagIs t Tag_kUnion then
        thn (liftR (check_spec 0 d)) (bnd (ParseStructUnionSpec E P (TagIs t Tag_kStruct)) (\<lambda>ty.
          again (add_type ty kStructUnionSpec d)))
      else if TagIs t Tag_kEnum then
        thn (liftR (check_spec 0 d)) (bnd (ParseEnumSpec E P) (\<lambda>ty. again (add_type ty kEnumSpec d)))
      else if TagIs t Tag_kComplex then
        (if ds_typeof d then Error ''It is not allowed to use type specifiers here.''
         else Error ''Does not support _Complex'')
      else if TagIs t Tag_kAtomic then
        (if ds_typeof d then Error ''It is not allowed to use type specifiers here.''
         else Error ''Does not support _Atomic'')
      else if TagIs t Tag_kAlignas then
        (case ds_align d of
           None \<Rightarrow> Error ''_Alignas are not allowed here''
         | Some a \<Rightarrow> bnd (ParseAlignas E P) (\<lambda>x. again (d\<lparr>ds_align := Some (max x a)\<rparr>)))
      else case map_of storage_specs (tok_tag t) of Some m \<Rightarrow> bnd (liftR (set_storage m d)) again | None \<Rightarrow>
           case map_of basic_specs (tok_tag t) of Some (allowed, m) \<Rightarrow>
             bnd (liftR (set_basic (tok_tag t) allowed m d)) again | None \<Rightarrow>
           case map_of qual_specs (tok_tag t) of Some m \<Rightarrow>
             again (d\<lparr>ds_type_qual := ds_type_qual d OR m\<rparr>) | None \<Rightarrow>
           case map_of func_specs (tok_tag t) of Some m \<Rightarrow> bnd (liftR (set_func m d)) again | None \<Rightarrow>
           typedef_spec E t d)"

definition decl_spec_type :: "spec_state \<Rightarrow> qtype result" where
  "decl_spec_type d = bindE
     (if ds_type_spec d = 0 then
        (if \<not> ds_typeof d then Inl (Diag ''type specifier missing'') else Inr (ds_type d))
      else if ds_type_spec d = kVoid then Inr (Some (VoidT, 0))
      else if ds_type_spec d \<in> {kStructUnionSpec, kEnumSpec, kTypedefName} then Inr (ds_type d)
      else bindE (ArithmeticType_Get (ds_type_spec d)) (\<lambda>t. Inr (Some (t, 0)))) (\<lambda>ty. case ty of
        Some q \<Rightarrow> Inr (fst q, snd q OR ds_type_qual d)
      | None \<Rightarrow> Inl Assert_Fail)"

definition spec_init :: "mask option \<Rightarrow> mask option \<Rightarrow> int option \<Rightarrow> spec_state" where
  "spec_init storage fspec align = \<lparr>ds_type_spec = 0, ds_type_qual = 0, ds_typeof = False, ds_type = None,
     ds_storage = storage, ds_func = fspec, ds_align = align\<rparr>"

definition ParseDeclSpec :: "'c env \<Rightarrow> 'c procs \<Rightarrow> mask option \<Rightarrow> mask option \<Rightarrow> int option \<Rightarrow>
    ('c, qtype \<times> mask option \<times> mask option \<times> int option) parser" where
  "ParseDeclSpec E P storage fspec align = bnd (looped (\<lambda>d. thn (TryParseAttributeSpec P)
       (bnd NextTok (\<lambda>t. decl_spec_step E P t d))) (spec_init storage fspec align)) (\<lambda>d.
     thn PutBackTok (thn (TryParseAttributeSpec P)
     (bnd (liftR (decl_spec_type d)) (\<lambda>q. ret (q, ds_storage d, ds_func d, ds_align d)))))"

subsection \<open>Declarators\<close>

text \<open>The qualifiers read, and whether one was there.\<close>

definition ParseTypeQualList :: "('c, mask) parser" where
  "ParseTypeQualList = looped (\<lambda>m. bnd (TryTok Tag_kConst) (\<lambda>b. if b then again (m OR kConst) else
     bnd (TryTok Tag_kRestrict) (\<lambda>b. if b then again (m OR kRestrict) else
     bnd (TryTok Tag_kVolatile) (\<lambda>b. if b then again (m OR kVolatile) else
     bnd (TryTok Tag_kAtomic) (\<lambda>b. if b then Error ''Does not support _Atomic'' else finish m))))) 0"

definition ParsePointer :: "qtype \<Rightarrow> ('c, qtype) parser" where
  "ParsePointer = looped (\<lambda>q. bnd (TryTok Tag_kStar) (\<lambda>b.
     if b then bnd ParseTypeQualList (\<lambda>m. again (PointerType_Get q, m)) else finish q))"

definition array_skip_tags :: "tag set" where
  "array_skip_tags = {Tag_kTypedef, Tag_kExtern, Tag_kStatic, Tag_kThreadLocal, Tag_kAuto, Tag_kRegister}"

definition ParseArrayLength :: "'c env \<Rightarrow> 'c procs \<Rightarrow> ('c, int option) parser" where
  "ParseArrayLength E P = thn (looped (\<lambda>_. bnd PeekTok (\<lambda>t.
       if tok_tag t \<in> array_skip_tags then thn NextTok (again ())
       else bnd ParseTypeQualList (\<lambda>m. if m \<noteq> 0 then again () else finish ()))) ())
     (bnd (TestTok Tag_kRightSquare) (\<lambda>b. if b then ret None
      else bnd (r_AssignExpr P) (\<lambda>e. bnd (type_of e) (\<lambda>q.
        if \<not> IsIntegerTy (fst q) then Error ''The array size must be an integer''
        else bnd (mk (\<lambda>h. CalcInteger (e_llvm E) (e_dl E) h e False)) (\<lambda>len. case len of
            None \<Rightarrow> Error ''not support VLA''
          | Some n \<Rightarrow> if n < 0 then Error ''Array size must be greater than zero'' else ret (Some n))))))"

definition ParseParamDecl :: "'c env \<Rightarrow> 'c procs \<Rightarrow> ('c, nat) parser" where
  "ParseParamDecl E P = bnd (r_DeclSpec P None None None) (\<lambda>(base_type, _). bnd (r_Declarator P base_type) (\<lambda>(t, q0).
     let q = Type_MayCast q0 in
     if tok_str t = [] then new_object E [] q 0 Linkage_kNone True 0
     else bnd (MakeDeclaration E t q 0 0 0) (\<lambda>d. case d of
         None \<Rightarrow> failP Null_Deref
       | Some d \<Rightarrow> bnd (gets (\<lambda>s. d_ident (p_decls s d))) (\<lambda>i. case i of
           Object _ n \<Rightarrow> thn (set_decl n d) (ret n)
         | _ \<Rightarrow> failP Null_Deref))))"

definition param_type :: "nat \<Rightarrow> ('c, nat \<times> ctype) parser" where
  "param_type n = gets (\<lambda>s. (n, fst (obj_type (h_objs (p_heap s) n))))"

definition ParseParamTypeList :: "'c env \<Rightarrow> 'c procs \<Rightarrow> ('c, (nat \<times> ctype) list \<times> bool) parser" where
  "ParseParamTypeList E P = bnd (TestTok Tag_kRightParen) (\<lambda>b. if b then ret ([], False)
     else bnd (bnd (ParseParamDecl E P) param_type) (\<lambda>p. if IsVoidTy (snd p) then ret ([], False)
       else looped (\<lambda>params. bnd (TryTok Tag_kComma) (\<lambda>b. if \<not> b then finish (params, False)
         else bnd (TryTok Tag_kEllipsis) (\<lambda>b. if b then finish (params, True)
         else bnd (bnd (ParseParamDecl E P) param_type) (\<lambda>p. if IsVoidTy (snd p)
           then Error ''void must be the first and only parameter if specified''
           else again (params @ [p]))))) [p]))"

definition ParseDirectDeclaratorTail :: "'c env \<Rightarrow> 'c procs \<Rightarrow> qtype \<Rightarrow> ('c, qtype) parser" where
  "ParseDirectDeclaratorTail E P base_type = bnd (TryTok Tag_kLeftSquare) (\<lambda>b.
     if b then
       (if IsFunctionTy (fst base_type) then Error ''the element of array cannot be a function''
        else bnd (ParseArrayLength E P) (\<lambda>len. thn (Expect Tag_kRightSquare)
          (bnd (r_DeclaratorTail P base_type) (\<lambda>q. bnd (complete (fst q)) (\<lambda>c.
            if \<not> c then Error ''has incomplete element type''
            else bnd (on_types (ArrayType_Get q len)) (\<lambda>t. ret (t, 0)))))))
     else bnd (TryTok Tag_kLeftParen) (\<lambda>b.
       if b then
         (if IsFunctionTy (fst base_type) then Error ''the return value of function cannot be function''
          else if IsArrayTy (fst base_type) then Error ''the return value of function cannot be array''
          else thn EnterProto (bnd (ParseParamTypeList E P) (\<lambda>(params, var_args). thn ExitProto
            (thn (Expect Tag_kRightParen) (bnd (r_DeclaratorTail P base_type) (\<lambda>q.
            bnd (on_types (FunctionType_Get q params var_args)) (\<lambda>t. ret (t, 0))))))))
       else ret base_type))"

text \<open>
  The declarator in parentheses is read twice: once for the place where it ends, and with the type
  that follows it from the index behind the left parenthesis.
\<close>

definition ParseDirectDeclarator :: "'c env \<Rightarrow> 'c procs \<Rightarrow> qtype \<Rightarrow> ('c, token \<times> qtype) parser" where
  "ParseDirectDeclarator E P base_type = bnd (TestTok Tag_kIdentifier) (\<lambda>b.
     if b then bnd NextTok (\<lambda>t. bnd (ParseDirectDeclaratorTail E P base_type) (\<lambda>q. ret (t, q)))
     else bnd (TryTok Tag_kLeftParen) (\<lambda>b.
       if b then bnd (gets p_index) (\<lambda>start. bnd (arith_type kInt) (\<lambda>temp.
         thn (r_Declarator P (temp, 0)) (thn (Expect Tag_kRightParen)
         (bnd (ParseDirectDeclaratorTail E P base_type) (\<lambda>q0. bnd (gets p_index) (\<lambda>stop.
         thn (set_index start) (bnd (r_Declarator P q0) (\<lambda>(t, q). thn (Expect Tag_kRightParen)
         (thn (set_index stop) (ret (t, q)))))))))))
       else bnd (ParseDirectDeclaratorTail E P base_type) (\<lambda>q. ret (Token_init, q))))"

definition ParseDeclarator :: "'c env \<Rightarrow> 'c procs \<Rightarrow> qtype \<Rightarrow> ('c, token \<times> qtype) parser" where
  "ParseDeclarator E P base_type = bnd (ParsePointer base_type) (ParseDirectDeclarator E P)"

definition ParseDirectAbstractDeclarator :: "'c env \<Rightarrow> 'c procs \<Rightarrow> qtype \<Rightarrow> ('c, qtype) parser" where
  "ParseDirectAbstractDeclarator E P q = bnd (ParseDirectDeclarator E P q) (\<lambda>(t, q').
     if tok_str t \<noteq> [] then Error ''unexpected identifier'' else ret q')"

definition ParseAbstractDeclarator :: "'c env \<Rightarrow> 'c procs \<Rightarrow> qtype \<Rightarrow> ('c, qtype) parser" where
  "ParseAbstractDeclarator E P q = bnd (ParsePointer q) (ParseDirectAbstractDeclarator E P)"

definition ParseTypeName :: "'c env \<Rightarrow> 'c procs \<Rightarrow> ('c, qtype) parser" where
  "ParseTypeName E P = bnd (r_DeclSpec P None None None) (\<lambda>(q, _). ParseAbstractDeclarator E P q)"

subsection \<open>Declarations\<close>

text \<open>Initialisers of objects of static storage are constants.\<close>

definition ParseInitDeclarator :: "'c env \<Rightarrow> 'c procs \<Rightarrow> qtype \<Rightarrow> mask \<Rightarrow> mask \<Rightarrow> int \<Rightarrow> ('c, nat option) parser" where
  "ParseInitDeclarator E P base_type storage fspec align = bnd (r_Declarator P base_type) (\<lambda>(t, q).
     if tok_str t = [] then Error ''expect identifier''
     else bnd (MakeDeclaration E t q storage fspec align) (\<lambda>d. case d of
         None \<Rightarrow> ret None
       | Some n \<Rightarrow> bnd (gets (\<lambda>s. d_ident (p_decls s n))) (\<lambda>i.
           if \<not> ident_IsObject i then ret d
           else bnd (TryTok Tag_kEqual) (\<lambda>b. if \<not> b then ret d
             else bnd (gets (\<lambda>s. (h_scopes (p_heap s), p_scope s))) (\<lambda>(ss, sc).
               if \<not> IsFileScope ss sc \<and> \<not> (IsBlockScope ss sc \<and> has storage kStatic)
               then thn (ParseInitDeclaratorSub P n) (ret d)
               else bnd (decl_type n) (\<lambda>q. bnd (r_ConstantInitializer P (fst q, 0) False True) (\<lambda>c.
                    thn (SetConstant n c) (ret d))))))))"

definition ParseInitDeclaratorList :: "'c env \<Rightarrow> 'c procs \<Rightarrow> qtype \<Rightarrow> mask \<Rightarrow> mask \<Rightarrow> int \<Rightarrow> ('c, stmt list) parser" where
  "ParseInitDeclaratorList E P base_type storage fspec align = looped (\<lambda>stmts.
     bnd (ParseInitDeclarator E P base_type storage fspec align) (\<lambda>d. thn (TryParseAttributeSpec P)
     (bnd (TryTok Tag_kComma) (\<lambda>b. let stmts' = AddStmt (case d of Some n \<Rightarrow> Some (SDecl n) | None \<Rightarrow> None) stmts
       in if b then again stmts' else finish stmts')))) []"

definition the_mask :: "'a option \<Rightarrow> 'a result" where
  "the_mask m = (case m of Some x \<Rightarrow> Inr x | None \<Rightarrow> Inl Null_Deref)"

definition ParseDecl :: "'c env \<Rightarrow> 'c procs \<Rightarrow> bool \<Rightarrow> ('c, stmt list option) parser" where
  "ParseDecl E P maybe_func_def = bnd (TryTok Tag_kStaticAssert) (\<lambda>b.
     if b then thn (ParseStaticAssertDecl E P) (ret None)
     else bnd (r_DeclSpec P (Some 0) (Some 0) (Some 0)) (\<lambda>(base_type, sc, fs, al). bnd (TryTok Tag_kSemicolon) (\<lambda>b.
       if b then ret None
       else bnd (liftR (the_mask sc)) (\<lambda>storage. bnd (liftR (the_mask fs)) (\<lambda>fspec. bnd (liftR (the_mask al)) (\<lambda>align.
         bnd (ParseInitDeclaratorList E P base_type storage fspec align) (\<lambda>stmts.
           if maybe_func_def then ret (Some stmts)
           else thn (Expect Tag_kSemicolon) (ret (Some stmts)))))))))"

end
