(* ===== verification/Kcc_ParseInit.thy ===== *)
theory Kcc_ParseInit
  imports Kcc_ParseExpr Kcc_BitField
begin

text \<open>
  Initialisers: \<open>src/parse_init.cpp\<close>. \<open>ParseInitializer\<close> collects the expressions for an object of
  automatic storage, each with the path to the element it initialises (\<open>p_indexs\<close>);
  \<open>ParseConstantInitializer\<close> computes the constant for one of static storage.

  The loops run over elements and members. A turn that reads no element (the inner function puts
  the comma back) still advances the element or the member, so the bound of the loop counts
  them too. Element numbers are \<open>std::size_t\<close>: they are kept modulo two to the power of 64.
\<close>

definition looped_over :: "nat \<Rightarrow> ('a \<Rightarrow> ('c, 'a + 'b) parser) \<Rightarrow> 'a \<Rightarrow> ('c, 'b) parser" where
  "looped_over n body a = (\<lambda>s. repeatP (Suc (tokens_left s) * Suc n) body a s)"

definition size_t :: "int \<Rightarrow> int" where
  "size_t i = take_bit 64 i"

subsection \<open>Common steps\<close>

definition TestOneOf :: "tag set \<Rightarrow> ('c, bool) parser" where
  "TestOneOf ts = bnd PeekTok (\<lambda>t. ret (tok_tag t \<in> ts))"

definition expect_equal :: "bool \<Rightarrow> ('c, unit) parser" where
  "expect_equal designated = (if designated then bnd (TestOneOf {Tag_kPeriod, Tag_kLeftSquare}) (\<lambda>b.
     if \<not> b then thn (Expect Tag_kEqual) (ret ()) else ret ()) else ret ())"

definition array_elem :: "ctype \<Rightarrow> ('c, qtype) parser" where
  "array_elem t = liftR (ArrayGetElementType t)"

definition array_size :: "ctype \<Rightarrow> ('c, int) parser" where
  "array_size t = getsE (\<lambda>s. ArrayGetNumElements (h_types (p_heap s)) t)"

definition set_array_size :: "int \<Rightarrow> ctype \<Rightarrow> ('c, unit) parser" where
  "set_array_size n t = upd_heap (\<lambda>h. bindE (ArraySetNumElements n t (h_types h)) (\<lambda>ts. Inr (h\<lparr>h_types := ts\<rparr>)))"

definition set_complete :: "'c env \<Rightarrow> ctype \<Rightarrow> ('c, unit) parser" where
  "set_complete E t = upd_heap (SetComplete (e_dl E) True t)"

definition llvm_type :: "ctype \<Rightarrow> ('c, ltype) parser" where
  "llvm_type t = getsE (\<lambda>s. GetLLVMType (h_types (p_heap s)) t)"

text \<open>An incomplete array grows with its elements.\<close>

definition grow_array :: "ctype \<Rightarrow> int \<Rightarrow> ('c, unit) parser" where
  "grow_array t index = bnd (complete t) (\<lambda>c. if c then ret ()
     else bnd (array_size t) (\<lambda>n. set_array_size (max index n) t))"

text \<open>\<open>[index]\<close>: the new index, and whether there was one.\<close>

definition array_designator :: "'c env \<Rightarrow> 'c procs \<Rightarrow> ctype \<Rightarrow> int \<Rightarrow> ('c, int \<times> bool) parser" where
  "array_designator E P t index = bnd (TryTok Tag_kLeftSquare) (\<lambda>b. if \<not> b then ret (index, False)
     else bnd (r_AssignExpr P) (\<lambda>e. bnd (type_of e) (\<lambda>q.
       if \<not> IsIntegerTy (fst q) then Error ''expect integer type''
       else bnd (calc_integer E e) (\<lambda>v. thn (Expect Tag_kRightSquare)
         (bnd (complete t) (\<lambda>c. bnd (array_size t) (\<lambda>n.
           if c \<and> size_t v \<ge> n then Error ''array designator index exceeds array bounds''
           else ret (size_t v, True))))))))"

text \<open>The members from the one that has the name, or contains it in an anonymous member.\<close>

fun GetStructDesignator :: "heap \<Rightarrow> string \<Rightarrow> nat list \<Rightarrow> nat list result" where
  "GetStructDesignator h name [] = Inl Assert_Fail"
| "GetStructDesignator h name (m # ms) =
     (if anonymous (h_objs h m) then
        (case fst (obj_type (h_objs h m)) of
           StructT b s \<Rightarrow> bindE (StructGetMember h s name) (\<lambda>r.
             if r \<noteq> None then Inr (m # ms) else GetStructDesignator h name ms)
         | _ \<Rightarrow> Inl Assert_Fail)
      else if obj_name (h_objs h m) = name then Inr (m # ms) else GetStructDesignator h name ms)"

definition StructGetMembers :: "ctype \<Rightarrow> ('c, nat list) parser" where
  "StructGetMembers t = (case t of
       StructT b s \<Rightarrow> gets (\<lambda>st. st_members (cell (p_heap st) s))
     | _ \<Rightarrow> failP Assert_Fail)"

text \<open>\<open>.name\<close>: the new place in the list of members, and whether there was a name.\<close>

definition struct_designator :: "'c env \<Rightarrow> ctype \<Rightarrow> nat list \<Rightarrow> ('c, nat list \<times> bool) parser" where
  "struct_designator E t iter = bnd (TryTok Tag_kPeriod) (\<lambda>b. if \<not> b then ret (iter, False)
     else bnd (Expect Tag_kIdentifier) (\<lambda>tk. bnd (ident_of E tk) (\<lambda>name. bnd (struct_member t name) (\<lambda>m.
       if m = None then Error ''member not found''
       else bnd (StructGetMembers t) (\<lambda>ms. bnd (mk (\<lambda>h. GetStructDesignator h name ms)) (\<lambda>iter'.
         ret (iter', True)))))))"

definition put_back_designator :: "nat \<Rightarrow> bool \<Rightarrow> ('c, unit) parser" where
  "put_back_designator m designated = bnd (gets (\<lambda>s. anonymous (h_objs (p_heap s) m))) (\<lambda>a.
     if a \<and> designated then thn PutBackTok PutBackTok else ret ())"

definition last_index :: "object \<Rightarrow> int result" where
  "last_index ob = (if indexs ob = [] then Inl Out_Of_Range else Inr (snd (last (indexs ob))))"

text \<open>The end of a list in braces: one comma may stand before the right brace.\<close>

definition close_brace :: "bool \<Rightarrow> string \<Rightarrow> ('c, unit) parser" where
  "close_brace has_brace msg = (if has_brace then thn (TryTok Tag_kComma) (bnd (TryTok Tag_kRightBrace) (\<lambda>b.
     if \<not> b then Error msg else ret ())) else ret ())"

text \<open>A right brace before the next element; it is read only by the function that read the left one.\<close>

definition at_right_brace :: "bool \<Rightarrow> ('c, bool) parser" where
  "at_right_brace has_brace = bnd (TestTok Tag_kRightBrace) (\<lambda>b.
     if b then (if has_brace then thn NextTok (ret True) else ret True) else ret False)"

text \<open>No comma after an element: the list ends.\<close>

definition end_of_list :: "bool \<Rightarrow> ('c, unit) parser" where
  "end_of_list has_brace = (if has_brace then thn (Expect Tag_kRightBrace) (ret ()) else ret ())"

subsection \<open>String literals for arrays\<close>

definition literal_constant :: "'c env \<Rightarrow> bool \<Rightarrow> expr \<Rightarrow> 'c result" where
  "literal_constant E need_ptr node = (case node of
       EString q str \<Rightarrow> Inr (if need_ptr then string_ptr (e_llvm E) (fst q) str else string_arr (e_llvm E) (fst q) str)
     | _ \<Rightarrow> Inl Assert_Fail)"

definition fit_literal :: "'c env \<Rightarrow> ctype \<Rightarrow> ctype \<Rightarrow> qtype \<Rightarrow> ('c, unit) parser" where
  "fit_literal E t lit elem = bnd (array_size lit) (\<lambda>n. bnd (complete t) (\<lambda>c.
     thn (if \<not> c then thn (set_array_size n t) (set_complete E t) else ret ())
     (bnd (array_size t) (\<lambda>m. if n > m then Error ''initializer-string for char array is too long''
      else bnd (array_elem lit) (\<lambda>le. bnd (width_of E (fst le)) (\<lambda>w. bnd (width_of E (fst elem)) (\<lambda>w'.
        if w \<noteq> w' then Error ''Different character types'' else ret ())))))))"

definition ParseLiteralInitializer :: "'c env \<Rightarrow> ctype \<Rightarrow> bool \<Rightarrow> ('c, 'c option) parser" where
  "ParseLiteralInitializer E t need_ptr = bnd (array_elem t) (\<lambda>elem.
     if \<not> IsIntegerTy (fst elem) then ret None
     else bnd (TryTok Tag_kLeftBrace) (\<lambda>has_brace. bnd (TestTok Tag_kStringLiteral) (\<lambda>b.
       if \<not> b then thn (if has_brace then PutBackTok else ret ()) (ret None)
       else bnd (ParseStringLiteral E True) (\<lambda>node.
         thn (if has_brace then thn (TryTok Tag_kComma) (thn (Expect Tag_kRightBrace) (ret ())) else ret ())
         (bnd (type_of node) (\<lambda>q. thn (fit_literal E t (fst q) elem)
         (bnd (liftR (literal_constant E need_ptr node)) (\<lambda>c. ret (Some c)))))))))"

subsection \<open>Objects of automatic storage\<close>

definition add_init :: "ctype \<Rightarrow> expr \<Rightarrow> initializer list \<Rightarrow> ('c, initializer list) parser" where
  "add_init t e inits = gets (\<lambda>s. inits @ [\<lparr>in_type = t, in_expr = e, in_indexs = p_indexs s\<rparr>])"

text \<open>\<open>indexs_\<close> around the initialiser of one element.\<close>

definition with_index :: "ctype \<times> int \<times> int \<times> int \<Rightarrow> ('c, 'a) parser \<Rightarrow> ('c, 'a) parser" where
  "with_index i m = thn (modify (\<lambda>s. s\<lparr>p_indexs := p_indexs s @ [i]\<rparr>)) (bnd m (\<lambda>x.
     thn (modify (\<lambda>s. s\<lparr>p_indexs := butlast (p_indexs s)\<rparr>)) (ret x)))"

definition array_turn :: "'c env \<Rightarrow> 'c procs \<Rightarrow> bool \<Rightarrow> ctype \<Rightarrow> int \<times> bool \<times> initializer list \<Rightarrow>
    ('c, int \<times> bool \<times> initializer list + initializer list) parser" where
  "array_turn E P has_brace t = (\<lambda>(index, designated, inits). bnd (at_right_brace has_brace) (\<lambda>e. if e then finish inits
       else bnd (TestOneOf {Tag_kPeriod, Tag_kLeftSquare}) (\<lambda>d.
         if \<not> designated \<and> \<not> has_brace \<and> d then thn PutBackTok (finish inits)
         else bnd (array_designator E P t index) (\<lambda>(index, designated). bnd (array_elem t) (\<lambda>elem.
           bnd (with_index (t, int32 index, 0, 0) (r_Initializer P inits elem designated False)) (\<lambda>(_, inits).
           let index' = size_t (index + 1) in
           thn (grow_array t index') (bnd (TryTok Tag_kComma) (\<lambda>b.
             if \<not> b then thn (end_of_list has_brace) (finish inits)
             else again (index', False, inits)))))))))"

definition ParseArrayInitializer :: "'c env \<Rightarrow> 'c procs \<Rightarrow> initializer list \<Rightarrow> ctype \<Rightarrow> bool \<Rightarrow>
    ('c, initializer list) parser" where
  "ParseArrayInitializer E P inits0 t designated0 = bnd (TryTok Tag_kLeftBrace) (\<lambda>has_brace.
     looped (array_turn E P has_brace t) (0, designated0, inits0))"

definition member_path :: "ctype \<Rightarrow> nat \<Rightarrow> ('c, ctype \<times> int \<times> int \<times> int) parser" where
  "member_path t m = getsE (\<lambda>s. let ob = h_objs (p_heap s) m in
     bindE (last_index ob) (\<lambda>i. Inr (t, i, bit_field_begin ob, bit_field_width ob)))"

definition ParseStructInitializer :: "'c env \<Rightarrow> 'c procs \<Rightarrow> initializer list \<Rightarrow> ctype \<Rightarrow> ('c, initializer list) parser" where
  "ParseStructInitializer E P inits0 t = bnd (TryTok Tag_kLeftBrace) (\<lambda>has_brace. bnd (StructGetMembers t) (\<lambda>members.
     bnd (looped_over (length members) (\<lambda>(iter, inits). bnd (at_right_brace has_brace) (\<lambda>e.
       if e then finish (inits, False)
       else bnd (struct_designator E t iter) (\<lambda>(iter, designated). case iter of
           [] \<Rightarrow> finish (inits, True)
         | m # iter' \<Rightarrow> thn (put_back_designator m designated)
             (bnd (member_path t m) (\<lambda>path. bnd (gets (\<lambda>s. fst (obj_type (h_objs (p_heap s) m)))) (\<lambda>mt.
              bnd (with_index path (r_Initializer P inits (mt, 0) designated False)) (\<lambda>(_, inits).
              if \<not> IsStructTy t \<or> (\<not> has_brace \<and> iter' = []) then finish (inits, True)
              else bnd (TryTok Tag_kComma) (\<lambda>b.
                if \<not> b then thn (end_of_list has_brace) (finish (inits, False))
                else again (iter', inits))))))))) (members, inits0))
     (\<lambda>(inits, close). if close then thn (close_brace has_brace ''excess members in struct initializer'') (ret inits)
        else ret inits)))"

definition ParseInitializer :: "'c env \<Rightarrow> 'c procs \<Rightarrow> initializer list \<Rightarrow> qtype \<Rightarrow> bool \<Rightarrow> bool \<Rightarrow>
    ('c, 'c option \<times> initializer list) parser" where
  "ParseInitializer E P inits q designated force_brace = thn (expect_equal designated)
     (let t = fst q in
      if IsArrayTy t then
        bnd (TestOneOf {Tag_kLeftBrace, Tag_kStringLiteral}) (\<lambda>b.
          if force_brace \<and> \<not> b then thn (Expect Tag_kLeftBrace) (ret (None, inits))
          else bnd (ParseLiteralInitializer E t True) (\<lambda>str. case str of
              None \<Rightarrow> bnd (ParseArrayInitializer E P inits t designated) (\<lambda>inits.
                thn (set_complete E t) (ret (None, inits)))
            | Some c \<Rightarrow> ret (Some c, inits)))
      else if IsStructOrUnionTy t then
        bnd (TestOneOf {Tag_kPeriod, Tag_kLeftBrace}) (\<lambda>b.
          bnd (if \<not> b then bnd (gets p_index) (\<lambda>start. bnd (r_AssignExpr P) (\<lambda>e. bnd (gets p_heap) (\<lambda>h.
                 if Compatible (h_types h) t (GetType h e) then bnd (add_init t e inits) (\<lambda>is. ret (Some is))
                 else thn (set_index start) (ret None)))) else ret None) (\<lambda>whole. case whole of
             Some is \<Rightarrow> ret (None, is)
           | None \<Rightarrow> bnd (ParseStructInitializer E P inits t) (\<lambda>is. ret (None, is))))
      else bnd (TryTok Tag_kLeftBrace) (\<lambda>has_brace. bnd (r_AssignExpr P) (\<lambda>e.
        thn (if has_brace then thn (TryTok Tag_kComma) (thn (Expect Tag_kRightBrace) (ret ())) else ret ())
        (bnd (add_init t e inits) (\<lambda>is. ret (None, is))))))"

subsection \<open>Objects of static storage\<close>

definition constant_array_of :: "'c env \<Rightarrow> ctype \<Rightarrow> 'c list \<Rightarrow> ('c, 'c) parser" where
  "constant_array_of E t vals = bnd (llvm_type t) (\<lambda>l. ret (constant_array (e_llvm E) l vals))"

definition list_set :: "'a list \<Rightarrow> nat \<Rightarrow> 'a \<Rightarrow> 'a list result" where
  "list_set xs i x = (if i < length xs then Inr (xs[i := x]) else Inl Out_Of_Range)"

text \<open>
  An array of unknown size grows: elements up to the index are zero. Otherwise the element is
  stored, where an index behind the end would write out of bounds.
\<close>

definition store_element :: "bool \<Rightarrow> 'c \<Rightarrow> 'c list \<Rightarrow> int \<Rightarrow> 'c \<Rightarrow> 'c list result" where
  "store_element sized zero vals index c =
     (if \<not> sized \<and> nat index \<ge> length vals
      then Inr (vals @ replicate (nat index - length vals) zero @ [c])
      else list_set vals (nat index) c)"

definition ParseConstantArrayInitializer :: "'c env \<Rightarrow> 'c procs \<Rightarrow> ctype \<Rightarrow> bool \<Rightarrow> ('c, 'c) parser" where
  "ParseConstantArrayInitializer E P t designated0 = bnd (TryTok Tag_kLeftBrace) (\<lambda>has_brace.
     bnd (array_size t) (\<lambda>size0. bnd (array_elem t) (\<lambda>elem. bnd (llvm_type (fst elem)) (\<lambda>el.
     bnd (liftR (GetConstantZero (e_llvm E) el)) (\<lambda>zero.
     bnd (looped_over (nat size0) (\<lambda>(index, designated, vals). bnd (at_right_brace has_brace) (\<lambda>e.
       if e then finish (vals, False)
       else bnd (TestOneOf {Tag_kPeriod, Tag_kLeftSquare}) (\<lambda>d.
         if \<not> designated \<and> \<not> has_brace \<and> d then thn PutBackTok (finish (vals, False))
         else bnd (array_designator E P t index) (\<lambda>(index, designated).
           bnd (r_ConstantInitializer P (fst elem, 0) designated False) (\<lambda>c.
           bnd (liftR (store_element (size0 \<noteq> 0) zero vals index c)) (\<lambda>vals.
           let index' = size_t (index + 1) in
           bnd (complete t) (\<lambda>cpl. bnd (array_size t) (\<lambda>n.
             if cpl \<and> index' \<ge> n then finish (vals, True)
             else thn (grow_array t index') (bnd (TryTok Tag_kComma) (\<lambda>b.
               if \<not> b then thn (end_of_list has_brace) (finish (vals, False))
               else again (index', False, vals))))))))))) (0, designated0, replicate (nat size0) zero))
     (\<lambda>(vals, close). thn (if close then close_brace has_brace ''excess elements in array initializer'' else ret ())
        (constant_array_of E t vals)))))))"

subsection \<open>Bit-fields of static storage\<close>

text \<open>\<open>GetBitField\<close> for a constant.\<close>

definition outside_mask :: "nat \<Rightarrow> nat \<Rightarrow> nat \<Rightarrow> int result" where
  "outside_mask sz wd bgn =
     (if sz = 8 then Inr (uint (low_one8 bgn OR high_one8 wd bgn))
      else if sz = 32 then Inr (uint (low_one32 bgn OR high_one32 wd bgn))
      else Inl Assert_Fail)"

definition GetBitField_constant :: "'c llvm \<Rightarrow> 'c \<Rightarrow> nat \<Rightarrow> nat \<Rightarrow> nat \<Rightarrow> 'c result" where
  "GetBitField_constant L v sz wd bgn = bindE (outside_mask sz wd bgn) (\<lambda>m.
     Inr (getBin L O_And v (get_int L (LInt 32) m)))"

definition i32 :: "'c llvm \<Rightarrow> int \<Rightarrow> 'c" where
  "i32 L v = get_int L (LInt 32) v"

text \<open>The bytes of the storage unit, the last one first.\<close>

definition unit_bytes :: "'c llvm \<Rightarrow> 'c \<Rightarrow> nat \<Rightarrow> 'c" where
  "unit_bytes L arr n = fold (\<lambda>i v. getBin L O_Or v (getBin L O_Shl
     (getCast L C_ZExt (aggregate_element L arr i) (LInt 32)) (i32 L (int i * 8)))) (rev [0..<n]) (i32 L 0)"

primrec split_bytes :: "'c llvm \<Rightarrow> 'c \<Rightarrow> nat \<Rightarrow> 'c list" where
  "split_bytes L v 0 = []"
| "split_bytes L v (Suc n) = getCast L C_Trunc v (LInt 8) # split_bytes L (getBin L O_LShr v (i32 L 8)) n"

definition bit_field_unit :: "'c llvm \<Rightarrow> ltype \<Rightarrow> bool \<Rightarrow> 'c \<Rightarrow> 'c" where
  "bit_field_unit L mt uns val = (case mt of
       LArr n _ \<Rightarrow> unit_bytes L val n
     | _ \<Rightarrow> getCast L (if uns then C_ZExt else C_SExt) val (LInt 32))"

definition bit_field_store :: "'c llvm \<Rightarrow> ltype \<Rightarrow> 'c \<Rightarrow> 'c" where
  "bit_field_store L mt v = (case mt of
       LArr n _ \<Rightarrow> constant_array L mt (split_bytes L v n)
     | _ \<Rightarrow> getCast L C_Trunc v (LInt 8))"

definition constant_bit_field :: "'c env \<Rightarrow> ltype \<Rightarrow> object \<Rightarrow> 'c \<Rightarrow> ('c, 'c) parser \<Rightarrow> ('c, 'c) parser" where
  "constant_bit_field E mt ob val init =
     (let L = e_llvm E; bgn = nat (bit_field_begin ob);
          old_value = bit_field_unit L mt (IsUnsigned (fst (obj_type ob))) val;
          sz = (if mt = LInt 8 then 8 else 32)
      in bnd (liftR (GetBitField_constant L old_value sz (nat (bit_field_width ob)) bgn)) (\<lambda>old.
         bnd init (\<lambda>v. ret (bit_field_store L mt (getBin L O_Or old (getBin L O_Shl v (i32 L (int bgn))))))))"

definition struct_elements :: "ctype \<Rightarrow> ('c, ltype list) parser" where
  "struct_elements t = (case t of
       StructT b s \<Rightarrow> gets (\<lambda>st. llvm_body (cell (p_heap st) s))
     | _ \<Rightarrow> failP Assert_Fail)"

definition nth_result :: "'a list \<Rightarrow> int \<Rightarrow> 'a result" where
  "nth_result xs i = (if 0 \<le> i \<and> nat i < length xs then Inr (xs ! nat i) else Inl Out_Of_Range)"

definition member_slot :: "bool \<Rightarrow> object \<Rightarrow> int result" where
  "member_slot is_struct ob = (if is_struct then last_index ob else Inr 0)"

definition ParseConstantStructInitializer :: "'c env \<Rightarrow> 'c procs \<Rightarrow> ctype \<Rightarrow> ('c, 'c) parser" where
  "ParseConstantStructInitializer E P t = bnd (TryTok Tag_kLeftBrace) (\<lambda>has_brace. bnd (StructGetMembers t) (\<lambda>members.
     bnd (struct_elements t) (\<lambda>elems.
     bnd (liftR (fold (\<lambda>l r. bindE r (\<lambda>zs. bindE (GetConstantZero (e_llvm E) l) (\<lambda>z. Inr (zs @ [z])))) elems (Inr []))) (\<lambda>zeros.
     bnd (looped_over (length members) (\<lambda>(iter, vals). bnd (at_right_brace has_brace) (\<lambda>e.
       if e then finish (vals, False)
       else bnd (struct_designator E t iter) (\<lambda>(iter, designated). case iter of
           [] \<Rightarrow> finish (vals, True)
         | m # iter' \<Rightarrow> thn (put_back_designator m designated)
             (bnd (gets (\<lambda>s. h_objs (p_heap s) m)) (\<lambda>ob.
              bnd (liftR (member_slot (IsStructTy t) ob)) (\<lambda>index. bnd (liftR (nth_result elems index)) (\<lambda>mt.
              bnd (liftR (nth_result vals index)) (\<lambda>val.
              let init = r_ConstantInitializer P (fst (obj_type ob), 0) designated False in
              bnd (if bit_field_width ob \<noteq> 0 then constant_bit_field E mt ob val init else init) (\<lambda>c.
              bnd (liftR (list_set vals (nat index) c)) (\<lambda>vals.
              if \<not> IsStructTy t \<or> (\<not> has_brace \<and> iter' = []) then finish (vals, True)
              else bnd (TryTok Tag_kComma) (\<lambda>b.
                if \<not> b then thn (end_of_list has_brace) (finish (vals, False))
                else again (iter', vals)))))))))))) (members, zeros))
     (\<lambda>(vals, close). thn (if close then close_brace has_brace ''excess members in struct initializer'' else ret ())
        (bnd (llvm_type t) (\<lambda>l. ret (constant_struct (e_llvm E) l vals))))))))"

definition ParseConstantInitializer :: "'c env \<Rightarrow> 'c procs \<Rightarrow> qtype \<Rightarrow> bool \<Rightarrow> bool \<Rightarrow> ('c, 'c) parser" where
  "ParseConstantInitializer E P q designated force_brace = thn (expect_equal designated)
     (let t = fst q in
      if IsArrayTy t then
        bnd (TestOneOf {Tag_kLeftBrace, Tag_kStringLiteral}) (\<lambda>b.
          if force_brace \<and> \<not> b then thn (Expect Tag_kLeftBrace) (failP Assert_Fail)
          else bnd (ParseLiteralInitializer E t False) (\<lambda>p. case p of
              None \<Rightarrow> bnd (ParseConstantArrayInitializer E P t designated) (\<lambda>c. thn (set_complete E t) (ret c))
            | Some c \<Rightarrow> ret c))
      else if IsStructOrUnionTy t then ParseConstantStructInitializer E P t
      else bnd (TryTok Tag_kLeftBrace) (\<lambda>has_brace. bnd (r_AssignExpr P) (\<lambda>e.
        thn (if has_brace then thn (TryTok Tag_kComma) (thn (Expect Tag_kRightBrace) (ret ())) else ret ())
        (bnd (mk (\<lambda>h. Calc (e_llvm E) (e_dl E) h e)) (\<lambda>c. case c of
           None \<Rightarrow> Error ''expect constant expression''
         | Some v \<Rightarrow> bnd (llvm_type t) (\<lambda>l. bnd (type_of e) (\<lambda>eq.
             liftR (ConstantCastTo (e_llvm E) v l (IsUnsigned (fst eq)))))))))) "

end
