(* ===== verification/Kcc_ParseStmt.thy ===== *)
theory Kcc_ParseStmt
  imports Kcc_ParseDecl Kcc_ParseInit
begin

text \<open>
  Statements: \<open>src/parse_stmt.cpp\<close>; function definitions and the translation unit:
  \<open>src/parse.cpp\<close>. The last part fills the record of recursive calls.
\<close>

subsection \<open>Statements\<close>

definition ParseInt64Constant :: "'c env \<Rightarrow> 'c procs \<Rightarrow> ('c, int) parser" where
  "ParseInt64Constant E P = bnd (r_Expr P) (\<lambda>e. bnd (type_of e) (\<lambda>q.
     if \<not> IsIntegerTy (fst q) then Error ''expect integer'' else calc_integer E e))"

definition ParseLabelStmt :: "'c env \<Rightarrow> 'c procs \<Rightarrow> ('c, stmt) parser" where
  "ParseLabelStmt E P = bnd (Expect Tag_kIdentifier) (\<lambda>t. thn (Expect Tag_kColon) (thn (TryParseAttributeSpec P)
     (bnd (ident_of E t) (\<lambda>name. bnd (FindLabel name) (\<lambda>l.
     if l \<noteq> None then Error ''redefine of label''
     else bnd (r_Stmt P) (\<lambda>st.
       thn (modify (\<lambda>s. s\<lparr>p_labels := AList.update name (SLabel name st) (p_labels s)\<rparr>))
       (ret (SLabel name st))))))))"

definition ParseCaseStmt :: "'c env \<Rightarrow> 'c procs \<Rightarrow> ('c, stmt) parser" where
  "ParseCaseStmt E P = thn (Expect Tag_kCase) (bnd (ParseInt64Constant E P) (\<lambda>lhs. bnd (TryTok Tag_kEllipsis) (\<lambda>b.
     if b then bnd (ParseInt64Constant E P) (\<lambda>rhs. thn (Expect Tag_kColon)
       (bnd (r_Stmt P) (\<lambda>st. ret (SCase lhs (Some rhs) st))))
     else thn (Expect Tag_kColon) (bnd (r_Stmt P) (\<lambda>st. ret (SCase lhs None st))))))"

definition ParseDefaultStmt :: "'c procs \<Rightarrow> ('c, stmt) parser" where
  "ParseDefaultStmt P = thn (Expect Tag_kDefault) (thn (Expect Tag_kColon) (bnd (r_Stmt P) (\<lambda>st. ret (SDefault st))))"

definition ParseCompoundStmt :: "'c env \<Rightarrow> 'c procs \<Rightarrow> ctype option \<Rightarrow> ('c, stmt list) parser" where
  "ParseCompoundStmt E P func_type = thn (Expect Tag_kLeftBrace) (thn (EnterBlock func_type) (thn push_block
     (thn (looped (\<lambda>_. bnd (TryTok Tag_kRightBrace) (\<lambda>b. if b then finish ()
        else bnd PeekTok (\<lambda>t. bnd (IsDecl E t) (\<lambda>d.
          if d then bnd (r_Decl P) (\<lambda>st. thn (add_stmt st) (again ()))
          else bnd (r_Stmt P) (\<lambda>st. thn (add_stmt (Some st)) (again ())))))) ())
     (thn ExitBlock pop_block))))"

definition ParseExprStmt :: "'c procs \<Rightarrow> ('c, stmt) parser" where
  "ParseExprStmt P = bnd (TryTok Tag_kSemicolon) (\<lambda>b. if b then ret (SExpr None)
     else bnd (r_Expr P) (\<lambda>e. thn (Expect Tag_kSemicolon) (ret (SExpr (Some e)))))"

definition paren_expr :: "'c procs \<Rightarrow> ('c, expr) parser" where
  "paren_expr P = thn (Expect Tag_kLeftParen) (bnd (r_Expr P) (\<lambda>e. thn (Expect Tag_kRightParen) (ret e)))"

definition ParseIfStmt :: "'c procs \<Rightarrow> ('c, stmt) parser" where
  "ParseIfStmt P = thn (Expect Tag_kIf) (bnd (paren_expr P) (\<lambda>cond. bnd (r_Stmt P) (\<lambda>then_block.
     bnd (TryTok Tag_kElse) (\<lambda>b.
       if b then bnd (r_Stmt P) (\<lambda>e. mk (\<lambda>h. mk_if h cond then_block (Some e)))
       else mk (\<lambda>h. mk_if h cond then_block None)))))"

definition ParseSwitchStmt :: "'c procs \<Rightarrow> ('c, stmt) parser" where
  "ParseSwitchStmt P = thn (Expect Tag_kSwitch) (bnd (paren_expr P) (\<lambda>cond. bnd (r_Stmt P) (\<lambda>st.
     mk (\<lambda>h. mk_switch h cond st))))"

definition ParseWhileStmt :: "'c procs \<Rightarrow> ('c, stmt) parser" where
  "ParseWhileStmt P = thn (Expect Tag_kWhile) (bnd (paren_expr P) (\<lambda>cond. bnd (r_Stmt P) (\<lambda>st.
     mk (\<lambda>h. mk_while h cond st))))"

definition ParseDoWhileStmt :: "'c procs \<Rightarrow> ('c, stmt) parser" where
  "ParseDoWhileStmt P = thn (Expect Tag_kDo) (bnd (r_Stmt P) (\<lambda>st. thn (Expect Tag_kWhile)
     (bnd (paren_expr P) (\<lambda>cond. thn (Expect Tag_kSemicolon) (mk (\<lambda>h. mk_do_while h cond st))))))"

text \<open>A clause of a \<open>for\<close> with the token that ends it.\<close>

definition for_clause :: "'c procs \<Rightarrow> tag \<Rightarrow> ('c, expr option) parser" where
  "for_clause P stop = bnd (TryTok stop) (\<lambda>b. if b then ret None
     else bnd (r_Expr P) (\<lambda>e. thn (Expect stop) (ret (Some e))))"

definition ParseForStmt :: "'c env \<Rightarrow> 'c procs \<Rightarrow> ('c, stmt) parser" where
  "ParseForStmt E P = thn (Expect Tag_kFor) (thn (Expect Tag_kLeftParen) (thn (EnterBlock None)
     (bnd PeekTok (\<lambda>t. bnd (IsDecl E t) (\<lambda>d.
      bnd (if d then bnd (r_Decl P) (\<lambda>dc. ret (None, dc))
           else bnd (for_clause P Tag_kSemicolon) (\<lambda>i. ret (i, None))) (\<lambda>(init, dc).
      bnd (for_clause P Tag_kSemicolon) (\<lambda>cond. bnd (for_clause P Tag_kRightParen) (\<lambda>inc.
      bnd (r_Stmt P) (\<lambda>block. thn ExitBlock (mk (\<lambda>h. mk_for h init cond inc block dc)))))))))))"

definition ParseGotoStmt :: "'c env \<Rightarrow> ('c, stmt) parser" where
  "ParseGotoStmt E = thn (Expect Tag_kGoto) (bnd (Expect Tag_kIdentifier) (\<lambda>t. thn (Expect Tag_kSemicolon)
     (bnd (ident_of E t) (\<lambda>name. thn (modify (\<lambda>s. s\<lparr>p_gotos := p_gotos s @ [name]\<rparr>)) (ret (SGoto name))))))"

definition ParseContinueStmt :: "('c, stmt) parser" where
  "ParseContinueStmt = thn (Expect Tag_kContinue) (thn (Expect Tag_kSemicolon) (ret SContinue))"

definition ParseBreakStmt :: "('c, stmt) parser" where
  "ParseBreakStmt = thn (Expect Tag_kBreak) (thn (Expect Tag_kSemicolon) (ret SBreak))"

definition return_type :: "('c, qtype) parser" where
  "return_type = getsE (\<lambda>s. case p_func s of
       None \<Rightarrow> Inl Null_Deref
     | Some f \<Rightarrow> FuncGetReturnType (fst (ident_type (p_heap s) f)))"

definition ParseReturnStmt :: "'c procs \<Rightarrow> ('c, stmt) parser" where
  "ParseReturnStmt P = thn (Expect Tag_kReturn) (bnd (TryTok Tag_kSemicolon) (\<lambda>b. if b then ret (SReturn None)
     else bnd (r_Expr P) (\<lambda>e. bnd return_type (\<lambda>q. bnd (mk (\<lambda>h. Expr_MayCastTo h e q)) (\<lambda>e'.
       thn (Expect Tag_kSemicolon) (ret (SReturn (Some e'))))))))"

definition ParseStmt :: "'c env \<Rightarrow> 'c procs \<Rightarrow> ('c, stmt) parser" where
  "ParseStmt E P = thn (TryParseAttributeSpec P) (bnd PeekTok (\<lambda>t.
     if TagIs t Tag_kIdentifier then thn NextTok (bnd (TestTok Tag_kColon) (\<lambda>b.
       if b then thn PutBackTok (ParseLabelStmt E P) else thn PutBackTok (ParseExprStmt P)))
     else if TagIs t Tag_kCase then ParseCaseStmt E P
     else if TagIs t Tag_kDefault then ParseDefaultStmt P
     else if TagIs t Tag_kLeftBrace then bnd (ParseCompoundStmt E P None) (\<lambda>ss. ret (SCompound ss))
     else if TagIs t Tag_kIf then ParseIfStmt P
     else if TagIs t Tag_kSwitch then ParseSwitchStmt P
     else if TagIs t Tag_kWhile then ParseWhileStmt P
     else if TagIs t Tag_kDo then ParseDoWhileStmt P
     else if TagIs t Tag_kFor then ParseForStmt E P
     else if TagIs t Tag_kGoto then ParseGotoStmt E
     else if TagIs t Tag_kContinue then ParseContinueStmt
     else if TagIs t Tag_kBreak then ParseBreakStmt
     else if TagIs t Tag_kReturn then ParseReturnStmt P
     else ParseExprStmt P))"

subsection \<open>The recursive calls\<close>

text \<open>
  \<open>parser_at E n\<close>: the calls with at most \<open>n\<close> further levels of recursion below them.
\<close>

definition failing :: "kcc_error \<Rightarrow> 'c procs" where
  "failing e = \<lparr>r_Expr = failP e, r_AssignExpr = failP e, r_ConditionExpr = failP e,
     r_CastExpr = failP e, r_UnaryExpr = failP e, r_TypeName = failP e,
     r_CompoundStmt = (\<lambda>_. failP e), r_Stmt = failP e, r_Decl = failP e,
     r_DeclSpec = (\<lambda>_ _ _. failP e), r_Declarator = (\<lambda>_. failP e),
     r_DeclaratorTail = (\<lambda>_. failP e), r_Initializer = (\<lambda>_ _ _ _. failP e),
     r_ConstantInitializer = (\<lambda>_ _ _. failP e)\<rparr>"

definition calls :: "'c env \<Rightarrow> 'c procs \<Rightarrow> 'c procs" where
  "calls E P = \<lparr>r_Expr = ParseExpr E P, r_AssignExpr = ParseAssignExpr E P, r_ConditionExpr = ParseConditionExpr E P,
     r_CastExpr = ParseCastExpr E P, r_UnaryExpr = ParseUnaryExpr E P, r_TypeName = ParseTypeName E P,
     r_CompoundStmt = ParseCompoundStmt E P, r_Stmt = ParseStmt E P,
     r_Decl = bnd (ParseDecl E P False) (\<lambda>ds. ret (case ds of None \<Rightarrow> None | Some ss \<Rightarrow> Some (SCompound ss))),
     r_DeclSpec = ParseDeclSpec E P, r_Declarator = ParseDeclarator E P,
     r_DeclaratorTail = ParseDirectDeclaratorTail E P, r_Initializer = ParseInitializer E P,
     r_ConstantInitializer = ParseConstantInitializer E P\<rparr>"

primrec parser_at :: "'c env \<Rightarrow> nat \<Rightarrow> 'c procs" where
  "parser_at E 0 = failing Out_Of_Fuel"
| "parser_at E (Suc n) = calls E (parser_at E n)"

subsection \<open>Translation units\<close>

datatype ext_decl =
    FuncDef ident "stmt list"
  | ExtDecls "stmt list"

definition SetBody :: "'c env \<Rightarrow> ident \<Rightarrow> ('c, unit) parser" where
  "SetBody E i = bnd (gets (\<lambda>s. fst (ident_type (p_heap s) i))) (\<lambda>t. bnd (complete t) (\<lambda>c.
     if c then Error ''redefinition of func'' else upd_heap (SetComplete (e_dl E) True t)))"

definition resolve_gotos :: "('c, unit) parser" where
  "resolve_gotos = bnd (gets (\<lambda>s. \<exists>g \<in> set (p_gotos s). map_of (p_labels s) g = None)) (\<lambda>bad.
     if bad then Error ''unknown label'' else modify (\<lambda>s. s\<lparr>p_gotos := [], p_labels := []\<rparr>))"

definition ParseFuncDef :: "'c env \<Rightarrow> 'c procs \<Rightarrow> nat \<Rightarrow> ('c, ext_decl) parser" where
  "ParseFuncDef E P d = bnd (gets (\<lambda>s. d_ident (p_decls s d))) (\<lambda>i. bnd (decl_type d) (\<lambda>q.
     if \<not> IsFunctionTy (fst q) then Error ''func def need func type''
     else thn (EnterFunc i) (bnd (ParseCompoundStmt E P (Some (fst q))) (\<lambda>body.
       thn (SetBody E i) (thn ExitFunc (thn resolve_gotos (ret (FuncDef i body))))))))"

definition ParseExternalDecl :: "'c env \<Rightarrow> 'c procs \<Rightarrow> ('c, ext_decl option) parser" where
  "ParseExternalDecl E P = bnd (ParseDecl E P True) (\<lambda>ext. case ext of
       None \<Rightarrow> ret None
     | Some stmts \<Rightarrow> thn (TryParseAsm E) (thn (TryParseAttributeSpec P) (bnd (TestTok Tag_kLeftBrace) (\<lambda>b.
         if b then (case stmts of
             [SDecl d] \<Rightarrow> bnd (ParseFuncDef E P d) (\<lambda>f. ret (Some f))
           | _ \<Rightarrow> Error ''unexpect left braces'')
         else thn (Expect Tag_kSemicolon) (ret (Some (ExtDecls stmts)))))))"

definition ParseTranslationUnit :: "'c env \<Rightarrow> nat \<Rightarrow> ('c, ext_decl list) parser" where
  "ParseTranslationUnit E n = looped (\<lambda>ds. bnd HasNextTok (\<lambda>b. if \<not> b then finish ds
     else bnd (ParseExternalDecl E (parser_at E n)) (\<lambda>d.
       again (ds @ (case d of None \<Rightarrow> [] | Some x \<Rightarrow> [x]))))) []"

definition Parse :: "'c env \<Rightarrow> nat \<Rightarrow> token list \<Rightarrow> (ext_decl list \<times> 'c pstate) result" where
  "Parse E n tokens = thn (AddBuiltin E) (ParseTranslationUnit E n) (Parser_init tokens)"

end
