(* ===== verification/Kcc_Cursor.thy ===== *)
theory Kcc_Cursor
  imports Kcc_ParseStmt
begin

text \<open>
  Running the parser on a given input: the tokens ahead of the cursor, the state behind a number
  of them, and one equation for each combinator and each operation of the cursor, so that the
  simplifier follows a parse token by token.
\<close>

definition ahead :: "'c pstate \<Rightarrow> token list" where
  "ahead s = drop (p_index s) (p_tokens s)"

definition advance :: "nat \<Rightarrow> 'c pstate \<Rightarrow> 'c pstate" where
  "advance n s = s\<lparr>p_index := p_index s + n\<rparr>"

lemma advance_fields [simp]:
  "p_tokens (advance n s) = p_tokens s" "p_index (advance n s) = p_index s + n"
  "p_heap (advance n s) = p_heap s" "p_scope (advance n s) = p_scope s" "p_func (advance n s) = p_func s"
  "p_decls (advance n s) = p_decls s" "p_blocks (advance n s) = p_blocks s" "p_indexs (advance n s) = p_indexs s"
  by (simp_all add: advance_def)

lemma advance_0 [simp]: "advance 0 s = s"
  by (simp add: advance_def)

lemma advance_advance [simp]: "advance m (advance n s) = advance (n + m) s"
  by (simp add: advance_def add.assoc)

lemma ahead_advance [simp]: "ahead (advance n s) = drop n (ahead s)"
  by (simp add: ahead_def add.commute)

lemma tokens_left_ahead: "tokens_left s = length (ahead s)"
  by (simp add: tokens_left_def ahead_def)

lemma mk_run [run]: "mk f s = bindE (f (p_heap s)) (\<lambda>x. Inr (x, s))"
  by (simp add: mk_def getsE_def)

lemma looped_run [run]: "looped body a s = repeatP (Suc (length (ahead s))) body a s"
  by (simp add: looped_def tokens_left_ahead)

lemma PeekTok_run [run]: "PeekTok s = (case ahead s of [] \<Rightarrow> Inl Out_Of_Range | t # _ \<Rightarrow> Inr (t, s))"
  by (auto simp: PeekTok_def getsE_def ahead_def split: list.split)
     (metis hd_drop_conv_nth list.sel(1))

lemma TestTok_run [run]: "TestTok g s = (case ahead s of [] \<Rightarrow> Inl Out_Of_Range | t # _ \<Rightarrow> Inr (TagIs t g, s))"
  by (simp add: TestTok_def run split: list.split)

lemma NextTok_run [run]: "NextTok s = (case ahead s of [] \<Rightarrow> Inl Out_Of_Range | t # _ \<Rightarrow> Inr (t, advance 1 s))"
  by (simp add: NextTok_def run advance_def split: list.split)

lemma TryTok_run [run]: "TryTok g s = (case ahead s of [] \<Rightarrow> Inl Out_Of_Range
    | t # _ \<Rightarrow> if TagIs t g then Inr (True, advance 1 s) else Inr (False, s))"
  by (simp add: TryTok_def run split: list.split)

lemma Expect_run [run]: "Expect g s = (case ahead s of [] \<Rightarrow> Inl Out_Of_Range
    | t # _ \<Rightarrow> if TagIs t g then Inr (t, advance 1 s) else Inl (Diag ''expected, but got''))"
  by (simp add: Expect_def run split: list.split)

lemma PutBack_advance [run]: "PutBackTok (advance (Suc n) s) = Inr ((), advance n s)"
  by (simp add: PutBackTok_def run advance_def)

lemma set_index_run [run]: "set_index (p_index s) (advance n s) = Inr ((), s)"
  by (simp add: set_index_def run advance_def)

lemma set_index_here [run]: "set_index (p_index s) s = Inr ((), s)"
  by (simp add: set_index_def run)

end
