(* ===== verification/Kcc_Grammar.thy ===== *)
theory Kcc_Grammar
  imports Kcc_Cursor
begin

text \<open>
  The grammar of expressions as a datatype: operators with their precedence and associativity,
  the tokens of an expression, and the tree the checks of \<open>src/ast.cpp\<close> build from it bottom-up.
  The parser of \<open>src/parse_expr.cpp\<close> reads exactly this grammar.
\<close>

subsection \<open>Expressions\<close>

datatype bexp =
    Atom token
  | Paren token bexp token
  | Prefix token bexp
  | Suffix bexp token
  | Index bexp token bexp token
  | Infix bexp token bexp
  | Ternary bexp token bexp token bexp

definition levels :: "(tag \<times> nat) list" where
  "levels = [(Tag_kComma, 1), (Tag_kEqual, 2), (Tag_kStarEqual, 2), (Tag_kSlashEqual, 2), (Tag_kPercentEqual, 2),
     (Tag_kPlusEqual, 2), (Tag_kMinusEqual, 2), (Tag_kLessLessEqual, 2), (Tag_kGreaterGreaterEqual, 2),
     (Tag_kAmpEqual, 2), (Tag_kCaretEqual, 2), (Tag_kPipeEqual, 2), (Tag_kQuestion, 3), (Tag_kPipePipe, 4),
     (Tag_kAmpAmp, 5), (Tag_kPipe, 6), (Tag_kCaret, 7), (Tag_kAmp, 8), (Tag_kEqualEqual, 9), (Tag_kExclaimEqual, 9),
     (Tag_kLess, 10), (Tag_kGreater, 10), (Tag_kLessEqual, 10), (Tag_kGreaterEqual, 10), (Tag_kLessLess, 11),
     (Tag_kGreaterGreater, 11), (Tag_kPlus, 12), (Tag_kMinus, 12), (Tag_kStar, 13), (Tag_kSlash, 13),
     (Tag_kPercent, 13), (Tag_kLeftSquare, 15), (Tag_kLeftParen, 15), (Tag_kArrow, 15), (Tag_kPeriod, 15),
     (Tag_kPlusPlus, 15), (Tag_kMinusMinus, 15)]"

text \<open>The level of an operator behind an operand; 0 for a token that is none.\<close>

definition lv :: "token \<Rightarrow> nat" where
  "lv t = (case map_of levels (tok_tag t) of Some n \<Rightarrow> n | None \<Rightarrow> 0)"

definition prefix_tags :: "tag set" where
  "prefix_tags = {Tag_kPlusPlus, Tag_kMinusMinus, Tag_kAmp, Tag_kStar, Tag_kPlus, Tag_kMinus, Tag_kTilde, Tag_kExclaim}"

primrec tokens_of :: "bexp \<Rightarrow> token list" where
  "tokens_of (Atom t) = [t]"
| "tokens_of (Paren l e r) = l # tokens_of e @ [r]"
| "tokens_of (Prefix t e) = t # tokens_of e"
| "tokens_of (Suffix e t) = tokens_of e @ [t]"
| "tokens_of (Index e l i r) = tokens_of e @ l # tokens_of i @ [r]"
| "tokens_of (Infix a t b) = tokens_of a @ t # tokens_of b"
| "tokens_of (Ternary c q a cl b) = tokens_of c @ q # tokens_of a @ cl # tokens_of b"

text \<open>A name that can stand in an expression: it is known as something else than a type, or unknown.\<close>

definition plain_name :: "'c env \<Rightarrow> heap \<Rightarrow> nat \<Rightarrow> token \<Rightarrow> bool" where
  "plain_name E h sc t = (IsIdentifier t \<and> (case GetIdentifier E t of
       Inr n \<Rightarrow> (case FindUsual (h_scopes h) sc n of Some i \<Rightarrow> \<not> ident_IsTypeName i | None \<Rightarrow> True)
     | Inl _ \<Rightarrow> False))"

text \<open>An expression of level \<open>k\<close> needs no parentheses where the grammar asks for level \<open>k\<close>.\<close>

primrec fits :: "'c env \<Rightarrow> heap \<Rightarrow> nat \<Rightarrow> nat \<Rightarrow> bexp \<Rightarrow> bool" where
  "fits E h sc k (Atom t) = (plain_name E h sc t \<or> IsInteger t)"
| "fits E h sc k (Paren l e r) = (TagIs l Tag_kLeftParen \<and> TagIs r Tag_kRightParen \<and> fits E h sc 1 e)"
| "fits E h sc k (Prefix t e) = (k \<le> 14 \<and> tok_tag t \<in> prefix_tags \<and> fits E h sc 14 e)"
| "fits E h sc k (Suffix e t) = (k \<le> 15 \<and> tok_tag t \<in> {Tag_kPlusPlus, Tag_kMinusMinus} \<and> fits E h sc 15 e)"
| "fits E h sc k (Index e l i r) = (k \<le> 15 \<and> TagIs l Tag_kLeftSquare \<and> TagIs r Tag_kRightSquare
     \<and> fits E h sc 15 e \<and> fits E h sc 1 i)"
| "fits E h sc k (Infix a t b) = (k \<le> lv t \<and> lv t \<in> {1, 2, 4, 5, 6, 7, 8, 9, 10, 11, 12, 13}
     \<and> (if lv t = 2 then fits E h sc 3 a \<and> fits E h sc 2 b else fits E h sc (lv t) a \<and> fits E h sc (lv t + 1) b))"
| "fits E h sc k (Ternary c q a cl b) = (k \<le> 3 \<and> TagIs q Tag_kQuestion \<and> TagIs cl Tag_kColon
     \<and> fits E h sc 4 c \<and> fits E h sc 1 a \<and> fits E h sc 3 b)"

text \<open>How deep the parser's functions are nested in the cycle of their calls.\<close>

primrec nesting :: "bexp \<Rightarrow> nat" where
  "nesting (Atom t) = 1"
| "nesting (Paren l e r) = Suc (nesting e)"
| "nesting (Prefix t e) = Suc (nesting e)"
| "nesting (Suffix e t) = nesting e"
| "nesting (Index e l i r) = max (nesting e) (Suc (nesting i))"
| "nesting (Infix a t b) = max (nesting a) (if lv t = 2 then Suc (nesting b) else nesting b)"
| "nesting (Ternary c q a cl b) = max (nesting c) (max (Suc (nesting a)) (Suc (nesting b)))"

text \<open>The tree of an expression, from the operands up, left before right.\<close>

definition atom :: "'c env \<Rightarrow> heap \<Rightarrow> nat \<Rightarrow> token \<Rightarrow> expr result" where
  "atom E h sc t = (if IsIdentifier t
     then bindE (GetIdentifier E t) (\<lambda>n. case FindUsual (h_scopes h) sc n of
            Some i \<Rightarrow> Inr (EIdent i) | None \<Rightarrow> Inl (Diag ''undefined symbol''))
     else bindE (integer_literal (tok_str t)) (\<lambda>(ty, v). mk_int h ty (word_of_int v)))"

definition infix_tree :: "heap \<Rightarrow> tag \<Rightarrow> expr \<Rightarrow> expr \<Rightarrow> expr result" where
  "infix_tree h op l r = (case map_of compound_ops op of
       Some op' \<Rightarrow> bindE (mk_binary h op' l r) (mk_binary h Tag_kEqual l)
     | None \<Rightarrow> mk_binary h op l r)"

primrec build :: "'c env \<Rightarrow> heap \<Rightarrow> nat \<Rightarrow> bexp \<Rightarrow> expr result" where
  "build E h sc (Atom t) = atom E h sc t"
| "build E h sc (Paren l e r) = build E h sc e"
| "build E h sc (Prefix t e) = bindE (build E h sc e) (mk_unary h (tok_tag t))"
| "build E h sc (Suffix e t) = bindE (build E h sc e)
     (mk_unary h (if TagIs t Tag_kPlusPlus then Tag_kPostfixPlusPlus else Tag_kPostfixMinusMinus))"
| "build E h sc (Index e l i r) = bindE (build E h sc e) (\<lambda>x. bindE (build E h sc i) (\<lambda>y.
     bindE (mk_binary h Tag_kPlus x y) (mk_unary h Tag_kStar)))"
| "build E h sc (Infix a t b) = bindE (build E h sc a) (\<lambda>x. bindE (build E h sc b) (infix_tree h (tok_tag t) x))"
| "build E h sc (Ternary c q a cl b) = bindE (build E h sc c) (\<lambda>x. bindE (build E h sc a) (\<lambda>y.
     bindE (build E h sc b) (mk_cond h x y)))"

subsection \<open>Parsers of a level\<close>

text \<open>
  \<open>reads E n k p\<close>: the parser \<open>p\<close> reads every expression of level \<open>k\<close> and of nesting up to \<open>n\<close>
  that a token of a lower level follows, returns its tree or the error of building it, and stops
  behind it with nothing else changed.
\<close>

definition reads :: "'c env \<Rightarrow> nat \<Rightarrow> nat \<Rightarrow> ('c, expr) parser \<Rightarrow> bool" where
  "reads E n k p \<longleftrightarrow> (\<forall>e s t rest. fits E (p_heap s) (p_scope s) k e \<longrightarrow> nesting e \<le> n \<longrightarrow>
     ahead s = tokens_of e @ t # rest \<longrightarrow> lv t < k \<longrightarrow>
     p s = bindE (build E (p_heap s) (p_scope s) e) (\<lambda>x. Inr (x, advance (length (tokens_of e)) s)))"

lemma readsD:
  "reads E n k p \<Longrightarrow> fits E (p_heap s) (p_scope s) k e \<Longrightarrow> nesting e \<le> n \<Longrightarrow> ahead s = tokens_of e @ t # rest \<Longrightarrow> lv t < k \<Longrightarrow>
   p s = bindE (build E (p_heap s) (p_scope s) e) (\<lambda>x. Inr (x, advance (length (tokens_of e)) s))"
  unfolding reads_def by blast

subsection \<open>First tokens\<close>

definition starts :: "'c env \<Rightarrow> heap \<Rightarrow> nat \<Rightarrow> token \<Rightarrow> bool" where
  "starts E h sc t \<longleftrightarrow> plain_name E h sc t \<or> tok_tag t \<in> {Tag_kInteger, Tag_kLeftParen} \<union> prefix_tags"

lemma fits_starts: "fits E h sc k e \<Longrightarrow> \<exists>t rest. tokens_of e = t # rest \<and> starts E h sc t"
proof (induction e arbitrary: k)
  case (Infix a t b)
  then have "\<exists>j. fits E h sc j a" by (auto split: if_splits)
  then obtain j where "fits E h sc j a" ..
  from Infix.IH(1) [OF this] show ?case by auto
next
  case (Ternary c q a cl b)
  then have "fits E h sc 4 c" by simp
  then show ?case using Ternary.IH(1) by fastforce
next
  case (Suffix e t)
  then show ?case by fastforce
next
  case (Index e l i r)
  then show ?case by fastforce
qed (auto simp: starts_def IsInteger_def TagIs_def)

lemma starts_tag: "starts E h sc t \<Longrightarrow> tok_tag t \<in> {Tag_kIdentifier, Tag_kInteger, Tag_kLeftParen} \<union> prefix_tags"
  by (auto simp: starts_def plain_name_def IsIdentifier_def)

lemma starts_not:
  assumes "starts E h sc t"
  shows "\<not> TagIs t Tag_kExtension" "\<not> TagIs t Tag_kLeftBrace" "\<not> TagIs t Tag_kColon"
  using starts_tag [OF assms] by (auto simp: TagIs_def prefix_tags_def)

lemma plain_not_type: "plain_name E (p_heap s) (p_scope s) t \<Longrightarrow> IsTypeName E t s = Inr (False, s)"
  by (auto simp: plain_name_def IsTypeName_def names_type_def IsIdentifier_def IsTypeSpecQual_def ident_of_def find_usual_def run
      split: sum.splits option.splits)

lemma starts_not_type: "starts E (p_heap s) (p_scope s) t \<Longrightarrow> IsTypeName E t s = Inr (False, s)"
  unfolding starts_def
  by (elim disjE plain_not_type)
     (auto simp: IsTypeName_def names_type_def IsIdentifier_def IsTypeSpecQual_def prefix_tags_def run)

text \<open>An expression of level 15 does not start with a prefix operator.\<close>

lemma fits_15_start:
  "fits E h sc 15 e \<Longrightarrow> \<exists>t rest. tokens_of e = t # rest \<and> starts E h sc t \<and> tok_tag t \<notin> prefix_tags"
proof (induction e)
  case (Infix a t b)
  then show ?case by (auto simp: lv_def)
qed (auto simp: starts_def plain_name_def IsIdentifier_def IsInteger_def TagIs_def prefix_tags_def)

lemma fits_ahead:
  assumes "fits E (p_heap s) (p_scope s) k e" and "ahead s = tokens_of e @ ts"
  obtains t rest where "ahead s = t # rest" "starts E (p_heap s) (p_scope s) t"
  using fits_starts [OF assms(1)] assms(2) by auto

lemma tokens_of_Cons: "0 < length (tokens_of e)"
  by (induction e) auto

text \<open>A left parenthesis at the start does not stand before a type.\<close>

lemma fits_paren:
  "fits E h sc k e \<Longrightarrow> tokens_of e = l # ts \<Longrightarrow> TagIs l Tag_kLeftParen \<Longrightarrow> \<exists>u us. ts = u # us \<and> starts E h sc u"
proof (induction e arbitrary: k ts)
  case (Atom t)
  then show ?case by (auto simp: plain_name_def IsIdentifier_def IsInteger_def TagIs_def)
next
  case (Paren l' e r)
  then show ?case using fits_starts [of E h sc 1 e] by auto
next
  case (Prefix t e)
  then show ?case by (auto simp: prefix_tags_def TagIs_def)
next
  case (Suffix e t)
  then show ?case using tokens_of_Cons [of e] by (cases "tokens_of e") fastforce+
next
  case (Index e l' i r)
  then show ?case using tokens_of_Cons [of e] by (cases "tokens_of e") fastforce+
next
  case (Infix a t b)
  then obtain j where "fits E h sc j a" by (auto split: if_splits)
  with Infix show ?case using tokens_of_Cons [of a] by (cases "tokens_of a") fastforce+
next
  case (Ternary c q a cl b)
  then show ?case using tokens_of_Cons [of c] by (cases "tokens_of c") fastforce+
qed

lemma not_type_ahead:
  assumes "fits E (p_heap s) (p_scope s) k e" and "ahead s = tokens_of e @ t # rest"
  obtains u v us where "ahead s = u # v # us" "starts E (p_heap s) (p_scope s) u"
    "TagIs u Tag_kLeftParen \<Longrightarrow> IsTypeName E v (advance 1 s) = Inr (False, advance 1 s)"
proof -
  obtain u ts where u: "tokens_of e = u # ts" "starts E (p_heap s) (p_scope s) u" using fits_starts [OF assms(1)] by auto
  obtain v us where v: "ts @ t # rest = v # us" by (cases ts) auto
  have "IsTypeName E v (advance 1 s) = Inr (False, advance 1 s)" if "TagIs u Tag_kLeftParen"
    using fits_paren [OF assms(1) u(1) that] v by (auto intro: starts_not_type)
  with u v assms(2) show thesis by (intro that [of u v us]) auto
qed

subsection \<open>Operators that associate to the left\<close>

lemma lv_level: "map_of levels (tok_tag t) = Some n \<Longrightarrow> lv t = n"
  by (simp add: lv_def)

text \<open>The loop of \<open>left_assoc\<close> behind an operand, for any number of turns that are left.\<close>

definition assoc_turn :: "tag set \<Rightarrow> ('c, expr) parser \<Rightarrow> expr \<Rightarrow> ('c, expr + expr) parser" where
  "assoc_turn ops operand lhs = bnd PeekTok (\<lambda>t. if tok_tag t \<in> ops
     then thn NextTok (bnd operand (\<lambda>rhs. bnd (binary (tok_tag t) lhs rhs) again)) else finish lhs)"

lemma left_assoc_turns: "left_assoc ops operand = bnd operand (looped (assoc_turn ops operand))"
  by (simp add: left_assoc_def assoc_turn_def [abs_def])

lemma fits_up: "fits E h sc k e \<Longrightarrow> (\<And>a t b. e = Infix a t b \<Longrightarrow> lv t \<noteq> k) \<Longrightarrow> k \<noteq> 3 \<Longrightarrow> k < 14 \<Longrightarrow> fits E h sc (Suc k) e"
  by (cases e) (auto simp: Suc_le_eq)

lemma spine_0:
  assumes "reads E n (Suc k) operand" and "fits E (p_heap s) (p_scope s) (Suc k) e" and "nesting e \<le> n"
    and "ahead s = tokens_of e @ t # rest" and "lv t \<le> k"
  shows "\<exists>j. (\<forall>x s'. operand s = Inr (x, s') \<longrightarrow> j + length (t # rest) \<le> length (ahead s')) \<and>
    (\<forall>m. bindE (operand s) (\<lambda>(x, s'). repeatP (j + m) body x s')
      = bindE (build E (p_heap s) (p_scope s) e) (\<lambda>x. repeatP m body x (advance (length (tokens_of e)) s)))"
  using readsD [OF assms(1-4)] assms(4,5) by (intro exI [of _ 0]) (auto simp: bindE_assoc result_simps)

lemma left_assoc_spine:
  assumes op: "reads E n (Suc k) operand" and k: "k \<noteq> 2" "k \<noteq> 3" "k < 14" and ops: "\<And>t. tok_tag t \<in> ops \<longleftrightarrow> lv t = k"
    and plain: "\<And>g. g \<in> ops \<Longrightarrow> map_of compound_ops g = None"
  shows "fits E (p_heap s) (p_scope s) k e \<Longrightarrow> nesting e \<le> n \<Longrightarrow> ahead s = tokens_of e @ t # rest \<Longrightarrow> lv t \<le> k \<Longrightarrow>
    \<exists>j. (\<forall>x s'. operand s = Inr (x, s') \<longrightarrow> j + length (t # rest) \<le> length (ahead s')) \<and>
      (\<forall>m. bindE (operand s) (\<lambda>(x, s'). repeatP (j + m) (assoc_turn ops operand) x s')
      = bindE (build E (p_heap s) (p_scope s) e) (\<lambda>x. repeatP m (assoc_turn ops operand) x (advance (length (tokens_of e)) s)))"
proof (induction e arbitrary: t rest)
  case (Infix a o' b)
  show ?case
  proof (cases "lv o' = k")
    case True
    with Infix.prems k have f: "fits E (p_heap s) (p_scope s) k a" "fits E (p_heap s) (p_scope s) (Suc k) b"
      "nesting a \<le> n" "nesting b \<le> n" by auto
    from Infix.prems have ah: "ahead s = tokens_of a @ o' # (tokens_of b @ t # rest)" by simp
    from Infix.IH(1) [OF f(1,3) ah] True obtain j where j: "\<And>x s'. operand s = Inr (x, s') \<Longrightarrow> j + length (o' # tokens_of b @ t # rest) \<le> length (ahead s')" and
      IH: "\<And>m. bindE (operand s) (\<lambda>(x, s'). repeatP (j + m) (assoc_turn ops operand) x s')
      = bindE (build E (p_heap s) (p_scope s) a) (\<lambda>x. repeatP m (assoc_turn ops operand) x (advance (length (tokens_of a)) s))"
      by blast
    let ?s = "advance (Suc (length (tokens_of a))) s"
    have b: "operand ?s = bindE (build E (p_heap s) (p_scope s) b) (\<lambda>x. Inr (x, advance (length (tokens_of b)) ?s))"
      using readsD [OF op, of ?s b t rest] f ah Infix.prems by simp
    have turn: "repeatP (Suc m) (assoc_turn ops operand) x (advance (length (tokens_of a)) s) =
      bindE (build E (p_heap s) (p_scope s) b) (\<lambda>y. bindE (mk_binary (p_heap s) (tok_tag o') x y) (\<lambda>z.
        repeatP m (assoc_turn ops operand) z (advance (length (tokens_of b)) ?s)))" for m x
      using ah True ops [of o'] b by (simp add: assoc_turn_def run binary_def bindE_assoc case_prod_beta)
    have "\<forall>m. bindE (operand s) (\<lambda>(x, s'). repeatP (Suc j + m) (assoc_turn ops operand) x s')
      = bindE (build E (p_heap s) (p_scope s) (Infix a o' b))
          (\<lambda>x. repeatP m (assoc_turn ops operand) x (advance (length (tokens_of (Infix a o' b))) s))"
    proof
      fix m
      show "bindE (operand s) (\<lambda>(x, s'). repeatP (Suc j + m) (assoc_turn ops operand) x s')
        = bindE (build E (p_heap s) (p_scope s) (Infix a o' b))
            (\<lambda>x. repeatP m (assoc_turn ops operand) x (advance (length (tokens_of (Infix a o' b))) s))"
        using IH [of "Suc m"] plain [of "tok_tag o'"] True ops [of o']
        by (simp add: turn bindE_assoc infix_tree_def del: repeatP.simps)
    qed
    moreover have "\<forall>x s'. operand s = Inr (x, s') \<longrightarrow> Suc j + length (t # rest) \<le> length (ahead s')"
      using j by fastforce
    ultimately show ?thesis by blast
  next
    case False
    with fits_up [OF Infix.prems(1)] k have "fits E (p_heap s) (p_scope s) (Suc k) (Infix a o' b)" by auto
    from spine_0 [OF op this Infix.prems(2-)] show ?thesis .
  qed
next
  case (Atom x)
  show ?case by (rule spine_0 [OF op fits_up [OF Atom.prems(1)] Atom.prems(2-)]) (use k in auto)
next
  case (Paren l e r)
  show ?case by (rule spine_0 [OF op fits_up [OF Paren.prems(1)] Paren.prems(2-)]) (use k in auto)
next
  case (Prefix x e)
  show ?case by (rule spine_0 [OF op fits_up [OF Prefix.prems(1)] Prefix.prems(2-)]) (use k in auto)
next
  case (Suffix e x)
  show ?case by (rule spine_0 [OF op fits_up [OF Suffix.prems(1)] Suffix.prems(2-)]) (use k in auto)
next
  case (Index e l i r)
  show ?case by (rule spine_0 [OF op fits_up [OF Index.prems(1)] Index.prems(2-)]) (use k in auto)
next
  case (Ternary c q a cl b)
  show ?case by (rule spine_0 [OF op fits_up [OF Ternary.prems(1)] Ternary.prems(2-)]) (use k in auto)
qed

text \<open>The bound of \<open>looped\<close> leaves a turn for every element of the spine and one to stop.\<close>

lemma spine_looped:
  assumes j: "\<And>x s1. p s = Inr (x, s1) \<Longrightarrow> j \<le> length (ahead s1)"
    and turns: "\<And>m. bindE (p s) (\<lambda>(x, s1). repeatP (j + m) body x s1) = bindE b (\<lambda>x. repeatP m body x s')"
    and stop: "\<And>x m. repeatP (Suc m) body x s' = Inr (x, s')"
  shows "bnd p (looped body) s = bindE b (\<lambda>x. Inr (x, s'))"
proof (cases "p s")
  case (Inl err)
  with turns [of "Suc 0"] have "bindE b (\<lambda>x. Inr (x, s')) = Inl err" by (simp add: stop del: repeatP.simps)
  with Inl show ?thesis by (simp add: bnd_run)
next
  case (Inr r)
  obtain x s1 where r: "r = (x, s1)" by fastforce
  from j [of x s1] Inr r obtain m where "length (ahead s1) = j + m" by (auto simp: le_iff_add)
  with turns [of "Suc m"] Inr r show ?thesis by (simp add: bnd_run looped_run stop del: repeatP.simps)
qed

lemma left_assoc_reads:
  fixes E :: "'c env"
  assumes op: "reads E n (Suc k) operand" and k: "k \<noteq> 2" "k \<noteq> 3" "k < 14" and ops: "\<And>t. tok_tag t \<in> ops \<longleftrightarrow> lv t = k"
    and plain: "\<And>g. g \<in> ops \<Longrightarrow> map_of compound_ops g = None"
  shows "reads E n k (left_assoc ops operand)"
  unfolding reads_def
proof (intro allI impI)
  fix e and s :: "'c pstate" and t rest
  assume f: "fits E (p_heap s) (p_scope s) k e" "nesting e \<le> n" and ah: "ahead s = tokens_of e @ t # rest" and t: "lv t < k"
  let ?s = "advance (length (tokens_of e)) s"
  obtain j where j: "\<And>x s'. operand s = Inr (x, s') \<Longrightarrow> j + length (t # rest) \<le> length (ahead s')"
    and turns: "\<And>m. bindE (operand s) (\<lambda>(x, s'). repeatP (j + m) (assoc_turn ops operand) x s')
      = bindE (build E (p_heap s) (p_scope s) e) (\<lambda>x. repeatP m (assoc_turn ops operand) x ?s)"
    using left_assoc_spine [OF op k ops plain f ah] t by (meson less_imp_le_nat)
  have stop: "repeatP (Suc m) (assoc_turn ops operand) x ?s = Inr (x, ?s)" for x m
    using ah t ops [of t] by (simp add: assoc_turn_def run)
  show "left_assoc ops operand s = bindE (build E (p_heap s) (p_scope s) e) (\<lambda>x. Inr (x, ?s))"
    unfolding left_assoc_turns
    by (rule spine_looped [where s' = ?s and j = j]) (use j in fastforce, rule turns, rule stop)
qed

subsection \<open>The functions for expressions\<close>

text \<open>
  What a function for expressions relies on: the calls that lie on a cycle read expressions of
  nesting up to \<open>n\<close>. Then the function reads those of nesting up to \<open>Suc n\<close>.
\<close>

locale expression_calls =
  fixes E :: "'c env" and P :: "'c procs" and n :: nat
  assumes expr: "reads E n 1 (r_Expr P)"
    and assign: "reads E n 2 (r_AssignExpr P)"
    and condition: "reads E n 3 (r_ConditionExpr P)"
    and cast: "reads E n 14 (r_CastExpr P)"
    and unary_expr: "reads E n 14 (r_UnaryExpr P)"
begin

lemma no_stmt_expr:
  assumes "ahead s = t # u # rest" and "\<not> TagIs t Tag_kExtension" and "TagIs t Tag_kLeftParen \<Longrightarrow> \<not> TagIs u Tag_kLeftBrace"
  shows "TryParseStmtExpr P s = Inr (None, s)"
  using assms PutBack_advance [of 0 s] by (simp add: TryParseStmtExpr_def run)

lemma no_compound_literal:
  assumes "ahead s = t # u # rest" and "TagIs t Tag_kLeftParen \<Longrightarrow> IsTypeName E u (advance 1 s) = Inr (False, advance 1 s)"
  shows "TryParseCompoundLiteral E P s = Inr (None, s)"
  using assms by (simp add: TryParseCompoundLiteral_def run)

lemma atom_read:
  assumes "ahead s = t # rest" and "rest \<noteq> []" and "plain_name E (p_heap s) (p_scope s) t \<or> IsInteger t"
  shows "ParsePrimaryExpr E P s = bindE (atom E (p_heap s) (p_scope s) t) (\<lambda>x. Inr (x, advance 1 s))"
proof -
  have "\<not> TagIs t Tag_kExtension" "\<not> TagIs t Tag_kLeftParen"
    using assms(3) by (auto simp: plain_name_def IsIdentifier_def IsInteger_def TagIs_def)
  then have se: "TryParseStmtExpr P s = Inr (None, s)"
    using assms(1,2) no_stmt_expr by (cases rest) auto
  show ?thesis
  proof (cases "IsIdentifier t")
    case True
    with assms se show ?thesis
      by (auto simp: ParsePrimaryExpr_def run atom_def ident_of_def find_usual_def bindE_assoc split: option.split
          intro!: arg_cong [of _ _ "bindE _"])
  next
    case False
    with assms se show ?thesis
      by (simp add: ParsePrimaryExpr_def run atom_def plain_name_def IsConstant_def ParseConstant_def IsCharacter_def
          IsInteger_def ParseInteger_def int_constant_def bindE_assoc case_prod_beta)
  qed
qed

lemma paren_read:
  assumes ah: "ahead s = l # tokens_of e @ r # rest" and l: "TagIs l Tag_kLeftParen" and r: "TagIs r Tag_kRightParen"
    and f: "fits E (p_heap s) (p_scope s) 1 e" "nesting e \<le> n"
  shows "ParsePrimaryExpr E P s = bindE (build E (p_heap s) (p_scope s) e) (\<lambda>x. Inr (x, advance (Suc (Suc (length (tokens_of e)))) s))"
proof -
  obtain t ts where t: "tokens_of e = t # ts" "starts E (p_heap s) (p_scope s) t" using fits_starts [OF f(1)] by auto
  have "TryParseStmtExpr P s = Inr (None, s)"
    using ah t starts_not [OF t(2)] l by (intro no_stmt_expr [of s l t "ts @ r # rest"]) (auto simp: TagIs_def)
  moreover have "r_Expr P (advance 1 s) = bindE (build E (p_heap s) (p_scope s) e) (\<lambda>x. Inr (x, advance (Suc (length (tokens_of e))) s))"
    using readsD [OF expr, of "advance 1 s" e r rest] ah f r by (simp add: lv_def levels_def TagIs_def)
  ultimately show ?thesis
    using ah l r by (simp add: ParsePrimaryExpr_def run bindE_assoc IsIdentifier_def IsConstant_def IsInteger_def IsFloatPoint_def
        IsCharacter_def IsStringLiteral_def TagIs_def)
qed

lemma primary_reads: "reads E (Suc n) 16 (ParsePrimaryExpr E P)"
  unfolding reads_def
proof (intro allI impI)
  fix e and s :: "'c pstate" and t rest
  assume f: "fits E (p_heap s) (p_scope s) 16 e" "nesting e \<le> Suc n" and ah: "ahead s = tokens_of e @ t # rest"
  have no: "\<not> 16 \<le> lv u" for u
    by (simp add: lv_def levels_def split: option.split)
  show "ParsePrimaryExpr E P s = bindE (build E (p_heap s) (p_scope s) e) (\<lambda>x. Inr (x, advance (length (tokens_of e)) s))"
    using f ah atom_read paren_read by (cases e) (auto simp: no)
qed

lemma lv_16: "lv t < 16"
  by (simp add: lv_def levels_def split: option.split)

lemma primary_spine:
  assumes "fits E (p_heap s) (p_scope s) 16 e" and "nesting e \<le> Suc n" and "ahead s = tokens_of e @ t # rest"
  shows "\<exists>j. (\<forall>x s'. ParsePrimaryExpr E P s = Inr (x, s') \<longrightarrow> j + length (t # rest) \<le> length (ahead s')) \<and>
    (\<forall>m. bindE (ParsePrimaryExpr E P s) (\<lambda>(x, s'). repeatP (j + m) body x s')
      = bindE (build E (p_heap s) (p_scope s) e) (\<lambda>x. repeatP m body x (advance (length (tokens_of e)) s)))"
  using spine_0 [of E "Suc n" 15 "ParsePrimaryExpr E P" s e t rest body] primary_reads assms lv_16 [of t] by simp

text \<open>The loop behind a primary expression.\<close>

definition tail_turn :: "expr \<Rightarrow> ('c, expr + expr) parser" where
  "tail_turn e = bnd NextTok (\<lambda>t.
     if TagIs t Tag_kLeftSquare then bnd (ParseIndexExpr P e) again
     else if TagIs t Tag_kLeftParen then bnd (ParseFuncCallExpr P e) again
     else if TagIs t Tag_kArrow then bnd (unary Tag_kStar e) (\<lambda>e'. bnd (ParseMemberRefExpr E e') again)
     else if TagIs t Tag_kPeriod then bnd (ParseMemberRefExpr E e) again
     else if TagIs t Tag_kPlusPlus then bnd (unary Tag_kPostfixPlusPlus e) again
     else if TagIs t Tag_kMinusMinus then bnd (unary Tag_kPostfixMinusMinus e) again
     else thn PutBackTok (finish e))"

lemma tail_turns: "ParsePostfixExprTail E P = looped tail_turn"
  by (simp add: ParsePostfixExprTail_def tail_turn_def [abs_def])

lemma tail_stop:
  assumes "ahead s = t # rest" and "lv t < 15"
  shows "repeatP (Suc m) tail_turn x s = Inr (x, s)"
  using assms PutBack_advance [of 0 s] by (auto simp: tail_turn_def run lv_def levels_def TagIs_def)

lemma suffix_turn:
  assumes "ahead s = t # rest" and "tok_tag t \<in> {Tag_kPlusPlus, Tag_kMinusMinus}"
  shows "repeatP (Suc m) tail_turn x s =
    bindE (mk_unary (p_heap s) (if TagIs t Tag_kPlusPlus then Tag_kPostfixPlusPlus else Tag_kPostfixMinusMinus) x)
      (\<lambda>y. repeatP m tail_turn y (advance 1 s))"
  using assms by (auto simp: tail_turn_def run TagIs_def unary_def bindE_assoc)

lemma index_turn:
  assumes ah: "ahead s = l # tokens_of i @ r # rest" and l: "TagIs l Tag_kLeftSquare" and r: "TagIs r Tag_kRightSquare"
    and f: "fits E (p_heap s) (p_scope s) 1 i" "nesting i \<le> n"
  shows "repeatP (Suc m) tail_turn x s = bindE (build E (p_heap s) (p_scope s) i) (\<lambda>y.
    bindE (bindE (mk_binary (p_heap s) Tag_kPlus x y) (mk_unary (p_heap s) Tag_kStar))
      (\<lambda>z. repeatP m tail_turn z (advance (Suc (Suc (length (tokens_of i)))) s)))"
proof -
  have "r_Expr P (advance 1 s) = bindE (build E (p_heap s) (p_scope s) i) (\<lambda>x. Inr (x, advance (Suc (length (tokens_of i))) s))"
    using readsD [OF expr, of "advance 1 s" i r rest] ah f r by (simp add: lv_def levels_def TagIs_def)
  with ah l r show ?thesis
    by (simp add: tail_turn_def run ParseIndexExpr_def binary_def unary_def bindE_assoc)
qed

lemma postfix_spine:
  "fits E (p_heap s) (p_scope s) 15 e \<Longrightarrow> nesting e \<le> Suc n \<Longrightarrow> ahead s = tokens_of e @ t # rest \<Longrightarrow>
    \<exists>j. (\<forall>x s'. ParsePrimaryExpr E P s = Inr (x, s') \<longrightarrow> j + length (t # rest) \<le> length (ahead s')) \<and>
      (\<forall>m. bindE (ParsePrimaryExpr E P s) (\<lambda>(x, s'). repeatP (j + m) tail_turn x s')
      = bindE (build E (p_heap s) (p_scope s) e) (\<lambda>x. repeatP m tail_turn x (advance (length (tokens_of e)) s)))"
proof (induction e arbitrary: t rest)
  case (Suffix e u)
  then obtain j where j: "\<And>x s'. ParsePrimaryExpr E P s = Inr (x, s') \<Longrightarrow> j + length (u # t # rest) \<le> length (ahead s')" and
    IH: "\<And>m. bindE (ParsePrimaryExpr E P s) (\<lambda>(x, s'). repeatP (j + m) tail_turn x s')
      = bindE (build E (p_heap s) (p_scope s) e) (\<lambda>x. repeatP m tail_turn x (advance (length (tokens_of e)) s))"
    using Suffix.IH [of u "t # rest"] by auto
  have "bindE (ParsePrimaryExpr E P s) (\<lambda>(x, s'). repeatP (Suc j + m) tail_turn x s')
      = bindE (build E (p_heap s) (p_scope s) (Suffix e u)) (\<lambda>x. repeatP m tail_turn x (advance (length (tokens_of (Suffix e u))) s))" for m
    using IH [of "Suc m"] suffix_turn [of "advance (length (tokens_of e)) s" u "t # rest"] Suffix.prems
    by (simp add: bindE_assoc del: repeatP.simps)
  moreover have "\<forall>x s'. ParsePrimaryExpr E P s = Inr (x, s') \<longrightarrow> Suc j + length (t # rest) \<le> length (ahead s')"
    using j by fastforce
  ultimately show ?case by blast
next
  case (Index e l i r)
  then obtain j where j: "\<And>x s'. ParsePrimaryExpr E P s = Inr (x, s') \<Longrightarrow> j + length (l # tokens_of i @ r # t # rest) \<le> length (ahead s')" and
    IH: "\<And>m. bindE (ParsePrimaryExpr E P s) (\<lambda>(x, s'). repeatP (j + m) tail_turn x s')
      = bindE (build E (p_heap s) (p_scope s) e) (\<lambda>x. repeatP m tail_turn x (advance (length (tokens_of e)) s))"
    using Index.IH(1) [of l "tokens_of i @ r # t # rest"] by auto
  have "bindE (ParsePrimaryExpr E P s) (\<lambda>(x, s'). repeatP (Suc j + m) tail_turn x s')
      = bindE (build E (p_heap s) (p_scope s) (Index e l i r)) (\<lambda>x. repeatP m tail_turn x (advance (length (tokens_of (Index e l i r))) s))" for m
    using IH [of "Suc m"] index_turn [of "advance (length (tokens_of e)) s" l i r "t # rest"] Index.prems
    by (simp add: bindE_assoc del: repeatP.simps)
  moreover have "\<forall>x s'. ParsePrimaryExpr E P s = Inr (x, s') \<longrightarrow> Suc j + length (t # rest) \<le> length (ahead s')"
    using j by fastforce
  ultimately show ?case by blast
next
  case (Atom x)
  show ?case by (rule primary_spine) (use Atom.prems in auto)
next
  case (Paren l e r)
  show ?case by (rule primary_spine) (use Paren.prems in auto)
qed auto

lemma postfix_reads: "reads E (Suc n) 15 (ParsePostfixExpr E P)"
  unfolding reads_def
proof (intro allI impI)
  fix e and s :: "'c pstate" and t rest
  assume f: "fits E (p_heap s) (p_scope s) 15 e" "nesting e \<le> Suc n" and ah: "ahead s = tokens_of e @ t # rest"
    and t: "lv t < 15"
  let ?s = "advance (length (tokens_of e)) s"
  obtain j where j: "\<And>x s'. ParsePrimaryExpr E P s = Inr (x, s') \<Longrightarrow> j + length (t # rest) \<le> length (ahead s')"
    and turns: "\<And>m. bindE (ParsePrimaryExpr E P s) (\<lambda>(x, s'). repeatP (j + m) tail_turn x s')
      = bindE (build E (p_heap s) (p_scope s) e) (\<lambda>x. repeatP m tail_turn x ?s)"
    using postfix_spine [OF f ah] by blast
  have "repeatP (Suc m) tail_turn x ?s = Inr (x, ?s)" for x m
    by (rule tail_stop) (use ah t in auto)
  then have "bnd (ParsePrimaryExpr E P) (looped tail_turn) s = bindE (build E (p_heap s) (p_scope s) e) (\<lambda>x. Inr (x, ?s))"
    by (intro spine_looped [where s' = ?s and j = j]) (use j in fastforce, rule turns)
  moreover have "TryParseCompoundLiteral E P s = Inr (None, s)"
    by (rule not_type_ahead [OF f(1) ah]) (rule no_compound_literal)
  ultimately show "ParsePostfixExpr E P s = bindE (build E (p_heap s) (p_scope s) e) (\<lambda>x. Inr (x, ?s))"
    by (simp add: ParsePostfixExpr_def bnd_run tail_turns)
qed

lemma prefix_read:
  assumes ah: "ahead s = u # tokens_of e @ t # rest" and u: "tok_tag u \<in> prefix_tags" and t: "lv t < 14"
    and f: "fits E (p_heap s) (p_scope s) 14 e" "nesting e \<le> n"
  shows "ParseUnaryExpr E P s = bindE (bindE (build E (p_heap s) (p_scope s) e) (mk_unary (p_heap s) (tok_tag u)))
    (\<lambda>x. Inr (x, advance (Suc (length (tokens_of e))) s))"
proof -
  have "r_CastExpr P (advance 1 s) = bindE (build E (p_heap s) (p_scope s) e) (\<lambda>x. Inr (x, advance (Suc (length (tokens_of e))) s))"
    "r_UnaryExpr P (advance 1 s) = bindE (build E (p_heap s) (p_scope s) e) (\<lambda>x. Inr (x, advance (Suc (length (tokens_of e))) s))"
    using readsD [OF cast, of "advance 1 s" e t rest] readsD [OF unary_expr, of "advance 1 s" e t rest] ah f t by simp_all
  with ah u show ?thesis
    by (auto simp: ParseUnaryExpr_def run unary_def bindE_assoc prefix_tags_def)
qed

lemma postfix_read:
  assumes "ahead s = u # ts" and "starts E h sc u" and "tok_tag u \<notin> prefix_tags"
  shows "ParseUnaryExpr E P s = ParsePostfixExpr E P s"
  using assms(1,3) starts_tag [OF assms(2)] PutBack_advance [of 0 s]
  by (auto simp: ParseUnaryExpr_def run prefix_tags_def TagIs_def)

lemma unary_reads: "reads E (Suc n) 14 (ParseUnaryExpr E P)"
  unfolding reads_def
proof (intro allI impI)
  fix e and s :: "'c pstate" and t rest
  assume f: "fits E (p_heap s) (p_scope s) 14 e" "nesting e \<le> Suc n" and ah: "ahead s = tokens_of e @ t # rest"
    and t: "lv t < 14"
  show "ParseUnaryExpr E P s = bindE (build E (p_heap s) (p_scope s) e) (\<lambda>x. Inr (x, advance (length (tokens_of e)) s))"
  proof (cases "\<exists>u e'. e = Prefix u e'")
    case True
    then show ?thesis using prefix_read [of s _ _ t rest] f ah t by auto
  next
    case False
    then have f': "fits E (p_heap s) (p_scope s) 15 e" using f(1) by (cases e) auto
    obtain u ts where u: "ahead s = u # ts" "starts E (p_heap s) (p_scope s) u" "tok_tag u \<notin> prefix_tags"
      using fits_15_start [OF f'] ah by auto
    then show ?thesis using readsD [OF postfix_reads f' f(2) ah] t by (simp add: postfix_read)
  qed
qed

lemma cast_is_unary:
  assumes "fits E (p_heap s) (p_scope s) k e" and "ahead s = tokens_of e @ t # rest"
  shows "ParseCastExpr E P s = ParseUnaryExpr E P s"
  using PutBack_advance [of 0 s] by (rule_tac not_type_ahead [OF assms]) (auto simp: ParseCastExpr_def run)

lemma cast_reads: "reads E (Suc n) 14 (ParseCastExpr E P)"
  using unary_reads unfolding reads_def by (auto simp: cast_is_unary)

subsubsection \<open>Binary operators\<close>

lemmas level_simps = lv_def levels_def compound_ops_def

lemma lor_reads: "reads E (Suc n) 4 (ParseLogicalOrExpr E P)"
  unfolding ParseLogicalOrExpr_def ParseLogicalAndExpr_def ParseInclusiveOrExpr_def ParseExclusiveOrExpr_def
    ParseAndExpr_def ParseEqualityExpr_def ParseRelationExpr_def ParseShiftExpr_def ParseAdditiveExpr_def
    ParseMultiplicativeExpr_def
  by (intro left_assoc_reads) (use cast_reads in \<open>auto simp: level_simps\<close>)

subsubsection \<open>Conditional, assignment and comma\<close>

lemma ternary_read:
  assumes ah: "ahead s = tokens_of c @ q # tokens_of a @ cl # tokens_of b @ t # rest"
    and q: "TagIs q Tag_kQuestion" "TagIs cl Tag_kColon" and t: "lv t < 3"
    and f: "fits E (p_heap s) (p_scope s) 4 c" "fits E (p_heap s) (p_scope s) 1 a" "fits E (p_heap s) (p_scope s) 3 b"
    and n: "nesting c \<le> Suc n" "nesting a \<le> n" "nesting b \<le> n"
  shows "ParseConditionExpr E P s = bindE (build E (p_heap s) (p_scope s) (Ternary c q a cl b))
    (\<lambda>x. Inr (x, advance (length (tokens_of (Ternary c q a cl b))) s))"
proof -
  let ?s1 = "advance (length (tokens_of c)) s" and ?s2 = "advance (Suc (length (tokens_of c))) s"
  let ?s3 = "advance (Suc (Suc (length (tokens_of c) + length (tokens_of a)))) s"
  have c: "ParseLogicalOrExpr E P s = bindE (build E (p_heap s) (p_scope s) c) (\<lambda>x. Inr (x, ?s1))"
    using readsD [OF lor_reads f(1) n(1) ah] q by (simp add: level_simps TagIs_def)
  have a: "r_Expr P ?s2 = bindE (build E (p_heap s) (p_scope s) a) (\<lambda>x. Inr (x, advance (length (tokens_of a)) ?s2))"
    using readsD [OF expr, of ?s2 a cl "tokens_of b @ t # rest"] ah f(2) n q by (simp add: level_simps TagIs_def)
  have b: "r_ConditionExpr P ?s3 = bindE (build E (p_heap s) (p_scope s) b) (\<lambda>x. Inr (x, advance (length (tokens_of b)) ?s3))"
    using readsD [OF condition, of ?s3 b t rest] ah f(3) n t by simp
  obtain u us where u: "tokens_of a = u # us" "\<not> TagIs u Tag_kColon"
    using fits_starts [OF f(2)] starts_not by blast
  show ?thesis
    using ah q u(2) a b by (simp add: ParseConditionExpr_def bnd_run thn_run c run u(1) bindE_assoc add.assoc)
qed

lemma condition_reads: "reads E (Suc n) 3 (ParseConditionExpr E P)"
  unfolding reads_def
proof (intro allI impI)
  fix e and s :: "'c pstate" and t rest
  assume f: "fits E (p_heap s) (p_scope s) 3 e" "nesting e \<le> Suc n" and ah: "ahead s = tokens_of e @ t # rest"
    and t: "lv t < 3"
  show "ParseConditionExpr E P s = bindE (build E (p_heap s) (p_scope s) e) (\<lambda>x. Inr (x, advance (length (tokens_of e)) s))"
  proof (cases "\<exists>c q a cl b. e = Ternary c q a cl b")
    case True
    then show ?thesis using ternary_read [of s _ _ _ _ _ t rest] f ah t by auto
  next
    case False
    then have "fits E (p_heap s) (p_scope s) 4 e" using f(1) by (cases e) auto
    from readsD [OF lor_reads this f(2) ah] ah t show ?thesis
      by (auto simp: ParseConditionExpr_def run bindE_assoc level_simps TagIs_def)
  qed
qed

lemma no_extension:
  assumes "fits E (p_heap s) (p_scope s) k e" and "ahead s = tokens_of e @ ts"
  shows "thn (TryTok Tag_kExtension) m s = m s"
  by (rule fits_ahead [OF assms]) (auto simp: thn_run TryTok_run dest: starts_not(1))

text \<open>Behind the left side of an assignment, or of none.\<close>

definition assign_tail :: "expr \<Rightarrow> ('c, expr) parser" where
  "assign_tail lhs = bnd NextTok (\<lambda>t.
     if TagIs t Tag_kEqual then bnd (r_AssignExpr P) (binary Tag_kEqual lhs)
     else case map_of compound_ops (tok_tag t) of
         Some op \<Rightarrow> bnd (r_AssignExpr P) (\<lambda>rhs. bnd (binary op lhs rhs) (binary Tag_kEqual lhs))
       | None \<Rightarrow> thn PutBackTok (ret lhs))"

lemma assignment_read:
  assumes ah: "ahead s = tokens_of a @ u # tokens_of b @ t # rest" and u: "lv u = 2" and t: "lv t < 2"
    and f: "fits E (p_heap s) (p_scope s) 3 a" "fits E (p_heap s) (p_scope s) 2 b"
    and n: "nesting a \<le> Suc n" "nesting b \<le> n"
  shows "bnd (ParseConditionExpr E P) assign_tail s
    = bindE (build E (p_heap s) (p_scope s) (Infix a u b)) (\<lambda>x. Inr (x, advance (length (tokens_of (Infix a u b))) s))"
proof -
  let ?s1 = "advance (length (tokens_of a)) s" and ?s2 = "advance (Suc (length (tokens_of a))) s"
  have a: "ParseConditionExpr E P s = bindE (build E (p_heap s) (p_scope s) a) (\<lambda>x. Inr (x, ?s1))"
    using readsD [OF condition_reads f(1) n(1) ah] u by simp
  have b: "r_AssignExpr P ?s2 = bindE (build E (p_heap s) (p_scope s) b) (\<lambda>x. Inr (x, advance (length (tokens_of b)) ?s2))"
    using readsD [OF assign, of ?s2 b t rest] ah f(2) n t by simp
  consider "tok_tag u = Tag_kEqual" | op where "tok_tag u \<noteq> Tag_kEqual" "map_of compound_ops (tok_tag u) = Some op"
    using u by (auto simp: level_simps split: if_splits)
  then show ?thesis
  proof cases
    case 1
    then have "map_of compound_ops (tok_tag u) = None" by (simp add: compound_ops_def)
    with 1 ah b show ?thesis by (simp add: bnd_run a assign_tail_def run infix_tree_def binary_def bindE_assoc TagIs_def)
  next
    case 2
    with ah b show ?thesis by (simp add: bnd_run a assign_tail_def run infix_tree_def binary_def bindE_assoc TagIs_def)
  qed
qed

lemma assign_reads: "reads E (Suc n) 2 (ParseAssignExpr E P)"
  unfolding reads_def
proof (intro allI impI)
  fix e and s :: "'c pstate" and t rest
  assume f: "fits E (p_heap s) (p_scope s) 2 e" "nesting e \<le> Suc n" and ah: "ahead s = tokens_of e @ t # rest"
    and t: "lv t < 2"
  have eq: "ParseAssignExpr E P s = bnd (ParseConditionExpr E P) assign_tail s"
    using no_extension [OF f(1) ah] by (simp add: ParseAssignExpr_def assign_tail_def [abs_def])
  show "ParseAssignExpr E P s = bindE (build E (p_heap s) (p_scope s) e) (\<lambda>x. Inr (x, advance (length (tokens_of e)) s))"
  proof (cases "\<exists>a u b. e = Infix a u b \<and> lv u = 2")
    case True
    then show ?thesis using assignment_read [of s _ _ _ t rest] f ah t by (auto simp: eq)
  next
    case False
    then have f': "fits E (p_heap s) (p_scope s) 3 e" using f(1) by (cases e) auto
    obtain m where m: "length (tokens_of e) = m" by simp
    have "assign_tail x (advance m s) = Inr (x, advance m s)" for x
      using ah t m PutBack_advance [of m s] by (auto simp: assign_tail_def run level_simps TagIs_def split: if_splits)
    then show ?thesis using readsD [OF condition_reads f' f(2) ah] t by (simp add: eq bnd_run bindE_assoc m)
  qed
qed

lemma expr_reads: "reads E (Suc n) 1 (ParseExpr E P)"
proof -
  have "reads E (Suc n) 1 (left_assoc {Tag_kComma} (ParseAssignExpr E P))"
    by (intro left_assoc_reads) (use assign_reads in \<open>auto simp: level_simps numeral_2_eq_2\<close>)
  then show ?thesis
    unfolding reads_def by (simp add: ParseExpr_def no_extension)
qed

lemmas all_reads = expr_reads assign_reads condition_reads cast_reads unary_reads

end

text \<open>The parser itself makes its calls with any bound on the nesting.\<close>

lemma nesting_pos: "nesting e \<noteq> 0"
  by (induction e) auto

lemma parser_calls: "expression_calls E (parser_at E n) n"
proof (induction n)
  case 0
  show ?case by unfold_locales (auto simp: reads_def nesting_pos)
next
  case (Suc n)
  show ?case
    by unfold_locales (use expression_calls.all_reads [OF Suc] in \<open>simp_all add: calls_def\<close>)
qed

interpretation parser: expression_calls E "parser_at E n" n for E n
  by (rule parser_calls)

text \<open>A sample: \<open>1 - 2 * (3 - 4) - 5 ;\<close>\<close>

definition sample_token :: "tag \<Rightarrow> string \<Rightarrow> token" where
  "sample_token g str = \<lparr>tok_tag = g, tok_str = str, tok_loc = Location_init\<rparr>"

definition sample_minus :: "bexp \<Rightarrow> bexp \<Rightarrow> bexp" where
  "sample_minus a b = Infix a (sample_token Tag_kMinus ''-'') b"

definition sample_number :: "string \<Rightarrow> bexp" where
  "sample_number str = Atom (sample_token Tag_kInteger str)"

definition sample_bexp :: bexp where
  "sample_bexp = sample_minus (sample_minus (sample_number ''1'')
     (Infix (sample_number ''2'') (sample_token Tag_kStar ''*'') (Paren (sample_token Tag_kLeftParen ''('')
        (sample_minus (sample_number ''3'') (sample_number ''4'')) (sample_token Tag_kRightParen '')''))))
     (sample_number ''5'')"

definition sample_input :: "token list" where
  "sample_input = tokens_of sample_bexp @ [sample_token Tag_kSemicolon '';'']"

definition int_node :: "int \<Rightarrow> expr" where
  "int_node v = EInt (ArithT kInt, 0) v"

definition int_op :: "tag \<Rightarrow> expr \<Rightarrow> expr \<Rightarrow> expr" where
  "int_op g l r = EBinary g l r (ArithT kInt, 0)"

definition sample_tree :: expr where
  "sample_tree = int_op Tag_kMinus (int_op Tag_kMinus (int_node 1)
     (int_op Tag_kStar (int_node 2) (int_op Tag_kMinus (int_node 3) (int_node 4)))) (int_node 5)"

lemma sample_atoms:
  "bindE (integer_literal ''1'') (\<lambda>(ty, v). mk_int empty_heap ty (word_of_int v)) = Inr (int_node 1)"
  "bindE (integer_literal ''2'') (\<lambda>(ty, v). mk_int empty_heap ty (word_of_int v)) = Inr (int_node 2)"
  "bindE (integer_literal ''3'') (\<lambda>(ty, v). mk_int empty_heap ty (word_of_int v)) = Inr (int_node 3)"
  "bindE (integer_literal ''4'') (\<lambda>(ty, v). mk_int empty_heap ty (word_of_int v)) = Inr (int_node 4)"
  "bindE (integer_literal ''5'') (\<lambda>(ty, v). mk_int empty_heap ty (word_of_int v)) = Inr (int_node 5)"
  by code_simp+

lemma sample_nodes:
  "mk_binary empty_heap Tag_kMinus (int_node 3) (int_node 4) = Inr (int_op Tag_kMinus (int_node 3) (int_node 4))"
  "mk_binary empty_heap Tag_kStar (int_node 2) (int_op Tag_kMinus (int_node 3) (int_node 4)) =
     Inr (int_op Tag_kStar (int_node 2) (int_op Tag_kMinus (int_node 3) (int_node 4)))"
  "mk_binary empty_heap Tag_kMinus (int_node 1) (int_op Tag_kStar (int_node 2) (int_op Tag_kMinus (int_node 3) (int_node 4))) =
     Inr (int_op Tag_kMinus (int_node 1) (int_op Tag_kStar (int_node 2) (int_op Tag_kMinus (int_node 3) (int_node 4))))"
  "mk_binary empty_heap Tag_kMinus (int_op Tag_kMinus (int_node 1)
     (int_op Tag_kStar (int_node 2) (int_op Tag_kMinus (int_node 3) (int_node 4)))) (int_node 5) = Inr sample_tree"
  by code_simp+

lemma sample_build: "build E empty_heap 0 sample_bexp = Inr sample_tree"
  by (simp add: sample_bexp_def sample_minus_def sample_number_def sample_token_def atom_def IsIdentifier_def
      sample_atoms [simplified] sample_nodes infix_tree_def compound_ops_def)

lemma sample_fits: "fits E h sc 1 sample_bexp" "nesting sample_bexp = 2" "length (tokens_of sample_bexp) = 11"
  by (simp_all add: sample_bexp_def sample_minus_def sample_number_def sample_token_def lv_def levels_def IsInteger_def TagIs_def)

text \<open>
  C4. The parser of expressions has the precedence and the associativity of C: an expression written
  by the grammar, with parentheses only where the levels of the operators ask for them, is read as
  the tree that its structure gives bottom-up (assignment and the conditional associate to the right,
  the rest to the left; a compound assignment is the assignment of the operation), or as the error that
  building this tree gives first; the cursor stands behind the expression and nothing else has changed.
\<close>

theorem expression_grammar:
  assumes "fits E (p_heap s) (p_scope s) 1 e" and "ahead s = tokens_of e @ t # rest" and "lv t = 0" and "nesting e \<le> n"
  shows "r_Expr (parser_at E n) s =
    bindE (build E (p_heap s) (p_scope s) e) (\<lambda>x. Inr (x, advance (length (tokens_of e)) s))"
  using readsD [OF parser.expr assms(1,4,2)] assms(3) by simp

theorem expression_grammar_witness:
  "\<forall>E :: unit env. r_Expr (parser_at E 2) (Parser_init sample_input) = Inr (sample_tree, advance 11 (Parser_init sample_input))"
proof
  fix E :: "unit env"
  show "r_Expr (parser_at E 2) (Parser_init sample_input) = Inr (sample_tree, advance 11 (Parser_init sample_input))"
    using expression_grammar [of E "Parser_init sample_input" sample_bexp "sample_token Tag_kSemicolon '';''" "[]" 2]
    by (simp add: sample_fits [simplified] sample_build sample_input_def ahead_def Parser_init_def lv_def levels_def sample_token_def)
qed

end
