(* ===== verification/Kcc_DeclProps.thy ===== *)
theory Kcc_DeclProps
  imports Kcc_Cursor
begin

text \<open>
  Properties of declarations: which lists of type specifiers \<open>ParseDeclSpec\<close> accepts, and what
  \<open>MakeDeclaration\<close> makes of a name that is declared again.
\<close>

subsection \<open>Lists of arithmetic type specifiers\<close>

text \<open>
  The lists of the C standard (6.7.2), each with its specifiers in the order of \<open>spec_order\<close>, and
  the type that each of them names.
\<close>

definition spec_order :: "tag list" where
  "spec_order = [Tag_kSigned, Tag_kUnsigned, Tag_kLong, Tag_kShort, Tag_kChar, Tag_kInt, Tag_kDouble, Tag_kFloat,
     Tag_kVoid, Tag_kBool]"

definition spec_rank :: "tag \<Rightarrow> nat" where
  "spec_rank t = length (takeWhile (\<lambda>u. u \<noteq> t) spec_order)"

definition c_specs :: "(tag list \<times> ctype) list" where
  "c_specs = [([Tag_kVoid], VoidT), ([Tag_kBool], ArithT kBool), ([Tag_kFloat], ArithT kFloat),
     ([Tag_kDouble], ArithT kDouble), ([Tag_kLong, Tag_kDouble], ArithT (kDouble OR kLong)),
     ([Tag_kChar], ArithT kChar), ([Tag_kSigned, Tag_kChar], ArithT kChar),
     ([Tag_kUnsigned, Tag_kChar], ArithT (kChar OR kUnsigned)),
     ([Tag_kShort], ArithT kShort), ([Tag_kSigned, Tag_kShort], ArithT kShort),
     ([Tag_kShort, Tag_kInt], ArithT kShort), ([Tag_kSigned, Tag_kShort, Tag_kInt], ArithT kShort),
     ([Tag_kUnsigned, Tag_kShort], ArithT (kShort OR kUnsigned)),
     ([Tag_kUnsigned, Tag_kShort, Tag_kInt], ArithT (kShort OR kUnsigned)),
     ([Tag_kInt], ArithT kInt), ([Tag_kSigned], ArithT kInt), ([Tag_kSigned, Tag_kInt], ArithT kInt),
     ([Tag_kUnsigned], ArithT (kInt OR kUnsigned)), ([Tag_kUnsigned, Tag_kInt], ArithT (kInt OR kUnsigned)),
     ([Tag_kLong], ArithT kLong), ([Tag_kSigned, Tag_kLong], ArithT kLong),
     ([Tag_kLong, Tag_kInt], ArithT kLong), ([Tag_kSigned, Tag_kLong, Tag_kInt], ArithT kLong),
     ([Tag_kUnsigned, Tag_kLong], ArithT (kLong OR kUnsigned)),
     ([Tag_kUnsigned, Tag_kLong, Tag_kInt], ArithT (kLong OR kUnsigned)),
     ([Tag_kLong, Tag_kLong], ArithT kLongLong), ([Tag_kSigned, Tag_kLong, Tag_kLong], ArithT kLongLong),
     ([Tag_kLong, Tag_kLong, Tag_kInt], ArithT kLongLong),
     ([Tag_kSigned, Tag_kLong, Tag_kLong, Tag_kInt], ArithT kLongLong),
     ([Tag_kUnsigned, Tag_kLong, Tag_kLong], ArithT (kLongLong OR kUnsigned)),
     ([Tag_kUnsigned, Tag_kLong, Tag_kLong, Tag_kInt], ArithT (kLongLong OR kUnsigned))]"

text \<open>The type that a list of specifiers names in any order.\<close>

definition c_type_of :: "tag list \<Rightarrow> ctype option" where
  "c_type_of ts = map_of c_specs (sort_key spec_rank ts)"

text \<open>The order that the parser asks for: \<open>char\<close> and \<open>double\<close> come last.\<close>

definition kcc_order :: "tag list \<Rightarrow> bool" where
  "kcc_order ts \<longleftrightarrow> Tag_kChar \<notin> set (butlast ts) \<and> Tag_kDouble \<notin> set (butlast ts)"

subsubsection \<open>The specifiers as an automaton over the mask\<close>

definition spec_step :: "tag \<Rightarrow> mask \<Rightarrow> mask option" where
  "spec_step t m = (case map_of basic_specs t of
       Some (allowed, spec) \<Rightarrow> if m AND NOT allowed \<noteq> 0 then None
         else if t = Tag_kLong \<and> has m kLong then Some ((m AND NOT kLong) OR kLongLong) else Some (m OR spec)
     | None \<Rightarrow> None)"

primrec spec_run :: "tag list \<Rightarrow> mask \<Rightarrow> mask option" where
  "spec_run [] m = Some m"
| "spec_run (t # ts) m = Option.bind (spec_step t m) (spec_run ts)"

lemma spec_run_snoc [simp]: "spec_run (ts @ [t]) m = Option.bind (spec_run ts m) (spec_step t)"
  by (induction ts arbitrary: m) (auto split: Option.bind_split)

lemma sort_key_snoc:
  assumes "inj_on f (set (x # xs))"
  shows "sort_key f (xs @ [x]) = insort_key f x (sort_key f xs)"
  using assms
proof (induction xs)
  case (Cons a xs)
  then have "sort_key f (xs @ [x]) = insort_key f x (sort_key f xs)"
    by (auto intro: inj_on_subset)
  moreover have "insort_key f a (insort_key f x ys) = insort_key f x (insort_key f a ys)" for ys
    using Cons.prems insort_key_left_comm [of f a x] by (cases "a = x") (auto simp: inj_on_def)
  ultimately show ?case by simp
qed simp

lemma remove1_insort_key_here:
  "inj_on f (set (x # xs)) \<Longrightarrow> sorted (map f xs) \<Longrightarrow> remove1 x (insort_key f x xs) = xs"
  by (induction xs) (auto simp: inj_on_def)

lemma basic_tags: "set (map fst basic_specs) = set spec_order"
  by (auto simp: basic_specs_def spec_order_def)

lemma rank_inj: "inj_on spec_rank (set spec_order)"
  by (auto simp: inj_on_def spec_order_def spec_rank_def)

text \<open>The finite part: every list of the standard and every specifier behind it.\<close>

definition spec_lists :: "tag list list" where
  "spec_lists = map fst c_specs"

definition spec_table_ok :: bool where
  "spec_table_ok = list_all (\<lambda>l. list_all (\<lambda>t.
     Option.bind (spec_run l 0) (spec_step t) =
       (if insort_key spec_rank t l \<in> set spec_lists \<and> Tag_kChar \<notin> set l \<and> Tag_kDouble \<notin> set l
        then spec_run (insort_key spec_rank t l) 0 else None)) spec_order) spec_lists"

lemma spec_table: "spec_table_ok"
  by code_simp

definition spec_table_closed :: bool where
  "spec_table_closed = list_all (\<lambda>l. list_all (\<lambda>t. remove1 t l = [] \<or> remove1 t l \<in> set spec_lists) l) spec_lists"

lemma spec_table_closed: "spec_table_closed"
  by code_simp

definition spec_types_ok :: bool where
  "spec_types_ok = list_all (\<lambda>(l, t). (case spec_run l 0 of
       Some m \<Rightarrow> m \<notin> {0, kStructUnionSpec, kEnumSpec, kTypedefName} \<and> decl_spec_type (spec_init None None None\<lparr>ds_type_spec := m\<rparr>) = Inr (t, 0) | None \<Rightarrow> False)) c_specs"

lemma spec_types: "spec_types_ok"
  by code_simp

lemma c_type_of_iff: "c_type_of ts \<noteq> None \<longleftrightarrow> sort_key spec_rank ts \<in> set spec_lists"
  by (simp add: c_type_of_def map_of_eq_None_iff spec_lists_def)

lemma insort_key_closed:
  assumes "insort_key spec_rank t l \<in> set spec_lists" and "l \<noteq> []" and "set (t # l) \<subseteq> set spec_order"
    and "sorted (map spec_rank l)"
  shows "l \<in> set spec_lists"
proof -
  have "remove1 t (insort_key spec_rank t l) = l"
    using assms(3,4) rank_inj by (intro remove1_insort_key_here) (auto simp: inj_on_def)
  moreover have "t \<in> set (insort_key spec_rank t l)" by (simp add: set_insort_key)
  ultimately show ?thesis
    using assms(1,2) spec_table_closed by (fastforce simp: spec_table_closed_def list_all_iff)
qed

lemma spec_run_sorted:
  "ts \<noteq> [] \<Longrightarrow> set ts \<subseteq> set spec_order \<Longrightarrow>
   spec_run ts 0 = (if c_type_of ts \<noteq> None \<and> kcc_order ts then spec_run (sort_key spec_rank ts) 0 else None)"
proof (induction ts rule: rev_induct)
  case (snoc t ts)
  have inj: "inj_on spec_rank (set (t # ts))" using snoc.prems(2) rank_inj by (auto simp: inj_on_def)
  note sorted = sort_key_snoc [OF inj]
  have ord: "kcc_order (ts @ [t]) \<longleftrightarrow> Tag_kChar \<notin> set ts \<and> Tag_kDouble \<notin> set ts"
    by (simp add: kcc_order_def)
  show ?case
  proof (cases "ts = []")
    case True
    then show ?thesis using snoc.prems(2) by (auto simp: kcc_order_def c_type_of_def c_specs_def spec_order_def split: if_splits)
  next
    case False
    note IH = snoc.IH [OF False]
    let ?l = "sort_key spec_rank ts"
    show ?thesis
    proof (cases "c_type_of ts \<noteq> None \<and> kcc_order ts")
      case True
      then have "?l \<in> set spec_lists" using c_type_of_iff by blast
      then have "Option.bind (spec_run ?l 0) (spec_step t) =
         (if insort_key spec_rank t ?l \<in> set spec_lists \<and> Tag_kChar \<notin> set ?l \<and> Tag_kDouble \<notin> set ?l
          then spec_run (insort_key spec_rank t ?l) 0 else None)"
        using spec_table snoc.prems(2) unfolding spec_table_ok_def list_all_iff by simp
      with True IH snoc.prems(2) show ?thesis by (simp add: c_type_of_iff sorted ord del: not_None_eq)
    next
      case no: False
      have "?l \<noteq> []" using False by (metis length_0_conv length_sort)
      then have "c_type_of (ts @ [t]) \<noteq> None \<Longrightarrow> c_type_of ts \<noteq> None"
        unfolding c_type_of_iff sorted using snoc.prems(2) by (intro insort_key_closed [of t ?l]) auto
      with no have "\<not> (c_type_of (ts @ [t]) \<noteq> None \<and> kcc_order (ts @ [t]))"
        by (auto simp: ord kcc_order_def dest: in_set_butlastD)
      with no IH snoc.prems(2) show ?thesis by auto
    qed
  qed
qed simp

subsubsection \<open>The loop of \<open>ParseDeclSpec\<close>\<close>

definition too_many :: kcc_error where
  "too_many = Diag ''two or more data types in declaration specifiers''"

definition other_specs :: "tag list" where
  "other_specs = [Tag_kExtension, Tag_kTypeof, Tag_kThreadLocal, Tag_kStruct, Tag_kUnion, Tag_kEnum, Tag_kComplex,
     Tag_kAtomic, Tag_kAlignas, Tag_kAttribute] @ map fst storage_specs @ map fst qual_specs @ map fst func_specs"

text \<open>A token behind the specifiers: it is none of them.\<close>

definition ends_specs :: "token \<Rightarrow> bool" where
  "ends_specs t \<longleftrightarrow> tok_tag t \<notin> set spec_order \<and> tok_tag t \<notin> set other_specs"

lemma no_attribute:
  "ahead s = t # rest \<Longrightarrow> \<not> TagIs t Tag_kAttribute \<Longrightarrow> TryParseAttributeSpec P s = Inr ((), s)"
  by (simp add: TryParseAttributeSpec_def run)

lemmas spec_defs = spec_order_def other_specs_def storage_specs_def basic_specs_def qual_specs_def func_specs_def TagIs_def

lemma set_basic_step:
  "map_of basic_specs g = Some (allowed, m) \<Longrightarrow> \<not> ds_typeof d \<Longrightarrow> set_basic g allowed m d =
     (case spec_step g (ds_type_spec d) of Some m' \<Rightarrow> Inr (d\<lparr>ds_type_spec := m'\<rparr>) | None \<Rightarrow> Inl too_many)"
  by (simp add: set_basic_def check_spec_def spec_step_def too_many_def)

lemma decl_spec_basic:
  assumes "tok_tag t \<in> set spec_order" and "\<not> ds_typeof d"
  shows "decl_spec_step E P t d s = (case spec_step (tok_tag t) (ds_type_spec d) of
      Some m \<Rightarrow> Inr (Inl (d\<lparr>ds_type_spec := m\<rparr>), s) | None \<Rightarrow> Inl too_many)"
proof -
  obtain allowed m where m: "map_of basic_specs (tok_tag t) = Some (allowed, m)"
    using assms(1) by (auto simp: spec_order_def basic_specs_def)
  have "tok_tag t \<notin> set other_specs" using assms(1) by (auto simp: spec_defs)
  then have "decl_spec_step E P t d = bnd (liftR (set_basic (tok_tag t) allowed m d)) again"
    by (simp add: decl_spec_step_def m other_specs_def storage_specs_def TagIs_def)
  then show ?thesis
    by (simp add: run set_basic_step [OF m assms(2)] split: option.split)
qed

lemma decl_spec_stop:
  assumes "ends_specs t" and "ds_type_spec d \<noteq> 0"
  shows "decl_spec_step E P t d s = Inr (Inr d, s)"
  using assms by (simp add: ends_specs_def decl_spec_step_def typedef_spec_def run spec_defs)

lemma spec_loop:
  assumes "set (map tok_tag toks) \<subseteq> set spec_order" and "ahead s = toks @ t # rest" and "ends_specs t"
    and "\<not> ds_typeof d" and "spec_run (map tok_tag toks) (ds_type_spec d) \<noteq> Some 0"
  shows "repeatP (Suc (length toks + k)) (\<lambda>d. thn (TryParseAttributeSpec P) (bnd NextTok (\<lambda>t. decl_spec_step E P t d))) d s =
    (case spec_run (map tok_tag toks) (ds_type_spec d) of
       Some m \<Rightarrow> Inr (d\<lparr>ds_type_spec := m\<rparr>, advance (Suc (length toks)) s) | None \<Rightarrow> Inl too_many)"
  using assms
proof (induction toks arbitrary: s d)
  case Nil
  then have "\<not> TagIs t Tag_kAttribute" by (simp add: ends_specs_def other_specs_def TagIs_def)
  with Nil show ?case
    by (simp add: bnd_run thn_run no_attribute [of s t rest] NextTok_run decl_spec_stop ret_def)
next
  case (Cons u toks)
  have "\<not> TagIs u Tag_kAttribute" using Cons.prems(1) by (auto simp: spec_order_def TagIs_def)
  then have turn: "repeatP (Suc (length (u # toks) + k)) (\<lambda>d. thn (TryParseAttributeSpec P) (bnd NextTok (\<lambda>t. decl_spec_step E P t d))) d s =
    (case spec_step (tok_tag u) (ds_type_spec d) of
       Some m \<Rightarrow> repeatP (Suc (length toks + k)) (\<lambda>d. thn (TryParseAttributeSpec P) (bnd NextTok (\<lambda>t. decl_spec_step E P t d)))
          (d\<lparr>ds_type_spec := m\<rparr>) (advance 1 s)
     | None \<Rightarrow> Inl too_many)"
    using Cons.prems by (simp add: bnd_run thn_run no_attribute [of s u "toks @ t # rest"] NextTok_run decl_spec_basic split: option.split)
  show ?case
  proof (cases "spec_step (tok_tag u) (ds_type_spec d)")
    case None
    then show ?thesis by (simp only: turn) simp
  next
    case (Some m)
    have "repeatP (Suc (length toks + k)) (\<lambda>d. thn (TryParseAttributeSpec P) (bnd NextTok (\<lambda>t. decl_spec_step E P t d)))
          (d\<lparr>ds_type_spec := m\<rparr>) (advance 1 s) =
      (case spec_run (map tok_tag toks) m of
         Some m' \<Rightarrow> Inr (d\<lparr>ds_type_spec := m'\<rparr>, advance (Suc (Suc (length toks))) s) | None \<Rightarrow> Inl too_many)"
      using Cons.IH [of "advance 1 s" "d\<lparr>ds_type_spec := m\<rparr>"] Cons.prems Some by (auto split: option.split)
    with Some show ?thesis by (simp only: turn) (simp split: option.split)
  qed
qed

lemma spec_run_class:
  assumes "c_type_of ts = Some ty"
  obtains m where "spec_run (sort_key spec_rank ts) 0 = Some m" "m \<noteq> 0"
    "\<And>d. ds_type_spec d = m \<Longrightarrow> ds_type_qual d = 0 \<Longrightarrow> \<not> ds_typeof d \<Longrightarrow> decl_spec_type d = Inr (ty, 0)"
proof -
  from assms have "(sort_key spec_rank ts, ty) \<in> set c_specs" by (auto simp: c_type_of_def dest: map_of_SomeD)
  then obtain m where m: "spec_run (sort_key spec_rank ts) 0 = Some m" "m \<noteq> 0"
    "decl_spec_type (spec_init None None None\<lparr>ds_type_spec := m\<rparr>) = Inr (ty, 0)" "m \<notin> {kStructUnionSpec, kEnumSpec, kTypedefName}"
    using spec_types unfolding spec_types_ok_def list_all_iff by (auto split: option.splits)
  have "decl_spec_type d = decl_spec_type (spec_init None None None\<lparr>ds_type_spec := m\<rparr>)"
    if "ds_type_spec d = m" "ds_type_qual d = 0" "\<not> ds_typeof d" for d
    using that m(2,4) by (simp add: decl_spec_type_def spec_init_def cong del: option.case_cong_weak)
  with m show thesis by (intro that) auto
qed

lemma spec_init_fields [simp]:
  "ds_type_spec (spec_init st fs al) = 0" "ds_type_qual (spec_init st fs al) = 0" "\<not> ds_typeof (spec_init st fs al)"
  "ds_storage (spec_init st fs al) = st" "ds_func (spec_init st fs al) = fs" "ds_align (spec_init st fs al) = al"
  by (simp_all add: spec_init_def)

lemma ParseDeclSpec_lists:
  assumes "set (map tok_tag toks) \<subseteq> set spec_order" and "toks \<noteq> []" and "ahead s = toks @ t # rest" and "ends_specs t"
  shows "ParseDeclSpec E P storage fspec align s =
    (case c_type_of (map tok_tag toks) of
       Some ty \<Rightarrow> if kcc_order (map tok_tag toks)
         then Inr (((ty, 0), storage, fspec, align), advance (length toks) s) else Inl too_many
     | None \<Rightarrow> Inl too_many)"
proof -
  let ?ts = "map tok_tag toks" and ?d = "spec_init storage fspec align"
  have run0: "spec_run ?ts 0 = (if c_type_of ?ts \<noteq> None \<and> kcc_order ?ts then spec_run (sort_key spec_rank ?ts) 0 else None)"
    using assms(1,2) by (intro spec_run_sorted) auto
  have nz: "spec_run ?ts 0 \<noteq> Some 0"
    unfolding run0 by (auto elim!: spec_run_class)
  have loop: "looped (\<lambda>d. thn (TryParseAttributeSpec P) (bnd NextTok (\<lambda>t. decl_spec_step E P t d))) ?d s =
    (case spec_run ?ts 0 of Some m \<Rightarrow> Inr (?d\<lparr>ds_type_spec := m\<rparr>, advance (Suc (length toks)) s) | None \<Rightarrow> Inl too_many)"
    using spec_loop [OF assms(1,3,4), of ?d "Suc (length rest)"] nz assms(3) by (simp add: looped_run del: repeatP.simps)
  have "\<not> TagIs t Tag_kAttribute" using assms(4) by (auto simp: ends_specs_def other_specs_def TagIs_def)
  then have attr: "TryParseAttributeSpec P (advance (length toks) s) = Inr ((), advance (length toks) s)"
    using assms(3) by (intro no_attribute) auto
  show ?thesis
  proof (cases "c_type_of ?ts \<noteq> None \<and> kcc_order ?ts")
    case True
    then obtain ty where ty: "c_type_of ?ts = Some ty" by auto
    obtain m where "spec_run (sort_key spec_rank ?ts) 0 = Some m"
      "\<And>d. ds_type_spec d = m \<Longrightarrow> ds_type_qual d = 0 \<Longrightarrow> \<not> ds_typeof d \<Longrightarrow> decl_spec_type d = Inr (ty, 0)"
      using spec_run_class [OF ty] by metis
    moreover have "spec_run ?ts 0 = spec_run (sort_key spec_rank ?ts) 0" using run0 True by simp
    moreover note ty
    ultimately
    show ?thesis using True
      by (simp add: ParseDeclSpec_def bnd_run thn_run loop PutBack_advance attr liftR_run ret_def)
  next
    case False
    then have "spec_run ?ts 0 = None" using run0 by auto
    with False show ?thesis by (auto simp: ParseDeclSpec_def bnd_run loop split: option.split)
  qed
qed

text \<open>
  C8. A list of type specifiers names a type exactly when it is one of the lists of the C standard
  (6.7.2), in any order except that \<open>char\<close> and \<open>double\<close> have to come last; it then names the type
  of the standard, and any other list is rejected. No other specifier of the declaration changes.
\<close>

theorem arithmetic_specifiers:
  assumes "set (map tok_tag toks) \<subseteq> set spec_order" and "toks \<noteq> []" and "ahead s = toks @ t # rest" and "ends_specs t"
  shows "ParseDeclSpec E P storage fspec align s =
    (case c_type_of (map tok_tag toks) of
       Some ty \<Rightarrow> if kcc_order (map tok_tag toks)
         then Inr (((ty, 0), storage, fspec, align), advance (length toks) s) else Inl too_many
     | None \<Rightarrow> Inl too_many)"
  using assms by (rule ParseDeclSpec_lists)

definition spec_sample :: "token list" where
  "spec_sample = map (\<lambda>g. \<lparr>tok_tag = g, tok_str = [], tok_loc = Location_init\<rparr>)
     [Tag_kLong, Tag_kUnsigned, Tag_kInt, Tag_kLong]"

definition spec_sample_end :: token where
  "spec_sample_end = \<lparr>tok_tag = Tag_kIdentifier, tok_str = ''x'', tok_loc = Location_init\<rparr>"

theorem arithmetic_specifiers_witness:
  "\<forall>(E :: unit env) P. ParseDeclSpec E P (Some 0) (Some 0) (Some 0) (Parser_init (spec_sample @ [spec_sample_end])) =
     Inr (((ArithT (kLongLong OR kUnsigned), 0), Some 0, Some 0, Some 0),
       advance 4 (Parser_init (spec_sample @ [spec_sample_end])))"
proof (intro allI)
  fix E :: "unit env" and P
  let ?s = "Parser_init (spec_sample @ [spec_sample_end]) :: unit pstate"
  have "set (map tok_tag spec_sample) \<subseteq> set spec_order" "spec_sample \<noteq> []" "ends_specs spec_sample_end"
    "ahead ?s = spec_sample @ spec_sample_end # []" "kcc_order (map tok_tag spec_sample)" "length spec_sample = 4"
    by (simp_all add: spec_sample_def spec_sample_end_def spec_order_def ends_specs_def other_specs_def storage_specs_def
        qual_specs_def func_specs_def ahead_def Parser_init_def kcc_order_def)
  moreover have "c_type_of (map tok_tag spec_sample) = Some (ArithT (kLongLong OR kUnsigned))"
    by code_simp
  ultimately show "ParseDeclSpec E P (Some 0) (Some 0) (Some 0) ?s =
     Inr (((ArithT (kLongLong OR kUnsigned), 0), Some 0, Some 0, Some 0), advance 4 ?s)"
    using arithmetic_specifiers [of spec_sample ?s spec_sample_end "[]" E P "Some 0" "Some 0" "Some 0"] by simp
qed

subsection \<open>A name that is declared again\<close>

text \<open>What every declaration of an object or function meets first.\<close>

definition declare_new :: "'c env \<Rightarrow> string \<Rightarrow> qtype \<Rightarrow> mask \<Rightarrow> mask \<Rightarrow> int \<Rightarrow> linkage \<Rightarrow> ('c, nat option) parser" where
  "declare_new E name q storage fspec align lk =
     bnd (if has storage kExtern then declare_extern name q else ret None) (\<lambda>r. case r of
         Some d \<Rightarrow> ret (Some d)
       | None \<Rightarrow> if IsFunctionTy (fst q) then declare_function name q fspec align lk
                 else declare_object E name q storage align lk)"

lemma MakeDeclaration_run:
  assumes "GetIdentifier E t = Inr name" and "\<not> has storage kTypedef" and "\<not> (has storage kRegister \<and> 0 < align)"
    and "\<not> IsVoidTy (fst q)" and "IsFunctionTy (fst q) \<Longrightarrow> IsFileScope (h_scopes (p_heap s)) (p_scope s)"
    and "FindUsualInCurrScope (h_scopes (p_heap s)) (p_scope s) name = Some i"
    and "lk = (if IsFileScope (h_scopes (p_heap s)) (p_scope s)
      then if has storage kStatic then Linkage_kInternal else Linkage_kExternal else Linkage_kNone)"
  shows "MakeDeclaration E t q storage fspec align s = bnd (redeclare i q storage lk) (\<lambda>r. case r of
       Some d \<Rightarrow> ret (Some d) | None \<Rightarrow> declare_new E name q storage fspec align lk) s"
proof -
  have 1: "ident_of E t s = Inr (name, s)" using assms(1) by (simp add: ident_of_def run)
  have 2: "linkage_here storage s = Inr (lk, s)" using assms(7) by (simp add: linkage_here_def run)
  have 3: "find_usual_here name s = Inr (Some i, s)" using assms(6) by (simp add: find_usual_here_def run)
  have 4: "gets (\<lambda>s. IsFileScope (h_scopes (p_heap s)) (p_scope s)) s = Inr (IsFileScope (h_scopes (p_heap s)) (p_scope s), s)"
    by (simp add: run)
  show ?thesis
    unfolding MakeDeclaration_def declare_new_def [symmetric]
    using assms(2-5) by (auto simp: bnd_run [of "ident_of E t"] bnd_run [of "gets f" for f] bnd_run [of "linkage_here storage"]
        bnd_run [of "find_usual_here name"] 1 2 3 4)
qed

text \<open>
  C21. In a block (or in a prototype) a name of the scope cannot be declared again: whatever the
  storage class, \<open>extern\<close> included, the declaration ends in the error of a redefinition, although C
  allows any number of \<open>extern\<close> declarations of the same object there.
\<close>

theorem block_redeclaration_rejected:
  assumes "GetIdentifier E t = Inr name" and "\<not> has storage kTypedef" and "\<not> (has storage kRegister \<and> 0 < align)"
    and "\<not> IsVoidTy (fst q)" and "\<not> IsFunctionTy (fst q)"
    and "\<not> IsFileScope (h_scopes (p_heap s)) (p_scope s)"
    and "FindUsualInCurrScope (h_scopes (p_heap s)) (p_scope s) name = Some i"
    and "Compatible (h_types (p_heap s)) (fst q) (fst (ident_type (p_heap s) i))"
  shows "MakeDeclaration E t q storage fspec align s = Inl (Diag ''redefinition of'')"
proof -
  have "redeclare i q storage Linkage_kNone s = Inl (Diag ''redefinition of'')"
    using assms(8) by (simp add: redeclare_def run conflicting_def)
  then show ?thesis
    using MakeDeclaration_run [OF assms(1-4) _ assms(7), where lk = Linkage_kNone] assms(5,6) by (simp add: bnd_run)
qed

definition drop_extern :: "mask \<Rightarrow> object \<Rightarrow> object" where
  "drop_extern storage ob = (if has storage kExtern then ob
     else ob\<lparr>storage_class_spec := storage_class_spec ob AND NOT kExtern\<rparr>)"

definition complete_with :: "types \<Rightarrow> qtype \<Rightarrow> object \<Rightarrow> object" where
  "complete_with ts q ob = (if \<not> IsComplete ts (fst (obj_type ob)) \<and> IsComplete ts (fst q)
     then ob\<lparr>obj_type := (fst q, 0)\<rparr> else ob)"

lemma upd_obj_laws:
  "upd_obj n (\<lambda>ob. ob) h = h" "upd_obj n f (upd_obj n g h) = upd_obj n (\<lambda>ob. f (g ob)) h"
  "h_types (upd_obj n f h) = h_types h" "h_objs (upd_obj n f h) n = f (h_objs h n)"
  by (simp_all add: upd_obj_def)

lemma upd_obj_cong: "f (h_objs h n) = g (h_objs h n) \<Longrightarrow> upd_obj n f h = upd_obj n g h"
  by (simp add: upd_obj_def)

lemma pstate_id [simp]: "s\<lparr>p_heap := p_heap s\<rparr> = s"
  by simp

lemma known_object_run:
  assumes "p_obj_decl s n = Some d"
  shows "known_object n q s = Inr (Some d, s\<lparr>p_heap := upd_obj n (complete_with (h_types (p_heap s)) q) (p_heap s)\<rparr>)"
proof (cases "\<not> IsComplete (h_types (p_heap s)) (fst (obj_type (h_objs (p_heap s) n))) \<and> IsComplete (h_types (p_heap s)) (fst q)")
  case True
  then have "upd_obj n (complete_with (h_types (p_heap s)) q) (p_heap s) = upd_obj n (\<lambda>ob. ob\<lparr>obj_type := (fst q, 0)\<rparr>) (p_heap s)"
    by (intro upd_obj_cong) (simp add: complete_with_def)
  with True assms show ?thesis by (simp add: known_object_def run upd_heap_def)
next
  case False
  then have "upd_obj n (complete_with (h_types (p_heap s)) q) (p_heap s) = upd_obj n (\<lambda>ob. ob) (p_heap s)"
    by (intro upd_obj_cong) (auto simp: complete_with_def)
  with False assms show ?thesis by (auto simp: known_object_def run upd_obj_laws)
qed

text \<open>
  C17. The linkage of a redeclaration at file scope: a \<open>static\<close> declaration is accepted only behind
  one with internal linkage, one without \<open>static\<close> behind any object that has linkage. It then
  stands for the declaration that is there, and changes of the object only this: \<open>extern\<close> is dropped
  unless it is repeated, and an incomplete type gives way to a complete one.
\<close>

theorem file_redeclaration:
  assumes "GetIdentifier E t = Inr name" and "\<not> has storage kTypedef" and "\<not> (has storage kRegister \<and> 0 < align)"
    and "\<not> IsVoidTy (fst q)" and "\<not> IsFunctionTy (fst q)"
    and "IsFileScope (h_scopes (p_heap s)) (p_scope s)"
    and "FindUsualInCurrScope (h_scopes (p_heap s)) (p_scope s) name = Some (Object m n)"
    and "Compatible (h_types (p_heap s)) (fst q) (fst (obj_type (h_objs (p_heap s) n)))"
    and "p_obj_decl s n = Some d"
  shows "MakeDeclaration E t q storage fspec align s =
    (if if has storage kStatic then obj_linkage (h_objs (p_heap s) n) \<noteq> Linkage_kInternal
        else obj_linkage (h_objs (p_heap s) n) = Linkage_kNone
     then Inl (Diag ''conflicting linkage'')
     else Inr (Some d, s\<lparr>p_heap := upd_obj n (\<lambda>ob. complete_with (h_types (p_heap s)) q (drop_extern storage ob)) (p_heap s)\<rparr>))"
proof -
  let ?lk = "if has storage kStatic then Linkage_kInternal else Linkage_kExternal"
  let ?ok = "if has storage kStatic then obj_linkage (h_objs (p_heap s) n) = Linkage_kInternal
     else obj_linkage (h_objs (p_heap s) n) \<noteq> Linkage_kNone"
  have conf: "conflicting ?lk (obj_linkage (h_objs (p_heap s) n)) s' = (if ?ok then Inr ((), s') else Inl (Diag ''conflicting linkage''))" for s' :: "'a pstate"
    by (simp add: conflicting_def run)
  have "redeclare (Object m n) q storage ?lk s = (if ?ok then
     Inr (Some d, s\<lparr>p_heap := upd_obj n (\<lambda>ob. complete_with (h_types (p_heap s)) q (drop_extern storage ob)) (p_heap s)\<rparr>)
     else Inl (Diag ''conflicting linkage''))"
    using assms(8,9)
    by (cases "has storage kExtern")
       (simp_all add: redeclare_def run conf known_object_run upd_heap_def drop_extern_def [abs_def] upd_obj_laws)
  then show ?thesis
    using MakeDeclaration_run [OF assms(1-4) _ assms(7), where lk = ?lk] assms(5,6) by (simp add: bnd_run ret_def)
qed

text \<open>
  C20. A second definition of a function is accepted: the declaration of a function whose name is
  known makes a new declaration with the function type just parsed, and it is that type, never
  complete before, that \<open>FuncDef::SetBody\<close> asks whether the function has a body; the type of the
  first definition, complete by then, is not looked at.
\<close>

theorem function_redefinition_accepted:
  assumes "GetIdentifier E t = Inr name" and "\<not> has storage kTypedef" and "align = 0"
    and "\<not> has storage kStatic" and "\<not> has storage kExtern"
    and "IsFileScope (h_scopes (p_heap s)) (p_scope s)"
    and "FindUsualInCurrScope (h_scopes (p_heap s)) (p_scope s) name = Some (Ident name (old, 0) Linkage_kExternal False)"
    and "IsComplete (h_types (p_heap s)) old"
    and new: "new = FuncT f r rq ps va" and "\<not> IsComplete (h_types (p_heap s)) new"
    and "Compatible (h_types (p_heap s)) new old"
  shows "\<exists>d s' s''. MakeDeclaration E t (new, 0) storage fspec align s = Inr (Some d, s')
    \<and> d_ident (p_decls s' d) = Ident name (new, 0) Linkage_kExternal False
    \<and> SetBody E (d_ident (p_decls s' d)) s' = Inr ((), s'') \<and> IsComplete (h_types (p_heap s'')) new"
proof -
  let ?i = "Ident name (old, 0) Linkage_kExternal False"
  have "redeclare ?i (new, 0) storage Linkage_kExternal s = Inr (None, s)"
    using assms(11) by (simp add: redeclare_def run conflicting_def)
  then have "MakeDeclaration E t (new, 0) storage fspec align s =
      declare_function name (new, 0) fspec align Linkage_kExternal s"
    using MakeDeclaration_run [OF assms(1,2) _ _ _ assms(7), where lk = Linkage_kExternal and q = "(new, 0)"] assms(3-6)
    by (simp add: bnd_run declare_new_def ret_def new IsVoidTy_def)
  then show ?thesis
    using assms(3,10)
    by (auto simp: declare_function_def run new upd_heap_def insert_usual_def upd_scopes_def new_decl_def SetBody_def complete_def)
qed

subsubsection \<open>Samples\<close>

lemma sample_identifier: "GetIdentifier E spec_sample_end = Inr ''x''"
  unfolding spec_sample_end_def by code_simp

text \<open>An \<open>int x\<close> with the declaration 0, known in the scope \<open>sc\<close> of two scopes: the file and a block.\<close>

definition int_object :: object where
  "int_object = empty_object\<lparr>obj_name := ''x'', obj_type := (ArithT kInt, 0), obj_linkage := Linkage_kExternal\<rparr>"

definition sample_state :: "nat \<Rightarrow> ident \<Rightarrow> unit pstate" where
  "sample_state sc i = (Parser_init [])\<lparr>p_scope := sc,
     p_heap := empty_heap\<lparr>h_objs := (\<lambda>_. int_object),
       h_types := empty_types\<lparr>funcs := (\<lambda>n. \<lparr>func_spec = 0, func_name = [], func_complete = (n = 0)\<rparr>)\<rparr>,
       h_scopes := InsertUsual_name sc ''x'' i (snd (Scope_Get (Some 0) kBlock file_scopes))\<rparr>,
     p_obj_decl := (\<lambda>_. Some 0)\<rparr>"

theorem block_redeclaration_rejected_witness:
  "\<forall>E. MakeDeclaration E spec_sample_end (ArithT kInt, 0) kExtern 0 0 (sample_state 1 (Object ''x'' 0))
     = Inl (Diag ''redefinition of'')"
proof
  fix E
  have "\<not> IsFileScope (h_scopes (p_heap (sample_state 1 (Object ''x'' 0)))) (p_scope (sample_state 1 (Object ''x'' 0)))"
    "FindUsualInCurrScope (h_scopes (p_heap (sample_state 1 (Object ''x'' 0)))) (p_scope (sample_state 1 (Object ''x'' 0))) ''x''
       = Some (Object ''x'' 0)"
    "Compatible (h_types (p_heap (sample_state 1 (Object ''x'' 0)))) (ArithT kInt)
       (fst (ident_type (p_heap (sample_state 1 (Object ''x'' 0))) (Object ''x'' 0)))"
    "\<not> has kExtern kTypedef"
    by code_simp+
  then show "MakeDeclaration E spec_sample_end (ArithT kInt, 0) kExtern 0 0 (sample_state 1 (Object ''x'' 0))
     = Inl (Diag ''redefinition of'')"
    by (intro block_redeclaration_rejected [where name = "''x''" and i = "Object ''x'' 0"]) (simp_all add: sample_identifier IsVoidTy_def)
qed

theorem file_redeclaration_witness:
  "\<forall>E. MakeDeclaration E spec_sample_end (ArithT kInt, 0) kStatic 0 0 (sample_state 0 (Object ''x'' 0))
     = Inl (Diag ''conflicting linkage'')"
proof
  fix E
  have "IsFileScope (h_scopes (p_heap (sample_state 0 (Object ''x'' 0)))) (p_scope (sample_state 0 (Object ''x'' 0)))"
    "FindUsualInCurrScope (h_scopes (p_heap (sample_state 0 (Object ''x'' 0)))) (p_scope (sample_state 0 (Object ''x'' 0))) ''x''
       = Some (Object ''x'' 0)"
    "Compatible (h_types (p_heap (sample_state 0 (Object ''x'' 0)))) (ArithT kInt)
       (fst (obj_type (h_objs (p_heap (sample_state 0 (Object ''x'' 0))) 0)))"
    "\<not> has kStatic kTypedef" "has kStatic kStatic" "obj_linkage (h_objs (p_heap (sample_state 0 (Object ''x'' 0))) 0) \<noteq> Linkage_kInternal"
    "p_obj_decl (sample_state 0 (Object ''x'' 0)) 0 = Some 0"
    by code_simp+
  then show "MakeDeclaration E spec_sample_end (ArithT kInt, 0) kStatic 0 0 (sample_state 0 (Object ''x'' 0))
     = Inl (Diag ''conflicting linkage'')"
    using file_redeclaration [where name = "''x''" and m = "''x''" and n = 0 and d = 0 and s = "sample_state 0 (Object ''x'' 0)"
      and q = "(ArithT kInt, 0)" and storage = kStatic and align = 0 and E = E and t = spec_sample_end and fspec = 0]
    by (simp add: sample_identifier IsVoidTy_def)
qed

definition sample_func :: "nat \<Rightarrow> ctype" where
  "sample_func n = FuncT n (ArithT kInt) 0 [] False"

theorem function_redefinition_accepted_witness:
  "\<forall>E. \<exists>d s' s''. MakeDeclaration E spec_sample_end (sample_func 1, 0) 0 0 0
      (sample_state 0 (Ident ''x'' (sample_func 0, 0) Linkage_kExternal False)) = Inr (Some d, s')
    \<and> d_ident (p_decls s' d) = Ident ''x'' (sample_func 1, 0) Linkage_kExternal False
    \<and> SetBody E (d_ident (p_decls s' d)) s' = Inr ((), s'') \<and> IsComplete (h_types (p_heap s'')) (sample_func 1)"
proof
  fix E
  let ?s = "sample_state 0 (Ident ''x'' (sample_func 0, 0) Linkage_kExternal False)"
  have "IsFileScope (h_scopes (p_heap ?s)) (p_scope ?s)"
    "FindUsualInCurrScope (h_scopes (p_heap ?s)) (p_scope ?s) ''x'' = Some (Ident ''x'' (sample_func 0, 0) Linkage_kExternal False)"
    "IsComplete (h_types (p_heap ?s)) (sample_func 0)" "\<not> IsComplete (h_types (p_heap ?s)) (sample_func 1)"
    "Compatible (h_types (p_heap ?s)) (sample_func 1) (sample_func 0)"
    "\<not> has 0 kTypedef" "\<not> has 0 kStatic" "\<not> has 0 kExtern"
    by code_simp+
  then show "\<exists>d s' s''. MakeDeclaration E spec_sample_end (sample_func 1, 0) 0 0 0 ?s = Inr (Some d, s')
    \<and> d_ident (p_decls s' d) = Ident ''x'' (sample_func 1, 0) Linkage_kExternal False
    \<and> SetBody E (d_ident (p_decls s' d)) s' = Inr ((), s'') \<and> IsComplete (h_types (p_heap s'')) (sample_func 1)"
    by (intro function_redefinition_accepted [where old = "sample_func 0" and f = 1 and r = "ArithT kInt" and rq = 0 and ps = "[]" and va = False])
       (simp_all add: sample_identifier sample_func_def)
qed

end
