(* ===== verification/Kcc_Frame.thy ===== *)
theory Kcc_Frame
  imports Kcc_DeclProps
begin

text \<open>
  What parsing leaves alone. A function of the parser that returns has the scope, the function
  under definition, the path of the initialiser and the open blocks as it found them, and of the
  scopes it only adds new ones and enters names. The rules follow the combinators, so that a function is shown to
  keep its frame by its shape; the functions that open a scope or a block have a proof of their own.
\<close>

subsection \<open>Frames\<close>

definition scopes_kept :: "scopes \<Rightarrow> scopes \<Rightarrow> bool" where
  "scopes_kept ss ss' \<longleftrightarrow> next_scope ss \<le> next_scope ss' \<and>
     (\<forall>k < next_scope ss. parent (scope_at ss' k) = parent (scope_at ss k) \<and>
        scope_kind (scope_at ss' k) = scope_kind (scope_at ss k))"

text \<open>Everything but the current scope and the function under definition.\<close>

definition rest_kept :: "'c pstate \<Rightarrow> 'c pstate \<Rightarrow> bool" where
  "rest_kept s s' \<longleftrightarrow> p_tokens s' = p_tokens s \<and> p_indexs s' = p_indexs s \<and>
     length (p_blocks s') = length (p_blocks s) \<and> tl (p_blocks s') = tl (p_blocks s) \<and>
     scopes_kept (h_scopes (p_heap s)) (h_scopes (p_heap s'))"

definition kept :: "'c pstate \<Rightarrow> 'c pstate \<Rightarrow> bool" where
  "kept s s' \<longleftrightarrow> rest_kept s s' \<and> p_scope s' = p_scope s \<and> p_func s' = p_func s"

definition holds :: "('c pstate \<Rightarrow> bool) \<Rightarrow> ('c, 'a) parser \<Rightarrow> ('c pstate \<Rightarrow> bool) \<Rightarrow> bool" where
  "holds A m B \<longleftrightarrow> (\<forall>s x s'. A s \<longrightarrow> m s = Inr (x, s') \<longrightarrow> B s')"

definition pres :: "('c, 'a) parser \<Rightarrow> bool" where
  "pres m \<longleftrightarrow> (\<forall>s x s'. m s = Inr (x, s') \<longrightarrow> kept s s')"

named_theorems frame \<open>functions that keep their frame\<close>

lemma scopes_kept_refl [simp]: "scopes_kept ss ss"
  by (simp add: scopes_kept_def)

lemma scopes_kept_trans: "scopes_kept a b \<Longrightarrow> scopes_kept b c \<Longrightarrow> scopes_kept a c"
  by (auto simp: scopes_kept_def)

lemma rest_kept_refl [simp]: "rest_kept s s"
  by (simp add: rest_kept_def)

lemma rest_kept_trans: "rest_kept a b \<Longrightarrow> rest_kept b c \<Longrightarrow> rest_kept a c"
  by (auto simp: rest_kept_def intro: scopes_kept_trans)

lemma kept_refl [simp]: "kept s s"
  by (simp add: kept_def)

lemma kept_trans: "kept a b \<Longrightarrow> kept b c \<Longrightarrow> kept a c"
  by (auto simp: kept_def intro: rest_kept_trans)

subsection \<open>Rules for the combinators\<close>

lemma pres_bnd [frame]: "pres m \<Longrightarrow> (\<And>x. pres (f x)) \<Longrightarrow> pres (bnd m f)"
  unfolding pres_def bnd_def result_simps by (fastforce intro: kept_trans)

lemma pres_thn [frame]: "pres m \<Longrightarrow> pres k \<Longrightarrow> pres (thn m k)"
  unfolding thn_def by (rule pres_bnd)

lemma pres_basic [frame]:
  "pres (ret x)" "pres (failP e)" "pres (Error m)" "pres (assertP c)" "pres (gets g)" "pres (getsE g')" "pres (liftR r)"
  "pres (mk t)" "pres (again a)" "pres (finish b)"
  by (auto simp: pres_def run result_simps)

lemma pres_modify: "(\<And>s. kept s (f s)) \<Longrightarrow> pres (modify f)"
  by (simp add: pres_def run)

lemma pres_if [frame]: "pres a \<Longrightarrow> pres b \<Longrightarrow> pres (if c then a else b)"
  by simp

lemma pres_Let [frame]: "(\<And>v. pres (f v)) \<Longrightarrow> pres (Let v f)"
  by simp

lemma pres_prod [frame]: "(\<And>a b. pres (f a b)) \<Longrightarrow> pres (case p of (a, b) \<Rightarrow> f a b)"
  by (cases p) simp

lemma pres_option [frame]: "pres a \<Longrightarrow> (\<And>x. pres (f x)) \<Longrightarrow> pres (case o' of None \<Rightarrow> a | Some x \<Rightarrow> f x)"
  by (cases o') auto

lemma pres_sum [frame]: "(\<And>x. pres (f x)) \<Longrightarrow> (\<And>x. pres (g x)) \<Longrightarrow> pres (case r of Inl x \<Rightarrow> f x | Inr x \<Rightarrow> g x)"
  by (cases r) auto

lemma pres_list [frame]: "pres a \<Longrightarrow> (\<And>x xs. pres (f x xs)) \<Longrightarrow> pres (case l of [] \<Rightarrow> a | x # xs \<Rightarrow> f x xs)"
  by (cases l) auto

lemma pres_ctype [frame]:
  "pres a \<Longrightarrow> (\<And>m. pres (f1 m)) \<Longrightarrow> (\<And>t q. pres (f2 t q)) \<Longrightarrow> (\<And>n t q. pres (f3 n t q)) \<Longrightarrow> (\<And>b n. pres (f4 b n)) \<Longrightarrow>
   (\<And>n t q ps v. pres (f5 n t q ps v)) \<Longrightarrow> pres (case t of VoidT \<Rightarrow> a | ArithT m \<Rightarrow> f1 m | PointerT t q \<Rightarrow> f2 t q
     | ArrayT n t q \<Rightarrow> f3 n t q | StructT b n \<Rightarrow> f4 b n | FuncT n t q ps v \<Rightarrow> f5 n t q ps v)"
  by (cases t) auto

lemma pres_ident [frame]:
  "(\<And>a b c d. pres (f a b c d)) \<Longrightarrow> (\<And>a b. pres (g a b)) \<Longrightarrow> (\<And>a b. pres (h a b)) \<Longrightarrow>
   pres (case i of Ident a b c d \<Rightarrow> f a b c d | Enumerator a b \<Rightarrow> g a b | Object a b \<Rightarrow> h a b)"
  by (cases i) auto

lemma pres_repeat: "(\<And>a. pres (body a)) \<Longrightarrow> pres (repeatP n body a)"
  by (induction n arbitrary: a) (auto intro!: frame)

lemma pres_looped [frame]: "(\<And>a. pres (body a)) \<Longrightarrow> pres (looped body a)"
  using pres_repeat [of body] by (simp add: pres_def looped_def del: repeatP.simps)

lemma pres_looped_over [frame]: "(\<And>a. pres (body a)) \<Longrightarrow> pres (looped_over n body a)"
  using pres_repeat [of body] by (simp add: pres_def looped_over_def del: repeatP.simps)

lemma pres_on_heap:
  "(\<And>h x h'. f h = Inr (x, h') \<Longrightarrow> scopes_kept (h_scopes h) (h_scopes h')) \<Longrightarrow> pres (on_heap f)"
  by (auto simp: pres_def on_heap_def result_simps kept_def rest_kept_def)

lemma pres_upd_heap:
  "(\<And>h h'. f h = Inr h' \<Longrightarrow> scopes_kept (h_scopes h) (h_scopes h')) \<Longrightarrow> pres (upd_heap f)"
  by (auto simp: pres_def upd_heap_def result_simps kept_def rest_kept_def)

lemma pres_on_types [frame]: "pres (on_types f)"
  unfolding on_types_def by (rule pres_on_heap) (auto split: prod.splits)

lemma pres_upd_scopes: "(\<And>ss. scopes_kept ss (f ss)) \<Longrightarrow> pres (upd_scopes f)"
  unfolding upd_scopes_def by (rule pres_upd_heap) auto

lemma insert_kept [simp]:
  "scopes_kept ss (InsertUsual_name sc n i ss)" "scopes_kept ss (InsertTag_name sc n i ss)" "scopes_kept ss (InsertUsual sc i ss)"
  by (auto simp: scopes_kept_def InsertUsual_name_def InsertTag_name_def InsertUsual_def)

lemma new_scope_kept: "Scope_Get p k ss = (n, ss') \<Longrightarrow> scopes_kept ss ss'"
  by (auto simp: Scope_Get_def Let_def scopes_kept_def)

lemma fold_kept: "(\<And>x ss. scopes_kept ss (f x ss)) \<Longrightarrow> scopes_kept ss (fold f xs ss)"
  by (induction xs arbitrary: ss) (auto intro: scopes_kept_trans)

subsection \<open>The heap\<close>

lemma heap_scopes [simp]:
  "h_scopes (upd_obj n f h) = h_scopes h" "h_scopes (upd_struct n g h) = h_scopes h" "h_scopes (set_cell n c h) = h_scopes h"
  by (simp_all add: upd_obj_def upd_struct_def set_cell_def)

lemma fix_flexible_scopes: "fix_flexible m h = (t, h') \<Longrightarrow> h_scopes h' = h_scopes h"
  by (auto simp: fix_flexible_def Let_def split: if_splits ctype.splits prod.splits)

lemma AddMember_yields: "yields (\<lambda>h'. scopes_kept (h_scopes h) (h_scopes h')) (AddMember dl s b m h)"
  unfolding AddMember_def Let_def
  by (intro yields_bind) (auto split: prod.split dest!: fix_flexible_scopes intro!: yields_bind)

lemma AddMember_kept: "AddMember dl s b m h = Inr h' \<Longrightarrow> scopes_kept (h_scopes h) (h_scopes h')"
  using AddMember_yields by (auto simp: yields_def)

lemma MergeAnonymous_loop_kept:
  "yields (\<lambda>h'. scopes_kept (h_scopes h) (h_scopes h')) (MergeAnonymous_loop s b off us h)"
proof (induction us arbitrary: h)
  case (Cons u us)
  obtain name i where u: "u = (name, i)" by fastforce
  let ?h = "\<lambda>m v. (upd_obj m (\<lambda>ob. ob\<lparr>obj_offset := v,
      indexs := (StructT b s, st_index (cell h s)) # indexs ob\<rparr>) h)\<lparr>h_scopes := InsertUsual (st_scope (cell h s)) i (h_scopes h)\<rparr>"
  have "yields (\<lambda>h'. scopes_kept (h_scopes h) (h_scopes h')) (MergeAnonymous_loop s b off us (?h m v))" for m v
    using Cons.IH [of "?h m v"] by (auto simp: yields_def intro: scopes_kept_trans [OF insert_kept(3)])
  with Cons.IH [of h] show ?case
    by (auto simp: u Let_def split: ident.split option.split intro!: yields_bind)
qed simp

lemma yields_seq: "yields Q m \<Longrightarrow> (\<And>x. Q x \<Longrightarrow> yields P (f x)) \<Longrightarrow> yields P (bindE m f)"
  by (cases m) auto

lemma yields_merged:
  assumes "h_scopes h1 = h_scopes h" and "\<And>h'. h_scopes (g h') = h_scopes h'"
  shows "yields (\<lambda>h'. scopes_kept (h_scopes h) (h_scopes h')) (bindE (MergeAnonymous_loop s b off us h1) (\<lambda>h3. bindE (f h3) (\<lambda>c. Inr (set_cell s c (g h3)))))"
proof (rule yields_seq)
  show "yields (\<lambda>h'. scopes_kept (h_scopes h) (h_scopes h')) (MergeAnonymous_loop s b off us h1)"
    using MergeAnonymous_loop_kept [of h1 s b off us] assms(1) by simp
qed (intro yields_bind, simp add: assms(2))

lemma MergeAnonymous_yields: "yields (\<lambda>h'. scopes_kept (h_scopes h) (h_scopes h')) (MergeAnonymous dl s b m h)"
  unfolding MergeAnonymous_def Let_def
  by (intro yields_bind) (auto split: ctype.split intro!: yields_bind [of "MakeAlign x y" for x y] yields_merged [where g = "\<lambda>h. h"])

lemma MergeAnonymous_kept: "MergeAnonymous dl s b m h = Inr h' \<Longrightarrow> scopes_kept (h_scopes h) (h_scopes h')"
  using MergeAnonymous_yields by (auto simp: yields_def)

lemma enter_bit_field_kept: "enter_bit_field dl s b m n h = Inr h' \<Longrightarrow> scopes_kept (h_scopes h) (h_scopes h')"
  by (auto simp: enter_bit_field_def Let_def result_simps split: if_splits)

lemma yields_enter:
  assumes "h_scopes h1 = h_scopes h"
  shows "yields (\<lambda>h'. scopes_kept (h_scopes h) (h_scopes h')) (bindE (enter_bit_field dl s b m n h1) (count_bits s bw))"
  using enter_bit_field_kept [of dl s b m n h1] assms
  by (auto simp: yields_def result_simps count_bits_def Let_def split: if_splits)

lemma AddBitField_yields: "yields (\<lambda>h'. scopes_kept (h_scopes h) (h_scopes h')) (AddBitField dl s b m h)"
  unfolding AddBitField_def Let_def assertE_def
  by (intro yields_bind yields_if yields_enter) simp_all

lemma AddBitField_kept: "AddBitField dl s b m h = Inr h' \<Longrightarrow> scopes_kept (h_scopes h) (h_scopes h')"
  using AddBitField_yields by (auto simp: yields_def)

lemma Finish_kept: "Finish dl s h = Inr h' \<Longrightarrow> h_scopes h' = h_scopes h"
  by (auto simp: Finish_def result_simps)

lemma SetComplete_kept: "SetComplete dl v t h = Inr h' \<Longrightarrow> scopes_kept (h_scopes h) (h_scopes h')"
  by (cases t) (auto dest: Finish_kept)

lemma ObjectExpr_Get_kept: "ObjectExpr_Get dl n t st lk a bf h = Inr (x, h') \<Longrightarrow> scopes_kept (h_scopes h) (h_scopes h')"
  by (auto simp: ObjectExpr_Get_def Let_def result_simps)

lemma StructType_Get_kept: "StructType_Get b n p h = (t, h') \<Longrightarrow> scopes_kept (h_scopes h) (h_scopes h')"
  by (auto simp: StructType_Get_def Let_def split: prod.splits dest: new_scope_kept)

lemma mk_string_kept: "mk_string dl t str h = Inr (x, h') \<Longrightarrow> scopes_kept (h_scopes h) (h_scopes h')"
  by (auto simp: mk_string_def Let_def result_simps split: if_splits prod.splits)

lemmas heap_kept = AddMember_kept MergeAnonymous_kept AddBitField_kept SetComplete_kept ObjectExpr_Get_kept StructType_Get_kept
  mk_string_kept

subsection \<open>The operations of the parser\<close>

lemma kept_fields [simp]:
  "kept s (s\<lparr>p_index := i\<rparr>)" "kept s (s\<lparr>p_decls := d\<rparr>)" "kept s (s\<lparr>p_decls := d, p_next_decl := n\<rparr>)" "kept s (s\<lparr>p_obj_decl := od\<rparr>)"
  "kept s (s\<lparr>p_labels := ls\<rparr>)" "kept s (s\<lparr>p_gotos := gs\<rparr>)" "kept s (s\<lparr>p_gotos := gs, p_labels := ls\<rparr>)"
  by (simp_all add: kept_def rest_kept_def)

lemma pres_cursor [frame]:
  "pres PeekTok" "pres HasNextTok" "pres NextTok" "pres PutBackTok" "pres (set_index i)"
  unfolding PeekTok_def HasNextTok_def NextTok_def PutBackTok_def set_index_def
  by (intro frame pres_modify; simp)+

lemma pres_tables [frame]:
  "pres (insert_usual n i)" "pres (insert_tag n i)" "pres (new_object E nm q st lk a bf)" "pres (new_decl i)" "pres (set_decl ob d)"
  "pres (upd_decl d f)"
  unfolding insert_usual_def insert_tag_def new_object_def new_decl_def set_decl_def upd_decl_def
  by (intro frame pres_upd_scopes pres_on_heap pres_modify; simp add: ObjectExpr_Get_kept)+

lemma pres_heap [frame]:
  "pres (on_heap (mk_string dl t str))" "pres (upd_heap (SetComplete dl v t))" "pres (upd_heap (AddMember dl sn b m))"
  "pres (upd_heap (MergeAnonymous dl sn b m))" "pres (upd_heap (AddBitField dl sn b m))"
  "pres (upd_heap (\<lambda>h. Inr (upd_obj n f h)))" "pres (upd_heap (\<lambda>h. Inr (StructSetName nm sn h)))"
  "pres (upd_heap (\<lambda>h. bindE (r h) (\<lambda>ts. Inr (h\<lparr>h_types := ts\<rparr>))))"
  "pres (upd_heap (\<lambda>h. bindE (r h) (\<lambda>ts. bindE (r' ts) (\<lambda>ts'. Inr (h\<lparr>h_types := ts'\<rparr>)))))"
  "pres (on_heap (\<lambda>h. Inr (StructType_Get b nm sco h)))"
  by (auto intro!: pres_on_heap pres_upd_heap simp: heap_kept result_simps StructSetName_def)

lemma pres_add_stmt [frame]: "pres (add_stmt st)"
  by (auto simp: pres_def add_stmt_def kept_def rest_kept_def split: list.splits)

lemma pres_TestTok [frame]: "pres (TestTok t)"
  unfolding TestTok_def by (intro frame)

lemma pres_TryTok [frame]: "pres (TryTok t)"
  unfolding TryTok_def by (intro frame)

lemma pres_Expect [frame]: "pres (Expect t)"
  unfolding Expect_def by (intro frame)

lemma pres_ident_of [frame]: "pres (ident_of E t)"
  unfolding ident_of_def by (intro frame)

lemma pres_find_usual [frame]: "pres (find_usual name)"
  unfolding find_usual_def by (intro frame)

lemma pres_find_usual_here [frame]: "pres (find_usual_here name)"
  unfolding find_usual_here_def by (intro frame)

lemma pres_names_type [frame]: "pres (names_type E t)"
  unfolding names_type_def by (intro frame)

lemma pres_IsTypeName [frame]: "pres (IsTypeName E t)"
  unfolding IsTypeName_def by (intro frame)

lemma pres_IsDecl [frame]: "pres (IsDecl E t)"
  unfolding IsDecl_def by (intro frame)

lemma pres_FindLabel [frame]: "pres (FindLabel name)"
  unfolding FindLabel_def by (intro frame)

lemma pres_binary [frame]: "pres (binary op l r)"
  unfolding binary_def by (intro frame)

lemma pres_unary [frame]: "pres (unary op e)"
  unfolding unary_def by (intro frame)

lemma pres_type_of [frame]: "pres (type_of e)"
  unfolding type_of_def by (intro frame)

lemma pres_arith_type [frame]: "pres (arith_type m)"
  unfolding arith_type_def by (intro frame)

lemma pres_complete [frame]: "pres (complete t)"
  unfolding complete_def by (intro frame)

lemma pres_width_of [frame]: "pres (width_of E t)"
  unfolding width_of_def by (intro frame)

lemma pres_align_of [frame]: "pres (align_of E t)"
  unfolding align_of_def by (intro frame)

lemma pres_int_constant [frame]: "pres (int_constant t v)"
  unfolding int_constant_def by (intro frame)

lemma pres_ulong_constant [frame]: "pres (ulong_constant v)"
  unfolding ulong_constant_def by (intro frame)

lemma pres_calc_integer [frame]: "pres (calc_integer E e)"
  unfolding calc_integer_def by (intro frame)

lemma pres_ParseCharacter [frame]: "pres (ParseCharacter)"
  unfolding ParseCharacter_def by (intro frame)

lemma pres_ParseInteger [frame]: "pres (ParseInteger)"
  unfolding ParseInteger_def by (intro frame)

lemma pres_ParseFloat [frame]: "pres (ParseFloat E)"
  unfolding ParseFloat_def by (intro frame)

lemma pres_string_literals [frame]: "pres (string_literals E handle_escape)"
  unfolding string_literals_def by (intro frame)

lemma pres_ParseStringLiteral [frame]: "pres (ParseStringLiteral E handle_escape)"
  unfolding ParseStringLiteral_def by (intro frame)

lemma pres_ParseConstant [frame]: "pres (ParseConstant E)"
  unfolding ParseConstant_def by (intro frame)

lemma pres_decl_type [frame]: "pres (decl_type d)"
  unfolding decl_type_def by (intro frame)

lemma pres_AddInits [frame]: "pres (AddInits d inits)"
  unfolding AddInits_def by (intro frame)

lemma pres_SetConstant [frame]: "pres (SetConstant d c)"
  unfolding SetConstant_def by (intro frame)

lemma pres_declare_typedef [frame]: "pres (declare_typedef name q align)"
  unfolding declare_typedef_def by (intro frame)

lemma pres_linkage_here [frame]: "pres (linkage_here storage)"
  unfolding linkage_here_def by (intro frame)

lemma pres_conflicting [frame]: "pres (conflicting new old)"
  unfolding conflicting_def by (intro frame)

lemma pres_known_object [frame]: "pres (known_object n q)"
  unfolding known_object_def by (intro frame)

lemma pres_redeclare [frame]: "pres (redeclare i q storage lk)"
  unfolding redeclare_def by (intro frame)

lemma pres_declare_extern [frame]: "pres (declare_extern name q)"
  unfolding declare_extern_def by (intro frame)

lemma pres_declare_function [frame]: "pres (declare_function name q fspec align lk)"
  unfolding declare_function_def by (intro frame)

lemma pres_static_name [frame]: "pres (static_name E)"
  unfolding static_name_def by (intro frame)

lemma pres_declare_object [frame]: "pres (declare_object E name q storage align lk)"
  unfolding declare_object_def by (intro frame)

lemma pres_MakeDeclaration [frame]: "pres (MakeDeclaration E t q storage fspec align)"
  unfolding MakeDeclaration_def by (intro frame)

lemma pres_builtin_object [frame]: "pres (builtin_object E name t)"
  unfolding builtin_object_def by (intro frame)

lemma pres_builtin_member [frame]: "pres (builtin_member E s name t)"
  unfolding builtin_member_def by (intro frame)

lemma pres_builtin_func [frame]: "pres (builtin_func name t params)"
  unfolding builtin_func_def by (intro frame)

lemma pres_va_list_tag [frame]: "pres (va_list_tag E)"
  unfolding va_list_tag_def by (intro frame)

lemma pres_AddBuiltin [frame]: "pres (AddBuiltin E)"
  unfolding AddBuiltin_def by (intro frame)


subsection \<open>Scopes and blocks that are opened and closed\<close>

lemma holds_bnd: "holds A m B \<Longrightarrow> (\<And>x. holds B (f x) C) \<Longrightarrow> holds A (bnd m f) C"
  unfolding holds_def bnd_def by (fastforce simp: result_simps)

lemma holds_thn: "holds A m B \<Longrightarrow> holds B k C \<Longrightarrow> holds A (thn m k) C"
  unfolding thn_def by (rule holds_bnd)

lemma holds_prod: "(\<And>a b. holds A (f a b) B) \<Longrightarrow> holds A (case p of (a, b) \<Rightarrow> f a b) B"
  by (cases p) simp

lemma holds_Error: "holds A (Error m) B"
  by (simp add: holds_def run)

lemma holds_if: "holds A a B \<Longrightarrow> holds A b B \<Longrightarrow> holds A (if c then a else b) B"
  by simp

lemma holds_pres: "pres m \<Longrightarrow> (\<And>s s'. A s \<Longrightarrow> kept s s' \<Longrightarrow> B s') \<Longrightarrow> holds A m B"
  by (auto simp: holds_def pres_def)

lemma pres_holds: "(\<And>s0. holds (kept s0) m (kept s0)) \<Longrightarrow> pres m"
  unfolding holds_def pres_def using kept_refl by blast

lemma holds_kept: "pres m \<Longrightarrow> holds (kept s0) m (kept s0)"
  by (erule holds_pres) (rule kept_trans)

text \<open>Inside a scope that was opened in the state \<open>s0\<close>.\<close>

definition inside :: "'c pstate \<Rightarrow> 'c pstate \<Rightarrow> bool" where
  "inside s0 s \<longleftrightarrow> rest_kept s0 s \<and> p_func s = p_func s0 \<and> p_scope s < next_scope (h_scopes (p_heap s)) \<and>
     parent (scope_at (h_scopes (p_heap s)) (p_scope s)) = Some (p_scope s0)"

lemma inside_kept: "inside s0 s \<Longrightarrow> kept s s' \<Longrightarrow> inside s0 s'"
  unfolding inside_def kept_def by (auto intro: rest_kept_trans simp: rest_kept_def scopes_kept_def)

lemma holds_inside: "pres m \<Longrightarrow> holds (inside s0) m (inside s0)"
  by (erule holds_pres) (rule inside_kept)

lemma holds_enter: "holds (kept s0) (EnterScope k) (inside s0)"
  by (auto simp: holds_def EnterScope_def run on_heap_def Scope_Get_def Let_def kept_def inside_def rest_kept_def scopes_kept_def)

lemma holds_leave: "holds (inside s0) LeaveScope (kept s0)"
  by (auto simp: holds_def LeaveScope_def run GetParent_def kept_def inside_def rest_kept_def)

lemma pres_insert_params [frame]: "pres (insert_params ps)"
  unfolding insert_params_def by (intro frame pres_upd_heap) (auto intro!: fold_kept)

lemma holds_EnterBlock: "holds (kept s0) (EnterBlock t) (inside s0)"
  unfolding EnterBlock_def by (rule holds_thn [OF holds_enter]) (intro holds_inside frame)

text \<open>Away in the scope of a structure.\<close>

definition away :: "'c pstate \<Rightarrow> 'c pstate \<Rightarrow> bool" where
  "away s0 s \<longleftrightarrow> rest_kept s0 s \<and> p_func s = p_func s0"

lemma holds_away: "pres m \<Longrightarrow> holds (away s0) m (away s0)"
  by (erule holds_pres) (auto simp: away_def kept_def intro: rest_kept_trans)

lemma holds_set_scope:
  "holds (kept s0) (set_scope n) (away s0)" "holds (away s0) (set_scope (p_scope s0)) (kept s0)"
  by (auto simp: holds_def set_scope_def run away_def kept_def rest_kept_def)

lemma holds_gets_scope:
  "holds (kept s0) (f (p_scope s0)) B \<Longrightarrow> holds (kept s0) (bnd (gets p_scope) f) B"
  by (auto simp: holds_def run kept_def)

text \<open>In a block that was opened behind its scope; behind the scope again, with the block still open.\<close>

definition in_block :: "'c pstate \<Rightarrow> 'c pstate \<Rightarrow> bool" where
  "in_block s0 s \<longleftrightarrow> (\<exists>s1. inside s0 s1 \<and> kept (s1\<lparr>p_blocks := [] # p_blocks s1\<rparr>) s)"

definition past_block :: "'c pstate \<Rightarrow> 'c pstate \<Rightarrow> bool" where
  "past_block s0 s \<longleftrightarrow> (\<exists>s1. kept s0 s1 \<and> kept (s1\<lparr>p_blocks := [] # p_blocks s1\<rparr>) s)"

lemma holds_in_block: "pres m \<Longrightarrow> holds (in_block s0) m (in_block s0)"
  by (erule holds_pres) (auto simp: in_block_def intro: kept_trans)

lemma holds_push_block: "holds (inside s0) push_block (in_block s0)"
  by (auto simp: holds_def push_block_def run in_block_def intro: exI)

lemma holds_leave_block: "holds (in_block s0) LeaveScope (past_block s0)"
proof (unfold holds_def, intro allI impI)
  fix s x s'
  assume "in_block s0 s" and leave: "LeaveScope s = Inr (x, s')"
  then obtain s1 where s1: "inside s0 s1" and k: "kept (s1\<lparr>p_blocks := [] # p_blocks s1\<rparr>) s"
    unfolding in_block_def by blast
  have "kept s0 (s1\<lparr>p_scope := p_scope s0\<rparr>)"
    using s1 by (simp add: inside_def kept_def rest_kept_def)
  moreover have "s' = s\<lparr>p_scope := p_scope s0\<rparr>"
    using leave s1 k by (auto simp: LeaveScope_def run GetParent_def inside_def kept_def rest_kept_def scopes_kept_def)
  then have "kept ((s1\<lparr>p_scope := p_scope s0\<rparr>)\<lparr>p_blocks := [] # p_blocks (s1\<lparr>p_scope := p_scope s0\<rparr>)\<rparr>) s'"
    using k by (simp add: kept_def rest_kept_def)
  ultimately show "past_block s0 s'" unfolding past_block_def by blast
qed

lemma holds_pop_block: "holds (past_block s0) pop_block (kept s0)"
proof (unfold holds_def, intro allI impI)
  fix s x s'
  assume "past_block s0 s" and pop: "pop_block s = Inr (x, s')"
  then obtain s1 where s1: "kept s0 s1" and k: "kept (s1\<lparr>p_blocks := [] # p_blocks s1\<rparr>) s"
    unfolding past_block_def by blast
  from pop k have "kept s1 s'" by (auto simp: pop_block_def kept_def rest_kept_def split: list.splits)
  with s1 show "kept s0 s'" by (rule kept_trans)
qed

lemma pres_move_tags [frame]: "pres (move_tags sc ts)"
  by (induction sc ts rule: move_tags.induct) (auto intro!: frame pres_upd_scopes)

lemma pres_string_literal [frame]: "pres (string_literal E str)"
  unfolding string_literal_def by (intro frame)

lemma pres_type_string [frame]: "pres (type_string E t)"
  unfolding type_string_def by (intro frame)

lemma pres_struct_member [frame]: "pres (struct_member t name)"
  unfolding struct_member_def by (intro frame)

lemma pres_is_va_arg [frame]: "pres (is_va_arg e)"
  unfolding is_va_arg_def by (intro frame)

lemma pres_call_result [frame]: "pres (call_result E e q)"
  unfolding call_result_def by (intro frame)

lemma pres_left_assoc [frame]: "pres operand \<Longrightarrow> pres (left_assoc ops operand)"
  unfolding left_assoc_def by (intro frame)

lemma pres_comma_separated [frame]: "pres item \<Longrightarrow> pres (comma_separated item)"
  unfolding comma_separated_def by (intro frame)

lemma pres_TryParseAsm [frame]: "pres (TryParseAsm E)"
  unfolding TryParseAsm_def by (intro frame)

lemma pres_struct_declarator [frame]: "pres (struct_declarator E b s t q)"
  unfolding struct_declarator_def by (intro frame)

lemma pres_new_struct [frame]: "pres (new_struct b name)"
  unfolding new_struct_def by (intro frame)

lemma pres_typedef_type [frame]: "pres (typedef_type i)"
  unfolding typedef_type_def by (intro frame)

lemma pres_typedef_spec [frame]: "pres (typedef_spec E t d)"
  unfolding typedef_spec_def by (intro frame)

lemma pres_param_type [frame]: "pres (param_type n)"
  unfolding param_type_def by (intro frame)

lemma pres_TestOneOf [frame]: "pres (TestOneOf ts)"
  unfolding TestOneOf_def by (intro frame)

lemma pres_expect_equal [frame]: "pres (expect_equal designated)"
  unfolding expect_equal_def by (intro frame)

lemma pres_array_elem [frame]: "pres (array_elem t)"
  unfolding array_elem_def by (intro frame)

lemma pres_array_size [frame]: "pres (array_size t)"
  unfolding array_size_def by (intro frame)

lemma pres_set_array_size [frame]: "pres (set_array_size n t)"
  unfolding set_array_size_def by (intro frame)

lemma pres_set_complete [frame]: "pres (set_complete E t)"
  unfolding set_complete_def by (intro frame)

lemma pres_llvm_type [frame]: "pres (llvm_type t)"
  unfolding llvm_type_def by (intro frame)

lemma pres_grow_array [frame]: "pres (grow_array t index)"
  unfolding grow_array_def by (intro frame)

lemma pres_StructGetMembers [frame]: "pres (StructGetMembers t)"
  unfolding StructGetMembers_def by (intro frame)

lemma pres_struct_designator [frame]: "pres (struct_designator E t iter)"
  unfolding struct_designator_def by (intro frame)

lemma pres_put_back_designator [frame]: "pres (put_back_designator m designated)"
  unfolding put_back_designator_def by (intro frame)

lemma pres_close_brace [frame]: "pres (close_brace has_brace msg)"
  unfolding close_brace_def by (intro frame)

lemma pres_at_right_brace [frame]: "pres (at_right_brace has_brace)"
  unfolding at_right_brace_def by (intro frame)

lemma pres_end_of_list [frame]: "pres (end_of_list has_brace)"
  unfolding end_of_list_def by (intro frame)

lemma pres_fit_literal [frame]: "pres (fit_literal E t lit elem)"
  unfolding fit_literal_def by (intro frame)

lemma pres_add_init [frame]: "pres (add_init t e inits)"
  unfolding add_init_def by (intro frame)

lemma pres_with_index [frame]: "pres m \<Longrightarrow> pres (with_index i m)"
  unfolding with_index_def pres_def
  by (fastforce simp: run result_simps kept_def rest_kept_def)

lemma pres_member_path [frame]: "pres (member_path t m)"
  unfolding member_path_def by (intro frame)

lemma pres_constant_array_of [frame]: "pres (constant_array_of E t vals)"
  unfolding constant_array_of_def by (intro frame)

lemma pres_constant_bit_field [frame]: "pres init \<Longrightarrow> pres (constant_bit_field E mt ob val init)"
  unfolding constant_bit_field_def by (intro frame)

lemma pres_struct_elements [frame]: "pres (struct_elements t)"
  unfolding struct_elements_def by (intro frame)

lemma pres_return_type [frame]: "pres (return_type)"
  unfolding return_type_def by (intro frame)

lemma pres_SetBody [frame]: "pres (SetBody E i)"
  unfolding SetBody_def by (intro frame)

lemma pres_resolve_gotos [frame]: "pres (resolve_gotos)"
  unfolding resolve_gotos_def by (intro frame pres_modify) simp


subsection \<open>The functions of the parser\<close>

text \<open>A function keeps its frame if the recursive calls do.\<close>

locale framed_calls =
  fixes P :: "'c procs"
  assumes framed: "pres (r_Expr P)" "pres (r_AssignExpr P)" "pres (r_ConditionExpr P)" "pres (r_CastExpr P)"
      "pres (r_UnaryExpr P)" "pres (r_TypeName P)" "\<And>t. pres (r_CompoundStmt P t)" "pres (r_Stmt P)" "pres (r_Decl P)"
      "\<And>a b c. pres (r_DeclSpec P a b c)" "\<And>q. pres (r_Declarator P q)" "\<And>q. pres (r_DeclaratorTail P q)"
      "\<And>is q d f. pres (r_Initializer P is q d f)" "\<And>q d f. pres (r_ConstantInitializer P q d f)"
begin

lemmas framed_calls [frame] = framed

lemma pres_ParseTypeid [frame]: "pres (ParseTypeid E P)"
  unfolding ParseTypeid_def by (intro frame)

lemma pres_ParseOffsetof [frame]: "pres (ParseOffsetof E P)"
  unfolding ParseOffsetof_def by (intro frame)

lemma pres_ParseHugeVal [frame]: "pres (ParseHugeVal)"
  unfolding ParseHugeVal_def by (intro frame)

lemma pres_ParseInff [frame]: "pres (ParseInff)"
  unfolding ParseInff_def by (intro frame)

lemma pres_ParseStmtExpr [frame]: "pres (ParseStmtExpr P)"
  unfolding ParseStmtExpr_def by (intro frame)

lemma pres_TryParseStmtExpr [frame]: "pres (TryParseStmtExpr P)"
  unfolding TryParseStmtExpr_def by (intro frame)

lemma pres_ParseGenericSelection [frame]: "pres (ParseGenericSelection E P)"
  unfolding ParseGenericSelection_def by (intro frame)

lemma pres_ParsePrimaryExpr [frame]: "pres (ParsePrimaryExpr E P)"
  unfolding ParsePrimaryExpr_def by (intro frame)

lemma pres_ParseInitDeclaratorSub [frame]: "pres (ParseInitDeclaratorSub P d)"
  unfolding ParseInitDeclaratorSub_def by (intro frame)

lemma pres_ParseCompoundLiteral [frame]: "pres (ParseCompoundLiteral E P q)"
  unfolding ParseCompoundLiteral_def by (intro frame)

lemma pres_TryParseCompoundLiteral [frame]: "pres (TryParseCompoundLiteral E P)"
  unfolding TryParseCompoundLiteral_def by (intro frame)

lemma pres_ParseIndexExpr [frame]: "pres (ParseIndexExpr P e)"
  unfolding ParseIndexExpr_def by (intro frame)

lemma pres_call_args [frame]: "pres (call_args P)"
  unfolding call_args_def by (intro frame)

lemma pres_ParseFuncCallExpr [frame]: "pres (ParseFuncCallExpr P e)"
  unfolding ParseFuncCallExpr_def by (intro frame)

lemma pres_ParseMemberRefExpr [frame]: "pres (ParseMemberRefExpr E e)"
  unfolding ParseMemberRefExpr_def by (intro frame)

lemma pres_ParsePostfixExprTail [frame]: "pres (ParsePostfixExprTail E P e)"
  unfolding ParsePostfixExprTail_def by (intro frame)

lemma pres_ParsePostfixExpr [frame]: "pres (ParsePostfixExpr E P)"
  unfolding ParsePostfixExpr_def by (intro frame)

lemma pres_ParseSizeof [frame]: "pres (ParseSizeof E P)"
  unfolding ParseSizeof_def by (intro frame)

lemma pres_ParseAlignof [frame]: "pres (ParseAlignof E P)"
  unfolding ParseAlignof_def by (intro frame)

lemma pres_ParseUnaryExpr [frame]: "pres (ParseUnaryExpr E P)"
  unfolding ParseUnaryExpr_def by (intro frame)

lemma pres_ParseCastExpr [frame]: "pres (ParseCastExpr E P)"
  unfolding ParseCastExpr_def by (intro frame)

lemma pres_ParseMultiplicativeExpr [frame]: "pres (ParseMultiplicativeExpr E P)"
  unfolding ParseMultiplicativeExpr_def by (intro frame)

lemma pres_ParseAdditiveExpr [frame]: "pres (ParseAdditiveExpr E P)"
  unfolding ParseAdditiveExpr_def by (intro frame)

lemma pres_ParseShiftExpr [frame]: "pres (ParseShiftExpr E P)"
  unfolding ParseShiftExpr_def by (intro frame)

lemma pres_ParseRelationExpr [frame]: "pres (ParseRelationExpr E P)"
  unfolding ParseRelationExpr_def by (intro frame)

lemma pres_ParseEqualityExpr [frame]: "pres (ParseEqualityExpr E P)"
  unfolding ParseEqualityExpr_def by (intro frame)

lemma pres_ParseAndExpr [frame]: "pres (ParseAndExpr E P)"
  unfolding ParseAndExpr_def by (intro frame)

lemma pres_ParseExclusiveOrExpr [frame]: "pres (ParseExclusiveOrExpr E P)"
  unfolding ParseExclusiveOrExpr_def by (intro frame)

lemma pres_ParseInclusiveOrExpr [frame]: "pres (ParseInclusiveOrExpr E P)"
  unfolding ParseInclusiveOrExpr_def by (intro frame)

lemma pres_ParseLogicalAndExpr [frame]: "pres (ParseLogicalAndExpr E P)"
  unfolding ParseLogicalAndExpr_def by (intro frame)

lemma pres_ParseLogicalOrExpr [frame]: "pres (ParseLogicalOrExpr E P)"
  unfolding ParseLogicalOrExpr_def by (intro frame)

lemma pres_ParseConditionExpr [frame]: "pres (ParseConditionExpr E P)"
  unfolding ParseConditionExpr_def by (intro frame)

lemma pres_ParseConstantExpr [frame]: "pres (ParseConstantExpr E P)"
  unfolding ParseConstantExpr_def by (intro frame)

lemma pres_ParseAssignExpr [frame]: "pres (ParseAssignExpr E P)"
  unfolding ParseAssignExpr_def by (intro frame)

lemma pres_ParseExpr [frame]: "pres (ParseExpr E P)"
  unfolding ParseExpr_def by (intro frame)

lemma pres_ParseAttributeExprList [frame]: "pres (ParseAttributeExprList P)"
  unfolding ParseAttributeExprList_def by (intro frame)

lemma pres_ParseAttributeParamList [frame]: "pres (ParseAttributeParamList P)"
  unfolding ParseAttributeParamList_def by (intro frame)

lemma pres_ParseAttribute [frame]: "pres (ParseAttribute P)"
  unfolding ParseAttribute_def by (intro frame)

lemma pres_ParseAttributeList [frame]: "pres (ParseAttributeList P)"
  unfolding ParseAttributeList_def by (intro frame)

lemma pres_TryParseAttributeSpec [frame]: "pres (TryParseAttributeSpec P)"
  unfolding TryParseAttributeSpec_def by (intro frame)

lemma pres_ParseTypeof [frame]: "pres (ParseTypeof E P)"
  unfolding ParseTypeof_def by (intro frame)

lemma pres_ParseStaticAssertDecl [frame]: "pres (ParseStaticAssertDecl E P)"
  unfolding ParseStaticAssertDecl_def by (intro frame)

lemma pres_ParseBitField [frame]: "pres (ParseBitField E P b s t q)"
  unfolding ParseBitField_def by (intro frame)

lemma pres_struct_declarators [frame]: "pres (struct_declarators E P b s base_type)"
  unfolding struct_declarators_def by (intro frame)

lemma pres_ParseStructDeclList [frame]: "pres (ParseStructDeclList E P b sn)"
  unfolding ParseStructDeclList_def
  apply (rule pres_holds)
  apply (rule holds_bnd [OF holds_kept], intro frame)
  apply (rule holds_thn [OF holds_kept], intro frame)
  apply (rule holds_gets_scope)
  apply (rule holds_bnd [OF holds_kept], intro frame)
  apply (rule holds_thn [OF holds_set_scope(1)])
  apply (rule holds_thn [OF holds_away], intro frame)
  apply (rule holds_thn [OF holds_away], intro frame)
  apply (rule holds_thn [OF holds_away], intro frame)
  apply (rule holds_bnd [OF holds_away], intro frame)
  apply (rule holds_thn [OF holds_away], intro frame)
  apply (rule holds_set_scope(2))
  done

lemma pres_struct_body [frame]: "pres (struct_body E P t)"
  unfolding struct_body_def by (intro frame)

lemma pres_ParseStructUnionSpec [frame]: "pres (ParseStructUnionSpec E P is_struct)"
  unfolding ParseStructUnionSpec_def by (intro frame)

lemma pres_ParseEnumerator [frame]: "pres (ParseEnumerator E P)"
  unfolding ParseEnumerator_def by (intro frame)

lemma pres_ParseEnumSpec [frame]: "pres (ParseEnumSpec E P)"
  unfolding ParseEnumSpec_def by (intro frame)

lemma pres_ParseAlignas [frame]: "pres (ParseAlignas E P)"
  unfolding ParseAlignas_def by (intro frame)

lemma pres_decl_spec_step [frame]: "pres (decl_spec_step E P t d)"
  unfolding decl_spec_step_def by (intro frame)

lemma pres_ParseDeclSpec [frame]: "pres (ParseDeclSpec E P storage fspec align)"
  unfolding ParseDeclSpec_def by (intro frame)

lemma pres_ParseTypeQualList [frame]: "pres (ParseTypeQualList)"
  unfolding ParseTypeQualList_def by (intro frame)

lemma pres_ParsePointer [frame]: "pres (ParsePointer q)"
  unfolding ParsePointer_def by (intro frame)

lemma pres_ParseArrayLength [frame]: "pres (ParseArrayLength E P)"
  unfolding ParseArrayLength_def by (intro frame)

lemma pres_ParseParamDecl [frame]: "pres (ParseParamDecl E P)"
  unfolding ParseParamDecl_def by (intro frame)

lemma pres_ParseParamTypeList [frame]: "pres (ParseParamTypeList E P)"
  unfolding ParseParamTypeList_def by (intro frame)

lemma pres_ParseDirectDeclaratorTail [frame]: "pres (ParseDirectDeclaratorTail E P q)"
proof -
  have params: "pres (thn EnterProto (bnd (ParseParamTypeList E P) (\<lambda>(params, var_args). thn ExitProto (f params var_args))))"
    if "\<And>params var_args. pres (f params var_args)" for f :: "_ \<Rightarrow> _ \<Rightarrow> ('c, qtype) parser"
    unfolding EnterProto_def ExitProto_def
    by (rule pres_holds, rule holds_thn [OF holds_enter], rule holds_bnd [OF holds_inside], rule frame, rule holds_prod,
        rule holds_thn [OF holds_leave], rule holds_kept, rule that)
  show ?thesis
    unfolding ParseDirectDeclaratorTail_def by (intro params frame)
qed

lemma pres_ParseDirectDeclarator [frame]: "pres (ParseDirectDeclarator E P base_type)"
  unfolding ParseDirectDeclarator_def by (intro frame)

lemma pres_ParseDeclarator [frame]: "pres (ParseDeclarator E P base_type)"
  unfolding ParseDeclarator_def by (intro frame)

lemma pres_ParseDirectAbstractDeclarator [frame]: "pres (ParseDirectAbstractDeclarator E P q)"
  unfolding ParseDirectAbstractDeclarator_def by (intro frame)

lemma pres_ParseAbstractDeclarator [frame]: "pres (ParseAbstractDeclarator E P q)"
  unfolding ParseAbstractDeclarator_def by (intro frame)

lemma pres_ParseTypeName [frame]: "pres (ParseTypeName E P)"
  unfolding ParseTypeName_def by (intro frame)

lemma pres_ParseInitDeclarator [frame]: "pres (ParseInitDeclarator E P base_type storage fspec align)"
  unfolding ParseInitDeclarator_def by (intro frame)

lemma pres_ParseInitDeclaratorList [frame]: "pres (ParseInitDeclaratorList E P base_type storage fspec align)"
  unfolding ParseInitDeclaratorList_def by (intro frame)

lemma pres_ParseDecl [frame]: "pres (ParseDecl E P maybe_func_def)"
  unfolding ParseDecl_def by (intro frame)

lemma pres_array_designator [frame]: "pres (array_designator E P t index)"
  unfolding array_designator_def by (intro frame)

lemma pres_ParseLiteralInitializer [frame]: "pres (ParseLiteralInitializer E t need_ptr)"
  unfolding ParseLiteralInitializer_def by (intro frame)

lemma pres_array_turn [frame]: "pres (array_turn E P has_brace t acc)"
  unfolding array_turn_def by (intro frame)

lemma pres_ParseArrayInitializer [frame]: "pres (ParseArrayInitializer E P inits0 t designated0)"
  unfolding ParseArrayInitializer_def by (intro frame)

lemma pres_ParseStructInitializer [frame]: "pres (ParseStructInitializer E P inits0 t)"
  unfolding ParseStructInitializer_def by (intro frame)

lemma pres_ParseInitializer [frame]: "pres (ParseInitializer E P inits q designated force_brace)"
  unfolding ParseInitializer_def by (intro frame)

lemma pres_ParseConstantArrayInitializer [frame]: "pres (ParseConstantArrayInitializer E P t designated0)"
  unfolding ParseConstantArrayInitializer_def by (intro frame)

lemma pres_ParseConstantStructInitializer [frame]: "pres (ParseConstantStructInitializer E P t)"
  unfolding ParseConstantStructInitializer_def Let_def by (intro frame)

lemma pres_ParseConstantInitializer [frame]: "pres (ParseConstantInitializer E P q designated force_brace)"
  unfolding ParseConstantInitializer_def by (intro frame)

lemma pres_ParseInt64Constant [frame]: "pres (ParseInt64Constant E P)"
  unfolding ParseInt64Constant_def by (intro frame)

lemma pres_ParseLabelStmt [frame]: "pres (ParseLabelStmt E P)"
  unfolding ParseLabelStmt_def by (intro frame pres_modify) simp

lemma pres_ParseCaseStmt [frame]: "pres (ParseCaseStmt E P)"
  unfolding ParseCaseStmt_def by (intro frame)

lemma pres_ParseDefaultStmt [frame]: "pres (ParseDefaultStmt P)"
  unfolding ParseDefaultStmt_def by (intro frame)

lemma pres_ParseCompoundStmt [frame]: "pres (ParseCompoundStmt E P t)"
  unfolding ParseCompoundStmt_def ExitBlock_def
  by (rule pres_holds, rule holds_thn [OF holds_kept], rule frame, rule holds_thn [OF holds_EnterBlock],
      rule holds_thn [OF holds_push_block], rule holds_thn [OF holds_in_block], intro frame,
      rule holds_thn [OF holds_leave_block], rule holds_pop_block)

lemma pres_ParseExprStmt [frame]: "pres (ParseExprStmt P)"
  unfolding ParseExprStmt_def by (intro frame)

lemma pres_paren_expr [frame]: "pres (paren_expr P)"
  unfolding paren_expr_def by (intro frame)

lemma pres_ParseIfStmt [frame]: "pres (ParseIfStmt P)"
  unfolding ParseIfStmt_def by (intro frame)

lemma pres_ParseSwitchStmt [frame]: "pres (ParseSwitchStmt P)"
  unfolding ParseSwitchStmt_def by (intro frame)

lemma pres_ParseWhileStmt [frame]: "pres (ParseWhileStmt P)"
  unfolding ParseWhileStmt_def by (intro frame)

lemma pres_ParseDoWhileStmt [frame]: "pres (ParseDoWhileStmt P)"
  unfolding ParseDoWhileStmt_def by (intro frame)

lemma pres_for_clause [frame]: "pres (for_clause P stop)"
  unfolding for_clause_def by (intro frame)

lemma pres_ParseForStmt [frame]: "pres (ParseForStmt E P)"
  unfolding ParseForStmt_def ExitBlock_def
  apply (rule pres_holds)
  apply (rule holds_thn [OF holds_kept], rule frame)
  apply (rule holds_thn [OF holds_kept], rule frame)
  apply (rule holds_thn [OF holds_EnterBlock])
  apply (rule holds_bnd [OF holds_inside], intro frame)
  apply (rule holds_bnd [OF holds_inside], intro frame)
  apply (rule holds_bnd [OF holds_inside], intro frame)
  apply (rule holds_prod)
  apply (rule holds_bnd [OF holds_inside], intro frame)
  apply (rule holds_bnd [OF holds_inside], intro frame)
  apply (rule holds_bnd [OF holds_inside], intro frame)
  apply (rule holds_thn [OF holds_leave], rule holds_kept, intro frame)
  done

lemma pres_ParseGotoStmt [frame]: "pres (ParseGotoStmt E)"
  unfolding ParseGotoStmt_def by (intro frame pres_modify) simp

lemma pres_ParseContinueStmt [frame]: "pres (ParseContinueStmt)"
  unfolding ParseContinueStmt_def by (intro frame)

lemma pres_ParseBreakStmt [frame]: "pres (ParseBreakStmt)"
  unfolding ParseBreakStmt_def by (intro frame)

lemma pres_ParseReturnStmt [frame]: "pres (ParseReturnStmt P)"
  unfolding ParseReturnStmt_def by (intro frame)

lemma pres_ParseStmt [frame]: "pres (ParseStmt E P)"
  unfolding ParseStmt_def by (intro frame)

lemmas framed_functions = pres_ParseExpr pres_ParseAssignExpr pres_ParseConditionExpr pres_ParseCastExpr pres_ParseUnaryExpr
  pres_ParseTypeName pres_ParseCompoundStmt pres_ParseStmt pres_ParseDecl pres_ParseDeclSpec pres_ParseDeclarator
  pres_ParseDirectDeclaratorTail pres_ParseInitializer pres_ParseConstantInitializer

end

subsection \<open>The parser\<close>

lemma parser_framed: "framed_calls (parser_at E n)"
proof (induction n)
  case 0
  show ?case by unfold_locales (simp_all add: failing_def frame)
next
  case (Suc n)
  show ?case
    by unfold_locales (simp_all add: calls_def framed_calls.framed_functions [OF Suc] pres_bnd pres_basic)
qed

interpretation framed_parser: framed_calls "parser_at E n" for E n
  by (rule parser_framed)

text \<open>In the definition of a function.\<close>

definition in_func :: "'c pstate \<Rightarrow> 'c pstate \<Rightarrow> bool" where
  "in_func s0 s \<longleftrightarrow> rest_kept s0 s \<and> p_scope s = p_scope s0"

lemma holds_in_func: "pres m \<Longrightarrow> holds (in_func s0) m (in_func s0)"
  by (erule holds_pres) (auto simp: in_func_def kept_def intro: rest_kept_trans)

lemma holds_EnterFunc: "holds (kept s0) (EnterFunc i) (in_func s0)"
  by (auto simp: holds_def EnterFunc_def run in_func_def kept_def rest_kept_def result_simps split: if_splits)

lemma holds_ExitFunc: "p_func s0 = None \<Longrightarrow> holds (in_func s0) ExitFunc (kept s0)"
  by (auto simp: holds_def ExitFunc_def run in_func_def kept_def rest_kept_def)

lemma pres_SetBody_gotos [frame]: "pres (SetBody E i)" "pres resolve_gotos"
  unfolding SetBody_def resolve_gotos_def by (intro frame pres_modify; simp)+

lemma holds_ParseFuncDef:
  "p_func s0 = None \<Longrightarrow> holds (kept s0) (ParseFuncDef E (parser_at E n) d) (kept s0)"
  unfolding ParseFuncDef_def
  apply (rule holds_bnd [OF holds_kept], rule frame)
  apply (rule holds_bnd [OF holds_kept], rule frame)
  apply (rule holds_if, rule holds_Error)
  apply (rule holds_thn [OF holds_EnterFunc])
  apply (rule holds_bnd [OF holds_in_func], rule framed_parser.pres_ParseCompoundStmt)
  apply (rule holds_thn [OF holds_in_func], rule frame)
  apply (rule holds_thn [OF holds_ExitFunc], assumption)
  apply (rule holds_kept, intro frame)
  done

lemma holds_function:
  assumes "p_func s0 = None"
  shows "holds (kept s0) (case stmts of [SDecl d] \<Rightarrow> bnd (ParseFuncDef E (parser_at E n) d) (\<lambda>f. ret (Some f))
     | _ \<Rightarrow> Error m) (kept s0)"
  using holds_bnd [OF holds_ParseFuncDef [OF assms] holds_kept, of "\<lambda>f. ret (Some f)"]
  by (auto split: list.split stmt.split intro: holds_Error frame)

lemma holds_ParseExternalDecl:
  assumes "p_func s0 = None"
  shows "holds (kept s0) (ParseExternalDecl E (parser_at E n)) (kept s0)"
  unfolding ParseExternalDecl_def
  apply (rule holds_bnd [OF holds_kept], rule framed_parser.pres_ParseDecl)
  subgoal for ext
    apply (cases ext; simp)
     apply (rule holds_kept, rule frame)
    apply (rule holds_thn [OF holds_kept], rule frame)
    apply (rule holds_thn [OF holds_kept], rule framed_parser.pres_TryParseAttributeSpec)
    apply (rule holds_bnd [OF holds_kept], rule frame)
    apply (rule holds_if, rule holds_function [OF assms])
    apply (rule holds_kept, intro frame)
    done
  done

lemma holds_sum: "(\<And>x. holds A (f x) B) \<Longrightarrow> (\<And>x. holds A (g x) B) \<Longrightarrow> holds A (case r of Inl x \<Rightarrow> f x | Inr x \<Rightarrow> g x) B"
  by (cases r) auto

lemma holds_ret: "holds A (ret x) A"
  by (simp add: holds_def run)

lemma holds_repeat: "(\<And>a. holds A (body a) A) \<Longrightarrow> holds A (repeatP n body a) A"
proof (induction n arbitrary: a)
  case 0
  show ?case by (simp add: holds_def run)
next
  case (Suc n)
  show ?case unfolding repeatP.simps
    by (rule holds_bnd [OF Suc.prems], rule holds_sum, rule Suc.IH [OF Suc.prems], rule holds_ret)
qed

lemma holds_looped:
  assumes "\<And>a. holds A (body a) A"
  shows "holds A (looped body a) A"
  using holds_repeat [of A body, OF assms] unfolding holds_def looped_def by blast

lemma holds_TranslationUnit:
  assumes "p_func s0 = None"
  shows "holds (kept s0) (ParseTranslationUnit E n) (kept s0)"
  unfolding ParseTranslationUnit_def
  by (rule holds_looped, rule holds_bnd [OF holds_kept], rule frame, rule holds_if, rule holds_kept, rule frame,
      rule holds_bnd [OF holds_ParseExternalDecl [OF assms]], rule holds_kept, rule frame)

text \<open>
  C7. A statement that was parsed leaves the parser in the scope, the function and the open blocks it
  was parsed in: scopes that were entered have been left, also in bodies of loops, in initialisers and in statement
  expressions inside of it; only the innermost open block may have received declarations.
\<close>

theorem statement_keeps_frame:
  assumes "r_Stmt (parser_at E n) s = Inr (st, s')"
  shows "p_tokens s' = p_tokens s \<and> p_scope s' = p_scope s \<and> p_func s' = p_func s \<and> p_indexs s' = p_indexs s
    \<and> length (p_blocks s') = length (p_blocks s) \<and> tl (p_blocks s') = tl (p_blocks s)"
  using framed_parser.framed(8) [of E n] assms by (simp add: pres_def kept_def rest_kept_def)

text \<open>
  C18. A translation unit that was parsed leaves the parser in the scope it began in, outside any
  function, with the blocks open that were open, the path of initialisers and the tokens as they were.
\<close>

theorem unit_keeps_frame:
  assumes "ParseTranslationUnit E n s = Inr (ds, s')" and "p_func s = None"
  shows "p_tokens s' = p_tokens s \<and> p_scope s' = p_scope s \<and> p_func s' = None \<and> p_indexs s' = p_indexs s
    \<and> length (p_blocks s') = length (p_blocks s) \<and> tl (p_blocks s') = tl (p_blocks s)"
proof -
  have "kept s s'"
    using holds_TranslationUnit [OF assms(2), of E n] assms(1) kept_refl [of s] unfolding holds_def by blast
  then show ?thesis using assms(2) by (simp add: kept_def rest_kept_def)
qed

subsubsection \<open>Samples\<close>

text \<open>The block \<open>{ ; }\<close> inside a block.\<close>

definition frame_token :: "tag \<Rightarrow> token" where
  "frame_token g = \<lparr>tok_tag = g, tok_str = [], tok_loc = Location_init\<rparr>"

definition frame_state :: "unit pstate" where
  "frame_state = (Parser_init (map frame_token [Tag_kLeftBrace, Tag_kSemicolon, Tag_kRightBrace, Tag_kEof]))\<lparr>p_blocks := [[]]\<rparr>"

lemma semicolon_statement:
  assumes "ahead s = t # rest" and "TagIs t Tag_kSemicolon"
  shows "ParseStmt E P s = Inr (SExpr None, advance 1 s)"
  using assms by (simp add: ParseStmt_def run TryParseAttributeSpec_def ParseExprStmt_def TagIs_def)

lemma r_Stmt_Suc: "r_Stmt (parser_at E (Suc n)) = ParseStmt E (parser_at E n)"
  by (simp add: calls_def)

lemma block_statement:
  assumes "ahead s = t # rest" and "TagIs t Tag_kLeftBrace"
  shows "ParseStmt E P s = bindE (ParseCompoundStmt E P None s) (\<lambda>(ss, s'). Inr (SCompound ss, s'))"
  using assms by (simp add: ParseStmt_def run TryParseAttributeSpec_def TagIs_def case_prod_beta)

lemma frame_sample:
  "\<exists>s'. r_Stmt (parser_at E 2) frame_state = Inr (SCompound [SExpr None], s') \<and> p_index s' = 3"
proof -
  obtain P where P: "P = parser_at E (Suc 0)" by simp
  have stmt: "r_Stmt P s = Inr (SExpr None, advance 1 s)" if "ahead s = frame_token Tag_kSemicolon # rest" for s :: "unit pstate" and rest
    using that semicolon_statement [of s "frame_token Tag_kSemicolon" rest] unfolding P r_Stmt_Suc by (simp add: frame_token_def TagIs_def)
  have tokens: "ahead frame_state = map frame_token [Tag_kLeftBrace, Tag_kSemicolon, Tag_kRightBrace, Tag_kEof]"
    by (simp add: ahead_def frame_state_def Parser_init_def)
  obtain s0 where s0: "EnterBlock None (advance 1 frame_state) = Inr ((), s0)" "ahead s0 = ahead (advance 1 frame_state)"
    "p_blocks s0 = [[]]" "parent (scope_at (h_scopes (p_heap s0)) (p_scope s0)) = Some 0" "p_index s0 = 1"
    by (simp add: run EnterBlock_def EnterScope_def on_heap_def Scope_Get_def Let_def ahead_def frame_state_def
        Parser_init_def empty_heap_def file_scopes_def)
  have decl: "IsDecl E (frame_token Tag_kSemicolon) s = Inr (False, s)" for s :: "unit pstate"
    by (simp add: IsDecl_def IsDeclSpec_def IsTypeSpecQual_def names_type_def IsIdentifier_def frame_token_def run)
  have tags: "TagIs (frame_token g) g' = (g = g')" for g g' by (simp add: TagIs_def frame_token_def)
  have ahead_blocks: "ahead (s\<lparr>p_blocks := bs\<rparr>) = ahead s" for s :: "unit pstate" and bs by (simp add: ahead_def)
  have "\<exists>s'. ParseCompoundStmt E P None frame_state = Inr ([SExpr None], s') \<and> p_index s' = 3"
    using s0 tokens
    by (simp add: ParseCompoundStmt_def run tags push_block_def ahead_blocks decl stmt add_stmt_def AddStmt_def ExitBlock_def LeaveScope_def
        GetParent_def pop_block_def)
  then show ?thesis
    using tokens unfolding numeral_2_eq_2 r_Stmt_Suc P [symmetric] by (auto simp: block_statement tags)
qed

theorem statement_keeps_frame_witness:
  "\<forall>E :: unit env. \<exists>s'. r_Stmt (parser_at E 2) frame_state = Inr (SCompound [SExpr None], s')
    \<and> p_scope s' = 0 \<and> p_index s' = 3 \<and> length (p_blocks s') = 1"
proof
  fix E :: "unit env"
  obtain s' where s': "r_Stmt (parser_at E 2) frame_state = Inr (SCompound [SExpr None], s')" "p_index s' = 3"
    using frame_sample by blast
  with statement_keeps_frame [OF s'(1)]
  show "\<exists>s'. r_Stmt (parser_at E 2) frame_state = Inr (SCompound [SExpr None], s')
    \<and> p_scope s' = 0 \<and> p_index s' = 3 \<and> length (p_blocks s') = 1"
    by (auto simp: frame_state_def Parser_init_def)
qed

text \<open>The translation unit \<open>int ;\<close>.\<close>

definition unit_state :: "unit pstate" where
  "unit_state = Parser_init (map frame_token [Tag_kInt, Tag_kSemicolon, Tag_kEof])"

lemma unit_sample: "\<exists>s'. ParseTranslationUnit E 1 unit_state = Inr ([], s')"
proof -
  have tokens: "ahead unit_state = map frame_token [Tag_kInt, Tag_kSemicolon, Tag_kEof]"
    by (simp add: ahead_def unit_state_def Parser_init_def)
  have tags: "TagIs (frame_token g) g' = (g = g')" for g g' by (simp add: TagIs_def frame_token_def)
  have "c_type_of [Tag_kInt] = Some (ArithT kInt)" "kcc_order [Tag_kInt]" by code_simp+
  then have "r_DeclSpec (parser_at E 1) (Some 0) (Some 0) (Some 0) unit_state =
      Inr (((ArithT kInt, 0), Some 0, Some 0, Some 0), advance 1 unit_state)"
    using ParseDeclSpec_lists [of "[frame_token Tag_kInt]" unit_state "frame_token Tag_kSemicolon" "[frame_token Tag_kEof]" E
        "parser_at E 0" "Some 0" "Some 0" "Some 0"] tokens
    by (simp add: calls_def frame_token_def spec_order_def ends_specs_def other_specs_def storage_specs_def qual_specs_def func_specs_def)
  then have "ParseExternalDecl E (parser_at E 1) unit_state = Inr (None, advance (Suc (Suc 0)) unit_state)"
    using tokens by (simp add: ParseExternalDecl_def ParseDecl_def bnd_run TryTok_run tags ret_def del: parser_at.simps)
  then show ?thesis
    using tokens by (simp add: ParseTranslationUnit_def run HasNextTok_def tags del: parser_at.simps)
qed

theorem unit_keeps_frame_witness:
  "\<forall>E :: unit env. \<exists>s'. ParseTranslationUnit E 1 unit_state = Inr ([], s') \<and> p_scope s' = 0 \<and> p_func s' = None"
proof
  fix E :: "unit env"
  obtain s' where s': "ParseTranslationUnit E 1 unit_state = Inr ([], s')"
    using unit_sample by blast
  with unit_keeps_frame [OF s'] show "\<exists>s'. ParseTranslationUnit E 1 unit_state = Inr ([], s') \<and> p_scope s' = 0 \<and> p_func s' = None"
    by (auto simp: unit_state_def Parser_init_def)
qed

end
