(* ===== verification/Kcc_InitProps.thy ===== *)
theory Kcc_InitProps
  imports Kcc_Cursor
begin

text \<open>
  Properties of the initialisers of objects of automatic storage: a member designator in the list
  of an array of arrays is read over and over.
\<close>

lemma ahead_fields [simp]:
  "ahead (s\<lparr>p_indexs := is\<rparr>) = ahead s" "ahead (s\<lparr>p_heap := h\<rparr>) = ahead s"
  by (simp_all add: ahead_def)

lemma pstate_indexs [simp]: "s\<lparr>p_indexs := p_indexs s\<rparr> = s"
  by simp

text \<open>The inner list puts the comma back.\<close>

lemma inner_array_puts_back:
  assumes "ahead s = t # rest" and "TagIs t Tag_kPeriod" and "p_index s = Suc i"
  shows "ParseArrayInitializer E P inits ty False s = Inr (inits, s\<lparr>p_index := i\<rparr>)"
  using assms by (simp add: ParseArrayInitializer_def array_turn_def run at_right_brace_def TestOneOf_def TagIs_def PutBackTok_def)

lemma inner_initializer:
  assumes ah: "ahead s = t # rest" and t: "TagIs t Tag_kPeriod" and i: "p_index s = Suc i"
    and c: "arr_complete (arrays (h_types (p_heap s)) a)"
  shows "ParseInitializer E P inits (ArrayT a et eq, q) False False s = Inr ((None, inits), s\<lparr>p_index := i\<rparr>)"
proof -
  have "ParseLiteralInitializer E (ArrayT a et eq) True s = Inr (None, s)"
    using ah t by (simp add: ParseLiteralInitializer_def run array_elem_def TagIs_def)
  moreover have "set_complete E (ArrayT a et eq) (s\<lparr>p_index := i\<rparr>) = Inr ((), s\<lparr>p_index := i\<rparr>)"
  proof -
    have "(arrays (h_types (p_heap s)))(a := (arrays (h_types (p_heap s)) a)\<lparr>arr_complete := True\<rparr>) = arrays (h_types (p_heap s))"
      using c by (auto simp: fun_eq_iff)
    then show ?thesis by (simp add: set_complete_def upd_heap_def)
  qed
  ultimately show ?thesis
    using ah t i inner_array_puts_back [OF ah t i]
    by (simp add: ParseInitializer_def Let_def run expect_equal_def TestOneOf_def)
qed

text \<open>A turn of the outer list, at a designator behind a comma: only the number of the element has changed.\<close>

lemma outer_array_turn:
  assumes ah: "ahead s = t # rest" and t: "TagIs t Tag_kPeriod" and i: "p_index s = Suc i" "i < length (p_tokens s)"
    and comma: "TagIs (p_tokens s ! i) Tag_kComma"
    and ty: "ty = ArrayT b (ArrayT a et eq) q" and c: "arr_complete (arrays (h_types (p_heap s)) a)" "arr_complete (arrays (h_types (p_heap s)) b)"
  shows "array_turn E (parser_at E (Suc n)) True ty (index, False, inits) s = Inr (Inl (size_t (index + 1), False, inits), s)"
proof -
  let ?s = "s\<lparr>p_indexs := p_indexs s @ [(ty, int32 index, 0, 0)]\<rparr>"
  have inner: "r_Initializer (parser_at E (Suc n)) inits (ArrayT a et eq, q) False False ?s = Inr ((None, inits), ?s\<lparr>p_index := i\<rparr>)"
    using inner_initializer [of ?s t rest i a] ah t i c(1) by (simp add: calls_def del: parser_at.simps) (simp add: calls_def)
  have "ahead (s\<lparr>p_index := i\<rparr>) = p_tokens s ! i # ahead s"
    using i by (simp add: ahead_def Cons_nth_drop_Suc)
  moreover have "advance 1 (s\<lparr>p_index := i\<rparr>) = s"
    using i(1) by (simp add: advance_def)
  moreover have "complete ty (s\<lparr>p_index := i\<rparr>) = Inr (True, s\<lparr>p_index := i\<rparr>)"
    using ty c(2) by (simp add: complete_def run)
  moreover have "with_index (ty, int32 index, 0, 0) (r_Initializer (parser_at E (Suc n)) inits (ArrayT a et eq, q) False False) s
      = Inr ((None, inits), s\<lparr>p_index := i\<rparr>)"
    using inner by (simp add: with_index_def run del: parser_at.simps)
  moreover have "array_elem ty s = Inr ((ArrayT a et eq, q), s)"
    using ty by (simp add: array_elem_def run)
  moreover have "array_designator E (parser_at E (Suc n)) ty index s = Inr ((index, False), s)"
    using ah t by (simp add: array_designator_def run TagIs_def del: parser_at.simps)
  ultimately show ?thesis
    using ah t comma
    by (simp add: array_turn_def at_right_brace_def TestOneOf_def grow_array_def Let_def run TagIs_def del: parser_at.simps)
qed

text \<open>
  C19. A member designator behind a comma in the braces of an array of arrays is never read: the inner
  list puts the comma back, the outer one takes it for the next element and stands at the same token
  again. However often the loop of \<open>ParseArrayInitializer\<close> is repeated, it does not end.
\<close>

theorem nested_array_initializer_hangs:
  assumes "ahead s = t # rest" and "TagIs t Tag_kPeriod" and "p_index s = Suc i" and "i < length (p_tokens s)"
    and "TagIs (p_tokens s ! i) Tag_kComma"
    and "ty = ArrayT b (ArrayT a et eq) q" and "IsComplete (h_types (p_heap s)) ty"
    and "IsComplete (h_types (p_heap s)) (ArrayT a et eq)"
  shows "repeatP turns (array_turn E (parser_at E (Suc n)) True ty) (index, False, inits) s = Inl Out_Of_Fuel"
proof (induction turns arbitrary: index)
  case (Suc turns)
  have "array_turn E (parser_at E (Suc n)) True ty (index, False, inits) s = Inr (Inl (size_t (index + 1), False, inits), s)"
    using outer_array_turn [OF assms(1-6)] assms(6-8) by simp
  with Suc.IH [of "size_t (index + 1)"] show ?case by (simp add: bnd_run del: parser_at.simps)
qed (simp add: run)

text \<open>\<open>int a[2][2] = { 1, .x\<close> from the period on.\<close>

definition hang_state :: "unit pstate" where
  "hang_state = (Parser_init (map (\<lambda>g. \<lparr>tok_tag = g, tok_str = [], tok_loc = Location_init\<rparr>)
     [Tag_kComma, Tag_kPeriod, Tag_kIdentifier, Tag_kEof]))\<lparr>p_index := 1,
     p_heap := empty_heap\<lparr>h_types := empty_types\<lparr>arrays := (\<lambda>_. \<lparr>num_elements = Some 2, arr_complete = True\<rparr>)\<rparr>\<rparr>\<rparr>"

theorem nested_array_initializer_hangs_witness:
  "\<forall>(E :: unit env) turns. repeatP turns (array_turn E (parser_at E 1) True (ArrayT 0 (ArrayT 1 (ArithT kInt) 0) 0))
     (1, False, []) hang_state = Inl Out_Of_Fuel"
proof (intro allI)
  fix E :: "unit env" and turns
  show "repeatP turns (array_turn E (parser_at E 1) True (ArrayT 0 (ArrayT 1 (ArithT kInt) 0) 0)) (1, False, []) hang_state = Inl Out_Of_Fuel"
    using nested_array_initializer_hangs [of hang_state "p_tokens hang_state ! 1" "drop 2 (p_tokens hang_state)" 0
        "ArrayT 0 (ArrayT 1 (ArithT kInt) 0) 0" 0 1 "ArithT kInt" 0 0 turns E 0 1 "[]"]
    by (simp add: hang_state_def Parser_init_def ahead_def TagIs_def del: parser_at.simps)
qed

end
