(* ===== verification/Kcc_Builder.thy ===== *)
theory Kcc_Builder
  imports Kcc_ParseStmt
begin

text \<open>
  The state of the code generator, the class \<open>CodeGen\<close> of \<open>src/code_gen.h\<close>, and the part of it
  that handles basic blocks (\<open>src/code_gen.cpp\<close>), with the conversions of values in
  \<open>src/llvm_common.cpp\<close>.

  The output is kept as data: a basic block is the list of its instructions, each with its
  number, a function is the list of its blocks, the module is the list of functions and global
  variables. Blocks and instructions are numbered from one counter; a pointer to one of them is
  its number. An instruction made while the builder has no insertion point belongs to no
  block and is kept in \<open>cg_loose\<close>: its operands count as uses.

  LLVM itself is a parameter: next to the functions on constants (\<open>llvm\<close> of \<open>Kcc_Constant\<close>) the
  record \<open>ir\<close> holds what \<open>llvm::IRBuilder\<close> decides for an instruction. \<open>ir_fold\<close> is the value it
  returns instead of a new instruction (constant folding, a conversion to the same type), if
  there is one, and \<open>ir_type\<close> is the type of the instruction's result; \<open>ir_isOne\<close> is
  \<open>Constant::isOneValue\<close>, \<open>ir_inf\<close> the infinity of a type and \<open>ir_literal\<close> the pointer to a new
  variable for a compound literal. The debug information is
  left out: the model is of a run without \<open>-g\<close>, where the functions \<open>TryEmit...\<close> do nothing.
\<close>

subsection \<open>Values and instructions\<close>

datatype 'c val =
    Const 'c
  | Reg nat ltype
  | Param nat ltype

datatype 'c instr =
    I_Bin binop "'c val" "'c val"
  | I_Neg bool "'c val"
  | I_FNeg "'c val"
  | I_Not "'c val"
  | I_Cmp cmp_pred "'c val" "'c val"
  | I_Cast castop "'c val" ltype
  | I_BitCast "'c val" ltype
  | I_GEP bool "'c val" "'c val list"
  | I_StructGEP "'c val" int
  | I_Select "'c val" "'c val" "'c val"
  | I_Load "'c val" bool
  | I_Store "'c val" "'c val" bool
  | I_Alloca ltype int
  | I_AllocaN ltype "'c val"
  | I_Call "'c val" "'c val list"
  | I_MemSet "'c val" "'c val" int int bool
  | I_MemCpy "'c val" int "'c val" int int bool
  | I_Fence
  | I_Phi ltype "('c val \<times> nat) list"
  | I_Undef
  | I_Br nat
  | I_CondBr "'c val" nat nat
  | I_Switch "'c val" nat "(int \<times> nat) list"
  | I_Ret "'c val"
  | I_RetVoid

type_synonym 'c block = "(nat \<times> 'c instr) list"

record 'c ir =
  ir_type :: "'c instr \<Rightarrow> ltype"
  ir_fold :: "'c instr \<Rightarrow> 'c val option"
  ir_isOne :: "'c \<Rightarrow> bool"
  ir_inf :: "ltype \<Rightarrow> 'c"
  ir_literal :: "nat \<Rightarrow> 'c"

fun isTerminator :: "'c instr \<Rightarrow> bool" where
  "isTerminator (I_Br _) = True"
| "isTerminator (I_CondBr _ _ _) = True"
| "isTerminator (I_Switch _ _ _) = True"
| "isTerminator (I_Ret _) = True"
| "isTerminator I_RetVoid = True"
| "isTerminator _ = False"

text \<open>The blocks an instruction is a use of, one entry for each use.\<close>

fun successors :: "'c instr \<Rightarrow> nat list" where
  "successors (I_Br b) = [b]"
| "successors (I_CondBr _ b c) = [b, c]"
| "successors (I_Switch _ d cs) = d # map snd cs"
| "successors _ = []"

text \<open>
  \<open>replaceAllUsesWith\<close>; the blocks named in phi nodes follow. LLVM asserts that the new value is not
  the old one.
\<close>

definition redirect :: "nat \<Rightarrow> nat \<Rightarrow> nat \<Rightarrow> nat" where
  "redirect b b' c = (if c = b then b' else c)"

fun replace_block :: "nat \<Rightarrow> nat \<Rightarrow> 'c instr \<Rightarrow> 'c instr" where
  "replace_block b b' (I_Br c) = I_Br (redirect b b' c)"
| "replace_block b b' (I_CondBr v c d) = I_CondBr v (redirect b b' c) (redirect b b' d)"
| "replace_block b b' (I_Switch v d cs) = I_Switch v (redirect b b' d) (map (\<lambda>(i, c). (i, redirect b b' c)) cs)"
| "replace_block b b' (I_Phi t vs) = I_Phi t (map (\<lambda>(v, c). (v, redirect b b' c)) vs)"
| "replace_block b b' i = i"

text \<open>\<open>SwitchInst::addCase\<close> and \<open>PHINode::addIncoming\<close>.\<close>

fun add_case :: "int \<Rightarrow> nat \<Rightarrow> 'c instr \<Rightarrow> 'c instr" where
  "add_case v b (I_Switch c d cs) = I_Switch c d (cs @ [(v, b)])"
| "add_case v b i = i"

fun add_incoming :: "'c val \<Rightarrow> nat \<Rightarrow> 'c instr \<Rightarrow> 'c instr" where
  "add_incoming v b (I_Phi t vs) = I_Phi t (vs @ [(v, b)])"
| "add_incoming v b i = i"

fun default_dest :: "'c instr \<Rightarrow> nat option" where
  "default_dest (I_Switch _ d _) = Some d"
| "default_dest _ = None"

subsection \<open>State\<close>

datatype gv_linkage = ExternalLinkage | InternalLinkage | CommonLinkage

record 'c gvar =
  gv_name :: string
  gv_type :: ltype
  gv_const :: bool
  gv_linkage :: gv_linkage
  gv_init :: "'c option"
  gv_dso_local :: bool
  gv_align :: int

record 'c cg =
  cg_block :: "nat \<Rightarrow> 'c block"
  cg_order :: "nat list"
  cg_loose :: "'c block"
  cg_next :: nat
  cg_at :: "nat option"
  cg_result :: "'c val option"
  alloc_insert_point :: "(nat \<times> nat) option"
  load_struct :: bool
  break_continue_stack :: "(nat \<times> nat option) list"
  labels :: "(string \<times> nat) list"
  switch_inst :: "nat option"
  func :: "'c option"
  return_block :: "nat option"
  return_value :: "'c val option"
  is_bit_field :: bool
  bit_field :: "nat option"
  is_volatile :: bool
  ignore_assign_result :: bool
  local_ptr :: "nat \<Rightarrow> 'c val option"
  cg_literals :: nat
  global_var_map :: "(string \<times> 'c) list"
  cg_globals :: "('c \<times> 'c gvar) list"
  module_funcs :: "(string \<times> 'c) list"
  bodies_done :: "(string \<times> (nat \<times> 'c block) list) list"

record 'c genv =
  g_llvm :: "'c llvm"
  g_ir :: "'c ir"
  g_dl :: data_layout
  g_heap :: heap
  g_decls :: "nat \<Rightarrow> 'c decl_cell"
  g_obj_decl :: "nat \<Rightarrow> nat option"

type_synonym ('c, 'a) gen = "('c cg, 'a) action"

definition val_type :: "'c genv \<Rightarrow> 'c val \<Rightarrow> ltype" where
  "val_type G v = (case v of Const c \<Rightarrow> getType (g_llvm G) c | Reg _ t \<Rightarrow> t | Param _ t \<Rightarrow> t)"

definition const_int :: "'c genv \<Rightarrow> ltype \<Rightarrow> int \<Rightarrow> 'c val" where
  "const_int G t v = Const (get_int (g_llvm G) t v)"

abbreviation getInt1 :: "'c genv \<Rightarrow> int \<Rightarrow> 'c val" where "getInt1 G v \<equiv> const_int G (LInt 1) v"
abbreviation getInt32 :: "'c genv \<Rightarrow> int \<Rightarrow> 'c val" where "getInt32 G v \<equiv> const_int G (LInt 32) v"
abbreviation getInt64 :: "'c genv \<Rightarrow> int \<Rightarrow> 'c val" where "getInt64 G v \<equiv> const_int G (LInt 64) v"

definition set_result :: "'c val \<Rightarrow> ('c, unit) gen" where
  "set_result v = modify (\<lambda>s. s\<lparr>cg_result := Some v\<rparr>)"

definition result_of :: "('c, 'c val) gen" where
  "result_of = getsE (\<lambda>s. case cg_result s of None \<Rightarrow> Inl Null_Deref | Some v \<Rightarrow> Inr v)"

definition llvm_type :: "'c genv \<Rightarrow> ctype \<Rightarrow> ('c, ltype) gen" where
  "llvm_type G t = liftR (GetLLVMType (h_types (g_heap G)) t)"

subsection \<open>The builder\<close>

text \<open>\<open>Insert\<close>: a new instruction goes to the end of the block that is the insertion point.\<close>

definition insert_instr :: "'c instr \<Rightarrow> ('c, nat) gen" where
  "insert_instr i = (\<lambda>s. let n = cg_next s; s' = s\<lparr>cg_next := Suc n\<rparr> in
     Inr (n, case cg_at s of
         Some b \<Rightarrow> s'\<lparr>cg_block := (cg_block s)(b := cg_block s b @ [(n, i)])\<rparr>
       | None \<Rightarrow> s'\<lparr>cg_loose := cg_loose s @ [(n, i)]\<rparr>))"

definition emit :: "'c genv \<Rightarrow> 'c instr \<Rightarrow> ('c, 'c val) gen" where
  "emit G i = bnd (insert_instr i) (\<lambda>n. ret (Reg n (ir_type (g_ir G) i)))"

definition put_instr :: "'c instr \<Rightarrow> ('c, unit) gen" where
  "put_instr i = thn (insert_instr i) (ret ())"

definition build :: "'c genv \<Rightarrow> 'c instr \<Rightarrow> ('c, 'c val) gen" where
  "build G i = (case ir_fold (g_ir G) i of Some v \<Rightarrow> ret v | None \<Rightarrow> emit G i)"

definition GetInsertBlock :: "('c, nat option) gen" where
  "GetInsertBlock = gets cg_at"

definition SetInsertPoint :: "nat \<Rightarrow> ('c, unit) gen" where
  "SetInsertPoint b = modify (\<lambda>s. s\<lparr>cg_at := Some b\<rparr>)"

definition ClearInsertionPoint :: "('c, unit) gen" where
  "ClearInsertionPoint = modify (\<lambda>s. s\<lparr>cg_at := None\<rparr>)"

definition getTerminator :: "'c cg \<Rightarrow> nat \<Rightarrow> 'c instr option" where
  "getTerminator s b = (if cg_block s b \<noteq> [] \<and> isTerminator (snd (last (cg_block s b)))
     then Some (snd (last (cg_block s b))) else None)"

text \<open>Every instruction that exists.\<close>

definition all_instrs :: "'c cg \<Rightarrow> (nat \<times> 'c instr) list" where
  "all_instrs s = cg_loose s @ concat (map (cg_block s) [0..<cg_next s])"

definition use_empty :: "'c cg \<Rightarrow> nat \<Rightarrow> bool" where
  "use_empty s b = list_all (\<lambda>(_, i). b \<notin> set (successors i)) (all_instrs s)"

text \<open>The blocks that branch to \<open>b\<close>, one entry for each use.\<close>

definition predecessors :: "'c cg \<Rightarrow> nat \<Rightarrow> nat list" where
  "predecessors s b = concat (map (\<lambda>a. concat (map (\<lambda>(_, i).
     map (\<lambda>_. a) (filter (\<lambda>c. c = b) (successors i))) (cg_block s a))) [0..<cg_next s])"

definition on_instrs :: "('c instr \<Rightarrow> 'c instr) \<Rightarrow> 'c cg \<Rightarrow> 'c cg" where
  "on_instrs f s = s\<lparr>cg_block := (\<lambda>b. map (\<lambda>(n, i). (n, f i)) (cg_block s b)),
     cg_loose := map (\<lambda>(n, i). (n, f i)) (cg_loose s)\<rparr>"

definition replaceAllUsesWith :: "nat \<Rightarrow> nat \<Rightarrow> ('c, unit) gen" where
  "replaceAllUsesWith b b' = thn (assertP (b \<noteq> b')) (modify (on_instrs (replace_block b b')))"

text \<open>A change of the instruction with the number \<open>n\<close>.\<close>

definition on_instr :: "nat \<Rightarrow> ('c instr \<Rightarrow> 'c instr) \<Rightarrow> ('c, unit) gen" where
  "on_instr n f = modify (\<lambda>s. s\<lparr>cg_block := (\<lambda>b. map (\<lambda>(m, i). (m, if m = n then f i else i)) (cg_block s b)),
     cg_loose := map (\<lambda>(m, i). (m, if m = n then f i else i)) (cg_loose s)\<rparr>)"

definition find_instr :: "'c cg \<Rightarrow> nat \<Rightarrow> 'c instr option" where
  "find_instr s n = map_of (all_instrs s) n"

subsection \<open>Basic blocks\<close>

definition CreateBasicBlock :: "('c, nat) gen" where
  "CreateBasicBlock = (\<lambda>s. Inr (cg_next s, s\<lparr>cg_next := Suc (cg_next s)\<rparr>))"

definition EmitBranch :: "nat \<Rightarrow> ('c, unit) gen" where
  "EmitBranch target = bnd GetInsertBlock (\<lambda>curr. thn
     (case curr of None \<Rightarrow> ret ()
      | Some b \<Rightarrow> bnd (gets (\<lambda>s. getTerminator s b)) (\<lambda>t. if t = None then put_instr (I_Br target) else ret ()))
     ClearInsertionPoint)"

text \<open>
  Linking a block into a function a second time fails an assertion of LLVM's lists. A number that no
  block has is no pointer to a block.
\<close>

definition link_block :: "nat \<Rightarrow> ('c, unit) gen" where
  "link_block bb = bnd (getsE (\<lambda>s. if bb < cg_next s then Inr (bb \<in> set (cg_order s)) else Inl Null_Deref)) (\<lambda>placed. thn (assertP (\<not> placed))
     (modify (\<lambda>s. s\<lparr>cg_order := cg_order s @ [bb]\<rparr>)))"

definition EmitBlock :: "nat \<Rightarrow> bool \<Rightarrow> ('c, unit) gen" where
  "EmitBlock bb is_finished = thn (EmitBranch bb) (bnd (gets (\<lambda>s. use_empty s bb)) (\<lambda>unused.
     if is_finished \<and> unused then ret ()
     else thn (link_block bb) (SetInsertPoint bb)))"

definition HaveInsertPoint :: "('c, bool) gen" where
  "HaveInsertPoint = bnd GetInsertBlock (\<lambda>b. ret (b \<noteq> None))"

definition EnsureInsertPoint :: "('c, unit) gen" where
  "EnsureInsertPoint = bnd HaveInsertPoint (\<lambda>b.
     if \<not> b then bnd CreateBasicBlock (\<lambda>bb. EmitBlock bb False) else ret ())"

text \<open>
  \<open>getTerminator\<close> of an open block is null, which \<open>dyn_cast\<close> does not accept. The block is taken
  out of the function with all that is in it.
\<close>

definition SimplifyForwardingBlocks :: "nat \<Rightarrow> ('c, unit) gen" where
  "SimplifyForwardingBlocks bb = bnd (gets (\<lambda>s. getTerminator s bb)) (\<lambda>t. case t of
       None \<Rightarrow> failP Assert_Fail
     | Some (I_Br succ) \<Rightarrow> thn (replaceAllUsesWith bb succ)
         (modify (\<lambda>s. s\<lparr>cg_order := remove1 bb (cg_order s), cg_block := (cg_block s)(bb := [])\<rparr>))
     | Some _ \<Rightarrow> ret ())"

definition EmitBranchThroughCleanup :: "nat option \<Rightarrow> ('c, unit) gen" where
  "EmitBranchThroughCleanup dest = bnd HaveInsertPoint (\<lambda>b. if \<not> b then ret ()
     else case dest of None \<Rightarrow> failP Null_Deref
       | Some d \<Rightarrow> thn (put_instr (I_Br d)) ClearInsertionPoint)"

definition GetBasicBlockForLabel :: "string \<Rightarrow> ('c, nat) gen" where
  "GetBasicBlockForLabel name = bnd (gets (\<lambda>s. map_of (labels s) name)) (\<lambda>b. case b of
       Some bb \<Rightarrow> ret bb
     | None \<Rightarrow> bnd CreateBasicBlock (\<lambda>bb.
         thn (modify (\<lambda>s. s\<lparr>labels := (name, bb) # labels s\<rparr>)) (ret bb)))"

text \<open>An \<open>alloca\<close> goes in front of the instruction that marks the place in the entry block.\<close>

primrec insert_before :: "nat \<Rightarrow> nat \<times> 'c instr \<Rightarrow> 'c block \<Rightarrow> 'c block" where
  "insert_before n i [] = []"
| "insert_before n i (x # xs) = (if fst x = n then i # x # xs else x # insert_before n i xs)"

definition CreateEntryBlockAlloca :: "'c genv \<Rightarrow> ltype \<Rightarrow> int \<Rightarrow> ('c, 'c val) gen" where
  "CreateEntryBlockAlloca G t align = bnd (getsE (\<lambda>s. case alloc_insert_point s of None \<Rightarrow> Inl Null_Deref | Some p \<Rightarrow> Inr p))
     (\<lambda>(entry, mark). \<lambda>s. let n = cg_next s; i = I_Alloca t align in
          Inr (Reg n (ir_type (g_ir G) i), s\<lparr>cg_next := Suc n,
            cg_block := (cg_block s)(entry := insert_before mark (n, i) (cg_block s entry))\<rparr>))"

definition PushBlock :: "nat \<Rightarrow> nat option \<Rightarrow> ('c, unit) gen" where
  "PushBlock brk cont = modify (\<lambda>s. s\<lparr>break_continue_stack := (brk, cont) # break_continue_stack s\<rparr>)"

definition PopBlock :: "('c, unit) gen" where
  "PopBlock = modify (\<lambda>s. s\<lparr>break_continue_stack := tl (break_continue_stack s)\<rparr>)"

definition TestAndClearIgnoreAssignResult :: "('c, bool) gen" where
  "TestAndClearIgnoreAssignResult = bnd (gets ignore_assign_result) (\<lambda>r.
     thn (modify (\<lambda>s. s\<lparr>ignore_assign_result := False\<rparr>)) (ret r))"

definition SetIgnoreAssignResult :: "('c, unit) gen" where
  "SetIgnoreAssignResult = modify (\<lambda>s. s\<lparr>ignore_assign_result := True\<rparr>)"

subsection \<open>Conversions of values\<close>

definition GetZero :: "'c genv \<Rightarrow> ltype \<Rightarrow> 'c val result" where
  "GetZero G t =
     (if lt_isIntegerTy t then Inr (const_int G t 0)
      else if lt_isFloatingPointTy t then Inr (Const (fp_zero (g_llvm G) t))
      else if lt_isPointerTy t then Inr (Const (null_pointer (g_llvm G) t))
      else Inl Assert_Fail)"

definition CastToBool :: "'c genv \<Rightarrow> 'c val \<Rightarrow> ('c, 'c val) gen" where
  "CastToBool G v = (let t = val_type G v in
     if t = LInt 1 then ret v
     else if lt_isIntegerTy t \<or> lt_isPointerTy t
     then bnd (liftR (GetZero G t)) (\<lambda>z. build G (I_Cmp ICMP_NE v z))
     else if lt_isFloatingPointTy t
     then bnd (liftR (GetZero G t)) (\<lambda>z. build G (I_Cmp FCMP_ONE v z))
     else Error ''this constant expression can not cast to bool'')"

text \<open>\<open>CreateZExtOrTrunc\<close> and \<open>CreateSExtOrTrunc\<close>.\<close>

definition ext_or_trunc :: "'c genv \<Rightarrow> castop \<Rightarrow> 'c val \<Rightarrow> ltype \<Rightarrow> ('c, 'c val) gen" where
  "ext_or_trunc G ext v to = (let t = val_type G v in
     if lt_bits t < lt_bits to then build G (I_Cast ext v to)
     else if lt_bits t > lt_bits to then build G (I_Cast C_Trunc v to)
     else ret v)"

definition CastTo :: "'c genv \<Rightarrow> 'c val \<Rightarrow> ltype \<Rightarrow> bool \<Rightarrow> ('c, 'c val) gen" where
  "CastTo G v to is_unsigned = (let t = val_type G v in
     if to = LInt 1 then CastToBool G v
     else if lt_isIntegerTy t \<and> lt_isIntegerTy to
     then ext_or_trunc G (if is_unsigned then C_ZExt else C_SExt) v to
     else if lt_isIntegerTy t \<and> lt_isFloatingPointTy to
     then build G (I_Cast (if is_unsigned then C_UIToFP else C_SIToFP) v to)
     else if lt_isFloatingPointTy t \<and> lt_isIntegerTy to
     then build G (I_Cast (if is_unsigned then C_FPToUI else C_FPToSI) v to)
     else if lt_isFloatingPointTy t \<and> lt_isFloatingPointTy to
     then bnd (liftR (FloatPointRank t)) (\<lambda>r. bnd (liftR (FloatPointRank to)) (\<lambda>r'.
            build G (I_Cast (if r > r' then C_FPTrunc else C_FPExtend) v to)))
     else if lt_isPointerTy t \<and> lt_isIntegerTy to then build G (I_Cast C_PtrToInt v to)
     else if lt_isIntegerTy t \<and> lt_isPointerTy to then build G (I_Cast C_IntToPtr v to)
     else if to = LVoid \<or> t = to then ret v
     else if IsArrCastToPtr t to then build G (I_GEP True v [getInt64 G 0, getInt64 G 0])
     else if lt_isPointerTy t \<and> lt_isPointerTy to then build G (I_Cast C_PointerCast v to)
     else Error ''can not cast this expression with type'')"

end
