(* ===== verification/Kcc_GenExpr.thy ===== *)
theory Kcc_GenExpr
  imports Kcc_Builder
begin

text \<open>
  Code generation for expressions: the visitors and operators of \<open>src/code_gen_expr.cpp\<close>, with
  \<open>EvaluateExprAsBool\<close>, \<open>EmitBranchOnBoolExpr\<close> and \<open>GetPtr\<close> of \<open>src/code_gen.cpp\<close> and the global
  variables of \<open>src/llvm_common.cpp\<close> and \<open>src/ast.cpp\<close>.

  The visitors call each other through the record \<open>visitors\<close>, which \<open>Kcc_GenStmt\<close> ties with a
  bound on the depth. A visitor leaves its value in \<open>result_\<close>, here \<open>cg_result\<close>; where the source
  assigns \<open>result_\<close> for an intermediate value and assigns it again before anyone reads it, the
  model names the value only.
\<close>

record 'c visitors =
  v_expr :: "expr \<Rightarrow> ('c, unit) gen"
  v_stmt :: "stmt \<Rightarrow> ('c, unit) gen"
  v_ptr :: "expr \<Rightarrow> ('c, 'c val) gen"
  v_branch :: "expr \<Rightarrow> nat \<Rightarrow> nat \<Rightarrow> ('c, unit) gen"

abbreviation type_of :: "'c genv \<Rightarrow> expr \<Rightarrow> ctype" where
  "type_of G e \<equiv> GetType (g_heap G) e"

abbreviation obj :: "'c genv \<Rightarrow> nat \<Rightarrow> object" where
  "obj G n \<equiv> h_objs (g_heap G) n"

definition expr_unsigned :: "'c genv \<Rightarrow> expr \<Rightarrow> bool" where
  "expr_unsigned G e = IsUnsigned (type_of G e)"

text \<open>The value of a sub-expression.\<close>

definition value_of :: "'c visitors \<Rightarrow> expr \<Rightarrow> ('c, 'c val) gen" where
  "value_of P e = thn (v_expr P e) result_of"

definition calc :: "'c genv \<Rightarrow> expr \<Rightarrow> ('c, 'c option) gen" where
  "calc G e = liftR (Calc (g_llvm G) (g_dl G) (g_heap G) e)"

text \<open>\<open>Load_Struct_Obj\<close> and \<open>Finish_Load\<close>.\<close>

definition with_struct :: "('c, 'a) gen \<Rightarrow> ('c, 'a) gen" where
  "with_struct m = bnd (gets load_struct) (\<lambda>backup. thn (modify (\<lambda>s. s\<lparr>load_struct := True\<rparr>))
     (bnd m (\<lambda>x. thn (modify (\<lambda>s. s\<lparr>load_struct := backup\<rparr>)) (ret x))))"

definition set_volatile :: "bool \<Rightarrow> ('c, unit) gen" where
  "set_volatile b = modify (\<lambda>s. s\<lparr>is_volatile := b\<rparr>)"

definition CreateLoad :: "'c genv \<Rightarrow> 'c val \<Rightarrow> ('c, 'c val) gen" where
  "CreateLoad G p = bnd (gets is_volatile) (\<lambda>v. emit G (I_Load p v))"

definition CreateStore :: "'c val \<Rightarrow> 'c val \<Rightarrow> ('c, unit) gen" where
  "CreateStore v p = bnd (gets is_volatile) (\<lambda>vol. put_instr (I_Store v p vol))"

subsection \<open>Operators\<close>

definition CodeGen_NegOp :: "'c genv \<Rightarrow> 'c val \<Rightarrow> bool \<Rightarrow> ('c, 'c val) gen" where
  "CodeGen_NegOp G v is_unsigned = (let t = val_type G v in
     if lt_isIntegerTy t then build G (I_Neg (\<not> is_unsigned) v)
     else if lt_isFloatingPointTy t then build G (I_FNeg v)
     else failP Assert_Fail)"

definition CodeGen_LogicNotOp :: "'c genv \<Rightarrow> 'c val \<Rightarrow> ('c, 'c val) gen" where
  "CodeGen_LogicNotOp G v = bnd (CastToBool G v) (\<lambda>b. bnd (build G (I_Not b)) (\<lambda>n.
     build G (I_Cast C_ZExt n (LInt 32))))"

definition CodeGen_AddOp :: "'c genv \<Rightarrow> 'c val \<Rightarrow> 'c val \<Rightarrow> bool \<Rightarrow> ('c, 'c val) gen" where
  "CodeGen_AddOp G lhs rhs is_unsigned = (let t = val_type G lhs in
     if lt_isIntegerTy t then build G (I_Bin (if is_unsigned then O_Add else O_NSWAdd) lhs rhs)
     else if lt_isFloatingPointTy t then build G (I_Bin O_FAdd lhs rhs)
     else if lt_isPointerTy t then build G (I_GEP True lhs [rhs])
     else failP Assert_Fail)"

definition CodeGen_DivOp :: "'c genv \<Rightarrow> 'c val \<Rightarrow> 'c val \<Rightarrow> bool \<Rightarrow> ('c, 'c val) gen" where
  "CodeGen_DivOp G lhs rhs is_unsigned = (let t = val_type G lhs in
     if lt_isIntegerTy t then build G (I_Bin (if is_unsigned then O_UDiv else O_SDiv) lhs rhs)
     else if lt_isFloatingPointTy t then build G (I_Bin O_FDiv lhs rhs)
     else failP Assert_Fail)"

text \<open>The difference of two pointers converts both to \<open>i64\<close> and calls itself on the integers.\<close>

definition CodeGen_SubOp_int :: "'c genv \<Rightarrow> 'c val \<Rightarrow> 'c val \<Rightarrow> bool \<Rightarrow> ('c, 'c val) gen" where
  "CodeGen_SubOp_int G lhs rhs is_unsigned = build G (I_Bin (if is_unsigned then O_Sub else O_NSWSub) lhs rhs)"

definition CodeGen_SubOp :: "'c genv \<Rightarrow> 'c val \<Rightarrow> 'c val \<Rightarrow> bool \<Rightarrow> ('c, 'c val) gen" where
  "CodeGen_SubOp G lhs rhs is_unsigned = (let t = val_type G lhs; t' = val_type G rhs in
     if lt_isIntegerTy t then CodeGen_SubOp_int G lhs rhs is_unsigned
     else if lt_isFloatingPointTy t then build G (I_Bin O_FSub lhs rhs)
     else if lt_isPointerTy t \<and> lt_isIntegerTy t'
     then bnd (build G (I_Neg False rhs)) (\<lambda>n. build G (I_GEP True lhs [n]))
     else if lt_isPointerTy t \<and> lt_isPointerTy t'
     then bnd (liftR (pointee t)) (\<lambda>el. bnd (CastTo G lhs (LInt 64) True) (\<lambda>l.
          bnd (CastTo G rhs (LInt 64) True) (\<lambda>r. bnd (CodeGen_SubOp_int G l r True) (\<lambda>d.
            CodeGen_DivOp G d (getInt64 G (alloc_size (g_dl G) (bodies (h_types (g_heap G))) el)) True))))
     else failP Assert_Fail)"

definition CodeGen_MulOp :: "'c genv \<Rightarrow> 'c val \<Rightarrow> 'c val \<Rightarrow> bool \<Rightarrow> ('c, 'c val) gen" where
  "CodeGen_MulOp G lhs rhs is_unsigned = (let t = val_type G lhs in
     if lt_isIntegerTy t then build G (I_Bin (if is_unsigned then O_Mul else O_NSWMul) lhs rhs)
     else if lt_isFloatingPointTy t then build G (I_Bin O_FMul lhs rhs)
     else failP Assert_Fail)"

definition CodeGen_ModOp :: "'c genv \<Rightarrow> 'c val \<Rightarrow> 'c val \<Rightarrow> bool \<Rightarrow> ('c, 'c val) gen" where
  "CodeGen_ModOp G lhs rhs is_unsigned = build G (I_Bin (if is_unsigned then O_URem else O_SRem) lhs rhs)"

definition CodeGen_OrOp :: "'c genv \<Rightarrow> 'c val \<Rightarrow> 'c val \<Rightarrow> ('c, 'c val) gen" where
  "CodeGen_OrOp G lhs rhs = build G (I_Bin O_Or lhs rhs)"

definition CodeGen_AndOp :: "'c genv \<Rightarrow> 'c val \<Rightarrow> 'c val \<Rightarrow> ('c, 'c val) gen" where
  "CodeGen_AndOp G lhs rhs = build G (I_Bin O_And lhs rhs)"

definition CodeGen_XorOp :: "'c genv \<Rightarrow> 'c val \<Rightarrow> 'c val \<Rightarrow> ('c, 'c val) gen" where
  "CodeGen_XorOp G lhs rhs = build G (I_Bin O_Xor lhs rhs)"

definition CodeGen_ShlOp :: "'c genv \<Rightarrow> 'c val \<Rightarrow> 'c val \<Rightarrow> ('c, 'c val) gen" where
  "CodeGen_ShlOp G lhs rhs = build G (I_Bin O_Shl lhs rhs)"

definition CodeGen_ShrOp :: "'c genv \<Rightarrow> 'c val \<Rightarrow> 'c val \<Rightarrow> bool \<Rightarrow> ('c, 'c val) gen" where
  "CodeGen_ShrOp G lhs rhs is_unsigned = build G (I_Bin (if is_unsigned then O_LShr else O_AShr) lhs rhs)"

definition compare_to_int :: "'c genv \<Rightarrow> cmp_pred \<Rightarrow> 'c val \<Rightarrow> 'c val \<Rightarrow> ('c, 'c val) gen" where
  "compare_to_int G p lhs rhs = bnd (build G (I_Cmp p lhs rhs)) (\<lambda>v. build G (I_Cast C_ZExt v (LInt 32)))"

text \<open>The ordering operators share their shape: the predicates for unsigned and signed integers and floats.\<close>

definition CodeGen_order :: "'c genv \<Rightarrow> cmp_pred \<Rightarrow> cmp_pred \<Rightarrow> cmp_pred \<Rightarrow> 'c val \<Rightarrow> 'c val \<Rightarrow> bool \<Rightarrow> ('c, 'c val) gen" where
  "CodeGen_order G up sp fp lhs rhs is_unsigned = (let t = val_type G lhs in
     if lt_isIntegerTy t then compare_to_int G (if is_unsigned then up else sp) lhs rhs
     else if lt_isFloatingPointTy t then compare_to_int G fp lhs rhs
     else if lt_isPointerTy t then compare_to_int G up lhs rhs
     else failP Assert_Fail)"

definition CodeGen_LessEqualOp :: "'c genv \<Rightarrow> 'c val \<Rightarrow> 'c val \<Rightarrow> bool \<Rightarrow> ('c, 'c val) gen" where
  "CodeGen_LessEqualOp G = CodeGen_order G ICMP_ULE ICMP_SLE FCMP_OLE"

definition CodeGen_LessOp :: "'c genv \<Rightarrow> 'c val \<Rightarrow> 'c val \<Rightarrow> bool \<Rightarrow> ('c, 'c val) gen" where
  "CodeGen_LessOp G = CodeGen_order G ICMP_ULT ICMP_SLT FCMP_OLT"

definition CodeGen_GreaterEqualOp :: "'c genv \<Rightarrow> 'c val \<Rightarrow> 'c val \<Rightarrow> bool \<Rightarrow> ('c, 'c val) gen" where
  "CodeGen_GreaterEqualOp G = CodeGen_order G ICMP_UGE ICMP_SGE FCMP_OGE"

definition CodeGen_GreaterOp :: "'c genv \<Rightarrow> 'c val \<Rightarrow> 'c val \<Rightarrow> bool \<Rightarrow> ('c, 'c val) gen" where
  "CodeGen_GreaterOp G = CodeGen_order G ICMP_UGT ICMP_SGT FCMP_OGT"

definition CodeGen_equality :: "'c genv \<Rightarrow> cmp_pred \<Rightarrow> cmp_pred \<Rightarrow> 'c val \<Rightarrow> 'c val \<Rightarrow> ('c, 'c val) gen" where
  "CodeGen_equality G ip fp lhs rhs = (let t = val_type G lhs in
     if lt_isIntegerTy t \<or> lt_isPointerTy t then compare_to_int G ip lhs rhs
     else if lt_isFloatingPointTy t then compare_to_int G fp lhs rhs
     else failP Assert_Fail)"

definition CodeGen_EqualOp :: "'c genv \<Rightarrow> 'c val \<Rightarrow> 'c val \<Rightarrow> ('c, 'c val) gen" where
  "CodeGen_EqualOp G = CodeGen_equality G ICMP_EQ FCMP_OEQ"

definition CodeGen_NotEqualOp :: "'c genv \<Rightarrow> 'c val \<Rightarrow> 'c val \<Rightarrow> ('c, 'c val) gen" where
  "CodeGen_NotEqualOp G = CodeGen_equality G ICMP_NE FCMP_ONE"

subsection \<open>Bit-fields\<close>

text \<open>The integer arguments of \<open>CreateAnd\<close> and of the shifts take the type of the left operand.\<close>

definition CodeGen_GetBitField :: "'c genv \<Rightarrow> 'c val \<Rightarrow> nat \<Rightarrow> nat \<Rightarrow> nat \<Rightarrow> ('c, 'c val) gen" where
  "CodeGen_GetBitField G v sz wd bgn = bnd (liftR (outside_mask sz wd bgn)) (\<lambda>m.
     build G (I_Bin O_And v (const_int G (val_type G v) m)))"

definition CodeGen_GetBitFieldValue :: "'c genv \<Rightarrow> 'c val \<Rightarrow> nat \<Rightarrow> nat \<Rightarrow> nat \<Rightarrow> bool \<Rightarrow> ('c, 'c val) gen" where
  "CodeGen_GetBitFieldValue G v sz wd bgn is_unsigned =
     bnd (build G (I_Bin O_Shl v (const_int G (val_type G v) (int sz - (int bgn + int wd))))) (\<lambda>v.
       build G (I_Bin (if is_unsigned then O_LShr else O_AShr) v (const_int G (val_type G v) (int sz - int wd))))"

definition the_bit_field :: "('c, nat) gen" where
  "the_bit_field = getsE (\<lambda>s. case bit_field s of None \<Rightarrow> Inl Null_Deref | Some n \<Rightarrow> Inr n)"

definition field_size :: "'c genv \<Rightarrow> nat \<Rightarrow> nat" where
  "field_size G n = (if IsCharacterTy (fst (obj_type (obj G n))) then 8 else 32)"

definition field_value :: "'c genv \<Rightarrow> nat \<Rightarrow> 'c val \<Rightarrow> ('c, 'c val) gen" where
  "field_value G n v = CodeGen_GetBitFieldValue G v (field_size G n) (nat (bit_field_width (obj G n)))
     (nat (bit_field_begin (obj G n))) (IsUnsigned (fst (obj_type (obj G n))))"

definition leave_bit_field :: "('c, unit) gen" where
  "leave_bit_field = modify (\<lambda>s. s\<lparr>is_bit_field := False, bit_field := None\<rparr>)"

subsection \<open>Global variables and functions\<close>

definition HasConstantInit :: "'c decl_cell \<Rightarrow> bool" where
  "HasConstantInit d \<longleftrightarrow> d_constant d \<noteq> None \<or> d_value_init d"

definition HasLocalInit :: "'c decl_cell \<Rightarrow> bool" where
  "HasLocalInit d \<longleftrightarrow> d_inits d \<noteq> [] \<or> d_value_init d"

definition GetDecl :: "'c genv \<Rightarrow> nat \<Rightarrow> kcc_error \<Rightarrow> ('c, 'c decl_cell) gen" where
  "GetDecl G n e = (case g_obj_decl G n of None \<Rightarrow> failP e | Some d \<Rightarrow> ret (g_decls G d))"

definition upd_global :: "'c \<Rightarrow> ('c gvar \<Rightarrow> 'c gvar) \<Rightarrow> ('c, unit) gen" where
  "upd_global p f = modify (\<lambda>s. s\<lparr>cg_globals := map (\<lambda>(q, v). (q, if q = p then f v else v)) (cg_globals s)\<rparr>)"

text \<open>The variable of that name, made when there is none.\<close>

definition named_global :: "'c genv \<Rightarrow> string \<Rightarrow> nat \<Rightarrow> 'c gvar \<Rightarrow> ('c, 'c) gen" where
  "named_global G name n v = bnd (gets (\<lambda>s. map_of (global_var_map s) name)) (\<lambda>p. case p of
       Some p \<Rightarrow> ret p
     | None \<Rightarrow> (let p = global_ptr (g_llvm G) n in
         thn (modify (\<lambda>s. s\<lparr>global_var_map := (name, p) # global_var_map s, cg_globals := cg_globals s @ [(p, v)]\<rparr>)) (ret p)))"

definition set_global_init :: "'c genv \<Rightarrow> 'c \<Rightarrow> nat \<Rightarrow> 'c decl_cell \<Rightarrow> ('c, unit) gen" where
  "set_global_init G p n d =
     (if HasConstantInit d then upd_global p (\<lambda>v. v\<lparr>gv_init := d_constant d\<rparr>)
      else if \<not> obj_IsExtern (obj G n)
      then bnd (llvm_type G (fst (obj_type (obj G n)))) (\<lambda>l. bnd (liftR (GetConstantZero (g_llvm G) l)) (\<lambda>z.
             upd_global p (\<lambda>v. v\<lparr>gv_init := Some z\<rparr>)))
      else ret ())"

definition set_global_align :: "'c genv \<Rightarrow> 'c \<Rightarrow> nat \<Rightarrow> ('c, unit) gen" where
  "set_global_align G p n = bnd (liftR (GetAlign (g_dl G) (h_types (g_heap G)) (fst (obj_type (obj G n))))) (\<lambda>a.
     upd_global p (\<lambda>v. v\<lparr>gv_align := a\<rparr>))"

definition CreateGlobalVar :: "'c genv \<Rightarrow> nat \<Rightarrow> ('c, 'c) gen" where
  "CreateGlobalVar G n = (let ob = obj G n in
     bnd (GetDecl G n Assert_Fail) (\<lambda>d. bnd (llvm_type G (fst (obj_type ob))) (\<lambda>l.
     let lk = (if obj_IsStatic ob then InternalLinkage else if obj_IsExtern ob then ExternalLinkage
               else if \<not> HasConstantInit d then CommonLinkage else ExternalLinkage) in
     bnd (named_global G (obj_name ob) n \<lparr>gv_name = obj_name ob, gv_type = l, gv_const = QualType_IsConst (obj_type ob),
            gv_linkage = lk, gv_init = None, gv_dso_local = False, gv_align = 0\<rparr>) (\<lambda>p.
     thn (if \<not> obj_IsStatic ob \<and> \<not> obj_IsExtern ob then upd_global p (\<lambda>v. v\<lparr>gv_dso_local := True\<rparr>) else ret ())
     (thn (set_global_align G p n) (thn (set_global_init G p n d) (ret p)))))))"

text \<open>
  An anonymous object is a compound literal: every call makes a new variable. A static variable of
  a function is named after both.
\<close>

definition GetGlobalPtr :: "'c genv \<Rightarrow> nat \<Rightarrow> ('c, 'c) gen" where
  "GetGlobalPtr G n = (let ob = obj G n in
     if anonymous ob then bnd (GetDecl G n Null_Deref) (\<lambda>d. bnd (llvm_type G (fst (obj_type ob))) (\<lambda>l.
       bnd (gets cg_literals) (\<lambda>k. let p = ir_literal (g_ir G) k in
       thn (modify (\<lambda>s. s\<lparr>cg_literals := Suc k, cg_globals := cg_globals s @ [(p, \<lparr>gv_name = ''.compoundliteral'',
              gv_type = l, gv_const = QualType_IsConst (obj_type ob), gv_linkage = InternalLinkage,
              gv_init = d_constant d, gv_dso_local = False, gv_align = 0\<rparr>)]\<rparr>))
       (thn (set_global_align G p n) (thn (set_global_init G p n d) (ret p))))))
     else if IsGlobalVar ob then CreateGlobalVar G n
     else if IsLocalStaticVar ob then thn (assertP (obj_func_name ob \<noteq> []))
       (let name = obj_func_name ob @ ''.'' @ obj_name ob in
        bnd (llvm_type G (fst (obj_type ob))) (\<lambda>l. bnd (liftR (GetConstantZero (g_llvm G) l)) (\<lambda>z.
        bnd (named_global G name n \<lparr>gv_name = name, gv_type = l, gv_const = False, gv_linkage = InternalLinkage,
              gv_init = Some z, gv_dso_local = False, gv_align = 0\<rparr>) (\<lambda>p.
        bnd (GetDecl G n Null_Deref) (\<lambda>d.
        thn (set_global_align G p n) (thn (set_global_init G p n d) (ret p)))))))
     else failP Assert_Fail)"

definition GetLocalPtr :: "nat \<Rightarrow> ('c, 'c val) gen" where
  "GetLocalPtr n = getsE (\<lambda>s. case local_ptr s n of None \<Rightarrow> Inl Assert_Fail | Some p \<Rightarrow> Inr p)"

definition SetLocalPtr :: "nat \<Rightarrow> 'c val \<Rightarrow> ('c, unit) gen" where
  "SetLocalPtr n p = bnd (gets (\<lambda>s. local_ptr s n)) (\<lambda>old. thn (assertP (old = None))
     (modify (\<lambda>s. s\<lparr>local_ptr := (local_ptr s)(n := Some p)\<rparr>)))"

definition object_ptr :: "'c genv \<Rightarrow> nat \<Rightarrow> ('c, 'c val) gen" where
  "object_ptr G n = (if IsGlobalVar (obj G n) \<or> IsLocalStaticVar (obj G n)
     then bnd (GetGlobalPtr G n) (\<lambda>p. ret (Const p)) else GetLocalPtr n)"

text \<open>\<open>Module->getFunction\<close>, and a function of the module when there is none of the name.\<close>

definition module_func :: "string \<Rightarrow> 'c \<Rightarrow> ('c, 'c) gen" where
  "module_func name f = bnd (gets (\<lambda>s. map_of (module_funcs s) name)) (\<lambda>g. case g of
       Some g \<Rightarrow> ret g
     | None \<Rightarrow> thn (modify (\<lambda>s. s\<lparr>module_funcs := module_funcs s @ [(name, f)]\<rparr>)) (ret f))"

end
