(* ===== verification/Kcc_GenVisit.thy ===== *)
theory Kcc_GenVisit
  imports Kcc_GenExpr
begin

text \<open>
  The visitors of expressions (\<open>src/code_gen_expr.cpp\<close>) over the operators of \<open>Kcc_GenExpr\<close>, and
  the functions of \<open>src/code_gen.cpp\<close> on expressions: \<open>EvaluateExprAsBool\<close>,
  \<open>EmitBranchOnBoolExpr\<close> and \<open>GetPtr\<close>.
\<close>

subsection \<open>Conditions\<close>

definition EvaluateExprAsBool :: "'c genv \<Rightarrow> 'c visitors \<Rightarrow> expr \<Rightarrow> ('c, 'c val) gen" where
  "EvaluateExprAsBool G P e = thn (v_expr P e) (bnd (gets cg_result) (\<lambda>r. case r of
       None \<Rightarrow> failP Assert_Fail
     | Some v \<Rightarrow> CastToBool G v))"

definition branch_on_value :: "'c genv \<Rightarrow> 'c visitors \<Rightarrow> expr \<Rightarrow> nat \<Rightarrow> nat \<Rightarrow> ('c, unit) gen" where
  "branch_on_value G P e t f = bnd (EvaluateExprAsBool G P e) (\<lambda>v. put_instr (I_CondBr v t f))"

definition EmitBranchOnBoolExpr :: "'c genv \<Rightarrow> 'c visitors \<Rightarrow> expr \<Rightarrow> nat \<Rightarrow> nat \<Rightarrow> ('c, unit) gen" where
  "EmitBranchOnBoolExpr G P e true_block false_block = (case e of
       EBinary op l r _ \<Rightarrow>
         (if op = Tag_kAmpAmp then bnd CreateBasicBlock (\<lambda>lhs_true.
            thn (v_branch P l lhs_true false_block) (thn (EmitBlock lhs_true False)
              (v_branch P r true_block false_block)))
          else if op = Tag_kPipePipe then bnd CreateBasicBlock (\<lambda>lhs_false.
            thn (v_branch P l true_block lhs_false) (thn (EmitBlock lhs_false False)
              (v_branch P r true_block false_block)))
          else branch_on_value G P e true_block false_block)
     | EUnary op u _ \<Rightarrow>
         (if op = Tag_kExclaim then v_branch P u false_block true_block
          else branch_on_value G P e true_block false_block)
     | ECond c l r _ \<Rightarrow> bnd CreateBasicBlock (\<lambda>lhs_block. bnd CreateBasicBlock (\<lambda>rhs_block.
         thn (v_branch P c lhs_block rhs_block)
         (thn (EmitBlock lhs_block False) (thn (v_branch P l true_block false_block)
         (thn (EmitBlock rhs_block False) (v_branch P r true_block false_block))))))
     | _ \<Rightarrow> branch_on_value G P e true_block false_block)"

fun is_constant_expr :: "expr \<Rightarrow> bool" where
  "is_constant_expr (EInt _ _) = True"
| "is_constant_expr (EFloat _ _) = True"
| "is_constant_expr _ = False"

definition IsCheapEnoughToEvaluateUnconditionally :: "expr \<Rightarrow> bool" where
  "IsCheapEnoughToEvaluateUnconditionally e = is_constant_expr e"

subsection \<open>Places\<close>

text \<open>One step of the path to a member.\<close>

definition member_step :: "'c genv \<Rightarrow> ctype \<times> int \<Rightarrow> 'c val \<Rightarrow> ('c, 'c val) gen" where
  "member_step G = (\<lambda>(t, index) p. case t of
       StructT True _ \<Rightarrow> build G (I_StructGEP p index)
     | StructT False s \<Rightarrow> bnd (liftR (StructGetMemberType (g_heap G) s (nat index))) (\<lambda>q.
         bnd (llvm_type G (fst q)) (\<lambda>l. build G (I_BitCast p (LPtr l))))
     | _ \<Rightarrow> failP Assert_Fail)"

definition field_pointer :: "'c genv \<Rightarrow> nat \<Rightarrow> 'c val \<Rightarrow> ('c, 'c val) gen" where
  "field_pointer G n p = bnd (gets is_bit_field) (\<lambda>b. if b
     then build G (I_BitCast p (LPtr (if IsBoolTy (fst (obj_type (obj G n))) then LInt 8 else LInt 32)))
     else ret p)"

definition GetPtr :: "'c genv \<Rightarrow> 'c visitors \<Rightarrow> expr \<Rightarrow> ('c, 'c val) gen" where
  "GetPtr G P e = (case e of
       EIdent (Object _ n) \<Rightarrow> thn (set_volatile (QualType_IsVolatile (obj_type (obj G n)))) (object_ptr G n)
     | EIdent (Ident _ _ _ _) \<Rightarrow> value_of P e
     | EUnary op u _ \<Rightarrow> thn (assertP (op = Tag_kStar)) (value_of P u)
     | EBinary op l r _ \<Rightarrow>
         (if op = Tag_kPeriod then bnd (v_ptr P l) (\<lambda>p. case r of
              EIdent (Object _ n) \<Rightarrow>
                (let ob = obj G n in
                 thn (if QualType_IsVolatile (obj_type ob) then set_volatile True else ret ())
                 (thn (if bit_field_width ob \<noteq> 0 then modify (\<lambda>s. s\<lparr>is_bit_field := True, bit_field := Some n\<rparr>) else ret ())
                 (bnd (foldP (member_step G) (indexs ob) p) (field_pointer G n))))
            | _ \<Rightarrow> failP Assert_Fail)
          else if op = Tag_kEqual then thn SetIgnoreAssignResult (value_of P e)
          else failP Assert_Fail)
     | _ \<Rightarrow> failP Assert_Fail)"

subsection \<open>Assignment\<close>

text \<open>What \<open>Assign\<close> returns: the pointer, or the value read back.\<close>

definition Assign :: "'c genv \<Rightarrow> 'c val \<Rightarrow> 'c val \<Rightarrow> bool \<Rightarrow> ('c, 'c val) gen" where
  "Assign G lhs_ptr rhs is_unsigned = bnd (gets is_bit_field) (\<lambda>b. if b then
     bnd the_bit_field (\<lambda>n. let ob = obj G n in
     bnd (CreateLoad G lhs_ptr) (\<lambda>old.
     bnd (CodeGen_GetBitField G old (field_size G n) (nat (bit_field_width ob)) (nat (bit_field_begin ob))) (\<lambda>kept.
     bnd (build G (I_Bin O_Shl rhs (const_int G (val_type G rhs) (bit_field_begin ob)))) (\<lambda>shifted.
     bnd (CastTo G shifted (LInt 32) is_unsigned) (\<lambda>wide.
     bnd (build G (I_Bin O_Or kept wide)) (\<lambda>new.
     thn (set_result new) (thn (CreateStore new lhs_ptr)
     (bnd TestAndClearIgnoreAssignResult (\<lambda>ignore.
       if \<not> ignore then bnd (CreateLoad G lhs_ptr) (\<lambda>v. bnd (field_value G n v) (\<lambda>v'.
         thn (set_result v') (thn leave_bit_field (thn (set_volatile False) (ret v')))))
       else thn leave_bit_field (thn (set_volatile False) (ret lhs_ptr)))))))))))
   else thn (CreateStore rhs lhs_ptr)
     (bnd TestAndClearIgnoreAssignResult (\<lambda>ignore.
       if \<not> ignore then bnd (CreateLoad G lhs_ptr) (\<lambda>v.
         thn (set_result v) (thn (set_volatile False) (ret v)))
       else thn (set_volatile False) (ret lhs_ptr))))"

definition AssignOp :: "'c genv \<Rightarrow> 'c visitors \<Rightarrow> expr \<Rightarrow> expr \<Rightarrow> ('c, 'c val) gen" where
  "AssignOp G P l r = bnd (with_struct (value_of P r)) (\<lambda>rhs. bnd (v_ptr P l) (\<lambda>lhs_ptr.
     Assign G lhs_ptr rhs (expr_unsigned G r)))"

definition one_of :: "'c genv \<Rightarrow> ltype \<Rightarrow> ('c, 'c val) gen" where
  "one_of G t =
     (if lt_isIntegerTy t then ret (const_int G t 1)
      else if lt_isFloatingPointTy t then ret (Const (get_fp (g_llvm G) t ''1.0''))
      else if lt_isPointerTy t then ret (getInt64 G 1)
      else failP Assert_Fail)"

definition IncOrDec :: "'c genv \<Rightarrow> 'c visitors \<Rightarrow> expr \<Rightarrow> bool \<Rightarrow> bool \<Rightarrow> ('c, 'c val) gen" where
  "IncOrDec G P e is_inc is_postfix = bnd (v_ptr P e) (\<lambda>lhs_ptr. bnd (CreateLoad G lhs_ptr) (\<lambda>v0.
     bnd (gets is_bit_field) (\<lambda>b. bnd (if b then bnd the_bit_field (\<lambda>n. field_value G n v0) else ret v0) (\<lambda>lhs_value.
     bnd (llvm_type G (type_of G e)) (\<lambda>t. bnd (one_of G t) (\<lambda>one_value.
     bnd (if is_inc then ret one_value else CodeGen_NegOp G one_value False) (\<lambda>step.
     bnd (CodeGen_AddOp G lhs_value step (expr_unsigned G e)) (\<lambda>rhs_value.
     thn (Assign G lhs_ptr rhs_value (expr_unsigned G e))
       (ret (if is_postfix then lhs_value else rhs_value))))))))))"

text \<open>\<open>Deref\<close> of a pointer that is not a sum.\<close>

definition deref_value :: "'c genv \<Rightarrow> 'c visitors \<Rightarrow> expr \<Rightarrow> qtype \<Rightarrow> ('c, 'c val) gen" where
  "deref_value G P e q = bnd (llvm_type G (type_of G e)) (\<lambda>l. if IsFuncPointer l then value_of P e
     else bnd (value_of P e) (\<lambda>p. bnd (if \<not> IsArrayTy (fst q) then CreateLoad G p else ret p) (\<lambda>v.
       thn (set_volatile False) (ret v))))"

definition Deref :: "'c genv \<Rightarrow> 'c visitors \<Rightarrow> expr \<Rightarrow> qtype \<Rightarrow> ('c, 'c val) gen" where
  "Deref G P e q = (case e of
       EBinary op l r _ \<Rightarrow> (if op = Tag_kPlus then
         bnd (value_of P l) (\<lambda>lhs. bnd (value_of P r) (\<lambda>rhs.
           if IsArrayPointer (val_type G lhs) then build G (I_GEP True lhs [rhs, getInt64 G 0])
           else bnd (build G (I_GEP True lhs [rhs])) (\<lambda>p. bnd (CreateLoad G p) (\<lambda>v.
             thn (set_volatile False) (ret v)))))
         else deref_value G P e q)
     | _ \<Rightarrow> deref_value G P e q)"

definition MemberRef :: "'c genv \<Rightarrow> 'c visitors \<Rightarrow> expr \<Rightarrow> ('c, 'c val) gen" where
  "MemberRef G P e = bnd (GetPtr G P e) (\<lambda>p. bnd (liftR (pointee (val_type G p))) (\<lambda>t.
     bnd (gets is_bit_field) (\<lambda>b. if b
       then bnd the_bit_field (\<lambda>n. bnd (CreateLoad G p) (\<lambda>v. bnd (field_value G n v) (\<lambda>v'.
              thn leave_bit_field (ret v'))))
       else bnd (gets load_struct) (\<lambda>ls.
         if (case t of LArr _ _ \<Rightarrow> True | LStruct _ \<Rightarrow> \<not> ls | _ \<Rightarrow> False) then ret p else CreateLoad G p))))"

subsection \<open>Short circuits\<close>

text \<open>A phi node at the end of a block that is not the insertion point.\<close>

definition phi_in :: "nat \<Rightarrow> ltype \<Rightarrow> ('c val \<times> nat) list \<Rightarrow> ('c, nat) gen" where
  "phi_in b t vs = (\<lambda>s. let n = cg_next s in Inr (n, s\<lparr>cg_next := Suc n,
     cg_block := (cg_block s)(b := cg_block s b @ [(n, I_Phi t vs)])\<rparr>))"

text \<open>\<open>addIncoming\<close> asserts that the block exists.\<close>

definition addIncoming :: "nat \<Rightarrow> 'c val \<Rightarrow> nat option \<Rightarrow> ('c, unit) gen" where
  "addIncoming phi v b = (case b of None \<Rightarrow> failP Assert_Fail | Some bb \<Rightarrow> on_instr phi (add_incoming v bb))"

definition as_int :: "'c genv \<Rightarrow> 'c val \<Rightarrow> ('c, 'c val) gen" where
  "as_int G v = build G (I_Cast C_ZExt v (LInt 32))"

text \<open>The part \<open>LogicOrOp\<close> and \<open>LogicAndOp\<close> have in common: \<open>known\<close> is the value on the edges from the
  left operand.\<close>

definition join_logic :: "'c genv \<Rightarrow> 'c visitors \<Rightarrow> 'c val \<Rightarrow> nat \<Rightarrow> nat \<Rightarrow> expr \<Rightarrow> ('c, 'c val) gen" where
  "join_logic G P known rhs_block end_block r =
     bnd (gets (\<lambda>s. predecessors s end_block)) (\<lambda>ps. bnd (phi_in end_block (LInt 1) (map (\<lambda>b. (known, b)) ps)) (\<lambda>phi.
     thn (EmitBlock rhs_block False) (bnd (EvaluateExprAsBool G P r) (\<lambda>rhs_value.
     bnd GetInsertBlock (\<lambda>rhs_end. thn (EmitBlock end_block False)
     (thn (addIncoming phi rhs_value rhs_end) (as_int G (Reg phi (LInt 1)))))))))"

definition CodeGen_LogicOrOp :: "'c genv \<Rightarrow> 'c visitors \<Rightarrow> expr \<Rightarrow> expr \<Rightarrow> ('c, 'c val) gen" where
  "CodeGen_LogicOrOp G P l r = bnd (calc G l) (\<lambda>c. case c of
       Some v \<Rightarrow> (if isZeroValue (g_llvm G) v then bnd (EvaluateExprAsBool G P r) (as_int G) else ret (getInt32 G 1))
     | None \<Rightarrow> bnd CreateBasicBlock (\<lambda>rhs_block. bnd CreateBasicBlock (\<lambda>end_block.
         thn (v_branch P l end_block rhs_block) (join_logic G P (getInt1 G 1) rhs_block end_block r))))"

definition CodeGen_LogicAndOp :: "'c genv \<Rightarrow> 'c visitors \<Rightarrow> expr \<Rightarrow> expr \<Rightarrow> ('c, 'c val) gen" where
  "CodeGen_LogicAndOp G P l r = bnd (calc G l) (\<lambda>c. case c of
       Some v \<Rightarrow> (if ir_isOne (g_ir G) v then bnd (EvaluateExprAsBool G P r) (as_int G) else ret (getInt32 G 0))
     | None \<Rightarrow> bnd CreateBasicBlock (\<lambda>rhs_block. bnd CreateBasicBlock (\<lambda>end_block.
         thn (v_branch P l rhs_block end_block) (join_logic G P (getInt1 G 0) rhs_block end_block r))))"

subsection \<open>Built-in functions\<close>

definition first_arg :: "expr list \<Rightarrow> ('c, expr) gen" where
  "first_arg args = (case args of [] \<Rightarrow> failP Out_Of_Range | a # _ \<Rightarrow> ret a)"

abbreviation int8_ptr :: ltype where "int8_ptr \<equiv> LPtr (LInt 8)"

definition intrinsic :: "'c genv \<Rightarrow> string \<Rightarrow> ltype \<Rightarrow> ('c, 'c val) gen" where
  "intrinsic G name t = bnd (module_func name (function_ptr (g_llvm G) name t False)) (\<lambda>f. ret (Const f))"

text \<open>\<open>VaStart\<close> and \<open>VaEnd\<close> differ in the function they call.\<close>

definition VaStartEnd :: "'c genv \<Rightarrow> 'c visitors \<Rightarrow> string \<Rightarrow> expr \<Rightarrow> ('c, 'c val) gen" where
  "VaStartEnd G P name arg = bnd (intrinsic G name (LFunc LVoid [int8_ptr] False)) (\<lambda>f. bnd (value_of P arg) (\<lambda>v.
     bnd (build G (I_BitCast v int8_ptr)) (\<lambda>p. emit G (I_Call f [p]))))"

definition VaStart :: "'c genv \<Rightarrow> 'c visitors \<Rightarrow> expr \<Rightarrow> ('c, 'c val) gen" where
  "VaStart G P arg = VaStartEnd G P ''llvm.va_start'' arg"

definition VaEnd :: "'c genv \<Rightarrow> 'c visitors \<Rightarrow> expr \<Rightarrow> ('c, 'c val) gen" where
  "VaEnd G P arg = VaStartEnd G P ''llvm.va_end'' arg"

definition VaCopy :: "'c genv \<Rightarrow> 'c visitors \<Rightarrow> expr \<Rightarrow> expr \<Rightarrow> ('c, 'c val) gen" where
  "VaCopy G P arg arg2 = bnd (intrinsic G ''llvm.va_copy'' (LFunc LVoid [int8_ptr, int8_ptr] False)) (\<lambda>f.
     bnd (value_of P arg) (\<lambda>v. bnd (value_of P arg2) (\<lambda>v2.
     bnd (build G (I_BitCast v int8_ptr)) (\<lambda>p. bnd (build G (I_BitCast v2 int8_ptr)) (\<lambda>p2.
       emit G (I_Call f [p, p2]))))))"

text \<open>A load with the default for the argument \<open>isVolatile\<close>.\<close>

definition plain_load :: "'c genv \<Rightarrow> 'c val \<Rightarrow> ('c, 'c val) gen" where
  "plain_load G p = emit G (I_Load p False)"

definition by_class :: "ltype \<Rightarrow> 'a \<Rightarrow> 'a \<Rightarrow> ('c, 'a) gen" where
  "by_class t general floating =
     (if lt_isIntegerTy t \<or> lt_isPointerTy t then ret general
      else if lt_isFloatingPointTy t then ret floating
      else failP Assert_Fail)"

definition VaArg :: "'c genv \<Rightarrow> 'c visitors \<Rightarrow> expr \<Rightarrow> ltype \<Rightarrow> ('c, 'c val) gen" where
  "VaArg G P arg t = bnd CreateBasicBlock (\<lambda>lhs_block. bnd CreateBasicBlock (\<lambda>rhs_block. bnd CreateBasicBlock (\<lambda>end_block.
     bnd (value_of P arg) (\<lambda>p. bnd (by_class t (0, 40, 8) (1, 160, 16)) (\<lambda>(i, limit, size).
     bnd (build G (I_StructGEP p i)) (\<lambda>offset_ptr. bnd (plain_load G offset_ptr) (\<lambda>offset.
     bnd (build G (I_Cmp ICMP_ULE offset (getInt32 G limit))) (\<lambda>c.
     thn (put_instr (I_CondBr c lhs_block rhs_block)) (thn (EmitBlock lhs_block False)
     (bnd (build G (I_StructGEP p 3)) (\<lambda>area_ptr. bnd (plain_load G area_ptr) (\<lambda>area.
     bnd (build G (I_GEP False area [offset])) (\<lambda>a. bnd (build G (I_BitCast a (LPtr t))) (\<lambda>result_ptr.
     bnd (build G (I_Bin O_Add offset (getInt32 G size))) (\<lambda>next.
     thn (put_instr (I_Store next offset_ptr False)) (thn (EmitBranch end_block) (thn (EmitBlock rhs_block False)
     (bnd (build G (I_StructGEP p 2)) (\<lambda>pp. bnd (plain_load G pp) (\<lambda>overflow.
     bnd (build G (I_BitCast overflow (LPtr t))) (\<lambda>result_ptr2.
     bnd (build G (I_GEP False overflow [getInt32 G 8])) (\<lambda>next2.
     thn (put_instr (I_Store next2 pp False)) (thn (EmitBranch end_block) (thn (EmitBlock end_block False)
       (emit G (I_Phi (LPtr t) [(result_ptr, lhs_block), (result_ptr2, rhs_block)]))))))))))))))))))))))))))"

definition SyncSynchronize :: "'c genv \<Rightarrow> ('c, 'c val) gen" where
  "SyncSynchronize G = emit G I_Fence"

definition Alloc :: "'c genv \<Rightarrow> 'c visitors \<Rightarrow> expr \<Rightarrow> ('c, 'c val) gen" where
  "Alloc G P arg = bnd (value_of P arg) (\<lambda>v. emit G (I_AllocaN (LInt 8) v))"

definition PopCount :: "'c genv \<Rightarrow> 'c visitors \<Rightarrow> expr \<Rightarrow> ('c, 'c val) gen" where
  "PopCount G P arg = bnd (intrinsic G ''llvm.ctpop.i32'' (LFunc (LInt 32) [LInt 32] False)) (\<lambda>f.
     bnd (value_of P arg) (\<lambda>v. emit G (I_Call f [v])))"

text \<open>\<open>Clz\<close> and \<open>Ctz\<close>: zero is undefined for the intrinsic.\<close>

definition count_zeros :: "'c genv \<Rightarrow> 'c visitors \<Rightarrow> string \<Rightarrow> expr \<Rightarrow> ('c, 'c val) gen" where
  "count_zeros G P name arg = bnd (intrinsic G name (LFunc (LInt 32) [LInt 32, LInt 1] False)) (\<lambda>f.
     bnd (value_of P arg) (\<lambda>v. emit G (I_Call f [v, getInt1 G 1])))"

definition Clz :: "'c genv \<Rightarrow> 'c visitors \<Rightarrow> expr \<Rightarrow> ('c, 'c val) gen" where
  "Clz G P arg = count_zeros G P ''llvm.ctlz.i32'' arg"

definition Ctz :: "'c genv \<Rightarrow> 'c visitors \<Rightarrow> expr \<Rightarrow> ('c, 'c val) gen" where
  "Ctz G P arg = count_zeros G P ''llvm.cttz.i32'' arg"

definition fabs_f32 :: "'c genv \<Rightarrow> ('c, 'c val) gen" where
  "fabs_f32 G = intrinsic G ''llvm.fabs.f32'' (LFunc LFloat [LFloat] False)"

definition IsInfSign :: "'c genv \<Rightarrow> 'c visitors \<Rightarrow> expr \<Rightarrow> ('c, 'c val) gen" where
  "IsInfSign G P arg = bnd (fabs_f32 G) (\<lambda>f. bnd (value_of P arg) (\<lambda>load. bnd (emit G (I_Call f [load])) (\<lambda>a.
     bnd (build G (I_Cmp FCMP_OEQ a (Const (ir_inf (g_ir G) LFloat)))) (\<lambda>mark.
     bnd (build G (I_BitCast load (LInt 32))) (\<lambda>bits. bnd (build G (I_Cmp ICMP_SLT bits (getInt32 G 0))) (\<lambda>neg.
     bnd (build G (I_Select neg (getInt32 G (-1)) (getInt32 G 1))) (\<lambda>sign.
       build G (I_Select mark sign (getInt32 G 0)))))))))"

definition IsFinite :: "'c genv \<Rightarrow> 'c visitors \<Rightarrow> expr \<Rightarrow> ('c, 'c val) gen" where
  "IsFinite G P arg = bnd (fabs_f32 G) (\<lambda>f. bnd (value_of P arg) (\<lambda>v. bnd (emit G (I_Call f [v])) (\<lambda>a.
     bnd (build G (I_Cmp FCMP_ONE a (Const (ir_inf (g_ir G) LFloat)))) (as_int G))))"

definition second_arg :: "expr list \<Rightarrow> ('c, expr) gen" where
  "second_arg args = first_arg (tl args)"

text \<open>\<open>None\<close>: no built-in function.\<close>

definition MayCallBuiltinFunc :: "'c genv \<Rightarrow> 'c visitors \<Rightarrow> expr \<Rightarrow> expr list \<Rightarrow> ctype option \<Rightarrow> ('c, bool) gen" where
  "MayCallBuiltinFunc G P callee args va_type =
     bnd (liftR (FuncGetName (h_types (g_heap G)) (type_of G callee))) (\<lambda>name.
     let on_first = (\<lambda>f. thn (bnd (bnd (first_arg args) f) set_result) (ret True)) in
     if name = ''__builtin_va_start'' then on_first (VaStart G P)
     else if name = ''__builtin_va_end'' then on_first (VaEnd G P)
     else if name = ''__builtin_va_arg_sub'' then
       (case va_type of None \<Rightarrow> failP Assert_Fail
        | Some t \<Rightarrow> bnd (llvm_type G t) (\<lambda>l. on_first (\<lambda>a. VaArg G P a l)))
     else if name = ''__builtin_va_copy'' then bnd (second_arg args) (\<lambda>a2. on_first (\<lambda>a. VaCopy G P a a2))
     else if name = ''__sync_synchronize'' then thn (bnd (SyncSynchronize G) set_result) (ret True)
     else if name = ''__builtin_alloca'' then on_first (Alloc G P)
     else if name = ''__builtin_popcount'' then on_first (PopCount G P)
     else if name = ''__builtin_clz'' then on_first (Clz G P)
     else if name = ''__builtin_ctz'' then on_first (Ctz G P)
     else if name = ''__builtin_expect'' then bnd (first_arg args) (\<lambda>a. thn (v_expr P a) (ret True))
     else if name = ''__builtin_isinf_sign'' then on_first (IsInfSign G P)
     else if name = ''__builtin_isfinite'' then on_first (IsFinite G P)
     else ret False)"

subsection \<open>Visitors\<close>

definition Visit_UnaryOpExpr :: "'c genv \<Rightarrow> 'c visitors \<Rightarrow> tag \<Rightarrow> expr \<Rightarrow> qtype \<Rightarrow> ('c, unit) gen" where
  "Visit_UnaryOpExpr G P op e q =
     (if op = Tag_kPlusPlus then bnd (IncOrDec G P e True False) set_result
      else if op = Tag_kPostfixPlusPlus then bnd (IncOrDec G P e True True) set_result
      else if op = Tag_kMinusMinus then bnd (IncOrDec G P e False False) set_result
      else if op = Tag_kPostfixMinusMinus then bnd (IncOrDec G P e False True) set_result
      else if op = Tag_kPlus then v_expr P e
      else if op = Tag_kMinus then bnd (value_of P e) (\<lambda>v. bnd (CodeGen_NegOp G v (expr_unsigned G e)) set_result)
      else if op = Tag_kTilde then bnd (value_of P e) (\<lambda>v. bnd (build G (I_Not v)) set_result)
      else if op = Tag_kExclaim then bnd (value_of P e) (\<lambda>v. bnd (CodeGen_LogicNotOp G v) set_result)
      else if op = Tag_kStar then bnd (Deref G P e q) set_result
      else if op = Tag_kAmp then bnd (v_ptr P e) set_result
      else failP Assert_Fail)"

definition Visit_TypeCastExpr :: "'c genv \<Rightarrow> 'c visitors \<Rightarrow> expr \<Rightarrow> qtype \<Rightarrow> ('c, unit) gen" where
  "Visit_TypeCastExpr G P e q = bnd (value_of P e) (\<lambda>v. bnd (llvm_type G (fst q)) (\<lambda>l.
     bnd (CastTo G v l (expr_unsigned G e)) set_result))"

text \<open>The operators whose operands are both evaluated before.\<close>

definition binary_value :: "'c genv \<Rightarrow> tag \<Rightarrow> 'c val \<Rightarrow> 'c val \<Rightarrow> bool \<Rightarrow> ('c, 'c val) gen" where
  "binary_value G op lhs rhs is_unsigned =
     (if op = Tag_kPlus then CodeGen_AddOp G lhs rhs is_unsigned
      else if op = Tag_kMinus then CodeGen_SubOp G lhs rhs is_unsigned
      else if op = Tag_kStar then CodeGen_MulOp G lhs rhs is_unsigned
      else if op = Tag_kSlash then CodeGen_DivOp G lhs rhs is_unsigned
      else if op = Tag_kPercent then CodeGen_ModOp G lhs rhs is_unsigned
      else if op = Tag_kPipe then CodeGen_OrOp G lhs rhs
      else if op = Tag_kAmp then CodeGen_AndOp G lhs rhs
      else if op = Tag_kCaret then CodeGen_XorOp G lhs rhs
      else if op = Tag_kLessLess then CodeGen_ShlOp G lhs rhs
      else if op = Tag_kGreaterGreater then CodeGen_ShrOp G lhs rhs is_unsigned
      else if op = Tag_kEqualEqual then CodeGen_EqualOp G lhs rhs
      else if op = Tag_kExclaimEqual then CodeGen_NotEqualOp G lhs rhs
      else if op = Tag_kLess then CodeGen_LessOp G lhs rhs is_unsigned
      else if op = Tag_kLessEqual then CodeGen_LessEqualOp G lhs rhs is_unsigned
      else if op = Tag_kGreater then CodeGen_GreaterOp G lhs rhs is_unsigned
      else if op = Tag_kGreaterEqual then CodeGen_GreaterEqualOp G lhs rhs is_unsigned
      else failP Assert_Fail)"

definition Visit_BinaryOpExpr :: "'c genv \<Rightarrow> 'c visitors \<Rightarrow> tag \<Rightarrow> expr \<Rightarrow> expr \<Rightarrow> qtype \<Rightarrow> ('c, unit) gen" where
  "Visit_BinaryOpExpr G P op l r q =
     (if op = Tag_kPipePipe then bnd (CodeGen_LogicOrOp G P l r) set_result
      else if op = Tag_kAmpAmp then bnd (CodeGen_LogicAndOp G P l r) set_result
      else if op = Tag_kEqual then bnd (AssignOp G P l r) set_result
      else if op = Tag_kPeriod then bnd (MemberRef G P (EBinary op l r q)) set_result
      else if op = Tag_kComma then thn (v_expr P l) (v_expr P r)
      else bnd (value_of P l) (\<lambda>lhs. bnd (value_of P r) (\<lambda>rhs.
             bnd (binary_value G op lhs rhs (expr_unsigned G l)) set_result)))"

definition Visit_ConditionOpExpr :: "'c genv \<Rightarrow> 'c visitors \<Rightarrow> expr \<Rightarrow> expr \<Rightarrow> expr \<Rightarrow> ('c, unit) gen" where
  "Visit_ConditionOpExpr G P c l r = bnd (calc G c) (\<lambda>k. case k of
       Some v \<Rightarrow> v_expr P (if isZeroValue (g_llvm G) v then r else l)
     | None \<Rightarrow>
         (if IsCheapEnoughToEvaluateUnconditionally l \<and> IsCheapEnoughToEvaluateUnconditionally r
          then bnd (EvaluateExprAsBool G P c) (\<lambda>cond. bnd (value_of P l) (\<lambda>lhs. bnd (value_of P r) (\<lambda>rhs.
                 bnd (build G (I_Select cond lhs rhs)) set_result)))
          else bnd CreateBasicBlock (\<lambda>lhs_block. bnd CreateBasicBlock (\<lambda>rhs_block. bnd CreateBasicBlock (\<lambda>end_block.
            thn (v_branch P c lhs_block rhs_block)
            (thn (EmitBlock lhs_block False) (bnd (value_of P l) (\<lambda>lhs. bnd GetInsertBlock (\<lambda>lhs_end.
            thn (EmitBranch end_block)
            (thn (EmitBlock rhs_block False) (bnd (value_of P r) (\<lambda>rhs. bnd GetInsertBlock (\<lambda>rhs_end.
            thn (EmitBranch end_block) (thn (EmitBlock end_block False)
            (if val_type G lhs = LVoid \<or> val_type G rhs = LVoid then ret ()
             else thn (assertP (val_type G lhs = val_type G rhs))
               (bnd (insert_instr (I_Phi (val_type G lhs) [])) (\<lambda>phi.
                thn (addIncoming phi lhs lhs_end) (thn (addIncoming phi rhs rhs_end)
                  (set_result (Reg phi (val_type G lhs)))))))))))))))))))))"

definition Visit_FuncCallExpr :: "'c genv \<Rightarrow> 'c visitors \<Rightarrow> expr \<Rightarrow> expr list \<Rightarrow> ctype option \<Rightarrow> ('c, unit) gen" where
  "Visit_FuncCallExpr G P callee args va_type = bnd (MayCallBuiltinFunc G P callee args va_type) (\<lambda>b.
     if b then ret ()
     else bnd (value_of P callee) (\<lambda>f. bnd (with_struct (mapP (value_of P) args)) (\<lambda>vs.
       bnd (emit G (I_Call f vs)) set_result)))"

definition Visit_ConstantExpr :: "'c genv \<Rightarrow> qtype \<Rightarrow> (ltype \<Rightarrow> 'c) \<Rightarrow> (ltype \<Rightarrow> 'c) \<Rightarrow> ('c, unit) gen" where
  "Visit_ConstantExpr G q as_integer as_float = bnd (llvm_type G (fst q)) (\<lambda>l.
     if lt_isIntegerTy l then set_result (Const (as_integer l))
     else if lt_isFloatingPointTy l then set_result (Const (as_float l))
     else failP Assert_Fail)"

definition Visit_StringLiteralExpr :: "'c genv \<Rightarrow> qtype \<Rightarrow> string \<Rightarrow> ('c, unit) gen" where
  "Visit_StringLiteralExpr G q str = set_result (Const (string_ptr (g_llvm G) (fst q) str))"

definition Visit_IdentifierExpr :: "'c genv \<Rightarrow> string \<Rightarrow> qtype \<Rightarrow> linkage \<Rightarrow> ('c, unit) gen" where
  "Visit_IdentifierExpr G name q lk = thn (assertP (IsFunctionTy (fst q))) (bnd (llvm_type G (fst q)) (\<lambda>l.
     bnd (module_func name (function_ptr (g_llvm G) name l (lk = Linkage_kInternal))) (\<lambda>f. set_result (Const f))))"

definition Visit_EnumeratorExpr :: "'c genv \<Rightarrow> int \<Rightarrow> ('c, unit) gen" where
  "Visit_EnumeratorExpr G v = set_result (getInt32 G v)"

definition Visit_ObjectExpr :: "'c genv \<Rightarrow> nat \<Rightarrow> ('c, unit) gen" where
  "Visit_ObjectExpr G n = bnd (object_ptr G n) (\<lambda>p. let t = fst (obj_type (obj G n)) in
     thn (set_volatile (QualType_IsVolatile (obj_type (obj G n)))) (bnd (gets load_struct) (\<lambda>ls.
       if IsArrayTy t \<or> (IsStructOrUnionTy t \<and> \<not> ls) then set_result p
       else bnd (CreateLoad G p) (\<lambda>v. thn (set_result v) (set_volatile False)))))"

text \<open>The block of a statement expression is visited as a compound statement.\<close>

definition Visit_StmtExpr :: "'c visitors \<Rightarrow> stmt list \<Rightarrow> ('c, unit) gen" where
  "Visit_StmtExpr P ss = for_each (v_stmt P) ss"

definition Accept_expr :: "'c genv \<Rightarrow> 'c visitors \<Rightarrow> expr \<Rightarrow> ('c, unit) gen" where
  "Accept_expr G P e = (case e of
       EUnary op u q \<Rightarrow> Visit_UnaryOpExpr G P op u q
     | ECast u q \<Rightarrow> Visit_TypeCastExpr G P u q
     | EBinary op l r q \<Rightarrow> Visit_BinaryOpExpr G P op l r q
     | ECond c l r _ \<Rightarrow> Visit_ConditionOpExpr G P c l r
     | ECall f args vt _ \<Rightarrow> Visit_FuncCallExpr G P f args vt
     | EInt q v \<Rightarrow> Visit_ConstantExpr G q (\<lambda>l. get_int (g_llvm G) l v) (\<lambda>l. fp_zero (g_llvm G) l)
     | EFloat q str \<Rightarrow> Visit_ConstantExpr G q (\<lambda>l. get_int (g_llvm G) l 0) (\<lambda>l. get_fp (g_llvm G) l str)
     | EString q str \<Rightarrow> Visit_StringLiteralExpr G q str
     | EIdent (Ident name q lk _) \<Rightarrow> Visit_IdentifierExpr G name q lk
     | EIdent (Enumerator _ v) \<Rightarrow> Visit_EnumeratorExpr G v
     | EIdent (Object _ n) \<Rightarrow> Visit_ObjectExpr G n
     | EStmt ss _ \<Rightarrow> Visit_StmtExpr P ss)"

end
