(* ===== verification/Kcc_GenStmt.thy ===== *)
theory Kcc_GenStmt
  imports Kcc_GenVisit
begin

text \<open>
  Code generation for statements (\<open>src/code_gen_stmt.cpp\<close>), declarations, functions and
  translation units (\<open>src/code_gen.cpp\<close>), and the record of visitors for a given depth.

  \<open>visitors_at G n\<close> follows the calls between visitors \<open>n\<close> deep; the depth that a program needs is
  bounded by the height of its syntax trees, and a run of the model that ends in \<open>Out_Of_Fuel\<close> is no
  run of the program.
\<close>

subsection \<open>Which statements are generated\<close>

lemma size_Children: "Some c \<in> set (Children s) \<Longrightarrow> size c < size s"
  by (induction s rule: Children.induct)
     (auto simp: less_Suc_eq_le intro: size_list_estimation' trans_le_add1 trans_le_add2)

function ContainsLabel :: "stmt \<Rightarrow> bool" where
  "ContainsLabel s = ((case s of SLabel _ _ \<Rightarrow> True | SCase _ _ _ \<Rightarrow> True | SDefault _ \<Rightarrow> True | SSwitch _ _ \<Rightarrow> True | _ \<Rightarrow> False)
     \<or> list_ex (\<lambda>c. case c of None \<Rightarrow> False | Some t \<Rightarrow> ContainsLabel t) (Children s))"
  by pat_completeness auto
termination
  by (relation "measure size") (auto dest: size_Children)

declare ContainsLabel.simps [simp del]

text \<open>A null pointer contains no label.\<close>

definition ContainsLabel_opt :: "stmt option \<Rightarrow> bool" where
  "ContainsLabel_opt s = (case s of None \<Rightarrow> False | Some t \<Rightarrow> ContainsLabel t)"

fun is_simple :: "stmt \<Rightarrow> bool" where
  "is_simple (SLabel _ _) = True"
| "is_simple (SCase _ _ _) = True"
| "is_simple (SDefault _) = True"
| "is_simple (SCompound _) = True"
| "is_simple (SGoto _) = True"
| "is_simple SContinue = True"
| "is_simple SBreak = True"
| "is_simple (SDecl _) = True"
| "is_simple _ = False"

subsection \<open>Statements\<close>

definition Visit_LabelStmt :: "'c visitors \<Rightarrow> string \<Rightarrow> stmt \<Rightarrow> ('c, unit) gen" where
  "Visit_LabelStmt P name s = thn (bnd (GetBasicBlockForLabel name) (\<lambda>bb. EmitBlock bb False)) (v_stmt P s)"

definition the_switch :: "('c, nat) gen" where
  "the_switch = getsE (\<lambda>s. case switch_inst s of None \<Rightarrow> Inl Null_Deref | Some n \<Rightarrow> Inr n)"

text \<open>
  The counter of the loop over a range of cases is a 64-bit number: behind the largest one it is
  undefined. An empty range does not look at the switch.
\<close>

definition int64_max :: int where "int64_max = 2 ^ 63 - 1"

definition add_cases :: "int \<Rightarrow> int \<Rightarrow> nat \<Rightarrow> ('c, unit) gen" where
  "add_cases bgn lst block =
     (if bgn > lst then ret ()
      else thn (bnd the_switch (\<lambda>sw. for_each (\<lambda>v. on_instr sw (add_case v block)) [bgn..lst]))
        (if lst = int64_max then failP Out_Of_Range else ret ()))"

definition Visit_CaseStmt :: "'c visitors \<Rightarrow> int \<Rightarrow> int option \<Rightarrow> stmt \<Rightarrow> ('c, unit) gen" where
  "Visit_CaseStmt P lhs rhs s = bnd CreateBasicBlock (\<lambda>block. thn (EmitBlock block False)
     (thn (add_cases lhs (case rhs of None \<Rightarrow> lhs | Some r \<Rightarrow> r) block) (v_stmt P s)))"

definition getDefaultDest :: "nat \<Rightarrow> ('c, nat) gen" where
  "getDefaultDest sw = getsE (\<lambda>s. case find_instr s sw of
       None \<Rightarrow> Inl Assert_Fail
     | Some i \<Rightarrow> (case default_dest i of None \<Rightarrow> Inl Assert_Fail | Some d \<Rightarrow> Inr d))"

definition Visit_DefaultStmt :: "'c visitors \<Rightarrow> stmt \<Rightarrow> ('c, unit) gen" where
  "Visit_DefaultStmt P s = bnd the_switch (\<lambda>sw. bnd (getDefaultDest sw) (\<lambda>default_block.
     bnd (gets (\<lambda>st. cg_block st default_block)) (\<lambda>bl. thn (assertP (bl = []))
       (thn (EmitBlock default_block False) (v_stmt P s)))))"

definition Visit_CompoundStmt :: "'c visitors \<Rightarrow> stmt list \<Rightarrow> ('c, unit) gen" where
  "Visit_CompoundStmt P ss = for_each (v_stmt P) ss"

definition Visit_ExprStmt :: "'c visitors \<Rightarrow> expr option \<Rightarrow> ('c, unit) gen" where
  "Visit_ExprStmt P e = (case e of None \<Rightarrow> ret () | Some e \<Rightarrow> v_expr P e)"

definition opt_stmt :: "'c visitors \<Rightarrow> stmt option \<Rightarrow> ('c, unit) gen" where
  "opt_stmt P s = (case s of None \<Rightarrow> ret () | Some s \<Rightarrow> v_stmt P s)"

text \<open>The statement with both branches in the code.\<close>

definition if_branches :: "'c visitors \<Rightarrow> expr \<Rightarrow> stmt \<Rightarrow> stmt option \<Rightarrow> ('c, unit) gen" where
  "if_branches P c t e = bnd CreateBasicBlock (\<lambda>then_block. bnd CreateBasicBlock (\<lambda>end_block.
     bnd (if e = None then ret end_block else CreateBasicBlock) (\<lambda>else_block.
     thn (v_branch P c then_block else_block)
     (thn (EmitBlock then_block False) (thn (v_stmt P t) (thn (EmitBranch end_block)
     (thn (case e of None \<Rightarrow> ret ()
           | Some s \<Rightarrow> thn (EmitBlock else_block False) (thn (v_stmt P s) (EmitBranch end_block)))
       (EmitBlock end_block True))))))))"

definition Visit_IfStmt :: "'c genv \<Rightarrow> 'c visitors \<Rightarrow> expr \<Rightarrow> stmt \<Rightarrow> stmt option \<Rightarrow> ('c, unit) gen" where
  "Visit_IfStmt G P c t e = bnd (calc G c) (\<lambda>k. case k of
       None \<Rightarrow> if_branches P c t e
     | Some v \<Rightarrow> (let (executed, skipped) = (if isZeroValue (g_llvm G) v then (e, Some t) else (Some t, e)) in
         if \<not> ContainsLabel_opt skipped then opt_stmt P executed else if_branches P c t e))"

definition Visit_SwitchStmt :: "'c genv \<Rightarrow> 'c visitors \<Rightarrow> expr \<Rightarrow> stmt \<Rightarrow> ('c, unit) gen" where
  "Visit_SwitchStmt G P c s = bnd (value_of P c) (\<lambda>cond_val. bnd (gets switch_inst) (\<lambda>backup.
     bnd CreateBasicBlock (\<lambda>default_block. bnd CreateBasicBlock (\<lambda>end_block.
     bnd (insert_instr (I_Switch cond_val default_block [])) (\<lambda>sw.
     thn (modify (\<lambda>st. st\<lparr>switch_inst := Some sw\<rparr>)) (thn ClearInsertionPoint
     (bnd (gets (\<lambda>st. case break_continue_stack st of [] \<Rightarrow> None | (_, c) # _ \<Rightarrow> c)) (\<lambda>continue_block.
     thn (PushBlock end_block continue_block) (thn (v_stmt P s) (thn PopBlock
     (bnd (gets (\<lambda>st. default_block \<in> set (cg_order st))) (\<lambda>placed.
     thn (if \<not> placed then replaceAllUsesWith default_block end_block else ret ())
     (thn (EmitBlock end_block True)
       (modify (\<lambda>st. st\<lparr>switch_inst := backup\<rparr>)))))))))))))))"

text \<open>\<open>isOne\<close> and \<open>isZero\<close> of a constant integer.\<close>

definition is_const_int :: "'c genv \<Rightarrow> ('c \<Rightarrow> bool) \<Rightarrow> 'c val \<Rightarrow> bool" where
  "is_const_int G p v = (case v of Const c \<Rightarrow> lt_isIntegerTy (getType (g_llvm G) c) \<and> getSExtValue (g_llvm G) c \<noteq> None \<and> p c | _ \<Rightarrow> False)"

definition Visit_WhileStmt :: "'c genv \<Rightarrow> 'c visitors \<Rightarrow> expr \<Rightarrow> stmt \<Rightarrow> ('c, unit) gen" where
  "Visit_WhileStmt G P c s = bnd CreateBasicBlock (\<lambda>cond_block. thn (EmitBlock cond_block False)
     (bnd CreateBasicBlock (\<lambda>body_block. bnd CreateBasicBlock (\<lambda>end_block.
     thn (PushBlock end_block (Some cond_block)) (bnd (EvaluateExprAsBool G P c) (\<lambda>cond_val.
     let emit_br = (\<not> is_const_int G (ir_isOne (g_ir G)) cond_val) in
     thn (if emit_br then put_instr (I_CondBr cond_val body_block end_block) else ret ())
     (thn (EmitBlock body_block False) (thn (v_stmt P s) (thn PopBlock
     (thn (EmitBranch cond_block) (thn (EmitBlock end_block True)
       (if \<not> emit_br then SimplifyForwardingBlocks cond_block else ret ()))))))))))))"

definition Visit_DoWhileStmt :: "'c genv \<Rightarrow> 'c visitors \<Rightarrow> expr \<Rightarrow> stmt \<Rightarrow> ('c, unit) gen" where
  "Visit_DoWhileStmt G P c s = bnd CreateBasicBlock (\<lambda>body_block. bnd CreateBasicBlock (\<lambda>cond_block.
     bnd CreateBasicBlock (\<lambda>end_block.
     thn (EmitBlock body_block False) (thn (PushBlock end_block (Some cond_block)) (thn (v_stmt P s) (thn PopBlock
     (thn (EmitBlock cond_block False) (bnd (EvaluateExprAsBool G P c) (\<lambda>cond_val.
     let emit_br = (\<not> is_const_int G (isZeroValue (g_llvm G)) cond_val) in
     thn (if emit_br then put_instr (I_CondBr cond_val body_block end_block) else ret ())
     (thn (EmitBlock end_block False)
       (if \<not> emit_br then SimplifyForwardingBlocks cond_block else ret ())))))))))))"

definition opt_expr :: "'c visitors \<Rightarrow> expr option \<Rightarrow> ('c, unit) gen" where
  "opt_expr P e = (case e of None \<Rightarrow> ret () | Some e \<Rightarrow> v_expr P e)"

definition Visit_ForStmt :: "'c visitors \<Rightarrow> expr option \<Rightarrow> expr option \<Rightarrow> expr option \<Rightarrow> stmt \<Rightarrow> stmt option \<Rightarrow> ('c, unit) gen" where
  "Visit_ForStmt P init c inc s decl =
     thn (case init of Some e \<Rightarrow> v_expr P e | None \<Rightarrow> opt_stmt P decl)
     (bnd CreateBasicBlock (\<lambda>cond_block. bnd CreateBasicBlock (\<lambda>end_block.
     thn (EmitBlock cond_block False)
     (thn (case c of None \<Rightarrow> ret ()
           | Some e \<Rightarrow> bnd CreateBasicBlock (\<lambda>body_block.
               thn (v_branch P e body_block end_block) (EmitBlock body_block False)))
     (bnd (if inc \<noteq> None then CreateBasicBlock else ret cond_block) (\<lambda>continue_block.
     thn (PushBlock end_block (Some continue_block)) (thn (v_stmt P s) (thn PopBlock
     (thn (case inc of None \<Rightarrow> ret () | Some e \<Rightarrow> thn (EmitBlock continue_block False) (v_expr P e))
     (thn (EmitBranch cond_block) (EmitBlock end_block True)))))))))))"

definition Visit_GotoStmt :: "string \<Rightarrow> ('c, unit) gen" where
  "Visit_GotoStmt name = bnd (GetBasicBlockForLabel name) (\<lambda>bb. EmitBranchThroughCleanup (Some bb))"

definition Visit_ContinueStmt :: "('c, unit) gen" where
  "Visit_ContinueStmt = bnd (gets break_continue_stack) (\<lambda>st. case st of
       [] \<Rightarrow> Error ''continue stmt not in a loop or switch''
     | (_, c) # _ \<Rightarrow> EmitBranchThroughCleanup c)"

definition Visit_BreakStmt :: "('c, unit) gen" where
  "Visit_BreakStmt = bnd (gets break_continue_stack) (\<lambda>st. case st of
       [] \<Rightarrow> Error ''break stmt not in a loop or switch''
     | (b, _) # _ \<Rightarrow> EmitBranchThroughCleanup (Some b))"

definition Visit_ReturnStmt :: "'c visitors \<Rightarrow> expr option \<Rightarrow> ('c, unit) gen" where
  "Visit_ReturnStmt P e = bnd (gets return_block) (\<lambda>rb. case e of
       None \<Rightarrow> EmitBranchThroughCleanup rb
     | Some e \<Rightarrow> bnd (gets return_value) (\<lambda>rv. case rv of
           None \<Rightarrow> Error ''void function should not return a value''
         | Some p \<Rightarrow> bnd (with_struct (value_of P e)) (\<lambda>v. thn (put_instr (I_Store v p False))
             (EmitBranchThroughCleanup rb))))"

subsection \<open>Declarations\<close>

type_synonym init_index = "ctype \<times> int \<times> int \<times> int"

text \<open>
  The path to the element, with the type of the last step; the element of an array is not looked
  up when the step has a bit-field width, and a step that fits none of the branches ends the loop.
\<close>

primrec init_place :: "'c genv \<Rightarrow> init_index list \<Rightarrow> 'c val \<times> ctype option \<times> int \<times> int \<Rightarrow>
    ('c, 'c val \<times> ctype option \<times> int \<times> int) gen" where
  "init_place G [] acc = ret acc"
| "init_place G (ix # ixs) acc = (case ix of (t, index, bgn, wd) \<Rightarrow> case acc of (p, mt, _, _) \<Rightarrow>
     if IsArrayTy t \<and> wd = 0
     then bnd (liftR (ArrayGetElementType t)) (\<lambda>q.
          bnd (build G (I_GEP True p [getInt64 G 0, getInt64 G index])) (\<lambda>p'. init_place G ixs (p', Some (fst q), bgn, wd)))
     else (case t of
         StructT True s \<Rightarrow> bnd (liftR (StructGetMemberType (g_heap G) s (nat index))) (\<lambda>q.
           bnd (build G (I_StructGEP p index)) (\<lambda>p'. init_place G ixs (p', Some (fst q), bgn, wd)))
       | StructT False s \<Rightarrow> bnd (liftR (StructGetMemberType (g_heap G) s (nat index))) (\<lambda>q.
           bnd (llvm_type G (fst q)) (\<lambda>l. bnd (build G (I_BitCast p (LPtr l))) (\<lambda>p'.
             init_place G ixs (p', Some (fst q), bgn, wd))))
       | _ \<Rightarrow> ret (p, Some t, bgn, wd)))"

definition init_element :: "'c genv \<Rightarrow> 'c visitors \<Rightarrow> nat \<Rightarrow> initializer \<Rightarrow> ('c, unit) gen" where
  "init_element G P n it = bnd (with_struct (value_of P (in_expr it))) (\<lambda>v. bnd (GetLocalPtr n) (\<lambda>p0.
     bnd (init_place G (in_indexs it) (p0, None, 0, 0)) (\<lambda>(p, mt, bgn, wd). bnd (gets is_volatile) (\<lambda>vol.
     bnd (case mt of
         None \<Rightarrow> ret (v, p)
       | Some t \<Rightarrow> if wd = 0 then ret (v, p)
         else bnd (build G (I_BitCast p (LPtr (if IsBoolTy t then LInt 8 else LInt 32)))) (\<lambda>p'.
              bnd (CreateLoad G p') (\<lambda>old.
              bnd (CodeGen_GetBitField G old (if IsBoolTy t then 8 else 32) (nat wd) (nat bgn)) (\<lambda>kept.
              bnd (build G (I_Bin O_Shl v (const_int G (val_type G v) bgn))) (\<lambda>shifted.
              bnd (CastTo G shifted (LInt 32) (expr_unsigned G (in_expr it))) (\<lambda>wide.
              bnd (build G (I_Bin O_Or kept wide)) (\<lambda>new. ret (new, p')))))))) (\<lambda>(v', p').
     bnd (emit G (I_Store v' p' vol)) set_result)))))"

definition InitLocalAggregate :: "'c genv \<Rightarrow> 'c visitors \<Rightarrow> nat \<Rightarrow> 'c decl_cell \<Rightarrow> ('c, unit) gen" where
  "InitLocalAggregate G P n d = thn EnsureInsertPoint
     (bnd (liftR (GetWidth (g_dl G) (h_types (g_heap G)) (fst (obj_type (obj G n))))) (\<lambda>width.
     bnd (GetLocalPtr n) (\<lambda>p. bnd (build G (I_BitCast p int8_ptr)) (\<lambda>q. thn (set_result q)
     (bnd (gets is_volatile) (\<lambda>vol.
     thn (put_instr (I_MemSet q (const_int G (LInt 8) 0) width (obj_align (obj G n)) vol))
     (thn (for_each (init_element G P n) (d_inits d)) (set_volatile False))))))))"

definition DealLocaleDecl :: "'c genv \<Rightarrow> 'c visitors \<Rightarrow> nat \<Rightarrow> 'c decl_cell \<Rightarrow> ('c, unit) gen" where
  "DealLocaleDecl G P n d = (let ob = obj G n; t = fst (obj_type ob) in
     bnd (llvm_type G t) (\<lambda>l. bnd (CreateEntryBlockAlloca G l (obj_align ob)) (\<lambda>p. thn (SetLocalPtr n p)
     (thn (set_volatile (QualType_IsVolatile (obj_type ob)))
     (if HasLocalInit d then
        (if IsScalarTy t then (case d_inits d of
             [it] \<Rightarrow> thn (v_expr P (in_expr it)) (bnd result_of (\<lambda>v. thn (CreateStore v p) (set_volatile False)))
           | _ \<Rightarrow> failP Assert_Fail)
         else if IsAggregateTy t then InitLocalAggregate G P n d
         else failP Assert_Fail)
      else if HasConstantInit d then
        thn (if val_type G p \<noteq> int8_ptr then bnd (build G (I_BitCast p int8_ptr)) set_result else ret ())
        (bnd result_of (\<lambda>q. bnd (gets is_volatile) (\<lambda>vol.
         bnd (liftR (GetWidth (g_dl G) (h_types (g_heap G)) t)) (\<lambda>width.
         case d_constant d of None \<Rightarrow> failP Null_Deref
         | Some c \<Rightarrow> thn (put_instr (I_MemCpy q (obj_align ob) (Const c) (obj_align ob) width vol)) (set_volatile False)))))
      else ret ())))))"

definition Visit_Declaration :: "'c genv \<Rightarrow> 'c visitors \<Rightarrow> nat \<Rightarrow> ('c, unit) gen" where
  "Visit_Declaration G P k = (let d = g_decls G k in case d_ident d of
       Object _ n \<Rightarrow> (let ob = obj G n in
         if IsGlobalVar ob \<or> IsLocalStaticVar ob
         then (if IsGlobalVar ob \<and> \<not> obj_IsStatic ob then thn (CreateGlobalVar G n) (ret ()) else ret ())
         else DealLocaleDecl G P n d)
     | _ \<Rightarrow> ret ())"

subsection \<open>Dispatch\<close>

definition Accept_stmt :: "'c genv \<Rightarrow> 'c visitors \<Rightarrow> stmt \<Rightarrow> ('c, unit) gen" where
  "Accept_stmt G P s = (case s of
       SLabel name t \<Rightarrow> Visit_LabelStmt P name t
     | SCase l r t \<Rightarrow> Visit_CaseStmt P l r t
     | SDefault t \<Rightarrow> Visit_DefaultStmt P t
     | SCompound ss \<Rightarrow> Visit_CompoundStmt P ss
     | SExpr e \<Rightarrow> Visit_ExprStmt P e
     | SIf c t e \<Rightarrow> Visit_IfStmt G P c t e
     | SSwitch c t \<Rightarrow> Visit_SwitchStmt G P c t
     | SWhile c t \<Rightarrow> Visit_WhileStmt G P c t
     | SDoWhile c t \<Rightarrow> Visit_DoWhileStmt G P c t
     | SFor i c inc t d \<Rightarrow> Visit_ForStmt P i c inc t d
     | SGoto name \<Rightarrow> Visit_GotoStmt name
     | SContinue \<Rightarrow> Visit_ContinueStmt
     | SBreak \<Rightarrow> Visit_BreakStmt
     | SReturn e \<Rightarrow> Visit_ReturnStmt P e
     | SDecl k \<Rightarrow> Visit_Declaration G P k)"

definition EmitSimpleStmt :: "'c genv \<Rightarrow> 'c visitors \<Rightarrow> stmt \<Rightarrow> ('c, bool) gen" where
  "EmitSimpleStmt G P s = (if is_simple s then thn (Accept_stmt G P s) (ret True) else ret False)"

definition EmitStmt :: "'c genv \<Rightarrow> 'c visitors \<Rightarrow> stmt \<Rightarrow> ('c, unit) gen" where
  "EmitStmt G P s = bnd (EmitSimpleStmt G P s) (\<lambda>b. if b then ret ()
     else bnd HaveInsertPoint (\<lambda>at.
       if at then Accept_stmt G P s
       else if \<not> ContainsLabel s then ret ()
       else thn EnsureInsertPoint (Accept_stmt G P s)))"

definition visitors_with :: "'c genv \<Rightarrow> 'c visitors \<Rightarrow> 'c visitors" where
  "visitors_with G P = \<lparr>v_expr = Accept_expr G P, v_stmt = EmitStmt G P, v_ptr = GetPtr G P,
     v_branch = EmitBranchOnBoolExpr G P\<rparr>"

primrec visitors_at :: "'c genv \<Rightarrow> nat \<Rightarrow> 'c visitors" where
  "visitors_at G 0 = \<lparr>v_expr = (\<lambda>_. failP Out_Of_Fuel), v_stmt = (\<lambda>_. failP Out_Of_Fuel),
     v_ptr = (\<lambda>_. failP Out_Of_Fuel), v_branch = (\<lambda>_ _ _. failP Out_Of_Fuel)\<rparr>"
| "visitors_at G (Suc n) = visitors_with G (visitors_at G n)"

subsection \<open>Functions and translation units\<close>

text \<open>The blocks that a function of the module has already.\<close>

definition blocks_of :: "'c cg \<Rightarrow> string \<Rightarrow> nat list" where
  "blocks_of s name = (case map_of (bodies_done s) name of None \<Rightarrow> [] | Some bs \<Rightarrow> map fst bs)"

definition StartFunction :: "'c genv \<Rightarrow> ident \<Rightarrow> ('c, unit) gen" where
  "StartFunction G i = (case i of
       Ident name q lk _ \<Rightarrow> thn (Visit_IdentifierExpr G name q lk) (bnd result_of (\<lambda>f.
       bnd (case f of Const c \<Rightarrow> ret c | _ \<Rightarrow> failP Assert_Fail) (\<lambda>c.
       bnd CreateBasicBlock (\<lambda>entry. bnd CreateBasicBlock (\<lambda>mark. bnd CreateBasicBlock (\<lambda>rb.
       thn (modify (\<lambda>s. s\<lparr>func := Some c, cg_order := blocks_of s name @ [entry], cg_block := (cg_block s)(entry := [(mark, I_Undef)]),
              alloc_insert_point := Some (entry, mark), return_block := Some rb, return_value := None\<rparr>))
       (bnd (liftR (FuncGetReturnType (fst q))) (\<lambda>rt.
       thn (if IsVoidTy (fst rt) then ret ()
            else bnd (llvm_type G (fst rt)) (\<lambda>l. bnd (liftR (GetAlign (g_dl G) (h_types (g_heap G)) (fst rt))) (\<lambda>a.
                 bnd (CreateEntryBlockAlloca G l a) (\<lambda>p. modify (\<lambda>s. s\<lparr>return_value := Some p\<rparr>)))))
         (SetInsertPoint entry)))))))))
     | _ \<Rightarrow> failP Assert_Fail)"

definition EmitReturnBlock :: "('c, unit) gen" where
  "EmitReturnBlock = bnd (getsE (\<lambda>s. case return_block s of None \<Rightarrow> Inl Null_Deref | Some b \<Rightarrow> Inr b)) (\<lambda>rb.
     bnd GetInsertBlock (\<lambda>bb. case bb of
       None \<Rightarrow> EmitBlock rb False
     | Some b \<Rightarrow> bnd (gets (\<lambda>s. getTerminator s b)) (\<lambda>t. thn (assertP (t = None))
         (bnd (gets (\<lambda>s. cg_block s b = [] \<or> use_empty s rb)) (\<lambda>direct.
           if direct then replaceAllUsesWith rb b else EmitBlock rb False)))))"

definition EmitFunctionEpilog :: "'c genv \<Rightarrow> ('c, unit) gen" where
  "EmitFunctionEpilog G = bnd (gets return_value) (\<lambda>rv. case rv of
       None \<Rightarrow> put_instr I_RetVoid
     | Some p \<Rightarrow> bnd (plain_load G p) (\<lambda>v. put_instr (I_Ret v)))"

text \<open>The mark in the entry block goes, the labels are forgotten; the blocks are the body of the function.\<close>

definition FinishFunction :: "'c genv \<Rightarrow> string \<Rightarrow> ('c, unit) gen" where
  "FinishFunction G name = thn EmitReturnBlock (thn (EmitFunctionEpilog G)
     (bnd (getsE (\<lambda>s. case alloc_insert_point s of None \<Rightarrow> Inl Null_Deref | Some p \<Rightarrow> Inr p)) (\<lambda>(entry, mark).
     thn (modify (\<lambda>s. s\<lparr>alloc_insert_point := None,
            cg_block := (cg_block s)(entry := filter (\<lambda>(n, _). n \<noteq> mark) (cg_block s entry)), labels := []\<rparr>))
       (modify (\<lambda>s. s\<lparr>bodies_done := filter (\<lambda>(n, _). n \<noteq> name) (bodies_done s) @ [(name, map (\<lambda>b. (b, cg_block s b)) (cg_order s))]\<rparr>)))))"

fun func_args :: "ltype \<Rightarrow> ltype list" where
  "func_args (LPtr t) = func_args t"
| "func_args (LFunc _ ps _) = ps"
| "func_args _ = []"

text \<open>The arguments of the LLVM function and the parameters of the definition go in step.\<close>

primrec store_params :: "'c genv \<Rightarrow> nat \<Rightarrow> ltype list \<Rightarrow> (nat \<times> ctype) list \<Rightarrow> ('c, unit) gen" where
  "store_params G k [] ps = ret ()"
| "store_params G k (a # as) ps = (case ps of
       [] \<Rightarrow> failP Out_Of_Range
     | (n, t) # rest \<Rightarrow> bnd (llvm_type G (fst (obj_type (obj G n)))) (\<lambda>l.
         bnd (CreateEntryBlockAlloca G l (obj_align (obj G n))) (\<lambda>p. thn (SetLocalPtr n p)
         (thn (CreateStore (Param k a) p) (store_params G (Suc k) as rest)))))"

definition Visit_FuncDef :: "'c genv \<Rightarrow> nat \<Rightarrow> ident \<Rightarrow> stmt list \<Rightarrow> ('c, unit) gen" where
  "Visit_FuncDef G depth i body = (let t = fst (ident_type (g_heap G) i) in
     thn (StartFunction G i) (bnd (liftR (FuncGetParams t)) (\<lambda>ps.
     bnd (getsE (\<lambda>s. case func s of None \<Rightarrow> Inl Null_Deref | Some f \<Rightarrow> Inr (func_args (getType (g_llvm G) f)))) (\<lambda>as.
     thn (store_params G 0 as ps) (bnd (liftR (FuncGetName (h_types (g_heap G)) t)) (\<lambda>name.
     thn (if name = ''main'' then bnd (gets return_value) (\<lambda>rv. case rv of
              None \<Rightarrow> failP Null_Deref | Some p \<Rightarrow> put_instr (I_Store (getInt32 G 0) p False)) else ret ())
     (thn (v_stmt (visitors_at G depth) (SCompound body)) (FinishFunction G (ident_name i)))))))))"

definition Visit_ext_decl :: "'c genv \<Rightarrow> nat \<Rightarrow> ext_decl \<Rightarrow> ('c, unit) gen" where
  "Visit_ext_decl G depth x = (case x of
       FuncDef i body \<Rightarrow> Visit_FuncDef G depth i body
     | ExtDecls ds \<Rightarrow> for_each (Accept_stmt G (visitors_at G depth)) ds)"

definition Visit_TranslationUnit :: "'c genv \<Rightarrow> nat \<Rightarrow> ext_decl list \<Rightarrow> ('c, unit) gen" where
  "Visit_TranslationUnit G depth ds = for_each (Visit_ext_decl G depth) ds"

definition CodeGen_init :: "'c cg" where
  "CodeGen_init = \<lparr>cg_block = (\<lambda>_. []), cg_order = [], cg_loose = [], cg_next = 0, cg_at = None, cg_result = None,
     alloc_insert_point = None, load_struct = False, break_continue_stack = [], labels = [], switch_inst = None,
     func = None, return_block = None, return_value = None, is_bit_field = False, bit_field = None,
     is_volatile = False, ignore_assign_result = False, local_ptr = (\<lambda>_. None), cg_literals = 0,
     global_var_map = [], cg_globals = [], module_funcs = [], bodies_done = []\<rparr>"

text \<open>\<open>GenCode\<close>, without the call of LLVM's verifier.\<close>

definition GenCode :: "'c genv \<Rightarrow> nat \<Rightarrow> ext_decl list \<Rightarrow> 'c cg result" where
  "GenCode G depth ds = bindE (Visit_TranslationUnit G depth ds CodeGen_init) (\<lambda>(_, s).
     assertE (break_continue_stack s = [] \<and> labels s = [] \<and> \<not> is_bit_field s \<and> bit_field s = None \<and> \<not> is_volatile s)
       (Inr s))"

end
