(* ===== verification/Kcc_Machine.thy ===== *)
theory Kcc_Machine
  imports Kcc_GenStmt Kcc_CalcProps
begin

text \<open>
  The two sides of the correctness of generated code: a machine that runs basic blocks, after the
  language reference of LLVM, and the meaning of expressions and statements over \<open>int\<close> objects,
  after the C standard. Both are partial: overflow and division by zero have no value.
\<close>

subsection \<open>The machine\<close>

text \<open>
  A register of an integer type holds the number its bits denote as a signed number, so that the
  truth value of \<open>i1\<close> is 0 or -1. Memory maps the pointer to the number stored there.
\<close>

type_synonym regs = "nat \<Rightarrow> int"
type_synonym 'c mem = "'c val \<Rightarrow> int"

definition den :: "'c genv \<Rightarrow> regs \<Rightarrow> 'c val \<Rightarrow> int option" where
  "den G \<rho> v = (case v of Const c \<Rightarrow> getSExtValue (g_llvm G) c | Reg n _ \<Rightarrow> Some (\<rho> n) | Param _ _ \<Rightarrow> None)"

definition fits_in :: "nat \<Rightarrow> int \<Rightarrow> int option" where
  "fits_in w v = (if no_overflow w v then Some v else None)"

fun bin_sem :: "binop \<Rightarrow> nat \<Rightarrow> int \<Rightarrow> int \<Rightarrow> int option" where
  "bin_sem O_Add w a b = Some (sgn_of w (a + b))"
| "bin_sem O_Sub w a b = Some (sgn_of w (a - b))"
| "bin_sem O_Mul w a b = Some (sgn_of w (a * b))"
| "bin_sem O_NSWAdd w a b = fits_in w (a + b)"
| "bin_sem O_NSWSub w a b = fits_in w (a - b)"
| "bin_sem O_NSWMul w a b = fits_in w (a * b)"
| "bin_sem O_SDiv w a b = (if b = 0 then None else fits_in w (a sdiv b))"
| "bin_sem O_SRem w a b = (if b = 0 \<or> fits_in w (a sdiv b) = None then None else Some (a smod b))"
| "bin_sem O_And w a b = Some (a AND b)"
| "bin_sem O_Or w a b = Some (a OR b)"
| "bin_sem O_Xor w a b = Some (a XOR b)"
| "bin_sem _ w a b = None"

definition bind2 :: "int option \<Rightarrow> int option \<Rightarrow> (int \<Rightarrow> int \<Rightarrow> int option) \<Rightarrow> int option" where
  "bind2 a b f = (case a of None \<Rightarrow> None | Some x \<Rightarrow> (case b of None \<Rightarrow> None | Some y \<Rightarrow> f x y))"

text \<open>The value of an instruction without side effects.\<close>

fun pure_sem :: "'c genv \<Rightarrow> regs \<Rightarrow> 'c instr \<Rightarrow> int option" where
  "pure_sem G \<rho> (I_Bin op a b) = bind2 (den G \<rho> a) (den G \<rho> b) (bin_sem op (lt_bits (val_type G a)))"
| "pure_sem G \<rho> (I_Neg nsw a) = Option.bind (den G \<rho> a) (\<lambda>x. if nsw then fits_in (lt_bits (val_type G a)) (- x)
     else Some (sgn_of (lt_bits (val_type G a)) (- x)))"
| "pure_sem G \<rho> (I_Not a) = map_option (\<lambda>x. NOT x) (den G \<rho> a)"
| "pure_sem G \<rho> (I_Cmp p a b) = bind2 (den G \<rho> a) (den G \<rho> b) (\<lambda>x y. if p \<in> icmp_preds
     then Some (if icmp p (lt_bits (val_type G a)) x y then - 1 else 0) else None)"
| "pure_sem G \<rho> (I_Cast C_ZExt a t) = map_option (take_bit (lt_bits (val_type G a))) (den G \<rho> a)"
| "pure_sem G \<rho> (I_Cast C_SExt a t) = den G \<rho> a"
| "pure_sem G \<rho> (I_Cast C_Trunc a t) = map_option (sgn_of (lt_bits t)) (den G \<rho> a)"
| "pure_sem G \<rho> (I_Select c a b) = Option.bind (den G \<rho> c) (\<lambda>x. den G \<rho> (if x \<noteq> 0 then a else b))"
| "pure_sem G \<rho> _ = None"

text \<open>One instruction that is no branch; \<open>p\<close> is the block the machine came from.\<close>

fun run_instr :: "'c genv \<Rightarrow> nat \<Rightarrow> nat \<times> 'c instr \<Rightarrow> regs \<times> 'c mem \<Rightarrow> (regs \<times> 'c mem) option" where
  "run_instr G p (n, I_Load a vol) (\<rho>, M) = Some (\<rho>(n := M a), M)"
| "run_instr G p (n, I_Store v a vol) (\<rho>, M) = map_option (\<lambda>x. (\<rho>, M(a := x))) (den G \<rho> v)"
| "run_instr G p (n, I_Phi t vs) (\<rho>, M) = (case map_of (map (\<lambda>(v, b). (b, v)) vs) p of None \<Rightarrow> None
     | Some v \<Rightarrow> map_option (\<lambda>x. (\<rho>(n := x), M)) (den G \<rho> v))"
| "run_instr G p (n, i) (\<rho>, M) = map_option (\<lambda>x. (\<rho>(n := x), M)) (pure_sem G \<rho> i)"

text \<open>A configuration: block, number of the instruction in it, the block before, registers, memory.\<close>

type_synonym 'c config = "nat \<times> nat \<times> nat \<times> regs \<times> 'c mem"

inductive mstep :: "'c genv \<Rightarrow> (nat \<Rightarrow> 'c block) \<Rightarrow> 'c config \<Rightarrow> 'c config \<Rightarrow> bool" for G B where
  instr: "i < length (B b) \<Longrightarrow> run_instr G p (B b ! i) (\<rho>, M) = Some (\<rho>', M') \<Longrightarrow>
    mstep G B (b, i, p, \<rho>, M) (b, Suc i, p, \<rho>', M')"
| br: "i < length (B b) \<Longrightarrow> snd (B b ! i) = I_Br c \<Longrightarrow> mstep G B (b, i, p, \<rho>, M) (c, 0, b, \<rho>, M)"
| cond_br: "i < length (B b) \<Longrightarrow> snd (B b ! i) = I_CondBr v t f \<Longrightarrow> den G \<rho> v = Some x \<Longrightarrow>
    mstep G B (b, i, p, \<rho>, M) (if x \<noteq> 0 then t else f, 0, b, \<rho>, M)"

abbreviation runs :: "'c genv \<Rightarrow> (nat \<Rightarrow> 'c block) \<Rightarrow> 'c config \<Rightarrow> 'c config \<Rightarrow> bool" where
  "runs G B \<equiv> (mstep G B)\<^sup>*\<^sup>*"

subsection \<open>The meaning of expressions\<close>

type_synonym store = "nat \<Rightarrow> int"

definition truth :: "int \<Rightarrow> int" where
  "truth v = of_bool (v \<noteq> 0)"

text \<open>The step of \<open>++\<close> and \<open>--\<close>, and whether the value is that before it.\<close>

definition inc_step :: "tag \<Rightarrow> int option" where
  "inc_step op = (if op \<in> {Tag_kPlusPlus, Tag_kPostfixPlusPlus} then Some 1
     else if op \<in> {Tag_kMinusMinus, Tag_kPostfixMinusMinus} then Some (- 1) else None)"

definition is_postfix :: "tag \<Rightarrow> bool" where
  "is_postfix op \<longleftrightarrow> op \<in> {Tag_kPostfixPlusPlus, Tag_kPostfixMinusMinus}"

fun the_object :: "expr \<Rightarrow> nat option" where
  "the_object (EIdent (Object _ n)) = Some n"
| "the_object _ = None"

text \<open>Value and new store of an expression over \<open>int\<close> objects, operands from left to right.\<close>

fun ev :: "expr \<Rightarrow> store \<Rightarrow> (int \<times> store) option" where
  "ev (EInt q v) \<sigma> = Some (sgn_of 32 v, \<sigma>)"
| "ev (EIdent i) \<sigma> = (case the_object (EIdent i) of None \<Rightarrow> None | Some n \<Rightarrow> Some (\<sigma> n, \<sigma>))"
| "ev (EUnary op e q) \<sigma> = (case inc_step op of
       Some d \<Rightarrow> (case the_object e of None \<Rightarrow> None | Some n \<Rightarrow>
         Option.bind (c_arith kInt (\<sigma> n + d)) (\<lambda>v. Some (if is_postfix op then \<sigma> n else v, \<sigma>(n := v))))
     | None \<Rightarrow> Option.bind (ev e \<sigma>) (\<lambda>(v, \<sigma>1).
         if op = Tag_kExclaim then Some (of_bool (v = 0), \<sigma>1)
         else map_option (\<lambda>w. (w, \<sigma>1)) (c_unary op kInt v)))"
| "ev (EBinary op l r q) \<sigma> =
     (if op = Tag_kEqual then (case the_object l of None \<Rightarrow> None
        | Some n \<Rightarrow> Option.bind (ev r \<sigma>) (\<lambda>(v, \<sigma>1). Some (v, \<sigma>1(n := v))))
      else Option.bind (ev l \<sigma>) (\<lambda>(a, \<sigma>1).
        if op = Tag_kAmpAmp \<and> a = 0 then Some (0, \<sigma>1)
        else if op = Tag_kPipePipe \<and> a \<noteq> 0 then Some (1, \<sigma>1)
        else Option.bind (ev r \<sigma>1) (\<lambda>(b, \<sigma>2).
          if op \<in> {Tag_kAmpAmp, Tag_kPipePipe} then Some (truth b, \<sigma>2)
          else if op = Tag_kComma then Some (b, \<sigma>2)
          else map_option (\<lambda>v. (v, \<sigma>2)) (c_binary op kInt a b))))"
| "ev (ECond c l r q) \<sigma> = Option.bind (ev c \<sigma>) (\<lambda>(v, \<sigma>1). if v \<noteq> 0 then ev l \<sigma>1 else ev r \<sigma>1)"
| "ev _ \<sigma> = None"

subsection \<open>The meaning of statements\<close>

datatype outcome = Normal | Broke | Continued | Returned "int option"

text \<open>How a loop goes on after its body: \<open>None\<close>, with the next turn.\<close>

fun leaves :: "outcome \<Rightarrow> outcome option" where
  "leaves Normal = None"
| "leaves Continued = None"
| "leaves Broke = Some Normal"
| "leaves (Returned v) = Some (Returned v)"

text \<open>The test of a \<open>for\<close> loop that goes on, and its step.\<close>

definition for_test :: "expr option \<Rightarrow> store \<Rightarrow> store \<Rightarrow> bool" where
  "for_test c \<sigma> \<sigma>' = (case c of None \<Rightarrow> \<sigma>' = \<sigma> | Some e \<Rightarrow> \<exists>v. ev e \<sigma> = Some (v, \<sigma>') \<and> v \<noteq> 0)"

definition for_step :: "expr option \<Rightarrow> store \<Rightarrow> store \<Rightarrow> bool" where
  "for_step inc \<sigma> \<sigma>' = (case inc of None \<Rightarrow> \<sigma>' = \<sigma> | Some e \<Rightarrow> \<exists>v. ev e \<sigma> = Some (v, \<sigma>'))"

inductive exec :: "stmt \<Rightarrow> store \<Rightarrow> outcome \<Rightarrow> store \<Rightarrow> bool"
  and execs :: "stmt list \<Rightarrow> store \<Rightarrow> outcome \<Rightarrow> store \<Rightarrow> bool" where
  Empty: "exec (SExpr None) \<sigma> Normal \<sigma>"
| Expr: "ev e \<sigma> = Some (v, \<sigma>') \<Longrightarrow> exec (SExpr (Some e)) \<sigma> Normal \<sigma>'"
| Compound: "execs ss \<sigma> o' \<sigma>' \<Longrightarrow> exec (SCompound ss) \<sigma> o' \<sigma>'"
| Nil: "execs [] \<sigma> Normal \<sigma>"
| Cons: "exec t \<sigma> Normal \<sigma>1 \<Longrightarrow> execs ss \<sigma>1 o' \<sigma>' \<Longrightarrow> execs (t # ss) \<sigma> o' \<sigma>'"
| Leave: "exec t \<sigma> o' \<sigma>' \<Longrightarrow> o' \<noteq> Normal \<Longrightarrow> execs (t # ss) \<sigma> o' \<sigma>'"
| IfTrue: "ev c \<sigma> = Some (v, \<sigma>1) \<Longrightarrow> v \<noteq> 0 \<Longrightarrow> exec t \<sigma>1 o' \<sigma>' \<Longrightarrow> exec (SIf c t e) \<sigma> o' \<sigma>'"
| IfFalse: "ev c \<sigma> = Some (0, \<sigma>1) \<Longrightarrow> exec e \<sigma>1 o' \<sigma>' \<Longrightarrow> exec (SIf c t (Some e)) \<sigma> o' \<sigma>'"
| IfNone: "ev c \<sigma> = Some (0, \<sigma>1) \<Longrightarrow> exec (SIf c t None) \<sigma> Normal \<sigma>1"
| WhileFalse: "ev c \<sigma> = Some (0, \<sigma>1) \<Longrightarrow> exec (SWhile c t) \<sigma> Normal \<sigma>1"
| WhileLeave: "ev c \<sigma> = Some (v, \<sigma>1) \<Longrightarrow> v \<noteq> 0 \<Longrightarrow> exec t \<sigma>1 o1 \<sigma>' \<Longrightarrow> leaves o1 = Some o' \<Longrightarrow>
    exec (SWhile c t) \<sigma> o' \<sigma>'"
| WhileTurn: "ev c \<sigma> = Some (v, \<sigma>1) \<Longrightarrow> v \<noteq> 0 \<Longrightarrow> exec t \<sigma>1 o1 \<sigma>2 \<Longrightarrow> leaves o1 = None \<Longrightarrow>
    exec (SWhile c t) \<sigma>2 o' \<sigma>' \<Longrightarrow> exec (SWhile c t) \<sigma> o' \<sigma>'"
| DoLeave: "exec t \<sigma> o1 \<sigma>' \<Longrightarrow> leaves o1 = Some o' \<Longrightarrow> exec (SDoWhile c t) \<sigma> o' \<sigma>'"
| DoFalse: "exec t \<sigma> o1 \<sigma>1 \<Longrightarrow> leaves o1 = None \<Longrightarrow> ev c \<sigma>1 = Some (0, \<sigma>') \<Longrightarrow> exec (SDoWhile c t) \<sigma> Normal \<sigma>'"
| DoTurn: "exec t \<sigma> o1 \<sigma>1 \<Longrightarrow> leaves o1 = None \<Longrightarrow> ev c \<sigma>1 = Some (v, \<sigma>2) \<Longrightarrow> v \<noteq> 0 \<Longrightarrow>
    exec (SDoWhile c t) \<sigma>2 o' \<sigma>' \<Longrightarrow> exec (SDoWhile c t) \<sigma> o' \<sigma>'"
| Break: "exec SBreak \<sigma> Broke \<sigma>"
| Continue: "exec SContinue \<sigma> Continued \<sigma>"
| Return: "exec (SReturn None) \<sigma> (Returned None) \<sigma>"
| ReturnValue: "ev e \<sigma> = Some (v, \<sigma>') \<Longrightarrow> exec (SReturn (Some e)) \<sigma> (Returned (Some v)) \<sigma>'"
| ForInit: "ev i \<sigma> = Some (v, \<sigma>1) \<Longrightarrow> exec (SFor None c inc t None) \<sigma>1 o' \<sigma>' \<Longrightarrow>
    exec (SFor (Some i) c inc t None) \<sigma> o' \<sigma>'"
| ForFalse: "ev e \<sigma> = Some (0, \<sigma>1) \<Longrightarrow> exec (SFor None (Some e) inc t None) \<sigma> Normal \<sigma>1"
| ForLeave: "for_test c \<sigma> \<sigma>1 \<Longrightarrow> exec t \<sigma>1 o1 \<sigma>' \<Longrightarrow> leaves o1 = Some o' \<Longrightarrow> exec (SFor None c inc t None) \<sigma> o' \<sigma>'"
| ForTurn: "for_test c \<sigma> \<sigma>1 \<Longrightarrow> exec t \<sigma>1 o1 \<sigma>2 \<Longrightarrow> leaves o1 = None \<Longrightarrow> for_step inc \<sigma>2 \<sigma>3 \<Longrightarrow>
    exec (SFor None c inc t None) \<sigma>3 o' \<sigma>' \<Longrightarrow> exec (SFor None c inc t None) \<sigma> o' \<sigma>'"

end
