(* ===== verification/Kcc_GenSim.thy ===== *)
theory Kcc_GenSim
  imports Kcc_Machine
begin

text \<open>
  The generator and the machine, step by step: what one emitted instruction, jump or block does to
  the state of the generator and what the machine does with it. A run is described for any
  blocks \<open>B\<close> that continue those of the generator, so that what is generated later does not matter.
\<close>

subsection \<open>States between which only new code appears\<close>

definition ctx :: "'c cg \<Rightarrow> _" where
  "ctx s = (break_continue_stack s, switch_inst s, return_block s, return_value s, local_ptr s,
     is_volatile s, is_bit_field s, ignore_assign_result s, labels s)"

definition new_code :: "'c cg \<Rightarrow> 'c cg \<Rightarrow> nat \<Rightarrow> 'c block \<Rightarrow> bool" where
  "new_code s s' b xs \<longleftrightarrow> cg_block s' b = cg_block s b @ xs \<and> (\<forall>x \<in> set xs. cg_next s \<le> fst x \<and> fst x < cg_next s')"

definition framed :: "'c cg \<Rightarrow> 'c cg \<Rightarrow> bool" where
  "framed s s' \<longleftrightarrow> cg_next s \<le> cg_next s' \<and> ctx s' = ctx s \<and>
     (\<forall>b. \<exists>xs. new_code s s' b xs) \<and>
     (\<forall>b < cg_next s. cg_at s \<noteq> Some b \<longrightarrow> cg_block s' b = cg_block s b) \<and>
     (\<forall>b < cg_next s. b \<in> set (cg_order s') \<longleftrightarrow> b \<in> set (cg_order s)) \<and>
     (\<forall>b. cg_at s' = Some b \<longrightarrow> cg_at s = Some b \<or> cg_next s \<le> b)"

text \<open>\<open>B\<close> continues the blocks that were open or new between the two states.\<close>

definition covers :: "'c cg \<Rightarrow> 'c cg \<Rightarrow> (nat \<Rightarrow> 'c block) \<Rightarrow> bool" where
  "covers s s' B \<longleftrightarrow> (\<forall>b. cg_at s = Some b \<or> cg_next s \<le> b \<longrightarrow> prefix (cg_block s' b) (B b))"

definition numbered :: "'c cg \<Rightarrow> bool" where
  "numbered s \<longleftrightarrow> (\<forall>b \<ge> cg_next s. cg_block s b = []) \<and> (\<forall>b \<in> set (cg_order s). b < cg_next s) \<and>
     (\<forall>b. \<forall>x \<in> set (cg_block s b). fst x < cg_next s) \<and> (\<forall>x \<in> set (cg_loose s). fst x < cg_next s) \<and> (\<forall>b. cg_at s = Some b \<longrightarrow> b < cg_next s)"

definition agree :: "nat \<Rightarrow> regs \<Rightarrow> regs \<Rightarrow> bool" where
  "agree k \<rho> \<rho>' \<longleftrightarrow> (\<forall>n < k. \<rho>' n = \<rho> n)"

definition below :: "nat \<Rightarrow> 'c val \<Rightarrow> bool" where
  "below k v \<longleftrightarrow> (case v of Reg n _ \<Rightarrow> n < k | Const _ \<Rightarrow> True | Param _ _ \<Rightarrow> False)"

lemma new_code_refl: "new_code s s b []"
  by (simp add: new_code_def)

lemma framed_refl [simp]: "framed s s"
  unfolding framed_def using new_code_refl by fastforce

lemma new_code_trans: "new_code s s1 b xs \<Longrightarrow> new_code s1 s' b ys \<Longrightarrow> cg_next s \<le> cg_next s1 \<Longrightarrow> cg_next s1 \<le> cg_next s' \<Longrightarrow>
    new_code s s' b (xs @ ys)"
  by (auto simp: new_code_def dest: bspec)

lemma framed_trans:
  assumes "framed s s1" and "framed s1 s'"
  shows "framed s s'"
  unfolding framed_def
proof (intro conjI allI impI)
  show "cg_next s \<le> cg_next s'" "ctx s' = ctx s" using assms by (auto simp: framed_def)
  show "\<exists>xs. new_code s s' b xs" for b
    using assms by (meson framed_def new_code_trans)
  show "cg_block s' b = cg_block s b" if "b < cg_next s" "cg_at s \<noteq> Some b" for b
  proof -
    have "cg_at s1 \<noteq> Some b" using assms(1) that by (auto simp: framed_def)
    then show ?thesis using assms that by (auto simp: framed_def)
  qed
  show "b \<in> set (cg_order s') \<longleftrightarrow> b \<in> set (cg_order s)" if "b < cg_next s" for b
    using assms that by (auto simp: framed_def)
  show "cg_at s = Some b \<or> cg_next s \<le> b" if "cg_at s' = Some b" for b
    using assms that unfolding framed_def by (meson order_trans)
qed

lemma framed_prefix: "framed s s' \<Longrightarrow> prefix (cg_block s b) (cg_block s' b)"
  by (auto simp: framed_def new_code_def prefix_def)

lemma framed_next: "framed s s' \<Longrightarrow> cg_next s \<le> cg_next s'"
  by (simp add: framed_def)

lemma framed_ctx: "framed s s' \<Longrightarrow> ctx s' = ctx s"
  by (simp add: framed_def)

lemma framed_other: "framed s s' \<Longrightarrow> b < cg_next s \<Longrightarrow> cg_at s \<noteq> Some b \<Longrightarrow> cg_block s' b = cg_block s b"
  by (simp add: framed_def)

lemma framed_order: "framed s s' \<Longrightarrow> b < cg_next s \<Longrightarrow> b \<in> set (cg_order s') \<longleftrightarrow> b \<in> set (cg_order s)"
  by (simp add: framed_def)

lemma framed_at: "framed s s' \<Longrightarrow> cg_at s' = Some b \<Longrightarrow> cg_at s = Some b \<or> cg_next s \<le> b"
  by (simp add: framed_def)

lemma covers_first: "framed s s1 \<Longrightarrow> framed s1 s' \<Longrightarrow> covers s s' B \<Longrightarrow> covers s s1 B"
  unfolding covers_def by (meson framed_prefix prefix_order.trans)

lemma covers_second: "framed s s1 \<Longrightarrow> covers s s' B \<Longrightarrow> covers s1 s' B"
  unfolding covers_def by (meson framed_at framed_next order_trans)

lemma agree_refl [simp]: "agree k \<rho> \<rho>"
  by (simp add: agree_def)

lemma agree_trans: "agree k \<rho> \<rho>1 \<Longrightarrow> agree k' \<rho>1 \<rho>' \<Longrightarrow> k \<le> k' \<Longrightarrow> agree k \<rho> \<rho>'"
  by (simp add: agree_def)

lemma agree_upd [simp]: "k \<le> n \<Longrightarrow> agree k \<rho> (\<rho>(n := x)) = True"
  by (simp add: agree_def)

lemma below_mono: "below k v \<Longrightarrow> k \<le> k' \<Longrightarrow> below k' v"
  by (auto simp: below_def split: val.splits)

lemma den_agree: "agree k \<rho> \<rho>' \<Longrightarrow> below k v \<Longrightarrow> den G \<rho>' v = den G \<rho> v"
  by (auto simp: den_def agree_def below_def split: val.splits)

subsection \<open>Ready to emit\<close>

text \<open>
  The builder stands in an open block, the objects of \<open>V\<close> have their pointers and no flag of the
  generator is set. \<open>represents\<close>: memory holds the values of the objects.
\<close>

definition is_open :: "'c cg \<Rightarrow> bool" where
  "is_open s \<longleftrightarrow> (\<exists>b. cg_at s = Some b \<and> getTerminator s b = None)"

definition settled :: "(nat \<Rightarrow> 'c val) \<Rightarrow> nat set \<Rightarrow> 'c cg \<Rightarrow> bool" where
  "settled loc V s \<longleftrightarrow> numbered s \<and> (\<forall>n \<in> V. local_ptr s n = Some (loc n)) \<and>
     \<not> is_volatile s \<and> \<not> is_bit_field s \<and> \<not> ignore_assign_result s"

definition ready :: "(nat \<Rightarrow> 'c val) \<Rightarrow> nat set \<Rightarrow> 'c cg \<Rightarrow> bool" where
  "ready loc V s \<longleftrightarrow> settled loc V s \<and> is_open s"

definition represents :: "(nat \<Rightarrow> 'c val) \<Rightarrow> nat set \<Rightarrow> store \<Rightarrow> 'c mem \<Rightarrow> bool" where
  "represents loc V \<sigma> M \<longleftrightarrow> (\<forall>n \<in> V. M (loc n) = \<sigma> n \<and> in_range kInt (\<sigma> n))"

definition pos :: "'c cg \<Rightarrow> nat \<times> nat" where
  "pos s = (the (cg_at s), length (cg_block s (the (cg_at s))))"

abbreviation config_at :: "'c cg \<Rightarrow> nat \<Rightarrow> regs \<Rightarrow> 'c mem \<Rightarrow> 'c config" where
  "config_at s p \<rho> M \<equiv> (fst (pos s), snd (pos s), p, \<rho>, M)"

text \<open>One more instruction in the open block.\<close>

definition add_instr :: "'c instr \<Rightarrow> 'c cg \<Rightarrow> 'c cg" where
  "add_instr i s = s\<lparr>cg_next := Suc (cg_next s), cg_block := (cg_block s)(the (cg_at s) := cg_block s (the (cg_at s)) @ [(cg_next s, i)])\<rparr>"

lemma insert_open: "is_open s \<Longrightarrow> insert_instr i s = Inr (cg_next s, add_instr i s)"
  by (auto simp: insert_instr_def add_instr_def is_open_def Let_def)

lemma add_instr_fields [simp]:
  "cg_next (add_instr i s) = Suc (cg_next s)" "cg_at (add_instr i s) = cg_at s" "cg_order (add_instr i s) = cg_order s"
  "ctx (add_instr i s) = ctx s" "cg_result (add_instr i s) = cg_result s" "is_volatile (add_instr i s) = is_volatile s"
  "is_bit_field (add_instr i s) = is_bit_field s" "ignore_assign_result (add_instr i s) = ignore_assign_result s"
  "local_ptr (add_instr i s) = local_ptr s" "cg_loose (add_instr i s) = cg_loose s"
  by (simp_all add: add_instr_def ctx_def)

lemma add_instr_block: "cg_block (add_instr i s) b = (if b = the (cg_at s) then cg_block s b @ [(cg_next s, i)] else cg_block s b)"
  by (simp add: add_instr_def)

lemma framed_add [simp]: "is_open s \<Longrightarrow> framed s (add_instr i s)"
  by (auto simp: framed_def new_code_def add_instr_block is_open_def)

lemma numbered_add: "numbered s \<Longrightarrow> is_open s \<Longrightarrow> numbered (add_instr i s)"
  by (auto simp: numbered_def add_instr_block is_open_def less_Suc_eq)

lemma open_add: "is_open s \<Longrightarrow> \<not> isTerminator i \<Longrightarrow> is_open (add_instr i s)"
  by (auto simp: is_open_def getTerminator_def add_instr_block)

lemma settled_add: "settled loc V s \<Longrightarrow> is_open s \<Longrightarrow> settled loc V (add_instr i s)"
  by (simp add: settled_def numbered_add)

lemma ready_add [simp]: "ready loc V s \<Longrightarrow> \<not> isTerminator i \<Longrightarrow> ready loc V (add_instr i s)"
  by (simp add: ready_def settled_add open_add)

lemma ready_open [dest]: "ready loc V s \<Longrightarrow> is_open s"
  by (simp add: ready_def)

text \<open>The result does not matter.\<close>

lemma result_fields [simp]:
  "framed s (s'\<lparr>cg_result := r\<rparr>) = framed s s'" "framed (s\<lparr>cg_result := r\<rparr>) s' = framed s s'"
  "ready loc V (s\<lparr>cg_result := r\<rparr>) = ready loc V s" "pos (s\<lparr>cg_result := r\<rparr>) = pos s"
  "covers s (s'\<lparr>cg_result := r\<rparr>) B = covers s s' B" "covers (s\<lparr>cg_result := r\<rparr>) s' B = covers s s' B"
  "is_open (s\<lparr>cg_result := r\<rparr>) = is_open s" "settled loc V (s\<lparr>cg_result := r\<rparr>) = settled loc V s"
  by (simp_all add: framed_def ready_def settled_def pos_def covers_def numbered_def is_open_def getTerminator_def ctx_def new_code_def)

text \<open>The machine executes the instruction that was added.\<close>

lemma run_added:
  assumes "is_open s" and "framed (add_instr i s) s'" and "covers s s' B"
    and "run_instr G p (cg_next s, i) (\<rho>, M) = Some (\<rho>', M')"
  shows "mstep G B (config_at s p \<rho> M) (config_at (add_instr i s) p \<rho>' M')"
proof -
  obtain b where b: "cg_at s = Some b" using assms(1) by (auto simp: is_open_def)
  have "prefix (cg_block s b @ [(cg_next s, i)]) (B b)"
    using framed_prefix [OF assms(2), of b] assms(3) b
    by (auto simp: add_instr_block covers_def intro: prefix_order.trans)
  then obtain ys where "B b = cg_block s b @ (cg_next s, i) # ys" by (auto simp: prefix_def)
  then show ?thesis
    using mstep.instr [of "length (cg_block s b)" B b G p \<rho> M \<rho>' M'] assms(4)
    by (simp add: pos_def b add_instr_block nth_append)
qed

subsection \<open>What is asked of LLVM\<close>

definition is_const :: "'c val \<Rightarrow> bool" where
  "is_const v \<longleftrightarrow> (\<exists>c. v = Const c)"

fun instr_operands :: "'c instr \<Rightarrow> 'c val set" where
  "instr_operands (I_Bin op a b) = {a, b}"
| "instr_operands (I_Neg nsw a) = {a}"
| "instr_operands (I_Not a) = {a}"
| "instr_operands (I_Cmp p a b) = {a, b}"
| "instr_operands (I_Cast op a t) = {a}"
| "instr_operands (I_Select c a b) = {c, a, b}"
| "instr_operands _ = {}"

text \<open>
  Instructions on integers that are well typed: operands of one type, and conversions to a smaller
  (\<open>trunc\<close>) or larger (\<open>zext\<close>, \<open>sext\<close>) width. Of such an instruction, and only of such, this is asked:
  when the builder returns a value instead of a new instruction, then it is an operand or, when all
  operands are constants, a constant, and it is the value of the instruction. The types of results
  are those of the language reference.
\<close>

fun ir_typed :: "'c genv \<Rightarrow> 'c instr \<Rightarrow> bool" where
  "ir_typed G (I_Bin op a b) = (lt_isIntegerTy (val_type G a) \<and> val_type G b = val_type G a)"
| "ir_typed G (I_Neg nsw a) = lt_isIntegerTy (val_type G a)"
| "ir_typed G (I_Not a) = lt_isIntegerTy (val_type G a)"
| "ir_typed G (I_Cmp p a b) = (lt_isIntegerTy (val_type G a) \<and> val_type G b = val_type G a)"
| "ir_typed G (I_Cast op a t) = (lt_isIntegerTy (val_type G a) \<and> lt_isIntegerTy t \<and>
     (if op = C_Trunc then lt_bits t < lt_bits (val_type G a) else lt_bits (val_type G a) < lt_bits t))"
| "ir_typed G (I_Select c a b) = (val_type G c = LInt 1 \<and> lt_isIntegerTy (val_type G a) \<and> val_type G b = val_type G a)"
| "ir_typed G _ = False"

definition fold_ok :: "'c genv \<Rightarrow> bool" where
  "fold_ok G \<longleftrightarrow> (\<forall>i v. ir_typed G i \<longrightarrow> ir_fold (g_ir G) i = Some v \<longrightarrow>
     (if is_const v then \<forall>a \<in> instr_operands i. is_const a else v \<in> instr_operands i) \<and>
     val_type G v = ir_type (g_ir G) i \<and> (\<forall>\<rho> x. pure_sem G \<rho> i = Some x \<longrightarrow> den G \<rho> v = Some x))"

definition types_ok :: "'c genv \<Rightarrow> bool" where
  "types_ok G \<longleftrightarrow> (\<forall>op a b. ir_type (g_ir G) (I_Bin op a b) = val_type G a) \<and>
     (\<forall>nsw a. ir_type (g_ir G) (I_Neg nsw a) = val_type G a) \<and> (\<forall>a. ir_type (g_ir G) (I_Not a) = val_type G a) \<and>
     (\<forall>p a b. ir_type (g_ir G) (I_Cmp p a b) = LInt 1) \<and> (\<forall>op a t. ir_type (g_ir G) (I_Cast op a t) = t) \<and>
     (\<forall>c a b. ir_type (g_ir G) (I_Select c a b) = val_type G a) \<and>
     (\<forall>a vol t. val_type G a = LPtr t \<longrightarrow> ir_type (g_ir G) (I_Load a vol) = t)"

definition llvm_ok :: "'c genv \<Rightarrow> bool" where
  "llvm_ok G \<longleftrightarrow> llvm_int_laws (g_llvm G) \<and> fold_ok G \<and> types_ok G"

lemma numbered_next: "numbered s \<Longrightarrow> cg_block s (cg_next s) = []"
  by (simp add: numbered_def)

text \<open>Values of constants.\<close>

lemma llvm_ok_base: "llvm_ok G \<Longrightarrow> laws_base (g_llvm G)"
  by (simp add: llvm_ok_def llvm_int_laws_def)

lemma ir_types [simp]:
  assumes "llvm_ok G"
  shows "ir_type (g_ir G) (I_Bin op a b) = val_type G a" "ir_type (g_ir G) (I_Neg nsw a) = val_type G a"
    "ir_type (g_ir G) (I_Not a) = val_type G a" "ir_type (g_ir G) (I_Cmp p a b) = LInt 1"
    "ir_type (g_ir G) (I_Cast cop a t) = t" "ir_type (g_ir G) (I_Select a b c) = val_type G b"
  using assms by (simp_all add: llvm_ok_def types_ok_def)

lemma val_type_int [simp]: "llvm_ok G \<Longrightarrow> 0 < w \<Longrightarrow> val_type G (const_int G (LInt w) x) = LInt w"
  using llvm_ok_base [of G] by (simp add: val_type_def const_int_def laws_base_def)

lemma den_int [simp]: "llvm_ok G \<Longrightarrow> 0 < w \<Longrightarrow> w \<le> 64 \<Longrightarrow> den G \<rho> (const_int G (LInt w) x) = Some (sgn_of w x)"
  using llvm_ok_base [of G] by (simp add: den_def const_int_def laws_base_def)

lemma const_facts [simp]: "below k (const_int G t x)" "is_const (const_int G t x)" "below k (Const c)" "is_const (Const c)"
  "\<not> is_const (Reg n t)" "below k (Reg n t) = (n < k)" "val_type G (Reg n t) = t"
  by (simp_all add: below_def const_int_def is_const_def val_type_def)

lemma not_const_reg: "\<not> is_const v \<Longrightarrow> below k v \<Longrightarrow> \<exists>n t. v = Reg n t \<and> n < k"
  by (cases v) (auto simp: below_def)

subsection \<open>Runs between two states of the generator\<close>

text \<open>
  \<open>flows\<close>: from the place where the builder stood in \<open>s\<close> the machine comes to the place where it
  stands in \<open>s'\<close> and the store changes as said; registers numbered before \<open>s\<close> stay.
\<close>

definition flows :: "'c genv \<Rightarrow> (nat \<Rightarrow> 'c val) \<Rightarrow> nat set \<Rightarrow> 'c cg \<Rightarrow> 'c cg \<Rightarrow> store \<Rightarrow> store \<Rightarrow>
    (regs \<Rightarrow> bool) \<Rightarrow> (regs \<Rightarrow> bool) \<Rightarrow> bool" where
  "flows G loc V s s' \<sigma> \<sigma>' A C \<longleftrightarrow> (\<forall>B p \<rho> M. covers s s' B \<longrightarrow> represents loc V \<sigma> M \<longrightarrow> A \<rho> \<longrightarrow>
     (\<exists>p' \<rho>' M'. runs G B (config_at s p \<rho> M) (config_at s' p' \<rho>' M') \<and> represents loc V \<sigma>' M' \<and>
       agree (cg_next s) \<rho> \<rho>' \<and> C \<rho>'))"

lemma flows_trans:
  assumes "flows G loc V s s1 \<sigma> \<sigma>1 A C" and "flows G loc V s1 s' \<sigma>1 \<sigma>' C D" and "framed s s1" and "framed s1 s'"
  shows "flows G loc V s s' \<sigma> \<sigma>' A D"
  unfolding flows_def
proof (intro allI impI)
  fix B p \<rho> M assume a: "covers s s' B" "represents loc V \<sigma> M" "A \<rho>"
  from assms(1) covers_first [OF assms(3,4) a(1)] a(2,3) obtain p1 \<rho>1 M1 where
    1: "runs G B (config_at s p \<rho> M) (config_at s1 p1 \<rho>1 M1)" "represents loc V \<sigma>1 M1" "agree (cg_next s) \<rho> \<rho>1" "C \<rho>1"
    unfolding flows_def by blast
  from assms(2) covers_second [OF assms(3) a(1)] 1(2,4) obtain p' \<rho>' M' where
    2: "runs G B (config_at s1 p1 \<rho>1 M1) (config_at s' p' \<rho>' M')" "represents loc V \<sigma>' M'" "agree (cg_next s1) \<rho>1 \<rho>'" "D \<rho>'"
    unfolding flows_def by blast
  from rtranclp_trans [OF 1(1) 2(1)] 2(2,4) agree_trans [OF 1(3) 2(3) framed_next [OF assms(3)]]
  show "\<exists>p' \<rho>' M'. runs G B (config_at s p \<rho> M) (config_at s' p' \<rho>' M') \<and> represents loc V \<sigma>' M' \<and>
      agree (cg_next s) \<rho> \<rho>' \<and> D \<rho>'" by blast
qed

lemma flows_refl [simp]: "flows G loc V s s \<sigma> \<sigma> A A"
  unfolding flows_def using rtranclp.rtrancl_refl agree_refl by blast

text \<open>A value that was there before is there afterwards.\<close>

lemma flows_keep:
  assumes "flows G loc V s s' \<sigma> \<sigma>' A C" and "below (cg_next s) v"
  shows "flows G loc V s s' \<sigma> \<sigma>' (\<lambda>\<rho>. A \<rho> \<and> den G \<rho> v = x) (\<lambda>\<rho>. C \<rho> \<and> den G \<rho> v = x)"
  using assms den_agree [OF _ assms(2)] unfolding flows_def by blast

lemma flows_mono:
  assumes "flows G loc V s s' \<sigma> \<sigma>' A C" and "\<And>\<rho>. A' \<rho> \<Longrightarrow> A \<rho>" and "\<And>\<rho>. C \<rho> \<Longrightarrow> C' \<rho>"
  shows "flows G loc V s s' \<sigma> \<sigma>' A' C'"
  using assms unfolding flows_def by blast

lemma flows_result [simp]:
  "flows G loc V (s\<lparr>cg_result := r\<rparr>) s' = flows G loc V s s'" "flows G loc V s (s'\<lparr>cg_result := r\<rparr>) = flows G loc V s s'"
  by (intro ext, simp add: flows_def)+

text \<open>One instruction.\<close>

lemma flows_instr:
  assumes "is_open s" and "\<And>p \<rho> M. represents loc V \<sigma> M \<Longrightarrow> A \<rho> \<Longrightarrow> \<exists>\<rho>' M'.
      run_instr G p (cg_next s, i) (\<rho>, M) = Some (\<rho>', M') \<and> represents loc V \<sigma>' M' \<and> agree (cg_next s) \<rho> \<rho>' \<and> C \<rho>'"
  shows "flows G loc V s (add_instr i s) \<sigma> \<sigma>' A C"
  unfolding flows_def
proof (intro allI impI)
  fix B p \<rho> M assume a: "covers s (add_instr i s) B" "represents loc V \<sigma> M" "A \<rho>"
  from assms(2) [OF a(2,3)] obtain \<rho>' M' where r: "run_instr G p (cg_next s, i) (\<rho>, M) = Some (\<rho>', M')"
    "represents loc V \<sigma>' M'" "agree (cg_next s) \<rho> \<rho>'" "C \<rho>'" by blast
  have "mstep G B (config_at s p \<rho> M) (config_at (add_instr i s) p \<rho>' M')"
    by (rule run_added [OF assms(1) framed_refl a(1) r(1)])
  with r show "\<exists>p' \<rho>' M'. runs G B (config_at s p \<rho> M) (config_at (add_instr i s) p' \<rho>' M') \<and> represents loc V \<sigma>' M' \<and>
      agree (cg_next s) \<rho> \<rho>' \<and> C \<rho>'" by blast
qed

lemma run_pure: "pure_sem G \<rho> i = Some x \<Longrightarrow> run_instr G p (n, i) (\<rho>, M) = Some (\<rho>(n := x), M)"
  by (cases i) auto

lemma pure_no_terminator: "ir_typed G i \<Longrightarrow> \<not> isTerminator i"
  by (cases i) auto

text \<open>An instruction without side effects, or the value the builder has for it.\<close>

lemma build_pure:
  assumes "llvm_ok G" and "ready loc V s" and "ir_typed G i" and "\<forall>a \<in> instr_operands i. below (cg_next s) a"
  obtains v s' where "build G i s = Inr (v, s')" and "framed s s'" and "ready loc V s'" and "val_type G v = ir_type (g_ir G) i"
    and "below (cg_next s') v" and "(\<exists>a \<in> instr_operands i. \<not> is_const a) \<longrightarrow> \<not> is_const v" and "cg_result s' = cg_result s"
    and "\<And>\<sigma> x. flows G loc V s s' \<sigma> \<sigma> (\<lambda>\<rho>. pure_sem G \<rho> i = Some x) (\<lambda>\<rho>. den G \<rho> v = Some x)"
proof (cases "ir_fold (g_ir G) i")
  case None
  let ?v = "Reg (cg_next s) (ir_type (g_ir G) i)" and ?s = "add_instr i s"
  have "flows G loc V s ?s \<sigma> \<sigma> (\<lambda>\<rho>. pure_sem G \<rho> i = Some x) (\<lambda>\<rho>. den G \<rho> ?v = Some x)" for \<sigma> x
    using ready_open [OF assms(2)]
    by (intro flows_instr) (auto simp: run_pure agree_def den_def)
  then show ?thesis
    using assms None that [of ?v ?s]
    by (simp add: build_def emit_def run insert_open ready_open pure_no_terminator [OF assms(3)])
next
  case (Some v)
  from assms(1,3) Some have v: "if is_const v then \<forall>a \<in> instr_operands i. is_const a else v \<in> instr_operands i"
    "val_type G v = ir_type (g_ir G) i" "\<And>\<rho> x. pure_sem G \<rho> i = Some x \<Longrightarrow> den G \<rho> v = Some x"
    unfolding llvm_ok_def fold_ok_def by blast+
  have b: "below (cg_next s) v" using v(1) assms(4) by (auto simp: is_const_def split: if_splits)
  have "flows G loc V s s \<sigma> \<sigma> (\<lambda>\<rho>. pure_sem G \<rho> i = Some x) (\<lambda>\<rho>. den G \<rho> v = Some x)" for \<sigma> x
    by (rule flows_mono [OF flows_refl [where A = "\<lambda>\<rho>. pure_sem G \<rho> i = Some x"]]) (auto intro: v(3))
  moreover have "(\<exists>a \<in> instr_operands i. \<not> is_const a) \<longrightarrow> \<not> is_const v"
    using v(1) by (auto split: if_splits)
  ultimately show ?thesis
    using assms Some v(2) b that [of v s] by (simp add: build_def run)
qed

end
