(* ===== verification/Kcc_SimExpr.thy ===== *)
theory Kcc_SimExpr
  imports Kcc_GenSim
begin

text \<open>
  A calculus for the generator's operations that produce a value. \<open>sim m f\<close>: in every ready state
  \<open>m\<close> succeeds, and the code it emits computes what \<open>f\<close> says of the store. \<open>simv\<close> and \<open>simv2\<close> are
  the same for operations that take one or two values and leave the store alone.
\<close>

definition ranged :: "nat set \<Rightarrow> store \<Rightarrow> bool" where
  "ranged V \<sigma> \<longleftrightarrow> (\<forall>n \<in> V. in_range kInt (\<sigma> n))"

definition fits_type :: "ltype \<Rightarrow> int \<Rightarrow> bool" where
  "fits_type t w \<longleftrightarrow> no_overflow (lt_bits t) w"

text \<open>\<open>K\<close>: the value is not a constant.\<close>

definition gives :: "'c genv \<Rightarrow> (nat \<Rightarrow> 'c val) \<Rightarrow> nat set \<Rightarrow> ltype \<Rightarrow> bool \<Rightarrow> 'c cg \<Rightarrow> 'c val \<Rightarrow> 'c cg \<Rightarrow> bool" where
  "gives G loc V t K s v s' \<longleftrightarrow> framed s s' \<and> ready loc V s' \<and> val_type G v = t \<and> below (cg_next s') v \<and> (K \<longrightarrow> \<not> is_const v)"

definition sim :: "'c genv \<Rightarrow> (nat \<Rightarrow> 'c val) \<Rightarrow> nat set \<Rightarrow> ltype \<Rightarrow> bool \<Rightarrow> ('c, 'c val) gen \<Rightarrow>
    (store \<Rightarrow> (int \<times> store) option) \<Rightarrow> bool" where
  "sim G loc V t K m f \<longleftrightarrow> (\<forall>s. ready loc V s \<longrightarrow> (\<exists>v s'. m s = Inr (v, s') \<and> gives G loc V t K s v s' \<and>
     (\<forall>\<sigma> w \<sigma>'. ranged V \<sigma> \<longrightarrow> f \<sigma> = Some (w, \<sigma>') \<longrightarrow> fits_type t w \<and> ranged V \<sigma>' \<and>
       flows G loc V s s' \<sigma> \<sigma>' (\<lambda>_. True) (\<lambda>\<rho>. den G \<rho> v = Some w))))"

definition simv :: "'c genv \<Rightarrow> (nat \<Rightarrow> 'c val) \<Rightarrow> nat set \<Rightarrow> ltype \<Rightarrow> ltype \<Rightarrow> ('c val \<Rightarrow> ('c, 'c val) gen) \<Rightarrow>
    (int \<Rightarrow> int option) \<Rightarrow> bool" where
  "simv G loc V t t' g h \<longleftrightarrow> (\<forall>a s. ready loc V s \<longrightarrow> val_type G a = t \<longrightarrow> below (cg_next s) a \<longrightarrow>
     (\<exists>v s'. g a s = Inr (v, s') \<and> gives G loc V t' (\<not> is_const a) s v s' \<and>
     (\<forall>\<sigma> x w. fits_type t x \<longrightarrow> h x = Some w \<longrightarrow> fits_type t' w \<and>
       flows G loc V s s' \<sigma> \<sigma> (\<lambda>\<rho>. den G \<rho> a = Some x) (\<lambda>\<rho>. den G \<rho> v = Some w))))"

definition simv2 :: "'c genv \<Rightarrow> (nat \<Rightarrow> 'c val) \<Rightarrow> nat set \<Rightarrow> ltype \<Rightarrow> ltype \<Rightarrow> ('c val \<Rightarrow> 'c val \<Rightarrow> ('c, 'c val) gen) \<Rightarrow>
    (int \<Rightarrow> int \<Rightarrow> int option) \<Rightarrow> bool" where
  "simv2 G loc V t t' g h \<longleftrightarrow> (\<forall>a b s. ready loc V s \<longrightarrow> val_type G a = t \<longrightarrow> val_type G b = t \<longrightarrow>
     below (cg_next s) a \<longrightarrow> below (cg_next s) b \<longrightarrow>
     (\<exists>v s'. g a b s = Inr (v, s') \<and> gives G loc V t' (\<not> is_const a \<or> \<not> is_const b) s v s' \<and>
     (\<forall>\<sigma> x y w. fits_type t x \<longrightarrow> fits_type t y \<longrightarrow> h x y = Some w \<longrightarrow> fits_type t' w \<and>
       flows G loc V s s' \<sigma> \<sigma> (\<lambda>\<rho>. den G \<rho> a = Some x \<and> den G \<rho> b = Some y) (\<lambda>\<rho>. den G \<rho> v = Some w))))"

lemma gives_facts:
  assumes "gives G loc V t K s v s'"
  shows "framed s s'" "ready loc V s'" "val_type G v = t" "below (cg_next s') v" "K \<Longrightarrow> \<not> is_const v"
  using assms by (auto simp: gives_def)

lemma simE:
  assumes "sim G loc V t K m f" and "ready loc V s"
  obtains v s' where "m s = Inr (v, s')" and "gives G loc V t K s v s'"
    and "\<And>\<sigma> w \<sigma>'. ranged V \<sigma> \<Longrightarrow> f \<sigma> = Some (w, \<sigma>') \<Longrightarrow> fits_type t w \<and> ranged V \<sigma>' \<and>
       flows G loc V s s' \<sigma> \<sigma>' (\<lambda>_. True) (\<lambda>\<rho>. den G \<rho> v = Some w)"
  using assms unfolding sim_def by (elim allE [of _ s] impE exE conjE) auto

lemma simvE:
  assumes "simv G loc V t t' g h" and "ready loc V s" and "val_type G a = t" and "below (cg_next s) a"
  obtains v s' where "g a s = Inr (v, s')" and "gives G loc V t' (\<not> is_const a) s v s'"
    and "\<And>\<sigma> x w. fits_type t x \<Longrightarrow> h x = Some w \<Longrightarrow> fits_type t' w \<and>
       flows G loc V s s' \<sigma> \<sigma> (\<lambda>\<rho>. den G \<rho> a = Some x) (\<lambda>\<rho>. den G \<rho> v = Some w)"
  using assms unfolding simv_def by (elim allE [of _ s] allE [of _ a] impE exE conjE) auto

lemma simv2E:
  assumes "simv2 G loc V t t' g h" and "ready loc V s" and "val_type G a = t" and "val_type G b = t"
    and "below (cg_next s) a" and "below (cg_next s) b"
  obtains v s' where "g a b s = Inr (v, s')" and "gives G loc V t' (\<not> is_const a \<or> \<not> is_const b) s v s'"
    and "\<And>\<sigma> x y w. fits_type t x \<Longrightarrow> fits_type t y \<Longrightarrow> h x y = Some w \<Longrightarrow> fits_type t' w \<and>
       flows G loc V s s' \<sigma> \<sigma> (\<lambda>\<rho>. den G \<rho> a = Some x \<and> den G \<rho> b = Some y) (\<lambda>\<rho>. den G \<rho> v = Some w)"
  using assms unfolding simv2_def by (elim allE [of _ s] allE [of _ a] allE [of _ b] impE exE conjE) auto

subsection \<open>Composition\<close>

lemma sim_bnd:
  assumes "sim G loc V t K m f" and "simv G loc V t t' g h"
  shows "sim G loc V t' K (bnd m g) (\<lambda>\<sigma>. Option.bind (f \<sigma>) (\<lambda>(x, \<sigma>'). map_option (\<lambda>w. (w, \<sigma>')) (h x)))"
  unfolding sim_def
proof (intro allI impI)
  fix s assume s: "ready loc V s"
  from simE [OF assms(1) s] obtain a s1 where 1: "m s = Inr (a, s1)" "gives G loc V t K s a s1"
    "\<And>\<sigma> w \<sigma>'. ranged V \<sigma> \<Longrightarrow> f \<sigma> = Some (w, \<sigma>') \<Longrightarrow> fits_type t w \<and> ranged V \<sigma>' \<and>
       flows G loc V s s1 \<sigma> \<sigma>' (\<lambda>_. True) (\<lambda>\<rho>. den G \<rho> a = Some w)"
    by blast
  note g1 = gives_facts [OF 1(2)]
  from simvE [OF assms(2) g1(2-4)] obtain v s' where 2: "g a s1 = Inr (v, s')" "gives G loc V t' (\<not> is_const a) s1 v s'"
    "\<And>\<sigma> x w. fits_type t x \<Longrightarrow> h x = Some w \<Longrightarrow> fits_type t' w \<and>
       flows G loc V s1 s' \<sigma> \<sigma> (\<lambda>\<rho>. den G \<rho> a = Some x) (\<lambda>\<rho>. den G \<rho> v = Some w)"
    by blast
  note g2 = gives_facts [OF 2(2)]
  have "gives G loc V t' K s v s'"
    using framed_trans [OF g1(1) g2(1)] g2 g1(5) by (auto simp: gives_def)
  moreover have "fits_type t' w \<and> ranged V \<sigma>' \<and> flows G loc V s s' \<sigma> \<sigma>' (\<lambda>_. True) (\<lambda>\<rho>. den G \<rho> v = Some w)"
    if r: "ranged V \<sigma>" and e: "Option.bind (f \<sigma>) (\<lambda>(x, \<sigma>'). map_option (\<lambda>w. (w, \<sigma>')) (h x)) = Some (w, \<sigma>')" for \<sigma> w \<sigma>'
  proof -
    from e obtain x where x: "f \<sigma> = Some (x, \<sigma>')" "h x = Some w" by (auto simp: bind_eq_Some_conv)
    from 1(3) [OF r x(1)] 2(3) [OF _ x(2), of \<sigma>'] flows_trans [OF _ _ g1(1) g2(1)] show ?thesis by blast
  qed
  ultimately show "\<exists>v s'. bnd m g s = Inr (v, s') \<and> gives G loc V t' K s v s' \<and>
      (\<forall>\<sigma> w \<sigma>'. ranged V \<sigma> \<longrightarrow> Option.bind (f \<sigma>) (\<lambda>(x, \<sigma>'). map_option (\<lambda>w. (w, \<sigma>')) (h x)) = Some (w, \<sigma>') \<longrightarrow>
        fits_type t' w \<and> ranged V \<sigma>' \<and> flows G loc V s s' \<sigma> \<sigma>' (\<lambda>_. True) (\<lambda>\<rho>. den G \<rho> v = Some w))"
    using 1(1) 2(1) by (simp add: run)
qed

lemma sim_bnd2:
  assumes "sim G loc V t K m f" and "sim G loc V t K' m' f'" and "simv2 G loc V t t' g h"
  shows "sim G loc V t' (K \<or> K') (bnd m (\<lambda>a. bnd m' (g a))) (\<lambda>\<sigma>. Option.bind (f \<sigma>) (\<lambda>(x, \<sigma>1).
    Option.bind (f' \<sigma>1) (\<lambda>(y, \<sigma>2). map_option (\<lambda>w. (w, \<sigma>2)) (h x y))))" (is "sim G loc V t' _ ?m ?f")
  unfolding sim_def
proof (intro allI impI)
  fix s assume s: "ready loc V s"
  from simE [OF assms(1) s] obtain a s1 where 1: "m s = Inr (a, s1)" "gives G loc V t K s a s1"
    "\<And>\<sigma> w \<sigma>'. ranged V \<sigma> \<Longrightarrow> f \<sigma> = Some (w, \<sigma>') \<Longrightarrow> fits_type t w \<and> ranged V \<sigma>' \<and>
       flows G loc V s s1 \<sigma> \<sigma>' (\<lambda>_. True) (\<lambda>\<rho>. den G \<rho> a = Some w)"
    by blast
  note g1 = gives_facts [OF 1(2)]
  from simE [OF assms(2) g1(2)] obtain b s2 where 2: "m' s1 = Inr (b, s2)" "gives G loc V t K' s1 b s2"
    "\<And>\<sigma> w \<sigma>'. ranged V \<sigma> \<Longrightarrow> f' \<sigma> = Some (w, \<sigma>') \<Longrightarrow> fits_type t w \<and> ranged V \<sigma>' \<and>
       flows G loc V s1 s2 \<sigma> \<sigma>' (\<lambda>_. True) (\<lambda>\<rho>. den G \<rho> b = Some w)"
    by blast
  note g2 = gives_facts [OF 2(2)]
  have a2: "below (cg_next s2) a" using below_mono [OF g1(4) framed_next [OF g2(1)]] .
  from simv2E [OF assms(3) g2(2) g1(3) g2(3) a2 g2(4)] obtain v s' where 3: "g a b s2 = Inr (v, s')"
    "gives G loc V t' (\<not> is_const a \<or> \<not> is_const b) s2 v s'"
    "\<And>\<sigma> x y w. fits_type t x \<Longrightarrow> fits_type t y \<Longrightarrow> h x y = Some w \<Longrightarrow> fits_type t' w \<and>
       flows G loc V s2 s' \<sigma> \<sigma> (\<lambda>\<rho>. den G \<rho> a = Some x \<and> den G \<rho> b = Some y) (\<lambda>\<rho>. den G \<rho> v = Some w)"
    by blast
  note g3 = gives_facts [OF 3(2)]
  note f12 = framed_trans [OF g1(1) g2(1)]
  have "gives G loc V t' (K \<or> K') s v s'"
    using framed_trans [OF f12 g3(1)] g3 g1(5) g2(5) by (auto simp: gives_def)
  moreover have "fits_type t' w \<and> ranged V \<sigma>' \<and> flows G loc V s s' \<sigma> \<sigma>' (\<lambda>_. True) (\<lambda>\<rho>. den G \<rho> v = Some w)"
    if r: "ranged V \<sigma>" and e: "?f \<sigma> = Some (w, \<sigma>')" for \<sigma> w \<sigma>'
  proof -
    from e obtain x \<sigma>1 y where x: "f \<sigma> = Some (x, \<sigma>1)" "f' \<sigma>1 = Some (y, \<sigma>')" "h x y = Some w"
      by (auto simp: bind_eq_Some_conv)
    from 1(3) [OF r x(1)] have 4: "fits_type t x" "ranged V \<sigma>1" "flows G loc V s s1 \<sigma> \<sigma>1 (\<lambda>_. True) (\<lambda>\<rho>. den G \<rho> a = Some x)" by auto
    from 2(3) [OF 4(2) x(2)] have 5: "fits_type t y" "ranged V \<sigma>'"
      "flows G loc V s1 s2 \<sigma>1 \<sigma>' (\<lambda>_. True) (\<lambda>\<rho>. den G \<rho> b = Some y)" by auto
    from 3(3) [OF 4(1) 5(1) x(3), of \<sigma>'] have 6: "fits_type t' w"
      "flows G loc V s2 s' \<sigma>' \<sigma>' (\<lambda>\<rho>. den G \<rho> a = Some x \<and> den G \<rho> b = Some y) (\<lambda>\<rho>. den G \<rho> v = Some w)" by auto
    have "flows G loc V s1 s2 \<sigma>1 \<sigma>' (\<lambda>\<rho>. den G \<rho> a = Some x) (\<lambda>\<rho>. den G \<rho> a = Some x \<and> den G \<rho> b = Some y)"
      by (rule flows_mono [OF flows_keep [OF 5(3) g1(4), of "Some x"]]) auto
    with flows_trans [OF flows_trans [OF 4(3) _ g1(1) g2(1)] 6(2) f12 g3(1)] 5(2) 6(1) show ?thesis by blast
  qed
  ultimately show "\<exists>v s'. ?m s = Inr (v, s') \<and> gives G loc V t' (K \<or> K') s v s' \<and>
      (\<forall>\<sigma> w \<sigma>'. ranged V \<sigma> \<longrightarrow> ?f \<sigma> = Some (w, \<sigma>') \<longrightarrow>
        fits_type t' w \<and> ranged V \<sigma>' \<and> flows G loc V s s' \<sigma> \<sigma>' (\<lambda>_. True) (\<lambda>\<rho>. den G \<rho> v = Some w))"
    using 1(1) 2(1) 3(1) by (simp add: run)
qed

lemma simv2_bnd:
  assumes "simv2 G loc V t t1 g h" and "simv G loc V t1 t' g' h'"
  shows "simv2 G loc V t t' (\<lambda>a b. bnd (g a b) g') (\<lambda>x y. Option.bind (h x y) h')"
  unfolding simv2_def
proof (intro allI impI)
  fix a b s assume s: "ready loc V s" "val_type G a = t" "val_type G b = t" "below (cg_next s) a" "below (cg_next s) b"
  from simv2E [OF assms(1) s] obtain u s1 where 1: "g a b s = Inr (u, s1)" "gives G loc V t1 (\<not> is_const a \<or> \<not> is_const b) s u s1"
    "\<And>\<sigma> x y w. fits_type t x \<Longrightarrow> fits_type t y \<Longrightarrow> h x y = Some w \<Longrightarrow> fits_type t1 w \<and>
       flows G loc V s s1 \<sigma> \<sigma> (\<lambda>\<rho>. den G \<rho> a = Some x \<and> den G \<rho> b = Some y) (\<lambda>\<rho>. den G \<rho> u = Some w)"
    by blast
  note g1 = gives_facts [OF 1(2)]
  from simvE [OF assms(2) g1(2-4)] obtain v s' where 2: "g' u s1 = Inr (v, s')" "gives G loc V t' (\<not> is_const u) s1 v s'"
    "\<And>\<sigma> x w. fits_type t1 x \<Longrightarrow> h' x = Some w \<Longrightarrow> fits_type t' w \<and>
       flows G loc V s1 s' \<sigma> \<sigma> (\<lambda>\<rho>. den G \<rho> u = Some x) (\<lambda>\<rho>. den G \<rho> v = Some w)"
    by blast
  note g2 = gives_facts [OF 2(2)]
  have "gives G loc V t' (\<not> is_const a \<or> \<not> is_const b) s v s'"
    using framed_trans [OF g1(1) g2(1)] g2 g1(5) by (auto simp: gives_def)
  moreover have "fits_type t' w \<and> flows G loc V s s' \<sigma> \<sigma> (\<lambda>\<rho>. den G \<rho> a = Some x \<and> den G \<rho> b = Some y) (\<lambda>\<rho>. den G \<rho> v = Some w)"
    if "fits_type t x" "fits_type t y" "Option.bind (h x y) h' = Some w" for \<sigma> x y w
  proof -
    from that(3) obtain z where z: "h x y = Some z" "h' z = Some w" by (auto simp: bind_eq_Some_conv)
    from 1(3) [OF that(1,2) z(1), of \<sigma>] 2(3) [OF _ z(2), of \<sigma>] flows_trans [OF _ _ g1(1) g2(1)] show ?thesis by blast
  qed
  ultimately show "\<exists>v s'. bnd (g a b) g' s = Inr (v, s') \<and> gives G loc V t' (\<not> is_const a \<or> \<not> is_const b) s v s' \<and>
      (\<forall>\<sigma> x y w. fits_type t x \<longrightarrow> fits_type t y \<longrightarrow> Option.bind (h x y) h' = Some w \<longrightarrow> fits_type t' w \<and>
        flows G loc V s s' \<sigma> \<sigma> (\<lambda>\<rho>. den G \<rho> a = Some x \<and> den G \<rho> b = Some y) (\<lambda>\<rho>. den G \<rho> v = Some w))"
    using 1(1) 2(1) by (simp add: run)
qed


lemma simv_bnd:
  assumes "simv G loc V t t1 g h" and "simv G loc V t1 t' g' h'"
  shows "simv G loc V t t' (\<lambda>a. bnd (g a) g') (\<lambda>x. Option.bind (h x) h')"
  unfolding simv_def
proof (intro allI impI)
  fix a s assume s: "ready loc V s" "val_type G a = t" "below (cg_next s) a"
  from simvE [OF assms(1) s] obtain u s1 where 1: "g a s = Inr (u, s1)" "gives G loc V t1 (\<not> is_const a) s u s1"
    "\<And>\<sigma> x w. fits_type t x \<Longrightarrow> h x = Some w \<Longrightarrow> fits_type t1 w \<and>
       flows G loc V s s1 \<sigma> \<sigma> (\<lambda>\<rho>. den G \<rho> a = Some x) (\<lambda>\<rho>. den G \<rho> u = Some w)"
    by blast
  note g1 = gives_facts [OF 1(2)]
  from simvE [OF assms(2) g1(2-4)] obtain v s' where 2: "g' u s1 = Inr (v, s')" "gives G loc V t' (\<not> is_const u) s1 v s'"
    "\<And>\<sigma> x w. fits_type t1 x \<Longrightarrow> h' x = Some w \<Longrightarrow> fits_type t' w \<and>
       flows G loc V s1 s' \<sigma> \<sigma> (\<lambda>\<rho>. den G \<rho> u = Some x) (\<lambda>\<rho>. den G \<rho> v = Some w)"
    by blast
  note g2 = gives_facts [OF 2(2)]
  have "gives G loc V t' (\<not> is_const a) s v s'"
    using framed_trans [OF g1(1) g2(1)] g2 g1(5) by (auto simp: gives_def)
  moreover have "fits_type t' w \<and> flows G loc V s s' \<sigma> \<sigma> (\<lambda>\<rho>. den G \<rho> a = Some x) (\<lambda>\<rho>. den G \<rho> v = Some w)"
    if "fits_type t x" "Option.bind (h x) h' = Some w" for \<sigma> x w
  proof -
    from that(2) obtain z where z: "h x = Some z" "h' z = Some w" by (auto simp: bind_eq_Some_conv)
    from 1(3) [OF that(1) z(1), of \<sigma>] 2(3) [OF _ z(2), of \<sigma>] flows_trans [OF _ _ g1(1) g2(1)] show ?thesis by blast
  qed
  ultimately show "\<exists>v s'. bnd (g a) g' s = Inr (v, s') \<and> gives G loc V t' (\<not> is_const a) s v s' \<and>
      (\<forall>\<sigma> x w. fits_type t x \<longrightarrow> Option.bind (h x) h' = Some w \<longrightarrow> fits_type t' w \<and>
        flows G loc V s s' \<sigma> \<sigma> (\<lambda>\<rho>. den G \<rho> a = Some x) (\<lambda>\<rho>. den G \<rho> v = Some w))"
    using 1(1) 2(1) by (simp add: run)
qed

subsection \<open>Single instructions\<close>

lemma simv_build:
  assumes "llvm_ok G" and "\<And>a. a \<in> instr_operands (i a) \<and> (\<forall>x \<in> instr_operands (i a). x = a \<or> is_const x)"
    and "\<And>a. val_type G a = t \<Longrightarrow> ir_typed G (i a) \<and> ir_type (g_ir G) (i a) = t'"
    and "\<And>a \<rho> x w. val_type G a = t \<Longrightarrow> den G \<rho> a = Some x \<Longrightarrow> fits_type t x \<Longrightarrow> h x = Some w \<Longrightarrow>
      pure_sem G \<rho> (i a) = Some w"
    and "\<And>x w. fits_type t x \<Longrightarrow> h x = Some w \<Longrightarrow> fits_type t' w"
  shows "simv G loc V t t' (\<lambda>a. build G (i a)) h"
  unfolding simv_def
proof (intro allI impI)
  fix a s assume s: "ready loc V s" "val_type G a = t" "below (cg_next s) a"
  have ops: "ir_typed G (i a)" "\<forall>x \<in> instr_operands (i a). below (cg_next s) x"
    using assms(2) [of a] assms(3) [OF s(2)] s(3) by (auto simp: is_const_def)
  show "\<exists>v s'. build G (i a) s = Inr (v, s') \<and> gives G loc V t' (\<not> is_const a) s v s' \<and>
      (\<forall>\<sigma> x w. fits_type t x \<longrightarrow> h x = Some w \<longrightarrow> fits_type t' w \<and>
        flows G loc V s s' \<sigma> \<sigma> (\<lambda>\<rho>. den G \<rho> a = Some x) (\<lambda>\<rho>. den G \<rho> v = Some w))"
  proof (rule build_pure [OF assms(1) s(1) ops])
    fix v s' assume b: "build G (i a) s = Inr (v, s')" "framed s s'" "ready loc V s'" "val_type G v = ir_type (g_ir G) (i a)"
      "below (cg_next s') v" "(\<exists>x \<in> instr_operands (i a). \<not> is_const x) \<longrightarrow> \<not> is_const v"
      "\<And>\<sigma> x. flows G loc V s s' \<sigma> \<sigma> (\<lambda>\<rho>. pure_sem G \<rho> (i a) = Some x) (\<lambda>\<rho>. den G \<rho> v = Some x)"
    have "gives G loc V t' (\<not> is_const a) s v s'"
      using b assms(2) [of a] assms(3) [OF s(2)] by (auto simp: gives_def)
    moreover have "fits_type t' w \<and> flows G loc V s s' \<sigma> \<sigma> (\<lambda>\<rho>. den G \<rho> a = Some x) (\<lambda>\<rho>. den G \<rho> v = Some w)"
      if "fits_type t x" "h x = Some w" for \<sigma> x w
    proof
      show "fits_type t' w" by (rule assms(5) [OF that])
      show "flows G loc V s s' \<sigma> \<sigma> (\<lambda>\<rho>. den G \<rho> a = Some x) (\<lambda>\<rho>. den G \<rho> v = Some w)"
        by (rule flows_mono [OF b(7)]) (use assms(4) [OF s(2) _ that] in auto)
    qed
    ultimately show ?thesis using b(1) by blast
  qed
qed

lemma simv2_build:
  assumes "llvm_ok G" and "\<And>a b. instr_operands (i a b) = {a, b}"
    and "\<And>a b. val_type G a = t \<Longrightarrow> val_type G b = t \<Longrightarrow> ir_typed G (i a b) \<and> ir_type (g_ir G) (i a b) = t'"
    and "\<And>a b \<rho> x y w. val_type G a = t \<Longrightarrow> den G \<rho> a = Some x \<Longrightarrow> den G \<rho> b = Some y \<Longrightarrow> fits_type t x \<Longrightarrow> fits_type t y \<Longrightarrow>
      h x y = Some w \<Longrightarrow> pure_sem G \<rho> (i a b) = Some w"
    and "\<And>x y w. fits_type t x \<Longrightarrow> fits_type t y \<Longrightarrow> h x y = Some w \<Longrightarrow> fits_type t' w"
  shows "simv2 G loc V t t' (\<lambda>a b. build G (i a b)) h"
  unfolding simv2_def
proof (intro allI impI)
  fix a b s assume s: "ready loc V s" "val_type G a = t" "val_type G b = t" "below (cg_next s) a" "below (cg_next s) b"
  have ops: "ir_typed G (i a b)" "\<forall>x \<in> instr_operands (i a b). below (cg_next s) x"
    using assms(2) [of a b] assms(3) [OF s(2,3)] s(4,5) by auto
  show "\<exists>v s'. build G (i a b) s = Inr (v, s') \<and> gives G loc V t' (\<not> is_const a \<or> \<not> is_const b) s v s' \<and>
      (\<forall>\<sigma> x y w. fits_type t x \<longrightarrow> fits_type t y \<longrightarrow> h x y = Some w \<longrightarrow> fits_type t' w \<and>
        flows G loc V s s' \<sigma> \<sigma> (\<lambda>\<rho>. den G \<rho> a = Some x \<and> den G \<rho> b = Some y) (\<lambda>\<rho>. den G \<rho> v = Some w))"
  proof (rule build_pure [OF assms(1) s(1) ops])
    fix v s' assume u: "build G (i a b) s = Inr (v, s')" "framed s s'" "ready loc V s'" "val_type G v = ir_type (g_ir G) (i a b)"
      "below (cg_next s') v" "(\<exists>x \<in> instr_operands (i a b). \<not> is_const x) \<longrightarrow> \<not> is_const v"
      "\<And>\<sigma> x. flows G loc V s s' \<sigma> \<sigma> (\<lambda>\<rho>. pure_sem G \<rho> (i a b) = Some x) (\<lambda>\<rho>. den G \<rho> v = Some x)"
    have "gives G loc V t' (\<not> is_const a \<or> \<not> is_const b) s v s'"
      using u assms(2) [of a b] assms(3) [OF s(2,3)] by (auto simp: gives_def)
    moreover have "flows G loc V s s' \<sigma> \<sigma> (\<lambda>\<rho>. den G \<rho> a = Some x \<and> den G \<rho> b = Some y) (\<lambda>\<rho>. den G \<rho> v = Some w)"
      if "fits_type t x" "fits_type t y" "h x y = Some w" for \<sigma> x y w
      by (rule flows_mono [OF u(7)]) (use assms(4) [OF s(2) _ _ that] in auto)
    ultimately show ?thesis using u(1) assms(5) by blast
  qed
qed

subsection \<open>The operators on \<open>int\<close>\<close>

abbreviation T_int :: ltype where "T_int \<equiv> LInt 32"
abbreviation T_bool :: ltype where "T_bool \<equiv> LInt 1"

lemma fits_int: "fits_type T_int w \<longleftrightarrow> in_range kInt w"
  by (auto simp: fits_type_def no_overflow_def in_range_def c_range_def c_unsigned_def c_bits_def has_def)

lemma fits_bool: "fits_type T_bool w \<longleftrightarrow> w = 0 \<or> w = - 1"
  by (auto simp: fits_type_def no_overflow_def)

lemma fits_sgn: "fits_type (LInt w) v \<Longrightarrow> 0 < w \<Longrightarrow> sgn_of w v = v"
  by (auto simp: fits_type_def no_overflow_def sgn_of_def intro!: signed_take_bit_int_eq_self)

lemma fits_truth [simp]: "fits_type T_int (truth v)" "fits_type T_int 0" "fits_type T_int 1" "fits_type T_bool 0" "fits_type T_bool (- truth v)" "fits_type T_bool (- 1)"
  by (auto simp: fits_type_def no_overflow_def truth_def)

lemma take_bit_zero_iff:
  assumes "fits_type T_int x"
  shows "take_bit 32 x = 0 \<longleftrightarrow> x = 0"
proof -
  have "signed_take_bit 31 (take_bit 32 x) = x"
    using fits_sgn [OF assms] by (simp add: sgn_of_def signed_take_bit_take_bit)
  then show ?thesis by (metis signed_take_bit_of_0 take_bit_of_0)
qed

lemma sim_to_bool:
  assumes "llvm_ok G"
  shows "simv G loc V T_int T_bool (CastToBool G) (\<lambda>x. Some (- truth x))"
proof -
  have "simv G loc V T_int T_bool (\<lambda>a. build G (I_Cmp ICMP_NE a (const_int G T_int 0))) (\<lambda>x. Some (- truth x))"
    using assms
    by (intro simv_build) (auto simp: bind2_def icmp_preds_def truth_def take_bit_zero_iff sgn_of_def simp del: One_nat_def)
  then show ?thesis
    by (auto simp: simv_def CastToBool_def GetZero_def run simp del: One_nat_def)
qed

lemma c_arith_int: "c_arith kInt v = fits_in 32 v"
  using fits_int [of v] by (simp add: c_arith_def fits_in_def fits_type_def c_unsigned_def has_def)

lemma fits_in_fits: "fits_in 32 v = Some w \<Longrightarrow> fits_type T_int w"
  by (auto simp: fits_in_def fits_type_def split: if_splits)

lemma sim_neg: "llvm_ok G \<Longrightarrow> simv G loc V T_int T_int (\<lambda>a. CodeGen_NegOp G a False) (c_unary Tag_kMinus kInt)"
  using simv_build [of G "\<lambda>a. I_Neg True a" T_int T_int "c_unary Tag_kMinus kInt" loc V]
  by (force simp: simv_def CodeGen_NegOp_def c_unary_def c_arith_int intro: fits_in_fits)

lemma sim_not: "llvm_ok G \<Longrightarrow> simv G loc V T_int T_int (\<lambda>a. build G (I_Not a)) (c_unary Tag_kTilde kInt)"
  by (intro simv_build) (auto simp: c_unary_def c_arith_int fits_in_def fits_type_def split: if_splits)

lemma sim_plus: "llvm_ok G \<Longrightarrow> simv G loc V T_int T_int ret (c_unary Tag_kPlus kInt)"
  by (auto simp: simv_def ret_def gives_def c_unary_def intro!: flows_mono [OF flows_refl])

lemma take_bit_1: "take_bit 1 x = 0 \<or> take_bit 1 x = (1 :: int)"
proof -
  have "0 \<le> take_bit 1 x" "take_bit 1 x < 2" using take_bit_int_less_exp [of 1 x] by simp_all
  then show ?thesis by linarith
qed

lemma fits_take_bit_1 [simp]: "fits_type T_int (take_bit 1 x)"
  using take_bit_1 [of x] by auto

lemma sim_as_int: "llvm_ok G \<Longrightarrow> simv G loc V T_bool T_int (as_int G) (\<lambda>x. Some (take_bit 1 x))"
  unfolding as_int_def by (intro simv_build) (auto simp del: One_nat_def)

lemma sim_bool_not: "llvm_ok G \<Longrightarrow> simv G loc V T_bool T_bool (\<lambda>a. build G (I_Not a)) (\<lambda>x. Some (NOT x))"
  by (intro simv_build) (auto simp: fits_bool simp del: One_nat_def)

lemma simv_cong: "simv G loc V t t' g h \<Longrightarrow> (\<And>x. fits_type t x \<Longrightarrow> h x = h' x) \<Longrightarrow> simv G loc V t t' g h'"
  unfolding simv_def by fastforce

lemma simv2_cong: "simv2 G loc V t t' g h \<Longrightarrow> (\<And>x y. fits_type t x \<Longrightarrow> fits_type t y \<Longrightarrow> h x y = h' x y) \<Longrightarrow> simv2 G loc V t t' g h'"
  unfolding simv2_def by fastforce

lemma sim_logic_not:
  assumes "llvm_ok G"
  shows "simv G loc V T_int T_int (CodeGen_LogicNotOp G) (\<lambda>x. Some (of_bool (x = 0)))"
proof -
  have "simv G loc V T_int T_int (CodeGen_LogicNotOp G)
      (\<lambda>x. Option.bind (Some (- truth x)) (\<lambda>x. Option.bind (Some (NOT x)) (\<lambda>x. Some (take_bit 1 x))))"
    unfolding CodeGen_LogicNotOp_def
    using simv_bnd [OF sim_to_bool simv_bnd [OF sim_bool_not sim_as_int]] assms unfolding as_int_def by blast
  then show ?thesis by (rule simv_cong) (simp add: truth_def)
qed

subsection \<open>Binary operators\<close>

definition arith_ops :: "tag set" where
  "arith_ops = {Tag_kPlus, Tag_kMinus, Tag_kStar, Tag_kSlash, Tag_kPercent, Tag_kPipe, Tag_kAmp, Tag_kCaret}"

definition compare_ops :: "tag set" where
  "compare_ops = {Tag_kEqualEqual, Tag_kExclaimEqual, Tag_kLess, Tag_kLessEqual, Tag_kGreater, Tag_kGreaterEqual}"

lemma int_is_int: "kInt \<in> set int_specs" "c_bits kInt = 32" "c_unsigned kInt = False"
  by (simp_all add: int_specs_def c_bits_def c_unsigned_def has_def)

lemma simv2_eq:
  "simv2 G loc V t t' g h \<Longrightarrow> (\<And>a b. val_type G a = t \<Longrightarrow> val_type G b = t \<Longrightarrow> g' a b = g a b) \<Longrightarrow>
    (\<And>x y. fits_type t x \<Longrightarrow> fits_type t y \<Longrightarrow> h x y = h' x y) \<Longrightarrow> simv2 G loc V t t' g' h'"
  unfolding simv2_def by fastforce

lemma sim_bin:
  assumes "llvm_ok G" and "bop \<in> {O_NSWAdd, O_NSWSub, O_NSWMul, O_SDiv, O_SRem, O_Or, O_And, O_Xor}"
  shows "simv2 G loc V T_int T_int (\<lambda>a b. build G (I_Bin bop a b)) (bin_sem bop 32)"
proof (rule simv2_build [OF assms(1)])
  fix x y w assume a: "fits_type T_int x" "fits_type T_int y" "bin_sem bop 32 x y = Some w"
  show "fits_type T_int w"
    using a assms(2) bit_ops_in_range [of kInt x y] smod_in_range [of kInt x y] int_is_int(1)
    by (auto simp: fits_int c_arith_int [symmetric] c_arith_def int_is_int split: if_splits)
qed (auto simp: assms(1) bind2_def)

lemmas binary_defs = binary_value_def CodeGen_AddOp_def CodeGen_SubOp_def CodeGen_SubOp_int_def
  CodeGen_MulOp_def CodeGen_DivOp_def CodeGen_ModOp_def CodeGen_OrOp_def CodeGen_AndOp_def CodeGen_XorOp_def
  c_binary_def c_arith_int

lemma sim_arith:
  assumes "llvm_ok G" and "op \<in> arith_ops"
  shows "simv2 G loc V T_int T_int (\<lambda>a b. binary_value G op a b False) (c_binary op kInt)"
proof -
  note 1 = sim_bin [OF assms(1), of _ loc V]
  from assms(2) consider "op = Tag_kPlus" | "op = Tag_kMinus" | "op = Tag_kStar" | "op = Tag_kSlash" | "op = Tag_kPercent"
    | "op = Tag_kPipe" | "op = Tag_kAmp" | "op = Tag_kCaret" unfolding arith_ops_def by blast
  then show ?thesis
  proof cases
    case 1 then show ?thesis by (intro simv2_eq [OF sim_bin [OF assms(1), of O_NSWAdd]]) (simp_all add: binary_defs)
  next
    case 2 then show ?thesis by (intro simv2_eq [OF sim_bin [OF assms(1), of O_NSWSub]]) (simp_all add: binary_defs)
  next
    case 3 then show ?thesis by (intro simv2_eq [OF sim_bin [OF assms(1), of O_NSWMul]]) (simp_all add: binary_defs)
  next
    case 4 then show ?thesis by (intro simv2_eq [OF sim_bin [OF assms(1), of O_SDiv]]) (simp_all add: binary_defs)
  next
    case 5 then show ?thesis by (intro simv2_eq [OF sim_bin [OF assms(1), of O_SRem]]) (simp_all add: binary_defs)
  next
    case 6 then show ?thesis by (intro simv2_eq [OF sim_bin [OF assms(1), of O_Or]]) (simp_all add: binary_defs)
  next
    case 7 then show ?thesis by (intro simv2_eq [OF sim_bin [OF assms(1), of O_And]]) (simp_all add: binary_defs)
  next
    case 8 then show ?thesis by (intro simv2_eq [OF sim_bin [OF assms(1), of O_Xor]]) (simp_all add: binary_defs)
  qed
qed

lemma sim_compare_pred:
  assumes "llvm_ok G" and "p \<in> icmp_preds"
  shows "simv2 G loc V T_int T_int (compare_to_int G p) (\<lambda>x y. Some (of_bool (icmp p 32 x y)))"
proof -
  have "simv2 G loc V T_int T_bool (\<lambda>a b. build G (I_Cmp p a b)) (\<lambda>x y. Some (- of_bool (icmp p 32 x y)))"
    using assms by (intro simv2_build) (auto simp: bind2_def fits_bool simp del: One_nat_def)
  from simv2_bnd [OF this sim_as_int [OF assms(1), unfolded as_int_def]] show ?thesis
    by (rule simv2_eq) (simp_all add: compare_to_int_def)
qed

lemma icmp_int:
  assumes "fits_type T_int x" and "fits_type T_int y"
  shows "icmp ICMP_EQ 32 x y \<longleftrightarrow> x = y" "icmp ICMP_NE 32 x y \<longleftrightarrow> x \<noteq> y"
    "icmp ICMP_SLT 32 x y \<longleftrightarrow> x < y" "icmp ICMP_SLE 32 x y \<longleftrightarrow> x \<le> y" "icmp ICMP_SGT 32 x y \<longleftrightarrow> x > y" "icmp ICMP_SGE 32 x y \<longleftrightarrow> x \<ge> y"
proof -
  have "take_bit 32 x = take_bit 32 y \<longleftrightarrow> x = y"
    using fits_sgn [OF assms(1)] fits_sgn [OF assms(2)]
    by (metis sgn_of_def sgn_take_bit zero_less_numeral)
  then show "icmp ICMP_EQ 32 x y \<longleftrightarrow> x = y" "icmp ICMP_NE 32 x y \<longleftrightarrow> x \<noteq> y" by simp_all
qed (simp_all add: fits_sgn assms)

lemmas compare_defs = binary_value_def CodeGen_EqualOp_def CodeGen_NotEqualOp_def CodeGen_LessOp_def CodeGen_LessEqualOp_def
  CodeGen_GreaterOp_def CodeGen_GreaterEqualOp_def CodeGen_order_def CodeGen_equality_def c_binary_def icmp_int

lemma sim_compare:
  assumes "llvm_ok G" and "op \<in> compare_ops"
  shows "simv2 G loc V T_int T_int (\<lambda>a b. binary_value G op a b False) (c_binary op kInt)"
proof -
  from assms(2) consider "op = Tag_kEqualEqual" | "op = Tag_kExclaimEqual" | "op = Tag_kLess" | "op = Tag_kLessEqual"
    | "op = Tag_kGreater" | "op = Tag_kGreaterEqual" unfolding compare_ops_def by blast
  then show ?thesis
  proof cases
    case 1 then show ?thesis by (intro simv2_eq [OF sim_compare_pred [OF assms(1), of ICMP_EQ]]) (simp_all add: compare_defs icmp_preds_def del: icmp.simps)
  next
    case 2 then show ?thesis by (intro simv2_eq [OF sim_compare_pred [OF assms(1), of ICMP_NE]]) (simp_all add: compare_defs icmp_preds_def del: icmp.simps)
  next
    case 3 then show ?thesis by (intro simv2_eq [OF sim_compare_pred [OF assms(1), of ICMP_SLT]]) (simp_all add: compare_defs icmp_preds_def del: icmp.simps)
  next
    case 4 then show ?thesis by (intro simv2_eq [OF sim_compare_pred [OF assms(1), of ICMP_SLE]]) (simp_all add: compare_defs icmp_preds_def del: icmp.simps)
  next
    case 5 then show ?thesis by (intro simv2_eq [OF sim_compare_pred [OF assms(1), of ICMP_SGT]]) (simp_all add: compare_defs icmp_preds_def del: icmp.simps)
  next
    case 6 then show ?thesis by (intro simv2_eq [OF sim_compare_pred [OF assms(1), of ICMP_SGE]]) (simp_all add: compare_defs icmp_preds_def del: icmp.simps)
  qed
qed

end
