(* ===== verification/Kcc_SimPlace.thy ===== *)
theory Kcc_SimPlace
  imports Kcc_SimExpr
begin

text \<open>
  Constants, objects and the operations that change an object: assignment, \<open>++\<close> and \<open>--\<close>. The
  objects are local \<open>int\<close> objects without qualifiers; \<open>loc\<close> gives each its own pointer.
\<close>

definition local_int :: "'c genv \<Rightarrow> nat \<Rightarrow> bool" where
  "local_int G n \<longleftrightarrow> obj_type (obj G n) = (ArithT kInt, 0) \<and> \<not> IsGlobalVar (obj G n) \<and> \<not> IsLocalStaticVar (obj G n)"

definition places_ok :: "'c genv \<Rightarrow> (nat \<Rightarrow> 'c val) \<Rightarrow> nat set \<Rightarrow> bool" where
  "places_ok G loc V \<longleftrightarrow> (\<forall>n \<in> V. local_int G n \<and> val_type G (loc n) = LPtr T_int) \<and> inj_on loc V"

text \<open>Updates of fields that are not looked at.\<close>

lemma struct_fields [simp]:
  "framed s (s'\<lparr>load_struct := b\<rparr>) = framed s s'" "framed (s\<lparr>load_struct := b\<rparr>) s' = framed s s'"
  "ready loc V (s\<lparr>load_struct := b\<rparr>) = ready loc V s" "pos (s\<lparr>load_struct := b\<rparr>) = pos s"
  "covers s (s'\<lparr>load_struct := b\<rparr>) B = covers s s' B" "covers (s\<lparr>load_struct := b\<rparr>) s' B = covers s s' B"
  by (simp_all add: framed_def ready_def settled_def pos_def covers_def numbered_def is_open_def getTerminator_def ctx_def new_code_def)

lemma flows_struct [simp]:
  "flows G loc V (s\<lparr>load_struct := b\<rparr>) s' = flows G loc V s s'" "flows G loc V s (s'\<lparr>load_struct := b\<rparr>) = flows G loc V s s'"
  by (intro ext, simp add: flows_def)+

lemma no_change [simp]:
  "ready loc V s \<Longrightarrow> s\<lparr>is_volatile := False\<rparr> = s" "ready loc V s \<Longrightarrow> s\<lparr>ignore_assign_result := False\<rparr> = s"
  by (cases s; simp add: ready_def settled_def)+

lemma ready_flags:
  assumes "ready loc V s"
  shows "is_volatile s = False" "is_bit_field s = False" "ignore_assign_result s = False" "n \<in> V \<Longrightarrow> local_ptr s n = Some (loc n)"
  using assms by (simp_all add: ready_def settled_def)

lemma sim_with_struct: "sim G loc V t K m f \<Longrightarrow> sim G loc V t K (with_struct m) f"
  unfolding sim_def
proof (intro allI impI)
  fix s assume m: "\<forall>s. ready loc V s \<longrightarrow> (\<exists>v s'. m s = Inr (v, s') \<and> gives G loc V t K s v s' \<and>
     (\<forall>\<sigma> w \<sigma>'. ranged V \<sigma> \<longrightarrow> f \<sigma> = Some (w, \<sigma>') \<longrightarrow> fits_type t w \<and> ranged V \<sigma>' \<and>
       flows G loc V s s' \<sigma> \<sigma>' (\<lambda>_. True) (\<lambda>\<rho>. den G \<rho> v = Some w)))" and s: "ready loc V s"
  from m [rule_format, of "s\<lparr>load_struct := True\<rparr>"] s show "\<exists>v s'. with_struct m s = Inr (v, s') \<and> gives G loc V t K s v s' \<and>
     (\<forall>\<sigma> w \<sigma>'. ranged V \<sigma> \<longrightarrow> f \<sigma> = Some (w, \<sigma>') \<longrightarrow> fits_type t w \<and> ranged V \<sigma>' \<and>
       flows G loc V s s' \<sigma> \<sigma>' (\<lambda>_. True) (\<lambda>\<rho>. den G \<rho> v = Some w))"
    by (auto simp: with_struct_def run gives_def)
qed

subsection \<open>Results\<close>

lemma sim_result: "sim G loc V t K m f \<Longrightarrow> sim G loc V t K (thn (bnd m set_result) result_of) f"
  unfolding sim_def by (fastforce simp: run set_result_def result_of_def gives_def)

lemma sim_ret:
  assumes "val_type G v = t" and "\<And>k. below k v" and "K \<longrightarrow> \<not> is_const v" and "\<And>\<sigma> w \<sigma>'. ranged V \<sigma> \<Longrightarrow> f \<sigma> = Some (w, \<sigma>') \<Longrightarrow>
    fits_type t w \<and> \<sigma>' = \<sigma> \<and> (\<forall>\<rho>. den G \<rho> v = Some w)"
  shows "sim G loc V t K (ret v) f"
  unfolding sim_def
proof (intro allI impI)
  fix s assume s: "ready loc V s"
  have "fits_type t w \<and> ranged V \<sigma>' \<and> flows G loc V s s \<sigma> \<sigma>' (\<lambda>_. True) (\<lambda>\<rho>. den G \<rho> v = Some w)"
    if "ranged V \<sigma>" "f \<sigma> = Some (w, \<sigma>')" for \<sigma> w \<sigma>'
    using assms(4) [OF that] that(1) flows_mono [OF flows_refl [where A = "\<lambda>_. True"]] by auto
  with s assms(1-3) show "\<exists>v' s'. ret v s = Inr (v', s') \<and> gives G loc V t K s v' s' \<and>
      (\<forall>\<sigma> w \<sigma>'. ranged V \<sigma> \<longrightarrow> f \<sigma> = Some (w, \<sigma>') \<longrightarrow> fits_type t w \<and> ranged V \<sigma>' \<and>
        flows G loc V s s' \<sigma> \<sigma>' (\<lambda>_. True) (\<lambda>\<rho>. den G \<rho> v' = Some w))"
    by (auto simp: ret_def gives_def)
qed

lemma value_with: "value_of (visitors_with G P) e = thn (Accept_expr G P e) result_of"
  by (simp add: value_of_def visitors_with_def)

lemma sgn_fits: "fits_type T_int (sgn_of 32 v)"
  using signed_take_bit_int_less_exp [of 31 v] signed_take_bit_int_greater_eq_minus_exp [of 31 v]
  by (simp add: fits_type_def no_overflow_def sgn_of_def)

lemma int_llvm_type [simp]: "Arithmetic_LLVMType kInt = Inr T_int"
  by code_simp

lemma llvm_type_int [run]: "llvm_type G (ArithT kInt) s = Inr (T_int, s)"
  by (simp add: llvm_type_def run)

lemma value_int: "value_of (visitors_with G P) (EInt (ArithT kInt, 0) v) = thn (bnd (ret (const_int G T_int v)) set_result) result_of"
  by (rule ext) (simp add: value_with Accept_expr_def Visit_ConstantExpr_def run const_int_def)

lemma sim_const:
  assumes "llvm_ok G"
  shows "sim G loc V T_int False (value_of (visitors_with G P) (EInt (ArithT kInt, 0) v)) (ev (EInt (ArithT kInt, 0) v))"
  unfolding value_int using assms by (intro sim_result sim_ret) (auto simp: sgn_fits)

text \<open>A load from the place of an object.\<close>

lemma flows_load:
  assumes "ready loc V s" and "n \<in> V"
  shows "flows G loc V s (add_instr (I_Load (loc n) vol) s) \<sigma> \<sigma> (\<lambda>_. True) (\<lambda>\<rho>. den G \<rho> (Reg (cg_next s) t) = Some (\<sigma> n))"
  by (rule flows_instr [OF ready_open [OF assms(1)]]) (use assms(2) in \<open>simp add: represents_def den_def agree_def\<close>)

lemma load_run:
  assumes "llvm_ok G" and "places_ok G loc V" and "n \<in> V" and "ready loc V s"
  shows "CreateLoad G (loc n) s = Inr (Reg (cg_next s) T_int, add_instr (I_Load (loc n) False) s)"
proof -
  have "ir_type (g_ir G) (I_Load (loc n) False) = T_int"
    using assms(1-3) unfolding llvm_ok_def types_ok_def places_ok_def by blast
  then show ?thesis
    using ready_flags(1) [OF assms(4)] by (simp add: CreateLoad_def emit_def run insert_open [OF ready_open [OF assms(4)]])
qed

lemma sim_load:
  assumes "llvm_ok G" and "places_ok G loc V" and "n \<in> V"
  shows "sim G loc V T_int True (CreateLoad G (loc n)) (\<lambda>\<sigma>. Some (\<sigma> n, \<sigma>))"
  unfolding sim_def
proof (intro allI impI)
  fix s assume s: "ready loc V s"
  let ?s = "add_instr (I_Load (loc n) False) s"
  have "gives G loc V T_int True s (Reg (cg_next s) T_int) ?s"
    using s ready_open [OF s] by (simp add: gives_def)
  moreover have "fits_type T_int w \<and> ranged V \<sigma>' \<and> flows G loc V s ?s \<sigma> \<sigma>' (\<lambda>_. True) (\<lambda>\<rho>. den G \<rho> (Reg (cg_next s) T_int) = Some w)"
    if "ranged V \<sigma>" "Some (\<sigma> n, \<sigma>) = Some (w, \<sigma>')" for \<sigma> w \<sigma>'
  proof -
    from that(2) have w: "w = \<sigma> n" "\<sigma>' = \<sigma>" by auto
    show ?thesis using that(1) assms(3) flows_load [OF s assms(3)] unfolding w by (simp add: ranged_def fits_int)
  qed
  ultimately show "\<exists>v s'. CreateLoad G (loc n) s = Inr (v, s') \<and> gives G loc V T_int True s v s' \<and>
      (\<forall>\<sigma> w \<sigma>'. ranged V \<sigma> \<longrightarrow> Some (\<sigma> n, \<sigma>) = Some (w, \<sigma>') \<longrightarrow> fits_type T_int w \<and> ranged V \<sigma>' \<and>
        flows G loc V s s' \<sigma> \<sigma>' (\<lambda>_. True) (\<lambda>\<rho>. den G \<rho> v = Some w))"
    using load_run [OF assms s] by blast
qed

end
