(* ===== verification/Kcc_SimAssign.thy ===== *)
theory Kcc_SimAssign
  imports Kcc_SimPlace
begin

text \<open>
  Objects as operands and as places: reading an object, assignment, \<open>++\<close> and \<open>--\<close>. A visitor of an
  expression is described over any visitors of its parts.
\<close>

lemma int_is_scalar: "IsArrayTy (ArithT kInt) = False" "IsStructOrUnionTy (ArithT kInt) = False" "IsUnsigned (ArithT kInt) = False"
  "QualType_IsVolatile (ArithT kInt, 0) = False"
  by code_simp+

lemma place_facts:
  assumes "places_ok G loc V" and "n \<in> V"
  shows "obj_type (obj G n) = (ArithT kInt, 0)" "\<not> IsGlobalVar (obj G n)" "\<not> IsLocalStaticVar (obj G n)" "val_type G (loc n) = LPtr T_int"
  using assms by (auto simp: places_ok_def local_int_def)

lemma object_ptr_run:
  assumes "places_ok G loc V" and "n \<in> V" and "ready loc V s"
  shows "object_ptr G n s = Inr (loc n, s)"
  using place_facts(2,3) [OF assms(1,2)] ready_flags(4) [OF assms(3,2)]
  by (simp add: object_ptr_def GetLocalPtr_def run)

lemma GetPtr_object:
  assumes "places_ok G loc V" and "n \<in> V" and "ready loc V s"
  shows "GetPtr G P (EIdent (Object x n)) s = Inr (loc n, s)"
  using place_facts(1) [OF assms(1,2)] object_ptr_run [OF assms] no_change(1) [OF assms(3)]
  by (simp add: GetPtr_def run set_volatile_def int_is_scalar)

lemma sim_object:
  assumes "llvm_ok G" and "places_ok G loc V" and "n \<in> V"
  shows "sim G loc V T_int True (value_of (visitors_with G P) (EIdent (Object x n))) (ev (EIdent (Object x n)))"
proof -
  have "value_of (visitors_with G P) (EIdent (Object x n)) s = thn (bnd (CreateLoad G (loc n)) set_result) result_of s"
    if s: "ready loc V s" for s
  proof (rule simE [OF sim_load [OF assms] s])
    fix v s' assume 1: "CreateLoad G (loc n) s = Inr (v, s')" "gives G loc V T_int True s v s'"
    have "ready loc V (s'\<lparr>cg_result := Some v\<rparr>)" using gives_facts(2) [OF 1(2)] by simp
    from no_change(1) [OF this] show ?thesis
      using place_facts(1) [OF assms(2,3)] object_ptr_run [OF assms(2,3) s] no_change(1) [OF s]
      by (simp add: value_with Accept_expr_def Visit_ObjectExpr_def run Let_def set_volatile_def int_is_scalar set_result_def result_of_def 1(1))
  qed
  then show ?thesis using sim_result [OF sim_load [OF assms]] by (simp add: sim_def)
qed

subsection \<open>Assignment\<close>

lemma represents_store:
  assumes "represents loc V \<sigma> M" and "inj_on loc V" and "n \<in> V" and "in_range kInt x"
  shows "represents loc V (\<sigma>(n := x)) (M(loc n := x))"
  using assms by (auto simp: represents_def inj_on_def)

lemma flows_store:
  assumes "places_ok G loc V" and "ready loc V s" and "n \<in> V" and "fits_type T_int x"
  shows "flows G loc V s (add_instr (I_Store a (loc n) vol) s) \<sigma> (\<sigma>(n := x)) (\<lambda>\<rho>. den G \<rho> a = Some x) (\<lambda>\<rho>. den G \<rho> a = Some x)"
proof (rule flows_instr [OF ready_open [OF assms(2)]])
  fix p \<rho> M assume r: "represents loc V \<sigma> M" and a: "den G \<rho> a = Some x"
  have "represents loc V (\<sigma>(n := x)) (M(loc n := x))"
    using represents_store [OF r _ assms(3)] assms(1,4) by (simp add: places_ok_def fits_int)
  with a show "\<exists>\<rho>' M'. run_instr G p (cg_next s, I_Store a (loc n) vol) (\<rho>, M) = Some (\<rho>', M') \<and>
      represents loc V (\<sigma>(n := x)) M' \<and> agree (cg_next s) \<rho> \<rho>' \<and> den G \<rho>' a = Some x" by auto
qed

text \<open>The state behind the store and the load that follows it.\<close>

definition stored :: "'c val \<Rightarrow> 'c val \<Rightarrow> 'c cg \<Rightarrow> 'c cg" where
  "stored a p s = add_instr (I_Store a p False) s"

definition reloaded :: "'c val \<Rightarrow> 'c val \<Rightarrow> 'c cg \<Rightarrow> 'c cg" where
  "reloaded a p s = add_instr (I_Load p False) (stored a p s)"

lemma reloaded_facts:
  assumes "places_ok G loc V" and "ready loc V s" and "n \<in> V"
  shows "ready loc V (stored a (loc n) s)" "ready loc V (reloaded a (loc n) s)" "framed s (stored a (loc n) s)"
    "framed s (reloaded a (loc n) s)" "framed (stored a (loc n) s) (reloaded a (loc n) s)" "cg_next (stored a (loc n) s) = Suc (cg_next s)"
    "cg_next (reloaded a (loc n) s) = Suc (Suc (cg_next s))"
proof -
  show 1: "ready loc V (stored a (loc n) s)" "framed s (stored a (loc n) s)" using assms(2) ready_open [OF assms(2)] by (simp_all add: stored_def)
  then show "ready loc V (reloaded a (loc n) s)" by (simp add: reloaded_def)
  show 2: "framed (stored a (loc n) s) (reloaded a (loc n) s)" using ready_open [OF 1(1)] by (simp add: reloaded_def)
  show "framed s (reloaded a (loc n) s)" by (rule framed_trans [OF 1(2) 2])
qed (simp_all add: stored_def reloaded_def)

lemma Assign_run:
  fixes G :: "'c genv"
  assumes "llvm_ok G" and "places_ok G loc V" and "ready loc V s" and "n \<in> V"
  shows "Assign G (loc n) a u s = Inr (Reg (Suc (cg_next s)) T_int, (reloaded a (loc n) s)\<lparr>cg_result := Some (Reg (Suc (cg_next s)) T_int)\<rparr>)"
proof -
  note r = reloaded_facts [OF assms(2,3,4), of a]
  obtain s2 s3 and v :: "'c val" where e: "s2 = stored a (loc n) s" "s3 = reloaded a (loc n) s" "v = Reg (Suc (cg_next s)) T_int" by blast
  have st: "CreateStore a (loc n) s = Inr ((), s2)"
    using ready_flags(1) [OF assms(3)] ready_open [OF assms(3)] by (simp add: CreateStore_def put_instr_def run insert_open stored_def e)
  have ld: "CreateLoad G (loc n) s2 = Inr (v, s3)"
    using load_run [OF assms(1,2,4) r(1)] by (simp add: r(6) reloaded_def e)
  have "ready loc V (s3\<lparr>cg_result := Some v\<rparr>)" using r(2) by (simp add: e)
  note nv = no_change(1) [OF this]
  have ig: "ignore_assign_result s2 = False" "s2\<lparr>ignore_assign_result := False\<rparr> = s2"
    using ready_flags(3) [OF r(1)] no_change(2) [OF r(1)] by (simp_all add: e)
  show ?thesis unfolding e [symmetric]
    using ready_flags(2) [OF assms(3)] nv
    by (simp add: Assign_def TestAndClearIgnoreAssignResult_def set_result_def set_volatile_def run st ld ig)
qed

lemma Assign_flows:
  assumes "llvm_ok G" and "places_ok G loc V" and "ready loc V s" and "n \<in> V" and "fits_type T_int x" and "below (cg_next s) a"
  shows "flows G loc V s (reloaded a (loc n) s) \<sigma> (\<sigma>(n := x)) (\<lambda>\<rho>. den G \<rho> a = Some x)
    (\<lambda>\<rho>. den G \<rho> a = Some x \<and> den G \<rho> (Reg (Suc (cg_next s)) T_int) = Some x)"
proof -
  note r = reloaded_facts [OF assms(2,3,4)]
  have b: "below (cg_next (stored a (loc n) s)) a" using assms(6) by (auto simp: r(6) intro: below_mono)
  have l: "flows G loc V (stored a (loc n) s) (reloaded a (loc n) s) (\<sigma>(n := x)) (\<sigma>(n := x)) (\<lambda>_. True)
      (\<lambda>\<rho>. den G \<rho> (Reg (Suc (cg_next s)) T_int) = Some x)"
    using flows_load [OF r(1) assms(4), where \<sigma> = "\<sigma>(n := x)" and t = T_int and vol = False and G = G] by (simp add: reloaded_def r(6))
  show ?thesis
  proof (rule flows_trans [OF _ _ r(3,5)])
    show "flows G loc V s (stored a (loc n) s) \<sigma> (\<sigma>(n := x)) (\<lambda>\<rho>. den G \<rho> a = Some x) (\<lambda>\<rho>. den G \<rho> a = Some x)"
      unfolding stored_def by (rule flows_store [OF assms(2,3,4,5)])
    show "flows G loc V (stored a (loc n) s) (reloaded a (loc n) s) (\<sigma>(n := x)) (\<sigma>(n := x)) (\<lambda>\<rho>. den G \<rho> a = Some x)
        (\<lambda>\<rho>. den G \<rho> a = Some x \<and> den G \<rho> (Reg (Suc (cg_next s)) T_int) = Some x)"
      by (rule flows_mono [OF flows_keep [OF l b, of "Some x"]]) auto
  qed
qed

lemma ranged_upd: "ranged V \<sigma> \<Longrightarrow> fits_type T_int x \<Longrightarrow> ranged V (\<sigma>(n := x))"
  by (simp add: ranged_def fits_int)

lemma sim_assign:
  assumes "llvm_ok G" and "places_ok G loc V" and "n \<in> V" and "sim G loc V T_int K m f"
  shows "sim G loc V T_int True (bnd m (\<lambda>a. Assign G (loc n) a u)) (\<lambda>\<sigma>. Option.bind (f \<sigma>) (\<lambda>(x, \<sigma>'). Some (x, \<sigma>'(n := x))))"
  (is "sim G loc V T_int True ?m ?f")
  unfolding sim_def
proof (intro allI impI)
  fix s assume s: "ready loc V s"
  from simE [OF assms(4) s] obtain a s1 where 1: "m s = Inr (a, s1)" "gives G loc V T_int K s a s1"
    "\<And>\<sigma> w \<sigma>'. ranged V \<sigma> \<Longrightarrow> f \<sigma> = Some (w, \<sigma>') \<Longrightarrow> fits_type T_int w \<and> ranged V \<sigma>' \<and>
       flows G loc V s s1 \<sigma> \<sigma>' (\<lambda>_. True) (\<lambda>\<rho>. den G \<rho> a = Some w)"
    by blast
  note g = gives_facts [OF 1(2)]
  note r = reloaded_facts [OF assms(2) g(2) assms(3), of a]
  let ?v = "Reg (Suc (cg_next s1)) T_int"
  let ?s = "(reloaded a (loc n) s1)\<lparr>cg_result := Some ?v\<rparr>"
  have m: "?m s = Inr (?v, ?s)" using 1(1) Assign_run [OF assms(1,2) g(2) assms(3)] by (simp add: run)
  have "gives G loc V T_int True s ?v ?s"
    using framed_trans [OF g(1) r(4)] r(2,7) by (simp add: gives_def)
  moreover have "fits_type T_int w \<and> ranged V \<sigma>' \<and> flows G loc V s ?s \<sigma> \<sigma>' (\<lambda>_. True) (\<lambda>\<rho>. den G \<rho> ?v = Some w)"
    if rg: "ranged V \<sigma>" and e: "?f \<sigma> = Some (w, \<sigma>')" for \<sigma> w \<sigma>'
  proof -
    from e obtain \<sigma>1 where f: "f \<sigma> = Some (w, \<sigma>1)" "\<sigma>' = \<sigma>1(n := w)" by (auto simp: bind_eq_Some_conv)
    from 1(3) [OF rg f(1)] have 2: "fits_type T_int w" "ranged V \<sigma>1"
      "flows G loc V s s1 \<sigma> \<sigma>1 (\<lambda>_. True) (\<lambda>\<rho>. den G \<rho> a = Some w)" by auto
    have "flows G loc V s (reloaded a (loc n) s1) \<sigma> \<sigma>' (\<lambda>_. True) (\<lambda>\<rho>. den G \<rho> a = Some w \<and> den G \<rho> ?v = Some w)"
      unfolding f(2) by (rule flows_trans [OF 2(3) Assign_flows [OF assms(1,2) g(2) assms(3) 2(1) g(4)] g(1) r(4)])
    then have "flows G loc V s ?s \<sigma> \<sigma>' (\<lambda>_. True) (\<lambda>\<rho>. den G \<rho> ?v = Some w)"
      unfolding flows_result by (rule flows_mono) auto
    with 2(1) ranged_upd [OF 2(2,1)] show ?thesis by (simp add: f(2))
  qed
  ultimately show "\<exists>v s'. ?m s = Inr (v, s') \<and> gives G loc V T_int True s v s' \<and>
      (\<forall>\<sigma> w \<sigma>'. ranged V \<sigma> \<longrightarrow> ?f \<sigma> = Some (w, \<sigma>') \<longrightarrow> fits_type T_int w \<and> ranged V \<sigma>' \<and>
        flows G loc V s s' \<sigma> \<sigma>' (\<lambda>_. True) (\<lambda>\<rho>. den G \<rho> v = Some w))"
    using m by blast
qed

subsection \<open>\<open>++\<close> and \<open>--\<close>\<close>

definition inc_value :: "'c genv \<Rightarrow> bool \<Rightarrow> ('c, 'c val) gen" where
  "inc_value G is_inc = (if is_inc then ret (const_int G T_int 1) else CodeGen_NegOp G (const_int G T_int 1) False)"

lemma sim_inc_value:
  assumes "llvm_ok G"
  shows "sim G loc V T_int False (inc_value G is_inc) (\<lambda>\<sigma>. Some (if is_inc then 1 else - 1, \<sigma>))"
proof (cases is_inc)
  case True
  have "sim G loc V T_int False (ret (const_int G T_int 1)) (\<lambda>\<sigma>. Some (1, \<sigma>))"
    using assms by (intro sim_ret) (auto simp: sgn_of_def)
  with True show ?thesis by (simp add: inc_value_def)
next
  case False
  have o: "sim G loc V T_int False (ret (const_int G T_int 1)) (\<lambda>\<sigma>. Some (1, \<sigma>))"
    using assms by (intro sim_ret) (auto simp: sgn_of_def)
  have "CodeGen_NegOp G (const_int G T_int 1) False = bnd (ret (const_int G T_int 1)) (\<lambda>a. CodeGen_NegOp G a False)"
    by (rule ext) (simp add: run)
  moreover have "(\<lambda>\<sigma>::store. Option.bind (Some (1, \<sigma>)) (\<lambda>(x, \<sigma>'). map_option (\<lambda>w. (w, \<sigma>')) (c_unary Tag_kMinus kInt x))) = (\<lambda>\<sigma>. Some (- 1, \<sigma>))"
    by (rule ext) (simp add: c_unary_def c_arith_int fits_in_def no_overflow_def)
  ultimately show ?thesis using sim_bnd [OF o sim_neg [OF assms]] False by (simp add: inc_value_def)
qed

lemma IncOrDec_run:
  assumes "llvm_ok G" and "places_ok G loc V" and "n \<in> V" and "ready loc V s" and "\<And>s. ready loc V s \<Longrightarrow> v_ptr P e s = Inr (loc n, s)"
    and "type_of G e = ArithT kInt"
  shows "IncOrDec G P e is_inc post s = bnd (CreateLoad G (loc n)) (\<lambda>v0. bnd (inc_value G is_inc) (\<lambda>d. bnd (CodeGen_AddOp G v0 d False)
    (\<lambda>v. thn (Assign G (loc n) v False) (ret (if post then v0 else v))))) s"
proof -
  have "expr_unsigned G e = False" using assms(6) by (simp add: expr_unsigned_def int_is_scalar)
  moreover have "is_bit_field (add_instr (I_Load (loc n) False) s) = False" using ready_flags(2) [OF assms(4)] by simp
  ultimately show ?thesis
    using load_run [OF assms(1-4)] assms(5) [OF assms(4)] assms(6)
    by (simp add: IncOrDec_def inc_value_def run one_of_def)
qed

lemma sim_add: "llvm_ok G \<Longrightarrow> simv2 G loc V T_int T_int (\<lambda>a b. CodeGen_AddOp G a b False) (\<lambda>a b. c_arith kInt (a + b))"
  using sim_arith [of G Tag_kPlus loc V] by (simp add: arith_ops_def binary_value_def c_binary_def [abs_def])

lemma sim_inc:
  assumes "llvm_ok G" and "places_ok G loc V" and "n \<in> V" and "\<And>s. ready loc V s \<Longrightarrow> v_ptr P e s = Inr (loc n, s)"
    and "type_of G e = ArithT kInt"
  shows "sim G loc V T_int True (IncOrDec G P e is_inc post) (\<lambda>\<sigma>. Option.bind (c_arith kInt (\<sigma> n + (if is_inc then 1 else - 1)))
    (\<lambda>v. Some (if post then \<sigma> n else v, \<sigma>(n := v))))" (is "sim G loc V T_int True ?m ?f")
  unfolding sim_def
proof (intro allI impI)
  fix s assume s: "ready loc V s"
  let ?d = "if is_inc then 1 else - 1 :: int"
  from simE [OF sim_load [OF assms(1-3)] s] obtain v0 s1 where 1: "CreateLoad G (loc n) s = Inr (v0, s1)" "gives G loc V T_int True s v0 s1"
    "\<And>\<sigma> w \<sigma>'. ranged V \<sigma> \<Longrightarrow> Some (\<sigma> n, \<sigma>) = Some (w, \<sigma>') \<Longrightarrow> fits_type T_int w \<and> ranged V \<sigma>' \<and>
       flows G loc V s s1 \<sigma> \<sigma>' (\<lambda>_. True) (\<lambda>\<rho>. den G \<rho> v0 = Some w)"
    by blast
  note g1 = gives_facts [OF 1(2)]
  from simE [OF sim_inc_value [OF assms(1)] g1(2), of is_inc] obtain d s2 where 2: "inc_value G is_inc s1 = Inr (d, s2)" "gives G loc V T_int False s1 d s2"
    "\<And>\<sigma> w \<sigma>'. ranged V \<sigma> \<Longrightarrow> Some (?d, \<sigma>) = Some (w, \<sigma>') \<Longrightarrow> fits_type T_int w \<and> ranged V \<sigma>' \<and>
       flows G loc V s1 s2 \<sigma> \<sigma>' (\<lambda>_. True) (\<lambda>\<rho>. den G \<rho> d = Some w)"
    by blast
  note g2 = gives_facts [OF 2(2)]
  have b0: "below (cg_next s2) v0" using below_mono [OF g1(4) framed_next [OF g2(1)]] .
  from simv2E [OF sim_add [OF assms(1)] g2(2) g1(3) g2(3) b0 g2(4)] obtain v s3 where 3: "CodeGen_AddOp G v0 d False s2 = Inr (v, s3)"
    "gives G loc V T_int (\<not> is_const v0 \<or> \<not> is_const d) s2 v s3"
    "\<And>\<sigma> x y w. fits_type T_int x \<Longrightarrow> fits_type T_int y \<Longrightarrow> c_arith kInt (x + y) = Some w \<Longrightarrow> fits_type T_int w \<and>
       flows G loc V s2 s3 \<sigma> \<sigma> (\<lambda>\<rho>. den G \<rho> v0 = Some x \<and> den G \<rho> d = Some y) (\<lambda>\<rho>. den G \<rho> v = Some w)"
    by blast
  note g3 = gives_facts [OF 3(2)]
  have b0': "below (cg_next s3) v0" using below_mono [OF b0 framed_next [OF g3(1)]] .
  note r = reloaded_facts [OF assms(2) g3(2) assms(3), of v]
  note f12 = framed_trans [OF g1(1) g2(1)] note f13 = framed_trans [OF f12 g3(1)]
  let ?u = "if post then v0 else v" and ?s = "(reloaded v (loc n) s3)\<lparr>cg_result := Some (Reg (Suc (cg_next s3)) T_int)\<rparr>"
  have m: "?m s = Inr (?u, ?s)"
    using IncOrDec_run [OF assms(1-3) s assms(4,5)] 1(1) 2(1) 3(1) Assign_run [OF assms(1,2) g3(2) assms(3)] by (simp add: run)
  have nx: "cg_next s3 \<le> cg_next (reloaded v (loc n) s3)" by (rule framed_next [OF r(4)])
  have "gives G loc V T_int True s ?u ?s"
    using framed_trans [OF f13 r(4)] r(2) g1 g3 below_mono [OF b0' nx] below_mono [OF g3(4) nx] by (simp add: gives_def)
  moreover have "fits_type T_int w \<and> ranged V \<sigma>' \<and> flows G loc V s ?s \<sigma> \<sigma>' (\<lambda>_. True) (\<lambda>\<rho>. den G \<rho> ?u = Some w)"
    if rg: "ranged V \<sigma>" and e: "?f \<sigma> = Some (w, \<sigma>')" for \<sigma> w \<sigma>'
  proof -
    from e obtain x where x: "c_arith kInt (\<sigma> n + ?d) = Some x" "w = (if post then \<sigma> n else x)" "\<sigma>' = \<sigma>(n := x)"
      by (auto simp: bind_eq_Some_conv)
    from 1(3) [OF rg refl] have 4: "fits_type T_int (\<sigma> n)" "flows G loc V s s1 \<sigma> \<sigma> (\<lambda>_. True) (\<lambda>\<rho>. den G \<rho> v0 = Some (\<sigma> n))" by auto
    from 2(3) [OF rg refl] have 5: "fits_type T_int ?d" "flows G loc V s1 s2 \<sigma> \<sigma> (\<lambda>_. True) (\<lambda>\<rho>. den G \<rho> d = Some ?d)" by auto
    from 3(3) [OF 4(1) 5(1) x(1), of \<sigma>] have 6: "fits_type T_int x"
      "flows G loc V s2 s3 \<sigma> \<sigma> (\<lambda>\<rho>. den G \<rho> v0 = Some (\<sigma> n) \<and> den G \<rho> d = Some ?d) (\<lambda>\<rho>. den G \<rho> v = Some x)" by auto
    have a: "flows G loc V s1 s2 \<sigma> \<sigma> (\<lambda>\<rho>. den G \<rho> v0 = Some (\<sigma> n)) (\<lambda>\<rho>. den G \<rho> v0 = Some (\<sigma> n) \<and> den G \<rho> d = Some ?d)"
      by (rule flows_mono [OF flows_keep [OF 5(2) g1(4), of "Some (\<sigma> n)"]]) auto
    have b: "flows G loc V s2 s3 \<sigma> \<sigma> (\<lambda>\<rho>. den G \<rho> v0 = Some (\<sigma> n) \<and> den G \<rho> d = Some ?d) (\<lambda>\<rho>. den G \<rho> v = Some x \<and> den G \<rho> v0 = Some (\<sigma> n))"
      by (rule flows_mono [OF flows_keep [OF 6(2) b0, of "Some (\<sigma> n)"]]) auto
    have c: "flows G loc V s3 (reloaded v (loc n) s3) \<sigma> \<sigma>' (\<lambda>\<rho>. den G \<rho> v = Some x \<and> den G \<rho> v0 = Some (\<sigma> n))
        (\<lambda>\<rho>. (den G \<rho> v = Some x \<and> den G \<rho> (Reg (Suc (cg_next s3)) T_int) = Some x) \<and> den G \<rho> v0 = Some (\<sigma> n))"
      unfolding x(3) by (rule flows_keep [OF Assign_flows [OF assms(1,2) g3(2) assms(3) 6(1) g3(4)] b0'])
    note all = flows_trans [OF flows_trans [OF flows_trans [OF 4(2) a g1(1) g2(1)] b f12 g3(1)] c f13 r(4)]
    have "flows G loc V s ?s \<sigma> \<sigma>' (\<lambda>_. True) (\<lambda>\<rho>. den G \<rho> ?u = Some w)"
      unfolding flows_result by (rule flows_mono [OF all]) (auto simp: x(2))
    with 4(1) 6(1) ranged_upd [OF rg 6(1)] show ?thesis by (simp add: x(2,3))
  qed
  ultimately show "\<exists>v s'. ?m s = Inr (v, s') \<and> gives G loc V T_int True s v s' \<and>
      (\<forall>\<sigma> w \<sigma>'. ranged V \<sigma> \<longrightarrow> ?f \<sigma> = Some (w, \<sigma>') \<longrightarrow> fits_type T_int w \<and> ranged V \<sigma>' \<and>
        flows G loc V s s' \<sigma> \<sigma>' (\<lambda>_. True) (\<lambda>\<rho>. den G \<rho> v = Some w))"
    using m by blast
qed

end
