(* ===== verification/Kcc_SimJump.thy ===== *)
theory Kcc_SimJump
  imports Kcc_SimAssign
begin

text \<open>
  Jumps, new blocks and branches on conditions: what \<open>EmitBranch\<close>, \<open>EmitBlock\<close> and
  \<open>EmitBranchOnBoolExpr\<close> do to the state, and where the machine goes.
\<close>

subsection \<open>Growth of the code\<close>

text \<open>\<open>framed\<close> without the context of the generator, and up to the blocks of \<open>X\<close>.\<close>

definition grown :: "nat set \<Rightarrow> 'c cg \<Rightarrow> 'c cg \<Rightarrow> bool" where
  "grown X s s' \<longleftrightarrow> cg_next s \<le> cg_next s' \<and> (\<forall>b. \<exists>xs. new_code s s' b xs) \<and>
     (\<forall>b < cg_next s. cg_at s \<noteq> Some b \<longrightarrow> b \<notin> X \<longrightarrow> cg_block s' b = cg_block s b) \<and>
     (\<forall>b < cg_next s. b \<notin> X \<longrightarrow> b \<in> set (cg_order s') \<longleftrightarrow> b \<in> set (cg_order s)) \<and>
     (\<forall>b. cg_at s' = Some b \<longrightarrow> cg_at s = Some b \<or> cg_next s \<le> b \<or> b \<in> X)"

lemma framed_grown: "framed s s' \<longleftrightarrow> grown {} s s' \<and> ctx s' = ctx s"
  by (auto simp: framed_def grown_def)

lemma grown_framed: "framed s s' \<Longrightarrow> grown X s s'"
  by (auto simp: framed_def grown_def)

lemma grown_refl [simp]: "grown X s s"
  by (rule grown_framed) simp

lemma grown_next: "grown X s s' \<Longrightarrow> cg_next s \<le> cg_next s'"
  by (simp add: grown_def)

lemma grown_prefix: "grown X s s' \<Longrightarrow> prefix (cg_block s b) (cg_block s' b)"
  by (auto simp: grown_def new_code_def prefix_def)

lemma grown_other: "grown X s s' \<Longrightarrow> b < cg_next s \<Longrightarrow> cg_at s \<noteq> Some b \<Longrightarrow> b \<notin> X \<Longrightarrow> cg_block s' b = cg_block s b"
  by (simp add: grown_def)

lemma grown_order: "grown X s s' \<Longrightarrow> b < cg_next s \<Longrightarrow> b \<notin> X \<Longrightarrow> b \<in> set (cg_order s') \<longleftrightarrow> b \<in> set (cg_order s)"
  by (simp add: grown_def)

lemma grown_at: "grown X s s' \<Longrightarrow> cg_at s' = Some b \<Longrightarrow> cg_at s = Some b \<or> cg_next s \<le> b \<or> b \<in> X"
  by (simp add: grown_def)

lemma grown_trans:
  assumes "grown X s s1" and "grown Y s1 s'" and "\<And>y. y \<in> Y \<Longrightarrow> y \<in> X \<or> cg_next s \<le> y"
  shows "grown X s s'"
  unfolding grown_def
proof (intro conjI allI impI)
  show "cg_next s \<le> cg_next s'" using assms(1,2) by (auto simp: grown_def)
  show "\<exists>xs. new_code s s' b xs" for b
  proof -
    obtain xs ys where "new_code s s1 b xs" "new_code s1 s' b ys" using assms(1,2) unfolding grown_def by blast
    from new_code_trans [OF this] show ?thesis using grown_next [OF assms(1)] grown_next [OF assms(2)] by blast
  qed
  show "cg_block s' b = cg_block s b" if b: "b < cg_next s" "cg_at s \<noteq> Some b" "b \<notin> X" for b
  proof -
    have "b \<notin> Y" using assms(3) [of b] b by auto
    moreover have "cg_at s1 \<noteq> Some b" using grown_at [OF assms(1), of b] b by auto
    ultimately show ?thesis
      using grown_other [OF assms(1) b] grown_other [OF assms(2), of b] b(1) grown_next [OF assms(1)] by simp
  qed
  show "b \<in> set (cg_order s') \<longleftrightarrow> b \<in> set (cg_order s)" if b: "b < cg_next s" "b \<notin> X" for b
  proof -
    have "b \<notin> Y" using assms(3) [of b] b by auto
    then show ?thesis
      using grown_order [OF assms(1) b] grown_order [OF assms(2), of b] b(1) grown_next [OF assms(1)] by simp
  qed
  show "cg_at s = Some b \<or> cg_next s \<le> b \<or> b \<in> X" if b: "cg_at s' = Some b" for b
  proof -
    consider "cg_at s1 = Some b" | "cg_next s1 \<le> b" | "b \<in> Y" using grown_at [OF assms(2) b] by blast
    then show ?thesis
      using grown_at [OF assms(1), of b] assms(3) [of b] grown_next [OF assms(1)] by cases auto
  qed
qed

text \<open>Up to all blocks from \<open>k\<close> on.\<close>

lemma above_trans: "grown {k..} s s1 \<Longrightarrow> grown {k..} s1 s' \<Longrightarrow> grown {k..} s s'"
  by (rule grown_trans) auto

lemma grown_mono: "grown X s s' \<Longrightarrow> (\<And>x. x \<in> X \<Longrightarrow> x \<in> Y \<or> cg_next s \<le> x) \<Longrightarrow> grown Y s s'"
proof -
  assume g: "grown X s s'" and "\<And>x. x \<in> X \<Longrightarrow> x \<in> Y \<or> cg_next s \<le> x"
  then have "\<And>b. b < cg_next s \<Longrightarrow> b \<notin> Y \<Longrightarrow> b \<notin> X" "\<And>b. b \<in> X \<Longrightarrow> cg_next s \<le> b \<or> b \<in> Y" by fastforce+
  with g show ?thesis unfolding grown_def by blast
qed

lemma above_block: "grown {b} s s' \<Longrightarrow> k \<le> b \<Longrightarrow> grown {k..} s s'"
  by (erule grown_mono) auto

lemma above_base: "grown {cg_next s..} s s' \<Longrightarrow> grown X s s'"
  by (erule grown_mono) auto

lemma covers_part:
  assumes "covers s s' B" and "cg_next s \<le> cg_next s1" and "\<And>b. cg_at s1 = Some b \<Longrightarrow> cg_at s = Some b \<or> cg_next s \<le> b"
    and "\<And>b. cg_at s1 = Some b \<or> cg_next s1 \<le> b \<Longrightarrow> prefix (cg_block s2 b) (cg_block s' b)"
  shows "covers s1 s2 B"
  using assms unfolding covers_def by (meson order_trans prefix_order.order_trans)

lemma covers_grown:
  assumes "covers s s' B" and "grown X s s1" and "grown Y s2 s'" and "\<And>x. x \<in> X \<Longrightarrow> cg_next s \<le> x"
  shows "covers s1 s2 B"
  using grown_at [OF assms(2)] assms(4) grown_prefix [OF assms(3)] grown_next [OF assms(2)]
  by (intro covers_part [OF assms(1)]) auto

lemma covers_above:
  assumes "covers s s' B" and "grown {cg_next s..} s s1" and "grown {k..} s2 s'"
  shows "covers s1 s2 B"
  by (rule covers_grown [OF assms(1) above_base [OF assms(2), of "{}"] assms(3)]) simp

subsection \<open>Runs in fixed blocks\<close>

text \<open>From one place to another while the store changes as said.\<close>

definition arrives :: "'c genv \<Rightarrow> (nat \<Rightarrow> 'c block) \<Rightarrow> (nat \<Rightarrow> 'c val) \<Rightarrow> nat set \<Rightarrow> nat \<Rightarrow> store \<Rightarrow> store \<Rightarrow> nat \<times> nat \<Rightarrow> nat \<times> nat \<Rightarrow>
    (nat \<Rightarrow> regs \<Rightarrow> 'c mem \<Rightarrow> bool) \<Rightarrow> (nat \<Rightarrow> regs \<Rightarrow> 'c mem \<Rightarrow> bool) \<Rightarrow> bool" where
  "arrives G B loc V k \<sigma> \<sigma>' l l' A C \<longleftrightarrow> (\<forall>p \<rho> M. represents loc V \<sigma> M \<longrightarrow> A p \<rho> M \<longrightarrow> (\<exists>p' \<rho>' M'.
     runs G B (fst l, snd l, p, \<rho>, M) (fst l', snd l', p', \<rho>', M') \<and> represents loc V \<sigma>' M' \<and> agree k \<rho> \<rho>' \<and> C p' \<rho>' M'))"

lemma arrives_trans:
  assumes "arrives G B loc V k \<sigma> \<sigma>1 l l1 A C" and "arrives G B loc V k' \<sigma>1 \<sigma>' l1 l' C D" and "k \<le> k'"
  shows "arrives G B loc V k \<sigma> \<sigma>' l l' A D"
  unfolding arrives_def
proof (intro allI impI)
  fix p \<rho> M assume a: "represents loc V \<sigma> M" "A p \<rho> M"
  from assms(1) a obtain p1 \<rho>1 M1 where
    1: "runs G B (fst l, snd l, p, \<rho>, M) (fst l1, snd l1, p1, \<rho>1, M1)" "represents loc V \<sigma>1 M1" "agree k \<rho> \<rho>1" "C p1 \<rho>1 M1"
    unfolding arrives_def by blast
  from assms(2) 1(2,4) obtain p' \<rho>' M' where
    2: "runs G B (fst l1, snd l1, p1, \<rho>1, M1) (fst l', snd l', p', \<rho>', M')" "represents loc V \<sigma>' M'" "agree k' \<rho>1 \<rho>'" "D p' \<rho>' M'"
    unfolding arrives_def by blast
  from rtranclp_trans [OF 1(1) 2(1)] 2(2,4) agree_trans [OF 1(3) 2(3) assms(3)]
  show "\<exists>p' \<rho>' M'. runs G B (fst l, snd l, p, \<rho>, M) (fst l', snd l', p', \<rho>', M') \<and> represents loc V \<sigma>' M' \<and> agree k \<rho> \<rho>' \<and> D p' \<rho>' M'"
    by blast
qed

lemma arrives_mono:
  assumes "arrives G B loc V k \<sigma> \<sigma>' l l' A C" and "\<And>p \<rho> M. A' p \<rho> M \<Longrightarrow> A p \<rho> M" and "\<And>p \<rho> M. C p \<rho> M \<Longrightarrow> C' p \<rho> M"
  shows "arrives G B loc V k \<sigma> \<sigma>' l l' A' C'"
  using assms unfolding arrives_def by blast

lemma arrives_refl [simp]: "arrives G B loc V k \<sigma> \<sigma> l l A A"
  unfolding arrives_def using rtranclp.rtrancl_refl agree_refl by blast

lemma arrives_less: "arrives G B loc V k' \<sigma> \<sigma>' l l' A C \<Longrightarrow> k \<le> k' \<Longrightarrow> arrives G B loc V k \<sigma> \<sigma>' l l' A C"
  unfolding arrives_def agree_def by (meson order_less_le_trans)

lemma flows_arrives:
  assumes "flows G loc V s s' \<sigma> \<sigma>' A C" and "covers s s' B"
  shows "arrives G B loc V (cg_next s) \<sigma> \<sigma>' (pos s) (pos s') (\<lambda>p \<rho> M. A \<rho>) (\<lambda>p \<rho> M. C \<rho>)"
  using assms unfolding flows_def arrives_def by blast

subsection \<open>Jumps and blocks\<close>

definition closed :: "'c cg \<Rightarrow> bool" where
  "closed s \<longleftrightarrow> (\<exists>b. cg_at s = Some b \<and> getTerminator s b \<noteq> None)"

definition unplaced :: "nat \<Rightarrow> 'c cg \<Rightarrow> bool" where
  "unplaced b s \<longleftrightarrow> b < cg_next s \<and> b \<notin> set (cg_order s) \<and> cg_block s b = [] \<and> cg_at s \<noteq> Some b"

definition jumped :: "nat \<Rightarrow> 'c cg \<Rightarrow> 'c cg" where
  "jumped t s = (if is_open s then add_instr (I_Br t) s else s)\<lparr>cg_at := None\<rparr>"

definition placed :: "nat \<Rightarrow> 'c cg \<Rightarrow> 'c cg" where
  "placed t s = s\<lparr>cg_order := cg_order s @ [t], cg_at := Some t\<rparr>"

definition created :: "'c cg \<Rightarrow> 'c cg" where
  "created s = s\<lparr>cg_next := Suc (cg_next s)\<rparr>"

lemma create_run [run]: "CreateBasicBlock s = Inr (cg_next s, created s)"
  by (simp add: CreateBasicBlock_def created_def)

lemma branch_run [run]: "EmitBranch t s = Inr ((), jumped t s)"
  by (auto simp: EmitBranch_def GetInsertBlock_def ClearInsertionPoint_def put_instr_def jumped_def run is_open_def insert_open split: option.splits)

lemma block_run:
  assumes "t < cg_next s" and "t \<notin> set (cg_order s)"
  shows "EmitBlock t False s = Inr ((), placed t (jumped t s))"
  using assms by (simp add: EmitBlock_def run link_block_def SetInsertPoint_def placed_def jumped_def)

text \<open>What the three do.\<close>

lemma created_facts [simp]: "cg_next (created s) = Suc (cg_next s)" "cg_at (created s) = cg_at s" "cg_block (created s) = cg_block s"
  "cg_order (created s) = cg_order s" "ctx (created s) = ctx s" "pos (created s) = pos s" "is_open (created s) = is_open s"
  "cg_loose (created s) = cg_loose s"
  by (simp_all add: created_def ctx_def pos_def is_open_def getTerminator_def)

lemma framed_created [simp]: "framed s (created s)"
  by (auto simp: framed_def new_code_def)

lemma numbered_created: "numbered s \<Longrightarrow> numbered (created s)"
  by (auto simp: numbered_def less_Suc_eq)

lemma settled_created [simp]: "settled loc V s \<Longrightarrow> settled loc V (created s)"
  using numbered_created [of s] by (simp add: settled_def) (simp add: created_def)

lemma ready_created [simp]: "ready loc V s \<Longrightarrow> ready loc V (created s)"
  by (simp add: ready_def)

lemma unplaced_created: "numbered s \<Longrightarrow> unplaced (cg_next s) (created s)"
  by (auto simp: unplaced_def numbered_def)

lemma unplaced_less: "unplaced b s \<Longrightarrow> b < cg_next s"
  by (simp add: unplaced_def)

lemma unplaced_grown: "unplaced b s \<Longrightarrow> grown X s s' \<Longrightarrow> b \<notin> X \<Longrightarrow> unplaced b s'"
  using grown_next [of X s s'] grown_at [of X s s' b] grown_order [of X s s' b] grown_other [of X s s' b]
  by (auto simp: unplaced_def)

lemma at_none [simp]: "framed s (s'\<lparr>cg_at := None\<rparr>)" if "framed s s'"
  using that by (simp add: framed_def ctx_def new_code_def)

lemma settled_none [simp]: "settled loc V s \<Longrightarrow> settled loc V (s\<lparr>cg_at := None\<rparr>)"
  by (simp add: settled_def numbered_def)

lemma jumped_facts [simp]: "cg_at (jumped t s) = None" "cg_order (jumped t s) = cg_order s" "ctx (jumped t s) = ctx s"
  "cg_result (jumped t s) = cg_result s"
  by (auto simp: jumped_def ctx_def) (simp_all add: add_instr_def)

lemma framed_jumped [simp]: "framed s (jumped t s)"
  by (simp add: jumped_def)

lemma settled_jumped: "settled loc V s \<Longrightarrow> settled loc V (jumped t s)"
  by (simp add: jumped_def settled_add)

lemma placed_facts [simp]: "cg_next (placed t s) = cg_next s" "cg_block (placed t s) = cg_block s" "ctx (placed t s) = ctx s"
  "cg_at (placed t s) = Some t" "cg_result (placed t s) = cg_result s" "cg_order (placed t s) = cg_order s @ [t]"
  "cg_loose (placed t s) = cg_loose s"
  by (simp_all add: placed_def ctx_def)

lemma grown_placed: "grown {t} s (placed t s)"
  by (auto simp: grown_def new_code_def)

lemma pos_placed: "unplaced t s \<Longrightarrow> pos (placed t s) = (t, 0)"
  by (simp add: pos_def unplaced_def)

lemma ready_placed:
  assumes "settled loc V s" and "t < cg_next s" and "getTerminator s t = None"
  shows "ready loc V (placed t s)"
proof -
  have "numbered (placed t s)" using assms by (auto simp: numbered_def settled_def)
  moreover have "local_ptr (placed t s) = local_ptr s" "is_volatile (placed t s) = is_volatile s"
    "is_bit_field (placed t s) = is_bit_field s" "ignore_assign_result (placed t s) = ignore_assign_result s"
    by (simp_all add: placed_def)
  ultimately show ?thesis
    using assms by (simp add: ready_def settled_def is_open_def getTerminator_def split: if_splits)
qed

text \<open>A block is begun: a jump from the open block, if there is one.\<close>

lemma begin_block:
  assumes "settled loc V s" and "unplaced t s"
  obtains s' where "EmitBlock t False s = Inr ((), s')" and "s' = placed t (jumped t s)" and "ready loc V s'" and "grown {t} s s'"
    and "ctx s' = ctx s" and "pos s' = (t, 0)" and "cg_next s \<le> cg_next s'"
proof -
  have u: "unplaced t (jumped t s)" by (rule unplaced_grown [OF assms(2) grown_framed [OF framed_jumped, where X = "{}"]]) simp
  show ?thesis
  proof (rule that)
    show "EmitBlock t False s = Inr ((), placed t (jumped t s))" by (rule block_run) (use assms(2) in \<open>simp_all add: unplaced_def\<close>)
    show "ready loc V (placed t (jumped t s))" by (rule ready_placed [OF settled_jumped [OF assms(1)]]) (use u in \<open>simp_all add: unplaced_def getTerminator_def\<close>)
    show "grown {t} s (placed t (jumped t s))" by (rule grown_trans [OF grown_framed [OF framed_jumped] grown_placed]) simp
    show "pos (placed t (jumped t s)) = (t, 0)" by (rule pos_placed [OF u])
    show "cg_next s \<le> cg_next (placed t (jumped t s))" using framed_next [OF framed_jumped] by simp
  qed simp_all
qed

end
