(* ===== verification/Kcc_SimBranch.thy ===== *)
theory Kcc_SimBranch
  imports Kcc_SimJump
begin

text \<open>
  Branches on conditions. \<open>sim_br m f\<close>: the code that \<open>m t u\<close> emits goes to the block \<open>t\<close> when the
  value is not zero and to \<open>u\<close> otherwise.
\<close>

subsection \<open>Jumps\<close>

lemma step_added:
  assumes "is_open s" and "framed (add_instr i s) s'" and "covers s s' B"
  shows "snd (pos s) < length (B (fst (pos s)))" "B (fst (pos s)) ! snd (pos s) = (cg_next s, i)"
proof -
  obtain b where b: "cg_at s = Some b" using assms(1) by (auto simp: is_open_def)
  have "prefix (cg_block s b @ [(cg_next s, i)]) (B b)"
    using framed_prefix [OF assms(2), of b] assms(3) b
    by (auto simp: add_instr_block covers_def intro: prefix_order.trans)
  then obtain ys where "B b = cg_block s b @ (cg_next s, i) # ys" by (auto simp: prefix_def)
  then show "snd (pos s) < length (B (fst (pos s)))" "B (fst (pos s)) ! snd (pos s) = (cg_next s, i)"
    by (simp_all add: pos_def b nth_append)
qed

definition reached :: "nat option \<Rightarrow> (regs \<Rightarrow> 'c mem \<Rightarrow> bool) \<Rightarrow> nat \<Rightarrow> regs \<Rightarrow> 'c mem \<Rightarrow> bool" where
  "reached b C p \<rho> M \<longleftrightarrow> b = Some p \<and> C \<rho> M"

lemma arrives_jump:
  assumes "is_open s" and "covers s (jumped t s) B"
  shows "arrives G B loc V k \<sigma> \<sigma> (pos s) (t, 0) (\<lambda>p. C) (reached (cg_at s) C)"
proof -
  obtain b where b: "cg_at s = Some b" using assms(1) by (auto simp: is_open_def)
  have "covers s (add_instr (I_Br t) s) B" using assms by (simp add: jumped_def covers_def)
  note st = step_added [OF assms(1) framed_refl this]
  have p: "fst (pos s) = b" by (simp add: pos_def b)
  have "runs G B (b, snd (pos s), p, \<rho>, M) (t, 0, b, \<rho>, M)" for p \<rho> M
    using mstep.br [of "snd (pos s)" B b t G] st by (simp add: p r_into_rtranclp)
  then show ?thesis unfolding arrives_def reached_def b p using agree_refl by fastforce
qed

lemma put_open: "is_open s \<Longrightarrow> put_instr i s = Inr ((), add_instr i s)"
  by (simp add: put_instr_def run insert_open)

lemma arrives_cond:
  assumes "is_open s" and "covers s (add_instr (I_CondBr v t u) s) B"
  shows "arrives G B loc V k \<sigma> \<sigma> (pos s) (if x \<noteq> 0 then t else u, 0) (\<lambda>p \<rho> M. den G \<rho> v = Some x \<and> C \<rho> M) (reached (cg_at s) C)"
proof -
  obtain b where b: "cg_at s = Some b" using assms(1) by (auto simp: is_open_def)
  note st = step_added [OF assms(1) framed_refl assms(2)]
  have p: "fst (pos s) = b" by (simp add: pos_def b)
  have "runs G B (b, snd (pos s), p, \<rho>, M) (if x \<noteq> 0 then t else u, 0, b, \<rho>, M)" if "den G \<rho> v = Some x" for p \<rho> M
    using mstep.cond_br [of "snd (pos s)" B b v t u G \<rho> x p M] st that by (simp add: p r_into_rtranclp)
  then show ?thesis unfolding arrives_def reached_def b p using agree_refl by (metis fst_conv snd_conv)
qed

lemma closed_add: "is_open s \<Longrightarrow> isTerminator i \<Longrightarrow> closed (add_instr i s)"
  by (auto simp: is_open_def closed_def getTerminator_def add_instr_block)

lemma closed_jumped: "closed s \<Longrightarrow> jumped t s = s\<lparr>cg_at := None\<rparr>"
  by (auto simp: jumped_def closed_def is_open_def)

text \<open>Where a block is used.\<close>

definition comes_from :: "'c cg \<Rightarrow> nat \<Rightarrow> nat \<Rightarrow> bool" where
  "comes_from s p b \<longleftrightarrow> p < cg_next s \<and> (\<exists>x \<in> set (cg_block s p). b \<in> set (successors (snd x)))"

lemma comes_from_grown: "comes_from s p b \<Longrightarrow> grown X s s' \<Longrightarrow> comes_from s' p b"
  using grown_next [of X s s'] set_mono_prefix [OF grown_prefix [of X s s' p]] unfolding comes_from_def by fastforce

lemma comes_from_add: "is_open s \<Longrightarrow> numbered s \<Longrightarrow> b \<in> set (successors i) \<Longrightarrow> cg_at s = Some p \<Longrightarrow> comes_from (add_instr i s) p b"
  by (auto simp: comes_from_def add_instr_block numbered_def)

lemma comes_from_used: "comes_from s p b \<Longrightarrow> \<not> use_empty s b"
  by (fastforce simp: comes_from_def use_empty_def all_instrs_def list_all_iff)

lemma comes_from_placed [simp]: "comes_from (placed t s) p b = comes_from s p b" "comes_from (s\<lparr>cg_at := x\<rparr>) p b = comes_from s p b"
  by (simp_all add: comes_from_def)

lemma predecessors_iff: "p \<in> set (predecessors s b) \<longleftrightarrow> comes_from s p b"
proof
  assume "comes_from s p b"
  then obtain x where "p < cg_next s" "x \<in> set (cg_block s p)" "b \<in> set (successors (snd x))" unfolding comes_from_def by blast
  then show "p \<in> set (predecessors s b)" unfolding predecessors_def by (auto simp: case_prod_beta' intro!: bexI [of _ p] bexI [of _ x])
qed (auto simp: predecessors_def comes_from_def case_prod_beta')

subsection \<open>Conditions\<close>

definition sim_br :: "'c genv \<Rightarrow> (nat \<Rightarrow> 'c val) \<Rightarrow> nat set \<Rightarrow> (nat \<Rightarrow> nat \<Rightarrow> ('c, unit) gen) \<Rightarrow> (store \<Rightarrow> (int \<times> store) option) \<Rightarrow> bool" where
  "sim_br G loc V m f \<longleftrightarrow> (\<forall>s t u. ready loc V s \<longrightarrow> (\<exists>s'. m t u s = Inr ((), s') \<and> framed s s' \<and> settled loc V s' \<and> closed s' \<and>
     (\<forall>B \<sigma> w \<sigma>'. covers s s' B \<longrightarrow> ranged V \<sigma> \<longrightarrow> f \<sigma> = Some (w, \<sigma>') \<longrightarrow> ranged V \<sigma>' \<and>
       (let d = if w \<noteq> 0 then t else u in arrives G B loc V (cg_next s) \<sigma> \<sigma>' (pos s) (d, 0) (\<lambda>_ _ _. True) (\<lambda>p \<rho> M. comes_from s' p d)))))"

lemma sim_brE:
  assumes "sim_br G loc V m f" and "ready loc V s"
  obtains s' where "m t u s = Inr ((), s')" and "framed s s'" and "settled loc V s'" and "closed s'"
    and "\<And>B \<sigma> w \<sigma>' d. covers s s' B \<Longrightarrow> ranged V \<sigma> \<Longrightarrow> f \<sigma> = Some (w, \<sigma>') \<Longrightarrow> d = (if w \<noteq> 0 then t else u) \<Longrightarrow> ranged V \<sigma>' \<and>
       arrives G B loc V (cg_next s) \<sigma> \<sigma>' (pos s) (d, 0) (\<lambda>_ _ _. True) (\<lambda>p \<rho> M. comes_from s' p d)"
  using assms unfolding sim_br_def Let_def by (elim allE [of _ s] allE [of _ t] allE [of _ u] impE exE conjE) auto

lemma sim_brI:
  assumes "\<And>s t u. ready loc V s \<Longrightarrow> \<exists>s'. m t u s = Inr ((), s') \<and> framed s s' \<and> settled loc V s' \<and> closed s' \<and>
     (\<forall>B \<sigma> w \<sigma>'. covers s s' B \<longrightarrow> ranged V \<sigma> \<longrightarrow> f \<sigma> = Some (w, \<sigma>') \<longrightarrow> ranged V \<sigma>' \<and>
       arrives G B loc V (cg_next s) \<sigma> \<sigma>' (pos s) (if w \<noteq> 0 then t else u, 0) (\<lambda>_ _ _. True) (\<lambda>p \<rho> M. comes_from s' p (if w \<noteq> 0 then t else u)))"
  shows "sim_br G loc V m f"
  unfolding sim_br_def Let_def using assms by blast

lemma value_of_run: "value_of P e s = Inr (v, s') \<longleftrightarrow> v_expr P e s = Inr ((), s') \<and> cg_result s' = Some v"
  by (auto simp: value_of_def result_of_def run bindE_eq_Inr split: option.splits)

lemma sim_eq: "sim G loc V t K m f \<Longrightarrow> (\<And>s. ready loc V s \<Longrightarrow> m' s = m s) \<Longrightarrow> (\<And>\<sigma>. f' \<sigma> = f \<sigma>) \<Longrightarrow> sim G loc V t K m' f'"
  by (simp add: sim_def)

lemma sim_runs: "sim G loc V t K m f \<Longrightarrow> ready loc V s \<Longrightarrow> \<exists>v s'. m s = Inr (v, s')"
  unfolding sim_def by blast

lemma sim_as_bool:
  assumes "llvm_ok G" and "sim G loc V T_int K (value_of P e) f"
  shows "sim G loc V T_bool K (EvaluateExprAsBool G P e) (\<lambda>\<sigma>. map_option (\<lambda>(x, \<sigma>'). (- truth x, \<sigma>')) (f \<sigma>))"
proof (rule sim_eq [OF sim_bnd [OF assms(2) sim_to_bool [OF assms(1)]]])
  fix s :: "'a cg" assume "ready loc V s"
  from sim_runs [OF assms(2) this] obtain v s' where v: "value_of P e s = Inr (v, s')" by blast
  then have "v_expr P e s = Inr ((), s')" "cg_result s' = Some v" by (simp_all only: value_of_run)
  with v show "EvaluateExprAsBool G P e s = bnd (value_of P e) (CastToBool G) s"
    by (simp add: EvaluateExprAsBool_def run)
next
  show "map_option (\<lambda>(x, \<sigma>'). (- truth x, \<sigma>')) (f \<sigma>) = Option.bind (f \<sigma>) (\<lambda>(x, \<sigma>'). map_option (\<lambda>w. (w, \<sigma>')) (Some (- truth x)))" for \<sigma>
    by (cases "f \<sigma>") auto
qed

lemma sim_br_value:
  assumes "llvm_ok G" and "sim G loc V T_int K (value_of P e) f"
  shows "sim_br G loc V (branch_on_value G P e) f"
proof (rule sim_brI)
  fix s t u assume s: "ready loc V s"
  from simE [OF sim_as_bool [OF assms] s] obtain v s1 where 1: "EvaluateExprAsBool G P e s = Inr (v, s1)" "gives G loc V T_bool K s v s1"
    "\<And>\<sigma> w \<sigma>'. ranged V \<sigma> \<Longrightarrow> map_option (\<lambda>(x, \<sigma>'). (- truth x, \<sigma>')) (f \<sigma>) = Some (w, \<sigma>') \<Longrightarrow> fits_type T_bool w \<and> ranged V \<sigma>' \<and>
       flows G loc V s s1 \<sigma> \<sigma>' (\<lambda>_. True) (\<lambda>\<rho>. den G \<rho> v = Some w)"
    by blast
  note g = gives_facts [OF 1(2)]
  note op = ready_open [OF g(2)]
  let ?s = "add_instr (I_CondBr v t u) s1"
  have st: "settled loc V ?s" using g(2) op by (simp add: ready_def settled_add)
  have fr: "framed s1 ?s" using op by simp
  have m: "branch_on_value G P e t u s = Inr ((), ?s)"
    using 1(1) by (simp add: branch_on_value_def run put_open [OF op])
  have nm: "numbered s1" using g(2) by (simp add: ready_def settled_def)
  have "ranged V \<sigma>' \<and> arrives G B loc V (cg_next s) \<sigma> \<sigma>' (pos s) (if w \<noteq> 0 then t else u, 0) (\<lambda>_ _ _. True)
      (\<lambda>p \<rho> M. comes_from ?s p (if w \<noteq> 0 then t else u))"
    if c: "covers s ?s B" and r: "ranged V \<sigma>" and e: "f \<sigma> = Some (w, \<sigma>')" for B \<sigma> w \<sigma>'
  proof -
    from 1(3) [OF r] e have 2: "ranged V \<sigma>'" "flows G loc V s s1 \<sigma> \<sigma>' (\<lambda>_. True) (\<lambda>\<rho>. den G \<rho> v = Some (- truth w))" by auto
    have a: "arrives G B loc V (cg_next s) \<sigma> \<sigma>' (pos s) (pos s1) (\<lambda>_ _ _. True) (\<lambda>p \<rho> M. den G \<rho> v = Some (- truth w) \<and> True)"
      by (rule arrives_mono [OF flows_arrives [OF 2(2) covers_first [OF g(1) fr c]]]) auto
    have b: "arrives G B loc V (cg_next s) \<sigma>' \<sigma>' (pos s1) (if - truth w \<noteq> 0 then t else u, 0)
        (\<lambda>p \<rho> M. den G \<rho> v = Some (- truth w) \<and> True) (reached (cg_at s1) (\<lambda>_ _. True))"
      by (rule arrives_cond [OF op covers_second [OF g(1) c]])
    have d: "(- truth w \<noteq> 0) = (w \<noteq> 0)" by (simp add: truth_def)
    have cf: "comes_from ?s p (if w \<noteq> 0 then t else u)" if "reached (cg_at s1) (\<lambda>_ _. True) p \<rho> M" for p \<rho> M
      using that by (intro comes_from_add [OF op nm]) (auto simp: reached_def)
    show ?thesis
      by (rule conjI [OF 2(1) arrives_mono [OF arrives_trans [OF a b [unfolded d] order_refl] _ cf]]) simp_all
  qed
  with m framed_trans [OF g(1) fr] st closed_add [OF op, of "I_CondBr v t u"]
  show "\<exists>s'. branch_on_value G P e t u s = Inr ((), s') \<and> framed s s' \<and> settled loc V s' \<and> closed s' \<and>
     (\<forall>B \<sigma> w \<sigma>'. covers s s' B \<longrightarrow> ranged V \<sigma> \<longrightarrow> f \<sigma> = Some (w, \<sigma>') \<longrightarrow> ranged V \<sigma>' \<and>
       arrives G B loc V (cg_next s) \<sigma> \<sigma>' (pos s) (if w \<noteq> 0 then t else u, 0) (\<lambda>_ _ _. True) (\<lambda>p \<rho> M. comes_from s' p (if w \<noteq> 0 then t else u)))"
    by auto
qed

text \<open>The negation swaps the targets.\<close>

lemma sim_br_not:
  assumes "sim_br G loc V m f"
  shows "sim_br G loc V (\<lambda>t u. m u t) (\<lambda>\<sigma>. map_option (\<lambda>(x, \<sigma>'). (of_bool (x = 0), \<sigma>')) (f \<sigma>))"
proof (rule sim_brI)
  fix s t u assume s: "ready loc V s"
  from sim_brE [OF assms s, of u t] obtain s' where 1: "m u t s = Inr ((), s')" "framed s s'" "settled loc V s'" "closed s'"
    "\<And>B \<sigma> w \<sigma>' d. covers s s' B \<Longrightarrow> ranged V \<sigma> \<Longrightarrow> f \<sigma> = Some (w, \<sigma>') \<Longrightarrow> d = (if w \<noteq> 0 then u else t) \<Longrightarrow> ranged V \<sigma>' \<and>
       arrives G B loc V (cg_next s) \<sigma> \<sigma>' (pos s) (d, 0) (\<lambda>_ _ _. True) (\<lambda>p \<rho> M. comes_from s' p d)"
    by blast
  have "ranged V \<sigma>' \<and> arrives G B loc V (cg_next s) \<sigma> \<sigma>' (pos s) (if w \<noteq> 0 then t else u, 0) (\<lambda>_ _ _. True)
      (\<lambda>p \<rho> M. comes_from s' p (if w \<noteq> 0 then t else u))"
    if c: "covers s s' B" and r: "ranged V \<sigma>" and e: "map_option (\<lambda>(x, \<sigma>'). (of_bool (x = 0), \<sigma>')) (f \<sigma>) = Some (w, \<sigma>')" for B \<sigma> w \<sigma>'
  proof -
    from e obtain x where x: "f \<sigma> = Some (x, \<sigma>')" "w = of_bool (x = 0)" by auto
    show ?thesis by (rule 1(5) [OF c r x(1)]) (simp add: x(2))
  qed
  with 1(1-4) show "\<exists>s'. m u t s = Inr ((), s') \<and> framed s s' \<and> settled loc V s' \<and> closed s' \<and>
     (\<forall>B \<sigma> w \<sigma>'. covers s s' B \<longrightarrow> ranged V \<sigma> \<longrightarrow> map_option (\<lambda>(x, \<sigma>'). (of_bool (x = 0), \<sigma>')) (f \<sigma>) = Some (w, \<sigma>') \<longrightarrow> ranged V \<sigma>' \<and>
       arrives G B loc V (cg_next s) \<sigma> \<sigma>' (pos s) (if w \<noteq> 0 then t else u, 0) (\<lambda>_ _ _. True) (\<lambda>p \<rho> M. comes_from s' p (if w \<noteq> 0 then t else u)))"
    by blast
qed

lemma sim_br_cong:
  assumes "sim_br G loc V m f" and "\<And>\<sigma> w \<sigma>'. ranged V \<sigma> \<Longrightarrow> f' \<sigma> = Some (w, \<sigma>') \<Longrightarrow> \<exists>x. f \<sigma> = Some (x, \<sigma>') \<and> (x = 0 \<longleftrightarrow> w = 0)"
  shows "sim_br G loc V m f'"
proof (rule sim_brI)
  fix s t u assume s: "ready loc V s"
  from sim_brE [OF assms(1) s, of t u] obtain s' where 1: "m t u s = Inr ((), s')" "framed s s'" "settled loc V s'" "closed s'"
    "\<And>B \<sigma> w \<sigma>' d. covers s s' B \<Longrightarrow> ranged V \<sigma> \<Longrightarrow> f \<sigma> = Some (w, \<sigma>') \<Longrightarrow> d = (if w \<noteq> 0 then t else u) \<Longrightarrow> ranged V \<sigma>' \<and>
       arrives G B loc V (cg_next s) \<sigma> \<sigma>' (pos s) (d, 0) (\<lambda>_ _ _. True) (\<lambda>p \<rho> M. comes_from s' p d)"
    by blast
  have "ranged V \<sigma>' \<and> arrives G B loc V (cg_next s) \<sigma> \<sigma>' (pos s) (if w \<noteq> 0 then t else u, 0) (\<lambda>_ _ _. True)
      (\<lambda>p \<rho> M. comes_from s' p (if w \<noteq> 0 then t else u))"
    if c: "covers s s' B" and r: "ranged V \<sigma>" and e: "f' \<sigma> = Some (w, \<sigma>')" for B \<sigma> w \<sigma>'
  proof -
    from assms(2) [OF r e] obtain x where x: "f \<sigma> = Some (x, \<sigma>')" "x = 0 \<longleftrightarrow> w = 0" by blast
    show ?thesis by (rule 1(5) [OF c r x(1)]) (simp add: x(2))
  qed
  with 1(1-4) show "\<exists>s'. m t u s = Inr ((), s') \<and> framed s s' \<and> settled loc V s' \<and> closed s' \<and>
     (\<forall>B \<sigma> w \<sigma>'. covers s s' B \<longrightarrow> ranged V \<sigma> \<longrightarrow> f' \<sigma> = Some (w, \<sigma>') \<longrightarrow> ranged V \<sigma>' \<and>
       arrives G B loc V (cg_next s) \<sigma> \<sigma>' (pos s) (if w \<noteq> 0 then t else u, 0) (\<lambda>_ _ _. True) (\<lambda>p \<rho> M. comes_from s' p (if w \<noteq> 0 then t else u)))"
    by blast
qed

subsection \<open>Conditions with blocks of their own\<close>

lemma closed_facts: "ready loc V s \<Longrightarrow> settled loc V s" "ready loc V s \<Longrightarrow> numbered s"
  by (simp_all add: ready_def settled_def)

text \<open>A branch and then the block \<open>b\<close>, which was created before.\<close>

lemma after_branch:
  assumes "unplaced b s1" and "grown X s1 s2" and "settled loc V s2" and "b \<notin> X"
  obtains s3 where "EmitBlock b False s2 = Inr ((), s3)" and "ready loc V s3" and "grown {b} s2 s3" and "ctx s3 = ctx s2" and "pos s3 = (b, 0)"
  using begin_block [OF assms(3) unplaced_grown [OF assms(1,2,4)]] by blast

lemma sim_br_and:
  assumes "sim_br G loc V m1 f1" and "sim_br G loc V m2 f2"
  shows "sim_br G loc V (\<lambda>t u. bnd CreateBasicBlock (\<lambda>b. thn (m1 b u) (thn (EmitBlock b False) (m2 t u))))
    (\<lambda>\<sigma>. Option.bind (f1 \<sigma>) (\<lambda>(x, \<sigma>1). if x = 0 then Some (0, \<sigma>1) else f2 \<sigma>1))" (is "sim_br G loc V ?m ?f")
proof (rule sim_brI)
  fix s t u assume s: "ready loc V s"
  define b where "b = cg_next s"
  define s1 where "s1 = created s"
  have s1: "ready loc V s1" "framed s s1" "unplaced b s1" "cg_next s \<le> b" "cg_next s \<le> cg_next s1" "pos s1 = pos s"
    using s unplaced_created [OF closed_facts(2) [OF s]] by (simp_all add: s1_def b_def)
  from sim_brE [OF assms(1) s1(1), of b u] obtain s2 where 1: "m1 b u s1 = Inr ((), s2)" "framed s1 s2" "settled loc V s2" "closed s2"
    "\<And>B \<sigma> w \<sigma>' d. covers s1 s2 B \<Longrightarrow> ranged V \<sigma> \<Longrightarrow> f1 \<sigma> = Some (w, \<sigma>') \<Longrightarrow> d = (if w \<noteq> 0 then b else u) \<Longrightarrow> ranged V \<sigma>' \<and>
       arrives G B loc V (cg_next s1) \<sigma> \<sigma>' (pos s1) (d, 0) (\<lambda>_ _ _. True) (\<lambda>p \<rho> M. comes_from s2 p d)"
    by blast
  from after_branch [OF s1(3) grown_framed [OF 1(2), of "{}"] 1(3)] obtain s3 where
    3: "EmitBlock b False s2 = Inr ((), s3)" "ready loc V s3" "grown {b} s2 s3" "ctx s3 = ctx s2" "pos s3 = (b, 0)" by blast
  from sim_brE [OF assms(2) 3(2), of t u] obtain s' where 4: "m2 t u s3 = Inr ((), s')" "framed s3 s'" "settled loc V s'" "closed s'"
    "\<And>B \<sigma> w \<sigma>' d. covers s3 s' B \<Longrightarrow> ranged V \<sigma> \<Longrightarrow> f2 \<sigma> = Some (w, \<sigma>') \<Longrightarrow> d = (if w \<noteq> 0 then t else u) \<Longrightarrow> ranged V \<sigma>' \<and>
       arrives G B loc V (cg_next s3) \<sigma> \<sigma>' (pos s3) (d, 0) (\<lambda>_ _ _. True) (\<lambda>p \<rho> M. comes_from s' p d)"
    by blast
  have g2: "grown {b} s2 s'" by (rule grown_trans [OF 3(3) grown_framed [OF 4(2), of "{}"]]) simp
  have f2: "framed s s2" by (rule framed_trans [OF s1(2) 1(2)])
  have g3: "grown {} s s3" by (rule grown_trans [OF grown_framed [OF f2] 3(3)]) (use s1(4) in simp)
  have fr: "framed s s'" unfolding framed_grown
    using grown_trans [OF g3 grown_framed [OF 4(2), of "{}"]] framed_ctx [OF f2] framed_ctx [OF 4(2)] 3(4) by simp
  have m: "?m t u s = Inr ((), s')" using 1(1) 3(1) 4(1) by (simp add: run s1_def b_def)
  have "ranged V \<sigma>' \<and> arrives G B loc V (cg_next s) \<sigma> \<sigma>' (pos s) (if w \<noteq> 0 then t else u, 0) (\<lambda>_ _ _. True)
      (\<lambda>p \<rho> M. comes_from s' p (if w \<noteq> 0 then t else u))"
    if c: "covers s s' B" and r: "ranged V \<sigma>" and e: "?f \<sigma> = Some (w, \<sigma>')" for B \<sigma> w \<sigma>'
  proof -
    from e obtain x \<sigma>1 where x: "f1 \<sigma> = Some (x, \<sigma>1)" "(if x = 0 then Some (0, \<sigma>1) else f2 \<sigma>1) = Some (w, \<sigma>')"
      by (auto simp: bind_eq_Some_conv)
    have c1: "covers s1 s2 B" by (rule covers_grown [OF c grown_framed [OF s1(2), of "{}"] g2]) simp
    note a1 = 1(5) [OF c1 r x(1) refl]
    show ?thesis
    proof (cases "x = 0")
      case True
      then have w: "w = 0" "\<sigma>' = \<sigma>1" using x(2) by simp_all
      from a1 True have a: "ranged V \<sigma>1" "arrives G B loc V (cg_next s1) \<sigma> \<sigma>1 (pos s) (u, 0) (\<lambda>_ _ _. True) (\<lambda>p \<rho> M. comes_from s2 p u)"
        by (simp_all add: s1(6))
      have "arrives G B loc V (cg_next s1) \<sigma> \<sigma>1 (pos s) (u, 0) (\<lambda>_ _ _. True) (\<lambda>p \<rho> M. comes_from s' p u)"
        by (rule arrives_mono [OF a(2)]) (simp_all add: comes_from_grown [OF _ g2])
      with a(1) show ?thesis using arrives_less [OF _ s1(5)] by (simp add: w)
    next
      case False
      from a1 False have a: "ranged V \<sigma>1" "arrives G B loc V (cg_next s1) \<sigma> \<sigma>1 (pos s) (pos s3) (\<lambda>_ _ _. True) (\<lambda>p \<rho> M. comes_from s2 p b)"
        by (simp_all add: s1(6) 3(5))
      have c3: "covers s3 s' B" by (rule covers_grown [OF c g3 grown_refl]) simp
      from x(2) False have "f2 \<sigma>1 = Some (w, \<sigma>')" by simp
      note a2 = 4(5) [OF c3 a(1) this refl]
      have "arrives G B loc V (cg_next s1) \<sigma> \<sigma>' (pos s) (if w \<noteq> 0 then t else u, 0) (\<lambda>_ _ _. True)
          (\<lambda>p \<rho> M. comes_from s' p (if w \<noteq> 0 then t else u))"
        by (rule arrives_trans [OF a(2) arrives_mono [OF conjunct2 [OF a2]]])
          (use grown_next [OF g3] framed_next [OF 1(2)] grown_next [OF 3(3)] in auto)
      with a2 show ?thesis using arrives_less [OF _ s1(5)] by blast
    qed
  qed
  with m fr 4(3,4) show "\<exists>s'. ?m t u s = Inr ((), s') \<and> framed s s' \<and> settled loc V s' \<and> closed s' \<and>
     (\<forall>B \<sigma> w \<sigma>'. covers s s' B \<longrightarrow> ranged V \<sigma> \<longrightarrow> ?f \<sigma> = Some (w, \<sigma>') \<longrightarrow> ranged V \<sigma>' \<and>
       arrives G B loc V (cg_next s) \<sigma> \<sigma>' (pos s) (if w \<noteq> 0 then t else u, 0) (\<lambda>_ _ _. True) (\<lambda>p \<rho> M. comes_from s' p (if w \<noteq> 0 then t else u)))"
    by blast
qed

text \<open>By the law of De Morgan.\<close>

lemma sim_br_or:
  assumes "sim_br G loc V m1 f1" and "sim_br G loc V m2 f2"
  shows "sim_br G loc V (\<lambda>t u. bnd CreateBasicBlock (\<lambda>b. thn (m1 t b) (thn (EmitBlock b False) (m2 t u))))
    (\<lambda>\<sigma>. Option.bind (f1 \<sigma>) (\<lambda>(x, \<sigma>1). if x \<noteq> 0 then Some (1, \<sigma>1) else f2 \<sigma>1))"
proof (rule sim_br_cong [OF sim_br_not [OF sim_br_and [OF sim_br_not [OF assms(1)] sim_br_not [OF assms(2)]]]])
  fix \<sigma> w \<sigma>' assume "Option.bind (f1 \<sigma>) (\<lambda>(x, \<sigma>1). if x \<noteq> 0 then Some (1, \<sigma>1) else f2 \<sigma>1) = Some (w, \<sigma>')"
  then obtain x \<sigma>1 where "f1 \<sigma> = Some (x, \<sigma>1)" "(if x \<noteq> 0 then Some (1, \<sigma>1) else f2 \<sigma>1) = Some (w, \<sigma>')"
    by (auto simp: bind_eq_Some_conv)
  then show "\<exists>x. map_option (\<lambda>(x, \<sigma>'). (of_bool (x = 0), \<sigma>'))
      (Option.bind (map_option (\<lambda>(x, \<sigma>'). (of_bool (x = 0), \<sigma>')) (f1 \<sigma>)) (\<lambda>(x, \<sigma>1). if x = 0 then Some (0, \<sigma>1)
        else map_option (\<lambda>(x, \<sigma>'). (of_bool (x = 0), \<sigma>')) (f2 \<sigma>1))) = Some (x, \<sigma>') \<and> (x = 0 \<longleftrightarrow> w = 0)"
    by (cases "x = 0") auto
qed

text \<open>Two new blocks.\<close>

definition created2 :: "'c cg \<Rightarrow> 'c cg" where
  "created2 s = created (created s)"

lemma created2_facts:
  assumes "ready loc V s"
  shows "ready loc V (created2 s)" "framed s (created2 s)" "unplaced (cg_next s) (created2 s)" "unplaced (Suc (cg_next s)) (created2 s)"
    "cg_next s \<le> cg_next (created2 s)" "pos (created2 s) = pos s"
proof -
  note n = unplaced_created [OF closed_facts(2) [OF assms]]
  show "unplaced (cg_next s) (created2 s)" unfolding created2_def
    using unplaced_grown [OF n grown_framed [OF framed_created, of "{}"]] by simp
  show "unplaced (Suc (cg_next s)) (created2 s)"
    using unplaced_created [OF closed_facts(2) [of loc V "created s"]] assms by (simp add: created2_def)
  show "framed s (created2 s)" unfolding created2_def by (rule framed_trans [OF framed_created framed_created])
qed (use assms in \<open>simp_all add: created2_def\<close>)

lemma sim_br_cond:
  assumes "sim_br G loc V mc fc" and "sim_br G loc V m1 f1" and "sim_br G loc V m2 f2"
  shows "sim_br G loc V (\<lambda>t u. bnd CreateBasicBlock (\<lambda>l. bnd CreateBasicBlock (\<lambda>r. thn (mc l r)
      (thn (EmitBlock l False) (thn (m1 t u) (thn (EmitBlock r False) (m2 t u)))))))
    (\<lambda>\<sigma>. Option.bind (fc \<sigma>) (\<lambda>(x, \<sigma>1). if x \<noteq> 0 then f1 \<sigma>1 else f2 \<sigma>1))" (is "sim_br G loc V ?m ?f")
proof (rule sim_brI)
  fix s t u assume s: "ready loc V s"
  define l where "l = cg_next s"
  define r where "r = Suc (cg_next s)"
  define s1 where "s1 = created2 s"
  note s1 = created2_facts [OF s, folded l_def r_def s1_def]
  have lr: "cg_next s \<le> l" "cg_next s \<le> r" "l \<noteq> r" by (simp_all add: l_def r_def)
  have nx: "cg_next s \<le> cg_next s1" using created2_facts(5) [OF s] by (simp add: s1_def)
  from sim_brE [OF assms(1) s1(1), of l r] obtain s2 where 1: "mc l r s1 = Inr ((), s2)" "framed s1 s2" "settled loc V s2" "closed s2"
    "\<And>B \<sigma> w \<sigma>' d. covers s1 s2 B \<Longrightarrow> ranged V \<sigma> \<Longrightarrow> fc \<sigma> = Some (w, \<sigma>') \<Longrightarrow> d = (if w \<noteq> 0 then l else r) \<Longrightarrow> ranged V \<sigma>' \<and>
       arrives G B loc V (cg_next s1) \<sigma> \<sigma>' (pos s1) (d, 0) (\<lambda>_ _ _. True) (\<lambda>p \<rho> M. comes_from s2 p d)"
    by blast
  from after_branch [OF s1(3) grown_framed [OF 1(2), of "{}"] 1(3)] obtain s3 where
    3: "EmitBlock l False s2 = Inr ((), s3)" "ready loc V s3" "grown {l} s2 s3" "ctx s3 = ctx s2" "pos s3 = (l, 0)" by blast
  from sim_brE [OF assms(2) 3(2), of t u] obtain s4 where 4: "m1 t u s3 = Inr ((), s4)" "framed s3 s4" "settled loc V s4" "closed s4"
    "\<And>B \<sigma> w \<sigma>' d. covers s3 s4 B \<Longrightarrow> ranged V \<sigma> \<Longrightarrow> f1 \<sigma> = Some (w, \<sigma>') \<Longrightarrow> d = (if w \<noteq> 0 then t else u) \<Longrightarrow> ranged V \<sigma>' \<and>
       arrives G B loc V (cg_next s3) \<sigma> \<sigma>' (pos s3) (d, 0) (\<lambda>_ _ _. True) (\<lambda>p \<rho> M. comes_from s4 p d)"
    by blast
  have g14: "grown {l} s1 s4"
    by (rule grown_trans [OF grown_trans [OF grown_framed [OF 1(2)] 3(3)] grown_framed [OF 4(2), of "{}"]]) simp_all
  from after_branch [OF s1(4) g14 4(3)] lr(3) obtain s5 where
    5: "EmitBlock r False s4 = Inr ((), s5)" "ready loc V s5" "grown {r} s4 s5" "ctx s5 = ctx s4" "pos s5 = (r, 0)" by blast
  from sim_brE [OF assms(3) 5(2), of t u] obtain s' where 6: "m2 t u s5 = Inr ((), s')" "framed s5 s'" "settled loc V s'" "closed s'"
    "\<And>B \<sigma> w \<sigma>' d. covers s5 s' B \<Longrightarrow> ranged V \<sigma> \<Longrightarrow> f2 \<sigma> = Some (w, \<sigma>') \<Longrightarrow> d = (if w \<noteq> 0 then t else u) \<Longrightarrow> ranged V \<sigma>' \<and>
       arrives G B loc V (cg_next s5) \<sigma> \<sigma>' (pos s5) (d, 0) (\<lambda>_ _ _. True) (\<lambda>p \<rho> M. comes_from s' p d)"
    by blast
  note g1 = grown_framed [OF s1(2), of "{cg_next s..}"] and g2 = grown_framed [OF 1(2), of "{cg_next s..}"]
    and g3 = above_block [OF 3(3) lr(1)] and g4 = grown_framed [OF 4(2), of "{cg_next s..}"]
    and g5 = above_block [OF 5(3) lr(2)] and g6 = grown_framed [OF 6(2), of "{cg_next s..}"]
  note h3 = above_trans [OF above_trans [OF g1 g2] g3] note h5 = above_trans [OF above_trans [OF h3 g4] g5]
  note e4 = above_trans [OF g5 g6] note e2 = above_trans [OF above_trans [OF g3 g4] e4]
  have fr: "framed s s'" unfolding framed_grown
    using above_base [OF above_trans [OF h5 g6]] framed_ctx [OF s1(2)] framed_ctx [OF 1(2)] framed_ctx [OF 4(2)] framed_ctx [OF 6(2)] 3(4) 5(4) by simp
  have m: "?m t u s = Inr ((), s')" using 1(1) 3(1) 4(1) 5(1) 6(1) by (simp add: run s1_def created2_def l_def r_def)
  have "ranged V \<sigma>' \<and> arrives G B loc V (cg_next s) \<sigma> \<sigma>' (pos s) (if w \<noteq> 0 then t else u, 0) (\<lambda>_ _ _. True)
      (\<lambda>p \<rho> M. comes_from s' p (if w \<noteq> 0 then t else u))"
    if c: "covers s s' B" and r: "ranged V \<sigma>" and e: "?f \<sigma> = Some (w, \<sigma>')" for B \<sigma> w \<sigma>'
  proof -
    from e obtain x \<sigma>1 where x: "fc \<sigma> = Some (x, \<sigma>1)" "(if x \<noteq> 0 then f1 \<sigma>1 else f2 \<sigma>1) = Some (w, \<sigma>')"
      by (auto simp: bind_eq_Some_conv)
    note a1 = 1(5) [OF covers_above [OF c g1 e2] r x(1) refl]
    show ?thesis
    proof (cases "x = 0")
      case True
      from a1 True have a': "ranged V \<sigma>1" "arrives G B loc V (cg_next s1) \<sigma> \<sigma>1 (pos s) (pos s5) (\<lambda>_ _ _. True) (\<lambda>p \<rho> M. comes_from s2 p r)"
        by (simp_all add: s1(6) 5(5))
      note a = a'(1) arrives_less [OF a'(2) nx]
      have "f2 \<sigma>1 = Some (w, \<sigma>')" using x(2) True by simp
      note a2 = 6(5) [OF covers_above [OF c h5 grown_refl] a(1) this refl]
      show ?thesis
        by (rule conjI [OF conjunct1 [OF a2] arrives_trans [OF a(2) arrives_mono [OF conjunct2 [OF a2]] grown_next [OF h5]]]) simp_all
    next
      case False
      from a1 False have a': "ranged V \<sigma>1" "arrives G B loc V (cg_next s1) \<sigma> \<sigma>1 (pos s) (pos s3) (\<lambda>_ _ _. True) (\<lambda>p \<rho> M. comes_from s2 p l)"
        by (simp_all add: s1(6) 3(5))
      note a = a'(1) arrives_less [OF a'(2) nx]
      have "f1 \<sigma>1 = Some (w, \<sigma>')" using x(2) False by simp
      note a2 = 4(5) [OF covers_above [OF c h3 e4] a(1) this refl]
      show ?thesis
        by (rule conjI [OF conjunct1 [OF a2] arrives_trans [OF a(2) arrives_mono [OF conjunct2 [OF a2] _ comes_from_grown [OF _ e4]] grown_next [OF h3]]]) simp_all
    qed
  qed
  with m fr 6(3,4) show "\<exists>s'. ?m t u s = Inr ((), s') \<and> framed s s' \<and> settled loc V s' \<and> closed s' \<and>
     (\<forall>B \<sigma> w \<sigma>'. covers s s' B \<longrightarrow> ranged V \<sigma> \<longrightarrow> ?f \<sigma> = Some (w, \<sigma>') \<longrightarrow> ranged V \<sigma>' \<and>
       arrives G B loc V (cg_next s) \<sigma> \<sigma>' (pos s) (if w \<noteq> 0 then t else u, 0) (\<lambda>_ _ _. True) (\<lambda>p \<rho> M. comes_from s' p (if w \<noteq> 0 then t else u)))"
    by blast
qed

end
