(* ===== verification/Kcc_SimLogic.thy ===== *)
theory Kcc_SimLogic
  imports Kcc_SimBranch
begin

text \<open>
  The values of \<open>&&\<close>, \<open>||\<close> and \<open>?:\<close>: blocks that meet in a phi node.
\<close>

subsection \<open>Phi nodes\<close>

definition patched :: "nat \<Rightarrow> ('c instr \<Rightarrow> 'c instr) \<Rightarrow> 'c cg \<Rightarrow> 'c cg" where
  "patched n f s = s\<lparr>cg_block := (\<lambda>b. map (\<lambda>(m, i). (m, if m = n then f i else i)) (cg_block s b)),
     cg_loose := map (\<lambda>(m, i). (m, if m = n then f i else i)) (cg_loose s)\<rparr>"

lemma on_instr_run [run]: "on_instr n f s = Inr ((), patched n f s)"
  by (simp add: on_instr_def patched_def run)

lemma patched_facts [simp]: "cg_next (patched n f s) = cg_next s" "cg_at (patched n f s) = cg_at s" "cg_order (patched n f s) = cg_order s"
  "ctx (patched n f s) = ctx s" "cg_result (patched n f s) = cg_result s"
  "cg_block (patched n f s) b = map (\<lambda>(m, i). (m, if m = n then f i else i)) (cg_block s b)"
  by (simp_all add: patched_def ctx_def)

lemma map_unpatched: "(\<And>x. x \<in> set xs \<Longrightarrow> fst x \<noteq> n) \<Longrightarrow> map (\<lambda>(m, i). (m, if m = n then f i else i)) xs = xs"
  by (rule map_idI) auto

lemma patched_numbers: "(\<forall>x \<in> set (map (\<lambda>(m, i). (m, if m = n then f i else i)) xs). fst x < k) \<longleftrightarrow> (\<forall>x \<in> set xs. fst x < k)"
  by (induction xs) auto

lemma numbered_patched: "numbered s \<Longrightarrow> numbered (patched n f s)"
  unfolding numbered_def patched_facts patched_numbers
  by (simp add: patched_def patched_numbers del: set_map)

lemma numbered_fresh:
  assumes "numbered s" and "cg_next s \<le> n"
  shows "x \<in> set (cg_block s b) \<Longrightarrow> fst x \<noteq> n" "x \<in> set (cg_loose s) \<Longrightarrow> fst x \<noteq> n"
  using assms unfolding numbered_def by (meson leD)+

lemma settled_patched: "settled loc V s \<Longrightarrow> settled loc V (patched n f s)"
  using numbered_patched [of s n f] by (simp add: settled_def) (simp add: patched_def)

lemma grown_code: "grown X s s' \<Longrightarrow> \<exists>xs. cg_block s' b = cg_block s b @ xs \<and> (\<forall>x \<in> set xs. cg_next s \<le> fst x)"
  unfolding grown_def new_code_def by blast

lemma grown_patched:
  assumes "grown X s s'" and "numbered s" and "cg_next s \<le> n"
  shows "grown X s (patched n f s')"
proof -
  have old: "map (\<lambda>(m, i). (m, if m = n then f i else i)) (cg_block s b) = cg_block s b" for b
    by (rule map_unpatched [OF numbered_fresh(1) [OF assms(2,3)]])
  have new: "\<exists>ys. new_code s (patched n f s') b ys" for b
  proof -
    obtain xs where "new_code s s' b xs" using assms(1) unfolding grown_def by blast
    then have "new_code s (patched n f s') b (map (\<lambda>(m, i). (m, if m = n then f i else i)) xs)"
      by (auto simp: new_code_def old)
    then show ?thesis by blast
  qed
  show ?thesis using assms(1) new unfolding grown_def patched_facts by (simp add: old)
qed

lemma patch_last:
  assumes "numbered s" and "is_open s"
  shows "patched (cg_next s) f (add_instr i s) = add_instr (f i) s"
proof -
  have old: "map (\<lambda>(m, i). (m, if m = cg_next s then f i else i)) (cg_block s b) = cg_block s b" for b
    by (rule map_unpatched [OF numbered_fresh(1) [OF assms(1) order_refl]])
  have "map (\<lambda>(m, i). (m, if m = cg_next s then f i else i)) (cg_loose s) = cg_loose s"
    by (rule map_unpatched [OF numbered_fresh(2) [OF assms(1) order_refl]])
  moreover have "(\<lambda>b. map (\<lambda>(m, i). (m, if m = cg_next s then f i else i)) (cg_block (add_instr i s) b)) = cg_block (add_instr (f i) s)"
    using old by (auto simp: add_instr_block)
  ultimately show ?thesis by (simp add: patched_def) (simp add: add_instr_def)
qed

lemma phi_step:
  assumes "prefix [(n, I_Phi t vs)] (B b)" and "k \<le> n"
  shows "arrives G B loc V k \<sigma> \<sigma> (b, 0) (b, 1) (\<lambda>p \<rho> M. \<exists>v. map_of (map (\<lambda>(v, b). (b, v)) vs) p = Some v \<and> den G \<rho> v = Some x)
    (\<lambda>p \<rho> M. \<rho> n = x)"
proof -
  have st: "0 < length (B b)" "B b ! 0 = (n, I_Phi t vs)" using assms(1) by (auto simp: prefix_def)
  have "runs G B (b, 0, p, \<rho>, M) (b, 1, p, \<rho>(n := x), M)"
    if "map_of (map (\<lambda>(v, b). (b, v)) vs) p = Some v" "den G \<rho> v = Some x" for p \<rho> v and M :: "'a mem"
    using mstep.instr [of 0 B b G p \<rho> M "\<rho>(n := x)" M] st that by (simp add: r_into_rtranclp)
  with assms(2) show ?thesis unfolding arrives_def by (metis agree_upd fst_conv snd_conv fun_upd_same)
qed

lemma flowsI:
  assumes "\<And>B. covers s s' B \<Longrightarrow> arrives G B loc V (cg_next s) \<sigma> \<sigma>' (pos s) (pos s') (\<lambda>p \<rho> M. A \<rho>) (\<lambda>p \<rho> M. C \<rho>)"
  shows "flows G loc V s s' \<sigma> \<sigma>' A C"
  using assms unfolding flows_def arrives_def by blast

lemma covers_self: "covers s s' (cg_block s')"
  by (simp add: covers_def)

lemma known_incoming: "p \<in> set ps \<Longrightarrow> map_of (map (\<lambda>(v, b). (b, v)) (map (\<lambda>b. (v, b)) ps @ xs)) p = Some v"
  by (induction ps) auto

lemma last_incoming: "p \<notin> set ps \<Longrightarrow> map_of (map (\<lambda>(v, b). (b, v)) (map (\<lambda>b. (v, b)) ps @ [(w, p)])) p = Some w"
  by (induction ps) auto

subsection \<open>The join of \<open>&&\<close> and \<open>||\<close>\<close>

definition with_phi :: "nat \<Rightarrow> ltype \<Rightarrow> ('c val \<times> nat) list \<Rightarrow> 'c cg \<Rightarrow> 'c cg" where
  "with_phi b t vs s = s\<lparr>cg_next := Suc (cg_next s), cg_block := (cg_block s)(b := cg_block s b @ [(cg_next s, I_Phi t vs)])\<rparr>"

lemma phi_in_run [run]: "phi_in b t vs s = Inr (cg_next s, with_phi b t vs s)"
  by (simp add: phi_in_def with_phi_def Let_def)

lemma with_phi_facts [simp]: "cg_next (with_phi b t vs s) = Suc (cg_next s)" "cg_at (with_phi b t vs s) = cg_at s"
  "cg_order (with_phi b t vs s) = cg_order s" "ctx (with_phi b t vs s) = ctx s" "cg_loose (with_phi b t vs s) = cg_loose s"
  "cg_block (with_phi b t vs s) = (cg_block s)(b := cg_block s b @ [(cg_next s, I_Phi t vs)])"
  by (simp_all add: with_phi_def ctx_def)

lemma grown_phi: "grown {b} s (with_phi b t vs s)"
  by (auto simp: grown_def new_code_def)

lemma settled_phi: "settled loc V s \<Longrightarrow> b < cg_next s \<Longrightarrow> settled loc V (with_phi b t vs s)"
  by (auto simp: settled_def numbered_def less_Suc_eq) (auto simp: with_phi_def)

lemma sim_join:
  assumes "llvm_ok G" and "sim_br G loc V mb fb" and "sim G loc V T_int K (value_of P r) fr"
  shows "sim G loc V T_int True (bnd CreateBasicBlock (\<lambda>b. bnd CreateBasicBlock (\<lambda>e. thn (mb b e) (join_logic G P (getInt1 G (of_bool kn)) b e r))))
    (\<lambda>\<sigma>. Option.bind (fb \<sigma>) (\<lambda>(x, \<sigma>1). if x = 0 then Some (of_bool kn, \<sigma>1) else map_option (\<lambda>(y, \<sigma>2). (truth y, \<sigma>2)) (fr \<sigma>1)))"
    (is "sim G loc V T_int True ?m ?f")
  unfolding sim_def
proof (intro allI impI)
  fix s assume s: "ready loc V s"
  define b where "b = cg_next s"
  define e where "e = Suc (cg_next s)"
  define s1 where "s1 = created2 s"
  note s1 = created2_facts [OF s, folded b_def e_def s1_def]
  have be: "cg_next s \<le> b" "cg_next s \<le> e" "b \<noteq> e" by (simp_all add: b_def e_def)
  have nx: "cg_next s \<le> cg_next s1" using created2_facts(5) [OF s] by (simp add: s1_def)
  from sim_brE [OF assms(2) s1(1), of b e] obtain s2 where 1: "mb b e s1 = Inr ((), s2)" "framed s1 s2" "settled loc V s2" "closed s2"
    "\<And>B \<sigma> w \<sigma>' d. covers s1 s2 B \<Longrightarrow> ranged V \<sigma> \<Longrightarrow> fb \<sigma> = Some (w, \<sigma>') \<Longrightarrow> d = (if w \<noteq> 0 then b else e) \<Longrightarrow> ranged V \<sigma>' \<and>
       arrives G B loc V (cg_next s1) \<sigma> \<sigma>' (pos s1) (d, 0) (\<lambda>_ _ _. True) (\<lambda>p \<rho> M. comes_from s2 p d)"
    by blast
  define ps where "ps = predecessors s2 e"
  define k where "k = getInt1 G (of_bool kn)"
  define n where "n = cg_next s2"
  define s3 where "s3 = with_phi e T_bool (map (\<lambda>b. (k, b)) ps) s2"
  have ue: "unplaced e s2" and ub: "unplaced b s2"
    using unplaced_grown [OF s1(4) grown_framed [OF 1(2), of "{}"]] unplaced_grown [OF s1(3) grown_framed [OF 1(2), of "{}"]] by simp_all
  have g23: "grown {e} s2 s3" unfolding s3_def by (rule grown_phi)
  have se3: "settled loc V s3" unfolding s3_def by (rule settled_phi [OF 1(3) unplaced_less [OF ue]])
  have be3: "cg_block s3 e = [(n, I_Phi T_bool (map (\<lambda>b. (k, b)) ps))]" using ue by (simp add: s3_def unplaced_def n_def)
  from after_branch [OF ub g23 se3] be(3) obtain s4 where
    4: "EmitBlock b False s3 = Inr ((), s4)" "ready loc V s4" "grown {b} s3 s4" "ctx s4 = ctx s3" "pos s4 = (b, 0)" by blast
  from simE [OF sim_as_bool [OF assms(1,3)] 4(2)] obtain v s5 where 5: "EvaluateExprAsBool G P r s4 = Inr (v, s5)" "gives G loc V T_bool K s4 v s5"
    "\<And>\<sigma> w \<sigma>'. ranged V \<sigma> \<Longrightarrow> map_option (\<lambda>(x, \<sigma>'). (- truth x, \<sigma>')) (fr \<sigma>) = Some (w, \<sigma>') \<Longrightarrow> fits_type T_bool w \<and> ranged V \<sigma>' \<and>
       flows G loc V s4 s5 \<sigma> \<sigma>' (\<lambda>_. True) (\<lambda>\<rho>. den G \<rho> v = Some w)"
    by blast
  note g = gives_facts [OF 5(2)]
  obtain a where a: "cg_at s5 = Some a" using ready_open [OF g(2)] by (auto simp: is_open_def)
  have at4: "cg_at s4 = Some b" using 4(1) by (auto simp: run EmitBlock_def link_block_def SetInsertPoint_def bindE_eq_Inr split: if_splits)
  have n4: "cg_next s4 \<ge> Suc n" "e < cg_next s2" "b < cg_next s2"
    using grown_next [OF 4(3)] unplaced_less [OF ue] unplaced_less [OF ub] by (simp_all add: s3_def n_def)
  have a_new: "a = b \<or> cg_next s4 \<le> a" using framed_at [OF g(1) a] at4 by auto
  have ae: "a \<noteq> e" using a_new n4 be(3) by (auto simp: n_def)
  have a_ps: "a \<notin> set ps"
  proof
    assume "a \<in> set ps"
    then have "comes_from s2 a e" by (simp add: ps_def predecessors_iff)
    then have "a < cg_next s2" "cg_block s2 a \<noteq> []" by (auto simp: comes_from_def)
    then show False using a_new n4(1) ub by (auto simp: n_def unplaced_def)
  qed
  define s6 where "s6 = placed e (jumped e s5)"
  define s7 where "s7 = patched n (add_incoming v a) s6"
  have e5: "cg_block s5 e = cg_block s3 e" "e \<notin> set (cg_order s5)" "e < cg_next s5"
  proof -
    have "e \<notin> {b}" "e < cg_next s3" "cg_at s3 \<noteq> Some e" "e < cg_next s4" "cg_at s4 \<noteq> Some e" "e \<notin> set (cg_order s3)"
      using be(3) n4 ue at4 by (auto simp: s3_def unplaced_def n_def)
    then show "cg_block s5 e = cg_block s3 e" "e \<notin> set (cg_order s5)" "e < cg_next s5"
      using framed_other [OF g(1)] grown_other [OF 4(3)] framed_order [OF g(1)] grown_order [OF 4(3)] framed_next [OF g(1)] by auto
  qed
  have e6: "cg_block (jumped e s5) e = cg_block s3 e"
    using framed_other [OF framed_jumped e5(3), of e] a ae e5(1) by simp
  have r6: "ready loc V s6" unfolding s6_def
  proof (rule ready_placed)
    show "settled loc V (jumped e s5)" using g(2) by (simp add: ready_def settled_jumped)
    show "e < cg_next (jumped e s5)" using e5(3) framed_next [OF framed_jumped, of s5 e] by simp
    show "getTerminator (jumped e s5) e = None" by (simp add: getTerminator_def e6 be3)
  qed
  have m6: "EmitBlock e False s5 = Inr ((), s6)" unfolding s6_def by (rule block_run [OF e5(3,2)])
  have be7: "cg_block s7 e = [(n, I_Phi T_bool (map (\<lambda>b. (k, b)) ps @ [(v, a)]))]"
    by (simp add: s7_def s6_def e6 be3)
  have at7: "cg_at s7 = Some e" by (simp add: s7_def s6_def)
  have st6: "settled loc V s6" using r6 by (simp add: ready_def)
  have r7: "ready loc V s7" unfolding ready_def is_open_def getTerminator_def
    using at7 be7 settled_patched [OF st6, of n "add_incoming v a"] by (simp add: s7_def)
  have nv: "n < cg_next s6"
    using n4(1) framed_next [OF g(1)] framed_next [OF framed_jumped, of s5 e] by (simp add: s6_def)
  have bn: "below (cg_next s7) (Reg n T_bool)" "val_type G (Reg n T_bool) = T_bool" using nv by (simp_all add: s7_def)
  from simvE [OF sim_as_int [OF assms(1)] r7 bn(2,1)] obtain w s' where 7: "as_int G (Reg n T_bool) s7 = Inr (w, s')"
    "gives G loc V T_int (\<not> is_const (Reg n T_bool :: 'a val)) s7 w s'"
    "\<And>\<sigma> x y. fits_type T_bool x \<Longrightarrow> Some (take_bit 1 x) = Some y \<Longrightarrow> fits_type T_int y \<and>
       flows G loc V s7 s' \<sigma> \<sigma> (\<lambda>\<rho>. den G \<rho> (Reg n T_bool) = Some x) (\<lambda>\<rho>. den G \<rho> w = Some y)"
    by blast
  note g' = gives_facts [OF 7(2)]
  have m: "?m s = Inr (w, s')"
    using 1(1) 4(1) 5(1) m6 7(1)
    by (simp add: run join_logic_def GetInsertBlock_def addIncoming_def s1_def s7_def s3_def a created2_def b_def e_def ps_def k_def n_def)
  note h1 = grown_framed [OF s1(2), of "{cg_next s..}"] and h2 = grown_framed [OF 1(2), of "{cg_next s..}"]
    and h3 = above_block [OF g23 be(2)] and h4 = above_block [OF 4(3) be(1)] and h5 = grown_framed [OF g(1), of "{cg_next s..}"]
  have h6: "grown {cg_next s..} s5 s6" unfolding s6_def
    by (rule above_trans [OF grown_framed [OF framed_jumped] above_block [OF grown_placed be(2)]])
  note h8 = grown_framed [OF g'(1), of "{cg_next s..}"]
  note h04 = above_trans [OF above_trans [OF above_trans [OF h1 h2] h3] h4]
  note h26 = above_trans [OF above_trans [OF above_trans [OF h3 h4] h5] h6]
  have num: "numbered s" "numbered s2" using s 1(3) by (simp_all add: ready_def settled_def)
  have sn: "cg_next s \<le> n" using grown_next [OF above_trans [OF h1 h2]] by (simp add: n_def)
  have h07: "grown {cg_next s..} s s7" unfolding s7_def
    by (rule grown_patched [OF above_trans [OF above_trans [OF h04 h5] h6] num(1) sn])
  have h2e: "grown {cg_next s..} s2 s'"
    using above_trans [OF grown_patched [OF h26 num(2), of n "add_incoming v a", folded s7_def] h8] by (simp add: n_def)
  have fr: "framed s s'" unfolding framed_grown
    using above_base [OF above_trans [OF h07 h8]] framed_ctx [OF s1(2)] framed_ctx [OF 1(2)] framed_ctx [OF g(1)] framed_ctx [OF g'(1)] 4(4)
    by (simp add: s7_def s6_def s3_def)
  have same: "cg_block s7 c = cg_block s6 c" if c: "c \<noteq> e" for c
  proof -
    from grown_code [OF above_trans [OF above_trans [OF h4 h5] h6]] obtain xs where
      "cg_block s6 c = cg_block s3 c @ xs" "\<forall>x \<in> set xs. cg_next s3 \<le> fst x" by blast
    then have xs: "cg_block s6 c = cg_block s2 c @ xs" "\<forall>x \<in> set xs. n < fst x" using c by (simp_all add: s3_def n_def less_eq_Suc_le)
    show ?thesis unfolding s7_def patched_facts
      by (rule map_unpatched) (use numbered_fresh(1) [OF num(2), of n] xs in \<open>auto simp: n_def\<close>)
  qed
  have pre: "prefix (cg_block s6 c) (cg_block s' c)" if "c \<noteq> e" for c
    using framed_prefix [OF g'(1), of c] same [OF that] by simp
  have take: "take_bit 1 (- of_bool kn :: int) = of_bool kn" "take_bit 1 (- truth y) = truth y" for y
    by (auto simp: truth_def)
  have gv: "gives G loc V T_int True s w s'" using fr g' by (simp add: gives_def)
  have p7: "pos s7 = (e, 1)" unfolding pos_def at7 option.sel be7 by simp
  have tail: "arrives G B loc V (cg_next s) \<tau> \<tau> (e, 0) (pos s') (\<lambda>p \<rho> M. \<exists>u. map_of (map (\<lambda>(v, b). (b, v)) (map (\<lambda>b. (k, b)) ps @ [(v, a)])) p = Some u \<and>
      den G \<rho> u = Some z) (\<lambda>p \<rho> M. den G \<rho> w = Some (take_bit 1 z))" if c: "covers s s' B" and z: "fits_type T_bool z" for B \<tau> z
  proof -
    have "prefix (cg_block s' e) (B e)" using c be(2) by (auto simp: covers_def)
    then have B: "prefix [(n, I_Phi T_bool (map (\<lambda>b. (k, b)) ps @ [(v, a)]))] (B e)"
      using framed_prefix [OF g'(1), of e] unfolding be7 by (rule prefix_order.trans [rotated])
    have fl: "flows G loc V s7 s' \<tau> \<tau> (\<lambda>\<rho>. den G \<rho> (Reg n T_bool) = Some z) (\<lambda>\<rho>. den G \<rho> w = Some (take_bit 1 z))"
      using 7(3) [OF z refl] by blast
    show ?thesis
      by (rule arrives_trans [OF phi_step [where B = B and b = e, OF B sn] arrives_mono [OF flows_arrives [OF fl covers_above [OF c h07 grown_refl], unfolded p7]] grown_next [OF h07]])
        (simp_all add: den_def)
  qed
  have runs: "flows G loc V s s' \<sigma> \<sigma>' (\<lambda>_. True) (\<lambda>\<rho>. den G \<rho> w = Some y) \<and> fits_type T_int y \<and> ranged V \<sigma>'"
    if r: "ranged V \<sigma>" and f: "?f \<sigma> = Some (y, \<sigma>')" for \<sigma> y \<sigma>'
  proof -
    from f obtain x \<sigma>1 where x: "fb \<sigma> = Some (x, \<sigma>1)"
      "(if x = 0 then Some (of_bool kn, \<sigma>1) else map_option (\<lambda>(y, \<sigma>2). (truth y, \<sigma>2)) (fr \<sigma>1)) = Some (y, \<sigma>')"
      by (auto simp: bind_eq_Some_conv)
    note a1 = 1(5) [OF covers_above [OF _ h1 h2e] r x(1) refl]
    have kd: "den G \<rho> k = Some (- of_bool kn)" for \<rho> using assms(1) by (simp add: k_def sgn_of_def)
    have left: "\<exists>u. map_of (map (\<lambda>(v, b). (b, v)) (map (\<lambda>b. (k, b)) ps @ [(v, a)])) p = Some u \<and> den G \<rho> u = Some (- of_bool kn)"
      if "comes_from s2 p e" for p \<rho>
      using known_incoming [of p ps k "[(v, a)]"] that kd by (simp add: ps_def predecessors_iff)
    have right: "\<exists>u. map_of (map (\<lambda>(v, b). (b, v)) (map (\<lambda>b. (k, b)) ps @ [(v, a)])) p = Some u \<and> den G \<rho> u = Some z"
      if "reached (cg_at s5) (\<lambda>\<rho> M. den G \<rho> v = Some z) p \<rho> M" for p \<rho> M z
      using last_incoming [OF a_ps, of k v] that by (simp add: reached_def a)
    have main: "ranged V \<sigma>' \<and> arrives G B loc V (cg_next s) \<sigma> \<sigma>' (pos s) (pos s') (\<lambda>_ _ _. True) (\<lambda>p \<rho> M. den G \<rho> w = Some y)"
      if c: "covers s s' B" for B
    proof (cases "x = 0")
      case True
      then have y: "y = of_bool kn" "\<sigma>' = \<sigma>1" using x(2) by auto
      from a1 [OF c] True have a': "ranged V \<sigma>1"
        "arrives G B loc V (cg_next s1) \<sigma> \<sigma>1 (pos s) (e, 0) (\<lambda>_ _ _. True) (\<lambda>p \<rho> M. comes_from s2 p e)"
        by (simp_all add: s1(6))
      have z: "fits_type T_bool (- of_bool kn)" by (cases kn) (simp_all add: fits_bool del: One_nat_def)
      show ?thesis
        using a'(1) arrives_trans [OF arrives_less [OF a'(2) nx] arrives_mono [OF tail [OF c z] left] order_refl] by (simp add: y take)
    next
      case False
      then obtain y' where y: "fr \<sigma>1 = Some (y', \<sigma>')" "y = truth y'" using x(2) by auto
      from a1 [OF c] False have a': "ranged V \<sigma>1"
        "arrives G B loc V (cg_next s1) \<sigma> \<sigma>1 (pos s) (pos s4) (\<lambda>_ _ _. True) (\<lambda>p \<rho> M. comes_from s2 p b)"
        by (simp_all add: s1(6) 4(5))
      have "map_option (\<lambda>(x, \<sigma>'). (- truth x, \<sigma>')) (fr \<sigma>1) = Some (- truth y', \<sigma>')" by (simp add: y)
      from 5(3) [OF a'(1) this] have 8: "fits_type T_bool (- truth y')" "ranged V \<sigma>'"
        "flows G loc V s4 s5 \<sigma>1 \<sigma>' (\<lambda>_. True) (\<lambda>\<rho>. den G \<rho> v = Some (- truth y'))" by auto
      have c4: "covers s4 s5 B"
      proof (rule covers_part [OF c grown_next [OF h04]])
        show "cg_at s = Some c \<or> cg_next s \<le> c" if "cg_at s4 = Some c" for c using that at4 be(1) by auto
        show "prefix (cg_block s5 c) (cg_block s' c)" if "cg_at s4 = Some c \<or> cg_next s4 \<le> c" for c
          using that at4 be(3) n4 grown_prefix [OF h6, of c] pre [of c] by (auto simp: n_def intro: prefix_order.trans)
      qed
      have c5: "covers s5 (jumped e s5) B"
      proof (rule covers_part [OF c grown_next [OF above_trans [OF h04 h5]]])
        show "cg_at s = Some c \<or> cg_next s \<le> c" if "cg_at s5 = Some c" for c
          using that a a_new be(1) grown_next [OF h04] by auto
        show "prefix (cg_block (jumped e s5) c) (cg_block s' c)" if "cg_at s5 = Some c \<or> cg_next s5 \<le> c" for c
          using that a ae e5(3) pre [of c] by (auto simp: s6_def)
      qed
      have b1: "arrives G B loc V (cg_next s) \<sigma> \<sigma>' (pos s) (pos s5) (\<lambda>_ _ _. True) (\<lambda>p \<rho> M. den G \<rho> v = Some (- truth y'))"
        by (rule arrives_trans [OF arrives_less [OF a'(2) nx] arrives_mono [OF flows_arrives [OF 8(3) c4]] grown_next [OF h04]]) simp_all
      note b2 = arrives_trans [OF b1 arrives_jump [OF ready_open [OF g(2)] c5] order_refl]
      have "arrives G B loc V (cg_next s) \<sigma> \<sigma>' (pos s) (pos s') (\<lambda>_ _ _. True) (\<lambda>p \<rho> M. den G \<rho> w = Some (take_bit 1 (- truth y')))"
        by (rule arrives_trans [OF b2 arrives_mono [OF tail [OF c 8(1)]] order_refl]) (use right in \<open>simp_all only:\<close>)
      with 8(2) show ?thesis unfolding y(2) take by blast
    qed
    have "fits_type T_int y" using x(2) by (auto split: if_splits)
    with main [OF covers_self] show ?thesis using flowsI [OF conjunct2 [OF main]] by blast
  qed
  show "\<exists>v s'. ?m s = Inr (v, s') \<and> gives G loc V T_int True s v s' \<and>
     (\<forall>\<sigma> w \<sigma>'. ranged V \<sigma> \<longrightarrow> ?f \<sigma> = Some (w, \<sigma>') \<longrightarrow> fits_type T_int w \<and> ranged V \<sigma>' \<and>
       flows G loc V s s' \<sigma> \<sigma>' (\<lambda>_. True) (\<lambda>\<rho>. den G \<rho> v = Some w))"
    using m gv runs by blast
qed

subsection \<open>The conditional operator\<close>

definition chosen :: "(store \<Rightarrow> (int \<times> store) option) \<Rightarrow> (store \<Rightarrow> (int \<times> store) option) \<Rightarrow> (store \<Rightarrow> (int \<times> store) option) \<Rightarrow>
    store \<Rightarrow> (int \<times> store) option" where
  "chosen fc fl fr \<sigma> = Option.bind (fc \<sigma>) (\<lambda>(x, \<sigma>1). if x \<noteq> 0 then fl \<sigma>1 else fr \<sigma>1)"

lemma created3_facts:
  assumes "ready loc V s"
  shows "ready loc V (created (created2 s))" "framed s (created (created2 s))" "unplaced (cg_next s) (created (created2 s))"
    "unplaced (Suc (cg_next s)) (created (created2 s))" "unplaced (Suc (Suc (cg_next s))) (created (created2 s))"
    "cg_next s \<le> cg_next (created (created2 s))" "pos (created (created2 s)) = pos s"
proof -
  note c = created2_facts [OF assms]
  note g = grown_framed [OF framed_created, of "{}"]
  show "ready loc V (created (created2 s))" "framed s (created (created2 s))" "pos (created (created2 s)) = pos s"
    using c framed_trans [OF c(2) framed_created] by simp_all
  show "unplaced (cg_next s) (created (created2 s))" "unplaced (Suc (cg_next s)) (created (created2 s))"
    using unplaced_grown [OF c(3) g] unplaced_grown [OF c(4) g] by simp_all
  show "unplaced (Suc (Suc (cg_next s))) (created (created2 s))"
    using unplaced_created [OF closed_facts(2) [OF c(1)]] by (simp add: created2_def)
  show "cg_next s \<le> cg_next (created (created2 s))" using c(5) by simp
qed

text \<open>The value is computed in a block of its own, from which the code goes on to \<open>e\<close>.\<close>

definition value_in :: "'c genv \<Rightarrow> (nat \<Rightarrow> 'c val) \<Rightarrow> nat set \<Rightarrow> ltype \<Rightarrow> (store \<Rightarrow> (int \<times> store) option) \<Rightarrow> nat \<Rightarrow> nat \<Rightarrow> 'c cg \<Rightarrow> 'c cg \<Rightarrow>
    'c cg \<Rightarrow> 'c val \<Rightarrow> nat \<Rightarrow> bool" where
  "value_in G loc V t f b e s s1 s2 v a \<longleftrightarrow> cg_at s2 = Some a \<and> (a = b \<or> cg_next s \<le> a) \<and> a < cg_next s2 \<and> val_type G v = t \<and>
     below (cg_next s2) v \<and> settled loc V (jumped e s2) \<and> unplaced e (jumped e s2) \<and> ctx (jumped e s2) = ctx s \<and>
     grown {b} s s1 \<and> grown {b} s1 (jumped e s2) \<and> cg_next s2 \<le> cg_next (jumped e s2) \<and>
     (\<forall>B \<sigma> w \<sigma>'. covers s1 (jumped e s2) B \<longrightarrow> ranged V \<sigma> \<longrightarrow> f \<sigma> = Some (w, \<sigma>') \<longrightarrow> fits_type t w \<and> ranged V \<sigma>' \<and>
        arrives G B loc V (cg_next s1) \<sigma> \<sigma>' (b, 0) (e, 0) (\<lambda>_ _ _. True) (reached (Some a) (\<lambda>\<rho> M. den G \<rho> v = Some w)))"

lemma value_in_facts:
  assumes "value_in G loc V t f b e s s1 s2 v a"
  shows "cg_at s2 = Some a" "a = b \<or> cg_next s \<le> a" "a < cg_next s2" "val_type G v = t" "below (cg_next s2) v"
    "settled loc V (jumped e s2)" "unplaced e (jumped e s2)" "ctx (jumped e s2) = ctx s" "grown {b} s s1" "grown {b} s1 (jumped e s2)"
    "cg_next s2 \<le> cg_next (jumped e s2)"
    "covers s1 (jumped e s2) B \<Longrightarrow> ranged V \<sigma> \<Longrightarrow> f \<sigma> = Some (w, \<sigma>') \<Longrightarrow> fits_type t w \<and> ranged V \<sigma>' \<and>
      arrives G B loc V (cg_next s1) \<sigma> \<sigma>' (b, 0) (e, 0) (\<lambda>_ _ _. True) (reached (Some a) (\<lambda>\<rho> M. den G \<rho> v = Some w))"
  using assms unfolding value_in_def by blast+

lemma value_block:
  assumes "sim G loc V t K m f" and "settled loc V s" and "unplaced b s" and "unplaced e s" and "b \<noteq> e"
  obtains v s1 s2 a where "EmitBlock b False s = Inr ((), s1)" and "m s1 = Inr (v, s2)" and "value_in G loc V t f b e s s1 s2 v a"
proof -
  from begin_block [OF assms(2,3)] obtain s1 where 1: "EmitBlock b False s = Inr ((), s1)" "s1 = placed b (jumped b s)" "ready loc V s1"
    "grown {b} s s1" "ctx s1 = ctx s" "pos s1 = (b, 0)" "cg_next s \<le> cg_next s1" by blast
  from simE [OF assms(1) 1(3)] obtain v s2 where 2: "m s1 = Inr (v, s2)" "gives G loc V t K s1 v s2"
    "\<And>\<sigma> w \<sigma>'. ranged V \<sigma> \<Longrightarrow> f \<sigma> = Some (w, \<sigma>') \<Longrightarrow> fits_type t w \<and> ranged V \<sigma>' \<and>
       flows G loc V s1 s2 \<sigma> \<sigma>' (\<lambda>_. True) (\<lambda>\<rho>. den G \<rho> v = Some w)"
    by blast
  note g = gives_facts [OF 2(2)]
  obtain a where a: "cg_at s2 = Some a" using ready_open [OF g(2)] by (auto simp: is_open_def)
  have a1: "a = b \<or> cg_next s \<le> a" using framed_at [OF g(1) a] 1(2,7) by auto
  have a2: "a < cg_next s2" using closed_facts(2) [OF g(2)] a by (auto simp: numbered_def)
  have g2: "grown {b} s1 (jumped e s2)" by (rule grown_framed [OF framed_trans [OF g(1) framed_jumped]])
  have u: "unplaced e (jumped e s2)" by (rule unplaced_grown [OF assms(4) grown_trans [OF 1(4) g2]]) (use assms(5) in auto)
  have st: "settled loc V (jumped e s2)" by (rule settled_jumped [OF closed_facts(1) [OF g(2)]])
  have run: "fits_type t w \<and> ranged V \<sigma>' \<and>
      arrives G B loc V (cg_next s1) \<sigma> \<sigma>' (b, 0) (e, 0) (\<lambda>_ _ _. True) (reached (Some a) (\<lambda>\<rho> M. den G \<rho> v = Some w))"
    if c: "covers s1 (jumped e s2) B" and r: "ranged V \<sigma>" "f \<sigma> = Some (w, \<sigma>')" for B \<sigma> w \<sigma>'
  proof -
    from 2(3) [OF r] have 3: "fits_type t w" "ranged V \<sigma>'" "flows G loc V s1 s2 \<sigma> \<sigma>' (\<lambda>_. True) (\<lambda>\<rho>. den G \<rho> v = Some w)" by auto
    have "arrives G B loc V (cg_next s1) \<sigma> \<sigma>' (b, 0) (pos s2) (\<lambda>_ _ _. True) (\<lambda>p \<rho> M. den G \<rho> v = Some w)"
      using flows_arrives [OF 3(3) covers_first [OF g(1) framed_jumped c]] by (simp add: 1(6))
    from arrives_trans [OF this arrives_jump [OF ready_open [OF g(2)] covers_second [OF g(1) c]] order_refl] 3(1,2) show ?thesis by (simp add: a)
  qed
  have "value_in G loc V t f b e s s1 s2 v a" unfolding value_in_def
    using a a1 a2 g(3,4) st u 1(4,5) g2 framed_next [OF framed_jumped] framed_ctx [OF g(1)] run by simp
  from that [OF 1(1) 2(1) this] show ?thesis .
qed

definition cond_blocks :: "'c genv \<Rightarrow> (nat \<Rightarrow> nat \<Rightarrow> ('c, unit) gen) \<Rightarrow> ('c, 'c val) gen \<Rightarrow> ('c, 'c val) gen \<Rightarrow> ('c, unit) gen" where
  "cond_blocks G mc ml mr = bnd CreateBasicBlock (\<lambda>l. bnd CreateBasicBlock (\<lambda>r. bnd CreateBasicBlock (\<lambda>e.
     thn (mc l r) (thn (EmitBlock l False) (bnd ml (\<lambda>lhs. bnd GetInsertBlock (\<lambda>lhs_end. thn (EmitBranch e)
     (thn (EmitBlock r False) (bnd mr (\<lambda>rhs. bnd GetInsertBlock (\<lambda>rhs_end. thn (EmitBranch e) (thn (EmitBlock e False)
     (if val_type G lhs = LVoid \<or> val_type G rhs = LVoid then ret ()
      else thn (assertP (val_type G lhs = val_type G rhs)) (bnd (insert_instr (I_Phi (val_type G lhs) [])) (\<lambda>phi.
        thn (addIncoming phi lhs lhs_end) (thn (addIncoming phi rhs rhs_end) (set_result (Reg phi (val_type G lhs)))))))))))))))))))"

lemma sim_cond_blocks:
  assumes "sim_br G loc V mc fc" and "sim G loc V T_int K ml fl" and "sim G loc V T_int K' mr fr"
  shows "sim G loc V T_int True (thn (cond_blocks G mc ml mr) result_of) (chosen fc fl fr)"
  unfolding sim_def
proof (intro allI impI)
  fix s assume s: "ready loc V s"
  define l where "l = cg_next s"
  define r where "r = Suc (cg_next s)"
  define e where "e = Suc (Suc (cg_next s))"
  define s1 where "s1 = created (created2 s)"
  note s1 = created3_facts [OF s, folded l_def r_def e_def s1_def]
  have new: "cg_next s \<le> l" "cg_next s \<le> r" "cg_next s \<le> e" "l \<noteq> r" "l \<noteq> e" "r \<noteq> e" by (simp_all add: l_def r_def e_def)
  have nx: "cg_next s \<le> cg_next s1" using created3_facts(6) [OF s] by (simp add: s1_def)
  from sim_brE [OF assms(1) s1(1), of l r] obtain s2 where 1: "mc l r s1 = Inr ((), s2)" "framed s1 s2" "settled loc V s2" "closed s2"
    "\<And>B \<sigma> w \<sigma>' d. covers s1 s2 B \<Longrightarrow> ranged V \<sigma> \<Longrightarrow> fc \<sigma> = Some (w, \<sigma>') \<Longrightarrow> d = (if w \<noteq> 0 then l else r) \<Longrightarrow> ranged V \<sigma>' \<and>
       arrives G B loc V (cg_next s1) \<sigma> \<sigma>' (pos s1) (d, 0) (\<lambda>_ _ _. True) (\<lambda>p \<rho> M. comes_from s2 p d)"
    by blast
  note u2 = unplaced_grown [OF _ grown_framed [OF 1(2), of "{}"], simplified]
  obtain v s3 s4 a where
    3: "EmitBlock l False s2 = Inr ((), s3)" "ml s3 = Inr (v, s4)" "value_in G loc V T_int fl l e s2 s3 s4 v a"
    by (rule value_block [OF assms(2) 1(3) u2 [OF s1(3)] u2 [OF s1(5)] new(5)])
  note f3 = value_in_facts [OF 3(3)]
  define s5 where "s5 = jumped e s4"
  note f3 = f3 [folded s5_def]
  have gl: "grown {l} s2 s5" by (rule grown_trans [OF f3(9,10)]) simp
  have ur: "unplaced r s5" by (rule unplaced_grown [OF u2 [OF s1(4)] gl]) (use new(4) in auto)
  obtain u s6 s7 c where
    6: "EmitBlock r False s5 = Inr ((), s6)" "mr s6 = Inr (u, s7)" "value_in G loc V T_int fr r e s5 s6 s7 u c"
    by (rule value_block [OF assms(3) f3(6) ur f3(7) new(6)])
  define s8 where "s8 = jumped e s7"
  note f6 = value_in_facts [OF 6(3), folded s8_def]
  from begin_block [OF f6(6,7)] obtain s9 where 9: "EmitBlock e False s8 = Inr ((), s9)" "ready loc V s9" "grown {e} s8 s9" "ctx s9 = ctx s8" "pos s9 = (e, 0)"
    "s9 = placed e (jumped e s8)" by blast
  define n where "n = cg_next s9"
  define vs where "vs = [(v, a), (u, c)]"
  define s' where "s' = add_instr (I_Phi T_int vs) s9"
  note o9 = ready_open [OF 9(2)]
  have p1: "patched n (add_incoming v a) (add_instr (I_Phi T_int []) s9) = add_instr (I_Phi T_int [(v, a)]) s9"
    "patched n (add_incoming u c) (add_instr (I_Phi T_int [(v, a)]) s9) = s'"
    unfolding n_def s'_def vs_def by (simp_all add: patch_last [OF closed_facts(2) [OF 9(2)] o9])
  have m: "thn (cond_blocks G mc ml mr) result_of s = Inr (Reg n T_int, s'\<lparr>cg_result := Some (Reg n T_int)\<rparr>)"
    using 1(1) 3(1,2) 6(1,2) 9(1) f3(1,4) f6(1,4) o9 p1
    by (simp add: cond_blocks_def set_result_def result_of_def run GetInsertBlock_def addIncoming_def s1_def l_def r_def e_def created2_def s5_def s8_def insert_open n_def)
  note h1 = grown_framed [OF s1(2), of "{cg_next s..}"] and h2 = grown_framed [OF 1(2), of "{cg_next s..}"]
    and h3 = above_block [OF f3(9) new(1)] and h5 = above_block [OF f3(10) new(1)]
    and h6 = above_block [OF f6(9) new(2)] and h8 = above_block [OF f6(10) new(2)] and h9 = above_block [OF 9(3) new(3)]
  have fr': "framed s9 s'" using o9 by (simp add: s'_def)
  note h10 = grown_framed [OF fr', of "{cg_next s..}"]
  note h03 = above_trans [OF above_trans [OF h1 h2] h3] note h06 = above_trans [OF above_trans [OF h03 h5] h6]
  note h8e = above_trans [OF h9 h10] note h5e = above_trans [OF above_trans [OF h6 h8] h8e]
  note h0e = above_trans [OF above_trans [OF h06 h8] h8e] note h2e = above_trans [OF above_trans [OF h3 h5] h5e]
  have "framed s s'" unfolding framed_grown
    using above_base [OF h0e] framed_ctx [OF s1(2)] framed_ctx [OF 1(2)] f3(8) f6(8) 9(4) framed_ctx [OF fr'] by simp
  then have gv: "gives G loc V T_int True s (Reg n T_int) (s'\<lparr>cg_result := Some (Reg n T_int)\<rparr>)"
    using 9(2) by (simp add: gives_def s'_def n_def)
  have at9: "cg_at s9 = Some e" "cg_block s9 e = []" using 9(5) by (simp_all add: 9(6) pos_def)
  have p': "pos s' = (e, 1)" "cg_block s' e = [(n, I_Phi T_int vs)]" by (simp_all add: s'_def pos_def add_instr_block at9 n_def)
  have sn: "cg_next s \<le> n" using grown_next [OF above_trans [OF above_trans [OF h06 h8] h9]] by (simp add: n_def)
  have ac: "a \<noteq> c"
  proof -
    have "r < cg_next s2" "r \<noteq> l" "cg_next s2 \<le> cg_next s5" "a < cg_next s5"
      using unplaced_less [OF u2 [OF s1(4)]] new(4) grown_next [OF gl] f3(3,11) by auto
    then show ?thesis using f3(2) f6(2) by auto
  qed
  have tail: "arrives G B loc V (cg_next s) \<tau> \<tau> (e, 0) (pos s') (\<lambda>p \<rho> M. \<exists>u. map_of (map (\<lambda>(v, b). (b, v)) vs) p = Some u \<and> den G \<rho> u = Some z)
      (\<lambda>p \<rho> M. den G \<rho> (Reg n T_int) = Some z)" if c: "covers s s' B" for B \<tau> z
  proof -
    have "prefix (cg_block s' e) (B e)" using c new(3) by (auto simp: covers_def)
    then have B: "prefix [(n, I_Phi T_int vs)] (B e)" unfolding p'(2) .
    show ?thesis unfolding p'(1) by (rule arrives_mono [OF phi_step [where B = B and b = e, OF B sn]]) (simp_all add: den_def)
  qed
  have runs: "fits_type T_int y \<and> ranged V \<sigma>' \<and> arrives G B loc V (cg_next s) \<sigma> \<sigma>' (pos s) (pos s') (\<lambda>_ _ _. True) (\<lambda>p \<rho> M. den G \<rho> (Reg n T_int) = Some y)"
    if rg: "ranged V \<sigma>" and f: "chosen fc fl fr \<sigma> = Some (y, \<sigma>')" and c: "covers s s' B" for \<sigma> y \<sigma>' B
  proof -
    from f obtain x \<sigma>1 where x: "fc \<sigma> = Some (x, \<sigma>1)" "(if x \<noteq> 0 then fl \<sigma>1 else fr \<sigma>1) = Some (y, \<sigma>')"
      by (auto simp: chosen_def bind_eq_Some_conv)
    note a1 = 1(5) [OF covers_above [OF c h1 h2e] rg x(1) refl]
    show ?thesis
    proof (cases "x = 0")
      case True
      from a1 True have b: "ranged V \<sigma>1" "arrives G B loc V (cg_next s1) \<sigma> \<sigma>1 (pos s) (r, 0) (\<lambda>_ _ _. True) (\<lambda>p \<rho> M. comes_from s2 p r)"
        by (simp_all add: s1(7))
      have "fr \<sigma>1 = Some (y, \<sigma>')" using x(2) True by simp
      note d = f6(12) [OF covers_above [OF c h06 h8e] b(1) this]
      have to_e: "arrives G B loc V (cg_next s) \<sigma> \<sigma>' (pos s) (e, 0) (\<lambda>_ _ _. True) (reached (Some c) (\<lambda>\<rho> M. den G \<rho> u = Some y))"
        by (rule arrives_trans [OF arrives_less [OF b(2) nx] arrives_mono [OF conjunct2 [OF conjunct2 [OF d]]] grown_next [OF h06]]) simp_all
      show ?thesis
        using d arrives_trans [OF to_e arrives_mono [OF tail [OF c]] order_refl] ac by (simp add: reached_def vs_def)
    next
      case False
      from a1 False have b: "ranged V \<sigma>1" "arrives G B loc V (cg_next s1) \<sigma> \<sigma>1 (pos s) (l, 0) (\<lambda>_ _ _. True) (\<lambda>p \<rho> M. comes_from s2 p l)"
        by (simp_all add: s1(7))
      have "fl \<sigma>1 = Some (y, \<sigma>')" using x(2) False by simp
      note d = f3(12) [OF covers_above [OF c h03 h5e] b(1) this]
      have to_e: "arrives G B loc V (cg_next s) \<sigma> \<sigma>' (pos s) (e, 0) (\<lambda>_ _ _. True) (reached (Some a) (\<lambda>\<rho> M. den G \<rho> v = Some y))"
        by (rule arrives_trans [OF arrives_less [OF b(2) nx] arrives_mono [OF conjunct2 [OF conjunct2 [OF d]]] grown_next [OF h03]]) simp_all
      show ?thesis
        using d arrives_trans [OF to_e arrives_mono [OF tail [OF c]] order_refl] by (simp add: reached_def vs_def)
    qed
  qed
  have "fits_type T_int w \<and> ranged V \<sigma>' \<and> flows G loc V s (s'\<lparr>cg_result := Some (Reg n T_int)\<rparr>) \<sigma> \<sigma>' (\<lambda>_. True) (\<lambda>\<rho>. den G \<rho> (Reg n T_int) = Some w)"
    if "ranged V \<sigma>" "chosen fc fl fr \<sigma> = Some (w, \<sigma>')" for \<sigma> w \<sigma>'
    unfolding flows_result using runs [OF that covers_self] flowsI [OF conjunct2 [OF conjunct2 [OF runs [OF that]]]] by blast
  with m gv show "\<exists>v s'. thn (cond_blocks G mc ml mr) result_of s = Inr (v, s') \<and> gives G loc V T_int True s v s' \<and>
     (\<forall>\<sigma> w \<sigma>'. ranged V \<sigma> \<longrightarrow> chosen fc fl fr \<sigma> = Some (w, \<sigma>') \<longrightarrow> fits_type T_int w \<and> ranged V \<sigma>' \<and>
       flows G loc V s s' \<sigma> \<sigma>' (\<lambda>_. True) (\<lambda>\<rho>. den G \<rho> v = Some w))" by blast
qed

end
