(* ===== verification/Kcc_SimVisit.thy ===== *)
theory Kcc_SimVisit
  imports Kcc_SimLogic
begin

text \<open>
  The visitors of expressions: for every expression of the fragment \<open>int_expr\<close> the generator
  succeeds and the code computes the value that \<open>ev\<close> gives, with the changes of the store.
\<close>

subsection \<open>The fragment\<close>

abbreviation Q_int :: qtype where "Q_int \<equiv> (ArithT kInt, 0)"

text \<open>An operand that is evaluated first is no constant.\<close>

fun varies :: "expr \<Rightarrow> bool" where
  "varies (EIdent i) = True"
| "varies (EUnary op e q) = (inc_step op \<noteq> None \<or> varies e)"
| "varies (EBinary op l r q) = (if op = Tag_kComma then varies l \<and> varies r
     else op = Tag_kEqual \<or> varies l \<or> is_constant_expr l \<and> varies r)"
| "varies (ECond c l r q) = varies c"
| "varies _ = False"

fun is_place :: "nat set \<Rightarrow> expr \<Rightarrow> bool" where
  "is_place V (EIdent (Object _ n)) = (n \<in> V)"
| "is_place V _ = False"

text \<open>Expressions of type \<open>int\<close> over the objects of \<open>V\<close>.\<close>

fun int_expr :: "nat set \<Rightarrow> expr \<Rightarrow> bool" where
  "int_expr V (EInt q v) = (q = Q_int)"
| "int_expr V (EIdent i) = is_place V (EIdent i)"
| "int_expr V (EUnary op e q) = (q = Q_int \<and> (if inc_step op \<noteq> None then is_place V e
     else op \<in> {Tag_kPlus, Tag_kMinus, Tag_kTilde, Tag_kExclaim} \<and> int_expr V e))"
| "int_expr V (EBinary op l r q) = (q = Q_int \<and> int_expr V r \<and>
     (if op = Tag_kEqual then is_place V l
      else int_expr V l \<and> (op \<in> arith_ops \<union> compare_ops \<union> {Tag_kComma} \<or> op \<in> {Tag_kAmpAmp, Tag_kPipePipe} \<and> varies l)))"
| "int_expr V (ECond c l r q) = (q = Q_int \<and> int_expr V c \<and> varies c \<and> int_expr V l \<and> int_expr V r)"
| "int_expr V _ = False"

lemma is_placeE:
  assumes "is_place V e"
  obtains x n where "e = EIdent (Object x n)" and "n \<in> V"
  using assms by (cases "(V, e)" rule: is_place.cases) auto

lemma place_type: "places_ok G loc V \<Longrightarrow> is_place V e \<Longrightarrow> type_of G e = ArithT kInt"
  by (erule is_placeE) (simp add: place_facts(1))

lemma int_expr_type: "places_ok G loc V \<Longrightarrow> int_expr V e \<Longrightarrow> type_of G e = ArithT kInt"
  by (cases "(V, e)" rule: int_expr.cases) (use place_type [of G loc V "EIdent _"] in \<open>auto simp del: is_place.simps\<close>)

lemma literal_int: "is_constant_expr l \<Longrightarrow> int_expr V l \<Longrightarrow> \<exists>v. l = EInt Q_int v"
  by (cases l) auto

text \<open>The evaluator of constants gives up on an expression that varies.\<close>

lemma Calc_literal: "\<exists>c. Calc L dl h (EInt Q_int v) = Inr (Some c)"
proof -
  have "IsIntegerTy (ArithT kInt) = True" by code_simp
  then show ?thesis by (simp add: visit_constant_def)
qed

lemma Calc_place: "places_ok G loc V \<Longrightarrow> is_place V e \<Longrightarrow> Calc L dl (g_heap G) e = Inr None"
  by (erule is_placeE) (simp add: Let_def place_facts(2,3))

lemma inc_no_operator: "inc_step op = Some d \<Longrightarrow> op \<notin> {Tag_kPlus, Tag_kMinus, Tag_kTilde, Tag_kExclaim, Tag_kAmp}"
  by (auto simp: inc_step_def split: if_splits)

lemma Calc_varies: "places_ok G loc V \<Longrightarrow> int_expr V e \<Longrightarrow> varies e \<Longrightarrow> Calc L dl (g_heap G) e = Inr None"
proof (induction V e rule: int_expr.induct)
  case (2 V i)
  then have "is_place V (EIdent i)" by simp
  from Calc_place [OF 2(1) this] show ?case .
next
  case (3 V op e q)
  show ?case
  proof (cases "inc_step op")
    case None with 3 show ?thesis by auto
  next
    case (Some d) with inc_no_operator [OF Some] show ?thesis by simp
  qed
next
  case (4 V op l r q)
  consider "op = Tag_kEqual" | "op \<noteq> Tag_kEqual" "varies l" | "op \<noteq> Tag_kEqual" "is_constant_expr l" "varies r"
    using 4(5) by (auto split: if_splits)
  then show ?case
  proof cases
    case 1
    then have "is_place V l" using 4(4) by simp
    then show ?thesis by (simp add: Calc_place [OF 4(3)])
  next
    case 2 then show ?thesis using 4 by simp
  next
    case 3
    then obtain v where l: "l = EInt Q_int v" using literal_int [of l V] 4(4) by auto
    from Calc_literal [of L dl "g_heap G" v] obtain c where "Calc L dl (g_heap G) l = Inr (Some c)" unfolding l by blast
    with 3 4 show ?thesis by simp
  qed
qed auto

lemma calc_varies [run]:
  assumes "places_ok G loc V" and "int_expr V e" and "varies e"
  shows "calc G e s = Inr (None, s)"
  by (simp add: calc_def run Calc_varies [OF assms])

subsection \<open>Values\<close>

lemma bnd_assoc: "bnd (bnd m f) g = bnd m (\<lambda>x. bnd (f x) g)"
  by (rule ext) (auto simp: bnd_def bindE_def split: sum.splits)

lemma bnd_thn: "bnd (thn m k) g = thn m (bnd k g)" "thn (bnd m f) k = bnd m (\<lambda>x. thn (f x) k)"
  by (simp_all add: thn_def bnd_assoc)

lemma sim_weaken: "sim G loc V t K m f \<Longrightarrow> (K' \<Longrightarrow> K) \<Longrightarrow> sim G loc V t K' m f"
  unfolding sim_def gives_def by meson

lemma sim_visit:
  assumes "sim G loc V t K m f" and "\<And>s. ready loc V s \<Longrightarrow> Accept_expr G P e s = bnd m set_result s"
  shows "sim G loc V t K (value_of (visitors_with G P) e) f"
  by (rule sim_eq [OF sim_result [OF assms(1)]]) (simp_all add: value_with thn_run assms(2))

text \<open>A value that is dropped.\<close>

lemma sim_then:
  assumes "sim G loc V t K m f" and "sim G loc V t' K' m' f'"
  shows "sim G loc V t' K' (bnd m (\<lambda>_. m')) (\<lambda>\<sigma>. Option.bind (f \<sigma>) (\<lambda>(x, \<sigma>'). f' \<sigma>'))"
  unfolding sim_def
proof (intro allI impI)
  fix s assume s: "ready loc V s"
  from simE [OF assms(1) s] obtain a s1 where 1: "m s = Inr (a, s1)" "gives G loc V t K s a s1"
    "\<And>\<sigma> w \<sigma>'. ranged V \<sigma> \<Longrightarrow> f \<sigma> = Some (w, \<sigma>') \<Longrightarrow> fits_type t w \<and> ranged V \<sigma>' \<and>
       flows G loc V s s1 \<sigma> \<sigma>' (\<lambda>_. True) (\<lambda>\<rho>. den G \<rho> a = Some w)"
    by blast
  note g1 = gives_facts [OF 1(2)]
  from simE [OF assms(2) g1(2)] obtain v s' where 2: "m' s1 = Inr (v, s')" "gives G loc V t' K' s1 v s'"
    "\<And>\<sigma> w \<sigma>'. ranged V \<sigma> \<Longrightarrow> f' \<sigma> = Some (w, \<sigma>') \<Longrightarrow> fits_type t' w \<and> ranged V \<sigma>' \<and>
       flows G loc V s1 s' \<sigma> \<sigma>' (\<lambda>_. True) (\<lambda>\<rho>. den G \<rho> v = Some w)"
    by blast
  note g2 = gives_facts [OF 2(2)]
  have "gives G loc V t' K' s v s'" using framed_trans [OF g1(1) g2(1)] g2 by (auto simp: gives_def)
  moreover have "fits_type t' w \<and> ranged V \<sigma>' \<and> flows G loc V s s' \<sigma> \<sigma>' (\<lambda>_. True) (\<lambda>\<rho>. den G \<rho> v = Some w)"
    if r: "ranged V \<sigma>" and e: "Option.bind (f \<sigma>) (\<lambda>(x, \<sigma>'). f' \<sigma>') = Some (w, \<sigma>')" for \<sigma> w \<sigma>'
  proof -
    from e obtain x \<sigma>1 where x: "f \<sigma> = Some (x, \<sigma>1)" "f' \<sigma>1 = Some (w, \<sigma>')" by (auto simp: bind_eq_Some_conv)
    from 1(3) [OF r x(1)] have a: "ranged V \<sigma>1" "flows G loc V s s1 \<sigma> \<sigma>1 (\<lambda>_. True) (\<lambda>\<rho>. True)"
      using flows_mono [of G loc V s s1 \<sigma> \<sigma>1 "\<lambda>_. True" _ "\<lambda>_. True" "\<lambda>_. True"] by auto
    from 2(3) [OF a(1) x(2)] flows_trans [OF a(2) _ g1(1) g2(1)] show ?thesis by blast
  qed
  ultimately show "\<exists>v s'. bnd m (\<lambda>_. m') s = Inr (v, s') \<and> gives G loc V t' K' s v s' \<and>
      (\<forall>\<sigma> w \<sigma>'. ranged V \<sigma> \<longrightarrow> Option.bind (f \<sigma>) (\<lambda>(x, \<sigma>'). f' \<sigma>') = Some (w, \<sigma>') \<longrightarrow>
        fits_type t' w \<and> ranged V \<sigma>' \<and> flows G loc V s s' \<sigma> \<sigma>' (\<lambda>_. True) (\<lambda>\<rho>. den G \<rho> v = Some w))"
    using 1(1) 2(1) by (simp add: run)
qed

text \<open>What is known of the visitors of the parts.\<close>

definition value_ok :: "'c genv \<Rightarrow> (nat \<Rightarrow> 'c val) \<Rightarrow> nat set \<Rightarrow> 'c visitors \<Rightarrow> expr \<Rightarrow> bool" where
  "value_ok G loc V P e \<longleftrightarrow> sim G loc V T_int (varies e) (value_of P e) (ev e)"

definition branch_ok :: "'c genv \<Rightarrow> (nat \<Rightarrow> 'c val) \<Rightarrow> nat set \<Rightarrow> 'c visitors \<Rightarrow> expr \<Rightarrow> bool" where
  "branch_ok G loc V P e \<longleftrightarrow> sim_br G loc V (v_branch P e) (ev e)"

definition ptr_ok :: "(nat \<Rightarrow> 'c val) \<Rightarrow> nat set \<Rightarrow> 'c visitors \<Rightarrow> bool" where
  "ptr_ok loc V P \<longleftrightarrow> (\<forall>x n s. n \<in> V \<longrightarrow> ready loc V s \<longrightarrow> v_ptr P (EIdent (Object x n)) s = Inr (loc n, s))"

lemma ptr_okD: "ptr_ok loc V P \<Longrightarrow> n \<in> V \<Longrightarrow> ready loc V s \<Longrightarrow> v_ptr P (EIdent (Object x n)) s = Inr (loc n, s)"
  by (simp add: ptr_ok_def)

lemma ptr_with: "places_ok G loc V \<Longrightarrow> ptr_ok loc V (visitors_with G P)"
  by (simp add: ptr_ok_def visitors_with_def GetPtr_object)

lemma value_unary_inc:
  assumes "llvm_ok G" and "places_ok G loc V" and "ptr_ok loc V P" and "is_place V e" and "inc_step op = Some d"
  shows "value_ok G loc V (visitors_with G P) (EUnary op e q)"
proof -
  obtain x n where e: "e = EIdent (Object x n)" "n \<in> V" using assms(4) by (rule is_placeE)
  have t: "type_of G e = ArithT kInt" by (rule place_type [OF assms(2,4)])
  have op: "op \<in> {Tag_kPlusPlus, Tag_kPostfixPlusPlus} \<and> d = 1 \<or> op \<in> {Tag_kMinusMinus, Tag_kPostfixMinusMinus} \<and> d = - 1"
    using assms(5) by (auto simp: inc_step_def split: if_splits)
  have s: "sim G loc V T_int True (IncOrDec G P e (d = 1) (is_postfix op)) (\<lambda>\<sigma>. Option.bind (c_arith kInt (\<sigma> n + (if d = 1 then 1 else - 1)))
      (\<lambda>v. Some (if is_postfix op then \<sigma> n else v, \<sigma>(n := v))))"
    by (rule sim_inc [OF assms(1,2) e(2) _ t]) (simp add: e ptr_okD [OF assms(3) e(2)])
  have "sim G loc V T_int True (IncOrDec G P e (d = 1) (is_postfix op)) (ev (EUnary op e q))"
    by (rule sim_eq [OF s]) (use op in \<open>auto simp: assms(5) e(1)\<close>)
  then have "sim G loc V T_int True (value_of (visitors_with G P) (EUnary op e q)) (ev (EUnary op e q))"
    by (rule sim_visit) (use op in \<open>auto simp: Accept_expr_def Visit_UnaryOpExpr_def is_postfix_def\<close>)
  then show ?thesis by (simp add: value_ok_def assms(5))
qed

lemma bind_same: "Option.bind x (\<lambda>(v, s). map_option (\<lambda>w. (w, s)) (Some v)) = x"
  by (cases x) auto

lemma value_unary:
  assumes "llvm_ok G" and "places_ok G loc V" and "int_expr V e" and "value_ok G loc V P e" and "inc_step op = None"
    and "op \<in> {Tag_kPlus, Tag_kMinus, Tag_kTilde, Tag_kExclaim}"
  shows "value_ok G loc V (visitors_with G P) (EUnary op e q)"
proof -
  note v = assms(4) [unfolded value_ok_def]
  have u: "expr_unsigned G e = False" using int_expr_type [OF assms(2,3)] by (simp add: expr_unsigned_def int_is_scalar)
  have "sim G loc V T_int (varies e) (value_of (visitors_with G P) (EUnary op e q)) (ev (EUnary op e q))"
  proof -
    from assms(6) consider "op = Tag_kPlus" | "op = Tag_kMinus" | "op = Tag_kTilde" | "op = Tag_kExclaim" by auto
    then show ?thesis
    proof cases
      case 1
      have "value_of (visitors_with G P) (EUnary op e q) = value_of P e"
        unfolding value_with by (simp add: 1 Accept_expr_def Visit_UnaryOpExpr_def value_of_def)
      moreover have "ev (EUnary op e q) \<sigma> = ev e \<sigma>" for \<sigma> by (simp add: 1 inc_step_def c_unary_def bind_same)
      ultimately show ?thesis using v by (simp add: sim_def)
    next
      case 2
      have "sim G loc V T_int (varies e) (bnd (value_of P e) (\<lambda>a. CodeGen_NegOp G a False)) (ev (EUnary op e q))"
        by (rule sim_eq [OF sim_bnd [OF v sim_neg [OF assms(1)]]]) (simp_all add: 2 inc_step_def)
      then show ?thesis by (rule sim_visit) (simp add: 2 Accept_expr_def Visit_UnaryOpExpr_def bnd_assoc u)
    next
      case 3
      have "sim G loc V T_int (varies e) (bnd (value_of P e) (\<lambda>a. build G (I_Not a))) (ev (EUnary op e q))"
        by (rule sim_eq [OF sim_bnd [OF v sim_not [OF assms(1)]]]) (simp_all add: 3 inc_step_def)
      then show ?thesis by (rule sim_visit) (simp add: 3 Accept_expr_def Visit_UnaryOpExpr_def bnd_assoc)
    next
      case 4
      have "sim G loc V T_int (varies e) (bnd (value_of P e) (CodeGen_LogicNotOp G)) (ev (EUnary op e q))"
        by (rule sim_eq [OF sim_bnd [OF v sim_logic_not [OF assms(1)]]]) (simp_all add: 4 inc_step_def)
      then show ?thesis by (rule sim_visit) (simp add: 4 Accept_expr_def Visit_UnaryOpExpr_def bnd_assoc)
    qed
  qed
  then show ?thesis using assms(5) by (simp add: value_ok_def)
qed

lemma op_sets: "op \<in> arith_ops \<union> compare_ops \<Longrightarrow> op \<notin> {Tag_kEqual, Tag_kComma, Tag_kAmpAmp, Tag_kPipePipe, Tag_kPeriod}"
  by (auto simp: arith_ops_def compare_ops_def)

lemma value_binary:
  assumes "llvm_ok G" and "places_ok G loc V" and "int_expr V l" and "value_ok G loc V P l" and "value_ok G loc V P r"
    and "op \<in> arith_ops \<union> compare_ops"
  shows "value_ok G loc V (visitors_with G P) (EBinary op l r q)"
proof -
  note l = assms(4) [unfolded value_ok_def] and r = assms(5) [unfolded value_ok_def]
  have u: "expr_unsigned G l = False" using int_expr_type [OF assms(2,3)] by (simp add: expr_unsigned_def int_is_scalar)
  have b: "simv2 G loc V T_int T_int (\<lambda>a b. binary_value G op a b False) (c_binary op kInt)"
    using assms(6) sim_arith [OF assms(1)] sim_compare [OF assms(1)] by blast
  have "sim G loc V T_int (varies l \<or> varies r) (bnd (value_of P l) (\<lambda>a. bnd (value_of P r) (\<lambda>b. binary_value G op a b False))) (ev (EBinary op l r q))"
    by (rule sim_eq [OF sim_bnd2 [OF l r b]]) (use op_sets [OF assms(6)] in auto)
  then have "sim G loc V T_int (varies l \<or> varies r) (value_of (visitors_with G P) (EBinary op l r q)) (ev (EBinary op l r q))"
    by (rule sim_visit) (use op_sets [OF assms(6)] in \<open>simp add: Accept_expr_def Visit_BinaryOpExpr_def bnd_assoc u\<close>)
  then show ?thesis unfolding value_ok_def by (rule sim_weaken) (use op_sets [OF assms(6)] in auto)
qed

lemma value_comma:
  assumes "value_ok G loc V P l" and "value_ok G loc V P r"
  shows "value_ok G loc V (visitors_with G P) (EBinary Tag_kComma l r q)"
proof -
  note l = assms(1) [unfolded value_ok_def] and r = assms(2) [unfolded value_ok_def]
  have "sim G loc V T_int (varies r) (value_of (visitors_with G P) (EBinary Tag_kComma l r q)) (ev (EBinary Tag_kComma l r q))"
  proof (rule sim_eq [OF sim_then [OF l r]])
    fix s :: "'a cg" assume "ready loc V s"
    from sim_runs [OF l this] obtain v s1 where v: "value_of P l s = Inr (v, s1)" by blast
    then have "v_expr P l s = Inr ((), s1)" by (simp only: value_of_run)
    with v show "value_of (visitors_with G P) (EBinary Tag_kComma l r q) s = bnd (value_of P l) (\<lambda>_. value_of P r) s"
      by (simp add: value_with Accept_expr_def Visit_BinaryOpExpr_def run) (simp add: value_of_def run)
  qed simp
  then show ?thesis unfolding value_ok_def by (rule sim_weaken) simp
qed

lemma value_assign:
  assumes "llvm_ok G" and "places_ok G loc V" and "ptr_ok loc V P" and "is_place V l" and "value_ok G loc V P r"
  shows "value_ok G loc V (visitors_with G P) (EBinary Tag_kEqual l r q)"
proof -
  note r = assms(5) [unfolded value_ok_def]
  obtain x n where e: "l = EIdent (Object x n)" "n \<in> V" using assms(4) by (rule is_placeE)
  note a = sim_assign [OF assms(1,2) e(2) sim_with_struct [OF r], of "expr_unsigned G r"]
  have "sim G loc V T_int True (AssignOp G P l r) (ev (EBinary Tag_kEqual l r q))"
  proof (rule sim_eq [OF a])
    fix s :: "'a cg" assume s: "ready loc V s"
    from simE [OF sim_with_struct [OF r] s] obtain v s1 where v: "with_struct (value_of P r) s = Inr (v, s1)"
      "gives G loc V T_int (varies r) s v s1" by metis
    show "AssignOp G P l r s = bnd (with_struct (value_of P r)) (\<lambda>a. Assign G (loc n) a (expr_unsigned G r)) s"
      using v(1) ptr_okD [OF assms(3) e(2) gives_facts(2) [OF v(2)]] by (simp add: AssignOp_def e(1) run)
  qed (simp add: e(1))
  then have "sim G loc V T_int True (value_of (visitors_with G P) (EBinary Tag_kEqual l r q)) (ev (EBinary Tag_kEqual l r q))"
    by (rule sim_visit) (simp add: Accept_expr_def Visit_BinaryOpExpr_def)
  then show ?thesis by (simp add: value_ok_def)
qed

lemma bind_truth: "Option.bind x (\<lambda>(b, s). Some (truth b, s)) = map_option (\<lambda>(y, s). (truth y, s)) x"
  by (cases x) auto

lemma value_and:
  assumes "llvm_ok G" and "places_ok G loc V" and "int_expr V l" and "varies l" and "branch_ok G loc V P l" and "value_ok G loc V P r"
  shows "value_ok G loc V (visitors_with G P) (EBinary Tag_kAmpAmp l r q)"
proof -
  note j = sim_join [OF assms(1) assms(5) [unfolded branch_ok_def] assms(6) [unfolded value_ok_def], of False]
  have "sim G loc V T_int True (CodeGen_LogicAndOp G P l r) (ev (EBinary Tag_kAmpAmp l r q))"
  proof (rule sim_eq [OF j])
    show "CodeGen_LogicAndOp G P l r s = bnd CreateBasicBlock (\<lambda>b. bnd CreateBasicBlock (\<lambda>e. thn (v_branch P l b e) (join_logic G P (getInt1 G (of_bool False)) b e r))) s" for s
      by (simp add: CodeGen_LogicAndOp_def bnd_run [of "calc G l"] calc_varies [OF assms(2-4)])
    show "ev (EBinary Tag_kAmpAmp l r q) \<sigma> = Option.bind (ev l \<sigma>) (\<lambda>(x, \<sigma>1). if x = 0 then Some (of_bool False, \<sigma>1) else map_option (\<lambda>(y, \<sigma>2). (truth y, \<sigma>2)) (ev r \<sigma>1))" for \<sigma>
      by (cases "ev l \<sigma>") (auto simp: bind_truth)
  qed
  then have "sim G loc V T_int True (value_of (visitors_with G P) (EBinary Tag_kAmpAmp l r q)) (ev (EBinary Tag_kAmpAmp l r q))"
    by (rule sim_visit) (simp add: Accept_expr_def Visit_BinaryOpExpr_def)
  then show ?thesis using assms(4) by (simp add: value_ok_def)
qed

lemma value_or:
  assumes "llvm_ok G" and "places_ok G loc V" and "int_expr V l" and "varies l" and "branch_ok G loc V P l" and "value_ok G loc V P r"
  shows "value_ok G loc V (visitors_with G P) (EBinary Tag_kPipePipe l r q)"
proof -
  note j = sim_join [OF assms(1) sim_br_not [OF assms(5) [unfolded branch_ok_def]] assms(6) [unfolded value_ok_def], of True]
  have "sim G loc V T_int True (CodeGen_LogicOrOp G P l r) (ev (EBinary Tag_kPipePipe l r q))"
  proof (rule sim_eq [OF j])
    show "CodeGen_LogicOrOp G P l r s = bnd CreateBasicBlock (\<lambda>b. bnd CreateBasicBlock (\<lambda>e. thn (v_branch P l e b) (join_logic G P (getInt1 G (of_bool True)) b e r))) s" for s
      by (simp add: CodeGen_LogicOrOp_def bnd_run [of "calc G l"] calc_varies [OF assms(2-4)])
    show "ev (EBinary Tag_kPipePipe l r q) \<sigma> = Option.bind (map_option (\<lambda>(x, \<sigma>'). (of_bool (x = 0), \<sigma>')) (ev l \<sigma>))
      (\<lambda>(x, \<sigma>1). if x = 0 then Some (of_bool True, \<sigma>1) else map_option (\<lambda>(y, \<sigma>2). (truth y, \<sigma>2)) (ev r \<sigma>1))" for \<sigma>
      by (cases "ev l \<sigma>") (auto simp: bind_truth)
  qed
  then have "sim G loc V T_int True (value_of (visitors_with G P) (EBinary Tag_kPipePipe l r q)) (ev (EBinary Tag_kPipePipe l r q))"
    by (rule sim_visit) (simp add: Accept_expr_def Visit_BinaryOpExpr_def)
  then show ?thesis using assms(4) by (simp add: value_ok_def)
qed

lemma sim_select:
  assumes "llvm_ok G" and "sim G loc V T_bool True mc fc" and "sim G loc V T_int K ml (\<lambda>\<sigma>. Some (a, \<sigma>))" and "sim G loc V T_int K' mr (\<lambda>\<sigma>. Some (b, \<sigma>))"
  shows "sim G loc V T_int True (bnd mc (\<lambda>c. bnd ml (\<lambda>l. bnd mr (\<lambda>r. build G (I_Select c l r)))))
    (\<lambda>\<sigma>. map_option (\<lambda>(x, \<sigma>1). (if x \<noteq> 0 then a else b, \<sigma>1)) (fc \<sigma>))" (is "sim G loc V T_int True ?m ?f")
  unfolding sim_def
proof (intro allI impI)
  fix s assume s: "ready loc V s"
  from simE [OF assms(2) s] obtain c s1 where 1: "mc s = Inr (c, s1)" "gives G loc V T_bool True s c s1"
    "\<And>\<sigma> w \<sigma>'. ranged V \<sigma> \<Longrightarrow> fc \<sigma> = Some (w, \<sigma>') \<Longrightarrow> fits_type T_bool w \<and> ranged V \<sigma>' \<and>
       flows G loc V s s1 \<sigma> \<sigma>' (\<lambda>_. True) (\<lambda>\<rho>. den G \<rho> c = Some w)"
    by blast
  note g1 = gives_facts [OF 1(2)]
  from simE [OF assms(3) g1(2)] obtain l s2 where 2: "ml s1 = Inr (l, s2)" "gives G loc V T_int K s1 l s2"
    "\<And>\<sigma> w \<sigma>'. ranged V \<sigma> \<Longrightarrow> Some (a, \<sigma>) = Some (w, \<sigma>') \<Longrightarrow> fits_type T_int w \<and> ranged V \<sigma>' \<and>
       flows G loc V s1 s2 \<sigma> \<sigma>' (\<lambda>_. True) (\<lambda>\<rho>. den G \<rho> l = Some w)"
    by blast
  note g2 = gives_facts [OF 2(2)]
  from simE [OF assms(4) g2(2)] obtain r s3 where 3: "mr s2 = Inr (r, s3)" "gives G loc V T_int K' s2 r s3"
    "\<And>\<sigma> w \<sigma>'. ranged V \<sigma> \<Longrightarrow> Some (b, \<sigma>) = Some (w, \<sigma>') \<Longrightarrow> fits_type T_int w \<and> ranged V \<sigma>' \<and>
       flows G loc V s2 s3 \<sigma> \<sigma>' (\<lambda>_. True) (\<lambda>\<rho>. den G \<rho> r = Some w)"
    by blast
  note g3 = gives_facts [OF 3(2)]
  have c2: "below (cg_next s2) c" by (rule below_mono [OF g1(4) framed_next [OF g2(1)]])
  have c3: "below (cg_next s3) c" "below (cg_next s3) l"
    using below_mono [OF c2 framed_next [OF g3(1)]] below_mono [OF g2(4) framed_next [OF g3(1)]] by simp_all
  have ops: "ir_typed G (I_Select c l r)" "\<forall>x \<in> instr_operands (I_Select c l r). below (cg_next s3) x"
    using c3 g3(4) g1(3) g2(3) g3(3) by simp_all
  obtain v s' where 4: "build G (I_Select c l r) s3 = Inr (v, s')" "framed s3 s'" "ready loc V s'" "val_type G v = ir_type (g_ir G) (I_Select c l r)"
    "below (cg_next s') v" "(\<exists>x \<in> instr_operands (I_Select c l r). \<not> is_const x) \<longrightarrow> \<not> is_const v" "cg_result s' = cg_result s3"
    "\<And>\<sigma> x. flows G loc V s3 s' \<sigma> \<sigma> (\<lambda>\<rho>. pure_sem G \<rho> (I_Select c l r) = Some x) (\<lambda>\<rho>. den G \<rho> v = Some x)"
    by (rule build_pure [OF assms(1) g3(2) ops]) (rule that; blast)
  note f12 = framed_trans [OF g1(1) g2(1)] note f13 = framed_trans [OF f12 g3(1)]
  have "gives G loc V T_int True s v s'"
    using framed_trans [OF f13 4(2)] 4(3-6) g1(5) g2(3) assms(1) by (simp add: gives_def)
  moreover have "fits_type T_int w \<and> ranged V \<sigma>' \<and> flows G loc V s s' \<sigma> \<sigma>' (\<lambda>_. True) (\<lambda>\<rho>. den G \<rho> v = Some w)"
    if rg: "ranged V \<sigma>" and e: "?f \<sigma> = Some (w, \<sigma>')" for \<sigma> w \<sigma>'
  proof -
    from e obtain x where x: "fc \<sigma> = Some (x, \<sigma>')" "w = (if x \<noteq> 0 then a else b)" by auto
    from 1(3) [OF rg x(1)] have 5: "ranged V \<sigma>'" "flows G loc V s s1 \<sigma> \<sigma>' (\<lambda>_. True) (\<lambda>\<rho>. den G \<rho> c = Some x)" by auto
    from 2(3) [OF 5(1) refl] have 6: "fits_type T_int a" "flows G loc V s1 s2 \<sigma>' \<sigma>' (\<lambda>_. True) (\<lambda>\<rho>. den G \<rho> l = Some a)" by auto
    from 3(3) [OF 5(1) refl] have 7: "fits_type T_int b" "flows G loc V s2 s3 \<sigma>' \<sigma>' (\<lambda>_. True) (\<lambda>\<rho>. den G \<rho> r = Some b)" by auto
    have k1: "flows G loc V s1 s2 \<sigma>' \<sigma>' (\<lambda>\<rho>. den G \<rho> c = Some x) (\<lambda>\<rho>. den G \<rho> l = Some a \<and> den G \<rho> c = Some x)"
      by (rule flows_mono [OF flows_keep [OF 6(2) g1(4), of "Some x"]]) auto
    have k2: "flows G loc V s2 s3 \<sigma>' \<sigma>' (\<lambda>\<rho>. den G \<rho> l = Some a \<and> den G \<rho> c = Some x) (\<lambda>\<rho>. (den G \<rho> r = Some b \<and> den G \<rho> l = Some a) \<and> den G \<rho> c = Some x)"
      by (rule flows_mono [OF flows_keep [OF flows_keep [OF 7(2) g2(4), of "Some a"] c2, of "Some x"]]) auto
    have k3: "flows G loc V s3 s' \<sigma>' \<sigma>' (\<lambda>\<rho>. (den G \<rho> r = Some b \<and> den G \<rho> l = Some a) \<and> den G \<rho> c = Some x) (\<lambda>\<rho>. den G \<rho> v = Some w)"
      by (rule flows_mono [OF 4(8) [of \<sigma>' w]]) (auto simp: x(2))
    show ?thesis
      using flows_trans [OF flows_trans [OF flows_trans [OF 5(2) k1 g1(1) g2(1)] k2 f12 g3(1)] k3 f13 4(2)] 5(1) 6(1) 7(1) x(2) by simp
  qed
  ultimately show "\<exists>v s'. ?m s = Inr (v, s') \<and> gives G loc V T_int True s v s' \<and>
      (\<forall>\<sigma> w \<sigma>'. ranged V \<sigma> \<longrightarrow> ?f \<sigma> = Some (w, \<sigma>') \<longrightarrow> fits_type T_int w \<and> ranged V \<sigma>' \<and>
        flows G loc V s s' \<sigma> \<sigma>' (\<lambda>_. True) (\<lambda>\<rho>. den G \<rho> v = Some w))"
    using 1(1) 2(1) 3(1) 4(1) by (simp add: run)
qed

lemma value_cond:
  assumes "llvm_ok G" and "places_ok G loc V" and "int_expr V c" and "varies c" and "int_expr V l" and "int_expr V r"
    and "branch_ok G loc V P c" and "value_ok G loc V P c" and "value_ok G loc V P l" and "value_ok G loc V P r"
  shows "value_ok G loc V (visitors_with G P) (ECond c l r q)"
proof -
  note vc = assms(8) [unfolded value_ok_def] and vl = assms(9) [unfolded value_ok_def] and vr = assms(10) [unfolded value_ok_def]
  have ca: "calc G c s = Inr (None, s)" for s by (rule calc_varies [OF assms(2-4)])
  have "sim G loc V T_int True (value_of (visitors_with G P) (ECond c l r q)) (ev (ECond c l r q))"
  proof (cases "is_constant_expr l \<and> is_constant_expr r")
    case True
    then obtain x y where lr: "l = EInt Q_int x" "r = EInt Q_int y" using literal_int assms(5,6) by blast
    have "sim G loc V T_bool True (EvaluateExprAsBool G P c) (\<lambda>\<sigma>. map_option (\<lambda>(x, \<sigma>'). (- truth x, \<sigma>')) (ev c \<sigma>))"
      using sim_as_bool [OF assms(1) vc] assms(4) by simp
    moreover have "ev l = (\<lambda>\<sigma>. Some (sgn_of 32 x, \<sigma>))" "ev r = (\<lambda>\<sigma>. Some (sgn_of 32 y, \<sigma>))" by (rule ext, simp add: lr)+
    ultimately have sl: "sim G loc V T_int True
        (bnd (EvaluateExprAsBool G P c) (\<lambda>c. bnd (value_of P l) (\<lambda>l. bnd (value_of P r) (\<lambda>r. build G (I_Select c l r)))))
        (\<lambda>\<sigma>. map_option (\<lambda>(z, \<sigma>1). (if z \<noteq> 0 then sgn_of 32 x else sgn_of 32 y, \<sigma>1)) (map_option (\<lambda>(x, \<sigma>'). (- truth x, \<sigma>')) (ev c \<sigma>)))"
      using sim_select [OF assms(1) _ _ _, of loc V "EvaluateExprAsBool G P c"] vl vr by simp
    have "sim G loc V T_int True (bnd (EvaluateExprAsBool G P c) (\<lambda>c. bnd (value_of P l) (\<lambda>l. bnd (value_of P r) (\<lambda>r. build G (I_Select c l r)))))
        (ev (ECond c l r q))"
    proof (rule sim_eq [OF sl])
      show "ev (ECond c l r q) \<sigma> = map_option (\<lambda>(z, \<sigma>1). (if z \<noteq> 0 then sgn_of 32 x else sgn_of 32 y, \<sigma>1)) (map_option (\<lambda>(x, \<sigma>'). (- truth x, \<sigma>')) (ev c \<sigma>))" for \<sigma>
        by (cases "ev c \<sigma>") (auto simp: lr truth_def)
    qed simp
    then show ?thesis
      by (rule sim_visit) (use True in \<open>simp add: Accept_expr_def Visit_ConditionOpExpr_def bnd_run [of "calc G c"] ca
          IsCheapEnoughToEvaluateUnconditionally_def bnd_assoc\<close>)
  next
    case False
    have "Accept_expr G P (ECond c l r q) s = cond_blocks G (v_branch P c) (value_of P l) (value_of P r) s" for s
      using False by (auto simp: Accept_expr_def Visit_ConditionOpExpr_def bnd_run [of "calc G c"] ca
          IsCheapEnoughToEvaluateUnconditionally_def cond_blocks_def)
    then have "value_of (visitors_with G P) (ECond c l r q) = thn (cond_blocks G (v_branch P c) (value_of P l) (value_of P r)) result_of"
      by (auto simp: value_with thn_run)
    moreover have "ev (ECond c l r q) = chosen (ev c) (ev l) (ev r)"
      by (rule ext) (simp add: chosen_def)
    ultimately show ?thesis
      using sim_cond_blocks [OF assms(7) [unfolded branch_ok_def] vl vr] by simp
  qed
  then show ?thesis using assms(4) by (simp add: value_ok_def)
qed

subsection \<open>Branches\<close>

lemma branch_with: "branch_ok G loc V (visitors_with G P) e = sim_br G loc V (EmitBranchOnBoolExpr G P e) (ev e)"
  by (simp add: branch_ok_def visitors_with_def)

text \<open>The expressions that are branched on by parts.\<close>

fun has_parts :: "expr \<Rightarrow> bool" where
  "has_parts (EUnary op e q) = (op = Tag_kExclaim)"
| "has_parts (EBinary op l r q) = (op \<in> {Tag_kAmpAmp, Tag_kPipePipe})"
| "has_parts (ECond c l r q) = True"
| "has_parts _ = False"

lemma branch_value:
  assumes "llvm_ok G" and "value_ok G loc V P e" and "\<not> has_parts e"
  shows "branch_ok G loc V (visitors_with G P) e"
proof -
  have "EmitBranchOnBoolExpr G P e = branch_on_value G P e"
    using assms(3) by (intro ext) (auto simp: EmitBranchOnBoolExpr_def split: expr.splits)
  then show ?thesis using sim_br_value [OF assms(1) assms(2) [unfolded value_ok_def]] by (simp add: branch_with)
qed

lemma branch_not:
  assumes "branch_ok G loc V P e"
  shows "branch_ok G loc V (visitors_with G P) (EUnary Tag_kExclaim e q)"
proof -
  have "EmitBranchOnBoolExpr G P (EUnary Tag_kExclaim e q) = (\<lambda>t u. v_branch P e u t)"
    by (intro ext) (simp add: EmitBranchOnBoolExpr_def)
  moreover have "ev (EUnary Tag_kExclaim e q) = (\<lambda>\<sigma>. map_option (\<lambda>(x, \<sigma>'). (of_bool (x = 0), \<sigma>')) (ev e \<sigma>))"
    by (rule ext, rename_tac \<sigma>, case_tac "ev e \<sigma>") (auto simp: inc_step_def)
  ultimately show ?thesis using sim_br_not [OF assms [unfolded branch_ok_def]] by (simp add: branch_with)
qed

lemma branch_and:
  assumes "branch_ok G loc V P l" and "branch_ok G loc V P r"
  shows "branch_ok G loc V (visitors_with G P) (EBinary Tag_kAmpAmp l r q)"
proof -
  have "EmitBranchOnBoolExpr G P (EBinary Tag_kAmpAmp l r q) =
      (\<lambda>t u. bnd CreateBasicBlock (\<lambda>b. thn (v_branch P l b u) (thn (EmitBlock b False) (v_branch P r t u))))"
    by (intro ext) (simp add: EmitBranchOnBoolExpr_def)
  moreover have "sim_br G loc V (\<lambda>t u. bnd CreateBasicBlock (\<lambda>b. thn (v_branch P l b u) (thn (EmitBlock b False) (v_branch P r t u))))
      (ev (EBinary Tag_kAmpAmp l r q))"
  proof (rule sim_br_cong [OF sim_br_and [OF assms [unfolded branch_ok_def]]])
    fix \<sigma> w \<sigma>' assume e: "ev (EBinary Tag_kAmpAmp l r q) \<sigma> = Some (w, \<sigma>')"
    then obtain a \<sigma>1 where l: "ev l \<sigma> = Some (a, \<sigma>1)" by (cases "ev l \<sigma>") auto
    with e show "\<exists>x. Option.bind (ev l \<sigma>) (\<lambda>(x, \<sigma>1). if x = 0 then Some (0, \<sigma>1) else ev r \<sigma>1) = Some (x, \<sigma>') \<and> (x = 0 \<longleftrightarrow> w = 0)"
      by (cases "a = 0"; cases "ev r \<sigma>1") (auto simp: truth_def)
  qed
  ultimately show ?thesis by (simp add: branch_with)
qed

lemma branch_or:
  assumes "branch_ok G loc V P l" and "branch_ok G loc V P r"
  shows "branch_ok G loc V (visitors_with G P) (EBinary Tag_kPipePipe l r q)"
proof -
  have "EmitBranchOnBoolExpr G P (EBinary Tag_kPipePipe l r q) =
      (\<lambda>t u. bnd CreateBasicBlock (\<lambda>b. thn (v_branch P l t b) (thn (EmitBlock b False) (v_branch P r t u))))"
    by (intro ext) (simp add: EmitBranchOnBoolExpr_def)
  moreover have "sim_br G loc V (\<lambda>t u. bnd CreateBasicBlock (\<lambda>b. thn (v_branch P l t b) (thn (EmitBlock b False) (v_branch P r t u))))
      (ev (EBinary Tag_kPipePipe l r q))"
  proof (rule sim_br_cong [OF sim_br_or [OF assms [unfolded branch_ok_def]]])
    fix \<sigma> w \<sigma>' assume e: "ev (EBinary Tag_kPipePipe l r q) \<sigma> = Some (w, \<sigma>')"
    then obtain a \<sigma>1 where l: "ev l \<sigma> = Some (a, \<sigma>1)" by (cases "ev l \<sigma>") auto
    with e show "\<exists>x. Option.bind (ev l \<sigma>) (\<lambda>(x, \<sigma>1). if x \<noteq> 0 then Some (1, \<sigma>1) else ev r \<sigma>1) = Some (x, \<sigma>') \<and> (x = 0 \<longleftrightarrow> w = 0)"
      by (cases "a = 0"; cases "ev r \<sigma>1") (auto simp: truth_def)
  qed
  ultimately show ?thesis by (simp add: branch_with)
qed

lemma branch_cond:
  assumes "branch_ok G loc V P c" and "branch_ok G loc V P l" and "branch_ok G loc V P r"
  shows "branch_ok G loc V (visitors_with G P) (ECond c l r q)"
proof -
  have "EmitBranchOnBoolExpr G P (ECond c l r q) =
      (\<lambda>t u. bnd CreateBasicBlock (\<lambda>lb. bnd CreateBasicBlock (\<lambda>rb. thn (v_branch P c lb rb)
        (thn (EmitBlock lb False) (thn (v_branch P l t u) (thn (EmitBlock rb False) (v_branch P r t u)))))))"
    by (intro ext) (simp add: EmitBranchOnBoolExpr_def)
  moreover have "ev (ECond c l r q) = (\<lambda>\<sigma>. Option.bind (ev c \<sigma>) (\<lambda>(x, \<sigma>1). if x \<noteq> 0 then ev l \<sigma>1 else ev r \<sigma>1))"
    by (rule ext) simp
  ultimately show ?thesis using sim_br_cond [OF assms [unfolded branch_ok_def]] by (simp add: branch_with)
qed

subsection \<open>All expressions of the fragment\<close>

lemma value_step:
  assumes "llvm_ok G" and "places_ok G loc V" and "int_expr V e" and "2 * size e < Suc n"
    and vals: "\<And>e. int_expr V e \<Longrightarrow> 2 * size e < n \<Longrightarrow> value_ok G loc V (visitors_at G n) e"
    and brs: "\<And>e. int_expr V e \<Longrightarrow> 2 * size e + 1 < n \<Longrightarrow> branch_ok G loc V (visitors_at G n) e"
  shows "value_ok G loc V (visitors_at G (Suc n)) e"
proof -
  have ptr: "ptr_ok loc V (visitors_at G n)" if "0 < n"
    using that ptr_with [OF assms(2)] by (cases n) simp_all
  show ?thesis
  proof (cases e)
    case (EInt q v)
    then show ?thesis using assms(3) sim_const [OF assms(1)] by (simp add: value_ok_def)
  next
    case (EIdent i)
    then obtain x m where "e = EIdent (Object x m)" "m \<in> V" using assms(3) by (auto elim: is_placeE)
    then show ?thesis using sim_object [OF assms(1,2)] by (simp add: value_ok_def)
  next
    case (EUnary op u q)
    show ?thesis
    proof (cases "inc_step op")
      case None
      then have "int_expr V u" "op \<in> {Tag_kPlus, Tag_kMinus, Tag_kTilde, Tag_kExclaim}" using assms(3) EUnary by auto
      with value_unary [OF assms(1,2) this(1) vals [OF this(1)] None this(2)] EUnary assms(4) show ?thesis by simp
    next
      case (Some d)
      then have "is_place V u" using assms(3) EUnary by auto
      from value_unary_inc [OF assms(1,2) ptr this Some] EUnary assms(4) show ?thesis by simp
    qed
  next
    case (EBinary op l r q)
    note sz = assms(4) [unfolded EBinary]
    have r: "value_ok G loc V (visitors_at G n) r" using vals [of r] assms(3) EBinary sz by simp
    show ?thesis
    proof (cases "op = Tag_kEqual")
      case True
      then have "is_place V l" using assms(3) EBinary by simp
      from value_assign [OF assms(1,2) ptr this r] True EBinary sz show ?thesis by simp
    next
      case False
      then have il: "int_expr V l" using assms(3) EBinary by simp
      have l: "value_ok G loc V (visitors_at G n) l" "branch_ok G loc V (visitors_at G n) l"
        using vals [OF il] brs [OF il] sz by simp_all
      from False assms(3) EBinary consider "op \<in> arith_ops \<union> compare_ops" | "op = Tag_kComma"
        | "op = Tag_kAmpAmp" "varies l" | "op = Tag_kPipePipe" "varies l" by auto
      then show ?thesis
      proof cases
        case 1 from value_binary [OF assms(1,2) il l(1) r 1] EBinary show ?thesis by simp
      next
        case 2 from value_comma [OF l(1) r] 2 EBinary show ?thesis by simp
      next
        case 3 from value_and [OF assms(1,2) il 3(2) l(2) r] 3 EBinary show ?thesis by simp
      next
        case 4 from value_or [OF assms(1,2) il 4(2) l(2) r] 4 EBinary show ?thesis by simp
      qed
    qed
  next
    case (ECond c l r q)
    note sz = assms(4) [unfolded ECond]
    from assms(3) ECond have i: "int_expr V c" "varies c" "int_expr V l" "int_expr V r" by simp_all
    from value_cond [OF assms(1,2) i brs [OF i(1)] vals [OF i(1)] vals [OF i(3)] vals [OF i(4)]] sz ECond show ?thesis by simp
  qed (use assms(3) in simp_all)
qed

lemma branch_step:
  assumes "llvm_ok G" and "places_ok G loc V" and "int_expr V e" and "2 * size e + 1 < Suc n"
    and vals: "\<And>e. int_expr V e \<Longrightarrow> 2 * size e < n \<Longrightarrow> value_ok G loc V (visitors_at G n) e"
    and brs: "\<And>e. int_expr V e \<Longrightarrow> 2 * size e + 1 < n \<Longrightarrow> branch_ok G loc V (visitors_at G n) e"
  shows "branch_ok G loc V (visitors_at G (Suc n)) e"
proof (cases "has_parts e")
  case False
  from branch_value [OF assms(1) vals [OF assms(3)] False] assms(4) show ?thesis by simp
next
  case True
  note sz = assms(4)
  from True consider u q where "e = EUnary Tag_kExclaim u q" | l r q where "e = EBinary Tag_kAmpAmp l r q"
    | l r q where "e = EBinary Tag_kPipePipe l r q" | c l r q where "e = ECond c l r q"
    by (cases e) auto
  then show ?thesis
  proof cases
    case (1 u q)
    then have "branch_ok G loc V (visitors_at G n) u" using brs [of u] assms(3) sz by (simp add: inc_step_def)
    from branch_not [OF this] 1 show ?thesis by simp
  next
    case (2 l r q)
    then have "branch_ok G loc V (visitors_at G n) l" "branch_ok G loc V (visitors_at G n) r"
      using brs [of l] brs [of r] assms(3) sz by simp_all
    from branch_and [OF this] 2 show ?thesis by simp
  next
    case (3 l r q)
    then have "branch_ok G loc V (visitors_at G n) l" "branch_ok G loc V (visitors_at G n) r"
      using brs [of l] brs [of r] assms(3) sz by simp_all
    from branch_or [OF this] 3 show ?thesis by simp
  next
    case (4 c l r q)
    then have "branch_ok G loc V (visitors_at G n) c" "branch_ok G loc V (visitors_at G n) l" "branch_ok G loc V (visitors_at G n) r"
      using brs [of c] brs [of l] brs [of r] assms(3) sz by simp_all
    from branch_cond [OF this] 4 show ?thesis by simp
  qed
qed

lemma exprs_ok:
  assumes "llvm_ok G" and "places_ok G loc V"
  shows "(\<forall>e. int_expr V e \<longrightarrow> 2 * size e < n \<longrightarrow> value_ok G loc V (visitors_at G n) e) \<and>
    (\<forall>e. int_expr V e \<longrightarrow> 2 * size e + 1 < n \<longrightarrow> branch_ok G loc V (visitors_at G n) e)"
proof (induction n)
  case (Suc n)
  then have "value_ok G loc V (visitors_at G (Suc n)) e" if "int_expr V e" "2 * size e < Suc n" for e
    by (intro value_step [OF assms that]) simp_all
  moreover from Suc have "branch_ok G loc V (visitors_at G (Suc n)) e" if "int_expr V e" "2 * size e + 1 < Suc n" for e
    by (intro branch_step [OF assms that]) simp_all
  ultimately show ?case by blast
qed simp

end
