(* ===== verification/Kcc_SimStmt.thy ===== *)
theory Kcc_SimStmt
  imports Kcc_SimVisit
begin

text \<open>
  Statements: where the machine goes when a statement ends as \<open>exec\<close> says. Loops are run in
  blocks that are fixed; \<open>place\<close> is where each outcome leads.
\<close>

subsection \<open>The fragment\<close>

abbreviation int_opt :: "nat set \<Rightarrow> expr option \<Rightarrow> bool" where
  "int_opt V e \<equiv> (case e of None \<Rightarrow> True | Some e \<Rightarrow> int_expr V e)"

text \<open>Statements over \<open>int_expr\<close>; \<open>L\<close>: in a loop.\<close>

fun int_stmt :: "nat set \<Rightarrow> bool \<Rightarrow> stmt \<Rightarrow> bool" where
  "int_stmt V L (SExpr e) = int_opt V e"
| "int_stmt V L (SCompound ts) = list_all (int_stmt V L) ts"
| "int_stmt V L (SIf c t e) = (int_expr V c \<and> varies c \<and> int_stmt V L t \<and> (case e of None \<Rightarrow> True | Some u \<Rightarrow> int_stmt V L u))"
| "int_stmt V L (SWhile c t) = (int_expr V c \<and> varies c \<and> int_stmt V True t)"
| "int_stmt V L (SDoWhile c t) = (int_expr V c \<and> varies c \<and> int_stmt V True t)"
| "int_stmt V L (SFor i c inc t d) = (int_opt V i \<and> int_opt V c \<and> int_opt V inc \<and> int_stmt V True t \<and> d = None)"
| "int_stmt V L SBreak = L"
| "int_stmt V L SContinue = L"
| "int_stmt V L (SReturn e) = int_opt V e"
| "int_stmt V L _ = False"

subsection \<open>Places\<close>

text \<open>What the code around a statement provides: the targets of \<open>break\<close> and \<open>continue\<close> and the place of the
  value that is returned, which is no object.\<close>

definition fits_in_code :: "(nat \<Rightarrow> 'c val) \<Rightarrow> nat set \<Rightarrow> 'c val \<Rightarrow> bool \<Rightarrow> 'c cg \<Rightarrow> bool" where
  "fits_in_code loc V rp L s \<longleftrightarrow> (L \<longrightarrow> (\<exists>b c rest. break_continue_stack s = (b, Some c) # rest)) \<and>
     return_block s \<noteq> None \<and> return_value s = Some rp \<and> rp \<notin> loc ` V"

fun place :: "'c cg \<Rightarrow> 'c cg \<Rightarrow> outcome \<Rightarrow> nat \<times> nat" where
  "place s s' Normal = pos s'"
| "place s s' Broke = (fst (hd (break_continue_stack s)), 0)"
| "place s s' Continued = (the (snd (hd (break_continue_stack s))), 0)"
| "place s s' (Returned v) = (the (return_block s), 0)"

text \<open>The value that was returned is in its place.\<close>

fun returned :: "'c val \<Rightarrow> outcome \<Rightarrow> nat \<Rightarrow> regs \<Rightarrow> 'c mem \<Rightarrow> bool" where
  "returned rp (Returned (Some x)) p \<rho> M = (M rp = x)"
| "returned rp _ p \<rho> M = True"

text \<open>The place behind the statement exists, and so does the block behind the loop.\<close>

fun placed_well :: "'c cg \<Rightarrow> 'c cg \<Rightarrow> outcome \<Rightarrow> bool" where
  "placed_well s s' Normal = (cg_at s' \<noteq> None)"
| "placed_well s s' Broke = (\<exists>p. comes_from s' p (fst (hd (break_continue_stack s))))"
| "placed_well s s' _ = True"

definition leads :: "'c genv \<Rightarrow> (nat \<Rightarrow> 'c block) \<Rightarrow> (nat \<Rightarrow> 'c val) \<Rightarrow> nat set \<Rightarrow> 'c val \<Rightarrow> 'c cg \<Rightarrow> 'c cg \<Rightarrow> store \<Rightarrow> outcome \<Rightarrow> store \<Rightarrow> bool" where
  "leads G B loc V rp s s' \<sigma> o' \<sigma>' \<longleftrightarrow> ranged V \<sigma>' \<and> placed_well s s' o' \<and>
     arrives G B loc V (cg_next s) \<sigma> \<sigma>' (pos s) (place s s' o') (\<lambda>_ _ _. True) (returned rp o')"

definition ends :: "(nat \<Rightarrow> 'c val) \<Rightarrow> nat set \<Rightarrow> 'c cg \<Rightarrow> bool" where
  "ends loc V s \<longleftrightarrow> settled loc V s \<and> (cg_at s = None \<or> is_open s)"

definition sim_st :: "'c genv \<Rightarrow> (nat \<Rightarrow> 'c val) \<Rightarrow> nat set \<Rightarrow> 'c val \<Rightarrow> bool \<Rightarrow> ('c, unit) gen \<Rightarrow> (store \<Rightarrow> outcome \<Rightarrow> store \<Rightarrow> bool) \<Rightarrow> bool" where
  "sim_st G loc V rp L m r \<longleftrightarrow> (\<forall>s. ready loc V s \<longrightarrow> fits_in_code loc V rp L s \<longrightarrow> (\<exists>s'. m s = Inr ((), s') \<and> framed s s' \<and> ends loc V s' \<and>
     (\<forall>B \<sigma> o' \<sigma>'. covers s s' B \<longrightarrow> ranged V \<sigma> \<longrightarrow> r \<sigma> o' \<sigma>' \<longrightarrow> leads G B loc V rp s s' \<sigma> o' \<sigma>')))"

text \<open>Behind a jump nothing is generated.\<close>

definition skips :: "(nat \<Rightarrow> 'c val) \<Rightarrow> nat set \<Rightarrow> 'c val \<Rightarrow> bool \<Rightarrow> ('c, unit) gen \<Rightarrow> bool" where
  "skips loc V rp L m \<longleftrightarrow> (\<forall>s. settled loc V s \<longrightarrow> cg_at s = None \<longrightarrow> fits_in_code loc V rp L s \<longrightarrow> m s = Inr ((), s))"

lemma sim_stE:
  assumes "sim_st G loc V rp L m r" and "ready loc V s" and "fits_in_code loc V rp L s"
  obtains s' where "m s = Inr ((), s')" and "framed s s'" and "ends loc V s'"
    and "\<And>B \<sigma> o' \<sigma>'. covers s s' B \<Longrightarrow> ranged V \<sigma> \<Longrightarrow> r \<sigma> o' \<sigma>' \<Longrightarrow> leads G B loc V rp s s' \<sigma> o' \<sigma>'"
  using assms unfolding sim_st_def by (elim allE [of _ s] impE exE conjE) auto

lemma sim_stI:
  assumes "\<And>s. ready loc V s \<Longrightarrow> fits_in_code loc V rp L s \<Longrightarrow> \<exists>s'. m s = Inr ((), s') \<and> framed s s' \<and> ends loc V s' \<and>
     (\<forall>B \<sigma> o' \<sigma>'. covers s s' B \<longrightarrow> ranged V \<sigma> \<longrightarrow> r \<sigma> o' \<sigma>' \<longrightarrow> leads G B loc V rp s s' \<sigma> o' \<sigma>')"
  shows "sim_st G loc V rp L m r"
  unfolding sim_st_def using assms by blast

lemma fits_ctx:
  assumes "fits_in_code loc V rp L s" and "ctx s' = ctx s"
  shows "fits_in_code loc V rp L s'" "break_continue_stack s' = break_continue_stack s" "return_block s' = return_block s"
  using assms by (auto simp: fits_in_code_def ctx_def)

lemma place_ctx:
  assumes "ctx s1 = ctx s"
  shows "o' \<noteq> Normal \<Longrightarrow> place s1 s2 o' = place s s' o'" "place s1 s' o' = place s s' o'"
  using assms by (cases o'; simp add: ctx_def)+

lemma placed_well_grown: "placed_well s s1 o' \<Longrightarrow> grown X s1 s' \<Longrightarrow> o' \<noteq> Normal \<Longrightarrow> placed_well s s' o'"
  using comes_from_grown by (cases o') fastforce+

lemma placed_well_ctx: "ctx s1 = ctx s \<Longrightarrow> placed_well s1 s' o' = placed_well s s' o'"
  by (cases o') (simp_all add: ctx_def)

lemma ready_ends: "ready loc V s \<Longrightarrow> ends loc V s"
  by (simp add: ready_def ends_def)

lemma ends_cases:
  assumes "ends loc V s"
  obtains "cg_at s = None" and "settled loc V s" | "cg_at s \<noteq> None" and "ready loc V s"
  using assms by (auto simp: ends_def ready_def is_open_def)

lemma ready_at: "ready loc V s \<Longrightarrow> cg_at s \<noteq> None"
  by (auto simp: ready_def is_open_def)

lemma arrives_drop: "arrives G B loc V k \<sigma> \<sigma>' l l' A C \<Longrightarrow> arrives G B loc V k \<sigma> \<sigma>' l l' A (\<lambda>_ _ _. True)"
  by (erule arrives_mono) auto

lemma leads_more:
  assumes "leads G B loc V rp s s1 \<sigma> o' \<sigma>'" and "grown X s1 s'" and "o' \<noteq> Normal"
  shows "leads G B loc V rp s s' \<sigma> o' \<sigma>'"
proof -
  have "place s s' o' = place s s1 o'" using assms(3) by (cases o') auto
  then show ?thesis using assms placed_well_grown [OF _ assms(2,3), of s] by (simp add: leads_def)
qed

lemma leads_then:
  assumes "leads G B loc V rp s s1 \<sigma> Normal \<sigma>1" and "leads G B loc V rp s1 s' \<sigma>1 o' \<sigma>'" and "framed s s1"
  shows "leads G B loc V rp s s' \<sigma> o' \<sigma>'"
proof -
  have "arrives G B loc V (cg_next s) \<sigma> \<sigma>1 (pos s) (pos s1) (\<lambda>_ _ _. True) (\<lambda>_ _ _. True)"
    using assms(1) by (auto simp: leads_def intro: arrives_drop)
  from arrives_trans [OF this, of "cg_next s1" \<sigma>' "place s1 s' o'" "returned rp o'"] assms(2,3) show ?thesis
    unfolding leads_def place_ctx(2) [OF framed_ctx [OF assms(3)]] placed_well_ctx [OF framed_ctx [OF assms(3)]]
    using framed_next [OF assms(3)] by blast
qed

subsection \<open>Sequences\<close>

inductive_cases execs_NilE: "execs [] \<sigma> o' \<sigma>'"
inductive_cases execs_ConsE: "execs (t # ts) \<sigma> o' \<sigma>'"

lemma sim_st_nil: "sim_st G loc V rp L (ret ()) (execs [])"
proof (rule sim_stI)
  fix s assume s: "ready loc V s"
  have "leads G B loc V rp s s \<sigma> o' \<sigma>'" if "ranged V \<sigma>" "execs [] \<sigma> o' \<sigma>'" for B \<sigma> o' \<sigma>'
    using that(2,1) by (elim execs_NilE) (simp add: leads_def ready_at [OF s] arrives_mono [OF arrives_refl])
  with s show "\<exists>s'. ret () s = Inr ((), s') \<and> framed s s' \<and> ends loc V s' \<and>
      (\<forall>B \<sigma> o' \<sigma>'. covers s s' B \<longrightarrow> ranged V \<sigma> \<longrightarrow> execs [] \<sigma> o' \<sigma>' \<longrightarrow> leads G B loc V rp s s' \<sigma> o' \<sigma>')"
    by (auto simp: ret_def ready_ends)
qed

lemma sim_st_cons:
  assumes "sim_st G loc V rp L m1 (exec t)" and "sim_st G loc V rp L m2 (execs ts)" and "skips loc V rp L m2"
  shows "sim_st G loc V rp L (thn m1 m2) (execs (t # ts))"
proof (rule sim_stI)
  fix s assume s: "ready loc V s" "fits_in_code loc V rp L s"
  from sim_stE [OF assms(1) s] obtain s1 where 1: "m1 s = Inr ((), s1)" "framed s s1" "ends loc V s1"
    "\<And>B \<sigma> o' \<sigma>'. covers s s1 B \<Longrightarrow> ranged V \<sigma> \<Longrightarrow> exec t \<sigma> o' \<sigma>' \<Longrightarrow> leads G B loc V rp s s1 \<sigma> o' \<sigma>'"
    by blast
  note f1 = fits_ctx(1) [OF s(2) framed_ctx [OF 1(2)]]
  show "\<exists>s'. thn m1 m2 s = Inr ((), s') \<and> framed s s' \<and> ends loc V s' \<and>
      (\<forall>B \<sigma> o' \<sigma>'. covers s s' B \<longrightarrow> ranged V \<sigma> \<longrightarrow> execs (t # ts) \<sigma> o' \<sigma>' \<longrightarrow> leads G B loc V rp s s' \<sigma> o' \<sigma>')"
  using 1(3)
  proof (rule ends_cases)
    assume n: "cg_at s1 = None" "settled loc V s1"
    have "leads G B loc V rp s s1 \<sigma> o' \<sigma>'" if "covers s s1 B" "ranged V \<sigma>" "execs (t # ts) \<sigma> o' \<sigma>'" for B \<sigma> o' \<sigma>'
      using that(3)
    proof (rule execs_ConsE)
      fix \<sigma>1 assume "exec t \<sigma> Normal \<sigma>1"
      from 1(4) [OF that(1,2) this] n(1) show ?thesis by (simp add: leads_def)
    qed (rule 1(4) [OF that(1,2)])
    moreover have "m2 s1 = Inr ((), s1)" using assms(3) n f1 by (simp add: skips_def)
    ultimately show ?thesis using 1(1-3) by (auto simp: run)
  next
    assume r: "ready loc V s1"
    from sim_stE [OF assms(2) r f1] obtain s' where 2: "m2 s1 = Inr ((), s')" "framed s1 s'" "ends loc V s'"
      "\<And>B \<sigma> o' \<sigma>'. covers s1 s' B \<Longrightarrow> ranged V \<sigma> \<Longrightarrow> execs ts \<sigma> o' \<sigma>' \<Longrightarrow> leads G B loc V rp s1 s' \<sigma> o' \<sigma>'"
      by blast
    have "leads G B loc V rp s s' \<sigma> o' \<sigma>'" if c: "covers s s' B" and rg: "ranged V \<sigma>" and e: "execs (t # ts) \<sigma> o' \<sigma>'" for B \<sigma> o' \<sigma>'
      using e
    proof (rule execs_ConsE)
      fix \<sigma>1 assume "exec t \<sigma> Normal \<sigma>1" and r2: "execs ts \<sigma>1 o' \<sigma>'"
      from 1(4) [OF covers_first [OF 1(2) 2(2) c] rg this(1)] have l: "leads G B loc V rp s s1 \<sigma> Normal \<sigma>1" .
      then have "ranged V \<sigma>1" by (simp add: leads_def)
      from leads_then [OF l 2(4) [OF covers_second [OF 1(2) c] this r2] 1(2)] show ?thesis .
    next
      assume "exec t \<sigma> o' \<sigma>'" "o' \<noteq> Normal"
      from leads_more [OF 1(4) [OF covers_first [OF 1(2) 2(2) c] rg this(1)] grown_framed [OF 2(2), of "{}"] this(2)] show ?thesis .
    qed
    with 1(1) 2(1,3) framed_trans [OF 1(2) 2(2)] show ?thesis by (auto simp: run)
  qed
qed

subsection \<open>Simple statements\<close>

lemma emit_open: "is_open s \<Longrightarrow> EmitStmt G P t s = Accept_stmt G P t s"
  by (auto simp: EmitStmt_def EmitSimpleStmt_def HaveInsertPoint_def GetInsertBlock_def run is_open_def bindE_def split: sum.splits)

lemma emit_none:
  assumes "cg_at s = None" and "\<not> ContainsLabel t"
  shows "EmitStmt G P t s = (if is_simple t then Accept_stmt G P t s else Inr ((), s))"
  using assms by (auto simp: EmitStmt_def EmitSimpleStmt_def HaveInsertPoint_def GetInsertBlock_def run bindE_def split: sum.splits)

lemma sim_st_emit:
  assumes "sim_st G loc V rp L (Accept_stmt G P t) (exec t)"
  shows "sim_st G loc V rp L (v_stmt (visitors_with G P) t) (exec t)"
  using assms by (simp add: sim_st_def visitors_with_def emit_open ready_open)

lemma cleanup_open: "is_open s \<Longrightarrow> EmitBranchThroughCleanup (Some d) s = Inr ((), jumped d s)"
  by (auto simp: EmitBranchThroughCleanup_def HaveInsertPoint_def GetInsertBlock_def ClearInsertionPoint_def jumped_def put_open run is_open_def)

lemma cleanup_none: "cg_at s = None \<Longrightarrow> EmitBranchThroughCleanup d s = Inr ((), s)"
  by (simp add: EmitBranchThroughCleanup_def HaveInsertPoint_def GetInsertBlock_def run)

lemma ends_jumped: "settled loc V s \<Longrightarrow> ends loc V (jumped d s)"
  by (simp add: ends_def settled_jumped)

lemma comes_from_jumped: "ready loc V s \<Longrightarrow> cg_at s = Some p \<Longrightarrow> comes_from (jumped d s) p d"
  using closed_facts(2) [of loc V s] by (auto simp: jumped_def ready_open intro: comes_from_add)

inductive_cases exec_EmptyE: "exec (SExpr None) \<sigma> o' \<sigma>'"
inductive_cases exec_ExprE: "exec (SExpr (Some e)) \<sigma> o' \<sigma>'"
inductive_cases exec_CompoundE: "exec (SCompound ts) \<sigma> o' \<sigma>'"
inductive_cases exec_BreakE: "exec SBreak \<sigma> o' \<sigma>'"
inductive_cases exec_ContinueE: "exec SContinue \<sigma> o' \<sigma>'"
inductive_cases exec_ReturnE: "exec (SReturn None) \<sigma> o' \<sigma>'"
inductive_cases exec_ReturnValueE: "exec (SReturn (Some e)) \<sigma> o' \<sigma>'"

lemma sim_st_jump:
  assumes "\<And>s. fits_in_code loc V rp L s \<Longrightarrow> m s = EmitBranchThroughCleanup (Some (d s)) s"
    and "\<And>\<sigma> o' \<sigma>'. r \<sigma> o' \<sigma>' \<Longrightarrow> \<sigma>' = \<sigma> \<and> o' = x" and "x \<in> {Broke, Continued, Returned None}"
    and "\<And>s s'. fits_in_code loc V rp L s \<Longrightarrow> place s s' x = (d s, 0)"
  shows "sim_st G loc V rp L m r"
proof (rule sim_stI)
  fix s assume s: "ready loc V s" "fits_in_code loc V rp L s"
  let ?s = "jumped (d s) s"
  obtain p where p: "cg_at s = Some p" using ready_at [OF s(1)] by auto
  have "leads G B loc V rp s ?s \<sigma> o' \<sigma>'" if c: "covers s ?s B" and rg: "ranged V \<sigma>" and e: "r \<sigma> o' \<sigma>'" for B \<sigma> o' \<sigma>'
  proof -
    from assms(2) [OF e] have x: "\<sigma>' = \<sigma>" "o' = x" by auto
    have w: "placed_well s ?s x"
      using assms(3) assms(4) [OF s(2), of ?s] comes_from_jumped [OF s(1) p, of "d s"] by auto
    have "returned rp x = (\<lambda>_ _ _. True)" using assms(3) by (intro ext) auto
    moreover note arrives_drop [OF arrives_jump [OF ready_open [OF s(1)] c, where C = "\<lambda>_ _. True" and k = "cg_next s" and \<sigma> = \<sigma>]]
    ultimately show ?thesis using w rg assms(4) [OF s(2), of ?s] by (simp add: leads_def x)
  qed
  with s show "\<exists>s'. m s = Inr ((), s') \<and> framed s s' \<and> ends loc V s' \<and>
      (\<forall>B \<sigma> o' \<sigma>'. covers s s' B \<longrightarrow> ranged V \<sigma> \<longrightarrow> r \<sigma> o' \<sigma>' \<longrightarrow> leads G B loc V rp s s' \<sigma> o' \<sigma>')"
    using closed_facts(1) [OF s(1)] by (auto simp: assms(1) cleanup_open [OF ready_open [OF s(1)]] ends_jumped)
qed

lemma stmt_break: "sim_st G loc V rp True (Accept_stmt G P SBreak) (exec SBreak)"
  by (rule sim_st_jump [where d = "\<lambda>s. fst (hd (break_continue_stack s))" and x = Broke])
    (auto simp: Accept_stmt_def Visit_BreakStmt_def run fits_in_code_def elim: exec_BreakE)

lemma stmt_continue: "sim_st G loc V rp True (Accept_stmt G P SContinue) (exec SContinue)"
  by (rule sim_st_jump [where d = "\<lambda>s. the (snd (hd (break_continue_stack s)))" and x = Continued])
    (auto simp: Accept_stmt_def Visit_ContinueStmt_def run fits_in_code_def elim: exec_ContinueE)

lemma stmt_return: "sim_st G loc V rp L (Accept_stmt G P (SReturn None)) (exec (SReturn None))"
  by (rule sim_st_jump [where d = "\<lambda>s. the (return_block s)" and x = "Returned None"])
    (auto simp: Accept_stmt_def Visit_ReturnStmt_def run fits_in_code_def elim: exec_ReturnE)

lemma stmt_empty: "sim_st G loc V rp L (Accept_stmt G P (SExpr None)) (exec (SExpr None))"
proof -
  have "exec (SExpr None) = execs []"
    by (intro ext) (auto elim: exec_EmptyE execs_NilE intro: exec_execs.Empty exec_execs.Nil)
  then show ?thesis using sim_st_nil by (simp add: Accept_stmt_def Visit_ExprStmt_def)
qed

lemma stmt_expr:
  assumes "value_ok G loc V P e"
  shows "sim_st G loc V rp L (Accept_stmt G P (SExpr (Some e))) (exec (SExpr (Some e)))"
proof (rule sim_stI)
  fix s assume s: "ready loc V s" "fits_in_code loc V rp L s"
  from simE [OF assms [unfolded value_ok_def] s(1)] obtain v s' where 1: "value_of P e s = Inr (v, s')" "gives G loc V T_int (varies e) s v s'"
    "\<And>\<sigma> w \<sigma>'. ranged V \<sigma> \<Longrightarrow> ev e \<sigma> = Some (w, \<sigma>') \<Longrightarrow> fits_type T_int w \<and> ranged V \<sigma>' \<and>
       flows G loc V s s' \<sigma> \<sigma>' (\<lambda>_. True) (\<lambda>\<rho>. den G \<rho> v = Some w)"
    by blast
  note g = gives_facts [OF 1(2)]
  have m: "Accept_stmt G P (SExpr (Some e)) s = Inr ((), s')"
    using 1(1) by (simp add: Accept_stmt_def Visit_ExprStmt_def value_of_run)
  have "leads G B loc V rp s s' \<sigma> o' \<sigma>'" if c: "covers s s' B" and rg: "ranged V \<sigma>" and e: "exec (SExpr (Some e)) \<sigma> o' \<sigma>'" for B \<sigma> o' \<sigma>'
    using e
  proof (rule exec_ExprE)
    fix w assume o': "o' = Normal" and w: "ev e \<sigma> = Some (w, \<sigma>')"
    from 1(3) [OF rg w] have "ranged V \<sigma>'" "flows G loc V s s' \<sigma> \<sigma>' (\<lambda>_. True) (\<lambda>\<rho>. den G \<rho> v = Some w)" by auto
    moreover have "returned rp Normal = (\<lambda>_ _ _. True)" by (intro ext) simp
    ultimately show ?thesis using arrives_drop [OF flows_arrives [OF _ c]] ready_at [OF g(2)] by (simp add: leads_def o')
  qed
  with m g ready_ends [OF g(2)] show "\<exists>s'. Accept_stmt G P (SExpr (Some e)) s = Inr ((), s') \<and> framed s s' \<and> ends loc V s' \<and>
      (\<forall>B \<sigma> o' \<sigma>'. covers s s' B \<longrightarrow> ranged V \<sigma> \<longrightarrow> exec (SExpr (Some e)) \<sigma> o' \<sigma>' \<longrightarrow> leads G B loc V rp s s' \<sigma> o' \<sigma>')"
    by blast
qed

lemma arrives_store:
  assumes "is_open s" and "covers s (add_instr (I_Store v rp vol) s) B" and "rp \<notin> loc ` V"
  shows "arrives G B loc V k \<sigma> \<sigma> (pos s) (pos (add_instr (I_Store v rp vol) s)) (\<lambda>p \<rho> M. den G \<rho> v = Some x) (\<lambda>p \<rho> M. M rp = x)"
proof -
  have r: "represents loc V \<sigma> (M(rp := x))" if "represents loc V \<sigma> M" for M
    using that assms(3) by (auto simp: represents_def)
  have "runs G B (config_at s p \<rho> M) (config_at (add_instr (I_Store v rp vol) s) p \<rho> (M(rp := x)))" if "den G \<rho> v = Some x" for p \<rho> M
    using run_added [OF assms(1) framed_refl assms(2), of G p \<rho> M \<rho> "M(rp := x)"] that by (simp add: r_into_rtranclp)
  then show ?thesis unfolding arrives_def by (metis r agree_refl fun_upd_same)
qed

lemma stmt_return_value:
  assumes "value_ok G loc V P e"
  shows "sim_st G loc V rp L (Accept_stmt G P (SReturn (Some e))) (exec (SReturn (Some e)))"
proof (rule sim_stI)
  fix s assume s: "ready loc V s" "fits_in_code loc V rp L s"
  from simE [OF sim_with_struct [OF assms [unfolded value_ok_def]] s(1)] obtain v s1 where 1: "with_struct (value_of P e) s = Inr (v, s1)"
    "gives G loc V T_int (varies e) s v s1"
    "\<And>\<sigma> w \<sigma>'. ranged V \<sigma> \<Longrightarrow> ev e \<sigma> = Some (w, \<sigma>') \<Longrightarrow> fits_type T_int w \<and> ranged V \<sigma>' \<and>
       flows G loc V s s1 \<sigma> \<sigma>' (\<lambda>_. True) (\<lambda>\<rho>. den G \<rho> v = Some w)"
    by metis
  note g = gives_facts [OF 1(2)]
  from s(2) obtain rb where rb: "return_block s = Some rb" "return_value s = Some rp" "rp \<notin> loc ` V" by (auto simp: fits_in_code_def)
  define s2 where "s2 = add_instr (I_Store v rp False) s1"
  note o1 = ready_open [OF g(2)]
  have r2: "ready loc V s2" using g(2) by (simp add: s2_def)
  have f12: "framed s1 s2" using o1 by (simp add: s2_def)
  note f02 = framed_trans [OF g(1) f12]
  let ?s = "jumped rb s2"
  have m: "Accept_stmt G P (SReturn (Some e)) s = Inr ((), ?s)"
    using 1(1) rb by (simp add: Accept_stmt_def Visit_ReturnStmt_def run put_open [OF o1] cleanup_open [OF ready_open [OF r2]] flip: s2_def)
  have "leads G B loc V rp s ?s \<sigma> o' \<sigma>'" if c: "covers s ?s B" and rg: "ranged V \<sigma>" and e: "exec (SReturn (Some e)) \<sigma> o' \<sigma>'" for B \<sigma> o' \<sigma>'
    using e
  proof (rule exec_ReturnValueE)
    fix w assume o': "o' = Returned (Some w)" and w: "ev e \<sigma> = Some (w, \<sigma>')"
    from 1(3) [OF rg w] have 2: "ranged V \<sigma>'" "flows G loc V s s1 \<sigma> \<sigma>' (\<lambda>_. True) (\<lambda>\<rho>. den G \<rho> v = Some w)" by auto
    note c2 = covers_first [OF f02 framed_jumped c]
    have a1: "arrives G B loc V (cg_next s) \<sigma> \<sigma>' (pos s) (pos s1) (\<lambda>_ _ _. True) (\<lambda>p \<rho> M. den G \<rho> v = Some w)"
      by (rule flows_arrives [OF 2(2) covers_first [OF g(1) f12 c2]])
    have a2: "arrives G B loc V (cg_next s) \<sigma>' \<sigma>' (pos s1) (pos s2) (\<lambda>p \<rho> M. den G \<rho> v = Some w) (\<lambda>p \<rho> M. M rp = w)"
      unfolding s2_def by (rule arrives_store [OF o1 covers_second [OF g(1) c2, unfolded s2_def] rb(3)])
    note a3 = arrives_jump [OF ready_open [OF r2] covers_second [OF f02 c], where C = "\<lambda>\<rho> M. M rp = w"]
    have "arrives G B loc V (cg_next s) \<sigma> \<sigma>' (pos s) (rb, 0) (\<lambda>_ _ _. True) (returned rp (Returned (Some w)))"
      by (rule arrives_mono [OF arrives_trans [OF arrives_trans [OF a1 a2 order_refl] a3 order_refl]]) (simp_all add: reached_def)
    with 2(1) show ?thesis by (simp add: leads_def o' rb(1))
  qed
  with m framed_trans [OF f02 framed_jumped] ends_jumped [OF closed_facts(1) [OF r2]]
  show "\<exists>s'. Accept_stmt G P (SReturn (Some e)) s = Inr ((), s') \<and> framed s s' \<and> ends loc V s' \<and>
      (\<forall>B \<sigma> o' \<sigma>'. covers s s' B \<longrightarrow> ranged V \<sigma> \<longrightarrow> exec (SReturn (Some e)) \<sigma> o' \<sigma>' \<longrightarrow> leads G B loc V rp s s' \<sigma> o' \<sigma>')"
    by blast
qed

end
