(* ===== verification/Kcc_SimControl.thy ===== *)
theory Kcc_SimControl
  imports Kcc_SimStmt
begin

text \<open>
  \<open>if\<close> and the loops: statements in blocks of their own.
\<close>

subsection \<open>A statement in a block\<close>

text \<open>Where a block that goes on to \<open>e\<close> leads.\<close>

definition exit_of :: "'c cg \<Rightarrow> nat \<Rightarrow> outcome \<Rightarrow> nat \<times> nat" where
  "exit_of s e o' = (if o' = Normal then (e, 0) else place s s o')"

definition exit_well :: "'c cg \<Rightarrow> 'c cg \<Rightarrow> nat \<Rightarrow> outcome \<Rightarrow> bool" where
  "exit_well s s' e o' \<longleftrightarrow> (if o' = Normal then \<exists>p. comes_from s' p e else placed_well s s' o')"

definition body_in :: "'c genv \<Rightarrow> (nat \<Rightarrow> 'c val) \<Rightarrow> nat set \<Rightarrow> 'c val \<Rightarrow> (store \<Rightarrow> outcome \<Rightarrow> store \<Rightarrow> bool) \<Rightarrow> nat \<Rightarrow> nat \<Rightarrow>
    'c cg \<Rightarrow> 'c cg \<Rightarrow> 'c cg \<Rightarrow> bool" where
  "body_in G loc V rp r b e s s1 s2 \<longleftrightarrow> settled loc V s2 \<and> cg_at s2 = None \<and> ctx s2 = ctx s \<and> grown {b} s s1 \<and> grown {b} s1 s2 \<and>
     (\<forall>B \<sigma> o' \<sigma>'. covers s1 s2 B \<longrightarrow> ranged V \<sigma> \<longrightarrow> r \<sigma> o' \<sigma>' \<longrightarrow> ranged V \<sigma>' \<and> exit_well s s2 e o' \<and>
        arrives G B loc V (cg_next s1) \<sigma> \<sigma>' (b, 0) (exit_of s e o') (\<lambda>_ _ _. True) (returned rp o'))"

lemma body_in_facts:
  assumes "body_in G loc V rp r b e s s1 s2"
  shows "settled loc V s2" "cg_at s2 = None" "ctx s2 = ctx s" "grown {b} s s1" "grown {b} s1 s2"
    "covers s1 s2 B \<Longrightarrow> ranged V \<sigma> \<Longrightarrow> r \<sigma> o' \<sigma>' \<Longrightarrow> ranged V \<sigma>' \<and> exit_well s s2 e o' \<and>
        arrives G B loc V (cg_next s1) \<sigma> \<sigma>' (b, 0) (exit_of s e o') (\<lambda>_ _ _. True) (returned rp o')"
  using assms unfolding body_in_def by blast+

lemma jumped_none: "cg_at s = None \<Longrightarrow> jumped e s = s"
  by (simp add: jumped_def is_open_def)

lemma stmt_block_next:
  assumes "sim_st G loc V rp L m r" and "settled loc V s" and "unplaced b s" and "fits_in_code loc V rp L s"
  obtains s1 s2 where "EmitBlock b False s = Inr ((), s1)" and "m s1 = Inr ((), s2)" and "body_in G loc V rp r b e s s1 (jumped e s2)"
    and "cg_next s \<le> cg_next s2"
proof -
  from begin_block [OF assms(2,3)] obtain s1 where 1: "EmitBlock b False s = Inr ((), s1)" "s1 = placed b (jumped b s)" "ready loc V s1"
    "grown {b} s s1" "ctx s1 = ctx s" "pos s1 = (b, 0)" "cg_next s \<le> cg_next s1" by blast
  note f1 = fits_ctx(1) [OF assms(4) 1(5)]
  from sim_stE [OF assms(1) 1(3) f1] obtain s2 where 2: "m s1 = Inr ((), s2)" "framed s1 s2" "ends loc V s2"
    "\<And>B \<sigma> o' \<sigma>'. covers s1 s2 B \<Longrightarrow> ranged V \<sigma> \<Longrightarrow> r \<sigma> o' \<sigma>' \<Longrightarrow> leads G B loc V rp s1 s2 \<sigma> o' \<sigma>'"
    by blast
  let ?s = "jumped e s2"
  have st: "settled loc V ?s" using 2(3) by (simp add: ends_def settled_jumped)
  have g: "grown {b} s1 ?s" by (rule grown_framed [OF framed_trans [OF 2(2) framed_jumped]])
  have run: "ranged V \<sigma>' \<and> exit_well s ?s e o' \<and>
      arrives G B loc V (cg_next s1) \<sigma> \<sigma>' (b, 0) (exit_of s e o') (\<lambda>_ _ _. True) (returned rp o')"
    if c: "covers s1 ?s B" and rg: "ranged V \<sigma>" and e: "r \<sigma> o' \<sigma>'" for B \<sigma> o' \<sigma>'
  proof -
    from 2(4) [OF covers_first [OF 2(2) framed_jumped c] rg e] have l: "ranged V \<sigma>'" "placed_well s1 s2 o'"
      "arrives G B loc V (cg_next s1) \<sigma> \<sigma>' (b, 0) (place s1 s2 o') (\<lambda>_ _ _. True) (returned rp o')"
      by (simp_all add: leads_def 1(6))
    show ?thesis
    proof (cases "o' = Normal")
      case True
      then have r2: "ready loc V s2" using l(2) 2(3) by (auto elim: ends_cases)
      obtain p where p: "cg_at s2 = Some p" using ready_at [OF r2] by auto
      have t: "returned rp Normal = (\<lambda>_ _ _. True)" by (intro ext) simp
      have "arrives G B loc V (cg_next s1) \<sigma> \<sigma>' (b, 0) (e, 0) (\<lambda>_ _ _. True) (\<lambda>_ _ _. True)"
        by (rule arrives_drop [OF arrives_trans [OF l(3) [unfolded True place.simps t] arrives_jump [OF ready_open [OF r2] covers_second [OF 2(2) c]] order_refl]])
      then show ?thesis using l(1) comes_from_jumped [OF r2 p] by (auto simp: exit_of_def exit_well_def True t)
    next
      case False
      have "exit_of s e o' = place s1 s2 o'" using False place_ctx(1) [OF 1(5) False, of s2 s] by (simp add: exit_of_def)
      moreover have "exit_well s ?s e o'"
        using placed_well_grown [OF l(2) grown_framed [OF framed_jumped, of "{}"] False] False
        by (simp add: exit_well_def placed_well_ctx [OF 1(5)])
      ultimately show ?thesis using l by simp
    qed
  qed
  have "body_in G loc V rp r b e s s1 ?s" unfolding body_in_def
    using st 1(4,5) g framed_ctx [OF 2(2)] run by simp
  from that [OF 1(1) 2(1) this] 1(7) framed_next [OF 2(2)] show ?thesis by simp
qed

lemma stmt_block:
  assumes "sim_st G loc V rp L m r" and "settled loc V s" and "unplaced b s" and "fits_in_code loc V rp L s"
  obtains s1 s2 where "EmitBlock b False s = Inr ((), s1)" and "m s1 = Inr ((), s2)" and "body_in G loc V rp r b e s s1 (jumped e s2)"
  by (rule stmt_block_next [OF assms])

text \<open>The block behind a statement, if it is used.\<close>

lemma finish_block:
  assumes "settled loc V s" and "cg_at s = None" and "unplaced e s"
  obtains s' where "EmitBlock e True s = Inr ((), s')" and "ends loc V s'" and "grown {e} s s'" and "ctx s' = ctx s"
    and "\<And>p. comes_from s p e \<Longrightarrow> cg_at s' \<noteq> None \<and> pos s' = (e, 0)"
proof (cases "use_empty s e")
  case True
  have m: "EmitBlock e True s = Inr ((), s)" using True by (simp add: EmitBlock_def run jumped_none [OF assms(2)])
  show ?thesis
    by (rule that [OF m]) (use assms True comes_from_used in \<open>auto simp: ends_def\<close>)
next
  case False
  have m: "EmitBlock e True s = Inr ((), placed e s)"
    using False assms(3) by (simp add: EmitBlock_def run jumped_none [OF assms(2)] unplaced_def link_block_def SetInsertPoint_def placed_def)
  have r: "ready loc V (placed e s)"
    by (rule ready_placed [OF assms(1)]) (use assms(3) in \<open>simp_all add: unplaced_def getTerminator_def\<close>)
  show ?thesis
    by (rule that [OF m ready_ends [OF r] grown_placed]) (simp_all add: pos_placed [OF assms(3)])
qed

lemma arrives_some:
  assumes "arrives G B loc V k \<sigma> \<sigma>' l l' (\<lambda>_ _ _. True) C" and "ranged V \<sigma>" and "inj_on loc V"
  shows "\<exists>p \<rho> M. C p \<rho> M"
proof -
  have "represents loc V \<sigma> (\<lambda>v. \<sigma> (the_inv_into V loc v))"
    using assms(2,3) by (simp add: represents_def ranged_def the_inv_into_f_f)
  with assms(1) show ?thesis unfolding arrives_def by blast
qed

lemma leads_exit:
  assumes "arrives G B loc V (cg_next s) \<sigma> \<sigma>' (pos s) (exit_of s2 e o') (\<lambda>_ _ _. True) (returned rp o')" and "ranged V \<sigma>'"
    and "exit_well s2 s5 e o'" and "ctx s2 = ctx s" and "grown X s5 s'"
    and "\<And>p. comes_from s5 p e \<Longrightarrow> cg_at s' \<noteq> None \<and> pos s' = (e, 0)"
  shows "leads G B loc V rp s s' \<sigma> o' \<sigma>'"
proof (cases "o' = Normal")
  case True
  then obtain p where "comes_from s5 p e" using assms(3) by (auto simp: exit_well_def)
  from assms(6) [OF this] assms(1,2) True show ?thesis by (simp add: leads_def exit_of_def)
next
  case False
  have "place s2 s2 o' = place s s' o'" by (rule place_ctx(1) [OF assms(4) False])
  moreover have "placed_well s2 s' o'" using placed_well_grown [OF _ assms(5) False, of s2] assms(3) False by (simp add: exit_well_def)
  ultimately show ?thesis using assms(1,2) False by (simp add: leads_def exit_of_def placed_well_ctx [OF assms(4)])
qed

lemma exit_well_grown:
  assumes "exit_well s s1 e o'" and "grown X s1 s'"
  shows "exit_well s s' e o'"
proof (cases "o' = Normal")
  case True
  then obtain p where "comes_from s1 p e" using assms(1) by (auto simp: exit_well_def)
  from comes_from_grown [OF this assms(2)] show ?thesis using True by (auto simp: exit_well_def)
next
  case False
  with assms(1) placed_well_grown [OF _ assms(2) False, of s] show ?thesis by (simp add: exit_well_def)
qed

lemma unplaced_above: "unplaced b s \<Longrightarrow> grown {c} s s' \<Longrightarrow> b \<noteq> c \<Longrightarrow> unplaced b s'"
  by (rule unplaced_grown) auto

lemma grown_twice: "grown {b} s s1 \<Longrightarrow> grown {b} s1 s' \<Longrightarrow> grown {b} s s'"
  by (rule grown_trans) auto

subsection \<open>The statement \<open>if\<close>\<close>

inductive_cases exec_IfE: "exec (SIf c t e) \<sigma> o' \<sigma>'"

lemma sim_if:
  assumes "inj_on loc V" and "branch_ok G loc V P c" and "sim_st G loc V rp L (v_stmt P t) (exec t)"
  shows "sim_st G loc V rp L (if_branches P c t None) (exec (SIf c t None))"
proof (rule sim_stI)
  fix s assume s: "ready loc V s" "fits_in_code loc V rp L s"
  define b where "b = cg_next s"
  define e where "e = Suc (cg_next s)"
  define s1 where "s1 = created2 s"
  note s1 = created2_facts [OF s(1), folded b_def e_def s1_def]
  have be: "cg_next s \<le> b" "cg_next s \<le> e" "b \<noteq> e" by (simp_all add: b_def e_def)
  have nx: "cg_next s \<le> cg_next s1" using created2_facts(5) [OF s(1)] by (simp add: s1_def)
  from sim_brE [OF assms(2) [unfolded branch_ok_def] s1(1), of b e] obtain s2 where 1: "v_branch P c b e s1 = Inr ((), s2)" "framed s1 s2"
    "settled loc V s2" "closed s2" "\<And>B \<sigma> w \<sigma>' d. covers s1 s2 B \<Longrightarrow> ranged V \<sigma> \<Longrightarrow> ev c \<sigma> = Some (w, \<sigma>') \<Longrightarrow> d = (if w \<noteq> 0 then b else e) \<Longrightarrow>
       ranged V \<sigma>' \<and> arrives G B loc V (cg_next s1) \<sigma> \<sigma>' (pos s1) (d, 0) (\<lambda>_ _ _. True) (\<lambda>p \<rho> M. comes_from s2 p d)"
    by blast
  note f2 = framed_trans [OF s1(2) 1(2)]
  note u2 = unplaced_grown [OF _ grown_framed [OF 1(2), of "{}"], simplified]
  obtain s3 s4 where 3: "EmitBlock b False s2 = Inr ((), s3)" "v_stmt P t s3 = Inr ((), s4)" "body_in G loc V rp (exec t) b e s2 s3 (jumped e s4)"
    by (rule stmt_block [OF assms(3) 1(3) u2 [OF s1(3)] fits_ctx(1) [OF s(2) framed_ctx [OF f2]]])
  define s5 where "s5 = jumped e s4"
  note f3 = body_in_facts [OF 3(3) [folded s5_def]]
  have ue: "unplaced e s5" by (rule unplaced_above [OF u2 [OF s1(4)] grown_twice [OF f3(4,5)]]) (use be(3) in simp)
  obtain s' where 6: "EmitBlock e True s5 = Inr ((), s')" "ends loc V s'" "grown {e} s5 s'" "ctx s' = ctx s5"
    "\<And>p. comes_from s5 p e \<Longrightarrow> cg_at s' \<noteq> None \<and> pos s' = (e, 0)"
    by (rule finish_block [OF f3(1,2) ue]) (rule that; blast)
  have m: "if_branches P c t None s = Inr ((), s')"
    using 1(1) 3(1,2) 6(1) by (simp add: if_branches_def run s1_def created2_def b_def e_def s5_def)
  note h1 = grown_framed [OF s1(2), of "{cg_next s..}"] and h2 = grown_framed [OF 1(2), of "{cg_next s..}"]
    and h3 = above_block [OF f3(4) be(1)] and h4 = above_block [OF f3(5) be(1)] and h6 = above_block [OF 6(3) be(2)]
  note h25 = above_trans [OF h3 h4] note h2e = above_trans [OF h25 h6] note h03 = above_trans [OF above_trans [OF h1 h2] h3]
  have "framed s s'" unfolding framed_grown
    using above_base [OF above_trans [OF above_trans [OF h1 h2] h2e]] framed_ctx [OF f2] f3(3) 6(4) by simp
  moreover have "leads G B loc V rp s s' \<sigma> o' \<sigma>'" if cv: "covers s s' B" and rg: "ranged V \<sigma>" and ex: "exec (SIf c t None) \<sigma> o' \<sigma>'" for B \<sigma> o' \<sigma>'
  proof -
    note a1 = 1(5) [OF covers_above [OF cv h1 h2e] rg _ refl]
    from ex show ?thesis
    proof (rule exec_IfE)
      fix v \<sigma>1 assume c: "ev c \<sigma> = Some (v, \<sigma>1)" "v \<noteq> 0" "exec t \<sigma>1 o' \<sigma>'"
      from a1 [OF c(1)] c(2) have 7: "ranged V \<sigma>1" "arrives G B loc V (cg_next s1) \<sigma> \<sigma>1 (pos s) (b, 0) (\<lambda>_ _ _. True) (\<lambda>p \<rho> M. comes_from s2 p b)"
        by (simp_all add: s1(6))
      from f3(6) [OF covers_above [OF cv h03 h6] 7(1) c(3)] have 8: "ranged V \<sigma>'" "exit_well s2 s5 e o'"
        "arrives G B loc V (cg_next s3) \<sigma>1 \<sigma>' (b, 0) (exit_of s2 e o') (\<lambda>_ _ _. True) (returned rp o')" by auto
      note a = arrives_trans [OF arrives_drop [OF arrives_less [OF 7(2) nx]] 8(3) grown_next [OF h03]]
      show ?thesis by (rule leads_exit [OF a 8(1,2) framed_ctx [OF f2] 6(3,5)])
    next
      assume c: "o' = Normal" "ev c \<sigma> = Some (0, \<sigma>')"
      from a1 [OF c(2)] have 7: "ranged V \<sigma>'" "arrives G B loc V (cg_next s1) \<sigma> \<sigma>' (pos s) (e, 0) (\<lambda>_ _ _. True) (\<lambda>p \<rho> M. comes_from s2 p e)"
        by (simp_all add: s1(6))
      from arrives_some [OF 7(2) rg assms(1)] obtain p where "comes_from s2 p e" by blast
      then have ew: "exit_well s2 s5 e o'" using comes_from_grown [OF _ h25] c(1) by (auto simp: exit_well_def)
      have "returned rp Normal = (\<lambda>_ _ _. True)" by (intro ext) simp
      then have ar: "arrives G B loc V (cg_next s) \<sigma> \<sigma>' (pos s) (exit_of s2 e o') (\<lambda>_ _ _. True) (returned rp o')"
        using arrives_drop [OF arrives_less [OF 7(2) nx]] by (simp add: c(1) exit_of_def)
      show ?thesis by (rule leads_exit [OF ar 7(1) ew framed_ctx [OF f2] 6(3,5)])
    qed simp
  qed
  ultimately show "\<exists>s'. if_branches P c t None s = Inr ((), s') \<and> framed s s' \<and> ends loc V s' \<and>
      (\<forall>B \<sigma> o' \<sigma>'. covers s s' B \<longrightarrow> ranged V \<sigma> \<longrightarrow> exec (SIf c t None) \<sigma> o' \<sigma>' \<longrightarrow> leads G B loc V rp s s' \<sigma> o' \<sigma>')"
    using m 6(2) by blast
qed

lemma sim_if_else:
  assumes "branch_ok G loc V P c" and "sim_st G loc V rp L (v_stmt P t) (exec t)" and "sim_st G loc V rp L (v_stmt P u) (exec u)"
  shows "sim_st G loc V rp L (if_branches P c t (Some u)) (exec (SIf c t (Some u)))"
proof (rule sim_stI)
  fix s assume s: "ready loc V s" "fits_in_code loc V rp L s"
  define b where "b = cg_next s"
  define e where "e = Suc (cg_next s)"
  define d where "d = Suc (Suc (cg_next s))"
  define s1 where "s1 = created (created2 s)"
  note s1 = created3_facts [OF s(1), folded b_def e_def d_def s1_def]
  have be: "cg_next s \<le> b" "cg_next s \<le> e" "cg_next s \<le> d" "b \<noteq> e" "b \<noteq> d" "e \<noteq> d" by (simp_all add: b_def e_def d_def)
  have nx: "cg_next s \<le> cg_next s1" using created3_facts(6) [OF s(1)] by (simp add: s1_def)
  from sim_brE [OF assms(1) [unfolded branch_ok_def] s1(1), of b d] obtain s2 where 1: "v_branch P c b d s1 = Inr ((), s2)" "framed s1 s2"
    "settled loc V s2" "closed s2" "\<And>B \<sigma> w \<sigma>' f. covers s1 s2 B \<Longrightarrow> ranged V \<sigma> \<Longrightarrow> ev c \<sigma> = Some (w, \<sigma>') \<Longrightarrow> f = (if w \<noteq> 0 then b else d) \<Longrightarrow>
       ranged V \<sigma>' \<and> arrives G B loc V (cg_next s1) \<sigma> \<sigma>' (pos s1) (f, 0) (\<lambda>_ _ _. True) (\<lambda>p \<rho> M. comes_from s2 p f)"
    by blast
  note f2 = framed_trans [OF s1(2) 1(2)]
  note u2 = unplaced_grown [OF _ grown_framed [OF 1(2), of "{}"], simplified]
  note fit2 = fits_ctx(1) [OF s(2) framed_ctx [OF f2]]
  obtain s3 s4 where 3: "EmitBlock b False s2 = Inr ((), s3)" "v_stmt P t s3 = Inr ((), s4)" "body_in G loc V rp (exec t) b e s2 s3 (jumped e s4)"
    by (rule stmt_block [OF assms(2) 1(3) u2 [OF s1(3)] fit2])
  define s5 where "s5 = jumped e s4"
  note f3 = body_in_facts [OF 3(3) [folded s5_def]]
  note g25 = grown_twice [OF f3(4,5)]
  have ud: "unplaced d s5" by (rule unplaced_above [OF u2 [OF s1(5)] g25]) (use be(5) in simp)
  have ue: "unplaced e s5" by (rule unplaced_above [OF u2 [OF s1(4)] g25]) (use be(4) in simp)
  obtain s6 s7 where 6: "EmitBlock d False s5 = Inr ((), s6)" "v_stmt P u s6 = Inr ((), s7)" "body_in G loc V rp (exec u) d e s5 s6 (jumped e s7)"
    by (rule stmt_block [OF assms(3) f3(1) ud fits_ctx(1) [OF fit2 f3(3)]])
  define s8 where "s8 = jumped e s7"
  note f6 = body_in_facts [OF 6(3) [folded s8_def]]
  have ue8: "unplaced e s8" by (rule unplaced_above [OF ue grown_twice [OF f6(4,5)]]) (use be(6) in simp)
  obtain s' where 9: "EmitBlock e True s8 = Inr ((), s')" "ends loc V s'" "grown {e} s8 s'" "ctx s' = ctx s8"
    "\<And>p. comes_from s8 p e \<Longrightarrow> cg_at s' \<noteq> None \<and> pos s' = (e, 0)"
    by (rule finish_block [OF f6(1,2) ue8]) (rule that; blast)
  have m: "if_branches P c t (Some u) s = Inr ((), s')"
    using 1(1) 3(1,2) 6(1,2) 9(1) by (simp add: if_branches_def run s1_def created2_def b_def e_def d_def s5_def s8_def)
  note h1 = grown_framed [OF s1(2), of "{cg_next s..}"] and h2 = grown_framed [OF 1(2), of "{cg_next s..}"]
    and h3 = above_block [OF f3(4) be(1)] and h4 = above_block [OF f3(5) be(1)]
    and h6 = above_block [OF f6(4) be(3)] and h7 = above_block [OF f6(5) be(3)] and h9 = above_block [OF 9(3) be(2)]
  note h58 = above_trans [OF h6 h7] note h5e = above_trans [OF h58 h9] note h2e = above_trans [OF above_trans [OF h3 h4] h5e]
  note h03 = above_trans [OF above_trans [OF h1 h2] h3] note h06 = above_trans [OF above_trans [OF h03 h4] h6]
  note c25 = trans [OF f3(3) framed_ctx [OF f2]]
  have "framed s s'" unfolding framed_grown
    using above_base [OF above_trans [OF above_trans [OF h1 h2] h2e]] c25 f6(3) 9(4) by simp
  moreover have "leads G B loc V rp s s' \<sigma> o' \<sigma>'" if cv: "covers s s' B" and rg: "ranged V \<sigma>" and ex: "exec (SIf c t (Some u)) \<sigma> o' \<sigma>'" for B \<sigma> o' \<sigma>'
  proof -
    note a1 = 1(5) [OF covers_above [OF cv h1 h2e] rg _ refl]
    from ex show ?thesis
    proof (rule exec_IfE)
      fix v \<sigma>1 assume c: "ev c \<sigma> = Some (v, \<sigma>1)" "v \<noteq> 0" "exec t \<sigma>1 o' \<sigma>'"
      from a1 [OF c(1)] c(2) have 7: "ranged V \<sigma>1" "arrives G B loc V (cg_next s1) \<sigma> \<sigma>1 (pos s) (b, 0) (\<lambda>_ _ _. True) (\<lambda>p \<rho> M. comes_from s2 p b)"
        by (simp_all add: s1(7))
      from f3(6) [OF covers_above [OF cv h03 h5e] 7(1) c(3)] have 8: "ranged V \<sigma>'" "exit_well s2 s5 e o'"
        "arrives G B loc V (cg_next s3) \<sigma>1 \<sigma>' (b, 0) (exit_of s2 e o') (\<lambda>_ _ _. True) (returned rp o')" by auto
      note a = arrives_trans [OF arrives_drop [OF arrives_less [OF 7(2) nx]] 8(3) grown_next [OF h03]]
      show ?thesis by (rule leads_exit [OF a 8(1) exit_well_grown [OF 8(2) h58] framed_ctx [OF f2] 9(3,5)])
    next
      fix \<sigma>1 v assume c: "ev c \<sigma> = Some (0, \<sigma>1)" "Some u = Some v" "exec v \<sigma>1 o' \<sigma>'"
      from a1 [OF c(1)] have 7: "ranged V \<sigma>1" "arrives G B loc V (cg_next s1) \<sigma> \<sigma>1 (pos s) (d, 0) (\<lambda>_ _ _. True) (\<lambda>p \<rho> M. comes_from s2 p d)"
        by (simp_all add: s1(7))
      from c(2,3) f6(6) [OF covers_above [OF cv h06 h9] 7(1), of o' \<sigma>'] have 8: "ranged V \<sigma>'" "exit_well s5 s8 e o'"
        "arrives G B loc V (cg_next s6) \<sigma>1 \<sigma>' (d, 0) (exit_of s5 e o') (\<lambda>_ _ _. True) (returned rp o')" by auto
      note a = arrives_trans [OF arrives_drop [OF arrives_less [OF 7(2) nx]] 8(3) grown_next [OF h06]]
      show ?thesis by (rule leads_exit [OF a 8(1,2) c25 9(3,5)])
    qed simp
  qed
  ultimately show "\<exists>s'. if_branches P c t (Some u) s = Inr ((), s') \<and> framed s s' \<and> ends loc V s' \<and>
      (\<forall>B \<sigma> o' \<sigma>'. covers s s' B \<longrightarrow> ranged V \<sigma> \<longrightarrow> exec (SIf c t (Some u)) \<sigma> o' \<sigma>' \<longrightarrow> leads G B loc V rp s s' \<sigma> o' \<sigma>')"
    using m 9(2) by blast
qed

end
