(* ===== verification/Kcc_SimLoop.thy ===== *)
theory Kcc_SimLoop
  imports Kcc_SimControl
begin

text \<open>
  Loops. The runs of a loop follow the derivation of \<open>exec\<close>, over places that do not change; the
  generator is run once and gives the places.
\<close>

subsection \<open>Runs of loops\<close>

text \<open>Where the body of a loop leads: to the next turn, behind the loop, or out of the function.\<close>

fun turn :: "nat \<times> nat \<Rightarrow> nat \<times> nat \<Rightarrow> nat \<times> nat \<Rightarrow> outcome \<Rightarrow> nat \<times> nat" where
  "turn ln le lr Normal = ln"
| "turn ln le lr Continued = ln"
| "turn ln le lr Broke = le"
| "turn ln le lr (Returned v) = lr"

definition out :: "outcome \<Rightarrow> bool" where
  "out o' \<longleftrightarrow> o' = Normal \<or> (\<exists>v. o' = Returned v)"

lemma leaves_out: "leaves o1 = Some o' \<Longrightarrow> out o' \<and> turn ln le lr o1 = turn le le lr o' \<and> returned rp o1 = returned rp o'"
  by (cases o1) (auto simp: out_def fun_eq_iff)

lemma leaves_on: "leaves o1 = None \<Longrightarrow> turn ln le lr o1 = ln"
  by (cases o1) auto

lemma returned_normal: "returned rp Normal = (\<lambda>_ _ _. True)"
  by (intro ext) simp

abbreviation goes_on :: "'c genv \<Rightarrow> (nat \<Rightarrow> 'c block) \<Rightarrow> (nat \<Rightarrow> 'c val) \<Rightarrow> nat set \<Rightarrow> 'c val \<Rightarrow> nat \<Rightarrow> store \<Rightarrow> outcome \<Rightarrow> store \<Rightarrow> nat \<times> nat \<Rightarrow> nat \<times> nat \<Rightarrow> bool" where
  "goes_on G B loc V rp k \<sigma> o' \<sigma>' l l' \<equiv> ranged V \<sigma>' \<and> arrives G B loc V k \<sigma> \<sigma>' l l' (\<lambda>_ _ _. True) (returned rp o')"

lemma goes_on_trans:
  assumes "goes_on G B loc V rp k \<sigma> o1 \<sigma>1 l l1" and "goes_on G B loc V rp k \<sigma>1 o' \<sigma>' l1 l'"
  shows "goes_on G B loc V rp k \<sigma> o' \<sigma>' l l'"
  using assms arrives_trans [OF arrives_drop _ order_refl] by blast

lemma while_runs:
  assumes "exec (SWhile c t) \<sigma> o' \<sigma>'" and "ranged V \<sigma>"
    and test: "\<And>\<sigma> w \<sigma>1. ranged V \<sigma> \<Longrightarrow> ev c \<sigma> = Some (w, \<sigma>1) \<Longrightarrow> goes_on G B loc V rp k \<sigma> Normal \<sigma>1 lc (if w \<noteq> 0 then lb else le)"
    and body: "\<And>\<sigma> o' \<sigma>'. ranged V \<sigma> \<Longrightarrow> exec t \<sigma> o' \<sigma>' \<Longrightarrow> goes_on G B loc V rp k \<sigma> o' \<sigma>' lb (turn lc le lr o')"
  shows "out o' \<and> goes_on G B loc V rp k \<sigma> o' \<sigma>' lc (turn le le lr o')"
  using assms(1,2)
proof (induction "SWhile c t" \<sigma> o' \<sigma>' rule: exec_execs.inducts(1) [where ?P2.0 = "\<lambda>_ _ _ _. True", consumes 1])
  case (WhileFalse \<sigma> \<sigma>1)
  from test [OF WhileFalse(2,1)] show ?case by (simp add: out_def)
next
  case (WhileLeave \<sigma> v \<sigma>1 o1 \<sigma>' o')
  note l = leaves_out [OF WhileLeave(5), of lc le lr rp]
  from test [OF WhileLeave(6,1)] WhileLeave(2) have a: "goes_on G B loc V rp k \<sigma> Normal \<sigma>1 lc lb" by simp
  from goes_on_trans [OF a body [OF conjunct1 [OF a] WhileLeave(3)]] l show ?case by simp
next
  case (WhileTurn \<sigma> v \<sigma>1 o1 \<sigma>2 o' \<sigma>')
  note l = leaves_on [OF WhileTurn(5), of lc le lr]
  from test [OF WhileTurn(8,1)] WhileTurn(2) have a: "goes_on G B loc V rp k \<sigma> Normal \<sigma>1 lc lb" by simp
  note b = goes_on_trans [OF a body [OF conjunct1 [OF a] WhileTurn(3)]]
  from WhileTurn(7) [OF conjunct1 [OF b]] goes_on_trans [OF b [unfolded l]] show ?case by blast
qed simp_all

lemma do_runs:
  assumes "exec (SDoWhile c t) \<sigma> o' \<sigma>'" and "ranged V \<sigma>"
    and test: "\<And>\<sigma> w \<sigma>1. ranged V \<sigma> \<Longrightarrow> ev c \<sigma> = Some (w, \<sigma>1) \<Longrightarrow> goes_on G B loc V rp k \<sigma> Normal \<sigma>1 lc (if w \<noteq> 0 then lb else le)"
    and body: "\<And>\<sigma> o' \<sigma>'. ranged V \<sigma> \<Longrightarrow> exec t \<sigma> o' \<sigma>' \<Longrightarrow> goes_on G B loc V rp k \<sigma> o' \<sigma>' lb (turn lc le lr o')"
  shows "out o' \<and> goes_on G B loc V rp k \<sigma> o' \<sigma>' lb (turn le le lr o')"
  using assms(1,2)
proof (induction "SDoWhile c t" \<sigma> o' \<sigma>' rule: exec_execs.inducts(1) [where ?P2.0 = "\<lambda>_ _ _ _. True", consumes 1])
  case (DoLeave \<sigma> o1 \<sigma>' o')
  from body [OF DoLeave(4,1)] leaves_out [OF DoLeave(3), of lc le lr rp] show ?case by simp
next
  case (DoFalse \<sigma> o1 \<sigma>1 \<sigma>')
  note b = body [OF DoFalse(5,1)]
  from goes_on_trans [OF b [unfolded leaves_on [OF DoFalse(3)]] test [OF conjunct1 [OF b] DoFalse(4)]] show ?case by (simp add: out_def)
next
  case (DoTurn \<sigma> o1 \<sigma>1 v \<sigma>2 o' \<sigma>')
  note b = body [OF DoTurn(8,1)]
  from goes_on_trans [OF b [unfolded leaves_on [OF DoTurn(3)]] test [OF conjunct1 [OF b] DoTurn(4)]] DoTurn(5)
  have a: "goes_on G B loc V rp k \<sigma> Normal \<sigma>2 lb lb" by simp
  from DoTurn(7) [OF conjunct1 [OF a]] goes_on_trans [OF a] show ?case by blast
qed simp_all

text \<open>\<open>Q\<close>: what is known when the loop is left behind.\<close>

lemma for_runs:
  assumes "exec (SFor None c inc t None) \<sigma> o' \<sigma>'" and "ranged V \<sigma>"
    and test: "\<And>\<sigma> \<sigma>1. ranged V \<sigma> \<Longrightarrow> for_test c \<sigma> \<sigma>1 \<Longrightarrow> goes_on G B loc V rp k \<sigma> Normal \<sigma>1 lc lb"
    and fails: "\<And>e \<sigma> \<sigma>1. c = Some e \<Longrightarrow> ranged V \<sigma> \<Longrightarrow> ev e \<sigma> = Some (0, \<sigma>1) \<Longrightarrow> Q \<and> goes_on G B loc V rp k \<sigma> Normal \<sigma>1 lc le"
    and body: "\<And>\<sigma> o' \<sigma>'. ranged V \<sigma> \<Longrightarrow> exec t \<sigma> o' \<sigma>' \<Longrightarrow> (o' = Broke \<longrightarrow> Q) \<and> goes_on G B loc V rp k \<sigma> o' \<sigma>' lb (turn ln le lr o')"
    and step: "\<And>\<sigma> \<sigma>1. ranged V \<sigma> \<Longrightarrow> for_step inc \<sigma> \<sigma>1 \<Longrightarrow> goes_on G B loc V rp k \<sigma> Normal \<sigma>1 ln lc"
  shows "out o' \<and> (o' = Normal \<longrightarrow> Q) \<and> goes_on G B loc V rp k \<sigma> o' \<sigma>' lc (turn le le lr o')"
  using assms(1,2)
proof (induction "SFor None c inc t None" \<sigma> o' \<sigma>' rule: exec_execs.inducts(1) [where ?P2.0 = "\<lambda>_ _ _ _. True", consumes 1])
  case (ForFalse e \<sigma> \<sigma>1)
  from fails [OF ForFalse(2) [symmetric] ForFalse(3,1)] show ?case by (simp add: out_def)
next
  case (ForLeave \<sigma> \<sigma>1 o1 \<sigma>' o')
  note a = test [OF ForLeave(5,1)]
  note b = body [OF conjunct1 [OF a] ForLeave(2)]
  have "o' = Normal \<Longrightarrow> Q" using b ForLeave(4) by (cases o1) auto
  then show ?case using goes_on_trans [OF a conjunct2 [OF b]] leaves_out [OF ForLeave(4), of ln le lr rp] by simp
next
  case (ForTurn \<sigma> \<sigma>1 o1 \<sigma>2 \<sigma>3 o' \<sigma>')
  note a = test [OF ForTurn(8,1)]
  note b = goes_on_trans [OF a conjunct2 [OF body [OF conjunct1 [OF a] ForTurn(2)]]]
  note d = goes_on_trans [OF b [unfolded leaves_on [OF ForTurn(4)]] step [OF conjunct1 [OF b] ForTurn(5)]]
  from ForTurn(7) [OF conjunct1 [OF d]] goes_on_trans [OF d] show ?case by blast
qed simp_all

subsection \<open>The targets of \<open>break\<close> and \<open>continue\<close>\<close>

definition pushed :: "nat \<Rightarrow> nat \<Rightarrow> 'c cg \<Rightarrow> 'c cg" where
  "pushed e c s = s\<lparr>break_continue_stack := (e, Some c) # break_continue_stack s\<rparr>"

definition popped :: "'c cg \<Rightarrow> 'c cg" where
  "popped s = s\<lparr>break_continue_stack := tl (break_continue_stack s)\<rparr>"

lemma push_run [run]: "PushBlock e (Some c) s = Inr ((), pushed e c s)"
  by (simp add: PushBlock_def pushed_def run)

lemma pop_run [run]: "PopBlock s = Inr ((), popped s)"
  by (simp add: PopBlock_def popped_def run)

lemma stack_fields [simp]:
  "cg_next (pushed e c s) = cg_next s" "cg_at (pushed e c s) = cg_at s" "cg_block (pushed e c s) = cg_block s" "cg_order (pushed e c s) = cg_order s"
  "pos (pushed e c s) = pos s" "settled loc V (pushed e c s) = settled loc V s" "ready loc V (pushed e c s) = ready loc V s"
  "break_continue_stack (pushed e c s) = (e, Some c) # break_continue_stack s"
  "cg_next (popped s) = cg_next s" "cg_at (popped s) = cg_at s" "cg_block (popped s) = cg_block s" "cg_order (popped s) = cg_order s"
  "settled loc V (popped s) = settled loc V s" "unplaced b (pushed e c s) = unplaced b s" "unplaced b (popped s) = unplaced b s"
  "comes_from (popped s) p b = comes_from s p b"
  by (simp_all add: pushed_def popped_def pos_def settled_def ready_def numbered_def is_open_def getTerminator_def unplaced_def comes_from_def)

lemma grown_stack [simp]: "grown X s (popped s')  = grown X s s'" "grown X s (pushed e c s') = grown X s s'" "grown X (pushed e c s) s' = grown X s s'"
  "grown X (popped s) s' = grown X s s'"
  by (simp_all add: grown_def new_code_def)

lemma covers_stack [simp]: "covers (pushed e c s) s' B = covers s s' B"
  by (simp add: covers_def)

lemma popped_jumped: "jumped c (popped s) = popped (jumped c s)"
  by (auto simp: jumped_def popped_def add_instr_def is_open_def getTerminator_def)

lemma ctx_popped:
  assumes "ctx s' = ctx (pushed e c s)"
  shows "ctx (popped s') = ctx s"
  using assms by (auto simp: ctx_def popped_def pushed_def)

lemma fits_pushed: "fits_in_code loc V rp L s \<Longrightarrow> fits_in_code loc V rp True (pushed e c s)"
  by (auto simp: fits_in_code_def pushed_def)

lemma exit_turn:
  assumes "break_continue_stack s = (e, Some c) # rest"
  shows "exit_of s n o' = turn (n, 0) (e, 0) (the (return_block s), 0) o' \<or> o' = Continued" "exit_of s c o' = turn (c, 0) (e, 0) (the (return_block s), 0) o'"
  using assms by (cases o'; simp add: exit_of_def)+

text \<open>The place behind a loop.\<close>

lemma leads_loop:
  assumes "out o'" and "goes_on G B loc V rp (cg_next s) \<sigma> o' \<sigma>' (pos s) (turn (e, 0) (e, 0) (the (return_block s), 0) o')"
    and "o' = Normal \<Longrightarrow> cg_at s' \<noteq> None \<and> pos s' = (e, 0)"
  shows "leads G B loc V rp s s' \<sigma> o' \<sigma>'"
  using assms by (auto simp: leads_def out_def)

text \<open>A new block that the open block goes on to.\<close>

lemma enter_block:
  assumes "ready loc V s"
  obtains s' where "EmitBlock (cg_next s) False (created s) = Inr ((), s')" and "ready loc V s'" and "grown {cg_next s..} s s'" and "ctx s' = ctx s"
    and "pos s' = (cg_next s, 0)"
    and "\<And>B G k \<sigma> X s1. covers s s1 B \<Longrightarrow> grown X s' s1 \<Longrightarrow> arrives G B loc V k \<sigma> \<sigma> (pos s) (cg_next s, 0) (\<lambda>_ _ _. True) (\<lambda>_ _ _. True)"
proof -
  let ?s = "created s"
  note u = unplaced_created [OF closed_facts(2) [OF assms]]
  have r: "ready loc V ?s" using assms by simp
  from begin_block [OF closed_facts(1) [OF r] u] obtain s' where 1: "EmitBlock (cg_next s) False ?s = Inr ((), s')" "s' = placed (cg_next s) (jumped (cg_next s) ?s)"
    "ready loc V s'" "grown {cg_next s} ?s s'" "ctx s' = ctx ?s" "pos s' = (cg_next s, 0)" by blast
  have g: "grown {cg_next s..} s s'" by (rule above_trans [OF grown_framed [OF framed_created] above_block [OF 1(4)]]) simp
  have go: "arrives G B loc V k \<sigma> \<sigma> (pos s) (cg_next s, 0) (\<lambda>_ _ _. True) (\<lambda>_ _ _. True)"
    if c: "covers s s1 B" and g1: "grown X s' s1" for B G k \<sigma> X s1
  proof -
    have "covers ?s (jumped (cg_next s) ?s) B"
    proof (rule covers_part [OF c])
      show "prefix (cg_block (jumped (cg_next s) ?s) b) (cg_block s1 b)" for b
        using grown_prefix [OF g1, of b] by (simp add: 1(2))
    qed simp_all
    from arrives_drop [OF arrives_jump [OF ready_open [OF r] this, of G loc V k \<sigma> "\<lambda>_ _. True"]] show ?thesis by simp
  qed
  show ?thesis by (rule that [OF 1(1,3) g _ 1(6) go]) (use 1(5) in simp_all)
qed

subsection \<open>The loop \<open>while\<close>\<close>

lemma not_const_int: "\<not> is_const v \<Longrightarrow> \<not> is_const_int G q v"
  by (auto simp: is_const_int_def is_const_def split: val.splits)

text \<open>A test in a block of its own, with a branch on its value.\<close>

definition test_in :: "'c genv \<Rightarrow> (nat \<Rightarrow> 'c val) \<Rightarrow> nat set \<Rightarrow> expr \<Rightarrow> nat \<Rightarrow> nat \<Rightarrow> nat \<Rightarrow> 'c cg \<Rightarrow> 'c cg \<Rightarrow> bool" where
  "test_in G loc V c l t u s s' \<longleftrightarrow> framed s s' \<and> settled loc V s' \<and> closed s' \<and> (\<exists>p. comes_from s' p t) \<and> (\<exists>p. comes_from s' p u) \<and>
     (\<forall>B \<sigma> w \<sigma>1. covers s s' B \<longrightarrow> ranged V \<sigma> \<longrightarrow> ev c \<sigma> = Some (w, \<sigma>1) \<longrightarrow> ranged V \<sigma>1 \<and>
        arrives G B loc V (cg_next s) \<sigma> \<sigma>1 (l, 0) (if w \<noteq> 0 then t else u, 0) (\<lambda>_ _ _. True) (\<lambda>_ _ _. True))"

lemma test_in_facts:
  assumes "test_in G loc V c l t u s s'"
  shows "framed s s'" "settled loc V s'" "closed s'" "\<exists>p. comes_from s' p t" "\<exists>p. comes_from s' p u"
    "covers s s' B \<Longrightarrow> ranged V \<sigma> \<Longrightarrow> ev c \<sigma> = Some (w, \<sigma>1) \<Longrightarrow> ranged V \<sigma>1 \<and>
        arrives G B loc V (cg_next s) \<sigma> \<sigma>1 (l, 0) (if w \<noteq> 0 then t else u, 0) (\<lambda>_ _ _. True) (\<lambda>_ _ _. True)"
  using assms unfolding test_in_def by blast+

lemma test_block:
  assumes "llvm_ok G" and "value_ok G loc V P c" and "varies c" and "ready loc V s" and "pos s = (l, 0)"
  obtains v s1 s2 where "EvaluateExprAsBool G P c s = Inr (v, s1)" and "\<not> is_const v" and "put_instr (I_CondBr v t u) s1 = Inr ((), s2)"
    and "test_in G loc V c l t u s s2"
proof -
  from simE [OF sim_as_bool [OF assms(1) assms(2) [unfolded value_ok_def]] assms(4)] obtain v s1 where
    1: "EvaluateExprAsBool G P c s = Inr (v, s1)" "gives G loc V T_bool (varies c) s v s1"
    "\<And>\<sigma> w \<sigma>'. ranged V \<sigma> \<Longrightarrow> map_option (\<lambda>(x, \<sigma>'). (- truth x, \<sigma>')) (ev c \<sigma>) = Some (w, \<sigma>') \<Longrightarrow> fits_type T_bool w \<and> ranged V \<sigma>' \<and>
       flows G loc V s s1 \<sigma> \<sigma>' (\<lambda>_. True) (\<lambda>\<rho>. den G \<rho> v = Some w)"
    by metis
  note g = gives_facts [OF 1(2)]
  note o1 = ready_open [OF g(2)]
  let ?s = "add_instr (I_CondBr v t u) s1"
  obtain b where b: "cg_at s1 = Some b" using ready_at [OF g(2)] by auto
  have fr: "framed s1 ?s" using o1 by simp
  have "ranged V \<sigma>1 \<and> arrives G B loc V (cg_next s) \<sigma> \<sigma>1 (l, 0) (if w \<noteq> 0 then t else u, 0) (\<lambda>_ _ _. True) (\<lambda>_ _ _. True)"
    if cv: "covers s ?s B" and rg: "ranged V \<sigma>" and e: "ev c \<sigma> = Some (w, \<sigma>1)" for B \<sigma> w \<sigma>1
  proof -
    from 1(3) [OF rg] e have 2: "ranged V \<sigma>1" "flows G loc V s s1 \<sigma> \<sigma>1 (\<lambda>_. True) (\<lambda>\<rho>. den G \<rho> v = Some (- truth w))" by auto
    have a: "arrives G B loc V (cg_next s) \<sigma> \<sigma>1 (l, 0) (pos s1) (\<lambda>_ _ _. True) (\<lambda>p \<rho> M. den G \<rho> v = Some (- truth w) \<and> True)"
      unfolding assms(5) [symmetric] by (rule arrives_mono [OF flows_arrives [OF 2(2) covers_first [OF g(1) fr cv]]]) auto
    have d: "(- truth w \<noteq> 0) = (w \<noteq> 0)" by (simp add: truth_def)
    have "arrives G B loc V (cg_next s) \<sigma>1 \<sigma>1 (pos s1) (if - truth w \<noteq> 0 then t else u, 0)
        (\<lambda>p \<rho> M. den G \<rho> v = Some (- truth w) \<and> True) (reached (cg_at s1) (\<lambda>_ _. True))"
      by (rule arrives_cond [OF o1 covers_second [OF g(1) cv]])
    from arrives_drop [OF arrives_trans [OF a this order_refl]] 2(1) show ?thesis unfolding d by blast
  qed
  moreover have "comes_from ?s b t" "comes_from ?s b u"
    by (rule comes_from_add [OF o1 closed_facts(2) [OF g(2)] _ b]; simp)+
  ultimately have "test_in G loc V c l t u s ?s" unfolding test_in_def
    using framed_trans [OF g(1) fr] settled_add [OF closed_facts(1) [OF g(2)] o1] closed_add [OF o1, of "I_CondBr v t u"] by auto
  from that [OF 1(1) g(5) [OF assms(3)] put_open [OF o1] this] show ?thesis .
qed

lemma sim_while:
  assumes "llvm_ok G" and "value_ok G loc V P c" and "varies c" and "sim_st G loc V rp True (v_stmt P t) (exec t)"
  shows "sim_st G loc V rp L (Visit_WhileStmt G P c t) (exec (SWhile c t))"
proof (rule sim_stI)
  fix s assume s: "ready loc V s" "fits_in_code loc V rp L s"
  define l where "l = cg_next s"
  from enter_block [OF s(1), folded l_def] obtain s2 where 2: "EmitBlock l False (created s) = Inr ((), s2)" "ready loc V s2" "grown {l..} s s2"
    "ctx s2 = ctx s" "pos s2 = (l, 0)"
    "\<And>B G k \<sigma> X s1. covers s s1 B \<Longrightarrow> grown X s2 s1 \<Longrightarrow> arrives G B loc V k \<sigma> \<sigma> (pos s) (l, 0) (\<lambda>_ _ _. True) (\<lambda>_ _ _. True)" by blast
  define b where "b = cg_next s2"
  define e where "e = Suc (cg_next s2)"
  define s4 where "s4 = pushed e l (created2 s2)"
  note c2 = created2_facts [OF 2(2), folded b_def e_def]
  have le: "l \<le> b" "l \<le> e" "b \<noteq> e" using grown_next [OF 2(3)] by (simp_all add: b_def e_def l_def)
  have r4: "ready loc V s4" "pos s4 = (l, 0)" "unplaced b s4" "unplaced e s4" using c2 2(5) by (simp_all add: s4_def)
  obtain v s5 s6 where 5: "EvaluateExprAsBool G P c s4 = Inr (v, s5)" "\<not> is_const v"
    "put_instr (I_CondBr v b e) s5 = Inr ((), s6)" "test_in G loc V c l b e s4 s6"
    by (rule test_block [OF assms(1-3) r4(1,2)])
  note t6 = test_in_facts [OF 5(4)]
  have x6: "ctx s6 = ctx (pushed e l (created2 s2))" using framed_ctx [OF t6(1)] by (simp add: s4_def)
  have fit6: "fits_in_code loc V rp True s6"
    by (rule fits_ctx(1) [OF fits_pushed [OF fits_ctx(1) [OF s(2)]] x6]) (use framed_ctx [OF c2(2)] 2(4) in simp)
  note u6 = unplaced_grown [OF _ grown_framed [OF t6(1), of "{}"], simplified]
  obtain s7 s8 where 7: "EmitBlock b False s6 = Inr ((), s7)" "v_stmt P t s7 = Inr ((), s8)" "body_in G loc V rp (exec t) b l s6 s7 (jumped l s8)"
    by (rule stmt_block [OF assms(4) t6(2) u6 [OF r4(3)] fit6])
  define s9 where "s9 = jumped l s8"
  note f7 = body_in_facts [OF 7(3) [folded s9_def]]
  have ue: "unplaced e (popped s9)" using unplaced_above [OF u6 [OF r4(4)] grown_twice [OF f7(4,5)]] le(3) by simp
  obtain s' where 9: "EmitBlock e True (popped s9) = Inr ((), s')" "ends loc V s'" "grown {e} (popped s9) s'" "ctx s' = ctx (popped s9)"
    "\<And>p. comes_from (popped s9) p e \<Longrightarrow> cg_at s' \<noteq> None \<and> pos s' = (e, 0)"
    by (rule finish_block [of loc V "popped s9" e]) (use f7(1,2) ue in simp_all)
  have m: "Visit_WhileStmt G P c t s = Inr ((), s')"
    using 2(1) 5(1,3) 7(1,2) 9(1) not_const_int [OF 5(2)]
    by (simp add: Visit_WhileStmt_def run Let_def l_def b_def e_def s4_def created2_def s9_def popped_jumped)
  note h4 = above_trans [OF 2(3) grown_framed [OF c2(2)]]
  have h04: "grown {l..} s s4" using h4 by (simp add: s4_def)
  note h6 = grown_framed [OF t6(1), of "{l..}"] and h7 = above_block [OF f7(4) le(1)] and h9 = above_block [OF f7(5) le(1)]
  have h9e: "grown {l..} s9 s'" using above_block [OF 9(3) le(2)] by simp
  note h06 = above_trans [OF h04 h6] note h69 = above_trans [OF h7 h9] note h6e = above_trans [OF h69 h9e]
  have ctx': "ctx s' = ctx s" using 9(4) ctx_popped [OF trans [OF f7(3) x6]] framed_ctx [OF c2(2)] 2(4) by simp
  note h0e = above_trans [OF h06 h6e]
  have "framed s s'" unfolding framed_grown using above_base [OF h0e [unfolded l_def]] ctx' by simp
  moreover have "leads G B loc V rp s s' \<sigma> o' \<sigma>'" if cv: "covers s s' B" and rg: "ranged V \<sigma>" and ex: "exec (SWhile c t) \<sigma> o' \<sigma>'" for B \<sigma> o' \<sigma>'
  proof -
    let ?k = "cg_next s"
    have rb: "return_block s6 = return_block s" using x6 framed_ctx [OF c2(2)] 2(4) by (simp add: ctx_def pushed_def)
    have st: "break_continue_stack s6 = (e, Some l) # break_continue_stack s" using x6 framed_ctx [OF c2(2)] 2(4) by (simp add: ctx_def pushed_def)
    note cov = covers_above [OF cv, folded l_def]
    have test: "goes_on G B loc V rp ?k \<sigma> Normal \<sigma>1 (l, 0) (if w \<noteq> 0 then (b, 0) else (e, 0))" if "ranged V \<sigma>" "ev c \<sigma> = Some (w, \<sigma>1)" for \<sigma> w \<sigma>1
    proof -
      from t6(6) [OF cov [OF h04 h6e] that] have a: "ranged V \<sigma>1"
        "arrives G B loc V (cg_next s4) \<sigma> \<sigma>1 (l, 0) (if w \<noteq> 0 then b else e, 0) (\<lambda>_ _ _. True) (\<lambda>_ _ _. True)" by auto
      show ?thesis using a(1) arrives_less [OF a(2) grown_next [OF h04]] unfolding returned_normal by (cases "w = 0") simp_all
    qed
    have body: "goes_on G B loc V rp ?k \<sigma> o' \<sigma>' (b, 0) (turn (l, 0) (e, 0) (the (return_block s), 0) o')" if "ranged V \<sigma>" "exec t \<sigma> o' \<sigma>'" for \<sigma> o' \<sigma>'
    proof -
      note h07 = above_trans [OF h06 h7]
      from f7(6) [OF cov [OF h07 h9e] that] have a: "ranged V \<sigma>'"
        "arrives G B loc V (cg_next s7) \<sigma> \<sigma>' (b, 0) (exit_of s6 l o') (\<lambda>_ _ _. True) (returned rp o')" by auto
      show ?thesis using a(1) arrives_less [OF a(2) grown_next [OF h07]] by (simp add: exit_turn(2) [OF st] rb)
    qed
    from while_runs [OF ex rg test body] have w: "out o'" "goes_on G B loc V rp ?k \<sigma> o' \<sigma>' (l, 0) (turn (e, 0) (e, 0) (the (return_block s), 0) o')" by blast+
    have "arrives G B loc V ?k \<sigma> \<sigma> (pos s) (l, 0) (\<lambda>_ _ _. True) (\<lambda>_ _ _. True)"
      by (rule 2(6) [OF cv above_trans [OF above_trans [OF grown_framed [OF c2(2)] h6 [unfolded s4_def grown_stack]] h6e]])
    note go = arrives_trans [OF this conjunct2 [OF w(2)] order_refl]
    obtain p where "comes_from s6 p e" using t6(5) by blast
    then have "cg_at s' \<noteq> None \<and> pos s' = (e, 0)" using 9(5) [of p] comes_from_grown [OF _ h69] by simp
    then show ?thesis by (intro leads_loop [OF w(1)]) (use w(2) go in auto)
  qed
  ultimately show "\<exists>s'. Visit_WhileStmt G P c t s = Inr ((), s') \<and> framed s s' \<and> ends loc V s' \<and>
      (\<forall>B \<sigma> o' \<sigma>'. covers s s' B \<longrightarrow> ranged V \<sigma> \<longrightarrow> exec (SWhile c t) \<sigma> o' \<sigma>' \<longrightarrow> leads G B loc V rp s s' \<sigma> o' \<sigma>')"
    using m 9(2) by blast
qed

subsection \<open>The loop \<open>do\<close>\<close>

lemma jump_in:
  assumes "covers s s2 B" and "grown {cg_next s..} s s1" and "ready loc V s1" and "grown X (placed b (jumped b s1)) s2"
  shows "arrives G B loc V k \<sigma> \<sigma> (pos s1) (b, 0) (\<lambda>_ _ _. True) (\<lambda>_ _ _. True)"
proof -
  have "covers s1 (jumped b s1) B"
  proof (rule covers_part [OF assms(1) grown_next [OF assms(2)]])
    show "cg_at s = Some c \<or> cg_next s \<le> c" if "cg_at s1 = Some c" for c using grown_at [OF assms(2) that] by auto
    show "prefix (cg_block (jumped b s1) c) (cg_block s2 c)" for c using grown_prefix [OF assms(4), of c] by simp
  qed
  from arrives_drop [OF arrives_jump [OF ready_open [OF assms(3)] this, of G loc V k \<sigma> "\<lambda>_ _. True"]] show ?thesis .
qed

lemma block_pushed:
  assumes "unplaced b s" and "EmitBlock b False (pushed e c s) = Inr ((), s')"
  shows "EmitBlock b False s = Inr ((), placed b (jumped b s))" "pushed e c (placed b (jumped b s)) = s'"
proof -
  have u: "b < cg_next s" "b \<notin> set (cg_order s)" using assms(1) by (simp_all add: unplaced_def)
  show "EmitBlock b False s = Inr ((), placed b (jumped b s))" by (rule block_run [OF u])
  have "EmitBlock b False (pushed e c s) = Inr ((), placed b (jumped b (pushed e c s)))" by (rule block_run) (use u in simp_all)
  with assms(2) have "s' = placed b (jumped b (pushed e c s))" by simp
  then show "pushed e c (placed b (jumped b s)) = s'"
    by (auto simp: placed_def jumped_def pushed_def add_instr_def is_open_def getTerminator_def)
qed

lemma sim_do:
  assumes "llvm_ok G" and "value_ok G loc V P c" and "varies c" and "sim_st G loc V rp True (v_stmt P t) (exec t)"
  shows "sim_st G loc V rp L (Visit_DoWhileStmt G P c t) (exec (SDoWhile c t))"
proof (rule sim_stI)
  fix s assume s: "ready loc V s" "fits_in_code loc V rp L s"
  define b where "b = cg_next s"
  define l where "l = Suc (cg_next s)"
  define e where "e = Suc (Suc (cg_next s))"
  define s1 where "s1 = created (created2 s)"
  note s1 = created3_facts [OF s(1), folded b_def l_def e_def s1_def]
  have be: "cg_next s \<le> b" "cg_next s \<le> l" "cg_next s \<le> e" "b \<noteq> l" "b \<noteq> e" "l \<noteq> e" by (simp_all add: b_def e_def l_def)
  define s2 where "s2 = pushed e l s1"
  have s2: "ready loc V s2" "unplaced b s2" "unplaced l s2" "unplaced e s2" using s1 by (simp_all add: s2_def)
  have fit2: "fits_in_code loc V rp True s2"
    unfolding s2_def by (rule fits_pushed [OF fits_ctx(1) [OF s(2) framed_ctx [OF s1(2)]]])
  obtain s3 s4 where 3: "EmitBlock b False s2 = Inr ((), s3)" "v_stmt P t s3 = Inr ((), s4)" "body_in G loc V rp (exec t) b l s2 s3 (jumped l s4)"
      "cg_next s2 \<le> cg_next s4"
    by (rule stmt_block_next [OF assms(4) closed_facts(1) [OF s2(1)] s2(2) fit2])
  note p3 = block_pushed [OF s1(3) 3(1) [unfolded s2_def]]
  define s5 where "s5 = popped (jumped l s4)"
  note f3 = body_in_facts [OF 3(3)]
  have s5: "settled loc V s5" "cg_at s5 = None" "grown {b} s3 s5" using f3(1,2,5) by (simp_all add: s5_def)
  note g25 = grown_twice [OF f3(4) s5(3)]
  have ul: "unplaced l s5" by (rule unplaced_above [OF s2(3) g25]) (use be(4) in simp)
  have ue: "unplaced e s5" by (rule unplaced_above [OF s2(4) g25]) (use be(5) in simp)
  from begin_block [OF s5(1) ul] obtain s6 where 6: "s6 = placed l (jumped l s5)" "ready loc V s6" "grown {l} s5 s6" "ctx s6 = ctx s5" "pos s6 = (l, 0)" by blast
  have m6: "EmitBlock l False (popped s4) = Inr ((), s6)"
  proof -
    have "cg_next s4 = cg_next (popped s4)" "cg_order s5 = cg_order (popped s4)" by (simp_all add: s5_def)
    moreover have "l < cg_next (popped s4)"
      using unplaced_less [OF s2(3)] 3(4) by simp
    ultimately have "EmitBlock l False (popped s4) = Inr ((), placed l (jumped l (popped s4)))"
      using ul by (intro block_run) (simp_all add: unplaced_def)
    then show ?thesis using s5(2) by (simp add: 6(1) s5_def popped_jumped jumped_none)
  qed
  obtain v s7 s8 where 7: "EvaluateExprAsBool G P c s6 = Inr (v, s7)" "\<not> is_const v"
    "put_instr (I_CondBr v b e) s7 = Inr ((), s8)" "test_in G loc V c l b e s6 s8"
    by (rule test_block [OF assms(1-3) 6(2,5)])
  note t7 = test_in_facts [OF 7(4)]
  have ue6: "unplaced e s6" by (rule unplaced_above [OF ue 6(3)]) (use be(6) in simp)
  from after_branch [OF ue6 grown_framed [OF t7(1), of "{}"] t7(2)] obtain s' where
    9: "EmitBlock e False s8 = Inr ((), s')" "ready loc V s'" "grown {e} s8 s'" "ctx s' = ctx s8" "pos s' = (e, 0)" by blast
  have m: "Visit_DoWhileStmt G P c t s = Inr ((), s')"
    using p3 3(2) m6 7(1,3) 9(1) not_const_int [OF 7(2)]
    by (simp add: Visit_DoWhileStmt_def run Let_def b_def l_def e_def s1_def created2_def)
  note h2 = grown_framed [OF s1(2), of "{cg_next s..}"] note h2' = h2 [folded grown_stack(2) [of _ s e l s1], folded s2_def]
  note h3 = above_block [OF f3(4) be(1)] and h5 = above_block [OF s5(3) be(1)] and h6 = above_block [OF 6(3) be(2)]
    and h8 = grown_framed [OF t7(1), of "{cg_next s..}"] and h9 = above_block [OF 9(3) be(3)]
  note h03 = above_trans [OF h2' h3] note h06 = above_trans [OF above_trans [OF h03 h5] h6]
  note h6e = above_trans [OF h8 h9] note h5e = above_trans [OF h6 h6e] note h0e = above_trans [OF h06 h6e]
  have c5: "ctx s5 = ctx s" using ctx_popped [of "jumped l s4" e l s1] f3(3) framed_ctx [OF s1(2)] by (simp add: s5_def s2_def)
  have "framed s s'" unfolding framed_grown using above_base [OF h0e] 9(4) framed_ctx [OF t7(1)] 6(4) c5 by simp
  moreover have "leads G B loc V rp s s' \<sigma> o' \<sigma>'" if cv: "covers s s' B" and rg: "ranged V \<sigma>" and ex: "exec (SDoWhile c t) \<sigma> o' \<sigma>'" for B \<sigma> o' \<sigma>'
  proof -
    let ?k = "cg_next s"
    have st: "break_continue_stack s2 = (e, Some l) # break_continue_stack s1" "return_block s2 = return_block s"
      using framed_ctx [OF s1(2)] by (simp_all add: s2_def pushed_def ctx_def)
    have test: "goes_on G B loc V rp ?k \<sigma> Normal \<sigma>1 (l, 0) (if w \<noteq> 0 then (b, 0) else (e, 0))" if "ranged V \<sigma>" "ev c \<sigma> = Some (w, \<sigma>1)" for \<sigma> w \<sigma>1
    proof -
      from t7(6) [OF covers_above [OF cv h06 h9] that] have a: "ranged V \<sigma>1"
        "arrives G B loc V (cg_next s6) \<sigma> \<sigma>1 (l, 0) (if w \<noteq> 0 then b else e, 0) (\<lambda>_ _ _. True) (\<lambda>_ _ _. True)" by auto
      show ?thesis using a(1) arrives_less [OF a(2) grown_next [OF h06]] unfolding returned_normal by (cases "w = 0") simp_all
    qed
    have body: "goes_on G B loc V rp ?k \<sigma> o' \<sigma>' (b, 0) (turn (l, 0) (e, 0) (the (return_block s), 0) o')" if "ranged V \<sigma>" "exec t \<sigma> o' \<sigma>'" for \<sigma> o' \<sigma>'
    proof -
      have "grown {cg_next s..} (jumped l s4) s'" using h5e by (simp add: s5_def)
      from f3(6) [OF covers_above [OF cv h03 this] that] have a: "ranged V \<sigma>'"
        "arrives G B loc V (cg_next s3) \<sigma> \<sigma>' (b, 0) (exit_of s2 l o') (\<lambda>_ _ _. True) (returned rp o')" by auto
      show ?thesis using a(1) arrives_less [OF a(2) grown_next [OF h03]] by (simp add: exit_turn(2) [OF st(1)] st(2))
    qed
    from do_runs [OF ex rg test body] have w: "out o'" "goes_on G B loc V rp ?k \<sigma> o' \<sigma>' (b, 0) (turn (e, 0) (e, 0) (the (return_block s), 0) o')" by blast+
    have "grown {cg_next s..} (placed b (jumped b s1)) s'" using above_trans [OF h5 h5e] by (simp flip: p3(2))
    note j = jump_in [OF cv h2 s1(1) this, where k = ?k and \<sigma> = \<sigma> and G = G]
    note go = arrives_trans [OF j [unfolded s1(7)] conjunct2 [OF w(2)] order_refl]
    show ?thesis by (rule leads_loop [OF w(1)]) (use w(2) go ready_at [OF 9(2)] 9(5) in auto)
  qed
  ultimately show "\<exists>s'. Visit_DoWhileStmt G P c t s = Inr ((), s') \<and> framed s s' \<and> ends loc V s' \<and>
      (\<forall>B \<sigma> o' \<sigma>'. covers s s' B \<longrightarrow> ranged V \<sigma> \<longrightarrow> exec (SDoWhile c t) \<sigma> o' \<sigma>' \<longrightarrow> leads G B loc V rp s s' \<sigma> o' \<sigma>')"
    using m ready_ends [OF 9(2)] by blast
qed

end
