(* ===== verification/Kcc_SimFor.thy ===== *)
theory Kcc_SimFor
  imports Kcc_SimLoop
begin

text \<open>
  The loop \<open>for\<close>: its test, its body and its step are three stages of the generator.
\<close>

subsection \<open>The test\<close>

definition for_head :: "'c visitors \<Rightarrow> expr option \<Rightarrow> nat \<Rightarrow> ('c, unit) gen" where
  "for_head P c e = (case c of None \<Rightarrow> ret () | Some x \<Rightarrow> bnd CreateBasicBlock (\<lambda>b. thn (v_branch P x b e) (EmitBlock b False)))"

definition head_runs :: "'c genv \<Rightarrow> (nat \<Rightarrow> 'c val) \<Rightarrow> nat set \<Rightarrow> expr option \<Rightarrow> nat \<Rightarrow> nat \<Rightarrow> 'c cg \<Rightarrow> 'c cg \<Rightarrow> bool" where
  "head_runs G loc V c l e s s' \<longleftrightarrow> (\<forall>B \<sigma> \<sigma>1. covers s s' B \<longrightarrow> ranged V \<sigma> \<longrightarrow>
     (for_test c \<sigma> \<sigma>1 \<longrightarrow> ranged V \<sigma>1 \<and> arrives G B loc V (cg_next s) \<sigma> \<sigma>1 (l, 0) (pos s') (\<lambda>_ _ _. True) (\<lambda>_ _ _. True)) \<and>
     (\<forall>x. c = Some x \<longrightarrow> ev x \<sigma> = Some (0, \<sigma>1) \<longrightarrow> (\<exists>p. comes_from s' p e) \<and> ranged V \<sigma>1 \<and>
        arrives G B loc V (cg_next s) \<sigma> \<sigma>1 (l, 0) (e, 0) (\<lambda>_ _ _. True) (\<lambda>_ _ _. True)))"

lemma head_stage:
  assumes "inj_on loc V" and "ready loc V s" and "pos s = (l, 0)" and "unplaced e s" and "\<And>x. c = Some x \<Longrightarrow> branch_ok G loc V P x"
  obtains s' where "for_head P c e s = Inr ((), s')" and "ready loc V s'" and "grown {cg_next s..} s s'" and "ctx s' = ctx s" and "unplaced e s'"
    and "head_runs G loc V c l e s s'"
proof (cases c)
  case None
  have "head_runs G loc V c l e s s"
    by (auto simp: head_runs_def None for_test_def assms(3))
  then show ?thesis using that [of s] assms(2,4) None by (simp add: for_head_def ret_def)
next
  case (Some x)
  define b where "b = cg_next s"
  define s1 where "s1 = created s"
  have s1: "ready loc V s1" "framed s s1" "unplaced b s1" "cg_next s \<le> cg_next s1" "pos s1 = (l, 0)"
    using assms(2,3) unplaced_created [OF closed_facts(2) [OF assms(2)]] by (simp_all add: s1_def b_def)
  from sim_brE [OF assms(5) [OF Some, unfolded branch_ok_def] s1(1), of b e] obtain s2 where 1: "v_branch P x b e s1 = Inr ((), s2)" "framed s1 s2"
    "settled loc V s2" "closed s2" "\<And>B \<sigma> w \<sigma>' d. covers s1 s2 B \<Longrightarrow> ranged V \<sigma> \<Longrightarrow> ev x \<sigma> = Some (w, \<sigma>') \<Longrightarrow> d = (if w \<noteq> 0 then b else e) \<Longrightarrow>
       ranged V \<sigma>' \<and> arrives G B loc V (cg_next s1) \<sigma> \<sigma>' (pos s1) (d, 0) (\<lambda>_ _ _. True) (\<lambda>p \<rho> M. comes_from s2 p d)"
    by blast
  from after_branch [OF s1(3) grown_framed [OF 1(2), of "{}"] 1(3)] obtain s3 where
    3: "EmitBlock b False s2 = Inr ((), s3)" "ready loc V s3" "grown {b} s2 s3" "ctx s3 = ctx s2" "pos s3 = (b, 0)" by blast
  note g1 = grown_framed [OF s1(2), of "{cg_next s..}"] and g2 = grown_framed [OF 1(2), of "{cg_next s..}"]
  have g3: "grown {cg_next s..} s2 s3" by (rule above_block [OF 3(3)]) (simp add: b_def)
  have be: "e \<noteq> b" using unplaced_less [OF assms(4)] by (simp add: b_def)
  have ue: "unplaced e s3"
    by (rule unplaced_above [OF unplaced_grown [OF assms(4) grown_framed [OF framed_trans [OF s1(2) 1(2)], of "{}"]] 3(3)]) (use be in simp_all)
  have "head_runs G loc V c l e s s3"
    unfolding head_runs_def
  proof (intro allI impI)
    fix B \<sigma> \<sigma>1 assume cv: "covers s s3 B" and rg: "ranged V \<sigma>"
    have run: "ranged V \<sigma>1 \<and> arrives G B loc V (cg_next s) \<sigma> \<sigma>1 (l, 0) (if w \<noteq> 0 then b else e, 0) (\<lambda>_ _ _. True) (\<lambda>p \<rho> M. comes_from s2 p (if w \<noteq> 0 then b else e))"
      if ex: "ev x \<sigma> = Some (w, \<sigma>1)" for w
    proof -
      from 1(5) [OF covers_above [OF cv g1 g3] rg ex refl] have a: "ranged V \<sigma>1"
        "arrives G B loc V (cg_next s1) \<sigma> \<sigma>1 (l, 0) (if w \<noteq> 0 then b else e, 0) (\<lambda>_ _ _. True) (\<lambda>p \<rho> M. comes_from s2 p (if w \<noteq> 0 then b else e))"
        by (simp_all add: s1(5))
      show ?thesis by (rule conjI [OF a(1) arrives_less [OF a(2) s1(4)]])
    qed
    have "ranged V \<sigma>1 \<and> arrives G B loc V (cg_next s) \<sigma> \<sigma>1 (l, 0) (pos s3) (\<lambda>_ _ _. True) (\<lambda>_ _ _. True)" if "for_test c \<sigma> \<sigma>1"
    proof -
      from that obtain w where w: "ev x \<sigma> = Some (w, \<sigma>1)" "w \<noteq> 0" by (auto simp: for_test_def Some)
      from run [OF w(1)] w(2) have a: "ranged V \<sigma>1" "arrives G B loc V (cg_next s) \<sigma> \<sigma>1 (l, 0) (pos s3) (\<lambda>_ _ _. True) (\<lambda>p \<rho> M. comes_from s2 p b)"
        by (simp_all add: 3(5))
      show ?thesis by (rule conjI [OF a(1) arrives_drop [OF a(2)]])
    qed
    moreover have "(\<exists>p. comes_from s3 p e) \<and> ranged V \<sigma>1 \<and> arrives G B loc V (cg_next s) \<sigma> \<sigma>1 (l, 0) (e, 0) (\<lambda>_ _ _. True) (\<lambda>_ _ _. True)"
      if "c = Some y" "ev y \<sigma> = Some (0, \<sigma>1)" for y
    proof -
      from that have "ev x \<sigma> = Some (0, \<sigma>1)" by (simp add: Some)
      from run [OF this] have a: "ranged V \<sigma>1" "arrives G B loc V (cg_next s) \<sigma> \<sigma>1 (l, 0) (e, 0) (\<lambda>_ _ _. True) (\<lambda>p \<rho> M. comes_from s2 p e)" by simp_all
      from arrives_some [OF a(2) rg assms(1)] obtain p where "comes_from s2 p e" by blast
      from comes_from_grown [OF this g3] have "\<exists>p. comes_from s3 p e" by blast
      then show ?thesis using a(1) arrives_drop [OF a(2)] by blast
    qed
    ultimately show "(for_test c \<sigma> \<sigma>1 \<longrightarrow> ranged V \<sigma>1 \<and> arrives G B loc V (cg_next s) \<sigma> \<sigma>1 (l, 0) (pos s3) (\<lambda>_ _ _. True) (\<lambda>_ _ _. True)) \<and>
      (\<forall>x. c = Some x \<longrightarrow> ev x \<sigma> = Some (0, \<sigma>1) \<longrightarrow> (\<exists>p. comes_from s3 p e) \<and> ranged V \<sigma>1 \<and>
        arrives G B loc V (cg_next s) \<sigma> \<sigma>1 (l, 0) (e, 0) (\<lambda>_ _ _. True) (\<lambda>_ _ _. True))"
      by blast
  qed
  moreover have "for_head P c e s = Inr ((), s3)" using 1(1) 3(1) by (simp add: for_head_def Some run s1_def b_def)
  moreover have "ctx s3 = ctx s" using 3(4) framed_ctx [OF 1(2)] framed_ctx [OF s1(2)] by simp
  ultimately show ?thesis using that [of s3] 3(2) above_trans [OF above_trans [OF g1 g2] g3] ue by blast
qed

subsection \<open>The step\<close>

definition for_tail :: "'c visitors \<Rightarrow> expr option \<Rightarrow> nat \<Rightarrow> nat \<Rightarrow> ('c, unit) gen" where
  "for_tail P inc n l = thn (case inc of None \<Rightarrow> ret () | Some x \<Rightarrow> thn (EmitBlock n False) (v_expr P x)) (EmitBranch l)"

definition tail_runs :: "'c genv \<Rightarrow> (nat \<Rightarrow> 'c val) \<Rightarrow> nat set \<Rightarrow> expr option \<Rightarrow> nat \<Rightarrow> nat \<Rightarrow> 'c cg \<Rightarrow> 'c cg \<Rightarrow> bool" where
  "tail_runs G loc V inc n l s s' \<longleftrightarrow> (\<forall>B. covers s s' B \<longrightarrow>
     (\<forall>k \<sigma>. is_open s \<longrightarrow> arrives G B loc V k \<sigma> \<sigma> (pos s) (n, 0) (\<lambda>_ _ _. True) (\<lambda>_ _ _. True)) \<and>
     (\<forall>\<sigma> \<sigma>1. prefix (cg_block s' n) (B n) \<longrightarrow> ranged V \<sigma> \<longrightarrow> for_step inc \<sigma> \<sigma>1 \<longrightarrow> ranged V \<sigma>1 \<and>
        arrives G B loc V (cg_next s) \<sigma> \<sigma>1 (n, 0) (l, 0) (\<lambda>_ _ _. True) (\<lambda>_ _ _. True)))"

lemma ends_jump: "is_open s \<Longrightarrow> covers s (jumped n s) B \<Longrightarrow> arrives G B loc V k \<sigma> \<sigma> (pos s) (n, 0) (\<lambda>_ _ _. True) (\<lambda>_ _ _. True)"
  using arrives_drop [OF arrives_jump [where C = "\<lambda>_ _. True"]] .

lemma tail_stage:
  assumes "ends loc V s" and "inc = None \<Longrightarrow> n = l" and "\<And>x. inc = Some x \<Longrightarrow> unplaced n s \<and> value_ok G loc V P x"
  obtains s' where "for_tail P inc n l s = Inr ((), s')" and "settled loc V s'" and "cg_at s' = None" and "grown {n} s s'" and "ctx s' = ctx s"
    and "tail_runs G loc V inc n l s s'"
proof (cases inc)
  case None
  have "tail_runs G loc V inc n l s (jumped l s)"
    using ends_jump assms(2) by (auto simp: tail_runs_def None for_step_def)
  moreover have "settled loc V s" using assms(1) by (simp add: ends_def)
  moreover have "grown {n} s (jumped l s)" by (rule grown_framed [OF framed_jumped])
  ultimately show ?thesis using that [of "jumped l s"] by (simp add: for_tail_def None run settled_jumped)
next
  case (Some x)
  note u = conjunct1 [OF assms(3) [OF Some]] and v = conjunct2 [OF assms(3) [OF Some], unfolded value_ok_def]
  have st: "settled loc V s" using assms(1) by (simp add: ends_def)
  from begin_block [OF st u] obtain s1 where 1: "EmitBlock n False s = Inr ((), s1)" "s1 = placed n (jumped n s)" "ready loc V s1" "grown {n} s s1"
    "ctx s1 = ctx s" "pos s1 = (n, 0)" "cg_next s \<le> cg_next s1" by blast
  from simE [OF v 1(3)] obtain w s2 where 2: "value_of P x s1 = Inr (w, s2)" "gives G loc V T_int (varies x) s1 w s2"
    "\<And>\<sigma> y \<sigma>'. ranged V \<sigma> \<Longrightarrow> ev x \<sigma> = Some (y, \<sigma>') \<Longrightarrow> fits_type T_int y \<and> ranged V \<sigma>' \<and>
       flows G loc V s1 s2 \<sigma> \<sigma>' (\<lambda>_. True) (\<lambda>\<rho>. den G \<rho> w = Some y)"
    by blast
  note g = gives_facts [OF 2(2)]
  let ?s = "jumped l s2"
  have g2: "grown {n} s1 ?s" by (rule grown_framed [OF framed_trans [OF g(1) framed_jumped]])
  have "tail_runs G loc V inc n l s ?s"
    unfolding tail_runs_def
  proof (intro allI impI conjI)
    fix B assume cv: "covers s ?s B"
    show "arrives G B loc V k \<sigma> \<sigma> (pos s) (n, 0) (\<lambda>_ _ _. True) (\<lambda>_ _ _. True)" if o: "is_open s" for k \<sigma>
    proof (rule ends_jump [OF o])
      show "covers s (jumped n s) B"
        by (rule covers_part [OF cv]) (use grown_prefix [OF g2] in \<open>simp_all add: 1(2)\<close>)
    qed
    fix \<sigma> \<sigma>1 assume p: "prefix (cg_block ?s n) (B n)" and rg: "ranged V \<sigma>" and stp: "for_step inc \<sigma> \<sigma>1"
    from stp obtain y where "ev x \<sigma> = Some (y, \<sigma>1)" by (auto simp: for_step_def Some)
    from 2(3) [OF rg this] have 3: "ranged V \<sigma>1" "flows G loc V s1 s2 \<sigma> \<sigma>1 (\<lambda>_. True) (\<lambda>\<rho>. den G \<rho> w = Some y)" by auto
    have cv1: "covers s1 ?s B"
      using cv p 1(7) by (auto simp: covers_def 1(2))
    have a: "arrives G B loc V (cg_next s1) \<sigma> \<sigma>1 (n, 0) (pos s2) (\<lambda>_ _ _. True) (\<lambda>_ _ _. True)"
      using arrives_drop [OF flows_arrives [OF 3(2) covers_first [OF g(1) framed_jumped cv1]]] by (simp add: 1(6))
    note b = arrives_trans [OF a ends_jump [OF ready_open [OF g(2)] covers_second [OF g(1) cv1]] order_refl]
    show "ranged V \<sigma>1" by (rule 3(1))
    show "arrives G B loc V (cg_next s) \<sigma> \<sigma>1 (n, 0) (l, 0) (\<lambda>_ _ _. True) (\<lambda>_ _ _. True)" by (rule arrives_less [OF b 1(7)])
  qed
  moreover have "for_tail P inc n l s = Inr ((), ?s)" using 1(1) 2(1) by (simp add: for_tail_def Some run value_of_run)
  moreover have "ctx ?s = ctx s" using framed_ctx [OF g(1)] 1(5) by simp
  ultimately show ?thesis
    using that [of ?s] settled_jumped [OF closed_facts(1) [OF g(2)]] grown_twice [OF 1(4) g2] by simp
qed

subsection \<open>The loop\<close>

definition for_next :: "expr option \<Rightarrow> nat \<Rightarrow> ('c, nat) gen" where
  "for_next inc l = (if inc \<noteq> None then CreateBasicBlock else ret l)"

definition for_loop :: "'c visitors \<Rightarrow> expr option \<Rightarrow> expr option \<Rightarrow> stmt \<Rightarrow> ('c, unit) gen" where
  "for_loop P c inc t = bnd CreateBasicBlock (\<lambda>l. bnd CreateBasicBlock (\<lambda>e. thn (EmitBlock l False) (thn (for_head P c e)
     (bnd (for_next inc l) (\<lambda>n. thn (PushBlock e (Some n)) (thn (v_stmt P t) (thn PopBlock
     (thn (for_tail P inc n l) (EmitBlock e True)))))))))"

lemma thn_assoc: "thn (thn a b) c = thn a (thn b c)"
  by (rule ext) (auto simp: thn_def bnd_def bindE_def split: sum.splits)

lemma for_visit: "Visit_ForStmt P i c inc t None = thn (case i of None \<Rightarrow> ret () | Some x \<Rightarrow> v_expr P x) (for_loop P c inc t)"
proof -
  have c: "(case c of None \<Rightarrow> ret () | Some x \<Rightarrow> bnd CreateBasicBlock (\<lambda>b. thn (v_branch P x b e) (EmitBlock b False))) = for_head P c e" for e
    by (simp add: for_head_def)
  have t: "thn (case inc of None \<Rightarrow> ret () | Some x \<Rightarrow> thn (EmitBlock n False) (v_expr P x)) (thn (EmitBranch l) k) = thn (for_tail P inc n l) k" for n l k
    by (simp add: for_tail_def thn_assoc)
  have i: "(case i of None \<Rightarrow> opt_stmt P None | Some x \<Rightarrow> v_expr P x) = (case i of None \<Rightarrow> ret () | Some x \<Rightarrow> v_expr P x)"
    by (cases i) (simp_all add: opt_stmt_def)
  show ?thesis unfolding Visit_ForStmt_def for_loop_def for_next_def c t i ..
qed

text \<open>The block that \<open>continue\<close> leads to: a new one, or the test.\<close>

lemma continue_block:
  assumes "ready loc V s"
  obtains n s' where "for_next inc l s = Inr (n, s')" and "ready loc V s'" and "framed s s'" and "pos s' = pos s"
    and "inc = None \<Longrightarrow> n = l" and "\<And>x. inc = Some x \<Longrightarrow> unplaced n s' \<and> cg_next s \<le> n"
proof (cases inc)
  case None then show ?thesis using that [of l s] assms by (simp add: ret_def for_next_def)
next
  case (Some x) then show ?thesis
    using that [of "cg_next s" "created s"] assms unplaced_created [OF closed_facts(2) [OF assms]] by (simp add: run for_next_def)
qed

lemma ends_popped [simp]:
  "is_open (popped s) = is_open s" "pos (popped s) = pos s" "ends loc V (popped s) = ends loc V s"
proof -
  show "is_open (popped s) = is_open s" by (simp add: is_open_def getTerminator_def)
  moreover show "pos (popped s) = pos s" by (simp add: pos_def)
  ultimately show "ends loc V (popped s) = ends loc V s" by (simp add: ends_def)
qed

lemma sim_for_loop:
  assumes "inj_on loc V" and "\<And>x. c = Some x \<Longrightarrow> branch_ok G loc V P x" and "\<And>x. inc = Some x \<Longrightarrow> value_ok G loc V P x"
    and "sim_st G loc V rp True (v_stmt P t) (exec t)"
  shows "sim_st G loc V rp L (for_loop P c inc t) (exec (SFor None c inc t None))"
proof (rule sim_stI)
  fix s assume s: "ready loc V s" "fits_in_code loc V rp L s"
  define l where "l = cg_next s"
  define e where "e = Suc (cg_next s)"
  define s1 where "s1 = created2 s"
  note s1 = created2_facts [OF s(1), folded l_def e_def s1_def]
  have le: "cg_next s \<le> l" "cg_next s \<le> e" "e \<noteq> l" by (simp_all add: l_def e_def)
  from begin_block [OF closed_facts(1) [OF s1(1)] s1(3)] obtain s2 where 2: "EmitBlock l False s1 = Inr ((), s2)" "s2 = placed l (jumped l s1)"
    "ready loc V s2" "grown {l} s1 s2" "ctx s2 = ctx s1" "pos s2 = (l, 0)" by blast
  have ue2: "unplaced e s2" by (rule unplaced_above [OF s1(4) 2(4)]) (use le(3) in simp)
  obtain s3 where 3: "for_head P c e s2 = Inr ((), s3)" "ready loc V s3" "grown {cg_next s2..} s2 s3" "ctx s3 = ctx s2" "unplaced e s3" "head_runs G loc V c l e s2 s3"
    by (rule head_stage [OF assms(1) 2(3,6) ue2 assms(2)])
  obtain n s4 where 4: "for_next inc l s3 = Inr (n, s4)" "ready loc V s4" "framed s3 s4" "pos s4 = pos s3"
    "inc = None \<Longrightarrow> n = l" "\<And>x. inc = Some x \<Longrightarrow> unplaced n s4 \<and> cg_next s3 \<le> n"
    by (rule continue_block [OF 3(2), of inc l]) (rule that; blast)
  define s5 where "s5 = pushed e n s4"
  have x5: "ctx s4 = ctx s" using framed_ctx [OF 4(3)] 3(4) 2(5) framed_ctx [OF s1(2)] by simp
  have r5: "ready loc V s5" "pos s5 = pos s3" using 4(2,4) by (simp_all add: s5_def)
  have fit5: "fits_in_code loc V rp True s5" unfolding s5_def by (rule fits_pushed [OF fits_ctx(1) [OF s(2) x5]])
  from sim_stE [OF assms(4) r5(1) fit5] obtain s6 where 6: "v_stmt P t s5 = Inr ((), s6)" "framed s5 s6" "ends loc V s6"
    "\<And>B \<sigma> o' \<sigma>'. covers s5 s6 B \<Longrightarrow> ranged V \<sigma> \<Longrightarrow> exec t \<sigma> o' \<sigma>' \<Longrightarrow> leads G B loc V rp s5 s6 \<sigma> o' \<sigma>'"
    by blast
  define s7 where "s7 = popped s6"
  have e7: "ends loc V s7" "pos s7 = pos s6" using 6(3) by (simp_all add: s7_def ends_popped)
  have u7: "unplaced b s7" if "unplaced b s4" for b
    using unplaced_grown [OF _ grown_framed [OF 6(2), of "{}"], of b] that by (simp add: s5_def s7_def)
  obtain s8 where 8: "for_tail P inc n l s7 = Inr ((), s8)" "settled loc V s8" "cg_at s8 = None" "grown {n} s7 s8" "ctx s8 = ctx s7"
    "tail_runs G loc V inc n l s7 s8"
    by (rule tail_stage [OF e7(1) 4(5)]) (use u7 4(6) assms(3) in blast)+
  have ne: "e \<noteq> n" "cg_next s \<le> n"
  proof -
    have "cg_next s \<le> cg_next s3" using grown_next [OF 2(4)] grown_next [OF 3(3)] framed_next [OF s1(2)] by simp
    then show "e \<noteq> n" "cg_next s \<le> n" using 4(5,6) le unplaced_less [OF 3(5)] by (cases inc; fastforce)+
  qed
  have ue8: "unplaced e s8"
    by (rule unplaced_above [OF u7 [OF unplaced_grown [OF 3(5) grown_framed [OF 4(3), of "{}"]]] 8(4)]) (use ne in simp_all)
  obtain s' where 9: "EmitBlock e True s8 = Inr ((), s')" "ends loc V s'" "grown {e} s8 s'" "ctx s' = ctx s8"
    "\<And>p. comes_from s8 p e \<Longrightarrow> cg_at s' \<noteq> None \<and> pos s' = (e, 0)"
    by (rule finish_block [OF 8(2,3) ue8]) (rule that; blast)
  have m: "for_loop P c inc t s = Inr ((), s')"
    using 2(1) 3(1) 4(1) 6(1) 8(1) 9(1) by (simp add: for_loop_def run s1_def created2_def l_def e_def s5_def s7_def)
  note h1 = grown_framed [OF s1(2), of "{cg_next s..}"] and h2 = above_block [OF 2(4) le(1)]
  note h02 = above_trans [OF h1 h2]
  have h3: "grown {cg_next s..} s2 s3" by (rule grown_mono [OF 3(3)]) simp
  note h4 = grown_framed [OF 4(3), of "{cg_next s..}"]
  have h5: "grown {cg_next s..} s4 s5" "grown {cg_next s..} s6 s7" by (simp_all add: s5_def s7_def)
  note h6 = grown_framed [OF 6(2), of "{cg_next s..}"] and h8 = above_block [OF 8(4) ne(2)] and h9 = above_block [OF 9(3) le(2)]
  note h03 = above_trans [OF h02 h3] note h05 = above_trans [OF above_trans [OF h03 h4] h5(1)] note h07 = above_trans [OF above_trans [OF h05 h6] h5(2)]
  note h7e = above_trans [OF h8 h9] note h6e = above_trans [OF h5(2) h7e]
  note h3e = above_trans [OF above_trans [OF above_trans [OF h4 h5(1)] h6] h6e]
  have x8: "ctx s8 = ctx s" using ctx_popped [OF framed_ctx [OF 6(2), unfolded s5_def]] 8(5) x5 by (simp add: s7_def)
  have "framed s s'" unfolding framed_grown using above_base [OF above_trans [OF h07 h7e]] 9(4) x8 by simp
  moreover have "leads G B loc V rp s s' \<sigma> o' \<sigma>'" if cv: "covers s s' B" and rg: "ranged V \<sigma>" and ex: "exec (SFor None c inc t None) \<sigma> o' \<sigma>'" for B \<sigma> o' \<sigma>'
  proof -
    let ?k = "cg_next s" let ?Q = "\<exists>p. comes_from s8 p e"
    have st: "break_continue_stack s5 = (e, Some n) # break_continue_stack s4" "return_block s5 = return_block s"
      using x5 by (simp_all add: s5_def pushed_def ctx_def)
    note hd = 3(6) [unfolded head_runs_def, rule_format, OF covers_above [OF cv h02 h3e]]
    note k2 = grown_next [OF h02]
    have c7: "covers s7 s8 B" by (rule covers_above [OF cv h07 h9])
    note tl = 8(6) [unfolded tail_runs_def, rule_format, OF c7]
    have pn: "prefix (cg_block s8 n) (B n)"
      using cv ne(2) grown_prefix [OF h9, of n] by (auto simp: covers_def intro: prefix_order.trans)
    have test: "goes_on G B loc V rp ?k \<sigma> Normal \<sigma>1 (l, 0) (pos s3)" if r: "ranged V \<sigma>" "for_test c \<sigma> \<sigma>1" for \<sigma> \<sigma>1
    proof -
      from hd [OF r(1)] r(2) have a: "ranged V \<sigma>1" "arrives G B loc V (cg_next s2) \<sigma> \<sigma>1 (l, 0) (pos s3) (\<lambda>_ _ _. True) (\<lambda>_ _ _. True)" by blast+
      from a(1) arrives_less [OF a(2) k2] show ?thesis unfolding returned_normal ..
    qed
    have fails: "?Q \<and> goes_on G B loc V rp ?k \<sigma> Normal \<sigma>1 (l, 0) (e, 0)" if r: "c = Some x" "ranged V \<sigma>" "ev x \<sigma> = Some (0, \<sigma>1)" for x \<sigma> \<sigma>1
    proof -
      from hd [OF r(2)] r(1,3) obtain p where a: "comes_from s3 p e" "ranged V \<sigma>1"
        "arrives G B loc V (cg_next s2) \<sigma> \<sigma>1 (l, 0) (e, 0) (\<lambda>_ _ _. True) (\<lambda>_ _ _. True)" by blast
      have "?Q" using comes_from_grown [OF a(1) above_trans [OF above_trans [OF above_trans [OF above_trans [OF h4 h5(1)] h6] h5(2)] h8]] by blast
      with a(2) arrives_less [OF a(3) k2] show ?thesis unfolding returned_normal by blast
    qed
    have body: "(o' = Broke \<longrightarrow> ?Q) \<and> goes_on G B loc V rp ?k \<sigma> o' \<sigma>' (pos s3) (turn (n, 0) (e, 0) (the (return_block s), 0) o')"
      if r: "ranged V \<sigma>" "exec t \<sigma> o' \<sigma>'" for \<sigma> o' \<sigma>'
    proof -
      from 6(4) [OF covers_above [OF cv h05 h6e] r] have a: "ranged V \<sigma>'" "placed_well s5 s6 o'"
        "arrives G B loc V (cg_next s5) \<sigma> \<sigma>' (pos s3) (place s5 s6 o') (\<lambda>_ _ _. True) (returned rp o')" by (simp_all add: leads_def r5(2))
      note b = arrives_less [OF a(3) grown_next [OF h05]]
      show ?thesis
      proof (cases o')
        case Normal
        then have "is_open s7" using a(2) e7(1) by (auto simp: ends_def s7_def)
        then have j: "arrives G B loc V ?k \<sigma>' \<sigma>' (pos s6) (n, 0) (\<lambda>_ _ _. True) (\<lambda>_ _ _. True)" using tl e7(2) by simp
        from a(1) arrives_trans [OF b [unfolded Normal place.simps returned_normal] j order_refl] show ?thesis unfolding Normal returned_normal by simp
      next
        case Broke
        then obtain p where "comes_from s6 p e" using a(2) st(1) by auto
        then have "?Q" using comes_from_grown [OF _ above_trans [OF h5(2) h8]] by blast
        then show ?thesis using a(1) b st(1) by (simp add: Broke)
      next
        case Continued then show ?thesis using a(1) b st(1) by simp
      next
        case (Returned v) then show ?thesis using a(1) b st(2) by simp
      qed
    qed
    have step: "goes_on G B loc V rp ?k \<sigma> Normal \<sigma>1 (n, 0) (l, 0)" if r: "ranged V \<sigma>" "for_step inc \<sigma> \<sigma>1" for \<sigma> \<sigma>1
    proof -
      from tl pn r have a: "ranged V \<sigma>1" "arrives G B loc V (cg_next s7) \<sigma> \<sigma>1 (n, 0) (l, 0) (\<lambda>_ _ _. True) (\<lambda>_ _ _. True)" by blast+
      from a(1) arrives_less [OF a(2) grown_next [OF h07]] show ?thesis unfolding returned_normal ..
    qed
    have w: "out o' \<and> (o' = Normal \<longrightarrow> ?Q) \<and> goes_on G B loc V rp ?k \<sigma> o' \<sigma>' (l, 0) (turn (e, 0) (e, 0) (the (return_block s), 0) o')"
      by (rule for_runs [OF ex rg _ fails]; (fact test body step)?)
    have "grown {cg_next s..} (placed l (jumped l s1)) s'" using above_trans [OF h3 h3e] by (simp add: 2(2))
    note j = jump_in [OF cv h1 s1(1) this, where k = ?k and \<sigma> = \<sigma> and G = G]
    note go = arrives_trans [OF j [unfolded s1(6)] conjunct2 [OF conjunct2 [OF conjunct2 [OF w]]] order_refl]
    show ?thesis by (rule leads_loop [where e = e]) (use w go 9(5) in auto)
  qed
  ultimately show "\<exists>s'. for_loop P c inc t s = Inr ((), s') \<and> framed s s' \<and> ends loc V s' \<and>
      (\<forall>B \<sigma> o' \<sigma>'. covers s s' B \<longrightarrow> ranged V \<sigma> \<longrightarrow> exec (SFor None c inc t None) \<sigma> o' \<sigma>' \<longrightarrow> leads G B loc V rp s s' \<sigma> o' \<sigma>')"
    using m 9(2) by blast
qed

inductive_cases exec_ForInitE: "exec (SFor (Some i) c inc t None) \<sigma> o' \<sigma>'"

text \<open>An expression, then a statement.\<close>

lemma sim_st_seq:
  assumes "value_ok G loc V P x" and "sim_st G loc V rp L m r"
    and "\<And>\<sigma> o' \<sigma>'. r' \<sigma> o' \<sigma>' \<Longrightarrow> \<exists>w \<sigma>1. ev x \<sigma> = Some (w, \<sigma>1) \<and> r \<sigma>1 o' \<sigma>'"
  shows "sim_st G loc V rp L (thn (v_expr P x) m) r'"
proof (rule sim_stI)
  fix s assume s: "ready loc V s" "fits_in_code loc V rp L s"
  from simE [OF assms(1) [unfolded value_ok_def] s(1)] obtain v s1 where 1: "value_of P x s = Inr (v, s1)" "gives G loc V T_int (varies x) s v s1"
    "\<And>\<sigma> w \<sigma>'. ranged V \<sigma> \<Longrightarrow> ev x \<sigma> = Some (w, \<sigma>') \<Longrightarrow> fits_type T_int w \<and> ranged V \<sigma>' \<and>
       flows G loc V s s1 \<sigma> \<sigma>' (\<lambda>_. True) (\<lambda>\<rho>. den G \<rho> v = Some w)"
    by blast
  note g = gives_facts [OF 1(2)]
  from sim_stE [OF assms(2) g(2) fits_ctx(1) [OF s(2) framed_ctx [OF g(1)]]] obtain s' where 2: "m s1 = Inr ((), s')" "framed s1 s'" "ends loc V s'"
    "\<And>B \<sigma> o' \<sigma>'. covers s1 s' B \<Longrightarrow> ranged V \<sigma> \<Longrightarrow> r \<sigma> o' \<sigma>' \<Longrightarrow> leads G B loc V rp s1 s' \<sigma> o' \<sigma>'"
    by blast
  have "leads G B loc V rp s s' \<sigma> o' \<sigma>'" if c: "covers s s' B" and rg: "ranged V \<sigma>" and ex: "r' \<sigma> o' \<sigma>'" for B \<sigma> o' \<sigma>'
  proof -
    from assms(3) [OF ex] obtain w \<sigma>1 where w: "ev x \<sigma> = Some (w, \<sigma>1)" "r \<sigma>1 o' \<sigma>'" by blast
    from 1(3) [OF rg w(1)] have 3: "ranged V \<sigma>1" "flows G loc V s s1 \<sigma> \<sigma>1 (\<lambda>_. True) (\<lambda>\<rho>. den G \<rho> v = Some w)" by auto
    have "leads G B loc V rp s s1 \<sigma> Normal \<sigma>1"
      using 3(1) arrives_drop [OF flows_arrives [OF 3(2) covers_first [OF g(1) 2(2) c]]] ready_at [OF g(2)] by (simp add: leads_def returned_normal)
    from leads_then [OF this 2(4) [OF covers_second [OF g(1) c] 3(1) w(2)] g(1)] show ?thesis .
  qed
  moreover have "thn (v_expr P x) m s = Inr ((), s')" using 1(1) 2(1) by (simp add: value_of_run run)
  ultimately show "\<exists>s'. thn (v_expr P x) m s = Inr ((), s') \<and> framed s s' \<and> ends loc V s' \<and>
      (\<forall>B \<sigma> o' \<sigma>'. covers s s' B \<longrightarrow> ranged V \<sigma> \<longrightarrow> r' \<sigma> o' \<sigma>' \<longrightarrow> leads G B loc V rp s s' \<sigma> o' \<sigma>')"
    using framed_trans [OF g(1) 2(2)] 2(3) by blast
qed

lemma thn_ret: "thn (ret ()) m = m"
  by (rule ext) (simp add: run)

lemma sim_for:
  assumes "inj_on loc V" and "\<And>x. i = Some x \<Longrightarrow> value_ok G loc V P x"
    and "\<And>x. c = Some x \<Longrightarrow> branch_ok G loc V P x" and "\<And>x. inc = Some x \<Longrightarrow> value_ok G loc V P x"
    and "sim_st G loc V rp True (v_stmt P t) (exec t)"
  shows "sim_st G loc V rp L (Visit_ForStmt P i c inc t None) (exec (SFor i c inc t None))"
proof -
  have f: "sim_st G loc V rp L (for_loop P c inc t) (exec (SFor None c inc t None))"
    by (rule sim_for_loop [OF assms(1,3-5)])
  show ?thesis
  proof (cases i)
    case None
    with f show ?thesis by (simp add: for_visit None thn_ret)
  next
    case (Some x)
    have "sim_st G loc V rp L (thn (v_expr P x) (for_loop P c inc t)) (exec (SFor (Some x) c inc t None))"
      by (rule sim_st_seq [OF assms(2) [OF Some] f]) (auto elim: exec_ForInitE)
    then show ?thesis by (simp add: for_visit Some)
  qed
qed

end
