(* ===== verification/Kcc_SimCode.thy ===== *)
theory Kcc_SimCode
  imports Kcc_SimFor
begin

text \<open>
  All statements of the fragment: the generator, as deep as their syntax trees, against \<open>exec\<close>.
\<close>

subsection \<open>Behind a jump\<close>

lemma no_label: "int_stmt V L t \<Longrightarrow> \<not> ContainsLabel t"
proof (induction t arbitrary: L rule: ContainsLabel.induct)
  case (1 t)
  have "\<not> ContainsLabel u" if "Some u \<in> set (Children t)" "int_stmt V L' u" for u L'
    using 1(1) [OF that(1) refl that(2)] .
  then have kids: "list_all (\<lambda>c. case c of None \<Rightarrow> True | Some u \<Rightarrow> (\<exists>L'. int_stmt V L' u)) (Children t) \<Longrightarrow>
      \<not> list_ex (\<lambda>c. case c of None \<Rightarrow> False | Some u \<Rightarrow> ContainsLabel u) (Children t)"
    by (auto simp: list_ex_iff list_all_iff split: option.splits)
  have "list_all (\<lambda>c. case c of None \<Rightarrow> True | Some u \<Rightarrow> (\<exists>L'. int_stmt V L' u)) (Children t)"
    using 1(2) by (cases t) (auto simp: list_all_iff split: option.splits)
  with kids 1(2) show ?case by (subst ContainsLabel.simps) (cases t; simp)
qed

lemma skips_nil: "skips loc V rp L (ret ())"
  by (simp add: skips_def ret_def)

lemma skips_thn: "skips loc V rp L m1 \<Longrightarrow> skips loc V rp L m2 \<Longrightarrow> skips loc V rp L (thn m1 m2)"
  by (simp add: skips_def run)

lemma skips_all: "list_all (\<lambda>t. skips loc V rp L (m t)) ts \<Longrightarrow> skips loc V rp L (for_each m ts)"
  by (induction ts) (simp_all add: skips_nil skips_thn)

lemma sim_st_all:
  assumes "list_all (\<lambda>t. skips loc V rp L (m t)) ts" and "list_all (\<lambda>t. sim_st G loc V rp L (m t) (exec t)) ts"
  shows "sim_st G loc V rp L (for_each m ts) (execs ts)"
  using assms by (induction ts) (simp_all add: sim_st_nil sim_st_cons skips_all)

lemma skips_step:
  assumes "int_stmt V L t" and "\<And>ts. t = SCompound ts \<Longrightarrow> list_all (\<lambda>u. skips loc V rp L (v_stmt P u)) ts"
  shows "skips loc V rp L (EmitStmt G P t)"
proof -
  have "EmitStmt G P t s = Inr ((), s)" if s: "settled loc V s" "cg_at s = None" "fits_in_code loc V rp L s" for s
  proof (cases "is_simple t")
    case False
    then show ?thesis by (simp add: emit_none [OF s(2) no_label [OF assms(1)]])
  next
    case True
    have "Accept_stmt G P t s = Inr ((), s)"
      using True assms(1)
    proof (cases t)
      case (SCompound ts)
      from skips_all [OF assms(2) [OF this]] s show ?thesis by (simp add: SCompound Accept_stmt_def Visit_CompoundStmt_def skips_def)
    qed (use s assms(1) in \<open>auto simp: Accept_stmt_def Visit_BreakStmt_def Visit_ContinueStmt_def run cleanup_none fits_in_code_def split: list.splits\<close>)
    then show ?thesis by (simp add: emit_none [OF s(2) no_label [OF assms(1)]])
  qed
  then show ?thesis by (simp add: skips_def)
qed

lemma list_all_weaken: "list_all p xs \<Longrightarrow> (\<And>x. x \<in> set xs \<Longrightarrow> p x \<Longrightarrow> q x) \<Longrightarrow> list_all q xs"
  by (simp add: list_all_iff)

lemma size_part: "u \<in> set ts \<Longrightarrow> size u < size (SCompound ts)"
  using size_list_estimation' [of u ts "size u" size] by simp

lemma stmt_skips: "int_stmt V L t \<Longrightarrow> 2 * size t + 1 < n \<Longrightarrow> skips loc V rp L (v_stmt (visitors_at G n) t)"
proof (induction n arbitrary: t)
  case (Suc n)
  have "list_all (\<lambda>u. skips loc V rp L (v_stmt (visitors_at G n) u)) ts" if "t = SCompound ts" for ts
    using Suc.prems that size_part [of _ ts] by (fastforce simp: list_all_iff intro: Suc.IH)
  from skips_step [OF Suc.prems(1) this] show ?case by (simp add: visitors_with_def)
qed simp

subsection \<open>Statements\<close>

lemma stmt_if:
  assumes "places_ok G loc V" and "int_expr V c" and "varies c" and "branch_ok G loc V P c" and "sim_st G loc V rp L (v_stmt P t) (exec t)"
    and "\<And>u. e = Some u \<Longrightarrow> sim_st G loc V rp L (v_stmt P u) (exec u)"
  shows "sim_st G loc V rp L (Accept_stmt G P (SIf c t e)) (exec (SIf c t e))"
proof -
  have "Accept_stmt G P (SIf c t e) = if_branches P c t e"
    by (rule ext) (simp add: Accept_stmt_def Visit_IfStmt_def bnd_run [of "calc G c"] calc_varies [OF assms(1-3)])
  moreover have "inj_on loc V" using assms(1) by (simp add: places_ok_def)
  ultimately show ?thesis
    using sim_if [OF _ assms(4,5)] sim_if_else [OF assms(4,5)] assms(6) by (cases e) auto
qed

lemma stmt_step:
  assumes "llvm_ok G" and "places_ok G loc V" and "int_stmt V L t" and "2 * size t + 1 < Suc n"
    and IH: "\<And>L t. int_stmt V L t \<Longrightarrow> 2 * size t + 1 < n \<Longrightarrow> sim_st G loc V rp L (v_stmt (visitors_at G n) t) (exec t)"
  shows "sim_st G loc V rp L (Accept_stmt G (visitors_at G n) t) (exec t)"
proof -
  let ?P = "visitors_at G n"
  have val: "value_ok G loc V ?P e" if "int_expr V e" "2 * size e < n" for e using exprs_ok [OF assms(1,2)] that by blast
  have br: "branch_ok G loc V ?P e" if "int_expr V e" "2 * size e + 1 < n" for e using exprs_ok [OF assms(1,2)] that by blast
  have inj: "inj_on loc V" using assms(2) by (simp add: places_ok_def)
  note sz = assms(4) and i = assms(3)
  show ?thesis
  proof (cases t)
    case (SExpr e)
    show ?thesis using sz i stmt_empty stmt_expr [OF val] by (cases e) (simp_all add: SExpr)
  next
    case (SCompound ts)
    have a: "2 * size u + 1 < n" "int_stmt V L u" if "u \<in> set ts" for u
      using size_part [OF that] sz i that by (auto simp: SCompound list_all_iff)
    have "sim_st G loc V rp L (for_each (v_stmt ?P) ts) (execs ts)"
      by (rule sim_st_all) (use a in \<open>auto simp: list_all_iff intro: stmt_skips IH\<close>)
    moreover have "exec (SCompound ts) = execs ts"
      by (intro ext) (auto elim: exec_CompoundE intro: exec_execs.Compound)
    ultimately show ?thesis by (simp add: SCompound Accept_stmt_def Visit_CompoundStmt_def)
  next
    case (SIf c u e)
    show ?thesis unfolding SIf
      by (rule stmt_if [OF assms(2) _ _ br IH IH]) (use sz i in \<open>auto simp: SIf\<close>)
  next
    case (SWhile c u)
    have "sim_st G loc V rp L (Visit_WhileStmt G ?P c u) (exec (SWhile c u))"
      by (rule sim_while [OF assms(1) val _ IH]) (use sz i in \<open>auto simp: SWhile\<close>)
    then show ?thesis by (simp add: SWhile Accept_stmt_def)
  next
    case (SDoWhile c u)
    have "sim_st G loc V rp L (Visit_DoWhileStmt G ?P c u) (exec (SDoWhile c u))"
      by (rule sim_do [OF assms(1) val _ IH]) (use sz i in \<open>auto simp: SDoWhile\<close>)
    then show ?thesis by (simp add: SDoWhile Accept_stmt_def)
  next
    case (SFor j c inc u d)
    have "sim_st G loc V rp L (Visit_ForStmt ?P j c inc u None) (exec (SFor j c inc u None))"
      by (rule sim_for [OF inj val br val IH]) (use sz i in \<open>auto simp: SFor\<close>)
    then show ?thesis using i by (simp add: SFor Accept_stmt_def)
  next
    case (SReturn e)
    show ?thesis using sz i stmt_return stmt_return_value [OF val] by (cases e) (simp_all add: SReturn)
  qed (use i stmt_break stmt_continue in simp_all)
qed

lemma stmts_ok:
  assumes "llvm_ok G" and "places_ok G loc V"
  shows "int_stmt V L t \<Longrightarrow> 2 * size t + 1 < n \<Longrightarrow> sim_st G loc V rp L (v_stmt (visitors_at G n) t) (exec t)"
proof (induction n arbitrary: L t)
  case (Suc n)
  from sim_st_emit [OF stmt_step [OF assms Suc.prems Suc.IH]] show ?case by simp
qed simp

end
