(* ===== verification/Kcc_GenBlocks.thy ===== *)
theory Kcc_GenBlocks
  imports Kcc_GenStmt
begin

text \<open>
  The shape of the generated code: every block of a finished function is a list of instructions
  without a terminator and one terminator behind them. The invariant says of each block whether it is
  finished; the rules follow the combinators, a locale holds what the visitors of sub-trees keep.
\<close>

subsection \<open>The shape of a block\<close>

definition shape :: "'c block \<Rightarrow> bool list" where
  "shape xs = map (\<lambda>x. isTerminator (snd x)) xs"

text \<open>No terminator so far, and exactly one at the end.\<close>

definition unfinished :: "bool list \<Rightarrow> bool" where
  "unfinished bs \<longleftrightarrow> True \<notin> set bs"

definition finished :: "bool list \<Rightarrow> bool" where
  "finished bs \<longleftrightarrow> bs \<noteq> [] \<and> last bs \<and> unfinished (butlast bs)"

abbreviation well_formed :: "'c block \<Rightarrow> bool" where
  "well_formed xs \<equiv> finished (shape xs)"

definition either :: "bool list \<Rightarrow> bool" where
  "either bs \<longleftrightarrow> unfinished bs \<or> finished bs"

lemma shape_simps [simp]:
  "shape [] = []" "shape (xs @ ys) = shape xs @ shape ys" "shape (x # xs) = isTerminator (snd x) # shape xs"
  by (simp_all add: shape_def)

lemma unfinished_simps [simp]:
  "unfinished []" "unfinished (as @ bs) \<longleftrightarrow> unfinished as \<and> unfinished bs" "unfinished (b # bs) \<longleftrightarrow> \<not> b \<and> unfinished bs"
  by (auto simp: unfinished_def)

lemma finished_snoc [simp]: "finished (bs @ [b]) \<longleftrightarrow> b \<and> unfinished bs"
  by (simp add: finished_def)

lemma not_finished_Nil [simp]: "\<not> finished []"
  by (simp add: finished_def)

lemma finished_Cons [simp]: "\<not> b \<Longrightarrow> finished (b # bs) \<longleftrightarrow> finished bs"
  by (cases bs) (auto simp: finished_def)

lemma finished_not_unfinished: "finished bs \<Longrightarrow> \<not> unfinished bs"
  by (cases bs rule: rev_cases) (auto simp: finished_def)

text \<open>Changes that leave the shape.\<close>

lemma shape_map: "(\<And>i. isTerminator (f i) = isTerminator i) \<Longrightarrow> shape (map (\<lambda>(n, i). (n, f i)) xs) = shape xs"
  by (simp add: shape_def case_prod_unfold)

lemma shape_at: "(\<And>i. isTerminator (f i) = isTerminator i) \<Longrightarrow> shape (map (\<lambda>(m, i). (m, if m = n then f i else i)) xs) = shape xs"
  by (simp add: shape_def case_prod_unfold)

lemma replace_terminator [simp]: "isTerminator (replace_block b b' i) = isTerminator i"
  by (cases i) auto

lemma incoming_terminator [simp]: "isTerminator (add_incoming v b i) = isTerminator i" "isTerminator (add_case k b i) = isTerminator i"
  by (cases i; simp)+

text \<open>An instruction in front of another, and some that are no terminators taken away.\<close>

lemma insert_before_shape [simp]:
  "\<not> isTerminator (snd i) \<Longrightarrow> unfinished (shape (insert_before n i xs)) = unfinished (shape xs)"
  "\<not> isTerminator (snd i) \<Longrightarrow> finished (shape (insert_before n i xs)) = finished (shape xs)"
proof (induction xs)
  case (Cons x xs)
  { case 1 then show ?case using Cons by auto }
  { case 2 then show ?case using Cons by (cases xs) (auto simp: finished_def) }
qed auto

lemma filter_shape:
  "\<forall>x \<in> set xs. \<not> p x \<longrightarrow> \<not> isTerminator (snd x) \<Longrightarrow> finished (shape xs) \<Longrightarrow> finished (shape (filter p xs))"
proof (induction xs)
  case (Cons x xs)
  then show ?case by (cases xs) (auto simp: finished_def split: if_splits)
qed simp

lemma terminator_shape: "getTerminator s b \<noteq> None \<Longrightarrow> \<not> unfinished (shape (cg_block s b))"
  by (cases "cg_block s b" rule: rev_cases) (auto simp: getTerminator_def split: if_splits)

subsection \<open>The invariant\<close>

text \<open>
  \<open>R\<close> is the set of blocks of finished functions. A block of the function is finished unless the
  builder stands in it, and one that has no place yet is not.
\<close>

definition retired :: "'c cg \<Rightarrow> nat set" where
  "retired s = (\<Union>(n, bs) \<in> set (bodies_done s). fst ` set bs)"

definition done_well :: "'c cg \<Rightarrow> bool" where
  "done_well s \<longleftrightarrow> distinct (map fst (bodies_done s)) \<and> (\<forall>(n, bs) \<in> set (bodies_done s). distinct (map fst bs) \<and> (\<forall>(b, xs) \<in> set bs. well_formed xs))"

definition blocks_well :: "nat set \<Rightarrow> 'c cg \<Rightarrow> bool" where
  "blocks_well R s \<longleftrightarrow> retired s = R \<and> done_well s \<and> (\<forall>b \<in> R. b < cg_next s) \<and> (\<forall>b \<in> R. well_formed (cg_block s b)) \<and>
     (\<forall>b. b \<notin> R \<longrightarrow> b \<notin> set (cg_order s) \<longrightarrow> unfinished (shape (cg_block s b)))"

definition mark_well :: "'c cg \<Rightarrow> bool" where
  "mark_well s \<longleftrightarrow> (\<forall>entry mark. alloc_insert_point s = Some (entry, mark) \<longrightarrow> mark < cg_next s \<and>
     (\<forall>x \<in> set (cg_block s entry). fst x = mark \<longrightarrow> \<not> isTerminator (snd x)))"

definition func_well :: "nat set \<Rightarrow> 'c cg \<Rightarrow> bool" where
  "func_well R s \<longleftrightarrow> distinct (cg_order s) \<and> (\<forall>b \<in> set (cg_order s). b < cg_next s) \<and> mark_well s \<and> (\<forall>b \<in> set (cg_order s). cg_at s \<noteq> Some b \<longrightarrow> well_formed (cg_block s b)) \<and>
     (\<forall>b. cg_at s = Some b \<longrightarrow> b \<in> set (cg_order s) \<and> b \<notin> R) \<and> (\<forall>(n, b) \<in> set (labels s). b \<notin> R) \<and>
     (\<forall>b. return_block s = Some b \<longrightarrow> b \<notin> R)"

text \<open>\<open>Q\<close> is what holds of the block the builder stands in.\<close>

definition inv :: "nat set \<Rightarrow> (bool list \<Rightarrow> bool) \<Rightarrow> 'c cg \<Rightarrow> bool" where
  "inv R Q s \<longleftrightarrow> blocks_well R s \<and> func_well R s \<and> (\<forall>b. cg_at s = Some b \<longrightarrow> Q (shape (cg_block s b)))"

definition goes :: "nat set \<Rightarrow> (bool list \<Rightarrow> bool) \<Rightarrow> ('c, 'a) gen \<Rightarrow> (bool list \<Rightarrow> bool) \<Rightarrow> bool" where
  "goes R P m Q \<longleftrightarrow> (\<forall>s x s'. inv R P s \<longrightarrow> m s = Inr (x, s') \<longrightarrow> inv R Q s')"

abbreviation keeps :: "nat set \<Rightarrow> ('c, 'a) gen \<Rightarrow> bool" where
  "keeps R m \<equiv> goes R unfinished m unfinished"

abbreviation no_block :: "bool list \<Rightarrow> bool" where
  "no_block \<equiv> (\<lambda>_. False)"

named_theorems well \<open>operations that keep the blocks well formed\<close>

lemma goesI:
  "(\<And>s x s'. inv R P s \<Longrightarrow> m s = Inr (x, s') \<Longrightarrow> inv R Q s') \<Longrightarrow>
    goes R P m Q"
  by (simp add: goes_def)

lemma goesD: "goes R P m Q \<Longrightarrow> inv R P s \<Longrightarrow> m s = Inr (x, s') \<Longrightarrow> inv R Q s'"
  unfolding goes_def by blast

lemma inv_mono: "inv R P s \<Longrightarrow> (\<And>bs. P bs \<Longrightarrow> Q bs) \<Longrightarrow> inv R Q s"
  by (simp add: inv_def)

lemma goes_mono: "goes R P m Q \<Longrightarrow> (\<And>bs. P' bs \<Longrightarrow> P bs) \<Longrightarrow> (\<And>bs. Q bs \<Longrightarrow> Q' bs) \<Longrightarrow> goes R P' m Q'"
  unfolding goes_def by (metis inv_mono)

subsection \<open>Rules for the combinators\<close>

lemma goes_bnd: "goes R P m P1 \<Longrightarrow> (\<And>x. goes R P1 (f x) Q) \<Longrightarrow> goes R P (bnd m f) Q"
  unfolding goes_def bnd_def result_simps by fastforce

lemma goes_thn: "goes R P m P1 \<Longrightarrow> goes R P1 m' Q \<Longrightarrow> goes R P (thn m m') Q"
  unfolding thn_def by (rule goes_bnd)

lemma goes_fail [well]: "goes R P (failP e) Q" "goes R P (Error t) Q"
  by (simp_all add: goes_def run)

lemma goes_same [well]:
  "goes R P (ret x) P" "goes R P (assertP c) P" "goes R P (gets g) P" "goes R P (getsE g') P" "goes R P (liftR r) P"
  by (auto simp: goes_def run result_simps split: if_splits)

lemma goes_if: "(c \<Longrightarrow> goes R P a Q) \<Longrightarrow> (\<not> c \<Longrightarrow> goes R P b Q) \<Longrightarrow> goes R P (if c then a else b) Q"
  by simp

lemma goes_Let: "(\<And>v. goes R P (f v) Q) \<Longrightarrow> goes R P (Let v f) Q"
  by simp

lemma goes_prod: "(\<And>a b. goes R P (f a b) Q) \<Longrightarrow> goes R P (case p of (a, b) \<Rightarrow> f a b) Q"
  by (cases p) simp

lemma goes_option: "(o' = None \<Longrightarrow> goes R P a Q) \<Longrightarrow> (\<And>x. o' = Some x \<Longrightarrow> goes R P (f x) Q) \<Longrightarrow>
    goes R P (case o' of None \<Rightarrow> a | Some x \<Rightarrow> f x) Q"
  by (cases o') auto

lemma goes_list: "goes R P a Q \<Longrightarrow> (\<And>x xs. goes R P (f x xs) Q) \<Longrightarrow> goes R P (case l of [] \<Rightarrow> a | x # xs \<Rightarrow> f x xs) Q"
  by (cases l) auto

lemma goes_for_each: "(\<And>x. goes R P (f x) P) \<Longrightarrow> goes R P (for_each f xs) P"
  by (induction xs) (auto intro: well goes_thn)

lemma goes_mapP: "(\<And>x. goes R P (f x) P) \<Longrightarrow> goes R P (mapP f xs) P"
  by (induction xs) (auto intro!: well goes_bnd)

lemma goes_foldP: "(\<And>x y. goes R P (f x y) P) \<Longrightarrow> goes R P (foldP f xs y) P"
  by (induction xs arbitrary: y) (auto intro!: well goes_bnd)

subsection \<open>Rules for the builder\<close>

text \<open>The part of the state the invariant speaks of.\<close>

definition core :: "'c cg \<Rightarrow> _" where
  "core s = (cg_block s, cg_order s, cg_next s, cg_at s, bodies_done s, alloc_insert_point s, labels s, return_block s)"

lemmas inv_defs = inv_def blocks_well_def func_well_def mark_well_def retired_def done_well_def

lemma inv_core: "core s' = core s \<Longrightarrow> inv R P s' = inv R P s"
  by (simp add: inv_defs core_def)

lemma goes_core: "(\<And>s. core (f s) = core s) \<Longrightarrow> goes R P (modify f) P"
  using inv_core by (fastforce simp: goes_def run core_def)

lemma goes_set_result [well]: "goes R P (set_result v) P"
  unfolding set_result_def by (rule goes_core) (simp add: core_def)

lemma goes_result_of [well]: "goes R P result_of P"
  unfolding result_of_def by (rule goes_same)

lemma goes_llvm_type [well]: "goes R P (llvm_type G t) P"
  unfolding llvm_type_def by (rule goes_same)

lemma fresh_number: "mark_well s \<Longrightarrow> alloc_insert_point s = Some (entry, mark) \<Longrightarrow> mark < cg_next s"
  by (simp add: mark_well_def)

lemma at_facts: "inv R P s \<Longrightarrow> cg_at s = Some b \<Longrightarrow> P (shape (cg_block s b)) \<and> b \<notin> R \<and> b \<in> set (cg_order s)"
  by (auto simp: inv_def func_well_def)

lemma done_fields [simp]:
  "retired (s\<lparr>cg_next := n\<rparr>) = retired s" "retired (s\<lparr>cg_block := g\<rparr>) = retired s" "retired (s\<lparr>cg_order := bs\<rparr>) = retired s"
  "retired (s\<lparr>cg_at := a\<rparr>) = retired s" "retired (s\<lparr>cg_loose := l\<rparr>) = retired s" "retired (s\<lparr>labels := ls\<rparr>) = retired s"
  "done_well (s\<lparr>cg_next := n\<rparr>) = done_well s" "done_well (s\<lparr>cg_block := g\<rparr>) = done_well s" "done_well (s\<lparr>cg_order := bs\<rparr>) = done_well s"
  "done_well (s\<lparr>cg_at := a\<rparr>) = done_well s" "done_well (s\<lparr>cg_loose := l\<rparr>) = done_well s" "done_well (s\<lparr>labels := ls\<rparr>) = done_well s"
  by (simp_all add: retired_def done_well_def)

lemma inv_next: "inv R P s \<Longrightarrow> cg_next s \<le> n \<Longrightarrow> inv R P (s\<lparr>cg_next := n\<rparr>)"
  by (fastforce simp: inv_def blocks_well_def func_well_def mark_well_def)

lemma insert_inv:
  assumes "inv R unfinished s" and "insert_instr i s = Inr (n, s')"
  shows "inv R (if isTerminator i then finished else unfinished) s' \<and> cg_order s' = cg_order s"
proof (cases "cg_at s")
  case None
  then have s': "s' = s\<lparr>cg_next := Suc (cg_next s), cg_loose := cg_loose s @ [(cg_next s, i)]\<rparr>"
    using assms(2) by (auto simp: insert_instr_def Let_def)
  have "inv R unfinished (s\<lparr>cg_next := Suc (cg_next s)\<rparr>)" using assms(1) by (rule inv_next) simp
  then have "inv R unfinished s'" unfolding s' by (rule inv_core [THEN iffD2, rotated]) (simp add: core_def)
  then show ?thesis using None by (auto simp: inv_def s')
next
  case (Some b)
  note b = at_facts [OF assms(1) Some]
  have s': "s' = s\<lparr>cg_next := Suc (cg_next s), cg_block := (cg_block s)(b := cg_block s b @ [(cg_next s, i)])\<rparr>"
    using assms(2) Some by (auto simp: insert_instr_def Let_def)
  have "mark_well s'"
    using assms(1) unfolding s' inv_def func_well_def mark_well_def by (auto simp: less_Suc_eq)
  then show ?thesis
    using assms(1) b Some unfolding s' by (auto simp: inv_def blocks_well_def func_well_def less_Suc_eq)
qed

lemma goes_insert: "goes R unfinished (insert_instr i) (if isTerminator i then finished else unfinished)"
  unfolding goes_def by (metis insert_inv)

lemma goes_insert_plain [well]: "\<not> isTerminator i \<Longrightarrow> keeps R (insert_instr i)"
  using goes_insert [of R i] by simp

lemma goes_put [well]: "\<not> isTerminator i \<Longrightarrow> keeps R (put_instr i)"
  unfolding put_instr_def by (intro goes_thn [OF goes_insert_plain] well)

lemma goes_put_terminator [well]: "isTerminator i \<Longrightarrow> goes R unfinished (put_instr i) finished"
  unfolding put_instr_def using goes_insert [of R i] by (auto intro: goes_thn well)

lemma goes_emit [well]: "\<not> isTerminator i \<Longrightarrow> keeps R (emit G i)"
  unfolding emit_def by (intro goes_bnd [OF goes_insert_plain] well)

lemma goes_build [well]: "\<not> isTerminator i \<Longrightarrow> keeps R (build G i)"
  unfolding build_def by (intro goes_option well)

lemma goes_clear [well]: "goes R finished ClearInsertionPoint no_block"
  unfolding ClearInsertionPoint_def goes_def
  by (auto simp: run inv_def blocks_well_def func_well_def mark_well_def)

text \<open>A jump ends the block, unless it is finished already.\<close>

lemma no_block_unfinished: "goes R P m no_block \<Longrightarrow> goes R P m Q"
  by (erule goes_mono) simp_all

lemma goes_branch [well]: "goes R either (EmitBranch b) no_block"
proof (rule goesI)
  fix s x s' assume a: "inv R either s" "EmitBranch b s = Inr (x, s')"
  show "inv R no_block s'"
  proof (cases "cg_at s")
    case None
    then have "inv R finished s" using a(1) by (simp add: inv_def)
    then show ?thesis using a(2) None goesD [OF goes_clear] by (auto simp: EmitBranch_def GetInsertBlock_def run)
  next
    case (Some c)
    show ?thesis
    proof (cases "getTerminator s c")
      case None
      have "unfinished (shape (cg_block s c))"
        using None at_facts [OF a(1) Some]
        by (cases "cg_block s c" rule: rev_cases) (auto simp: getTerminator_def either_def)
      then have u: "inv R unfinished s" using a(1) Some by (simp add: inv_def)
      have g: "goes R unfinished (thn (put_instr (I_Br b)) ClearInsertionPoint) no_block"
        by (intro goes_thn [OF goes_put_terminator] well) simp
      show ?thesis using a(2) Some None goesD [OF g u] by (auto simp: EmitBranch_def GetInsertBlock_def run)
    next
      case (Some t)
      then have "finished (shape (cg_block s c))"
        using terminator_shape [of s c] at_facts [OF a(1) \<open>cg_at s = Some c\<close>] by (simp add: either_def)
      then have u: "inv R finished s" using a(1) \<open>cg_at s = Some c\<close> by (simp add: inv_def)
      show ?thesis using a(2) Some \<open>cg_at s = Some c\<close> goesD [OF goes_clear u] by (auto simp: EmitBranch_def GetInsertBlock_def run)
    qed
  qed
qed

lemma goes_place: "bb \<notin> R \<Longrightarrow> goes R no_block (thn (link_block bb) (SetInsertPoint bb)) unfinished"
proof (rule goesI)
  fix s x s' assume bb: "bb \<notin> R" and a: "inv R no_block s" "thn (link_block bb) (SetInsertPoint bb) s = Inr (x, s')"
  have r: "bb \<notin> set (cg_order s)" "bb < cg_next s" "s' = s\<lparr>cg_order := cg_order s @ [bb], cg_at := Some bb\<rparr>" and n: "cg_at s = None"
    using a by (auto simp: link_block_def SetInsertPoint_def run inv_def split: if_splits)
  have "blocks_well R s'" using a(1) unfolding r(3) by (simp add: inv_def blocks_well_def)
  moreover have "func_well R s'" using a(1) r(1,2) bb n unfolding r(3) by (simp add: inv_def func_well_def mark_well_def)
  moreover have "unfinished (shape (cg_block s bb))" using a(1) r(1) bb by (simp add: inv_def blocks_well_def)
  ultimately show "inv R unfinished s'"
    using a(1) unfolding r(3) by (simp add: inv_def)
qed

lemma goes_block: "bb \<notin> R \<Longrightarrow> goes R either (EmitBlock bb fin) unfinished"
  unfolding EmitBlock_def
  by (intro goes_thn [OF goes_branch] goes_bnd [OF goes_same(3)] goes_if goes_place) (auto intro: goes_mono [OF goes_same(1)])

lemma goes_block_open [well]: "bb \<notin> R \<Longrightarrow> keeps R (EmitBlock bb fin)"
  by (rule goes_mono [OF goes_block]) (auto simp: either_def)

lemma goes_block_finished [well]: "bb \<notin> R \<Longrightarrow> goes R finished (EmitBlock bb fin) unfinished"
  by (rule goes_mono [OF goes_block]) (auto simp: either_def)

lemma goes_branch_open [well]: "goes R unfinished (EmitBranch b) no_block"
  by (rule goes_mono [OF goes_branch]) (auto simp: either_def)

lemma goes_create: "(\<And>b. b \<notin> R \<Longrightarrow> goes R P (f b) Q) \<Longrightarrow> goes R P (bnd CreateBasicBlock f) Q"
proof (rule goesI)
  fix s x s' assume f: "\<And>b. b \<notin> R \<Longrightarrow> goes R P (f b) Q" and a: "inv R P s" "bnd CreateBasicBlock f s = Inr (x, s')"
  let ?s = "s\<lparr>cg_next := Suc (cg_next s)\<rparr>"
  have n: "cg_next s \<notin> R" using a(1) by (auto simp: inv_def blocks_well_def)
  have i: "inv R P ?s" by (rule inv_next [OF a(1)]) simp
  have r: "f (cg_next s) ?s = Inr (x, s')" using a(2) by (simp add: CreateBasicBlock_def run)
  show "inv R Q s'"
    using goesD [OF f [OF n] i r] by simp
qed

lemma goes_ensure [well]: "keeps R EnsureInsertPoint"
  unfolding EnsureInsertPoint_def HaveInsertPoint_def GetInsertBlock_def
  by (intro goes_bnd [OF goes_bnd [OF goes_same(3) goes_same(1)]] goes_if goes_create well)

lemma goes_cleanup: "goes R unfinished (EmitBranchThroughCleanup b) no_block"
proof (rule goesI)
  fix s x s' assume a: "inv R unfinished s" "EmitBranchThroughCleanup b s = Inr (x, s')"
  show "inv R no_block s'"
  proof (cases "cg_at s = None")
    case True
    then show ?thesis using a by (simp add: EmitBranchThroughCleanup_def HaveInsertPoint_def GetInsertBlock_def run inv_def)
  next
    case False
    with a(2) obtain d where d: "thn (put_instr (I_Br d)) ClearInsertionPoint s = Inr (x, s')"
      by (auto simp: EmitBranchThroughCleanup_def HaveInsertPoint_def GetInsertBlock_def run split: option.splits)
    have g: "goes R unfinished (thn (put_instr (I_Br d)) ClearInsertionPoint) no_block"
      by (intro goes_thn [OF goes_put_terminator] well) simp
    show ?thesis using goesD [OF g a(1) d] by blast
  qed
qed

lemma goes_leave [well]: "keeps R (EmitBranchThroughCleanup b)"
  by (rule no_block_unfinished [OF goes_cleanup])

lemma goes_insert_terminator [well]: "isTerminator i \<Longrightarrow> goes R unfinished (insert_instr i) finished"
  using goes_insert [of R i] by simp

text \<open>Changes inside the blocks.\<close>

definition same_state :: "'c block \<Rightarrow> 'c block \<Rightarrow> bool" where
  "same_state xs ys \<longleftrightarrow> unfinished (shape ys) = unfinished (shape xs) \<and> finished (shape ys) = finished (shape xs)"

definition known_marks :: "nat \<Rightarrow> 'c block \<Rightarrow> 'c block \<Rightarrow> bool" where
  "known_marks n xs ys \<longleftrightarrow> (\<forall>y \<in> set ys. n \<le> fst y \<or> (\<exists>x \<in> set xs. fst x = fst y \<and> isTerminator (snd x) = isTerminator (snd y)))"

lemma inv_blocks:
  assumes "inv R unfinished s" and "\<And>b. same_state (cg_block s b) (g b)" and "\<And>b. known_marks (cg_next s) (cg_block s b) (g b)"
  shows "inv R unfinished (s\<lparr>cg_block := g\<rparr>)"
proof -
  have "mark_well (s\<lparr>cg_block := g\<rparr>)"
    using assms(1,3) unfolding inv_def func_well_def mark_well_def known_marks_def by (fastforce dest: bspec)
  then show ?thesis
    using assms(1,2) by (simp add: inv_def blocks_well_def func_well_def same_state_def)
qed

lemma known_map: "known_marks n xs (map (\<lambda>(m, i). (m, f m i)) xs)" if "\<And>m i. isTerminator (f m i) = isTerminator i"
  unfolding known_marks_def using that by fastforce

lemma same_map: "same_state xs (map (\<lambda>(m, i). (m, f m i)) xs)" if "\<And>m i. isTerminator (f m i) = isTerminator i"
  using that by (simp add: same_state_def shape_def case_prod_unfold comp_def)

lemma goes_map:
  assumes "\<And>m i. isTerminator (f m i) = isTerminator i" and "\<And>s. core (g s) = core (s\<lparr>cg_block := \<lambda>b. map (\<lambda>(m, i). (m, f m i)) (cg_block s b)\<rparr>)"
  shows "keeps R (modify g)"
proof (rule goesI)
  fix s x s' assume a: "inv R unfinished s" "modify g s = Inr (x, s')"
  have "inv R unfinished (s\<lparr>cg_block := \<lambda>b. map (\<lambda>(m, i). (m, f m i)) (cg_block s b)\<rparr>)"
    using a(1) assms(1) by (intro inv_blocks same_map known_map)
  then show "inv R unfinished s'"
    using a(2) inv_core [OF assms(2)] assms(2) by (auto simp: run core_def)
qed

lemma goes_on_instr [well]: "(\<And>i. isTerminator (f i) = isTerminator i) \<Longrightarrow> keeps R (on_instr n f)"
  unfolding on_instr_def by (rule goes_map [where f = "\<lambda>m i. if m = n then f i else i"]) (auto simp: core_def)

lemma goes_replace [well]: "keeps R (replaceAllUsesWith b b')"
  unfolding replaceAllUsesWith_def
  by (rule goes_thn [OF goes_same(2)], rule goes_map [where f = "\<lambda>m i. replace_block b b' i"]) (auto simp: core_def on_instrs_def)

lemma insert_before_set: "set (insert_before n i xs) \<subseteq> insert i (set xs)"
  by (induction xs) auto

lemma goes_alloca [well]: "keeps R (CreateEntryBlockAlloca G t al)"
proof (rule goesI)
  fix s x s' assume a: "inv R unfinished s" "CreateEntryBlockAlloca G t al s = Inr (x, s')"
  then obtain entry mark where s': "s' = s\<lparr>cg_next := Suc (cg_next s), cg_block := (cg_block s)(entry :=
      insert_before mark (cg_next s, I_Alloca t al) (cg_block s entry))\<rparr>"
    by (auto simp: CreateEntryBlockAlloca_def run result_simps Let_def split: option.splits prod.splits)
  let ?g = "(cg_block s)(entry := insert_before mark (cg_next s, I_Alloca t al) (cg_block s entry))"
  have "inv R unfinished (s\<lparr>cg_block := ?g\<rparr>)"
    by (rule inv_blocks [OF a(1)])
       (use insert_before_set [of mark "(cg_next s, I_Alloca t al)" "cg_block s entry"] in \<open>auto simp: same_state_def known_marks_def\<close>)
  then have "inv R unfinished (s\<lparr>cg_block := ?g, cg_next := Suc (cg_next s)\<rparr>)" by (rule inv_next) simp
  then have "inv R unfinished s'" by (rule inv_core [THEN iffD1, rotated]) (simp add: core_def s')
  then show "inv R unfinished s'"
    by (simp add: s')
qed

lemma goes_labels: "(\<And>b. b \<notin> R \<Longrightarrow> goes R unfinished (f b) Q) \<Longrightarrow> goes R unfinished (bnd (GetBasicBlockForLabel name) f) Q"
proof (rule goesI)
  fix s x s' assume f: "\<And>b. b \<notin> R \<Longrightarrow> goes R unfinished (f b) Q" and a: "inv R unfinished s" "bnd (GetBasicBlockForLabel name) f s = Inr (x, s')"
  show "inv R Q s'"
  proof (cases "map_of (labels s) name")
    case (Some b)
    then have "b \<notin> R" using a(1) map_of_SomeD [OF Some] by (auto simp: inv_def func_well_def)
    then show ?thesis using f a Some unfolding goes_def by (auto simp: GetBasicBlockForLabel_def run)
  next
    case None
    let ?n = "cg_next s" and ?s = "s\<lparr>cg_next := Suc (cg_next s), labels := (name, cg_next s) # labels s\<rparr>"
    have n: "?n \<notin> R" using a(1) by (auto simp: inv_def blocks_well_def)
    have "inv R unfinished (s\<lparr>cg_next := Suc (cg_next s)\<rparr>)" by (rule inv_next [OF a(1)]) simp
    then have i: "inv R unfinished ?s" using n by (simp add: inv_def blocks_well_def func_well_def mark_well_def)
    have r: "f ?n ?s = Inr (x, s')" using a(2) None by (simp add: GetBasicBlockForLabel_def CreateBasicBlock_def run)
    show ?thesis using goesD [OF f [OF n] i r] by simp
  qed
qed

lemma goes_simplify: "bb \<notin> R \<Longrightarrow> keeps R (SimplifyForwardingBlocks bb)"
proof (rule goesI)
  fix s x s' assume bb: "bb \<notin> R" and a: "inv R unfinished s" "SimplifyForwardingBlocks bb s = Inr (x, s')"
  show "inv R unfinished s'"
  proof (cases "\<exists>c. getTerminator s bb = Some (I_Br c)")
    case False
    then show ?thesis using a by (auto simp: SimplifyForwardingBlocks_def run split: option.splits instr.splits)
  next
    case True
    then obtain c where c: "getTerminator s bb = Some (I_Br c)" by blast
    from a(2) c obtain s1 where 1: "replaceAllUsesWith bb c s = Inr ((), s1)"
      "s' = s1\<lparr>cg_order := remove1 bb (cg_order s1), cg_block := (cg_block s1)(bb := [])\<rparr>"
      by (auto simp: SimplifyForwardingBlocks_def run result_simps)
    note i = goesD [OF goes_replace a(1) 1(1)]
    have same: "cg_order s1 = cg_order s" "cg_at s1 = cg_at s"
      using 1(1) by (auto simp: replaceAllUsesWith_def on_instrs_def run split: if_splits)
    have "cg_at s \<noteq> Some bb" using terminator_shape [of s bb] c at_facts [OF a(1)] by auto
    then have at: "cg_at s1 \<noteq> Some bb" by (simp add: same)
    have d: "distinct (cg_order s1)" using i(1) by (simp add: inv_def func_well_def)
    have "blocks_well R s'" using i(1) bb d by (auto simp: 1(2) inv_def blocks_well_def set_remove1_eq)
    moreover have "func_well R s'" using i(1) at d by (auto simp: 1(2) inv_def func_well_def mark_well_def)
    ultimately have "inv R unfinished s'" using i(1) at by (simp add: 1(2) inv_def)
    then show ?thesis .
  qed
qed

lemmas control = goes_thn goes_bnd goes_if goes_Let goes_prod goes_option goes_list
lemmas fresh = goes_create goes_labels

lemma goes_none [well]: "bb \<notin> R \<Longrightarrow> goes R no_block (EmitBlock bb fin) unfinished"
  by (rule goes_mono [OF goes_block]) auto

subsection \<open>Blocks keep their place\<close>

text \<open>A block numbered below \<open>k\<close> that has a place has one afterwards; no function is finished meanwhile.\<close>

definition stays :: "nat \<Rightarrow> ('c, 'a) gen \<Rightarrow> bool" where
  "stays k m \<longleftrightarrow> (\<forall>s x s'. k \<le> cg_next s \<longrightarrow> m s = Inr (x, s') \<longrightarrow> cg_next s \<le> cg_next s' \<and> bodies_done s' = bodies_done s \<and>
     (\<forall>b < k. b \<in> set (cg_order s) \<longrightarrow> b \<in> set (cg_order s')))"

lemma staysI: "(\<And>s x s'. k \<le> cg_next s \<Longrightarrow> m s = Inr (x, s') \<Longrightarrow> cg_next s \<le> cg_next s' \<and> bodies_done s' = bodies_done s \<and>
    (\<forall>b < k. b \<in> set (cg_order s) \<longrightarrow> b \<in> set (cg_order s'))) \<Longrightarrow> stays k m"
  unfolding stays_def by blast

lemma staysD: "stays k m \<Longrightarrow> k \<le> cg_next s \<Longrightarrow> m s = Inr (x, s') \<Longrightarrow> cg_next s \<le> cg_next s' \<and> bodies_done s' = bodies_done s \<and>
    (\<forall>b < k. b \<in> set (cg_order s) \<longrightarrow> b \<in> set (cg_order s'))"
  unfolding stays_def by blast

lemma stays_bnd: "stays k m \<Longrightarrow> (\<And>x. stays k (f x)) \<Longrightarrow> stays k (bnd m f)"
proof (rule staysI)
  fix s y s' assume m: "stays k m" and f: "\<And>x. stays k (f x)" and a: "k \<le> cg_next s" "bnd m f s = Inr (y, s')"
  from a(2) obtain x s1 where 1: "m s = Inr (x, s1)" "f x s1 = Inr (y, s')" by (auto simp: run result_simps)
  from staysD [OF m a(1) 1(1)] have 2: "cg_next s \<le> cg_next s1" "bodies_done s1 = bodies_done s" "\<forall>b < k. b \<in> set (cg_order s) \<longrightarrow> b \<in> set (cg_order s1)" by auto
  from staysD [OF f _ 1(2)] a(1) 2 show "cg_next s \<le> cg_next s' \<and> bodies_done s' = bodies_done s \<and> (\<forall>b < k. b \<in> set (cg_order s) \<longrightarrow> b \<in> set (cg_order s'))"
    by auto
qed

lemma stays_thn: "stays k m \<Longrightarrow> stays k m' \<Longrightarrow> stays k (thn m m')"
  unfolding thn_def by (rule stays_bnd)

lemma stays_same [well]:
  "stays k (failP e)" "stays k (Error t)" "stays k (ret x)" "stays k (assertP c)" "stays k (gets g)" "stays k (getsE g')" "stays k (liftR r)"
  by (auto simp: stays_def run result_simps split: if_splits)

lemma stays_if: "(c \<Longrightarrow> stays k a) \<Longrightarrow> (\<not> c \<Longrightarrow> stays k b) \<Longrightarrow> stays k (if c then a else b)"
  by simp

lemma stays_Let: "(\<And>v. stays k (f v)) \<Longrightarrow> stays k (Let v f)"
  by simp

lemma stays_prod: "(\<And>a b. stays k (f a b)) \<Longrightarrow> stays k (case p of (a, b) \<Rightarrow> f a b)"
  by (cases p) simp

lemma stays_option: "stays k a \<Longrightarrow> (\<And>x. stays k (f x)) \<Longrightarrow> stays k (case o' of None \<Rightarrow> a | Some x \<Rightarrow> f x)"
  by (cases o') auto

lemma stays_list: "stays k a \<Longrightarrow> (\<And>x xs. stays k (f x xs)) \<Longrightarrow> stays k (case l of [] \<Rightarrow> a | x # xs \<Rightarrow> f x xs)"
  by (cases l) auto

lemmas stay_control = stays_thn stays_bnd stays_if stays_Let stays_prod stays_option stays_list

lemma stays_for_each: "(\<And>x. stays k (f x)) \<Longrightarrow> stays k (for_each f xs)"
  by (induction xs) (auto intro: well stays_thn)

lemma stays_mapP: "(\<And>x. stays k (f x)) \<Longrightarrow> stays k (mapP f xs)"
  by (induction xs) (auto intro!: well stays_bnd)

lemma stays_foldP: "(\<And>x y. stays k (f x y)) \<Longrightarrow> stays k (foldP f xs y)"
  by (induction xs arbitrary: y) (auto intro!: well stays_bnd)

lemma stays_modify: "(\<And>s. cg_next (f s) = cg_next s \<and> cg_order (f s) = cg_order s \<and> bodies_done (f s) = bodies_done s) \<Longrightarrow> stays k (modify f)"
  by (auto simp: stays_def run)

lemma stays_builder [well]:
  "stays k (set_result v)" "stays k result_of" "stays k (llvm_type G t)" "stays k (insert_instr i)" "stays k ClearInsertionPoint"
  "stays k (on_instr n f)" "stays k (replaceAllUsesWith b b')" "stays k CreateBasicBlock" "stays k (link_block b)"
  "stays k (SetInsertPoint b)" "stays k (CreateEntryBlockAlloca G lt al)"
  by (auto simp: stays_def run set_result_def result_of_def llvm_type_def insert_instr_def ClearInsertionPoint_def on_instr_def
      replaceAllUsesWith_def on_instrs_def CreateBasicBlock_def link_block_def SetInsertPoint_def CreateEntryBlockAlloca_def
      Let_def result_simps split: option.splits if_splits)

lemma stays_more [well]:
  "stays k (put_instr i)" "stays k (emit G i)" "stays k (build G i)" "stays k (EmitBranch b)" "stays k (EmitBlock b fin)"
  "stays k EnsureInsertPoint" "stays k (EmitBranchThroughCleanup b')" "stays k (GetBasicBlockForLabel name)"
  unfolding put_instr_def emit_def build_def EmitBranch_def EmitBlock_def EnsureInsertPoint_def HaveInsertPoint_def GetInsertBlock_def
    EmitBranchThroughCleanup_def GetBasicBlockForLabel_def
  by (rule stay_control well stays_modify | simp)+

lemma stays_simplify: "k \<le> bb \<Longrightarrow> stays k (SimplifyForwardingBlocks bb)"
  by (auto simp: stays_def SimplifyForwardingBlocks_def replaceAllUsesWith_def on_instrs_def run split: option.splits instr.splits if_splits)

text \<open>A new block is not below \<open>k\<close>.\<close>

lemma stays_create: "(\<And>b. k \<le> b \<Longrightarrow> stays k (f b)) \<Longrightarrow> stays k (bnd CreateBasicBlock f)"
proof (rule staysI)
  fix s x s' assume f: "\<And>b. k \<le> b \<Longrightarrow> stays k (f b)" and a: "k \<le> cg_next s" "bnd CreateBasicBlock f s = Inr (x, s')"
  have "f (cg_next s) (s\<lparr>cg_next := Suc (cg_next s)\<rparr>) = Inr (x, s')" using a(2) by (simp add: CreateBasicBlock_def run)
  from staysD [OF f [OF a(1)] _ this] a(1)
  show "cg_next s \<le> cg_next s' \<and> bodies_done s' = bodies_done s \<and> (\<forall>b < k. b \<in> set (cg_order s) \<longrightarrow> b \<in> set (cg_order s'))" by simp
qed

text \<open>Case distinctions.\<close>

lemma goes_expr: "(\<And>a b c. goes R A (f1 a b c) B) \<Longrightarrow> (\<And>a b. goes R A (f2 a b) B)
    \<Longrightarrow> (\<And>a b c d. goes R A (f3 a b c d) B) \<Longrightarrow> (\<And>a b c d. goes R A (f4 a b c
    d) B) \<Longrightarrow> (\<And>a b c d. goes R A (f5 a b c d) B) \<Longrightarrow> (\<And>a b. goes R A (f6 a b)
    B) \<Longrightarrow> (\<And>a b. goes R A (f7 a b) B) \<Longrightarrow> (\<And>a b. goes R A (f8 a b) B)
    \<Longrightarrow> (\<And>a. goes R A (f9 a) B) \<Longrightarrow> (\<And>a b. goes R A (f10 a b) B)
    \<Longrightarrow> goes R A (case t of EUnary a b c \<Rightarrow> f1 a b c | ECast a b \<Rightarrow> f2 a b |
    EBinary a b c d \<Rightarrow> f3 a b c d | ECond a b c d \<Rightarrow> f4 a b c d | ECall a b c d \<Rightarrow>
    f5 a b c d | EInt a b \<Rightarrow> f6 a b | EFloat a b \<Rightarrow> f7 a b | EString a b \<Rightarrow> f8 a b
    | EIdent a \<Rightarrow> f9 a | EStmt a b \<Rightarrow> f10 a b) B"
  by (cases t) simp_all

lemma stays_expr: "(\<And>a b c. stays k (f1 a b c)) \<Longrightarrow> (\<And>a b. stays k (f2 a b))
    \<Longrightarrow> (\<And>a b c d. stays k (f3 a b c d)) \<Longrightarrow> (\<And>a b c d. stays k (f4 a b c d))
    \<Longrightarrow> (\<And>a b c d. stays k (f5 a b c d)) \<Longrightarrow> (\<And>a b. stays k (f6 a b))
    \<Longrightarrow> (\<And>a b. stays k (f7 a b)) \<Longrightarrow> (\<And>a b. stays k (f8 a b))
    \<Longrightarrow> (\<And>a. stays k (f9 a)) \<Longrightarrow> (\<And>a b. stays k (f10 a b)) \<Longrightarrow>
    stays k (case t of EUnary a b c \<Rightarrow> f1 a b c | ECast a b \<Rightarrow> f2 a b | EBinary a b c d
    \<Rightarrow> f3 a b c d | ECond a b c d \<Rightarrow> f4 a b c d | ECall a b c d \<Rightarrow> f5 a b c d |
    EInt a b \<Rightarrow> f6 a b | EFloat a b \<Rightarrow> f7 a b | EString a b \<Rightarrow> f8 a b | EIdent a
    \<Rightarrow> f9 a | EStmt a b \<Rightarrow> f10 a b)"
  by (cases t) simp_all

lemma goes_ident: "(\<And>a b c d. goes R A (f1 a b c d) B) \<Longrightarrow> (\<And>a b. goes R A (f2 a b) B)
    \<Longrightarrow> (\<And>a b. goes R A (f3 a b) B) \<Longrightarrow> goes R A (case t of Ident a b c d
    \<Rightarrow> f1 a b c d | Enumerator a b \<Rightarrow> f2 a b | Object a b \<Rightarrow> f3 a b) B"
  by (cases t) simp_all

lemma stays_ident: "(\<And>a b c d. stays k (f1 a b c d)) \<Longrightarrow> (\<And>a b. stays k (f2 a b))
    \<Longrightarrow> (\<And>a b. stays k (f3 a b)) \<Longrightarrow> stays k (case t of Ident a b c d \<Rightarrow>
    f1 a b c d | Enumerator a b \<Rightarrow> f2 a b | Object a b \<Rightarrow> f3 a b)"
  by (cases t) simp_all

lemma goes_ctype: "(goes R A (f1) B) \<Longrightarrow> (\<And>a. goes R A (f2 a) B) \<Longrightarrow> (\<And>a b.
    goes R A (f3 a b) B) \<Longrightarrow> (\<And>a b c. goes R A (f4 a b c) B) \<Longrightarrow> (\<And>a b. goes R
    A (f5 a b) B) \<Longrightarrow> (\<And>a b c d e. goes R A (f6 a b c d e) B) \<Longrightarrow> goes R A (case t
    of VoidT \<Rightarrow> f1 | ArithT a \<Rightarrow> f2 a | PointerT a b \<Rightarrow> f3 a b | ArrayT a b c
    \<Rightarrow> f4 a b c | StructT a b \<Rightarrow> f5 a b | FuncT a b c d e \<Rightarrow> f6 a b c d e) B"
  by (cases t) simp_all

lemma stays_ctype: "(stays k (f1)) \<Longrightarrow> (\<And>a. stays k (f2 a)) \<Longrightarrow> (\<And>a b. stays k
    (f3 a b)) \<Longrightarrow> (\<And>a b c. stays k (f4 a b c)) \<Longrightarrow> (\<And>a b. stays k (f5 a b))
    \<Longrightarrow> (\<And>a b c d e. stays k (f6 a b c d e)) \<Longrightarrow> stays k (case t of VoidT
    \<Rightarrow> f1 | ArithT a \<Rightarrow> f2 a | PointerT a b \<Rightarrow> f3 a b | ArrayT a b c \<Rightarrow>
    f4 a b c | StructT a b \<Rightarrow> f5 a b | FuncT a b c d e \<Rightarrow> f6 a b c d e)"
  by (cases t) simp_all

lemma goes_bool: "goes R A f1 B \<Longrightarrow> goes R A f2 B \<Longrightarrow> goes R A (case t of True \<Rightarrow> f1 | False \<Rightarrow> f2) B"
  by (cases t) simp_all

lemma stays_bool: "stays k f1 \<Longrightarrow> stays k f2 \<Longrightarrow> stays k (case t of True \<Rightarrow> f1 | False \<Rightarrow> f2)"
  by (cases t) simp_all

lemmas rules = control stay_control goes_bool stays_bool goes_expr stays_expr goes_ident stays_ident goes_ctype stays_ctype

subsection \<open>Operators\<close>

lemma well_calc [well]: "goes R P (calc G e) P" "stays k (calc G e)"
  unfolding calc_def by (rule well)+

lemma well_flags [well]:
  "goes R P (set_volatile b) P" "goes R P leave_bit_field P" "goes R P TestAndClearIgnoreAssignResult P"
  "goes R P SetIgnoreAssignResult P" "goes R P (PushBlock bb cb) P" "goes R P PopBlock P" "goes R P the_bit_field P"
  "stays k (set_volatile b)" "stays k leave_bit_field" "stays k TestAndClearIgnoreAssignResult" "stays k SetIgnoreAssignResult"
  "stays k (PushBlock bb cb)" "stays k PopBlock" "stays k the_bit_field"
  unfolding set_volatile_def leave_bit_field_def TestAndClearIgnoreAssignResult_def SetIgnoreAssignResult_def PushBlock_def
    PopBlock_def the_bit_field_def
  by (rule goes_core stays_modify rules well | simp add: core_def)+

lemma well_with_struct [well]: "goes R P m P \<Longrightarrow> goes R P (with_struct m) P" "stays k m \<Longrightarrow> stays k (with_struct m)"
  unfolding with_struct_def by (rule goes_core stays_modify rules well | assumption | simp add: core_def)+

lemma well_CastToBool [well]: "keeps R (CastToBool G v)" "stays k (CastToBool G v)"
  unfolding CastToBool_def by (rule rules well | simp)+

lemma well_CastTo [well]: "keeps R (CastTo G v t u)" "stays k (CastTo G v t u)"
  unfolding CastTo_def ext_or_trunc_def by (rule rules well | simp)+

lemma well_load_store [well]: "keeps R (CreateLoad G p)" "keeps R (CreateStore v p)" "keeps R (plain_load G p)"
  "stays k (CreateLoad G p)" "stays k (CreateStore v p)" "stays k (plain_load G p)"
  unfolding CreateLoad_def CreateStore_def plain_load_def by (rule rules well | simp)+

lemma well_binary_value [well]: "keeps R (binary_value G op a b u)" "stays k (binary_value G op a b u)"
  unfolding binary_value_def CodeGen_AddOp_def CodeGen_SubOp_def CodeGen_SubOp_int_def CodeGen_MulOp_def CodeGen_DivOp_def
    CodeGen_ModOp_def CodeGen_OrOp_def CodeGen_AndOp_def CodeGen_XorOp_def CodeGen_ShlOp_def CodeGen_ShrOp_def compare_to_int_def
    CodeGen_order_def CodeGen_LessEqualOp_def CodeGen_LessOp_def CodeGen_GreaterEqualOp_def CodeGen_GreaterOp_def
    CodeGen_equality_def CodeGen_EqualOp_def CodeGen_NotEqualOp_def
  by (rule rules well | simp)+

lemma well_unary [well]:
  "keeps R (CodeGen_NegOp G v u)" "keeps R (CodeGen_LogicNotOp G v)" "keeps R (CodeGen_GetBitField G v sz wd bgn)"
  "keeps R (CodeGen_GetBitFieldValue G v sz wd bgn u)" "keeps R (field_value G n v)" "keeps R (as_int G v)" "keeps R (one_of G lt)"
  "keeps R (CodeGen_AddOp G a b u)"
  "stays k (CodeGen_NegOp G v u)" "stays k (CodeGen_LogicNotOp G v)" "stays k (CodeGen_GetBitField G v sz wd bgn)"
  "stays k (CodeGen_GetBitFieldValue G v sz wd bgn u)" "stays k (field_value G n v)" "stays k (as_int G v)" "stays k (one_of G lt)"
  "stays k (CodeGen_AddOp G a b u)"
  unfolding CodeGen_NegOp_def CodeGen_LogicNotOp_def CodeGen_GetBitField_def CodeGen_GetBitFieldValue_def field_value_def as_int_def
    one_of_def CodeGen_AddOp_def
  by (rule rules well | simp)+

lemma well_globals [well]:
  "goes R P (GetDecl G n e) P" "goes R P (upd_global p gf) P" "goes R P (named_global G name n v) P"
  "goes R P (set_global_init G p n d) P" "goes R P (set_global_align G p n) P"
  "stays k (GetDecl G n e)" "stays k (upd_global p gf)" "stays k (named_global G name n v)"
  "stays k (set_global_init G p n d)" "stays k (set_global_align G p n)"
  unfolding GetDecl_def named_global_def set_global_init_def set_global_align_def upd_global_def
  by (rule goes_core stays_modify rules well | simp add: core_def)+

lemma well_pointers [well]:
  "goes R P (CreateGlobalVar G n) P" "goes R P (GetGlobalPtr G n) P" "goes R P (GetLocalPtr n) P" "goes R P (SetLocalPtr n v) P"
  "stays k (CreateGlobalVar G n)" "stays k (GetGlobalPtr G n)" "stays k (GetLocalPtr n)" "stays k (SetLocalPtr n v)"
  unfolding CreateGlobalVar_def GetGlobalPtr_def GetLocalPtr_def SetLocalPtr_def
  by (rule goes_core stays_modify rules well | simp add: core_def)+

lemma well_objects [well]:
  "goes R P (object_ptr G n) P" "goes R P (module_func name f) P" "goes R P (intrinsic G name lt) P" "goes R P (by_class lt a b) P"
  "goes R P (first_arg args) P" "goes R P (second_arg args) P" "goes R P (fabs_f32 G) P"
  "stays k (object_ptr G n)" "stays k (module_func name f)" "stays k (intrinsic G name lt)" "stays k (by_class lt a b)"
  "stays k (first_arg args)" "stays k (second_arg args)" "stays k (fabs_f32 G)"
  unfolding object_ptr_def module_func_def intrinsic_def by_class_def first_arg_def second_arg_def fabs_f32_def
  by (rule goes_core stays_modify rules well | simp add: core_def)+

lemma well_places [well]:
  "keeps R (field_pointer G n p)" "keeps R (Assign G p v u)"
  "stays k (field_pointer G n p)" "stays k (Assign G p v u)"
  unfolding field_pointer_def Assign_def by (rule rules well | simp)+

lemma well_member_step [well]: "keeps R (member_step G st p)" "stays k (member_step G st p)"
  by (cases st; cases "fst st"; auto simp: member_step_def split: bool.splits intro!: rules well)+

text \<open>Steps of statements.\<close>

lemma goes_test: "goes R unfinished (if c then put_instr (I_CondBr v b b') else ret ()) either"
  using goes_mono [OF goes_put_terminator [of "I_CondBr v b b'" R], of unfinished either]
    goes_mono [OF goes_same(1) [of R unfinished "()"], of unfinished either]
  by (cases c) (simp_all add: either_def)

lemma goes_empty: "(d \<notin> R \<Longrightarrow> keeps R m) \<Longrightarrow> keeps R (bnd (gets (\<lambda>st. cg_block st d)) (\<lambda>bl. thn (assertP (bl = [])) m))"
proof (rule goesI)
  fix s x s' assume m: "d \<notin> R \<Longrightarrow> keeps R m" and i: "inv R unfinished s"
    and a: "bnd (gets (\<lambda>st. cg_block st d)) (\<lambda>bl. thn (assertP (bl = [])) m) s = Inr (x, s')"
  from a have e: "cg_block s d = []" "m s = Inr (x, s')" by (simp_all add: run split: if_splits)
  have "d \<notin> R" using i e(1) by (auto simp: inv_def blocks_well_def)
  from goesD [OF m [OF this] i e(2)] show "inv R unfinished s'" .
qed

lemma goes_perhaps:
  assumes "b0 \<notin> R" and "\<And>b. b \<notin> R \<Longrightarrow> goes R A (f b) B"
  shows "goes R A (bnd (if c then ret b0 else CreateBasicBlock) f) B" "goes R A (bnd (if c then CreateBasicBlock else ret b0) f) B"
proof -
  have "goes R A (bnd (ret b0) f) B" using assms(2) [OF assms(1)] by (simp add: goes_def run)
  with goes_create [OF assms(2)] show "goes R A (bnd (if c then ret b0 else CreateBasicBlock) f) B"
    "goes R A (bnd (if c then CreateBasicBlock else ret b0) f) B" by auto
qed

subsection \<open>Visitors\<close>

text \<open>What is asked of the visitors of the sub-trees. A branch leaves the block finished.\<close>

locale well_visitors =
  fixes R :: "nat set" and P :: "'c visitors"
  assumes expr: "keeps R (v_expr P e)" and stmt: "keeps R (v_stmt P st)" and ptr: "keeps R (v_ptr P e)"
    and branch: "goes R unfinished (v_branch P e t f) finished"
    and expr_stays: "stays k (v_expr P e)" and stmt_stays: "stays k (v_stmt P st)" and ptr_stays: "stays k (v_ptr P e)"
    and branch_stays: "stays k (v_branch P e t f)"
begin

lemmas visits = expr stmt ptr branch expr_stays stmt_stays ptr_stays branch_stays

lemma well_value: "keeps R (value_of P e)" "stays k (value_of P e)"
  unfolding value_of_def by (rule rules well visits)+

lemma well_bool: "keeps R (EvaluateExprAsBool G P e)" "stays k (EvaluateExprAsBool G P e)"
  unfolding EvaluateExprAsBool_def by (rule rules well visits)+

lemma well_condition: "goes R unfinished (branch_on_value G P e t f) finished" "stays k (branch_on_value G P e t f)"
  unfolding branch_on_value_def by (rule rules well well_bool | simp)+

lemma well_branch: "goes R unfinished (EmitBranchOnBoolExpr G P e t f) finished" "stays k (EmitBranchOnBoolExpr G P e t f)"
  unfolding EmitBranchOnBoolExpr_def by (rule well_condition fresh stays_create rules well visits | simp)+

lemma well_GetPtr: "keeps R (GetPtr G P e)" "stays k (GetPtr G P e)"
  unfolding GetPtr_def
  by (rule well_value goes_foldP stays_foldP goes_core stays_modify rules well visits | simp add: core_def)+

lemmas steps = well_value well_bool well_condition well_branch well_GetPtr fresh stays_create goes_foldP stays_foldP goes_mapP
  stays_mapP goes_for_each stays_for_each goes_core stays_modify rules well visits

lemma well_assign:
  "keeps R (AssignOp G P l r)" "keeps R (IncOrDec G P e inc post)" "keeps R (deref_value G P e q)" "keeps R (Deref G P e q)"
  "keeps R (MemberRef G P e)"
  "stays k (AssignOp G P l r)" "stays k (IncOrDec G P e inc post)" "stays k (deref_value G P e q)" "stays k (Deref G P e q)"
  "stays k (MemberRef G P e)"
  unfolding AssignOp_def IncOrDec_def Deref_def deref_value_def MemberRef_def by (rule steps | simp)+

lemma EmitBranch_returns: "\<exists>s'. EmitBranch b s = Inr ((), s') \<and> cg_order s' = cg_order s"
proof (cases "cg_at s")
  case None
  then show ?thesis by (simp add: EmitBranch_def GetInsertBlock_def ClearInsertionPoint_def run)
next
  case (Some c)
  then show ?thesis
    by (cases "getTerminator s c") (simp_all add: EmitBranch_def GetInsertBlock_def ClearInsertionPoint_def put_instr_def insert_instr_def run Let_def)
qed

text \<open>
  The phi node goes to the end of a block that has no place yet: if it had one, the block would be
  placed a second time later.
\<close>

lemma join_fails:
  assumes "end_block < k" and "k \<le> cg_next s" and "end_block \<in> set (cg_order s)"
  shows "join_logic G P known rhs_block end_block r s \<noteq> Inr (x, s')"
proof
  assume a: "join_logic G P known rhs_block end_block r s = Inr (x, s')"
  then obtain phi s1 v s2 where 1: "phi_in end_block (LInt 1) (map (\<lambda>b. (known, b)) (predecessors s end_block)) s = Inr (phi, s1)"
    "thn (EmitBlock rhs_block False) (EvaluateExprAsBool G P r) s1 = Inr (v, s2)" "EmitBlock end_block False s2 \<notin> {Inl Assert_Fail, Inl Null_Deref}"
    by (fastforce simp: join_logic_def run result_simps GetInsertBlock_def)
  have "cg_next s \<le> cg_next s1" "cg_order s1 = cg_order s" using 1(1) by (auto simp: phi_in_def Let_def)
  moreover have "stays k (thn (EmitBlock rhs_block False) (EvaluateExprAsBool G P r))" by (rule steps)+
  ultimately have "k \<le> cg_next s2" "end_block \<in> set (cg_order s2)" 
    using staysD [of k "thn (EmitBlock rhs_block False) (EvaluateExprAsBool G P r)" s1 v s2] 1(2) assms by auto
  moreover obtain s3 where s3: "EmitBranch end_block s2 = Inr ((), s3)" "cg_order s3 = cg_order s2"
    using EmitBranch_returns by blast
  ultimately have "EmitBlock end_block False s2 \<in> {Inl Assert_Fail, Inl Null_Deref}"
    by (simp add: EmitBlock_def run link_block_def)
  with 1(3) show False by simp
qed

end

lemma goes_phi:
  assumes b: "b \<notin> R" and i: "inv R finished s" and o: "b \<notin> set (cg_order s)" and r: "phi_in b lt vs s = Inr (n, s')"
  shows "inv R finished s'"
proof -
  have s': "s' = s\<lparr>cg_next := Suc (cg_next s), cg_block := (cg_block s)(b := cg_block s b @ [(cg_next s, I_Phi lt vs)])\<rparr>"
    using r by (auto simp: phi_in_def Let_def)
  have "blocks_well R s'" using i b unfolding s' inv_def blocks_well_def by (auto simp: less_Suc_eq)
  moreover have "mark_well s'" using i unfolding s' inv_def func_well_def mark_well_def by (auto simp: less_Suc_eq)
  then have "func_well R s'" using i o unfolding s' inv_def func_well_def by auto
  moreover have "cg_at s \<noteq> Some b" using i o by (auto simp: inv_def func_well_def)
  ultimately show ?thesis using i by (simp add: inv_def s')
qed

context well_visitors
begin

lemma well_join:
  assumes "end_block < k" and "end_block \<notin> R" and "rhs_block \<notin> R" and "inv R finished s" and "k \<le> cg_next s"
    and "join_logic G P known rhs_block end_block r s = Inr (x, s')"
  shows "inv R unfinished s'"
proof -
  have "end_block \<notin> set (cg_order s)" using join_fails [OF assms(1,5)] assms(6) by blast
  obtain phi s1 where 1: "phi_in end_block (LInt 1) (map (\<lambda>b. (known, b)) (predecessors s end_block)) s = Inr (phi, s1)"
    using assms(6) by (auto simp: join_logic_def run result_simps)
  let ?m = "thn (EmitBlock rhs_block False) (bnd (EvaluateExprAsBool G P r) (\<lambda>rhs_value. bnd GetInsertBlock (\<lambda>rhs_end.
      thn (EmitBlock end_block False) (thn (addIncoming phi rhs_value rhs_end) (as_int G (Reg phi (LInt 1)))))))"
  have "?m s1 = Inr (x, s')" using assms(6) 1 by (simp add: join_logic_def run)
  moreover have "inv R finished s1" using goes_phi [OF assms(2,4) _ 1] \<open>end_block \<notin> set (cg_order s)\<close> .
  moreover have "goes R finished ?m unfinished"
    unfolding GetInsertBlock_def addIncoming_def by (rule steps | simp add: assms(2,3))+
  ultimately show ?thesis using goesD [of R finished ?m unfinished s1 x s'] by blast
qed

lemma well_short_circuit:
  assumes "rhs_block \<notin> R"
  shows "keeps R (bnd CreateBasicBlock (\<lambda>end_block. thn (v_branch P l (t end_block) (f end_block)) (join_logic G P known rhs_block end_block r)))"
proof (rule goesI)
  fix s x s' assume i: "inv R unfinished s"
    and a: "bnd CreateBasicBlock (\<lambda>end_block. thn (v_branch P l (t end_block) (f end_block)) (join_logic G P known rhs_block end_block r)) s = Inr (x, s')"
  let ?n = "cg_next s" and ?s = "s\<lparr>cg_next := Suc (cg_next s)\<rparr>"
  have n: "?n \<notin> R" using i by (auto simp: inv_def blocks_well_def)
  obtain y s1 where 1: "v_branch P l (t ?n) (f ?n) ?s = Inr (y, s1)" "join_logic G P known rhs_block ?n r s1 = Inr (x, s')"
    using a by (auto simp: CreateBasicBlock_def run result_simps)
  have "inv R unfinished ?s" by (rule inv_next [OF i]) simp
  then have "inv R finished s1" using goesD [OF branch] 1(1) by blast
  moreover have "Suc ?n \<le> cg_next s1" using staysD [OF branch_stays [of "Suc ?n"] _ 1(1)] by simp
  ultimately show "inv R unfinished s'" using well_join [OF _ n assms, of "Suc ?n"] 1(2) by blast
qed

lemma stays_join: "stays k (join_logic G P known rhs_block end_block r)"
proof -
  have phi: "stays k (phi_in end_block (LInt 1) vs)" for vs by (auto simp: stays_def phi_in_def Let_def)
  show ?thesis unfolding join_logic_def GetInsertBlock_def addIncoming_def by (rule phi steps)+
qed

lemma well_logic:
  "keeps R (CodeGen_LogicOrOp G P l r)" "keeps R (CodeGen_LogicAndOp G P l r)"
  "stays k (CodeGen_LogicOrOp G P l r)" "stays k (CodeGen_LogicAndOp G P l r)"
  unfolding CodeGen_LogicOrOp_def CodeGen_LogicAndOp_def
  by (rule well_short_circuit stays_join steps | simp)+

lemma well_va:
  "keeps R (VaStart G P e)" "keeps R (VaEnd G P e)" "keeps R (VaCopy G P e e')" "keeps R (VaArg G P e lt)"
  "stays k (VaStart G P e)" "stays k (VaEnd G P e)" "stays k (VaCopy G P e e')" "stays k (VaArg G P e lt)"
  unfolding VaStart_def VaEnd_def VaStartEnd_def VaCopy_def VaArg_def by (rule steps | simp)+

lemma well_functions:
  "keeps R (SyncSynchronize G)" "keeps R (Alloc G P e)" "keeps R (PopCount G P e)" "keeps R (Clz G P e)" "keeps R (Ctz G P e)"
  "keeps R (IsInfSign G P e)" "keeps R (IsFinite G P e)"
  "stays k (SyncSynchronize G)" "stays k (Alloc G P e)" "stays k (PopCount G P e)" "stays k (Clz G P e)" "stays k (Ctz G P e)"
  "stays k (IsInfSign G P e)" "stays k (IsFinite G P e)"
  unfolding SyncSynchronize_def Alloc_def PopCount_def Clz_def Ctz_def count_zeros_def IsInfSign_def IsFinite_def
  by (rule steps | simp)+

lemma well_builtin: "keeps R (MayCallBuiltinFunc G P f args vt)" "stays k (MayCallBuiltinFunc G P f args vt)"
  unfolding MayCallBuiltinFunc_def Let_def by (rule well_va well_functions steps | simp)+

lemma well_operators:
  "keeps R (Visit_UnaryOpExpr G P op e q)" "keeps R (Visit_TypeCastExpr G P e q)" "keeps R (Visit_BinaryOpExpr G P op l r q)"
  "keeps R (Visit_FuncCallExpr G P f args vt)"
  "stays k (Visit_UnaryOpExpr G P op e q)" "stays k (Visit_TypeCastExpr G P e q)" "stays k (Visit_BinaryOpExpr G P op l r q)"
  "stays k (Visit_FuncCallExpr G P f args vt)"
  unfolding Visit_UnaryOpExpr_def Visit_TypeCastExpr_def Visit_BinaryOpExpr_def Visit_FuncCallExpr_def
  by (rule well_assign well_logic well_builtin steps | simp)+

lemma well_conditional: "keeps R (Visit_ConditionOpExpr G P c l r)" "stays k (Visit_ConditionOpExpr G P c l r)"
  unfolding Visit_ConditionOpExpr_def GetInsertBlock_def addIncoming_def by (rule steps | simp)+

lemma well_leaves:
  "keeps R (Visit_ConstantExpr G q f g)" "keeps R (Visit_StringLiteralExpr G q str)" "keeps R (Visit_IdentifierExpr G name q lk)"
  "keeps R (Visit_EnumeratorExpr G v)" "keeps R (Visit_ObjectExpr G n)" "keeps R (Visit_StmtExpr P ss)"
  "stays k (Visit_ConstantExpr G q f g)" "stays k (Visit_StringLiteralExpr G q str)" "stays k (Visit_IdentifierExpr G name q lk)"
  "stays k (Visit_EnumeratorExpr G v)" "stays k (Visit_ObjectExpr G n)" "stays k (Visit_StmtExpr P ss)"
  unfolding Visit_ConstantExpr_def Visit_StringLiteralExpr_def Visit_IdentifierExpr_def Visit_EnumeratorExpr_def Visit_ObjectExpr_def
    Visit_StmtExpr_def
  by (rule steps | simp)+

lemma well_expr: "keeps R (Accept_expr G P e)" "stays k (Accept_expr G P e)"
  unfolding Accept_expr_def by (rule well_operators well_conditional well_leaves steps)+

text \<open>Statements.\<close>

lemma stmt_none: "goes R no_block (v_stmt P st) unfinished"
  by (rule goes_mono [OF stmt]) auto

lemmas stmt_steps = goes_perhaps goes_test goes_empty goes_simplify stays_simplify stmt_none goes_block steps

lemma well_labels:
  "keeps R (Visit_LabelStmt P name st)" "keeps R (Visit_CaseStmt P a b st)" "keeps R (Visit_DefaultStmt P st)" "keeps R (Visit_GotoStmt name)"
  "stays k (Visit_LabelStmt P name st)" "stays k (Visit_CaseStmt P a b st)" "stays k (Visit_DefaultStmt P st)" "stays k (Visit_GotoStmt name)"
  unfolding Visit_LabelStmt_def Visit_CaseStmt_def add_cases_def the_switch_def Visit_DefaultStmt_def getDefaultDest_def Visit_GotoStmt_def
  by (rule stmt_steps | simp)+

lemma well_simple:
  "keeps R (Visit_CompoundStmt P ss)" "keeps R (Visit_ExprStmt P eo)" "keeps R (opt_stmt P so)" "keeps R (opt_expr P eo)"
  "keeps R Visit_ContinueStmt" "keeps R Visit_BreakStmt" "keeps R (Visit_ReturnStmt P eo)"
  "stays k (Visit_CompoundStmt P ss)" "stays k (Visit_ExprStmt P eo)" "stays k (opt_stmt P so)" "stays k (opt_expr P eo)"
  "stays k Visit_ContinueStmt" "stays k Visit_BreakStmt" "stays k (Visit_ReturnStmt P eo)"
  unfolding Visit_CompoundStmt_def Visit_ExprStmt_def opt_stmt_def opt_expr_def Visit_ContinueStmt_def Visit_BreakStmt_def
    Visit_ReturnStmt_def
  by (rule stmt_steps | simp)+

lemma well_if:
  "keeps R (if_branches P c t e)" "keeps R (Visit_IfStmt G P c t e)" "keeps R (Visit_SwitchStmt G P c st)"
  "stays k (if_branches P c t e)" "stays k (Visit_IfStmt G P c t e)" "stays k (Visit_SwitchStmt G P c st)"
proof -
  show b: "keeps R (if_branches P c t e)" for c t e unfolding if_branches_def by (rule stmt_steps | simp)+
  show b': "stays k (if_branches P c t e)" for k c t e unfolding if_branches_def by (rule stmt_steps | simp)+
  show "keeps R (Visit_IfStmt G P c t e)" "stays k (Visit_IfStmt G P c t e)"
    unfolding Visit_IfStmt_def by (rule b b' well_simple stmt_steps)+
  show "keeps R (Visit_SwitchStmt G P c st)" "stays k (Visit_SwitchStmt G P c st)"
    unfolding Visit_SwitchStmt_def by (rule stmt_steps | simp add: core_def)+
qed

lemma well_loops:
  "keeps R (Visit_WhileStmt G P c st)" "keeps R (Visit_DoWhileStmt G P c st)" "keeps R (Visit_ForStmt P eo co io st so)"
  "stays k (Visit_WhileStmt G P c st)" "stays k (Visit_DoWhileStmt G P c st)" "stays k (Visit_ForStmt P eo co io st so)"
  unfolding Visit_WhileStmt_def Visit_DoWhileStmt_def Visit_ForStmt_def
  by (rule well_simple stmt_steps | simp)+

text \<open>Declarations.\<close>

lemma well_init_place: "keeps R (init_place G ixs acc)" "stays k (init_place G ixs acc)"
proof (induction ixs arbitrary: acc)
  case Nil
  { case 1 show ?case by (simp add: well) }
  { case 2 show ?case by (simp add: well) }
next
  case (Cons ix ixs)
  { case 1 show ?case unfolding init_place.simps by (rule Cons steps | simp)+ }
  { case 2 show ?case unfolding init_place.simps by (rule Cons steps | simp)+ }
qed

lemma well_init:
  "keeps R (init_element G P n it)" "keeps R (InitLocalAggregate G P n d)"
  "stays k (init_element G P n it)" "stays k (InitLocalAggregate G P n d)"
proof -
  show 1: "keeps R (init_element G P n it)" "stays k (init_element G P n it)" for k it
    unfolding init_element_def by (rule well_init_place steps | simp)+
  show "keeps R (InitLocalAggregate G P n d)" "stays k (InitLocalAggregate G P n d)"
    unfolding InitLocalAggregate_def by (rule 1 steps | simp)+
qed

lemma well_decl:
  "keeps R (DealLocaleDecl G P n d)" "keeps R (Visit_Declaration G P j)"
  "stays k (DealLocaleDecl G P n d)" "stays k (Visit_Declaration G P j)"
  unfolding Visit_Declaration_def DealLocaleDecl_def Let_def by (rule well_init steps | simp)+

lemma well_stmt: "keeps R (Accept_stmt G P st)" "stays k (Accept_stmt G P st)"
  by (cases st; simp add: Accept_stmt_def; rule well_labels well_simple well_if well_loops well_decl)+

lemma well_EmitStmt: "keeps R (EmitStmt G P st)" "stays k (EmitStmt G P st)"
  unfolding EmitStmt_def EmitSimpleStmt_def HaveInsertPoint_def GetInsertBlock_def by (rule well_stmt steps)+

end

text \<open>The visitors of every depth.\<close>

lemma visitors_well: "well_visitors R (visitors_at G n)"
proof (induction n)
  case 0
  show ?case by unfold_locales (simp_all add: well)
next
  case (Suc n)
  note facts = well_visitors.well_expr [OF Suc] well_visitors.well_EmitStmt [OF Suc] well_visitors.well_GetPtr [OF Suc]
    well_visitors.well_branch [OF Suc]
  show ?case by unfold_locales (simp_all add: visitors_with_def facts)
qed

interpretation visitors: well_visitors R "visitors_at G n" for R G n
  by (rule visitors_well)

subsection \<open>Functions\<close>

text \<open>Between two functions.\<close>

definition idle :: "'c cg \<Rightarrow> bool" where
  "idle s \<longleftrightarrow> blocks_well (retired s) (s\<lparr>cg_order := []\<rparr>) \<and> labels s = [] \<and> alloc_insert_point s = None"

definition quiet :: "('c, 'a) gen \<Rightarrow> bool" where
  "quiet m \<longleftrightarrow> (\<forall>s x s'. m s = Inr (x, s') \<longrightarrow> core s' = core s)"

lemma quietD: "quiet m \<Longrightarrow> m s = Inr (x, s') \<Longrightarrow> core s' = core s"
  by (simp add: quiet_def)

lemma quiet_bnd: "quiet m \<Longrightarrow> (\<And>x. quiet (f x)) \<Longrightarrow> quiet (bnd m f)"
  unfolding quiet_def bnd_def result_simps by fastforce

lemma quiet_thn: "quiet m \<Longrightarrow> quiet m' \<Longrightarrow> quiet (thn m m')"
  unfolding thn_def by (rule quiet_bnd)

lemma quiet_same:
  "quiet (failP e)" "quiet (Error t)" "quiet (ret x)" "quiet (assertP c)" "quiet (gets g)" "quiet (getsE g')" "quiet (liftR r)"
  by (auto simp: quiet_def run result_simps split: if_splits)

lemma quiet_if: "quiet a \<Longrightarrow> quiet b \<Longrightarrow> quiet (if c then a else b)"
  by simp

lemma quiet_Let: "(\<And>v. quiet (f v)) \<Longrightarrow> quiet (Let v f)"
  by simp

lemma quiet_option: "quiet a \<Longrightarrow> (\<And>x. quiet (f x)) \<Longrightarrow> quiet (case o' of None \<Rightarrow> a | Some x \<Rightarrow> f x)"
  by (cases o') auto

lemma quiet_modify: "(\<And>s. core (f s) = core s) \<Longrightarrow> quiet (modify f)"
  by (auto simp: quiet_def run)

lemmas quiet_rules = quiet_same quiet_modify quiet_thn quiet_bnd quiet_if quiet_Let quiet_option

lemma quiet_globals: "quiet (CreateGlobalVar G n)" "quiet (Visit_IdentifierExpr G name q lk)"
  unfolding CreateGlobalVar_def GetDecl_def named_global_def set_global_align_def set_global_init_def upd_global_def llvm_type_def
    Visit_IdentifierExpr_def module_func_def set_result_def
  by (rule quiet_rules | simp add: core_def)+

lemma idle_core: "core s' = core s \<Longrightarrow> idle s' = idle s"
  by (simp add: idle_def blocks_well_def retired_def done_well_def core_def)

text \<open>A declaration outside a function makes no code: a local object has no place for its \<open>alloca\<close>.\<close>

lemma idle_declaration:
  assumes "idle s" and "Visit_Declaration G P k s = Inr (x, s')"
  shows "idle s'"
proof -
  have "CreateEntryBlockAlloca G l a s1 = Inl Null_Deref" if "core s1 = core s" for l a s1
    using assms(1) that by (simp add: idle_def core_def CreateEntryBlockAlloca_def run)
  then have "DealLocaleDecl G P n d s \<noteq> Inr r" for n d r
    by (auto simp: DealLocaleDecl_def Let_def llvm_type_def run result_simps core_def)
  then have "core s' = core s"
    using assms(2) quietD [OF quiet_globals(1)] unfolding Visit_Declaration_def
    by (auto simp: Let_def run result_simps split: ident.splits if_splits)
  then show ?thesis using idle_core assms(1) by blast
qed

lemma alloca_elsewhere:
  assumes "CreateEntryBlockAlloca G t al s = Inr (x, s')"
  shows "CreateEntryBlockAlloca G t al (s\<lparr>cg_at := a\<rparr>) = Inr (x, s'\<lparr>cg_at := a\<rparr>)"
proof -
  obtain entry mark where p: "alloc_insert_point s = Some (entry, mark)"
    using assms by (auto simp: CreateEntryBlockAlloca_def run result_simps split: option.splits)
  let ?i = "I_Alloca t al"
  have s': "s' = s\<lparr>cg_next := Suc (cg_next s),
      cg_block := (cg_block s)(entry := insert_before mark (cg_next s, ?i) (cg_block s entry))\<rparr>"
    and x: "x = Reg (cg_next s) (ir_type (g_ir G) ?i)"
    using assms p by (auto simp: CreateEntryBlockAlloca_def run Let_def)
  show ?thesis unfolding s' x using p by (cases s) (simp add: CreateEntryBlockAlloca_def run Let_def)
qed

lemma old_blocks:
  assumes "blocks_well R s"
  shows "distinct (blocks_of s name)" "set (blocks_of s name) \<subseteq> R"
proof -
  have "distinct (blocks_of s name) \<and> set (blocks_of s name) \<subseteq> retired s"
  proof (cases "map_of (bodies_done s) name")
    case (Some bs)
    note d = map_of_SomeD [OF this]
    have "distinct (map fst bs)" using bspec [OF assms [unfolded blocks_well_def done_well_def, THEN conjunct2, THEN conjunct1, THEN conjunct2] d] by simp
    moreover have "fst ` set bs \<subseteq> retired s" using d by (force simp: retired_def)
    ultimately show ?thesis using Some by (simp add: blocks_of_def)
  qed (simp add: blocks_of_def)
  then show "distinct (blocks_of s name)" "set (blocks_of s name) \<subseteq> R"
    using assms by (auto simp: blocks_well_def)
qed

text \<open>The state behind the creation of the entry block, with the builder in it.\<close>

definition entered :: "string \<Rightarrow> 'c cg \<Rightarrow> 'c \<Rightarrow> 'c cg" where
  "entered name s c = s\<lparr>cg_next := cg_next s + 3, func := Some c, cg_order := blocks_of s name @ [cg_next s],
     cg_block := (cg_block s)(cg_next s := [(Suc (cg_next s), I_Undef)]),
     alloc_insert_point := Some (cg_next s, Suc (cg_next s)), return_block := Some (cg_next s + 2), return_value := None,
     cg_at := Some (cg_next s)\<rparr>"

lemma entered_well:
  assumes "idle s"
  shows "inv (retired s) unfinished (entered name s c)"
proof -
  have b: "blocks_well (retired s) (s\<lparr>cg_order := []\<rparr>)" using assms by (simp add: idle_def)
  then have n: "\<forall>b \<in> retired s. b < cg_next s" by (simp add: blocks_well_def)
  have os: "distinct (blocks_of s name)" "set (blocks_of s name) \<subseteq> retired s" and l: "labels s = []"
    using old_blocks [OF b, of name] assms by (simp_all add: blocks_of_def idle_def)
  have r: "retired (entered name s c) = retired s" "done_well (entered name s c) = done_well s"
    by (simp_all add: entered_def retired_def done_well_def)
  have "blocks_well (retired s) (entered name s c)"
    using b n unfolding blocks_well_def r by (auto simp: entered_def less_Suc_eq)
  moreover have "func_well (retired s) (entered name s c)"
    using b n os l unfolding func_well_def mark_well_def entered_def blocks_well_def by (fastforce simp: less_Suc_eq)
  ultimately show ?thesis by (simp add: inv_def entered_def)
qed

text \<open>The place for the return value, made while the builder may stand anywhere.\<close>

definition return_place :: "'c genv \<Rightarrow> qtype \<Rightarrow> ('c, unit) gen" where
  "return_place G rt = (if IsVoidTy (fst rt) then ret ()
     else bnd (llvm_type G (fst rt)) (\<lambda>l. bnd (liftR (GetAlign (g_dl G) (h_types (g_heap G)) (fst rt))) (\<lambda>a.
       bnd (CreateEntryBlockAlloca G l a) (\<lambda>p. modify (\<lambda>s. s\<lparr>return_value := Some p\<rparr>)))))"

lemma return_place_elsewhere:
  assumes "return_place G rt s = Inr (x, s')"
  shows "return_place G rt (s\<lparr>cg_at := a\<rparr>) = Inr (x, s'\<lparr>cg_at := a\<rparr>)"
proof (cases "IsVoidTy (fst rt)")
  case True
  then show ?thesis using assms by (simp add: return_place_def run)
next
  case False
  with assms obtain l al p s1 where r: "GetLLVMType (h_types (g_heap G)) (fst rt) = Inr l"
    "GetAlign (g_dl G) (h_types (g_heap G)) (fst rt) = Inr al" "CreateEntryBlockAlloca G l al s = Inr (p, s1)"
    "s' = s1\<lparr>return_value := Some p\<rparr>"
    by (auto simp: return_place_def llvm_type_def run result_simps)
  have "(s1\<lparr>cg_at := a\<rparr>)\<lparr>return_value := Some p\<rparr> = (s1\<lparr>return_value := Some p\<rparr>)\<lparr>cg_at := a\<rparr>" by (cases s1) simp
  then show ?thesis using False r alloca_elsewhere [OF r(3), of a]
    by (simp add: return_place_def llvm_type_def run)
qed

lemma well_return_place: "keeps R (return_place G rt)" "stays k (return_place G rt)"
  unfolding return_place_def by (rule goes_core stays_modify rules well | simp add: core_def)+

lemma StartFunction_steps:
  assumes "StartFunction G (Ident name q lk d) s = Inr (x, s')"
  shows "\<exists>u s0 c rt y s2. Visit_IdentifierExpr G name q lk s = Inr (u, s0) \<and>
    return_place G rt ((entered name s0 c)\<lparr>cg_at := cg_at s0\<rparr>) = Inr (y, s2) \<and> s' = s2\<lparr>cg_at := Some (cg_next s0)\<rparr>"
proof -
  from assms obtain u s0 where 0: "Visit_IdentifierExpr G name q lk s = Inr (u, s0)"
    by (auto simp: StartFunction_def run result_simps)
  have b: "blocks_of (s0\<lparr>cg_next := n\<rparr>) name = blocks_of s0 name" for n by (simp add: blocks_of_def)
  have e: "(entered name s0 c)\<lparr>cg_at := cg_at s0\<rparr> = s0\<lparr>cg_next := Suc (Suc (Suc (cg_next s0))), func := Some c,
      cg_order := blocks_of s0 name @ [cg_next s0], cg_block := (cg_block s0)(cg_next s0 := [(Suc (cg_next s0), I_Undef)]),
      alloc_insert_point := Some (cg_next s0, Suc (cg_next s0)), return_block := Some (Suc (Suc (cg_next s0))), return_value := None\<rparr>"
    for c by (cases s0) (simp add: entered_def)
  from assms 0 obtain c rt y s2 where "return_place G rt ((entered name s0 c)\<lparr>cg_at := cg_at s0\<rparr>) = Inr (y, s2)"
    "s' = s2\<lparr>cg_at := Some (cg_next s0)\<rparr>"
    unfolding e by (auto simp: StartFunction_def return_place_def [symmetric] run result_simps result_of_def CreateBasicBlock_def
        SetInsertPoint_def b split: option.splits val.splits)
  with 0 show ?thesis by blast
qed

lemma StartFunction_well:
  assumes "idle s" and "StartFunction G i s = Inr (x, s')"
  shows "inv (retired s) unfinished s' \<and> bodies_done s' = bodies_done s \<and> set (blocks_of s (ident_name i)) \<subseteq> set (cg_order s')"
proof -
  obtain name q lk d where i: "i = Ident name q lk d"
    using assms(2) by (cases i) (auto simp: StartFunction_def run)
  obtain u s0 c rt y s2 where 0: "Visit_IdentifierExpr G name q lk s = Inr (u, s0)"
    and 2: "return_place G rt ((entered name s0 c)\<lparr>cg_at := cg_at s0\<rparr>) = Inr (y, s2)" and s': "s' = s2\<lparr>cg_at := Some (cg_next s0)\<rparr>"
    using StartFunction_steps [OF assms(2) [unfolded i]] by blast
  have c0: "core s0 = core s" using quietD [OF quiet_globals(2) 0] .
  then have s0: "idle s0" "retired s0 = retired s" "bodies_done s0 = bodies_done s" "blocks_of s0 name = blocks_of s name"
    using assms(1) idle_core [OF c0] by (auto simp: core_def retired_def blocks_of_def)
  have at: "(entered name s0 c)\<lparr>cg_at := cg_at s0, cg_at := Some (cg_next s0)\<rparr> = entered name s0 c"
    by (cases s0) (simp add: entered_def)
  have e: "return_place G rt (entered name s0 c) = Inr (y, s')"
    using return_place_elsewhere [OF 2, of "Some (cg_next s0)"] unfolding at s' .
  have "inv (retired s0) unfinished s'"
    by (rule goesD [OF well_return_place(1) entered_well [OF s0(1)] e])
  moreover have "\<forall>b \<in> set (blocks_of s0 name). b < cg_next s0"
    using old_blocks [of "retired s0" "s0\<lparr>cg_order := []\<rparr>" name] s0(1) by (auto simp: idle_def blocks_well_def blocks_of_def)
  then have "bodies_done s' = bodies_done s0 \<and> set (blocks_of s0 name) \<subseteq> set (cg_order s')"
    using staysD [OF well_return_place(2) _ e, of "cg_next s0"] by (auto simp: entered_def)
  ultimately show ?thesis using s0 i by simp
qed

lemma goes_return_block:
  assumes "\<And>b. b \<notin> R \<Longrightarrow> keeps R (f b)"
  shows "keeps R (bnd (getsE (\<lambda>s. case return_block s of None \<Rightarrow> Inl Null_Deref | Some b \<Rightarrow> Inr b)) f)"
proof (rule goesI)
  fix s x s' assume i: "inv R unfinished s"
    and a: "bnd (getsE (\<lambda>s. case return_block s of None \<Rightarrow> Inl Null_Deref | Some b \<Rightarrow> Inr b)) f s = Inr (x, s')"
  then obtain b where b: "return_block s = Some b" "f b s = Inr (x, s')" by (auto simp: run result_simps split: option.splits)
  then have "b \<notin> R" using i by (auto simp: inv_def func_well_def)
  from goesD [OF assms [OF this] i b(2)] show "inv R unfinished s'" .
qed

lemma well_epilog:
  "keeps R EmitReturnBlock" "goes R unfinished (EmitFunctionEpilog G) finished" "stays k EmitReturnBlock" "stays k (EmitFunctionEpilog G)"
  unfolding EmitReturnBlock_def EmitFunctionEpilog_def GetInsertBlock_def
  by (rule goes_return_block fresh stays_create rules well | simp)+

lemma FinishFunction_well:
  assumes "inv R unfinished s" and "FinishFunction G name s = Inr (x, s')" and "set (blocks_of s name) \<subseteq> set (cg_order s)"
    and "\<forall>b \<in> set (blocks_of s name). b < cg_next s"
  shows "idle s'"
proof -
  let ?m = "thn EmitReturnBlock (EmitFunctionEpilog G)"
  obtain u s1 entry mark where 1: "?m s = Inr (u, s1)" "alloc_insert_point s1 = Some (entry, mark)"
    and s': "s' = s1\<lparr>alloc_insert_point := None, cg_block := (cg_block s1)(entry := filter (\<lambda>(n, _). n \<noteq> mark) (cg_block s1 entry)),
      labels := [], bodies_done := filter (\<lambda>(n, _). n \<noteq> name) (bodies_done s1) @ [(name, map (\<lambda>b. (b,
        ((cg_block s1)(entry := filter (\<lambda>(n, _). n \<noteq> mark) (cg_block s1 entry))) b)) (cg_order s1))]\<rparr>"
    using assms(2) by (auto simp: FinishFunction_def run result_simps split: option.splits prod.splits)
  have "goes R unfinished ?m finished" by (rule well_epilog rules)+
  from goesD [OF this assms(1) 1(1)] have i: "inv R finished s1" .
  have "stays (cg_next s) ?m" by (rule well_epilog rules)+
  from staysD [OF this _ 1(1)] assms(3,4) have same: "bodies_done s1 = bodies_done s" "set (blocks_of s name) \<subseteq> set (cg_order s1)" by auto
  let ?g = "(cg_block s1)(entry := filter (\<lambda>(n, _). n \<noteq> mark) (cg_block s1 entry))" and ?R = "R \<union> set (cg_order s1)"
  have f: "blocks_well R s1" "func_well R s1" using i by (simp_all add: inv_def)
  have wf: "well_formed (cg_block s1 b)" if "b \<in> ?R" for b
    using that i by (cases "cg_at s1 = Some b") (auto simp: inv_def blocks_well_def func_well_def)
  have "well_formed (?g b)" if "b \<in> ?R" for b
    using wf [OF that] f(2) 1(2) by (auto simp: func_well_def mark_well_def intro!: filter_shape)
  moreover have "unfinished (shape (?g b))" if "b \<notin> ?R" for b
  proof -
    have "unfinished (shape (cg_block s1 b))" using f(1) that by (simp add: blocks_well_def)
    then show ?thesis by (auto simp: shape_def unfinished_def)
  qed
  moreover have r: "retired s' = ?R"
  proof -
    have "fst ` set bs \<subseteq> set (cg_order s1)" if "(name, bs) \<in> set (bodies_done s1)" for bs
      using that f(1) same by (simp add: blocks_of_def blocks_well_def done_well_def map_of_is_SomeI)
    then have old: "(\<Union>x \<in> {x \<in> set (bodies_done s1). fst x = name}. fst ` set (snd x)) \<subseteq> set (cg_order s1)" by fastforce
    have "R = (\<Union>x \<in> set (bodies_done s1). fst ` set (snd x))"
      using f(1) by (auto simp: blocks_well_def retired_def case_prod_unfold)
    also have "set (bodies_done s1) = {x \<in> set (bodies_done s1). fst x \<noteq> name} \<union> {x \<in> set (bodies_done s1). fst x = name}" by blast
    finally have R: "R = (\<Union>x \<in> {x \<in> set (bodies_done s1). fst x \<noteq> name}. fst ` set (snd x)) \<union>
      (\<Union>x \<in> {x \<in> set (bodies_done s1). fst x = name}. fst ` set (snd x))" by (simp only: UN_Un)
    have "retired s' = (\<Union>x \<in> {x \<in> set (bodies_done s1). fst x \<noteq> name}. fst ` set (snd x)) \<union> set (cg_order s1)"
      unfolding retired_def s' by (simp add: case_prod_unfold image_image Un_commute)
    then show ?thesis using R old by (simp only: Un_assoc Un_absorb1)
  qed
  moreover have "done_well s'"
  proof -
    have "done_well s1" "distinct (cg_order s1)" using f by (simp_all add: blocks_well_def func_well_def)
    with \<open>\<And>b. b \<in> ?R \<Longrightarrow> well_formed (?g b)\<close> show ?thesis
      unfolding done_well_def s' by (auto simp: distinct_map_filter comp_def)
  qed
  moreover have "b < cg_next s1" if "b \<in> ?R" for b
    using that f by (auto simp: blocks_well_def func_well_def)
  moreover have "cg_block s' = ?g" "cg_next s' = cg_next s1" "labels s' = []" "alloc_insert_point s' = None"
    by (simp_all add: s')
  ultimately show ?thesis
    unfolding idle_def blocks_well_def by simp
qed

lemma well_store_params: "keeps R (store_params G k as ps)" "stays j (store_params G k as ps)"
proof (induction as arbitrary: k ps)
  case Nil
  { case 1 show ?case by (simp add: well) }
  { case 2 show ?case by (simp add: well) }
next
  case (Cons a as)
  { case 1 show ?case unfolding store_params.simps by (rule Cons rules well | simp)+ }
  { case 2 show ?case unfolding store_params.simps by (rule Cons rules well | simp)+ }
qed

text \<open>What is between the two ends of a function.\<close>

definition func_body :: "'c genv \<Rightarrow> nat \<Rightarrow> ident \<Rightarrow> stmt list \<Rightarrow> ('c, unit) gen" where
  "func_body G depth i body = (let t = fst (ident_type (g_heap G) i) in
     bnd (liftR (FuncGetParams t)) (\<lambda>ps.
     bnd (getsE (\<lambda>s. case func s of None \<Rightarrow> Inl Null_Deref | Some f \<Rightarrow> Inr (func_args (getType (g_llvm G) f)))) (\<lambda>as.
     thn (store_params G 0 as ps) (bnd (liftR (FuncGetName (h_types (g_heap G)) t)) (\<lambda>name.
     thn (if name = ''main'' then bnd (gets return_value) (\<lambda>rv. case rv of
              None \<Rightarrow> failP Null_Deref | Some p \<Rightarrow> put_instr (I_Store (getInt32 G 0) p False)) else ret ())
     (v_stmt (visitors_at G depth) (SCompound body)))))))"

lemma well_func_body: "keeps R (func_body G depth i body)" "stays k (func_body G depth i body)"
  unfolding func_body_def by (rule well_store_params visitors.stmt visitors.stmt_stays rules well | simp)+

lemma Visit_FuncDef_steps:
  "Visit_FuncDef G depth i body = thn (StartFunction G i) (thn (func_body G depth i body) (FinishFunction G (ident_name i)))"
  by (rule ext) (simp add: Visit_FuncDef_def func_body_def run Let_def bindE_assoc case_prod_unfold)

lemma FuncDef_well:
  assumes "idle s" and "Visit_FuncDef G depth i body s = Inr (x, s')"
  shows "idle s'"
proof -
  obtain u s1 v s2 where 1: "StartFunction G i s = Inr (u, s1)" "func_body G depth i body s1 = Inr (v, s2)"
    "FinishFunction G (ident_name i) s2 = Inr (x, s')"
    using assms(2) by (auto simp: Visit_FuncDef_steps run result_simps)
  note start = StartFunction_well [OF assms(1) 1(1)]
  then have i1: "inv (retired s) unfinished s1" "bodies_done s1 = bodies_done s"
    "set (blocks_of s1 (ident_name i)) \<subseteq> set (cg_order s1)" by (simp_all add: blocks_of_def)
  have n: "\<forall>b \<in> set (blocks_of s1 (ident_name i)). b < cg_next s1" using i1 by (auto simp: inv_def func_well_def)
  have i2: "inv (retired s) unfinished s2" by (rule goesD [OF well_func_body(1) i1(1) 1(2)])
  have "bodies_done s2 = bodies_done s1 \<and> set (blocks_of s1 (ident_name i)) \<subseteq> set (cg_order s2) \<and> cg_next s1 \<le> cg_next s2"
    using staysD [OF well_func_body(2) _ 1(2), of "cg_next s1"] i1(3) n by auto
  moreover from this have "blocks_of s2 = blocks_of s1" by (auto simp: blocks_of_def fun_eq_iff)
  ultimately have "set (blocks_of s2 (ident_name i)) \<subseteq> set (cg_order s2)" "\<forall>b \<in> set (blocks_of s2 (ident_name i)). b < cg_next s2"
    using n by auto
  then show ?thesis using FinishFunction_well [OF i2 1(3)] by blast
qed

subsection \<open>Translation units\<close>

text \<open>Outside of functions there are only declarations.\<close>

definition only_declarations :: "ext_decl list \<Rightarrow> bool" where
  "only_declarations ds \<longleftrightarrow> list_all (\<lambda>d. case d of FuncDef i body \<Rightarrow> True
     | ExtDecls ss \<Rightarrow> list_all (\<lambda>s. case s of SDecl k \<Rightarrow> True | _ \<Rightarrow> False) ss) ds"

lemma declarations_well:
  "list_all (\<lambda>s. case s of SDecl k \<Rightarrow> True | _ \<Rightarrow> False) ss \<Longrightarrow> idle s \<Longrightarrow> for_each (Accept_stmt G P) ss s = Inr (x, s') \<Longrightarrow> idle s'"
proof (induction ss arbitrary: s)
  case (Cons t ss)
  from Cons.prems(1) obtain k where t: "t = SDecl k" by (cases t) auto
  with Cons.prems(3) obtain u s1 where "Visit_Declaration G P k s = Inr (u, s1)" "for_each (Accept_stmt G P) ss s1 = Inr (x, s')"
    by (auto simp: run result_simps Accept_stmt_def [of G P "SDecl k"])
  then have "idle s1" "for_each (Accept_stmt G P) ss s1 = Inr (x, s')" using idle_declaration [OF Cons.prems(2)] by simp_all
  then show ?case using Cons.IH Cons.prems(1) by simp
qed (simp add: run)

lemma unit_well:
  "only_declarations ds \<Longrightarrow> idle s \<Longrightarrow> Visit_TranslationUnit G depth ds s = Inr (x, s') \<Longrightarrow> idle s'"
proof (induction ds arbitrary: s)
  case (Cons d ds)
  then obtain u s1 where 1: "Visit_ext_decl G depth d s = Inr (u, s1)" "Visit_TranslationUnit G depth ds s1 = Inr (x, s')"
    by (auto simp: Visit_TranslationUnit_def run result_simps)
  have "idle s1"
  proof (cases d)
    case (FuncDef i body)
    then show ?thesis using 1(1) FuncDef_well [OF Cons.prems(2)] by (simp add: Visit_ext_decl_def)
  next
    case (ExtDecls ss)
    then show ?thesis using 1(1) Cons.prems declarations_well by (auto simp: Visit_ext_decl_def only_declarations_def)
  qed
  then show ?case using Cons.IH [OF _ _ 1(2)] Cons.prems(1) by (simp add: only_declarations_def)
qed (simp add: Visit_TranslationUnit_def run)

text \<open>
  C5. Whatever unit is compiled, every basic block of every function in the module is well formed when
  \<open>GenCode\<close> returns: instructions without a terminator and exactly one terminator at its end, and no
  function has a block twice.
\<close>

theorem generated_blocks_well_formed:
  assumes "only_declarations ds" and "GenCode G depth ds = Inr s" and "(name, blocks) \<in> set (bodies_done s)"
  shows "distinct (map fst blocks) \<and> (\<forall>(b, xs) \<in> set blocks. xs \<noteq> [] \<and> isTerminator (snd (last xs)) \<and>
    (\<forall>x \<in> set (butlast xs). \<not> isTerminator (snd x)))"
proof -
  obtain x where "Visit_TranslationUnit G depth ds CodeGen_init = Inr (x, s)"
    using assms(2) by (auto simp: GenCode_def result_simps)
  moreover have "idle (CodeGen_init :: 'a cg)"
    by (simp add: idle_def CodeGen_init_def blocks_well_def retired_def done_well_def)
  ultimately have "idle s" using unit_well [OF assms(1)] by blast
  then have "done_well s" by (simp add: idle_def blocks_well_def)
  then have "\<forall>(n, bs) \<in> set (bodies_done s). distinct (map fst bs) \<and> (\<forall>(b, xs) \<in> set bs. well_formed xs)"
    by (simp add: done_well_def)
  from bspec [OF this assms(3)] have "distinct (map fst blocks)" "\<forall>(b, xs) \<in> set blocks. well_formed xs" by simp_all
  moreover have "xs \<noteq> [] \<and> isTerminator (snd (last xs)) \<and> (\<forall>x \<in> set (butlast xs). \<not> isTerminator (snd x))" if "well_formed xs" for xs :: "'a block"
    using that by (cases xs rule: rev_cases) (auto simp: finished_def unfinished_def shape_def)
  ultimately show ?thesis by fast
qed

end
