(* ===== verification/Kcc_GenRel.thy ===== *)
theory Kcc_GenRel
  imports Kcc_GenStmt
begin

text \<open>
  What an operation of the generator leaves of the state, as a relation between the state before and
  after it. What is common to such relations is proved once: \<open>state_relation\<close> holds the rules of the combinators,
  \<open>code_relation\<close> the operators and \<open>code_visitors\<close> the visitors of expressions. The relations are
  \<open>grows\<close> (the code of an expression without branches goes to the end of the current block),
  \<open>same_stack\<close> (the targets of \<open>break\<close> and \<open>continue\<close> are the same behind every expression and statement),
  \<open>same_place\<close> and \<open>same_mark\<close> (the insertion point, the mark of a volatile access). The last
  sections follow the states of a switch and of a loop on a constant.
\<close>

subsection \<open>Relations on states\<close>

named_theorems rel \<open>operations whose states before and after are related\<close>

definition within :: "('s \<Rightarrow> 's \<Rightarrow> bool) \<Rightarrow> ('s, 'a) action \<Rightarrow> bool" where
  "within r m \<longleftrightarrow> (\<forall>s x s'. m s = Inr (x, s') \<longrightarrow> r s s')"

lemma withinD: "within r m \<Longrightarrow> m s = Inr (x, s') \<Longrightarrow> r s s'"
  by (auto simp: within_def)

lemma within_fail [rel]: "within r (failP e)" "within r (Error t)"
  by (simp_all add: within_def run)

lemma within_modify: "(\<And>s. r s (f s)) \<Longrightarrow> within r (modify f)"
  by (simp add: within_def run)

locale state_relation =
  fixes r :: "'s \<Rightarrow> 's \<Rightarrow> bool"
  assumes refl: "r s s" and trans: "r s t \<Longrightarrow> r t u \<Longrightarrow> r s u"
begin

lemma within_bnd: "within r m \<Longrightarrow> (\<And>x. within r (f x)) \<Longrightarrow> within r (bnd m f)"
  unfolding within_def by (fastforce simp: run result_simps intro: trans)

lemma within_thn: "within r m \<Longrightarrow> within r m' \<Longrightarrow> within r (thn m m')"
  unfolding thn_def by (rule within_bnd)

lemma within_same: "within r (ret x)" "within r (assertP c)" "within r (gets g)" "within r (getsE g')" "within r (liftR q)"
  by (auto simp: within_def run result_simps refl split: if_splits)

lemma within_if: "(c \<Longrightarrow> within r a) \<Longrightarrow> (\<not> c \<Longrightarrow> within r b) \<Longrightarrow> within r (if c then a else b)"
  by simp

lemma within_Let: "(\<And>v. within r (f v)) \<Longrightarrow> within r (Let v f)"
  by simp

lemma within_prod: "(\<And>a b. within r (f a b)) \<Longrightarrow> within r (case p of (a, b) \<Rightarrow> f a b)"
  by (cases p) simp

lemma within_option: "within r a \<Longrightarrow> (\<And>x. within r (f x)) \<Longrightarrow> within r (case v of None \<Rightarrow> a | Some x \<Rightarrow> f x)"
  by (cases v) simp_all

lemma within_list: "within r a \<Longrightarrow> (\<And>x xs. within r (f x xs)) \<Longrightarrow> within r (case l of [] \<Rightarrow> a | x # xs \<Rightarrow> f x xs)"
  by (cases l) simp_all

lemma within_val: "(\<And>c. within r (f1 c)) \<Longrightarrow> (\<And>n t. within r (f2 n t)) \<Longrightarrow> (\<And>n t. within r (f3 n t)) \<Longrightarrow>
    within r (case v of Const c \<Rightarrow> f1 c | Reg n t \<Rightarrow> f2 n t | Param n t \<Rightarrow> f3 n t)"
  by (cases v) simp_all

lemma within_for_each: "(\<And>x. x \<in> set xs \<Longrightarrow> within r (f x)) \<Longrightarrow> within r (for_each f xs)"
  by (induction xs) (auto intro: within_same within_thn)

lemma within_mapP: "(\<And>x. x \<in> set xs \<Longrightarrow> within r (f x)) \<Longrightarrow> within r (mapP f xs)"
  by (induction xs) (auto intro!: within_same within_bnd)

lemma within_foldP: "(\<And>x y. within r (f x y)) \<Longrightarrow> within r (foldP f xs y)"
  by (induction xs arbitrary: y) (auto intro!: within_same within_bnd)

lemmas steps = within_fail within_same within_thn within_bnd within_if within_Let within_prod within_option within_list
  within_val

end

text \<open>A component of the state is the same afterwards.\<close>

definition same :: "('s \<Rightarrow> 'a) \<Rightarrow> 's \<Rightarrow> 's \<Rightarrow> bool" where
  "same f s s' \<longleftrightarrow> f s' = f s"

interpretation same: state_relation "same f" for f
  by unfold_locales (simp_all add: same_def)

subsection \<open>The operators\<close>

text \<open>Relations that look at the blocks and at the stack only, and that an instruction in the current block keeps.\<close>

definition placed :: "'c cg \<Rightarrow> _" where
  "placed s = (cg_block s, cg_order s, cg_at s, cg_next s, break_continue_stack s)"

locale code_relation = state_relation r for r :: "'c cg \<Rightarrow> 'c cg \<Rightarrow> bool" +
  assumes unplaced: "placed s' = placed s \<Longrightarrow> r s s'"
    and insert: "\<not> isTerminator i \<Longrightarrow> within r (insert_instr i)"
begin

lemma other_field: "(\<And>s. placed (f s) = placed s) \<Longrightarrow> within r (modify f)"
  by (rule within_modify) (rule unplaced)

lemma builder: "\<not> isTerminator i \<Longrightarrow> within r (put_instr i)" "\<not> isTerminator i \<Longrightarrow> within r (emit G i)"
  "\<not> isTerminator i \<Longrightarrow> within r (build G i)"
  unfolding put_instr_def emit_def build_def by (rule steps insert | assumption)+

lemma flags: "within r (set_result v)" "within r result_of" "within r (llvm_type G t)" "within r (calc G e)"
  "within r (set_volatile b)" "within r leave_bit_field" "within r TestAndClearIgnoreAssignResult" "within r SetIgnoreAssignResult"
  "within r the_bit_field" "within r (first_arg args)" "within r GetInsertBlock"
  unfolding set_result_def result_of_def llvm_type_def calc_def set_volatile_def leave_bit_field_def TestAndClearIgnoreAssignResult_def
    SetIgnoreAssignResult_def the_bit_field_def first_arg_def GetInsertBlock_def
  by (rule steps other_field | simp add: placed_def)+

lemma with_struct: "within r m \<Longrightarrow> within r (with_struct m)"
  unfolding with_struct_def by (rule steps other_field | assumption | simp add: placed_def)+

lemmas basic = builder flags with_struct steps

lemma conversions: "within r (CastToBool G v)" "within r (CastTo G v t u)" "within r (CreateLoad G p)" "within r (CreateStore v p)"
  "within r (plain_load G p)" "within r (as_int G v)"
  unfolding CastTo_def ext_or_trunc_def CastToBool_def CreateLoad_def CreateStore_def plain_load_def as_int_def
  by (rule basic | simp)+

lemma arithmetic: "within r (binary_value G op a b u)" "within r (CodeGen_AddOp G a b u)" "within r (CodeGen_NegOp G v u)"
  "within r (CodeGen_LogicNotOp G v)" "within r (CodeGen_GetBitField G v sz wd bgn)" "within r (field_value G n v)" "within r (one_of G lt)"
  unfolding binary_value_def CodeGen_AddOp_def CodeGen_SubOp_def CodeGen_SubOp_int_def CodeGen_MulOp_def CodeGen_DivOp_def
    CodeGen_ModOp_def CodeGen_OrOp_def CodeGen_AndOp_def CodeGen_XorOp_def CodeGen_ShlOp_def CodeGen_ShrOp_def compare_to_int_def
    CodeGen_order_def CodeGen_LessEqualOp_def CodeGen_LessOp_def CodeGen_GreaterEqualOp_def CodeGen_GreaterOp_def
    CodeGen_equality_def CodeGen_EqualOp_def CodeGen_NotEqualOp_def CodeGen_NegOp_def CodeGen_LogicNotOp_def CodeGen_GetBitField_def
    CodeGen_GetBitFieldValue_def field_value_def one_of_def
  by (rule conversions basic | simp)+

lemma variables: "within r (CreateGlobalVar G n)" "within r (GetGlobalPtr G n)" "within r (object_ptr G n)" "within r (GetLocalPtr n)" "within r (SetLocalPtr n v)"
  "within r (module_func name f)" "within r (intrinsic G name lt)" "within r (by_class lt a b)"
  unfolding CreateGlobalVar_def GetGlobalPtr_def object_ptr_def SetLocalPtr_def GetLocalPtr_def module_func_def intrinsic_def by_class_def
    GetDecl_def named_global_def set_global_init_def set_global_align_def upd_global_def
  by (rule basic other_field | simp add: placed_def)+

lemma member_steps: "within r (member_step G st p)"
  by (cases st; cases "fst st"; auto simp: member_step_def split: bool.splits intro!: basic)

lemma stores: "within r (field_pointer G n p)" "within r (Assign G p v u)"
  unfolding field_pointer_def Assign_def by (rule conversions arithmetic basic | simp)+

lemmas operators = conversions arithmetic variables stores basic other_field

end

subsection \<open>Visitors of expressions\<close>

text \<open>
  The visitors are given for a set of expressions closed under the operands, with no arguments for
  \<open>va_arg\<close>. The forms that make blocks of their own are left out of \<open>plain_form\<close>.
\<close>

fun plain_form :: "expr \<Rightarrow> bool" where
  "plain_form (EBinary op _ _ _) = (op \<noteq> Tag_kAmpAmp \<and> op \<noteq> Tag_kPipePipe)"
| "plain_form (ECond _ _ _ _) = False"
| "plain_form (ECall _ _ vt _) = (vt = None)"
| "plain_form (EStmt _ _) = False"
| "plain_form _ = True"

locale code_visitors = code_relation r for r :: "'c cg \<Rightarrow> 'c cg \<Rightarrow> bool" +
  fixes P :: "'c visitors" and S :: "expr \<Rightarrow> bool"
  assumes expr: "S e \<Longrightarrow> within r (v_expr P e)" and ptr: "S e \<Longrightarrow> within r (v_ptr P e)"
    and operands: "S (EUnary op e q) \<Longrightarrow> S e" "S (ECast e q) \<Longrightarrow> S e" "S (EBinary op e e' q) \<Longrightarrow> S e" "S (EBinary op e e' q) \<Longrightarrow> S e'"
      "S (ECall e es vt q) \<Longrightarrow> S e" "S (ECall e es vt q) \<Longrightarrow> a \<in> set es \<Longrightarrow> S a"
begin

lemma value_ok: "S e \<Longrightarrow> within r (value_of P e)"
  unfolding value_of_def by (rule basic expr | assumption)+

lemma bool_ok: "S e \<Longrightarrow> within r (EvaluateExprAsBool G P e)"
  unfolding EvaluateExprAsBool_def by (rule operators expr | assumption)+

lemma GetPtr_ok: "S e \<Longrightarrow> within r (GetPtr G P e)"
  unfolding GetPtr_def
  by (cases e; auto simp: Let_def split: ident.splits expr.splits
      intro!: value_ok ptr operators within_foldP member_steps dest: operands; simp add: placed_def)

lemma assignments:
  "S l \<Longrightarrow> S e \<Longrightarrow> within r (AssignOp G P l e)" "S e \<Longrightarrow> within r (IncOrDec G P e inc post)" "S e \<Longrightarrow> within r (Deref G P e q)"
  "S e \<Longrightarrow> within r (MemberRef G P e)"
proof -
  show "S l \<Longrightarrow> S e \<Longrightarrow> within r (AssignOp G P l e)" unfolding AssignOp_def by (rule operators value_ok ptr | assumption)+
  show "S e \<Longrightarrow> within r (IncOrDec G P e inc post)" unfolding IncOrDec_def by (rule operators ptr | assumption)+
  have d: "S e \<Longrightarrow> within r (deref_value G P e q)" unfolding deref_value_def by (rule operators value_ok | assumption)+
  then show "S e \<Longrightarrow> within r (Deref G P e q)"
    unfolding Deref_def by (cases e; auto intro!: value_ok operators dest: operands)
  show "S e \<Longrightarrow> within r (MemberRef G P e)"
    unfolding MemberRef_def by (rule operators GetPtr_ok | assumption)+
qed

lemma functions_ok:
  assumes "\<And>a. a \<in> set args \<Longrightarrow> S a" and "S f"
  shows "within r (MayCallBuiltinFunc G P f args None)" "within r (Visit_FuncCallExpr G P f args None)"
proof -
  have a: "within r (bnd (first_arg as) g)" if "set as \<subseteq> set args" and "\<And>x. S x \<Longrightarrow> within r (g x)" for as and g :: "expr \<Rightarrow> ('c, 'b) gen"
    using that assms(1) by (cases as) (auto simp: first_arg_def within_def run)
  have t: "set (tl args) \<subseteq> set args" by (cases args) auto
  show "within r (MayCallBuiltinFunc G P f args None)"
    unfolding MayCallBuiltinFunc_def Let_def second_arg_def VaStart_def VaEnd_def VaStartEnd_def VaCopy_def SyncSynchronize_def Alloc_def
      PopCount_def Clz_def Ctz_def count_zeros_def IsInfSign_def IsFinite_def fabs_f32_def option.case
    by (rule a operators value_ok expr subset_refl t | assumption | simp)+
  then show "within r (Visit_FuncCallExpr G P f args None)"
    unfolding Visit_FuncCallExpr_def by (auto intro!: operators within_mapP value_ok assms)
qed

lemma Accept_ok: "S e \<Longrightarrow> plain_form e \<Longrightarrow> within r (Accept_expr G P e)"
  by (cases e; auto simp: Accept_expr_def Visit_UnaryOpExpr_def Visit_TypeCastExpr_def Visit_BinaryOpExpr_def Visit_ConstantExpr_def
      Visit_StringLiteralExpr_def Visit_IdentifierExpr_def Visit_EnumeratorExpr_def Visit_ObjectExpr_def Let_def split: ident.splits
      intro!: assignments functions_ok operators value_ok expr ptr dest: operands)

end

subsection \<open>Code that stays in its block\<close>

text \<open>Instructions that are no terminators are put behind the current block; nothing else is changed in the blocks.\<close>

definition grows :: "'c cg \<Rightarrow> 'c cg \<Rightarrow> bool" where
  "grows s s' \<longleftrightarrow> cg_at s' = cg_at s \<and> cg_order s' = cg_order s \<and> break_continue_stack s' = break_continue_stack s \<and>
     cg_next s \<le> cg_next s' \<and> (\<forall>b. cg_at s \<noteq> Some b \<longrightarrow> cg_block s' b = cg_block s b) \<and>
     (\<forall>b. cg_at s = Some b \<longrightarrow> (\<exists>xs. cg_block s' b = cg_block s b @ xs \<and> (\<forall>x \<in> set xs. \<not> isTerminator (snd x))))"

lemma grows_trans: "grows s t \<Longrightarrow> grows t u \<Longrightarrow> grows s u"
  unfolding grows_def by (auto simp: ball_Un)

interpretation grows: code_relation grows
proof
  show "grows s s" for s :: "'c cg" by (simp add: grows_def)
  show "grows s t \<Longrightarrow> grows t u \<Longrightarrow> grows s u" for s t u :: "'c cg" by (rule grows_trans)
  show "placed s' = placed s \<Longrightarrow> grows s s'" for s s' :: "'c cg" by (simp add: placed_def grows_def)
  show "\<not> isTerminator i \<Longrightarrow> within grows (insert_instr i)" for i :: "'c instr"
    by (auto simp: within_def grows_def insert_instr_def Let_def split: option.splits)
qed

text \<open>Expressions whose code has no branches.\<close>

fun straight :: "expr \<Rightarrow> bool" where
  "straight (EUnary _ e _) = straight e"
| "straight (ECast e _) = straight e"
| "straight (EBinary op l r _) = (op \<noteq> Tag_kAmpAmp \<and> op \<noteq> Tag_kPipePipe \<and> straight l \<and> straight r)"
| "straight (ECond _ _ _ _) = False"
| "straight (ECall f args vt _) = (vt = None \<and> straight f \<and> list_all straight args)"
| "straight (EStmt _ _) = False"
| "straight _ = True"

lemma straight_form: "straight e \<Longrightarrow> plain_form e"
  by (cases e) auto

lemma straight_visitors: "code_visitors grows (visitors_at G n) straight"
proof (induction n)
  case 0
  show ?case by unfold_locales (auto simp: within_fail list_all_iff)
next
  case (Suc n)
  note facts = code_visitors.Accept_ok [OF Suc _ straight_form] code_visitors.GetPtr_ok [OF Suc]
  show ?case by unfold_locales (auto simp: visitors_with_def facts list_all_iff)
qed

interpretation straight: code_visitors grows "visitors_at G n" straight for G n
  by (rule straight_visitors)

subsection \<open>The targets of \<open>break\<close> and \<open>continue\<close>\<close>

abbreviation "same_stack \<equiv> same break_continue_stack"

interpretation same_stack: code_relation same_stack
  by unfold_locales (auto simp: same_def placed_def within_def insert_instr_def Let_def split: option.splits)

text \<open>With a stack that is known: it is pushed to and taken from in between.\<close>

definition stack_goes :: "(nat \<times> nat option) list \<Rightarrow> ('c, 'a) gen \<Rightarrow> (nat \<times> nat option) list \<Rightarrow> bool" where
  "stack_goes st m st' \<longleftrightarrow> (\<forall>s x s'. break_continue_stack s = st \<longrightarrow> m s = Inr (x, s') \<longrightarrow> break_continue_stack s' = st')"

lemma stack_goes_within: "within same_stack m \<Longrightarrow> stack_goes st m st"
  by (simp add: within_def stack_goes_def same_def)

lemma within_stack_goes: "(\<And>st. stack_goes st m st) \<Longrightarrow> within same_stack m"
  unfolding within_def stack_goes_def same_def by blast

lemma stack_goes_bnd: "stack_goes st m st1 \<Longrightarrow> (\<And>x. stack_goes st1 (f x) st') \<Longrightarrow> stack_goes st (bnd m f) st'"
proof (unfold stack_goes_def, intro allI impI)
  fix s y s' assume m: "\<forall>s x s'. break_continue_stack s = st \<longrightarrow> m s = Inr (x, s') \<longrightarrow> break_continue_stack s' = st1"
    and f: "\<And>x. \<forall>s y s'. break_continue_stack s = st1 \<longrightarrow> f x s = Inr (y, s') \<longrightarrow> break_continue_stack s' = st'"
    and s: "break_continue_stack s = st" and a: "bnd m f s = Inr (y, s')"
  from a obtain x t where "m s = Inr (x, t)" "f x t = Inr (y, s')" by (auto simp: run result_simps)
  with m f s show "break_continue_stack s' = st'" by blast
qed

lemma stack_goes_thn: "stack_goes st m st1 \<Longrightarrow> stack_goes st1 m' st' \<Longrightarrow> stack_goes st (thn m m') st'"
  unfolding thn_def by (rule stack_goes_bnd)

lemma stack_goes_block: "stack_goes st (PushBlock b c) ((b, c) # st)" "stack_goes ((b, c) # st) PopBlock st"
  by (simp_all add: stack_goes_def PushBlock_def PopBlock_def run)

lemma stack_blocks [rel]: "within same_stack CreateBasicBlock" "within same_stack ClearInsertionPoint" "within same_stack (SetInsertPoint b)"
  "within same_stack (link_block b)" "within same_stack (on_instr n f)" "within same_stack (insert_instr i)"
  "within same_stack (replaceAllUsesWith b b')" "within same_stack (CreateEntryBlockAlloca G lt al)" "within same_stack (phi_in b lt vs)"
  by (auto simp: within_def same_def run result_simps CreateBasicBlock_def ClearInsertionPoint_def SetInsertPoint_def link_block_def
      on_instr_def insert_instr_def replaceAllUsesWith_def on_instrs_def CreateEntryBlockAlloca_def phi_in_def Let_def
      split: option.splits if_splits)

lemma stack_modify: "(\<And>s. break_continue_stack (f s) = break_continue_stack s) \<Longrightarrow> within same_stack (modify f)"
  by (rule within_modify) (simp add: same_def)

lemma stack_put [rel]: "within same_stack (put_instr i)" "within same_stack (emit G i)" "within same_stack (build G i)"
  unfolding put_instr_def emit_def build_def by (rule same.steps rel)+

lemma stack_branches [rel]: "within same_stack (EmitBranch b)" "within same_stack (EmitBlock b fin)" "within same_stack EnsureInsertPoint"
  "within same_stack HaveInsertPoint" "within same_stack (EmitBranchThroughCleanup b')" "within same_stack (GetBasicBlockForLabel name)"
  unfolding EmitBranch_def EmitBlock_def EnsureInsertPoint_def HaveInsertPoint_def GetInsertBlock_def EmitBranchThroughCleanup_def
    GetBasicBlockForLabel_def
  by (rule same.steps rel stack_modify | simp)+

lemma stack_simplify [rel]: "within same_stack (SimplifyForwardingBlocks b)"
  by (auto simp: within_def same_def SimplifyForwardingBlocks_def replaceAllUsesWith_def on_instrs_def run split: option.splits instr.splits if_splits)

text \<open>The visitors of sub-trees leave the stack as it was.\<close>

locale balanced_visitors =
  fixes P :: "'c visitors"
  assumes any_expr: "within same_stack (v_expr P e)" and any_stmt: "within same_stack (v_stmt P st)" and any_ptr: "within same_stack (v_ptr P e)"
    and any_branch: "within same_stack (v_branch P e t f)"
begin

sublocale code_visitors same_stack P "\<lambda>_. True"
  by unfold_locales (simp_all add: any_expr any_ptr)

lemmas visits = value_ok [OF TrueI] bool_ok [OF TrueI] GetPtr_ok [OF TrueI] assignments [OF TrueI] any_expr any_stmt any_ptr any_branch
  same_stack.operators same.within_for_each same.within_mapP same.within_foldP stack_modify rel

lemma condition_ok: "within same_stack (EmitBranchOnBoolExpr G P e t f)"
  unfolding EmitBranchOnBoolExpr_def branch_on_value_def by (cases e; auto intro!: visits)

lemma va_arg_ok: "within same_stack (VaArg G P e lt)"
  unfolding VaArg_def by (rule visits | simp)+

lemma logic_ok: "within same_stack (CodeGen_LogicOrOp G P l e)" "within same_stack (CodeGen_LogicAndOp G P l e)"
  unfolding CodeGen_LogicOrOp_def CodeGen_LogicAndOp_def join_logic_def addIncoming_def by (rule visits | simp)+

lemma conditional_ok: "within same_stack (Visit_ConditionOpExpr G P c l e)"
  unfolding Visit_ConditionOpExpr_def addIncoming_def by (rule visits | simp)+

lemma call_ok: "within same_stack (Visit_FuncCallExpr G P f args vt)"
  unfolding Visit_FuncCallExpr_def MayCallBuiltinFunc_def Let_def second_arg_def VaStart_def VaEnd_def VaStartEnd_def VaCopy_def
    SyncSynchronize_def Alloc_def PopCount_def Clz_def Ctz_def count_zeros_def IsInfSign_def IsFinite_def fabs_f32_def
  by (rule va_arg_ok visits | simp)+

lemma place_ok: "within same_stack (GetPtr G P e)"
  by (rule GetPtr_ok [OF TrueI])

lemma expr_ok: "within same_stack (Accept_expr G P e)"
  by (cases "plain_form e", rule Accept_ok, simp_all)
     (cases e; auto simp: Accept_expr_def Visit_BinaryOpExpr_def Visit_StmtExpr_def split: if_splits intro!: logic_ok conditional_ok call_ok visits)

text \<open>Statements.\<close>

lemma optional_ok: "within same_stack (opt_stmt P so)" "within same_stack (opt_expr P eo)"
  unfolding opt_stmt_def opt_expr_def by (rule visits)+

lemma labels_ok: "within same_stack (Visit_LabelStmt P name st)" "within same_stack (Visit_CaseStmt P a b st)"
  "within same_stack (Visit_DefaultStmt P st)" "within same_stack (Visit_GotoStmt name)"
  unfolding Visit_LabelStmt_def Visit_CaseStmt_def add_cases_def the_switch_def Visit_DefaultStmt_def getDefaultDest_def Visit_GotoStmt_def
  by (rule visits | simp)+

lemma simple_ok: "within same_stack (Visit_CompoundStmt P ss)" "within same_stack (Visit_ExprStmt P eo)" "within same_stack Visit_ContinueStmt"
  "within same_stack Visit_BreakStmt" "within same_stack (Visit_ReturnStmt P eo)"
  unfolding Visit_CompoundStmt_def Visit_ExprStmt_def Visit_ContinueStmt_def Visit_BreakStmt_def Visit_ReturnStmt_def
  by (rule visits | simp)+

lemma if_ok: "within same_stack (Visit_IfStmt G P c t eo)"
  unfolding Visit_IfStmt_def if_branches_def by (rule optional_ok visits | simp)+

lemmas pushes = stack_goes_block stack_goes_thn stack_goes_bnd stack_goes_within

lemma switch_ok: "within same_stack (Visit_SwitchStmt G P c st)"
  unfolding Visit_SwitchStmt_def by (rule within_stack_goes) (rule pushes visits | simp)+

lemma while_ok: "within same_stack (Visit_WhileStmt G P c st)"
  unfolding Visit_WhileStmt_def Let_def by (rule within_stack_goes) (rule pushes visits | simp)+

lemma do_ok: "within same_stack (Visit_DoWhileStmt G P c st)"
  unfolding Visit_DoWhileStmt_def Let_def by (rule within_stack_goes) (rule pushes visits | simp)+

lemma for_ok: "within same_stack (Visit_ForStmt P eo co io st so)"
  unfolding Visit_ForStmt_def by (rule within_stack_goes) (rule pushes optional_ok visits | simp)+

lemma init_place_ok: "within same_stack (init_place G ixs acc)"
  by (induction ixs arbitrary: acc) (auto simp: Let_def split: prod.splits ctype.splits bool.splits intro!: visits)

lemma declaration_ok: "within same_stack (Visit_Declaration G P j)"
proof -
  have i: "within same_stack (init_element G P n it)" for n it unfolding init_element_def by (rule init_place_ok visits | simp)+
  have a: "within same_stack (InitLocalAggregate G P n d)" for n d unfolding InitLocalAggregate_def by (rule i visits | simp)+
  show ?thesis unfolding Visit_Declaration_def DealLocaleDecl_def Let_def
    by (auto split: ident.splits list.splits intro!: a visits)
qed

lemma stmt_ok: "within same_stack (EmitStmt G P st)"
proof -
  have "within same_stack (Accept_stmt G P st)"
    by (cases st; simp add: Accept_stmt_def; rule labels_ok simple_ok if_ok switch_ok while_ok do_ok for_ok declaration_ok)
  then show ?thesis unfolding EmitStmt_def EmitSimpleStmt_def by (auto intro!: visits)
qed

end

lemma visitors_balanced: "balanced_visitors (visitors_at G n)"
proof (induction n)
  case 0
  show ?case by unfold_locales (simp_all add: rel)
next
  case (Suc n)
  note facts = balanced_visitors.expr_ok [OF Suc] balanced_visitors.stmt_ok [OF Suc] balanced_visitors.condition_ok [OF Suc]
    balanced_visitors.place_ok [OF Suc]
  show ?case by unfold_locales (simp_all add: visitors_with_def facts)
qed

interpretation balanced: balanced_visitors "visitors_at G n" for G n
  by (rule visitors_balanced)


subsection \<open>Sequences\<close>

text \<open>The visitors of one depth more, and the laws that take a sequence of operations apart.\<close>

lemma visitor_fields:
  "v_expr (visitors_at G (Suc n)) = Accept_expr G (visitors_at G n)" "v_stmt (visitors_at G (Suc n)) = EmitStmt G (visitors_at G n)"
  "v_ptr (visitors_at G (Suc n)) = GetPtr G (visitors_at G n)"
  "v_branch (visitors_at G (Suc n)) = EmitBranchOnBoolExpr G (visitors_at G n)"
  by (simp_all add: visitors_with_def)

lemma bnd_nested: "bnd (bnd m f) g = bnd m (\<lambda>x. bnd (f x) g)"
  by (simp add: fun_eq_iff bnd_def bindE_def split: sum.split prod.split)

lemma bnd_ret: "bnd (ret x) f = f x" "bnd m ret = m"
  by (simp_all add: fun_eq_iff bnd_def ret_def bindE_def split: sum.split)

lemmas sequence = thn_def bnd_nested bnd_ret

lemma for_each_append: "for_each f (xs @ ys) = thn (for_each f xs) (for_each f ys)"
  by (induction xs) (simp_all add: sequence)

subsection \<open>A switch\<close>

text \<open>The parts of a switch in front of its body and behind it.\<close>

definition switch_front :: "'c visitors \<Rightarrow> expr \<Rightarrow> ('c, nat option \<times> nat \<times> nat) gen" where
  "switch_front P c = bnd (value_of P c) (\<lambda>cond_val. bnd (gets switch_inst) (\<lambda>backup.
     bnd CreateBasicBlock (\<lambda>default_block. bnd CreateBasicBlock (\<lambda>end_block.
     bnd (insert_instr (I_Switch cond_val default_block [])) (\<lambda>sw.
     thn (modify (\<lambda>st. st\<lparr>switch_inst := Some sw\<rparr>)) (thn ClearInsertionPoint
     (bnd (gets (\<lambda>st. case break_continue_stack st of [] \<Rightarrow> None | (_, c) # _ \<Rightarrow> c)) (\<lambda>continue_block.
     thn (PushBlock end_block continue_block) (ret (backup, default_block, end_block))))))))))"

definition switch_back :: "nat option \<times> nat \<times> nat \<Rightarrow> ('c, unit) gen" where
  "switch_back = (\<lambda>(backup, default_block, end_block). thn PopBlock
     (bnd (gets (\<lambda>st. default_block \<in> set (cg_order st))) (\<lambda>placed.
     thn (if \<not> placed then replaceAllUsesWith default_block end_block else ret ())
     (thn (EmitBlock end_block True) (modify (\<lambda>st. st\<lparr>switch_inst := backup\<rparr>))))))"

lemma switch_parts: "Visit_SwitchStmt G P c b = bnd (switch_front P c) (\<lambda>x. thn (v_stmt P b) (switch_back x))"
  by (simp add: Visit_SwitchStmt_def switch_front_def switch_back_def sequence)

definition no_continue :: "'c cg \<Rightarrow> bool" where
  "no_continue s \<longleftrightarrow> (case break_continue_stack s of [] \<Rightarrow> True | (_, c) # _ \<Rightarrow> c = None)"

lemma front_stack:
  assumes "switch_front (visitors_at G n) c s = Inr (x, t)" and "no_continue s"
  shows "\<exists>b st. break_continue_stack t = (b, None) # st"
proof -
  obtain v s1 where v: "value_of (visitors_at G n) c s = Inr (v, s1)" using assms(1) by (auto simp: switch_front_def run result_simps)
  have "break_continue_stack s1 = break_continue_stack s"
    using withinD [OF balanced.value_ok [OF TrueI] v] by (simp add: same_def)
  with assms v show ?thesis
    by (auto simp: switch_front_def run CreateBasicBlock_def insert_instr_def ClearInsertionPoint_def PushBlock_def no_continue_def Let_def
        split: option.splits list.splits)
qed

text \<open>A label is a place in the code: the statement behind it is generated.\<close>

lemma case_at:
  assumes "v_stmt (visitors_at G (Suc n)) (SCase k None (SExpr None)) s = Inr (u, s')" and "break_continue_stack s = (d, None) # st"
  shows "v_stmt (visitors_at G (Suc n)) (SCase k None SContinue) s = Inl Null_Deref"
proof -
  let ?pre = "bnd CreateBasicBlock (\<lambda>block. thn (EmitBlock block False) (add_cases k k block))"
  have parts: "v_stmt (visitors_at G (Suc n)) (SCase k None b) = thn ?pre (thn (v_stmt (visitors_at G n) b) (ret ()))" for b
    by (simp add: visitor_fields EmitStmt_def EmitSimpleStmt_def Accept_stmt_def Visit_CaseStmt_def sequence del: visitors_at.simps)
  from assms(1) obtain t where t: "?pre s = Inr ((), t)" and e: "v_stmt (visitors_at G n) (SExpr None) t \<noteq> Inl Out_Of_Fuel"
    unfolding parts by (auto simp: run result_simps simp del: visitors_at.simps)
  have "within same_stack ?pre" unfolding add_cases_def the_switch_def by (rule balanced.visits | simp)+
  from withinD [OF this t] have st: "break_continue_stack t = (d, None) # st" using assms(2) by (simp add: same_def)
  have "within (same cg_at) (add_cases k k b)" for b
    unfolding add_cases_def the_switch_def
    by (rule same.steps same.within_for_each | simp add: on_instr_def within_modify same_def)+
  note same_at = withinD [OF this]
  obtain a t0 where "add_cases k k a (t0\<lparr>cg_at := Some a\<rparr>) = Inr ((), t)"
    using t by (auto simp: run result_simps EmitBlock_def SetInsertPoint_def)
  from same_at [OF this] have at: "cg_at t \<noteq> None" by (simp add: same_def)
  obtain m where "n = Suc m" using e by (cases n) (auto simp: run)
  then have "v_stmt (visitors_at G n) SContinue t = Inl Null_Deref" using st at
    by (auto simp: visitor_fields EmitStmt_def EmitSimpleStmt_def Accept_stmt_def Visit_ContinueStmt_def EmitBranchThroughCleanup_def
        HaveInsertPoint_def GetInsertBlock_def run simp del: visitors_at.simps)
  then show ?thesis unfolding parts using t by (simp add: run del: visitors_at.simps)
qed

subsection \<open>The mark of a volatile access\<close>

abbreviation "same_mark \<equiv> same is_volatile"
abbreviation "same_place \<equiv> same cg_at"

lemma mark_modify: "(\<And>s. is_volatile (f s) = is_volatile s) \<Longrightarrow> within same_mark (modify f)"
  by (rule within_modify) (simp add: same_def)

lemma mark_blocks: "within same_mark (link_block b)" "within same_mark (insert_instr i)" "within same_mark (replaceAllUsesWith b b')"
  by (auto simp: within_def same_def run result_simps link_block_def insert_instr_def replaceAllUsesWith_def on_instrs_def Let_def
      split: option.splits if_splits)

lemma mark_finish: "within same_mark (FinishFunction G name)"
  unfolding FinishFunction_def EmitReturnBlock_def EmitFunctionEpilog_def EmitBlock_def EmitBranch_def GetInsertBlock_def
    ClearInsertionPoint_def SetInsertPoint_def plain_load_def emit_def put_instr_def
  by (rule same.steps mark_blocks mark_modify | simp)+

lemma mark_object: "within same_mark (object_ptr G n)"
  unfolding object_ptr_def GetGlobalPtr_def CreateGlobalVar_def GetLocalPtr_def GetDecl_def named_global_def set_global_init_def
    set_global_align_def upd_global_def llvm_type_def
  by (rule same.steps rel mark_modify | simp)+

lemma start_at: "StartFunction G i s = Inr (u, s') \<Longrightarrow> cg_at s' \<noteq> None"
  by (cases i) (auto simp: StartFunction_def SetInsertPoint_def run result_simps)

lemma place_alloca: "within same_place (CreateEntryBlockAlloca G lt al)"
  by (auto simp: within_def same_def run result_simps CreateEntryBlockAlloca_def Let_def)

interpretation same_place: code_relation same_place
  by unfold_locales (auto simp: same_def placed_def within_def insert_instr_def Let_def split: option.splits)

lemma place_params: "within same_place (store_params G k as ps)"
  by (induction as arbitrary: k ps) (auto split: list.splits intro!: place_alloca same_place.operators)

text \<open>A local variable without an initialiser, or a declaration that makes no variable.\<close>

definition uninitialised :: "'c genv \<Rightarrow> nat \<Rightarrow> bool" where
  "uninitialised G k \<longleftrightarrow> \<not> HasLocalInit (g_decls G k) \<and> \<not> HasConstantInit (g_decls G k)"

lemma place_declaration:
  assumes "uninitialised G k"
  shows "within same_place (v_stmt (visitors_at G n) (SDecl k))"
proof (cases n)
  case 0
  then show ?thesis by (simp add: rel)
next
  case (Suc m)
  have "within same_place (Visit_Declaration G P k)" for P using assms
    by (auto simp: Visit_Declaration_def DealLocaleDecl_def uninitialised_def Let_def split: ident.splits
        intro!: place_alloca same_place.operators)
  then show ?thesis
    by (auto simp: Suc visitor_fields EmitStmt_def EmitSimpleStmt_def Accept_stmt_def sequence simp del: visitors_at.simps intro!: same.steps)
qed

text \<open>The address of an object as a statement.\<close>

lemma address_marks:
  assumes "v_stmt (visitors_at G n) (SExpr (Some (EUnary Tag_kAmp (EIdent (Object x m)) q))) s = Inr (u, s')" and "cg_at s \<noteq> None"
    and "QualType_IsVolatile (obj_type (obj G m))"
  shows "is_volatile s'"
proof -
  obtain j where n: "n = Suc j" using assms(1) by (cases n) (auto simp: run)
  have j: "v_expr (visitors_at G j) (EUnary Tag_kAmp (EIdent (Object x m)) q) s = Inr ((), s')"
    using assms(1,2) by (auto simp: n visitor_fields EmitStmt_def EmitSimpleStmt_def Accept_stmt_def Visit_ExprStmt_def HaveInsertPoint_def
        GetInsertBlock_def run result_simps simp del: visitors_at.simps)
  then obtain k where k: "j = Suc k" by (cases j) (auto simp: run)
  obtain p t where p: "v_ptr (visitors_at G k) (EIdent (Object x m)) s = Inr (p, t)" and s': "s' = t\<lparr>cg_result := Some p\<rparr>"
    using j by (auto simp: k visitor_fields Accept_expr_def Visit_UnaryOpExpr_def set_result_def run result_simps simp del: visitors_at.simps)
  from p obtain l where l: "k = Suc l" by (cases k) (auto simp: run)
  have "object_ptr G m (s\<lparr>is_volatile := True\<rparr>) = Inr (p, t)"
    using p assms(3) by (simp add: l visitor_fields GetPtr_def set_volatile_def run del: visitors_at.simps)
  from withinD [OF mark_object this] show ?thesis by (simp add: s' same_def)
qed

subsection \<open>A loop on a constant\<close>

text \<open>The value of the condition is a constant that the builder folds to the truth value one.\<close>

definition constant_truth :: "'c genv \<Rightarrow> qtype \<Rightarrow> int \<Rightarrow> bool" where
  "constant_truth G q v \<longleftrightarrow> (\<exists>w c. GetLLVMType (h_types (g_heap G)) (fst q) = Inr (LInt w) \<and> w \<noteq> 1 \<and>
     getType (g_llvm G) (get_int (g_llvm G) (LInt w) v) = LInt w \<and>
     ir_fold (g_ir G) (I_Cmp ICMP_NE (const_int G (LInt w) v) (const_int G (LInt w) 0)) = Some (Const c) \<and>
     is_const_int G (ir_isOne (g_ir G)) (Const c))"

lemma truth_value:
  assumes "EvaluateExprAsBool G (visitors_at G n) (EBinary Tag_kComma e (EInt q v) q') s = Inr (x, s')" and "constant_truth G q v"
  shows "is_const_int G (ir_isOne (g_ir G)) x"
proof -
  obtain m where n: "n = Suc m" using assms(1) by (cases n) (auto simp: EvaluateExprAsBool_def run)
  obtain k where m: "m = Suc k" using assms(1) 
    by (cases m) (auto simp: n visitor_fields EvaluateExprAsBool_def Accept_expr_def Visit_BinaryOpExpr_def run result_simps
        simp del: visitors_at.simps(2))
  show ?thesis using assms
    by (auto simp: n m visitor_fields EvaluateExprAsBool_def Accept_expr_def Visit_BinaryOpExpr_def Visit_ConstantExpr_def constant_truth_def
        llvm_type_def set_result_def CastToBool_def GetZero_def val_type_def const_int_def build_def Let_def run result_simps
        simp del: visitors_at.simps)
qed

lemma emit_branch_to:
  assumes "EmitBranch b s = Inr (u, s')"
  shows "cg_at s' = None" "cg_order s' = cg_order s" "cg_next s \<le> cg_next s'" "break_continue_stack s' = break_continue_stack s"
    "cg_at s \<noteq> Some a \<Longrightarrow> cg_block s' a = cg_block s a"
    "cg_at s = Some a \<Longrightarrow> cg_block s' a = (if getTerminator s a = None then cg_block s a @ [(cg_next s, I_Br b)] else cg_block s a)"
  using assms by (auto simp: EmitBranch_def GetInsertBlock_def ClearInsertionPoint_def put_instr_def insert_instr_def run Let_def
      split: option.splits if_splits)

lemma emit_block_to:
  assumes "EmitBlock b fin s = Inr (u, s')"
  obtains a where "EmitBranch b s = Inr ((), a)"
    and "fin \<and> s' = a \<or> b \<notin> set (cg_order a) \<and> s' = a\<lparr>cg_order := cg_order a @ [b], cg_at := Some b\<rparr>"
  using assms by (fastforce simp: EmitBlock_def link_block_def SetInsertPoint_def run result_simps split: if_splits)

text \<open>Outside of the block \<open>k\<close> there are only branches next to the instructions of \<open>old\<close>.\<close>

definition old_or_jump :: "'c block \<Rightarrow> nat \<times> 'c instr \<Rightarrow> bool" where
  "old_or_jump old x \<longleftrightarrow> fst x \<in> fst ` set old \<or> (\<exists>t. snd x = I_Br t)"

definition only_jumps :: "(nat \<Rightarrow> 'c block) \<Rightarrow> nat \<Rightarrow> 'c cg \<Rightarrow> bool" where
  "only_jumps old k s \<longleftrightarrow> (\<forall>b. b \<noteq> k \<longrightarrow> (\<forall>x \<in> set (cg_block s b). old_or_jump (old b) x))"

lemma jumps_branch:
  assumes "EmitBranch b s = Inr (u, s')" and "only_jumps old k s"
  shows "only_jumps old k s'"
  unfolding only_jumps_def
proof (intro allI impI ballI)
  fix a x assume "a \<noteq> k" and x: "x \<in> set (cg_block s' a)"
  then have "\<forall>y \<in> set (cg_block s a). old_or_jump (old a) y" using assms(2) by (simp add: only_jumps_def)
  moreover have "old_or_jump (old a) (cg_next s, I_Br b)" by (simp add: old_or_jump_def)
  moreover have "x \<in> set (cg_block s a) \<or> x = (cg_next s, I_Br b)"
    using x emit_branch_to(5,6) [OF assms(1), of a] by (cases "cg_at s = Some a") (auto split: if_splits)
  ultimately show "old_or_jump (old a) x" by blast
qed

lemma jumps_fields [simp]: "only_jumps old k (s\<lparr>cg_next := n\<rparr>) = only_jumps old k s"
  "only_jumps old k (s\<lparr>break_continue_stack := st\<rparr>) = only_jumps old k s" "only_jumps old k (s\<lparr>cg_order := bs\<rparr>) = only_jumps old k s"
  "only_jumps old k (s\<lparr>cg_at := b\<rparr>) = only_jumps old k s"
  by (simp_all add: only_jumps_def)

lemma jumps_block: "EmitBlock b fin s = Inr (u, s') \<Longrightarrow> only_jumps old k s \<Longrightarrow> only_jumps old k s'"
  by (erule emit_block_to, drule (1) jumps_branch) auto

lemma jumps_grow: "grows s s' \<Longrightarrow> cg_at s = Some k \<Longrightarrow> only_jumps old k s \<Longrightarrow> only_jumps old k s'"
  by (auto simp: only_jumps_def grows_def)

lemma simplify_drops:
  assumes "SimplifyForwardingBlocks k s = Inr (u, s')" and "getTerminator s k = Some (I_Br d)" and "only_jumps old k s"
    and "k \<notin> set (remove1 k (cg_order s))" and "b \<in> set (cg_order s')" and "x \<in> set (cg_block s' b)"
  shows "old_or_jump (old b) x"
proof -
  have s': "s' = (on_instrs (replace_block k d) s)\<lparr>cg_order := remove1 k (cg_order s),
      cg_block := (cg_block (on_instrs (replace_block k d) s))(k := [])\<rparr>"
    using assms(1,2) by (auto simp: SimplifyForwardingBlocks_def replaceAllUsesWith_def on_instrs_def run split: if_splits)
  with assms(4,5) have "b \<noteq> k" by auto
  with assms(6) s' obtain m i where x: "x = (m, replace_block k d i)" and i: "(m, i) \<in> set (cg_block s b)" by (auto simp: on_instrs_def)
  from assms(3) \<open>b \<noteq> k\<close> i have "old_or_jump (old b) (m, i)" by (simp add: only_jumps_def)
  then show ?thesis by (auto simp: old_or_jump_def x)
qed

definition fresh_numbers :: "'c cg \<Rightarrow> bool" where
  "fresh_numbers s \<longleftrightarrow> (\<forall>b \<ge> cg_next s. cg_block s b = [] \<and> cg_at s \<noteq> Some b)"

text \<open>The states that a loop without a test goes through.\<close>

lemma constant_while:
  assumes "Visit_WhileStmt G P c (SExpr None) s = Inr (u, s')"
    and "\<And>t y t'. EvaluateExprAsBool G P c t = Inr (y, t') \<Longrightarrow> grows t t' \<and> is_const_int G (ir_isOne (g_ir G)) y"
    and "\<And>t t'. cg_at t \<noteq> None \<Longrightarrow> v_stmt P (SExpr None) t = Inr ((), t') \<Longrightarrow> t' = t"
  obtains t1 t3 t4 t6 t7 where "EmitBlock (cg_next s) False (s\<lparr>cg_next := Suc (cg_next s)\<rparr>) = Inr ((), t1)"
    and "grows (t1\<lparr>cg_next := Suc (Suc (cg_next t1)), break_continue_stack := (Suc (cg_next t1), Some (cg_next s)) # break_continue_stack t1\<rparr>) t3"
    and "EmitBlock (cg_next t1) False t3 = Inr ((), t4)"
    and "EmitBranch (cg_next s) (t4\<lparr>break_continue_stack := tl (break_continue_stack t4)\<rparr>) = Inr ((), t6)"
    and "EmitBlock (Suc (cg_next t1)) True t6 = Inr ((), t7)" and "SimplifyForwardingBlocks (cg_next s) t7 = Inr ((), s')"
proof -
  let ?k = "cg_next s"
  note w = assms(1) [unfolded Visit_WhileStmt_def]
  obtain t1 where t1: "EmitBlock ?k False (s\<lparr>cg_next := Suc ?k\<rparr>) = Inr ((), t1)"
    using w by (auto simp: run result_simps CreateBasicBlock_def)
  define t2 where "t2 = t1\<lparr>cg_next := Suc (Suc (cg_next t1)), break_continue_stack := (Suc (cg_next t1), Some ?k) # break_continue_stack t1\<rparr>"
  obtain y t3 where t3: "EvaluateExprAsBool G P c t2 = Inr (y, t3)"
    using w by (auto simp: run result_simps CreateBasicBlock_def PushBlock_def t1 t2_def)
  from assms(2) [OF t3] have g: "grows t2 t3" and truth: "is_const_int G (ir_isOne (g_ir G)) y" by auto
  obtain t4 t4' t6 t7 where t4: "EmitBlock (cg_next t1) False t3 = Inr ((), t4)" and s4: "v_stmt P (SExpr None) t4 = Inr ((), t4')"
    and t6: "EmitBranch ?k (t4'\<lparr>break_continue_stack := tl (break_continue_stack t4')\<rparr>) = Inr ((), t6)"
    and t7: "EmitBlock (Suc (cg_next t1)) True t6 = Inr ((), t7)" and s': "SimplifyForwardingBlocks ?k t7 = Inr ((), s')"
    using w t3 truth by (auto simp: run result_simps CreateBasicBlock_def PushBlock_def PopBlock_def t1 t2_def)
  have "cg_at t4 \<noteq> None" using t4 by (auto elim: emit_block_to)
  from assms(3) [OF this s4] t6 have "EmitBranch ?k (t4\<lparr>break_continue_stack := tl (break_continue_stack t4)\<rparr>) = Inr ((), t6)" by simp
  with that t1 g t4 t7 s' show ?thesis unfolding t2_def by blast
qed

text \<open>The block of the condition is erased, and everything in it.\<close>

lemma condition_erased:
  assumes "Visit_WhileStmt G P c (SExpr None) s = Inr (u, s')" and "fresh_numbers s"
    and "\<And>t y t'. EvaluateExprAsBool G P c t = Inr (y, t') \<Longrightarrow> grows t t' \<and> is_const_int G (ir_isOne (g_ir G)) y"
    and "\<And>t t'. cg_at t \<noteq> None \<Longrightarrow> v_stmt P (SExpr None) t = Inr ((), t') \<Longrightarrow> t' = t"
    and "b \<in> set (cg_order s')" and "x \<in> set (cg_block s' b)"
  shows "old_or_jump (cg_block s b) x"
proof -
  let ?k = "cg_next s"
  obtain t1 t3 t4 t6 t7 where t1: "EmitBlock ?k False (s\<lparr>cg_next := Suc ?k\<rparr>) = Inr ((), t1)"
    and g: "grows (t1\<lparr>cg_next := Suc (Suc (cg_next t1)), break_continue_stack := (Suc (cg_next t1), Some ?k) # break_continue_stack t1\<rparr>) t3"
    and t4: "EmitBlock (cg_next t1) False t3 = Inr ((), t4)"
    and t6: "EmitBranch ?k (t4\<lparr>break_continue_stack := tl (break_continue_stack t4)\<rparr>) = Inr ((), t6)"
    and t7: "EmitBlock (Suc (cg_next t1)) True t6 = Inr ((), t7)" and s': "SimplifyForwardingBlocks ?k t7 = Inr ((), s')"
    by (rule constant_while [OF assms(1,3,4)])
  define body where "body = cg_next t1"
  obtain a1 where a1: "EmitBranch ?k (s\<lparr>cg_next := Suc ?k\<rparr>) = Inr ((), a1)" "?k \<notin> set (cg_order a1)"
    "t1 = a1\<lparr>cg_order := cg_order a1 @ [?k], cg_at := Some ?k\<rparr>"
    using t1 by (auto elim: emit_block_to)
  obtain a4 where a4: "EmitBranch body t3 = Inr ((), a4)" "t4 = a4\<lparr>cg_order := cg_order a4 @ [body], cg_at := Some body\<rparr>"
    using t4 unfolding body_def by (auto elim: emit_block_to)
  obtain a7 where a7: "EmitBranch (Suc body) t6 = Inr ((), a7)" "t7 = a7 \<or> t7 = a7\<lparr>cg_order := cg_order a7 @ [Suc body], cg_at := Some (Suc body)\<rparr>"
    using t7 unfolding body_def by (auto elim: emit_block_to)
  have "only_jumps (cg_block s) ?k s" by (simp add: only_jumps_def old_or_jump_def)
  then have "only_jumps (cg_block s) ?k t1" using jumps_block [OF t1] by simp
  then have "only_jumps (cg_block s) ?k t3" using jumps_grow [OF g] a1(3) by simp
  then have "only_jumps (cg_block s) ?k t6" using jumps_branch [OF t6] jumps_block [OF t4] by simp
  then have J: "only_jumps (cg_block s) ?k t7" by (rule jumps_block [OF t7])
  have body: "?k < body" using emit_branch_to(3) [OF a1(1)] a1(3) by (simp add: body_def)
  have "cg_block t1 ?k = []" using assms(2) emit_branch_to(5) [OF a1(1), of ?k] a1(3) by (simp add: fresh_numbers_def)
  then have at3: "cg_at t3 = Some ?k" and "getTerminator t3 ?k = None" using g a1(3) by (auto simp: grows_def getTerminator_def)
  then have "cg_block t4 ?k = cg_block t3 ?k @ [(cg_next t3, I_Br body)]" using emit_branch_to(6) [OF a4(1) at3] a4(2) by simp
  then have "cg_block t7 ?k = cg_block t3 ?k @ [(cg_next t3, I_Br body)]"
    using emit_branch_to(5) [OF t6, of ?k] emit_branch_to(5) [OF a7(1), of ?k] emit_branch_to(1) [OF t6] a4(2) a7(2) body by auto
  then have tm: "getTerminator t7 ?k = Some (I_Br body)" by (simp add: getTerminator_def)
  have "cg_order t4 = cg_order s @ [?k, body]"
    using g emit_branch_to(2) [OF a1(1)] emit_branch_to(2) [OF a4(1)] a1(3) a4(2) by (simp add: grows_def)
  then have "cg_order t7 = cg_order s @ [?k, body] \<or> cg_order t7 = cg_order s @ [?k, body, Suc body]"
    using emit_branch_to(2) [OF t6] emit_branch_to(2) [OF a7(1)] a7(2) by auto
  then have "?k \<notin> set (remove1 ?k (cg_order t7))" using a1(2) emit_branch_to(2) [OF a1(1)] body by (auto simp: remove1_append)
  then show ?thesis by (rule simplify_drops [OF s' tm J _ assms(5,6)])
qed

end
