(* ===== verification/Kcc_GenSample.thy ===== *)
theory Kcc_GenSample
  imports Kcc_GenBlocks Kcc_CalcProps Kcc_GenRel
begin

text \<open>
  What the generator does with a condition behind a comma, with \<open>&&\<close> behind a constant, with \<open>continue\<close> in
  a switch and with the address of a volatile object, in any environment and state. The
  theorems are applied to small programs: there LLVM's integers are those of \<open>int_llvm\<close>, the builder folds comparisons
  of constants, as LLVM's does, and types instructions after the language reference.
\<close>

subsection \<open>A builder\<close>

fun result_type :: "int_const instr \<Rightarrow> ltype" where
  "result_type (I_Bin _ a _) = (case a of Const c \<Rightarrow> int_getType c | Reg _ t \<Rightarrow> t | Param _ t \<Rightarrow> t)"
| "result_type (I_Neg _ a) = (case a of Const c \<Rightarrow> int_getType c | Reg _ t \<Rightarrow> t | Param _ t \<Rightarrow> t)"
| "result_type (I_Not a) = (case a of Const c \<Rightarrow> int_getType c | Reg _ t \<Rightarrow> t | Param _ t \<Rightarrow> t)"
| "result_type (I_Cmp _ _ _) = LInt 1"
| "result_type (I_Cast _ _ t) = t"
| "result_type (I_BitCast _ t) = t"
| "result_type (I_Select _ a _) = (case a of Const c \<Rightarrow> int_getType c | Reg _ t \<Rightarrow> t | Param _ t \<Rightarrow> t)"
| "result_type (I_Load p _) = (case p of Reg _ (LPtr t) \<Rightarrow> t | Param _ (LPtr t) \<Rightarrow> t | Const (Other (LPtr t)) \<Rightarrow> t | _ \<Rightarrow> LVoid)"
| "result_type (I_Alloca t _) = LPtr t"
| "result_type (I_Call f _) = (case f of Const (Other (LPtr (LFunc r _ _))) \<Rightarrow> r | _ \<Rightarrow> LVoid)"
| "result_type (I_Phi t _) = t"
| "result_type _ = LVoid"

text \<open>Comparisons of integer constants of one width are folded.\<close>

fun fold_compare :: "int_const instr \<Rightarrow> int_const val option" where
  "fold_compare (I_Cmp p (Const (IC w a)) (Const (IC w' b))) =
     (if w = w' \<and> p \<in> icmp_preds then Some (Const (getCmp int_llvm p (IC w a) (IC w' b))) else None)"
| "fold_compare _ = None"

definition sample_ir :: "int_const ir" where
  "sample_ir = \<lparr>ir_type = result_type, ir_fold = fold_compare, ir_isOne = (\<lambda>c. case c of IC w v \<Rightarrow> v = 1 | _ \<Rightarrow> False),
     ir_inf = Other, ir_literal = (\<lambda>n. Other (LPtr LVoid))\<rparr>"

subsection \<open>An environment\<close>

text \<open>Objects from 10 on are local variables of type \<open>int\<close>; object 7 is a volatile global variable.\<close>

definition sample_object :: "nat \<Rightarrow> object" where
  "sample_object n = \<lparr>obj_name = ''x'', obj_type = (ArithT kInt, if n = 7 then kVolatile else 0), storage_class_spec = 0,
     obj_linkage = (if n < 10 then Linkage_kExternal else Linkage_kNone), anonymous = False, obj_align = 4, obj_offset = 0,
     bit_field_width = 0, bit_field_begin = 0, indexs = [], obj_func_name = []\<rparr>"

definition sample_heap :: heap where
  "sample_heap = \<lparr>h_types = \<lparr>arrays = (\<lambda>_. \<lparr>num_elements = None, arr_complete = False\<rparr>),
       structs = (\<lambda>_. \<lparr>st_is_struct = True, st_name = [], st_members = [], st_scope = 0, st_offset = 0, st_width = 0, st_align = 1,
         bit_field_used_width = 0, bit_field_base_type_width = 0, st_index = 0, bit_field_space_count = 0, llvm_types = [],
         llvm_body = [], struct_complete = True\<rparr>),
       funcs = (\<lambda>n. \<lparr>func_spec = 0, func_name = ''f'', func_complete = False\<rparr>), next_id = 100\<rparr>,
     h_objs = sample_object, h_next_obj = 100,
     h_scopes = \<lparr>scope_at = (\<lambda>_. \<lparr>parent = None, scope_kind = kFile, tags = [], usual = []\<rparr>), next_scope = 1\<rparr>\<rparr>"

definition sample_env :: "int_const genv" where
  "sample_env = \<lparr>g_llvm = int_llvm, g_ir = sample_ir,
     g_dl = \<lparr>alloc_size = (\<lambda>_ _. 4), layout_size = (\<lambda>_ _. 4), layout_align = (\<lambda>_ _. 4)\<rparr>, g_heap = sample_heap,
     g_decls = (\<lambda>n. \<lparr>d_ident = Object ''x'' (n + 10), d_inits = [], d_constant = None, d_value_init = False\<rparr>), g_obj_decl = Some\<rparr>"

subsection \<open>Programs\<close>

abbreviation int_q :: qtype where "int_q \<equiv> (ArithT kInt, 0)"

definition int_num :: "int \<Rightarrow> expr" where
  "int_num v = EInt int_q v"

definition local_x :: expr where
  "local_x = EIdent (Object ''x'' 10)"

definition func_of :: "string \<Rightarrow> nat \<Rightarrow> ident" where
  "func_of name n = Ident name (FuncT n (ArithT kInt) 0 [] False, 0) Linkage_kExternal False"

text \<open>The calls \<open>g()\<close> and \<open>(g(), v)\<close>, and the function \<open>int f() { int x; ... }\<close>.\<close>

definition call_g :: expr where
  "call_g = ECall (EIdent (func_of ''g'' 6)) [] None int_q"

definition after_g :: "int \<Rightarrow> expr" where
  "after_g v = EBinary Tag_kComma call_g (int_num v) int_q"

definition program :: "stmt list \<Rightarrow> ext_decl list" where
  "program body = [FuncDef (func_of ''f'' 5) (SDecl 0 # body)]"

definition is_call_instr :: "'c instr \<Rightarrow> bool" where
  "is_call_instr i = (case i of I_Call _ _ \<Rightarrow> True | _ \<Rightarrow> False)"

definition call_count :: "'c cg \<Rightarrow> nat" where
  "call_count s = sum_list (map (\<lambda>(n, bs). sum_list (map (\<lambda>(b, xs). length (filter (\<lambda>x. is_call_instr (snd x)) xs)) bs)) (bodies_done s))"

definition compiled :: "stmt list \<Rightarrow> int_const cg result" where
  "compiled body = GenCode sample_env 8 (program body)"

definition calls_of :: "stmt list \<Rightarrow> nat result" where
  "calls_of body = bindE (compiled body) (\<lambda>s. Inr (call_count s))"

subsection \<open>Evaluation\<close>

text \<open>An operation is not looked at before the one in front of it has its result.\<close>

lemma lazy:
  "m = m' \<Longrightarrow> bnd m f = bnd m' f" "m = m' \<Longrightarrow> thn m k = thn m' k" "r = r' \<Longrightarrow> bindE r g = bindE r' g"
  by simp_all

lemmas generator_defs =
  redirect_def val_type_def const_int_def set_result_def result_of_def llvm_type_def insert_instr_def emit_def
  put_instr_def build_def GetInsertBlock_def SetInsertPoint_def ClearInsertionPoint_def getTerminator_def
  all_instrs_def use_empty_def predecessors_def on_instrs_def replaceAllUsesWith_def on_instr_def find_instr_def
  CreateBasicBlock_def EmitBranch_def link_block_def EmitBlock_def HaveInsertPoint_def EnsureInsertPoint_def
  SimplifyForwardingBlocks_def EmitBranchThroughCleanup_def GetBasicBlockForLabel_def CreateEntryBlockAlloca_def
  PushBlock_def PopBlock_def TestAndClearIgnoreAssignResult_def SetIgnoreAssignResult_def GetZero_def CastToBool_def
  ext_or_trunc_def CastTo_def expr_unsigned_def value_of_def calc_def with_struct_def set_volatile_def CreateLoad_def
  CreateStore_def CodeGen_NegOp_def CodeGen_LogicNotOp_def CodeGen_AddOp_def CodeGen_DivOp_def CodeGen_SubOp_int_def
  CodeGen_SubOp_def CodeGen_MulOp_def CodeGen_ModOp_def CodeGen_OrOp_def CodeGen_AndOp_def CodeGen_XorOp_def
  CodeGen_ShlOp_def CodeGen_ShrOp_def compare_to_int_def CodeGen_order_def CodeGen_LessEqualOp_def CodeGen_LessOp_def
  CodeGen_GreaterEqualOp_def CodeGen_GreaterOp_def CodeGen_equality_def CodeGen_EqualOp_def CodeGen_NotEqualOp_def
  CodeGen_GetBitField_def CodeGen_GetBitFieldValue_def the_bit_field_def field_size_def field_value_def
  leave_bit_field_def HasConstantInit_def HasLocalInit_def GetDecl_def upd_global_def named_global_def
  set_global_init_def set_global_align_def CreateGlobalVar_def GetGlobalPtr_def GetLocalPtr_def SetLocalPtr_def
  object_ptr_def module_func_def EvaluateExprAsBool_def branch_on_value_def EmitBranchOnBoolExpr_def
  IsCheapEnoughToEvaluateUnconditionally_def member_step_def field_pointer_def GetPtr_def Assign_def AssignOp_def
  one_of_def IncOrDec_def deref_value_def Deref_def MemberRef_def phi_in_def addIncoming_def as_int_def join_logic_def
  CodeGen_LogicOrOp_def CodeGen_LogicAndOp_def first_arg_def intrinsic_def VaStartEnd_def VaStart_def VaEnd_def
  VaCopy_def plain_load_def by_class_def VaArg_def SyncSynchronize_def Alloc_def PopCount_def count_zeros_def Clz_def
  Ctz_def fabs_f32_def IsInfSign_def IsFinite_def second_arg_def MayCallBuiltinFunc_def Visit_UnaryOpExpr_def
  Visit_TypeCastExpr_def binary_value_def Visit_BinaryOpExpr_def Visit_ConditionOpExpr_def Visit_FuncCallExpr_def
  Visit_ConstantExpr_def Visit_StringLiteralExpr_def Visit_IdentifierExpr_def Visit_EnumeratorExpr_def
  Visit_ObjectExpr_def Visit_StmtExpr_def Accept_expr_def ContainsLabel_opt_def Visit_LabelStmt_def the_switch_def
  int64_max_def add_cases_def Visit_CaseStmt_def getDefaultDest_def Visit_DefaultStmt_def Visit_CompoundStmt_def
  Visit_ExprStmt_def opt_stmt_def if_branches_def Visit_IfStmt_def Visit_SwitchStmt_def is_const_int_def
  Visit_WhileStmt_def Visit_DoWhileStmt_def opt_expr_def Visit_ForStmt_def Visit_GotoStmt_def Visit_ContinueStmt_def
  Visit_BreakStmt_def Visit_ReturnStmt_def init_element_def InitLocalAggregate_def DealLocaleDecl_def
  Visit_Declaration_def Accept_stmt_def EmitSimpleStmt_def EmitStmt_def blocks_of_def StartFunction_def
  EmitReturnBlock_def EmitFunctionEpilog_def FinishFunction_def Visit_FuncDef_def Visit_ext_decl_def
  Visit_TranslationUnit_def CodeGen_init_def GenCode_def

text \<open>Facts about the sample that evaluation needs.\<close>

lemma sample_fields: "g_llvm sample_env = int_llvm" "g_ir sample_env = sample_ir" "g_heap sample_env = sample_heap"
  "ir_type sample_ir = result_type" "ir_fold sample_ir = fold_compare"
  "ir_isOne sample_ir c = (case c of IC w v \<Rightarrow> v = 1 | _ \<Rightarrow> False)"
  "g_decls sample_env n = \<lparr>d_ident = Object ''x'' (n + 10), d_inits = [], d_constant = None, d_value_init = False\<rparr>"
  "g_obj_decl sample_env = Some" "h_objs sample_heap = sample_object" "func_name (funcs (h_types sample_heap) n) = ''f''"
  by (simp_all add: sample_env_def sample_ir_def sample_heap_def)

lemma object_fields: "obj_type (sample_object n) = (ArithT kInt, if n = 7 then kVolatile else 0)"
  "storage_class_spec (sample_object n) = 0" "obj_align (sample_object n) = 4" "anonymous (sample_object n) = False"
  "obj_linkage (sample_object n) = (if n < 10 then Linkage_kExternal else Linkage_kNone)" "obj_name (sample_object n) = ''x''"
  by (simp_all add: sample_object_def)

lemma int_facts: "Arithmetic_LLVMType kInt = Inr (LInt 32)" "Arithmetic_GetWidth kInt = Inr 4" "IsIntTy (ArithT kInt)"
  "IsScalarTy (ArithT kInt)" "\<not> IsArrayTy (ArithT kInt)" "\<not> IsStructOrUnionTy (ArithT kInt)" "\<not> IsUnsigned (ArithT kInt)"
  "\<not> IsBoolTy (ArithT kInt)" "IsIntegerTy (ArithT kInt)"
  by (simp_all add: Arithmetic_LLVMType_def Arithmetic_GetWidth_def has_def) code_simp+

lemma llvm_fields: "getType int_llvm = int_getType" "isZeroValue int_llvm c = (case c of IC w v \<Rightarrow> v = 0 | _ \<Rightarrow> False)"
  "getSExtValue int_llvm c = (case c of IC w v \<Rightarrow> Some (sgn_of w v) | _ \<Rightarrow> None)" "get_int int_llvm = int_get"
  "getCmp int_llvm p (IC w v) (IC w' u) = IC 1 (of_bool (icmp p w v u))" "function_ptr int_llvm n t b = Other (LPtr t)"
  "global_ptr int_llvm k = Other (LPtr LVoid)" "null_pointer int_llvm = Other" "fp_zero int_llvm = Other"
  by (simp_all add: int_llvm_def)

lemma visitor_depth:
  "v_expr (visitors_at G (numeral n)) = Accept_expr G (visitors_at G (pred_numeral n))"
  "v_stmt (visitors_at G (numeral n)) = EmitStmt G (visitors_at G (pred_numeral n))"
  "v_ptr (visitors_at G (numeral n)) = GetPtr G (visitors_at G (pred_numeral n))"
  "v_branch (visitors_at G (numeral n)) = EmitBranchOnBoolExpr G (visitors_at G (pred_numeral n))"
  by (simp_all add: visitors_with_def numeral_eq_Suc)

lemmas sample_defs = sample_fields object_fields int_facts llvm_fields visitor_fields visitor_depth int_num_def local_x_def
  func_of_def call_g_def after_g_def program_def is_call_instr_def call_count_def compiled_def calls_of_def IsVoidTy_def
  QualType_IsVolatile_def IsGlobalVar_def IsLocalStaticVar_def has_def obj_IsStatic_def obj_IsExtern_def GetConstantZero_def Let_def

lemmas evaluation = sample_defs generator_defs run

subsection \<open>What the generator does with them\<close>

text \<open>A loop with a call in its body: the blocks of \<open>f\<close> are well formed.\<close>

definition functions_of :: "stmt list \<Rightarrow> string list result" where
  "functions_of body = bindE (compiled body) (\<lambda>s. Inr (map fst (bodies_done s)))"

definition loop_body :: "stmt list" where
  "loop_body = [SWhile (EBinary Tag_kLess local_x (int_num 3) int_q) (SExpr (Some (after_g 1))), SReturn (Some local_x)]"

lemma loop_compiled: "functions_of loop_body = Inr [''f'']"
  by (simp add: functions_of_def loop_body_def evaluation cong: lazy del: visitors_at.simps)

theorem generated_blocks_well_formed_witness:
  "\<exists>s blocks. GenCode sample_env 8 (program loop_body) = Inr s \<and> (''f'', blocks) \<in> set (bodies_done s) \<and>
    distinct (map fst blocks) \<and> list_all (\<lambda>(b, xs). xs \<noteq> [] \<and> isTerminator (snd (last xs))) blocks"
proof -
  obtain s where s: "GenCode sample_env 8 (program loop_body) = Inr s" "map fst (bodies_done s) = [''f'']"
    using loop_compiled by (auto simp: functions_of_def compiled_def result_simps)
  then obtain blocks where b: "(''f'', blocks) \<in> set (bodies_done s)" by (cases "bodies_done s") auto
  have "only_declarations (program loop_body)" by (simp add: only_declarations_def program_def)
  from generated_blocks_well_formed [OF this s(1) b] s(1) b show ?thesis by (fastforce simp: list_all_iff)
qed

text \<open>The calls in the code of three programs: that of \<open>g(), 1;\<close> is there, those of the two loops are not.\<close>

lemma calls_left:
  "calls_of [SExpr (Some (after_g 1))] = Inr 1" "calls_of [SWhile (after_g 1) (SExpr None)] = Inr 0"
  "calls_of [SDoWhile (after_g 0) (SExpr None)] = Inr 0"
  by (simp_all add: evaluation cong: lazy del: visitors_at.simps)

text \<open>The generator inside a function whose first block is open.\<close>

definition inside :: "int_const cg" where
  "inside = CodeGen_init\<lparr>cg_order := [0], cg_at := Some 0, cg_next := 1\<rparr>"

text \<open>
  C36. \<open>while (e, 1) ;\<close> for any expression \<open>e\<close> whose code has no branches: the code of \<open>e\<close>, a call or an
  assignment, is not in the function. Every instruction in a placed block is one that was in it before the loop
  or an unconditional branch. \<open>SimplifyForwardingBlocks\<close> erases the block of the condition without
  a look at what is in it. The constant is one that the builder folds to the truth value one.
\<close>

theorem call_in_condition_dropped:
  assumes "straight e" and "constant_truth G q v" and "fresh_numbers s"
    and "v_stmt (visitors_at G n) (SWhile (EBinary Tag_kComma e (EInt q v) q') (SExpr None)) s = Inr (u, s')"
    and "b \<in> set (cg_order s')" and "x \<in> set (cg_block s' b)"
  shows "fst x \<in> fst ` set (cg_block s b) \<or> (\<exists>t. snd x = I_Br t)"
proof -
  let ?c = "EBinary Tag_kComma e (EInt q v) q'"
  obtain j where n: "n = Suc j" using assms(4) by (cases n) (auto simp: run)
  note emit = visitor_fields EmitStmt_def EmitSimpleStmt_def HaveInsertPoint_def GetInsertBlock_def Accept_stmt_def Visit_ExprStmt_def run
  show ?thesis
  proof (cases "cg_at s = None")
    case True
    then have "s' = s" using assms(4) by (auto simp: n emit ContainsLabel.simps simp del: visitors_at.simps)
    with assms(6) show ?thesis by force
  next
    case False
    then have "Visit_WhileStmt G (visitors_at G j) ?c (SExpr None) s = Inr ((), s')"
      using assms(4) by (auto simp: n emit simp del: visitors_at.simps)
    moreover have "grows t t' \<and> is_const_int G (ir_isOne (g_ir G)) y" if "EvaluateExprAsBool G (visitors_at G j) ?c t = Inr (y, t')" for t y t'
      using truth_value [OF that assms(2)] withinD [OF straight.bool_ok that] assms(1) by simp
    moreover have "t' = t" if "cg_at t \<noteq> None" "v_stmt (visitors_at G j) (SExpr None) t = Inr ((), t')" for t t'
      using that by (cases j) (auto simp: emit simp del: visitors_at.simps(2))
    ultimately have "old_or_jump (cg_block s b) x" using condition_erased [OF _ assms(3) _ _ assms(5,6)] by blast
    then show ?thesis by (simp add: old_or_jump_def)
  qed
qed

lemma loop_generated:
  "\<exists>s'. v_stmt (visitors_at sample_env 8) (SWhile (after_g 1) (SExpr None)) inside = Inr ((), s') \<and> cg_order s' = [0, 3] \<and>
     cg_block s' 0 \<noteq> []"
  by (simp add: inside_def evaluation cong: lazy del: visitors_at.simps)

theorem call_in_condition_dropped_witness:
  "\<exists>s'. v_stmt (visitors_at sample_env 8) (SWhile (after_g 1) (SExpr None)) inside = Inr ((), s') \<and>
    (\<forall>b x. b \<in> set (cg_order s') \<and> x \<in> set (cg_block s' b) \<longrightarrow> fst x \<in> fst ` set (cg_block inside b) \<or> (\<exists>t. snd x = I_Br t))"
proof -
  obtain s' where s': "v_stmt (visitors_at sample_env 8) (SWhile (after_g 1) (SExpr None)) inside = Inr ((), s')"
    using loop_generated by blast
  have 1: "straight call_g" by (simp add: call_g_def)
  have 2: "constant_truth sample_env int_q 1"
    by (simp add: constant_truth_def const_int_def is_const_int_def sample_fields llvm_fields int_facts icmp_preds_def)
  have 3: "fresh_numbers inside" by (simp add: fresh_numbers_def inside_def CodeGen_init_def)
  from s' have run: "v_stmt (visitors_at sample_env 8) (SWhile (EBinary Tag_kComma call_g (EInt int_q 1) int_q) (SExpr None)) inside = Inr ((), s')"
    by (simp add: after_g_def int_num_def del: visitors_at.simps)
  from call_in_condition_dropped [OF 1 2 3 run] s' show ?thesis by blast
qed

text \<open>
  C37. \<open>&&\<close> with a constant on the left that is not 1 is the constant 0 and no code is emitted, whatever
  the right operand is: \<open>2 && x\<close> is 0. \<open>LogicAndOp\<close> asks for the value one where it means not zero.
\<close>

theorem conjunction_behind_constant:
  assumes "Calc (g_llvm G) (g_dl G) (g_heap G) l = Inr (Some c)" and "\<not> ir_isOne (g_ir G) c"
  shows "value_of (visitors_at G (Suc n)) (EBinary Tag_kAmpAmp l r q) s =
    Inr (getInt32 G 0, s\<lparr>cg_result := Some (getInt32 G 0)\<rparr>)"
  using assms by (simp add: value_of_def visitor_fields Accept_expr_def Visit_BinaryOpExpr_def CodeGen_LogicAndOp_def
      calc_def set_result_def result_of_def run del: visitors_at.simps)

lemma calc_two: "Calc (g_llvm sample_env) (g_dl sample_env) (g_heap sample_env) (int_num 2) = Inr (Some (IC 32 2))"
  "\<not> ir_isOne (g_ir sample_env) (IC 32 2)"
  by (simp_all add: sample_fields int_num_def llvm_fields int_facts visit_constant_def)

theorem conjunction_behind_constant_witness:
  "value_of (visitors_at sample_env (Suc 0)) (EBinary Tag_kAmpAmp (int_num 2) (int_num 3) int_q) CodeGen_init =
    Inr (getInt32 sample_env 0, CodeGen_init\<lparr>cg_result := Some (getInt32 sample_env 0)\<rparr>)"
  by (rule conjunction_behind_constant [OF calc_two])





text \<open>Outside of a switch the error is reported.\<close>

lemma continue_alone: "compiled [SContinue] = Inl (Diag ''continue stmt not in a loop or switch'')"
  by (simp add: evaluation cong: lazy del: visitors_at.simps)

text \<open>
  C39. The address of a volatile object that is not accessed afterwards: \<open>GetPtr\<close> marks the next access as
  volatile and no access takes the mark away. Where the code of a unit has been generated whose last function
  takes the address of a volatile object behind its declarations, the assertion at the end of \<open>GenCode\<close> fails.
\<close>

theorem volatile_address_fails:
  assumes "QualType_IsVolatile (obj_type (obj G m))" and "list_all (uninitialised G) ks"
    and "unit = ds @ [FuncDef i (map SDecl ks @ [SExpr (Some (EUnary Tag_kAmp (EIdent (Object x m)) q))])]"
    and "Visit_TranslationUnit G depth unit CodeGen_init = Inr (u, s)"
  shows "is_volatile s \<and> GenCode G depth unit = Inl Assert_Fail"
proof -
  let ?stmt = "SExpr (Some (EUnary Tag_kAmp (EIdent (Object x m)) q))" and ?P = "visitors_at G depth"
  have "within same_place (for_each (v_stmt (visitors_at G n)) (map SDecl ks))" for n
    using assms(2) by (intro same.within_for_each) (auto simp: list_all_iff intro: place_declaration)
  note decls = withinD [OF this]
  obtain t where "Visit_FuncDef G depth i (map SDecl ks @ [?stmt]) t = Inr ((), s)"
    using assms(3,4) by (auto simp: Visit_TranslationUnit_def for_each_append run result_simps Visit_ext_decl_def simp del: visitors_at.simps)
  then obtain t1 ps as t2 name t3 t4 where t: "StartFunction G i t = Inr ((), t1)" "store_params G 0 as ps t1 = Inr ((), t2)"
    "(if name = ''main'' then bnd (gets return_value) (\<lambda>rv. case rv of None \<Rightarrow> failP Null_Deref
        | Some p \<Rightarrow> put_instr (I_Store (getInt32 G 0) p False)) else ret ()) t2 = Inr ((), t3)"
    "v_stmt ?P (SCompound (map SDecl ks @ [?stmt])) t3 = Inr ((), t4)" "FinishFunction G (ident_name i) t4 = Inr ((), s)"
    by (auto simp: Visit_FuncDef_def Let_def run result_simps simp del: visitors_at.simps)
  have "within same_place (if name = ''main'' then bnd (gets return_value) (\<lambda>rv. case rv of None \<Rightarrow> failP Null_Deref
        | Some p \<Rightarrow> put_instr (I_Store (getInt32 G 0) p False)) else ret ())"
    by (rule same_place.operators | simp)+
  from withinD [OF this t(3)] withinD [OF place_params t(2)] start_at [OF t(1)] have 3: "cg_at t3 \<noteq> None" by (simp add: same_def)
  obtain j where depth: "depth = Suc j" using t(4) by (cases depth) (auto simp: run)
  obtain t5 where 5: "for_each (v_stmt (visitors_at G j)) (map SDecl ks) t3 = Inr ((), t5)" "v_stmt (visitors_at G j) ?stmt t5 = Inr ((), t4)"
    using t(4) by (auto simp: depth visitor_fields EmitStmt_def EmitSimpleStmt_def Accept_stmt_def Visit_CompoundStmt_def for_each_append run
        result_simps simp del: visitors_at.simps)
  have "is_volatile t4" using address_marks [OF 5(2) _ assms(1)] decls [OF 5(1)] 3 by (simp add: same_def)
  with withinD [OF mark_finish t(5)] have "is_volatile s" by (simp add: same_def)
  with assms(4) show ?thesis by (simp add: GenCode_def)
qed

definition volatile_unit :: "ext_decl list" where
  "volatile_unit = [] @ [FuncDef (func_of ''f'' 5) (map SDecl [0] @ [SExpr (Some (EUnary Tag_kAmp (EIdent (Object ''x'' 7))
     (PointerT (ArithT kInt) kVolatile, 0)))])]"

lemma unit_generated: "\<exists>s. Visit_TranslationUnit sample_env 8 volatile_unit CodeGen_init = Inr ((), s)"
  by (simp add: volatile_unit_def evaluation cong: lazy del: visitors_at.simps)

theorem volatile_address_fails_witness:
  "\<exists>s. Visit_TranslationUnit sample_env 8 volatile_unit CodeGen_init = Inr ((), s) \<and> is_volatile s \<and>
    GenCode sample_env 8 volatile_unit = Inl Assert_Fail"
proof -
  have 1: "QualType_IsVolatile (obj_type (obj sample_env 7))" by (simp add: sample_defs)
  have 2: "list_all (uninitialised sample_env) [0]" by (simp add: uninitialised_def HasLocalInit_def HasConstantInit_def sample_fields)
  from unit_generated volatile_address_fails [OF 1 2 volatile_unit_def] show ?thesis by blast
qed

end
