(* ===== verification/Kcc_GenRefine.thy ===== *)
theory Kcc_GenRefine
  imports Kcc_SimCode Kcc_GenSample
begin

text \<open>
  Generated code does what the source says: the blocks that the generator appends for a statement over
  \<open>int\<close> objects, run by the machine of \<open>Kcc_Machine\<close>, follow \<open>exec\<close>. The hypotheses on LLVM hold of the
  builder of \<open>Kcc_GenSample\<close>.
\<close>

subsection \<open>The machine is deterministic\<close>

inductive_cases mstepE: "mstep G B (b, i, p, \<rho>, M) c"

lemma branch_no_instr: "run_instr G p (n, I_Br c) (\<rho>, M) = None" "run_instr G p (n, I_CondBr v t f) (\<rho>, M) = None"
  by simp_all

lemma mstep_deterministic: "mstep G B c d \<Longrightarrow> mstep G B c e \<Longrightarrow> d = e"
proof (induction c d rule: mstep.induct)
  case (instr i b p \<rho> M \<rho>' M')
  obtain n j where x: "B b ! i = (n, j)" by (cases "B b ! i")
  from instr(3) show ?case
    by (rule mstepE) (use instr(2) x in \<open>auto simp del: run_instr.simps simp: branch_no_instr\<close>)
next
  case (br i b c p \<rho> M)
  obtain n where x: "B b ! i = (n, I_Br c)" using br(2) by (cases "B b ! i") simp
  from br(3) show ?case by (rule mstepE) (simp_all add: x)
next
  case (cond_br i b v t f \<rho> x p M)
  obtain n where y: "B b ! i = (n, I_CondBr v t f)" using cond_br(2) by (cases "B b ! i") simp
  from cond_br(4) show ?case by (rule mstepE) (use cond_br(3) in \<open>simp_all add: y\<close>)
qed

lemma runs_linear: "runs G B c d \<Longrightarrow> runs G B c e \<Longrightarrow> runs G B d e \<or> runs G B e d"
proof (induction rule: rtranclp_induct)
  case (step d f)
  from step.IH [OF step.prems] show ?case
  proof
    assume "runs G B d e"
    then show ?thesis using step.hyps(2)
      by (cases rule: converse_rtranclpE) (auto dest: mstep_deterministic)
  qed (use step.hyps(2) in \<open>auto intro: rtranclp.rtrancl_into_rtrancl\<close>)
qed blast

subsection \<open>The code of a statement\<close>

text \<open>The machine gets to the place of the outcome, with memory and registers as \<open>exec\<close> says.\<close>

definition ends_at :: "(nat \<Rightarrow> 'c val) \<Rightarrow> nat set \<Rightarrow> 'c val \<Rightarrow> 'c cg \<Rightarrow> 'c cg \<Rightarrow> outcome \<Rightarrow> store \<Rightarrow> regs \<Rightarrow> 'c config \<Rightarrow> bool" where
  "ends_at loc V rp s s' o' \<sigma>' \<rho> c \<longleftrightarrow> (case c of (b, i, p, \<rho>', M) \<Rightarrow> (b, i) = place s s' o' \<and>
     represents loc V \<sigma>' M \<and> returned rp o' p \<rho>' M \<and> agree (cg_next s) \<rho> \<rho>')"

lemma code_runs:
  assumes "llvm_ok G" and "places_ok G loc V" and "int_stmt V L t" and "2 * size t + 1 < n" and "ready loc V s" and "fits_in_code loc V rp L s"
  obtains s' where "v_stmt (visitors_at G n) t s = Inr ((), s')" and "framed s s'" and "ends loc V s'"
    and "\<And>B \<sigma> o' \<sigma>' p \<rho> M. covers s s' B \<Longrightarrow> exec t \<sigma> o' \<sigma>' \<Longrightarrow> represents loc V \<sigma> M \<Longrightarrow>
      (o' = Normal \<longrightarrow> ready loc V s') \<and> (\<exists>c. runs G B (config_at s p \<rho> M) c \<and> ends_at loc V rp s s' o' \<sigma>' \<rho> c)"
proof -
  from sim_stE [OF stmts_ok [OF assms(1-4)] assms(5,6)] obtain s' where 1: "v_stmt (visitors_at G n) t s = Inr ((), s')" "framed s s'" "ends loc V s'"
    "\<And>B \<sigma> o' \<sigma>'. covers s s' B \<Longrightarrow> ranged V \<sigma> \<Longrightarrow> exec t \<sigma> o' \<sigma>' \<Longrightarrow> leads G B loc V rp s s' \<sigma> o' \<sigma>'"
    by blast
  show ?thesis
  proof (rule that [OF 1(1-3)])
    fix B \<sigma> o' \<sigma>' p \<rho> M
    assume c: "covers s s' B" and e: "exec t \<sigma> o' \<sigma>'" and r: "represents loc V \<sigma> M"
    have "ranged V \<sigma>" using r by (simp add: represents_def ranged_def)
    from 1(4) [OF c this e] have l: "placed_well s s' o'"
      "arrives G B loc V (cg_next s) \<sigma> \<sigma>' (pos s) (place s s' o') (\<lambda>_ _ _. True) (returned rp o')"
      by (simp_all add: leads_def)
    have "o' = Normal \<longrightarrow> ready loc V s'" using l(1) 1(3) by (auto elim: ends_cases)
    moreover from l(2) r obtain p' \<rho>' M' where
      "runs G B (config_at s p \<rho> M) (fst (place s s' o'), snd (place s s' o'), p', \<rho>', M')"
      "represents loc V \<sigma>' M'" "agree (cg_next s) \<rho> \<rho>'" "returned rp o' p' \<rho>' M'"
      unfolding arrives_def by blast
    then have "\<exists>c. runs G B (config_at s p \<rho> M) c \<and> ends_at loc V rp s s' o' \<sigma>' \<rho> c" unfolding ends_at_def by fastforce
    ultimately show "(o' = Normal \<longrightarrow> ready loc V s') \<and> (\<exists>c. runs G B (config_at s p \<rho> M) c \<and> ends_at loc V rp s s' o' \<sigma>' \<rho> c)" ..
  qed
qed

text \<open>
  C1. Refinement of the source by the generated code. For a statement of the fragment \<open>int_stmt\<close> (assignments,
  \<open>++\<close> and \<open>--\<close>, arithmetic without shifts, comparisons, \<open>&&\<close>, \<open>||\<close>, \<open>?:\<close>, the comma, \<open>if\<close>, the loops, \<open>break\<close>,
  \<open>continue\<close>, \<open>return\<close> and blocks without declarations over local \<open>int\<close> objects, where the conditions of \<open>if\<close>,
  \<open>while\<close>, \<open>do\<close> and \<open>?:\<close> and the left operands of \<open>&&\<close> and \<open>||\<close> are no constants: \<open>varies\<close>), the generator (with a depth of twice its size) does not fail, touches no code of
  other blocks, and whenever the statement ends by the rules of C the machine, started where the code begins in any memory that represents
  the objects, gets to the place of that outcome (behind the statement, the block of \<open>break\<close>, \<open>continue\<close> or
  \<open>return\<close>) with memory that represents the objects after it, and the returned value in its place.
\<close>

theorem generated_code_refines_source:
  assumes "llvm_ok G" and "places_ok G loc V" and "int_stmt V L t" and "2 * size t + 1 < n" and "ready loc V s" and "fits_in_code loc V rp L s"
  shows "\<exists>s'. v_stmt (visitors_at G n) t s = Inr ((), s') \<and> framed s s' \<and>
    (\<forall>B \<sigma> o' \<sigma>' p \<rho> M. covers s s' B \<longrightarrow> exec t \<sigma> o' \<sigma>' \<longrightarrow> represents loc V \<sigma> M \<longrightarrow>
      (o' = Normal \<longrightarrow> ready loc V s') \<and> (\<exists>c. runs G B (config_at s p \<rho> M) c \<and> ends_at loc V rp s s' o' \<sigma>' \<rho> c))"
  by (rule code_runs [OF assms]) blast

text \<open>
  C6. The machine does nothing else: whatever it gets to from the start of the code of a statement of the
  fragment \<open>int_stmt\<close> that ends,
  it is on the way to the configuration that the statement's end has, or has passed it. In particular it is
  never stuck on that way.
\<close>

theorem generated_code_does_nothing_else:
  assumes "llvm_ok G" and "places_ok G loc V" and "int_stmt V L t" and "2 * size t + 1 < n" and "ready loc V s" and "fits_in_code loc V rp L s"
    and "v_stmt (visitors_at G n) t s = Inr ((), s')" and "covers s s' B" and "exec t \<sigma> o' \<sigma>'" and "represents loc V \<sigma> M"
  shows "\<exists>e. ends_at loc V rp s s' o' \<sigma>' \<rho> e \<and> (\<forall>c. runs G B (config_at s p \<rho> M) c \<longrightarrow> runs G B c e \<or> runs G B e c)"
proof -
  from code_runs [OF assms(1-6)] assms(7-10) obtain e where "runs G B (config_at s p \<rho> M) e" "ends_at loc V rp s s' o' \<sigma>' \<rho> e"
    by (metis Inr_inject snd_conv)
  with runs_linear show ?thesis by blast
qed


subsection \<open>A program\<close>

text \<open>The hypotheses on LLVM hold of the sample builder.\<close>

lemma icmp_sgn: "icmp p w (sgn_of w a) (sgn_of w b) = icmp p w a b"
proof -
  have "sgn_of w (sgn_of w v) = sgn_of w v" for v by (simp add: sgn_of_def)
  moreover have "take_bit w (sgn_of w v) = take_bit w v" for v
    by (cases w) (simp_all add: sgn_of_def take_bit_signed_take_bit)
  ultimately show ?thesis by (cases p) simp_all
qed

lemma sgn_bool: "sgn_of 1 (of_bool b) = (if b then - 1 else 0)"
  by (simp add: sgn_of_def)

lemma sample_fold_ok: "fold_ok sample_env"
  unfolding fold_ok_def
proof (intro allI impI)
  fix i v assume f: "ir_fold (g_ir sample_env) i = Some v"
  from f obtain p w a b where i: "i = I_Cmp p (Const (IC w a)) (Const (IC w b))" "p \<in> icmp_preds" "v = Const (IC 1 (of_bool (icmp p w a b)))"
    by (cases i rule: fold_compare.cases) (auto simp: sample_fields llvm_fields split: if_splits)
  show "(if is_const v then \<forall>a \<in> instr_operands i. is_const a else v \<in> instr_operands i) \<and>
      val_type sample_env v = ir_type (g_ir sample_env) i \<and> (\<forall>\<rho> x. pure_sem sample_env \<rho> i = Some x \<longrightarrow> den sample_env \<rho> v = Some x)"
    using i(2) by (simp del: One_nat_def add: i(1,3) is_const_def val_type_def sample_fields llvm_fields den_def bind2_def icmp_sgn sgn_bool)
qed

lemma sample_types_ok: "types_ok sample_env"
proof -
  have "result_type (I_Load a vol) = t" if "val_type sample_env a = LPtr t" for a vol t
  proof (cases a)
    case (Const c) then show ?thesis using that by (cases c) (simp_all add: val_type_def sample_fields llvm_fields)
  qed (use that in \<open>simp_all add: val_type_def\<close>)
  then show ?thesis by (simp add: types_ok_def sample_fields val_type_def llvm_fields split: val.split)
qed

lemma sample_llvm_ok: "llvm_ok sample_env"
  using int_llvm_laws sample_fold_ok sample_types_ok by (simp add: llvm_ok_def sample_fields)

text \<open>\<open>while (x < 2) x = x + 1; return x;\<close> in a block of its own, \<open>x\<close> in the first register.\<close>

definition count_up :: stmt where
  "count_up = SCompound [SWhile (EBinary Tag_kLess local_x (int_num 2) int_q)
      (SExpr (Some (EBinary Tag_kEqual local_x (EBinary Tag_kPlus local_x (int_num 1) int_q) int_q))), SReturn (Some local_x)]"

definition place_x :: "int_const val" where "place_x = Reg 0 (LPtr (LInt 32))"
definition place_result :: "int_const val" where "place_result = Reg 1 (LPtr (LInt 32))"

definition in_block :: "int_const cg" where
  "in_block = CodeGen_init\<lparr>cg_next := 6, cg_order := [3], cg_at := Some 3, return_block := Some 4,
     return_value := Some place_result, local_ptr := (\<lambda>n. Some place_x)\<rparr>"

lemma ev_x: "ev local_x \<sigma> = Some (\<sigma> 10, \<sigma>)" "ev (int_num v) \<sigma> = Some (sgn_of 32 v, \<sigma>)" "the_object local_x = Some 10"
  by (simp_all add: local_x_def int_num_def)

lemma count_up_runs: "exec count_up (\<lambda>n. 1) (Returned (Some 2)) ((\<lambda>n. 1)(10 := 2))"
proof -
  have small: "sgn_of 32 1 = 1" "sgn_of 32 2 = 2" "c_binary Tag_kLess kInt 1 2 = Some 1" "c_binary Tag_kLess kInt 2 2 = Some 0"
    "c_binary Tag_kPlus kInt 1 1 = Some 2"
    by code_simp+
  let ?c = "EBinary Tag_kLess local_x (int_num 2) int_q" and ?s = "EBinary Tag_kEqual local_x (EBinary Tag_kPlus local_x (int_num 1) int_q) int_q"
  let ?\<sigma> = "(\<lambda>n. 1)(10 := 2) :: store"
  have e: "ev ?c (\<lambda>n. 1) = Some (1, \<lambda>n. 1)" "ev ?c ?\<sigma> = Some (0, ?\<sigma>)" "ev ?s (\<lambda>n. 1) = Some (2, ?\<sigma>)" "ev local_x ?\<sigma> = Some (2, ?\<sigma>)"
    by (simp_all add: ev_x inc_step_def small)
  have "exec (SWhile ?c (SExpr (Some ?s))) (\<lambda>n. 1) Normal ?\<sigma>"
    by (rule exec_execs.WhileTurn [OF e(1) _ exec_execs.Expr [OF e(3)] _ exec_execs.WhileFalse [OF e(2)]]) simp_all
  moreover have "exec (SReturn (Some local_x)) ?\<sigma> (Returned (Some 2)) ?\<sigma>" by (rule exec_execs.ReturnValue [OF e(4)])
  ultimately show ?thesis unfolding count_up_def
    by (auto intro: exec_execs.Compound exec_execs.Cons exec_execs.Leave)
qed

lemma sample_places: "places_ok sample_env (\<lambda>n. place_x) {10}"
  by (simp add: places_ok_def local_int_def place_x_def val_type_def evaluation)

lemma sample_ready: "ready (\<lambda>n. place_x) {10} in_block"
  by (simp add: ready_def settled_def numbered_def is_open_def in_block_def CodeGen_init_def getTerminator_def)

lemma sample_code_fits: "fits_in_code (\<lambda>n. place_x) {10} place_result False in_block"
  by (simp add: fits_in_code_def in_block_def place_x_def place_result_def)

lemma count_up_fits: "int_stmt {10} False count_up" "2 * size count_up + 1 < 100"
  by (simp_all add: count_up_def int_num_def local_x_def arith_ops_def compare_ops_def)

theorem generated_code_refines_source_witness:
  "\<exists>s' p \<rho> M. v_stmt (visitors_at sample_env 100) count_up in_block = Inr ((), s') \<and>
     runs sample_env (cg_block s') (3, 0, 0, (\<lambda>n. 0), (\<lambda>v. 1)) (4, 0, p, \<rho>, M) \<and> M place_result = 2"
proof -
  from generated_code_refines_source [OF sample_llvm_ok sample_places count_up_fits sample_ready sample_code_fits]
  obtain s' where 1: "v_stmt (visitors_at sample_env 100) count_up in_block = Inr ((), s')"
    "\<And>B \<sigma> o' \<sigma>' p \<rho> M. covers in_block s' B \<Longrightarrow> exec count_up \<sigma> o' \<sigma>' \<Longrightarrow> represents (\<lambda>n. place_x) {10} \<sigma> M \<Longrightarrow>
      \<exists>c. runs sample_env B (config_at in_block p \<rho> M) c \<and> ends_at (\<lambda>n. place_x) {10} place_result in_block s' o' \<sigma>' \<rho> c"
    by blast
  have "represents (\<lambda>n. place_x) {10} (\<lambda>n. 1) (\<lambda>v. 1)" by (simp add: represents_def) code_simp
  from 1(2) [OF covers_self count_up_runs this, of 0 "\<lambda>n. 0"] obtain b i p \<rho> M where
    "runs sample_env (cg_block s') (config_at in_block 0 (\<lambda>n. 0) (\<lambda>v. 1)) (b, i, p, \<rho>, M)"
    "ends_at (\<lambda>n. place_x) {10} place_result in_block s' (Returned (Some 2)) ((\<lambda>n. 1)(10 := 2)) (\<lambda>n. 0) (b, i, p, \<rho>, M)"
    by auto
  with 1(1) show ?thesis by (auto simp: ends_at_def pos_def in_block_def CodeGen_init_def)
qed

theorem generated_code_does_nothing_else_witness:
  "\<exists>s' p \<rho> M. v_stmt (visitors_at sample_env 100) count_up in_block = Inr ((), s') \<and> M place_result = 2 \<and>
     {c. runs sample_env (cg_block s') (3, 0, 0, (\<lambda>n. 0), (\<lambda>v. 1)) c} \<subseteq>
     {c. runs sample_env (cg_block s') c (4, 0, p, \<rho>, M) \<or> runs sample_env (cg_block s') (4, 0, p, \<rho>, M) c}"
proof -
  obtain s' where 1: "v_stmt (visitors_at sample_env 100) count_up in_block = Inr ((), s')"
    by (rule code_runs [OF sample_llvm_ok sample_places count_up_fits sample_ready sample_code_fits])
  have "represents (\<lambda>n. place_x) {10} (\<lambda>n. 1) (\<lambda>v. 1)" by (simp add: represents_def) code_simp
  from generated_code_does_nothing_else [OF sample_llvm_ok sample_places count_up_fits sample_ready sample_code_fits 1 covers_self count_up_runs this,
      where p = 0 and \<rho> = "\<lambda>n. 0"]
  obtain b i p \<rho> M where 2: "ends_at (\<lambda>n. place_x) {10} place_result in_block s' (Returned (Some 2)) ((\<lambda>n. 1)(10 := 2)) (\<lambda>n. 0) (b, i, p, \<rho>, M)"
    "\<forall>c. runs sample_env (cg_block s') (config_at in_block 0 (\<lambda>n. 0) (\<lambda>v. 1)) c \<longrightarrow>
      runs sample_env (cg_block s') c (b, i, p, \<rho>, M) \<or> runs sample_env (cg_block s') (b, i, p, \<rho>, M) c"
    by auto
  have start: "config_at in_block 0 (\<lambda>n. 0) (\<lambda>v. 1) = (3, 0, 0, (\<lambda>n. 0), (\<lambda>v. 1))" by (simp add: pos_def in_block_def CodeGen_init_def)
  have "b = 4" "i = 0" "M place_result = 2" using 2(1) by (simp_all add: ends_at_def in_block_def)
  with 1 2(2) [unfolded start] show ?thesis by blast
qed

end
