(* ===== verification/Kcc_Json.thy ===== *)
theory Kcc_Json
  imports Kcc_ParseStmt Kcc_CalcProps
begin

text \<open>
  The JSON view of the syntax tree (\<open>src/json_gen.cpp\<close>), which \<open>-emit-ast\<close> writes: one object per node,
  with a name and, mostly, an array of children. What Qt and LLVM do with numbers and types (the texts of
  floating constants, types and LLVM constants) is a parameter; the text around the document and
  its layout are constants of the header and Qt's.
\<close>

subsection \<open>Objects\<close>

text \<open>An object with the key \<open>name\<close> and, if it was set, the key \<open>children\<close>.\<close>

datatype json = Json string "json list option"

text \<open>\<open>AstNodeTypes\<close>; Qt keeps the names of the enumerators.\<close>

datatype node_kind = kUnaryOpExpr | kTypeCastExpr | kBinaryOpExpr | kConditionOpExpr | kFuncCallExpr | kConstantExpr
  | kStringLiteralExpr | kIdentifierExpr | kEnumeratorExpr | kObjectExpr | kStmtExpr
  | kLabelStmt | kCaseStmt | kDefaultStmt | kCompoundStmt | kExprStmt | kIfStmt | kSwitchStmt | kWhileStmt
  | kDoWhileStmt | kForStmt | kGotoStmt | kContinueStmt | kBreakStmt | kReturnStmt
  | kTranslationUnit | kDeclaration | kFuncDef

fun kind_key :: "node_kind \<Rightarrow> string" where
  "kind_key kUnaryOpExpr = ''kUnaryOpExpr''" | "kind_key kTypeCastExpr = ''kTypeCastExpr''"
| "kind_key kBinaryOpExpr = ''kBinaryOpExpr''" | "kind_key kConditionOpExpr = ''kConditionOpExpr''"
| "kind_key kFuncCallExpr = ''kFuncCallExpr''" | "kind_key kConstantExpr = ''kConstantExpr''"
| "kind_key kStringLiteralExpr = ''kStringLiteralExpr''" | "kind_key kIdentifierExpr = ''kIdentifierExpr''"
| "kind_key kEnumeratorExpr = ''kEnumeratorExpr''" | "kind_key kObjectExpr = ''kObjectExpr''"
| "kind_key kStmtExpr = ''kStmtExpr''" | "kind_key kLabelStmt = ''kLabelStmt''" | "kind_key kCaseStmt = ''kCaseStmt''"
| "kind_key kDefaultStmt = ''kDefaultStmt''" | "kind_key kCompoundStmt = ''kCompoundStmt''"
| "kind_key kExprStmt = ''kExprStmt''" | "kind_key kIfStmt = ''kIfStmt''" | "kind_key kSwitchStmt = ''kSwitchStmt''"
| "kind_key kWhileStmt = ''kWhileStmt''" | "kind_key kDoWhileStmt = ''kDoWhileStmt''" | "kind_key kForStmt = ''kForStmt''"
| "kind_key kGotoStmt = ''kGotoStmt''" | "kind_key kContinueStmt = ''kContinueStmt''" | "kind_key kBreakStmt = ''kBreakStmt''"
| "kind_key kReturnStmt = ''kReturnStmt''" | "kind_key kTranslationUnit = ''kTranslationUnit''"
| "kind_key kDeclaration = ''kDeclaration''" | "kind_key kFuncDef = ''kFuncDef''"

definition KindQString :: "node_kind \<Rightarrow> string" where
  "KindQString k = tl (kind_key k)"

text \<open>
  The texts that Qt and LLVM make: \<open>j_number\<close> is \<open>QString::number\<close> of an integer, \<open>j_qstring\<close> is \<open>QString::fromStdString\<close>, which
  decodes UTF-8, \<open>j_float\<close> the text of a floating constant of the type, \<open>j_constant\<close> that of an LLVM constant.
\<close>

record 'c json_env =
  j_env :: "'c env"
  j_heap :: heap
  j_decls :: "nat \<Rightarrow> 'c decl_cell"
  j_number :: "int \<Rightarrow> string"
  j_qstring :: "string \<Rightarrow> string"
  j_float :: "ctype \<Rightarrow> string \<Rightarrow> string result"
  j_constant :: "'c \<Rightarrow> string"

definition json_type :: "'c json_env \<Rightarrow> ctype \<Rightarrow> string result" where
  "json_type J t = Type_ToString (j_env J) (h_types (j_heap J)) t"

subsection \<open>Nodes\<close>

text \<open>The children are visited in turn, an error ends the program.\<close>

primrec in_turn :: "json result list \<Rightarrow> json list result" where
  "in_turn [] = Inr []"
| "in_turn (m # ms) = bindE m (\<lambda>j. bindE (in_turn ms) (\<lambda>js. Inr (j # js)))"

definition leaf :: "string \<Rightarrow> json" where
  "leaf s = Json s None"

definition node :: "string \<Rightarrow> json result list \<Rightarrow> json result" where
  "node s ms = bindE (in_turn ms) (\<lambda>js. Inr (Json s (Some js)))"

definition text_leaf :: "'c json_env \<Rightarrow> string result \<Rightarrow> string \<Rightarrow> json result" where
  "text_leaf J m before = bindE m (\<lambda>s. Inr (leaf (j_qstring J (before @ s))))"

definition opt_child :: "json result option \<Rightarrow> json result list" where
  "opt_child m = (case m of None \<Rightarrow> [] | Some m \<Rightarrow> [m])"

subsection \<open>Expressions\<close>

definition Json_UnaryOpExpr :: "tag \<Rightarrow> json result \<Rightarrow> json result" where
  "Json_UnaryOpExpr op e = bindE (TokenTag_ToString op) (\<lambda>s. node (KindQString kUnaryOpExpr @ '' '' @ s) [e])"

definition Json_TypeCastExpr :: "'c json_env \<Rightarrow> ctype \<Rightarrow> json result \<Rightarrow> json result" where
  "Json_TypeCastExpr J t e = node (KindQString kTypeCastExpr) [e, text_leaf J (json_type J t) ''cast to: '']"

definition Json_BinaryOpExpr :: "tag \<Rightarrow> json result \<Rightarrow> json result \<Rightarrow> json result" where
  "Json_BinaryOpExpr op l r = bindE (TokenTag_ToString op) (\<lambda>s. node (KindQString kBinaryOpExpr @ '' '' @ s) [l, r])"

definition Json_ConditionOpExpr :: "json result \<Rightarrow> json result \<Rightarrow> json result \<Rightarrow> json result" where
  "Json_ConditionOpExpr c l r = node (KindQString kConditionOpExpr) [c, l, r]"

definition Json_FuncCallExpr :: "json result \<Rightarrow> json result list \<Rightarrow> json result" where
  "Json_FuncCallExpr f args = node (KindQString kFuncCallExpr) (f # args)"

text \<open>
  The value of an integer constant is read with its sign whatever its type; a constant has an integer
  or a floating value.
\<close>

definition Json_ConstantExpr :: "'c json_env \<Rightarrow> ctype \<Rightarrow> int + string \<Rightarrow> json result" where
  "Json_ConstantExpr J t v =
     (if IsIntegerTy t then bindE (integer_bits (j_heap J) t) (\<lambda>w.
        Inr (leaf (KindQString kConstantExpr @ '': '' @ j_number J (case v of Inl n \<Rightarrow> sgn_of w n | Inr _ \<Rightarrow> 0))))
      else if IsFloatPointTy t then bindE (j_float J t (case v of Inl _ \<Rightarrow> ''0.0'' | Inr s \<Rightarrow> s)) (\<lambda>s.
        Inr (leaf (KindQString kConstantExpr @ '': '' @ s)))
      else Inl Assert_Fail)"

definition Json_StringLiteralExpr :: "'c json_env \<Rightarrow> string \<Rightarrow> json result" where
  "Json_StringLiteralExpr J s = Inr (leaf (KindQString kStringLiteralExpr @ '': '' @ j_qstring J s))"

definition Json_IdentifierExpr :: "'c json_env \<Rightarrow> ctype \<Rightarrow> string \<Rightarrow> json result" where
  "Json_IdentifierExpr J t name = node (KindQString kIdentifierExpr)
     [text_leaf J (json_type J t) ''type: '', Inr (leaf (''name: '' @ j_qstring J name))]"

definition Json_EnumeratorExpr :: "'c json_env \<Rightarrow> string \<Rightarrow> int \<Rightarrow> json result" where
  "Json_EnumeratorExpr J name v = node (KindQString kEnumeratorExpr) [Inr (leaf (''name: '' @ j_qstring J name)), Inr (leaf (j_number J v))]"

definition Json_ObjectExpr :: "'c json_env \<Rightarrow> ctype \<Rightarrow> string \<Rightarrow> json result" where
  "Json_ObjectExpr J t name = node (KindQString kObjectExpr)
     [text_leaf J (json_type J t) ''type: '', Inr (leaf (''name: '' @ j_qstring J name))]"

definition Json_StmtExpr :: "json result \<Rightarrow> json result" where
  "Json_StmtExpr b = node (KindQString kStmtExpr) [b]"

definition Json_ident :: "'c json_env \<Rightarrow> ident \<Rightarrow> json result" where
  "Json_ident J i = (case i of
       Ident name q _ _ \<Rightarrow> Json_IdentifierExpr J (fst q) name
     | Enumerator name v \<Rightarrow> Json_EnumeratorExpr J name v
     | Object name n \<Rightarrow> Json_ObjectExpr J (fst (ident_type (j_heap J) i)) name)"

subsection \<open>Statements\<close>

definition Json_LabelStmt :: "'c json_env \<Rightarrow> string \<Rightarrow> json result \<Rightarrow> json result" where
  "Json_LabelStmt J name s = node (KindQString kLabelStmt) [Inr (leaf (j_qstring J (''label: '' @ name))), s]"

definition Json_CaseStmt :: "'c json_env \<Rightarrow> int \<Rightarrow> int option \<Rightarrow> json result \<Rightarrow> json result" where
  "Json_CaseStmt J l r s = node (KindQString kCaseStmt @ '' '' @ j_number J l @ (case r of None \<Rightarrow> [] | Some u \<Rightarrow> ''to '' @ j_number J u)) [s]"

definition Json_DefaultStmt :: "json result \<Rightarrow> json result" where
  "Json_DefaultStmt s = node (KindQString kDefaultStmt) [s]"

definition Json_CompoundStmt :: "json result list \<Rightarrow> json result" where
  "Json_CompoundStmt ss = node (KindQString kCompoundStmt) ss"

definition Json_ExprStmt :: "json result option \<Rightarrow> json result" where
  "Json_ExprStmt e = node (KindQString kExprStmt) [case e of None \<Rightarrow> Inr (leaf ''empty stmt'') | Some m \<Rightarrow> m]"

definition Json_IfStmt :: "json result \<Rightarrow> json result \<Rightarrow> json result option \<Rightarrow> json result" where
  "Json_IfStmt c t e = node (KindQString kIfStmt) ([c, t] @ opt_child e)"

definition Json_SwitchStmt :: "json result \<Rightarrow> json result \<Rightarrow> json result" where
  "Json_SwitchStmt c s = node (KindQString kSwitchStmt) [c, s]"

definition Json_WhileStmt :: "json result \<Rightarrow> json result \<Rightarrow> json result" where
  "Json_WhileStmt c s = node (KindQString kWhileStmt) [c, s]"

definition Json_DoWhileStmt :: "json result \<Rightarrow> json result \<Rightarrow> json result" where
  "Json_DoWhileStmt c s = node (KindQString kDoWhileStmt) [c, s]"

definition Json_ForStmt :: "json result option \<Rightarrow> json result option \<Rightarrow> json result option \<Rightarrow> json result \<Rightarrow> json result option \<Rightarrow> json result" where
  "Json_ForStmt i c inc s d = node (KindQString kForStmt)
     ((case i of Some m \<Rightarrow> [m] | None \<Rightarrow> opt_child d) @ opt_child c @ opt_child inc @ [s])"

definition Json_GotoStmt :: "'c json_env \<Rightarrow> string \<Rightarrow> json result" where
  "Json_GotoStmt J name = node (KindQString kGotoStmt) [Inr (leaf (j_qstring J (''label: '' @ name)))]"

definition Json_ContinueStmt :: "json result" where
  "Json_ContinueStmt = Inr (leaf (KindQString kContinueStmt))"

definition Json_BreakStmt :: "json result" where
  "Json_BreakStmt = Inr (leaf (KindQString kBreakStmt))"

definition Json_ReturnStmt :: "json result option \<Rightarrow> json result" where
  "Json_ReturnStmt e = node (KindQString kReturnStmt) [case e of None \<Rightarrow> Inr (leaf ''void'') | Some m \<Rightarrow> m]"

text \<open>\<open>D\<close> visits the declarations.\<close>

fun json_expr :: "'c json_env \<Rightarrow> (nat \<Rightarrow> json result) \<Rightarrow> expr \<Rightarrow> json result"
and json_stmt :: "'c json_env \<Rightarrow> (nat \<Rightarrow> json result) \<Rightarrow> stmt \<Rightarrow> json result" where
  "json_expr J D (EUnary op e q) = Json_UnaryOpExpr op (json_expr J D e)"
| "json_expr J D (ECast e q) = Json_TypeCastExpr J (fst q) (json_expr J D e)"
| "json_expr J D (EBinary op l r q) = Json_BinaryOpExpr op (json_expr J D l) (json_expr J D r)"
| "json_expr J D (ECond c l r q) = Json_ConditionOpExpr (json_expr J D c) (json_expr J D l) (json_expr J D r)"
| "json_expr J D (ECall f args t q) = Json_FuncCallExpr (json_expr J D f) (map (json_expr J D) args)"
| "json_expr J D (EInt q v) = Json_ConstantExpr J (fst q) (Inl v)"
| "json_expr J D (EFloat q s) = Json_ConstantExpr J (fst q) (Inr s)"
| "json_expr J D (EString q s) = Json_StringLiteralExpr J s"
| "json_expr J D (EIdent i) = Json_ident J i"
| "json_expr J D (EStmt ss q) = Json_StmtExpr (Json_CompoundStmt (map (json_stmt J D) ss))"
| "json_stmt J D (SLabel name s) = Json_LabelStmt J name (json_stmt J D s)"
| "json_stmt J D (SCase l r s) = Json_CaseStmt J l r (json_stmt J D s)"
| "json_stmt J D (SDefault s) = Json_DefaultStmt (json_stmt J D s)"
| "json_stmt J D (SCompound ss) = Json_CompoundStmt (map (json_stmt J D) ss)"
| "json_stmt J D (SExpr e) = Json_ExprStmt (map_option (json_expr J D) e)"
| "json_stmt J D (SIf c t e) = Json_IfStmt (json_expr J D c) (json_stmt J D t) (map_option (json_stmt J D) e)"
| "json_stmt J D (SSwitch c s) = Json_SwitchStmt (json_expr J D c) (json_stmt J D s)"
| "json_stmt J D (SWhile c s) = Json_WhileStmt (json_expr J D c) (json_stmt J D s)"
| "json_stmt J D (SDoWhile c s) = Json_DoWhileStmt (json_expr J D c) (json_stmt J D s)"
| "json_stmt J D (SFor i c inc s d) = Json_ForStmt (map_option (json_expr J D) i) (map_option (json_expr J D) c)
     (map_option (json_expr J D) inc) (json_stmt J D s) (map_option (json_stmt J D) d)"
| "json_stmt J D (SGoto name) = Json_GotoStmt J name"
| "json_stmt J D SContinue = Json_ContinueStmt"
| "json_stmt J D SBreak = Json_BreakStmt"
| "json_stmt J D (SReturn e) = Json_ReturnStmt (map_option (json_expr J D) e)"
| "json_stmt J D (SDecl k) = D k"

subsection \<open>Declarations and units\<close>

text \<open>One initialiser: the indices of its place, and its expression.\<close>

definition json_init :: "'c json_env \<Rightarrow> (expr \<Rightarrow> json result) \<Rightarrow> initializer \<Rightarrow> json result" where
  "json_init J f it = node (concat (map (\<lambda>(t, index, _, _). j_number J index @ '' '') (in_indexs it))) [f (in_expr it)]"

text \<open>A null pointer for a constant fails the assertion of \<open>LLVMConstantToStr\<close>.\<close>

definition LLVMConstantToStr :: "'c json_env \<Rightarrow> 'c option \<Rightarrow> string result" where
  "LLVMConstantToStr J c = (case c of None \<Rightarrow> Inl Assert_Fail | Some c \<Rightarrow> Inr (j_constant J c))"

definition Json_Declaration :: "'c json_env \<Rightarrow> (expr \<Rightarrow> json result) \<Rightarrow> 'c decl_cell \<Rightarrow> json result" where
  "Json_Declaration J f d = node (KindQString kDeclaration) (Json_ident J (d_ident d) #
     (if d_constant d \<noteq> None \<or> d_value_init d then [text_leaf J (LLVMConstantToStr J (d_constant d)) []]
      else if d_value_init d then [Inr (leaf ''value init'')]
      else if d_inits d \<noteq> [] \<or> d_value_init d then map (json_init J f) (d_inits d)
      else []))"

text \<open>Declarations in the statement expressions of initialisers are \<open>n\<close> deep at most.\<close>

primrec json_decl :: "'c json_env \<Rightarrow> nat \<Rightarrow> nat \<Rightarrow> json result" where
  "json_decl J 0 k = Inl Out_Of_Fuel"
| "json_decl J (Suc n) k = Json_Declaration J (json_expr J (json_decl J n)) (j_decls J k)"

definition Json_FuncDef :: "'c json_env \<Rightarrow> nat \<Rightarrow> ident \<Rightarrow> stmt list \<Rightarrow> json result" where
  "Json_FuncDef J n i body = node (KindQString kFuncDef) [Json_ident J i, json_stmt J (json_decl J n) (SCompound body)]"

definition Json_ext_decl :: "'c json_env \<Rightarrow> nat \<Rightarrow> ext_decl \<Rightarrow> json result" where
  "Json_ext_decl J n x = (case x of
       FuncDef i body \<Rightarrow> Json_FuncDef J n i body
     | ExtDecls ds \<Rightarrow> json_stmt J (json_decl J n) (SCompound ds))"

text \<open>External declarations come with the file of their location.\<close>

definition CheckFileName :: "string \<Rightarrow> string \<Rightarrow> bool" where
  "CheckFileName filt file \<longleftrightarrow> (if filt = [] then True else file = filt)"

definition Json_TranslationUnit :: "'c json_env \<Rightarrow> nat \<Rightarrow> string \<Rightarrow> (string \<times> ext_decl) list \<Rightarrow> json result" where
  "Json_TranslationUnit J n filt ds = node (KindQString kTranslationUnit)
     (map (\<lambda>(_, x). Json_ext_decl J n x) (filter (\<lambda>(file, _). CheckFileName filt file) ds))"

end
