(* ===== verification/Kcc_JsonProps.thy ===== *)
theory Kcc_JsonProps
  imports Kcc_Json
begin

unbundle bit_operations_syntax

text \<open>
  What the JSON view shows: an expression up to its types (\<open>json_view_determines_expression\<close>), and not a unit with a declaration
  that has the empty braces of GNU C (\<open>value_initialised_declaration_crashes\<close>).
\<close>

subsection \<open>Numbers\<close>

text \<open>Decimal digits behind an optional minus sign: an instance of \<open>QString::number\<close>.\<close>

fun digits :: "nat \<Rightarrow> string" where
  "digits n = (if n < 10 then [char_of (48 + n)] else digits (n div 10) @ [char_of (48 + n mod 10)])"

declare digits.simps [simp del]

definition number :: "int \<Rightarrow> string" where
  "number v = (if v < 0 then CHR ''-'' # digits (nat (- v)) else digits (nat v))"

definition digits_value :: "string \<Rightarrow> nat" where
  "digits_value ds = foldl (\<lambda>a c. 10 * a + (of_char c - 48)) 0 ds"

lemma digits_value: "digits_value (digits n) = n"
proof (induction n rule: digits.induct)
  case (1 n)
  have d: "(of_char (char_of (48 + m) :: char) :: nat) = 48 + m" if "m < 10" for m :: nat using that by simp
  show ?case
  proof (cases "n < 10")
    case True then show ?thesis using d [of n] by (simp add: digits.simps [of n] digits_value_def)
  next
    case False
    then have "digits_value (digits n) = 10 * (n div 10) + n mod 10"
      using 1 d [of "n mod 10"] by (subst digits.simps) (simp add: digits_value_def)
    then show ?thesis by simp
  qed
qed

lemma digits_range: "c \<in> set (digits n) \<Longrightarrow> 48 \<le> (of_char c :: nat)"
proof (induction n rule: digits.induct)
  case (1 n)
  then show ?case by (cases "n < 10") (auto simp: digits.simps [of n])
qed

lemma number_inject: "number v = number w \<Longrightarrow> v = w"
proof -
  assume e: "number v = number w"
  have m: "CHR ''-'' # ds \<noteq> digits n" for n ds
  proof
    assume "CHR ''-'' # ds = digits n"
    then have "CHR ''-'' \<in> set (digits n)" by (metis list.set_intros(1))
    from digits_range [OF this] show False by simp
  qed
  have "nat \<bar>v\<bar> = nat \<bar>w\<bar> \<and> (v < 0 \<longleftrightarrow> w < 0)"
    using e m digits_value by (auto simp: number_def split: if_splits) metis+
  then show ?thesis by (auto split: if_splits)
qed

subsection \<open>Names\<close>

definition all_kinds :: "node_kind list" where
  "all_kinds = [kUnaryOpExpr, kTypeCastExpr, kBinaryOpExpr, kConditionOpExpr, kFuncCallExpr, kConstantExpr,
     kStringLiteralExpr, kIdentifierExpr, kEnumeratorExpr, kObjectExpr, kStmtExpr, kLabelStmt, kCaseStmt, kDefaultStmt,
     kCompoundStmt, kExprStmt, kIfStmt, kSwitchStmt, kWhileStmt, kDoWhileStmt, kForStmt, kGotoStmt, kContinueStmt,
     kBreakStmt, kReturnStmt, kTranslationUnit, kDeclaration, kFuncDef]"

lemma kinds_distinct:
  assumes "KindQString k = KindQString k'"
  shows "k = k'"
proof -
  have "distinct (map KindQString all_kinds)" by (simp add: all_kinds_def KindQString_def)
  moreover have "k \<in> set all_kinds" for k by (cases k) (simp_all add: all_kinds_def)
  ultimately show ?thesis using assms by (auto simp: distinct_map dest: inj_onD)
qed

definition kind_text :: "string \<Rightarrow> string" where
  "kind_text s = takeWhile (\<lambda>c. c \<noteq> CHR '' '' \<and> c \<noteq> CHR '':'') s"

lemma kind_text: "kind_text (KindQString k) = KindQString k" "kind_text (KindQString k @ CHR '' '' # s) = KindQString k"
  "kind_text (KindQString k @ CHR '':'' # s) = KindQString k"
  by (cases k; simp add: KindQString_def kind_text_def)+

lemma TokenTag_inject:
  assumes "TokenTag_ToString t = Inr s" and "TokenTag_ToString t' = Inr s"
  shows "t = t'"
proof -
  have "list_all (\<lambda>x. x = CHR ''k'' # tl x) tag_names" by (simp add: tag_names_def)
  then have k: "x = CHR ''k'' # tl x" if "x \<in> set tag_names" for x
    using that by (simp only: list_all_iff)
  have i: "nat (tag_value u) < length tag_names" "s = tl (tag_names ! nat (tag_value u))" "0 \<le> tag_value u" if "TokenTag_ToString u = Inr s" for u
    using that by (auto simp: TokenTag_ToString_def split: if_splits)
  from k [OF nth_mem [OF i(1) [OF assms(1)]]] k [OF nth_mem [OF i(1) [OF assms(2)]]] i(2) [OF assms(1)] i(2) [OF assms(2)]
  have "tag_names ! nat (tag_value t) = tag_names ! nat (tag_value t')" by metis
  with nth_eq_iff_index_eq [OF distinct_tag_names i(1) [OF assms(1)] i(1) [OF assms(2)]] i(3) [OF assms(1)] i(3) [OF assms(2)]
  show ?thesis by (cases t; cases t') simp
qed

subsection \<open>Expressions\<close>

text \<open>An expression without its types, and with the texts of its constants, names and strings.\<close>

fun json_name :: "json \<Rightarrow> string" where
  "json_name (Json s _) = s"

datatype skeleton =
    Unary tag skeleton
  | Cast skeleton
  | Binary tag skeleton skeleton
  | Conditional skeleton skeleton skeleton
  | Call skeleton "skeleton list"
  | Constant string
  | Literal string
  | Func_name string
  | Enumeration_constant string int
  | Object_name string
  | Braces

fun bare_ident :: "'c json_env \<Rightarrow> ident \<Rightarrow> skeleton" where
  "bare_ident J (Ident name _ _ _) = Func_name (j_qstring J name)"
| "bare_ident J (Enumerator name v) = Enumeration_constant (j_qstring J name) v"
| "bare_ident J (Object name _) = Object_name (j_qstring J name)"

definition constant_text :: "json result \<Rightarrow> string" where
  "constant_text m = (case m of Inr j \<Rightarrow> json_name j | Inl _ \<Rightarrow> [])"

fun bare :: "'c json_env \<Rightarrow> expr \<Rightarrow> skeleton" where
  "bare J (EUnary op e q) = Unary op (bare J e)"
| "bare J (ECast e q) = Cast (bare J e)"
| "bare J (EBinary op l r q) = Binary op (bare J l) (bare J r)"
| "bare J (ECond c l r q) = Conditional (bare J c) (bare J l) (bare J r)"
| "bare J (ECall f args t q) = Call (bare J f) (map (bare J) args)"
| "bare J (EInt q v) = Constant (constant_text (Json_ConstantExpr J (fst q) (Inl v)))"
| "bare J (EFloat q s) = Constant (constant_text (Json_ConstantExpr J (fst q) (Inr s)))"
| "bare J (EString q s) = Literal (j_qstring J s)"
| "bare J (EIdent i) = bare_ident J i"
| "bare J (EStmt ss q) = Braces"

fun expr_kind :: "expr \<Rightarrow> node_kind" where
  "expr_kind (EUnary _ _ _) = kUnaryOpExpr"
| "expr_kind (ECast _ _) = kTypeCastExpr"
| "expr_kind (EBinary _ _ _ _) = kBinaryOpExpr"
| "expr_kind (ECond _ _ _ _) = kConditionOpExpr"
| "expr_kind (ECall _ _ _ _) = kFuncCallExpr"
| "expr_kind (EInt _ _) = kConstantExpr"
| "expr_kind (EFloat _ _) = kConstantExpr"
| "expr_kind (EString _ _) = kStringLiteralExpr"
| "expr_kind (EIdent (Ident _ _ _ _)) = kIdentifierExpr"
| "expr_kind (EIdent (Enumerator _ _)) = kEnumeratorExpr"
| "expr_kind (EIdent (Object _ _)) = kObjectExpr"
| "expr_kind (EStmt _ _) = kStmtExpr"

lemma node_Inr: "node s ms = Inr j \<longleftrightarrow> (\<exists>js. in_turn ms = Inr js \<and> j = Json s (Some js))"
  by (auto simp: node_def bindE_eq_Inr)

lemmas json_defs = Json_UnaryOpExpr_def Json_TypeCastExpr_def Json_BinaryOpExpr_def Json_ConditionOpExpr_def Json_FuncCallExpr_def
  Json_StringLiteralExpr_def Json_IdentifierExpr_def Json_EnumeratorExpr_def Json_ObjectExpr_def
  Json_StmtExpr_def Json_ident_def node_Inr bindE_eq_Inr text_leaf_def leaf_def

lemma name_kind: "json_expr J D e = Inr j \<Longrightarrow> kind_text (json_name j) = KindQString (expr_kind e)"
  by (cases e rule: expr_kind.cases) (auto simp: json_defs Json_ConstantExpr_def kind_text split: if_splits)

lemma same_kind:
  assumes "json_expr J D e = Inr j" and "json_expr J D e' = Inr j"
  shows "expr_kind e' = expr_kind e"
  using name_kind [OF assms(1)] name_kind [OF assms(2)] kinds_distinct by simp

lemma in_turn_length: "in_turn ms = Inr js \<Longrightarrow> length js = length ms"
  by (induction ms arbitrary: js) (auto simp: bindE_eq_Inr)

lemma in_turn_Cons: "in_turn (m # ms) = Inr js \<longleftrightarrow> (\<exists>j ks. m = Inr j \<and> in_turn ms = Inr ks \<and> js = j # ks)"
  by (auto simp: bindE_eq_Inr)

lemma call_Inr: "Json_FuncCallExpr m ms = Inr j \<longleftrightarrow>
    (\<exists>i js. m = Inr i \<and> in_turn ms = Inr js \<and> j = Json (KindQString kFuncCallExpr) (Some (i # js)))"
  by (auto simp: json_defs)

lemma in_turn_map:
  assumes "in_turn (map f xs) = Inr js" and "in_turn (map f ys) = Inr js"
    and "\<And>x y j. x \<in> set xs \<Longrightarrow> f x = Inr j \<Longrightarrow> f y = Inr j \<Longrightarrow> b x = b y"
  shows "map b xs = map b ys"
  using assms
proof (induction xs arbitrary: js ys)
  case Nil
  then show ?case by (cases ys) (auto simp: bindE_eq_Inr)
next
  case (Cons x xs)
  from Cons.prems(1) obtain j ks where j: "f x = Inr j" "in_turn (map f xs) = Inr ks" "js = j # ks"
    unfolding list.map in_turn_Cons by blast
  from Cons.prems(2) j(3) obtain y zs where y: "ys = y # zs" "f y = Inr j" "in_turn (map f zs) = Inr ks"
    by (cases ys) (simp_all add: in_turn_Cons del: in_turn.simps(2))
  have "map b xs = map b zs" by (rule Cons.IH [OF j(2) y(3) Cons.prems(3)]) simp_all
  moreover have "b x = b y" by (rule Cons.prems(3) [OF _ j(1) y(2)]) simp
  ultimately show ?case by (simp add: y(1))
qed

lemma bare_determined: "json_expr J D e = Inr j \<Longrightarrow> json_expr J D e' = Inr j \<Longrightarrow> inj (j_number J) \<Longrightarrow> bare J e = bare J e'"
proof (induction J e arbitrary: j e' rule: bare.induct)
  case (1 J op e q)
  from same_kind [OF 1(2,3)] obtain op' u q' where e': "e' = EUnary op' u q'" by (cases e' rule: expr_kind.cases) auto
  with 1(2,3) obtain s i where t: "TokenTag_ToString op = Inr s" "TokenTag_ToString op' = Inr s" "json_expr J D e = Inr i" "json_expr J D u = Inr i"
    by (auto simp: json_defs)
  from 1(1) [OF t(3,4) 1(4)] TokenTag_inject [OF t(1,2)] show ?case by (simp add: e')
next
  case (2 J e q)
  from same_kind [OF 2(2,3)] obtain u q' where e': "e' = ECast u q'" by (cases e' rule: expr_kind.cases) auto
  with 2(2,3) obtain i where "json_expr J D e = Inr i" "json_expr J D u = Inr i" by (auto simp: json_defs)
  from 2(1) [OF this 2(4)] show ?case by (simp add: e')
next
  case (3 J op l r q)
  from same_kind [OF 3(3,4)] obtain op' l' r' q' where e': "e' = EBinary op' l' r' q'" by (cases e' rule: expr_kind.cases) auto
  with 3(3,4) obtain s i k where t: "TokenTag_ToString op = Inr s" "TokenTag_ToString op' = Inr s" "json_expr J D l = Inr i" "json_expr J D l' = Inr i"
    "json_expr J D r = Inr k" "json_expr J D r' = Inr k"
    by (auto simp: json_defs)
  from 3(1) [OF t(3,4) 3(5)] 3(2) [OF t(5,6) 3(5)] TokenTag_inject [OF t(1,2)] show ?case by (simp add: e')
next
  case (4 J c l r q)
  from same_kind [OF 4(4,5)] obtain c' l' r' q' where e': "e' = ECond c' l' r' q'" by (cases e' rule: expr_kind.cases) auto
  with 4(4,5) obtain h i k where t: "json_expr J D c = Inr h" "json_expr J D c' = Inr h" "json_expr J D l = Inr i" "json_expr J D l' = Inr i"
    "json_expr J D r = Inr k" "json_expr J D r' = Inr k"
    by (auto simp: json_defs)
  from 4(1) [OF t(1,2) 4(6)] 4(2) [OF t(3,4) 4(6)] 4(3) [OF t(5,6) 4(6)] show ?case by (simp add: e')
next
  case (5 J f args t q)
  from same_kind [OF 5(3,4)] obtain f' args' t' q' where e': "e' = ECall f' args' t' q'" by (cases e' rule: expr_kind.cases) auto
  from 5(3) obtain i js where t: "json_expr J D f = Inr i" "in_turn (map (json_expr J D) args) = Inr js"
    "j = Json (KindQString kFuncCallExpr) (Some (i # js))"
    unfolding json_expr.simps call_Inr by blast
  from 5(4) have t': "json_expr J D f' = Inr i" "in_turn (map (json_expr J D) args') = Inr js"
    unfolding e' json_expr.simps call_Inr t(3) by simp_all
  have "map (bare J) args = map (bare J) args'" by (rule in_turn_map [OF t(2) t'(2) 5(2) [OF _ _ _ 5(5)]])
  with 5(1) [OF t(1) t'(1) 5(5)] show ?case by (simp add: e')
next
  case (6 J q v)
  have "(\<exists>q' w. e' = EInt q' w) \<or> (\<exists>q' s. e' = EFloat q' s)"
    using same_kind [OF 6(1,2)] by (cases e' rule: expr_kind.cases) simp_all
  with 6 show ?case by (elim disjE exE) (simp_all add: constant_text_def)
next
  case (7 J q s)
  have "(\<exists>q' w. e' = EInt q' w) \<or> (\<exists>q' s. e' = EFloat q' s)"
    using same_kind [OF 7(1,2)] by (cases e' rule: expr_kind.cases) simp_all
  with 7 show ?case by (elim disjE exE) (simp_all add: constant_text_def)
next
  case (8 J q s)
  from same_kind [OF 8(1,2)] obtain q' s' where e': "e' = EString q' s'" by (cases e' rule: expr_kind.cases) auto
  with 8 show ?case by (auto simp: json_defs)
next
  case (9 J i)
  show ?case
  proof (cases i)
    case (Ident name q l b)
    with same_kind [OF 9(1,2)] obtain name' q' l' b' where "e' = EIdent (Ident name' q' l' b')" by (cases e' rule: expr_kind.cases) auto
    with 9 Ident show ?thesis by (auto simp: json_defs)
  next
    case (Enumerator name v)
    with same_kind [OF 9(1,2)] obtain name' v' where "e' = EIdent (Enumerator name' v')" by (cases e' rule: expr_kind.cases) auto
    with 9 Enumerator show ?thesis by (auto simp: json_defs dest: injD)
  next
    case (Object name n)
    with same_kind [OF 9(1,2)] obtain name' n' where "e' = EIdent (Object name' n')" by (cases e' rule: expr_kind.cases) auto
    with 9 Object show ?thesis by (auto simp: json_defs)
  qed
next
  case (10 J ss q)
  from same_kind [OF 10(1,2)] obtain ss' q' where "e' = EStmt ss' q'" by (cases e' rule: expr_kind.cases) auto
  then show ?case by simp
qed

text \<open>
  C23. The view of an expression determines the expression but for its types: if two trees have the same view,
  they have the same operators, casts, calls, names, enumerators and strings in the same places, and constants with the
  same text. Qt's text of an integer is asked to determine it. What is in the braces of a statement expression is not compared.
\<close>

theorem json_view_determines_expression:
  assumes "json_expr J D e = Inr j" and "json_expr J D e' = Inr j" and number_text: "inj (j_number J)"
  shows "bare J e = bare J e'"
  by (rule bare_determined [OF assms])

subsection \<open>Samples\<close>

definition sample_json :: "int_const json_env" where
  "sample_json = \<lparr>j_env = \<lparr>e_llvm = int_llvm, e_dl = \<lparr>alloc_size = (\<lambda>_ _. 4), layout_size = (\<lambda>_ _. 4), layout_align = (\<lambda>_ _. 4)\<rparr>,
       e_utf16 = id, e_utf32 = id, e_ucn = (\<lambda>_. []), e_type_str = (\<lambda>l. ''i32''), e_scope_str = (\<lambda>_. []),
       e_float_range = (\<lambda>_. 0), e_stream_end = length\<rparr>,
     j_heap = \<lparr>h_types = \<lparr>arrays = (\<lambda>_. \<lparr>num_elements = None, arr_complete = False\<rparr>),
         structs = (\<lambda>_. \<lparr>st_is_struct = True, st_name = [], st_members = [], st_scope = 0, st_offset = 0, st_width = 0, st_align = 1,
           bit_field_used_width = 0, bit_field_base_type_width = 0, st_index = 0, bit_field_space_count = 0, llvm_types = [],
           llvm_body = [], struct_complete = True\<rparr>),
         funcs = (\<lambda>n. \<lparr>func_spec = 0, func_name = ''f'', func_complete = False\<rparr>), next_id = 100\<rparr>,
       h_objs = (\<lambda>n. \<lparr>obj_name = ''x'', obj_type = (ArithT kInt, 0), storage_class_spec = 0, obj_linkage = Linkage_kNone, anonymous = False,
         obj_align = 4, obj_offset = 0, bit_field_width = 0, bit_field_begin = 0, indexs = [], obj_func_name = []\<rparr>), h_next_obj = 100,
       h_scopes = \<lparr>scope_at = (\<lambda>_. \<lparr>parent = None, scope_kind = kFile, tags = [], usual = []\<rparr>), next_scope = 1\<rparr>\<rparr>,
     j_decls = (\<lambda>_. \<lparr>d_ident = Object ''x'' 0, d_inits = [], d_constant = None, d_value_init = True\<rparr>),
     j_number = number, j_qstring = id, j_float = (\<lambda>t s. Inr s), j_constant = (\<lambda>c. [])\<rparr>"

abbreviation kUint :: mask where "kUint \<equiv> kInt OR kUnsigned"

lemma int_kinds: "IsIntegerTy (ArithT kInt)" "IsIntegerTy (ArithT kUint)" "Arithmetic_LLVMType kInt = Inr (LInt 32)"
  "Arithmetic_LLVMType kUint = Inr (LInt 32)" "sgn_of 32 1 = 1" "sgn_of 32 2 = 2" "sgn_of 32 4294967295 = -1"
  by code_simp+

lemma int_json:
  assumes "t = ArithT kInt \<or> t = ArithT kUint"
  shows "Json_ConstantExpr J t (Inl v) = Inr (leaf (KindQString kConstantExpr @ '': '' @ j_number J (sgn_of 32 v)))"
  using assms int_kinds by (auto simp: Json_ConstantExpr_def integer_bits_def)

text \<open>\<open>1 + 2\<close> in \<open>int\<close> and in \<open>unsigned int\<close>.\<close>

definition sum_of :: "ctype \<Rightarrow> expr" where
  "sum_of t = EBinary Tag_kPlus (EInt (t, 0) 1) (EInt (t, 0) 2) (t, 0)"

theorem json_view_determines_expression_witness:
  "\<exists>j. json_expr sample_json (json_decl sample_json 1) (sum_of (ArithT kInt)) = Inr j \<and>
     json_expr sample_json (json_decl sample_json 1) (sum_of (ArithT kUint)) = Inr j \<and>
     bare sample_json (sum_of (ArithT kInt)) = bare sample_json (sum_of (ArithT kUint))"
proof -
  have "TokenTag_ToString Tag_kPlus = Inr ''Plus''" by code_simp
  then obtain j where "json_expr sample_json (json_decl sample_json 1) (sum_of t) = Inr j" if "t = ArithT kInt \<or> t = ArithT kUint" for t
    by (simp add: sum_of_def Json_BinaryOpExpr_def int_json node_def)
  then have v: "json_expr sample_json (json_decl sample_json 1) (sum_of (ArithT kInt)) = Inr j"
    "json_expr sample_json (json_decl sample_json 1) (sum_of (ArithT kUint)) = Inr j" by simp_all
  have "inj (j_number sample_json)" by (auto simp: sample_json_def intro: injI number_inject)
  with json_view_determines_expression [OF v] v show ?thesis by blast
qed

text \<open>An unsigned constant with the top bit set is shown as a negative number.\<close>

theorem unsigned_constant_shown_negative:
  "json_expr sample_json (json_decl sample_json 1) (EInt (ArithT kUint, 0) 4294967295) = Inr (leaf ''ConstantExpr: -1'')"
proof -
  have "number (- 1) = ''-1''" by code_simp
  then have "j_number sample_json (- 1) = ''-1''" by (simp add: sample_json_def)
  then show ?thesis by (simp add: int_json int_kinds KindQString_def)
qed

text \<open>Two loops with the same view: \<open>for (x;;);\<close> and \<open>for (;x;);\<close>.\<close>

theorem loops_with_one_view:
  "json_stmt J D (SFor (Some x) None None t None) = json_stmt J D (SFor None (Some x) None t None)"
  by (simp add: Json_ForStmt_def opt_child_def)

subsection \<open>Empty braces\<close>

text \<open>The statements in a statement, and those an external declaration is made of.\<close>

inductive part_of :: "stmt \<Rightarrow> stmt \<Rightarrow> bool" where
  whole: "part_of s s"
| inner: "part_of s t \<Longrightarrow> Some t \<in> set (Children u) \<Longrightarrow> part_of s u"

fun ext_stmts :: "ext_decl \<Rightarrow> stmt list" where
  "ext_stmts (FuncDef _ body) = body"
| "ext_stmts (ExtDecls ds) = ds"

text \<open>A node fails with its children.\<close>

lemma in_turn_fails: "m \<in> set ms \<Longrightarrow> (\<And>j. m \<noteq> Inr j) \<Longrightarrow> in_turn ms \<noteq> Inr js"
  by (induction ms arbitrary: js) (auto simp: bindE_eq_Inr)

lemma node_fails: "m \<in> set ms \<Longrightarrow> (\<And>j. m \<noteq> Inr j) \<Longrightarrow> node s ms \<noteq> Inr j"
  using in_turn_fails by (fastforce simp: node_Inr)

lemma child_fails:
  assumes "Some t \<in> set (Children u)" and "\<And>j. json_stmt J D t \<noteq> Inr j"
  shows "json_stmt J D u \<noteq> Inr j"
proof -
  have f: "node str ms = Inr j \<Longrightarrow> json_stmt J D t \<notin> set ms" for str ms using node_fails [OF _ assms(2)] by blast
  show ?thesis using assms(1)
    by (cases u) (auto simp: Json_LabelStmt_def Json_CaseStmt_def Json_DefaultStmt_def Json_CompoundStmt_def Json_IfStmt_def
        Json_SwitchStmt_def Json_WhileStmt_def Json_DoWhileStmt_def Json_ForStmt_def opt_child_def simp del: in_turn.simps dest!: f)
qed

lemma part_fails: "part_of s u \<Longrightarrow> (\<And>j. json_stmt J D s \<noteq> Inr j) \<Longrightarrow> json_stmt J D u \<noteq> Inr j"
  by (induction arbitrary: j rule: part_of.induct) (auto dest: child_fails)

text \<open>Two environments: where the second has a view, the first has the same or fails an assertion.\<close>

definition or_assertion :: "json result \<Rightarrow> json result \<Rightarrow> bool" where
  "or_assertion m m' \<longleftrightarrow> (\<forall>j. m' = Inr j \<longrightarrow> m = Inr j \<or> m = Inl Assert_Fail)"

lemma or_assertion_same [simp]: "or_assertion m m"
  by (simp add: or_assertion_def)

lemma in_turn_or: "list_all2 or_assertion ms ms' \<Longrightarrow> in_turn ms' = Inr js \<Longrightarrow> in_turn ms = Inr js \<or> in_turn ms = Inl Assert_Fail"
  by (induction arbitrary: js rule: list_all2_induct) (fastforce simp: or_assertion_def bindE_eq_Inr bindE_eq_Inl)+

lemma node_or: "list_all2 or_assertion ms ms' \<Longrightarrow> or_assertion (node s ms) (node s ms')"
  using in_turn_or by (fastforce simp: or_assertion_def node_def bindE_eq_Inr bindE_eq_Inl)

lemma bind_or: "(\<And>s. or_assertion (f s) (g s)) \<Longrightarrow> or_assertion (bindE m f) (bindE m g)"
  by (cases m) simp_all

text \<open>The visitors of statements keep the relation.\<close>

lemma other_decls [simp]: "json_type (J\<lparr>j_decls := ds\<rparr>) t = json_type J t"
  "Json_ConstantExpr (J\<lparr>j_decls := ds\<rparr>) t v = Json_ConstantExpr J t v" "Json_ident (J\<lparr>j_decls := ds\<rparr>) i = Json_ident J i"
  "text_leaf (J\<lparr>j_decls := ds\<rparr>) m b = text_leaf J m b"
  by (cases i; simp add: json_type_def Json_ConstantExpr_def Json_ident_def Json_IdentifierExpr_def Json_ObjectExpr_def
      Json_EnumeratorExpr_def text_leaf_def)+

lemma json_or:
  "(\<forall>k. or_assertion (D k) (D' k)) \<longrightarrow> or_assertion (json_expr J D e) (json_expr (J\<lparr>j_decls := ds\<rparr>) D' e)"
  "(\<forall>k. or_assertion (D k) (D' k)) \<longrightarrow> or_assertion (json_stmt J D s) (json_stmt (J\<lparr>j_decls := ds\<rparr>) D' s)"
  by (induction J D e and J D s rule: json_expr_json_stmt.induct)
     (auto simp: Json_UnaryOpExpr_def Json_TypeCastExpr_def Json_BinaryOpExpr_def Json_ConditionOpExpr_def Json_FuncCallExpr_def
      Json_StringLiteralExpr_def Json_StmtExpr_def Json_LabelStmt_def Json_CaseStmt_def Json_DefaultStmt_def
      Json_CompoundStmt_def Json_ExprStmt_def Json_IfStmt_def Json_SwitchStmt_def Json_WhileStmt_def Json_DoWhileStmt_def Json_ForStmt_def
      Json_GotoStmt_def Json_ContinueStmt_def Json_BreakStmt_def Json_ReturnStmt_def opt_child_def list_all2_conv_all_nth
      split: option.splits intro!: node_or bind_or)

text \<open>The same program with the braces of one declaration left out.\<close>

definition no_braces :: "'c json_env \<Rightarrow> nat \<Rightarrow> 'c json_env" where
  "no_braces J k = J\<lparr>j_decls := (j_decls J)(k := (j_decls J k)\<lparr>d_value_init := False\<rparr>)\<rparr>"

lemma braces_fail:
  assumes "d_value_init d" and "d_constant d = None"
  shows "Json_Declaration J f d \<noteq> Inr j" and "Json_ident J (d_ident d) = Inr i \<Longrightarrow> Json_Declaration J f d = Inl Assert_Fail"
  using assms by (auto simp: Json_Declaration_def node_def text_leaf_def LLVMConstantToStr_def bindE_eq_Inr)

lemma ident_viewed: "Json_Declaration J f d = Inr j \<Longrightarrow> \<exists>i. Json_ident J (d_ident d) = Inr i"
  by (auto simp: Json_Declaration_def node_def bindE_eq_Inr)

lemma init_or: "(\<And>e. or_assertion (f e) (g e)) \<Longrightarrow> or_assertion (json_init J f it) (json_init (J\<lparr>j_decls := ds\<rparr>) g it)"
  by (simp add: json_init_def node_or)

lemma declaration_or:
  assumes "\<And>e. or_assertion (f e) (g e)"
  shows "or_assertion (Json_Declaration J f d) (Json_Declaration (J\<lparr>j_decls := ds\<rparr>) g d)"
  unfolding Json_Declaration_def
  by (auto intro!: node_or init_or assms simp: LLVMConstantToStr_def list_all2_conv_all_nth split: option.splits)

lemma decl_or:
  assumes "d_value_init (j_decls J k)" and "d_constant (j_decls J k) = None"
  shows "or_assertion (json_decl J n m) (json_decl (no_braces J k) n m)"
proof (induction n arbitrary: m)
  case (Suc n)
  let ?J = "no_braces J k"
  have e: "or_assertion (json_expr J (json_decl J n) e) (json_expr ?J (json_decl ?J n) e)" for e
    unfolding no_braces_def by (rule json_or(1) [THEN mp]) (use Suc in \<open>simp add: no_braces_def\<close>)
  show ?case
  proof (cases "m = k")
    case True
    with assms show ?thesis
      by (auto simp: or_assertion_def no_braces_def dest!: ident_viewed intro: braces_fail(2) [OF assms])
  next
    case False
    then show ?thesis using declaration_or [OF e] by (simp add: no_braces_def)
  qed
qed simp

lemma unit_or:
  assumes "d_value_init (j_decls J k)" and "d_constant (j_decls J k) = None"
  shows "or_assertion (Json_TranslationUnit J n filt ds) (Json_TranslationUnit (no_braces J k) n filt ds)"
proof -
  let ?J = "no_braces J k"
  have s: "or_assertion (json_stmt J (json_decl J n) u) (json_stmt ?J (json_decl ?J n) u)" for u
    using decl_or [OF assms] unfolding no_braces_def by (intro json_or(2) [THEN mp]) simp
  have "or_assertion (Json_ext_decl J n x) (Json_ext_decl ?J n x)" for x
    using s by (auto simp: Json_ext_decl_def Json_FuncDef_def no_braces_def split: ext_decl.splits intro!: node_or simp del: json_stmt.simps)
  then show ?thesis by (auto simp: Json_TranslationUnit_def list_all2_conv_all_nth split_beta intro!: node_or)
qed

text \<open>
  C40. A declaration with the empty braces of GNU C has no view, and so has the unit it is in, at any depth of its statements:
  where the unit without the braces has one, an assertion fails. \<open>HasConstantInit\<close> holds of the declaration, so that the null
  pointer is printed as an LLVM constant; the branch made for the braces is behind it.
\<close>

theorem value_initialised_declaration_crashes:
  assumes "(file, x) \<in> set ds" and "CheckFileName filt file" and "u \<in> set (ext_stmts x)" and "part_of (SDecl k) u"
    and "d_value_init (j_decls J k)" and "d_constant (j_decls J k) = None"
    and "Json_TranslationUnit (no_braces J k) n filt ds = Inr j"
  shows "Json_TranslationUnit J n filt ds = Inl Assert_Fail"
proof -
  let ?D = "json_decl J n"
  have "json_stmt J ?D (SDecl k) \<noteq> Inr i" for i using braces_fail(1) [OF assms(5,6)] by (cases n) simp_all
  then have "json_stmt J ?D u \<noteq> Inr i" for i by (rule part_fails [OF assms(4)])
  then have "json_stmt J ?D (SCompound (ext_stmts x)) \<noteq> Inr i" for i by (rule child_fails [rotated]) (simp add: assms(3))
  then have "Json_ext_decl J n x \<noteq> Inr i" for i
    by (cases x) (auto simp: Json_ext_decl_def Json_FuncDef_def node_Inr bindE_eq_Inr simp del: json_stmt.simps)
  moreover have "Json_ext_decl J n x \<in> set (map (\<lambda>(_, x). Json_ext_decl J n x) (filter (\<lambda>(file, _). CheckFileName filt file) ds))"
    using assms(1,2) by force
  ultimately have "Json_TranslationUnit J n filt ds \<noteq> Inr j" using node_fails unfolding Json_TranslationUnit_def by blast
  with unit_or [OF assms(5,6)] assms(7) show ?thesis unfolding or_assertion_def by blast
qed

text \<open>\<open>int x = {};\<close> in a block of a function, in the file of the filter.\<close>

definition sample_main :: ident where
  "sample_main = Ident ''f'' (FuncT 5 (ArithT kInt) 0 [] False, 0) Linkage_kExternal False"

definition braces_unit :: "(string \<times> ext_decl) list" where
  "braces_unit = [(''g.h'', ExtDecls [SGoto ''l'']), (''f.c'', FuncDef sample_main [SCompound [SDecl 0]])]"

lemma braces_left_out: "\<exists>j. Json_TranslationUnit (no_braces sample_json 0) 1 ''f.c'' braces_unit = Inr j"
  by (simp add: Json_TranslationUnit_def braces_unit_def CheckFileName_def Json_ext_decl_def Json_FuncDef_def Json_CompoundStmt_def
      Json_Declaration_def no_braces_def sample_main_def Json_ident_def Json_IdentifierExpr_def Json_ObjectExpr_def node_def text_leaf_def json_type_def Type_ToString_def
      sample_json_def int_kinds)

theorem value_initialised_declaration_crashes_witness:
  "Json_TranslationUnit sample_json 1 ''f.c'' braces_unit = Inl Assert_Fail"
proof -
  obtain j where j: "Json_TranslationUnit (no_braces sample_json 0) 1 ''f.c'' braces_unit = Inr j" using braces_left_out by blast
  have p: "part_of (SDecl 0) (SCompound [SDecl 0])" by (rule inner [OF whole]) simp
  show ?thesis
    by (rule value_initialised_declaration_crashes [of "''f.c''" "FuncDef sample_main [SCompound [SDecl 0]]", OF _ _ _ p _ _ j])
      (simp_all add: braces_unit_def CheckFileName_def sample_json_def)
qed

end
