(* ===== verification/Spec2Isabelle.thy ===== *)
theory Spec2Isabelle
  imports Kcc_LexProps Kcc_Types Kcc_TypeProps Kcc_Scope Kcc_LayoutProps Kcc_BitField Kcc_AstProps Kcc_CalcProps Kcc_Pool Kcc_LiteralProps
    Kcc_Grammar Kcc_Frame Kcc_InitProps Kcc_GenRefine Kcc_JsonProps
begin

text \<open>
  A verification development for kcc, a small C11 compiler written in C++ over LLVM (all files named
  here are in \<open>src/src/\<close>).

  \<^bold>\<open>The program.\<close> kcc preprocesses a file with the library of Clang (\<open>cpp.cpp\<close>), cuts the text into
  tokens (\<open>lex.cpp\<close>), parses them by recursive descent (\<open>parse*.cpp\<close>) and builds, in the same
  pass, types (\<open>type.cpp\<close>), scopes (\<open>scope.cpp\<close>) and a syntax tree whose constructors check and convert
  their operands (\<open>ast.cpp\<close>). Constant expressions are evaluated on LLVM constants (\<open>calc.cpp\<close>), which the
  parser needs for array sizes, enumerators, bit-fields, case labels and static initialisers. The code generator
  (\<open>code_gen*.cpp\<close>) walks the tree and builds LLVM instructions. Nodes, types and scopes live in memory
  pools (\<open>memory_pool.h\<close>). The optimiser, the object writer and the linker are LLVM's.

  \<^bold>\<open>How it is modelled.\<close> An operation returns an error or a value (\<open>result\<close> in \<open>Kcc_Prelude\<close>): a
  diagnostic that ends the compiler, a failed assertion, a null pointer that is followed, an index out
  of range, an uncaught exception, or fuel that ran out. Assertions are kept, as in a debug build. Member
  functions of the classes \<open>Parser\<close> and \<open>CodeGen\<close> are state-passing actions over a record of
  the members (\<open>Kcc_Monad\<close>); pointers to types, objects and scopes that are shared and changed are
  indices into tables (\<open>heap\<close>), everything else is a value. Machine integers are words where they wrap and
  integers with the limits written out elsewhere; a 32-bit offset or width that leaves its range, which is undefined in C++, is the error
  \<open>Int_Overflow\<close>.

  \<^bold>\<open>Front end: text.\<close>
  \<^item> \<open>Kcc_Location\<close>, \<open>Kcc_Token\<close>: positions (\<open>location.cpp\<close>); token tags, the keyword table (\<open>token.cpp\<close>, \<open>dict.cpp\<close>).
  \<^item> \<open>Kcc_Lexer\<close>, \<open>Kcc_Scan\<close>: the class \<open>Scanner\<close> (\<open>lex.cpp\<close>), its cursor with put-back, and one function per token class.
  \<^item> \<open>Kcc_LexSafe\<close>, \<open>Kcc_LexProps\<close>: no assertion of the scanner can fail on text without line markers; the tokens and the
    gaps between them are the source; identifiers are longest matches; two ways the scanner goes wrong.
  \<^item> \<open>Kcc_Literal\<close>, \<open>Kcc_LiteralProps\<close>: constants and string literals with their escapes; the type of an integer constant is that
    of the C standard, and quoting a string and reading it back is the identity.

  \<^bold>\<open>Front end: types and declarations.\<close>
  \<^item> \<open>Kcc_Types\<close>, \<open>Kcc_Arith\<close>, \<open>Kcc_TypeProps\<close>: types, their predicates, equality, the arithmetic types with rank, width and LLVM
    type (\<open>type.cpp\<close>); \<open>MaxType\<close> is the usual arithmetic conversion but for \<open>_Bool\<close> with a floating type.
  \<^item> \<open>Kcc_Scope\<close>: identifiers and the chain of scopes, over a locale of name tables that is interpreted for both name spaces.
  \<^item> \<open>Kcc_Layout\<close>, \<open>Kcc_LayoutProps\<close>, \<open>Kcc_BitField\<close>: structures, unions and bit-fields: offsets and widths in 32 bits, padding,
    the masks of reads and writes of bit-fields; the layout of a structure is that of C while it stays below 2^31.
  \<^item> \<open>Kcc_MakeDecl\<close>, \<open>Kcc_ParseDecl\<close>, \<open>Kcc_DeclProps\<close>: declarations: specifiers, declarators, tags, redeclaration.
  \<^item> \<open>Kcc_Pool\<close>: the memory pool over a locale of allocators: slots are aligned and disjoint, the destructor frees every block once.

  \<^bold>\<open>Front end: expressions and statements.\<close>
  \<^item> \<open>Kcc_Ast\<close>, \<open>Kcc_AstProps\<close>: the tree and the checks of its constructors; a tree that is built with them
    satisfies the constraints of every operator (\<open>wt\<close>).
  \<^item> \<open>Kcc_Constant\<close>, \<open>Kcc_Calc\<close>, \<open>Kcc_CalcProps\<close>: conversions of constants and \<open>CalcConstantExpr\<close>, against a reference evaluator
    that follows the C standard on unbounded integers (\<open>ceval\<close>); \<open>int_llvm\<close> is an instance of the laws asked of LLVM's constants. The laws ask
    nothing of an extension to the same width, which \<open>ConstantCastTo\<close> makes for a cast between types of one width.
  \<^item> \<open>Kcc_Parser\<close>, \<open>Kcc_Cursor\<close>, \<open>Kcc_ParseExpr\<close>, \<open>Kcc_ParseInit\<close>, \<open>Kcc_ParseStmt\<close>: the class \<open>Parser\<close>. The functions that
    call each other in a cycle get the recursive calls in a record; \<open>parser_at E n\<close> ties the knot \<open>n\<close> deep.
  \<^item> \<open>Kcc_Grammar\<close>: the parser reads back every expression of the grammar, with C's precedence and associativity.
  \<^item> \<open>Kcc_Frame\<close>: whatever is parsed, scope, open blocks, function and initialiser path are left as they were.
  \<^item> \<open>Kcc_InitProps\<close>: an initialiser list that makes the parser loop for ever.
  \<^item> \<open>Kcc_Json\<close>, \<open>Kcc_JsonProps\<close>: the JSON view of the tree (\<open>json_gen.cpp\<close>): it determines an expression up to its types; a unit with
    empty braces has none.

  \<^bold>\<open>Back end.\<close>
  \<^item> \<open>Kcc_Builder\<close>: the class \<open>CodeGen\<close>: its members, the blocks and instructions made so far, and the functions on blocks.
  \<^item> \<open>Kcc_GenExpr\<close>, \<open>Kcc_GenVisit\<close>, \<open>Kcc_GenStmt\<close>: operators, visitors of expressions, statements, declarations, functions and
    units; \<open>visitors_at G n\<close> ties the recursion \<open>n\<close> deep and \<open>GenCode\<close> is the entry point.
  \<^item> \<open>Kcc_GenBlocks\<close>: every block of every generated function is well formed. A triple \<open>goes R A m B\<close> per
    operation; the locale \<open>well_visitors\<close> states what the visitors of sub-trees promise and is
    interpreted for the visitors of every depth.
  \<^item> \<open>Kcc_GenRel\<close>: relations between the states before and after an operation: locales for the combinators, operators and
    visitors, interpreted for code that stays in its block, for the targets of \<open>break\<close> and \<open>continue\<close>, and for the insertion point.
  \<^item> \<open>Kcc_GenSample\<close>: four ways in which the generated code is wrong, in any environment and state, and a concrete builder
    with small programs that show them.
  \<^item> \<open>Kcc_Machine\<close>: a machine for blocks after LLVM's language reference (\<open>mstep\<close>), and the meaning of expressions (\<open>ev\<close>) and
    statements (\<open>exec\<close>) over \<open>int\<close> objects after the C standard.
  \<^item> \<open>Kcc_GenSim\<close>, \<open>Kcc_SimExpr\<close>, \<open>Kcc_SimPlace\<close>, \<open>Kcc_SimAssign\<close>: what the generator appends for one instruction, for the operators,
    for objects and assignments, and what the machine does with it (\<open>sim\<close>).
  \<^item> \<open>Kcc_SimJump\<close>, \<open>Kcc_SimBranch\<close>, \<open>Kcc_SimLogic\<close>, \<open>Kcc_SimVisit\<close>: code over several blocks: jumps, conditions (\<open>sim_br\<close>), \<open>&&\<close>,
    \<open>||\<close> and \<open>?:\<close> with their phi instructions, and all expressions of the fragment \<open>int_expr\<close>.
  \<^item> \<open>Kcc_SimStmt\<close>, \<open>Kcc_SimControl\<close>, \<open>Kcc_SimLoop\<close>, \<open>Kcc_SimFor\<close>, \<open>Kcc_SimCode\<close>: the same for statements (\<open>sim_st\<close>), where every
    outcome of \<open>exec\<close> has a place; runs of loops are followed by induction on the derivation of \<open>exec\<close>.
  \<^item> \<open>Kcc_GenRefine\<close>: the refinement theorem, the determinism of the machine, and a program that is run.

  \<^bold>\<open>The refinement.\<close> The abstract side is \<open>exec\<close> on stores of numbers, partial where C leaves the behaviour undefined; the
  concrete side is the machine on the blocks that the generator has made. A memory represents a store if it holds
  the numbers of the objects at their places. The theorem is about assignments, arithmetic, comparisons, logic, \<open>if\<close>,
  the loops, \<open>break\<close>, \<open>continue\<close> and \<open>return\<close> over \<open>int\<close> objects whose places are allocated; conditions are no
  constants, since the generator goes wrong there (\<open>Kcc_GenSample\<close>). It takes a depth of twice the size of the statement.
  Declarations, other types, calls, \<open>switch\<close> and \<open>goto\<close> are modelled, and covered by the invariant of blocks, but not by the refinement.

  \<^bold>\<open>Fuel.\<close> Loops of the parser that consume tokens are run for at most one turn more than there are
  tokens (\<open>looped\<close>), those over a list for its length (\<open>looped_over\<close>); recursive functions of the parser and the
  visitors of the generator are given a depth. \<open>Out_Of_Fuel\<close> is a value of its own: no property takes it
  for a run of the program. The grammar theorem gives the depth that is enough for an expression, the
  refinement theorem the depth that is enough for the code of a statement, the looping initialiser is shown to use up any fuel; the scanner's loops and the pools need none.

  \<^bold>\<open>Parameters.\<close> LLVM and Boost are not part of the repository. LLVM's constants are the record \<open>llvm\<close>, its
  data layout the record \<open>data_layout\<close>, the folding and typing of instructions the record \<open>ir\<close>, \<open>operator new\<close>
  the argument of the pools, the conversion of encodings an argument of the literals, the texts that Qt makes of numbers and strings the record \<open>json_env\<close>. Properties
  that rely on them name the laws (\<open>llvm_int_laws\<close>, \<open>llvm_ok\<close>, after the language reference) and have a witness on a concrete
  instance.

  \<^bold>\<open>Not modelled.\<close> The preprocessor driver, the optimiser, the object writer and the linker
  only call Clang and LLVM; the driver parses the command line and calls the stages; debug
  information is made only with \<open>-g\<close> and the model is of a run without it;
  the HTML around the JSON view is a constant;
  attributes are parsed and dropped, as in the program;
  the verifier of LLVM is not called at the end of \<open>GenCode\<close>; messages of diagnostics carry no position.
\<close>

end
